(* ===== verification/Prelude.thy ===== *)
theory Prelude
  imports Complex_Main "HOL-Library.Char_ord" "HOL-Library.List_Lexorder" "HOL-Library.Multiset"
begin

text \<open>
  What the components share: the part of Go's standard library that the modelled
  packages call (\<open>strings\<close>, \<open>sort\<close>, \<open>strconv\<close>/\<open>fmt\<close> for decimal numbers, \<open>math\<close> for
  non-finite floats), with the lemmas the component theories use about it.

  \<^item> A Go string is a \<^typ>\<open>string\<close>, a list of bytes. Go compares strings bytewise; the
    library's order on lists of characters is the same order, so \<open>sort.Strings\<close> is
    \<^const>\<open>sort\<close>.
  \<^item> A call that returns \<open>(T, error)\<close> is a value of \<open>'e + 'a\<close>, \<^const>\<open>Inl\<close> the error.
    A call that returns only \<open>error\<close> is a value of \<open>'e option\<close>, \<^const>\<open>None\<close> for nil.
  \<^item> An instant or a duration is an \<^typ>\<open>int\<close> number of nanoseconds.
\<close>

section \<open>Collections of facts\<close>

named_theorems go_str \<open>facts about the string functions\<close>

section \<open>Package strings\<close>

definition has_prefix :: "string \<Rightarrow> string \<Rightarrow> bool" where
  "has_prefix s p = (take (length p) s = p)"

definition has_suffix :: "string \<Rightarrow> string \<Rightarrow> bool" where
  "has_suffix s p = (length p \<le> length s \<and> drop (length s - length p) s = p)"

definition trim_prefix :: "string \<Rightarrow> string \<Rightarrow> string" where
  "trim_prefix s p = (if has_prefix s p then drop (length p) s else s)"

definition trim_suffix :: "string \<Rightarrow> string \<Rightarrow> string" where
  "trim_suffix s p = (if has_suffix s p then take (length s - length p) s else s)"

fun contains :: "string \<Rightarrow> string \<Rightarrow> bool" where
  "contains [] p = (p = [])"
| "contains (c # s) p = (has_prefix (c # s) p \<or> contains s p)"

text \<open>\<open>strings.Split(s, sep)\<close> for a separator of one byte; it never returns the empty slice.\<close>

fun split_on :: "char \<Rightarrow> string \<Rightarrow> string list" where
  "split_on c [] = [[]]"
| "split_on c (x # s) =
     (if x = c then [] # split_on c s
      else (case split_on c s of [] \<Rightarrow> [[x]] | w # ws \<Rightarrow> (x # w) # ws))"

text \<open>\<open>strings.Join(elems, sep)\<close>.\<close>

fun join_with :: "string \<Rightarrow> string list \<Rightarrow> string" where
  "join_with sep [] = []"
| "join_with sep [w] = w"
| "join_with sep (w # ws) = w @ sep @ join_with sep ws"

abbreviation newline :: char where
  "newline \<equiv> CHR 0x0A"

text \<open>The em dash of some messages, in UTF-8.\<close>

abbreviation em_dash :: string where
  "em_dash \<equiv> [CHR 0xE2, CHR 0x80, CHR 0x94]"

text \<open>
  \<open>strings.TrimSpace\<close> removes leading and trailing Unicode white space. The list holds
  the UTF-8 encoding of every code point that Go's \<open>unicode.IsSpace\<close> accepts, so that
  the functions below are exact on well-formed UTF-8.
\<close>

definition space_seqs :: "string list" where
  "space_seqs =
     [[CHR 0x09], [CHR 0x0A], [CHR 0x0B], [CHR 0x0C], [CHR 0x0D], [CHR 0x20],
      [CHR 0xC2, CHR 0x85], [CHR 0xC2, CHR 0xA0], [CHR 0xE1, CHR 0x9A, CHR 0x80],
      [CHR 0xE2, CHR 0x80, CHR 0x80], [CHR 0xE2, CHR 0x80, CHR 0x81],
      [CHR 0xE2, CHR 0x80, CHR 0x82], [CHR 0xE2, CHR 0x80, CHR 0x83],
      [CHR 0xE2, CHR 0x80, CHR 0x84], [CHR 0xE2, CHR 0x80, CHR 0x85],
      [CHR 0xE2, CHR 0x80, CHR 0x86], [CHR 0xE2, CHR 0x80, CHR 0x87],
      [CHR 0xE2, CHR 0x80, CHR 0x88], [CHR 0xE2, CHR 0x80, CHR 0x89],
      [CHR 0xE2, CHR 0x80, CHR 0x8A], [CHR 0xE2, CHR 0x80, CHR 0xA8],
      [CHR 0xE2, CHR 0x80, CHR 0xA9], [CHR 0xE2, CHR 0x80, CHR 0xAF],
      [CHR 0xE2, CHR 0x81, CHR 0x9F], [CHR 0xE3, CHR 0x80, CHR 0x80]]"

function trim_left_space :: "string \<Rightarrow> string" where
  "trim_left_space s =
     (case find (\<lambda>w. has_prefix s w) space_seqs of
        None \<Rightarrow> s
      | Some w \<Rightarrow> trim_left_space (drop (length w) s))"
  by pat_completeness auto
termination
proof (relation "measure length")
  fix s w :: string
  assume f: "find (\<lambda>w. has_prefix s w) space_seqs = Some w"
  have w: "w \<in> set space_seqs" and p: "take (length w) s = w"
    using f by (auto simp: find_Some_iff has_prefix_def)
  have "w \<noteq> []" using w by (auto simp: space_seqs_def)
  moreover have "s \<noteq> []" using p \<open>w \<noteq> []\<close> by (metis take_Nil)
  ultimately show "(drop (length w) s, s) \<in> measure length" by simp
qed simp

declare trim_left_space.simps [simp del]

function trim_right_space :: "string \<Rightarrow> string" where
  "trim_right_space s =
     (case find (\<lambda>w. has_suffix s w) space_seqs of
        None \<Rightarrow> s
      | Some w \<Rightarrow> trim_right_space (take (length s - length w) s))"
  by pat_completeness auto
termination
proof (relation "measure length")
  fix s w :: string
  assume f: "find (\<lambda>w. has_suffix s w) space_seqs = Some w"
  have w: "w \<in> set space_seqs" and p: "length w \<le> length s"
    using f by (auto simp: find_Some_iff has_suffix_def)
  have "w \<noteq> []" using w by (auto simp: space_seqs_def)
  then show "(take (length s - length w) s, s) \<in> measure length"
    using p by (cases w; cases s) auto
qed simp

declare trim_right_space.simps [simp del]

definition trim_space :: "string \<Rightarrow> string" where
  "trim_space s = trim_right_space (trim_left_space s)"

text \<open>
  \<open>strings.ToLower\<close>, as far as a search for ASCII text in its result can tell: ASCII
  letters, and the two code points outside ASCII whose lower case is an ASCII letter
  (U+0130 and U+212A). Every other code point keeps a multi-byte encoding without ASCII
  bytes in Go, and its bytes are left as they are here.
\<close>

definition lower_char :: "char \<Rightarrow> char" where
  "lower_char c =
     (if 65 \<le> (of_char c :: nat) \<and> (of_char c :: nat) \<le> 90 then char_of ((of_char c :: nat) + 32) else c)"

fun to_lower :: "string \<Rightarrow> string" where
  "to_lower [] = []"
| "to_lower [a] = [lower_char a]"
| "to_lower [a, b] =
     (if a = CHR 0xC4 \<and> b = CHR 0xB0 then ''i'' else lower_char a # to_lower [b])"
| "to_lower (a # b # c # s) =
     (if a = CHR 0xC4 \<and> b = CHR 0xB0 then CHR ''i'' # to_lower (c # s)
      else if a = CHR 0xE2 \<and> b = CHR 0x84 \<and> c = CHR 0xAA then CHR ''k'' # to_lower s
      else lower_char a # to_lower (b # c # s))"

section \<open>Package fmt and strconv\<close>

text \<open>The verb \<open>%d\<close>.\<close>

definition digit_char :: "nat \<Rightarrow> char" where
  "digit_char d = char_of (48 + d)"

fun show_nat :: "nat \<Rightarrow> string" where
  "show_nat n = (if n < 10 then [digit_char n] else show_nat (n div 10) @ [digit_char (n mod 10)])"

declare show_nat.simps [simp del]

definition show_int :: "int \<Rightarrow> string" where
  "show_int i = (if i < 0 then CHR ''-'' # show_nat (nat (- i)) else show_nat (nat i))"

text \<open>
  The verb \<open>%q\<close> (\<open>strconv.Quote\<close>): double quotes around the text, with a backslash
  before quotes and backslashes, the short escapes, and hexadecimal escapes of the other
  control characters. Bytes of 128 and more belong to printable code points and are copied.
\<close>

definition hex_digit :: "nat \<Rightarrow> char" where
  "hex_digit d = (if d < 10 then char_of (48 + d) else char_of (87 + d))"

definition quote_char :: "char \<Rightarrow> string" where
  "quote_char c =
     (if c = CHR 0x22 \<or> c = CHR 0x5C then [CHR 0x5C, c]
      else if c = CHR 0x07 then [CHR 0x5C, CHR ''a'']
      else if c = CHR 0x08 then [CHR 0x5C, CHR ''b'']
      else if c = CHR 0x0C then [CHR 0x5C, CHR ''f'']
      else if c = CHR 0x0A then [CHR 0x5C, CHR ''n'']
      else if c = CHR 0x0D then [CHR 0x5C, CHR ''r'']
      else if c = CHR 0x09 then [CHR 0x5C, CHR ''t'']
      else if c = CHR 0x0B then [CHR 0x5C, CHR ''v'']
      else if (of_char c :: nat) < 32 \<or> (of_char c :: nat) = 127
        then [CHR 0x5C, CHR ''x'', hex_digit (of_char c div 16), hex_digit (of_char c mod 16)]
      else [c])"

definition quote :: "string \<Rightarrow> string" where
  "quote s = CHR 0x22 # concat (map quote_char s) @ [CHR 0x22]"

section \<open>Floating-point values\<close>

text \<open>
  A \<open>float64\<close> is a rational number or one of the three non-finite values. The
  components that use this type compare such values and pass them on; the one place
  that subtracts two of them names the subtraction as a parameter.
\<close>

datatype f64 = Fin rat | PosInf | NegInf | NaN

text \<open>\<open>math.IsNaN(v) || math.IsInf(v, 0)\<close>.\<close>

definition non_finite :: "f64 \<Rightarrow> bool" where
  "non_finite v = (v = NaN \<or> v = PosInf \<or> v = NegInf)"

section \<open>Lemmas on strings\<close>

lemma has_prefix_iff [go_str]: "has_prefix s p \<longleftrightarrow> (\<exists>t. s = p @ t)"
  by (metis append_eq_conv_conj append_take_drop_id has_prefix_def)

lemma has_suffix_iff [go_str]: "has_suffix s p \<longleftrightarrow> (\<exists>t. s = t @ p)"
proof
  assume "has_suffix s p"
  then have "s = take (length s - length p) s @ p"
    unfolding has_suffix_def by (metis append_take_drop_id)
  then show "\<exists>t. s = t @ p" ..
qed (auto simp: has_suffix_def)

lemma has_prefix_refl [simp]: "has_prefix s s"
  by (simp add: has_prefix_def)

lemma has_prefix_Nil [simp]: "has_prefix s []"
  by (simp add: has_prefix_def)

lemma has_prefix_trans: "has_prefix s t \<Longrightarrow> has_prefix t u \<Longrightarrow> has_prefix s u"
  by (auto simp: has_prefix_iff)

lemma has_prefix_append [simp]: "has_prefix (p @ s) p"
  by (simp add: has_prefix_def)

lemma contains_iff [go_str]: "contains s p \<longleftrightarrow> (\<exists>a b. s = a @ p @ b)"
proof (induction s)
  case (Cons c s)
  show ?case
  proof
    assume "contains (c # s) p"
    then consider t where "c # s = p @ t" | a b where "s = a @ p @ b"
      using Cons by (auto simp: has_prefix_iff)
    then show "\<exists>a b. c # s = a @ p @ b"
    proof cases
      case 1
      then have "c # s = [] @ p @ t" by simp
      then show ?thesis by blast
    next
      case 2
      then have "c # s = (c # a) @ p @ b" by simp
      then show ?thesis by blast
    qed
  next
    assume "\<exists>a b. c # s = a @ p @ b"
    then obtain a b where ab: "c # s = a @ p @ b" by blast
    show "contains (c # s) p"
    proof (cases a)
      case Nil
      with ab have "has_prefix (c # s) p" by (simp add: has_prefix_def)
      then show ?thesis by simp
    next
      case (Cons x a')
      with ab have "s = a' @ p @ b" by simp
      then show ?thesis using Cons.IH by auto
    qed
  qed
qed simp

lemma split_on_not_Nil [simp]: "split_on c s \<noteq> []"
  by (induction s) (auto split: list.splits)

lemma split_on_no_sep: "c \<notin> set s \<Longrightarrow> split_on c s = [s]"
  by (induction s) auto

lemma split_on_parts: "w \<in> set (split_on c s) \<Longrightarrow> c \<notin> set w"
  by (induction s arbitrary: w) (auto split: list.splits if_splits)

lemma split_on_append_sep: "c \<notin> set w \<Longrightarrow> split_on c (w @ c # s) = w # split_on c s"
  by (induction w) auto

lemma join_with_Cons: "ws \<noteq> [] \<Longrightarrow> join_with sep (w # ws) = w @ sep @ join_with sep ws"
  by (cases ws) auto

text \<open>Splitting and joining at one byte are inverse to each other.\<close>

lemma join_split [simp]: "join_with [c] (split_on c s) = s"
proof (induction s)
  case (Cons x s)
  show ?case
    using Cons by (cases "split_on c s") (auto simp: join_with_Cons split: list.splits, cases "tl (split_on c s)", auto)
qed simp

lemma split_join:
  assumes "ws \<noteq> []" and "\<forall>w \<in> set ws. c \<notin> set w"
  shows "split_on c (join_with [c] ws) = ws"
  using assms
proof (induction ws)
  case (Cons w ws)
  then show ?case
    by (cases "ws = []") (auto simp: split_on_no_sep join_with_Cons split_on_append_sep)
qed simp

subsection \<open>Decimal numbers\<close>

lemma of_char_digit: "d < 10 \<Longrightarrow> of_char (digit_char d) = (48 + d :: nat)"
  by (simp add: digit_char_def)

lemma digit_char_inj: "d < 10 \<Longrightarrow> e < 10 \<Longrightarrow> digit_char d = digit_char e \<Longrightarrow> d = e"
  by (metis of_char_digit add_left_cancel)

lemma show_nat_not_Nil [simp]: "show_nat n \<noteq> []"
  by (subst show_nat.simps) simp

lemma show_nat_digits: "c \<in> set (show_nat n) \<Longrightarrow> \<exists>d < 10. c = digit_char d"
proof (induction n rule: show_nat.induct)
  case (1 n)
  show ?case
  proof (cases "n < 10")
    case True
    with "1.prems" show ?thesis by (auto simp: show_nat.simps [of n])
  next
    case False
    then show ?thesis
      using "1.prems" "1.IH" by (auto simp: show_nat.simps [of n] intro: exI [of _ "n mod 10"])
  qed
qed

lemma show_nat_inj: "show_nat m = show_nat n \<Longrightarrow> m = n"
proof (induction m arbitrary: n rule: show_nat.induct)
  case (1 m)
  have len: "n < 10 \<Longrightarrow> length (show_nat n) = 1" "\<not> n < 10 \<Longrightarrow> 1 < length (show_nat n)" for n
    by (simp_all add: show_nat.simps [of n])
  show ?case
  proof (cases "m < 10")
    case True
    moreover from this have "n < 10" using "1.prems" len by (metis less_irrefl)
    ultimately show ?thesis
      using "1.prems" by (simp add: show_nat.simps [of m] show_nat.simps [of n] digit_char_inj)
  next
    case False
    moreover from this have n: "\<not> n < 10" using "1.prems" len by (metis less_irrefl)
    ultimately have "show_nat (m div 10) = show_nat (n div 10)"
      and d: "digit_char (m mod 10) = digit_char (n mod 10)"
      using "1.prems" by (simp_all add: show_nat.simps [of m] show_nat.simps [of n])
    then have "m div 10 = n div 10" using "1.IH" False by blast
    moreover have "m mod 10 = n mod 10" using d by (auto intro: digit_char_inj)
    ultimately show ?thesis by (metis div_mult_mod_eq)
  qed
qed

lemma digit_char_not_dash: "d < 10 \<Longrightarrow> digit_char d \<noteq> CHR ''-''"
proof
  assume "d < 10" and "digit_char d = CHR ''-''"
  then have "(of_char (CHR ''-'') :: nat) = 48 + d" using of_char_digit by metis
  then show False by simp
qed

lemma digit_char_not_bar: "d < 10 \<Longrightarrow> digit_char d \<noteq> CHR ''|''"
proof
  assume "d < 10" and "digit_char d = CHR ''|''"
  then have "(of_char (CHR ''|'') :: nat) = 48 + d" using of_char_digit by metis
  then show False using \<open>d < 10\<close> by simp
qed

lemma show_int_inj: "show_int i = show_int j \<Longrightarrow> i = j"
proof -
  assume e: "show_int i = show_int j"
  have dash: "show_nat n \<noteq> CHR ''-'' # s" for n s
    using show_nat_digits [of "CHR ''-''" n] digit_char_not_dash by (metis list.set_intros(1))
  show "i = j"
    using e dash [of "nat i" "show_nat (nat (- j))"] dash [of "nat j" "show_nat (nat (- i))"]
    by (auto simp: show_int_def split: if_splits dest!: show_nat_inj) 
qed

lemma show_int_no_bar: "CHR ''|'' \<notin> set (show_int i)"
proof -
  have "CHR ''|'' \<notin> set (show_nat n)" for n
    using show_nat_digits [of "CHR ''|''" n] digit_char_not_bar by metis
  then show ?thesis by (simp add: show_int_def)
qed

section \<open>Lemmas on lists and maps\<close>

lemma sort_eq_iff_mset: "sort xs = sort ys \<longleftrightarrow> mset xs = mset (ys :: 'a::linorder list)"
  by (metis mset_sort properties_for_sort sorted_sort)

lemma sort_Nil_iff [simp]: "sort xs = [] \<longleftrightarrow> xs = []"
  by (metis length_0_conv length_sort)

lemma concat_map_Nil: "concat (map f xs) = [] \<longleftrightarrow> (\<forall>x \<in> set xs. f x = [])"
  by (induction xs) auto

lemma find_map_list: "find P (map f xs) = map_option f (find (\<lambda>x. P (f x)) xs)"
  by (induction xs) auto

lemma find_None_all: "find P xs = None \<longleftrightarrow> (\<forall>x \<in> set xs. \<not> P x)"
  by (auto simp: find_None_iff)

lemma sorted_le_last: "sorted xs \<Longrightarrow> x \<in> set xs \<Longrightarrow> x \<le> last xs"
  by (induction xs) auto

end
