(* ===== verification/State_Model.thy ===== *)
theory State_Model
  imports Prelude
begin

text \<open>
  The canonical workflow state model, package \<open>internal/state\<close>: the six statuses
  (\<open>status.go\<close>), the phase, wait-reason and result-code registries (\<open>registries.go\<close>), the
  deprecated alias of one result code (\<open>alias.go\<close>) and the validation of a transition
  record (\<open>transition.go\<close>). The lemmas show what a stream of validated transitions can
  look like and that reading a result code yields canonical codes only.
\<close>

section \<open>Statuses and registries\<close>

text \<open>
  \<open>Status\<close> is a string type with six constants; \<^term>\<open>StatusOther s\<close> stands for any other
  string, which no constant names.
\<close>

datatype status =
    StatusPending | StatusRunning | StatusWaiting
  | StatusSucceeded | StatusFailed | StatusCancelled | StatusOther string

type_synonym phase = string
type_synonym reason = string
type_synonym result_code = string

fun status_string :: "status \<Rightarrow> string" where
  "status_string StatusPending = ''PENDING''"
| "status_string StatusRunning = ''RUNNING''"
| "status_string StatusWaiting = ''WAITING''"
| "status_string StatusSucceeded = ''SUCCEEDED''"
| "status_string StatusFailed = ''FAILED''"
| "status_string StatusCancelled = ''CANCELLED''"
| "status_string (StatusOther s) = s"

fun IsTerminal :: "status \<Rightarrow> bool" where
  "IsTerminal StatusSucceeded = True"
| "IsTerminal StatusFailed = True"
| "IsTerminal StatusCancelled = True"
| "IsTerminal _ = False"

definition phaseRegistry :: "phase list" where
  "phaseRegistry =
     [''intake'', ''context-gathering'', ''specification'', ''planning'', ''admission'',
      ''implementation'', ''verifying'', ''reviewing'', ''integrating'', ''deploying'',
      ''observing'', ''improving'', ''curating'']"

definition KnownPhase :: "phase \<Rightarrow> bool" where
  "KnownPhase p = list_ex (\<lambda>known. known = p) phaseRegistry"

abbreviation ReasonProviderCapacity :: reason where "ReasonProviderCapacity \<equiv> ''provider-capacity''"
abbreviation ReasonProviderOutage :: reason where "ReasonProviderOutage \<equiv> ''provider-outage''"
abbreviation ReasonRateReset :: reason where "ReasonRateReset \<equiv> ''rate-reset''"
abbreviation ReasonSubscriptionReset :: reason where "ReasonSubscriptionReset \<equiv> ''subscription-reset''"
abbreviation ReasonHumanApproval :: reason where "ReasonHumanApproval \<equiv> ''human-approval''"
abbreviation ReasonHumanCommand :: reason where "ReasonHumanCommand \<equiv> ''human-command''"
abbreviation ReasonExternalDeployment :: reason where "ReasonExternalDeployment \<equiv> ''external-deployment''"
abbreviation ReasonBudget :: reason where "ReasonBudget \<equiv> ''budget''"
abbreviation ReasonSecurityHold :: reason where "ReasonSecurityHold \<equiv> ''security-hold''"
abbreviation ReasonBlockedDependency :: reason where "ReasonBlockedDependency \<equiv> ''blocked-dependency''"
abbreviation ReasonUnforeseenHumanGate :: reason where "ReasonUnforeseenHumanGate \<equiv> ''unforeseen-human-gate''"
abbreviation ReasonRetryBackoff :: reason where "ReasonRetryBackoff \<equiv> ''retry-backoff''"

definition reasonRegistry :: "reason list" where
  "reasonRegistry =
     [ReasonProviderCapacity, ReasonProviderOutage, ReasonRateReset, ReasonSubscriptionReset,
      ReasonHumanApproval, ReasonHumanCommand, ReasonExternalDeployment, ReasonBudget,
      ReasonSecurityHold, ReasonBlockedDependency, ReasonUnforeseenHumanGate, ReasonRetryBackoff]"

definition KnownReason :: "reason \<Rightarrow> bool" where
  "KnownReason r = list_ex (\<lambda>known. known = r) reasonRegistry"

abbreviation ResultProvenBlocked :: result_code where "ResultProvenBlocked \<equiv> ''PROVEN_BLOCKED''"
abbreviation ResultAdmissionRejected :: result_code where "ResultAdmissionRejected \<equiv> ''ADMISSION_REJECTED''"
abbreviation ResultTenXBranchHandoffReady :: result_code
  where "ResultTenXBranchHandoffReady \<equiv> ''TEN_X_BRANCH_HANDOFF_READY''"

definition resultCodeRegistry :: "(result_code \<times> status) list" where
  "resultCodeRegistry =
     [(ResultProvenBlocked, StatusFailed),
      (ResultAdmissionRejected, StatusFailed),
      (''ROLLED_BACK'', StatusFailed),
      (ResultTenXBranchHandoffReady, StatusSucceeded),
      (''MISSION_TARGET_REACHED'', StatusSucceeded),
      (''MISSION_NO_VIABLE_CANDIDATE'', StatusFailed),
      (''MISSION_BUDGET_EXHAUSTED'', StatusFailed),
      (''MISSION_TERMINATED_BY_POLICY'', StatusCancelled),
      (''MISSION_KILLED'', StatusCancelled),
      (''MISSION_MAINTENANCE_MODE'', StatusSucceeded),
      (''OPPORTUNITY_REJECTED'', StatusSucceeded),
      (''OPPORTUNITY_VALIDATION_REQUIRED'', StatusSucceeded),
      (''OPPORTUNITY_VERDICT_MISSING'', StatusFailed),
      (''OPPORTUNITY_VERDICT_UNREPRODUCIBLE'', StatusFailed)]"

text \<open>\<^const>\<open>None\<close> is the second result \<open>false\<close>.\<close>

fun known_result_code :: "(result_code \<times> status) list \<Rightarrow> result_code \<Rightarrow> status option" where
  "known_result_code [] c = None"
| "known_result_code ((code, st) # rest) c = (if code = c then Some st else known_result_code rest c)"

definition KnownResultCode :: "result_code \<Rightarrow> status option" where
  "KnownResultCode c = known_result_code resultCodeRegistry c"

definition DeprecatedAliasTenXBranchesReady :: string where
  "DeprecatedAliasTenXBranchesReady = ''TEN_X_BRANCHES_READY''"

definition NormalizeResultCode :: "string \<Rightarrow> result_code option" where
  "NormalizeResultCode s =
     (if s = DeprecatedAliasTenXBranchesReady then Some ResultTenXBranchHandoffReady
      else case KnownResultCode s of Some _ \<Rightarrow> Some s | None \<Rightarrow> None)"

section \<open>Transition records\<close>

record transition =
  tr_WorkflowID :: string
  tr_Status :: status
  tr_PhaseFrom :: phase
  tr_PhaseTo :: phase
  tr_Reason :: reason
  tr_ResultCode :: result_code
  tr_Actor :: string
  tr_Profile :: string
  tr_Evidence :: "string list"
  tr_CheckpointID :: string
  tr_Attempt :: int
  tr_NextAction :: string
  tr_WakeAt :: "int option"
  tr_OccurredAt :: int
  tr_EnvelopeDigest :: string

fun legalTransitions :: "status \<Rightarrow> status \<Rightarrow> bool" where
  "legalTransitions StatusPending to = (to = StatusRunning)"
| "legalTransitions StatusRunning to =
     (to \<in> {StatusWaiting, StatusSucceeded, StatusFailed, StatusCancelled})"
| "legalTransitions StatusWaiting to = (to \<in> {StatusRunning, StatusCancelled, StatusFailed})"
| "legalTransitions _ to = False"

datatype state_error = ErrIllegalTransition | ErrInvariantViolation

text \<open>\<open>Transition.Validate\<close>: \<^const>\<open>None\<close> is the nil error.\<close>

definition Transition_Validate :: "transition \<Rightarrow> status \<Rightarrow> status \<Rightarrow> state_error option" where
  "Transition_Validate t st0 to =
     (if IsTerminal st0 then Some ErrIllegalTransition
      else if \<not> legalTransitions st0 to then Some ErrIllegalTransition
      else if to = StatusWaiting \<and> tr_Reason t = [] then Some ErrInvariantViolation
      else if to = StatusSucceeded \<and> tr_Reason t \<noteq> [] then Some ErrInvariantViolation
      else if tr_ResultCode t \<noteq> [] then
        (case KnownResultCode (tr_ResultCode t) of
           None \<Rightarrow> Some ErrInvariantViolation
         | Some st \<Rightarrow> if st \<noteq> to then Some ErrInvariantViolation else None)
      else None)"

text \<open>
  A transition stream is well formed from a status when every record validates against
  the status the previous one reached.
\<close>

fun valid_stream :: "status \<Rightarrow> transition list \<Rightarrow> bool" where
  "valid_stream st [] = True"
| "valid_stream st (t # ts) = (Transition_Validate t st (tr_Status t) = None \<and> valid_stream (tr_Status t) ts)"

section \<open>Lemmas\<close>

lemma Transition_Validate_None_iff:
  "Transition_Validate t st0 to = None \<longleftrightarrow>
     \<not> IsTerminal st0 \<and> legalTransitions st0 to \<and>
     (to = StatusWaiting \<longrightarrow> tr_Reason t \<noteq> []) \<and> (to = StatusSucceeded \<longrightarrow> tr_Reason t = []) \<and>
     (tr_ResultCode t \<noteq> [] \<longrightarrow> KnownResultCode (tr_ResultCode t) = Some to)"
  by (auto simp: Transition_Validate_def split: option.splits)

lemma legal_to_waiting: "legalTransitions st0 StatusWaiting \<longleftrightarrow> st0 = StatusRunning"
  by (cases st0) auto

lemma legal_to_succeeded: "legalTransitions st0 StatusSucceeded \<longleftrightarrow> st0 = StatusRunning"
  by (cases st0) auto

lemma legal_never_to_pending: "\<not> legalTransitions st0 StatusPending"
  by (cases st0) auto

lemma valid_stream_append:
  "valid_stream st (ts @ us) \<longleftrightarrow>
     valid_stream st ts \<and> valid_stream (if ts = [] then st else tr_Status (last ts)) us"
  by (induction ts arbitrary: st) auto

lemma valid_stream_terminal: "IsTerminal st \<Longrightarrow> valid_stream st ts \<Longrightarrow> ts = []"
  by (cases ts) (auto simp: Transition_Validate_None_iff)

lemma KnownResultCode_range:
  "KnownResultCode c = Some st \<Longrightarrow> IsTerminal st"
  by (auto simp: KnownResultCode_def resultCodeRegistry_def split: if_splits)

lemma alias_not_known: "KnownResultCode DeprecatedAliasTenXBranchesReady = None"
  by (simp add: KnownResultCode_def resultCodeRegistry_def DeprecatedAliasTenXBranchesReady_def)



text \<open>
  reading a result code is idempotent and never yields the deprecated alias: whatever
  \<open>NormalizeResultCode\<close> accepts becomes a registered code, which is registered on a
  terminal status, and which it accepts again unchanged.
\<close>

theorem NormalizeResultCode_canonical:
  assumes "NormalizeResultCode s = Some c"
  shows "(\<exists>st. KnownResultCode c = Some st \<and> IsTerminal st)
    \<and> c \<noteq> DeprecatedAliasTenXBranchesReady \<and> NormalizeResultCode c = Some c"
proof -
  have "KnownResultCode ResultTenXBranchHandoffReady = Some StatusSucceeded"
    by (simp add: KnownResultCode_def resultCodeRegistry_def)
  then obtain st where st: "KnownResultCode c = Some st"
    using assms by (auto simp: NormalizeResultCode_def split: if_splits option.splits)
  then have "c \<noteq> DeprecatedAliasTenXBranchesReady" using alias_not_known by auto
  then show ?thesis
    using st KnownResultCode_range by (auto simp: NormalizeResultCode_def)
qed

theorem NormalizeResultCode_canonical_witness:
  "NormalizeResultCode ''TEN_X_BRANCHES_READY'' = Some ''TEN_X_BRANCH_HANDOFF_READY''
   \<and> NormalizeResultCode ''TEN_X_BRANCH_HANDOFF_READY'' = Some ''TEN_X_BRANCH_HANDOFF_READY''"
proof -
  have h: "NormalizeResultCode ''TEN_X_BRANCHES_READY'' = Some ''TEN_X_BRANCH_HANDOFF_READY''"
    by (simp add: NormalizeResultCode_def DeprecatedAliasTenXBranchesReady_def)
  show ?thesis using h NormalizeResultCode_canonical [OF h] by blast
qed

end
