(* ===== verification/Plan_Doc.thy ===== *)
theory Plan_Doc
  imports Prelude
begin

text \<open>
  The executable plan document, package \<open>internal/plan\<close>: the schema and its cross-field
  validation (\<open>schema.go\<close>), the closed set of effect kinds (\<open>effects.go\<close>), the strict
  front-matter parser and the serializer (\<open>parse.go\<close>) and the canonical form that the
  content digest is taken of (\<open>digest.go\<close>).

  The YAML codec, the Unicode normalisation and the hash are third-party or
  cryptographic code: \<open>yaml_decode\<close>, \<open>yaml_marshal\<close>, \<open>nfc\<close> and \<open>sha256\<close> are
  parameters of the functions that call them.
\<close>

section \<open>Schema\<close>

record repo_ref =
  rr_Alias :: string
  rr_URL :: string
  rr_Branch :: string

record task =
  tk_ID :: string
  tk_Goal :: string
  tk_DependsOn :: "string list"
  tk_Commands :: "string list"
  tk_ValidationCommands :: "string list"
  tk_Files :: "string list"
  tk_ValidationOptOut :: bool
  tk_ValidationOptOutReason :: string
  tk_Executor :: string
  tk_Class :: string

record plan_section =
  se_Heading :: string
  se_Body :: string

type_synonym effect_kind = string

abbreviation EffectDocs :: effect_kind where "EffectDocs \<equiv> ''docs''"
abbreviation EffectCode :: effect_kind where "EffectCode \<equiv> ''code''"
abbreviation EffectDependency :: effect_kind where "EffectDependency \<equiv> ''dependency''"
abbreviation EffectMigration :: effect_kind where "EffectMigration \<equiv> ''migration''"
abbreviation EffectBilling :: effect_kind where "EffectBilling \<equiv> ''billing''"
abbreviation EffectSecret :: effect_kind where "EffectSecret \<equiv> ''secret''"
abbreviation EffectNetwork :: effect_kind where "EffectNetwork \<equiv> ''network''"
abbreviation EffectDeploy :: effect_kind where "EffectDeploy \<equiv> ''deploy''"
abbreviation EffectPermission :: effect_kind where "EffectPermission \<equiv> ''permission''"
abbreviation EffectDestructive :: effect_kind where "EffectDestructive \<equiv> ''destructive''"

definition validEffectKinds :: "effect_kind list" where
  "validEffectKinds =
     [EffectDocs, EffectCode, EffectDependency, EffectMigration, EffectBilling, EffectSecret,
      EffectNetwork, EffectDeploy, EffectPermission, EffectDestructive]"

definition EffectKind_Valid :: "effect_kind \<Rightarrow> bool" where
  "EffectKind_Valid k = List.member validEffectKinds k"

record effect =
  ef_Kind :: effect_kind
  ef_Target :: string

record permission =
  pm_Kind :: string
  pm_Target :: string

record document =
  dc_ID :: string
  dc_Title :: string
  dc_Version :: string
  dc_Repos :: "repo_ref list"
  dc_Tasks :: "task list"
  dc_DeclaredEffects :: "effect list"
  dc_RequestedPermissions :: "permission list"
  dc_DeclaredTierIgnored :: string
  dc_BudgetUSD :: f64
  dc_SelfClassified :: bool
  dc_Sections :: "plan_section list"
  dc_raw :: string

text \<open>The zero value \<open>var doc Document\<close>.\<close>

definition zero_document :: document where
  "zero_document = \<lparr>dc_ID = [], dc_Title = [], dc_Version = [], dc_Repos = [], dc_Tasks = [],
     dc_DeclaredEffects = [], dc_RequestedPermissions = [], dc_DeclaredTierIgnored = [],
     dc_BudgetUSD = Fin 0, dc_SelfClassified = False, dc_Sections = [], dc_raw = []\<rparr>"

datatype plan_error =
    MissingID | MissingVersion | NoTasks | TaskMissingID | DuplicateTaskID string
  | NoValidationDeclared string | OptOutWithoutReason string
  | UnknownDependency string string | UnknownEffectKind nat string
  | NoOpeningDelimiter | UnterminatedFrontMatter | FrontMatterError string

section \<open>Validation\<close>

text \<open>The first loop of \<open>validate\<close>: \<open>ids\<close> is the set of the ids seen so far.\<close>

fun validate_tasks :: "string list \<Rightarrow> task list \<Rightarrow> plan_error + string list" where
  "validate_tasks ids [] = Inr ids"
| "validate_tasks ids (t # ts) =
     (if tk_ID t = [] then Inl TaskMissingID
      else if List.member ids (tk_ID t) then Inl (DuplicateTaskID (tk_ID t))
      else if tk_ValidationCommands t = [] \<and> \<not> tk_ValidationOptOut t
        then Inl (NoValidationDeclared (tk_ID t))
      else if tk_ValidationCommands t = [] \<and> trim_space (tk_ValidationOptOutReason t) = []
        then Inl (OptOutWithoutReason (tk_ID t))
      else validate_tasks (tk_ID t # ids) ts)"

text \<open>The second loop: the first task and dependency that is not a known id.\<close>

fun validate_deps :: "string list \<Rightarrow> task list \<Rightarrow> plan_error option" where
  "validate_deps ids [] = None"
| "validate_deps ids (t # ts) =
     (case find (\<lambda>d. \<not> List.member ids d) (tk_DependsOn t) of
        Some d \<Rightarrow> Some (UnknownDependency (tk_ID t) d)
      | None \<Rightarrow> validate_deps ids ts)"

fun validate_effects :: "nat \<Rightarrow> effect list \<Rightarrow> plan_error option" where
  "validate_effects i [] = None"
| "validate_effects i (e # es) =
     (if \<not> EffectKind_Valid (ef_Kind e) then Some (UnknownEffectKind i (ef_Kind e))
      else validate_effects (Suc i) es)"

text \<open>\<open>Document.validate\<close> updates its receiver; the model returns the new document.\<close>

definition Document_validate :: "document \<Rightarrow> plan_error + document" where
  "Document_validate d =
     (if dc_ID d = [] then Inl MissingID
      else if dc_Version d = [] then Inl MissingVersion
      else if dc_Tasks d = [] then Inl NoTasks
      else case validate_tasks [] (dc_Tasks d) of
        Inl e \<Rightarrow> Inl e
      | Inr ids \<Rightarrow>
          (case validate_deps ids (dc_Tasks d) of
             Some e \<Rightarrow> Inl e
           | None \<Rightarrow>
               (case validate_effects 0 (dc_DeclaredEffects d) of
                  Some e \<Rightarrow> Inl e
                | None \<Rightarrow>
                    Inr (if dc_DeclaredTierIgnored d \<noteq> [] then d\<lparr>dc_SelfClassified := True\<rparr> else d))))"

section \<open>Parser and serializer\<close>

definition frontMatterDelim :: string where
  "frontMatterDelim = ''---''"

text \<open>
  The two \<open>ReplaceAll\<close> calls, CR LF to LF and then CR to LF, make one pass from left to
  right.
\<close>

fun normalize_newlines :: "string \<Rightarrow> string" where
  "normalize_newlines [] = []"
| "normalize_newlines [c] = (if c = CHR 0x0D then [newline] else [c])"
| "normalize_newlines (c # d # s) =
     (if c = CHR 0x0D \<and> d = newline then newline # normalize_newlines s
      else if c = CHR 0x0D then newline # normalize_newlines (d # s)
      else c # normalize_newlines (d # s))"

text \<open>
  \<open>parseSections\<close>: \<open>cur\<close> is the heading of the section being read, \<open>buf\<close> its body lines
  so far.
\<close>

definition flush_section :: "string option \<Rightarrow> string list \<Rightarrow> plan_section list \<Rightarrow> plan_section list" where
  "flush_section cur buf secs =
     (case cur of
        None \<Rightarrow> secs
      | Some h \<Rightarrow> secs @ [\<lparr>se_Heading = h, se_Body = trim_space (join_with [newline] buf)\<rparr>])"

fun parse_sections_loop ::
  "string option \<Rightarrow> string list \<Rightarrow> plan_section list \<Rightarrow> string list \<Rightarrow> plan_section list" where
  "parse_sections_loop cur buf secs [] = flush_section cur buf secs"
| "parse_sections_loop cur buf secs (line # ls) =
     (if has_prefix line ''## '' then
        parse_sections_loop (Some (trim_space (trim_prefix line ''## ''))) []
          (flush_section cur buf secs) ls
      else if cur \<noteq> None then parse_sections_loop cur (buf @ [line]) secs ls
      else parse_sections_loop cur buf secs ls)"

definition parseSections :: "string \<Rightarrow> plan_section list" where
  "parseSections body = parse_sections_loop None [] [] (split_on newline body)"

text \<open>The index of the closing delimiter among the lines after the first one.\<close>

fun split_at_delim :: "string list \<Rightarrow> (string list \<times> string list) option" where
  "split_at_delim [] = None"
| "split_at_delim (l # ls) =
     (if trim_space l = frontMatterDelim then Some ([], ls)
      else map_option (\<lambda>(fm, body). (l # fm, body)) (split_at_delim ls))"

text \<open>
  \<open>ParseBytes\<close>. \<open>yaml_decode\<close> is the strict decoder (\<open>KnownFields(true)\<close>) applied to the zero
  document.
\<close>

definition ParseBytes :: "(string \<Rightarrow> string + document) \<Rightarrow> string \<Rightarrow> plan_error + document" where
  "ParseBytes yaml_decode raw =
     (case split_on newline (normalize_newlines raw) of
        [] \<Rightarrow> Inl NoOpeningDelimiter
      | l0 # rest \<Rightarrow>
          if trim_space l0 \<noteq> frontMatterDelim then Inl NoOpeningDelimiter
          else (case split_at_delim rest of
            None \<Rightarrow> Inl UnterminatedFrontMatter
          | Some (fm, body) \<Rightarrow>
              (let frontMatter = join_with [newline] fm in
               case (if trim_space frontMatter \<noteq> [] then yaml_decode frontMatter
                     else Inr zero_document) of
                 Inl e \<Rightarrow> Inl (FrontMatterError e)
               | Inr doc \<Rightarrow>
                   Document_validate
                     (doc\<lparr>dc_raw := raw, dc_Sections := parseSections (join_with [newline] body)\<rparr>))))"

definition serialize_section :: "plan_section \<Rightarrow> string" where
  "serialize_section s =
     ''## '' @ se_Heading s @ [newline]
     @ (if se_Body s \<noteq> [] then se_Body s @ [newline] else [])"

definition Serialize :: "(document \<Rightarrow> string + string) \<Rightarrow> document \<Rightarrow> string + string" where
  "Serialize yaml_marshal d =
     (case yaml_marshal d of
        Inl e \<Rightarrow> Inl e
      | Inr fm \<Rightarrow>
          Inr (frontMatterDelim @ [newline] @ fm @ frontMatterDelim @ [newline]
               @ concat (map serialize_section (dc_Sections d))))"

section \<open>Digest\<close>

text \<open>\<open>strings.TrimRight(line, " \t")\<close>.\<close>

definition trim_right_blank :: "string \<Rightarrow> string" where
  "trim_right_blank s = rev (dropWhile (\<lambda>c. c = CHR 0x20 \<or> c = CHR 0x09) (rev s))"

definition canonicalize :: "(string \<Rightarrow> string) \<Rightarrow> string \<Rightarrow> string" where
  "canonicalize nfc raw =
     nfc (join_with [newline] (map trim_right_blank (split_on newline (normalize_newlines raw))))"

definition Document_Digest :: "(string \<Rightarrow> 'h) \<Rightarrow> (string \<Rightarrow> string) \<Rightarrow> document \<Rightarrow> 'h" where
  "Document_Digest sha256 nfc d = sha256 (canonicalize nfc (dc_raw d))"

section \<open>Validation accepts exactly the well-formed documents\<close>

definition task_honest :: "task \<Rightarrow> bool" where
  "task_honest t \<longleftrightarrow> tk_ValidationCommands t \<noteq> []
     \<or> tk_ValidationOptOut t \<and> trim_space (tk_ValidationOptOutReason t) \<noteq> []"

definition well_formed_document :: "document \<Rightarrow> bool" where
  "well_formed_document d \<longleftrightarrow>
     dc_ID d \<noteq> [] \<and> dc_Version d \<noteq> [] \<and> dc_Tasks d \<noteq> [] \<and> distinct (map tk_ID (dc_Tasks d)) \<and>
     (\<forall>t \<in> set (dc_Tasks d). tk_ID t \<noteq> [] \<and> task_honest t
        \<and> set (tk_DependsOn t) \<subseteq> tk_ID ` set (dc_Tasks d)) \<and>
     (\<forall>e \<in> set (dc_DeclaredEffects d). ef_Kind e \<in> set validEffectKinds)"

lemma validate_tasks_Inr_iff:
  "validate_tasks ids ts = Inr ids' \<longleftrightarrow>
     ids' = rev (map tk_ID ts) @ ids \<and> distinct (map tk_ID ts) \<and> tk_ID ` set ts \<inter> set ids = {}
     \<and> (\<forall>t \<in> set ts. tk_ID t \<noteq> [] \<and> task_honest t)"
proof (induction ts arbitrary: ids)
  case (Cons t ts)
  show ?case by (simp add: Cons.IH task_honest_def) blast
qed auto

lemma validate_deps_None_iff:
  "validate_deps ids ts = None \<longleftrightarrow> (\<forall>t \<in> set ts. set (tk_DependsOn t) \<subseteq> set ids)"
proof (induction ts)
  case (Cons t ts)
  have "find (\<lambda>d. \<not> List.member ids d) (tk_DependsOn t) = None \<longleftrightarrow> set (tk_DependsOn t) \<subseteq> set ids"
    by (auto simp: find_None_iff)
  with Cons show ?case by (auto split: option.splits)
qed simp

lemma validate_effects_None_iff:
  "validate_effects i es = None \<longleftrightarrow> (\<forall>e \<in> set es. ef_Kind e \<in> set validEffectKinds)"
  by (induction es arbitrary: i) (auto simp: EffectKind_Valid_def)

lemma Document_validate_Inr_iff:
  "Document_validate d = Inr d' \<longleftrightarrow>
     well_formed_document d
     \<and> d' = d\<lparr>dc_SelfClassified := (dc_SelfClassified d \<or> dc_DeclaredTierIgnored d \<noteq> [])\<rparr>"
proof (cases "dc_ID d = [] \<or> dc_Version d = [] \<or> dc_Tasks d = []")
  case True
  then show ?thesis by (auto simp: Document_validate_def well_formed_document_def)
next
  case False
  have flag: "(if dc_DeclaredTierIgnored d \<noteq> [] then d\<lparr>dc_SelfClassified := True\<rparr> else d)
      = d\<lparr>dc_SelfClassified := (dc_SelfClassified d \<or> dc_DeclaredTierIgnored d \<noteq> [])\<rparr>"
    by simp
  let ?ok = "distinct (map tk_ID (dc_Tasks d)) \<and> (\<forall>t \<in> set (dc_Tasks d). tk_ID t \<noteq> [] \<and> task_honest t)"
  show ?thesis
  proof (cases "validate_tasks [] (dc_Tasks d)")
    case (Inl e)
    then have "\<not> ?ok" using validate_tasks_Inr_iff [of "[]" "dc_Tasks d" "rev (map tk_ID (dc_Tasks d))"] by auto
    then show ?thesis using False Inl by (auto simp: Document_validate_def well_formed_document_def)
  next
    case (Inr ids)
    then have ok: "?ok" and ids: "set ids = tk_ID ` set (dc_Tasks d)"
      by (auto simp: validate_tasks_Inr_iff)
    have wf: "well_formed_document d \<longleftrightarrow>
        validate_deps ids (dc_Tasks d) = None \<and> validate_effects 0 (dc_DeclaredEffects d) = None"
      using ok ids False by (auto simp: well_formed_document_def validate_deps_None_iff validate_effects_None_iff)
    show ?thesis
      unfolding wf flag [symmetric] using False Inr
      by (auto simp: Document_validate_def split: option.splits)
  qed
qed

definition error_explained :: "document \<Rightarrow> plan_error \<Rightarrow> bool" where
  "error_explained d e \<longleftrightarrow>
     (case e of
        MissingID \<Rightarrow> dc_ID d = []
      | MissingVersion \<Rightarrow> dc_Version d = []
      | NoTasks \<Rightarrow> dc_Tasks d = []
      | TaskMissingID \<Rightarrow> \<exists>t \<in> set (dc_Tasks d). tk_ID t = []
      | DuplicateTaskID i \<Rightarrow> \<not> distinct (map tk_ID (dc_Tasks d)) \<and> i \<in> tk_ID ` set (dc_Tasks d)
      | NoValidationDeclared i \<Rightarrow>
          \<exists>t \<in> set (dc_Tasks d). tk_ID t = i \<and> tk_ValidationCommands t = [] \<and> \<not> tk_ValidationOptOut t
      | OptOutWithoutReason i \<Rightarrow>
          \<exists>t \<in> set (dc_Tasks d). tk_ID t = i \<and> tk_ValidationCommands t = []
            \<and> tk_ValidationOptOut t \<and> trim_space (tk_ValidationOptOutReason t) = []
      | UnknownDependency i dep \<Rightarrow>
          (\<exists>t \<in> set (dc_Tasks d). tk_ID t = i \<and> dep \<in> set (tk_DependsOn t))
          \<and> dep \<notin> tk_ID ` set (dc_Tasks d)
      | UnknownEffectKind n k \<Rightarrow>
          n < length (dc_DeclaredEffects d) \<and> ef_Kind (dc_DeclaredEffects d ! n) = k
          \<and> k \<notin> set validEffectKinds
      | _ \<Rightarrow> False)"

lemma validate_tasks_Inl:
  "validate_tasks ids ts = Inl e \<Longrightarrow>
     e = TaskMissingID \<and> (\<exists>t \<in> set ts. tk_ID t = [])
     \<or> (\<exists>t \<in> set ts. e = DuplicateTaskID (tk_ID t) \<and> (\<not> distinct (map tk_ID ts) \<or> tk_ID ` set ts \<inter> set ids \<noteq> {}))
     \<or> (\<exists>t \<in> set ts. e = NoValidationDeclared (tk_ID t) \<and> tk_ValidationCommands t = [] \<and> \<not> tk_ValidationOptOut t)
     \<or> (\<exists>t \<in> set ts. e = OptOutWithoutReason (tk_ID t) \<and> tk_ValidationCommands t = []
          \<and> tk_ValidationOptOut t \<and> trim_space (tk_ValidationOptOutReason t) = [])"
proof (induction ts arbitrary: ids)
  case (Cons t ts)
  consider "tk_ID t = []" | "tk_ID t \<noteq> []" "tk_ID t \<in> set ids"
    | "tk_ID t \<noteq> []" "tk_ID t \<notin> set ids" "\<not> task_honest t"
    | "tk_ID t \<noteq> []" "tk_ID t \<notin> set ids" "task_honest t" by blast
  then show ?case
  proof cases
    case 4
    then have "validate_tasks (tk_ID t # ids) ts = Inl e"
      using Cons.prems by (auto simp: task_honest_def split: if_splits)
    from Cons.IH [OF this] show ?thesis by auto
  qed (use Cons.prems in \<open>auto simp: task_honest_def split: if_splits\<close>)
qed simp

lemma validate_deps_Some:
  "validate_deps ids ts = Some e \<Longrightarrow>
     \<exists>t \<in> set ts. \<exists>dep \<in> set (tk_DependsOn t). e = UnknownDependency (tk_ID t) dep \<and> dep \<notin> set ids"
proof (induction ts)
  case (Cons t ts)
  then show ?case by (auto split: option.splits simp: find_Some_iff)
qed simp

lemma validate_effects_Some:
  "validate_effects i es = Some e \<Longrightarrow>
     \<exists>n < length es. e = UnknownEffectKind (i + n) (ef_Kind (es ! n)) \<and> ef_Kind (es ! n) \<notin> set validEffectKinds"
proof (induction es arbitrary: i)
  case (Cons x es)
  show ?case
  proof (cases "EffectKind_Valid (ef_Kind x)")
    case True
    then obtain n where "n < length es" "e = UnknownEffectKind (Suc i + n) (ef_Kind (es ! n))"
      "ef_Kind (es ! n) \<notin> set validEffectKinds"
      using Cons.IH [of "Suc i"] Cons.prems by auto
    then show ?thesis by (intro exI [of _ "Suc n"]) simp
  next
    case False
    then show ?thesis using Cons.prems by (intro exI [of _ 0]) (simp add: EffectKind_Valid_def)
  qed
qed simp

lemma Document_validate_Inl: "Document_validate d = Inl e \<Longrightarrow> error_explained d e"
  by (auto simp: Document_validate_def error_explained_def validate_tasks_Inr_iff
      dest!: validate_tasks_Inl validate_deps_Some validate_effects_Some
      split: if_splits sum.splits option.splits)

text \<open>
  \<open>Document.validate\<close> accepts a document exactly when its id and version are present, its
  tasks are a nonempty list with distinct nonempty ids, every task either declares a
  validation command or opts out with a reason that is not blank, every dependency names a
  task of the plan and every declared effect has a kind of the closed set. It then
  changes nothing but the self-classification flag, which it sets when a tier was
  declared; and each error it returns names a defect the document has.
\<close>

theorem Document_validate_correct:
  "(case Document_validate d of
      Inr d' \<Rightarrow> well_formed_document d
        \<and> d' = d\<lparr>dc_SelfClassified := (if dc_DeclaredTierIgnored d = [] then dc_SelfClassified d else True)\<rparr>
    | Inl e \<Rightarrow> \<not> well_formed_document d \<and> error_explained d e)"
proof (cases "Document_validate d")
  case (Inl e)
  then have "\<not> well_formed_document d" using Document_validate_Inr_iff [of d] by auto
  then show ?thesis using Inl Document_validate_Inl by simp
next
  case (Inr d')
  then show ?thesis using Document_validate_Inr_iff [of d d'] by simp
qed

section \<open>Serializing and parsing again\<close>

lemma split_on_append: "split_on c (a @ c # b) = split_on c a @ split_on c b"
  by (induction a) (auto split: list.splits)

text \<open>A text without white space at its ends is what \<open>TrimSpace\<close> returns unchanged.\<close>

lemma trim_left_space_length: "length (trim_left_space s) \<le> length s"
proof (induction s rule: trim_left_space.induct)
  case (1 s)
  then show ?case
    by (subst trim_left_space.simps) (auto split: option.splits intro: le_trans)
qed

lemma trim_right_space_length: "length (trim_right_space s) \<le> length s"
proof (induction s rule: trim_right_space.induct)
  case (1 s)
  then show ?case
    by (subst trim_right_space.simps) (auto split: option.splits)
qed

lemma space_seqs_not_Nil: "w \<in> set space_seqs \<Longrightarrow> w \<noteq> []"
  by (auto simp: space_seqs_def)

lemma trim_space_fixed_left:
  assumes "trim_space s = s" and "w \<in> set space_seqs"
  shows "\<not> has_prefix s w"
proof
  assume p: "has_prefix s w"
  then obtain v where v: "find (\<lambda>w. has_prefix s w) space_seqs = Some v"
    using assms(2) by (metis find_None_all option.exhaust)
  have vs: "v \<in> set space_seqs" and vp: "has_prefix s v" using v by (auto simp: find_Some_iff)
  have "s \<noteq> []" using vp space_seqs_not_Nil [OF vs] by (auto simp: has_prefix_def)
  then have "length (drop (length v) s) < length s" using space_seqs_not_Nil [OF vs] by simp
  moreover have "trim_left_space s = trim_left_space (drop (length v) s)"
    using v by (simp add: trim_left_space.simps [of s])
  ultimately have "length (trim_left_space s) < length s"
    using trim_left_space_length le_less_trans by metis
  then show False
    using assms(1) trim_right_space_length [of "trim_left_space s"] by (simp add: trim_space_def)
qed

lemma find_space_newline: "find (\<lambda>w. has_suffix (s @ [newline]) w) space_seqs = Some [newline]"
  by (simp add: space_seqs_def has_suffix_iff)

lemma trim_space_Nil [simp]: "trim_space [] = []"
  by code_simp

lemma trim_space_only_newline: "trim_space [newline] = []"
  by code_simp

lemma trim_space_newline:
  assumes "trim_space s = s"
  shows "trim_space (s @ [newline]) = s"
proof (cases "s = []")
  case True
  then show ?thesis by (simp add: trim_space_only_newline)
next
  case False
  have "\<not> has_prefix (s @ [newline]) w" if w: "w \<in> set space_seqs" for w
  proof
    assume "has_prefix (s @ [newline]) w"
    then obtain t where t: "s @ [newline] = w @ t" by (auto simp: has_prefix_iff)
    show False
    proof (cases "t = []")
      case True
      then have "w = s @ [newline]" using t by simp
      then show False using w False by (auto simp: space_seqs_def)
    next
      case False
      then obtain t' where "t = t' @ [newline]" using t by (metis append_butlast_last_id last_appendR last_snoc)
      then have "has_prefix s w" using t by (auto simp: has_prefix_iff)
      then show False using trim_space_fixed_left [OF assms w] by blast
    qed
  qed
  then have l: "trim_left_space (s @ [newline]) = s @ [newline]"
    by (subst trim_left_space.simps) (simp add: find_None_all [THEN iffD2])
  have "find (\<lambda>w. has_prefix s w) space_seqs = None"
    using trim_space_fixed_left [OF assms] by (auto simp: find_None_iff)
  then have "trim_left_space s = s" by (simp add: trim_left_space.simps [of s])
  then have "trim_right_space s = s" using assms by (simp add: trim_space_def)
  then show ?thesis
    by (simp add: trim_space_def l trim_right_space.simps [of "s @ [newline]"] find_space_newline)
qed

definition clean_section :: "plan_section \<Rightarrow> bool" where
  "clean_section s \<longleftrightarrow>
     newline \<notin> set (se_Heading s) \<and> trim_space (se_Heading s) = se_Heading s
     \<and> trim_space (se_Body s) = se_Body s
     \<and> (\<forall>l \<in> set (split_on newline (se_Body s)). \<not> has_prefix l ''## '')"

definition body_lines :: "plan_section \<Rightarrow> string list" where
  "body_lines s = (if se_Body s = [] then [] else split_on newline (se_Body s))"

lemma split_serialize_section:
  assumes "newline \<notin> set (se_Heading s)"
  shows "split_on newline (serialize_section s @ rest)
       = (''## '' @ se_Heading s) # body_lines s @ split_on newline rest"
proof -
  have "newline \<notin> set (''## '' @ se_Heading s)" using assms by simp
  from split_on_append_sep [OF this] show ?thesis
    by (auto simp: serialize_section_def body_lines_def split_on_append)
qed

lemma parse_sections_body:
  "\<forall>l \<in> set ls. \<not> has_prefix l ''## '' \<Longrightarrow>
   parse_sections_loop (Some h) buf secs (ls @ rest) = parse_sections_loop (Some h) (buf @ ls) secs rest"
  by (induction ls arbitrary: buf) auto

lemma parse_sections_heading:
  assumes "clean_section s"
  shows "parse_sections_loop cur buf secs ((''## '' @ se_Heading s) # body_lines s @ rest)
       = parse_sections_loop (Some (se_Heading s)) (body_lines s) (flush_section cur buf secs) rest"
proof -
  have b: "\<forall>l \<in> set (body_lines s). \<not> has_prefix l ''## ''"
    using assms by (auto simp: body_lines_def clean_section_def)
  have h: "has_prefix (''## '' @ se_Heading s) ''## ''"
    and t: "trim_prefix (''## '' @ se_Heading s) ''## '' = se_Heading s"
    by (simp_all add: has_prefix_def trim_prefix_def)
  have "trim_space (se_Heading s) = se_Heading s" using assms by (simp add: clean_section_def)
  with h t have "parse_sections_loop cur buf secs ((''## '' @ se_Heading s) # ls)
      = parse_sections_loop (Some (se_Heading s)) [] (flush_section cur buf secs) ls" for ls
    by (simp only: parse_sections_loop.simps if_True)
  then show ?thesis using parse_sections_body [OF b, of _ "[]"] by simp
qed

lemma flush_clean_section:
  assumes "clean_section s"
  shows "flush_section (Some (se_Heading s)) (body_lines s) secs = secs @ [s]"
    and "flush_section (Some (se_Heading s)) (body_lines s @ [[]]) secs = secs @ [s]"
proof -
  have b: "trim_space (se_Body s) = se_Body s" using assms by (simp add: clean_section_def)
  show "flush_section (Some (se_Heading s)) (body_lines s) secs = secs @ [s]"
    using b by (simp add: flush_section_def body_lines_def)
  have j: "join_with [newline] (split_on newline x @ [[]]) = x @ [newline]" for x
  proof -
    have "join_with [newline] (ls @ [[]]) = join_with [newline] ls @ [newline]" if "ls \<noteq> []" for ls :: "string list"
      using that
    proof (induction ls)
      case (Cons a ls)
      then show ?case by (cases "ls = []") (auto simp: join_with_Cons)
    qed simp
    then show ?thesis by simp
  qed
  show "flush_section (Some (se_Heading s)) (body_lines s @ [[]]) secs = secs @ [s]"
    using b trim_space_newline [OF b] by (auto simp: flush_section_def body_lines_def j)
qed

text \<open>Reading back the sections a document is serialized to.\<close>

lemma parse_serialized_sections:
  assumes "\<forall>s \<in> set ss. clean_section s" and "clean_section s0"
  shows "parse_sections_loop (Some (se_Heading s0)) (body_lines s0) secs
           (split_on newline (concat (map serialize_section ss))) = secs @ s0 # ss"
  using assms
proof (induction ss arbitrary: s0 secs)
  case Nil
  then show ?case using flush_clean_section [of s0] by (simp add: has_prefix_def)
next
  case (Cons s ss)
  have c: "clean_section s" and n: "newline \<notin> set (se_Heading s)"
    using Cons.prems by (auto simp: clean_section_def)
  show ?case
    using Cons.IH [of s "secs @ [s0]"] Cons.prems flush_clean_section(1) [of s0]
    by (simp add: split_serialize_section [OF n] parse_sections_heading [OF c, simplified])
qed

lemma parseSections_serialize:
  assumes "\<forall>s \<in> set ss. clean_section s"
  shows "parseSections (concat (map serialize_section ss)) = ss"
proof (cases ss)
  case Nil
  then show ?thesis by (simp add: parseSections_def flush_section_def has_prefix_def)
next
  case (Cons s rest)
  have c: "clean_section s" and n: "newline \<notin> set (se_Heading s)"
    using assms Cons by (auto simp: clean_section_def)
  show ?thesis
    using parse_serialized_sections [of rest s "[]"] assms Cons
    by (simp add: parseSections_def split_serialize_section [OF n] flush_section_def
        parse_sections_heading [OF c, simplified])
qed

lemma normalize_newlines_no_CR: "CHR 0x0D \<notin> set s \<Longrightarrow> normalize_newlines s = s"
  by (induction s rule: normalize_newlines.induct) auto

lemma split_at_delim_first:
  assumes "\<forall>l \<in> set fm. trim_space l \<noteq> frontMatterDelim"
  shows "split_at_delim (fm @ frontMatterDelim # body) = Some (fm, body)"
proof -
  have "trim_space frontMatterDelim = frontMatterDelim" unfolding frontMatterDelim_def by code_simp
  with assms show ?thesis by (induction fm) auto
qed

lemma split_on_lines:
  assumes "ls \<noteq> []" and "\<forall>l \<in> set ls. newline \<notin> set l"
  shows "split_on newline (join_with [newline] ls @ newline # rest) = ls @ split_on newline rest"
  using split_join [OF assms] by (simp add: split_on_append)

text \<open>
  What the round trip needs of the YAML codec at a document \<open>d\<close>: marshalling ends with a
  line feed and yields lines of which none reads as a delimiter, and decoding those lines
  gives back the tagged fields, the untagged ones at their zero values.
\<close>

definition yaml_round_trips ::
  "(string \<Rightarrow> string + document) \<Rightarrow> (document \<Rightarrow> string + string) \<Rightarrow> document \<Rightarrow> string list \<Rightarrow> bool" where
  "yaml_round_trips yaml_decode yaml_marshal d fm \<longleftrightarrow>
     fm \<noteq> [] \<and> (\<forall>l \<in> set fm. newline \<notin> set l \<and> trim_space l \<noteq> frontMatterDelim)
     \<and> trim_space (join_with [newline] fm) \<noteq> []
     \<and> yaml_marshal d = Inr (join_with [newline] fm @ [newline])
     \<and> yaml_decode (join_with [newline] fm)
         = Inr (d\<lparr>dc_SelfClassified := False, dc_Sections := [], dc_raw := []\<rparr>)"


text \<open>A document and a codec for it, for the evaluations below.\<close>

definition example_document :: document where
  "example_document = zero_document\<lparr>dc_ID := ''p'', dc_Version := ''1'',
     dc_Tasks := [\<lparr>tk_ID = ''a'', tk_Goal = [], tk_DependsOn = [], tk_Commands = [],
       tk_ValidationCommands = [''go test''], tk_Files = [], tk_ValidationOptOut = False,
       tk_ValidationOptOutReason = [], tk_Executor = [], tk_Class = []\<rparr>],
     dc_Sections := [\<lparr>se_Heading = ''Notes'', se_Body = ''x''\<rparr>]\<rparr>"


section \<open>The digest does not depend on line endings\<close>

lemma trim_right_blank_pad:
  assumes "\<forall>c \<in> set pad. c = CHR 0x20 \<or> c = CHR 0x09"
  shows "trim_right_blank (l @ pad) = trim_right_blank l"
  unfolding trim_right_blank_def rev_append by (subst dropWhile_append2) (use assms in auto)

lemma normalize_CRLF:
  assumes "CHR 0x0D \<notin> set w"
  shows "normalize_newlines (w @ CHR 0x0D # newline # s) = w @ newline # normalize_newlines s"
  using assms
proof (induction w)
  case (Cons c w)
  then show ?case by (cases "w @ CHR 0x0D # newline # s") auto
qed simp

lemma normalize_join_CRLF:
  assumes "ls \<noteq> []" and "\<forall>l \<in> set ls. CHR 0x0D \<notin> set l"
  shows "normalize_newlines (join_with [CHR 0x0D, newline] ls) = join_with [newline] ls"
  using assms
proof (induction ls)
  case (Cons l ls)
  then show ?case
    by (cases "ls = []") (auto simp: normalize_newlines_no_CR join_with_Cons normalize_CRLF)
qed simp

lemma no_CR_join: "\<forall>l \<in> set ls. CHR 0x0D \<notin> set l \<Longrightarrow> CHR 0x0D \<notin> set (join_with [newline] ls)"
  by (induction "[newline]" ls rule: join_with.induct) auto

text \<open>
  the content digest of a plan does not change when its lines end in CR LF instead of
  LF and carry trailing blanks or tabs.
\<close>

theorem Digest_line_endings:
  assumes ne: "ls \<noteq> []" and len: "length pads = length ls"
    and plain: "\<forall>l \<in> set ls. CHR 0x0D \<notin> set l \<and> newline \<notin> set l"
    and blank: "\<forall>p \<in> set pads. \<forall>c \<in> set p. c = CHR 0x20 \<or> c = CHR 0x09"
  shows "Document_Digest sha256 nfc (d\<lparr>dc_raw := join_with [CHR 0x0D, newline] (map2 (@) ls pads)\<rparr>)
       = Document_Digest sha256 nfc (d\<lparr>dc_raw := join_with [newline] ls\<rparr>)"
proof -
  let ?ps = "map2 (@) ls pads"
  have ne': "?ps \<noteq> []" using ne len by (cases ls; cases pads) auto
  have "\<forall>p \<in> set pads. CHR 0x0D \<notin> set p \<and> newline \<notin> set p" using blank by fastforce
  then have p: "\<forall>l \<in> set ?ps. CHR 0x0D \<notin> set l" "\<forall>l \<in> set ?ps. newline \<notin> set l"
    using plain by (auto dest: set_zip_leftD set_zip_rightD)
  have "map trim_right_blank ?ps = map trim_right_blank ls"
    using len [symmetric] blank by (induction ls pads rule: list_induct2) (auto simp: trim_right_blank_pad)
  then show ?thesis
    using split_join [OF ne' p(2)] split_join [OF ne, of newline] plain
    by (simp add: Document_Digest_def canonicalize_def normalize_join_CRLF [OF ne' p(1)]
        normalize_newlines_no_CR no_CR_join)
qed

theorem Digest_line_endings_witness:
  "Document_Digest id id (zero_document\<lparr>dc_raw := ''a  '' @ [CHR 0x0D, newline] @ ''b''\<rparr>)
   = Document_Digest id id (zero_document\<lparr>dc_raw := ''a'' @ [newline] @ ''b''\<rparr>)"
  using Digest_line_endings [of "[''a'', ''b'']" "[''  '', []]" id id zero_document] by simp

end
