(* ===== verification/Plan_Topology.thy ===== *)
theory Plan_Topology
  imports Plan_Doc
begin

text \<open>
  The static validator of a plan's task graph, \<open>internal/plan/topology.go\<close>: duplicate ids, self
  and unknown dependencies, cycle detection by depth-first search with colours,
  transitive reachability, wave order and output-path overlap inside a wave.

  The two recursive closures of the source (\<open>dfs\<close> and \<open>walk\<close>) are mutual recursions with
  fuel; the lemmas \<open>dfs_correct\<close> and \<open>walk_correct\<close> show that as much fuel as there are
  tasks is enough and that the results are exact.
\<close>

section \<open>Data\<close>

record topology_task =
  tt_ID :: string
  tt_DependsOn :: "string list"
  tt_Wave :: int
  tt_Files :: "string list"

datatype violation =
    DuplicateID string
  | SelfDependency string
  | UnknownDep string string
  | DependencyCycle "string list"
  | AssignedBeforeDep string int string int
  | SharedWaveDependency string string int
  | SharedWaveOverlap string string int string

fun violation_string :: "violation \<Rightarrow> string" where
  "violation_string (DuplicateID i) = ''duplicate task id '' @ quote i"
| "violation_string (SelfDependency i) = ''task '' @ quote i @ '' depends on itself''"
| "violation_string (UnknownDep i d) = ''task '' @ quote i @ '' depends on unknown task '' @ quote d"
| "violation_string (DependencyCycle p) = ''dependency cycle detected: '' @ join_with '' -> '' p"
| "violation_string (AssignedBeforeDep i w d dw) =
     ''task '' @ quote i @ '' (wave '' @ show_int w @ '') is assigned before or with its dependency ''
     @ quote d @ '' (wave '' @ show_int dw @ '')''"
| "violation_string (SharedWaveDependency a b w) =
     ''tasks '' @ quote a @ '' and '' @ quote b @ '' share parallel wave '' @ show_int w
     @ '' but one depends on the other''"
| "violation_string (SharedWaveOverlap a b w p) =
     ''tasks '' @ quote a @ '' and '' @ quote b @ '' in parallel wave '' @ show_int w
     @ '' overlap on output path '' @ quote p"

section \<open>Dependency edges\<close>

fun duplicate_ids :: "string list \<Rightarrow> topology_task list \<Rightarrow> violation list" where
  "duplicate_ids ids [] = []"
| "duplicate_ids ids (t # ts) =
     (if tt_ID t \<in> set ids then [DuplicateID (tt_ID t)] else []) @ duplicate_ids (tt_ID t # ids) ts"

definition bad_deps :: "string list \<Rightarrow> topology_task \<Rightarrow> violation list" where
  "bad_deps ids t =
     concat (map (\<lambda>dep. if dep = tt_ID t then [SelfDependency (tt_ID t)]
                        else if dep \<notin> set ids then [UnknownDep (tt_ID t) dep] else []) (tt_DependsOn t))"

text \<open>The map \<open>adj\<close>: the sound dependencies of every task with this id, in order.\<close>

definition dep_edges :: "topology_task list \<Rightarrow> string \<Rightarrow> string list" where
  "dep_edges tasks n =
     concat (map (\<lambda>t. if tt_ID t = n
                      then filter (\<lambda>dep. dep \<noteq> tt_ID t \<and> dep \<in> set (map tt_ID tasks)) (tt_DependsOn t)
                      else []) tasks)"

section \<open>Cycle detection\<close>

datatype color = White | Gray | Black

datatype dfs_result = NoCycle | CyclePath "string list" | OutOfFuel

type_synonym dfs_state = "(string \<Rightarrow> color) \<times> string list"

fun dfs :: "nat \<Rightarrow> (string \<Rightarrow> string list) \<Rightarrow> string \<Rightarrow> dfs_state \<Rightarrow> dfs_result \<times> dfs_state"
and dfs_succs ::
  "nat \<Rightarrow> (string \<Rightarrow> string list) \<Rightarrow> string list \<Rightarrow> dfs_state \<Rightarrow> dfs_result \<times> dfs_state"
where
  "dfs 0 adj n st = (OutOfFuel, st)"
| "dfs (Suc fuel) adj n (color, stack) =
     (case dfs_succs fuel adj (adj n) (color(n := Gray), stack @ [n]) of
        (NoCycle, (color', stack')) \<Rightarrow> (NoCycle, (color'(n := Black), butlast stack'))
      | r \<Rightarrow> r)"
| "dfs_succs fuel adj [] st = (NoCycle, st)"
| "dfs_succs fuel adj (m # ms) (color, stack) =
     (case color m of
        Gray \<Rightarrow> (CyclePath (stack @ [m]), (color, stack))
      | White \<Rightarrow>
          (case dfs fuel adj m (color, stack) of
             (NoCycle, st') \<Rightarrow> dfs_succs fuel adj ms st'
           | r \<Rightarrow> r)
      | Black \<Rightarrow> dfs_succs fuel adj ms (color, stack))"

fun find_cycle_from ::
  "nat \<Rightarrow> (string \<Rightarrow> string list) \<Rightarrow> string list \<Rightarrow> dfs_state \<Rightarrow> dfs_result" where
  "find_cycle_from fuel adj [] st = NoCycle"
| "find_cycle_from fuel adj (i # order) (color, stack) =
     (if color i = White then
        (case dfs fuel adj i (color, stack) of
           (NoCycle, st') \<Rightarrow> find_cycle_from fuel adj order st'
         | (r, _) \<Rightarrow> r)
      else find_cycle_from fuel adj order (color, stack))"

definition findCycle :: "topology_task list \<Rightarrow> (string \<Rightarrow> string list) \<Rightarrow> dfs_result" where
  "findCycle tasks adj =
     find_cycle_from (length tasks) adj (sort (map tt_ID tasks)) (\<lambda>_. White, [])"

section \<open>Transitive reachability\<close>

fun walk :: "nat \<Rightarrow> (string \<Rightarrow> string list) \<Rightarrow> string \<Rightarrow> string list \<Rightarrow> string list option"
and walk_succs ::
  "nat \<Rightarrow> (string \<Rightarrow> string list) \<Rightarrow> string list \<Rightarrow> string list \<Rightarrow> string list option"
where
  "walk 0 adj n seen = None"
| "walk (Suc fuel) adj n seen = walk_succs fuel adj (adj n) seen"
| "walk_succs fuel adj [] seen = Some seen"
| "walk_succs fuel adj (m # ms) seen =
     (if m \<in> set seen then walk_succs fuel adj ms seen
      else (case walk fuel adj m (m # seen) of
              None \<Rightarrow> None
            | Some seen' \<Rightarrow> walk_succs fuel adj ms seen'))"

text \<open>\<open>reach[a][b]\<close>.\<close>

definition transitiveReach :: "topology_task list \<Rightarrow> (string \<Rightarrow> string list) \<Rightarrow> string \<Rightarrow> string \<Rightarrow> bool" where
  "transitiveReach tasks adj a b =
     (case walk (Suc (length tasks)) adj a [] of None \<Rightarrow> False | Some seen \<Rightarrow> b \<in> set seen)"

section \<open>Output paths\<close>

definition normalizePaths :: "string list \<Rightarrow> string list" where
  "normalizePaths ps =
     sort (filter (\<lambda>p. p \<noteq> []) (map (\<lambda>p. trim_suffix (trim_prefix (trim_space p) ''./'') ''/'') ps))"

definition wildcard_stem :: "string \<Rightarrow> string" where
  "wildcard_stem a = trim_suffix (trim_suffix (trim_suffix a ''**'') ''*'') ''/''"

definition pathsConflict :: "string \<Rightarrow> string \<Rightarrow> bool" where
  "pathsConflict a b =
     (if a = b then True
      else let as = wildcard_stem a; bs = wildcard_stem b in
        if as = [] \<or> bs = [] then False
        else has_prefix (as @ ''/'') (bs @ ''/'') \<or> has_prefix (bs @ ''/'') (as @ ''/''))"

text \<open>The empty string is "no overlap", as in the source.\<close>

definition pathOverlap :: "string list \<Rightarrow> string list \<Rightarrow> string" where
  "pathOverlap a b =
     (case find (\<lambda>pa. list_ex (pathsConflict pa) (normalizePaths b)) (normalizePaths a) of
        None \<Rightarrow> [] | Some pa \<Rightarrow> pa)"

section \<open>The validator\<close>

text \<open>\<open>waveOf\<close>: a later task with the same id overwrites an earlier one.\<close>

definition wave_of :: "topology_task list \<Rightarrow> string \<Rightarrow> int" where
  "wave_of tasks i = (case find (\<lambda>t. tt_ID t = i) (rev tasks) of None \<Rightarrow> 0 | Some t \<Rightarrow> tt_Wave t)"

definition early_tasks :: "topology_task list \<Rightarrow> (string \<Rightarrow> string list) \<Rightarrow> violation list" where
  "early_tasks tasks adj =
     concat (map (\<lambda>t. concat (map (\<lambda>dep.
         if tt_Wave t \<le> wave_of tasks dep
         then [AssignedBeforeDep (tt_ID t) (tt_Wave t) dep (wave_of tasks dep)] else []) (adj (tt_ID t))))
       tasks)"

definition pair_violations ::
  "(string \<Rightarrow> string \<Rightarrow> bool) \<Rightarrow> int \<Rightarrow> topology_task \<Rightarrow> topology_task \<Rightarrow> violation list" where
  "pair_violations reach w a b =
     (if reach (tt_ID a) (tt_ID b) \<or> reach (tt_ID b) (tt_ID a)
      then [SharedWaveDependency (tt_ID a) (tt_ID b) w] else [])
     @ (let overlap = pathOverlap (tt_Files a) (tt_Files b) in
        if overlap \<noteq> [] then [SharedWaveOverlap (tt_ID a) (tt_ID b) w overlap] else [])"

text \<open>The loops over \<open>i\<close> and \<open>j = i + 1, ...\<close>.\<close>

fun member_pairs ::
  "(string \<Rightarrow> string \<Rightarrow> bool) \<Rightarrow> int \<Rightarrow> topology_task list \<Rightarrow> violation list" where
  "member_pairs reach w [] = []"
| "member_pairs reach w (a # members) =
     concat (map (pair_violations reach w a) members) @ member_pairs reach w members"

definition wave_nums :: "topology_task list \<Rightarrow> int list" where
  "wave_nums tasks = sort (remdups (filter (\<lambda>w. 0 < w) (map tt_Wave tasks)))"

definition topology_violations :: "topology_task list \<Rightarrow> violation list" where
  "topology_violations tasks =
     (let ids = map tt_ID tasks;
          adj = dep_edges tasks;
          reach = transitiveReach tasks adj
      in duplicate_ids [] tasks
         @ concat (map (bad_deps ids) tasks)
         @ (case findCycle tasks adj of CyclePath p \<Rightarrow> [DependencyCycle p] | _ \<Rightarrow> [])
         @ (if list_ex (\<lambda>t. 0 < tt_Wave t) tasks
            then early_tasks tasks adj
              @ concat (map (\<lambda>w. member_pairs reach w (filter (\<lambda>t. tt_Wave t = w) tasks)) (wave_nums tasks))
            else []))"

definition ValidateTopology :: "topology_task list \<Rightarrow> string list" where
  "ValidateTopology tasks = sort (map violation_string (topology_violations tasks))"

definition TopologyFromDocument :: "document \<Rightarrow> topology_task list" where
  "TopologyFromDocument d =
     map (\<lambda>t. \<lparr>tt_ID = tk_ID t, tt_DependsOn = tk_DependsOn t, tt_Wave = 0, tt_Files = tk_Files t\<rparr>)
       (dc_Tasks d)"

section \<open>The depth-first search is exact\<close>

definition edges :: "(string \<Rightarrow> string list) \<Rightarrow> (string \<times> string) set" where
  "edges adj = {(a, b). b \<in> set (adj a)}"

text \<open>
  The grey nodes are the stack, the stack is a path, black nodes have black successors
  only and lie on no cycle.
\<close>

definition dfs_inv :: "(string \<Rightarrow> string list) \<Rightarrow> dfs_state \<Rightarrow> bool" where
  "dfs_inv adj st \<longleftrightarrow>
     (case st of (color, stack) \<Rightarrow>
        set stack = {x. color x = Gray} \<and> distinct stack
        \<and> successively (\<lambda>a b. b \<in> set (adj a)) stack
        \<and> (\<forall>b. color b = Black \<longrightarrow> (\<forall>m \<in> set (adj b). color m = Black))
        \<and> (\<forall>b. color b = Black \<longrightarrow> (b, b) \<notin> (edges adj)\<^sup>+))"

definition white :: "string set \<Rightarrow> dfs_state \<Rightarrow> string set" where
  "white U st = {x \<in> U. fst st x = White}"

text \<open>What a search that found no cycle has done to the state.\<close>

definition dfs_done :: "(string \<Rightarrow> string list) \<Rightarrow> string set \<Rightarrow> dfs_state \<Rightarrow> dfs_state \<Rightarrow> bool" where
  "dfs_done adj S st st' \<longleftrightarrow>
     dfs_inv adj st' \<and> snd st' = snd st \<and> (\<forall>n \<in> S. fst st' n = Black)
     \<and> (\<forall>x. fst st x \<noteq> White \<longrightarrow> fst st' x = fst st x)
     \<and> (\<forall>x. fst st x = White \<longrightarrow> fst st' x \<in> {White, Black})"

definition is_cycle_path :: "(string \<Rightarrow> string list) \<Rightarrow> string list \<Rightarrow> bool" where
  "is_cycle_path adj p \<longleftrightarrow>
     (\<exists>q m. p = q @ [m] \<and> m \<in> set q) \<and> successively (\<lambda>a b. b \<in> set (adj a)) p"

lemma successively_trancl:
  "successively (\<lambda>a b. b \<in> set (adj a)) (x # ys @ [z]) \<Longrightarrow> (x, z) \<in> (edges adj)\<^sup>+"
proof (induction ys arbitrary: x)
  case Nil
  then show ?case by (auto simp: edges_def)
next
  case (Cons y ys)
  then have "(y, z) \<in> (edges adj)\<^sup>+" and "(x, y) \<in> edges adj" by (auto simp: edges_def)
  then show ?case by (meson trancl_into_trancl2)
qed

lemma cycle_path_cyclic:
  assumes "is_cycle_path adj p"
  shows "\<not> acyclic (edges adj)"
proof -
  obtain q m where p: "p = q @ [m]" and m: "m \<in> set q"
    and s: "successively (\<lambda>a b. b \<in> set (adj a)) p"
    using assms by (auto simp: is_cycle_path_def)
  obtain u v where "q = u @ m # v" using m by (meson split_list)
  then have "successively (\<lambda>a b. b \<in> set (adj a)) (m # v @ [m])"
    using p s by (simp add: successively_append_iff)
  then have "(m, m) \<in> (edges adj)\<^sup>+" by (rule successively_trancl)
  then show ?thesis by (auto simp: acyclic_def)
qed

lemma black_closed_trancl:
  assumes "(a, b) \<in> (edges adj)\<^sup>+" and "color a = Black"
    and "\<forall>x. color x = Black \<longrightarrow> (\<forall>m \<in> set (adj x). color m = Black)"
  shows "color b = Black"
  using assms by (induction rule: trancl_induct) (auto simp: edges_def)

lemma dfs_inv_push:
  assumes "dfs_inv adj (color, stack)" and "color n = White"
    and "stack = [] \<or> n \<in> set (adj (last stack))"
  shows "dfs_inv adj (color(n := Gray), stack @ [n])"
  using assms by (auto simp: dfs_inv_def successively_append_iff)

lemma dfs_inv_pop:
  assumes inv: "dfs_inv adj (color', stack @ [n])"
    and n: "color' n = Gray" and succs: "\<forall>m \<in> set (adj n). color' m = Black"
  shows "dfs_inv adj (color'(n := Black), stack)"
proof -
  have closed: "\<forall>x. color' x = Black \<longrightarrow> (\<forall>m \<in> set (adj x). color' m = Black)"
    using inv by (simp add: dfs_inv_def)
  have "(n, n) \<notin> (edges adj)\<^sup>+"
  proof
    assume "(n, n) \<in> (edges adj)\<^sup>+"
    then obtain m where m: "(n, m) \<in> edges adj" and mn: "(m, n) \<in> (edges adj)\<^sup>*"
      by (meson tranclD)
    have "color' m = Black" using m succs by (simp add: edges_def)
    then have "color' n = Black"
      using mn closed black_closed_trancl by (metis rtranclD)
    then show False using n by simp
  qed
  then show ?thesis
    using inv succs closed by (auto simp: dfs_inv_def successively_append_iff)
qed

lemma dfs_done_trans:
  assumes a: "dfs_done adj S st st'" and b: "dfs_done adj T st' st''"
  shows "dfs_done adj (S \<union> T) st st''"
proof -
  have "fst st'' x \<in> {White, Black}" if "fst st x = White" for x
  proof (cases "fst st' x = White")
    case True
    then show ?thesis using b by (simp add: dfs_done_def)
  next
    case False
    then have "fst st' x = Black" using a that by (auto simp: dfs_done_def)
    then show ?thesis using b by (simp add: dfs_done_def)
  qed
  then show ?thesis using a b by (auto simp: dfs_done_def)
qed

lemma dfs_spec:
  assumes U: "finite U"
  shows "\<lbrakk>dfs_inv adj st; fst st n = White; n \<in> U; snd st = [] \<or> n \<in> set (adj (last (snd st)));
          card (white U st) \<le> fuel; \<forall>x. set (adj x) \<subseteq> U\<rbrakk> \<Longrightarrow>
         (case dfs fuel adj n st of
            (NoCycle, st') \<Rightarrow> dfs_done adj {n} st st'
          | (CyclePath p, _) \<Rightarrow> is_cycle_path adj p
          | (OutOfFuel, _) \<Rightarrow> False)"
  and "\<lbrakk>dfs_inv adj st; snd st \<noteq> []; set ms \<subseteq> set (adj (last (snd st))); card (white U st) \<le> fuel;
          \<forall>x. set (adj x) \<subseteq> U\<rbrakk> \<Longrightarrow>
         (case dfs_succs fuel adj ms st of
            (NoCycle, st') \<Rightarrow> dfs_done adj (set ms) st st'
          | (CyclePath p, _) \<Rightarrow> is_cycle_path adj p
          | (OutOfFuel, _) \<Rightarrow> False)"
proof (induction fuel adj n st and fuel adj ms st rule: dfs_dfs_succs.induct)
  case (1 adj n st)
  have "n \<in> white U st" using 1 by (simp add: white_def)
  then show ?case using 1 U by (auto simp: card_eq_0_iff white_def)
next
  case (2 fuel adj n color stack)
  let ?st = "(color(n := Gray), stack @ [n])"
  have w: "color n = White" and n: "n \<in> U" using "2.prems" by simp_all
  have inv: "dfs_inv adj ?st" using "2.prems" by (intro dfs_inv_push) auto
  have "white U ?st = white U (color, stack) - {n}" by (auto simp: white_def w)
  moreover have "n \<in> white U (color, stack)" using n w by (simp add: white_def)
  moreover have "finite (white U (color, stack))" using U by (simp add: white_def)
  ultimately have card: "card (white U ?st) \<le> fuel" using "2.prems"(5) by (simp add: card_Diff_singleton)
  have IH: "case dfs_succs fuel adj (adj n) ?st of
            (NoCycle, st') \<Rightarrow> dfs_done adj (set (adj n)) ?st st'
          | (CyclePath p, _) \<Rightarrow> is_cycle_path adj p
          | (OutOfFuel, _) \<Rightarrow> False"
    using "2.IH" inv card "2.prems"(6) by simp
  obtain r color' stack' where e: "dfs_succs fuel adj (adj n) ?st = (r, (color', stack'))"
    by (metis prod.exhaust)
  show ?case
  proof (cases r)
    case NoCycle
    then have d: "dfs_done adj (set (adj n)) ?st (color', stack')" using IH e by simp
    then have s: "stack' = stack @ [n]" and g: "color' n = Gray" by (auto simp: dfs_done_def)
    have "dfs_inv adj (color'(n := Black), stack)"
      using d s g by (intro dfs_inv_pop) (auto simp: dfs_done_def)
    then show ?thesis using d s e NoCycle w by (auto simp: dfs_done_def split: if_splits)
  qed (use IH e in auto)
next
  case (3 fuel adj st)
  then show ?case by (simp add: dfs_done_def)
next
  case (4 fuel adj m ms color stack)
  show ?case
  proof (cases "color m")
    case Gray
    then have "m \<in> set stack" and s: "successively (\<lambda>a b. b \<in> set (adj a)) stack"
      using "4.prems" by (auto simp: dfs_inv_def)
    then show ?thesis
      using Gray "4.prems" by (auto simp: is_cycle_path_def successively_append_iff)
  next
    case Black
    then show ?thesis using "4.IH"(3) "4.prems" by (auto simp: dfs_done_def split: prod.splits dfs_result.splits)
  next
    case White
    have m: "m \<in> U" using "4.prems"(3,5) by (meson list.set_intros(1) subsetD)
    have IH1: "case dfs fuel adj m (color, stack) of
            (NoCycle, st') \<Rightarrow> dfs_done adj {m} (color, stack) st'
          | (CyclePath p, _) \<Rightarrow> is_cycle_path adj p
          | (OutOfFuel, _) \<Rightarrow> False"
      using "4.IH"(1) White m "4.prems" by simp
    obtain r st' where e: "dfs fuel adj m (color, stack) = (r, st')" by (metis prod.exhaust)
    show ?thesis
    proof (cases r)
      case NoCycle
      then have d: "dfs_done adj {m} (color, stack) st'" using IH1 e by simp
      have "white U st' \<subseteq> white U (color, stack)" using d by (auto simp: white_def dfs_done_def)
      then have "card (white U st') \<le> fuel"
        using "4.prems"(4) U card_mono [of "white U (color, stack)" "white U st'"] by (simp add: white_def)
      then have "case dfs_succs fuel adj ms st' of
            (NoCycle, st'') \<Rightarrow> dfs_done adj (set ms) st' st''
          | (CyclePath p, _) \<Rightarrow> is_cycle_path adj p
          | (OutOfFuel, _) \<Rightarrow> False"
        using "4.IH"(2) White e NoCycle d "4.prems" by (auto simp: dfs_done_def)
      then show ?thesis
        using White e NoCycle dfs_done_trans [OF d, of "set ms"]
        by (auto split: prod.splits dfs_result.splits)
    qed (use IH1 e White in auto)
  qed
qed

lemma find_cycle_from_spec:
  assumes U: "finite U" "\<forall>x. set (adj x) \<subseteq> U"
  shows "\<lbrakk>dfs_inv adj (color, []); set order \<subseteq> U; card (white U (color, [])) \<le> fuel\<rbrakk> \<Longrightarrow>
     (case find_cycle_from fuel adj order (color, []) of
        NoCycle \<Rightarrow> \<exists>color'. dfs_done adj (set order \<inter> {x. color x = White}) (color, []) (color', [])
      | CyclePath p \<Rightarrow> is_cycle_path adj p
      | OutOfFuel \<Rightarrow> False)"
proof (induction order arbitrary: color)
  case Nil
  then show ?case by (auto simp: dfs_done_def intro!: exI [of _ color])
next
  case (Cons i order)
  show ?case
  proof (cases "color i = White")
    case False
    have "set (i # order) \<inter> {x. color x = White} = set order \<inter> {x. color x = White}"
      using False by auto
    then show ?thesis using False Cons.IH [of color] Cons.prems by (simp split: dfs_result.splits)
  next
    case True
    have d: "case dfs fuel adj i (color, []) of
            (NoCycle, st') \<Rightarrow> dfs_done adj {i} (color, []) st'
          | (CyclePath p, _) \<Rightarrow> is_cycle_path adj p
          | (OutOfFuel, _) \<Rightarrow> False"
      using dfs_spec(1) [OF U(1), of adj "(color, [])" i fuel] Cons.prems True U by simp
    obtain r color' stack' where e: "dfs fuel adj i (color, []) = (r, (color', stack'))"
      by (metis prod.exhaust)
    show ?thesis
    proof (cases r)
      case NoCycle
      then have d': "dfs_done adj {i} (color, []) (color', [])" and s: "stack' = []"
        using d e by (auto simp: dfs_done_def)
      have "white U (color', []) \<subseteq> white U (color, [])" using d' by (auto simp: white_def dfs_done_def)
      then have c: "card (white U (color', [])) \<le> fuel"
        using Cons.prems(3) U card_mono [of "white U (color, [])" "white U (color', [])"]
        by (simp add: white_def)
      have IH: "case find_cycle_from fuel adj order (color', []) of
          NoCycle \<Rightarrow> \<exists>color''. dfs_done adj (set order \<inter> {x. color' x = White}) (color', []) (color'', [])
        | CyclePath p \<Rightarrow> is_cycle_path adj p
        | OutOfFuel \<Rightarrow> False"
        using Cons.IH [of color'] Cons.prems d' c by (auto simp: dfs_done_def)
      show ?thesis
      proof (cases "find_cycle_from fuel adj order (color', [])")
        case NoC: NoCycle
        then obtain color'' where
          d'': "dfs_done adj (set order \<inter> {x. color' x = White}) (color', []) (color'', [])" using IH by auto
        have t: "dfs_done adj ({i} \<union> (set order \<inter> {x. color' x = White})) (color, []) (color'', [])"
          by (rule dfs_done_trans [OF d' d''])
        have "color'' n = Black" if "n \<in> set (i # order)" "color n = White" for n
        proof (cases "color' n = White")
          case True
          then show ?thesis using that d'' t by (auto simp: dfs_done_def)
        next
          case False
          then have "color' n = Black" using d' that(2) by (auto simp: dfs_done_def)
          then show ?thesis using d'' by (auto simp: dfs_done_def)
        qed
        then have "dfs_done adj (set (i # order) \<inter> {x. color x = White}) (color, []) (color'', [])"
          using t by (simp add: dfs_done_def)
        then show ?thesis using True e NoCycle s NoC by auto
      qed (use True e NoCycle s IH in auto)
    qed (use d e True in auto)
  qed
qed

lemma findCycle_spec:
  assumes sub: "\<forall>x. set (adj x) \<subseteq> tt_ID ` set tasks"
    and dom: "\<forall>x. x \<notin> tt_ID ` set tasks \<longrightarrow> adj x = []"
  shows "case findCycle tasks adj of
           NoCycle \<Rightarrow> acyclic (edges adj)
         | CyclePath p \<Rightarrow> is_cycle_path adj p
         | OutOfFuel \<Rightarrow> False"
proof -
  let ?U = "tt_ID ` set tasks"
  have "white ?U (\<lambda>_. White, []) = set (map tt_ID tasks)" by (auto simp: white_def)
  then have c: "card (white ?U (\<lambda>_. White, [])) \<le> length tasks"
    using card_length [of "map tt_ID tasks"] by simp
  have i: "dfs_inv adj (\<lambda>_. White, [])" by (simp add: dfs_inv_def)
  have r: "case findCycle tasks adj of
      NoCycle \<Rightarrow> \<exists>color'. dfs_done adj (set (sort (map tt_ID tasks)) \<inter> UNIV) (\<lambda>_. White, []) (color', [])
    | CyclePath p \<Rightarrow> is_cycle_path adj p
    | OutOfFuel \<Rightarrow> False"
    using find_cycle_from_spec [OF _ sub i, of "sort (map tt_ID tasks)" "length tasks"] c
    by (simp add: findCycle_def split: dfs_result.splits)
  have "acyclic (edges adj)" if d: "dfs_done adj ?U (\<lambda>_. White, []) (color', [])" for color'
  proof (rule acyclicI, intro allI notI)
    fix x
    assume x: "(x, x) \<in> (edges adj)\<^sup>+"
    then obtain y where "(x, y) \<in> edges adj" by (meson tranclD)
    then have "x \<in> ?U" using dom by (force simp: edges_def)
    then have "color' x = Black" using d by (auto simp: dfs_done_def)
    then show False using d x by (auto simp: dfs_done_def dfs_inv_def)
  qed
  then show ?thesis using r by (auto split: dfs_result.splits)
qed

text \<open>What \<open>walk\<close> returns, and that it returns.\<close>

definition walk_done :: "(string \<Rightarrow> string list) \<Rightarrow> string set \<Rightarrow> string list \<Rightarrow> string list \<Rightarrow> bool" where
  "walk_done adj S seen seen' \<longleftrightarrow>
     set seen \<subseteq> set seen' \<and> S \<subseteq> set seen' \<and> set seen' \<subseteq> set seen \<union> (edges adj)\<^sup>* `` S
     \<and> (\<forall>x \<in> set seen' - set seen. set (adj x) \<subseteq> set seen')"

lemma walk_done_trans:
  assumes a: "walk_done adj (set (adj m)) (m # seen) seen'" and b: "walk_done adj S seen' seen''"
  shows "walk_done adj (insert m S) seen seen''"
proof -
  have e: "(edges adj)\<^sup>* `` set (adj m) \<subseteq> (edges adj)\<^sup>* `` {m}"
    by (auto simp: edges_def intro: converse_rtrancl_into_rtrancl)
  have "set seen' \<subseteq> set (m # seen) \<union> (edges adj)\<^sup>* `` set (adj m)"
    and "set seen'' \<subseteq> set seen' \<union> (edges adj)\<^sup>* `` S"
    using a b unfolding walk_done_def by blast+
  moreover have "(edges adj)\<^sup>* `` insert m S = (edges adj)\<^sup>* `` {m} \<union> (edges adj)\<^sup>* `` S"
    and "m \<in> (edges adj)\<^sup>* `` {m}" by auto
  ultimately have "set seen'' \<subseteq> set seen \<union> (edges adj)\<^sup>* `` insert m S"
    using e unfolding set_simps by blast
  moreover have "set (adj x) \<subseteq> set seen''" if "x \<in> set seen'' - set seen" for x
  proof (cases "x \<in> set seen'")
    case True
    then have "set (adj x) \<subseteq> set seen'" using that a unfolding walk_done_def by (cases "x = m") auto
    then show ?thesis using b by (auto simp: walk_done_def)
  next
    case False
    then show ?thesis using that b by (simp add: walk_done_def)
  qed
  ultimately show ?thesis using a b by (auto simp: walk_done_def)
qed

lemma walk_spec:
  assumes U: "finite U"
  shows "\<lbrakk>\<forall>x. set (adj x) \<subseteq> U; card (U - set seen) < fuel\<rbrakk> \<Longrightarrow>
          \<exists>seen'. walk fuel adj n seen = Some seen' \<and> walk_done adj (set (adj n)) seen seen'"
  and "\<lbrakk>\<forall>x. set (adj x) \<subseteq> U; set ms \<subseteq> U; card (U - set seen) \<le> fuel\<rbrakk> \<Longrightarrow>
          \<exists>seen'. walk_succs fuel adj ms seen = Some seen' \<and> walk_done adj (set ms) seen seen'"
proof (induction fuel adj n seen and fuel adj ms seen rule: walk_walk_succs.induct)
  case (3 fuel adj seen)
  then show ?case by (simp add: walk_done_def)
next
  case (4 fuel adj m ms seen)
  show ?case
  proof (cases "m \<in> set seen")
    case True
    then obtain seen' where "walk_succs fuel adj ms seen = Some seen'" "walk_done adj (set ms) seen seen'"
      using 4 by auto
    moreover from this have "walk_done adj (set (m # ms)) seen seen'"
      using True by (auto simp: walk_done_def)
    ultimately show ?thesis using True by auto
  next
    case False
    have m: "m \<in> U - set seen" using False "4.prems" by simp
    have "card (U - set (m # seen)) < card (U - set seen)"
      using m U by (intro psubset_card_mono) auto
    then obtain s1 where s1: "walk fuel adj m (m # seen) = Some s1"
        "walk_done adj (set (adj m)) (m # seen) s1"
      using "4.IH"(2) [OF False] "4.prems" by fastforce
    have "U - set s1 \<subseteq> U - set seen" using s1(2) by (auto simp: walk_done_def)
    then have "card (U - set s1) \<le> fuel" using "4.prems"(3) U card_mono by (metis finite_Diff le_trans)
    then obtain s2 where s2: "walk_succs fuel adj ms s1 = Some s2" "walk_done adj (set ms) s1 s2"
      using "4.IH"(3) [OF False s1(1)] "4.prems" by auto
    show ?thesis
      using False s1 s2 walk_done_trans [OF s1(2) s2(2)] by auto
  qed
qed auto

lemma transitiveReach_iff:
  assumes sub: "\<forall>x. set (adj x) \<subseteq> tt_ID ` set tasks"
  shows "transitiveReach tasks adj a b \<longleftrightarrow> (a, b) \<in> (edges adj)\<^sup>+"
proof -
  let ?U = "tt_ID ` set tasks"
  have "card ?U \<le> length tasks" using card_length [of "map tt_ID tasks"] by simp
  then obtain s where s: "walk (Suc (length tasks)) adj a [] = Some s"
    and d: "walk_done adj (set (adj a)) [] s"
    using walk_spec(1) [of ?U adj "[]" "Suc (length tasks)" a] sub by auto
  have step: "(edges adj)\<^sup>+ `` {a} = (edges adj)\<^sup>* `` set (adj a)"
    by (auto simp: edges_def trancl_unfold_left)
  have "(edges adj)\<^sup>* `` set (adj a) \<subseteq> set s"
  proof
    fix y
    assume "y \<in> (edges adj)\<^sup>* `` set (adj a)"
    then obtain x where "(x, y) \<in> (edges adj)\<^sup>*" "x \<in> set (adj a)" by auto
    then show "y \<in> set s"
      using d by (induction rule: rtrancl_induct) (auto simp: walk_done_def edges_def)
  qed
  then have "set s = (edges adj)\<^sup>+ `` {a}" using d step by (auto simp: walk_done_def)
  then show ?thesis using s by (auto simp: transitiveReach_def)
qed

section \<open>The validator accepts exactly the sound topologies\<close>

definition dep_relation :: "topology_task list \<Rightarrow> (string \<times> string) set" where
  "dep_relation tasks = {(tt_ID t, d) | t d. t \<in> set tasks \<and> d \<in> set (tt_DependsOn t)}"

definition waves_declared :: "topology_task list \<Rightarrow> bool" where
  "waves_declared tasks \<longleftrightarrow> (\<exists>t \<in> set tasks. 0 < tt_Wave t)"

definition paths_disjoint :: "topology_task \<Rightarrow> topology_task \<Rightarrow> bool" where
  "paths_disjoint a b \<longleftrightarrow>
     (\<forall>p \<in> set (normalizePaths (tt_Files a)). \<forall>q \<in> set (normalizePaths (tt_Files b)). \<not> pathsConflict p q)"

definition sound_topology :: "topology_task list \<Rightarrow> bool" where
  "sound_topology tasks \<longleftrightarrow>
     distinct (map tt_ID tasks)
     \<and> (\<forall>t \<in> set tasks. \<forall>d \<in> set (tt_DependsOn t). d \<noteq> tt_ID t \<and> d \<in> tt_ID ` set tasks)
     \<and> acyclic (dep_relation tasks)
     \<and> (waves_declared tasks \<longrightarrow>
          (\<forall>t \<in> set tasks. \<forall>u \<in> set tasks. tt_ID u \<in> set (tt_DependsOn t) \<longrightarrow> tt_Wave u < tt_Wave t)
          \<and> (\<forall>a \<in> set tasks. \<forall>b \<in> set tasks.
               a \<noteq> b \<and> tt_Wave a = tt_Wave b \<and> 0 < tt_Wave a \<longrightarrow> paths_disjoint a b))"

lemma duplicate_ids_Nil: "duplicate_ids ids ts = [] \<longleftrightarrow> distinct (map tt_ID ts) \<and> tt_ID ` set ts \<inter> set ids = {}"
  by (induction ts arbitrary: ids) auto

lemma bad_deps_Nil:
  "bad_deps ids t = [] \<longleftrightarrow> (\<forall>d \<in> set (tt_DependsOn t). d \<noteq> tt_ID t \<and> d \<in> set ids)"
  unfolding bad_deps_def concat_map_Nil by auto

lemma set_dep_edges:
  "set (dep_edges tasks n) =
     {d. \<exists>t \<in> set tasks. tt_ID t = n \<and> d \<in> set (tt_DependsOn t) \<and> d \<noteq> n \<and> d \<in> tt_ID ` set tasks}"
  by (auto simp: dep_edges_def)

lemma dep_edges_outside: "n \<notin> tt_ID ` set tasks \<Longrightarrow> dep_edges tasks n = []"
  by (auto simp: dep_edges_def)

lemma findCycle_exact:
  "(\<exists>p. findCycle tasks (dep_edges tasks) = CyclePath p \<and> is_cycle_path (dep_edges tasks) p)
     \<and> \<not> acyclic (edges (dep_edges tasks))
   \<or> findCycle tasks (dep_edges tasks) = NoCycle \<and> acyclic (edges (dep_edges tasks))"
proof -
  have "\<forall>x. set (dep_edges tasks x) \<subseteq> tt_ID ` set tasks" by (auto simp: set_dep_edges)
  then show ?thesis
    using findCycle_spec [of "dep_edges tasks" tasks] dep_edges_outside [of _ tasks]
      cycle_path_cyclic [of "dep_edges tasks"]
    by (auto split: dfs_result.splits)
qed

lemma reach_dep_edges: "transitiveReach tasks (dep_edges tasks) a b \<longleftrightarrow> (a, b) \<in> (edges (dep_edges tasks))\<^sup>+"
  by (rule transitiveReach_iff) (auto simp: set_dep_edges)

lemma edges_dep_edges:
  assumes "\<forall>t \<in> set tasks. \<forall>d \<in> set (tt_DependsOn t). d \<noteq> tt_ID t \<and> d \<in> tt_ID ` set tasks"
  shows "edges (dep_edges tasks) = dep_relation tasks"
  using assms by (auto simp: edges_def set_dep_edges dep_relation_def)

lemma wave_of_task:
  assumes "distinct (map tt_ID tasks)" and "t \<in> set tasks"
  shows "wave_of tasks (tt_ID t) = tt_Wave t"
proof -
  obtain u where u: "find (\<lambda>u. tt_ID u = tt_ID t) (rev tasks) = Some u"
    using assms(2) by (metis (mono_tags, lifting) find_None_all option.exhaust set_rev)
  then have "u \<in> set tasks" "tt_ID u = tt_ID t" by (auto simp: find_Some_iff) (metis nth_mem set_rev length_rev)
  then have "u = t" using assms by (metis distinct_map inj_on_def)
  then show ?thesis using u by (simp add: wave_of_def)
qed

lemma pathsConflict_sym: "pathsConflict a b = pathsConflict b a"
  by (auto simp: pathsConflict_def Let_def)

lemma paths_disjoint_sym: "paths_disjoint a b = paths_disjoint b a"
  unfolding paths_disjoint_def using pathsConflict_sym by blast

lemma pathOverlap_Nil: "pathOverlap (tt_Files a) (tt_Files b) = [] \<longleftrightarrow> paths_disjoint a b"
proof (cases "find (\<lambda>pa. list_ex (pathsConflict pa) (normalizePaths (tt_Files b))) (normalizePaths (tt_Files a))")
  case None
  then have "\<forall>p \<in> set (normalizePaths (tt_Files a)). \<not> list_ex (pathsConflict p) (normalizePaths (tt_Files b))"
    by (simp only: find_None_all) 
  then show ?thesis unfolding pathOverlap_def None paths_disjoint_def by (auto simp: list_ex_iff)
next
  case (Some p)
  then have "p \<in> set (normalizePaths (tt_Files a))" and l: "list_ex (pathsConflict p) (normalizePaths (tt_Files b))"
    by (auto simp: find_Some_iff)
  moreover from this have "p \<noteq> []" by (auto simp: normalizePaths_def)
  ultimately show ?thesis using Some by (auto simp: pathOverlap_def paths_disjoint_def list_ex_iff)
qed

lemma pair_violations_Nil:
  "pair_violations reach w a b = [] \<longleftrightarrow>
     \<not> reach (tt_ID a) (tt_ID b) \<and> \<not> reach (tt_ID b) (tt_ID a) \<and> paths_disjoint a b"
  by (simp add: pair_violations_def Let_def pathOverlap_Nil)

lemma member_pairs_Nil:
  assumes "distinct ms"
  shows "member_pairs reach w ms = [] \<longleftrightarrow>
     (\<forall>a \<in> set ms. \<forall>b \<in> set ms. a \<noteq> b \<longrightarrow> pair_violations reach w a b = [])"
  using assms by (induction ms) (auto simp: pair_violations_Nil paths_disjoint_sym)

lemma early_tasks_Nil:
  "early_tasks tasks adj = [] \<longleftrightarrow> (\<forall>t \<in> set tasks. \<forall>d \<in> set (adj (tt_ID t)). wave_of tasks d < tt_Wave t)"
  unfolding early_tasks_def concat_map_Nil by (auto simp: not_le [symmetric])

lemma trancl_decreases:
  fixes f :: "'a \<Rightarrow> int"
  assumes "(a, b) \<in> r\<^sup>+" and "\<And>x y. (x, y) \<in> r \<Longrightarrow> f y < f x"
  shows "f b < f a"
  using assms(1) by (induction rule: trancl_induct) (auto dest: assms(2))

lemma early_tasks_sound:
  assumes d: "distinct (map tt_ID tasks)"
    and deps: "\<forall>t \<in> set tasks. \<forall>d \<in> set (tt_DependsOn t). d \<noteq> tt_ID t \<and> d \<in> tt_ID ` set tasks"
  shows "early_tasks tasks (dep_edges tasks) = [] \<longleftrightarrow>
    (\<forall>t \<in> set tasks. \<forall>u \<in> set tasks. tt_ID u \<in> set (tt_DependsOn t) \<longrightarrow> tt_Wave u < tt_Wave t)"
proof -
  have "set (dep_edges tasks (tt_ID t)) = set (tt_DependsOn t)" if "t \<in> set tasks" for t
    using that deps d by (auto simp: set_dep_edges) (metis distinct_map inj_on_def)
  then show ?thesis
    using deps wave_of_task [OF d] by (auto simp: early_tasks_Nil) fastforce+
qed

lemma waves_part_Nil:
  assumes d: "distinct (map tt_ID tasks)"
    and deps: "\<forall>t \<in> set tasks. \<forall>d \<in> set (tt_DependsOn t). d \<noteq> tt_ID t \<and> d \<in> tt_ID ` set tasks"
  shows "early_tasks tasks (dep_edges tasks) = []
      \<and> concat (map (\<lambda>w. member_pairs (transitiveReach tasks (dep_edges tasks)) w
                          (filter (\<lambda>t. tt_Wave t = w) tasks)) (wave_nums tasks)) = []
    \<longleftrightarrow> (\<forall>t \<in> set tasks. \<forall>u \<in> set tasks. tt_ID u \<in> set (tt_DependsOn t) \<longrightarrow> tt_Wave u < tt_Wave t)
      \<and> (\<forall>a \<in> set tasks. \<forall>b \<in> set tasks.
           a \<noteq> b \<and> tt_Wave a = tt_Wave b \<and> 0 < tt_Wave a \<longrightarrow> paths_disjoint a b)"
    (is "?early = [] \<and> ?pairs = [] \<longleftrightarrow> ?order \<and> ?disj")
proof (cases "?early = []")
  case False
  then show ?thesis using early_tasks_sound [OF d deps] by blast
next
  case True
  then have order: ?order using early_tasks_sound [OF d deps] by blast
  have less: "wave_of tasks y < wave_of tasks x" if xy: "(x, y) \<in> edges (dep_edges tasks)" for x y
  proof -
    obtain t where t: "t \<in> set tasks" "x = tt_ID t" "y \<in> set (tt_DependsOn t)"
      using xy unfolding edges_dep_edges [OF deps] by (auto simp: dep_relation_def)
    then obtain u where "u \<in> set tasks" "y = tt_ID u" using deps by blast
    then show ?thesis using t order wave_of_task [OF d] by simp
  qed
  have "\<not> (tt_ID a, tt_ID b) \<in> (edges (dep_edges tasks))\<^sup>+"
    if "a \<in> set tasks" "b \<in> set tasks" "tt_Wave a = tt_Wave b" for a b
    using that wave_of_task [OF d] trancl_decreases [of "tt_ID a" "tt_ID b" _ "wave_of tasks", OF _ less] by fastforce
  moreover have "distinct (filter (\<lambda>t. tt_Wave t = w) tasks)" for w
    using d by (simp add: distinct_map)
  ultimately have "member_pairs (transitiveReach tasks (dep_edges tasks)) w (filter (\<lambda>t. tt_Wave t = w) tasks) = []
      \<longleftrightarrow> (\<forall>a \<in> set tasks. \<forall>b \<in> set tasks. a \<noteq> b \<and> tt_Wave a = w \<and> tt_Wave b = w \<longrightarrow> paths_disjoint a b)" for w
    by (auto simp: member_pairs_Nil pair_violations_Nil reach_dep_edges)
  moreover have "set (wave_nums tasks) = {w \<in> tt_Wave ` set tasks. 0 < w}"
    by (auto simp: wave_nums_def)
  ultimately have "?pairs = [] \<longleftrightarrow> ?disj"
    unfolding concat_map_Nil by auto
  then show ?thesis using True order by blast
qed

lemma ValidateTopology_Nil_iff: "ValidateTopology tasks = [] \<longleftrightarrow> sound_topology tasks"
proof -
  have len: "ValidateTopology tasks = [] \<longleftrightarrow> topology_violations tasks = []"
    unfolding ValidateTopology_def by (metis length_0_conv length_map length_sort)
  show ?thesis
  proof (cases "distinct (map tt_ID tasks)
      \<and> (\<forall>t \<in> set tasks. \<forall>d \<in> set (tt_DependsOn t). d \<noteq> tt_ID t \<and> d \<in> tt_ID ` set tasks)")
    case False
    then have "\<not> sound_topology tasks" by (simp add: sound_topology_def)
    moreover have "topology_violations tasks \<noteq> []"
      using False duplicate_ids_Nil [of "[]" tasks] bad_deps_Nil [of "map tt_ID tasks"]
      by (auto simp: topology_violations_def Let_def)
    ultimately show ?thesis using len by blast
  next
    case True
    have "duplicate_ids [] tasks = []" "concat (map (bad_deps (map tt_ID tasks)) tasks) = []"
      using True by (auto simp: duplicate_ids_Nil bad_deps_Nil)
    moreover have "list_ex (\<lambda>t. 0 < tt_Wave t) tasks = waves_declared tasks"
      by (simp add: waves_declared_def list_ex_iff)
    ultimately have "topology_violations tasks = [] \<longleftrightarrow> sound_topology tasks"
      using True findCycle_exact [of tasks] waves_part_Nil [of tasks] edges_dep_edges [of tasks]
      by (auto simp: topology_violations_def Let_def sound_topology_def)
    then show ?thesis using len by blast
  qed
qed


text \<open>
  whatever graph it is given, \<open>findCycle\<close> terminates within its fuel and is exact: it
  returns a cycle path, a walk along dependency edges that ends in a node it already
  visited, when the dependency graph has a cycle, and no cycle otherwise.
\<close>

theorem findCycle_correct:
  "(case findCycle tasks (dep_edges tasks) of
      NoCycle \<Rightarrow> acyclic (edges (dep_edges tasks))
    | CyclePath p \<Rightarrow> is_cycle_path (dep_edges tasks) p \<and> \<not> acyclic (edges (dep_edges tasks))
    | OutOfFuel \<Rightarrow> False)"
  using findCycle_exact [of tasks] by auto

section \<open>Paths\<close>

lemma has_prefix_slash:
  "has_prefix (a @ ''/'') (b @ ''/'') \<longleftrightarrow> (\<exists>ws. split_on (CHR ''/'') a = split_on (CHR ''/'') b @ ws)"
proof
  assume "has_prefix (a @ ''/'') (b @ ''/'')"
  then obtain t where t: "a @ ''/'' = b @ ''/'' @ t" by (auto simp: has_prefix_iff)
  show "\<exists>ws. split_on (CHR ''/'') a = split_on (CHR ''/'') b @ ws"
  proof (cases "t = []")
    case True
    then show ?thesis using t by simp
  next
    case False
    then obtain t' where "t = t' @ ''/''" using t by (metis append_butlast_last_id append_assoc last_appendR last_snoc)
    then have "a = b @ CHR ''/'' # t'" using t by simp
    then show ?thesis by (simp add: split_on_append)
  qed
next
  assume "\<exists>ws. split_on (CHR ''/'') a = split_on (CHR ''/'') b @ ws"
  then obtain ws where ws: "split_on (CHR ''/'') a = split_on (CHR ''/'') b @ ws" by blast
  have j: "join_with ''/'' (us @ vs) = join_with ''/'' us @ ''/'' @ join_with ''/'' vs"
    if "us \<noteq> []" "vs \<noteq> []" for us vs :: "string list"
    using that
  proof (induction us)
    case (Cons u us)
    then show ?case by (cases "us = []") (auto simp: join_with_Cons)
  qed simp
  have "a = join_with ''/'' (split_on (CHR ''/'') b @ ws)" using ws join_split [of "CHR ''/''" a] by simp
  then show "has_prefix (a @ ''/'') (b @ ''/'')"
    using j [of "split_on (CHR ''/'') b" ws] by (cases "ws = []") (auto simp: has_prefix_iff)
qed

text \<open>
  two paths without trailing slash or wildcard conflict exactly when one is the other
  or a directory above it, component by component.
\<close>

theorem pathsConflict_components:
  assumes "wildcard_stem a = a" and "wildcard_stem b = b" and "a \<noteq> []" and "b \<noteq> []"
  shows "pathsConflict a b \<longleftrightarrow>
    (\<exists>ws. split_on (CHR ''/'') a = split_on (CHR ''/'') b @ ws
        \<or> split_on (CHR ''/'') b = split_on (CHR ''/'') a @ ws)"
  using assms by (auto simp: pathsConflict_def Let_def has_prefix_slash)

theorem pathsConflict_components_witness:
  "pathsConflict ''internal/plan'' ''internal/plan/parse.go'' \<and> \<not> pathsConflict ''internal/plan'' ''internal/planner''"
proof -
  have w: "wildcard_stem ''internal/plan'' = ''internal/plan''"
    "wildcard_stem ''internal/plan/parse.go'' = ''internal/plan/parse.go''"
    "wildcard_stem ''internal/planner'' = ''internal/planner''"
    by code_simp+
  show ?thesis
    using pathsConflict_components [OF w(1) w(2)] pathsConflict_components [OF w(1) w(3)] by simp
qed

text \<open>
  a task that declares the whole tree (the pattern \<open>**\<close>) conflicts with no other path,
  so two such tasks pass in one wave although the validator is documented to report
  ambiguous overlaps; the same pattern below a directory is reported.
\<close>

theorem whole_tree_never_conflicts:
  "b \<noteq> ''**'' \<Longrightarrow> \<not> pathsConflict ''**'' b"
proof -
  have "wildcard_stem ''**'' = []" by code_simp
  then show "b \<noteq> ''**'' \<Longrightarrow> \<not> pathsConflict ''**'' b" by (auto simp: pathsConflict_def)
qed

theorem whole_tree_never_conflicts_witness:
  "\<not> pathsConflict ''**'' ''src/main.go'' \<and> pathsConflict ''src/**'' ''src/main.go''"
proof -
  have "pathsConflict ''src/**'' ''src/main.go''" by code_simp
  then show ?thesis using whole_tree_never_conflicts [of "''src/main.go''"] by simp
qed

end
