(* ===== verification/Verify.thy ===== *)
theory Verify
  imports Prelude
begin

text \<open>
  Honest completion: package \<open>internal/verify\<close> (the command allowlist, the validation
  runner and the verdict derived from its records) and the subprocess helper
  \<open>internal/executor/subprocess.go\<close> that the runner calls. The operating system is a
  parameter: a function from the state of the machine and a tokenised command to the
  outcome of running it. The lemmas show that a verdict of success means that every
  declared command was permitted, ran and exited with status 0, and that a permitted
  script lies below the configured directory.
\<close>

section \<open>Package path/filepath\<close>

text \<open>
  \<open>filepath.Clean\<close> on a system whose separator is the slash. A cleaned path is a flag (does
  it start at the root?) and the list of its elements; the string of the path \<open>.\<close> has no
  element. \<^term>\<open>clean_elems rooted out todo\<close> processes the elements of a path from left to
  right, \<^term>\<open>out\<close> holding the result in reverse.
\<close>

fun clean_elems :: "bool \<Rightarrow> string list \<Rightarrow> string list \<Rightarrow> string list" where
  "clean_elems rooted out [] = rev out"
| "clean_elems rooted out (e # es) =
     (if e = [] \<or> e = ''.'' then clean_elems rooted out es
      else if e = ''..'' then
        (case out of
           o1 # out' \<Rightarrow> if o1 = ''..'' then clean_elems rooted (''..'' # out) es
                       else clean_elems rooted out' es
         | [] \<Rightarrow> clean_elems rooted (if rooted then [] else [''..'']) es)
      else clean_elems rooted (e # out) es)"

definition is_rooted :: "string \<Rightarrow> bool" where
  "is_rooted p = has_prefix p ''/''"

definition path_elems :: "string \<Rightarrow> string list" where
  "path_elems p = clean_elems (is_rooted p) [] (split_on (CHR ''/'') p)"

text \<open>
  \<open>filepath.Rel\<close> of two cleaned paths: the elements of the relative path, \<^const>\<open>None\<close> for
  the error. Equal paths give the path \<open>.\<close>, which has no element.
\<close>

fun rel_elems :: "string list \<Rightarrow> string list \<Rightarrow> string list option" where
  "rel_elems [] targ = Some targ"
| "rel_elems (b # base) [] =
     (if b = ''..'' then None else Some (replicate (length (b # base)) ''..''))"
| "rel_elems (b # base) (t # targ) =
     (if b = t then rel_elems base targ
      else if b = ''..'' then None
      else Some (replicate (length (b # base)) ''..'' @ t # targ))"

definition filepath_Rel :: "string \<Rightarrow> string \<Rightarrow> string list option" where
  "filepath_Rel base targ =
     (if is_rooted base \<noteq> is_rooted targ then None
      else rel_elems (path_elems base) (path_elems targ))"

section \<open>The allowlist\<close>

record allowlist =
  al_commands :: "string list"
  al_scriptsDir :: string

text \<open>The relative path is \<open>..\<close> or starts with \<open>../\<close> exactly when its first element is \<open>..\<close>.\<close>

definition isAllowedScript :: "allowlist \<Rightarrow> string \<Rightarrow> bool" where
  "isAllowedScript a scriptPath =
     (if al_scriptsDir a = [] then False
      else (case filepath_Rel (al_scriptsDir a) scriptPath of
              None \<Rightarrow> False
            | Some rel \<Rightarrow> \<not> (rel \<noteq> [] \<and> hd rel = ''..'')))"

datatype verify_error =
    EmptyCommand | NotAllowlisted string | RunFault string string

definition Allowlist_Check :: "allowlist \<Rightarrow> string list \<Rightarrow> verify_error option" where
  "Allowlist_Check a argv =
     (case argv of
        [] \<Rightarrow> Some EmptyCommand
      | head # args \<Rightarrow>
          if head \<in> set (al_commands a) then None
          else if head = ''bash'' \<and> args \<noteq> [] \<and> isAllowedScript a (hd args) then None
          else Some (NotAllowlisted head))"

section \<open>Running a subprocess\<close>

text \<open>\<open>strings.Fields\<close>: the maximal runs of bytes outside white space.\<close>

function words_acc :: "string \<Rightarrow> string \<Rightarrow> string list" where
  "words_acc cur [] = (if cur = [] then [] else [cur])"
| "words_acc cur (c # s) =
     (case find (\<lambda>w. has_prefix (c # s) w) space_seqs of
        None \<Rightarrow> words_acc (cur @ [c]) s
      | Some w \<Rightarrow> (if cur = [] then [] else [cur]) @ words_acc [] (drop (length w - 1) s))"
  by pat_completeness auto
termination by (relation "measure (\<lambda>(cur, s). length s)") auto

definition strings_Fields :: "string \<Rightarrow> string list" where
  "strings_Fields s = words_acc [] s"

record command_result =
  cr_Cmd :: string
  cr_ExitCode :: int
  cr_Stdout :: string
  cr_Stderr :: string
  cr_Duration :: int
  cr_TimedOut :: bool

definition zero_result :: command_result where
  "zero_result = \<lparr>cr_Cmd = [], cr_ExitCode = 0, cr_Stdout = [], cr_Stderr = [],
                  cr_Duration = 0, cr_TimedOut = False\<rparr>"

text \<open>
  What the operating system does with an argument vector: it cannot start the process;
  the process is still running when the deadline or the context ends; it exits, with a
  status and what it wrote; or it exits and waiting for its output fails.
\<close>

datatype os_outcome =
    StartFails string
  | StillRunning string string int
  | Exits int string string int
  | WaitFails int string string int string

datatype executor_error =
    ExecEmptyCommand | StartError string string | DeadlineExceeded string | WaitError string string

fun scrubEnv :: "(string \<Rightarrow> string option) \<Rightarrow> string list \<Rightarrow> string list" where
  "scrubEnv host [] = []"
| "scrubEnv host (name # names) =
     (case host name of
        Some v \<Rightarrow> (name @ ''='' @ v) # scrubEnv host names
      | None \<Rightarrow> scrubEnv host names)"

text \<open>\<open>extraEnv\<close> is a Go map, here an association list with distinct names.\<close>

definition buildChildEnv ::
  "(string \<Rightarrow> string option) \<Rightarrow> string list \<Rightarrow> (string \<times> string) list \<Rightarrow> string list" where
  "buildChildEnv host allowed extraEnv =
     (let base = scrubEnv host allowed in
      if extraEnv = [] then base
      else filter (\<lambda>kv. map_of extraEnv (takeWhile (\<lambda>c. c \<noteq> CHR ''='') kv) = None) base
           @ map (\<lambda>name. name @ ''='' @ the (map_of extraEnv name)) (sort (map fst extraEnv)))"

definition runSubprocess ::
  "('w \<Rightarrow> string list \<Rightarrow> string list \<Rightarrow> os_outcome \<times> 'w) \<Rightarrow> (string \<Rightarrow> string option) \<Rightarrow> 'w
     \<Rightarrow> string \<Rightarrow> string list \<Rightarrow> (string \<times> string) list \<Rightarrow> (command_result \<times> executor_error option) \<times> 'w"
where
  "runSubprocess os host w cmdLine envAllowlist extraEnv =
     (let argv = strings_Fields cmdLine in
      if argv = [] then ((zero_result, Some ExecEmptyCommand), w)
      else
        (case os w argv (buildChildEnv host envAllowlist extraEnv) of
           (StartFails msg, w') \<Rightarrow> ((zero_result, Some (StartError cmdLine msg)), w')
         | (StillRunning out err dur, w') \<Rightarrow>
             ((\<lparr>cr_Cmd = cmdLine, cr_ExitCode = -1, cr_Stdout = out, cr_Stderr = err,
                cr_Duration = dur, cr_TimedOut = True\<rparr>, Some (DeadlineExceeded cmdLine)), w')
         | (Exits code out err dur, w') \<Rightarrow>
             ((\<lparr>cr_Cmd = cmdLine, cr_ExitCode = code, cr_Stdout = out, cr_Stderr = err,
                cr_Duration = dur, cr_TimedOut = False\<rparr>, None), w')
         | (WaitFails code out err dur msg, w') \<Rightarrow>
             ((\<lparr>cr_Cmd = cmdLine, cr_ExitCode = code, cr_Stdout = out, cr_Stderr = err,
                cr_Duration = dur, cr_TimedOut = False\<rparr>, Some (WaitError cmdLine msg)), w')))"

section \<open>The validation runner\<close>

record command_record =
  cm_Cmd :: string
  cm_ExitCode :: int
  cm_StdoutDigest :: string
  cm_DurationMS :: int
  cm_TimedOut :: bool
  cm_PolicyViolation :: bool

text \<open>
  \<open>Runner.Run\<close>. The parameter \<open>sha\<close> is \<open>digestHex\<close>, the hexadecimal SHA-256 digest. The
  deadline of a command is part of the operating system parameter; a duration in
  nanoseconds is reported in whole milliseconds.
\<close>

fun Runner_Run ::
  "('w \<Rightarrow> string list \<Rightarrow> string list \<Rightarrow> os_outcome \<times> 'w) \<Rightarrow> (string \<Rightarrow> string option)
     \<Rightarrow> (string \<Rightarrow> string) \<Rightarrow> allowlist \<Rightarrow> string list \<Rightarrow> 'w \<Rightarrow> string list
     \<Rightarrow> (command_record list \<times> executor_error option) \<times> 'w" where
  "Runner_Run os host sha al env w [] = (([], None), w)"
| "Runner_Run os host sha al env w (cmdLine # cmds) =
     (if Allowlist_Check al (strings_Fields cmdLine) \<noteq> None then
        (([\<lparr>cm_Cmd = cmdLine, cm_ExitCode = -1, cm_StdoutDigest = [], cm_DurationMS = 0,
            cm_TimedOut = False, cm_PolicyViolation = True\<rparr>], None), w)
      else
        (let ((result, runErr), w') = runSubprocess os host w cmdLine env [];
             rec = \<lparr>cm_Cmd = cmdLine, cm_ExitCode = cr_ExitCode result,
                    cm_StdoutDigest = sha (cr_Stdout result),
                    cm_DurationMS = cr_Duration result div 1000000,
                    cm_TimedOut = cr_TimedOut result, cm_PolicyViolation = False\<rparr> in
         if cr_TimedOut result then (([rec], None), w')
         else if runErr \<noteq> None then (([rec], runErr), w')
         else if cm_ExitCode rec \<noteq> 0 then (([rec], None), w')
         else
           (let ((recs, err), w'') = Runner_Run os host sha al env w' cmds in ((rec # recs, err), w''))))"

type_synonym classification = string

abbreviation ClassificationVerificationFailed :: classification
  where "ClassificationVerificationFailed \<equiv> ''verification-failed''"
abbreviation ClassificationPolicyViolation :: classification
  where "ClassificationPolicyViolation \<equiv> ''policy-violation''"
abbreviation ClassificationRetryable :: classification
  where "ClassificationRetryable \<equiv> ''retryable''"
abbreviation ClassificationNoProgress :: classification
  where "ClassificationNoProgress \<equiv> ''no-progress''"
abbreviation ClassificationNoValidationDeclared :: classification
  where "ClassificationNoValidationDeclared \<equiv> ''no-validation-declared''"

fun evaluate_records :: "command_record list \<Rightarrow> int \<Rightarrow> bool \<times> classification" where
  "evaluate_records [] attempt = (True, [])"
| "evaluate_records (rec # recs) attempt =
     (if cm_PolicyViolation rec then (False, ClassificationPolicyViolation)
      else if cm_TimedOut rec then
        (if attempt \<le> 1 then (False, ClassificationRetryable) else (False, ClassificationNoProgress))
      else if cm_ExitCode rec \<noteq> 0 then (False, ClassificationVerificationFailed)
      else evaluate_records recs attempt)"

definition Evaluate :: "command_record list \<Rightarrow> int \<Rightarrow> bool \<times> classification" where
  "Evaluate records attempt =
     (if records = [] then (False, ClassificationNoValidationDeclared)
      else evaluate_records records attempt)"

section \<open>What a verdict of success means\<close>

text \<open>
  The commands that a run reaches, with the state of the machine each one starts in, when
  every command before it was permitted and exited with status 0.
\<close>

definition ran_clean ::
  "('w \<Rightarrow> string list \<Rightarrow> string list \<Rightarrow> os_outcome \<times> 'w) \<Rightarrow> (string \<Rightarrow> string option) \<Rightarrow> allowlist
     \<Rightarrow> string list \<Rightarrow> 'w \<Rightarrow> string \<Rightarrow> 'w \<Rightarrow> bool" where
  "ran_clean os host al env w cmd w' \<longleftrightarrow>
     Allowlist_Check al (strings_Fields cmd) = None
     \<and> (\<exists>out err dur. os w (strings_Fields cmd) (scrubEnv host env) = (Exits 0 out err dur, w'))"

fun all_ran_clean ::
  "('w \<Rightarrow> string list \<Rightarrow> string list \<Rightarrow> os_outcome \<times> 'w) \<Rightarrow> (string \<Rightarrow> string option) \<Rightarrow> allowlist
     \<Rightarrow> string list \<Rightarrow> 'w \<Rightarrow> string list \<Rightarrow> 'w \<Rightarrow> bool" where
  "all_ran_clean os host al env w [] w' = (w' = w)"
| "all_ran_clean os host al env w (cmd # cmds) w' =
     (\<exists>w1. ran_clean os host al env w cmd w1 \<and> all_ran_clean os host al env w1 cmds w')"

lemma Allowlist_Check_Nil [simp]: "Allowlist_Check al [] = Some EmptyCommand"
  by (simp add: Allowlist_Check_def)

text \<open>One step of the runner: it goes on exactly after a clean command.\<close>

lemma Runner_Run_clean:
  assumes "ran_clean os host al env w cmd w1"
  shows "\<exists>rec. Runner_Run os host sha al env w (cmd # cmds) =
           (let ((recs, err), w'') = Runner_Run os host sha al env w1 cmds in ((rec # recs, err), w''))
         \<and> \<not> cm_PolicyViolation rec \<and> \<not> cm_TimedOut rec \<and> cm_ExitCode rec = 0"
  using assms by (auto simp: ran_clean_def runSubprocess_def buildChildEnv_def Let_def)

lemma Runner_Run_stops:
  assumes "\<nexists>w1. ran_clean os host al env w cmd w1"
  shows "\<exists>rec err w'. Runner_Run os host sha al env w (cmd # cmds) = (([rec], err), w')
         \<and> (err \<noteq> None \<or> cm_PolicyViolation rec \<or> cm_TimedOut rec \<or> cm_ExitCode rec \<noteq> 0)"
proof (cases "Allowlist_Check al (strings_Fields cmd) = None")
  case True
  obtain oc w' where oc: "os w (strings_Fields cmd) (scrubEnv host env) = (oc, w')" by fastforce
  have "\<not> (\<exists>out err dur. oc = Exits 0 out err dur)"
    using assms True oc by (auto simp: ran_clean_def)
  then show ?thesis
    using True oc by (cases oc) (auto simp: runSubprocess_def buildChildEnv_def Let_def)
qed simp

lemma evaluate_records_ok:
  "evaluate_records recs a = (ok, c) \<Longrightarrow>
     ok = (\<forall>r \<in> set recs. \<not> cm_PolicyViolation r \<and> \<not> cm_TimedOut r \<and> cm_ExitCode r = 0) \<and> (ok \<longleftrightarrow> c = [])"
  by (induction recs) (auto split: if_splits)

lemma Runner_Run_ok_iff:
  "(\<exists>recs. Runner_Run os host sha al env w cmds = ((recs, None), w')
        \<and> (\<forall>r \<in> set recs. \<not> cm_PolicyViolation r \<and> \<not> cm_TimedOut r \<and> cm_ExitCode r = 0)
        \<and> (recs = [] \<longleftrightarrow> cmds = []))
    \<longleftrightarrow> all_ran_clean os host al env w cmds w'"
proof (induction cmds arbitrary: w)
  case (Cons cmd cmds)
  show ?case
  proof (cases "\<exists>w1. ran_clean os host al env w cmd w1")
    case True
    then obtain w1 where w1: "ran_clean os host al env w cmd w1" by blast
    have uniq: "ran_clean os host al env w cmd w2 \<longleftrightarrow> w2 = w1" for w2
      using w1 by (auto simp: ran_clean_def)
    obtain recs' err' w'' where r: "Runner_Run os host sha al env w1 cmds = ((recs', err'), w'')"
      by (metis surj_pair)
    have nil: "recs' = [] \<longleftrightarrow> cmds = []"
      using r by (cases cmds) (auto simp: Let_def split: if_splits prod.splits)
    show ?thesis
      using Runner_Run_clean [OF w1, of sha cmds] Cons.IH [of w1] r nil
      by (auto simp: uniq simp del: Runner_Run.simps(2))
  next
    case False
    then show ?thesis
      using Runner_Run_stops [OF False, of sha cmds] by (auto simp del: Runner_Run.simps(2))
  qed
qed auto

text \<open>
  A validation run that ends without an infrastructure error is judged a success exactly
  when at least one command was declared and every declared command, in order, was permitted
  by the allowlist, was started with the scrubbed environment and exited with status 0.
\<close>

theorem Evaluate_Run_honest:
  "(\<exists>recs w'. Runner_Run os host sha al env w cmds = ((recs, None), w') \<and> Evaluate recs attempt = (True, c))
    \<longleftrightarrow> cmds \<noteq> [] \<and> c = [] \<and> (\<exists>w'. all_ran_clean os host al env w cmds w')"
proof -
  have nil: "recs = [] \<longleftrightarrow> cmds = []"
    if "Runner_Run os host sha al env w cmds = ((recs, err), w')" for recs err w'
    using that by (cases cmds) (auto simp: Let_def split: if_splits prod.splits)
  have ev: "Evaluate recs attempt = (True, c) \<longleftrightarrow> recs \<noteq> [] \<and> c = []
      \<and> (\<forall>r \<in> set recs. \<not> cm_PolicyViolation r \<and> \<not> cm_TimedOut r \<and> cm_ExitCode r = 0)" for recs
    using evaluate_records_ok [of recs attempt]
    by (cases "evaluate_records recs attempt") (auto simp: Evaluate_def)
  show ?thesis
    unfolding ev Runner_Run_ok_iff [of os host sha al env w cmds, symmetric] using nil by blast
qed

section \<open>Permitted scripts lie below the scripts directory\<close>

text \<open>
  In a cleaned path all elements \<open>..\<close> come first. The list is in reverse here, as in
  \<^const>\<open>clean_elems\<close>.
\<close>

fun dots_last :: "string list \<Rightarrow> bool" where
  "dots_last [] = True"
| "dots_last (x # xs) = (if x = ''..'' then set xs \<subseteq> {''..''} else dots_last xs)"

lemma dots_last_subset: "set xs \<subseteq> {''..''} \<Longrightarrow> dots_last xs"
  by (induction xs) auto

lemma clean_elems_dots: "dots_last out \<Longrightarrow> dots_last (rev (clean_elems rooted out es))"
  by (induction rooted out es rule: clean_elems.induct)
    (auto split: list.splits if_splits intro: dots_last_subset)

lemma dots_last_append: "dots_last (xs @ ys) \<Longrightarrow> xs \<noteq> [] \<Longrightarrow> last xs \<noteq> ''..'' \<Longrightarrow> ''..'' \<notin> set xs"
proof (induction xs)
  case (Cons x xs)
  show ?case
  proof (cases "xs = []")
    case False
    then have "last xs \<in> set xs" by simp
    moreover have "last xs \<noteq> ''..''" using Cons.prems False by simp
    ultimately have "x \<noteq> ''..''" using Cons.prems subsetD [of "set xs" "{''..''}" "last xs"] by auto
    then show ?thesis using Cons False by simp
  qed (use Cons.prems in auto)
qed simp

lemma path_elems_rest:
  assumes "path_elems p = base @ rest" and "rest \<noteq> []" and "hd rest \<noteq> ''..''"
  shows "''..'' \<notin> set rest"
proof -
  have "dots_last (rev rest @ rev base)"
    using clean_elems_dots [of "[]"] assms(1) by (metis path_elems_def rev_append dots_last.simps(1))
  then show ?thesis using dots_last_append [of "rev rest"] assms(2,3) by (simp add: last_rev)
qed

lemma rel_elems_inside:
  "rel_elems base targ = Some rel \<and> \<not> (rel \<noteq> [] \<and> hd rel = ''..'')
     \<longleftrightarrow> targ = base @ rel \<and> \<not> (rel \<noteq> [] \<and> hd rel = ''..'')"
  by (induction base targ rule: rel_elems.induct) auto

text \<open>
  The allowlist accepts \<open>bash <script>\<close> on account of the scripts directory exactly when
  the script's cleaned path continues the cleaned path of that directory by elements none
  of which leads upwards, so no spelling with \<open>..\<close> escapes from it; with no directory
  configured nothing is accepted.
\<close>

theorem isAllowedScript_confined:
  "isAllowedScript a p \<longleftrightarrow>
     al_scriptsDir a \<noteq> [] \<and> is_rooted (al_scriptsDir a) = is_rooted p
     \<and> (\<exists>rest. path_elems p = path_elems (al_scriptsDir a) @ rest \<and> ''..'' \<notin> set rest)"
proof -
  have "isAllowedScript a p \<longleftrightarrow> al_scriptsDir a \<noteq> [] \<and> is_rooted (al_scriptsDir a) = is_rooted p
      \<and> (\<exists>rest. rel_elems (path_elems (al_scriptsDir a)) (path_elems p) = Some rest
            \<and> \<not> (rest \<noteq> [] \<and> hd rest = ''..''))"
    by (auto simp: isAllowedScript_def filepath_Rel_def split: option.splits)
  also have "\<dots> \<longleftrightarrow> al_scriptsDir a \<noteq> [] \<and> is_rooted (al_scriptsDir a) = is_rooted p
      \<and> (\<exists>rest. path_elems p = path_elems (al_scriptsDir a) @ rest \<and> \<not> (rest \<noteq> [] \<and> hd rest = ''..''))"
    unfolding rel_elems_inside ..
  also have "\<dots> \<longleftrightarrow> al_scriptsDir a \<noteq> [] \<and> is_rooted (al_scriptsDir a) = is_rooted p
      \<and> (\<exists>rest. path_elems p = path_elems (al_scriptsDir a) @ rest \<and> ''..'' \<notin> set rest)"
    using path_elems_rest [of p "path_elems (al_scriptsDir a)"]
    by (intro conj_cong refl ex_cong1) (metis hd_in_set empty_iff empty_set)
  finally show ?thesis .
qed

section \<open>The environment of a subprocess\<close>

lemma scrubEnv_set: "set (scrubEnv host names) = {n @ ''='' @ v | n v. n \<in> set names \<and> host n = Some v}"
  by (induction names) (auto split: option.splits)

text \<open>
  A subprocess sees exactly the variables that its allowlist names and the host defines,
  less those the caller overrides, and the caller's own; no other host variable reaches it.
\<close>

theorem buildChildEnv_exact:
  assumes "\<forall>n \<in> set allowed. CHR ''='' \<notin> set n"
  shows "set (buildChildEnv host allowed extra) =
           {n @ ''='' @ v | n v. n \<in> set allowed \<and> host n = Some v \<and> map_of extra n = None}
         \<union> {n @ ''='' @ v | n v. map_of extra n = Some v}"
proof -
  have key: "takeWhile (\<lambda>c. c \<noteq> CHR ''='') (n @ ''='' @ v) = n" if "CHR ''='' \<notin> set n" for n v
    using that by (induction n) auto
  have "fst ` set extra = dom (map_of extra)" by (simp add: dom_map_of_conv_image_fst)
  then have over: "set (map (\<lambda>name. name @ ''='' @ the (map_of extra name)) (sort (map fst extra)))
      = {n @ ''='' @ v | n v. map_of extra n = Some v}"
    by (force simp: image_def dom_def)
  have "takeWhile (\<lambda>c. c \<noteq> CHR ''='') (n @ ''='' @ v) = n" if "n \<in> set allowed" for n v
    using key assms that by blast
  then have base: "set (filter (\<lambda>kv. map_of extra (takeWhile (\<lambda>c. c \<noteq> CHR ''='') kv) = None) (scrubEnv host allowed))
      = {n @ ''='' @ v | n v. n \<in> set allowed \<and> host n = Some v \<and> map_of extra n = None}"
    unfolding set_filter scrubEnv_set by force
  show ?thesis
  proof (cases "extra = []")
    case True
    then show ?thesis by (simp add: buildChildEnv_def scrubEnv_set)
  next
    case False
    show ?thesis unfolding buildChildEnv_def Let_def if_not_P [OF False] set_append over base ..
  qed
qed

theorem buildChildEnv_exact_witness:
  "set (buildChildEnv (map_of [(''HOME'', ''/root''), (''TOKEN'', ''t''), (''PATH'', ''/bin'')])
          [''PATH'', ''TOKEN''] [(''TOKEN'', ''scoped'')]) = {''PATH=/bin'', ''TOKEN=scoped''}"
  by (subst buildChildEnv_exact) (auto split: if_splits)

end
