(* ===== verification/Pec.thy ===== *)
theory Pec
  imports Plan_Topology Verify State_Model
begin

text \<open>
  The plan execution controller, package \<open>internal/pec\<close>: wave proposals by Kahn's layering
  (\<open>waves.go\<close>), progress reports (\<open>progress.go\<close>) and remediation proposals
  (\<open>remediate.go\<close>). The lemmas show that a proposal is the layering of the dependency
  graph, that it fails exactly on unknown dependencies and cycles, and that the order in
  which Go walks its maps does not matter.
\<close>

section \<open>Wave proposals\<close>

record wave_proposal =
  wp_Waves :: "string list list"
  wp_Explanation :: string

datatype wave_error =
    ProposalUnknownTask string
  | WaveUnknownDep string string
  | WaveCycle "string list"

definition ValidateWaveProposal :: "wave_proposal \<Rightarrow> document \<Rightarrow> wave_error option" where
  "ValidateWaveProposal proposal doc =
     (let known = map tk_ID (dc_Tasks doc) in
      case find (\<lambda>tid. tid \<notin> set known) (concat (wp_Waves proposal)) of
        Some tid \<Rightarrow> Some (ProposalUnknownTask tid)
      | None \<Rightarrow> None)"

text \<open>
  The map \<open>deps\<close> of sets is a function to lists without repetition, empty where the map has
  no key. The sets are filled task by task; the first unknown dependency is the error.
\<close>

fun add_deps ::
  "string list \<Rightarrow> string \<Rightarrow> string list \<Rightarrow> (string \<Rightarrow> string list) \<Rightarrow> wave_error + (string \<Rightarrow> string list)"
where
  "add_deps taskSet tid [] deps = Inr deps"
| "add_deps taskSet tid (dep # ds) deps =
     (if dep \<notin> set taskSet then Inl (WaveUnknownDep tid dep)
      else add_deps taskSet tid ds (deps(tid := List.insert dep (deps tid))))"

fun build_deps ::
  "string list \<Rightarrow> task list \<Rightarrow> (string \<Rightarrow> string list) \<Rightarrow> wave_error + (string \<Rightarrow> string list)" where
  "build_deps taskSet [] deps = Inr deps"
| "build_deps taskSet (t # ts) deps =
     (case add_deps taskSet (tk_ID t) (tk_DependsOn t) deps of
        Inl e \<Rightarrow> Inl e
      | Inr deps' \<Rightarrow> build_deps taskSet ts deps')"

text \<open>The inner loop over a placed wave, for one remaining task: its set and its in-degree.\<close>

fun retire :: "string list \<Rightarrow> string list \<Rightarrow> int \<Rightarrow> string list \<times> int" where
  "retire [] ds n = (ds, n)"
| "retire (placed # wave) ds n =
     (if placed \<in> set ds then retire wave (removeAll placed ds) (n - 1) else retire wave ds n)"

fun retire_all ::
  "string list \<Rightarrow> string list \<Rightarrow> (string \<Rightarrow> string list) \<Rightarrow> (string \<Rightarrow> int)
     \<Rightarrow> (string \<Rightarrow> string list) \<times> (string \<Rightarrow> int)" where
  "retire_all wave [] deps inDegree = (deps, inDegree)"
| "retire_all wave (tid # tids) deps inDegree =
     (let (ds, n) = retire wave (deps tid) (inDegree tid) in
      retire_all wave tids (deps(tid := ds)) (inDegree(tid := n)))"

text \<open>
  The layering loop. The map \<open>remaining\<close> is the list of its keys in the order in which Go
  happens to walk it. Each round places at least one task or stops.
\<close>

function layers ::
  "(string \<Rightarrow> string list) \<Rightarrow> (string \<Rightarrow> int) \<Rightarrow> string list \<Rightarrow> wave_error + string list list" where
  "layers deps inDegree remaining =
     (if remaining = [] then Inr []
      else
        (let wave = sort (filter (\<lambda>tid. inDegree tid = 0) remaining) in
         if wave = [] then Inl (WaveCycle (sort remaining))
         else
           (let remaining' = filter (\<lambda>tid. tid \<notin> set wave) remaining;
                (deps', inDegree') = retire_all wave remaining' deps inDegree in
            case layers deps' inDegree' remaining' of
              Inl e \<Rightarrow> Inl e
            | Inr waves \<Rightarrow> Inr (wave # waves))))"
  by pat_completeness auto
termination
  by (relation "measure (\<lambda>(_, _, remaining). length remaining)")
    (auto intro!: length_filter_less simp: filter_empty_conv)

declare layers.simps [simp del]

definition ProposeWaves :: "document \<Rightarrow> wave_error + wave_proposal" where
  "ProposeWaves doc =
     (let taskSet = remdups (map tk_ID (dc_Tasks doc)) in
      case build_deps taskSet (dc_Tasks doc) (\<lambda>_. []) of
        Inl e \<Rightarrow> Inl e
      | Inr deps \<Rightarrow>
          (case layers deps (\<lambda>tid. int (length (deps tid))) taskSet of
             Inl e \<Rightarrow> Inl e
           | Inr waves \<Rightarrow>
               Inr \<lparr>wp_Waves = waves,
                    wp_Explanation = show_nat (length (dc_Tasks doc)) @ '' task(s) in ''
                      @ show_nat (length waves) @ '' wave(s)''\<rparr>))"

section \<open>Progress and remediation\<close>

record transition_summary =
  ts_TaskID :: string
  ts_Status :: status

record plan_progress =
  pp_TotalTasks :: nat
  pp_CompletedTasks :: nat
  pp_FailedTasks :: nat
  pp_Summary :: string

definition ReportProgress :: "transition_summary list \<Rightarrow> plan_progress" where
  "ReportProgress transitions =
     (let total = length transitions;
          completed = length (filter (\<lambda>t. ts_Status t = StatusSucceeded) transitions);
          failed = length (filter (\<lambda>t. ts_Status t = StatusFailed \<or> ts_Status t = StatusCancelled) transitions);
          remaining = int total - int completed - int failed;
          summary =
            (if 0 < failed then
               show_nat completed @ ''/'' @ show_nat total @ '' tasks completed ('' @ show_nat failed
                 @ '' failed, '' @ show_int remaining @ '' remaining)''
             else if remaining = 0 \<and> completed = total then
               ''all '' @ show_nat total @ '' tasks completed''
             else
               show_nat completed @ ''/'' @ show_nat total @ '' tasks completed ('' @ show_int remaining
                 @ '' remaining)'') in
      \<lparr>pp_TotalTasks = total, pp_CompletedTasks = completed, pp_FailedTasks = failed, pp_Summary = summary\<rparr>)"

record task_ref =
  rf_PlanID :: string
  rf_TaskID :: string

record remediation =
  rm_Suggestion :: string
  rm_Confidence :: rat
  rm_Evidence :: "string list"

text \<open>The executor's own account of a run; its usage figures play no part here.\<close>

record summary =
  su_Claimed :: string
  su_ExitNotes :: string

definition record_evidence :: "command_record \<Rightarrow> string list" where
  "record_evidence r =
     (if cm_ExitCode r \<noteq> 0 then [''failed command: '' @ cm_Cmd r] else [])
     @ (if cm_PolicyViolation r then [''policy violation in: '' @ cm_Cmd r] else [])"

definition ProposeRemediation :: "task_ref \<Rightarrow> command_record list \<Rightarrow> summary list \<Rightarrow> remediation" where
  "ProposeRemediation failed records summaries =
     (let evidence = concat (map record_evidence records)
            @ map (\<lambda>s. ''executor claimed: '' @ su_Claimed s) (filter (\<lambda>s. su_Claimed s \<noteq> []) summaries) in
      if evidence = [] then
        \<lparr>rm_Suggestion = ''no evidence of failure found; re-run validation'',
         rm_Confidence = 1 / 10, rm_Evidence = []\<rparr>
      else
        \<lparr>rm_Suggestion =
           ''review failed commands and re-run validation; if a policy violation, update the validation allowlist'',
         rm_Confidence = 6 / 10, rm_Evidence = evidence\<rparr>)"

section \<open>The layering loop\<close>

lemma retire_eq:
  "distinct ds \<Longrightarrow> distinct wave \<Longrightarrow>
     retire wave ds n = (filter (\<lambda>d. d \<notin> set wave) ds, n - int (card (set ds \<inter> set wave)))"
proof (induction wave arbitrary: ds n)
  case (Cons p wave)
  have f: "filter (\<lambda>d. d \<notin> set wave) (removeAll p ds) = filter (\<lambda>d. d \<notin> set (p # wave)) ds"
    by (simp add: removeAll_filter_not_eq) (metis (mono_tags, lifting))
  show ?case
  proof (cases "p \<in> set ds")
    case True
    have "set ds \<inter> set (p # wave) = insert p (set (removeAll p ds) \<inter> set wave)"
      using True Cons.prems by auto
    then have "card (set ds \<inter> set (p # wave)) = Suc (card (set (removeAll p ds) \<inter> set wave))"
      by simp
    then show ?thesis using True Cons f by (simp add: distinct_removeAll)
  next
    case False
    then show ?thesis
      using Cons by (auto intro!: filter_cong arg_cong [of _ _ card])
  qed
qed simp

text \<open>
  What the loop keeps: the in-degree of a remaining task is the number of its dependencies
  that are not placed yet, and those are among the remaining tasks.
\<close>

definition layer_inv :: "(string \<Rightarrow> string list) \<Rightarrow> (string \<Rightarrow> int) \<Rightarrow> string list \<Rightarrow> bool" where
  "layer_inv deps inDegree remaining \<longleftrightarrow> distinct remaining
     \<and> (\<forall>tid \<in> set remaining. distinct (deps tid) \<and> inDegree tid = int (length (deps tid))
          \<and> set (deps tid) \<subseteq> set remaining)"

lemma retire_all_eq:
  "distinct tids \<Longrightarrow> retire_all wave tids deps inDegree =
     (\<lambda>tid. if tid \<in> set tids then fst (retire wave (deps tid) (inDegree tid)) else deps tid,
      \<lambda>tid. if tid \<in> set tids then snd (retire wave (deps tid) (inDegree tid)) else inDegree tid)"
  by (induction tids arbitrary: deps inDegree) (auto simp: Let_def split: prod.splits)

lemma retire_all_inv:
  assumes inv: "layer_inv deps inDegree remaining" and w: "set wave \<subseteq> set remaining" "distinct wave"
    and r: "remaining' = filter (\<lambda>tid. tid \<notin> set wave) remaining"
    and e: "retire_all wave remaining' deps inDegree = (deps', inDegree')"
  shows "layer_inv deps' inDegree' remaining'"
    and "\<And>tid. tid \<in> set remaining' \<Longrightarrow> set (deps' tid) = set (deps tid) - set wave"
proof -
  have d: "distinct remaining'" using inv r by (simp add: layer_inv_def)
  have c: "int (length ds) - int (card (set ds \<inter> set wave)) = int (length (filter (\<lambda>d. d \<notin> set wave) ds))"
    if "distinct ds" for ds :: "string list"
  proof -
    have "card (set ds \<inter> set wave) = length (filter (\<lambda>d. d \<in> set wave) ds)"
      using that by (metis distinct_card distinct_filter inter_set_filter Int_commute)
    then show ?thesis using sum_length_filter_compl [of "\<lambda>d. d \<in> set wave" ds] by simp
  qed
  have "deps' tid = filter (\<lambda>d. d \<notin> set wave) (deps tid) \<and> inDegree' tid = int (length (deps' tid))"
    if "tid \<in> set remaining'" for tid
  proof -
    have "distinct (deps tid)" "inDegree tid = int (length (deps tid))"
      using inv that r by (auto simp: layer_inv_def)
    then show ?thesis
      using e that c unfolding retire_all_eq [OF d] by (auto simp: retire_eq w(2))
  qed
  then show "layer_inv deps' inDegree' remaining'"
    and "\<And>tid. tid \<in> set remaining' \<Longrightarrow> set (deps' tid) = set (deps tid) - set wave"
    using d inv r by (auto simp: layer_inv_def)
qed

text \<open>
  The layering of a set of tasks under a dependency relation: the waves partition the set,
  each is sorted and not empty, every dependency of a task is in an earlier wave, and a
  task is placed as early as its dependencies allow.
\<close>

definition is_layering :: "string set \<Rightarrow> (string \<times> string) set \<Rightarrow> string list list \<Rightarrow> bool" where
  "is_layering nodes r ws \<longleftrightarrow>
     distinct (concat ws) \<and> set (concat ws) = nodes \<and> (\<forall>w \<in> set ws. w \<noteq> [] \<and> sorted w)
     \<and> (\<forall>i < length ws. \<forall>x \<in> set (ws ! i).
          (\<forall>d. (x, d) \<in> r \<longrightarrow> (\<exists>j < i. d \<in> set (ws ! j)))
          \<and> (0 < i \<longrightarrow> (\<exists>d \<in> set (ws ! (i - 1)). (x, d) \<in> r)))"

text \<open>A set of tasks each of which waits for another one of the set.\<close>

definition deadlocked :: "(string \<times> string) set \<Rightarrow> string list \<Rightarrow> bool" where
  "deadlocked r c \<longleftrightarrow> c \<noteq> [] \<and> (\<forall>x \<in> set c. \<exists>d \<in> set c. (x, d) \<in> r)"

lemma deadlocked_mono: "r \<subseteq> s \<Longrightarrow> deadlocked r c \<Longrightarrow> deadlocked s c"
  unfolding deadlocked_def by blast

abbreviation deps_rel :: "(string \<Rightarrow> string list) \<Rightarrow> string list \<Rightarrow> (string \<times> string) set" where
  "deps_rel deps remaining \<equiv> {(x, d). x \<in> set remaining \<and> d \<in> set (deps x)}"

lemma is_layering_Cons:
  assumes ws: "is_layering (set rem') (deps_rel deps' rem') ws"
    and wave: "wave \<noteq> []" "sorted wave" "distinct wave" "\<forall>x \<in> set wave. deps x = []"
    and rem: "set remaining = set wave \<union> set rem'" "set wave \<inter> set rem' = {}"
    and left: "\<And>x. x \<in> set rem' \<Longrightarrow> set (deps' x) = set (deps x) - set wave \<and> deps x \<noteq> []"
  shows "is_layering (set remaining) (deps_rel deps remaining) (wave # ws)"
proof -
  have part: "distinct (concat ws)" "set (concat ws) = set rem'" "\<forall>w \<in> set ws. w \<noteq> [] \<and> sorted w"
    using ws by (simp_all add: is_layering_def)
  have inr: "x \<in> set rem'" if "i < length ws" "x \<in> set (ws ! i)" for i x
    using that part(2) nth_mem by fastforce
  have "(\<forall>d. (x, d) \<in> deps_rel deps remaining \<longrightarrow> (\<exists>j < i. d \<in> set ((wave # ws) ! j)))
      \<and> (0 < i \<longrightarrow> (\<exists>d \<in> set ((wave # ws) ! (i - 1)). (x, d) \<in> deps_rel deps remaining))"
    if i: "i < length (wave # ws)" and x: "x \<in> set ((wave # ws) ! i)" for i x
  proof (cases i)
    case 0
    then show ?thesis using x wave(4) by simp
  next
    case (Suc k)
    then have k: "k < length ws" "x \<in> set (ws ! k)" using i x by auto
    then have lay: "\<forall>d \<in> set (deps' x). \<exists>j < k. d \<in> set (ws ! j)"
      "0 < k \<Longrightarrow> \<exists>d \<in> set (ws ! (k - 1)). d \<in> set (deps' x)"
      using ws inr [OF k] by (auto simp: is_layering_def)
    have x': "set (deps' x) = set (deps x) - set wave" "deps x \<noteq> []" "x \<in> set remaining"
      using left inr [OF k] rem by auto
    have "\<exists>j < i. d \<in> set ((wave # ws) ! j)" if dep: "d \<in> set (deps x)" for d
    proof (cases "d \<in> set wave")
      case True
      then show ?thesis using Suc by (intro exI [of _ 0]) simp
    next
      case False
      then obtain j where "j < k" "d \<in> set (ws ! j)" using lay(1) x'(1) dep by auto
      then show ?thesis using Suc by (intro exI [of _ "Suc j"]) simp
    qed
    moreover have "\<exists>d \<in> set ((wave # ws) ! k). d \<in> set (deps x)"
    proof (cases k)
      case 0
      then have "set (deps' x) = {}" using lay(1) by auto
      then show ?thesis using x'(1,2) 0 by (auto simp: neq_Nil_conv)
    next
      case (Suc m)
      then show ?thesis using lay(2) x'(1) by auto
    qed
    ultimately show ?thesis using Suc x'(3) by auto
  qed
  then show ?thesis using part wave rem by (auto simp: is_layering_def)
qed

lemma layers_spec:
  "layer_inv deps inDegree remaining \<Longrightarrow>
     (case layers deps inDegree remaining of
        Inr ws \<Rightarrow> is_layering (set remaining) (deps_rel deps remaining) ws
      | Inl e \<Rightarrow> (\<exists>c. e = WaveCycle c \<and> deadlocked (deps_rel deps remaining) c))"
proof (induction deps inDegree remaining rule: layers.induct)
  case (1 deps inDegree remaining)
  define wave where "wave = sort (filter (\<lambda>tid. inDegree tid = 0) remaining)"
  define rem' where "rem' = filter (\<lambda>tid. tid \<notin> set wave) remaining"
  obtain deps' deg' where r: "retire_all wave rem' deps inDegree = (deps', deg')" by fastforce
  have inv: "distinct remaining" "\<And>x. x \<in> set remaining \<Longrightarrow> inDegree x = int (length (deps x))"
    "\<And>x. x \<in> set remaining \<Longrightarrow> set (deps x) \<subseteq> set remaining"
    using "1.prems" by (auto simp: layer_inv_def)
  have wset: "set wave = {x \<in> set remaining. deps x = []}"
    using inv(2) by (auto simp: wave_def)
  consider "remaining = []" | "remaining \<noteq> []" "wave = []" | "remaining \<noteq> []" "wave \<noteq> []" by blast
  then show ?case
  proof cases
    case 1
    then show ?thesis by (simp add: layers.simps is_layering_def)
  next
    case 2
    then have "\<forall>x \<in> set remaining. deps x \<noteq> []" using wset by auto
    then have "\<forall>x \<in> set remaining. \<exists>d \<in> set remaining. d \<in> set (deps x)"
      using inv(3) by (metis hd_in_set subsetD)
    then have "deadlocked (deps_rel deps remaining) (sort remaining)"
      using 2 by (auto simp: deadlocked_def)
    moreover have "layers deps inDegree remaining = Inl (WaveCycle (sort remaining))"
      using 2 by (subst layers.simps) (simp add: wave_def)
    ultimately show ?thesis by simp
  next
    case 3
    have eq: "layers deps inDegree remaining =
        (case layers deps' deg' rem' of Inl e \<Rightarrow> Inl e | Inr ws \<Rightarrow> Inr (wave # ws))"
      using 3 r by (subst layers.simps) (simp add: wave_def [symmetric] rem'_def [symmetric] Let_def)
    have sub: "set wave \<subseteq> set remaining" "distinct wave" using inv(1) by (auto simp: wave_def)
    have inv': "layer_inv deps' deg' rem'"
      and left: "\<And>x. x \<in> set rem' \<Longrightarrow> set (deps' x) = set (deps x) - set wave"
      using retire_all_inv [OF "1.prems" sub rem'_def r] by auto
    have IH: "case layers deps' deg' rem' of
        Inr ws \<Rightarrow> is_layering (set rem') (deps_rel deps' rem') ws
      | Inl e \<Rightarrow> (\<exists>c. e = WaveCycle c \<and> deadlocked (deps_rel deps' rem') c)"
      using "1.IH" [OF 3(1) wave_def _ rem'_def r [symmetric] refl] 3(2) inv' by simp
    have mono: "deps_rel deps' rem' \<subseteq> deps_rel deps remaining" using left by (auto simp: rem'_def)
    show ?thesis
    proof (cases "layers deps' deg' rem'")
      case (Inl e)
      then show ?thesis using IH eq deadlocked_mono [OF mono] by auto
    next
      case (Inr ws)
      have "is_layering (set remaining) (deps_rel deps remaining) (wave # ws)"
      proof (rule is_layering_Cons [of rem' deps'])
        show "is_layering (set rem') (deps_rel deps' rem') ws" using IH Inr by simp
      qed (use 3 wset inv left in \<open>auto simp: wave_def rem'_def\<close>)
      then show ?thesis using Inr eq by simp
    qed
  qed
qed

section \<open>Proposals\<close>

lemma deadlocked_cyclic: "deadlocked r c \<Longrightarrow> \<not> acyclic r"
proof
  assume c: "deadlocked r c" and "acyclic r"
  let ?s = "r \<inter> set c \<times> set c"
  have "acyclic ?s" using \<open>acyclic r\<close> by (rule acyclic_subset) blast
  then have "wf (?s\<inverse>)" by (intro finite_acyclic_wf_converse) auto
  moreover have "hd c \<in> set c" using c by (simp add: deadlocked_def)
  ultimately obtain m where "m \<in> set c" "\<And>y. (y, m) \<in> ?s\<inverse> \<Longrightarrow> y \<notin> set c"
    using wfE_min [of "?s\<inverse>" "hd c" "set c"] by metis
  then show False using c unfolding deadlocked_def by blast
qed

lemma layering_acyclic:
  assumes lay: "is_layering nodes r ws" and r: "r \<subseteq> nodes \<times> UNIV"
  shows "acyclic r"
proof -
  define f where "f x = (LEAST i. i < length ws \<and> x \<in> set (ws ! i))" for x
  have "f d < f x" if xd: "(x, d) \<in> r" for x d
  proof -
    have "x \<in> set (concat ws)" using lay r xd by (auto simp: is_layering_def)
    then obtain w where "w \<in> set ws" "x \<in> set w" by auto
    then obtain i where "i < length ws \<and> x \<in> set (ws ! i)" by (metis in_set_conv_nth)
    then have i: "f x < length ws \<and> x \<in> set (ws ! f x)" unfolding f_def by (rule LeastI)
    then obtain j where "j < f x" "d \<in> set (ws ! j)" using lay xd unfolding is_layering_def by blast
    moreover from this have "f d \<le> j" using i unfolding f_def [of d] by (intro Least_le) auto
    ultimately show ?thesis by simp
  qed
  then have "int (f b) < int (f a)" if "(a, b) \<in> r\<^sup>+" for a b
    using trancl_decreases [OF that, of "\<lambda>x. int (f x)"] by simp
  then show ?thesis unfolding acyclic_def by blast
qed

lemma add_deps_spec:
  "case add_deps ts tid ds deps of
     Inr deps' \<Rightarrow> set ds \<subseteq> set ts \<and> set (deps' tid) = set (deps tid) \<union> set ds
       \<and> (distinct (deps tid) \<longrightarrow> distinct (deps' tid)) \<and> (\<forall>x. x \<noteq> tid \<longrightarrow> deps' x = deps x)
   | Inl e \<Rightarrow> (\<exists>d \<in> set ds - set ts. e = WaveUnknownDep tid d)"
proof (induction ds arbitrary: deps)
  case (Cons d ds)
  define deps1 where "deps1 = deps(tid := List.insert d (deps tid))"
  have "set (deps1 tid) = insert d (set (deps tid))" "distinct (deps tid) \<Longrightarrow> distinct (deps1 tid)"
    "\<And>x. x \<noteq> tid \<Longrightarrow> deps1 x = deps x"
    by (simp_all add: deps1_def)
  then show ?case
    using Cons [of deps1] by (cases "add_deps ts tid ds deps1") (auto simp: deps1_def [symmetric])
qed simp

lemma build_deps_spec:
  "case build_deps ids ts deps of
     Inr deps' \<Rightarrow> (\<forall>t \<in> set ts. set (tk_DependsOn t) \<subseteq> set ids)
       \<and> (\<forall>x. set (deps' x) = set (deps x) \<union> {d. \<exists>t \<in> set ts. tk_ID t = x \<and> d \<in> set (tk_DependsOn t)})
       \<and> (\<forall>x. distinct (deps x) \<longrightarrow> distinct (deps' x))
   | Inl e \<Rightarrow> (\<exists>t \<in> set ts. \<exists>d \<in> set (tk_DependsOn t) - set ids. e = WaveUnknownDep (tk_ID t) d)"
proof (induction ts arbitrary: deps)
  case (Cons t ts)
  show ?case
  proof (cases "add_deps ids (tk_ID t) (tk_DependsOn t) deps")
    case (Inl e)
    then show ?thesis using add_deps_spec [where ts = ids and tid = "tk_ID t" and ds = "tk_DependsOn t" and deps = deps] by auto
  next
    case (Inr deps1)
    then have d1: "set (tk_DependsOn t) \<subseteq> set ids" "set (deps1 (tk_ID t)) = set (deps (tk_ID t)) \<union> set (tk_DependsOn t)"
      "distinct (deps (tk_ID t)) \<Longrightarrow> distinct (deps1 (tk_ID t))" "\<And>x. x \<noteq> tk_ID t \<Longrightarrow> deps1 x = deps x"
      using add_deps_spec [where ts = ids and tid = "tk_ID t" and ds = "tk_DependsOn t" and deps = deps] by auto
    then have "distinct (deps1 x)" if "distinct (deps x)" for x using that by (cases "x = tk_ID t") auto
    moreover have "set (deps1 x) = set (deps x) \<union> (if x = tk_ID t then set (tk_DependsOn t) else {})" for x
      using d1 by (cases "x = tk_ID t") auto
    ultimately show ?thesis using Inr Cons [of deps1] d1(1) by (auto split: sum.splits if_splits)
  qed
qed simp

abbreviation doc_deps :: "document \<Rightarrow> (string \<times> string) set" where
  "doc_deps doc \<equiv> dep_relation (TopologyFromDocument doc)"

lemma doc_deps_def: "doc_deps doc = {(tk_ID t, d) | t d. t \<in> set (dc_Tasks doc) \<and> d \<in> set (tk_DependsOn t)}"
  by (force simp: dep_relation_def TopologyFromDocument_def)

lemma ProposeWaves_cases:
  "case ProposeWaves doc of
     Inr p \<Rightarrow> snd ` doc_deps doc \<subseteq> tk_ID ` set (dc_Tasks doc)
       \<and> is_layering (tk_ID ` set (dc_Tasks doc)) (doc_deps doc) (wp_Waves p)
   | Inl (WaveUnknownDep t d) \<Rightarrow> (t, d) \<in> doc_deps doc \<and> d \<notin> tk_ID ` set (dc_Tasks doc)
   | Inl (WaveCycle c) \<Rightarrow> snd ` doc_deps doc \<subseteq> tk_ID ` set (dc_Tasks doc) \<and> deadlocked (doc_deps doc) c
   | Inl (ProposalUnknownTask _) \<Rightarrow> False"
proof -
  let ?ids = "remdups (map tk_ID (dc_Tasks doc))"
  show ?thesis
  proof (cases "build_deps ?ids (dc_Tasks doc) (\<lambda>_. [])")
    case (Inl e)
    then show ?thesis
      using build_deps_spec [where ids = ?ids and ts = "dc_Tasks doc" and deps = "\<lambda>_. []"] by (auto simp: ProposeWaves_def doc_deps_def)
  next
    case (Inr deps)
    have d: "\<forall>t \<in> set (dc_Tasks doc). set (tk_DependsOn t) \<subseteq> set ?ids" "\<And>x. distinct (deps x)"
      "\<And>x. set (deps x) = {d. \<exists>t \<in> set (dc_Tasks doc). tk_ID t = x \<and> d \<in> set (tk_DependsOn t)}"
      using build_deps_spec [where ids = ?ids and ts = "dc_Tasks doc" and deps = "\<lambda>_. []"] Inr by auto
    have rel: "deps_rel deps ?ids = doc_deps doc" unfolding doc_deps_def d(3) by auto metis
    have known: "snd ` doc_deps doc \<subseteq> tk_ID ` set (dc_Tasks doc)" using d(1) unfolding doc_deps_def by auto blast
    have "layer_inv deps (\<lambda>tid. int (length (deps tid))) ?ids"
      using d by (auto simp: layer_inv_def)
    from layers_spec [OF this] show ?thesis
      using Inr rel known by (auto simp: ProposeWaves_def split: sum.splits wave_error.splits)
  qed
qed

lemma ValidateWaveProposal_layering:
  "is_layering (tk_ID ` set (dc_Tasks doc)) r (wp_Waves p) \<Longrightarrow> ValidateWaveProposal p doc = None"
  by (auto simp: ValidateWaveProposal_def is_layering_def Let_def find_None_all [THEN iffD2] split: option.splits)

lemma ProposeWaves_exists_iff:
  "(\<exists>p. ProposeWaves doc = Inr p) \<longleftrightarrow>
     snd ` doc_deps doc \<subseteq> tk_ID ` set (dc_Tasks doc) \<and> acyclic (doc_deps doc)"
proof -
  have dom: "doc_deps doc \<subseteq> tk_ID ` set (dc_Tasks doc) \<times> UNIV" by (auto simp: doc_deps_def)
  have bad: "\<not> snd ` doc_deps doc \<subseteq> tk_ID ` set (dc_Tasks doc)"
    if "(t, d) \<in> doc_deps doc" "d \<notin> tk_ID ` set (dc_Tasks doc)" for t d
    using that by force
  show ?thesis
    using ProposeWaves_cases [of doc] layering_acyclic [OF _ dom] deadlocked_cyclic bad
    by (auto split: sum.splits wave_error.splits)
qed

text \<open>
  C30: A wave proposal is the layering of the plan's dependency graph: its waves partition the
  task ids, each wave is sorted, and a task stands exactly one wave after the last of its
  dependencies. Every error names a real unknown dependency or a set of tasks each of which
  waits for another one of the set.
\<close>

theorem ProposeWaves_correct:
  "case ProposeWaves doc of
     Inr p \<Rightarrow> is_layering (tk_ID ` set (dc_Tasks doc)) (doc_deps doc) (wp_Waves p)
       \<and> ValidateWaveProposal p doc = None
   | Inl (WaveUnknownDep t d) \<Rightarrow> (t, d) \<in> doc_deps doc \<and> d \<notin> tk_ID ` set (dc_Tasks doc)
   | Inl (WaveCycle c) \<Rightarrow> deadlocked (doc_deps doc) c
   | Inl (ProposalUnknownTask _) \<Rightarrow> False"
  using ProposeWaves_cases [of doc] ValidateWaveProposal_layering by (auto split: sum.splits wave_error.splits)

text \<open>
  A plan gets a wave proposal exactly when all its dependencies name tasks of the plan and
  the dependency graph has no cycle.
\<close>

theorem ProposeWaves_complete:
  "(\<exists>p. ProposeWaves doc = Inr p) \<longleftrightarrow>
     snd ` doc_deps doc \<subseteq> tk_ID ` set (dc_Tasks doc) \<and> acyclic (doc_deps doc)"
  by (rule ProposeWaves_exists_iff)

lemma retire_all_perm:
  "distinct xs \<Longrightarrow> mset xs = mset ys \<Longrightarrow> retire_all wave xs deps inDegree = retire_all wave ys deps inDegree"
  by (subst (1 2) retire_all_eq) (auto dest: mset_eq_imp_distinct_iff mset_eq_setD)

text \<open>
  Go walks its maps in an arbitrary order; the waves, and the tasks an error names, are
  the same for every order of the remaining tasks.
\<close>

theorem layers_order_independent:
  assumes "distinct xs" and "mset xs = mset ys"
  shows "layers deps inDegree xs = layers deps inDegree ys"
  using assms
proof (induction deps inDegree xs arbitrary: ys rule: layers.induct)
  case (1 deps inDegree xs)
  define wave where "wave = sort (filter (\<lambda>tid. inDegree tid = 0) xs)"
  have wave: "sort (filter (\<lambda>tid. inDegree tid = 0) ys) = wave"
    unfolding wave_def sort_eq_iff_mset using "1.prems" by simp
  define xs' where "xs' = filter (\<lambda>tid. tid \<notin> set wave) xs"
  define ys' where "ys' = filter (\<lambda>tid. tid \<notin> set wave) ys"
  have p: "distinct xs'" "mset xs' = mset ys'" using "1.prems" by (simp_all add: xs'_def ys'_def)
  obtain deps' deg' where r: "retire_all wave xs' deps inDegree = (deps', deg')" by fastforce
  then have r': "retire_all wave ys' deps inDegree = (deps', deg')" using retire_all_perm [OF p] by simp
  have nil: "xs = [] \<longleftrightarrow> ys = []" using "1.prems" by (metis mset_zero_iff)
  have s: "sort xs = sort ys" using "1.prems" by (simp add: sort_eq_iff_mset)
  have IH: "layers deps' deg' xs' = layers deps' deg' ys'" if "xs \<noteq> []" "wave \<noteq> []"
    using "1.IH" [OF that(1) wave_def that(2) xs'_def r [symmetric] refl p] .
  show ?case
    using IH nil s r r'
    by (subst (1 2) layers.simps)
      (simp add: Let_def wave [unfolded wave_def] wave_def [symmetric] xs'_def [symmetric] ys'_def [symmetric])
qed

theorem layers_order_independent_witness:
  "layers ((\<lambda>_. [])(''c'' := [''a''])) ((\<lambda>_. 0)(''c'' := 1)) [''a'', ''b'', ''c''] = Inr [[''a'', ''b''], [''c'']]
   \<and> layers ((\<lambda>_. [])(''c'' := [''a''])) ((\<lambda>_. 0)(''c'' := 1)) [''c'', ''b'', ''a''] = Inr [[''a'', ''b''], [''c'']]"
proof -
  have "layers ((\<lambda>_. [])(''c'' := [''a''])) ((\<lambda>_. 0)(''c'' := 1)) [''a'', ''b'', ''c''] = Inr [[''a'', ''b''], [''c'']]"
    by (simp add: layers.simps)
  moreover from this have "layers ((\<lambda>_. [])(''c'' := [''a''])) ((\<lambda>_. 0)(''c'' := 1)) [''c'', ''b'', ''a'']
      = Inr [[''a'', ''b''], [''c'']]"
    by (subst layers_order_independent [of _ "[''a'', ''b'', ''c'']"]) (simp_all add: add_mset_commute)
  ultimately show ?thesis ..
qed

end
