(* ===== verification/Lease_Store.thy ===== *)
theory Lease_Store
  imports Prelude
begin

text \<open>
  Leases and fencing tokens, \<open>internal/kernel/lease.go\<close>, with the table \<open>leases\<close> of migration
  \<open>00002\<close>. The interface \<open>LeaseStore\<close> is the locale \<open>lease_store\<close>, with the laws the kernel
  relies on; both implementations, the in-memory store and the Postgres store, are shown to
  satisfy them. The lemmas proved once in the locale are the fencing guarantees: as long
  as a token passes \<open>Check\<close>, no other holder has been granted the resource since. The
  stronger contract of an idempotent re-acquisition is a locale of its own, which only the
  in-memory store satisfies.
\<close>

section \<open>Leases and the environment\<close>

record lease =
  ls_Resource :: string
  ls_Token :: string
  ls_Holder :: string
  ls_ExpiresAt :: int

text \<open>
  What a call finds outside the store: the reading of the process clock, the reading of the
  database clock, the outcome of \<open>newToken\<close> (\<^const>\<open>None\<close> when the random source fails) and,
  for the Postgres store, whether the statement fails in the database or the connection.
  A failing statement takes no effect.
\<close>

record lease_env =
  en_now :: int
  en_db_now :: int
  en_token :: "string option"
  en_db_fault :: bool

datatype lease_error = ErrLeaseHeld string string | ErrNewToken | ErrLeaseDB string

type_synonym lease_table = "string \<Rightarrow> lease option"

section \<open>The in-memory store\<close>

definition MemLeaseStore_Acquire ::
  "lease_env \<Rightarrow> lease_table \<Rightarrow> string \<Rightarrow> string \<Rightarrow> int \<Rightarrow> (lease_error + lease) \<times> lease_table" where
  "MemLeaseStore_Acquire e s resource holder ttl =
     (case s resource of
        Some existing \<Rightarrow>
          if en_now e < ls_ExpiresAt existing then
            (if ls_Holder existing \<noteq> holder then (Inl (ErrLeaseHeld resource (ls_Holder existing)), s)
             else
               (let existing' = existing\<lparr>ls_ExpiresAt := en_now e + ttl\<rparr> in
                (Inr existing', s(resource \<mapsto> existing'))))
          else
            (case en_token e of
               None \<Rightarrow> (Inl ErrNewToken, s)
             | Some token \<Rightarrow>
                 (let l = \<lparr>ls_Resource = resource, ls_Token = token, ls_Holder = holder,
                           ls_ExpiresAt = en_now e + ttl\<rparr> in
                  (Inr l, s(resource \<mapsto> l))))
      | None \<Rightarrow>
          (case en_token e of
             None \<Rightarrow> (Inl ErrNewToken, s)
           | Some token \<Rightarrow>
               (let l = \<lparr>ls_Resource = resource, ls_Token = token, ls_Holder = holder,
                         ls_ExpiresAt = en_now e + ttl\<rparr> in
                (Inr l, s(resource \<mapsto> l)))))"

definition MemLeaseStore_Check :: "lease_env \<Rightarrow> lease_table \<Rightarrow> string \<Rightarrow> string \<Rightarrow> lease_error + bool" where
  "MemLeaseStore_Check e s resource token =
     (case s resource of
        None \<Rightarrow> Inr False
      | Some l \<Rightarrow> Inr (ls_Token l = token \<and> en_now e < ls_ExpiresAt l))"

definition MemLeaseStore_Release ::
  "lease_env \<Rightarrow> lease_table \<Rightarrow> string \<Rightarrow> string \<Rightarrow> lease_error option \<times> lease_table" where
  "MemLeaseStore_Release e s resource token =
     (case s resource of
        Some l \<Rightarrow> if ls_Token l = token then (None, s(resource := None)) else (None, s)
      | None \<Rightarrow> (None, s))"

section \<open>The Postgres store\<close>

text \<open>
  The column \<open>expires_at\<close> is a \<open>TIMESTAMPTZ\<close>: the driver sends whole microseconds. The
  condition of the three \<open>CASE\<close> expressions compares with the database clock.
\<close>

definition pg_time :: "int \<Rightarrow> int" where
  "pg_time t = t div 1000 * 1000"

definition PGLeaseStore_Acquire ::
  "lease_env \<Rightarrow> lease_table \<Rightarrow> string \<Rightarrow> string \<Rightarrow> int \<Rightarrow> (lease_error + lease) \<times> lease_table" where
  "PGLeaseStore_Acquire e s resource holder ttl =
     (case en_token e of
        None \<Rightarrow> (Inl ErrNewToken, s)
      | Some token \<Rightarrow>
          if en_db_fault e then (Inl (ErrLeaseDB resource), s)
          else
            (let excluded = \<lparr>ls_Resource = resource, ls_Token = token, ls_Holder = holder,
                             ls_ExpiresAt = pg_time (en_now e + ttl)\<rparr>;
                 row = (case s resource of
                          None \<Rightarrow> excluded
                        | Some l \<Rightarrow>
                            if ls_Holder l = holder \<or> ls_ExpiresAt l < en_db_now e then excluded else l);
                 s' = s(resource \<mapsto> row) in
             if ls_Holder row \<noteq> holder then (Inl (ErrLeaseHeld resource (ls_Holder row)), s')
             else (Inr \<lparr>ls_Resource = resource, ls_Token = ls_Token row, ls_Holder = ls_Holder row,
                        ls_ExpiresAt = ls_ExpiresAt row\<rparr>, s')))"

definition PGLeaseStore_Check :: "lease_env \<Rightarrow> lease_table \<Rightarrow> string \<Rightarrow> string \<Rightarrow> lease_error + bool" where
  "PGLeaseStore_Check e s resource token =
     (if en_db_fault e then Inl (ErrLeaseDB resource)
      else
        (case s resource of
           None \<Rightarrow> Inr False
         | Some l \<Rightarrow> Inr (ls_Token l = token \<and> en_now e < ls_ExpiresAt l)))"

definition PGLeaseStore_Release ::
  "lease_env \<Rightarrow> lease_table \<Rightarrow> string \<Rightarrow> string \<Rightarrow> lease_error option \<times> lease_table" where
  "PGLeaseStore_Release e s resource token =
     (if en_db_fault e then (Some (ErrLeaseDB resource), s)
      else
        (case s resource of
           Some l \<Rightarrow> if ls_Token l = token then (None, s(resource := None)) else (None, s)
         | None \<Rightarrow> (None, s)))"

section \<open>Histories of calls\<close>

datatype lease_op =
    OpAcquire lease_env string string int
  | OpRelease lease_env string string

text \<open>
  A history applies calls one after the other (the in-memory store holds its mutex, the
  database serialises the upserts on the primary key) and records the result of every
  acquisition.
\<close>

fun lease_history ::
  "(lease_env \<Rightarrow> 's \<Rightarrow> string \<Rightarrow> string \<Rightarrow> int \<Rightarrow> (lease_error + lease) \<times> 's)
     \<Rightarrow> (lease_env \<Rightarrow> 's \<Rightarrow> string \<Rightarrow> string \<Rightarrow> lease_error option \<times> 's)
     \<Rightarrow> lease_op list \<Rightarrow> 's \<Rightarrow> (string \<times> string \<times> (lease_error + lease)) list \<times> 's" where
  "lease_history acq rel [] s = ([], s)"
| "lease_history acq rel (OpAcquire e r h ttl # ops) s =
     (let (res, s1) = acq e s r h ttl; (rs, s2) = lease_history acq rel ops s1 in
      ((r, h, res) # rs, s2))"
| "lease_history acq rel (OpRelease e r t # ops) s = lease_history acq rel ops (snd (rel e s r t))"

fun op_token :: "lease_op \<Rightarrow> string option" where
  "op_token (OpAcquire e r h ttl) = en_token e"
| "op_token (OpRelease e r t) = None"

section \<open>The interface\<close>

text \<open>
  \<open>slot\<close> reads the row of a resource. A granted lease carries the token drawn for this call
  or the token the same holder had; a refused or failed acquisition changes nothing; a
  live lease of another holder is never taken over.
\<close>

locale lease_store =
  fixes acq :: "lease_env \<Rightarrow> 's \<Rightarrow> string \<Rightarrow> string \<Rightarrow> int \<Rightarrow> (lease_error + lease) \<times> 's"
    and chk :: "lease_env \<Rightarrow> 's \<Rightarrow> string \<Rightarrow> string \<Rightarrow> lease_error + bool"
    and rel :: "lease_env \<Rightarrow> 's \<Rightarrow> string \<Rightarrow> string \<Rightarrow> lease_error option \<times> 's"
    and slot :: "'s \<Rightarrow> string \<Rightarrow> lease option"
    and live :: "lease_env \<Rightarrow> lease \<Rightarrow> bool"
  assumes granted: "acq e s r h ttl = (Inr l, s') \<Longrightarrow>
      slot s' r = Some l \<and> ls_Holder l = h \<and> (\<forall>q. q \<noteq> r \<longrightarrow> slot s' q = slot s q)
      \<and> (en_token e = Some (ls_Token l)
         \<or> (\<exists>l0. slot s r = Some l0 \<and> ls_Holder l0 = h \<and> ls_Token l0 = ls_Token l))"
    and refused: "acq e s r h ttl = (Inl err, s') \<Longrightarrow> slot s' = slot s"
    and exclusive: "slot s r = Some l \<Longrightarrow> live e l \<Longrightarrow> ls_Holder l \<noteq> h \<Longrightarrow>
      \<exists>err s'. acq e s r h ttl = (Inl err, s')"
    and checked: "chk e s r t = Inr True \<Longrightarrow> \<exists>l. slot s r = Some l \<and> ls_Token l = t \<and> en_now e < ls_ExpiresAt l"
    and released: "slot (snd (rel e s r t)) q = slot s q
      \<or> q = r \<and> (\<exists>l. slot s r = Some l \<and> ls_Token l = t) \<and> slot (snd (rel e s r t)) q = None"
begin

text \<open>
  A call leaves a lease alone when it is an acquisition of another resource, an acquisition
  by another holder while the lease is live, or a release with another resource or token.
\<close>

fun spares :: "lease \<Rightarrow> string \<Rightarrow> lease_op \<Rightarrow> bool" where
  "spares l r (OpAcquire e q h ttl) = (q = r \<longrightarrow> live e l \<and> h \<noteq> ls_Holder l)"
| "spares l r (OpRelease e q t) = (q = r \<longrightarrow> t \<noteq> ls_Token l)"

abbreviation history where "history \<equiv> lease_history acq rel"

text \<open>A token that is gone from its slot does not come back, unless it is drawn again.\<close>

lemma lost_stays_lost:
  assumes "\<forall>op \<in> set ops. op_token op \<noteq> Some t"
    and "\<forall>l. slot s r = Some l \<longrightarrow> ls_Token l \<noteq> t"
    and "history ops s = (rs, s')"
  shows "\<forall>l. slot s' r = Some l \<longrightarrow> ls_Token l \<noteq> t"
  using assms
proof (induction ops arbitrary: s rs)
  case (Cons op ops)
  show ?case
  proof (cases op)
    case (OpAcquire e q h ttl)
    obtain res s1 where a: "acq e s q h ttl = (res, s1)" by fastforce
    have gone: "\<forall>l. slot s1 r = Some l \<longrightarrow> ls_Token l \<noteq> t"
    proof (cases res)
      case (Inl err)
      then show ?thesis using refused a Cons.prems(2) by simp
    next
      case (Inr l)
      then show ?thesis
        using granted [of e s q h ttl l s1] a Cons.prems(1,2) OpAcquire by (cases "q = r") auto
    qed
    obtain rs1 where h: "history ops s1 = (rs1, s')"
      using Cons.prems(3) unfolding OpAcquire by (simp add: a split: prod.splits)
    show ?thesis using Cons.IH [OF _ gone h] Cons.prems(1) by simp
  next
    case (OpRelease e q t')
    have "\<forall>l. slot (snd (rel e s q t')) r = Some l \<longrightarrow> ls_Token l \<noteq> t"
      using released [of e s q t' r] Cons.prems(2) by auto
    then show ?thesis using Cons.IH Cons.prems(1,3) OpRelease by auto
  qed
qed simp

lemma fencing:
  assumes "\<forall>op \<in> set ops. op_token op \<noteq> Some t"
    and "slot s r = Some l" and "ls_Token l = t" and "ls_Holder l = h0"
    and "history ops s = (rs, s')" and "slot s' r = Some l'" and "ls_Token l' = t"
  shows "ls_Holder l' = h0 \<and> (\<forall>(q, h, res) \<in> set rs. q = r \<and> h \<noteq> h0 \<longrightarrow> isl res)"
  using assms
proof (induction ops arbitrary: s rs l)
  case (Cons op ops)
  show ?case
  proof (cases op)
    case (OpAcquire e q h ttl)
    obtain res s1 where a: "acq e s q h ttl = (res, s1)" by fastforce
    obtain rs1 where rs: "history ops s1 = (rs1, s')" "rs = (q, h, res) # rs1"
      using Cons.prems(5) OpAcquire a by (auto split: prod.splits)
    have fresh: "\<forall>op \<in> set ops. op_token op \<noteq> Some t" "en_token e \<noteq> Some t"
      using Cons.prems(1) OpAcquire by auto
    obtain l1 where l1: "slot s1 r = Some l1" "ls_Token l1 = t"
      using lost_stays_lost [OF fresh(1) _ rs(1)] Cons.prems(6,7) by metis
    have "ls_Holder l1 = h0 \<and> (q = r \<and> h \<noteq> h0 \<longrightarrow> isl res)"
    proof (cases res)
      case (Inl err)
      then show ?thesis using refused a l1 Cons.prems(2,4) by simp
    next
      case (Inr lg)
      then show ?thesis
        using granted [of e s q h ttl lg s1] a l1 fresh(2) Cons.prems(2-4) by (cases "q = r") auto
    qed
    then show ?thesis using Cons.IH [OF fresh(1) l1 _ rs(1)] Cons.prems(6,7) rs(2) by simp
  next
    case (OpRelease e q t')
    have fresh: "\<forall>op \<in> set ops. op_token op \<noteq> Some t" using Cons.prems(1) by simp
    have h: "history ops (snd (rel e s q t')) = (rs, s')" using Cons.prems(5) OpRelease by simp
    obtain l1 where l1: "slot (snd (rel e s q t')) r = Some l1" "ls_Token l1 = t"
      using lost_stays_lost [OF fresh _ h] Cons.prems(6,7) by metis
    then have "ls_Holder l1 = h0" using released [of e s q t' r] Cons.prems(2,4) by auto
    then show ?thesis using Cons.IH [OF fresh l1 _ h] Cons.prems(6,7) by simp
  qed
qed simp

lemma lease_holds:
  assumes "slot s r = Some l" and "\<forall>op \<in> set ops. spares l r op" and "history ops s = (rs, s')"
  shows "slot s' r = Some l \<and> (\<forall>(q, h, res) \<in> set rs. q = r \<longrightarrow> isl res)"
  using assms
proof (induction ops arbitrary: s rs)
  case (Cons op ops)
  show ?case
  proof (cases op)
    case (OpAcquire e q h ttl)
    obtain res s1 where a: "acq e s q h ttl = (res, s1)" by fastforce
    obtain rs1 where h: "history ops s1 = (rs1, s')" "rs = (q, h, res) # rs1"
      using Cons.prems(3) OpAcquire a by (auto split: prod.splits)
    have sp: "q = r \<longrightarrow> live e l \<and> h \<noteq> ls_Holder l" using Cons.prems(2) OpAcquire by simp
    then have "q = r \<longrightarrow> isl res"
      using exclusive [OF Cons.prems(1), of e h ttl] a by auto
    moreover from this have "slot s1 r = Some l"
      using refused [of e s q h ttl _ s1] granted [of e s q h ttl _ s1] a Cons.prems(1)
      by (cases res) auto
    ultimately show ?thesis using Cons.IH [OF _ _ h(1)] Cons.prems(2) h(2) by simp
  next
    case (OpRelease e q t)
    then have "slot (snd (rel e s q t)) r = Some l"
      using released [of e s q t r] Cons.prems(1,2) by auto
    then show ?thesis using Cons OpRelease by simp
  qed
qed simp

lemma check_fencing:
  assumes "\<forall>op \<in> set ops. op_token op \<noteq> Some (ls_Token l)"
    and "acq e s r h ttl = (Inr l, s1)"
    and "history ops s1 = (rs, s2)" and "chk e' s2 r (ls_Token l) = Inr True"
  shows "\<forall>(q, h', res) \<in> set rs. q = r \<and> h' \<noteq> h \<longrightarrow> isl res"
proof -
  have g: "slot s1 r = Some l" "ls_Holder l = h" using granted [OF assms(2)] by auto
  obtain l' where l': "slot s2 r = Some l'" "ls_Token l' = ls_Token l" using checked [OF assms(4)] by blast
  show ?thesis using fencing [OF assms(1) g(1) refl g(2) assms(3) l'] by (rule conjunct2)
qed

end

text \<open>
  The documented contract of re-acquisition: before expiry the same holder gets the token
  it has.
\<close>

locale idempotent_lease_store = lease_store +
  assumes reacquired: "slot s r = Some l \<Longrightarrow> en_now e < ls_ExpiresAt l \<Longrightarrow> ls_Holder l = h \<Longrightarrow>
    \<exists>l' s'. acq e s r h ttl = (Inr l', s') \<and> ls_Token l' = ls_Token l"
begin

text \<open>A holder that renews its lease before expiry keeps passing the check with its token.\<close>

lemma renewal_keeps_token:
  assumes "chk e s r t = Inr True" and "slot s r = Some l" and "ls_Holder l = h"
  shows "\<exists>l' s'. acq e s r h ttl = (Inr l', s') \<and> slot s' r = Some l' \<and> ls_Token l' = t"
  using checked [OF assms(1)] reacquired [OF assms(2) _ assms(3)] granted assms(2)
  by (metis option.inject)

end

interpretation mem: idempotent_lease_store
  MemLeaseStore_Acquire MemLeaseStore_Check MemLeaseStore_Release "\<lambda>s. s"
  "\<lambda>e l. en_now e < ls_ExpiresAt l"
  by unfold_locales
    (auto simp: MemLeaseStore_Acquire_def MemLeaseStore_Check_def MemLeaseStore_Release_def Let_def
      split: option.splits if_splits)

interpretation pg: lease_store
  PGLeaseStore_Acquire PGLeaseStore_Check PGLeaseStore_Release "\<lambda>s. s"
  "\<lambda>e l. en_db_now e \<le> ls_ExpiresAt l"
  by unfold_locales
    (auto simp: PGLeaseStore_Acquire_def PGLeaseStore_Check_def PGLeaseStore_Release_def Let_def
      split: option.splits if_splits)

section \<open>Fencing of the two stores\<close>

text \<open>
  C32: Fencing, Postgres store. Take a lease granted to one holder, and any history of later
  acquisitions and releases of any resource in which the random source does not repeat its
  token. If the token still passes \<open>Check\<close> at the end, every acquisition of this resource by
  another holder in the history failed.
\<close>

theorem PGLeaseStore_fencing:
  assumes "\<forall>op \<in> set ops. op_token op \<noteq> Some (ls_Token l)"
    and "PGLeaseStore_Acquire e s r h ttl = (Inr l, s1)"
    and "lease_history PGLeaseStore_Acquire PGLeaseStore_Release ops s1 = (rs, s2)"
    and "PGLeaseStore_Check e' s2 r (ls_Token l) = Inr True"
  shows "\<forall>(q, h', res) \<in> set rs. q = r \<and> h' \<noteq> h \<longrightarrow> isl res"
  using assms by (rule pg.check_fencing)

definition env_at :: "int \<Rightarrow> string \<Rightarrow> lease_env" where
  "env_at t token = \<lparr>en_now = t, en_db_now = t, en_token = Some token, en_db_fault = False\<rparr>"

definition wt_lease :: lease where
  "wt_lease = \<lparr>ls_Resource = ''wt'', ls_Token = ''t1'', ls_Holder = ''w1'', ls_ExpiresAt = 9000\<rparr>"

theorem PGLeaseStore_fencing_witness:
  "PGLeaseStore_Acquire (env_at 0 ''t1'') Map.empty ''wt'' ''w1'' 9000 = (Inr wt_lease, [''wt'' \<mapsto> wt_lease])
   \<and> isl (snd (snd (hd (fst (lease_history PGLeaseStore_Acquire PGLeaseStore_Release
        [OpAcquire (env_at 1 ''t2'') ''wt'' ''w2'' 5000, OpRelease (env_at 2 ''t3'') ''wt'' ''zz'']
        [''wt'' \<mapsto> wt_lease])))))"
proof
  show a: "PGLeaseStore_Acquire (env_at 0 ''t1'') Map.empty ''wt'' ''w1'' 9000 = (Inr wt_lease, [''wt'' \<mapsto> wt_lease])"
    by (simp add: PGLeaseStore_Acquire_def env_at_def wt_lease_def pg_time_def Let_def)
  let ?ops = "[OpAcquire (env_at 1 ''t2'') ''wt'' ''w2'' 5000, OpRelease (env_at 2 ''t3'') ''wt'' ''zz'']"
  have h: "lease_history PGLeaseStore_Acquire PGLeaseStore_Release ?ops [''wt'' \<mapsto> wt_lease]
      = ([(''wt'', ''w2'', Inl (ErrLeaseHeld ''wt'' ''w1''))], [''wt'' \<mapsto> wt_lease])"
    by (simp add: PGLeaseStore_Acquire_def PGLeaseStore_Release_def env_at_def wt_lease_def pg_time_def)
  have "\<forall>(q, h', res) \<in> set [(''wt'', ''w2'', Inl (ErrLeaseHeld ''wt'' ''w1'') :: lease_error + lease)]. q = ''wt'' \<and> h' \<noteq> ''w1'' \<longrightarrow> isl res"
    by (rule PGLeaseStore_fencing [OF _ a h, of "env_at 3 ''t4''"])
      (simp_all add: PGLeaseStore_Check_def env_at_def wt_lease_def)
  then show "isl (snd (snd (hd (fst (lease_history PGLeaseStore_Acquire PGLeaseStore_Release ?ops [''wt'' \<mapsto> wt_lease])))))"
    unfolding h by simp
qed

text \<open>
  Exclusion, Postgres store. As long as nobody releases a lease with its token, its own
  holder does not acquire it again and the database clock has not passed its expiry, every
  history of calls leaves the lease in place and every acquisition of its resource fails.
\<close>

theorem PGLeaseStore_exclusive:
  assumes "s r = Some l"
    and "\<forall>op \<in> set ops. case op of
        OpAcquire e q h ttl \<Rightarrow> q = r \<longrightarrow> en_db_now e \<le> ls_ExpiresAt l \<and> h \<noteq> ls_Holder l
      | OpRelease e q t \<Rightarrow> q = r \<longrightarrow> t \<noteq> ls_Token l"
    and "lease_history PGLeaseStore_Acquire PGLeaseStore_Release ops s = (rs, s')"
  shows "s' r = Some l \<and> (\<forall>(q, h, res) \<in> set rs. q = r \<longrightarrow> isl res)"
proof (rule pg.lease_holds [OF assms(1) _ assms(3)])
  show "\<forall>op \<in> set ops. pg.spares l r op"
  proof
    fix op assume "op \<in> set ops"
    with assms(2) have "case op of
        OpAcquire e q h ttl \<Rightarrow> q = r \<longrightarrow> en_db_now e \<le> ls_ExpiresAt l \<and> h \<noteq> ls_Holder l
      | OpRelease e q t \<Rightarrow> q = r \<longrightarrow> t \<noteq> ls_Token l" by blast
    then show "pg.spares l r op" by (cases op) simp_all
  qed
qed

theorem PGLeaseStore_exclusive_witness:
  "snd (lease_history PGLeaseStore_Acquire PGLeaseStore_Release
     [OpAcquire (env_at 9000 ''t2'') ''wt'' ''w2'' 5000, OpRelease (env_at 9000 ''t3'') ''wt'' ''t2'']
     [''wt'' \<mapsto> wt_lease]) ''wt'' = Some wt_lease"
  by (rule PGLeaseStore_exclusive [THEN conjunct1, OF _ _ surjective_pairing])
    (simp_all add: env_at_def wt_lease_def)

text \<open>
  In the in-memory store a holder that renews its lease before expiry keeps its token,
  and the token passes \<open>Check\<close> until the new expiry.
\<close>

theorem MemLeaseStore_renewal:
  assumes "MemLeaseStore_Check e s r t = Inr True" and "s r = Some l" and "ls_Holder l = h"
  shows "\<exists>l' s'. MemLeaseStore_Acquire e s r h ttl = (Inr l', s')
    \<and> (\<forall>e'. MemLeaseStore_Check e' s' r t = Inr (en_now e' < en_now e + ttl))"
  using mem.renewal_keeps_token [OF assms, of ttl] assms
  by (auto simp: MemLeaseStore_Check_def MemLeaseStore_Acquire_def Let_def split: if_splits)

theorem MemLeaseStore_renewal_witness:
  "\<exists>l' s'. MemLeaseStore_Acquire (env_at 1 ''t2'') [''wt'' \<mapsto> wt_lease] ''wt'' ''w1'' 9999 = (Inr l', s')
    \<and> (\<forall>e'. MemLeaseStore_Check e' s' ''wt'' ''t1'' = Inr (en_now e' < en_now (env_at 1 ''t2'') + 9999))"
  by (rule MemLeaseStore_renewal [of _ _ _ _ wt_lease])
    (simp_all add: MemLeaseStore_Check_def env_at_def wt_lease_def)

text \<open>
  The Postgres store does not keep that contract: when the holder of a live lease acquires
  it again, it gets the new token, and its first token stops passing \<open>Check\<close>.
\<close>

theorem PGLeaseStore_reacquire_new_token:
  assumes "s r = Some l" and "en_token e = Some t" and "t \<noteq> ls_Token l" and "\<not> en_db_fault e"
  shows "\<exists>l' s'. PGLeaseStore_Acquire e s r (ls_Holder l) ttl = (Inr l', s') \<and> ls_Token l' = t
    \<and> (\<forall>e'. PGLeaseStore_Check e' s' r (ls_Token l) \<noteq> Inr True)"
  using assms by (auto simp: PGLeaseStore_Acquire_def PGLeaseStore_Check_def Let_def)

theorem PGLeaseStore_reacquire_new_token_witness:
  "PGLeaseStore_Check (env_at 1 ''t9'') [''wt'' \<mapsto> wt_lease] ''wt'' ''t1'' = Inr True
   \<and> (\<exists>l' s'. PGLeaseStore_Acquire (env_at 1 ''t2'') [''wt'' \<mapsto> wt_lease] ''wt'' ''w1'' 5000 = (Inr l', s')
        \<and> ls_Token l' = ''t2'' \<and> (\<forall>e'. PGLeaseStore_Check e' s' ''wt'' ''t1'' \<noteq> Inr True))"
  using PGLeaseStore_reacquire_new_token [of "[''wt'' \<mapsto> wt_lease]" "''wt''" wt_lease "env_at 1 ''t2''" "''t2''" 5000]
  by (simp add: PGLeaseStore_Check_def env_at_def wt_lease_def)

end
