(* ===== verification/Receipts.thy ===== *)
theory Receipts
  imports State_Model
begin

text \<open>
  Idempotency receipts, \<open>internal/kernel/idempotency.go\<close>, and the transition stream,
  \<open>internal/kernel/transitions.go\<close>, with the tables \<open>receipts\<close> and \<open>workflow_transitions\<close> of
  migration \<open>00002\<close>. The interfaces \<open>ReceiptStore\<close> and \<open>TransitionStore\<close> are locales; the
  in-memory and the Postgres stores interpret them. What \<open>withReceipt\<close> guarantees to an
  activity is proved once, in the locale. JSON encoding is a parameter.
\<close>

section \<open>Idempotency keys\<close>

record idempotency_key =
  ik_WorkflowID :: string
  ik_TaskID :: string
  ik_Activity :: string
  ik_Attempt :: int

definition IdempotencyKey_String :: "idempotency_key \<Rightarrow> string" where
  "IdempotencyKey_String k =
     ik_WorkflowID k @ ''|'' @ ik_TaskID k @ ''|'' @ ik_Activity k @ ''|'' @ show_int (ik_Attempt k)"

section \<open>Receipt stores\<close>

text \<open>
  A call may fail in the database; a failing statement takes no effect. The parameter
  \<open>jsonb\<close> is the normal form in which Postgres returns a \<open>JSONB\<close> document, \<^const>\<open>None\<close> for a
  text that is not JSON.
\<close>

record receipt_env =
  re_get_fault :: bool
  re_put_fault :: bool

datatype 'e receipt_error =
    ReadReceipt string | DecodeReceipt string | EncodeReceipt string | WriteReceipt string
  | ActivityError 'e

datatype store_error = GetFault string | PutFault string

type_synonym receipt_rows = "string \<Rightarrow> string option"

definition MemReceiptStore_Get :: "receipt_env \<Rightarrow> receipt_rows \<Rightarrow> string \<Rightarrow> store_error + string option" where
  "MemReceiptStore_Get e rows key = Inr (rows key)"

definition MemReceiptStore_Put ::
  "receipt_env \<Rightarrow> receipt_rows \<Rightarrow> string \<Rightarrow> string \<Rightarrow> store_error option \<times> receipt_rows" where
  "MemReceiptStore_Put e rows key payload = (None, rows(key \<mapsto> payload))"

definition PGReceiptStore_Get :: "receipt_env \<Rightarrow> receipt_rows \<Rightarrow> string \<Rightarrow> store_error + string option" where
  "PGReceiptStore_Get e rows key = (if re_get_fault e then Inl (GetFault key) else Inr (rows key))"

definition PGReceiptStore_Put ::
  "(string \<Rightarrow> string option) \<Rightarrow> receipt_env \<Rightarrow> receipt_rows \<Rightarrow> string \<Rightarrow> string
     \<Rightarrow> store_error option \<times> receipt_rows" where
  "PGReceiptStore_Put jsonb e rows key payload =
     (if re_put_fault e then (Some (PutFault key), rows)
      else
        (case jsonb payload of
           None \<Rightarrow> (Some (PutFault key), rows)
         | Some doc \<Rightarrow>
             (case rows key of
                Some _ \<Rightarrow> (None, rows)
              | None \<Rightarrow> (None, rows(key \<mapsto> doc)))))"

text \<open>
  \<open>withReceipt\<close>: the activity \<open>fn\<close> reads and changes the world \<^typ>\<open>'w\<close>; \<open>marshal\<close> and
  \<open>unmarshal\<close> are \<open>encoding/json\<close> for the result type, \<^const>\<open>None\<close> for their error.
\<close>

definition withReceipt ::
  "(receipt_env \<Rightarrow> 's \<Rightarrow> string \<Rightarrow> store_error + string option)
     \<Rightarrow> (receipt_env \<Rightarrow> 's \<Rightarrow> string \<Rightarrow> string \<Rightarrow> store_error option \<times> 's)
     \<Rightarrow> ('a \<Rightarrow> string option) \<Rightarrow> (string \<Rightarrow> 'a option) \<Rightarrow> receipt_env \<Rightarrow> string
     \<Rightarrow> ('w \<Rightarrow> ('e + 'a) \<times> 'w) \<Rightarrow> 's \<times> 'w \<Rightarrow> ('e receipt_error + 'a) \<times> 's \<times> 'w" where
  "withReceipt get put marshal unmarshal e key fn sw =
     (case sw of (s, w) \<Rightarrow>
        case get e s key of
          Inl _ \<Rightarrow> (Inl (ReadReceipt key), s, w)
        | Inr (Some raw) \<Rightarrow>
            (case unmarshal raw of
               None \<Rightarrow> (Inl (DecodeReceipt key), s, w)
             | Some out \<Rightarrow> (Inr out, s, w))
        | Inr None \<Rightarrow>
            (case fn w of
               (Inl err, w') \<Rightarrow> (Inl (ActivityError err), s, w')
             | (Inr result, w') \<Rightarrow>
                 (case marshal result of
                    None \<Rightarrow> (Inl (EncodeReceipt key), s, w')
                  | Some payload \<Rightarrow>
                      (case put e s key payload of
                         (Some _, s') \<Rightarrow> (Inl (WriteReceipt key), s', w')
                       | (None, s') \<Rightarrow> (Inr result, s', w')))))"

text \<open>A history of receipt-guarded activities, of any keys and bodies.\<close>

fun receipt_history ::
  "(receipt_env \<Rightarrow> 's \<Rightarrow> string \<Rightarrow> store_error + string option)
     \<Rightarrow> (receipt_env \<Rightarrow> 's \<Rightarrow> string \<Rightarrow> string \<Rightarrow> store_error option \<times> 's)
     \<Rightarrow> ('a \<Rightarrow> string option) \<Rightarrow> (string \<Rightarrow> 'a option)
     \<Rightarrow> (receipt_env \<times> string \<times> ('w \<Rightarrow> ('e + 'a) \<times> 'w)) list \<Rightarrow> 's \<times> 'w \<Rightarrow> 's \<times> 'w" where
  "receipt_history get put marshal unmarshal [] sw = sw"
| "receipt_history get put marshal unmarshal ((e, key, fn) # calls) sw =
     receipt_history get put marshal unmarshal calls
       (snd (withReceipt get put marshal unmarshal e key fn sw))"

section \<open>The receipt interface\<close>

text \<open>
  What JSON promises: a value that was encoded, stored and read back decodes to itself.
\<close>

definition json_round_trips ::
  "('a \<Rightarrow> string option) \<Rightarrow> (string \<Rightarrow> string option) \<Rightarrow> (string \<Rightarrow> 'a option) \<Rightarrow> bool" where
  "json_round_trips marshal stored unmarshal \<longleftrightarrow>
     (\<forall>v p d. marshal v = Some p \<and> stored p = Some d \<longrightarrow> unmarshal d = Some v)"

text \<open>
  \<open>row\<close> reads a row without failing; \<open>stored\<close> is the form in which a payload is read back.
  Nothing is promised about a second write to a key: the in-memory store overwrites, the
  Postgres store ignores it, and \<open>withReceipt\<close> never makes one after a successful read.
\<close>

locale receipt_store =
  fixes get :: "receipt_env \<Rightarrow> 's \<Rightarrow> string \<Rightarrow> store_error + string option"
    and put :: "receipt_env \<Rightarrow> 's \<Rightarrow> string \<Rightarrow> string \<Rightarrow> store_error option \<times> 's"
    and row :: "'s \<Rightarrow> string \<Rightarrow> string option"
    and stored :: "string \<Rightarrow> string option"
  assumes get_row: "get e s k = Inr r \<Longrightarrow> r = row s k"
    and get_total: "\<not> re_get_fault e \<Longrightarrow> get e s k = Inr (row s k)"
    and put_new: "put e s k p = (None, s') \<Longrightarrow> row s k = None \<Longrightarrow>
      row s' k = stored p \<and> stored p \<noteq> None"
    and put_other: "put e s k p = (err, s') \<Longrightarrow> q \<noteq> k \<Longrightarrow> row s' q = row s q"
begin

lemma recorded_replays:
  assumes "row s k = Some raw"
  shows "\<exists>res. withReceipt get put marshal unmarshal e k fn (s, w) = (res, s, w)
    \<and> (\<not> re_get_fault e \<longrightarrow> res = (case unmarshal raw of None \<Rightarrow> Inl (DecodeReceipt k) | Some v \<Rightarrow> Inr v))"
proof (cases "get e s k")
  case (Inl err)
  then show ?thesis using get_total [of e s k] by (auto simp: withReceipt_def)
next
  case (Inr r)
  then show ?thesis
    using get_row [of e s k r] assms by (auto simp: withReceipt_def split: option.splits)
qed

lemma recorded_stays:
  "row s k = Some raw \<Longrightarrow> row (fst (receipt_history get put marshal unmarshal calls (s, w))) k = Some raw"
proof (induction calls arbitrary: s w)
  case (Cons call calls)
  obtain e q fn where call: "call = (e, q, fn)" by (cases call) auto
  obtain res s1 w1 where r: "withReceipt get put marshal unmarshal e q fn (s, w) = (res, s1, w1)"
    by (metis surj_pair)
  have "row s1 k = Some raw"
  proof (cases "q = k")
    case True
    then show ?thesis
      using recorded_replays [OF Cons.prems, of marshal unmarshal e fn w] r Cons.prems by auto
  next
    case False
    have "s1 = s \<or> (\<exists>err p. put e s q p = (err, s1))"
      using r by (auto simp: withReceipt_def split: sum.splits option.splits prod.splits)
    then show ?thesis using put_other [of e s q _ _ s1 k] False Cons.prems by auto
  qed
  then show ?case using Cons.IH [of s1 w1] call r by simp
qed simp

text \<open>What a successful call leaves behind: a row that decodes to its result.\<close>

lemma success_recorded:
  assumes "withReceipt get put marshal unmarshal e k fn (s, w) = (Inr v, s1, w1)"
    and "json_round_trips marshal stored unmarshal"
  shows "\<exists>raw. row s1 k = Some raw \<and> unmarshal raw = Some v"
proof -
  consider raw where "row s k = Some raw" "unmarshal raw = Some v" "s1 = s"
    | p where "row s k = None" "marshal v = Some p" "put e s k p = (None, s1)"
    using assms(1) get_row [of e s k] by (auto simp: withReceipt_def split: sum.splits option.splits prod.splits)
  then show ?thesis
  proof cases
    case 2
    then have "row s1 k = stored p" "stored p \<noteq> None" using put_new by auto
    then show ?thesis using assms(2) 2(2) by (auto simp: json_round_trips_def)
  qed auto
qed

lemma at_most_once:
  assumes "withReceipt get put marshal unmarshal e k fn (s, w) = (Inr v, s1, w1)"
    and "json_round_trips marshal stored unmarshal"
    and "receipt_history get put marshal unmarshal calls (s1, w1) = (s2, w2)"
  shows "\<exists>res. withReceipt get put marshal unmarshal e' k fn' (s2, w2) = (res, s2, w2)
    \<and> (\<not> re_get_fault e' \<longrightarrow> res = Inr v)"
proof -
  obtain raw where raw: "row s1 k = Some raw" "unmarshal raw = Some v"
    using success_recorded [OF assms(1,2)] by blast
  have "row s2 k = Some raw"
    using recorded_stays [OF raw(1), of marshal unmarshal calls w1] assms(3) by simp
  from recorded_replays [OF this] raw(2) show ?thesis by fastforce
qed

end

interpretation mem_receipts: receipt_store MemReceiptStore_Get MemReceiptStore_Put "\<lambda>s. s" Some
  by unfold_locales (auto simp: MemReceiptStore_Get_def MemReceiptStore_Put_def)

interpretation pg_receipts: receipt_store PGReceiptStore_Get "PGReceiptStore_Put jsonb" "\<lambda>s. s" jsonb
  for jsonb
  by unfold_locales
    (auto simp: PGReceiptStore_Get_def PGReceiptStore_Put_def split: if_splits option.splits)

section \<open>Run at most once\<close>

text \<open>
  C33: Once a receipt-guarded activity has succeeded under a key, no later call under that key
  runs its body or touches the world, whatever other guarded activities ran in between: if
  the receipt can be read the recorded result is returned, otherwise an error.
\<close>

theorem withReceipt_at_most_once:
  fixes marshal :: "'a \<Rightarrow> string option" and w :: 'w
  assumes "withReceipt PGReceiptStore_Get (PGReceiptStore_Put jsonb) marshal unmarshal e k fn (s, w) = (Inr v, s1, w1)"
    and "json_round_trips marshal jsonb unmarshal"
    and "receipt_history PGReceiptStore_Get (PGReceiptStore_Put jsonb) marshal unmarshal calls (s1, w1) = (s2, w2)"
  shows "\<exists>res. withReceipt PGReceiptStore_Get (PGReceiptStore_Put jsonb) marshal unmarshal e' k fn' (s2, w2) = (res, s2, w2)
    \<and> (\<not> re_get_fault e' \<longrightarrow> res = Inr v)"
  using assms by (rule pg_receipts.at_most_once)

definition no_fault :: receipt_env where
  "no_fault = \<lparr>re_get_fault = False, re_put_fault = False\<rparr>"

definition count_call :: "nat \<Rightarrow> (unit + string) \<times> nat" where
  "count_call w = (Inr ''done'', Suc w)"

theorem withReceipt_at_most_once_witness:
  "withReceipt PGReceiptStore_Get (PGReceiptStore_Put Some) Some Some no_fault ''k'' count_call
      ([''k'' \<mapsto> ''done''], 1) = (Inr ''done'', [''k'' \<mapsto> ''done''], 1)"
proof -
  have a: "withReceipt PGReceiptStore_Get (PGReceiptStore_Put Some) Some Some no_fault ''k'' count_call
      (Map.empty, 0) = (Inr ''done'', [''k'' \<mapsto> ''done''], 1)"
    by (simp add: withReceipt_def PGReceiptStore_Get_def PGReceiptStore_Put_def no_fault_def count_call_def)
  have h: "receipt_history PGReceiptStore_Get (PGReceiptStore_Put Some) Some Some
      [(no_fault, ''k'', count_call)] ([''k'' \<mapsto> ''done''], 1) = ([''k'' \<mapsto> ''done''], 1)"
    by (simp add: withReceipt_def PGReceiptStore_Get_def no_fault_def)
  have "\<exists>res. withReceipt PGReceiptStore_Get (PGReceiptStore_Put Some) Some Some no_fault ''k'' count_call
      ([''k'' \<mapsto> ''done''], 1) = (res, [''k'' \<mapsto> ''done''], 1) \<and> (\<not> re_get_fault no_fault \<longrightarrow> res = Inr ''done'')"
    by (rule withReceipt_at_most_once [OF a _ h]) (simp add: json_round_trips_def)
  then show ?thesis by (auto simp: no_fault_def)
qed

text \<open>
  The guard does not cover a lost write: when the activity succeeds and its receipt cannot
  be written, the caller sees an error, nothing is recorded, and the next call runs the
  activity again.
\<close>

theorem withReceipt_lost_write_reruns:
  fixes fn :: "'w \<Rightarrow> ('e + 'a) \<times> 'w"
  assumes "s k = None" and "fn w = (Inr v, w1)" and "marshal v = Some p"
    and "\<not> re_get_fault e" and "re_put_fault e"
  shows "withReceipt PGReceiptStore_Get (PGReceiptStore_Put jsonb) marshal unmarshal e k fn (s, w)
      = (Inl (WriteReceipt k), s, w1)
    \<and> (\<forall>e' (fn' :: 'w \<Rightarrow> ('e + 'a) \<times> 'w). \<not> re_get_fault e' \<longrightarrow>
        snd (snd (withReceipt PGReceiptStore_Get (PGReceiptStore_Put jsonb) marshal unmarshal e' k fn' (s, w1)))
          = snd (fn' w1))"
  using assms
  by (auto simp: withReceipt_def PGReceiptStore_Get_def PGReceiptStore_Put_def split: sum.splits prod.splits option.splits)

theorem withReceipt_lost_write_reruns_witness:
  "snd (snd (withReceipt PGReceiptStore_Get (PGReceiptStore_Put Some) Some Some no_fault ''k'' count_call
      (Map.empty, 1))) = 2"
proof -
  have "Map.empty ''k'' = None" "count_call 0 = (Inr ''done'', 1)"
    and "\<not> re_get_fault \<lparr>re_get_fault = False, re_put_fault = True\<rparr>"
    and "re_put_fault \<lparr>re_get_fault = False, re_put_fault = True\<rparr>"
    by (simp_all add: count_call_def)
  from withReceipt_lost_write_reruns [of Map.empty "''k''" count_call 0 "''done''" 1 Some "''done''", OF this(1,2) refl this(3,4), of Some Some]
  have "snd (snd (withReceipt PGReceiptStore_Get (PGReceiptStore_Put Some) Some Some no_fault ''k''
      count_call (Map.empty, 1))) = snd (count_call 1)"
    by (simp add: no_fault_def)
  then show ?thesis by (simp add: count_call_def)
qed

section \<open>Keys do not collide\<close>

lemma append_sep_inj:
  "c \<notin> set a \<Longrightarrow> c \<notin> set b \<Longrightarrow> a @ c # x = b @ c # y \<Longrightarrow> a = b \<and> x = y"
  by (induction a arbitrary: b) (case_tac [!] b, auto)

lemma append_sep_inj_right:
  assumes "c \<notin> set x" and "c \<notin> set y" and "a @ c # x = b @ c # y"
  shows "a = b \<and> x = y"
  using append_sep_inj [of c "rev x" "rev y" "rev a" "rev b"] assms
  by (metis rev.simps(2) rev_append rev_is_rev_conv set_rev append.assoc append_Cons append_Nil)

text \<open>
  The flat string of an idempotency key determines the key, for workflow ids and activity
  names without a vertical bar; task ids and attempts are arbitrary.
\<close>

theorem IdempotencyKey_String_inj:
  assumes "CHR ''|'' \<notin> set (ik_WorkflowID k)" and "CHR ''|'' \<notin> set (ik_WorkflowID k')"
    and "CHR ''|'' \<notin> set (ik_Activity k)" and "CHR ''|'' \<notin> set (ik_Activity k')"
    and "IdempotencyKey_String k = IdempotencyKey_String k'"
  shows "k = k'"
proof -
  have 1: "ik_WorkflowID k = ik_WorkflowID k'" and
    "ik_TaskID k @ ''|'' @ ik_Activity k @ ''|'' @ show_int (ik_Attempt k)
      = ik_TaskID k' @ ''|'' @ ik_Activity k' @ ''|'' @ show_int (ik_Attempt k')"
    using append_sep_inj [OF assms(1,2)] assms(5) by (auto simp: IdempotencyKey_String_def)
  then have "(ik_TaskID k @ ''|'' @ ik_Activity k) @ CHR ''|'' # show_int (ik_Attempt k)
      = (ik_TaskID k' @ ''|'' @ ik_Activity k') @ CHR ''|'' # show_int (ik_Attempt k')" by simp
  from append_sep_inj_right [OF show_int_no_bar show_int_no_bar this]
  have 2: "ik_TaskID k @ CHR ''|'' # ik_Activity k = ik_TaskID k' @ CHR ''|'' # ik_Activity k'"
    and 3: "show_int (ik_Attempt k) = show_int (ik_Attempt k')" by simp_all
  show ?thesis
    using 1 append_sep_inj_right [OF assms(3,4) 2] show_int_inj [OF 3] by (cases k; cases k') auto
qed

theorem IdempotencyKey_String_inj_witness:
  "\<exists>k k'. IdempotencyKey_String k = IdempotencyKey_String k' \<and> k = k' \<and> ik_TaskID k = ''a|b''"
proof -
  let ?k = "\<lparr>ik_WorkflowID = ''w'', ik_TaskID = ''a|b'', ik_Activity = ''execute'', ik_Attempt = 1\<rparr>"
  have "?k = ?k" by (rule IdempotencyKey_String_inj) simp_all
  then show ?thesis by (intro exI [of _ ?k]) simp
qed

section \<open>The transition stream\<close>

text \<open>
  \<open>MemTransitionStore\<close> keeps a list and a counter per workflow. \<open>PGTransitionStore\<close> appends a
  row with the next value of the table's sequence; a failing insert may have used a
  value up. The parameter \<open>encode\<close> is \<open>json.Marshal\<close> of a transition.
\<close>

record mem_transitions =
  mt_rows :: "string \<Rightarrow> transition list"
  mt_seq :: "string \<Rightarrow> int"

record 'p pg_transition_row =
  tw_workflow_id :: string
  tw_seq :: int
  tw_payload :: 'p

record 'p pg_transitions =
  pt_rows :: "'p pg_transition_row list"
  pt_next :: int

datatype append_error = EncodeTransition string | AppendTransition string

definition MemTransitionStore_Append ::
  "bool \<Rightarrow> mem_transitions \<Rightarrow> string \<Rightarrow> transition \<Rightarrow> (append_error + int) \<times> mem_transitions" where
  "MemTransitionStore_Append fault s workflowID t =
     (let seq = (mt_seq s)(workflowID := mt_seq s workflowID + 1) in
      (Inr (seq workflowID), \<lparr>mt_rows = (mt_rows s)(workflowID := mt_rows s workflowID @ [t]), mt_seq = seq\<rparr>))"

definition MemTransitionStore_All :: "mem_transitions \<Rightarrow> string \<Rightarrow> transition list" where
  "MemTransitionStore_All s workflowID = mt_rows s workflowID"

definition PGTransitionStore_Append ::
  "(transition \<Rightarrow> 'p option) \<Rightarrow> bool \<Rightarrow> 'p pg_transitions \<Rightarrow> string \<Rightarrow> transition
     \<Rightarrow> (append_error + int) \<times> 'p pg_transitions" where
  "PGTransitionStore_Append encode fault s workflowID t =
     (case encode t of
        None \<Rightarrow> (Inl (EncodeTransition workflowID), s)
      | Some payload \<Rightarrow>
          if fault then (Inl (AppendTransition workflowID), s\<lparr>pt_next := pt_next s + 1\<rparr>)
          else (Inr (pt_next s),
                \<lparr>pt_rows = pt_rows s @ [\<lparr>tw_workflow_id = workflowID, tw_seq = pt_next s, tw_payload = payload\<rparr>],
                 pt_next = pt_next s + 1\<rparr>))"

text \<open>
  Appends by any number of workflows, in any interleaving; the accepted ones are recorded.
\<close>

fun run_appends ::
  "(bool \<Rightarrow> 's \<Rightarrow> string \<Rightarrow> transition \<Rightarrow> (append_error + int) \<times> 's)
     \<Rightarrow> (bool \<times> string \<times> transition) list \<Rightarrow> 's \<Rightarrow> (string \<times> transition) list \<times> 's" where
  "run_appends append_tr [] s = ([], s)"
| "run_appends append_tr ((f, w, t) # ops) s =
     (case append_tr f s w t of
        (Inr n, s1) \<Rightarrow> (let (done1, s2) = run_appends append_tr ops s1 in ((w, t) # done1, s2))
      | (Inl err, s1) \<Rightarrow> run_appends append_tr ops s1)"

text \<open>
  The interface: \<open>entries\<close> is what a reader sees of a workflow, sequence numbers with
  payloads, in order of the sequence numbers. A successful append adds one entry at the
  end, a failing one adds none, and no append disturbs another workflow.
\<close>

locale transition_store =
  fixes append_tr :: "bool \<Rightarrow> 's \<Rightarrow> string \<Rightarrow> transition \<Rightarrow> (append_error + int) \<times> 's"
    and entries :: "'s \<Rightarrow> string \<Rightarrow> (int \<times> 'p) list"
    and enc :: "transition \<Rightarrow> 'p option"
    and inv :: "'s \<Rightarrow> bool"
  assumes append_ok: "inv s \<Longrightarrow> append_tr f s w t = (Inr n, s') \<Longrightarrow>
      \<exists>p. enc t = Some p \<and> entries s' w = entries s w @ [(n, p)] \<and> (\<forall>m \<in> fst ` set (entries s w). m < n)"
    and append_fails: "append_tr f s w t = (Inl err, s') \<Longrightarrow> entries s' w = entries s w"
    and append_others: "append_tr f s w t = (res, s') \<Longrightarrow> v \<noteq> w \<Longrightarrow> entries s' v = entries s v"
    and append_inv: "inv s \<Longrightarrow> append_tr f s w t = (res, s') \<Longrightarrow> inv s'"
begin

abbreviation run where "run \<equiv> run_appends append_tr"

text \<open>
  A workflow reads back its own accepted transitions, all of them and in the order of the
  appends, under increasing sequence numbers.
\<close>

lemma stream_faithful:
  assumes "inv s" and "run ops s = (done1, s')" and "sorted_wrt (<) (map fst (entries s w))"
  shows "map (Some \<circ> snd) (entries s' w) =
      map (Some \<circ> snd) (entries s w) @ map (enc \<circ> snd) (filter (\<lambda>(v, t). v = w) done1)
    \<and> sorted_wrt (<) (map fst (entries s' w)) \<and> inv s'"
  using assms
proof (induction ops arbitrary: s done1)
  case (Cons op ops)
  obtain f v t where op: "op = (f, v, t)" by (cases op) auto
  obtain res s1 where a: "append_tr f s v t = (res, s1)" by fastforce
  have inv1: "inv s1" using append_inv [OF Cons.prems(1) a] .
  show ?case
  proof (cases res)
    case (Inl err)
    have "entries s1 w = entries s w"
      using append_fails append_others a Inl by (cases "v = w") auto
    then show ?thesis using Cons.IH [OF inv1, of done1] Cons.prems(2,3) op a Inl by simp
  next
    case (Inr n)
    obtain d1 where d1: "run ops s1 = (d1, s')" "done1 = (v, t) # d1"
      using Cons.prems(2) op a Inr by (auto split: prod.splits)
    obtain p where p: "enc t = Some p" "entries s1 v = entries s v @ [(n, p)]"
      "\<forall>m \<in> fst ` set (entries s v). m < n"
      using append_ok [OF Cons.prems(1)] a Inr by blast
    show ?thesis
    proof (cases "v = w")
      case True
      then have "sorted_wrt (<) (map fst (entries s1 w))"
        using p Cons.prems(3) by (auto simp: sorted_wrt_append)
      then show ?thesis using Cons.IH [OF inv1 d1(1)] p True d1(2) by simp
    next
      case False
      then have "entries s1 w = entries s w" using append_others [OF a, of w] by simp
      then show ?thesis using Cons.IH [OF inv1 d1(1)] Cons.prems(3) False d1(2) by simp
    qed
  qed
qed simp

end

definition mem_entries :: "mem_transitions \<Rightarrow> string \<Rightarrow> (int \<times> transition) list" where
  "mem_entries s w = zip (map int [1 ..< Suc (length (mt_rows s w))]) (mt_rows s w)"

definition pg_entries :: "'p pg_transitions \<Rightarrow> string \<Rightarrow> (int \<times> 'p) list" where
  "pg_entries s w = map (\<lambda>r. (tw_seq r, tw_payload r)) (filter (\<lambda>r. tw_workflow_id r = w) (pt_rows s))"

lemma mem_entries_snoc:
  "zip (map int [Suc 0 ..< Suc (Suc (length xs))]) (xs @ [t])
    = zip (map int [Suc 0 ..< Suc (length xs)]) xs @ [(int (length xs) + 1, t)]"
  by (subst upt_Suc_append) (simp_all del: upt_Suc)

interpretation mem_stream: transition_store MemTransitionStore_Append mem_entries Some
  "\<lambda>s. \<forall>w. mt_seq s w = int (length (mt_rows s w))"
proof (unfold_locales, goal_cases)
  case (1 s f w t n s')
  then show ?case
    by (auto simp: MemTransitionStore_Append_def mem_entries_def Let_def simp del: upt_Suc
        dest!: set_zip_leftD simp: mem_entries_snoc)
qed (auto simp: MemTransitionStore_Append_def mem_entries_def Let_def)

interpretation pg_stream: transition_store "PGTransitionStore_Append encode" pg_entries encode
  "\<lambda>s. \<forall>r \<in> set (pt_rows s). tw_seq r < pt_next s" for encode
  by unfold_locales
    (auto simp: PGTransitionStore_Append_def pg_entries_def split: option.splits if_splits)

text \<open>
  The Postgres transition stream is append-only and faithful: whatever workflows append in
  whatever interleaving, each reads back its own accepted transitions, all of them and in the
  order of the appends, under strictly increasing sequence numbers.
\<close>

theorem PGTransitionStore_faithful:
  assumes "run_appends (PGTransitionStore_Append encode) ops \<lparr>pt_rows = [], pt_next = 1\<rparr> = (done1, s')"
  shows "map (Some \<circ> snd) (pg_entries s' w) = map (encode \<circ> snd) (filter (\<lambda>(v, t). v = w) done1)
    \<and> sorted_wrt (<) (map fst (pg_entries s' w))"
  using pg_stream.stream_faithful [OF _ assms, of w] by (simp add: pg_entries_def)

definition sample_transition :: "string \<Rightarrow> transition" where
  "sample_transition actor =
     \<lparr>tr_WorkflowID = ''w1'', tr_Status = StatusRunning, tr_PhaseFrom = [], tr_PhaseTo = ''planning'', tr_Reason = [],
      tr_ResultCode = [], tr_Actor = actor, tr_Profile = [], tr_Evidence = [], tr_CheckpointID = [],
      tr_Attempt = 1, tr_NextAction = [], tr_WakeAt = None, tr_OccurredAt = 0, tr_EnvelopeDigest = []\<rparr>"

theorem PGTransitionStore_faithful_witness:
  "map (Some \<circ> snd) (pg_entries (snd (run_appends (PGTransitionStore_Append (\<lambda>t. Some (tr_Actor t)))
     [(False, ''w1'', sample_transition ''a''), (True, ''w1'', sample_transition ''x''),
      (False, ''w2'', sample_transition ''y''), (False, ''w1'', sample_transition ''b'')]
     \<lparr>pt_rows = [], pt_next = 1\<rparr>)) ''w1'') = [Some ''a'', Some ''b'']"
  by (subst PGTransitionStore_faithful [THEN conjunct1, OF surjective_pairing])
    (simp add: PGTransitionStore_Append_def sample_transition_def)

end
