(* ===== verification/Cost_Ledger.thy ===== *)
theory Cost_Ledger
  imports Receipts
begin

text \<open>
  The cost ledger, \<open>internal/ledger/cost/store.go\<close> and \<open>unreconciled.go\<close>, over the tables
  \<open>budgets\<close> and \<open>cost_entries\<close> of migrations \<open>00006\<close> and \<open>00009\<close>, and its client, the kernel
  activity \<open>ReserveBudget\<close>. An operation runs in one transaction whose row locks serialise
  the transactions on an envelope, so it is one step on the tables; a transaction that
  fails is rolled back and changes nothing.

  \<^item> A column \<open>NUMERIC(12, 4)\<close> is an \<^typ>\<open>int\<close> count of units of \<open>10^-4\<close> dollars: the database
    rounds a value half away from zero and refuses absolute values of \<open>10^8\<close> dollars and more.
  \<^item> A finite \<open>float64\<close> amount is the decimal number that the driver sends for it, its
    shortest decimal representation. A column has at most twelve digits and survives the way
    to a \<open>float64\<close> and back, so amounts that are read and sent again stay in units.
  \<^item> What a call finds outside the tables is its environment: the random part of a new id
    (\<^const>\<open>None\<close> when the random source fails), the time and a fault of the database.
\<close>

section \<open>Rows and errors\<close>

type_synonym scope = string
type_synonym budget_kind = string

abbreviation ScopeWorkflow :: scope where "ScopeWorkflow \<equiv> ''workflow''"
abbreviation ScopeProduct :: scope where "ScopeProduct \<equiv> ''product''"
abbreviation ScopeMission :: scope where "ScopeMission \<equiv> ''mission''"
abbreviation ScopeSession :: scope where "ScopeSession \<equiv> ''session''"
abbreviation KindMissionMonthly :: budget_kind where "KindMissionMonthly \<equiv> ''mission_monthly''"

definition scope_check :: "scope \<Rightarrow> bool" where
  "scope_check s = (s \<in> set [ScopeWorkflow, ScopeProduct, ScopeMission])"

definition kind_check :: "budget_kind \<Rightarrow> bool" where
  "kind_check k = (k \<in> set [KindMissionMonthly, ''provider'', ''infra'', ''experiment'', ''reserve''])"

datatype cost_state =
    StateReserved | StateEstimated | StateIncurred | StateReconciled | StateReleased | StateShadow

record budget =
  bg_ID :: string
  bg_Scope :: scope
  bg_ScopeID :: string
  bg_Kind :: budget_kind
  bg_Period :: string
  bg_Ceiling :: int
  bg_Reserved :: int
  bg_Incurred :: int

record cost_entry =
  ce_ID :: string
  ce_Scope :: scope
  ce_ScopeID :: string
  ce_State :: cost_state
  ce_Amount :: int
  ce_PricingVersion :: string
  ce_Provider :: string
  ce_BudgetID :: "string option"
  ce_Meta :: string
  ce_At :: int

record cost_db =
  db_budgets :: "budget list"
  db_entries :: "cost_entry list"

datatype cost_error =
    ErrBudgetNotFound | ErrBudgetExists | ErrBudgetExhausted | ErrCeilingNotHigher
  | ErrEntryNotFound | ErrNotReserved | ErrNotIncurred
  | ErrAmount | ErrMarshalMeta | ErrNewID | ErrDB

record cost_env =
  cv_hex :: "string option"
  cv_now :: int
  cv_fault :: bool

section \<open>Amounts\<close>

definition nonFiniteUSD :: "f64 \<Rightarrow> bool" where
  "nonFiniteUSD v = non_finite v"

text \<open>\<open>ROUND\<close> of a \<open>NUMERIC\<close>: to the nearest whole number, halves away from zero.\<close>

definition round_half_away :: "rat \<Rightarrow> int" where
  "round_half_away x = (if 0 \<le> x then \<lfloor>x + 1 / 2\<rfloor> else - \<lfloor>- x + 1 / 2\<rfloor>)"

definition to_units :: "rat \<Rightarrow> rat" where
  "to_units usd = usd * 10000"

text \<open>A value given in units, stored in a column.\<close>

definition to_col :: "rat \<Rightarrow> int option" where
  "to_col x = (let u = round_half_away x in if \<bar>u\<bar> < 10 ^ 12 then Some u else None)"

definition newID :: "cost_env \<Rightarrow> string \<Rightarrow> cost_error + string" where
  "newID e prefix = (case cv_hex e of None \<Rightarrow> Inl ErrNewID | Some h \<Rightarrow> Inr (prefix @ ''-'' @ h))"

section \<open>Envelopes\<close>

definition is_key :: "scope \<Rightarrow> string \<Rightarrow> budget_kind \<Rightarrow> string \<Rightarrow> budget \<Rightarrow> bool" where
  "is_key scope scopeID kind period b =
     (bg_Scope b = scope \<and> bg_ScopeID b = scopeID \<and> bg_Kind b = kind \<and> bg_Period b = period)"

definition find_budget :: "cost_db \<Rightarrow> scope \<Rightarrow> string \<Rightarrow> budget_kind \<Rightarrow> string \<Rightarrow> budget option" where
  "find_budget db scope scopeID kind period = find (is_key scope scopeID kind period) (db_budgets db)"

definition CreateBudget ::
  "cost_env \<Rightarrow> cost_db \<Rightarrow> scope \<Rightarrow> string \<Rightarrow> budget_kind \<Rightarrow> string \<Rightarrow> f64 \<Rightarrow> (cost_error + budget) \<times> cost_db" where
  "CreateBudget e db scope scopeID kind period ceilingUSD =
     (case ceilingUSD of
        Fin c \<Rightarrow>
          (case newID e ''budget'' of
             Inl err \<Rightarrow> (Inl err, db)
           | Inr bid \<Rightarrow>
               (case to_col (to_units c) of
                  None \<Rightarrow> (Inl ErrDB, db)
                | Some ceil \<Rightarrow>
                    if cv_fault e \<or> \<not> scope_check scope \<or> \<not> kind_check kind then (Inl ErrDB, db)
                    else if find_budget db scope scopeID kind period \<noteq> None then (Inl ErrBudgetExists, db)
                    else if bid \<in> bg_ID ` set (db_budgets db) then (Inl ErrDB, db)
                    else
                      (let b = \<lparr>bg_ID = bid, bg_Scope = scope, bg_ScopeID = scopeID, bg_Kind = kind,
                                bg_Period = period, bg_Ceiling = ceil, bg_Reserved = 0, bg_Incurred = 0\<rparr> in
                       (Inr b, db\<lparr>db_budgets := db_budgets db @ [b]\<rparr>))))
      | _ \<Rightarrow> (Inl ErrAmount, db))"

definition GetBudget ::
  "cost_env \<Rightarrow> cost_db \<Rightarrow> scope \<Rightarrow> string \<Rightarrow> budget_kind \<Rightarrow> string \<Rightarrow> cost_error + budget" where
  "GetBudget e db scope scopeID kind period =
     (if cv_fault e then Inl ErrDB
      else (case find_budget db scope scopeID kind period of
              None \<Rightarrow> Inl ErrBudgetNotFound
            | Some b \<Rightarrow> Inr b))"

text \<open>\<open>UPDATE budgets SET ... WHERE id = ...\<close>\<close>

definition update_budget :: "(budget \<Rightarrow> budget) \<Rightarrow> string \<Rightarrow> cost_db \<Rightarrow> cost_db" where
  "update_budget f bid db =
     db\<lparr>db_budgets := map (\<lambda>b. if bg_ID b = bid then f b else b) (db_budgets db)\<rparr>"

definition RaiseCeiling ::
  "cost_env \<Rightarrow> cost_db \<Rightarrow> scope \<Rightarrow> string \<Rightarrow> budget_kind \<Rightarrow> string \<Rightarrow> f64 \<Rightarrow> (cost_error + budget) \<times> cost_db" where
  "RaiseCeiling e db scope scopeID kind period newCeilingUSD =
     (case newCeilingUSD of
        Fin c \<Rightarrow>
          if cv_fault e then (Inl ErrDB, db)
          else
            (case find_budget db scope scopeID kind period of
               None \<Rightarrow> (Inl ErrBudgetNotFound, db)
             | Some b \<Rightarrow>
                 if of_int (bg_Ceiling b) < to_units c then
                   (case to_col (to_units c) of
                      None \<Rightarrow> (Inl ErrDB, db)
                    | Some ceil \<Rightarrow>
                        (Inr (b\<lparr>bg_Ceiling := ceil\<rparr>),
                         update_budget (\<lambda>b. b\<lparr>bg_Ceiling := ceil\<rparr>) (bg_ID b) db))
                 else (Inl ErrCeilingNotHigher, db))
      | _ \<Rightarrow> (Inl ErrAmount, db))"

section \<open>Entries\<close>

text \<open>
  An amount is read before any statement: \<open>amountUSD <= 0\<close> is false for NaN and true for the
  negative infinity. \<open>meta\<close> is the marshalled map, \<^const>\<open>None\<close> for the error of \<open>json.Marshal\<close>.
\<close>

definition Reserve ::
  "cost_env \<Rightarrow> cost_db \<Rightarrow> scope \<Rightarrow> string \<Rightarrow> budget_kind \<Rightarrow> string \<Rightarrow> f64 \<Rightarrow> string \<Rightarrow> string
     \<Rightarrow> string option \<Rightarrow> (cost_error + cost_entry) \<times> cost_db" where
  "Reserve e db scope scopeID kind period amountUSD provider pricingVersion meta =
     (case amountUSD of
        Fin a \<Rightarrow>
          if a \<le> 0 then (Inl ErrAmount, db)
          else
            (case meta of
               None \<Rightarrow> (Inl ErrMarshalMeta, db)
             | Some payload \<Rightarrow>
                 if cv_fault e then (Inl ErrDB, db)
                 else
                   (case find_budget db scope scopeID kind period of
                      None \<Rightarrow> (Inl ErrBudgetNotFound, db)
                    | Some b \<Rightarrow>
                        if to_units a \<le> of_int (bg_Ceiling b - (bg_Reserved b + bg_Incurred b)) then
                          (case to_col (of_int (bg_Reserved b) + to_units a) of
                             None \<Rightarrow> (Inl ErrDB, db)
                           | Some reserved \<Rightarrow>
                               (case newID e ''entry'' of
                                  Inl err \<Rightarrow> (Inl err, db)
                                | Inr eid \<Rightarrow>
                                    (case to_col (to_units a) of
                                       None \<Rightarrow> (Inl ErrDB, db)
                                     | Some amount \<Rightarrow>
                                         if \<not> scope_check scope \<or> eid \<in> ce_ID ` set (db_entries db)
                                         then (Inl ErrDB, db)
                                         else
                                           (let entry = \<lparr>ce_ID = eid, ce_Scope = scope, ce_ScopeID = scopeID,
                                                  ce_State = StateReserved, ce_Amount = amount,
                                                  ce_PricingVersion = pricingVersion, ce_Provider = provider,
                                                  ce_BudgetID = Some (bg_ID b), ce_Meta = payload, ce_At = cv_now e\<rparr>;
                                                db1 = update_budget (\<lambda>b. b\<lparr>bg_Reserved := reserved\<rparr>) (bg_ID b) db in
                                            (Inr entry, db1\<lparr>db_entries := db_entries db1 @ [entry]\<rparr>)))))
                        else (Inl ErrBudgetExhausted, db)))
      | _ \<Rightarrow> (Inl ErrAmount, db))"

definition find_entry :: "cost_db \<Rightarrow> string \<Rightarrow> cost_entry option" where
  "find_entry db entryID = find (\<lambda>r. ce_ID r = entryID) (db_entries db)"

definition update_entry :: "(cost_entry \<Rightarrow> cost_entry) \<Rightarrow> string \<Rightarrow> cost_db \<Rightarrow> cost_db" where
  "update_entry f entryID db =
     db\<lparr>db_entries := map (\<lambda>r. if ce_ID r = entryID then f r else r) (db_entries db)\<rparr>"

text \<open>
  The update of an envelope by id, when the entry has one. The function gives the updated
  row, \<^const>\<open>None\<close> when a new value does not fit its column. An id that matches no row
  updates none.
\<close>

definition move_budget :: "cost_db \<Rightarrow> string option \<Rightarrow> (budget \<Rightarrow> budget option) \<Rightarrow> cost_db option" where
  "move_budget db budgetID f =
     (case budgetID of
        None \<Rightarrow> Some db
      | Some bid \<Rightarrow>
          if bid = [] then Some db
          else
            (case find (\<lambda>b. bg_ID b = bid) (db_budgets db) of
               None \<Rightarrow> Some db
             | Some b \<Rightarrow>
                 (case f b of
                    None \<Rightarrow> None
                  | Some b' \<Rightarrow> Some (update_budget (\<lambda>_. b') bid db))))"

definition set_reserved :: "rat \<Rightarrow> budget \<Rightarrow> budget option" where
  "set_reserved x b = (case to_col x of None \<Rightarrow> None | Some u \<Rightarrow> Some (b\<lparr>bg_Reserved := u\<rparr>))"

definition set_incurred :: "rat \<Rightarrow> budget \<Rightarrow> budget option" where
  "set_incurred x b = (case to_col x of None \<Rightarrow> None | Some u \<Rightarrow> Some (b\<lparr>bg_Incurred := u\<rparr>))"

definition Incur :: "cost_env \<Rightarrow> cost_db \<Rightarrow> string \<Rightarrow> f64 \<Rightarrow> (cost_error + cost_entry) \<times> cost_db" where
  "Incur e db entryID actualAmountUSD =
     (case actualAmountUSD of
        Fin a \<Rightarrow>
          if cv_fault e then (Inl ErrDB, db)
          else
            (case find_entry db entryID of
               None \<Rightarrow> (Inl ErrEntryNotFound, db)
             | Some r \<Rightarrow>
                 if ce_State r \<noteq> StateReserved then (Inl ErrNotReserved, db)
                 else
                   (case move_budget db (ce_BudgetID r)
                           (\<lambda>b. Option.bind (set_reserved (of_int (bg_Reserved b - ce_Amount r)) b)
                                   (set_incurred (of_int (bg_Incurred b) + to_units a))) of
                      None \<Rightarrow> (Inl ErrDB, db)
                    | Some db1 \<Rightarrow>
                        (case to_col (to_units a) of
                           None \<Rightarrow> (Inl ErrDB, db)
                         | Some amount \<Rightarrow>
                             (Inr (r\<lparr>ce_State := StateIncurred, ce_Amount := amount\<rparr>),
                              update_entry (\<lambda>r. r\<lparr>ce_State := StateIncurred, ce_Amount := amount\<rparr>) entryID db1))))
      | _ \<Rightarrow> (Inl ErrAmount, db))"

text \<open>
  \<open>Reconcile\<close> subtracts two \<open>float64\<close> numbers in Go. The parameter \<open>gosub\<close> gives the decimal
  that the driver sends for that difference.
\<close>

definition Reconcile ::
  "(rat \<Rightarrow> rat \<Rightarrow> rat) \<Rightarrow> cost_env \<Rightarrow> cost_db \<Rightarrow> string \<Rightarrow> f64 \<Rightarrow> (cost_error + bool) \<times> cost_db" where
  "Reconcile gosub e db entryID observedAmountUSD =
     (case observedAmountUSD of
        Fin a \<Rightarrow>
          if cv_fault e then (Inl ErrDB, db)
          else
            (case find_entry db entryID of
               None \<Rightarrow> (Inl ErrEntryNotFound, db)
             | Some r \<Rightarrow>
                 if ce_State r \<noteq> StateIncurred then (Inl ErrNotIncurred, db)
                 else
                   (let delta = gosub a (of_int (ce_Amount r) / 10000) in
                    case (if delta \<noteq> 0 then
                            move_budget db (ce_BudgetID r)
                              (\<lambda>b. set_incurred (of_int (bg_Incurred b) + to_units delta) b)
                          else Some db) of
                      None \<Rightarrow> (Inl ErrDB, db)
                    | Some db1 \<Rightarrow>
                        (case to_col (to_units a) of
                           None \<Rightarrow> (Inl ErrDB, db)
                         | Some amount \<Rightarrow>
                             (Inr (delta \<noteq> 0),
                              update_entry (\<lambda>r. r\<lparr>ce_State := StateReconciled, ce_Amount := amount\<rparr>) entryID db1))))
      | _ \<Rightarrow> (Inl ErrAmount, db))"

definition Release :: "cost_env \<Rightarrow> cost_db \<Rightarrow> string \<Rightarrow> (cost_error + cost_entry) \<times> cost_db" where
  "Release e db entryID =
     (if cv_fault e then (Inl ErrDB, db)
      else
        (case find_entry db entryID of
           None \<Rightarrow> (Inl ErrEntryNotFound, db)
         | Some r \<Rightarrow>
             if ce_State r \<noteq> StateReserved then (Inl ErrNotReserved, db)
             else
               (case move_budget db (ce_BudgetID r)
                       (\<lambda>b. set_reserved (of_int (bg_Reserved b - ce_Amount r)) b) of
                  None \<Rightarrow> (Inl ErrDB, db)
                | Some db1 \<Rightarrow>
                    (Inr (r\<lparr>ce_State := StateReleased\<rparr>),
                     update_entry (\<lambda>r. r\<lparr>ce_State := StateReleased\<rparr>) entryID db1))))"

definition RecordShadow ::
  "cost_env \<Rightarrow> cost_db \<Rightarrow> scope \<Rightarrow> string \<Rightarrow> f64 \<Rightarrow> string \<Rightarrow> string \<Rightarrow> string option
     \<Rightarrow> (cost_error + cost_entry) \<times> cost_db" where
  "RecordShadow e db scope scopeID amountUSD provider pricingVersion meta =
     (case amountUSD of
        Fin a \<Rightarrow>
          (case meta of
             None \<Rightarrow> (Inl ErrMarshalMeta, db)
           | Some payload \<Rightarrow>
               (case newID e ''entry'' of
                  Inl err \<Rightarrow> (Inl err, db)
                | Inr eid \<Rightarrow>
                    (case to_col (to_units a) of
                       None \<Rightarrow> (Inl ErrDB, db)
                     | Some amount \<Rightarrow>
                         if cv_fault e \<or> \<not> scope_check scope \<or> eid \<in> ce_ID ` set (db_entries db)
                         then (Inl ErrDB, db)
                         else
                           (let entry = \<lparr>ce_ID = eid, ce_Scope = scope, ce_ScopeID = scopeID,
                                  ce_State = StateShadow, ce_Amount = amount,
                                  ce_PricingVersion = pricingVersion, ce_Provider = provider,
                                  ce_BudgetID = None, ce_Meta = payload, ce_At = cv_now e\<rparr> in
                            (Inr entry, db\<lparr>db_entries := db_entries db @ [entry]\<rparr>)))))
      | _ \<Rightarrow> (Inl ErrAmount, db))"

definition GetEntry :: "cost_env \<Rightarrow> cost_db \<Rightarrow> string \<Rightarrow> cost_error + cost_entry" where
  "GetEntry e db entryID =
     (if cv_fault e then Inl ErrDB
      else (case find_entry db entryID of None \<Rightarrow> Inl ErrEntryNotFound | Some r \<Rightarrow> Inr r))"

section \<open>The freeze gate\<close>

record freeze_gate =
  fg_frozen :: "string \<Rightarrow> bool"
  fg_threshold :: int
  fg_counts :: "string \<Rightarrow> int"

record backlog_entry =
  be_EntryID :: string
  be_ProfileID :: string
  be_Kind :: string
  be_ErrorText :: string
  be_Attempts :: int
  be_FreezeTriggered :: bool

definition NewFreezeGate :: "int \<Rightarrow> freeze_gate" where
  "NewFreezeGate threshold =
     \<lparr>fg_frozen = (\<lambda>_. False), fg_threshold = (if threshold \<le> 0 then 1 else threshold), fg_counts = (\<lambda>_. 0)\<rparr>"

definition RecordMissingUsage :: "freeze_gate \<Rightarrow> string \<Rightarrow> string \<Rightarrow> string \<Rightarrow> backlog_entry \<times> freeze_gate" where
  "RecordMissingUsage g profileID entryID errText =
     (let n = fg_counts g profileID + 1;
          g1 = g\<lparr>fg_counts := (fg_counts g)(profileID := n)\<rparr>;
          breached = (fg_threshold g \<le> n) in
      (\<lparr>be_EntryID = entryID, be_ProfileID = profileID, be_Kind = ''unreconciled'', be_ErrorText = errText,
        be_Attempts = n, be_FreezeTriggered = breached\<rparr>,
       if breached then g1\<lparr>fg_frozen := (fg_frozen g)(profileID := True)\<rparr> else g1))"

definition AllowUnattendedReserve :: "freeze_gate \<Rightarrow> string \<Rightarrow> string option" where
  "AllowUnattendedReserve g profileID =
     (if fg_frozen g profileID
      then Some (''cost: unattended reservation frozen for profile '' @ profileID @ '' (unreconciled backlog)'')
      else None)"

definition ClearAfterReconcile :: "freeze_gate \<Rightarrow> string \<Rightarrow> freeze_gate" where
  "ClearAfterReconcile g profileID =
     g\<lparr>fg_frozen := (fg_frozen g)(profileID := False), fg_counts := (fg_counts g)(profileID := 0)\<rparr>"

definition MissingUsageIsNeverZero :: "f64 option \<Rightarrow> string" where
  "MissingUsageIsNeverZero observed = (case observed of None \<Rightarrow> ''unreconciled'' | Some _ \<Rightarrow> ''observed'')"

section \<open>Rounding\<close>

lemma round_half_away_int [simp]: "round_half_away (of_int n) = n"
  by (simp add: round_half_away_def) linarith

lemma round_half_away_numeral [simp]:
  "round_half_away 0 = 0" "round_half_away 1 = 1" "round_half_away (numeral k) = numeral k"
  using round_half_away_int [of 0] round_half_away_int [of 1] round_half_away_int [of "numeral k"] by simp_all

lemma round_half_away_diff [simp]: "round_half_away (of_int m - of_int n) = m - n"
  by (metis of_int_diff round_half_away_int)

lemma round_half_away_near:
  assumes "\<bar>x - of_int n\<bar> < 1 / 2"
  shows "round_half_away x = n"
proof -
  have "of_int n < x + 1 / 2" "x + 1 / 2 < of_int n + 1" "of_int (- n) < - x + 1 / 2" "- x + 1 / 2 < of_int (- n) + 1"
    using assms by (auto simp: abs_if split: if_splits)
  then have "\<lfloor>x + 1 / 2\<rfloor> = n" "\<lfloor>- x + 1 / 2\<rfloor> = - n" by (auto intro!: floor_unique)
  then show ?thesis by (simp add: round_half_away_def)
qed

lemma round_half_away_shift:
  assumes "0 \<le> n" and "0 \<le> x"
  shows "round_half_away (of_int n + x) = n + round_half_away x"
proof -
  have "\<lfloor>of_int n + x + 1 / 2\<rfloor> = n + \<lfloor>x + 1 / 2\<rfloor>" by (simp add: add.assoc)
  then show ?thesis using assms by (simp add: round_half_away_def)
qed

lemma round_half_away_le: "x \<le> of_int n \<Longrightarrow> round_half_away x \<le> n"
  by (auto simp: round_half_away_def) linarith+

lemma round_half_away_ge: "of_int n \<le> x \<Longrightarrow> n \<le> round_half_away x"
  by (auto simp: round_half_away_def) linarith+

lemma to_col_Some: "to_col x = Some u \<longleftrightarrow> u = round_half_away x \<and> \<bar>u\<bar> < 10 ^ 12"
  by (auto simp: to_col_def Let_def)

section \<open>Totals\<close>

text \<open>What an entry contributes to the column of an envelope that counts entries in states \<open>st\<close>.\<close>

definition share :: "cost_state set \<Rightarrow> string \<Rightarrow> cost_entry \<Rightarrow> int" where
  "share st bid r = (if ce_BudgetID r = Some bid \<and> ce_State r \<in> st then ce_Amount r else 0)"

definition entry_sum :: "cost_state set \<Rightarrow> string \<Rightarrow> cost_entry list \<Rightarrow> int" where
  "entry_sum st bid es = sum_list (map (share st bid) es)"

abbreviation reserved_sum :: "string \<Rightarrow> cost_entry list \<Rightarrow> int" where
  "reserved_sum \<equiv> entry_sum {StateReserved}"

abbreviation incurred_sum :: "string \<Rightarrow> cost_entry list \<Rightarrow> int" where
  "incurred_sum \<equiv> entry_sum {StateIncurred, StateReconciled}"

definition budget_key :: "budget \<Rightarrow> scope \<times> string \<times> budget_kind \<times> string" where
  "budget_key b = (bg_Scope b, bg_ScopeID b, bg_Kind b, bg_Period b)"

lemma budget_key_update [simp]:
  "budget_key (b\<lparr>bg_Ceiling := x\<rparr>) = budget_key b" "budget_key (b\<lparr>bg_Reserved := x\<rparr>) = budget_key b"
  "budget_key (b\<lparr>bg_Incurred := x\<rparr>) = budget_key b"
  by (simp_all add: budget_key_def)

text \<open>
  The ledger is consistent: ids and envelope keys are unique, every entry refers to an existing
  envelope or to none, amounts fit their columns, a reservation is not negative, and the two
  running totals of every envelope are the sums over its entries.
\<close>

definition rows_ok :: "cost_db \<Rightarrow> bool" where
  "rows_ok db \<longleftrightarrow> distinct (map bg_ID (db_budgets db)) \<and> [] \<notin> bg_ID ` set (db_budgets db)
     \<and> distinct (map budget_key (db_budgets db)) \<and> distinct (map ce_ID (db_entries db))
     \<and> (\<forall>r \<in> set (db_entries db). (\<forall>bid. ce_BudgetID r = Some bid \<longrightarrow> bid \<in> bg_ID ` set (db_budgets db))
          \<and> \<bar>ce_Amount r\<bar> < 10 ^ 12 \<and> (ce_State r = StateReserved \<longrightarrow> 0 \<le> ce_Amount r))"

definition totals_ok :: "cost_db \<Rightarrow> bool" where
  "totals_ok db \<longleftrightarrow> (\<forall>b \<in> set (db_budgets db).
     bg_Reserved b = reserved_sum (bg_ID b) (db_entries db)
     \<and> bg_Incurred b = incurred_sum (bg_ID b) (db_entries db))"

definition cost_inv :: "cost_db \<Rightarrow> bool" where
  "cost_inv db \<longleftrightarrow> rows_ok db \<and> totals_ok db"

lemma entry_sum_update:
  assumes "distinct (map ce_ID es)" and "r \<in> set es"
  shows "entry_sum st bid (map (\<lambda>x. if ce_ID x = ce_ID r then f x else x) es)
    = entry_sum st bid es - share st bid r + share st bid (f r)"
  using assms
proof (induction es)
  case (Cons x es)
  show ?case
  proof (cases "x = r")
    case True
    then have "\<forall>y \<in> set es. ce_ID y \<noteq> ce_ID r" using Cons.prems(1) by (auto simp: image_iff)
    then have "map (\<lambda>x. if ce_ID x = ce_ID r then f x else x) es = es" by (intro map_idI) auto
    then show ?thesis using True by (simp add: entry_sum_def)
  next
    case False
    then have "r \<in> set es" "ce_ID x \<noteq> ce_ID r" using Cons.prems by auto
    then show ?thesis using Cons by (simp add: entry_sum_def)
  qed
qed simp

lemma entry_sum_snoc: "entry_sum st bid (es @ [r]) = entry_sum st bid es + share st bid r"
  by (simp add: entry_sum_def)

lemma entry_sum_fresh: "\<forall>r \<in> set es. ce_BudgetID r \<noteq> Some bid \<Longrightarrow> entry_sum st bid es = 0"
  by (induction es) (auto simp: entry_sum_def share_def)

lemma reserved_sum_nonneg:
  "\<forall>r \<in> set es. ce_State r = StateReserved \<longrightarrow> 0 \<le> ce_Amount r \<Longrightarrow> 0 \<le> reserved_sum bid es"
  unfolding entry_sum_def by (rule sum_list_nonneg) (auto simp: share_def)

lemma find_budget_Some:
  "find_budget db sc sid k p = Some b \<Longrightarrow> b \<in> set (db_budgets db) \<and> budget_key b = (sc, sid, k, p)"
  by (auto simp: find_budget_def find_Some_iff is_key_def budget_key_def)

lemma find_budget_None:
  "find_budget db sc sid k p = None \<longleftrightarrow> (sc, sid, k, p) \<notin> budget_key ` set (db_budgets db)"
  by (auto simp: find_budget_def find_None_iff is_key_def budget_key_def)

lemma find_entry_Some: "find_entry db i = Some r \<Longrightarrow> r \<in> set (db_entries db) \<and> ce_ID r = i"
  by (auto simp: find_entry_def find_Some_iff)

section \<open>Every operation keeps the ledger consistent\<close>

lemma update_budget_same:
  assumes "distinct (map bg_ID (db_budgets db))" and "b \<in> set (db_budgets db)"
    and "bg_ID (f b) = bg_ID b" and "budget_key (f b) = budget_key b"
  shows "map bg_ID (db_budgets (update_budget f (bg_ID b) db)) = map bg_ID (db_budgets db)"
    and "map budget_key (db_budgets (update_budget f (bg_ID b) db)) = map budget_key (db_budgets db)"
    and "db_entries (update_budget f (bg_ID b) db) = db_entries db"
    and "set (db_budgets (update_budget f (bg_ID b) db)) = insert (f b) (set (db_budgets db) - {b})"
proof -
  have uniq: "x = b" if "x \<in> set (db_budgets db)" "bg_ID x = bg_ID b" for x
    using that assms(1,2) by (metis distinct_map inj_onD)
  show "map bg_ID (db_budgets (update_budget f (bg_ID b) db)) = map bg_ID (db_budgets db)"
    and "map budget_key (db_budgets (update_budget f (bg_ID b) db)) = map budget_key (db_budgets db)"
    using uniq assms(3,4) by (auto simp: update_budget_def)
  have "map (\<lambda>x. if bg_ID x = bg_ID b then f x else x) (db_budgets db)
      = map (\<lambda>x. if x = b then f b else x) (db_budgets db)" using uniq by auto
  then show "set (db_budgets (update_budget f (bg_ID b) db)) = insert (f b) (set (db_budgets db) - {b})"
    using assms(2) by (auto simp: update_budget_def)
qed (simp add: update_budget_def)

lemma update_entry_same:
  assumes "distinct (map ce_ID (db_entries db))" and "r \<in> set (db_entries db)" and "ce_ID (g r) = ce_ID r"
  shows "map ce_ID (db_entries (update_entry g (ce_ID r) db)) = map ce_ID (db_entries db)"
    and "db_budgets (update_entry g (ce_ID r) db) = db_budgets db"
    and "set (db_entries (update_entry g (ce_ID r) db)) = insert (g r) (set (db_entries db) - {r})"
    and "entry_sum st bid (db_entries (update_entry g (ce_ID r) db))
      = entry_sum st bid (db_entries db) - share st bid r + share st bid (g r)"
proof -
  have uniq: "x = r" if "x \<in> set (db_entries db)" "ce_ID x = ce_ID r" for x
    using that assms(1,2) by (metis distinct_map inj_onD)
  show "map ce_ID (db_entries (update_entry g (ce_ID r) db)) = map ce_ID (db_entries db)"
    using uniq assms(3) by (auto simp: update_entry_def)
  have "map (\<lambda>x. if ce_ID x = ce_ID r then g x else x) (db_entries db)
      = map (\<lambda>x. if x = r then g r else x) (db_entries db)" using uniq by auto
  then show "set (db_entries (update_entry g (ce_ID r) db)) = insert (g r) (set (db_entries db) - {r})"
    using assms(2) by (auto simp: update_entry_def)
  show "entry_sum st bid (db_entries (update_entry g (ce_ID r) db))
      = entry_sum st bid (db_entries db) - share st bid r + share st bid (g r)"
    using entry_sum_update [OF assms(1,2)] by (simp add: update_entry_def)
qed (simp add: update_entry_def)

text \<open>
  The common step of \<open>Incur\<close>, \<open>Reconcile\<close> and \<open>Release\<close>: one entry changes its state and amount,
  and its envelope moves by what the entry contributed before and contributes now.
\<close>

lemma move_keeps_inv:
  assumes inv: "cost_inv db" and r: "find_entry db i = Some r"
    and g: "ce_ID (g r) = ce_ID r" "ce_BudgetID (g r) = ce_BudgetID r" "\<bar>ce_Amount (g r)\<bar> < 10 ^ 12"
      "ce_State (g r) \<noteq> StateReserved"
    and m: "move_budget db (ce_BudgetID r) f = Some db1"
    and f: "\<And>b b'. b \<in> set (db_budgets db) \<Longrightarrow> ce_BudgetID r = Some (bg_ID b) \<Longrightarrow> f b = Some b' \<Longrightarrow>
      bg_ID b' = bg_ID b \<and> budget_key b' = budget_key b
      \<and> bg_Reserved b' = bg_Reserved b - share {StateReserved} (bg_ID b) r + share {StateReserved} (bg_ID b) (g r)
      \<and> bg_Incurred b' = bg_Incurred b - share {StateIncurred, StateReconciled} (bg_ID b) r
          + share {StateIncurred, StateReconciled} (bg_ID b) (g r)"
  shows "cost_inv (update_entry g i db1)"
proof -
  have rows: "rows_ok db" and tot: "totals_ok db" using inv by (auto simp: cost_inv_def)
  have re: "r \<in> set (db_entries db)" "ce_ID r = i" using find_entry_Some [OF r] by auto
  have ids: "distinct (map bg_ID (db_budgets db))" "distinct (map ce_ID (db_entries db))"
    using rows by (auto simp: rows_ok_def)
  have other: "share st bid r = 0 \<and> share st bid (g r) = 0" if "ce_BudgetID r \<noteq> Some bid" for st bid
    using that g(2) by (simp add: share_def)
  show ?thesis
  proof (cases "ce_BudgetID r")
    case None
    then have db1: "db1 = db" using m by (simp add: move_budget_def)
    note u = update_entry_same [of db r g, OF ids(2) re(1) g(1), unfolded re(2)]
    have "rows_ok (update_entry g i db)"
      using rows g None unfolding rows_ok_def u by auto
    moreover have "totals_ok (update_entry g i db)"
      using tot other None unfolding totals_ok_def u by simp
    ultimately show ?thesis by (simp add: cost_inv_def db1)
  next
    case (Some bid)
    have "bid \<in> bg_ID ` set (db_budgets db)" "bid \<noteq> []"
      using rows re(1) Some unfolding rows_ok_def by blast+
    then obtain b where b: "find (\<lambda>b. bg_ID b = bid) (db_budgets db) = Some b"
      by (cases "find (\<lambda>b. bg_ID b = bid) (db_budgets db)") (auto simp: find_None_iff)
    then have bb: "b \<in> set (db_budgets db)" "bg_ID b = bid" by (auto simp: find_Some_iff)
    obtain b' where b': "f b = Some b'" "db1 = update_budget (\<lambda>_. b') bid db"
      using m Some b \<open>bid \<noteq> []\<close> by (auto simp: move_budget_def split: option.splits)
    have fb: "bg_ID b' = bid" "budget_key b' = budget_key b"
      "bg_Reserved b' = bg_Reserved b - share {StateReserved} bid r + share {StateReserved} bid (g r)"
      "bg_Incurred b' = bg_Incurred b - share {StateIncurred, StateReconciled} bid r
          + share {StateIncurred, StateReconciled} bid (g r)"
      using f [OF bb(1) _ b'(1)] Some bb(2) by auto
    note w = update_budget_same [OF ids(1) bb(1), of "\<lambda>_. b'", unfolded bb(2), OF fb(1,2), folded b'(2)]
    have d1: "distinct (map ce_ID (db_entries db1))" "r \<in> set (db_entries db1)" using ids(2) re w by auto
    note u = update_entry_same [of db1 r g, OF d1 g(1), unfolded re(2)]
    have imgs: "bg_ID ` set (db_budgets db1) = bg_ID ` set (db_budgets db)"
      using w(1) by (metis set_map)
    have "rows_ok (update_entry g i db1)"
      using rows g re(1) unfolding rows_ok_def u w(1-3) imgs by auto
    moreover have "totals_ok (update_entry g i db1)"
      unfolding totals_ok_def u w(3,4)
    proof
      fix c assume c: "c \<in> insert b' (set (db_budgets db) - {b})"
      show "bg_Reserved c = reserved_sum (bg_ID c) (db_entries db) - share {StateReserved} (bg_ID c) r + share {StateReserved} (bg_ID c) (g r)
        \<and> bg_Incurred c = incurred_sum (bg_ID c) (db_entries db) - share {StateIncurred, StateReconciled} (bg_ID c) r
            + share {StateIncurred, StateReconciled} (bg_ID c) (g r)"
      proof (cases "c = b'")
        case True
        then show ?thesis using fb tot bb unfolding totals_ok_def by force
      next
        case False
        then have cb: "c \<in> set (db_budgets db)" "c \<noteq> b" using c by auto
        then have "bg_ID c \<noteq> bid" using ids(1) bb by (metis distinct_map inj_onD)
        then show ?thesis using tot cb other [of "bg_ID c"] Some unfolding totals_ok_def by simp
      qed
    qed
    ultimately show ?thesis by (simp add: cost_inv_def)
  qed
qed

text \<open>An amount of whole units: at most four decimal places.\<close>

definition whole :: "rat \<Rightarrow> bool" where
  "whole a \<longleftrightarrow> to_units a \<in> \<int>"

text \<open>
  What the subtraction of \<open>float64\<close> numbers of at most twelve digits promises: the exact
  difference up to an error far below half a unit, and zero for equal numbers.
\<close>

definition float_difference :: "(rat \<Rightarrow> rat \<Rightarrow> rat) \<Rightarrow> bool" where
  "float_difference gosub \<longleftrightarrow>
     (\<forall>a b. \<bar>a\<bar> < 10 ^ 8 \<and> \<bar>b\<bar> < 10 ^ 8 \<longrightarrow> \<bar>gosub a b - (a - b)\<bar> < 1 / 40000)"

lemma whole_to_col:
  assumes "whole a" and "to_col (of_int n + to_units a) = Some u" and "to_col (to_units a) = Some v"
  shows "u = n + v"
  using assms by (auto simp: whole_def to_col_Some Ints_def) (metis of_int_add round_half_away_int)

lemma Incur_inv:
  assumes "cost_inv db" and "Incur e db i (Fin a) = (res, db')" and "whole a"
  shows "cost_inv db'"
proof (cases "db' = db")
  case False
  then obtain r db1 amount where r: "find_entry db i = Some r" "ce_State r = StateReserved"
    and m: "move_budget db (ce_BudgetID r) (\<lambda>b. Option.bind (set_reserved (of_int (bg_Reserved b - ce_Amount r)) b)
          (set_incurred (of_int (bg_Incurred b) + to_units a))) = Some db1"
    and a: "to_col (to_units a) = Some amount"
    and db': "db' = update_entry (\<lambda>r. r\<lparr>ce_State := StateIncurred, ce_Amount := amount\<rparr>) i db1"
    using assms(2) by (auto simp: Incur_def split: if_splits option.splits)
  have "cost_inv (update_entry (\<lambda>r. r\<lparr>ce_State := StateIncurred, ce_Amount := amount\<rparr>) i db1)"
  proof (rule move_keeps_inv [OF assms(1) r(1) _ _ _ _ m])
    fix b b' assume "ce_BudgetID r = Some (bg_ID b)"
      and "Option.bind (set_reserved (of_int (bg_Reserved b - ce_Amount r)) b)
          (set_incurred (of_int (bg_Incurred b) + to_units a)) = Some b'"
    then show "bg_ID b' = bg_ID b \<and> budget_key b' = budget_key b
        \<and> bg_Reserved b' = bg_Reserved b - share {StateReserved} (bg_ID b) r
            + share {StateReserved} (bg_ID b) (r\<lparr>ce_State := StateIncurred, ce_Amount := amount\<rparr>)
        \<and> bg_Incurred b' = bg_Incurred b - share {StateIncurred, StateReconciled} (bg_ID b) r
            + share {StateIncurred, StateReconciled} (bg_ID b) (r\<lparr>ce_State := StateIncurred, ce_Amount := amount\<rparr>)"
      using r(2) whole_to_col [OF assms(3) _ a]
      by (auto simp: set_reserved_def set_incurred_def share_def budget_key_def to_col_Some bind_eq_Some_conv
          split: option.splits)
  qed (use a in \<open>auto simp: to_col_Some\<close>)
  then show ?thesis by (simp add: db')
qed (use assms in simp)

lemma Release_inv:
  assumes "cost_inv db" and "Release e db i = (res, db')"
  shows "cost_inv db'"
proof (cases "db' = db")
  case False
  then obtain r db1 where r: "find_entry db i = Some r" "ce_State r = StateReserved"
    and m: "move_budget db (ce_BudgetID r) (\<lambda>b. set_reserved (of_int (bg_Reserved b - ce_Amount r)) b) = Some db1"
    and db': "db' = update_entry (\<lambda>r. r\<lparr>ce_State := StateReleased\<rparr>) i db1"
    using assms(2) by (auto simp: Release_def split: if_splits option.splits)
  have "\<bar>ce_Amount r\<bar> < 10 ^ 12"
    using assms(1) find_entry_Some [OF r(1)] unfolding cost_inv_def rows_ok_def by blast
  then have "cost_inv (update_entry (\<lambda>r. r\<lparr>ce_State := StateReleased\<rparr>) i db1)"
    using r(2) by (intro move_keeps_inv [OF assms(1) r(1) _ _ _ _ m])
      (auto simp: set_reserved_def share_def budget_key_def to_col_Some split: option.splits)
  then show ?thesis by (simp add: db')
qed (use assms in simp)

lemma float_difference_units:
  assumes "float_difference gosub" and "to_units a = of_int k" and "\<bar>k\<bar> < 10 ^ 12" and "\<bar>m\<bar> < 10 ^ 12"
  shows "\<bar>to_units (gosub a (of_int m / 10000)) - of_int (k - m)\<bar> < 1 / 4"
proof -
  have a: "a = of_int k / 10000" using assms(2) by (simp add: to_units_def)
  have "(of_int \<bar>k\<bar> :: rat) < of_int (10 ^ 12)" "(of_int \<bar>m\<bar> :: rat) < of_int (10 ^ 12)"
    using assms(3,4) by (simp_all only: of_int_less_iff)
  then have "\<bar>a\<bar> < 10 ^ 8" "\<bar>of_int m / 10000 :: rat\<bar> < 10 ^ 8" by (simp_all add: a)
  then have "\<bar>gosub a (of_int m / 10000) - (a - of_int m / 10000)\<bar> < 1 / 40000"
    using assms(1) by (simp add: float_difference_def)
  then show ?thesis by (simp add: a to_units_def abs_less_iff field_simps)
qed

lemma Reconcile_inv:
  assumes "cost_inv db" and "Reconcile gosub e db i (Fin a) = (res, db')" and "whole a" and "float_difference gosub"
  shows "cost_inv db'"
proof (cases "db' = db")
  case False
  define d where "d r = gosub a (of_int (ce_Amount r) / 10000)" for r :: cost_entry
  define g where "g amount = (\<lambda>r :: cost_entry. r\<lparr>ce_State := StateReconciled, ce_Amount := amount\<rparr>)" for amount
  obtain r db1 amount where r: "find_entry db i = Some r" "ce_State r = StateIncurred"
    and m: "(if d r \<noteq> 0 then move_budget db (ce_BudgetID r) (\<lambda>b. set_incurred (of_int (bg_Incurred b) + to_units (d r)) b)
          else Some db) = Some db1"
    and am: "to_col (to_units a) = Some amount" and db': "db' = update_entry (g amount) i db1"
    using assms(2) False by (auto simp: Reconcile_def d_def g_def Let_def split: if_splits option.splits)
  obtain k where k: "to_units a = of_int k" using assms(3) by (auto simp: whole_def Ints_def)
  then have amount: "amount = k" "\<bar>k\<bar> < 10 ^ 12" using am by (auto simp: to_col_Some)
  have "\<bar>ce_Amount r\<bar> < 10 ^ 12"
    using assms(1) find_entry_Some [OF r(1)] unfolding cost_inv_def rows_ok_def by blast
  note near = float_difference_units [OF assms(4) k amount(2) this, folded d_def]
  have move: "move_budget db (ce_BudgetID r)
      (\<lambda>b. if d r \<noteq> 0 then set_incurred (of_int (bg_Incurred b) + to_units (d r)) b else Some b) = Some db1"
  proof (cases "d r = 0")
    case True
    have "update_budget (\<lambda>_. b) bid db = db" if "find (\<lambda>b. bg_ID b = bid) (db_budgets db) = Some b" for b bid
    proof -
      have "distinct (map bg_ID (db_budgets db))" using assms(1) by (simp add: cost_inv_def rows_ok_def)
      moreover have "b \<in> set (db_budgets db)" "bg_ID b = bid" using that by (auto simp: find_Some_iff)
      ultimately have "map (\<lambda>x. if bg_ID x = bid then b else x) (db_budgets db) = db_budgets db"
        by (intro map_idI) (metis distinct_map inj_onD)
      then show ?thesis by (simp add: update_budget_def)
    qed
    then show ?thesis using True m by (auto simp: move_budget_def split: option.splits)
  qed (use m in simp)
  have "cost_inv (update_entry (g amount) i db1)"
  proof (rule move_keeps_inv [OF assms(1) r(1) _ _ _ _ move])
    fix b b' assume "ce_BudgetID r = Some (bg_ID b)"
      and "(if d r \<noteq> 0 then set_incurred (of_int (bg_Incurred b) + to_units (d r)) b else Some b) = Some b'"
    moreover have "round_half_away (of_int (bg_Incurred b) + to_units (d r)) = bg_Incurred b + k - ce_Amount r"
      using near by (intro round_half_away_near) (simp add: algebra_simps)
    moreover have "k = ce_Amount r" if "d r = 0"
      using near that by (simp add: to_units_def abs_if split: if_splits)
    ultimately show "bg_ID b' = bg_ID b \<and> budget_key b' = budget_key b
        \<and> bg_Reserved b' = bg_Reserved b - share {StateReserved} (bg_ID b) r + share {StateReserved} (bg_ID b) (g amount r)
        \<and> bg_Incurred b' = bg_Incurred b - share {StateIncurred, StateReconciled} (bg_ID b) r
            + share {StateIncurred, StateReconciled} (bg_ID b) (g amount r)"
      using r(2) amount(1)
      by (auto simp: set_incurred_def share_def budget_key_def to_col_Some g_def split: option.splits if_splits)
  qed (use amount in \<open>auto simp: g_def\<close>)
  then show ?thesis by (simp add: db')
qed (use assms in simp)

lemma CreateBudget_inv:
  assumes "cost_inv db" and "CreateBudget e db sc sid k p c = (res, db')"
  shows "cost_inv db'"
proof (cases "db' = db")
  case False
  then obtain bid ceil where n: "(sc, sid, k, p) \<notin> budget_key ` set (db_budgets db)"
    "bid \<notin> bg_ID ` set (db_budgets db)" "bid \<noteq> []"
    and db': "db' = db\<lparr>db_budgets := db_budgets db @ [\<lparr>bg_ID = bid, bg_Scope = sc, bg_ScopeID = sid, bg_Kind = k,
        bg_Period = p, bg_Ceiling = ceil, bg_Reserved = 0, bg_Incurred = 0\<rparr>]\<rparr>"
    using assms(2) by (auto simp: CreateBudget_def Let_def newID_def find_budget_None
        split: f64.splits sum.splits option.splits if_splits)
  have "rows_ok db'"
    using assms(1) n unfolding cost_inv_def rows_ok_def db' by (auto simp: budget_key_def)
  moreover have "\<forall>r \<in> set (db_entries db). ce_BudgetID r \<noteq> Some bid"
    using assms(1) n(2) unfolding cost_inv_def rows_ok_def by blast
  then have "totals_ok db'"
    using assms(1) unfolding cost_inv_def totals_ok_def db' by (simp add: entry_sum_fresh)
  ultimately show ?thesis by (simp add: cost_inv_def)
qed (use assms in simp)

lemma RaiseCeiling_inv:
  assumes "cost_inv db" and "RaiseCeiling e db sc sid k p c = (res, db')"
  shows "cost_inv db'"
proof (cases "db' = db")
  case False
  then obtain b ceil where b: "find_budget db sc sid k p = Some b"
    and db': "db' = update_budget (\<lambda>b. b\<lparr>bg_Ceiling := ceil\<rparr>) (bg_ID b) db"
    using assms(2) by (auto simp: RaiseCeiling_def split: f64.splits option.splits if_splits)
  have bb: "b \<in> set (db_budgets db)" using find_budget_Some [OF b] by blast
  have "distinct (map bg_ID (db_budgets db))" using assms(1) by (simp add: cost_inv_def rows_ok_def)
  note w = update_budget_same [OF this bb, of "\<lambda>b. b\<lparr>bg_Ceiling := ceil\<rparr>", folded db', simplified]
  have "bg_ID ` set (db_budgets db') = bg_ID ` set (db_budgets db)" using w(1) by (metis set_map)
  then have "rows_ok db'"
    using assms(1) unfolding cost_inv_def rows_ok_def w(1-3) by simp
  moreover have "totals_ok db'"
    using assms(1) bb unfolding cost_inv_def totals_ok_def w(3,4) by auto
  ultimately show ?thesis by (simp add: cost_inv_def)
qed (use assms in simp)

lemma append_entry_inv:
  assumes "rows_ok db" and "ce_ID r \<notin> ce_ID ` set (db_entries db)" and "\<bar>ce_Amount r\<bar> < 10 ^ 12"
    and "ce_State r = StateReserved \<longrightarrow> 0 \<le> ce_Amount r"
    and "\<forall>bid. ce_BudgetID r = Some bid \<longrightarrow> bid \<in> bg_ID ` set (db_budgets db)"
  shows "rows_ok (db\<lparr>db_entries := db_entries db @ [r]\<rparr>)"
  using assms unfolding rows_ok_def by auto

lemma RecordShadow_inv:
  assumes "cost_inv db" and "RecordShadow e db sc sid a prov pv meta = (res, db')"
  shows "cost_inv db'"
proof (cases "db' = db")
  case False
  then obtain r where "res = Inr r" and r: "ce_ID r \<notin> ce_ID ` set (db_entries db)" "\<bar>ce_Amount r\<bar> < 10 ^ 12"
    "ce_State r = StateShadow" "ce_BudgetID r = None"
    and db': "db' = db\<lparr>db_entries := db_entries db @ [r]\<rparr>"
    using assms(2) by (auto simp: RecordShadow_def Let_def to_col_Some
        split: f64.splits sum.splits option.splits if_splits)
  have "rows_ok db'" using assms(1) r unfolding db' cost_inv_def by (intro append_entry_inv) auto
  moreover have "totals_ok db'"
    using assms(1) r(4) unfolding cost_inv_def totals_ok_def db' by (simp add: entry_sum_snoc share_def)
  ultimately show ?thesis by (simp add: cost_inv_def)
qed (use assms in simp)

text \<open>The successful branch of \<open>Reserve\<close>.\<close>

lemma Reserve_ok:
  assumes "cost_inv db" and "Reserve e db sc sid k p (Fin a) prov pv meta = (Inr r, db')"
  obtains b where "find_budget db sc sid k p = Some b" and "ce_BudgetID r = Some (bg_ID b)"
    and "ce_State r = StateReserved" and "ce_Amount r = round_half_away (to_units a)" and "0 \<le> ce_Amount r"
    and "\<bar>ce_Amount r\<bar> < 10 ^ 12" and "ce_ID r \<notin> ce_ID ` set (db_entries db)"
    and "ce_Amount r \<le> bg_Ceiling b - (bg_Reserved b + bg_Incurred b)"
    and "db' = (update_budget (\<lambda>b. b\<lparr>bg_Reserved := bg_Reserved b + ce_Amount r\<rparr>) (bg_ID b) db)
          \<lparr>db_entries := db_entries db @ [r]\<rparr>"
proof -
  obtain b reserved where b: "find_budget db sc sid k p = Some b" "0 < a"
    and fits: "to_units a \<le> of_int (bg_Ceiling b - (bg_Reserved b + bg_Incurred b))"
    and res: "reserved = round_half_away (of_int (bg_Reserved b) + to_units a)"
    and r: "ce_BudgetID r = Some (bg_ID b)" "ce_State r = StateReserved" "ce_Amount r = round_half_away (to_units a)"
      "\<bar>ce_Amount r\<bar> < 10 ^ 12" "ce_ID r \<notin> ce_ID ` set (db_entries db)"
    and db': "db' = (update_budget (\<lambda>b. b\<lparr>bg_Reserved := reserved\<rparr>) (bg_ID b) db)\<lparr>db_entries := db_entries db @ [r]\<rparr>"
    using assms(2) by (auto simp: Reserve_def Let_def to_col_Some update_budget_def
        split: f64.splits sum.splits option.splits if_splits)
  have bb: "b \<in> set (db_budgets db)" using find_budget_Some [OF b(1)] by blast
  have pos: "0 \<le> to_units a" using b(2) by (simp add: to_units_def)
  have "0 \<le> bg_Reserved b"
    using assms(1) bb unfolding cost_inv_def totals_ok_def rows_ok_def by (metis reserved_sum_nonneg)
  then have res': "reserved = bg_Reserved b + ce_Amount r" using res r(3) pos by (simp add: round_half_away_shift)
  have uniq: "x = b" if "x \<in> set (db_budgets db)" "bg_ID x = bg_ID b" for x
    using that bb assms(1) unfolding cost_inv_def rows_ok_def by (metis distinct_map inj_onD)
  have "map (\<lambda>c. if bg_ID c = bg_ID b then c\<lparr>bg_Reserved := reserved\<rparr> else c) (db_budgets db)
      = map (\<lambda>c. if bg_ID c = bg_ID b then c\<lparr>bg_Reserved := bg_Reserved c + ce_Amount r\<rparr> else c) (db_budgets db)"
    using uniq res' by (intro map_cong) auto
  then have "update_budget (\<lambda>b. b\<lparr>bg_Reserved := reserved\<rparr>) (bg_ID b) db
      = update_budget (\<lambda>b. b\<lparr>bg_Reserved := bg_Reserved b + ce_Amount r\<rparr>) (bg_ID b) db"
    by (simp add: update_budget_def)
  moreover have "0 \<le> ce_Amount r" using pos r(3) round_half_away_ge [of 0] by simp
  moreover have "ce_Amount r \<le> bg_Ceiling b - (bg_Reserved b + bg_Incurred b)"
    using round_half_away_le [OF fits] r(3) by simp
  ultimately show thesis using that b(1) r db' by auto
qed

lemma Reserve_fails: "Reserve e db sc sid k p a prov pv meta = (Inl err, db') \<Longrightarrow> db' = db"
  by (auto simp: Reserve_def Let_def split: f64.splits sum.splits option.splits if_splits)

lemma Reserve_inv:
  assumes "cost_inv db" and "Reserve e db sc sid k p a prov pv meta = (res, db')"
  shows "cost_inv db'"
proof (cases res)
  case (Inl err)
  then show ?thesis using assms Reserve_fails by blast
next
  case (Inr r)
  moreover from this assms(2) obtain x where "a = Fin x" by (auto simp: Reserve_def split: f64.splits)
  ultimately have ok: "Reserve e db sc sid k p (Fin x) prov pv meta = (Inr r, db')" using assms(2) by simp
  obtain b where b: "find_budget db sc sid k p = Some b" "ce_BudgetID r = Some (bg_ID b)"
    "ce_State r = StateReserved" "0 \<le> ce_Amount r" "\<bar>ce_Amount r\<bar> < 10 ^ 12" "ce_ID r \<notin> ce_ID ` set (db_entries db)"
    and db': "db' = (update_budget (\<lambda>b. b\<lparr>bg_Reserved := bg_Reserved b + ce_Amount r\<rparr>) (bg_ID b) db)
          \<lparr>db_entries := db_entries db @ [r]\<rparr>"
    by (rule Reserve_ok [OF assms(1) ok])
  define db1 where "db1 = update_budget (\<lambda>b. b\<lparr>bg_Reserved := bg_Reserved b + ce_Amount r\<rparr>) (bg_ID b) db"
  have bb: "b \<in> set (db_budgets db)" using find_budget_Some [OF b(1)] by blast
  have ids: "distinct (map bg_ID (db_budgets db))" using assms(1) by (simp add: cost_inv_def rows_ok_def)
  note w = update_budget_same [OF ids bb, of "\<lambda>b. b\<lparr>bg_Reserved := bg_Reserved b + ce_Amount r\<rparr>", folded db1_def, simplified]
  have im: "bg_ID ` set (db_budgets db1) = bg_ID ` set (db_budgets db)" using w(1) by (metis set_map)
  have "rows_ok db1" using assms(1) unfolding cost_inv_def rows_ok_def w(1-3) im by simp
  then have "rows_ok (db1\<lparr>db_entries := db_entries db1 @ [r]\<rparr>)"
    using b bb im by (intro append_entry_inv) (auto simp: w(3))
  moreover have "totals_ok (db1\<lparr>db_entries := db_entries db1 @ [r]\<rparr>)"
    unfolding totals_ok_def
  proof
    fix c assume "c \<in> set (db_budgets (db1\<lparr>db_entries := db_entries db1 @ [r]\<rparr>))"
    then consider "c = b\<lparr>bg_Reserved := bg_Reserved b + ce_Amount r\<rparr>" | "c \<in> set (db_budgets db)" "c \<noteq> b"
      using w(4) by auto
    then show "bg_Reserved c = reserved_sum (bg_ID c) (db_entries (db1\<lparr>db_entries := db_entries db1 @ [r]\<rparr>))
        \<and> bg_Incurred c = incurred_sum (bg_ID c) (db_entries (db1\<lparr>db_entries := db_entries db1 @ [r]\<rparr>))"
    proof cases
      case 1
      then show ?thesis
        using assms(1) bb b unfolding cost_inv_def totals_ok_def by (simp add: entry_sum_snoc w(3) share_def)
    next
      case 2
      then have "bg_ID c \<noteq> bg_ID b" using ids bb by (metis distinct_map inj_onD)
      then show ?thesis
        using assms(1) 2 b unfolding cost_inv_def totals_ok_def by (simp add: entry_sum_snoc w(3) share_def)
    qed
  qed
  ultimately show ?thesis by (simp add: cost_inv_def db' db1_def [symmetric] w(3))
qed

section \<open>Histories of the ledger\<close>

datatype cost_op =
    OpCreate cost_env scope string budget_kind string f64
  | OpRaise cost_env scope string budget_kind string f64
  | OpReserve cost_env scope string budget_kind string f64 string string "string option"
  | OpIncur cost_env string f64
  | OpReconcile cost_env string f64
  | OpReleaseEntry cost_env string
  | OpShadow cost_env scope string f64 string string "string option"

fun cost_step :: "(rat \<Rightarrow> rat \<Rightarrow> rat) \<Rightarrow> cost_op \<Rightarrow> cost_db \<Rightarrow> cost_db" where
  "cost_step gosub (OpCreate e sc sid k p c) db = snd (CreateBudget e db sc sid k p c)"
| "cost_step gosub (OpRaise e sc sid k p c) db = snd (RaiseCeiling e db sc sid k p c)"
| "cost_step gosub (OpReserve e sc sid k p a prov pv meta) db = snd (Reserve e db sc sid k p a prov pv meta)"
| "cost_step gosub (OpIncur e i a) db = snd (Incur e db i a)"
| "cost_step gosub (OpReconcile e i a) db = snd (Reconcile gosub e db i a)"
| "cost_step gosub (OpReleaseEntry e i) db = snd (Release e db i)"
| "cost_step gosub (OpShadow e sc sid a prov pv meta) db = snd (RecordShadow e db sc sid a prov pv meta)"

definition empty_db :: cost_db where
  "empty_db = \<lparr>db_budgets = [], db_entries = []\<rparr>"

text \<open>The observed amounts of a history have at most four decimal places.\<close>

fun whole_op :: "cost_op \<Rightarrow> bool" where
  "whole_op (OpIncur e i (Fin a)) = whole a"
| "whole_op (OpReconcile e i (Fin a)) = whole a"
| "whole_op _ = True"

lemma cost_step_inv:
  assumes "cost_inv db" and "whole_op op" and "float_difference gosub"
  shows "cost_inv (cost_step gosub op db)"
proof (cases op)
  case (OpIncur e i a)
  then show ?thesis
    using assms Incur_inv [OF assms(1) surjective_pairing] by (cases a) (auto simp: Incur_def)
next
  case (OpReconcile e i a)
  then show ?thesis
    using assms Reconcile_inv [OF assms(1) surjective_pairing]
    by (cases a) (auto simp: Reconcile_def)
qed (simp_all add: CreateBudget_inv [OF assms(1) surjective_pairing] RaiseCeiling_inv [OF assms(1) surjective_pairing]
    Reserve_inv [OF assms(1) surjective_pairing] Release_inv [OF assms(1) surjective_pairing]
    RecordShadow_inv [OF assms(1) surjective_pairing])

lemma empty_db_inv: "cost_inv empty_db"
  by (simp add: cost_inv_def rows_ok_def totals_ok_def empty_db_def)

lemma cost_history_inv:
  "cost_inv db \<Longrightarrow> \<forall>op \<in> set ops. whole_op op \<Longrightarrow> float_difference gosub \<Longrightarrow> cost_inv (fold (cost_step gosub) ops db)"
  by (induction ops arbitrary: db) (auto simp: cost_step_inv)


definition cost_env_of :: "string \<Rightarrow> cost_env" where
  "cost_env_of h = \<lparr>cv_hex = Some h, cv_now = 0, cv_fault = False\<rparr>"

definition sample_ops :: "cost_op list" where
  "sample_ops =
     [OpCreate (cost_env_of ''1'') ScopeMission ''m'' KindMissionMonthly ''2025-01'' (Fin 10),
      OpReserve (cost_env_of ''2'') ScopeMission ''m'' KindMissionMonthly ''2025-01'' (Fin (5 / 2)) ''p'' ''v1'' (Some ''{}''),
      OpIncur (cost_env_of ''3'') ''entry-2'' (Fin 3)]"


section \<open>Ceilings\<close>

definition committed :: "string \<Rightarrow> cost_db \<Rightarrow> int" where
  "committed bid db = entry_sum {StateReserved, StateIncurred, StateReconciled} bid (db_entries db)"

definition within_ceilings :: "cost_db \<Rightarrow> bool" where
  "within_ceilings db \<longleftrightarrow> (\<forall>b \<in> set (db_budgets db). bg_Reserved b + bg_Incurred b \<le> bg_Ceiling b)"

lemma committed_eq:
  assumes "cost_inv db" and "b \<in> set (db_budgets db)"
  shows "bg_Reserved b + bg_Incurred b = committed (bg_ID b) db"
proof -
  have "reserved_sum i es + incurred_sum i es = entry_sum {StateReserved, StateIncurred, StateReconciled} i es" for i es
    by (induction es) (auto simp: entry_sum_def share_def)
  then show ?thesis using assms by (simp add: cost_inv_def totals_ok_def committed_def)
qed

abbreviation ceilings :: "cost_db \<Rightarrow> (string \<times> int) set" where
  "ceilings db \<equiv> (\<lambda>b. (bg_ID b, bg_Ceiling b)) ` set (db_budgets db)"

lemma within_mono:
  assumes "cost_inv db" "cost_inv db'" "within_ceilings db" and "ceilings db' \<subseteq> ceilings db"
    and "\<And>bid. committed bid db' \<le> committed bid db"
  shows "within_ceilings db'"
  unfolding within_ceilings_def
proof
  fix b' assume b': "b' \<in> set (db_budgets db')"
  then obtain b where b: "b \<in> set (db_budgets db)" "bg_ID b = bg_ID b'" "bg_Ceiling b = bg_Ceiling b'"
    using assms(4) by (force simp: image_iff subset_iff)
  then have "committed (bg_ID b') db \<le> bg_Ceiling b'"
    using assms(3) committed_eq [OF assms(1) b(1)] by (auto simp: within_ceilings_def)
  then show "bg_Reserved b' + bg_Incurred b' \<le> bg_Ceiling b'"
    using committed_eq [OF assms(2) b'] assms(5) [of "bg_ID b'"] by simp
qed

lemma move_ceilings:
  assumes "move_budget db bid f = Some db1" and "\<And>b b'. f b = Some b' \<Longrightarrow> bg_ID b' = bg_ID b \<and> bg_Ceiling b' = bg_Ceiling b"
  shows "ceilings db1 \<subseteq> ceilings db" and "db_entries db1 = db_entries db"
  using assms by (force simp: move_budget_def update_budget_def find_Some_iff split: option.splits if_splits)+

lemma committed_update:
  assumes "cost_inv db" and "find_entry db i = Some r" and "db_entries db1 = db_entries db"
    and "ce_ID (g r) = ce_ID r"
  shows "committed bid (update_entry g i db1) = committed bid db
    - share {StateReserved, StateIncurred, StateReconciled} bid r
    + share {StateReserved, StateIncurred, StateReconciled} bid (g r)"
proof -
  have d: "distinct (map ce_ID (db_entries db1))" and r: "r \<in> set (db_entries db1)" and i: "ce_ID r = i"
    using assms find_entry_Some [OF assms(2)] by (auto simp: cost_inv_def rows_ok_def)
  show ?thesis
    unfolding committed_def i [symmetric] using update_entry_same(4) [of db1 r g, OF d r assms(4)] assms(3) by simp
qed

text \<open>
  A frugal call: a new envelope has a ceiling that is not negative, and an observed amount is
  not higher than the amount the entry stands for.
\<close>

fun frugal :: "cost_op \<Rightarrow> cost_db \<Rightarrow> bool" where
  "frugal (OpCreate e sc sid k p (Fin c)) db = (0 \<le> c)"
| "frugal (OpIncur e i (Fin a)) db = (\<forall>r. find_entry db i = Some r \<longrightarrow> to_units a \<le> of_int (ce_Amount r))"
| "frugal (OpReconcile e i (Fin a)) db = (\<forall>r. find_entry db i = Some r \<longrightarrow> to_units a \<le> of_int (ce_Amount r))"
| "frugal _ db = True"

lemma settle_within:
  assumes inv: "cost_inv db" "cost_inv (update_entry g i db1)" and w: "within_ceilings db"
    and r: "find_entry db i = Some r" "ce_State r \<in> {StateReserved, StateIncurred}"
    and m: "ceilings db1 \<subseteq> ceilings db" "db_entries db1 = db_entries db"
    and g: "ce_ID (g r) = ce_ID r" "ce_BudgetID (g r) = ce_BudgetID r"
      "ce_Amount (g r) \<le> ce_Amount r" "ce_State (g r) = StateReleased \<longrightarrow> 0 \<le> ce_Amount r"
      "ce_State (g r) \<in> {StateReleased, StateIncurred, StateReconciled}"
  shows "within_ceilings (update_entry g i db1)"
proof (rule within_mono [OF inv w])
  show "ceilings (update_entry g i db1) \<subseteq> ceilings db" using m(1) by (simp add: update_entry_def)
  show "committed bid (update_entry g i db1) \<le> committed bid db" for bid
    unfolding committed_update [where g = g, OF inv(1) r(1) m(2) g(1)]
    using r(2) g by (auto simp: share_def)
qed

lemma set_reserved_same: "set_reserved x b = Some b' \<Longrightarrow> bg_ID b' = bg_ID b \<and> bg_Ceiling b' = bg_Ceiling b"
  by (auto simp: set_reserved_def split: option.splits)

lemma set_incurred_same: "set_incurred x b = Some b' \<Longrightarrow> bg_ID b' = bg_ID b \<and> bg_Ceiling b' = bg_Ceiling b"
  by (auto simp: set_incurred_def split: option.splits)

lemma Incur_within:
  assumes "cost_inv db" "within_ceilings db" "Incur e db i (Fin a) = (res, db')" "whole a"
    and "\<forall>r. find_entry db i = Some r \<longrightarrow> to_units a \<le> of_int (ce_Amount r)"
  shows "within_ceilings db'"
proof (cases "db' = db")
  case False
  then obtain r db1 amount where r: "find_entry db i = Some r" "ce_State r = StateReserved"
    and m: "move_budget db (ce_BudgetID r) (\<lambda>b. Option.bind (set_reserved (of_int (bg_Reserved b - ce_Amount r)) b)
          (set_incurred (of_int (bg_Incurred b) + to_units a))) = Some db1"
    and a: "to_col (to_units a) = Some amount"
    and db': "db' = update_entry (\<lambda>r. r\<lparr>ce_State := StateIncurred, ce_Amount := amount\<rparr>) i db1"
    using assms(3) by (auto simp: Incur_def split: if_splits option.splits)
  have "ceilings db1 \<subseteq> ceilings db" "db_entries db1 = db_entries db"
    by (rule move_ceilings [OF m];
        auto simp: bind_eq_Some_conv dest!: set_reserved_same set_incurred_same)+
  moreover have "amount \<le> ce_Amount r"
    using a assms(5) r(1) round_half_away_le by (auto simp: to_col_Some)
  ultimately show ?thesis
    using Incur_inv [OF assms(1,3,4)] r unfolding db'
    by (intro settle_within [OF assms(1) _ assms(2) r(1)]) auto
qed (use assms in simp)

lemma Release_within:
  assumes "cost_inv db" "within_ceilings db" "Release e db i = (res, db')"
  shows "within_ceilings db'"
proof (cases "db' = db")
  case False
  then obtain r db1 where r: "find_entry db i = Some r" "ce_State r = StateReserved"
    and m: "move_budget db (ce_BudgetID r) (\<lambda>b. set_reserved (of_int (bg_Reserved b - ce_Amount r)) b) = Some db1"
    and db': "db' = update_entry (\<lambda>r. r\<lparr>ce_State := StateReleased\<rparr>) i db1"
    using assms(3) by (auto simp: Release_def split: if_splits option.splits)
  have "ceilings db1 \<subseteq> ceilings db" "db_entries db1 = db_entries db"
    by (rule move_ceilings [OF m]; auto dest!: set_reserved_same)+
  moreover have "0 \<le> ce_Amount r"
    using assms(1) find_entry_Some [OF r(1)] r(2) unfolding cost_inv_def rows_ok_def by blast
  ultimately show ?thesis
    using Release_inv [OF assms(1,3)] r unfolding db'
    by (intro settle_within [OF assms(1) _ assms(2) r(1)]) auto
qed (use assms in simp)

lemma Reconcile_within:
  assumes "cost_inv db" "within_ceilings db" "Reconcile gosub e db i (Fin a) = (res, db')" "whole a"
    and "float_difference gosub" and "\<forall>r. find_entry db i = Some r \<longrightarrow> to_units a \<le> of_int (ce_Amount r)"
  shows "within_ceilings db'"
proof (cases "db' = db")
  case False
  define d where "d r = gosub a (of_int (ce_Amount r) / 10000)" for r :: cost_entry
  obtain r db1 amount where r: "find_entry db i = Some r" "ce_State r = StateIncurred"
    and m: "(if d r \<noteq> 0 then move_budget db (ce_BudgetID r) (\<lambda>b. set_incurred (of_int (bg_Incurred b) + to_units (d r)) b)
          else Some db) = Some db1"
    and a: "to_col (to_units a) = Some amount"
    and db': "db' = update_entry (\<lambda>r. r\<lparr>ce_State := StateReconciled, ce_Amount := amount\<rparr>) i db1"
    using assms(3) False by (auto simp: Reconcile_def d_def Let_def split: if_splits option.splits)
  have "ceilings db1 \<subseteq> ceilings db \<and> db_entries db1 = db_entries db"
  proof (cases "d r = 0")
    case False
    then have "move_budget db (ce_BudgetID r) (\<lambda>b. set_incurred (of_int (bg_Incurred b) + to_units (d r)) b) = Some db1"
      using m by simp
    from move_ceilings [OF this] show ?thesis using set_incurred_same by blast
  qed (use m in simp)
  moreover have "amount \<le> ce_Amount r"
    using a assms(6) r(1) round_half_away_le by (auto simp: to_col_Some)
  ultimately show ?thesis
    using Reconcile_inv [OF assms(1,3,4,5)] r unfolding db'
    by (intro settle_within [OF assms(1) _ assms(2) r(1)]) auto
qed (use assms in simp)

lemma budget_step_within:
  assumes "cost_inv db" "within_ceilings db"
  shows "0 \<le> c \<Longrightarrow> within_ceilings (snd (CreateBudget e db sc sid k p (Fin c)))"
    and "within_ceilings (snd (RaiseCeiling e db sc sid k p x))"
    and "within_ceilings (snd (RecordShadow e db sc sid x prov pv meta))"
proof -
  show "within_ceilings (snd (CreateBudget e db sc sid k p (Fin c)))" if "0 \<le> c"
    using assms(2) that round_half_away_ge [of 0 "to_units c"]
    by (auto simp: within_ceilings_def CreateBudget_def Let_def to_col_Some to_units_def
        split: sum.splits option.splits)
  show "within_ceilings (snd (RaiseCeiling e db sc sid k p x))"
  proof (cases "snd (RaiseCeiling e db sc sid k p x) = db")
    case False
    then obtain b y where b: "find_budget db sc sid k p = Some b" "of_int (bg_Ceiling b) < y"
      and db': "snd (RaiseCeiling e db sc sid k p x)
          = update_budget (\<lambda>b. b\<lparr>bg_Ceiling := round_half_away y\<rparr>) (bg_ID b) db"
      by (auto simp: RaiseCeiling_def to_col_Some split: f64.splits option.splits if_splits)
    have bb: "b \<in> set (db_budgets db)" using find_budget_Some [OF b(1)] by blast
    have "distinct (map bg_ID (db_budgets db))" using assms(1) by (simp add: cost_inv_def rows_ok_def)
    note w = update_budget_same(4) [OF this bb, of "\<lambda>b. b\<lparr>bg_Ceiling := round_half_away y\<rparr>", folded db', simplified]
    have "bg_Ceiling b \<le> round_half_away y" using b(2) by (intro round_half_away_ge) simp
    then show ?thesis using assms(2) bb unfolding within_ceilings_def w by fastforce
  qed (use assms in simp)
  show "within_ceilings (snd (RecordShadow e db sc sid x prov pv meta))"
    using assms(2) by (auto simp: within_ceilings_def RecordShadow_def Let_def
        split: f64.splits sum.splits option.splits)
qed

lemma Reserve_within:
  assumes "cost_inv db" "within_ceilings db"
  shows "within_ceilings (snd (Reserve e db sc sid k p x prov pv meta))"
proof (cases "Reserve e db sc sid k p x prov pv meta")
  case (Pair res db')
  show ?thesis
  proof (cases res)
    case (Inl err)
    then show ?thesis using Pair assms(2) by (auto dest: Reserve_fails)
  next
    case (Inr r)
    obtain a where "x = Fin a" using Pair Inr by (auto simp: Reserve_def split: f64.splits)
    then have "Reserve e db sc sid k p (Fin a) prov pv meta = (Inr r, db')" using Pair Inr by simp
    then obtain b where b: "find_budget db sc sid k p = Some b"
      and fits: "ce_Amount r \<le> bg_Ceiling b - (bg_Reserved b + bg_Incurred b)"
      and db': "db' = (update_budget (\<lambda>b. b\<lparr>bg_Reserved := bg_Reserved b + ce_Amount r\<rparr>) (bg_ID b) db)
          \<lparr>db_entries := db_entries db @ [r]\<rparr>"
      by (rule Reserve_ok [OF assms(1)])
    have bb: "b \<in> set (db_budgets db)" using find_budget_Some [OF b] by blast
    have ids: "distinct (map bg_ID (db_budgets db))" using assms(1) by (simp add: cost_inv_def rows_ok_def)
    have "set (db_budgets db') = insert (b\<lparr>bg_Reserved := bg_Reserved b + ce_Amount r\<rparr>) (set (db_budgets db) - {b})"
      unfolding db' using update_budget_same(4) [OF ids bb, of "\<lambda>b. b\<lparr>bg_Reserved := bg_Reserved b + ce_Amount r\<rparr>"] by simp
    then show ?thesis using Pair assms(2) fits unfolding within_ceilings_def by auto
  qed
qed

lemma cost_step_within:
  assumes "cost_inv db" "within_ceilings db" "whole_op op" "frugal op db" "float_difference gosub"
  shows "within_ceilings (cost_step gosub op db)"
proof (cases op)
  case (OpCreate e sc sid k p c)
  then show ?thesis
    using assms budget_step_within(1) by (cases c) (auto simp: CreateBudget_def)
next
  case (OpIncur e i a)
  then show ?thesis
    using assms Incur_within [OF assms(1,2) surjective_pairing] by (cases a) (auto simp: Incur_def)
next
  case (OpReconcile e i a)
  then show ?thesis
    using assms Reconcile_within [OF assms(1,2) surjective_pairing] by (cases a) (auto simp: Reconcile_def)
qed (simp_all add: budget_step_within(2,3) [OF assms(1,2)] Reserve_within [OF assms(1,2)]
    Release_within [OF assms(1,2) surjective_pairing])

inductive frugal_run :: "(rat \<Rightarrow> rat \<Rightarrow> rat) \<Rightarrow> cost_db \<Rightarrow> bool" for gosub where
  start: "frugal_run gosub empty_db"
| step: "frugal_run gosub db \<Longrightarrow> whole_op op \<Longrightarrow> frugal op db \<Longrightarrow> frugal_run gosub (cost_step gosub op db)"

text \<open>
  C35: Spend stays under the ceiling. As long as no observed amount is higher than the amount its
  entry stands for, no sequence of ledger calls takes the reserved and incurred totals of an
  envelope, together, above its ceiling.
\<close>

theorem cost_never_over_ceiling:
  assumes "frugal_run gosub db" and "float_difference gosub"
  shows "\<forall>b \<in> set (db_budgets db). bg_Reserved b + bg_Incurred b \<le> bg_Ceiling b"
proof -
  have "cost_inv db \<and> within_ceilings db"
    using assms
  proof (induction rule: frugal_run.induct)
    case start
    then show ?case by (simp add: empty_db_inv) (simp add: within_ceilings_def empty_db_def)
  next
    case (step db op)
    then show ?case using cost_step_inv cost_step_within by blast
  qed
  then show ?thesis by (simp add: within_ceilings_def)
qed

definition frugal_db :: cost_db where
  "frugal_db = cost_step (-) (OpReserve (cost_env_of ''2'') ScopeMission ''m'' KindMissionMonthly ''2025-01'' (Fin 4) ''p'' ''v1'' (Some ''{}''))
     (cost_step (-) (OpCreate (cost_env_of ''1'') ScopeMission ''m'' KindMissionMonthly ''2025-01'' (Fin 10)) empty_db)"

theorem cost_never_over_ceiling_witness:
  "map bg_Reserved (db_budgets frugal_db) = [40000] \<and>
   bg_Reserved (hd (db_budgets frugal_db)) + bg_Incurred (hd (db_budgets frugal_db)) \<le> bg_Ceiling (hd (db_budgets frugal_db))"
proof
  show res: "map bg_Reserved (db_budgets frugal_db) = [40000]"
    by (simp add: frugal_db_def empty_db_def CreateBudget_def Reserve_def cost_env_of_def newID_def
        to_col_def to_units_def scope_check_def kind_check_def find_budget_def is_key_def update_budget_def Let_def)
  have "frugal_run (-) frugal_db"
    unfolding frugal_db_def by (intro frugal_run.intros) simp_all
  then have "\<forall>b \<in> set (db_budgets frugal_db). bg_Reserved b + bg_Incurred b \<le> bg_Ceiling b"
    by (rule cost_never_over_ceiling) (simp add: float_difference_def)
  then show "bg_Reserved (hd (db_budgets frugal_db)) + bg_Incurred (hd (db_budgets frugal_db))
      \<le> bg_Ceiling (hd (db_budgets frugal_db))"
    using res by (cases "db_budgets frugal_db") simp_all
qed

section \<open>The kernel activity ReserveBudget\<close>

record reserve_in =
  ri_WorkflowID :: string
  ri_TaskID :: string
  ri_ExecutorName :: string
  ri_Attempt :: int
  ri_MissionID :: string
  ri_Unattended :: bool
  ri_EnvelopeDigest :: string
  ri_BudgetScope :: string
  ri_BudgetScopeID :: string

record reserve_out =
  ro_EntryID :: string
  ro_Exhausted :: bool
  ro_Shadow :: bool
  ro_Refused :: bool
  ro_Classification :: string

definition zero_reserve_out :: reserve_out where
  "zero_reserve_out = \<lparr>ro_EntryID = [], ro_Exhausted = False, ro_Shadow = False, ro_Refused = False, ro_Classification = []\<rparr>"

definition isSubscriptionExecutor :: "string \<Rightarrow> bool" where
  "isSubscriptionExecutor name = (name = ''claudecode'')"

definition costPricingVersion :: string where
  "costPricingVersion = ''v1''"

definition reserve_scope :: "reserve_in \<Rightarrow> scope \<times> string" where
  "reserve_scope i =
     (let (scope, scopeID) = (if ri_MissionID i \<noteq> [] then (ScopeMission, ri_MissionID i) else (ScopeWorkflow, ri_WorkflowID i)) in
      if ri_BudgetScopeID i \<noteq> [] then
        (if ri_BudgetScope i = ''mission'' then ScopeMission
         else if ri_BudgetScope i = ''session'' then ScopeSession
         else if ri_BudgetScope i = ''workflow'' then ScopeWorkflow
         else if ri_MissionID i \<noteq> [] \<or> ri_BudgetScope i = [] then ScopeMission
         else scope, ri_BudgetScopeID i)
      else (scope, scopeID))"

definition reserve_meta :: "reserve_in \<Rightarrow> (string \<times> string) list" where
  "reserve_meta i =
     (''task_id'', ri_TaskID i) # (if ri_EnvelopeDigest i \<noteq> [] then [(''envelope_digest'', ri_EnvelopeDigest i)] else [])"

datatype reserve_error = RecordShadowFailed cost_error | ReserveFailed cost_error

type_synonym 's reserve_fn =
  "cost_env \<Rightarrow> 's \<Rightarrow> scope \<Rightarrow> string \<Rightarrow> budget_kind \<Rightarrow> string \<Rightarrow> f64 \<Rightarrow> string \<Rightarrow> string \<Rightarrow> string option
     \<Rightarrow> (cost_error + cost_entry) \<times> 's"

type_synonym 's shadow_fn =
  "cost_env \<Rightarrow> 's \<Rightarrow> scope \<Rightarrow> string \<Rightarrow> f64 \<Rightarrow> string \<Rightarrow> string \<Rightarrow> string option \<Rightarrow> (cost_error + cost_entry) \<times> 's"

text \<open>
  The body of the activity. \<open>marshal_meta\<close> is \<open>json.Marshal\<close> of the metadata map, \<open>period\<close> the
  calendar month of the call, \<open>amountUSD\<close> the configured default estimate.
\<close>

definition reserve_budget_body ::
  "'s reserve_fn \<Rightarrow> 's shadow_fn \<Rightarrow> ((string \<times> string) list \<Rightarrow> string option) \<Rightarrow> f64 \<Rightarrow> cost_env \<Rightarrow> string
     \<Rightarrow> reserve_in \<Rightarrow> 's \<Rightarrow> (reserve_error + reserve_out) \<times> 's" where
  "reserve_budget_body reserve shadow marshal_meta amountUSD e period i s =
     (let meta = marshal_meta (reserve_meta i); (scope, scopeID) = reserve_scope i in
      if isSubscriptionExecutor (ri_ExecutorName i) then
        (case shadow e s scope scopeID amountUSD (ri_ExecutorName i) costPricingVersion meta of
           (Inl err, s') \<Rightarrow> (Inl (RecordShadowFailed err), s')
         | (Inr entry, s') \<Rightarrow> (Inr (zero_reserve_out\<lparr>ro_EntryID := ce_ID entry, ro_Shadow := True\<rparr>), s'))
      else
        (case reserve e s scope scopeID KindMissionMonthly period amountUSD (ri_ExecutorName i) costPricingVersion meta of
           (Inl ErrBudgetExhausted, s') \<Rightarrow> (Inr (zero_reserve_out\<lparr>ro_Exhausted := True\<rparr>), s')
         | (Inl ErrBudgetNotFound, s') \<Rightarrow>
             (if ri_Unattended i then
                (Inr (zero_reserve_out\<lparr>ro_Refused := True, ro_Classification := ''budget-envelope-absent''\<rparr>), s')
              else (Inr zero_reserve_out, s'))
         | (Inl err, s') \<Rightarrow> (Inl (ReserveFailed err), s')
         | (Inr entry, s') \<Rightarrow> (Inr (zero_reserve_out\<lparr>ro_EntryID := ce_ID entry\<rparr>), s')))"

definition ReserveBudget ::
  "(receipt_env \<Rightarrow> 'r \<Rightarrow> string \<Rightarrow> store_error + string option)
     \<Rightarrow> (receipt_env \<Rightarrow> 'r \<Rightarrow> string \<Rightarrow> string \<Rightarrow> store_error option \<times> 'r)
     \<Rightarrow> (reserve_out \<Rightarrow> string option) \<Rightarrow> (string \<Rightarrow> reserve_out option)
     \<Rightarrow> 's reserve_fn \<Rightarrow> 's shadow_fn \<Rightarrow> ((string \<times> string) list \<Rightarrow> string option) \<Rightarrow> f64
     \<Rightarrow> receipt_env \<Rightarrow> cost_env \<Rightarrow> string \<Rightarrow> reserve_in \<Rightarrow> 'r \<times> 's
     \<Rightarrow> (reserve_error receipt_error + reserve_out) \<times> 'r \<times> 's" where
  "ReserveBudget get put marshal unmarshal reserve shadow marshal_meta amountUSD re e period i =
     withReceipt get put marshal unmarshal re
       (IdempotencyKey_String \<lparr>ik_WorkflowID = ri_WorkflowID i, ik_TaskID = ri_TaskID i,
          ik_Activity = ''ReserveBudget'', ik_Attempt = ri_Attempt i\<rparr>)
       (reserve_budget_body reserve shadow marshal_meta amountUSD e period i)"

text \<open>
  The interface \<open>BudgetStore\<close>. \<open>headroom\<close> is what is left of an envelope, \<^const>\<open>None\<close> when there
  is none. A granted reservation leaves the headroom at zero or more; a refused one leaves the
  store as it is, and tells a missing envelope from an exhausted one.
\<close>

locale budget_store =
  fixes reserve :: "'s reserve_fn" and shadow :: "'s shadow_fn"
    and headroom :: "'s \<Rightarrow> scope \<Rightarrow> string \<Rightarrow> budget_kind \<Rightarrow> string \<Rightarrow> int option"
    and inv :: "'s \<Rightarrow> bool"
  assumes reserve_granted: "inv s \<Longrightarrow> reserve e s sc sid k p a prov pv meta = (Inr r, s') \<Longrightarrow>
      \<exists>h h'. headroom s sc sid k p = Some h \<and> headroom s' sc sid k p = Some h' \<and> 0 \<le> h' \<and> h' = h - ce_Amount r
        \<and> 0 \<le> ce_Amount r \<and> inv s'"
    and reserve_refused: "reserve e s sc sid k p a prov pv meta = (Inl err, s') \<Longrightarrow>
      s' = s \<and> (err = ErrBudgetNotFound \<longrightarrow> headroom s sc sid k p = None)
      \<and> (err = ErrBudgetExhausted \<longrightarrow> headroom s sc sid k p \<noteq> None)"
    and shadow_neutral: "inv s \<Longrightarrow> shadow e s sc sid a prov pv meta = (res, s') \<Longrightarrow>
      headroom s' = headroom s \<and> inv s'"
begin

text \<open>When a task of a metered executor may go on, and its envelope is provisioned or demanded.\<close>

lemma may_execute_covered:
  assumes "inv s" and "reserve_budget_body reserve shadow marshal_meta amountUSD e period i s = (Inr out, s')"
    and "\<not> ro_Exhausted out" "\<not> ro_Refused out" "\<not> isSubscriptionExecutor (ri_ExecutorName i)"
    and "reserve_scope i = (sc, sid)"
    and "ri_Unattended i \<or> headroom s sc sid KindMissionMonthly period \<noteq> None"
  shows "\<exists>h h'. headroom s sc sid KindMissionMonthly period = Some h
    \<and> headroom s' sc sid KindMissionMonthly period = Some h' \<and> 0 \<le> h' \<and> h' \<le> h"
proof -
  obtain res s1 where r: "reserve e s sc sid KindMissionMonthly period amountUSD (ri_ExecutorName i)
      costPricingVersion (marshal_meta (reserve_meta i)) = (res, s1)" by fastforce
  show ?thesis
  proof (cases res)
    case (Inl err)
    then show ?thesis
      using assms(2-7) r reserve_refused [OF r [unfolded Inl]]
      by (cases err) (auto simp: reserve_budget_body_def zero_reserve_out_def split: if_splits)
  next
    case (Inr entry)
    then show ?thesis
      using assms(2,5,6) r reserve_granted [OF assms(1) r [unfolded Inr]]
      by (auto simp: reserve_budget_body_def)
  qed
qed

end

definition envelope_headroom :: "cost_db \<Rightarrow> scope \<Rightarrow> string \<Rightarrow> budget_kind \<Rightarrow> string \<Rightarrow> int option" where
  "envelope_headroom db sc sid k p =
     map_option (\<lambda>b. bg_Ceiling b - (bg_Reserved b + bg_Incurred b)) (find_budget db sc sid k p)"

lemma find_after_reserve:
  assumes "distinct (map budget_key (db_budgets db))" and "find_budget db sc sid k p = Some b"
  shows "find_budget (update_budget (\<lambda>b. b\<lparr>bg_Reserved := bg_Reserved b + n\<rparr>) (bg_ID b) db) sc sid k p
    = Some (b\<lparr>bg_Reserved := bg_Reserved b + n\<rparr>)"
proof -
  have key: "is_key sc sid k p (if bg_ID c = bg_ID b then c\<lparr>bg_Reserved := bg_Reserved c + n\<rparr> else c)
      = is_key sc sid k p c" for c by (simp add: is_key_def)
  show ?thesis using assms(2) by (simp add: find_budget_def update_budget_def find_map_list key)
qed

interpretation pg_budget: budget_store Reserve RecordShadow envelope_headroom cost_inv
proof
  fix e s sc sid k p a prov pv meta r s'
  assume inv: "cost_inv s" and res: "Reserve e s sc sid k p a prov pv meta = (Inr r, s')"
  obtain x where "a = Fin x" using res by (auto simp: Reserve_def split: f64.splits)
  then have "Reserve e s sc sid k p (Fin x) prov pv meta = (Inr r, s')" using res by simp
  then obtain b where b: "find_budget s sc sid k p = Some b" "0 \<le> ce_Amount r"
    "ce_Amount r \<le> bg_Ceiling b - (bg_Reserved b + bg_Incurred b)"
    and s': "s' = (update_budget (\<lambda>b. b\<lparr>bg_Reserved := bg_Reserved b + ce_Amount r\<rparr>) (bg_ID b) s)
        \<lparr>db_entries := db_entries s @ [r]\<rparr>"
    by (rule Reserve_ok [OF inv])
  have "distinct (map budget_key (db_budgets s))" using inv by (simp add: cost_inv_def rows_ok_def)
  from find_after_reserve [OF this b(1)] s'
  have "find_budget s' sc sid k p = Some (b\<lparr>bg_Reserved := bg_Reserved b + ce_Amount r\<rparr>)"
    by (simp add: find_budget_def)
  then show "\<exists>h h'. envelope_headroom s sc sid k p = Some h \<and> envelope_headroom s' sc sid k p = Some h'
      \<and> 0 \<le> h' \<and> h' = h - ce_Amount r \<and> 0 \<le> ce_Amount r \<and> cost_inv s'"
    using b Reserve_inv [OF inv res] by (simp add: envelope_headroom_def)
next
  fix e s sc sid k p a prov pv meta err s'
  assume "Reserve e s sc sid k p a prov pv meta = (Inl err, s')"
  then show "s' = s \<and> (err = ErrBudgetNotFound \<longrightarrow> envelope_headroom s sc sid k p = None)
      \<and> (err = ErrBudgetExhausted \<longrightarrow> envelope_headroom s sc sid k p \<noteq> None)"
    by (auto simp: Reserve_def envelope_headroom_def newID_def Let_def split: f64.splits sum.splits option.splits if_splits)
next
  fix e s sc sid a prov pv meta res s'
  assume "cost_inv s" and res: "RecordShadow e s sc sid a prov pv meta = (res, s')"
  have "db_budgets s' = db_budgets s"
    using res by (auto simp: RecordShadow_def Let_def split: f64.splits sum.splits option.splits if_splits)
  then show "envelope_headroom s' = envelope_headroom s \<and> cost_inv s'"
    using RecordShadow_inv [OF \<open>cost_inv s\<close> res] by (simp add: envelope_headroom_def find_budget_def fun_eq_iff)
qed

text \<open>
  No unmetered unattended work. When \<open>ReserveBudget\<close> lets an unattended task of a metered
  executor go on, the envelope of its scope exists, its headroom covered the reservation,
  and it is not negative afterwards. The same holds for attended tasks wherever an envelope
  is provisioned.
\<close>

theorem ReserveBudget_covered:
  assumes "cost_inv db"
    and "reserve_budget_body Reserve RecordShadow marshal_meta amountUSD e period i db = (Inr out, db')"
    and "\<not> ro_Exhausted out" "\<not> ro_Refused out" "\<not> isSubscriptionExecutor (ri_ExecutorName i)"
    and "reserve_scope i = (sc, sid)"
    and "ri_Unattended i \<or> envelope_headroom db sc sid KindMissionMonthly period \<noteq> None"
  shows "\<exists>h h'. envelope_headroom db sc sid KindMissionMonthly period = Some h
    \<and> envelope_headroom db' sc sid KindMissionMonthly period = Some h' \<and> 0 \<le> h' \<and> h' \<le> h"
  using assms by (rule pg_budget.may_execute_covered)

definition sample_reserve_in :: reserve_in where
  "sample_reserve_in =
     \<lparr>ri_WorkflowID = ''w'', ri_TaskID = ''t'', ri_ExecutorName = ''openai'', ri_Attempt = 1, ri_MissionID = ''m'',
      ri_Unattended = True, ri_EnvelopeDigest = [], ri_BudgetScope = [], ri_BudgetScopeID = []\<rparr>"

lemma frugal_db_inv: "cost_inv frugal_db"
  unfolding frugal_db_def by (intro cost_step_inv empty_db_inv) (simp_all add: float_difference_def)

theorem ReserveBudget_covered_witness:
  "\<exists>out db'. reserve_budget_body Reserve RecordShadow (\<lambda>_. Some ''{}'') (Fin 2) (cost_env_of ''9'') ''2025-01''
      sample_reserve_in frugal_db = (Inr out, db') \<and> \<not> ro_Refused out
    \<and> (\<exists>h h'. envelope_headroom frugal_db ScopeMission ''m'' KindMissionMonthly ''2025-01'' = Some h
        \<and> envelope_headroom db' ScopeMission ''m'' KindMissionMonthly ''2025-01'' = Some h' \<and> 0 \<le> h' \<and> h' \<le> h)"
proof -
  have "\<exists>out db'. reserve_budget_body Reserve RecordShadow (\<lambda>_. Some ''{}'') (Fin 2) (cost_env_of ''9'') ''2025-01''
      sample_reserve_in frugal_db = (Inr out, db') \<and> \<not> ro_Exhausted out \<and> \<not> ro_Refused out"
    by (simp add: reserve_budget_body_def sample_reserve_in_def reserve_scope_def isSubscriptionExecutor_def
        zero_reserve_out_def frugal_db_def empty_db_def CreateBudget_def Reserve_def cost_env_of_def newID_def
        to_col_def to_units_def scope_check_def kind_check_def find_budget_def is_key_def update_budget_def Let_def)
  then obtain out db' where r: "reserve_budget_body Reserve RecordShadow (\<lambda>_. Some ''{}'') (Fin 2) (cost_env_of ''9'')
      ''2025-01'' sample_reserve_in frugal_db = (Inr out, db')" "\<not> ro_Exhausted out" "\<not> ro_Refused out"
    by blast
  have "reserve_scope sample_reserve_in = (ScopeMission, ''m'')"
    by (simp add: reserve_scope_def sample_reserve_in_def)
  from ReserveBudget_covered [OF frugal_db_inv r _ this] r show ?thesis
    by (simp add: sample_reserve_in_def isSubscriptionExecutor_def)
qed

section \<open>The freeze gate counts unreconciled usage\<close>

datatype gate_op = MissingUsage string string string | Reconciled string

fun gate_step :: "gate_op \<Rightarrow> freeze_gate \<Rightarrow> freeze_gate" where
  "gate_step (MissingUsage p i err) g = snd (RecordMissingUsage g p i err)"
| "gate_step (Reconciled p) g = ClearAfterReconcile g p"

text \<open>The missing-usage records of a profile since it was last reconciled.\<close>

fun backlog :: "string \<Rightarrow> gate_op list \<Rightarrow> int \<Rightarrow> int" where
  "backlog p [] n = n"
| "backlog p (MissingUsage q i err # ops) n = backlog p ops (if q = p then n + 1 else n)"
| "backlog p (Reconciled q # ops) n = backlog p ops (if q = p then 0 else n)"

lemma gate_history:
  assumes "0 < fg_threshold g" and "fg_frozen g p = (fg_threshold g \<le> fg_counts g p)"
  shows "fg_frozen (fold gate_step ops g) p = (fg_threshold g \<le> backlog p ops (fg_counts g p))"
  using assms
proof (induction ops arbitrary: g)
  case (Cons op ops)
  then show ?case
    by (cases op) (auto simp: RecordMissingUsage_def ClearAfterReconcile_def Let_def)
qed simp

text \<open>
  The freeze gate refuses an unattended reservation of a profile exactly when the profile
  has had at least the threshold's number of missing-usage records since it was last
  reconciled, whatever happens to other profiles.
\<close>

theorem FreezeGate_exact:
  "AllowUnattendedReserve (fold gate_step ops (NewFreezeGate t)) p = None \<longleftrightarrow> backlog p ops 0 < max t 1"
proof -
  have "fg_frozen (fold gate_step ops (NewFreezeGate t)) p = (max t 1 \<le> backlog p ops 0)"
  proof -
    have "fg_threshold (NewFreezeGate t) = max t 1" by (auto simp: NewFreezeGate_def)
    then show ?thesis using gate_history [of "NewFreezeGate t" p ops] by (simp add: NewFreezeGate_def)
  qed
  then show ?thesis by (auto simp: AllowUnattendedReserve_def)
qed

end
