(* ===== verification/Ext_Ops.thy ===== *)
theory Ext_Ops
  imports Prelude
begin

text \<open>
  The external-operation ledger: the store of \<open>internal/ledger/extops/store.go\<close> over the table
  \<open>external_operations\<close> of migration \<open>00006\<close>, the reconciler of \<open>internal/ledger/reconcile.go\<close>
  and the kernel's guard for side effects, \<open>WithExternalOp\<close> in \<open>internal/kernel/externalop.go\<close>.
  The store interface that the guard uses is a locale with the Postgres store as its
  instance. JSON is a parameter: \<open>jsonb\<close> is the normal form in which the database returns
  a document, \<open>json_value\<close> the decoded value of a text.
\<close>

section \<open>Operations\<close>

datatype extop_state = OpReserved | OpExecuted | OpReconciled | OpFailed

record ext_op =
  eo_ID :: string
  eo_WorkflowID :: string
  eo_Kind :: string
  eo_Target :: string
  eo_IdempotencyKey :: string
  eo_State :: extop_state
  eo_Request :: string
  eo_Receipt :: "string option"
  eo_CreatedAt :: int
  eo_UpdatedAt :: int

datatype extop_error =
    ErrOpNotFound | ErrOpNotReserved | ErrOpNotExecuted | ErrMarshalJSON | ErrNewOpID | ErrOpDB

text \<open>The environment of a call: the random id, the clock of the database, a fault of the database.\<close>

record extop_env =
  ex_hex :: "string option"
  ex_now :: int
  ex_fault :: bool

type_synonym extop_table = "ext_op list"

definition find_op :: "extop_table \<Rightarrow> string \<Rightarrow> ext_op option" where
  "find_op tbl opid = find (\<lambda>o1. eo_ID o1 = opid) tbl"

definition getByKey :: "extop_table \<Rightarrow> string \<Rightarrow> ext_op option" where
  "getByKey tbl key = find (\<lambda>o1. eo_IdempotencyKey o1 = key) tbl"

text \<open>\<open>request\<close> and \<open>receipt\<close> are the marshalled arguments, \<^const>\<open>None\<close> for an error of \<open>json.Marshal\<close>.\<close>

definition extops_Reserve ::
  "(string \<Rightarrow> string option) \<Rightarrow> extop_env \<Rightarrow> extop_table \<Rightarrow> string \<Rightarrow> string \<Rightarrow> string \<Rightarrow> string \<Rightarrow> string option
     \<Rightarrow> (extop_error + ext_op) \<times> extop_table" where
  "extops_Reserve jsonb e tbl workflowID kind target idempotencyKey request =
     (case request of
        None \<Rightarrow> (Inl ErrMarshalJSON, tbl)
      | Some payload \<Rightarrow>
          (case ex_hex e of
             None \<Rightarrow> (Inl ErrNewOpID, tbl)
           | Some opid \<Rightarrow>
               (case jsonb payload of
                  None \<Rightarrow> (Inl ErrOpDB, tbl)
                | Some doc \<Rightarrow>
                    if ex_fault e then (Inl ErrOpDB, tbl)
                    else
                      (case getByKey tbl idempotencyKey of
                         Some existing \<Rightarrow> (Inr existing, tbl)
                       | None \<Rightarrow>
                           if opid \<in> eo_ID ` set tbl then (Inl ErrOpDB, tbl)
                           else
                             (let op = \<lparr>eo_ID = opid, eo_WorkflowID = workflowID, eo_Kind = kind, eo_Target = target,
                                eo_IdempotencyKey = idempotencyKey, eo_State = OpReserved, eo_Request = doc,
                                eo_Receipt = None, eo_CreatedAt = ex_now e, eo_UpdatedAt = ex_now e\<rparr> in
                              (Inr op, tbl @ [op]))))))"

definition extops_Get :: "extop_env \<Rightarrow> extop_table \<Rightarrow> string \<Rightarrow> extop_error + ext_op" where
  "extops_Get e tbl opid =
     (if ex_fault e then Inl ErrOpDB
      else (case find_op tbl opid of None \<Rightarrow> Inl ErrOpNotFound | Some op \<Rightarrow> Inr op))"

definition update_op :: "(ext_op \<Rightarrow> ext_op) \<Rightarrow> string \<Rightarrow> extop_table \<Rightarrow> extop_table" where
  "update_op f opid tbl = map (\<lambda>o1. if eo_ID o1 = opid then f o1 else o1) tbl"

definition extops_MarkExecuted ::
  "(string \<Rightarrow> string option) \<Rightarrow> extop_env \<Rightarrow> extop_table \<Rightarrow> string \<Rightarrow> string option
     \<Rightarrow> (extop_error + ext_op) \<times> extop_table" where
  "extops_MarkExecuted jsonb e tbl opid receipt =
     (case receipt of
        None \<Rightarrow> (Inl ErrMarshalJSON, tbl)
      | Some payload \<Rightarrow>
          (case jsonb payload of
             None \<Rightarrow> (Inl ErrOpDB, tbl)
           | Some doc \<Rightarrow>
               if ex_fault e then (Inl ErrOpDB, tbl)
               else
                 (case find_op tbl opid of
                    None \<Rightarrow> (Inl ErrOpNotFound, tbl)
                  | Some op \<Rightarrow>
                      if eo_State op = OpReserved then
                        (let f = (\<lambda>o1. o1\<lparr>eo_State := OpExecuted, eo_Receipt := Some doc, eo_UpdatedAt := ex_now e\<rparr>) in
                         (Inr (f op), update_op f opid tbl))
                      else (Inl ErrOpNotReserved, tbl))))"

text \<open>A missing receipt is the empty message.\<close>

definition jsonEqual :: "(string \<Rightarrow> 'j option) \<Rightarrow> string \<Rightarrow> string \<Rightarrow> bool" where
  "jsonEqual json_value a b =
     (if a = [] \<and> b = [] then True
      else (case json_value a of
              None \<Rightarrow> False
            | Some av \<Rightarrow> (case json_value b of None \<Rightarrow> False | Some bv \<Rightarrow> av = bv)))"

definition extops_Reconcile ::
  "(string \<Rightarrow> 'j option) \<Rightarrow> extop_env \<Rightarrow> extop_table \<Rightarrow> string \<Rightarrow> string \<Rightarrow> (extop_error + bool) \<times> extop_table" where
  "extops_Reconcile json_value e tbl opid observed =
     (if ex_fault e then (Inl ErrOpDB, tbl)
      else
        (case find_op tbl opid of
           None \<Rightarrow> (Inl ErrOpNotFound, tbl)
         | Some op \<Rightarrow>
             if eo_State op = OpExecuted then
               (Inr (\<not> jsonEqual json_value (case eo_Receipt op of None \<Rightarrow> [] | Some r \<Rightarrow> r) observed),
                update_op (\<lambda>o1. o1\<lparr>eo_State := OpReconciled, eo_UpdatedAt := ex_now e\<rparr>) opid tbl)
             else (Inl ErrOpNotExecuted, tbl)))"

text \<open>\<open>ORDER BY created_at LIMIT\<close>; a negative limit is an error of the database.\<close>

definition extops_ListByState ::
  "extop_env \<Rightarrow> extop_table \<Rightarrow> extop_state \<Rightarrow> int \<Rightarrow> extop_error + ext_op list" where
  "extops_ListByState e tbl st limit =
     (if ex_fault e \<or> limit < 0 then Inl ErrOpDB
      else Inr (take (nat limit) (sort_key eo_CreatedAt (filter (\<lambda>o1. eo_State o1 = st) tbl))))"

section \<open>The reconciler\<close>

datatype reconcile_error =
    ListFailed extop_error | ObserveFailed string string | ReconcileFailed string extop_error

text \<open>
  \<open>Reconciler.RunOnce\<close> over the listed operations: the registered probers are a map from
  operation kinds to observations; the last component counts divergences.
\<close>

fun reconcile_ops ::
  "(string \<Rightarrow> 'j option) \<Rightarrow> (string \<rightharpoonup> (ext_op \<Rightarrow> string option)) \<Rightarrow> extop_env \<Rightarrow> ext_op list \<Rightarrow> extop_table
     \<Rightarrow> reconcile_error option \<times> extop_table \<times> nat" where
  "reconcile_ops json_value probers e [] tbl = (None, tbl, 0)"
| "reconcile_ops json_value probers e (op # ops) tbl =
     (case probers (eo_Kind op) of
        None \<Rightarrow> reconcile_ops json_value probers e ops tbl
      | Some observe \<Rightarrow>
          (case observe op of
             None \<Rightarrow> (Some (ObserveFailed (eo_ID op) (eo_Kind op)), tbl, 0)
           | Some observed \<Rightarrow>
               (case extops_Reconcile json_value e tbl (eo_ID op) observed of
                  (Inl err, tbl') \<Rightarrow> (Some (ReconcileFailed (eo_ID op) err), tbl', 0)
                | (Inr diverged, tbl') \<Rightarrow>
                    (let (err, tbl'', n) = reconcile_ops json_value probers e ops tbl' in
                     (err, tbl'', if diverged then Suc n else n)))))"

definition Reconciler_RunOnce ::
  "(string \<Rightarrow> 'j option) \<Rightarrow> (string \<rightharpoonup> (ext_op \<Rightarrow> string option)) \<Rightarrow> extop_env \<Rightarrow> extop_table \<Rightarrow> int
     \<Rightarrow> reconcile_error option \<times> extop_table \<times> nat" where
  "Reconciler_RunOnce json_value probers e tbl limit =
     (case extops_ListByState e tbl OpExecuted limit of
        Inl err \<Rightarrow> (Some (ListFailed err), tbl, 0)
      | Inr ops \<Rightarrow> reconcile_ops json_value probers e ops tbl)"

section \<open>The guard of side effects\<close>

datatype 'e guard_error =
    ReserveOpFailed extop_error | DecodeOpReceipt string | SideEffectFailed 'e | MarkOpFailed extop_error

type_synonym 's reserve_op_fn =
  "extop_env \<Rightarrow> 's \<Rightarrow> string \<Rightarrow> string \<Rightarrow> string \<Rightarrow> string \<Rightarrow> string option \<Rightarrow> (extop_error + ext_op) \<times> 's"

type_synonym 's mark_op_fn =
  "extop_env \<Rightarrow> 's \<Rightarrow> string \<Rightarrow> string option \<Rightarrow> (extop_error + ext_op) \<times> 's"

text \<open>
  \<open>WithExternalOp\<close>. The two statements have environments of their own, since a process can die
  or lose its database between them. \<open>fn\<close> acts on the outside world \<^typ>\<open>'w\<close>.
\<close>

definition WithExternalOp ::
  "'s reserve_op_fn \<Rightarrow> 's mark_op_fn \<Rightarrow> ('a \<Rightarrow> string option) \<Rightarrow> (string \<Rightarrow> 'a option)
     \<Rightarrow> extop_env \<Rightarrow> extop_env \<Rightarrow> string \<Rightarrow> string \<Rightarrow> string \<Rightarrow> string \<Rightarrow> string option
     \<Rightarrow> ('w \<Rightarrow> ('e + 'a) \<times> 'w) \<Rightarrow> 's \<times> 'w \<Rightarrow> ('e guard_error + 'a) \<times> 's \<times> 'w" where
  "WithExternalOp reserve mark marshal unmarshal e1 e2 workflowID kind target key request fn sw =
     (case sw of (s, w) \<Rightarrow>
        case reserve e1 s workflowID kind target key request of
          (Inl err, s1) \<Rightarrow> (Inl (ReserveOpFailed err), s1, w)
        | (Inr op, s1) \<Rightarrow>
            if eo_State op = OpExecuted \<or> eo_State op = OpReconciled then
              (case unmarshal (case eo_Receipt op of None \<Rightarrow> [] | Some r \<Rightarrow> r) of
                 None \<Rightarrow> (Inl (DecodeOpReceipt key), s1, w)
               | Some receipt \<Rightarrow> (Inr receipt, s1, w))
            else
              (case fn w of
                 (Inl err, w1) \<Rightarrow> (Inl (SideEffectFailed err), s1, w1)
               | (Inr result, w1) \<Rightarrow>
                   (case mark e2 s1 (eo_ID op) (marshal result) of
                      (Inl err, s2) \<Rightarrow> (Inl (MarkOpFailed err), s2, w1)
                    | (Inr _, s2) \<Rightarrow> (Inr result, s2, w1))))"

section \<open>Histories\<close>

datatype ('w, 'e, 'a) guard_call =
    GuardCall extop_env extop_env string string string string "string option" "'w \<Rightarrow> ('e + 'a) \<times> 'w"
  | ReconcileCall extop_env string string

fun guard_history ::
  "'s reserve_op_fn \<Rightarrow> 's mark_op_fn \<Rightarrow> (extop_env \<Rightarrow> 's \<Rightarrow> string \<Rightarrow> string \<Rightarrow> (extop_error + bool) \<times> 's)
     \<Rightarrow> ('a \<Rightarrow> string option) \<Rightarrow> (string \<Rightarrow> 'a option) \<Rightarrow> ('w, 'e, 'a) guard_call list \<Rightarrow> 's \<times> 'w \<Rightarrow> 's \<times> 'w" where
  "guard_history reserve mark recon marshal unmarshal [] sw = sw"
| "guard_history reserve mark recon marshal unmarshal (GuardCall e1 e2 wid kind target key request fn # calls) sw =
     guard_history reserve mark recon marshal unmarshal calls
       (snd (WithExternalOp reserve mark marshal unmarshal e1 e2 wid kind target key request fn sw))"
| "guard_history reserve mark recon marshal unmarshal (ReconcileCall e opid observed # calls) sw =
     guard_history reserve mark recon marshal unmarshal calls (snd (recon e (fst sw) opid observed), snd sw)"

section \<open>The store interface\<close>

definition op_settled :: "ext_op option \<Rightarrow> string \<Rightarrow> bool" where
  "op_settled slot r \<longleftrightarrow> (\<exists>op. slot = Some op \<and> eo_State op \<in> {OpExecuted, OpReconciled} \<and> eo_Receipt op = Some r)"

text \<open>
  \<open>slot\<close> is the row under an idempotency key. A reservation returns the row that is there or a
  new reserved one; a mark settles the row it names, if it was reserved; a reconciliation
  keeps settled rows settled, under the same receipt.
\<close>

locale extop_store =
  fixes reserve :: "'s reserve_op_fn" and mark :: "'s mark_op_fn"
    and recon :: "extop_env \<Rightarrow> 's \<Rightarrow> string \<Rightarrow> string \<Rightarrow> (extop_error + bool) \<times> 's"
    and slot :: "'s \<Rightarrow> string \<Rightarrow> ext_op option" and stored :: "string \<Rightarrow> string option" and inv :: "'s \<Rightarrow> bool"
  assumes reserve_ok: "inv s \<Longrightarrow> reserve e s wid kind target key request = (Inr op, s') \<Longrightarrow>
      inv s' \<and> slot s' key = Some op \<and> (\<forall>k. k \<noteq> key \<longrightarrow> slot s' k = slot s k)
      \<and> (case slot s key of Some o1 \<Rightarrow> op = o1 | None \<Rightarrow> eo_State op = OpReserved)"
    and reserve_fails: "reserve e s wid kind target key request = (Inl err, s') \<Longrightarrow> s' = s"
    and reserve_total: "inv s \<Longrightarrow> \<not> ex_fault e \<Longrightarrow> ex_hex e \<noteq> None \<Longrightarrow> request = Some p \<Longrightarrow> stored p \<noteq> None \<Longrightarrow>
      slot s key \<noteq> None \<Longrightarrow> \<exists>op s'. reserve e s wid kind target key request = (Inr op, s')"
    and mark_ok: "inv s \<Longrightarrow> slot s key = Some op \<Longrightarrow> mark e s (eo_ID op) receipt = (Inr op', s') \<Longrightarrow>
      inv s' \<and> eo_State op = OpReserved \<and> (\<forall>k. k \<noteq> key \<longrightarrow> slot s' k = slot s k)
      \<and> (\<exists>p d. receipt = Some p \<and> stored p = Some d \<and> op_settled (slot s' key) d)"
    and mark_fails: "mark e s opid receipt = (Inl err, s') \<Longrightarrow> s' = s"
    and settled_receipt: "inv s \<Longrightarrow> slot s key = Some op \<Longrightarrow> eo_State op \<in> {OpExecuted, OpReconciled} \<Longrightarrow>
      eo_Receipt op \<noteq> None"
    and recon_keeps: "inv s \<Longrightarrow> recon e s opid obs = (res, s') \<Longrightarrow>
      inv s' \<and> (op_settled (slot s k) r \<longrightarrow> op_settled (slot s' k) r)"
begin

lemma settled_call:
  assumes "inv s" and "op_settled (slot s key) r"
    and "WithExternalOp reserve mark marshal unmarshal e1 e2 wid kind target key request fn (s, w) = (res, s', w')"
  shows "inv s' \<and> w' = w \<and> op_settled (slot s' key) r
    \<and> (res = (case unmarshal r of None \<Rightarrow> Inl (DecodeOpReceipt key) | Some v \<Rightarrow> Inr v)
       \<or> (\<exists>err s1. reserve e1 s wid kind target key request = (Inl err, s1)))"
proof -
  obtain rs s1 where r: "reserve e1 s wid kind target key request = (rs, s1)" by fastforce
  show ?thesis
  proof (cases rs)
    case (Inl err)
    then show ?thesis using assms r reserve_fails [OF r [unfolded Inl]] by (auto simp: WithExternalOp_def)
  next
    case (Inr op)
    then have ok: "inv s1" "slot s1 key = Some op" "slot s key = Some op"
      using reserve_ok [OF assms(1) r [unfolded Inr]] assms(2) by (auto simp: op_settled_def)
    then have "eo_State op \<in> {OpExecuted, OpReconciled}" "eo_Receipt op = Some r"
      using assms(2) by (auto simp: op_settled_def)
    then show ?thesis
      using assms(2,3) r Inr ok by (auto simp: WithExternalOp_def op_settled_def split: option.splits)
  qed
qed

lemma other_call:
  assumes "inv s" and "op_settled (slot s k) r" and "k \<noteq> key"
    and "WithExternalOp reserve mark marshal unmarshal e1 e2 wid kind target key request fn (s, w) = (res, s', w')"
  shows "inv s' \<and> op_settled (slot s' k) r"
proof -
  obtain rs s1 where r: "reserve e1 s wid kind target key request = (rs, s1)" by fastforce
  show ?thesis
  proof (cases rs)
    case (Inl err)
    then show ?thesis using assms r reserve_fails [OF r [unfolded Inl]] by (auto simp: WithExternalOp_def)
  next
    case (Inr op)
    then have ok: "inv s1" "slot s1 key = Some op" "slot s1 k = slot s k"
      using reserve_ok [OF assms(1) r [unfolded Inr]] assms(3) by auto
    have "s' = s1 \<or> (\<exists>rc rs. mark e2 s1 (eo_ID op) rc = (rs, s'))"
      using assms(4) r Inr by (auto simp: WithExternalOp_def split: if_splits option.splits sum.splits prod.splits)
    then show ?thesis
    proof
      assume "\<exists>rc rs. mark e2 s1 (eo_ID op) rc = (rs, s')"
      then obtain rc rs where m: "mark e2 s1 (eo_ID op) rc = (rs, s')" by blast
      show ?thesis
        using mark_ok [OF ok(1,2), of e2 rc] mark_fails [of e2 s1 "eo_ID op" rc] m ok assms(2,3)
        by (cases rs) auto
    qed (use ok assms(2) in simp)
  qed
qed

lemma settled_stays:
  "inv s \<Longrightarrow> op_settled (slot s key) r \<Longrightarrow>
     guard_history reserve mark recon marshal unmarshal calls (s, w) = (s', w') \<Longrightarrow>
     inv s' \<and> op_settled (slot s' key) r"
proof (induction calls arbitrary: s w)
  case (Cons call calls)
  show ?case
  proof (cases call)
    case (GuardCall e1 e2 wid kind target k request fn)
    obtain res s1 w1 where c: "WithExternalOp reserve mark marshal unmarshal e1 e2 wid kind target k request fn (s, w) = (res, s1, w1)"
      by (metis surj_pair)
    have "inv s1 \<and> op_settled (slot s1 key) r"
      using settled_call [OF Cons.prems(1) _ c] other_call [OF Cons.prems(1,2) _ c] Cons.prems(2)
      by (cases "k = key") auto
    then show ?thesis using Cons.IH [of s1 w1] Cons.prems(3) GuardCall c by simp
  next
    case (ReconcileCall e opid obs)
    then show ?thesis
      using Cons.IH [of "snd (recon e s opid obs)" w] Cons.prems recon_keeps [OF Cons.prems(1) surjective_pairing]
      by simp
  qed
qed simp

text \<open>A successful call leaves a settled row whose receipt decodes to its result.\<close>

lemma success_settles:
  assumes "inv s"
    and "WithExternalOp reserve mark marshal unmarshal e1 e2 wid kind target key request fn (s, w) = (Inr v, s1, w1)"
    and codec: "\<forall>v p d. marshal v = Some p \<and> stored p = Some d \<longrightarrow> unmarshal d = Some v"
  shows "inv s1 \<and> (\<exists>r. op_settled (slot s1 key) r \<and> unmarshal r = Some v)"
proof -
  obtain op s0 where r: "reserve e1 s wid kind target key request = (Inr op, s0)"
    using assms(2) by (auto simp: WithExternalOp_def split: sum.splits prod.splits)
  note ok = reserve_ok [OF assms(1) r]
  show ?thesis
  proof (cases "eo_State op = OpExecuted \<or> eo_State op = OpReconciled")
    case True
    then obtain rc where "eo_Receipt op = Some rc" using ok settled_receipt [of s0 key op] by auto
    then show ?thesis
      using True assms(2) r ok by (auto simp: WithExternalOp_def op_settled_def split: option.splits)
  next
    case False
    then obtain op' where m: "mark e2 s0 (eo_ID op) (marshal v) = (Inr op', s1)"
      using assms(2) r by (auto simp: WithExternalOp_def split: sum.splits prod.splits)
    show ?thesis using mark_ok [OF _ _ m] ok codec by blast
  qed
qed

lemma side_effect_once:
  assumes "inv s"
    and "WithExternalOp reserve mark marshal unmarshal e1 e2 wid kind target key request fn (s, w) = (Inr v, s1, w1)"
    and "\<forall>v p d. marshal v = Some p \<and> stored p = Some d \<longrightarrow> unmarshal d = Some v"
    and "guard_history reserve mark recon marshal unmarshal calls (s1, w1) = (s2, w2)"
  shows "\<exists>res s3. WithExternalOp reserve mark marshal unmarshal e1' e2' wid' kind' target' key request' fn' (s2, w2) = (res, s3, w2)
    \<and> (\<not> ex_fault e1' \<and> ex_hex e1' \<noteq> None \<and> (\<exists>p. request' = Some p \<and> stored p \<noteq> None) \<longrightarrow> res = Inr v)"
proof -
  obtain r where r: "inv s1" "op_settled (slot s1 key) r" "unmarshal r = Some v"
    using success_settles [OF assms(1-3)] by blast
  then have s2: "inv s2" "op_settled (slot s2 key) r" using settled_stays [OF _ _ assms(4)] by auto
  obtain res s3 w3 where c: "WithExternalOp reserve mark marshal unmarshal e1' e2' wid' kind' target' key request' fn' (s2, w2) = (res, s3, w3)"
    by (metis surj_pair)
  have "slot s2 key \<noteq> None" using s2(2) by (auto simp: op_settled_def)
  then show ?thesis
    using settled_call [OF s2 c] c r(3) reserve_total [OF s2(1), of e1' request' _ key wid' kind' target'] by force
qed

end

section \<open>The Postgres store\<close>

definition extop_inv :: "extop_table \<Rightarrow> bool" where
  "extop_inv tbl \<longleftrightarrow> distinct (map eo_ID tbl) \<and> distinct (map eo_IdempotencyKey tbl)
     \<and> (\<forall>op \<in> set tbl. eo_State op \<in> {OpExecuted, OpReconciled} \<longrightarrow> eo_Receipt op \<noteq> None)"

lemma find_unique:
  assumes "distinct (map f xs)"
  shows "find (\<lambda>x. f x = k) xs = Some x \<longleftrightarrow> x \<in> set xs \<and> f x = k"
  using assms by (induction xs) (auto simp: image_iff)

lemma getByKey_iff: "extop_inv tbl \<Longrightarrow> getByKey tbl k = Some op \<longleftrightarrow> op \<in> set tbl \<and> eo_IdempotencyKey op = k"
  by (simp add: getByKey_def extop_inv_def find_unique)

lemma find_op_iff: "extop_inv tbl \<Longrightarrow> find_op tbl i = Some op \<longleftrightarrow> op \<in> set tbl \<and> eo_ID op = i"
  by (simp add: find_op_def extop_inv_def find_unique)

lemma update_op_inv:
  assumes "extop_inv tbl"
    and "\<And>op. eo_ID (f op) = eo_ID op \<and> eo_IdempotencyKey (f op) = eo_IdempotencyKey op"
    and "\<And>op. op \<in> set tbl \<Longrightarrow> eo_ID op = i \<Longrightarrow> eo_State (f op) \<in> {OpExecuted, OpReconciled} \<Longrightarrow> eo_Receipt (f op) \<noteq> None"
  shows "extop_inv (update_op f i tbl)"
proof -
  have "map eo_ID (update_op f i tbl) = map eo_ID tbl"
    "map eo_IdempotencyKey (update_op f i tbl) = map eo_IdempotencyKey tbl"
    using assms(2) by (auto simp: update_op_def)
  moreover have "\<forall>op \<in> set (update_op f i tbl). eo_State op \<in> {OpExecuted, OpReconciled} \<longrightarrow> eo_Receipt op \<noteq> None"
    using assms(1,3) unfolding extop_inv_def update_op_def by auto
  ultimately show ?thesis using assms(1) unfolding extop_inv_def by simp
qed

lemma update_op_key:
  assumes "extop_inv tbl" and "\<And>op. eo_ID (f op) = eo_ID op \<and> eo_IdempotencyKey (f op) = eo_IdempotencyKey op"
  shows "getByKey (update_op f i tbl) k
    = map_option (\<lambda>op. if eo_ID op = i then f op else op) (getByKey tbl k)"
proof -
  have "(\<lambda>x. eo_IdempotencyKey (if eo_ID x = i then f x else x) = k) = (\<lambda>x. eo_IdempotencyKey x = k)"
    using assms(2) by auto
  then show ?thesis by (simp add: getByKey_def update_op_def find_map_list)
qed

interpretation pg_ops: extop_store "extops_Reserve jsonb" "extops_MarkExecuted jsonb" "extops_Reconcile json_value"
  getByKey jsonb extop_inv for jsonb and json_value :: "string \<Rightarrow> 'j option"
proof
  fix e s wid kind target key request op s'
  assume inv: "extop_inv s" and r: "extops_Reserve jsonb e s wid kind target key request = (Inr op, s')"
  show "extop_inv s' \<and> getByKey s' key = Some op \<and> (\<forall>k. k \<noteq> key \<longrightarrow> getByKey s' k = getByKey s k)
      \<and> (case getByKey s key of Some o1 \<Rightarrow> op = o1 | None \<Rightarrow> eo_State op = OpReserved)"
  proof (cases "getByKey s key")
    case None
    then have op: "s' = s @ [op]" "eo_ID op \<notin> eo_ID ` set s" "eo_IdempotencyKey op = key" "eo_State op = OpReserved"
      using r by (auto simp: extops_Reserve_def Let_def split: option.splits if_splits)
    have "key \<notin> eo_IdempotencyKey ` set s" using None by (auto simp: getByKey_def find_None_iff)
    then have "extop_inv s'" using inv op by (auto simp: extop_inv_def)
    moreover have "getByKey s' k = (case getByKey s k of None \<Rightarrow> if k = key then Some op else None | Some o1 \<Rightarrow> Some o1)" for k
      unfolding op(1) getByKey_def using op(3) by (induction s) auto
    ultimately show ?thesis using None op by (auto split: option.splits)
  next
    case (Some o1)
    then show ?thesis using inv r by (auto simp: extops_Reserve_def split: option.splits if_splits)
  qed
next
  fix e s wid kind target key request err s'
  assume "extops_Reserve jsonb e s wid kind target key request = (Inl err, s')"
  then show "s' = s" by (auto simp: extops_Reserve_def Let_def split: option.splits if_splits)
next
  fix e :: extop_env and s wid kind target key request p
  assume "\<not> ex_fault e" "ex_hex e \<noteq> None" "request = Some p" "jsonb p \<noteq> None" "getByKey s key \<noteq> None"
  then show "\<exists>op s'. extops_Reserve jsonb e s wid kind target key request = (Inr op, s')"
    by (auto simp: extops_Reserve_def)
next
  fix e s key op receipt op' s'
  assume inv: "extop_inv s" and k: "getByKey s key = Some op"
    and m: "extops_MarkExecuted jsonb e s (eo_ID op) receipt = (Inr op', s')"
  define f where "f d = (\<lambda>o1 :: ext_op. o1\<lparr>eo_State := OpExecuted, eo_Receipt := Some d, eo_UpdatedAt := ex_now e\<rparr>)" for d
  have "find_op s (eo_ID op) = Some op" using k inv by (simp add: getByKey_iff find_op_iff)
  then obtain p d where p: "receipt = Some p" "jsonb p = Some d" "eo_State op = OpReserved" "s' = update_op (f d) (eo_ID op) s"
    using m by (auto simp: extops_MarkExecuted_def f_def Let_def split: option.splits if_splits)
  have "extop_inv s'" unfolding p(4) by (rule update_op_inv [OF inv]) (auto simp: f_def)
  moreover have g: "getByKey s' q = map_option (\<lambda>o1. if eo_ID o1 = eo_ID op then f d o1 else o1) (getByKey s q)" for q
    unfolding p(4) by (rule update_op_key [OF inv]) (auto simp: f_def)
  moreover have "getByKey s' q = getByKey s q" if q: "q \<noteq> key" for q
  proof (cases "getByKey s q")
    case (Some o2)
    then have "eo_ID o2 \<noteq> eo_ID op"
      using q k inv getByKey_iff [OF inv] by (metis distinct_map extop_inv_def inj_onD)
    then show ?thesis using g Some by simp
  qed (use g in simp)
  moreover have "op_settled (getByKey s' key) d" using g [of key] k by (auto simp: op_settled_def f_def)
  ultimately show "extop_inv s' \<and> eo_State op = OpReserved \<and> (\<forall>q. q \<noteq> key \<longrightarrow> getByKey s' q = getByKey s q)
      \<and> (\<exists>p d. receipt = Some p \<and> jsonb p = Some d \<and> op_settled (getByKey s' key) d)"
    using p by blast
next
  fix e s opid receipt err s'
  assume "extops_MarkExecuted jsonb e s opid receipt = (Inl err, s')"
  then show "s' = s" by (auto simp: extops_MarkExecuted_def Let_def split: option.splits if_splits)
next
  fix s key op
  assume "extop_inv s" "getByKey s key = Some op" "eo_State op \<in> {OpExecuted, OpReconciled}"
  then show "eo_Receipt op \<noteq> None" by (simp add: getByKey_iff) (auto simp: extop_inv_def)
next
  fix e s opid obs res s' k r
  assume inv: "extop_inv s" and c: "extops_Reconcile json_value e s opid obs = (res, s')"
  define f where "f = (\<lambda>o1 :: ext_op. o1\<lparr>eo_State := OpReconciled, eo_UpdatedAt := ex_now e\<rparr>)"
  consider "s' = s" | op where "s' = update_op f opid s" "find_op s opid = Some op" "eo_State op = OpExecuted"
    using c by (auto simp: extops_Reconcile_def f_def split: option.splits if_splits)
  then show "extop_inv s' \<and> (op_settled (getByKey s k) r \<longrightarrow> op_settled (getByKey s' k) r)"
  proof cases
    case 2
    have rc: "eo_Receipt o1 \<noteq> None" if "o1 \<in> set s" "eo_ID o1 = opid" for o1
    proof -
      have "o1 = op" using that 2(2) inv find_op_iff [OF inv, of opid o1] by simp
      then show ?thesis using that(1) 2(3) inv by (auto simp: extop_inv_def)
    qed
    have "extop_inv s'" unfolding 2(1) by (rule update_op_inv [OF inv]) (use rc in \<open>auto simp: f_def\<close>)
    moreover have "getByKey s' k = map_option (\<lambda>o1. if eo_ID o1 = opid then f o1 else o1) (getByKey s k)"
      unfolding 2(1) by (rule update_op_key [OF inv]) (auto simp: f_def)
    moreover have "eo_State (f o1) = OpReconciled" "eo_Receipt (f o1) = eo_Receipt o1" for o1 by (simp_all add: f_def)
    ultimately show ?thesis by (cases "getByKey s k") (auto simp: op_settled_def)
  qed (use inv in simp)
qed

text \<open>
  C36: A side effect guarded by \<open>WithExternalOp\<close> that succeeded once is not repeated: after any
  history of guarded calls under any keys and of reconciliations, a call under the same key
  leaves the world alone, and returns the recorded result whenever the ledger can be read.
\<close>

theorem WithExternalOp_once:
  fixes marshal :: "'a \<Rightarrow> string option" and w :: 'w and json_value :: "string \<Rightarrow> 'j option"
  assumes "extop_inv tbl"
    and "WithExternalOp (extops_Reserve jsonb) (extops_MarkExecuted jsonb) marshal unmarshal
      e1 e2 wid kind target key request fn (tbl, w) = (Inr v, tbl1, w1)"
    and "\<forall>v p d. marshal v = Some p \<and> jsonb p = Some d \<longrightarrow> unmarshal d = Some v"
    and "guard_history (extops_Reserve jsonb) (extops_MarkExecuted jsonb) (extops_Reconcile json_value) marshal unmarshal
      calls (tbl1, w1) = (tbl2, w2)"
  shows "\<exists>res tbl3. WithExternalOp (extops_Reserve jsonb) (extops_MarkExecuted jsonb) marshal unmarshal
      e1' e2' wid' kind' target' key request' fn' (tbl2, w2) = (res, tbl3, w2)
    \<and> (\<not> ex_fault e1' \<and> ex_hex e1' \<noteq> None \<and> (\<exists>p. request' = Some p \<and> jsonb p \<noteq> None) \<longrightarrow> res = Inr v)"
  using assms by (rule pg_ops.side_effect_once)

definition extop_env_of :: "string \<Rightarrow> int \<Rightarrow> extop_env" where
  "extop_env_of h t = \<lparr>ex_hex = Some h, ex_now = t, ex_fault = False\<rparr>"

definition push_once :: "nat \<Rightarrow> (unit + string) \<times> nat" where
  "push_once w = (Inr ''sha'', Suc w)"

definition pushed_op :: "extop_state \<Rightarrow> int \<Rightarrow> ext_op" where
  "pushed_op st t = \<lparr>eo_ID = ''id1'', eo_WorkflowID = ''w'', eo_Kind = ''scm.push'', eo_Target = ''main'',
     eo_IdempotencyKey = ''k'', eo_State = st, eo_Request = ''{}'', eo_Receipt = Some ''sha'', eo_CreatedAt = 1, eo_UpdatedAt = t\<rparr>"

theorem WithExternalOp_once_witness:
  "WithExternalOp (extops_Reserve Some) (extops_MarkExecuted Some) Some Some (extop_env_of ''id9'' 4) (extop_env_of ''x'' 4)
     ''w'' ''scm.push'' ''main'' ''k'' (Some ''{}'') push_once ([pushed_op OpReconciled 3], 1)
   = (Inr ''sha'', [pushed_op OpReconciled 3], 1)"
proof -
  have a: "WithExternalOp (extops_Reserve Some) (extops_MarkExecuted Some) Some Some (extop_env_of ''id1'' 1)
      (extop_env_of ''x'' 2) ''w'' ''scm.push'' ''main'' ''k'' (Some ''{}'') push_once ([], 0)
      = (Inr ''sha'', [pushed_op OpExecuted 2], 1)"
    by (simp add: WithExternalOp_def extops_Reserve_def extops_MarkExecuted_def extop_env_of_def push_once_def
        pushed_op_def getByKey_def find_op_def update_op_def Let_def)
  have h: "guard_history (extops_Reserve Some) (extops_MarkExecuted Some) (extops_Reconcile Some) Some Some
      [ReconcileCall (extop_env_of ''y'' 3) ''id1'' ''sha''] ([pushed_op OpExecuted 2], 1) = ([pushed_op OpReconciled 3], 1)"
    by (simp add: extops_Reconcile_def extop_env_of_def pushed_op_def find_op_def update_op_def)
  have "\<exists>res tbl3. WithExternalOp (extops_Reserve Some) (extops_MarkExecuted Some) Some Some (extop_env_of ''id9'' 4)
      (extop_env_of ''x'' 4) ''w'' ''scm.push'' ''main'' ''k'' (Some ''{}'') push_once ([pushed_op OpReconciled 3], 1)
      = (res, tbl3, 1) \<and> (\<not> ex_fault (extop_env_of ''id9'' 4) \<and> ex_hex (extop_env_of ''id9'' 4) \<noteq> None
        \<and> (\<exists>p. Some ''{}'' = Some p \<and> Some p \<noteq> None) \<longrightarrow> res = Inr ''sha'')"
    by (rule WithExternalOp_once [OF _ a _ h]) (simp_all add: extop_inv_def)
  then show ?thesis
    by (auto simp: WithExternalOp_def extops_Reserve_def extop_env_of_def getByKey_def pushed_op_def)
qed

section \<open>Operations only move forward\<close>

datatype ledger_call =
    CallReserve extop_env string string string string "string option"
  | CallMark extop_env string "string option"
  | CallReconcile extop_env string string

fun ledger_step :: "(string \<Rightarrow> string option) \<Rightarrow> (string \<Rightarrow> 'j option) \<Rightarrow> ledger_call \<Rightarrow> extop_table \<Rightarrow> extop_table" where
  "ledger_step jsonb jv (CallReserve e wid kind target key request) tbl = snd (extops_Reserve jsonb e tbl wid kind target key request)"
| "ledger_step jsonb jv (CallMark e i receipt) tbl = snd (extops_MarkExecuted jsonb e tbl i receipt)"
| "ledger_step jsonb jv (CallReconcile e i obs) tbl = snd (extops_Reconcile jv e tbl i obs)"

fun op_rank :: "extop_state \<Rightarrow> nat" where
  "op_rank OpReserved = 0" | "op_rank OpExecuted = 1" | "op_rank OpReconciled = 2" | "op_rank OpFailed = 3"

text \<open>The later form of an operation: same identity and request, no earlier state, the receipt kept.\<close>

definition op_advances :: "ext_op \<Rightarrow> ext_op \<Rightarrow> bool" where
  "op_advances a b \<longleftrightarrow> eo_ID b = eo_ID a \<and> eo_IdempotencyKey b = eo_IdempotencyKey a \<and> eo_Kind b = eo_Kind a
     \<and> eo_Target b = eo_Target a \<and> eo_Request b = eo_Request a \<and> op_rank (eo_State a) \<le> op_rank (eo_State b)
     \<and> (eo_State a \<noteq> OpReserved \<longrightarrow> eo_Receipt b = eo_Receipt a)"

lemma ledger_step_forward:
  assumes "distinct (map eo_ID tbl)" and "op \<in> set tbl"
  shows "\<exists>op' \<in> set (ledger_step jsonb jv c tbl). op_advances op op'"
    and "distinct (map eo_ID (ledger_step jsonb jv c tbl))"
proof -
  have same: "op_advances o1 o1" for o1 by (simp add: op_advances_def)
  have upd: "(\<exists>op' \<in> set (update_op f i tbl). op_advances op op') \<and> distinct (map eo_ID (update_op f i tbl))"
    if "find_op tbl i = Some o1" "op_advances o1 (f o1)" "\<And>o2. eo_ID (f o2) = eo_ID o2" for f i o1
  proof -
    have "map eo_ID (update_op f i tbl) = map eo_ID tbl" using that(3) by (simp add: update_op_def)
    then have "distinct (map eo_ID (update_op f i tbl))" using assms(1) by simp
    moreover have "o1 = op" if "eo_ID op = i"
      using find_unique [OF assms(1), of i o1] find_unique [OF assms(1), of i op] \<open>find_op tbl i = Some o1\<close> that assms(2)
      by (simp add: find_op_def)
    then have "\<exists>op' \<in> set (update_op f i tbl). op_advances op op'"
      using that(2) same assms(2) by (cases "eo_ID op = i") (auto simp: update_op_def)
    ultimately show ?thesis by simp
  qed
  have "(\<exists>op' \<in> set (ledger_step jsonb jv c tbl). op_advances op op') \<and> distinct (map eo_ID (ledger_step jsonb jv c tbl))"
  proof (cases c)
    case (CallReserve e wid kind target key request)
    then show ?thesis using assms same
      by (auto simp: extops_Reserve_def Let_def split: option.splits)
  next
    case (CallMark e i receipt)
    then show ?thesis using assms same upd
      by (auto simp: extops_MarkExecuted_def Let_def op_advances_def split: option.splits)
  next
    case (CallReconcile e i obs)
    then show ?thesis using assms same upd
      by (auto simp: extops_Reconcile_def op_advances_def split: option.splits)
  qed
  then show "\<exists>op' \<in> set (ledger_step jsonb jv c tbl). op_advances op op'"
    and "distinct (map eo_ID (ledger_step jsonb jv c tbl))" by auto
qed

lemma op_advances_trans: "op_advances a b \<Longrightarrow> op_advances b c \<Longrightarrow> op_advances a c"
  by (cases "eo_State a"; cases "eo_State b") (auto simp: op_advances_def)

text \<open>
  Whatever calls the ledger serves, no operation is lost and none moves back: each row is
  found again with the same identity and request, in the same state or a later one of
  reserved, executed, reconciled, and a receipt once recorded is never replaced.
\<close>

theorem extops_only_forward:
  assumes "distinct (map eo_ID tbl)" and "op \<in> set tbl"
  shows "\<exists>op' \<in> set (fold (ledger_step jsonb json_value) calls tbl). op_advances op op'"
  using assms
proof (induction calls arbitrary: tbl op)
  case Nil
  then show ?case by (auto simp: op_advances_def)
next
  case (Cons c calls)
  obtain op1 where "op1 \<in> set (ledger_step jsonb json_value c tbl)" "op_advances op op1"
    using ledger_step_forward(1) [OF Cons.prems] by blast
  then show ?case
    using Cons.IH [OF ledger_step_forward(2) [OF Cons.prems]] op_advances_trans by fastforce
qed

theorem extops_only_forward_witness:
  "\<exists>op' \<in> set (fold (ledger_step Some Some) [CallReconcile (extop_env_of ''y'' 3) ''id1'' ''sha'',
      CallMark (extop_env_of ''y'' 4) ''id1'' (Some ''other'')] [pushed_op OpExecuted 2]).
     op_advances (pushed_op OpExecuted 2) op'"
  by (rule extops_only_forward) simp_all

section \<open>One pass of the reconciler\<close>

text \<open>
  A pass that looks only at operations without a prober changes nothing. The pass lists the
  oldest executed operations and never moves on: when as many executed operations as the
  limit are older than all operations that have a prober, no pass ever reconciles one.
\<close>

theorem RunOnce_starves:
  assumes "take (nat limit) (sort_key eo_CreatedAt (filter (\<lambda>o1. eo_State o1 = OpExecuted) tbl)) = old"
    and "\<forall>op \<in> set old. probers (eo_Kind op) = None" and "0 \<le> limit" and "\<not> ex_fault e"
  shows "Reconciler_RunOnce json_value probers e tbl limit = (None, tbl, 0)"
proof -
  have "reconcile_ops json_value probers e ops tbl = (None, tbl, 0)"
    if "\<forall>op \<in> set ops. probers (eo_Kind op) = None" for ops
    using that by (induction ops) auto
  then show ?thesis using assms by (simp add: Reconciler_RunOnce_def extops_ListByState_def)
qed

definition executed_op :: "string \<Rightarrow> string \<Rightarrow> int \<Rightarrow> ext_op" where
  "executed_op i kind t = \<lparr>eo_ID = i, eo_WorkflowID = ''w'', eo_Kind = kind, eo_Target = [], eo_IdempotencyKey = i,
     eo_State = OpExecuted, eo_Request = ''{}'', eo_Receipt = Some ''r'', eo_CreatedAt = t, eo_UpdatedAt = t\<rparr>"

theorem RunOnce_starves_witness:
  "Reconciler_RunOnce Some [''scm.push'' \<mapsto> (\<lambda>_. Some ''r'')] (extop_env_of ''x'' 9)
      [executed_op ''a'' ''scm.push'' 5, executed_op ''b'' ''stripe.charge'' 4] 1
   = (None, [executed_op ''a'' ''scm.push'' 5, executed_op ''b'' ''stripe.charge'' 4], 0)"
  by (rule RunOnce_starves [OF refl]) (simp_all add: executed_op_def extop_env_of_def)

end
