(* ===== verification/Integrator.thy ===== *)
theory Integrator
  imports State_Model
begin

text \<open>
  The branch integrator, package \<open>internal/kernel/integrator\<close>: the in-memory queue and
  \<open>ProcessItem\<close> (\<open>integrator.go\<close>), the drift guard (\<open>drift.go\<close>) and the Postgres queue and
  receipt table (\<open>queue_pg.go\<close> over migration \<open>00020\<close>). A per-branch queue is a locale; the
  in-memory queue is an instance, and so is the Postgres queue as long as its clock moves
  on. The lemmas show first-in first-out delivery, that a claimed item comes back only
  after a requeue, that a push happens only under a lease and on the expected head, and
  that drift is retried a bounded number of times.
\<close>

section \<open>Items and receipts\<close>

record integration_item =
  ii_ID :: string
  ii_Branch :: string
  ii_GroupID :: string
  ii_ManifestDigest :: string
  ii_Commits :: "string list"
  ii_ExpectedBase :: string
  ii_EnqueuedAt :: int

text \<open>A receipt without a time has the zero time.\<close>

record push_receipt =
  rc_Branch :: string
  rc_BeforeSHA :: string
  rc_AfterSHA :: string
  rc_GroupID :: string
  rc_ManifestDigest :: string
  rc_IssuedAt :: "int option"

definition zero_receipt :: push_receipt where
  "zero_receipt = \<lparr>rc_Branch = [], rc_BeforeSHA = [], rc_AfterSHA = [], rc_GroupID = [], rc_ManifestDigest = [], rc_IssuedAt = None\<rparr>"

section \<open>The in-memory queue\<close>

type_synonym mem_queue = "string \<Rightarrow> integration_item list"

definition Queue_Enqueue :: "mem_queue \<Rightarrow> integration_item \<Rightarrow> mem_queue" where
  "Queue_Enqueue q item = q(ii_Branch item := q (ii_Branch item) @ [item])"

definition Queue_Dequeue :: "mem_queue \<Rightarrow> string \<Rightarrow> integration_item option \<times> mem_queue" where
  "Queue_Dequeue q branch =
     (case q branch of
        [] \<Rightarrow> (None, q)
      | next1 # items \<Rightarrow> (Some next1, q(branch := items)))"

section \<open>The Postgres queue\<close>

datatype queue_status = QPending | QProcessing | QDone | QFailed

record queue_row =
  qr_id :: string
  qr_branch :: string
  qr_group_id :: string
  qr_manifest_digest :: string
  qr_commits :: "string list"
  qr_expected_base :: string
  qr_status :: queue_status
  qr_enqueued_at :: int
  qr_processed_at :: "int option"
  qr_error_msg :: "string option"

record queue_db =
  qd_rows :: "queue_row list"
  qd_receipts :: "(string \<times> push_receipt) list"

text \<open>A call finds the clock of the database and whether the database fails; a failure changes nothing.\<close>

record queue_env =
  qe_now :: int
  qe_fault :: bool

datatype queue_error = QueueDB string

text \<open>\<open>string_to_array(s, ',')\<close> of an empty text is the empty array.\<close>

definition string_to_array :: "string \<Rightarrow> string list" where
  "string_to_array s = (if s = [] then [] else split_on (CHR '','') s)"

definition PGQueue_Enqueue :: "queue_env \<Rightarrow> queue_db \<Rightarrow> integration_item \<Rightarrow> queue_error option \<times> queue_db" where
  "PGQueue_Enqueue e db item =
     (if qe_fault e \<or> ii_ID item \<in> qr_id ` set (qd_rows db) then (Some (QueueDB (ii_ID item)), db)
      else
        (None, db\<lparr>qd_rows := qd_rows db @
           [\<lparr>qr_id = ii_ID item, qr_branch = ii_Branch item, qr_group_id = ii_GroupID item,
             qr_manifest_digest = ii_ManifestDigest item,
             qr_commits = string_to_array (join_with '','' (ii_Commits item)),
             qr_expected_base = ii_ExpectedBase item, qr_status = QPending, qr_enqueued_at = qe_now e,
             qr_processed_at = None, qr_error_msg = None\<rparr>]\<rparr>))"

definition row_item :: "queue_row \<Rightarrow> integration_item" where
  "row_item r =
     (let commitsCSV = join_with '','' (qr_commits r) in
      \<lparr>ii_ID = qr_id r, ii_Branch = qr_branch r, ii_GroupID = qr_group_id r, ii_ManifestDigest = qr_manifest_digest r,
       ii_Commits = (if commitsCSV \<noteq> [] then split_on (CHR '','') commitsCSV else []),
       ii_ExpectedBase = qr_expected_base r, ii_EnqueuedAt = qr_enqueued_at r\<rparr>)"

definition set_row :: "(queue_row \<Rightarrow> queue_row) \<Rightarrow> string \<Rightarrow> queue_db \<Rightarrow> queue_db" where
  "set_row f i db = db\<lparr>qd_rows := map (\<lambda>r. if qr_id r = i then f r else r) (qd_rows db)\<rparr>"

definition pending_rows :: "queue_db \<Rightarrow> string \<Rightarrow> queue_row list" where
  "pending_rows db branch =
     sort_key qr_enqueued_at (filter (\<lambda>r. qr_branch r = branch \<and> qr_status r = QPending) (qd_rows db))"

text \<open>
  The advisory lock is held for the claim's own transaction, so claims on a branch follow one
  another; rows locked by an uncommitted claim are skipped by none here.
\<close>

definition PGQueue_Claim :: "queue_env \<Rightarrow> queue_db \<Rightarrow> string \<Rightarrow> (queue_error + integration_item option) \<times> queue_db" where
  "PGQueue_Claim e db branch =
     (if qe_fault e then (Inl (QueueDB branch), db)
      else
        (case pending_rows db branch of
           [] \<Rightarrow> (Inr None, db)
         | r # _ \<Rightarrow> (Inr (Some (row_item r)), set_row (\<lambda>r. r\<lparr>qr_status := QProcessing\<rparr>) (qr_id r) db)))"

definition PGQueue_Complete :: "queue_env \<Rightarrow> queue_db \<Rightarrow> string \<Rightarrow> queue_error option \<times> queue_db" where
  "PGQueue_Complete e db i =
     (if qe_fault e then (Some (QueueDB i), db)
      else (None, set_row (\<lambda>r. r\<lparr>qr_status := QDone, qr_processed_at := Some (qe_now e)\<rparr>) i db))"

definition PGQueue_Requeue :: "queue_env \<Rightarrow> queue_db \<Rightarrow> string \<Rightarrow> string \<Rightarrow> string \<Rightarrow> queue_error option \<times> queue_db" where
  "PGQueue_Requeue e db i newExpectedBase reason =
     (if qe_fault e then (Some (QueueDB i), db)
      else (None, set_row (\<lambda>r. r\<lparr>qr_status := QPending, qr_expected_base := newExpectedBase, qr_error_msg := Some reason\<rparr>) i db))"

definition PGQueue_Fail :: "queue_env \<Rightarrow> queue_db \<Rightarrow> string \<Rightarrow> string \<Rightarrow> queue_error option \<times> queue_db" where
  "PGQueue_Fail e db i reason =
     (if qe_fault e then (Some (QueueDB i), db)
      else (None, set_row (\<lambda>r. r\<lparr>qr_status := QFailed, qr_processed_at := Some (qe_now e), qr_error_msg := Some reason\<rparr>) i db))"

definition PGQueue_RecordReceipt :: "queue_env \<Rightarrow> queue_db \<Rightarrow> push_receipt \<Rightarrow> queue_error option \<times> queue_db" where
  "PGQueue_RecordReceipt e db r =
     (let i = rc_GroupID r @ '':'' @ rc_Branch r @ '':'' @ rc_AfterSHA r in
      if qe_fault e then (Some (QueueDB (rc_GroupID r)), db)
      else if i \<in> fst ` set (qd_receipts db) then (None, db)
      else (None, db\<lparr>qd_receipts := qd_receipts db
              @ [(i, r\<lparr>rc_IssuedAt := Some (case rc_IssuedAt r of Some t \<Rightarrow> t | None \<Rightarrow> qe_now e)\<rparr>)]\<rparr>))"

definition PGQueue_ReceiptForGroup :: "queue_env \<Rightarrow> queue_db \<Rightarrow> string \<Rightarrow> string \<Rightarrow> queue_error + push_receipt option" where
  "PGQueue_ReceiptForGroup e db groupID branch =
     (if qe_fault e then Inl (QueueDB groupID)
      else
        Inr (case sort_key (\<lambda>r. - the (rc_IssuedAt r))
                    (filter (\<lambda>r. rc_GroupID r = groupID \<and> rc_Branch r = branch) (map snd (qd_receipts db))) of
               [] \<Rightarrow> None
             | r # _ \<Rightarrow> Some r))"

section \<open>One item\<close>

datatype integrator_error =
    AcquireLeaseFailed string | ReadHeadFailed string | ErrDriftDetected string string string
  | ErrStaleFencingToken | CASPushFailed string | RecordReceiptFailed string

datatype push_error = StaleToken | PushError string

text \<open>The calls an item makes to the outside, in order.\<close>

datatype integrator_event =
    EvAcquire string string int
  | EvReadHead string
  | EvCASPush string string "string list" string
  | EvRecordReceipt push_receipt
  | EvReleaseLease string string

text \<open>
  What the four interfaces of the integrator answer. An answer may depend on all calls made so
  far, so nothing is assumed of the world behind them.
\<close>

record integrator_world =
  iw_AcquireLease :: "integrator_event list \<Rightarrow> string + string"
  iw_ReadHead :: "integrator_event list \<Rightarrow> string + string"
  iw_CASPush :: "integrator_event list \<Rightarrow> push_error + string"
  iw_RecordReceipt :: "integrator_event list \<Rightarrow> string option"

text \<open>
  \<open>ProcessItem\<close>: the receipt, the error and the calls. The deferred release is the last call
  of every path behind the acquisition, and its own error is dropped.
\<close>

definition ProcessItem ::
  "integrator_world \<Rightarrow> int \<Rightarrow> int \<Rightarrow> integration_item \<Rightarrow> push_receipt \<times> integrator_error option \<times> integrator_event list" where
  "ProcessItem g leaseTTL now item =
     (let b = ii_Branch item; e1 = [EvAcquire b (ii_ID item) leaseTTL] in
      case iw_AcquireLease g e1 of
        Inl _ \<Rightarrow> (zero_receipt, Some (AcquireLeaseFailed b), e1)
      | Inr token \<Rightarrow>
          (let e2 = e1 @ [EvReadHead b]; release = EvReleaseLease b token in
           case iw_ReadHead g e2 of
             Inl _ \<Rightarrow> (zero_receipt, Some (ReadHeadFailed b), e2 @ [release])
           | Inr remoteHead \<Rightarrow>
               if remoteHead \<noteq> ii_ExpectedBase item then
                 (zero_receipt, Some (ErrDriftDetected b remoteHead (ii_ExpectedBase item)), e2 @ [release])
               else
                 (let e3 = e2 @ [EvCASPush b (ii_ExpectedBase item) (ii_Commits item) token] in
                  case iw_CASPush g e3 of
                    Inl StaleToken \<Rightarrow> (zero_receipt, Some ErrStaleFencingToken, e3 @ [release])
                  | Inl (PushError _) \<Rightarrow> (zero_receipt, Some (CASPushFailed b), e3 @ [release])
                  | Inr afterSHA \<Rightarrow>
                      (let rec = \<lparr>rc_Branch = b, rc_BeforeSHA = ii_ExpectedBase item, rc_AfterSHA = afterSHA,
                             rc_GroupID = ii_GroupID item, rc_ManifestDigest = ii_ManifestDigest item, rc_IssuedAt = Some now\<rparr>;
                           e4 = e3 @ [EvRecordReceipt rec] in
                       case iw_RecordReceipt g e4 of
                         Some _ \<Rightarrow> (rec, Some (RecordReceiptFailed b), e4 @ [release])
                       | None \<Rightarrow> (rec, None, e4 @ [release])))))"

section \<open>Drift\<close>

record drift_config =
  df_Policy :: string
  df_MaxRetries :: int

record drift_result =
  dr_Resolution :: string
  dr_ResultCode :: result_code
  dr_NextAction :: string
  dr_RetryCount :: int

abbreviation RebasePolicyCleanOnly :: string where "RebasePolicyCleanOnly \<equiv> ''rebase-clean-only''"
abbreviation RebasePolicyNone :: string where "RebasePolicyNone \<equiv> ''none''"
abbreviation DriftResolutionRequeued :: string where "DriftResolutionRequeued \<equiv> ''requeued''"
abbreviation DriftResolutionBlocked :: string where "DriftResolutionBlocked \<equiv> ''proven-blocked''"

definition DefaultDriftGuardConfig :: drift_config where
  "DefaultDriftGuardConfig = \<lparr>df_Policy = RebasePolicyCleanOnly, df_MaxRetries = 3\<rparr>"

definition drift_blocked :: "string \<Rightarrow> int \<Rightarrow> drift_result" where
  "drift_blocked action retryCount =
     \<lparr>dr_Resolution = DriftResolutionBlocked, dr_ResultCode = ResultProvenBlocked, dr_NextAction = action,
      dr_RetryCount = retryCount\<rparr>"

definition EvaluateDrift :: "drift_config \<Rightarrow> integration_item \<Rightarrow> int \<Rightarrow> bool \<Rightarrow> drift_result" where
  "EvaluateDrift config item retryCount rebaseClean =
     (let rebase = ''manual rebase of group '' @ ii_GroupID item @ '' onto new branch head'' in
      if df_Policy config = RebasePolicyNone then drift_blocked rebase retryCount
      else if df_Policy config = RebasePolicyCleanOnly then
        (if \<not> rebaseClean then drift_blocked (rebase @ '' (conflicting changes detected)'') retryCount
         else if df_MaxRetries config \<le> retryCount then
           drift_blocked (rebase @ '' (max retries '' @ show_int (df_MaxRetries config) @ '' exceeded)'') retryCount
         else
           \<lparr>dr_Resolution = DriftResolutionRequeued, dr_ResultCode = [],
            dr_NextAction = ''requeued group '' @ ii_GroupID item @ '' for rebase attempt '' @ show_int (retryCount + 1),
            dr_RetryCount = retryCount + 1\<rparr>)
      else drift_blocked (''unknown policy '' @ quote (df_Policy config) @ '' '' @ em_dash @ '' treating as PROVEN_BLOCKED'') retryCount)"

section \<open>Queues\<close>

text \<open>
  The interface of a per-branch queue: \<open>waiting\<close> lists what a branch has in line. \<open>accepts\<close> says
  when an item is taken: always in memory; in the database, for a new id at a later time.
\<close>

locale branch_queue =
  fixes enq :: "'e \<Rightarrow> 's \<Rightarrow> integration_item \<Rightarrow> 's" and deq :: "'e \<Rightarrow> 's \<Rightarrow> string \<Rightarrow> integration_item option \<times> 's"
    and waiting :: "'s \<Rightarrow> string \<Rightarrow> integration_item list" and accepts :: "'e \<Rightarrow> 's \<Rightarrow> integration_item \<Rightarrow> bool"
    and up :: "'e \<Rightarrow> bool" and seen :: "'e \<Rightarrow> integration_item \<Rightarrow> integration_item" and inv :: "'s \<Rightarrow> bool"
  assumes enq_waiting: "inv s \<Longrightarrow> accepts e s it \<Longrightarrow>
      waiting (enq e s it) b = waiting s b @ (if ii_Branch it = b then [seen e it] else [])"
    and enq_inv: "inv s \<Longrightarrow> accepts e s it \<Longrightarrow> inv (enq e s it)"
    and deq_empty: "inv s \<Longrightarrow> waiting s b = [] \<Longrightarrow> deq e s b = (None, s)"
    and deq_first: "inv s \<Longrightarrow> up e \<Longrightarrow> waiting s b = it # its \<Longrightarrow>
      \<exists>s'. deq e s b = (Some it, s') \<and> waiting s' b = its \<and> (\<forall>c. c \<noteq> b \<longrightarrow> waiting s' c = waiting s c) \<and> inv s'"
begin

fun enq_all :: "('e \<times> integration_item) list \<Rightarrow> 's \<Rightarrow> 's" where
  "enq_all [] s = s" | "enq_all ((e, it) # its) s = enq_all its (enq e s it)"

fun all_accepted :: "('e \<times> integration_item) list \<Rightarrow> 's \<Rightarrow> bool" where
  "all_accepted [] s = True"
| "all_accepted ((e, it) # its) s = (accepts e s it \<and> all_accepted its (enq e s it))"

fun deq_many :: "'e list \<Rightarrow> string \<Rightarrow> 's \<Rightarrow> integration_item list" where
  "deq_many [] b s = []"
| "deq_many (e # es) b s = (case deq e s b of (None, s') \<Rightarrow> deq_many es b s' | (Some it, s') \<Rightarrow> it # deq_many es b s')"

lemma enq_all_waiting:
  "inv s \<Longrightarrow> all_accepted its s \<Longrightarrow>
     inv (enq_all its s)
     \<and> waiting (enq_all its s) b = waiting s b @ map (\<lambda>(e, it). seen e it) (filter (\<lambda>(e, it). ii_Branch it = b) its)"
  by (induction its arbitrary: s) (auto simp: enq_waiting enq_inv)

lemma deq_many_prefix: "inv s \<Longrightarrow> \<forall>e \<in> set es. up e \<Longrightarrow> deq_many es b s = take (length es) (waiting s b)"
proof (induction es arbitrary: s)
  case (Cons e es)
  show ?case
  proof (cases "waiting s b")
    case Nil
    then show ?thesis using Cons deq_empty [OF Cons.prems(1) Nil, of e] by simp
  next
    case (Cons it its)
    then show ?thesis using Cons.IH Cons.prems deq_first [OF Cons.prems(1) _ Cons, of e] by auto
  qed
qed simp

lemma first_in_first_out:
  assumes "inv s" and "all_accepted its s" and "\<forall>e \<in> set es. up e"
  shows "deq_many es b (enq_all its s) =
    take (length es) (waiting s b @ map (\<lambda>(e, it). seen e it) (filter (\<lambda>(e, it). ii_Branch it = b) its))"
  using enq_all_waiting [OF assms(1,2)] deq_many_prefix assms(3) by simp

end

interpretation mem_queue: branch_queue "\<lambda>_ :: unit. Queue_Enqueue" "\<lambda>_. Queue_Dequeue" "\<lambda>q. q" "\<lambda>_ _ _. True"
  "\<lambda>_. True" "\<lambda>_ it. it" "\<lambda>_. True"
  by unfold_locales (auto simp: Queue_Enqueue_def Queue_Dequeue_def)

text \<open>The Postgres queue keeps ids unique and its rows in order of their times.\<close>

definition queue_inv :: "queue_db \<Rightarrow> bool" where
  "queue_inv db \<longleftrightarrow> distinct (map qr_id (qd_rows db)) \<and> sorted (map qr_enqueued_at (qd_rows db))"

definition pg_waiting :: "queue_db \<Rightarrow> string \<Rightarrow> integration_item list" where
  "pg_waiting db b = map row_item (pending_rows db b)"

definition pg_accepts :: "queue_env \<Rightarrow> queue_db \<Rightarrow> integration_item \<Rightarrow> bool" where
  "pg_accepts e db it \<longleftrightarrow> \<not> qe_fault e \<and> ii_ID it \<notin> qr_id ` set (qd_rows db)
     \<and> (\<forall>r \<in> set (qd_rows db). qr_enqueued_at r \<le> qe_now e)
     \<and> (\<forall>c \<in> set (ii_Commits it). c \<noteq> [] \<and> CHR '','' \<notin> set c)"

lemma pending_rows_filter:
  "queue_inv db \<Longrightarrow> pending_rows db b = filter (\<lambda>r. qr_branch r = b \<and> qr_status r = QPending) (qd_rows db)"
  unfolding pending_rows_def queue_inv_def by (intro sort_key_id_if_sorted sorted_filter) simp

lemma commits_round_trip:
  assumes "\<forall>c \<in> set cs. c \<noteq> [] \<and> CHR '','' \<notin> set c"
  shows "string_to_array (join_with '','' cs) = cs"
    and "(if join_with '','' cs \<noteq> [] then split_on (CHR '','') (join_with '','' cs) else []) = cs"
proof -
  have "join_with '','' cs = [] \<longleftrightarrow> cs = []"
    using assms by (cases cs rule: remdups_adj.cases) auto
  moreover have "split_on (CHR '','') (join_with '','' cs) = cs" if "cs \<noteq> []"
    using split_join [of cs "CHR '',''"] that assms by simp
  ultimately show "string_to_array (join_with '','' cs) = cs"
    and "(if join_with '','' cs \<noteq> [] then split_on (CHR '','') (join_with '','' cs) else []) = cs"
    by (auto simp: string_to_array_def)
qed

lemma set_row_status:
  assumes "\<And>r. qr_id (f r) = qr_id r \<and> qr_enqueued_at (f r) = qr_enqueued_at r" and "queue_inv db"
  shows "queue_inv (set_row f i db)"
proof -
  have "map qr_id (qd_rows (set_row f i db)) = map qr_id (qd_rows db)"
    "map qr_enqueued_at (qd_rows (set_row f i db)) = map qr_enqueued_at (qd_rows db)"
    using assms(1) by (auto simp: set_row_def)
  then show ?thesis using assms(2) unfolding queue_inv_def by simp
qed

lemma claim_rows:
  assumes "distinct (map qr_id rows)" and "filter P rows = r # rs"
    and "\<And>x. P x \<longrightarrow> \<not> P (f x)" "\<And>x. Q x \<longrightarrow> \<not> P x"  "\<And>x. P x \<longrightarrow> \<not> Q (f x)"
  shows "filter P (map (\<lambda>x. if qr_id x = qr_id r then f x else x) rows) = rs"
    and "filter Q (map (\<lambda>x. if qr_id x = qr_id r then f x else x) rows) = filter Q rows"
proof -
  have "r \<in> set (filter P rows)" unfolding assms(2) by simp
  then have "r \<in> set rows" "P r" by auto
  then have "map (\<lambda>x. if qr_id x = qr_id r then f x else x) rows = map (\<lambda>x. if x = r then f r else x) rows"
    using assms(1) by (intro map_cong) (auto dest: inj_onD simp: distinct_map)
  moreover have "distinct rows" using assms(1) by (simp add: distinct_map)
  moreover have "filter P (map (\<lambda>x. if x = r then f r else x) rows) = rs"
    using \<open>distinct rows\<close> assms(2,3) \<open>P r\<close>
  proof (induction rows)
    case (Cons x rows)
    show ?case
    proof (cases "P x")
      case True
      then have "x = r" "filter P rows = rs" "r \<notin> set rows" using Cons.prems by auto
      moreover from this have "map (\<lambda>x. if x = r then f r else x) rows = rows" by (intro map_idI) auto
      ultimately show ?thesis using assms(3) [of r] True by simp
    next
      case False
      then show ?thesis using Cons by auto
    qed
  qed simp
  moreover have "filter Q (map (\<lambda>x. if x = r then f r else x) rows) = filter Q rows"
    using assms(4,5) [of r] \<open>P r\<close> by (induction rows) auto
  ultimately show "filter P (map (\<lambda>x. if qr_id x = qr_id r then f x else x) rows) = rs"
    and "filter Q (map (\<lambda>x. if qr_id x = qr_id r then f x else x) rows) = filter Q rows" by metis+
qed

interpretation pg_queue: branch_queue "\<lambda>e db it. snd (PGQueue_Enqueue e db it)"
  "\<lambda>e db b. case PGQueue_Claim e db b of (Inr r, db') \<Rightarrow> (r, db') | (Inl _, db') \<Rightarrow> (None, db')"
  pg_waiting pg_accepts "\<lambda>e. \<not> qe_fault e" "\<lambda>e it. it\<lparr>ii_EnqueuedAt := qe_now e\<rparr>" queue_inv
proof
  fix s e it b
  assume inv: "queue_inv s" and acc: "pg_accepts e s it"
  define row where "row = \<lparr>qr_id = ii_ID it, qr_branch = ii_Branch it, qr_group_id = ii_GroupID it,
      qr_manifest_digest = ii_ManifestDigest it, qr_commits = ii_Commits it, qr_expected_base = ii_ExpectedBase it,
      qr_status = QPending, qr_enqueued_at = qe_now e, qr_processed_at = None, qr_error_msg = None\<rparr>"
  have cs: "\<forall>c \<in> set (ii_Commits it). c \<noteq> [] \<and> CHR '','' \<notin> set c" using acc by (simp add: pg_accepts_def)
  have db': "snd (PGQueue_Enqueue e s it) = s\<lparr>qd_rows := qd_rows s @ [row]\<rparr>"
    using acc commits_round_trip(1) [OF cs] by (simp add: PGQueue_Enqueue_def pg_accepts_def row_def)
  show inv': "queue_inv (snd (PGQueue_Enqueue e s it))"
    using inv acc unfolding db' by (auto simp: queue_inv_def pg_accepts_def sorted_append row_def)
  have "row_item row = it\<lparr>ii_EnqueuedAt := qe_now e\<rparr>"
    by (simp only: row_def row_item_def Let_def queue_row.simps commits_round_trip(2) [OF cs]) simp
  moreover have "qr_branch row = ii_Branch it" "qr_status row = QPending" by (simp_all add: row_def)
  ultimately show "pg_waiting (snd (PGQueue_Enqueue e s it)) b
      = pg_waiting s b @ (if ii_Branch it = b then [it\<lparr>ii_EnqueuedAt := qe_now e\<rparr>] else [])"
    using pending_rows_filter [OF inv] pending_rows_filter [OF inv'] by (simp add: pg_waiting_def db')
next
  fix s b and e :: queue_env
  assume "pg_waiting s b = []"
  then show "(case PGQueue_Claim e s b of (Inr r, db') \<Rightarrow> (r, db') | (Inl _, db') \<Rightarrow> (None, db')) = (None, s)"
    by (simp add: PGQueue_Claim_def pg_waiting_def)
next
  fix s b it its and e :: queue_env
  assume inv: "queue_inv s" and up: "\<not> qe_fault e" and w: "pg_waiting s b = it # its"
  obtain r rs where r: "pending_rows s b = r # rs" "it = row_item r" "its = map row_item rs"
    using w by (auto simp: pg_waiting_def)
  define db' where "db' = set_row (\<lambda>r. r\<lparr>qr_status := QProcessing\<rparr>) (qr_id r) s"
  have inv': "queue_inv db'" unfolding db'_def by (rule set_row_status [OF _ inv]) simp
  have d: "distinct (map qr_id (qd_rows s))" using inv by (simp add: queue_inv_def)
  note p = pending_rows_filter [OF inv] pending_rows_filter [OF inv']
  have "pending_rows db' b = rs"
    using claim_rows(1) [OF d r(1) [unfolded p(1)], of "\<lambda>r. r\<lparr>qr_status := QProcessing\<rparr>" "\<lambda>_. False"]
    unfolding p(2) by (simp add: db'_def set_row_def)
  moreover have "pending_rows db' c = pending_rows s c" if "c \<noteq> b" for c
    using claim_rows(2) [OF d r(1) [unfolded p(1)], of "\<lambda>r. r\<lparr>qr_status := QProcessing\<rparr>" "\<lambda>r. qr_branch r = c \<and> qr_status r = QPending"] that
    unfolding p by (simp add: db'_def set_row_def)
  moreover have "PGQueue_Claim e s b = (Inr (Some it), db')"
    using up r by (simp add: PGQueue_Claim_def db'_def)
  ultimately show "\<exists>s'. (case PGQueue_Claim e s b of (Inr r, db') \<Rightarrow> (r, db') | (Inl _, db') \<Rightarrow> (None, db')) = (Some it, s')
      \<and> pg_waiting s' b = its \<and> (\<forall>c. c \<noteq> b \<longrightarrow> pg_waiting s' c = pg_waiting s c) \<and> queue_inv s'"
    using inv' r by (simp add: pg_waiting_def)
qed

section \<open>A claimed item is claimed once\<close>

datatype queue_op =
    QEnqueue queue_env integration_item
  | QClaim queue_env string
  | QComplete queue_env string
  | QRequeue queue_env string string string
  | QFail queue_env string string
  | QReceipt queue_env push_receipt

text \<open>A history of calls by any number of workers; the ids of the claimed items are recorded.\<close>

fun queue_run :: "queue_op list \<Rightarrow> queue_db \<Rightarrow> string list \<times> queue_db" where
  "queue_run [] db = ([], db)"
| "queue_run (QEnqueue e it # ops) db = queue_run ops (snd (PGQueue_Enqueue e db it))"
| "queue_run (QClaim e b # ops) db =
     (case PGQueue_Claim e db b of
        (Inr (Some it), db1) \<Rightarrow> (let (ids, db2) = queue_run ops db1 in (ii_ID it # ids, db2))
      | (_, db1) \<Rightarrow> queue_run ops db1)"
| "queue_run (QComplete e i # ops) db = queue_run ops (snd (PGQueue_Complete e db i))"
| "queue_run (QRequeue e i base reason # ops) db = queue_run ops (snd (PGQueue_Requeue e db i base reason))"
| "queue_run (QFail e i reason # ops) db = queue_run ops (snd (PGQueue_Fail e db i reason))"
| "queue_run (QReceipt e r # ops) db = queue_run ops (snd (PGQueue_RecordReceipt e db r))"

definition requeues :: "string \<Rightarrow> queue_op \<Rightarrow> bool" where
  "requeues i op \<longleftrightarrow> (\<exists>e base reason. op = QRequeue e i base reason)"

text \<open>The item is in the table and not in line.\<close>

definition taken :: "string \<Rightarrow> queue_db \<Rightarrow> bool" where
  "taken i db \<longleftrightarrow> i \<in> qr_id ` set (qd_rows db) \<and> (\<forall>r \<in> set (qd_rows db). qr_id r = i \<longrightarrow> qr_status r \<noteq> QPending)"

lemma set_row_ids:
  assumes "\<And>r. qr_id (f r) = qr_id r"
  shows "qr_id ` set (qd_rows (set_row f j db)) = qr_id ` set (qd_rows db)"
proof -
  have "map qr_id (qd_rows (set_row f j db)) = map qr_id (qd_rows db)" using assms by (simp add: set_row_def)
  then show ?thesis by (metis set_map)
qed

lemma taken_set_row:
  assumes "taken i db" and "\<And>r. qr_id (f r) = qr_id r" and "j = i \<Longrightarrow> \<forall>r. qr_status (f r) \<noteq> QPending"
  shows "taken i (set_row f j db)"
  unfolding taken_def set_row_ids [OF assms(2)]
proof (intro conjI ballI impI)
  show "i \<in> qr_id ` set (qd_rows db)" using assms(1) by (simp add: taken_def)
  fix r assume "r \<in> set (qd_rows (set_row f j db))" and i: "qr_id r = i"
  then obtain x where "x \<in> set (qd_rows db)" "r = (if qr_id x = j then f x else x)" by (auto simp: set_row_def)
  then show "qr_status r \<noteq> QPending" using assms i by (auto simp: taken_def split: if_splits)
qed

lemma pending_rows_set: "set (pending_rows db b) \<subseteq> {r \<in> set (qd_rows db). qr_status r = QPending}"
  by (auto simp: pending_rows_def)

lemma taken_not_claimed:
  "taken i db \<Longrightarrow> \<forall>op \<in> set ops. \<not> requeues i op \<Longrightarrow> i \<notin> set (fst (queue_run ops db))"
proof (induction ops arbitrary: db)
  case (Cons op ops)
  have IH: "taken i db1 \<Longrightarrow> i \<notin> set (fst (queue_run ops db1))" for db1
    using Cons.IH Cons.prems(2) by simp
  show ?case
  proof (cases op)
    case (QEnqueue e it)
    have "taken i (snd (PGQueue_Enqueue e db it))"
      using Cons.prems(1) by (auto simp: taken_def PGQueue_Enqueue_def)
    then show ?thesis using IH QEnqueue by simp
  next
    case (QClaim e b)
    show ?thesis
    proof (cases "qe_fault e \<or> pending_rows db b = []")
      case True
      then show ?thesis using IH Cons.prems(1) QClaim by (auto simp: PGQueue_Claim_def)
    next
      case False
      then obtain r rs where r: "pending_rows db b = r # rs" by (meson neq_Nil_conv)
      then have "r \<in> set (qd_rows db)" "qr_status r = QPending" using pending_rows_set [of db b] by auto
      then have "qr_id r \<noteq> i" using Cons.prems(1) by (auto simp: taken_def)
      moreover have "taken i (set_row (\<lambda>r. r\<lparr>qr_status := QProcessing\<rparr>) (qr_id r) db)"
        by (rule taken_set_row [OF Cons.prems(1)]) simp_all
      moreover have "fst (queue_run (op # ops) db)
          = qr_id r # fst (queue_run ops (set_row (\<lambda>r. r\<lparr>qr_status := QProcessing\<rparr>) (qr_id r) db))"
        using False r QClaim by (simp add: PGQueue_Claim_def row_item_def Let_def split: prod.splits)
      ultimately show ?thesis using IH by simp
    qed
  next
    case (QComplete e j)
    have "taken i (snd (PGQueue_Complete e db j))"
      using Cons.prems(1) by (auto simp: PGQueue_Complete_def intro!: taken_set_row)
    then show ?thesis using IH QComplete by simp
  next
    case (QRequeue e j base reason)
    then have "j \<noteq> i" using Cons.prems(2) by (auto simp: requeues_def)
    then have "taken i (snd (PGQueue_Requeue e db j base reason))"
      using Cons.prems(1) by (auto simp: PGQueue_Requeue_def intro!: taken_set_row)
    then show ?thesis using IH QRequeue by simp
  next
    case (QFail e j reason)
    have "taken i (snd (PGQueue_Fail e db j reason))"
      using Cons.prems(1) by (auto simp: PGQueue_Fail_def intro!: taken_set_row)
    then show ?thesis using IH QFail by simp
  next
    case (QReceipt e r)
    have "taken i (snd (PGQueue_RecordReceipt e db r))"
      using Cons.prems(1) by (auto simp: PGQueue_RecordReceipt_def taken_def Let_def)
    then show ?thesis using IH QReceipt by simp
  qed
qed simp

text \<open>
  An item that one worker claimed is not claimed again, by any worker, in any history of
  queue calls that does not requeue it; enqueueing its id again is refused.
\<close>

theorem PGQueue_claim_once:
  assumes "PGQueue_Claim e db b = (Inr (Some it), db1)"
    and "\<forall>op \<in> set ops. \<not> requeues (ii_ID it) op"
  shows "ii_ID it \<notin> set (fst (queue_run ops db1))"
proof (rule taken_not_claimed [OF _ assms(2)])
  obtain r rs where r: "pending_rows db b = r # rs" "it = row_item r"
    and db1: "db1 = set_row (\<lambda>r. r\<lparr>qr_status := QProcessing\<rparr>) (qr_id r) db"
    using assms(1) by (auto simp: PGQueue_Claim_def split: if_splits list.splits)
  have "r \<in> set (qd_rows db)" using r(1) pending_rows_set [of db b] by auto
  moreover have "ii_ID it = qr_id r" using r(2) by (simp add: row_item_def Let_def)
  ultimately show "taken (ii_ID it) db1" unfolding db1 taken_def
    by (subst set_row_ids) (auto simp: set_row_def)
qed

definition queue_env_at :: "int \<Rightarrow> queue_env" where
  "queue_env_at t = \<lparr>qe_now = t, qe_fault = False\<rparr>"

definition queued_row :: "string \<Rightarrow> int \<Rightarrow> queue_row" where
  "queued_row i t = \<lparr>qr_id = i, qr_branch = ''main'', qr_group_id = ''g'', qr_manifest_digest = ''d'', qr_commits = [''c1''],
     qr_expected_base = ''b0'', qr_status = QPending, qr_enqueued_at = t, qr_processed_at = None, qr_error_msg = None\<rparr>"

theorem PGQueue_claim_once_witness:
  "''i1'' \<notin> set (fst (queue_run [QClaim (queue_env_at 5) ''main'', QClaim (queue_env_at 6) ''main'']
     (snd (PGQueue_Claim (queue_env_at 4) \<lparr>qd_rows = [queued_row ''i1'' 1, queued_row ''i2'' 2], qd_receipts = []\<rparr> ''main''))))"
proof -
  have "PGQueue_Claim (queue_env_at 4) \<lparr>qd_rows = [queued_row ''i1'' 1, queued_row ''i2'' 2], qd_receipts = []\<rparr> ''main''
      = (Inr (Some (row_item (queued_row ''i1'' 1))),
         snd (PGQueue_Claim (queue_env_at 4) \<lparr>qd_rows = [queued_row ''i1'' 1, queued_row ''i2'' 2], qd_receipts = []\<rparr> ''main''))"
    by (simp add: PGQueue_Claim_def queue_env_at_def pending_rows_def queued_row_def)
  from PGQueue_claim_once [OF this, of "[QClaim (queue_env_at 5) ''main'', QClaim (queue_env_at 6) ''main'']"]
  show ?thesis by (simp add: requeues_def row_item_def queued_row_def Let_def del: queue_run.simps)
qed

text \<open>
  Claims do not serialise the work on a branch: with two items in line, two workers claim
  one after the other and both items are being processed at once.
\<close>

theorem PGQueue_two_in_process:
  assumes "queue_inv db" and "pending_rows db b = r1 # r2 # rs" and "\<not> qe_fault e1" and "\<not> qe_fault e2"
  shows "\<exists>db1 db2 s1 s2. PGQueue_Claim e1 db b = (Inr (Some (row_item r1)), db1)
    \<and> PGQueue_Claim e2 db1 b = (Inr (Some (row_item r2)), db2)
    \<and> s1 \<in> set (qd_rows db2) \<and> s2 \<in> set (qd_rows db2) \<and> qr_id s1 \<noteq> qr_id s2
    \<and> qr_branch s1 = b \<and> qr_branch s2 = b \<and> qr_status s1 = QProcessing \<and> qr_status s2 = QProcessing"
proof -
  define f where "f = (\<lambda>r :: queue_row. r\<lparr>qr_status := QProcessing\<rparr>)"
  define db1 where "db1 = set_row f (qr_id r1) db"
  define db2 where "db2 = set_row f (qr_id r2) db1"
  have f: "qr_id (f r) = qr_id r" "qr_branch (f r) = qr_branch r" "qr_status (f r) = QProcessing" for r by (simp_all add: f_def)
  have d: "distinct (map qr_id (qd_rows db))" using assms(1) by (simp add: queue_inv_def)
  have inv1: "queue_inv db1" unfolding db1_def by (rule set_row_status [OF _ assms(1)]) (simp add: f_def)
  have p: "filter (\<lambda>r. qr_branch r = b \<and> qr_status r = QPending) (qd_rows db) = r1 # r2 # rs"
    using assms(2) pending_rows_filter [OF assms(1)] by simp
  have p1: "pending_rows db1 b = r2 # rs"
    using claim_rows(1) [OF d p, of f "\<lambda>_. False"] pending_rows_filter [OF inv1] f by (simp add: db1_def set_row_def)
  have rs: "r1 \<in> set (qd_rows db)" "r2 \<in> set (qd_rows db)" "qr_branch r1 = b" "qr_branch r2 = b"
    using p by (metis (mono_tags, lifting) filter_eq_ConsD in_set_conv_decomp list.set_intros filter_set mem_Collect_eq Set.filter_eq set_filter)+
  have ne: "qr_id r1 \<noteq> qr_id r2"
  proof -
    have "distinct (map qr_id (filter (\<lambda>r. qr_branch r = b \<and> qr_status r = QPending) (qd_rows db)))"
      using d by (rule distinct_map_filter)
    then show ?thesis unfolding p by simp
  qed
  have "f r1 \<in> set (qd_rows db2)" "f r2 \<in> set (qd_rows db2)"
    using rs ne f by (auto simp: db2_def db1_def set_row_def image_iff)
  moreover have "PGQueue_Claim e1 db b = (Inr (Some (row_item r1)), db1)"
    using assms(2,3) by (simp add: PGQueue_Claim_def db1_def f_def)
  moreover have "PGQueue_Claim e2 db1 b = (Inr (Some (row_item r2)), db2)"
    using p1 assms(4) by (simp add: PGQueue_Claim_def db2_def f_def)
  ultimately show ?thesis using rs ne f by metis
qed

theorem PGQueue_two_in_process_witness:
  "\<exists>db1 db2 s1 s2. PGQueue_Claim (queue_env_at 4) \<lparr>qd_rows = [queued_row ''i1'' 1, queued_row ''i2'' 2], qd_receipts = []\<rparr> ''main''
      = (Inr (Some (row_item (queued_row ''i1'' 1))), db1)
    \<and> PGQueue_Claim (queue_env_at 5) db1 ''main'' = (Inr (Some (row_item (queued_row ''i2'' 2))), db2)
    \<and> s1 \<in> set (qd_rows db2) \<and> s2 \<in> set (qd_rows db2) \<and> qr_id s1 \<noteq> qr_id s2
    \<and> qr_branch s1 = ''main'' \<and> qr_branch s2 = ''main'' \<and> qr_status s1 = QProcessing \<and> qr_status s2 = QProcessing"
  by (rule PGQueue_two_in_process)
    (simp_all add: queue_inv_def pending_rows_def queued_row_def queue_env_at_def)

section \<open>One item goes through in order\<close>

definition push_of :: "integrator_event \<Rightarrow> bool" where
  "push_of ev = (case ev of EvCASPush _ _ _ _ \<Rightarrow> True | _ \<Rightarrow> False)"

definition release_of :: "integrator_event \<Rightarrow> bool" where
  "release_of ev = (case ev of EvReleaseLease _ _ \<Rightarrow> True | _ \<Rightarrow> False)"

lemmas process_splits = sum.splits push_error.splits option.splits if_splits

text \<open>
  C37: A branch is pushed to only under a lease and on the expected head: when a push was
  attempted, the lease of the branch had been granted with the token the push carries, the
  head had been read after that and was the base of the item, and the push was the third
  call. Whatever happened after a granted lease, its release is the last call and the only
  release. A receipt is recorded and returned exactly for a push that went through, with
  the branch, base, group and manifest of the item and the head the push reported.
\<close>

theorem ProcessItem_guarded:
  assumes "ProcessItem g leaseTTL now item = (rec, err, evs)"
  shows "(EvCASPush b base commits token \<in> set evs \<longrightarrow>
      iw_AcquireLease g (take 1 evs) = Inr token \<and> hd evs = EvAcquire b (ii_ID item) leaseTTL
      \<and> iw_ReadHead g (take 2 evs) = Inr base \<and> evs ! 1 = EvReadHead b
      \<and> evs ! 2 = EvCASPush b base commits token
      \<and> b = ii_Branch item \<and> base = ii_ExpectedBase item \<and> commits = ii_Commits item)
    \<and> (iw_AcquireLease g (take 1 evs) = Inr tok \<longrightarrow>
      last evs = EvReleaseLease (ii_Branch item) tok \<and> length (filter release_of evs) = 1)
    \<and> (EvRecordReceipt r \<in> set evs \<longleftrightarrow>
      r = rec \<and> (\<exists>after. list_ex push_of (take 3 evs) \<and> iw_CASPush g (take 3 evs) = Inr after
        \<and> rec = \<lparr>rc_Branch = ii_Branch item, rc_BeforeSHA = ii_ExpectedBase item, rc_AfterSHA = after,
             rc_GroupID = ii_GroupID item, rc_ManifestDigest = ii_ManifestDigest item, rc_IssuedAt = Some now\<rparr>))"
  using assms unfolding ProcessItem_def Let_def push_of_def release_of_def
  by (auto simp: numeral_2_eq_2 numeral_3_eq_3 split: process_splits)

definition calm_world :: integrator_world where
  "calm_world = \<lparr>iw_AcquireLease = (\<lambda>_. Inr ''t1''), iw_ReadHead = (\<lambda>_. Inr ''b0''), iw_CASPush = (\<lambda>_. Inr ''h1''),
     iw_RecordReceipt = (\<lambda>_. None)\<rparr>"

definition calm_item :: integration_item where
  "calm_item = row_item (queued_row ''i1'' 1)"

theorem ProcessItem_guarded_witness:
  "iw_ReadHead calm_world [EvAcquire ''main'' ''i1'' 60, EvReadHead ''main''] = Inr (ii_ExpectedBase calm_item)
    \<and> ProcessItem calm_world 60 7 calm_item =
      (\<lparr>rc_Branch = ''main'', rc_BeforeSHA = ''b0'', rc_AfterSHA = ''h1'', rc_GroupID = ''g'', rc_ManifestDigest = ''d'',
         rc_IssuedAt = Some 7\<rparr>, None,
       [EvAcquire ''main'' ''i1'' 60, EvReadHead ''main'', EvCASPush ''main'' ''b0'' [''c1''] ''t1'',
        EvRecordReceipt \<lparr>rc_Branch = ''main'', rc_BeforeSHA = ''b0'', rc_AfterSHA = ''h1'', rc_GroupID = ''g'',
          rc_ManifestDigest = ''d'', rc_IssuedAt = Some 7\<rparr>,
        EvReleaseLease ''main'' ''t1''])"
proof -
  have run: "ProcessItem calm_world 60 7 calm_item =
      (\<lparr>rc_Branch = ''main'', rc_BeforeSHA = ''b0'', rc_AfterSHA = ''h1'', rc_GroupID = ''g'', rc_ManifestDigest = ''d'',
         rc_IssuedAt = Some 7\<rparr>, None,
       [EvAcquire ''main'' ''i1'' 60, EvReadHead ''main'', EvCASPush ''main'' ''b0'' [''c1''] ''t1'',
        EvRecordReceipt \<lparr>rc_Branch = ''main'', rc_BeforeSHA = ''b0'', rc_AfterSHA = ''h1'', rc_GroupID = ''g'',
          rc_ManifestDigest = ''d'', rc_IssuedAt = Some 7\<rparr>,
        EvReleaseLease ''main'' ''t1''])"
    by (simp add: ProcessItem_def calm_world_def calm_item_def row_item_def queued_row_def Let_def split_on.simps)
  have "iw_ReadHead calm_world (take 2 [EvAcquire ''main'' ''i1'' 60, EvReadHead ''main'']) = Inr ''b0''
      \<and> ''b0'' = ii_ExpectedBase calm_item"
    using conjunct1 [OF ProcessItem_guarded [OF run, of "''main''" "''b0''" "[''c1'']" "''t1''"]]
    by (simp add: numeral_2_eq_2 calm_item_def row_item_def queued_row_def Let_def split_on.simps)
  then show ?thesis using run by (simp add: numeral_2_eq_2)
qed

section \<open>Drift in a series\<close>

fun drift_run :: "drift_config \<Rightarrow> integration_item \<Rightarrow> int \<Rightarrow> bool list \<Rightarrow> drift_result list" where
  "drift_run config item n [] = []"
| "drift_run config item n (clean # cleans) =
     (let r = EvaluateDrift config item n clean in
      r # (if dr_Resolution r = DriftResolutionRequeued then drift_run config item (dr_RetryCount r) cleans else []))"

lemma drift_run_bound:
  "length (filter (\<lambda>r. dr_Resolution r = DriftResolutionRequeued) (drift_run config item n cleans)) \<le> nat (df_MaxRetries config - n)"
proof (induction cleans arbitrary: n)
  case (Cons clean cleans)
  have "dr_Resolution (EvaluateDrift config item n clean) = DriftResolutionRequeued \<Longrightarrow>
      n < df_MaxRetries config \<and> dr_RetryCount (EvaluateDrift config item n clean) = n + 1"
    by (auto simp: EvaluateDrift_def drift_blocked_def Let_def split: if_splits)
  then show ?case using Cons.IH [of "n + 1"] by (auto simp: Let_def)
qed simp

lemma drift_run_outcomes:
  "list_all (\<lambda>r. if dr_Resolution r = DriftResolutionRequeued then df_Policy config = RebasePolicyCleanOnly
     else dr_Resolution r = DriftResolutionBlocked \<and> dr_ResultCode r = ResultProvenBlocked \<and> dr_NextAction r \<noteq> [])
   (drift_run config item n cleans)"
  by (induction cleans arbitrary: n) (auto simp: Let_def EvaluateDrift_def drift_blocked_def)

lemma drift_run_clean:
  "list_all2 (\<lambda>r clean. (if dr_Resolution r = DriftResolutionRequeued then clean else True))
     (drift_run config item n cleans) (take (length (drift_run config item n cleans)) cleans)"
  by (induction cleans arbitrary: n) (auto simp: Let_def EvaluateDrift_def drift_blocked_def)

lemma drift_run_ends:
  "list_all (\<lambda>r. dr_Resolution r = DriftResolutionRequeued) (butlast (drift_run config item n cleans))"
  by (induction cleans arbitrary: n) (auto simp: Let_def)

text \<open>
  Drift is retried a bounded number of times. Whatever the rebases of an item do, it is
  requeued at most \<open>MaxRetries\<close> times, only after a clean rebase and only under the clean-only
  policy; every other evaluation is \<open>PROVEN_BLOCKED\<close> with an action for a human and ends the
  series.
\<close>

theorem drift_bounded:
  fixes config item cleans
  defines "results \<equiv> drift_run config item 0 cleans"
  shows "length (filter (\<lambda>r. dr_Resolution r = DriftResolutionRequeued) results) \<le> nat (df_MaxRetries config)
    \<and> list_all (\<lambda>r. if dr_Resolution r = DriftResolutionRequeued then df_Policy config = RebasePolicyCleanOnly
         else dr_Resolution r = DriftResolutionBlocked \<and> dr_ResultCode r = ResultProvenBlocked \<and> dr_NextAction r \<noteq> []) results
    \<and> list_all2 (\<lambda>r clean. if dr_Resolution r = DriftResolutionRequeued then clean else True) results (take (length results) cleans)
    \<and> list_all (\<lambda>r. dr_Resolution r = DriftResolutionRequeued) (butlast results)"
  using drift_run_bound [of config item 0 cleans] drift_run_outcomes drift_run_clean drift_run_ends
  by (simp add: results_def)

end
