(* ===== verification/Change_Set.thy ===== *)
theory Change_Set
  imports Integrator Pec "HOL-Library.AList"
begin

text \<open>
  Change sets: the saga that integrates one initiative over several repositories
  (\<open>internal/kernel/changeset.go\<close>) and the manifest of an atomic group of commits
  (\<open>internal/kernel/atomicgroup.go\<close>). The lemmas show that \<open>topoOrder\<close> sorts exactly the
  closed acyclic dependency graphs, that \<open>RunChangeSet\<close> integrates a repository only behind
  its dependencies and reports every pushed branch, and that the digest of a manifest does
  not depend on the order its entries were collected in.
\<close>

section \<open>Data\<close>

record cross_repo_contract =
  ct_Name :: string
  ct_Digest :: string

record repo_node =
  rn_Alias :: string
  rn_DependsOn :: "string list"

record change_set_plan =
  cp_InitiativeID :: string
  cp_Contracts :: "cross_repo_contract list"
  cp_Repos :: "repo_node list"
  cp_EnvRevision :: string

record repo_attempt =
  ra_Pushed :: bool
  ra_Receipt :: push_receipt
  ra_Err :: string

datatype repo_status = RepoIntegrated | RepoPushedBlocked | RepoFailed

record repo_receipt =
  rr_Alias :: string
  rr_Status :: repo_status
  rr_Receipt :: push_receipt
  rr_Error :: string

record change_set_result =
  cr_InitiativeID :: string
  cr_Status :: status
  cr_ResultCode :: result_code
  cr_ContractDigests :: "string list"
  cr_EnvRevision :: string
  cr_Receipts :: "(string \<times> repo_receipt) list"
  cr_NextAction :: string

section \<open>Frozen contracts\<close>

text \<open>The digest list and the combined digest; \<open>sha256hex\<close> is SHA-256 in hexadecimal.\<close>

definition FreezeContracts :: "(string \<Rightarrow> string) \<Rightarrow> cross_repo_contract list \<Rightarrow> string list \<times> string" where
  "FreezeContracts sha256hex contracts =
     (let digests = sort (map (\<lambda>c. ct_Name c @ ''@'' @ ct_Digest c) contracts) in
      (digests, sha256hex (join_with [newline] digests)))"

section \<open>The dependency order\<close>

datatype topo_error = UnknownRepo string string | RepoCycle nat

text \<open>
  A Go map with a zero default is an association list with one entry per key, so that the
  loop below is a total function.
\<close>

type_synonym 'v go_map = "(string \<times> 'v) list"

definition lookup :: "'v \<Rightarrow> 'v go_map \<Rightarrow> string \<Rightarrow> 'v" where
  "lookup z m k = (case map_of m k of Some v \<Rightarrow> v | None \<Rightarrow> z)"

abbreviation indeg_at :: "int go_map \<Rightarrow> string \<Rightarrow> int" where
  "indeg_at \<equiv> lookup 0"

abbreviation deps_at :: "string list go_map \<Rightarrow> string \<Rightarrow> string list" where
  "deps_at \<equiv> lookup []"

fun topo_edges ::
  "string list \<Rightarrow> string \<Rightarrow> string list \<Rightarrow> int go_map \<times> string list go_map
     \<Rightarrow> topo_error + int go_map \<times> string list go_map" where
  "topo_edges known alias [] st = Inr st"
| "topo_edges known alias (d # ds) (indeg, deps) =
     (if d \<notin> set known then Inl (UnknownRepo alias d)
      else topo_edges known alias ds
             (AList.update alias (indeg_at indeg alias + 1) indeg, AList.update d (deps_at deps d @ [alias]) deps))"

fun topo_graph ::
  "string list \<Rightarrow> repo_node list \<Rightarrow> int go_map \<times> string list go_map
     \<Rightarrow> topo_error + int go_map \<times> string list go_map" where
  "topo_graph known [] st = Inr st"
| "topo_graph known (r # rs) (indeg, deps) =
     (case topo_edges known (rn_Alias r) (rn_DependsOn r)
             (if rn_Alias r \<in> fst ` set indeg then indeg else AList.update (rn_Alias r) 0 indeg, deps) of
        Inl e \<Rightarrow> Inl e
      | Inr st \<Rightarrow> topo_graph known rs st)"

fun release_children :: "string list \<Rightarrow> int go_map \<Rightarrow> string list \<Rightarrow> int go_map \<times> string list" where
  "release_children [] indeg ready = (indeg, ready)"
| "release_children (c # cs) indeg ready =
     (let indeg1 = AList.update c (indeg_at indeg c - 1) indeg in
      release_children cs indeg1 (if indeg_at indeg1 c = 0 then ready @ [c] else ready))"

text \<open>
  Every turn of the loop takes one repository off the ready list, and one joins it only when
  its counter leaves the positive numbers, so the two together run out.
\<close>

definition positives :: "int go_map \<Rightarrow> nat" where
  "positives m = length (filter (\<lambda>(_, v). 0 < v) m)"

lemma positives_update:
  "positives (AList.update c (indeg_at m c - 1) m) + (if indeg_at m c = 1 then 1 else 0) \<le> positives m"
  by (induction m) (auto simp: positives_def lookup_def split: option.splits)

lemma release_children_measure:
  "release_children cs indeg ready = (indeg1, ready1) \<Longrightarrow> positives indeg1 + length ready1 \<le> positives indeg + length ready"
proof (induction cs arbitrary: indeg ready)
  case (Cons c cs)
  have "indeg_at (AList.update c v indeg) c = v" for v by (simp add: lookup_def update_conv')
  then show ?case using Cons positives_update [of c indeg] by (fastforce simp: Let_def split: if_splits)
qed simp

function topo_loop :: "string list go_map \<Rightarrow> int go_map \<Rightarrow> string list \<Rightarrow> string list \<Rightarrow> string list" where
  "topo_loop deps indeg [] order = order"
| "topo_loop deps indeg (next1 # ready) order =
     (let (indeg1, ready1) = release_children (sort (deps_at deps next1)) indeg ready in
      topo_loop deps indeg1 (sort ready1) (order @ [next1]))"
  by pat_completeness auto
termination
proof (relation "measure (\<lambda>(deps, indeg, ready, order). positives indeg + length ready)")
  fix deps indeg next1 ready order x indeg1 ready1
  assume "x = release_children (sort (deps_at deps next1)) indeg ready" and "(indeg1, ready1) = x"
  then have "positives indeg1 + length ready1 \<le> positives indeg + length ready"
    by (metis release_children_measure)
  then show "((deps, indeg1, sort ready1, order @ [next1]), deps, indeg, next1 # ready, order)
      \<in> measure (\<lambda>(deps, indeg, ready, order). positives indeg + length ready)" by simp
qed simp

definition topoOrder :: "repo_node list \<Rightarrow> topo_error + string list" where
  "topoOrder repos =
     (case topo_graph (map rn_Alias repos) repos ([], []) of
        Inl e \<Rightarrow> Inl e
      | Inr (indeg, deps) \<Rightarrow>
          (let ready = sort (map fst (filter (\<lambda>(_, d). d = 0) indeg));
               order = topo_loop deps indeg ready [] in
           if length order \<noteq> length repos then Inl (RepoCycle (length repos)) else Inr order))"

section \<open>The order is right\<close>

lemma lookup_update [simp]: "lookup z (AList.update k v m) j = (if j = k then v else lookup z m j)"
  by (simp add: lookup_def update_conv')

text \<open>All dependencies a list of repositories declares for an alias, with repetitions.\<close>

definition alias_deps :: "repo_node list \<Rightarrow> string \<Rightarrow> string list" where
  "alias_deps repos a = concat (map rn_DependsOn (filter (\<lambda>r. rn_Alias r = a) repos))"

definition repo_deps :: "repo_node list \<Rightarrow> (string \<times> string) set" where
  "repo_deps repos = {(a, d). d \<in> set (alias_deps repos a)}"

lemma repo_deps_iff: "(a, d) \<in> repo_deps repos \<longleftrightarrow> (\<exists>r \<in> set repos. rn_Alias r = a \<and> d \<in> set (rn_DependsOn r))"
  by (auto simp: repo_deps_def alias_deps_def)

text \<open>The counters and edge lists that describe a given assignment of dependencies.\<close>

definition graph_of :: "(string \<Rightarrow> string list) \<Rightarrow> int go_map \<Rightarrow> string list go_map \<Rightarrow> bool" where
  "graph_of ds indeg deps \<longleftrightarrow> distinct (map fst indeg)
     \<and> (\<forall>a. indeg_at indeg a = int (length (ds a))) \<and> (\<forall>a d. count_list (deps_at deps d) a = count_list (ds a) d)"

lemma topo_edges_spec:
  assumes "graph_of ds indeg deps" and "alias \<in> fst ` set indeg"
  shows "case topo_edges known alias es (indeg, deps) of
     Inl e \<Rightarrow> \<exists>d \<in> set es. d \<notin> set known \<and> e = UnknownRepo alias d
   | Inr (indeg1, deps1) \<Rightarrow> set es \<subseteq> set known \<and> graph_of (ds(alias := ds alias @ es)) indeg1 deps1
       \<and> fst ` set indeg1 = fst ` set indeg"
  using assms
proof (induction known "alias" es "(indeg, deps)" arbitrary: ds indeg deps rule: topo_edges.induct)
  case (2 known a d es indeg deps)
  let ?i = "AList.update a (indeg_at indeg a + 1) indeg" and ?d = "AList.update d (deps_at deps d @ [a]) deps"
  have "graph_of (ds(a := ds a @ [d])) ?i ?d"
    using "2.prems"(1) by (auto simp: graph_of_def distinct_update)
  moreover have keys: "fst ` set ?i = fst ` set indeg"
    using "2.prems"(2) by (simp add: dom_map_of_conv_image_fst [symmetric] update_conv' insert_absorb)
  ultimately have IH: "d \<in> set known \<Longrightarrow> case topo_edges known a es (?i, ?d) of
      Inl e \<Rightarrow> \<exists>d \<in> set es. d \<notin> set known \<and> e = UnknownRepo a d
    | Inr (indeg1, deps1) \<Rightarrow> set es \<subseteq> set known \<and> graph_of (ds(a := ds a @ d # es)) indeg1 deps1
        \<and> fst ` set indeg1 = fst ` set indeg"
    using "2.hyps" [of "ds(a := ds a @ [d])"] "2.prems"(2) by (auto split: sum.splits)
  show ?case
  proof (cases "d \<in> set known")
    case True
    then show ?thesis using IH by (auto split: sum.splits)
  qed simp
qed simp

lemma topo_graph_spec:
  assumes "graph_of ds indeg deps" and "\<And>a. a \<notin> fst ` set indeg \<Longrightarrow> ds a = []"
  shows "case topo_graph known rs (indeg, deps) of
     Inl e \<Rightarrow> \<exists>r \<in> set rs. \<exists>d \<in> set (rn_DependsOn r). d \<notin> set known \<and> e = UnknownRepo (rn_Alias r) d
   | Inr (indeg1, deps1) \<Rightarrow> (\<forall>r \<in> set rs. set (rn_DependsOn r) \<subseteq> set known)
       \<and> graph_of (\<lambda>a. ds a @ alias_deps rs a) indeg1 deps1
       \<and> fst ` set indeg1 = fst ` set indeg \<union> rn_Alias ` set rs"
  using assms
proof (induction rs arbitrary: ds indeg deps)
  case Nil
  then show ?case by (simp add: alias_deps_def)
next
  case (Cons r rs)
  let ?a = "rn_Alias r"
  define i where "i = (if ?a \<in> fst ` set indeg then indeg else AList.update ?a 0 indeg)"
  have i: "graph_of ds i deps" "fst ` set i = insert ?a (fst ` set indeg)"
    using Cons.prems
    by (auto simp: i_def graph_of_def distinct_update dom_map_of_conv_image_fst [symmetric] update_conv')
  note E = topo_edges_spec [OF i(1), of ?a "rn_DependsOn r" known]
  show ?case
  proof (cases "topo_edges known ?a (rn_DependsOn r) (i, deps)")
    case (Inl e)
    then show ?thesis using E i(2) by (auto simp: i_def [symmetric])
  next
    case (Inr st)
    obtain i1 d1 where st: "st = (i1, d1)" by fastforce
    have g: "set (rn_DependsOn r) \<subseteq> set known" "graph_of (ds(?a := ds ?a @ rn_DependsOn r)) i1 d1"
        "fst ` set i1 = insert ?a (fst ` set indeg)"
      using E Inr st i(2) by auto
    have app: "(ds(?a := ds ?a @ rn_DependsOn r)) a @ alias_deps rs a = ds a @ alias_deps (r # rs) a" for a
      by (auto simp: alias_deps_def)
    have "case topo_graph known rs (i1, d1) of
       Inl e \<Rightarrow> \<exists>r \<in> set rs. \<exists>d \<in> set (rn_DependsOn r). d \<notin> set known \<and> e = UnknownRepo (rn_Alias r) d
     | Inr (indeg1, deps1) \<Rightarrow> (\<forall>r \<in> set rs. set (rn_DependsOn r) \<subseteq> set known)
         \<and> graph_of (\<lambda>a. ds a @ alias_deps (r # rs) a) indeg1 deps1
         \<and> fst ` set indeg1 = fst ` set i1 \<union> rn_Alias ` set rs"
      using Cons.IH [OF g(2)] g(3) Cons.prems(2) unfolding app by auto
    moreover have "topo_graph known (r # rs) (indeg, deps) = topo_graph known rs (i1, d1)"
      using Inr st by (simp add: i_def)
    ultimately show ?thesis using g(1,3) by (auto split: sum.splits)
  qed
qed

text \<open>Processing a repository's dependents takes their counters down and readies those that reach zero.\<close>

lemma release_children_spec:
  assumes "release_children cs indeg ready = (indeg1, ready1)" and "distinct (map fst indeg)"
    and "\<And>c. c \<in> set cs \<Longrightarrow> int (count_list cs c) \<le> indeg_at indeg c"
  shows "distinct (map fst indeg1) \<and> (\<forall>a. indeg_at indeg1 a = indeg_at indeg a - int (count_list cs a))
    \<and> (\<exists>new. ready1 = ready @ new \<and> distinct new \<and> set new = {c \<in> set cs. indeg_at indeg c = int (count_list cs c)})"
  using assms
proof (induction cs arbitrary: indeg ready)
  case (Cons c cs)
  let ?i = "AList.update c (indeg_at indeg c - 1) indeg"
  have c: "1 + int (count_list cs c) \<le> indeg_at indeg c" using Cons.prems(3) [of c] by simp
  have le: "int (count_list cs a) \<le> indeg_at ?i a" if "a \<in> set cs" for a
    using Cons.prems(3) [of a] that by (auto split: if_splits)
  have run: "release_children cs ?i (if indeg_at indeg c = 1 then ready @ [c] else ready) = (indeg1, ready1)"
    using Cons.prems(1) by (simp add: Let_def)
  obtain new where n: "distinct (map fst indeg1)" "\<forall>a. indeg_at indeg1 a = indeg_at ?i a - int (count_list cs a)"
      "ready1 = (if indeg_at indeg c = 1 then ready @ [c] else ready) @ new" "distinct new"
      "set new = {a \<in> set cs. indeg_at ?i a = int (count_list cs a)}"
    using Cons.IH [OF run distinct_update [OF Cons.prems(2)] le] by auto
  define new1 where "new1 = (if indeg_at indeg c = 1 then c # new else new)"
  have one: "indeg_at indeg c = 1 \<Longrightarrow> c \<notin> set cs" using c by (simp add: count_list_0_iff)
  have mem: "a \<in> set new \<longleftrightarrow> a \<in> set cs \<and> indeg_at indeg a = int (count_list (c # cs) a)" for a
    using n(5) by auto
  have "c \<notin> set cs \<Longrightarrow> count_list cs c = 0" by (simp add: count_list_0_iff)
  then have "a \<in> set new1 \<longleftrightarrow> a \<in> set (c # cs) \<and> indeg_at indeg a = int (count_list (c # cs) a)" for a
    using mem [of a] one by (cases "a = c"; cases "c \<in> set cs") (auto simp: new1_def)
  moreover have "ready1 = ready @ new1" "distinct new1" using n(3,4) one mem [of c] by (auto simp: new1_def)
  ultimately have "ready1 = ready @ new1 \<and> distinct new1 \<and> set new1 = {a \<in> set (c # cs). indeg_at indeg a = int (count_list (c # cs) a)}"
    by blast
  then show ?case using n(1,2) by auto
qed simp

definition deps_first :: "(string \<Rightarrow> string list) \<Rightarrow> string list \<Rightarrow> bool" where
  "deps_first ds order \<longleftrightarrow> (\<forall>i < length order. set (ds (order ! i)) \<subseteq> set (take i order))"

lemma deps_first_snoc: "deps_first ds (order @ [a]) \<longleftrightarrow> deps_first ds order \<and> set (ds a) \<subseteq> set order"
  by (auto simp: deps_first_def nth_append less_Suc_eq)

text \<open>
  The invariant of the loop: a counter holds the number of dependencies not yet in the
  order, and the repositories in the order or ready are those whose counter is zero.
\<close>

definition topo_inv ::
  "string set \<Rightarrow> (string \<Rightarrow> string list) \<Rightarrow> string list go_map \<Rightarrow> int go_map \<Rightarrow> string list \<Rightarrow> string list \<Rightarrow> bool" where
  "topo_inv A ds deps indeg ready order \<longleftrightarrow> distinct (map fst indeg)
     \<and> (\<forall>a d. count_list (deps_at deps d) a = count_list (ds a) d) \<and> (\<forall>a. a \<notin> A \<longrightarrow> ds a = [])
     \<and> distinct (order @ ready) \<and> set (order @ ready) \<subseteq> A
     \<and> (\<forall>a. indeg_at indeg a = int (length (filter (\<lambda>d. d \<notin> set order) (ds a))))
     \<and> (\<forall>a \<in> A. a \<in> set (order @ ready) \<longleftrightarrow> indeg_at indeg a = 0)
     \<and> deps_first ds order"

lemma count_list_sort [simp]: "count_list (sort xs) = count_list (xs :: 'a::linorder list)"
  by (rule ext) (metis count_mset mset_sort)

lemma length_filter_snoc:
  "n \<notin> set order \<Longrightarrow> length (filter (\<lambda>d. d \<notin> set order) ds)
     = length (filter (\<lambda>d. d \<notin> set (order @ [n])) ds) + count_list ds n"
  by (induction ds) auto

lemma topo_inv_step:
  assumes inv: "topo_inv A ds deps indeg (next1 # ready) order"
    and run: "release_children (sort (deps_at deps next1)) indeg ready = (indeg1, ready1)"
  shows "topo_inv A ds deps indeg1 (sort ready1) (order @ [next1])"
proof -
  let ?cs = "sort (deps_at deps next1)" and ?left = "\<lambda>a o'. int (length (filter (\<lambda>d. d \<notin> set o') (ds a)))"
  have inv': "distinct (map fst indeg)" "\<And>a d. count_list (deps_at deps d) a = count_list (ds a) d"
      "\<And>a. a \<notin> A \<Longrightarrow> ds a = []" "distinct (order @ next1 # ready)" "set (order @ next1 # ready) \<subseteq> A"
      "\<And>a. indeg_at indeg a = ?left a order" "\<And>a. a \<in> A \<Longrightarrow> a \<in> set (order @ next1 # ready) \<longleftrightarrow> indeg_at indeg a = 0"
      "deps_first ds order"
    using inv unfolding topo_inv_def by blast+
  have left: "?left a order = ?left a (order @ [next1]) + int (count_list ?cs a)" for a
    using length_filter_snoc [of next1 order "ds a"] inv'(2,4) by simp
  obtain new where n: "distinct (map fst indeg1)" "\<And>a. indeg_at indeg1 a = ?left a (order @ [next1])"
      "ready1 = ready @ new" "distinct new" "set new = {c \<in> set ?cs. indeg_at indeg c = int (count_list ?cs c)}"
    using release_children_spec [OF run inv'(1)] inv'(6) left by auto
  have pos: "a \<in> set ?cs \<longleftrightarrow> 0 < count_list ?cs a" for a by (metis count_list_0_iff gr0I less_numeral_extra(3))
  have newA: "a \<in> A" if "a \<in> set new" for a
  proof (rule ccontr)
    assume "a \<notin> A"
    then have "count_list ?cs a = 0" using inv'(2) [of next1 a] inv'(3) by simp
    then show False using that n(5) pos [of a] by simp
  qed
  have disj: "set new \<inter> set (order @ next1 # ready) = {}" using n(5) pos inv'(7) newA by fastforce
  have zero: "indeg_at indeg a = 0 \<Longrightarrow> indeg_at indeg1 a = 0" for a using left [of a] n(2) [of a] inv'(6) [of a] by linarith
  have "a \<in> set (order @ next1 # ready) \<or> a \<in> set new \<longleftrightarrow> indeg_at indeg1 a = 0" if "a \<in> A" for a
  proof
    assume "a \<in> set (order @ next1 # ready) \<or> a \<in> set new"
    then show "indeg_at indeg1 a = 0"
      using inv'(7) [OF that] zero n(2,5) left [of a] inv'(6) [of a] by auto
  next
    assume "indeg_at indeg1 a = 0"
    then have "indeg_at indeg a = int (count_list ?cs a)" using n(2) left [of a] inv'(6) [of a] by simp
    then show "a \<in> set (order @ next1 # ready) \<or> a \<in> set new"
      using inv'(7) [OF that] n(5) pos [of a] by auto
  qed
  moreover have "set (ds next1) \<subseteq> set order"
    using inv'(5) inv'(6) [of next1] inv'(7) [of next1] by (auto simp: filter_empty_conv)
  ultimately show ?thesis
    unfolding topo_inv_def deps_first_snoc using inv'(2-5,8) n(1-4) disj newA by auto
qed

lemma topo_loop_inv:
  "topo_inv A ds deps indeg ready order \<Longrightarrow> \<exists>indeg1. topo_inv A ds deps indeg1 [] (topo_loop deps indeg ready order)"
proof (induction deps indeg ready order rule: topo_loop.induct)
  case (2 deps indeg next1 ready order)
  obtain i r where r: "release_children (sort (deps_at deps next1)) indeg ready = (i, r)" by fastforce
  show ?case using "2.IH" [OF r [symmetric] refl topo_inv_step [OF "2.prems" r]] r by simp
qed auto

definition topo_spec :: "repo_node list \<Rightarrow> string list \<Rightarrow> bool" where
  "topo_spec repos order \<longleftrightarrow> mset order = mset (map rn_Alias repos) \<and> distinct order \<and> deps_first (alias_deps repos) order"

lemma topo_start:
  assumes "topo_graph (map rn_Alias repos) repos ([], []) = Inr (indeg, deps)"
  shows "topo_inv (rn_Alias ` set repos) (alias_deps repos) deps indeg
      (sort (map fst (filter (\<lambda>(_, d). d = 0) indeg))) []
    \<and> snd ` repo_deps repos \<subseteq> rn_Alias ` set repos"
proof -
  have g: "graph_of (alias_deps repos) indeg deps" "fst ` set indeg = rn_Alias ` set repos"
      "\<forall>r \<in> set repos. set (rn_DependsOn r) \<subseteq> rn_Alias ` set repos"
    using topo_graph_spec [where ds = "\<lambda>_. []" and indeg = "[]" and deps = "[]" and known = "map rn_Alias repos" and rs = repos] assms
    by (auto simp: graph_of_def lookup_def)
  have d: "distinct (map fst indeg)" using g(1) by (simp add: graph_of_def)
  have "distinct (map fst (filter (\<lambda>(_, d). d = 0) indeg))" using d by (simp add: distinct_map_filter)
  moreover have "a \<in> fst ` set (filter (\<lambda>(_, d). d = 0) indeg) \<longleftrightarrow> indeg_at indeg a = 0"
    if "a \<in> rn_Alias ` set repos" for a
  proof -
    have "a \<in> fst ` set indeg" using that g(2) by simp
    then obtain v where v: "(a, v) \<in> set indeg" by auto
    then have "indeg_at indeg a = v" using d by (simp add: lookup_def)
    moreover have "a \<in> fst ` set (filter (\<lambda>(_, d). d = 0) indeg) \<longleftrightarrow> (a, 0) \<in> set indeg" by force
    moreover have "(a, 0) \<in> set indeg \<longleftrightarrow> v = 0" using v eq_key_imp_eq_value [OF d v] by blast
    ultimately show ?thesis by simp
  qed
  moreover have "a \<notin> rn_Alias ` set repos \<Longrightarrow> alias_deps repos a = []" for a by (auto simp: alias_deps_def filter_empty_conv)
  moreover have "snd ` repo_deps repos \<subseteq> rn_Alias ` set repos" using g(3) by (force simp: repo_deps_iff)
  ultimately show ?thesis using g(1,2) unfolding topo_inv_def deps_first_def graph_of_def
    by (auto simp: image_iff)
qed

text \<open>What \<open>topoOrder\<close> returns on every path.\<close>

lemma topoOrder_cases:
  "case topoOrder repos of
     Inr order \<Rightarrow> topo_spec repos order
   | Inl (UnknownRepo a d) \<Rightarrow> (a, d) \<in> repo_deps repos \<and> d \<notin> rn_Alias ` set repos
   | Inl (RepoCycle n) \<Rightarrow> n = length repos
       \<and> (distinct (map rn_Alias repos) \<longrightarrow> (\<exists>c. deadlocked (repo_deps repos) c))"
proof (cases "topo_graph (map rn_Alias repos) repos ([], [])")
  case (Inl e)
  then show ?thesis
    using topo_graph_spec [where ds = "\<lambda>_. []" and indeg = "[]" and deps = "[]" and known = "map rn_Alias repos" and rs = repos]
    by (auto simp: topoOrder_def graph_of_def lookup_def repo_deps_iff)
next
  case (Inr st)
  obtain indeg deps where g: "topo_graph (map rn_Alias repos) repos ([], []) = Inr (indeg, deps)" using Inr by (cases st) auto
  define order where "order = topo_loop deps indeg (sort (map fst (filter (\<lambda>(_, d). d = 0) indeg))) []"
  let ?A = "rn_Alias ` set repos" and ?ds = "alias_deps repos"
  obtain indeg1 where inv: "topo_inv ?A ?ds deps indeg1 [] order"
    using topo_loop_inv [OF conjunct1 [OF topo_start [OF g]]] by (auto simp: order_def)
  have o: "distinct order" "set order \<subseteq> ?A" "deps_first ?ds order" using inv by (auto simp: topo_inv_def)
  show ?thesis
  proof (cases "length order = length repos")
    case True
    have "card ?A \<le> length repos" by (metis card_length length_map list.set_map)
    then have "set order = ?A" using o(1,2) True by (metis card_seteq distinct_card finite_imageI finite_set)
    moreover from this have "distinct (map rn_Alias repos)" using True o(1) by (metis card_distinct distinct_card length_map list.set_map)
    ultimately have "mset order = mset (map rn_Alias repos)" using o(1) by (metis list.set_map set_eq_iff_mset_eq_distinct)
    then show ?thesis using o True g by (simp add: topoOrder_def topo_spec_def order_def [symmetric])
  next
    case False
    have "\<exists>c. deadlocked (repo_deps repos) c" if "distinct (map rn_Alias repos)"
    proof -
      define c where "c = filter (\<lambda>a. a \<notin> set order) (map rn_Alias repos)"
      have "set order \<noteq> ?A" using False o(1) that by (metis distinct_card length_map list.set_map)
      then have "c \<noteq> []" using o(2) by (auto simp: c_def filter_empty_conv)
      moreover have "\<exists>d \<in> set c. (a, d) \<in> repo_deps repos" if "a \<in> set c" for a
      proof -
        have "filter (\<lambda>d. d \<notin> set order) (?ds a) \<noteq> []" using inv that by (auto simp: topo_inv_def c_def)
        then obtain d where "d \<in> set (?ds a)" "d \<notin> set order" by (auto simp: filter_empty_conv)
        then show ?thesis using topo_start [OF g] by (force simp: c_def repo_deps_def)
      qed
      ultimately show ?thesis unfolding deadlocked_def by blast
    qed
    then show ?thesis using False g by (simp add: topoOrder_def order_def [symmetric])
  qed
qed

lemma topo_spec_acyclic:
  assumes "topo_spec repos order"
  shows "distinct (map rn_Alias repos) \<and> snd ` repo_deps repos \<subseteq> rn_Alias ` set repos \<and> acyclic (repo_deps repos)"
proof (intro conjI)
  have m: "mset order = mset (map rn_Alias repos)" "distinct order" "deps_first (alias_deps repos) order"
    using assms by (simp_all add: topo_spec_def)
  have s: "set order = rn_Alias ` set repos" using m(1) by (metis list.set_map mset_eq_setD)
  show "distinct (map rn_Alias repos)" using m(1,2) mset_eq_imp_distinct_iff by blast
  have before: "\<exists>i < length order. order ! i = a \<and> d \<in> set (take i order)" if "(a, d) \<in> repo_deps repos" for a d
  proof -
    have "a \<in> set order" using that s by (auto simp: repo_deps_iff)
    then obtain i where "i < length order" "order ! i = a" by (metis in_set_conv_nth)
    then show ?thesis using m(3) that by (auto simp: deps_first_def repo_deps_def)
  qed
  show "snd ` repo_deps repos \<subseteq> rn_Alias ` set repos"
    using before s in_set_takeD by fastforce
  define f where "f a = (THE i. i < length order \<and> order ! i = a)" for a
  have f: "f (order ! i) = i" if "i < length order" for i
    unfolding f_def using that m(2) by (auto simp: nth_eq_iff_index_eq)
  have "(a, d) \<in> measure f" if r: "(d, a) \<in> repo_deps repos" for a d
    using before [OF r] f by (auto simp: in_set_conv_nth)
  then have "repo_deps repos \<subseteq> (measure f)\<inverse>" by auto
  then show "acyclic (repo_deps repos)"
    by (meson acyclic_converse acyclic_subset wf_acyclic wf_measure)
qed

text \<open>
  \<open>topoOrder\<close> orders the repositories exactly when it can: it succeeds if and only if the
  aliases are distinct, every dependency is a repository of the plan and the dependencies
  have no cycle, and then its result lists every repository once, each behind all of its
  dependencies. An error about an unknown repository names a real missing dependency.
\<close>

theorem topoOrder_correct:
  "case topoOrder repos of
     Inr order \<Rightarrow> topo_spec repos order
       \<and> distinct (map rn_Alias repos) \<and> snd ` repo_deps repos \<subseteq> rn_Alias ` set repos \<and> acyclic (repo_deps repos)
   | Inl e \<Rightarrow> \<not> (distinct (map rn_Alias repos) \<and> snd ` repo_deps repos \<subseteq> rn_Alias ` set repos \<and> acyclic (repo_deps repos))
       \<and> (case e of UnknownRepo a d \<Rightarrow> (a, d) \<in> repo_deps repos \<and> d \<notin> rn_Alias ` set repos | RepoCycle n \<Rightarrow> n = length repos)"
  using topoOrder_cases [of repos] topo_spec_acyclic [of repos] deadlocked_cyclic [of "repo_deps repos"]
  by (auto split: sum.splits topo_error.splits intro: rev_image_eqI)

section \<open>The saga\<close>

text \<open>An absent attempt is the zero value: not pushed, an empty receipt and no error text.\<close>

definition attempt_of :: "(string \<rightharpoonup> repo_attempt) \<Rightarrow> string \<Rightarrow> repo_attempt" where
  "attempt_of attempts a =
     (case attempts a of Some x \<Rightarrow> x | None \<Rightarrow> \<lparr>ra_Pushed = False, ra_Receipt = zero_receipt, ra_Err = []\<rparr>)"

text \<open>The branches of the repositories that pushed, sorted.\<close>

definition pushedBranches :: "repo_receipt go_map \<Rightarrow> string list" where
  "pushedBranches receipts =
     sort (map (\<lambda>rr. if rc_Branch (rr_Receipt rr) = [] then rr_Alias rr else rc_Branch (rr_Receipt rr))
       (filter (\<lambda>rr. rr_Status rr = RepoIntegrated \<or> rr_Status rr = RepoPushedBlocked) (map snd receipts)))"

definition topo_error_text :: "topo_error \<Rightarrow> string" where
  "topo_error_text e =
     (case e of
        UnknownRepo a d \<Rightarrow> ''repo '' @ quote a @ '' depends on unknown repo '' @ quote d
      | RepoCycle n \<Rightarrow> ''cross-repo dependency cycle detected among '' @ show_nat n @ '' repos'')"

text \<open>The loop over the repositories of a plan that cannot be ordered.\<close>

fun unordered_receipts :: "(string \<rightharpoonup> repo_attempt) \<Rightarrow> repo_node list \<Rightarrow> repo_receipt go_map \<Rightarrow> repo_receipt go_map" where
  "unordered_receipts attempts [] rs = rs"
| "unordered_receipts attempts (r # repos) rs =
     (let a = attempt_of attempts (rn_Alias r);
          rr = (if ra_Pushed a then \<lparr>rr_Alias = rn_Alias r, rr_Status = RepoPushedBlocked, rr_Receipt = ra_Receipt a, rr_Error = []\<rparr>
                else \<lparr>rr_Alias = rn_Alias r, rr_Status = RepoFailed, rr_Receipt = ra_Receipt a, rr_Error = ra_Err a\<rparr>) in
      unordered_receipts attempts repos (AList.update (rn_Alias r) rr rs))"

text \<open>
  The loop in dependency order, with the integrated repositories (a set in the code, each
  alias added once), the failed ones and the receipts.
\<close>

fun integrate ::
  "(string \<rightharpoonup> repo_attempt) \<Rightarrow> string list go_map \<Rightarrow> string list \<Rightarrow> string list \<times> string list \<times> repo_receipt go_map
     \<Rightarrow> string list \<times> string list \<times> repo_receipt go_map" where
  "integrate attempts depsOf [] st = st"
| "integrate attempts depsOf (alias # order) (integrated, failed, rs) =
     (let a = attempt_of attempts alias;
          depsOK = list_all (\<lambda>d. d \<in> set integrated) (deps_at depsOf alias) in
      integrate attempts depsOf order
        (if ra_Pushed a \<and> depsOK then
           (List.insert alias integrated, failed,
            AList.update alias \<lparr>rr_Alias = alias, rr_Status = RepoIntegrated, rr_Receipt = ra_Receipt a, rr_Error = []\<rparr> rs)
         else if ra_Pushed a \<and> \<not> depsOK then
           (integrated, failed,
            AList.update alias \<lparr>rr_Alias = alias, rr_Status = RepoPushedBlocked, rr_Receipt = ra_Receipt a, rr_Error = []\<rparr> rs)
         else
           (integrated, failed @ [alias],
            AList.update alias \<lparr>rr_Alias = alias, rr_Status = RepoFailed, rr_Receipt = zero_receipt, rr_Error = ra_Err a\<rparr> rs)))"

definition RunChangeSet :: "(string \<Rightarrow> string) \<Rightarrow> change_set_plan \<Rightarrow> (string \<rightharpoonup> repo_attempt) \<Rightarrow> change_set_result" where
  "RunChangeSet sha256hex plan attempts =
     (let (digests, _) = FreezeContracts sha256hex (cp_Contracts plan);
          result = (\<lambda>st code rs action.
            \<lparr>cr_InitiativeID = cp_InitiativeID plan, cr_Status = st, cr_ResultCode = code, cr_ContractDigests = digests,
             cr_EnvRevision = cp_EnvRevision plan, cr_Receipts = rs, cr_NextAction = action\<rparr>) in
      case topoOrder (cp_Repos plan) of
        Inl e \<Rightarrow>
          result StatusFailed ResultProvenBlocked (unordered_receipts attempts (cp_Repos plan) [])
            (''resolve cross-repo dependency graph error ('' @ topo_error_text e @ ''); no shared branch was auto-reverted'')
      | Inr order \<Rightarrow>
          (let depsOf = fold (\<lambda>r m. AList.update (rn_Alias r) (rn_DependsOn r) m) (cp_Repos plan) [];
               (integrated, failedRepos, rs) = integrate attempts depsOf order ([], [], []) in
           if failedRepos = [] \<and> length integrated = length (cp_Repos plan) then
             result StatusSucceeded ResultTenXBranchHandoffReady rs []
           else
             result StatusFailed ResultProvenBlocked rs
               (''change-set blocked by repo(s): '' @ join_with '', '' (sort failedRepos) @ ''. Pushed branches (''
                @ join_with '', '' (pushedBranches rs) @ '') were NOT auto-reverted '' @ em_dash
                @ '' a human must decide whether to complete, revert, or re-run per multi-repository.md.'')))"

section \<open>The saga is honest\<close>

abbreviation pushed :: "(string \<rightharpoonup> repo_attempt) \<Rightarrow> string \<Rightarrow> bool" where
  "pushed attempts a \<equiv> ra_Pushed (attempt_of attempts a)"

definition receipt_for :: "(string \<rightharpoonup> repo_attempt) \<Rightarrow> bool \<Rightarrow> string \<Rightarrow> repo_receipt" where
  "receipt_for attempts ok a =
     (if pushed attempts a then
        \<lparr>rr_Alias = a, rr_Status = (if ok then RepoIntegrated else RepoPushedBlocked),
         rr_Receipt = ra_Receipt (attempt_of attempts a), rr_Error = []\<rparr>
      else \<lparr>rr_Alias = a, rr_Status = RepoFailed, rr_Receipt = zero_receipt, rr_Error = ra_Err (attempt_of attempts a)\<rparr>)"

lemma receipt_for_simps [simp]:
  "rr_Alias (receipt_for attempts ok a) = a"
  "rr_Status (receipt_for attempts ok a) = RepoFailed \<longleftrightarrow> \<not> pushed attempts a"
  "rr_Status (receipt_for attempts ok a) = RepoIntegrated \<longleftrightarrow> pushed attempts a \<and> ok"
  "pushed attempts a \<Longrightarrow> rr_Receipt (receipt_for attempts ok a) = ra_Receipt (attempt_of attempts a)"
  by (auto simp: receipt_for_def)

definition integrate_inv ::
  "(string \<rightharpoonup> repo_attempt) \<Rightarrow> (string \<Rightarrow> string list) \<Rightarrow> string list \<Rightarrow> string list \<times> string list \<times> repo_receipt go_map \<Rightarrow> bool" where
  "integrate_inv attempts ds pre = (\<lambda>(integrated, failed, rs). distinct integrated
     \<and> (\<forall>a. a \<in> set integrated \<longleftrightarrow> a \<in> set pre \<and> pushed attempts a \<and> set (ds a) \<subseteq> set integrated)
     \<and> failed = filter (\<lambda>a. \<not> pushed attempts a) pre
     \<and> distinct (map fst rs) \<and> fst ` set rs = set pre
     \<and> (\<forall>a \<in> set pre. map_of rs a = Some (receipt_for attempts (a \<in> set integrated) a)))"

lemma keys_update: "fst ` set (AList.update k v m) = insert k (fst ` set m)"
  by (simp add: dom_map_of_conv_image_fst [symmetric] update_conv')

lemma integrate_inv_step:
  assumes inv: "integrate_inv attempts ds pre (integrated, failed, rs)"
    and new: "a \<notin> set pre" "\<forall>b \<in> set pre. a \<notin> set (ds b)" "a \<notin> set (ds a)"
  defines "ok \<equiv> pushed attempts a \<and> set (ds a) \<subseteq> set integrated"
  shows "integrate_inv attempts ds (pre @ [a])
    (if ok then List.insert a integrated else integrated, if pushed attempts a then failed else failed @ [a],
     AList.update a (receipt_for attempts ok a) rs)"
proof -
  let ?i = "if ok then List.insert a integrated else integrated"
  have a: "a \<notin> set integrated" using inv new(1) by (auto simp: integrate_inv_def)
  have sub: "set (ds b) \<subseteq> set ?i \<longleftrightarrow> set (ds b) \<subseteq> set integrated" if "b \<in> set (pre @ [a])" for b
    using new that by (auto simp: set_insert)
  have "b \<in> set ?i \<longleftrightarrow> b \<in> set (pre @ [a]) \<and> pushed attempts b \<and> set (ds b) \<subseteq> set ?i" for b
  proof (cases "b \<in> set (pre @ [a])")
    case True
    show ?thesis unfolding sub [OF True] using True a new(1) inv
      by (cases "b = a") (auto simp: integrate_inv_def ok_def set_insert)
  next
    case False
    then show ?thesis using inv by (auto simp: integrate_inv_def set_insert)
  qed
  moreover have "\<forall>b \<in> set (pre @ [a]). map_of (AList.update a (receipt_for attempts ok a) rs) b = Some (receipt_for attempts (b \<in> set ?i) b)"
    using inv new(1) a by (auto simp: integrate_inv_def update_conv' set_insert)
  ultimately show ?thesis using inv unfolding integrate_inv_def
    by (simp add: keys_update distinct_update)
qed

lemma integrate_spec:
  assumes "integrate_inv attempts (deps_at depsOf) pre st" and "distinct (pre @ order)"
    and "deps_first (deps_at depsOf) (pre @ order)"
  shows "integrate_inv attempts (deps_at depsOf) (pre @ order) (integrate attempts depsOf order st)"
  using assms
proof (induction order arbitrary: pre st)
  case (Cons a order)
  obtain integrated failed rs where st: "st = (integrated, failed, rs)" by (metis prod_cases3)
  let ?ds = "deps_at depsOf"
  have before: "set (?ds ((pre @ a # order) ! i)) \<subseteq> set (take i (pre @ a # order))" if "i \<le> length pre" for i
    using Cons.prems(3) that unfolding deps_first_def by (simp del: take_append)
  have new: "a \<notin> set pre" "a \<notin> set (?ds a)" "\<forall>b \<in> set pre. a \<notin> set (?ds b)"
  proof -
    show "a \<notin> set pre" using Cons.prems(2) by simp
    then show "a \<notin> set (?ds a)" using before [of "length pre"] by auto
    show "\<forall>b \<in> set pre. a \<notin> set (?ds b)"
    proof
      fix b assume "b \<in> set pre"
      then obtain i where "i < length pre" "pre ! i = b" by (metis in_set_conv_nth)
      then have "set (?ds b) \<subseteq> set pre" using before [of i] by (auto simp: nth_append dest: in_set_takeD)
      then show "a \<notin> set (?ds b)" using \<open>a \<notin> set pre\<close> by blast
    qed
  qed
  define ok where "ok \<longleftrightarrow> pushed attempts a \<and> set (?ds a) \<subseteq> set integrated"
  let ?st = "(if ok then List.insert a integrated else integrated, if pushed attempts a then failed else failed @ [a],
     AList.update a (receipt_for attempts ok a) rs)"
  have "integrate attempts depsOf (a # order) st = integrate attempts depsOf order ?st"
    by (auto simp: st ok_def receipt_for_def list_all_iff subset_iff Let_def)
  moreover have "integrate_inv attempts ?ds (pre @ [a]) ?st"
    unfolding ok_def using integrate_inv_step [of attempts ?ds pre integrated failed rs a] Cons.prems(1) new by (simp add: st)
  ultimately show ?case using Cons.IH [of "pre @ [a]"] Cons.prems(2,3) by simp
qed simp

lemma fold_deps_notin:
  "a \<notin> rn_Alias ` set repos \<Longrightarrow>
     lookup [] (fold (\<lambda>r m. AList.update (rn_Alias r) (rn_DependsOn r) m) repos m) a = lookup [] m a"
  by (induction repos arbitrary: m) auto

lemma fold_deps:
  "distinct (map rn_Alias repos) \<Longrightarrow> a \<in> rn_Alias ` set repos \<Longrightarrow>
     deps_at (fold (\<lambda>r m. AList.update (rn_Alias r) (rn_DependsOn r) m) repos m) a = alias_deps repos a"
proof (induction repos arbitrary: m)
  case (Cons r repos)
  then show ?case
    by (cases "rn_Alias r = a") (auto simp: alias_deps_def fold_deps_notin filter_empty_conv image_iff)
qed simp

lemma alist_graph:
  assumes "distinct (map fst rs)" and "fst ` set rs = A" and "\<And>a. a \<in> A \<Longrightarrow> map_of rs a = Some (f a)"
  shows "(a, x) \<in> set rs \<longleftrightarrow> a \<in> A \<and> x = f a"
proof
  assume ax: "(a, x) \<in> set rs"
  then have "a \<in> A" using assms(2) by force
  then show "a \<in> A \<and> x = f a" using ax assms(1,3) by (metis map_of_eq_Some_iff option.inject)
qed (use assms(3) in \<open>auto dest: map_of_SomeD\<close>)

lemma unordered_receipts_spec:
  assumes "distinct (map fst rs)"
  shows "distinct (map fst (unordered_receipts attempts repos rs))
    \<and> fst ` set (unordered_receipts attempts repos rs) = fst ` set rs \<union> rn_Alias ` set repos
    \<and> (\<forall>a. map_of (unordered_receipts attempts repos rs) a =
         (if a \<in> rn_Alias ` set repos
          then Some (if pushed attempts a then receipt_for attempts False a
                     else (receipt_for attempts False a)\<lparr>rr_Receipt := ra_Receipt (attempt_of attempts a)\<rparr>)
          else map_of rs a))"
  using assms
proof (induction repos arbitrary: rs)
  case (Cons r repos)
  define rr where "rr = (if pushed attempts (rn_Alias r) then receipt_for attempts False (rn_Alias r)
     else (receipt_for attempts False (rn_Alias r))\<lparr>rr_Receipt := ra_Receipt (attempt_of attempts (rn_Alias r))\<rparr>)"
  have "unordered_receipts attempts (r # repos) rs = unordered_receipts attempts repos (AList.update (rn_Alias r) rr rs)"
    by (simp add: rr_def receipt_for_def Let_def)
  then show ?case using Cons.IH [OF distinct_update [OF Cons.prems, of "rn_Alias r" rr]]
    by (auto simp: keys_update update_conv' rr_def)
qed simp

text \<open>
  The outcome the saga owes: the repositories that are integrated are the pushed ones all of
  whose dependencies are integrated, and none when the plan cannot be ordered; every
  repository has one receipt; the receipt of a pushed one keeps the push.
\<close>

definition honest_receipts :: "repo_node list \<Rightarrow> (string \<rightharpoonup> repo_attempt) \<Rightarrow> bool \<Rightarrow> repo_receipt go_map \<Rightarrow> bool" where
  "honest_receipts repos attempts ordered rs \<longleftrightarrow> distinct (map fst rs) \<and> fst ` set rs = rn_Alias ` set repos
     \<and> (\<forall>(a, rr) \<in> set rs. rr_Alias rr = a \<and> (rr_Status rr = RepoFailed \<longleftrightarrow> \<not> pushed attempts a)
         \<and> (pushed attempts a \<longrightarrow> rr_Receipt rr = ra_Receipt (attempt_of attempts a))
         \<and> (rr_Status rr = RepoIntegrated \<longleftrightarrow> ordered \<and> pushed attempts a
              \<and> (\<forall>d. (a, d) \<in> repo_deps repos \<longrightarrow> (\<exists>x. (d, x) \<in> set rs \<and> rr_Status x = RepoIntegrated))))"

lemma honest_receiptsI:
  assumes "distinct (map fst rs)" and "fst ` set rs = rn_Alias ` set repos"
    and "\<And>a x. (a, x) \<in> set rs \<Longrightarrow> rr_Alias x = a \<and> (rr_Status x = RepoFailed \<longleftrightarrow> \<not> pushed attempts a)
      \<and> (pushed attempts a \<longrightarrow> rr_Receipt x = ra_Receipt (attempt_of attempts a))"
    and "\<And>a x. (a, x) \<in> set rs \<Longrightarrow> (rr_Status x = RepoIntegrated \<longleftrightarrow> ordered \<and> pushed attempts a
      \<and> (\<forall>d. (a, d) \<in> repo_deps repos \<longrightarrow> (\<exists>x. (d, x) \<in> set rs \<and> rr_Status x = RepoIntegrated)))"
  shows "honest_receipts repos attempts ordered rs"
  using assms unfolding honest_receipts_def by (intro conjI ballI) (auto split: prod.split)

lemma honest_branches:
  assumes "honest_receipts repos attempts ordered rs"
  shows "set (pushedBranches rs) =
      (\<lambda>a. let b = rc_Branch (ra_Receipt (attempt_of attempts a)) in if b = [] then a else b)
      ` {a \<in> rn_Alias ` set repos. pushed attempts a}" (is "_ = ?g ` _")
proof -
  let ?f = "\<lambda>rr. if rc_Branch (rr_Receipt rr) = [] then rr_Alias rr else rc_Branch (rr_Receipt rr)"
    and ?P = "\<lambda>rr. rr_Status rr = RepoIntegrated \<or> rr_Status rr = RepoPushedBlocked"
  have keys: "fst ` set rs = rn_Alias ` set repos" using assms by (simp add: honest_receipts_def)
  have h: "rr_Alias x = a \<and> (rr_Status x = RepoFailed \<longleftrightarrow> \<not> pushed attempts a)
      \<and> (pushed attempts a \<longrightarrow> rr_Receipt x = ra_Receipt (attempt_of attempts a))" if "(a, x) \<in> set rs" for a x
    using bspec [OF conjunct2 [OF conjunct2 [OF assms [unfolded honest_receipts_def]]] that] by simp
  have P: "?P x \<longleftrightarrow> pushed attempts a" if "(a, x) \<in> set rs" for a x
    using h [OF that] by (cases "rr_Status x") simp_all
  have f: "?f x = ?g a" if "(a, x) \<in> set rs" "pushed attempts a" for a x
    using h [OF that(1)] that(2) by (simp add: Let_def)
  have "set (pushedBranches rs) = ?f ` {x \<in> snd ` set rs. ?P x}" by (simp add: pushedBranches_def)
  also have "\<dots> = ?g ` {a \<in> fst ` set rs. pushed attempts a}"
  proof (intro equalityI subsetI)
    fix b assume "b \<in> ?f ` {x \<in> snd ` set rs. ?P x}"
    then obtain a x where "(a, x) \<in> set rs" "?P x" "b = ?f x" by auto
    then show "b \<in> ?g ` {a \<in> fst ` set rs. pushed attempts a}" using P f by (intro image_eqI [of _ _ a]) force+
  next
    fix b assume "b \<in> ?g ` {a \<in> fst ` set rs. pushed attempts a}"
    then obtain a where a: "a \<in> fst ` set rs" "pushed attempts a" "b = ?g a" by blast
    then obtain x where "(a, x) \<in> set rs" by auto
    then show "b \<in> ?f ` {x \<in> snd ` set rs. ?P x}" using P f a(2,3) by (intro image_eqI [of _ _ x]) force+
  qed
  finally show ?thesis by (simp add: keys)
qed

lemma honest_unordered: "honest_receipts repos attempts False (unordered_receipts attempts repos [])"
proof -
  let ?rs = "unordered_receipts attempts repos []"
  have sp: "distinct (map fst ?rs)" "fst ` set ?rs = rn_Alias ` set repos"
    using unordered_receipts_spec [of "[]" attempts repos] by simp_all
  have "(a, x) \<in> set ?rs \<longleftrightarrow> a \<in> rn_Alias ` set repos \<and> x = (if pushed attempts a then receipt_for attempts False a
      else (receipt_for attempts False a)\<lparr>rr_Receipt := ra_Receipt (attempt_of attempts a)\<rparr>)" for a x
    using unordered_receipts_spec [of "[]" attempts repos] by (intro alist_graph [OF sp]) simp
  then show ?thesis by (intro honest_receiptsI [OF sp]) simp_all
qed

lemma honest_integrated:
  assumes "topoOrder repos = Inr order" and "depsOf = fold (\<lambda>r m. AList.update (rn_Alias r) (rn_DependsOn r) m) repos []"
    and "integrate attempts depsOf order ([], [], []) = (integrated, failed, rs)"
  shows "honest_receipts repos attempts True rs \<and> failed = filter (\<lambda>a. \<not> pushed attempts a) order
    \<and> (failed = [] \<longrightarrow> length integrated = length repos)"
proof -
  have ts: "topo_spec repos order" using topoOrder_cases [of repos] assms(1) by simp
  then have t: "mset order = mset (map rn_Alias repos)" "distinct order" "deps_first (alias_deps repos) order"
    by (simp_all add: topo_spec_def)
  have s: "set order = rn_Alias ` set repos" using t(1) by (metis list.set_map mset_eq_setD)
  have ds: "deps_at depsOf a = alias_deps repos a" if "a \<in> set order" for a
    using fold_deps that s topo_spec_acyclic [OF ts] assms(2) by simp
  then have first: "deps_first (deps_at depsOf) order" using t(3) by (simp add: deps_first_def)
  have "integrate_inv attempts (deps_at depsOf) [] ([], [], [])" by (simp add: integrate_inv_def)
  then have inv: "integrate_inv attempts (deps_at depsOf) order (integrated, failed, rs)"
    using integrate_spec [of attempts depsOf "[]"] t(2) first assms(3) by (metis append_Nil)
  then have i: "distinct integrated" "\<And>a. a \<in> set integrated \<longleftrightarrow> a \<in> set order \<and> pushed attempts a \<and> set (deps_at depsOf a) \<subseteq> set integrated"
      "failed = filter (\<lambda>a. \<not> pushed attempts a) order" "distinct (map fst rs)" "fst ` set rs = set order"
      "\<And>a. a \<in> set order \<Longrightarrow> map_of rs a = Some (receipt_for attempts (a \<in> set integrated) a)"
    unfolding integrate_inv_def by auto
  have g: "(a, x) \<in> set rs \<longleftrightarrow> a \<in> set order \<and> x = receipt_for attempts (a \<in> set integrated) a" for a x
    using alist_graph [OF i(4,5,6)] .
  have st: "rr_Status (receipt_for attempts (a \<in> set integrated) a) = RepoIntegrated \<longleftrightarrow> a \<in> set integrated" for a
    using i(2) [of a] by auto
  have "(\<exists>x. (d, x) \<in> set rs \<and> rr_Status x = RepoIntegrated) \<longleftrightarrow> d \<in> set integrated" for d
    using st [of d] i(2) [of d] by (auto simp: g)
  moreover have "set (deps_at depsOf a) = {d. (a, d) \<in> repo_deps repos}" if "a \<in> set order" for a
    using ds [OF that] by (auto simp: repo_deps_def)
  ultimately have "rr_Status x = RepoIntegrated \<longleftrightarrow> pushed attempts a
      \<and> (\<forall>d. (a, d) \<in> repo_deps repos \<longrightarrow> (\<exists>y. (d, y) \<in> set rs \<and> rr_Status y = RepoIntegrated))"
    if "(a, x) \<in> set rs" for a x
    using that st [of a] i(2) [of a] by (auto simp: g)
  then have "honest_receipts repos attempts True rs"
    using i(4,5) s by (intro honest_receiptsI) (simp_all add: g)
  moreover have "length integrated = length repos" if "failed = []"
  proof -
    have all: "\<forall>a \<in> set order. pushed attempts a" using that i(3) by (simp add: filter_empty_conv)
    have "k \<le> length order \<Longrightarrow> set (take k order) \<subseteq> set integrated" for k
    proof (induction k)
      case (Suc k)
      then have "set (deps_at depsOf (order ! k)) \<subseteq> set integrated" 
        using first unfolding deps_first_def by (meson Suc_le_lessD Suc_leD subset_trans)
      then have "order ! k \<in> set integrated" using i(2) [of "order ! k"] all Suc.prems by simp
      then show ?case using Suc by (simp add: take_Suc_conv_app_nth)
    qed simp
    from this [of "length order"] have "set integrated = set order" using i(2) by auto
    then show ?thesis using i(1) t by (metis distinct_card length_map mset_eq_length)
  qed
  ultimately show ?thesis using i(3) by blast
qed

text \<open>
  C38: A change set ends honestly. It succeeds exactly when the plan can be ordered and every
  repository pushed, then as a branch handoff with nothing left to do; in every other case it
  is \<open>FAILED\<close>/\<open>PROVEN_BLOCKED\<close> with an action for a human. The receipts hold every repository
  once and keep every push; a repository counts as integrated exactly when it pushed and all
  of its dependencies are integrated; every pushed branch is listed for the human.
\<close>

theorem RunChangeSet_honest:
  fixes plan attempts sha256hex
  defines "res \<equiv> RunChangeSet sha256hex plan attempts"
  defines "ordered \<equiv> (case topoOrder (cp_Repos plan) of Inl _ \<Rightarrow> False | Inr _ \<Rightarrow> True)"
  shows "(cr_Status res = StatusSucceeded \<longleftrightarrow> ordered \<and> list_all (\<lambda>r. pushed attempts (rn_Alias r)) (cp_Repos plan))
    \<and> (if cr_Status res = StatusSucceeded then cr_ResultCode res = ResultTenXBranchHandoffReady \<and> cr_NextAction res = []
       else cr_Status res = StatusFailed \<and> cr_ResultCode res = ResultProvenBlocked \<and> cr_NextAction res \<noteq> [])
    \<and> honest_receipts (cp_Repos plan) attempts ordered (cr_Receipts res)
    \<and> set (pushedBranches (cr_Receipts res)) =
        (\<lambda>a. let b = rc_Branch (ra_Receipt (attempt_of attempts a)) in if b = [] then a else b)
        ` {a \<in> rn_Alias ` set (cp_Repos plan). pushed attempts a}"
proof -
  let ?repos = "cp_Repos plan"
  show ?thesis
  proof (cases "topoOrder ?repos")
    case (Inl e)
    then have "res = \<lparr>cr_InitiativeID = cp_InitiativeID plan, cr_Status = StatusFailed, cr_ResultCode = ResultProvenBlocked,
        cr_ContractDigests = fst (FreezeContracts sha256hex (cp_Contracts plan)), cr_EnvRevision = cp_EnvRevision plan,
        cr_Receipts = unordered_receipts attempts ?repos [],
        cr_NextAction = ''resolve cross-repo dependency graph error ('' @ topo_error_text e @ ''); no shared branch was auto-reverted''\<rparr>"
      by (simp add: res_def RunChangeSet_def Let_def split: prod.splits)
    then show ?thesis using honest_unordered honest_branches [OF honest_unordered] Inl by (simp add: ordered_def)
  next
    case (Inr order)
    define depsOf where "depsOf = fold (\<lambda>r m. AList.update (rn_Alias r) (rn_DependsOn r) m) ?repos []"
    obtain integrated failed rs where run: "integrate attempts depsOf order ([], [], []) = (integrated, failed, rs)"
      by (metis prod_cases3)
    note h = honest_integrated [OF Inr depsOf_def run]
    have s: "set order = rn_Alias ` set ?repos"
      using topoOrder_cases [of ?repos] Inr by (simp add: topo_spec_def) (metis list.set_map mset_eq_setD mset_map)
    have rcp: "cr_Receipts res = rs" "cr_Status res = (if failed = [] then StatusSucceeded else StatusFailed)"
        "cr_ResultCode res = (if failed = [] then ResultTenXBranchHandoffReady else ResultProvenBlocked)"
        "cr_NextAction res = [] \<longleftrightarrow> failed = []"
      using h Inr run by (auto simp: res_def RunChangeSet_def Let_def depsOf_def [symmetric] split: prod.splits)
    have "failed = [] \<longleftrightarrow> list_all (\<lambda>r. pushed attempts (rn_Alias r)) ?repos"
      using h s by (auto simp: filter_empty_conv list_all_iff)
    then show ?thesis using h rcp honest_branches [of ?repos attempts True rs] Inr by (simp add: ordered_def)
  qed
qed

section \<open>The manifest of an atomic group\<close>

type_synonym file_action = string

abbreviation FileActionAdded :: file_action where "FileActionAdded \<equiv> ''added''"
abbreviation FileActionModified :: file_action where "FileActionModified \<equiv> ''modified''"
abbreviation FileActionDeleted :: file_action where "FileActionDeleted \<equiv> ''deleted''"

record file_change =
  fc_Path :: string
  fc_Action :: file_action
  fc_BlobSHA :: string

record change_set =
  cs_Files :: "file_change list"
  cs_Tests :: "string list"
  cs_ValidationRecords :: "string list"

record atomic_group =
  ag_ID :: string
  ag_PlanTaskIDs :: "string list"
  ag_Commits :: "string list"
  ag_Manifest :: change_set

text \<open>
  \<open>sort.Slice\<close> orders the files by path and leaves the order of files with equal paths
  open; the statement about the digest is for manifests that name each path once. The JSON
  encoder and the hash are parameters; a failing encoder panics, here \<^const>\<open>None\<close>.
\<close>

definition normalized :: "change_set \<Rightarrow> change_set" where
  "normalized cs =
     \<lparr>cs_Files = sort_key fc_Path (cs_Files cs), cs_Tests = sort (cs_Tests cs), cs_ValidationRecords = sort (cs_ValidationRecords cs)\<rparr>"

definition ChangeSet_Digest :: "(change_set \<Rightarrow> string option) \<Rightarrow> (string \<Rightarrow> string) \<Rightarrow> change_set \<Rightarrow> string option" where
  "ChangeSet_Digest marshal sha256hex cs =
     (case marshal (normalized cs) of None \<Rightarrow> None | Some raw \<Rightarrow> Some (sha256hex raw))"

definition TipCommitTrailer :: "(change_set \<Rightarrow> string option) \<Rightarrow> (string \<Rightarrow> string) \<Rightarrow> atomic_group \<Rightarrow> string option" where
  "TipCommitTrailer marshal sha256hex g =
     map_option (\<lambda>d. ''Foundry-Changeset: '' @ d) (ChangeSet_Digest marshal sha256hex (ag_Manifest g))"

definition scope_prefix :: "string \<Rightarrow> string" where
  "scope_prefix prefix = trim_suffix (trim_suffix prefix ''/**'') ''/*''"

definition DeclaredScope_Contains :: "string list \<Rightarrow> string \<Rightarrow> bool" where
  "DeclaredScope_Contains prefixes path = list_ex (\<lambda>prefix. has_prefix path (scope_prefix prefix)) prefixes"

datatype scope_violation = ScopeViolationError string string

definition ValidateScope :: "atomic_group \<Rightarrow> string list \<Rightarrow> scope_violation option" where
  "ValidateScope g scope =
     (case find (\<lambda>f. \<not> DeclaredScope_Contains scope (fc_Path f)) (cs_Files (ag_Manifest g)) of
        None \<Rightarrow> None
      | Some f \<Rightarrow> Some (ScopeViolationError (fc_Path f) (ag_ID g)))"

lemma sort_key_eq:
  assumes "mset xs = mset ys" and "distinct (map k xs)"
  shows "sort_key k xs = sort_key (k :: 'a \<Rightarrow> 'b::linorder) ys"
proof (rule properties_for_sort_key)
  show "mset (sort_key k ys) = mset xs" using assms(1) by simp
  show "sorted (map k (sort_key k ys))" by simp
  fix x assume x: "x \<in> set (sort_key k ys)"
  have s: "set xs = set ys" using assms(1) by (rule mset_eq_setD)
  have "filter (\<lambda>y. k x = k y) zs = filter (\<lambda>y. y = x) zs" if "set zs = set xs" for zs
    using assms(2) x s that by (intro filter_cong) (auto simp: distinct_map inj_on_def)
  moreover have "filter (\<lambda>y. y = x) zs = replicate (count (mset zs) x) x" for zs
    by (induction zs) auto
  ultimately show "filter (\<lambda>y. k x = k y) (sort_key k ys) = filter (\<lambda>y. k x = k y) xs"
    using s assms(1) by simp
qed

text \<open>
  The digest of a manifest that names each path once does not depend on the order in which
  its files, tests and validation records were collected.
\<close>

lemma ChangeSet_Digest_order:
  assumes "distinct (map fc_Path (cs_Files cs))" and "mset (cs_Files cs) = mset (cs_Files cs')"
    and "mset (cs_Tests cs) = mset (cs_Tests cs')" and "mset (cs_ValidationRecords cs) = mset (cs_ValidationRecords cs')"
  shows "ChangeSet_Digest marshal sha256hex cs = ChangeSet_Digest marshal sha256hex cs'"
proof -
  have "normalized cs = normalized cs'"
    using assms sort_key_eq [OF assms(2,1)] by (simp add: normalized_def sort_eq_iff_mset)
  then show ?thesis by (simp add: ChangeSet_Digest_def)
qed

text \<open>
  The scope guard accepts a group exactly when each path starts with the text of a declared
  pattern. The comparison is by characters, not by path components: a pattern for a
  directory also admits its siblings that extend its name.
\<close>

lemma ValidateScope_exact:
  "ValidateScope g scope = None \<longleftrightarrow>
     (\<forall>f \<in> set (cs_Files (ag_Manifest g)). \<exists>p \<in> set scope. has_prefix (fc_Path f) (scope_prefix p))"
proof -
  have "ValidateScope g scope = None \<longleftrightarrow> find (\<lambda>f. \<not> DeclaredScope_Contains scope (fc_Path f)) (cs_Files (ag_Manifest g)) = None"
    by (simp add: ValidateScope_def split: option.splits)
  then show ?thesis by (simp add: find_None_all DeclaredScope_Contains_def list_ex_iff)
qed

theorem DeclaredScope_admits_siblings:
  assumes "\<not> has_suffix dir ''/*''"
  shows "DeclaredScope_Contains [dir @ ''/**''] (dir @ rest)"
proof -
  have "trim_suffix (dir @ ''/**'') ''/**'' = dir" by (simp add: trim_suffix_def has_suffix_def)
  then have "scope_prefix (dir @ ''/**'') = dir" using assms by (simp add: scope_prefix_def trim_suffix_def)
  then show ?thesis by (simp add: DeclaredScope_Contains_def)
qed

end
