(* ===== verification/Admission.thy ===== *)
theory Admission
  imports Plan_Doc "HOL-Library.Product_Lexorder"
begin

text \<open>
  Admission: package \<open>internal/admission\<close> (tiers, ruleset and \<open>Classify\<close>) and the effect
  detector \<open>internal/admission/detect\<close>. Classification is a pure function of the plan and the
  policy view; the policy view is a parameter. The lemmas show that the tier is the highest
  floor of a declared or detected effect, raised when effects were detected that the plan
  does not declare, and that leaving out a declaration never lowers the tier.
\<close>

section \<open>Tiers\<close>

text \<open>\<open>Tier\<close> is an integer type of which only the four constants occur; they are ordered by restriction.\<close>

datatype tier = TierA0 | TierA1 | TierA2 | TierH

fun tier_rank :: "tier \<Rightarrow> nat" where
  "tier_rank TierA0 = 0" | "tier_rank TierA1 = 1" | "tier_rank TierA2 = 2" | "tier_rank TierH = 3"

lemma tier_rank_inj: "tier_rank t = tier_rank u \<Longrightarrow> t = u"
  by (cases t; cases u) simp_all

instantiation tier :: linorder
begin

definition less_eq_tier :: "tier \<Rightarrow> tier \<Rightarrow> bool" where
  "less_eq_tier t u = (tier_rank t \<le> tier_rank u)"

definition less_tier :: "tier \<Rightarrow> tier \<Rightarrow> bool" where
  "less_tier t u = (tier_rank t < tier_rank u)"

instance
  by standard (auto simp: less_eq_tier_def less_tier_def intro: tier_rank_inj)

end

lemmas tier_order = less_eq_tier_def less_tier_def

lemma tier_least [simp]: "TierA0 \<le> t"
  by (simp add: tier_order)

lemma tier_greatest [simp]: "t \<le> TierH"
  by (cases t) (simp_all add: tier_order)

fun Tier_String :: "tier \<Rightarrow> string" where
  "Tier_String TierA0 = ''A0''" | "Tier_String TierA1 = ''A1''"
| "Tier_String TierA2 = ''A2''" | "Tier_String TierH = ''H''"

text \<open>The label a tier is decoded from, once the JSON string is read.\<close>

definition Tier_of_label :: "string \<Rightarrow> string + tier" where
  "Tier_of_label s =
     (if s = ''A0'' then Inr TierA0 else if s = ''A1'' then Inr TierA1 else if s = ''A2'' then Inr TierA2
      else if s = ''H'' then Inr TierH else Inl (''admission: unknown tier label '' @ quote s))"

lemma Tier_label_round_trip: "Tier_of_label (Tier_String t) = Inr t"
  by (cases t) (simp_all add: Tier_of_label_def)

lemma Tier_of_label_exact: "Tier_of_label s = Inr t \<Longrightarrow> s = Tier_String t"
  by (auto simp: Tier_of_label_def split: if_splits)

section \<open>Detected effects\<close>

definition host_char :: "char \<Rightarrow> bool" where
  "host_char c = (let n = (of_char c :: nat) in
     48 \<le> n \<and> n \<le> 57 \<or> 65 \<le> n \<and> n \<le> 90 \<or> 97 \<le> n \<and> n \<le> 122 \<or> c \<in> {CHR ''.'', CHR ''_'', CHR ''-''})"

text \<open>The submatches of \<open>https?://([a-zA-Z0-9._-]+)\<close>, leftmost and longest, one after the other.\<close>

function host_matches :: "string \<Rightarrow> string list" where
  "host_matches [] = []"
| "host_matches (c # s) =
     (let rest = (if has_prefix (c # s) ''https://'' then drop 8 (c # s)
                  else if has_prefix (c # s) ''http://'' then drop 7 (c # s) else []);
          host = takeWhile host_char rest in
      if host = [] then host_matches s else host # host_matches (dropWhile host_char rest))"
  by pat_completeness auto
termination
proof (relation "measure length")
  fix c s rest host
  assume r: "rest = (if has_prefix (c # s) ''https://'' then drop 8 (c # s)
      else if has_prefix (c # s) ''http://'' then drop 7 (c # s) else [])"
  have "length (dropWhile host_char rest) \<le> length rest" by (rule length_dropWhile_le)
  also have "length rest < length (c # s)" unfolding r by auto
  finally show "(dropWhile host_char rest, c # s) \<in> measure length" by simp
qed simp_all

definition any_suffix :: "string list \<Rightarrow> string \<Rightarrow> bool" where
  "any_suffix ps s = list_ex (has_suffix s) ps"

definition any_in :: "string list \<Rightarrow> string \<Rightarrow> bool" where
  "any_in ps s = list_ex (contains s) ps"

abbreviation eff :: "effect_kind \<Rightarrow> string \<Rightarrow> effect" where
  "eff k t \<equiv> \<lparr>ef_Kind = k, ef_Target = t\<rparr>"

definition file_effects :: "string \<Rightarrow> effect list" where
  "file_effects file =
     (let lower = to_lower file in
      (if any_suffix [''go.mod'', ''go.sum'', ''package.json'', ''package-lock.json'', ''pnpm-lock.yaml'', ''yarn.lock''] lower
         then [eff EffectDependency file]
       else if contains lower ''migration'' then [eff EffectMigration file]
       else if any_in [''billing'', ''stripe'', ''payment''] lower then [eff EffectBilling file]
       else if any_in [''deploy'', ''fly.toml''] lower then [eff EffectDeploy file]
       else if any_in [''secret'', ''.env''] lower then [eff EffectSecret file]
       else if any_in [''permission'', ''authz'', ''rbac''] lower then [eff EffectPermission file]
       else [])
      @ (if any_in [''drop'', ''truncate''] lower then [eff EffectDestructive file] else []))"

definition command_effects :: "string \<Rightarrow> effect list" where
  "command_effects cmd =
     (let lower = to_lower cmd in
      (if any_in [''drop table'', ''truncate ''] lower then [eff EffectDestructive cmd] else [])
      @ (if any_in [''stripe'', ''billing'', ''payment''] lower then [eff EffectBilling cmd] else [])
      @ (if any_in [''flyctl'', ''vercel'', ''deploy''] lower then [eff EffectDeploy cmd] else [])
      @ map (eff EffectNetwork) (host_matches cmd))"

definition task_effects :: "task \<Rightarrow> effect list" where
  "task_effects t =
     concat (map file_effects (tk_Files t)) @ concat (map command_effects (tk_Commands t @ tk_ValidationCommands t))"

text \<open>
  The detector collects its findings in a map keyed by kind and target, which are the whole
  finding, so an equal finding overwrites itself; the sort compares both fields, so the order
  in which the map is walked does not show.
\<close>

abbreviation effect_order :: "effect \<Rightarrow> string \<times> string" where
  "effect_order e \<equiv> (ef_Kind e, ef_Target e)"

definition FromDocument :: "document \<Rightarrow> effect list" where
  "FromDocument doc = sort_key effect_order (remdups (concat (map task_effects (dc_Tasks doc))))"

section \<open>The ruleset\<close>

definition isProductionTarget :: "string \<Rightarrow> bool" where
  "isProductionTarget target = (let lower = to_lower target in contains lower ''production'' \<or> contains lower ''prod'')"

record rule =
  ru_ID :: string
  ru_TierFloor :: tier
  ru_Match :: "effect \<Rightarrow> bool"

definition RulesV1 :: "rule list" where
  "RulesV1 =
     [\<lparr>ru_ID = ''docs-copy-tests'', ru_TierFloor = TierA0, ru_Match = (\<lambda>e. ef_Kind e = EffectDocs \<or> ef_Kind e = EffectCode)\<rparr>,
      \<lparr>ru_ID = ''dependency-migration-network-secret-deploy'', ru_TierFloor = TierA1,
       ru_Match = (\<lambda>e. ef_Kind e \<in> set [EffectDependency, EffectMigration, EffectNetwork, EffectSecret, EffectDeploy])\<rparr>,
      \<lparr>ru_ID = ''billing-permission-destructive'', ru_TierFloor = TierH,
       ru_Match = (\<lambda>e. ef_Kind e \<in> set [EffectBilling, EffectPermission, EffectDestructive])\<rparr>,
      \<lparr>ru_ID = ''production-deploy'', ru_TierFloor = TierA2,
       ru_Match = (\<lambda>e. ef_Kind e = EffectDeploy \<and> isProductionTarget (ef_Target e))\<rparr>]"

definition RulesV1_1 :: "rule list" where
  "RulesV1_1 = RulesV1"

fun eval_rules :: "rule list \<Rightarrow> effect list \<Rightarrow> string list \<times> tier \<Rightarrow> string list \<times> tier" where
  "eval_rules [] effs st = st"
| "eval_rules (r # rs) effs (fired, t) =
     eval_rules rs effs
       (if list_ex (ru_Match r) effs then (List.insert (ru_ID r) fired, if t < ru_TierFloor r then ru_TierFloor r else t)
        else (fired, t))"

section \<open>Classification\<close>

record policy_view =
  pv_Digest :: string
  pv_RequiredControls :: "tier \<Rightarrow> string list"

definition NoopPolicyView :: policy_view where
  "NoopPolicyView = \<lparr>pv_Digest = [], pv_RequiredControls = (\<lambda>_. [])\<rparr>"

record decision =
  de_ClassifierVersion :: string
  de_PolicyDigest :: string
  de_RulesEvaluated :: "string list"
  de_Declared :: "effect list"
  de_Detected :: "effect list"
  de_Discrepancies :: "effect list"
  de_RiskScore :: f64
  de_Tier :: tier
  de_RequiredControls :: "string list"
  de_Explanation :: string

definition zero_decision :: decision where
  "zero_decision = \<lparr>de_ClassifierVersion = [], de_PolicyDigest = [], de_RulesEvaluated = [], de_Declared = [], de_Detected = [],
     de_Discrepancies = [], de_RiskScore = Fin 0, de_Tier = TierA0, de_RequiredControls = [], de_Explanation = []\<rparr>"

datatype admission_error = NilDocument | NilPolicyView | ErrSelfClassification

abbreviation Admission_Version :: string where
  "Admission_Version \<equiv> ''admission/v1.1''"

text \<open>The scores are the decimal numbers of the source, not their nearest floats.\<close>

fun riskScoreFor :: "tier \<Rightarrow> f64" where
  "riskScoreFor TierA0 = Fin 0" | "riskScoreFor TierA1 = Fin (3 / 10)"
| "riskScoreFor TierA2 = Fin (6 / 10)" | "riskScoreFor TierH = Fin 1"

definition effect_key :: "effect \<Rightarrow> string" where
  "effect_key e = ef_Kind e @ ''|'' @ ef_Target e"

definition discrepancyEffects :: "effect list \<Rightarrow> effect list \<Rightarrow> effect list" where
  "discrepancyEffects declared detected =
     sort_key effect_order (filter (\<lambda>e. effect_key e \<notin> effect_key ` set declared) detected)"

definition critical :: "effect \<Rightarrow> bool" where
  "critical e = (ef_Kind e = EffectBilling \<or> ef_Kind e = EffectSecret \<or> ef_Kind e = EffectDestructive)"

fun next_tier :: "tier \<Rightarrow> tier" where
  "next_tier TierA0 = TierA1" | "next_tier TierA1 = TierA2" | "next_tier TierA2 = TierH" | "next_tier TierH = TierH"

definition applyDiscrepancyFloor :: "tier \<Rightarrow> effect list \<Rightarrow> tier" where
  "applyDiscrepancyFloor base discrepancies =
     (if discrepancies = [] then base
      else if list_ex critical discrepancies then TierH
      else next_tier base)"

definition explanationFor :: "tier \<Rightarrow> string list \<Rightarrow> string" where
  "explanationFor t rulesEvaluated =
     (if rulesEvaluated = [] then ''tier '' @ Tier_String t @ '': no rules fired, default floor applies''
      else ''tier '' @ Tier_String t @ '': highest floor among fired rules ['' @ join_with '', '' rulesEvaluated @ '']'')"

text \<open>The decision and the error; a nil document or policy view is \<^const>\<open>None\<close>.\<close>

definition Admission_Classify :: "document option \<Rightarrow> policy_view option \<Rightarrow> decision \<times> admission_error option" where
  "Admission_Classify doc_opt policy_opt =
     (case doc_opt of
        None \<Rightarrow> (zero_decision, Some NilDocument)
      | Some doc \<Rightarrow>
          (case policy_opt of
             None \<Rightarrow> (zero_decision, Some NilPolicyView)
           | Some policy \<Rightarrow>
               if dc_SelfClassified doc then
                 (zero_decision\<lparr>de_Tier := TierH, de_Explanation := ''plan-authored tier ignored''\<rparr>, Some ErrSelfClassification)
               else
                 (let declared = dc_DeclaredEffects doc;
                      detected = FromDocument doc;
                      discrepancies = discrepancyEffects declared detected;
                      (fired, t0) = eval_rules RulesV1_1 (declared @ detected) ([], TierA0);
                      rulesEvaluated = sort fired;
                      t = applyDiscrepancyFloor t0 discrepancies in
                  (\<lparr>de_ClassifierVersion = Admission_Version, de_PolicyDigest = pv_Digest policy, de_RulesEvaluated = rulesEvaluated,
                    de_Declared = declared, de_Detected = detected, de_Discrepancies = discrepancies,
                    de_RiskScore = riskScoreFor t, de_Tier = t, de_RequiredControls = sort (pv_RequiredControls policy t),
                    de_Explanation = explanationFor t rulesEvaluated\<rparr>, None))))"

section \<open>What the tier means\<close>

text \<open>The restriction that one effect calls for by itself.\<close>

definition effect_floor :: "effect \<Rightarrow> tier" where
  "effect_floor e =
     (if ef_Kind e \<in> {EffectBilling, EffectPermission, EffectDestructive} then TierH
      else if ef_Kind e = EffectDeploy \<and> isProductionTarget (ef_Target e) then TierA2
      else if ef_Kind e \<in> {EffectDependency, EffectMigration, EffectNetwork, EffectSecret, EffectDeploy} then TierA1
      else TierA0)"

definition highest_floor :: "effect list \<Rightarrow> tier" where
  "highest_floor es = fold max (map effect_floor es) TierA0"

lemma fold_max_le: "fold max ts t \<le> u \<longleftrightarrow> t \<le> (u :: 'a::linorder) \<and> (\<forall>x \<in> set ts. x \<le> u)"
  by (induction ts arbitrary: t) auto

lemma highest_floor_le: "highest_floor es \<le> u \<longleftrightarrow> (\<forall>e \<in> set es. effect_floor e \<le> u)"
  by (auto simp: highest_floor_def fold_max_le)

lemma eval_rules_le:
  "snd (eval_rules rs effs (fired, t)) \<le> u \<longleftrightarrow> t \<le> u \<and> (\<forall>r \<in> set rs. list_ex (ru_Match r) effs \<longrightarrow> ru_TierFloor r \<le> u)"
  by (induction rs arbitrary: fired t) (auto simp: not_less intro: order_trans less_imp_le)

lemma eval_RulesV1_1: "snd (eval_rules RulesV1_1 effs (fired, TierA0)) = highest_floor effs"
proof (rule order_antisym)
  have le: "snd (eval_rules RulesV1_1 effs (fired, TierA0)) \<le> u \<longleftrightarrow> highest_floor effs \<le> u" for u
    unfolding eval_rules_le highest_floor_le
    by (cases u) (auto simp: RulesV1_1_def RulesV1_def list_ex_iff effect_floor_def tier_order)
  show "snd (eval_rules RulesV1_1 effs (fired, TierA0)) \<le> highest_floor effs" by (simp add: le)
  show "highest_floor effs \<le> snd (eval_rules RulesV1_1 effs (fired, TierA0))" by (simp flip: le)
qed

lemma next_tier_mono: "t \<le> u \<Longrightarrow> next_tier t \<le> next_tier u"
  by (cases t; cases u) (simp_all add: tier_order)

lemma next_tier_above: "t \<le> next_tier t" "next_tier t \<noteq> TierA0" "t \<noteq> TierH \<Longrightarrow> t < next_tier t"
  by (cases t; simp add: tier_order)+

lemma applyDiscrepancyFloor_above: "t \<le> applyDiscrepancyFloor t ds"
  by (simp add: applyDiscrepancyFloor_def next_tier_above)

lemma applyDiscrepancyFloor_mono:
  "t \<le> u \<Longrightarrow> set ds \<subseteq> set es \<Longrightarrow> applyDiscrepancyFloor t ds \<le> applyDiscrepancyFloor u es"
  by (auto simp: applyDiscrepancyFloor_def list_ex_iff next_tier_mono intro: order_trans next_tier_above)

lemma set_discrepancyEffects:
  "set (discrepancyEffects declared detected) = {e \<in> set detected. effect_key e \<notin> effect_key ` set declared}"
  by (simp add: discrepancyEffects_def)

lemma Classify_decision:
  "Admission_Classify (Some doc) (Some policy) = (d, None) \<longleftrightarrow> \<not> dc_SelfClassified doc \<and>
     d = (let missing = discrepancyEffects (dc_DeclaredEffects doc) (FromDocument doc);
              rules = sort (fst (eval_rules RulesV1_1 (dc_DeclaredEffects doc @ FromDocument doc) ([], TierA0)));
              t = applyDiscrepancyFloor (highest_floor (dc_DeclaredEffects doc @ FromDocument doc)) missing in
          \<lparr>de_ClassifierVersion = Admission_Version, de_PolicyDigest = pv_Digest policy, de_RulesEvaluated = rules,
           de_Declared = dc_DeclaredEffects doc, de_Detected = FromDocument doc, de_Discrepancies = missing,
           de_RiskScore = riskScoreFor t, de_Tier = t, de_RequiredControls = sort (pv_RequiredControls policy t),
           de_Explanation = explanationFor t rules\<rparr>)"
  using eval_RulesV1_1 [of "dc_DeclaredEffects doc @ FromDocument doc" "[]"]
  by (auto simp: Admission_Classify_def Let_def split: prod.splits)

lemma Classify_accepts:
  "\<not> dc_SelfClassified doc \<Longrightarrow>
     Admission_Classify (Some doc) (Some policy) = (fst (Admission_Classify (Some doc) (Some policy)), None)"
  by (simp add: Admission_Classify_def Let_def split: prod.splits)

text \<open>
  C39: The tier is right in both directions. It is at least what every declared and every
  detected effect calls for; an undeclared billing, secret or destructive effect needs a
  human; any other undeclared effect takes the tier one step above the highest floor; and the
  fully automatic tier is given exactly when no effect calls for more and every detected
  effect is declared. The controls of the decision are those of this tier.
\<close>

theorem Classify_tier_exact:
  assumes "Admission_Classify (Some doc) (Some policy) = (d, None)"
  shows "(\<forall>e \<in> set (dc_DeclaredEffects doc) \<union> set (FromDocument doc). effect_floor e \<le> de_Tier d)
    \<and> (\<forall>e \<in> set (de_Discrepancies d). ef_Kind e \<in> {EffectBilling, EffectSecret, EffectDestructive} \<longrightarrow> de_Tier d = TierH)
    \<and> (de_Discrepancies d \<noteq> [] \<longrightarrow> highest_floor (dc_DeclaredEffects doc @ FromDocument doc) < de_Tier d \<or> de_Tier d = TierH)
    \<and> (de_Discrepancies d = [] \<longrightarrow> de_Tier d = highest_floor (dc_DeclaredEffects doc @ FromDocument doc))
    \<and> (de_Tier d = TierA0 \<longleftrightarrow> (\<forall>e \<in> set (dc_DeclaredEffects doc) \<union> set (FromDocument doc). effect_floor e = TierA0)
         \<and> (\<forall>e \<in> set (FromDocument doc). effect_key e \<in> effect_key ` set (dc_DeclaredEffects doc)))
    \<and> mset (de_RequiredControls d) = mset (pv_RequiredControls policy (de_Tier d))"
proof -
  let ?b = "highest_floor (dc_DeclaredEffects doc @ FromDocument doc)" and ?m = "de_Discrepancies d"
  have d: "de_Tier d = applyDiscrepancyFloor ?b ?m" "?m = discrepancyEffects (dc_DeclaredEffects doc) (FromDocument doc)"
      "de_RequiredControls d = sort (pv_RequiredControls policy (de_Tier d))"
    using assms unfolding Classify_decision Let_def by simp_all
  have "?b \<le> de_Tier d" by (simp add: d(1) applyDiscrepancyFloor_above)
  then have low: "\<forall>e \<in> set (dc_DeclaredEffects doc) \<union> set (FromDocument doc). effect_floor e \<le> de_Tier d"
    by (auto simp: highest_floor_le)
  have empty: "?m = [] \<longleftrightarrow> (\<forall>e \<in> set (FromDocument doc). effect_key e \<in> effect_key ` set (dc_DeclaredEffects doc))"
    unfolding d(2) set_empty [symmetric] set_discrepancyEffects by blast
  have "?b = TierA0 \<longleftrightarrow> (\<forall>e \<in> set (dc_DeclaredEffects doc) \<union> set (FromDocument doc). effect_floor e = TierA0)"
    using highest_floor_le [of _ TierA0] by (metis order_antisym set_append tier_least order_refl)
  moreover have "de_Tier d = TierA0 \<longleftrightarrow> ?b = TierA0 \<and> ?m = []"
    using next_tier_above(2) by (auto simp: d(1) applyDiscrepancyFloor_def)
  moreover have "\<forall>e \<in> set ?m. ef_Kind e \<in> {EffectBilling, EffectSecret, EffectDestructive} \<longrightarrow> de_Tier d = TierH"
    by (auto simp: d(1) applyDiscrepancyFloor_def list_ex_iff critical_def)
  moreover have "?m \<noteq> [] \<longrightarrow> ?b < de_Tier d \<or> de_Tier d = TierH"
    using next_tier_above(3) [of ?b] by (cases "?b = TierH") (auto simp: d(1) applyDiscrepancyFloor_def)
  ultimately show ?thesis using low empty d(1,3) by (simp add: applyDiscrepancyFloor_def)
qed

text \<open>
  Under-declaring does not pay: leaving out declarations of effects that are detected
  anyway never lowers the tier of a plan, whatever policies the two decisions use.
\<close>

theorem Classify_underdeclare:
  assumes "Admission_Classify (Some doc) (Some policy) = (d, None)"
    and "Admission_Classify (Some (doc\<lparr>dc_DeclaredEffects := fewer\<rparr>)) (Some policy') = (d', None)"
    and "set fewer \<subseteq> set (dc_DeclaredEffects doc)"
    and "set (dc_DeclaredEffects doc) - set fewer \<subseteq> set (FromDocument doc)"
  shows "de_Tier d \<le> de_Tier d'"
proof -
  have same: "FromDocument (doc\<lparr>dc_DeclaredEffects := fewer\<rparr>) = FromDocument doc" by (simp add: FromDocument_def)
  have "highest_floor (dc_DeclaredEffects doc @ FromDocument doc) \<le> highest_floor (fewer @ FromDocument doc)"
  proof -
    have "set (dc_DeclaredEffects doc @ FromDocument doc) = set (fewer @ FromDocument doc)" using assms(3,4) by auto
    moreover have "\<forall>e \<in> set (fewer @ FromDocument doc). effect_floor e \<le> highest_floor (fewer @ FromDocument doc)"
      using highest_floor_le [of "fewer @ FromDocument doc" "highest_floor (fewer @ FromDocument doc)"] by simp
    ultimately show ?thesis unfolding highest_floor_le by metis
  qed
  moreover have "set (discrepancyEffects (dc_DeclaredEffects doc) (FromDocument doc)) \<subseteq> set (discrepancyEffects fewer (FromDocument doc))"
    using assms(3) by (auto simp: set_discrepancyEffects)
  ultimately show ?thesis
    using assms(1,2) applyDiscrepancyFloor_mono unfolding Classify_decision Let_def same by simp
qed

text \<open>A plan that edits a payment file without saying so.\<close>

definition quiet_plan :: document where
  "quiet_plan = zero_document\<lparr>dc_Tasks := [\<lparr>tk_ID = ''t1'', tk_Goal = [], tk_DependsOn = [], tk_Commands = [], tk_ValidationCommands = [],
     tk_Files = [''payment.go''], tk_ValidationOptOut = False, tk_ValidationOptOutReason = [], tk_Executor = [], tk_Class = []\<rparr>]\<rparr>"

definition open_plan :: document where
  "open_plan = quiet_plan\<lparr>dc_DeclaredEffects := [eff EffectBilling ''payment.go'']\<rparr>"

lemma quiet_plan_detected: "FromDocument quiet_plan = [eff EffectBilling ''payment.go'']"
  by (simp add: FromDocument_def quiet_plan_def task_effects_def file_effects_def any_suffix_def any_in_def has_suffix_def has_prefix_def
      lower_char_def Let_def)

theorem Classify_tier_exact_witness:
  "de_Tier (fst (Admission_Classify (Some quiet_plan) (Some NoopPolicyView))) = TierH"
proof -
  have c: "Admission_Classify (Some quiet_plan) (Some NoopPolicyView)
      = (fst (Admission_Classify (Some quiet_plan) (Some NoopPolicyView)), None)"
    by (rule Classify_accepts) (simp add: quiet_plan_def zero_document_def)
  have "eff EffectBilling ''payment.go'' \<in> set (FromDocument quiet_plan)" by (simp add: quiet_plan_detected)
  then have "effect_floor (eff EffectBilling ''payment.go'') \<le> de_Tier (fst (Admission_Classify (Some quiet_plan) (Some NoopPolicyView)))"
    using Classify_tier_exact [OF c] by blast
  then show ?thesis by (simp add: effect_floor_def order_antisym)
qed

theorem Classify_underdeclare_witness:
  "de_Tier (fst (Admission_Classify (Some open_plan) (Some NoopPolicyView)))
     \<le> de_Tier (fst (Admission_Classify (Some quiet_plan) (Some NoopPolicyView)))"
proof (rule Classify_underdeclare [of open_plan NoopPolicyView _ "[]" NoopPolicyView])
  show "Admission_Classify (Some open_plan) (Some NoopPolicyView)
      = (fst (Admission_Classify (Some open_plan) (Some NoopPolicyView)), None)"
    by (rule Classify_accepts) (simp add: open_plan_def quiet_plan_def zero_document_def)
  have eq: "open_plan\<lparr>dc_DeclaredEffects := []\<rparr> = quiet_plan" by (simp add: open_plan_def quiet_plan_def zero_document_def)
  show "Admission_Classify (Some (open_plan\<lparr>dc_DeclaredEffects := []\<rparr>)) (Some NoopPolicyView)
      = (fst (Admission_Classify (Some quiet_plan) (Some NoopPolicyView)), None)"
    unfolding eq by (rule Classify_accepts) (simp add: quiet_plan_def zero_document_def)
  have "FromDocument open_plan = FromDocument quiet_plan" by (simp add: FromDocument_def open_plan_def)
  then show "set (dc_DeclaredEffects open_plan) - set [] \<subseteq> set (FromDocument open_plan)"
    by (simp add: quiet_plan_detected open_plan_def)
qed simp

end
