(* ===== verification/Recovery.thy ===== *)
theory Recovery
  imports State_Model Verify "HOL-Library.Word"
begin

text \<open>
  Recovery: package \<open>internal/recovery\<close> (retry policy, proof of impossibility, checkpoints,
  liveness supervisor, the Postgres and composite projection sources) and the table of
  failure signatures the kernel writes for it (\<open>internal/kernel/failure_signature.go\<close>). The
  retry delay is computed on 64-bit words as in the source. The lemmas show that retries
  are bounded and their delay never exceeds the cap, that a task is proven blocked only on
  evidence, that a scan treats every orphan exactly once, and which signatures the
  supervisor gets to see.
\<close>

section \<open>Failure signatures and the retry policy\<close>

record failure_signature =
  fs_Classification :: classification
  fs_Detail :: string
  fs_MissingDependency :: bool
  fs_ContradictorySpec :: bool
  fs_EvidenceRefs :: "string list"

definition FailureSignature_Key :: "failure_signature \<Rightarrow> string" where
  "FailureSignature_Key s = fs_Classification s @ ''|'' @ fs_Detail s"

datatype retry_action = ActionRetry | ActionStop

abbreviation StopReasonNoProgress :: string where "StopReasonNoProgress \<equiv> ''no-progress''"
abbreviation StopReasonBudgetExhausted :: string where "StopReasonBudgetExhausted \<equiv> ''budget-exhausted''"

record retry_decision =
  rd_Action :: retry_action
  rd_Delay :: int
  rd_Reason :: string

text \<open>A budget map that is not set is \<^const>\<open>None\<close>; durations are nanoseconds.\<close>

record retry_policy =
  rp_Budgets :: "(classification \<rightharpoonup> int) option"
  rp_BaseDelay :: int
  rp_MaxDelay :: int

abbreviation second :: int where "second \<equiv> 1000000000"
abbreviation minute :: int where "minute \<equiv> 60 * second"

definition defaultBudgets :: "classification \<rightharpoonup> int" where
  "defaultBudgets = [ClassificationRetryable \<mapsto> 3]"

definition budgetFor :: "retry_policy \<Rightarrow> classification \<Rightarrow> int" where
  "budgetFor p c =
     (case (case rp_Budgets p of Some b \<Rightarrow> b c | None \<Rightarrow> defaultBudgets c) of Some n \<Rightarrow> n | None \<Rightarrow> 0)"

definition baseDelay :: "retry_policy \<Rightarrow> int" where
  "baseDelay p = (if 0 < rp_BaseDelay p then rp_BaseDelay p else second)"

definition maxDelay :: "retry_policy \<Rightarrow> int" where
  "maxDelay p = (if 0 < rp_MaxDelay p then rp_MaxDelay p else 30 * second)"

text \<open>
  \<open>backoff\<close> shifts a signed 64-bit duration: bits fall out at the top, the sign bit is read
  as such, and a shift by the width or more gives zero.
\<close>

definition backoff_window :: "retry_policy \<Rightarrow> nat \<Rightarrow> int" where
  "backoff_window p attempt =
     (let window = sint (push_bit (attempt - 1) (word_of_int (baseDelay p) :: 64 word)) in
      if window \<le> 0 \<or> maxDelay p < window then maxDelay p else window)"

text \<open>
  The jitter: \<open>Int63n(n)\<close> is a parameter for the random source; it panics for \<open>n \<le> 0\<close>, which
  is \<^const>\<open>None\<close>. The sum wraps at 64 bits.
\<close>

definition backoff :: "(int \<Rightarrow> int) \<Rightarrow> retry_policy \<Rightarrow> nat \<Rightarrow> int option" where
  "backoff int63n p attempt =
     (let window = backoff_window p attempt in
      if window \<le> 0 then Some 0
      else
        (let n = sint (word_of_int (window + 1) :: 64 word) in
         if n \<le> 0 then None else Some (int63n n)))"

definition Decide :: "(int \<Rightarrow> int) \<Rightarrow> retry_policy \<Rightarrow> failure_signature list \<Rightarrow> retry_decision option" where
  "Decide int63n p history =
     (let n = length history in
      if history = [] then Some \<lparr>rd_Action = ActionStop, rd_Delay = 0, rd_Reason = StopReasonNoProgress\<rparr>
      else if 2 \<le> n \<and> FailureSignature_Key (history ! (n - 1)) = FailureSignature_Key (history ! (n - 2)) then
        Some \<lparr>rd_Action = ActionStop, rd_Delay = 0, rd_Reason = StopReasonNoProgress\<rparr>
      else if budgetFor p (fs_Classification (last history)) \<le> int n then
        Some \<lparr>rd_Action = ActionStop, rd_Delay = 0, rd_Reason = StopReasonBudgetExhausted\<rparr>
      else
        (case backoff int63n p n of
           None \<Rightarrow> None
         | Some d \<Rightarrow> Some \<lparr>rd_Action = ActionRetry, rd_Delay = d, rd_Reason = []\<rparr>))"

section \<open>Proof of impossibility\<close>

record proven_blocked =
  pb_ResultCode :: result_code
  pb_Reason :: string
  pb_NextAction :: string
  pb_EvidenceRefs :: "string list"

datatype blocked_error = WrongResultCode result_code | NoEvidence | NoNextAction

definition ProvenBlocked_Validate :: "proven_blocked \<Rightarrow> blocked_error option" where
  "ProvenBlocked_Validate b =
     (if pb_ResultCode b \<noteq> ResultProvenBlocked then Some (WrongResultCode (pb_ResultCode b))
      else if pb_EvidenceRefs b = [] then Some NoEvidence
      else if pb_NextAction b = [] then Some NoNextAction
      else None)"

definition blocked_candidate :: "failure_signature \<Rightarrow> proven_blocked option" where
  "blocked_candidate sig =
     (if fs_MissingDependency sig then
        Some \<lparr>pb_ResultCode = ResultProvenBlocked, pb_Reason = ''missing-dependency'',
          pb_NextAction = ''operator: resolve the missing dependency (see evidence refs) and resubmit the plan'',
          pb_EvidenceRefs = fs_EvidenceRefs sig\<rparr>
      else if fs_ContradictorySpec sig then
        Some \<lparr>pb_ResultCode = ResultProvenBlocked, pb_Reason = ''contradictory-spec'',
          pb_NextAction = ''operator: the plan's acceptance criteria contradict each other (see evidence refs) '' @ em_dash
            @ '' revise the spec and resubmit'',
          pb_EvidenceRefs = fs_EvidenceRefs sig\<rparr>
      else None)"

fun Recovery_Evaluate :: "failure_signature list \<Rightarrow> proven_blocked option" where
  "Recovery_Evaluate [] = None"
| "Recovery_Evaluate (sig # history) =
     (case blocked_candidate sig of
        None \<Rightarrow> Recovery_Evaluate history
      | Some candidate \<Rightarrow>
          (if ProvenBlocked_Validate candidate \<noteq> None then Recovery_Evaluate history else Some candidate))"

section \<open>Checkpoints\<close>

record checkpoint =
  ck_LastCompletedTaskID :: string
  ck_EvidenceIDs :: "string list"

definition Checkpoint_ID :: "(string \<Rightarrow> string) \<Rightarrow> checkpoint \<Rightarrow> string" where
  "Checkpoint_ID sha256hex c =
     ''checkpoint-'' @ take 16 (sha256hex (ck_LastCompletedTaskID c @ ''|'' @ join_with '','' (sort (ck_EvidenceIDs c))))"

section \<open>The liveness supervisor\<close>

datatype condition = Healthy | DeadWorker | StuckActivity | MissingWake | PoisonedTask | InfiniteRetry

fun Condition_String :: "condition \<Rightarrow> string" where
  "Condition_String Healthy = ''healthy''"
| "Condition_String DeadWorker = ''dead-worker''"
| "Condition_String StuckActivity = ''stuck-activity''"
| "Condition_String MissingWake = ''missing-wake''"
| "Condition_String PoisonedTask = ''poisoned-task''"
| "Condition_String InfiniteRetry = ''infinite-retry''"

definition Orphaned :: "condition \<Rightarrow> bool" where
  "Orphaned c = (c \<noteq> Healthy)"

definition eventSubscribedReasons :: "reason list" where
  "eventSubscribedReasons =
     [ReasonBudget, ReasonHumanApproval, ReasonHumanCommand, ReasonExternalDeployment, ReasonSecurityHold,
      ReasonBlockedDependency, ReasonUnforeseenHumanGate]"

text \<open>A zero time and an absent wake time are \<^const>\<open>None\<close>.\<close>

record workflow_snapshot =
  wn_WorkflowID :: string
  wn_Status :: status
  wn_Reason :: reason
  wn_WakeAt :: "int option"
  wn_Attempt :: int
  wn_LastHeartbeat :: "int option"
  wn_LastProgressAt :: "int option"
  wn_RecentFailures :: "failure_signature list"

record supervisor_config =
  sc_StaleAfter :: int
  sc_NoProgressAfter :: int
  sc_RetryBudget :: int

definition staleAfter :: "supervisor_config \<Rightarrow> int" where
  "staleAfter c = (if 0 < sc_StaleAfter c then sc_StaleAfter c else 5 * minute)"

definition noProgressAfter :: "supervisor_config \<Rightarrow> int" where
  "noProgressAfter c = (if 0 < sc_NoProgressAfter c then sc_NoProgressAfter c else 30 * minute)"

definition retryBudget :: "supervisor_config \<Rightarrow> int" where
  "retryBudget c = (if 0 < sc_RetryBudget c then sc_RetryBudget c else the (defaultBudgets ClassificationRetryable))"

text \<open>The last two signatures are the same failure.\<close>

definition repeats :: "failure_signature list \<Rightarrow> bool" where
  "repeats fs =
     (let n = length fs in 2 \<le> n \<and> FailureSignature_Key (fs ! (n - 1)) = FailureSignature_Key (fs ! (n - 2)))"

definition Recovery_Classify :: "int \<Rightarrow> workflow_snapshot \<Rightarrow> supervisor_config \<Rightarrow> condition" where
  "Recovery_Classify now snap cfg =
     (case wn_Status snap of
        StatusRunning \<Rightarrow>
          if (case wn_LastHeartbeat snap of None \<Rightarrow> True | Some t \<Rightarrow> staleAfter cfg < now - t) then DeadWorker
          else if repeats (wn_RecentFailures snap) then PoisonedTask
          else if retryBudget cfg < wn_Attempt snap then InfiniteRetry
          else if (case wn_LastProgressAt snap of None \<Rightarrow> False | Some t \<Rightarrow> noProgressAfter cfg < now - t) then StuckActivity
          else Healthy
      | StatusWaiting \<Rightarrow>
          if (case wn_WakeAt snap of None \<Rightarrow> False | Some t \<Rightarrow> now < t) then Healthy
          else if wn_Reason snap \<in> set eventSubscribedReasons then Healthy
          else MissingWake
      | _ \<Rightarrow> Healthy)"

datatype scan_action = ActionRepaired | ActionEscalated | ActionRepairFailed | ActionEscalationFailed

record scan_result =
  sr_WorkflowID :: string
  sr_Condition :: condition
  sr_Action :: scan_action
  sr_Err :: "string option"

definition repairableConditions :: "condition list" where
  "repairableConditions = [DeadWorker, StuckActivity]"

datatype notify_class = P0Critical | P1Command | P2State | P3Progress

record notify_event =
  ne_Class :: notify_class
  ne_Workflow :: string
  ne_ChatID :: string
  ne_ChatType :: string
  ne_Text :: string
  ne_DedupeKey :: string
  ne_OccurredAt :: int

datatype supervisor_event = EvReset string | EvIngest notify_event

text \<open>
  The two services a scan acts on: what \<open>Reset\<close> and \<open>Ingest\<close> answer, an error text or nothing,
  may depend on every call made so far. The clock stands still within a scan; logging is left
  out.
\<close>

record supervisor =
  su_Reset :: "supervisor_event list \<Rightarrow> string option"
  su_Ingest :: "supervisor_event list \<Rightarrow> string option"
  su_Config :: supervisor_config
  su_OpsChatID :: string
  su_OpsChatType :: string

definition chatType :: "supervisor \<Rightarrow> string" where
  "chatType s = (if su_OpsChatType s \<noteq> [] then su_OpsChatType s else ''private'')"

definition Supervisor_escalate ::
  "supervisor \<Rightarrow> int \<Rightarrow> workflow_snapshot \<Rightarrow> condition \<Rightarrow> scan_action \<Rightarrow> supervisor_event list
     \<Rightarrow> scan_result \<times> supervisor_event list" where
  "Supervisor_escalate s now snap cond onSuccess evs =
     (let wid = wn_WorkflowID snap;
          ev = EvIngest \<lparr>ne_Class = P1Command, ne_Workflow = wid, ne_ChatID = su_OpsChatID s, ne_ChatType = chatType s,
             ne_Text = ''liveness supervisor: workflow '' @ wid @ '' is '' @ Condition_String cond @ '' -- needs operator attention'',
             ne_DedupeKey = ''liveness:'' @ wid @ '':'' @ Condition_String cond, ne_OccurredAt = now\<rparr>;
          evs' = evs @ [ev] in
      (case su_Ingest s evs' of
         Some err \<Rightarrow> (\<lparr>sr_WorkflowID = wid, sr_Condition = cond, sr_Action = ActionEscalationFailed, sr_Err = Some err\<rparr>, evs')
       | None \<Rightarrow> (\<lparr>sr_WorkflowID = wid, sr_Condition = cond, sr_Action = onSuccess, sr_Err = None\<rparr>, evs')))"

definition Supervisor_handle ::
  "supervisor \<Rightarrow> int \<Rightarrow> workflow_snapshot \<Rightarrow> condition \<Rightarrow> supervisor_event list \<Rightarrow> scan_result \<times> supervisor_event list" where
  "Supervisor_handle s now snap cond evs =
     (if cond \<notin> set repairableConditions then Supervisor_escalate s now snap cond ActionEscalated evs
      else
        (let evs' = evs @ [EvReset (wn_WorkflowID snap)] in
         case su_Reset s evs' of
           Some _ \<Rightarrow> Supervisor_escalate s now snap cond ActionRepairFailed evs'
         | None \<Rightarrow> (\<lparr>sr_WorkflowID = wn_WorkflowID snap, sr_Condition = cond, sr_Action = ActionRepaired, sr_Err = None\<rparr>, evs')))"

fun scan_snapshots ::
  "supervisor \<Rightarrow> int \<Rightarrow> workflow_snapshot list \<Rightarrow> supervisor_event list \<Rightarrow> scan_result list \<times> supervisor_event list" where
  "scan_snapshots s now [] evs = ([], evs)"
| "scan_snapshots s now (snap # snaps) evs =
     (let cond = Recovery_Classify now snap (su_Config s) in
      if \<not> Orphaned cond then scan_snapshots s now snaps evs
      else
        (let (r, evs1) = Supervisor_handle s now snap cond evs;
             (rs, evs2) = scan_snapshots s now snaps evs1 in
         (r # rs, evs2)))"

text \<open>One scan, given what the projection source answered at that moment.\<close>

definition ScanOnce ::
  "supervisor \<Rightarrow> int \<Rightarrow> string + workflow_snapshot list \<Rightarrow> supervisor_event list
     \<Rightarrow> (string + scan_result list) \<times> supervisor_event list" where
  "ScanOnce s now listed evs =
     (case listed of
        Inl err \<Rightarrow> (Inl err, evs)
      | Inr snaps \<Rightarrow> (let (rs, evs') = scan_snapshots s now snaps evs in (Inr rs, evs')))"

text \<open>
  \<open>Run\<close> over the ticks of its timer, each with its time and what the projection source answers
  then: the error it returned with, if it did, and the calls made. A context that ends is the
  end of the list.
\<close>

fun Supervisor_Run ::
  "supervisor \<Rightarrow> (int \<times> (string + workflow_snapshot list)) list \<Rightarrow> supervisor_event list \<Rightarrow> string option \<times> supervisor_event list" where
  "Supervisor_Run s [] evs = (None, evs)"
| "Supervisor_Run s ((now, listed) # ticks) evs =
     (case ScanOnce s now listed evs of
        (Inl err, evs') \<Rightarrow> (Some err, evs')
      | (Inr _, evs') \<Rightarrow> Supervisor_Run s ticks evs')"

section \<open>The projection sources\<close>

record failure_row =
  fr_id :: string
  fr_workflow_id :: string
  fr_task_id :: string
  fr_attempt :: int
  fr_classification :: string
  fr_detail_digest :: string
  fr_occurred_at :: int

text \<open>
  \<open>RecordFailureSignature\<close> of the Postgres store: a repeated (workflow, task, attempt) is
  ignored; a repeated row id under another such triple violates the primary key.
\<close>

definition PG_RecordFailureSignature :: "bool \<Rightarrow> failure_row list \<Rightarrow> failure_row \<Rightarrow> string option \<times> failure_row list" where
  "PG_RecordFailureSignature fault rows r =
     (let key = (\<lambda>r. (fr_workflow_id r, fr_task_id r, fr_attempt r)) in
      if fault then (Some (fr_workflow_id r), rows)
      else if key r \<in> key ` set rows then (None, rows)
      else if fr_id r \<in> fr_id ` set rows then (Some (fr_workflow_id r), rows)
      else (None, rows @ [r]))"

definition FailureDetailDigest :: "(string \<Rightarrow> string) \<Rightarrow> string \<Rightarrow> string \<Rightarrow> string list \<Rightarrow> string" where
  "FailureDetailDigest sha256hex taskID cls validationCommands =
     take 32 (sha256hex (taskID @ ''|'' @ cls @ ''|'' @ join_with [newline] validationCommands))"

abbreviation recentFailureWindow :: nat where "recentFailureWindow \<equiv> 8"

text \<open>Rows with equal times come in an order the query leaves open; here it is the order of insertion.\<close>

definition recentFailures :: "failure_row list \<Rightarrow> string \<Rightarrow> failure_signature list" where
  "recentFailures rows workflowID =
     (let mine = filter (\<lambda>r. fr_workflow_id r = workflowID) rows in
      case sort_key (\<lambda>r. - fr_occurred_at r) mine of
        [] \<Rightarrow> []
      | newest # _ \<Rightarrow>
          map (\<lambda>r. \<lparr>fs_Classification = fr_classification r, fs_Detail = fr_detail_digest r, fs_MissingDependency = False,
                 fs_ContradictorySpec = False, fs_EvidenceRefs = []\<rparr>)
            (take recentFailureWindow (sort_key fr_occurred_at (filter (\<lambda>r. fr_task_id r = fr_task_id newest) mine))))"

record projection_row =
  pj_workflow_id :: string
  pj_status :: "status option"
  pj_reason :: "reason option"
  pj_attempt :: "int option"
  pj_wake_at :: "int option"
  pj_updated_at :: int

text \<open>\<open>status NOT IN (...)\<close> is not true of a NULL status.\<close>

definition PG_ListNonterminal :: "projection_row list \<Rightarrow> failure_row list \<Rightarrow> workflow_snapshot list" where
  "PG_ListNonterminal projections failures =
     map (\<lambda>r. \<lparr>wn_WorkflowID = pj_workflow_id r, wn_Status = the (pj_status r),
            wn_Reason = (case pj_reason r of Some x \<Rightarrow> x | None \<Rightarrow> []), wn_WakeAt = pj_wake_at r,
            wn_Attempt = (case pj_attempt r of Some n \<Rightarrow> n | None \<Rightarrow> 0), wn_LastHeartbeat = None,
            wn_LastProgressAt = Some (pj_updated_at r), wn_RecentFailures = recentFailures failures (pj_workflow_id r)\<rparr>)
       (filter (\<lambda>r. case pj_status r of None \<Rightarrow> False
                  | Some st \<Rightarrow> st \<notin> {StatusSucceeded, StatusFailed, StatusCancelled}) projections)"

text \<open>The composite source: one failing heartbeat read fails the whole list.\<close>

fun with_heartbeats ::
  "(string \<Rightarrow> string + int option) \<Rightarrow> workflow_snapshot list \<Rightarrow> string + workflow_snapshot list" where
  "with_heartbeats hb [] = Inr []"
| "with_heartbeats hb (snap # snaps) =
     (if wn_Status snap \<noteq> StatusRunning then
        (case with_heartbeats hb snaps of Inl e \<Rightarrow> Inl e | Inr ss \<Rightarrow> Inr (snap # ss))
      else
        (case hb (wn_WorkflowID snap) of
           Inl e \<Rightarrow> Inl e
         | Inr t \<Rightarrow> (case with_heartbeats hb snaps of Inl e \<Rightarrow> Inl e | Inr ss \<Rightarrow> Inr (snap\<lparr>wn_LastHeartbeat := t\<rparr> # ss))))"

definition Composite_ListNonterminal ::
  "string + workflow_snapshot list \<Rightarrow> (string \<Rightarrow> string + int option) \<Rightarrow> string + workflow_snapshot list" where
  "Composite_ListNonterminal pg heartbeats =
     (case pg of Inl e \<Rightarrow> Inl e | Inr snaps \<Rightarrow> with_heartbeats heartbeats snaps)"

text \<open>
  The two Temporal adapters. A described workflow has the last heartbeats of its pending
  activities and its start time, each possibly absent; a history is a sequence of events, each
  read with an error or with its id and whether it is a completed workflow task.
\<close>

definition TemporalHeartbeat :: "string + int option list \<times> int option \<Rightarrow> string + int option" where
  "TemporalHeartbeat described =
     (case described of
        Inl e \<Rightarrow> Inl e
      | Inr (pending, start) \<Rightarrow>
          (let freshest = fold (\<lambda>pa fresh. case pa of None \<Rightarrow> fresh
                 | Some t \<Rightarrow> (case fresh of None \<Rightarrow> Some t | Some f \<Rightarrow> if f < t then Some t else fresh)) pending None in
           Inr (case freshest of Some t \<Rightarrow> Some t | None \<Rightarrow> start)))"

datatype reset_error = HistoryFailed string | NoCompletedTask string | ResetFailed string

fun last_completed :: "string \<Rightarrow> (string + bool \<times> int) list \<Rightarrow> int \<Rightarrow> reset_error + int" where
  "last_completed wid [] acc = Inr acc"
| "last_completed wid (Inl _ # evs) acc = Inl (HistoryFailed wid)"
| "last_completed wid (Inr (completed, i) # evs) acc = last_completed wid evs (if completed then i else acc)"

text \<open>The answer of the server to a reset to an event is a parameter.\<close>

definition TemporalController_Reset :: "(int \<Rightarrow> bool) \<Rightarrow> (string + bool \<times> int) list \<Rightarrow> string \<Rightarrow> reset_error option" where
  "TemporalController_Reset reset_ok history wid =
     (case last_completed wid history 0 of
        Inl e \<Rightarrow> Some e
      | Inr i \<Rightarrow> if i = 0 then Some (NoCompletedTask wid) else if \<not> reset_ok i then Some (ResetFailed wid) else None)"

lemma last_completed_readable:
  "last_completed wid (map Inr evs) acc = Inr (last (acc # map snd (filter fst evs)))"
  by (induction evs arbitrary: acc) auto

text \<open>A readable history is reset to its last completed workflow task, if it has one.\<close>

lemma TemporalController_Reset_target:
  assumes "\<forall>(c, i) \<in> set evs. 0 < i" and "TemporalController_Reset ok (map Inr evs) wid = None"
  shows "filter fst evs \<noteq> [] \<and> ok (snd (last (filter fst evs)))"
proof -
  have ne: "filter fst evs \<noteq> []"
    using assms(2) by (auto simp: TemporalController_Reset_def last_completed_readable split: if_splits)
  then have "last (map snd (filter fst evs)) = snd (last (filter fst evs))" by (rule last_map)
  then show ?thesis using assms(2) ne by (auto simp: TemporalController_Reset_def last_completed_readable split: if_splits)
qed

section \<open>Retries are bounded\<close>

lemma maxDelay_pos: "0 < maxDelay p"
  by (simp add: maxDelay_def)

lemma backoff_window_bounds: "0 < backoff_window p attempt \<and> backoff_window p attempt \<le> maxDelay p"
  using maxDelay_pos by (auto simp: backoff_window_def Let_def)

text \<open>What \<open>Int63n\<close> documents: a number below its positive argument.\<close>

definition jitter :: "(int \<Rightarrow> int) \<Rightarrow> bool" where
  "jitter int63n \<longleftrightarrow> (\<forall>n > 0. 0 \<le> int63n n \<and> int63n n < n)"

lemma sint_of_int: "sint (word_of_int n :: 64 word) = (n + 2 ^ 63) mod 2 ^ 64 - 2 ^ 63"
  by (simp add: sint_sbintrunc' signed_take_bit_eq_take_bit_shift take_bit_eq_mod)

lemma sint_of_int_small: "0 \<le> n \<Longrightarrow> n < 2 ^ 63 \<Longrightarrow> sint (word_of_int n :: 64 word) = n"
  unfolding sint_of_int by simp

lemma backoff_bounds:
  assumes "jitter int63n" and "maxDelay p < 2 ^ 63 - 1"
  shows "\<exists>d. backoff int63n p attempt = Some d \<and> 0 \<le> d \<and> d \<le> backoff_window p attempt"
proof -
  have w: "0 < backoff_window p attempt" "backoff_window p attempt < 2 ^ 63 - 1"
    using backoff_window_bounds [of p attempt] assms(2) by simp_all
  then have "sint (word_of_int (backoff_window p attempt + 1) :: 64 word) = backoff_window p attempt + 1"
    by (intro sint_of_int_small) simp_all
  then have "backoff int63n p attempt = Some (int63n (backoff_window p attempt + 1))"
    using w(1) by (simp add: backoff_def Let_def del: of_int_add)
  moreover have "0 \<le> int63n (backoff_window p attempt + 1)" "int63n (backoff_window p attempt + 1) < backoff_window p attempt + 1"
    using assms(1) w(1) unfolding jitter_def by (metis add_strict_increasing zero_less_one_class.zero_le_one add.commute)+
  ultimately show ?thesis by simp
qed

text \<open>The default policy: one second, doubled, capped at thirty.\<close>

definition default_policy :: retry_policy where
  "default_policy = \<lparr>rp_Budgets = None, rp_BaseDelay = 0, rp_MaxDelay = 0\<rparr>"

lemma push_bit_of_int: "push_bit k (word_of_int n :: 64 word) = word_of_int (n * 2 ^ k)"
  by (simp add: push_bit_eq_mult)

lemma default_window: "0 < attempt \<Longrightarrow> backoff_window default_policy attempt = min (30 * second) (second * 2 ^ (attempt - 1))"
proof -
  define k where "k = attempt - 1"
  let ?v = "sint (word_of_int (second * 2 ^ k) :: 64 word)"
  have "baseDelay default_policy = second" "maxDelay default_policy = 30 * second"
    by (simp_all add: default_policy_def baseDelay_def maxDelay_def)
  then have w: "backoff_window default_policy attempt = (if ?v \<le> 0 \<or> 30 * second < ?v then 30 * second else ?v)"
    unfolding backoff_window_def Let_def k_def push_bit_of_int by metis
  show ?thesis
  proof (cases "k \<le> 33")
    case True
    then have "(2 :: int) ^ k \<le> 2 ^ 33" by (intro power_increasing) simp_all
    then have "?v = second * 2 ^ k" by (intro sint_of_int_small) simp_all
    then show ?thesis unfolding w k_def by auto
  next
    case False
    have "(2 :: int) ^ 34 dvd 2 ^ k" using False by (intro le_imp_power_dvd) simp
    then have "second * 2 ^ 34 dvd second * 2 ^ k" by (rule mult_dvd_mono [OF dvd_refl])
    then have d: "(2 :: int) ^ 43 dvd second * 2 ^ k" by (rule dvd_trans [rotated]) simp
    have "(2 :: int) ^ 43 dvd (second * 2 ^ k + 2 ^ 63) mod 2 ^ 64" using d by (simp add: dvd_mod_iff)
    then have "2 ^ 43 dvd ?v" unfolding sint_of_int by (rule dvd_diff) simp
    then have "?v \<le> 0 \<or> 2 ^ 43 \<le> ?v" using zdvd_imp_le by fastforce
    then have "?v \<le> 0 \<or> 30 * second < ?v" by auto
    moreover have "(2 :: int) ^ 34 \<le> 2 ^ k" using False by (intro power_increasing) simp_all
    ultimately show ?thesis unfolding w k_def [symmetric] by auto
  qed
qed

lemma Decide_cases:
  assumes "jitter int63n" and "maxDelay p < 2 ^ 63 - 1"
  shows "\<exists>d. Decide int63n p history = Some d \<and>
    (if rd_Action d = ActionRetry
     then history \<noteq> [] \<and> \<not> repeats history \<and> int (length history) < budgetFor p (fs_Classification (last history))
       \<and> 0 \<le> rd_Delay d \<and> rd_Delay d \<le> backoff_window p (length history)
     else rd_Reason d \<in> {StopReasonNoProgress, StopReasonBudgetExhausted}
       \<and> (history = [] \<or> repeats history \<or> budgetFor p (fs_Classification (last history)) \<le> int (length history)))"
  using backoff_bounds [OF assms, of "length history"]
  by (auto simp: Decide_def repeats_def Let_def)

text \<open>
  C40: Retrying ends and never waits too long. For a random source that keeps its promise and a
  cap below the largest duration, the policy always answers; it retries only while the budget
  of the last failure is not used up and the last two failures differ, with a delay between
  zero and the cap; and in every endless stream of failures it says stop at the latest when
  the largest budget is reached, with the default policy after three failures.
\<close>

theorem Decide_ends:
  assumes "jitter int63n" and "maxDelay p < 2 ^ 63 - 1" and "\<And>c. budgetFor p c \<le> int budget" and "0 < budget"
  shows "(\<exists>d. Decide int63n p history = Some d
      \<and> (if rd_Action d = ActionRetry
         then \<not> repeats history \<and> int (length history) < budgetFor p (fs_Classification (last history))
           \<and> 0 \<le> rd_Delay d \<and> rd_Delay d \<le> maxDelay p
         else True))
    \<and> (\<exists>n d. 0 < n \<and> n \<le> budget \<and> Decide int63n p (map failure [0..<n]) = Some d \<and> rd_Action d = ActionStop)"
proof
  show "\<exists>d. Decide int63n p history = Some d
      \<and> (if rd_Action d = ActionRetry
         then \<not> repeats history \<and> int (length history) < budgetFor p (fs_Classification (last history))
           \<and> 0 \<le> rd_Delay d \<and> rd_Delay d \<le> maxDelay p
         else True)"
    using Decide_cases [OF assms(1,2), of history] backoff_window_bounds [of p "length history"] by (auto split: if_splits)
  let ?h = "map failure [0..<budget]"
  obtain d where d: "Decide int63n p ?h = Some d"
      "rd_Action d = ActionRetry \<Longrightarrow> int (length ?h) < budgetFor p (fs_Classification (last ?h))"
    using Decide_cases [OF assms(1,2), of ?h] by (auto split: if_splits)
  then have "rd_Action d = ActionStop" using assms(3) [of "fs_Classification (last ?h)"] by (cases "rd_Action d") auto
  then show "\<exists>n d. 0 < n \<and> n \<le> budget \<and> Decide int63n p (map failure [0..<n]) = Some d \<and> rd_Action d = ActionStop"
    using d(1) assms(4) by blast
qed

lemma default_budgets: "budgetFor default_policy c \<le> 3"
  by (simp add: budgetFor_def default_policy_def defaultBudgets_def)

theorem Decide_ends_witness:
  "\<exists>n d. 0 < n \<and> n \<le> 3 \<and> Decide (\<lambda>n. n - 1) default_policy
     (map (\<lambda>i. \<lparr>fs_Classification = ClassificationRetryable, fs_Detail = show_nat i, fs_MissingDependency = False,
        fs_ContradictorySpec = False, fs_EvidenceRefs = []\<rparr>) [0..<n]) = Some d \<and> rd_Action d = ActionStop"
proof -
  have j: "jitter (\<lambda>n. n - 1)" by (simp add: jitter_def)
  have m: "maxDelay default_policy < 2 ^ 63 - 1" by (simp add: default_policy_def maxDelay_def)
  have b: "budgetFor default_policy c \<le> int 3" for c using default_budgets by simp
  have "0 < (3 :: nat)" by simp
  from Decide_ends [OF j m b this] show ?thesis by blast
qed

section \<open>Blocked only on evidence\<close>

definition impossible :: "failure_signature \<Rightarrow> bool" where
  "impossible sig \<longleftrightarrow> (fs_MissingDependency sig \<or> fs_ContradictorySpec sig) \<and> fs_EvidenceRefs sig \<noteq> []"

lemma candidate_impossible:
  "(\<exists>b. blocked_candidate sig = Some b \<and> ProvenBlocked_Validate b = None) \<longleftrightarrow> impossible sig"
  by (simp add: blocked_candidate_def ProvenBlocked_Validate_def impossible_def)

text \<open>
  A task is declared proven blocked exactly when a recorded failure carries both a flag of
  impossibility and evidence for it; the verdict then names the evidence of such a failure,
  the one result code \<open>PROVEN_BLOCKED\<close> and an action for the operator.
\<close>

theorem Evaluate_evidence:
  "case Recovery_Evaluate history of
     None \<Rightarrow> \<not> list_ex impossible history
   | Some b \<Rightarrow> ProvenBlocked_Validate b = None
       \<and> list_ex (\<lambda>sig. impossible sig \<and> pb_EvidenceRefs b = fs_EvidenceRefs sig) history"
proof (induction history)
  case (Cons sig history)
  show ?case
  proof (cases "blocked_candidate sig")
    case None
    then show ?thesis using Cons candidate_impossible [of sig] by (auto split: option.splits)
  next
    case (Some b)
    then have "pb_EvidenceRefs b = fs_EvidenceRefs sig" by (auto simp: blocked_candidate_def split: if_splits)
    then show ?thesis using Some Cons candidate_impossible [of sig]
      by (cases "ProvenBlocked_Validate b") (auto split: option.splits)
  qed
qed simp

section \<open>A scan treats every orphan once\<close>

definition notified :: "string \<Rightarrow> condition \<Rightarrow> supervisor_event \<Rightarrow> bool" where
  "notified wid cond ev =
     (case ev of EvIngest n \<Rightarrow> ne_Class n = P1Command \<and> ne_Workflow n = wid \<and> ne_DedupeKey n = ''liveness:'' @ wid @ '':'' @ Condition_String cond
      | EvReset _ \<Rightarrow> False)"

text \<open>
  What one orphan is owed: a dead or stuck worker is reset, and reported when the reset
  fails; any other orphan is reported and not reset.
\<close>

definition handled :: "condition \<Rightarrow> string \<Rightarrow> scan_result \<Rightarrow> supervisor_event list \<Rightarrow> bool" where
  "handled cond wid r es =
     (sr_WorkflowID r = wid \<and> sr_Condition r = cond \<and>
      (if cond = DeadWorker \<or> cond = StuckActivity then
         es \<noteq> [] \<and> hd es = EvReset wid \<and>
         (if sr_Action r = ActionRepaired then tl es = []
          else length es = 2 \<and> notified wid cond (es ! 1) \<and> sr_Action r \<in> {ActionRepairFailed, ActionEscalationFailed})
       else length es = 1 \<and> notified wid cond (hd es) \<and> sr_Action r \<in> {ActionEscalated, ActionEscalationFailed}))"

lemma handle_handled:
  assumes "Supervisor_handle s now snap cond evs = (r, evs')"
  shows "\<exists>es. evs' = evs @ es \<and> handled cond (wn_WorkflowID snap) r es"
  using assms unfolding Supervisor_handle_def Supervisor_escalate_def Let_def handled_def notified_def repairableConditions_def
  by (cases cond) (auto split: option.splits)

abbreviation orphans :: "supervisor \<Rightarrow> int \<Rightarrow> workflow_snapshot list \<Rightarrow> workflow_snapshot list" where
  "orphans s now snaps \<equiv> filter (\<lambda>snap. Recovery_Classify now snap (su_Config s) \<noteq> Healthy) snaps"

lemma scan_snapshots_handled:
  "scan_snapshots s now snaps evs = (rs, evs') \<Longrightarrow>
     \<exists>ess. evs' = evs @ concat ess \<and> length rs = length ess
       \<and> list_all2 (\<lambda>snap (r, es). handled (Recovery_Classify now snap (su_Config s)) (wn_WorkflowID snap) r es)
           (orphans s now snaps) (zip rs ess)"
proof (induction snaps arbitrary: evs rs evs')
  case Nil
  then show ?case by (intro exI [of _ "[]"]) simp
next
  case (Cons snap snaps)
  let ?cond = "Recovery_Classify now snap (su_Config s)"
  show ?case
  proof (cases "?cond = Healthy")
    case True
    then show ?thesis using Cons by (simp add: Orphaned_def)
  next
    case False
    obtain r evs1 where h: "Supervisor_handle s now snap ?cond evs = (r, evs1)" by fastforce
    obtain rs2 evs2 where t: "scan_snapshots s now snaps evs1 = (rs2, evs2)" by fastforce
    have rs: "rs = r # rs2" "evs' = evs2" using Cons.prems False h t by (simp_all add: Orphaned_def)
    obtain es where es: "evs1 = evs @ es" "handled ?cond (wn_WorkflowID snap) r es" using handle_handled [OF h] by blast
    obtain ess where "evs2 = evs1 @ concat ess" "length rs2 = length ess"
        "list_all2 (\<lambda>snap (r, es). handled (Recovery_Classify now snap (su_Config s)) (wn_WorkflowID snap) r es)
           (orphans s now snaps) (zip rs2 ess)"
      using Cons.IH [OF t] by blast
    then show ?thesis using False rs es by (intro exI [of _ "es # ess"]) simp
  qed
qed

text \<open>
  A scan that could list the workflows treats every orphan exactly once and in order: a dead
  or stuck worker is reset and, if that fails, reported to the operators; every other orphan
  is reported and never reset; a healthy workflow is not touched.
\<close>

theorem ScanOnce_complete:
  assumes "ScanOnce s now (Inr snaps) evs = (Inr rs, evs')"
  shows "\<exists>ess. evs' = evs @ concat ess \<and> length rs = length ess
    \<and> list_all2 (\<lambda>snap (r, es). handled (Recovery_Classify now snap (su_Config s)) (wn_WorkflowID snap) r es)
        (filter (\<lambda>snap. Recovery_Classify now snap (su_Config s) \<noteq> Healthy) snaps) (zip rs ess)"
  using assms scan_snapshots_handled by (simp add: ScanOnce_def split: prod.splits)

definition idle_config :: supervisor_config where
  "idle_config = \<lparr>sc_StaleAfter = 0, sc_NoProgressAfter = 0, sc_RetryBudget = 0\<rparr>"

definition idle_supervisor :: supervisor where
  "idle_supervisor = \<lparr>su_Reset = (\<lambda>_. None), su_Ingest = (\<lambda>_. None), su_Config = idle_config, su_OpsChatID = ''ops'', su_OpsChatType = []\<rparr>"

definition dead_snapshot :: workflow_snapshot where
  "dead_snapshot = \<lparr>wn_WorkflowID = ''w1'', wn_Status = StatusRunning, wn_Reason = [], wn_WakeAt = None, wn_Attempt = 1,
     wn_LastHeartbeat = None, wn_LastProgressAt = None, wn_RecentFailures = []\<rparr>"

theorem ScanOnce_complete_witness:
  "\<exists>ess. snd (ScanOnce idle_supervisor 0 (Inr [dead_snapshot]) []) = concat ess \<and> length ess = 1
     \<and> handled DeadWorker ''w1'' \<lparr>sr_WorkflowID = ''w1'', sr_Condition = DeadWorker, sr_Action = ActionRepaired, sr_Err = None\<rparr> (hd ess)"
proof -
  have c: "Recovery_Classify 0 dead_snapshot (su_Config idle_supervisor) = DeadWorker"
    by (simp add: Recovery_Classify_def dead_snapshot_def)
  have run: "ScanOnce idle_supervisor 0 (Inr [dead_snapshot]) [] =
      (Inr [\<lparr>sr_WorkflowID = ''w1'', sr_Condition = DeadWorker, sr_Action = ActionRepaired, sr_Err = None\<rparr>], [EvReset ''w1''])"
    by (simp add: ScanOnce_def c Orphaned_def Supervisor_handle_def repairableConditions_def idle_supervisor_def dead_snapshot_def
        Recovery_Classify_def)
  from ScanOnce_complete [OF run] obtain ess where "[EvReset ''w1''] = concat ess" "length ess = 1"
    "list_all2 (\<lambda>snap (r, es). handled (Recovery_Classify 0 snap (su_Config idle_supervisor)) (wn_WorkflowID snap) r es)
       (filter (\<lambda>snap. Recovery_Classify 0 snap (su_Config idle_supervisor) \<noteq> Healthy) [dead_snapshot])
       (zip [\<lparr>sr_WorkflowID = ''w1'', sr_Condition = DeadWorker, sr_Action = ActionRepaired, sr_Err = None\<rparr>] ess)"
    by auto
  moreover have "wn_WorkflowID dead_snapshot = ''w1''" by (simp add: dead_snapshot_def)
  ultimately show ?thesis unfolding run by (intro exI [of _ ess]) (auto simp: c length_Suc_conv)
qed

text \<open>The loop does not survive a failing scan: what the ticks after it would have found is never looked at.\<close>

lemma Supervisor_Run_stops_at_error:
  assumes "\<forall>(now, listed) \<in> set before. \<exists>snaps. listed = Inr snaps"
  shows "Supervisor_Run s (before @ (now, Inl err) # after) evs = (Some err, snd (Supervisor_Run s before evs))"
  using assms
proof (induction before arbitrary: evs)
  case Nil
  then show ?case by (simp add: ScanOnce_def)
next
  case (Cons tick before)
  obtain now snaps where tick: "tick = (now, Inr snaps)" using Cons.prems by (cases tick) auto
  then show ?case using Cons by (auto simp: ScanOnce_def split: prod.splits)
qed

section \<open>What the supervisor gets to see\<close>

text \<open>The heartbeats are filled in for the running workflows only, and one failing read hides every workflow.\<close>

lemma Composite_all_or_nothing:
  assumes "snap \<in> set snaps" and "wn_Status snap = StatusRunning" and "hb (wn_WorkflowID snap) = Inl e"
  shows "\<exists>e'. Composite_ListNonterminal (Inr snaps) hb = Inl e'"
proof -
  have "\<exists>e'. with_heartbeats hb snaps = Inl e'" using assms
    by (induction snaps) (auto split: sum.splits)
  then show ?thesis by (simp add: Composite_ListNonterminal_def)
qed

lemma sorted_sort_key: "sorted (map f xs) \<Longrightarrow> sort_key f xs = xs"
  by (rule sort_key_id_if_sorted)

text \<open>
  Only the oldest signatures of the current task are read. Once a task has failed eight
  times, nothing it does later changes what the supervisor sees of it.
\<close>

theorem recentFailures_oldest:
  assumes "recentFailureWindow \<le> length rows" and "sorted (map fr_occurred_at (rows @ later))"
    and "\<forall>r \<in> set (rows @ later). fr_workflow_id r = wid \<and> fr_task_id r = task"
  shows "recentFailures (rows @ later) wid = recentFailures rows wid"
proof -
  have one: "recentFailures xs wid =
      map (\<lambda>r. \<lparr>fs_Classification = fr_classification r, fs_Detail = fr_detail_digest r, fs_MissingDependency = False,
                 fs_ContradictorySpec = False, fs_EvidenceRefs = []\<rparr>) (take recentFailureWindow xs)"
    if xs: "xs \<noteq> []" "sorted (map fr_occurred_at xs)" "\<forall>r \<in> set xs. fr_workflow_id r = wid \<and> fr_task_id r = task" for xs
  proof -
    obtain n ns where n: "sort_key (\<lambda>r. - fr_occurred_at r) xs = n # ns" using xs(1) by (metis neq_Nil_conv sort_key_simps(1) length_sort length_0_conv)
    then have "n \<in> set xs" by (metis list.set_intros(1) set_sort)
    then have "filter (\<lambda>r. fr_workflow_id r = wid) xs = xs" "filter (\<lambda>r. fr_task_id r = fr_task_id n) xs = xs"
      using xs(3) by (auto simp: filter_id_conv)
    then show ?thesis using n xs(2) by (simp add: recentFailures_def sorted_sort_key)
  qed
  have "sorted (map fr_occurred_at rows)" using assms(2) by (simp add: sorted_append)
  moreover have "rows \<noteq> []" using assms(1) by auto
  ultimately show ?thesis using one [of rows] one [of "rows @ later"] assms by simp
qed

end
