(* ===== verification/Executors.thy ===== *)
theory Executors
  imports Receipts Verify Plan_Doc
begin

text \<open>
  The choice and the run of an executor: the capability registry with its eligibility rules
  and the health breaker (\<open>internal/executor/capability\<close>), the selector with the routing table
  (\<open>internal/kernel/executor_select.go\<close>, \<open>executor_routing.go\<close>), the mandatory sandbox
  (\<open>internal/kernel/sandboxexec.go\<close>) and the activity \<open>ExecuteTask\<close> with its fallback loop
  (\<open>internal/kernel/activities.go\<close>). What the adapters, the sandbox engine and the clock
  answer is an input; the calls made to them are recorded. The lemmas show that nothing runs
  outside the policy allowlist and the registry, that a task that must be sandboxed never runs
  on the host, that the fallback is bounded, and what the breaker remembers of a history.
\<close>

section \<open>Capability records\<close>

type_synonym availability = string

abbreviation AvailabilitySupported :: availability where "AvailabilitySupported \<equiv> ''supported''"
abbreviation AvailabilityUnsupported :: availability where "AvailabilityUnsupported \<equiv> ''unsupported''"
abbreviation SandboxSupported :: string where "SandboxSupported \<equiv> ''sandbox_supported''"
abbreviation SandboxHostOnly :: string where "SandboxHostOnly \<equiv> ''host_only''"
abbreviation SandboxUnsupported :: string where "SandboxUnsupported \<equiv> ''unsupported''"

text \<open>Times are nanoseconds; the zero time is \<^const>\<open>None\<close>. \<open>RequiresSandbox\<close> is a pointer.\<close>

record capability_record =
  cp_Provider :: string
  cp_ExecutionClass :: string
  cp_Features :: "string list"
  cp_Availability :: availability
  cp_ProfileAllow :: "string list"
  cp_ProfileDeny :: "string list"
  cp_LastVerifiedAt :: "int option"
  cp_RequiresSandbox :: "bool option"
  cp_SandboxOptOutReason :: string
  cp_SandboxEligibility :: string

definition SandboxRequired :: "capability_record \<Rightarrow> bool" where
  "SandboxRequired r = (case cp_RequiresSandbox r of None \<Rightarrow> True | Some b \<Rightarrow> b)"

definition IsSandboxSupported :: "capability_record \<Rightarrow> bool" where
  "IsSandboxSupported r \<longleftrightarrow> cp_SandboxEligibility r = SandboxSupported"

definition StalenessLimit :: int where
  "StalenessLimit = 180 * 24 * 3600 * 1000000000"

datatype capability_error =
    MissingProvider nat
  | DuplicateProvider nat string
  | MissingExecutionClass string
  | BadAvailability string availability
  | MissingLastVerified string
  | UnjustifiedOptOut string
  | MissingEligibility string
  | BadEligibility string string

fun Registry_validate_from :: "nat \<Rightarrow> string list \<Rightarrow> capability_record list \<Rightarrow> capability_error option" where
  "Registry_validate_from i seen [] = None"
| "Registry_validate_from i seen (r # rs) =
     (let p = cp_Provider r in
      if p = [] then Some (MissingProvider i)
      else if p \<in> set seen then Some (DuplicateProvider i p)
      else if cp_ExecutionClass r = [] then Some (MissingExecutionClass p)
      else if cp_Availability r \<notin> {AvailabilitySupported, AvailabilityUnsupported} then Some (BadAvailability p (cp_Availability r))
      else if cp_LastVerifiedAt r = None then Some (MissingLastVerified p)
      else if cp_RequiresSandbox r = Some False \<and> cp_SandboxOptOutReason r = [] then Some (UnjustifiedOptOut p)
      else if cp_SandboxEligibility r = [] then Some (MissingEligibility p)
      else if cp_SandboxEligibility r \<notin> {SandboxSupported, SandboxHostOnly, SandboxUnsupported}
        then Some (BadEligibility p (cp_SandboxEligibility r))
      else Registry_validate_from (i + 1) (p # seen) rs)"

definition Registry_validate :: "capability_record list \<Rightarrow> capability_error option" where
  "Registry_validate reg = Registry_validate_from 0 [] reg"

definition Registry_Load :: "string + string \<Rightarrow> (string \<Rightarrow> string + capability_record list) \<Rightarrow> string + capability_record list" where
  "Registry_Load file decode =
     (case file of
        Inl e \<Rightarrow> Inl (''read: '' @ e)
      | Inr raw \<Rightarrow>
          (case decode raw of
             Inl e \<Rightarrow> Inl (''parse: '' @ e)
           | Inr reg \<Rightarrow> (case Registry_validate reg of Some _ \<Rightarrow> Inl ''invalid registry'' | None \<Rightarrow> Inr reg)))"

definition hasAll :: "string list \<Rightarrow> string list \<Rightarrow> bool" where
  "hasAll have want = list_all (\<lambda>w. w \<in> set have) want"

definition Eligible :: "capability_record list \<Rightarrow> string \<Rightarrow> string list \<Rightarrow> capability_record list" where
  "Eligible reg profile required =
     sort_key cp_Provider
       (filter (\<lambda>r. cp_Availability r = AvailabilitySupported \<and> profile \<notin> set (cp_ProfileDeny r)
            \<and> (cp_ProfileAllow r = [] \<or> profile \<in> set (cp_ProfileAllow r)) \<and> hasAll (cp_Features r) required) reg)"

definition EligibleForSandbox :: "capability_record list \<Rightarrow> string \<Rightarrow> string list \<Rightarrow> capability_record list" where
  "EligibleForSandbox reg profile required = filter IsSandboxSupported (Eligible reg profile required)"

definition Stale :: "capability_record list \<Rightarrow> int \<Rightarrow> string list" where
  "Stale reg now =
     map cp_Provider (filter (\<lambda>r. case cp_LastVerifiedAt r of None \<Rightarrow> True | Some t \<Rightarrow> StalenessLimit < now - t) reg)"

definition Registry_Lookup :: "capability_record list \<Rightarrow> string \<Rightarrow> capability_record option" where
  "Registry_Lookup reg provider = find (\<lambda>r. cp_Provider r = provider) reg"

section \<open>The health breaker\<close>

record health_tracker =
  ht_tripUntil :: "string \<Rightarrow> int option"
  ht_consecutiveFailures :: "string \<Rightarrow> int"
  ht_trips :: "string \<Rightarrow> int"
  ht_FailureThreshold :: int
  ht_Cooldown :: int

definition NewHealthTracker :: health_tracker where
  "NewHealthTracker = \<lparr>ht_tripUntil = (\<lambda>_. None), ht_consecutiveFailures = (\<lambda>_. 0), ht_trips = (\<lambda>_. 0),
     ht_FailureThreshold = 0, ht_Cooldown = 0\<rparr>"

definition failureThreshold :: "health_tracker \<Rightarrow> int" where
  "failureThreshold h = (if 0 < ht_FailureThreshold h then ht_FailureThreshold h else 3)"

definition cooldown :: "health_tracker \<Rightarrow> int" where
  "cooldown h = (if 0 < ht_Cooldown h then ht_Cooldown h else 60 * 1000000000)"

definition RecordSuccess :: "health_tracker \<Rightarrow> string \<Rightarrow> health_tracker" where
  "RecordSuccess h p = h\<lparr>ht_consecutiveFailures := (ht_consecutiveFailures h)(p := 0), ht_tripUntil := (ht_tripUntil h)(p := None)\<rparr>"

definition tripLocked :: "health_tracker \<Rightarrow> string \<Rightarrow> int \<Rightarrow> health_tracker" where
  "tripLocked h p now = h\<lparr>ht_tripUntil := (ht_tripUntil h)(p \<mapsto> now + cooldown h), ht_trips := (ht_trips h)(p := ht_trips h p + 1)\<rparr>"

definition RecordFailure :: "health_tracker \<Rightarrow> string \<Rightarrow> int \<Rightarrow> health_tracker" where
  "RecordFailure h p now =
     (let h1 = h\<lparr>ht_consecutiveFailures := (ht_consecutiveFailures h)(p := ht_consecutiveFailures h p + 1)\<rparr> in
      if failureThreshold h1 \<le> ht_consecutiveFailures h1 p then tripLocked h1 p now else h1)"

definition RecordRateLimited :: "health_tracker \<Rightarrow> string \<Rightarrow> int \<Rightarrow> health_tracker" where
  "RecordRateLimited h p now = tripLocked h p now"

definition RecordUnavailable :: "health_tracker \<Rightarrow> string \<Rightarrow> int \<Rightarrow> health_tracker" where
  "RecordUnavailable h p now = tripLocked h p now"

record health_snapshot =
  hs_at :: int
  hs_tripUntil :: "string \<Rightarrow> int option"

definition Snapshot :: "health_tracker \<Rightarrow> int \<Rightarrow> health_snapshot" where
  "Snapshot h now = \<lparr>hs_at = now, hs_tripUntil = ht_tripUntil h\<rparr>"

text \<open>The zero snapshot has a nil map, in which nothing is found.\<close>

definition zero_snapshot :: health_snapshot where
  "zero_snapshot = \<lparr>hs_at = 0, hs_tripUntil = (\<lambda>_. None)\<rparr>"

definition Available :: "health_snapshot \<Rightarrow> string \<Rightarrow> bool" where
  "Available s p = (case hs_tripUntil s p of None \<Rightarrow> True | Some until \<Rightarrow> \<not> hs_at s < until)"

section \<open>The selector\<close>

record selection_error =
  se_Executor :: string
  se_Reason :: string
  se_Classification :: classification

definition SelectionError_Error :: "selection_error \<Rightarrow> string" where
  "SelectionError_Error e =
     (if se_Executor e = [] then ''executor selection failed: '' @ se_Reason e
      else ''executor selection failed for '' @ quote (se_Executor e) @ '': '' @ se_Reason e)"

abbreviation refused :: "string \<Rightarrow> string \<Rightarrow> selection_error" where
  "refused name reason \<equiv> \<lparr>se_Executor = name, se_Reason = reason, se_Classification = ClassificationPolicyViolation\<rparr>"

abbreviation ReasonNotInAllowlist :: string where "ReasonNotInAllowlist \<equiv> ''not-in-allowlist''"
abbreviation ReasonUnknownExecutor :: string where "ReasonUnknownExecutor \<equiv> ''unknown-executor''"
abbreviation ReasonUnsupportedExecutor :: string where "ReasonUnsupportedExecutor \<equiv> ''unsupported-executor''"
abbreviation ReasonNoExecutorConfigured :: string where "ReasonNoExecutorConfigured \<equiv> ''no-executor-configured''"
abbreviation ReasonUnroutedClass :: string where "ReasonUnroutedClass \<equiv> ''unrouted-class''"
abbreviation ReasonNoEligibleExecutor :: string where "ReasonNoEligibleExecutor \<equiv> ''no-eligible-executor''"

text \<open>The routing table is a Go map, an association list here.\<close>

type_synonym routing_table = "(string \<times> string list) list"

record executor_selector =
  es_Default :: string
  es_Routing :: routing_table
  es_Profile :: string

definition selector_validate :: "string \<Rightarrow> string list \<Rightarrow> capability_record list \<Rightarrow> selection_error + string" where
  "selector_validate name allow reg =
     (if name \<notin> set allow then Inl (refused name ReasonNotInAllowlist)
      else
        (case Registry_Lookup reg name of
           None \<Rightarrow> Inl (refused name ReasonUnknownExecutor)
         | Some rec \<Rightarrow>
             (if cp_Availability rec \<noteq> AvailabilitySupported then Inl (refused name ReasonUnsupportedExecutor) else Inr name)))"

definition routeClassed :: "executor_selector \<Rightarrow> string \<Rightarrow> string list \<Rightarrow> capability_record list \<Rightarrow> selection_error + string" where
  "routeClassed s cls allow reg =
     (case map_of (es_Routing s) cls of
        None \<Rightarrow> Inl (refused [] ReasonUnroutedClass)
      | Some prefs \<Rightarrow>
          (if prefs = [] then Inl (refused [] ReasonUnroutedClass)
           else
             (let eligible = Eligible reg (es_Profile s) [] in
              case find (\<lambda>name. name \<in> set allow \<and> list_ex (\<lambda>r. cp_Provider r = name) eligible) prefs of
                None \<Rightarrow> Inl (refused [] ReasonNoEligibleExecutor)
              | Some name \<Rightarrow> Inr name)))"

definition Selector_Select ::
  "executor_selector \<Rightarrow> string \<Rightarrow> string \<Rightarrow> string list \<Rightarrow> capability_record list \<Rightarrow> selection_error + string" where
  "Selector_Select s taskExecutor taskClass allow reg =
     (if taskExecutor \<noteq> [] then selector_validate taskExecutor allow reg
      else if es_Routing s \<noteq> [] \<and> taskClass \<noteq> [] then routeClassed s taskClass allow reg
      else if es_Default s = [] then Inl (refused [] ReasonNoExecutorConfigured)
      else selector_validate (es_Default s) allow reg)"

definition preferences :: "executor_selector \<Rightarrow> string \<Rightarrow> string \<Rightarrow> selection_error + string list" where
  "preferences s taskExecutor taskClass =
     (if taskExecutor \<noteq> [] then Inr [taskExecutor]
      else if es_Routing s \<noteq> [] \<and> taskClass \<noteq> [] then
        (case map_of (es_Routing s) taskClass of
           None \<Rightarrow> Inl (refused [] ReasonUnroutedClass)
         | Some routed \<Rightarrow> if routed = [] then Inl (refused [] ReasonUnroutedClass) else Inr routed)
      else if es_Default s \<noteq> [] then Inr [es_Default s]
      else Inl (refused [] ReasonNoExecutorConfigured))"

definition permitted :: "string list \<Rightarrow> capability_record list \<Rightarrow> string \<Rightarrow> bool" where
  "permitted allow reg name = (case selector_validate name allow reg of Inl _ \<Rightarrow> False | Inr _ \<Rightarrow> True)"

text \<open>The candidates, or an error, and the names skipped for their health.\<close>

definition SelectCandidates ::
  "executor_selector \<Rightarrow> string \<Rightarrow> string \<Rightarrow> string list \<Rightarrow> capability_record list \<Rightarrow> health_snapshot
     \<Rightarrow> (selection_error + string list) \<times> string list" where
  "SelectCandidates s taskExecutor taskClass allow reg health =
     (case preferences s taskExecutor taskClass of
        Inl e \<Rightarrow> (Inl e, [])
      | Inr prefs \<Rightarrow>
          (let fit = filter (permitted allow reg) prefs;
               candidates = filter (Available health) fit;
               skipped = filter (\<lambda>n. \<not> Available health n) fit in
           if candidates = [] then (Inl (refused [] ReasonNoEligibleExecutor), skipped) else (Inr candidates, skipped)))"

text \<open>
  The routing configuration: no file and an empty file give an empty table. \<open>decode\<close> is the
  strict YAML decoder, for the routes and the attempt budget.
\<close>

datatype routing_error = RoutingRead string | RoutingParse string | EmptyPreferences string | NegativeBudget

definition LoadRoutingTable ::
  "(string + string option) \<Rightarrow> (string \<Rightarrow> string + routing_table \<times> int) \<Rightarrow> routing_error + routing_table" where
  "LoadRoutingTable file decode =
     (case file of
        Inl e \<Rightarrow> Inl (RoutingRead e)
      | Inr None \<Rightarrow> Inr []
      | Inr (Some raw) \<Rightarrow>
          (if trim_space raw = [] then Inr []
           else
             (case decode raw of
                Inl e \<Rightarrow> Inl (RoutingParse e)
              | Inr (routes, _) \<Rightarrow>
                  (case find (\<lambda>(_, prefs). prefs = []) routes of
                     Some (cls, _) \<Rightarrow> Inl (EmptyPreferences cls)
                   | None \<Rightarrow> Inr routes))))"

definition LoadFallbackAttemptBudget ::
  "(string + string option) \<Rightarrow> (string \<Rightarrow> string + routing_table \<times> int) \<Rightarrow> routing_error + int" where
  "LoadFallbackAttemptBudget file decode =
     (case file of
        Inl e \<Rightarrow> Inl (RoutingRead e)
      | Inr None \<Rightarrow> Inr 0
      | Inr (Some raw) \<Rightarrow>
          (if trim_space raw = [] then Inr 0
           else
             (case decode raw of
                Inl e \<Rightarrow> Inl (RoutingParse e)
              | Inr (_, budget) \<Rightarrow> if budget < 0 then Inl NegativeBudget else Inr budget)))"

section \<open>The activity ExecuteTask\<close>

record usage =
  us_InputTokens :: int
  us_OutputTokens :: int
  us_CachedTokens :: int
  us_ProviderReportedUSD :: f64
  us_Model :: string
  us_Provider :: string

definition zero_usage :: usage where
  "zero_usage = \<lparr>us_InputTokens = 0, us_OutputTokens = 0, us_CachedTokens = 0, us_ProviderReportedUSD = Fin 0, us_Model = [], us_Provider = []\<rparr>"

record task_packet =
  tp_PlanID :: string
  tp_TaskID :: string
  tp_Goal :: string
  tp_Commands :: "string list"
  tp_ValidationCommands :: "string list"
  tp_TimeoutSec :: int
  tp_Class :: string
  tp_PhaseHint :: string

record execute_in =
  xi_WorkflowID :: string
  xi_TaskID :: string
  xi_Attempt :: int
  xi_ExecutorName :: string
  xi_ExplicitExecutor :: string
  xi_TaskClass :: string
  xi_ExecutorAllowlist :: "string list"
  xi_WorkspacePath :: string
  xi_RequireSandbox :: bool
  xi_EnvelopeDigest :: string
  xi_Packet :: task_packet

record execute_out =
  eo_Claimed :: string
  eo_ExitNotes :: string
  eo_Failed :: bool
  eo_ErrorMessage :: string
  eo_ArtifactPaths :: "string list"
  eo_ExecutorUsed :: string
  eo_Classification :: classification
  eo_Usage :: usage
  eo_SkippedExecutors :: "string list"

definition zero_out :: execute_out where
  "zero_out = \<lparr>eo_Claimed = [], eo_ExitNotes = [], eo_Failed = False, eo_ErrorMessage = [], eo_ArtifactPaths = [],
     eo_ExecutorUsed = [], eo_Classification = [], eo_Usage = zero_usage, eo_SkippedExecutors = []\<rparr>"

record summary =
  sm_Claimed :: string
  sm_ExitNotes :: string
  sm_Usage :: usage

datatype run_error = ErrProviderUnavailable string | ErrProviderRateLimited string | RunFailed string

definition IsProviderFault :: "run_error \<Rightarrow> bool" where
  "IsProviderFault e = (case e of RunFailed _ \<Rightarrow> False | _ \<Rightarrow> True)"

fun run_error_text :: "run_error \<Rightarrow> string" where
  "run_error_text (ErrProviderUnavailable m) = m"
| "run_error_text (ErrProviderRateLimited m) = m"
| "run_error_text (RunFailed m) = m"

text \<open>
  What one adapter answers when it is tried: whether it is registered, the error of
  \<open>Prepare\<close>, the outcome of \<open>Run\<close> and of \<open>Collect\<close>, and its sandbox specification, \<^const>\<open>None\<close> when it
  is no \<open>SandboxSpecProvider\<close>. The specification is passed on unread.
\<close>

record 'p adapter_answers =
  ad_Registered :: bool
  ad_Prepare :: "string option"
  ad_Run :: "summary \<times> run_error option"
  ad_Collect :: "string + string list"
  ad_Spec :: "(string + 'p) option"

record 'p sandbox_answers =
  sb_Preflight :: "string option"
  sb_RunSpec :: "string \<Rightarrow> 'p \<Rightarrow> string + command_result"

text \<open>The answers at each attempt of the fallback loop, the sandbox runner if one is wired, and the clock.\<close>

record 'p exec_env =
  xe_Adapter :: "nat \<Rightarrow> string \<Rightarrow> 'p adapter_answers"
  xe_Sandbox :: "nat \<Rightarrow> 'p sandbox_answers option"
  xe_Now :: "nat \<Rightarrow> int"

datatype 'p exec_event =
    XPrepare string task_packet
  | XRun string
  | XPreflight
  | XRunSpec string string 'p
  | XCollect string

text \<open>\<open>HostRun\<close> and \<open>Sandboxed\<close> are the decisions with an empty refusal.\<close>

datatype sandbox_decision = HostRun | Sandboxed | Refuse classification string

abbreviation ClassificationSandboxUnavailable :: classification where "ClassificationSandboxUnavailable \<equiv> ''sandbox-unavailable''"
abbreviation ClassificationSandboxIncompatible :: classification where "ClassificationSandboxIncompatible \<equiv> ''sandbox-incompatible''"
abbreviation ClassificationSandboxOptOutRefused :: classification where "ClassificationSandboxOptOutRefused \<equiv> ''sandbox-optout-refused''"

definition decideSandbox :: "capability_record list \<Rightarrow> string \<Rightarrow> bool \<Rightarrow> sandbox_decision" where
  "decideSandbox reg execName requireSandbox =
     (if \<not> requireSandbox then HostRun
      else
        (case Registry_Lookup reg execName of
           None \<Rightarrow> Sandboxed
         | Some rec \<Rightarrow>
             (if cp_SandboxEligibility rec = SandboxHostOnly \<or> cp_SandboxEligibility rec = SandboxUnsupported then
                Refuse ClassificationSandboxIncompatible
                  (''executor '' @ quote execName @ '' sandbox_eligibility='' @ quote (cp_SandboxEligibility rec) @ '' is not eligible for require_sandbox'')
              else if \<not> SandboxRequired rec then
                Refuse ClassificationSandboxOptOutRefused
                  (''executor '' @ quote execName @ '' opted out of the sandbox ('' @ cp_SandboxOptOutReason rec @ '') but this profile demands it'')
              else Sandboxed)))"

definition refuseSandbox :: "string \<Rightarrow> classification \<Rightarrow> string \<Rightarrow> execute_out" where
  "refuseSandbox execName cls reason =
     zero_out\<lparr>eo_Failed := True, eo_ExecutorUsed := execName, eo_Classification := cls, eo_ErrorMessage := reason\<rparr>"

definition show_bool :: "bool \<Rightarrow> string" where
  "show_bool b = (if b then ''true'' else ''false'')"

text \<open>The summary of a successful run, or the output to return; and the calls.\<close>

definition runSandboxed ::
  "'p sandbox_answers option \<Rightarrow> 'p adapter_answers \<Rightarrow> string \<Rightarrow> string \<Rightarrow> (execute_out + summary) \<times> 'p exec_event list" where
  "runSandboxed runner ad execName path =
     (case runner of
        None \<Rightarrow> (Inl (refuseSandbox execName ClassificationSandboxUnavailable
                   ''no sandbox runner wired: sandbox-required task refuses to run on the host''), [])
      | Some sb \<Rightarrow>
          (case sb_Preflight sb of
             Some e \<Rightarrow> (Inl (refuseSandbox execName ClassificationSandboxUnavailable (''sandbox unavailable: '' @ e)), [XPreflight])
           | None \<Rightarrow>
               (case ad_Spec ad of
                  None \<Rightarrow> (Inl (refuseSandbox execName ClassificationSandboxIncompatible
                            (''executor '' @ quote execName @ '' cannot be run inside the sandbox (no SandboxSpec)'')), [XPreflight])
                | Some (Inl e) \<Rightarrow> (Inl (refuseSandbox execName ClassificationSandboxIncompatible
                            (''executor '' @ quote execName @ '' sandbox spec: '' @ e)), [XPreflight])
                | Some (Inr spec) \<Rightarrow>
                    (let evs = [XPreflight, XRunSpec execName path spec] in
                     case sb_RunSpec sb path spec of
                       Inl e \<Rightarrow> (Inl (zero_out\<lparr>eo_Failed := True, eo_ExecutorUsed := execName,
                                    eo_ErrorMessage := ''sandbox run failed: '' @ e\<rparr>), evs)
                     | Inr res \<Rightarrow>
                         (let sm = \<lparr>sm_Claimed = ''sandboxed exit '' @ show_int (cr_ExitCode res), sm_ExitNotes = cr_Stdout res, sm_Usage = zero_usage\<rparr> in
                          if cr_ExitCode res \<noteq> 0 \<or> cr_TimedOut res then
                            (Inl (zero_out\<lparr>eo_Failed := True, eo_ExecutorUsed := execName,
                               eo_ErrorMessage := ''sandboxed command failed: exit '' @ show_int (cr_ExitCode res) @ '' (timed_out='' @
                                 show_bool (cr_TimedOut res) @ ''): '' @ cr_Stderr res,
                               eo_Claimed := sm_Claimed sm, eo_ExitNotes := sm_ExitNotes sm\<rparr>), evs)
                          else (Inr sm, evs))))))"

text \<open>The outcome of one candidate.\<close>

datatype attempt_outcome = Fatal string | ProviderFault | Done execute_out

definition record_fault :: "health_tracker option \<Rightarrow> string \<Rightarrow> run_error \<Rightarrow> int \<Rightarrow> health_tracker option" where
  "record_fault health execName e now =
     map_option (\<lambda>h. case e of ErrProviderRateLimited _ \<Rightarrow> RecordRateLimited h execName now | _ \<Rightarrow> RecordUnavailable h execName now) health"

definition runOnExecutor ::
  "capability_record list \<Rightarrow> 'p exec_env \<Rightarrow> nat \<Rightarrow> execute_in \<Rightarrow> string \<Rightarrow> health_tracker option
     \<Rightarrow> attempt_outcome \<times> health_tracker option \<times> 'p exec_event list" where
  "runOnExecutor reg env k i execName health =
     (let ad = xe_Adapter env k execName; task = xi_WorkflowID i @ ''/'' @ xi_TaskID i in
      if \<not> ad_Registered ad then
        (Fatal (''kernel: execute task '' @ task @ '': executor: no adapter registered for '' @ quote execName), health, [])
      else
        (let e1 = [XPrepare execName (xi_Packet i)] in
         case ad_Prepare ad of
           Some e \<Rightarrow> (Fatal (''kernel: prepare task '' @ task @ '': '' @ e), health, e1)
         | None \<Rightarrow>
             (let collect = (\<lambda>sm evs.
                  (case ad_Collect ad of
                     Inl e \<Rightarrow> (Fatal (''kernel: collect task '' @ task @ '': '' @ e), health, evs @ [XCollect execName])
                   | Inr paths \<Rightarrow>
                       (Done (zero_out\<lparr>eo_Claimed := sm_Claimed sm, eo_ExitNotes := sm_ExitNotes sm, eo_ExecutorUsed := execName,
                          eo_Usage := sm_Usage sm, eo_ArtifactPaths := paths\<rparr>), health, evs @ [XCollect execName]))) in
              case decideSandbox reg execName (xi_RequireSandbox i) of
                Refuse cls reason \<Rightarrow> (Done (refuseSandbox execName cls reason), health, e1)
              | Sandboxed \<Rightarrow>
                  (case runSandboxed (xe_Sandbox env k) ad execName (xi_WorkspacePath i) of
                     (Inl out, evs) \<Rightarrow> (Done out, health, e1 @ evs)
                   | (Inr sm, evs) \<Rightarrow> collect sm (e1 @ evs))
              | HostRun \<Rightarrow>
                  (let e2 = e1 @ [XRun execName] in
                   case ad_Run ad of
                     (sm, Some e) \<Rightarrow>
                       (if IsProviderFault e then (ProviderFault, record_fault health execName e (xe_Now env k), e2)
                        else
                          (Done (zero_out\<lparr>eo_Claimed := sm_Claimed sm, eo_ExitNotes := sm_ExitNotes sm, eo_ExecutorUsed := execName,
                             eo_Usage := sm_Usage sm, eo_Failed := True, eo_ErrorMessage := run_error_text e\<rparr>), health, e2))
                   | (sm, None) \<Rightarrow> collect sm e2))))"

definition defaultFallbackAttemptBudget :: int where
  "defaultFallbackAttemptBudget = 3"

definition fallbackAttemptBudget :: "int \<Rightarrow> int" where
  "fallbackAttemptBudget configured = (if 0 < configured then configured else defaultFallbackAttemptBudget)"

definition exhausted_out :: "execute_in \<Rightarrow> nat \<Rightarrow> string list \<Rightarrow> execute_out" where
  "exhausted_out i attempts skipped =
     zero_out\<lparr>eo_Failed := True, eo_Classification := ClassificationPolicyViolation, eo_SkippedExecutors := skipped,
       eo_ErrorMessage := ''kernel: no eligible executor for '' @ xi_WorkflowID i @ ''/'' @ xi_TaskID i @ '' after '' @ show_nat attempts
         @ '' attempt(s); skipped=['' @ join_with '' '' skipped @ '']''\<rparr>"

type_synonym 'p exec_world = "health_tracker option \<times> 'p exec_event list"

fun fallback_loop ::
  "capability_record list \<Rightarrow> 'p exec_env \<Rightarrow> execute_in \<Rightarrow> int \<Rightarrow> nat \<Rightarrow> string list \<Rightarrow> string list \<Rightarrow> 'p exec_world
     \<Rightarrow> (string + execute_out) \<times> 'p exec_world" where
  "fallback_loop reg env i budget attempts [] skipped (health, evs) = (Inr (exhausted_out i attempts skipped), health, evs)"
| "fallback_loop reg env i budget attempts (execName # candidates) skipped (health, evs) =
     (if budget \<le> int attempts then (Inr (exhausted_out i attempts skipped), health, evs)
      else
        (case runOnExecutor reg env attempts i execName health of
           (Fatal e, health', new) \<Rightarrow> (Inl e, health', evs @ new)
         | (Done out, health', new) \<Rightarrow>
             (Inr (out\<lparr>eo_SkippedExecutors := skipped\<rparr>), map_option (\<lambda>h. RecordSuccess h execName) health', evs @ new)
         | (ProviderFault, health', new) \<Rightarrow>
             fallback_loop reg env i budget (attempts + 1) candidates (skipped @ [execName]) (health', evs @ new)))"

text \<open>The body of the activity; \<open>now\<close> is the clock at the snapshot of the breaker.\<close>

definition execute_task_body ::
  "executor_selector \<Rightarrow> capability_record list \<Rightarrow> int \<Rightarrow> 'p exec_env \<Rightarrow> int \<Rightarrow> execute_in \<Rightarrow> 'p exec_world
     \<Rightarrow> (string + execute_out) \<times> 'p exec_world" where
  "execute_task_body sel reg configured env now i w =
     (if xi_ExecutorAllowlist i = [] then
        (Inr (zero_out\<lparr>eo_Failed := True, eo_Classification := ClassificationPolicyViolation,
           eo_ErrorMessage := ''kernel: no executor allowlist for '' @ xi_WorkflowID i @ ''/'' @ xi_TaskID i
             @ '' '' @ em_dash @ '' refusing (deny-when-absent, Task 116/C4/C24)''\<rparr>), w)
      else
        (let snapshot = (case fst w of None \<Rightarrow> zero_snapshot | Some h \<Rightarrow> Snapshot h now) in
         case SelectCandidates sel (xi_ExplicitExecutor i) (xi_TaskClass i) (xi_ExecutorAllowlist i) reg snapshot of
           (Inl se, preSkipped) \<Rightarrow>
             (Inr (zero_out\<lparr>eo_Failed := True, eo_ErrorMessage := SelectionError_Error se, eo_ExecutorUsed := se_Executor se,
                eo_Classification := se_Classification se, eo_SkippedExecutors := preSkipped\<rparr>), w)
         | (Inr candidates, preSkipped) \<Rightarrow>
             fallback_loop reg env i (fallbackAttemptBudget configured) 0 candidates preSkipped w))"

definition ExecuteTask ::
  "(receipt_env \<Rightarrow> 'r \<Rightarrow> string \<Rightarrow> store_error + string option)
     \<Rightarrow> (receipt_env \<Rightarrow> 'r \<Rightarrow> string \<Rightarrow> string \<Rightarrow> store_error option \<times> 'r)
     \<Rightarrow> (execute_out \<Rightarrow> string option) \<Rightarrow> (string \<Rightarrow> execute_out option) \<Rightarrow> receipt_env
     \<Rightarrow> executor_selector \<Rightarrow> capability_record list \<Rightarrow> int \<Rightarrow> 'p exec_env \<Rightarrow> int \<Rightarrow> execute_in \<Rightarrow> 'r \<times> 'p exec_world
     \<Rightarrow> (string receipt_error + execute_out) \<times> 'r \<times> 'p exec_world" where
  "ExecuteTask get put marshal unmarshal re sel reg configured env now i =
     withReceipt get put marshal unmarshal re
       (IdempotencyKey_String \<lparr>ik_WorkflowID = xi_WorkflowID i, ik_TaskID = xi_TaskID i,
          ik_Activity = ''ExecuteTask'', ik_Attempt = xi_Attempt i\<rparr>)
       (execute_task_body sel reg configured env now i)"

section \<open>Nothing runs outside the policy\<close>

lemma permitted_iff:
  "permitted allow reg n \<longleftrightarrow> n \<in> set allow \<and> (\<exists>r. Registry_Lookup reg n = Some r \<and> cp_Availability r = AvailabilitySupported)"
  by (auto simp: permitted_def selector_validate_def split: option.splits)

lemma selector_validate_Inr: "selector_validate n allow reg = Inr m \<longleftrightarrow> m = n \<and> permitted allow reg n"
  by (auto simp: permitted_def selector_validate_def split: option.splits)

lemma SelectCandidates_permitted:
  assumes "SelectCandidates s ex cls allow reg health = (Inr cs, skipped)" and "n \<in> set cs"
  shows "permitted allow reg n \<and> Available health n \<and> (ex \<noteq> [] \<longrightarrow> n = ex)"
  using assms by (auto simp: SelectCandidates_def preferences_def Let_def split: sum.splits if_splits option.splits)

fun event_executor :: "'p exec_event \<Rightarrow> string option" where
  "event_executor (XPrepare n _) = Some n"
| "event_executor (XRun n) = Some n"
| "event_executor XPreflight = None"
| "event_executor (XRunSpec n _ _) = Some n"
| "event_executor (XCollect n) = Some n"

fun is_prepare :: "'p exec_event \<Rightarrow> bool" where
  "is_prepare (XPrepare _ _) = True"
| "is_prepare _ = False"

text \<open>The calls of an attempt: only its own executor, at most once, and on the host only if that is allowed.\<close>

definition confined :: "execute_in \<Rightarrow> string set \<Rightarrow> nat \<Rightarrow> 'p exec_event list \<Rightarrow> bool" where
  "confined i names n new \<longleftrightarrow>
     (\<forall>ev \<in> set new. \<forall>m. event_executor ev = Some m \<longrightarrow> m \<in> names) \<and> length (filter is_prepare new) \<le> n
     \<and> (xi_RequireSandbox i \<longrightarrow> (\<forall>m. XRun m \<notin> set new))"

lemma confined_append: "confined i A n new \<Longrightarrow> confined i B m new' \<Longrightarrow> confined i (A \<union> B) (n + m) (new @ new')"
  unfolding confined_def by fastforce

lemma confined_Nil [simp]: "confined i A n []"
  by (simp add: confined_def)

lemma confined_mono: "confined i A n new \<Longrightarrow> A \<subseteq> B \<Longrightarrow> n \<le> m \<Longrightarrow> confined i B m new"
  unfolding confined_def by (meson le_trans subsetD)

lemma runSandboxed_confined: "runSandboxed sb ad n path = (r, evs) \<Longrightarrow> confined i {n} 0 evs"
  by (auto simp: runSandboxed_def Let_def confined_def split: option.splits sum.splits if_splits)

lemma decideSandbox_host: "decideSandbox reg n req = HostRun \<longleftrightarrow> \<not> req"
  by (auto simp: decideSandbox_def split: option.splits)

lemma runOnExecutor_confined:
  assumes "runOnExecutor reg env k i n health = (oc, health', new)"
  shows "confined i {n} 1 new"
proof -
  have one: "confined i {n} 1 (XPrepare n p # evs)" if "confined i {n} 0 evs" for p evs
    using that by (auto simp: confined_def)
  have col: "confined i {n} 1 (XPrepare n p # evs @ [XCollect n])" if "confined i {n} 0 evs" for p evs
    using that by (auto simp: confined_def)
  obtain r evs where sb: "runSandboxed (xe_Sandbox env k) (xe_Adapter env k n) n (xi_WorkspacePath i) = (r, evs)" by fastforce
  have sbc: "confined i {n} 0 evs" by (rule runSandboxed_confined [OF sb])
  have host: "confined i {n} 0 [XRun n]" if "decideSandbox reg n (xi_RequireSandbox i) = HostRun"
    using that by (simp add: decideSandbox_host confined_def)
  have "new = [] \<or> (\<exists>p. new = [XPrepare n p]) \<or> (\<exists>p. new = XPrepare n p # evs \<or> new = XPrepare n p # evs @ [XCollect n])
      \<or> (decideSandbox reg n (xi_RequireSandbox i) = HostRun \<and> (\<exists>p. new = XPrepare n p # [XRun n] \<or> new = XPrepare n p # [XRun n] @ [XCollect n]))"
    using assms sb by (auto simp: runOnExecutor_def Let_def split: if_splits option.splits sandbox_decision.splits sum.splits prod.splits)
  then show ?thesis using one [OF sbc] col [OF sbc] one [OF host] col [OF host] one [OF confined_Nil] confined_Nil by auto
qed

lemma fallback_loop_confined:
  "fallback_loop reg env i budget attempts cs skipped (health, evs) = (r, health', evs') \<Longrightarrow>
     \<exists>new. evs' = evs @ new \<and> confined i (set cs) (nat (budget - int attempts)) new"
proof (induction cs arbitrary: attempts skipped health evs)
  case Nil
  then show ?case by (auto intro: exI [of _ "[]"])
next
  case (Cons c cs)
  show ?case
  proof (cases "budget \<le> int attempts")
    case True
    then show ?thesis using Cons.prems by (auto intro: exI [of _ "[]"])
  next
    case False
    obtain oc h1 new1 where run: "runOnExecutor reg env attempts i c health = (oc, h1, new1)" by (metis prod_cases3)
    have c1: "confined i {c} 1 new1" by (rule runOnExecutor_confined [OF run])
    have split: "nat (budget - int attempts) = 1 + nat (budget - int (attempts + 1))" using False by simp
    show ?thesis
    proof (cases oc)
      case ProviderFault
      then have "fallback_loop reg env i budget (attempts + 1) cs (skipped @ [c]) (h1, evs @ new1) = (r, health', evs')"
        using Cons.prems False run by simp
      from Cons.IH [OF this] obtain new2 where n2: "evs' = (evs @ new1) @ new2" "confined i (set cs) (nat (budget - int (attempts + 1))) new2" by blast
      have "confined i (set (c # cs)) (nat (budget - int attempts)) (new1 @ new2)"
        unfolding split using confined_append [OF c1 n2(2)] by simp
      then show ?thesis using n2(1) by auto
    next
      case (Fatal e)
      then show ?thesis using Cons.prems False run confined_mono [OF c1, of "set (c # cs)"] split by auto
    next
      case (Done out)
      then show ?thesis using Cons.prems False run confined_mono [OF c1, of "set (c # cs)"] split by auto
    qed
  qed
qed

lemma execute_task_body_confined:
  assumes "execute_task_body sel reg configured env now i (health, evs) = (r, health', evs')"
  shows "\<exists>new. evs' = evs @ new \<and> confined i
    {n. permitted (xi_ExecutorAllowlist i) reg n \<and> Available (case health of None \<Rightarrow> zero_snapshot | Some h \<Rightarrow> Snapshot h now) n
        \<and> (xi_ExplicitExecutor i \<noteq> [] \<longrightarrow> n = xi_ExplicitExecutor i)} (nat (fallbackAttemptBudget configured)) new"
proof -
  let ?snap = "case health of None \<Rightarrow> zero_snapshot | Some h \<Rightarrow> Snapshot h now"
  obtain sc skipped where sc: "SelectCandidates sel (xi_ExplicitExecutor i) (xi_TaskClass i) (xi_ExecutorAllowlist i) reg ?snap = (sc, skipped)" by fastforce
  show ?thesis
  proof (cases "xi_ExecutorAllowlist i = [] \<or> (\<exists>e. sc = Inl e)")
    case True
    then have "evs' = evs"
      using assms sc by (cases "xi_ExecutorAllowlist i = []") (auto simp: execute_task_body_def Let_def)
    then show ?thesis by simp
  next
    case False
    then obtain cs where cs: "sc = Inr cs" by (cases sc) auto
    then have "fallback_loop reg env i (fallbackAttemptBudget configured) 0 cs skipped (health, evs) = (r, health', evs')"
      using assms False sc by (simp add: execute_task_body_def)
    from fallback_loop_confined [OF this] obtain new where new: "evs' = evs @ new" "confined i (set cs) (nat (fallbackAttemptBudget configured)) new"
      by auto
    have "set cs \<subseteq> {n. permitted (xi_ExecutorAllowlist i) reg n \<and> Available ?snap n \<and> (xi_ExplicitExecutor i \<noteq> [] \<longrightarrow> n = xi_ExplicitExecutor i)}"
      using SelectCandidates_permitted [OF sc [unfolded cs]] by blast
    then show ?thesis using new confined_mono by blast
  qed
qed

lemma withReceipt_world:
  "withReceipt get put marshal unmarshal e key fn (s, w) = (res, s', w') \<Longrightarrow> w' = w \<or> (\<exists>r. fn w = (r, w'))"
  by (auto simp: withReceipt_def split: sum.splits option.splits prod.splits)

text \<open>
  C14: An executor is called only inside the policy. Every call that the activity makes is to an
  executor of the task's allowlist with a supported registry record, whose breaker is not
  tripped and which is the named one if the task names one; a task that must be sandboxed
  never runs on the host; and at most the configured number of executors is tried.
\<close>

theorem ExecuteTask_confined:
  assumes "ExecuteTask get put marshal unmarshal re sel reg configured env now i (s, health, evs) = (res, s', health', evs')"
  shows "\<exists>new. evs' = evs @ new \<and>
    (\<forall>ev n. ev \<in> set new \<and> event_executor ev = Some n \<longrightarrow>
        n \<in> set (xi_ExecutorAllowlist i) \<and> (\<exists>r. Registry_Lookup reg n = Some r \<and> cp_Availability r = AvailabilitySupported)
        \<and> (case health of None \<Rightarrow> True | Some h \<Rightarrow> Available (Snapshot h now) n)
        \<and> (xi_ExplicitExecutor i \<noteq> [] \<longrightarrow> n = xi_ExplicitExecutor i))
    \<and> (xi_RequireSandbox i \<longrightarrow> (\<forall>n. XRun n \<notin> set new))
    \<and> int (length (filter is_prepare new)) \<le> fallbackAttemptBudget configured"
proof -
  have pos: "0 \<le> fallbackAttemptBudget configured" by (simp add: fallbackAttemptBudget_def defaultFallbackAttemptBudget_def)
  consider "(health', evs') = (health, evs)" | r where "execute_task_body sel reg configured env now i (health, evs) = (r, health', evs')"
    using withReceipt_world [OF assms [unfolded ExecuteTask_def]] by blast
  then show ?thesis
  proof cases
    case 1
    then show ?thesis using pos by (auto intro: exI [of _ "[]"])
  next
    case 2
    from execute_task_body_confined [OF this] show ?thesis
      unfolding confined_def permitted_iff using pos by (fastforce split: option.splits)
  qed
qed

definition sample_record :: "string \<Rightarrow> capability_record" where
  "sample_record p = \<lparr>cp_Provider = p, cp_ExecutionClass = ''cli'', cp_Features = [], cp_Availability = AvailabilitySupported,
     cp_ProfileAllow = [], cp_ProfileDeny = [], cp_LastVerifiedAt = Some 1, cp_RequiresSandbox = None, cp_SandboxOptOutReason = [],
     cp_SandboxEligibility = SandboxSupported\<rparr>"

definition sample_execute_in :: execute_in where
  "sample_execute_in = \<lparr>xi_WorkflowID = ''w'', xi_TaskID = ''t'', xi_Attempt = 1, xi_ExecutorName = ''a'', xi_ExplicitExecutor = [],
     xi_TaskClass = ''web'', xi_ExecutorAllowlist = [''a'', ''b''], xi_WorkspacePath = ''/ws'', xi_RequireSandbox = False, xi_EnvelopeDigest = [],
     xi_Packet = \<lparr>tp_PlanID = ''p'', tp_TaskID = ''t'', tp_Goal = [], tp_Commands = [], tp_ValidationCommands = [], tp_TimeoutSec = 600,
       tp_Class = ''web'', tp_PhaseHint = ''I''\<rparr>\<rparr>"

text \<open>The first provider of the route is rate-limited, the second one runs.\<close>

definition sample_env :: "unit exec_env" where
  "sample_env = \<lparr>xe_Adapter = (\<lambda>k n. \<lparr>ad_Registered = True, ad_Prepare = None,
       ad_Run = (\<lparr>sm_Claimed = ''ok'', sm_ExitNotes = [], sm_Usage = zero_usage\<rparr>, if n = ''a'' then Some (ErrProviderRateLimited ''429'') else None),
       ad_Collect = Inr [''out''], ad_Spec = None\<rparr>), xe_Sandbox = (\<lambda>_. None), xe_Now = (\<lambda>_. 5)\<rparr>"

definition sample_selector :: executor_selector where
  "sample_selector = \<lparr>es_Default = [], es_Routing = [(''web'', [''a'', ''c'', ''b''])], es_Profile = ''p1''\<rparr>"

abbreviation sample_run :: "(string receipt_error + execute_out) \<times> receipt_rows \<times> unit exec_world" where
  "sample_run \<equiv> ExecuteTask PGReceiptStore_Get (PGReceiptStore_Put Some) (\<lambda>_. Some ''{}'') (\<lambda>_. None) no_fault sample_selector
     [sample_record ''a'', sample_record ''b''] 0 sample_env 3 sample_execute_in (Map.empty, Some NewHealthTracker, [])"

lemmas sample_execute_defs = ExecuteTask_def withReceipt_def execute_task_body_def SelectCandidates_def preferences_def permitted_def
  selector_validate_def Registry_Lookup_def sample_record_def sample_execute_in_def sample_env_def sample_selector_def Snapshot_def Available_def
  NewHealthTracker_def runOnExecutor_def decideSandbox_def IsProviderFault_def fallbackAttemptBudget_def defaultFallbackAttemptBudget_def
  PGReceiptStore_Get_def PGReceiptStore_Put_def no_fault_def

theorem ExecuteTask_confined_witness:
  "map event_executor (snd (snd (snd sample_run))) = [Some ''a'', Some ''a'', Some ''b'', Some ''b'', Some ''b'']
     \<and> length (filter is_prepare (snd (snd (snd sample_run)))) \<le> 3"
proof -
  obtain res s' health' evs' where run: "sample_run = (res, s', health', evs')" by (metis prod_cases4)
  have m: "map event_executor (snd (snd (snd sample_run))) = [Some ''a'', Some ''a'', Some ''b'', Some ''b'', Some ''b'']"
    by (simp add: sample_execute_defs Let_def)
  have "int (length (filter is_prepare evs')) \<le> fallbackAttemptBudget 0" using ExecuteTask_confined [OF run] by auto
  then show ?thesis using m run by (simp add: fallbackAttemptBudget_def defaultFallbackAttemptBudget_def)
qed

section \<open>The fallback is the first executor that answers\<close>

definition outcome_at :: "capability_record list \<Rightarrow> 'p exec_env \<Rightarrow> execute_in \<Rightarrow> nat \<Rightarrow> string \<Rightarrow> attempt_outcome" where
  "outcome_at reg env i k n = fst (runOnExecutor reg env k i n None)"

lemma runOnExecutor_outcome: "fst (runOnExecutor reg env k i n health) = outcome_at reg env i k n"
  unfolding outcome_at_def runOnExecutor_def Let_def
  by (auto split: option.splits sandbox_decision.splits sum.splits prod.splits)

text \<open>The reference: of the candidates that the budget covers, the first one that is no provider fault.\<close>

definition fallback_result ::
  "capability_record list \<Rightarrow> 'p exec_env \<Rightarrow> execute_in \<Rightarrow> int \<Rightarrow> nat \<Rightarrow> string list \<Rightarrow> string list \<Rightarrow> string + execute_out" where
  "fallback_result reg env i budget start cs skipped =
     (let tries = take (nat (budget - int start)) cs;
          n = length (takeWhile (\<lambda>(k, c). outcome_at reg env i k c = ProviderFault) (enumerate start tries)) in
      if n < length tries then
        (case outcome_at reg env i (start + n) (tries ! n) of
           Fatal e \<Rightarrow> Inl e
         | Done out \<Rightarrow> Inr (out\<lparr>eo_SkippedExecutors := skipped @ take n tries\<rparr>)
         | ProviderFault \<Rightarrow> Inl [])
      else Inr (exhausted_out i (start + length tries) (skipped @ tries)))"

lemma fallback_result_step:
  assumes "\<not> budget \<le> int start" and "outcome_at reg env i start c = ProviderFault"
  shows "fallback_result reg env i budget start (c # cs) skipped = fallback_result reg env i budget (Suc start) cs (skipped @ [c])"
proof -
  define N where "N = nat (budget - int (Suc start))"
  have N: "nat (budget - int start) = Suc N" using assms(1) by (simp add: N_def)
  show ?thesis using assms(2) unfolding fallback_result_def N N_def [symmetric] by (simp add: Let_def split: attempt_outcome.split)
qed

lemma fallback_result_stop:
  assumes "\<not> budget \<le> int start" and "outcome_at reg env i start c \<noteq> ProviderFault"
  shows "fallback_result reg env i budget start (c # cs) skipped =
    (case outcome_at reg env i start c of Fatal e \<Rightarrow> Inl e | Done out \<Rightarrow> Inr (out\<lparr>eo_SkippedExecutors := skipped\<rparr>) | ProviderFault \<Rightarrow> Inl [])"
proof -
  define N where "N = nat (budget - int (Suc start))"
  have N: "nat (budget - int start) = Suc N" using assms(1) by (simp add: N_def)
  show ?thesis using assms(2) unfolding fallback_result_def N N_def [symmetric] by (simp add: Let_def split: attempt_outcome.split)
qed

text \<open>
  The fallback loop computes the reference: it tries the candidates in their order, at most as
  many as the budget allows, returns the outcome of the first one that is not an unavailable
  or rate-limited provider, with the ones passed over listed after those skipped before, and
  when all of them fault it refuses with the whole list.
\<close>

theorem fallback_loop_reference:
  "fst (fallback_loop reg env i budget start cs skipped w) = fallback_result reg env i budget start cs skipped"
proof (induction cs arbitrary: start skipped w)
  case Nil
  then show ?case by (cases w) (simp add: fallback_result_def)
next
  case (Cons c cs)
  obtain health evs where w: "w = (health, evs)" by fastforce
  obtain oc h' new where run: "runOnExecutor reg env start i c health = (oc, h', new)" by (metis prod_cases3)
  then have oc: "outcome_at reg env i start c = oc" using runOnExecutor_outcome by (metis fst_conv)
  show ?case
  proof (cases "budget \<le> int start")
    case True
    then show ?thesis by (simp add: w fallback_result_def)
  next
    case False
    then show ?thesis
      using run oc fallback_result_step [OF False, of reg env i c cs skipped] fallback_result_stop [OF False, of reg env i c cs skipped]
      by (cases oc) (simp_all add: w Cons.IH)
  qed
qed

section \<open>The breaker remembers the last trip\<close>

datatype health_event = HSuccess string | HFailure string int | HFault string int

definition health_step :: "health_event \<Rightarrow> health_tracker \<Rightarrow> health_tracker" where
  "health_step ev h = (case ev of HSuccess p \<Rightarrow> RecordSuccess h p | HFailure p t \<Rightarrow> RecordFailure h p t | HFault p t \<Rightarrow> RecordUnavailable h p t)"

text \<open>Read off a history, newest event first: the failures since the last success, and the last trip since then.\<close>

fun failures_since :: "string \<Rightarrow> health_event list \<Rightarrow> int" where
  "failures_since p [] = 0"
| "failures_since p (HSuccess q # es) = (if q = p then 0 else failures_since p es)"
| "failures_since p (HFailure q _ # es) = failures_since p es + (if q = p then 1 else 0)"
| "failures_since p (HFault _ _ # es) = failures_since p es"

fun last_trip :: "int \<Rightarrow> string \<Rightarrow> health_event list \<Rightarrow> int option" where
  "last_trip threshold p [] = None"
| "last_trip threshold p (HSuccess q # es) = (if q = p then None else last_trip threshold p es)"
| "last_trip threshold p (HFailure q t # es) =
     (if q = p \<and> threshold \<le> failures_since p es + 1 then Some t else last_trip threshold p es)"
| "last_trip threshold p (HFault q t # es) = (if q = p then Some t else last_trip threshold p es)"

definition tracks :: "int \<Rightarrow> int \<Rightarrow> health_event list \<Rightarrow> health_tracker \<Rightarrow> bool" where
  "tracks m c es h \<longleftrightarrow> ht_FailureThreshold h = m \<and> ht_Cooldown h = c \<and> (\<forall>p. ht_consecutiveFailures h p = failures_since p es)
    \<and> (\<forall>p. ht_tripUntil h p = map_option (\<lambda>t. t + (if 0 < c then c else 60 * 1000000000)) (last_trip (if 0 < m then m else 3) p es))"

lemma tracks_step: "tracks m c es h \<Longrightarrow> tracks m c (e # es) (health_step e h)"
  unfolding tracks_def
  by (cases e) (auto simp: health_step_def RecordSuccess_def RecordFailure_def RecordUnavailable_def tripLocked_def Let_def
      failureThreshold_def cooldown_def)

lemma health_tracks: "tracks m c es (foldr health_step es (NewHealthTracker\<lparr>ht_FailureThreshold := m, ht_Cooldown := c\<rparr>))"
  by (induction es) (simp_all add: tracks_step, simp add: tracks_def NewHealthTracker_def)

text \<open>
  The breaker refines its history: after any sequence of reported successes, failures and
  provider faults, a provider is passed over exactly during the cooldown after the last of its
  trips since its last success, where a trip is a provider fault or a failure that is at
  least the threshold-th since that success.
\<close>

theorem HealthTracker_refines_history:
  "Available (Snapshot (foldr health_step es (NewHealthTracker\<lparr>ht_FailureThreshold := m, ht_Cooldown := c\<rparr>)) now) p \<longleftrightarrow>
     (case last_trip (if 0 < m then m else 3) p es of None \<Rightarrow> True | Some t \<Rightarrow> t + (if 0 < c then c else 60 * 1000000000) \<le> now)"
  using health_tracks [of m c es] unfolding tracks_def
  by (simp add: Available_def Snapshot_def not_less split: option.splits)

section \<open>Selection and candidates\<close>

lemma Registry_validate_distinct:
  "Registry_validate_from k seen reg = None \<Longrightarrow> distinct (map cp_Provider reg) \<and> cp_Provider ` set reg \<inter> set seen = {}"
proof (induction reg arbitrary: k seen)
  case (Cons r rs)
  have r: "Registry_validate_from (k + 1) (cp_Provider r # seen) rs = None" "cp_Provider r \<notin> set seen"
    using Cons.prems by (simp_all add: Let_def split: if_splits)
  then show ?case using Cons.IH [OF r(1)] by auto
qed simp

lemma Registry_Lookup_distinct:
  "distinct (map cp_Provider reg) \<Longrightarrow> r \<in> set reg \<Longrightarrow> Registry_Lookup reg (cp_Provider r) = Some r"
  unfolding Registry_Lookup_def by (induction reg) auto

text \<open>
  What \<open>Select\<close> would return is among the candidates, as long as its breaker is not tripped. This
  needs the registry to be loaded: with two records of one provider the two disagree.
\<close>

lemma Select_among_candidates:
  assumes "Registry_validate reg = None" and "Selector_Select s ex cls allow reg = Inr n" and "Available health n"
  shows "\<exists>cs skipped. SelectCandidates s ex cls allow reg health = (Inr cs, skipped) \<and> n \<in> set cs"
proof -
  have d: "distinct (map cp_Provider reg)" using Registry_validate_distinct assms(1) by (auto simp: Registry_validate_def)
  have "\<exists>prefs. preferences s ex cls = Inr prefs \<and> n \<in> set prefs \<and> permitted allow reg n"
  proof (cases "ex = [] \<and> es_Routing s \<noteq> [] \<and> cls \<noteq> []")
    case True
    then have "routeClassed s cls allow reg = Inr n" using assms(2) by (simp add: Selector_Select_def)
    then obtain prefs where prefs: "map_of (es_Routing s) cls = Some prefs" "prefs \<noteq> []"
        "find (\<lambda>name. name \<in> set allow \<and> list_ex (\<lambda>r. cp_Provider r = name) (Eligible reg (es_Profile s) [])) prefs = Some n"
      by (auto simp: routeClassed_def Let_def split: option.splits if_splits)
    then have n: "n \<in> set prefs" "n \<in> set allow" "list_ex (\<lambda>r. cp_Provider r = n) (Eligible reg (es_Profile s) [])"
      by (auto simp: find_Some_iff)
    then obtain r where "r \<in> set reg" "cp_Provider r = n" "cp_Availability r = AvailabilitySupported"
      by (auto simp: Eligible_def list_ex_iff)
    then have "permitted allow reg n" using n(2) Registry_Lookup_distinct [OF d] by (auto simp: permitted_iff)
    then show ?thesis using True prefs n(1) by (simp add: preferences_def)
  next
    case False
    then show ?thesis
      using assms(2) by (auto simp: Selector_Select_def preferences_def selector_validate_Inr split: if_splits)
  qed
  then show ?thesis using assms(3) by (auto simp: SelectCandidates_def Let_def filter_empty_conv)
qed

text \<open>
  The converse fails: the profile rules of the registry bind \<open>Select\<close> but not \<open>SelectCandidates\<close>,
  which the activity uses. An executor that is denied to a profile is offered to it.
\<close>

theorem SelectCandidates_ignores_profile:
  "\<exists>s reg n. Registry_validate reg = None \<and> Registry_Lookup reg n \<noteq> None \<and> (\<forall>r \<in> set reg. es_Profile s \<in> set (cp_ProfileDeny r))
     \<and> Selector_Select s [] ''web'' [n] reg = Inl (refused [] ReasonNoEligibleExecutor)
     \<and> SelectCandidates s [] ''web'' [n] reg zero_snapshot = (Inr [n], [])"
  by (rule exI [of _ sample_selector], rule exI [of _ "[(sample_record ''a'')\<lparr>cp_ProfileDeny := [''p1'']\<rparr>]"], rule exI [of _ "''a''"])
    (simp add: sample_selector_def sample_record_def Registry_validate_def Registry_Lookup_def Selector_Select_def routeClassed_def Eligible_def
      SelectCandidates_def preferences_def permitted_def selector_validate_def zero_snapshot_def Available_def Let_def)

end
