(* ===== verification/Provenance.thy ===== *)
theory Provenance
  imports Admission Receipts
begin

text \<open>
  Signed approvals (\<open>internal/provenance\<close>): the permission allowlist, the approved plan with its
  signature, both raw stores over migration \<open>00001\<close>, the verifying store with revocation and
  additional approvers, the check of a plan file, the validation of organization plans, and the
  activities \<open>LoadApprovedPlan\<close> and \<open>RecheckApproval\<close> (\<open>internal/kernel/activities.go\<close>) that rest
  on them. Ed25519, JSON, the YAML decoder and the hash are parameters. The raw store is a
  locale that both stores interpret; in it it is shown that a revocation is permanent.
\<close>

section \<open>Artifacts\<close>

record scope_decl =
  sc_Repositories :: "string list"
  sc_Paths :: "string list"
  sc_Branches :: "string list"

record budget_envelope =
  be_MonthlyUSD :: f64
  be_WorkflowUSD :: f64

record approver =
  av_Principal :: string
  av_Method :: string
  av_At :: int
  av_AssertionHash :: string

text \<open>Slices are lists, whether nil or empty; the zero time of the expiry is \<^const>\<open>None\<close>.\<close>

record approved_plan =
  ap_planID :: string
  ap_planDigest :: string
  ap_creatorPrincipal :: string
  ap_submittingPrincipal :: string
  ap_classifierVersion :: string
  ap_declared :: "effect list"
  ap_requested :: "permission list"
  ap_granted :: "permission list"
  ap_scope :: scope_decl
  ap_riskTier :: string
  ap_profileKind :: string
  ap_budgetEnvelope :: budget_envelope
  ap_dataClass :: string
  ap_approvers :: "approver list"
  ap_authMethod :: string
  ap_approvedAt :: int
  ap_expiresAt :: "int option"
  ap_revoked :: bool
  ap_revokedBy :: string
  ap_revocationReason :: string
  ap_signature :: string

record approved_plan_input =
  an_PlanID :: string
  an_PlanDigest :: string
  an_CreatorPrincipal :: string
  an_SubmittingPrincipal :: string
  an_ClassifierVersion :: string
  an_Declared :: "effect list"
  an_Requested :: "permission list"
  an_Scope :: scope_decl
  an_RiskTier :: tier
  an_ProfileKind :: string
  an_BudgetEnvelope :: budget_envelope
  an_DataClass :: string
  an_Approvers :: "approver list"
  an_ApprovedAt :: int
  an_ExpiresAt :: "int option"

abbreviation AuthMethodEd25519Local :: string where "AuthMethodEd25519Local \<equiv> ''ed25519-local''"

definition allows :: "permission list \<Rightarrow> permission \<Rightarrow> bool" where
  "allows entries p = list_ex (\<lambda>e. pm_Kind e = pm_Kind p \<and> (pm_Target e = ''*'' \<or> pm_Target e = pm_Target p)) entries"

definition Intersect :: "permission list \<Rightarrow> permission list \<Rightarrow> permission list" where
  "Intersect entries requested = filter (allows entries) requested"

datatype provenance_error =
    MissingPlanID | MissingPlanDigest
  | InvalidKeySize | NoSignature string | SignatureMismatch string | MarshalPayload
  | EmptyReason | EmptyRevokedBy | EmptyPrincipal | EmptyMethod
  | ErrNotFound | AlreadyExists string | RawDB string | RawDecode string
  | UnverifiedInsert provenance_error | Tampered string provenance_error
  | ErrPlanRevoked string | ErrPlanExpired string
  | ReadPlanFile string | ParsePlanFile plan_error | LoadApproval provenance_error
  | DigestChanged string | GrantOutsideScope string

definition NewApprovedPlan :: "approved_plan_input \<Rightarrow> permission list \<Rightarrow> provenance_error + approved_plan" where
  "NewApprovedPlan i allow =
     (if an_PlanID i = [] then Inl MissingPlanID
      else if an_PlanDigest i = [] then Inl MissingPlanDigest
      else Inr \<lparr>ap_planID = an_PlanID i, ap_planDigest = an_PlanDigest i, ap_creatorPrincipal = an_CreatorPrincipal i,
             ap_submittingPrincipal = an_SubmittingPrincipal i, ap_classifierVersion = an_ClassifierVersion i,
             ap_declared = an_Declared i, ap_requested = an_Requested i, ap_granted = Intersect allow (an_Requested i),
             ap_scope = an_Scope i, ap_riskTier = Tier_String (an_RiskTier i), ap_profileKind = an_ProfileKind i,
             ap_budgetEnvelope = an_BudgetEnvelope i, ap_dataClass = an_DataClass i, ap_approvers = an_Approvers i,
             ap_authMethod = AuthMethodEd25519Local, ap_approvedAt = an_ApprovedAt i, ap_expiresAt = an_ExpiresAt i,
             ap_revoked = False, ap_revokedBy = [], ap_revocationReason = [], ap_signature = []\<rparr>)"

definition ProfileKind :: "approved_plan \<Rightarrow> string" where
  "ProfileKind a = (if ap_profileKind a = [] then ''personal'' else ap_profileKind a)"

section \<open>Signatures\<close>

text \<open>
  \<open>cy_marshal\<close> is \<open>json.Marshal\<close> of the wire form, which leaves out an empty signature: the signing
  payload is the encoding of the plan without its signature.
\<close>

record crypto =
  cy_sign :: "string \<Rightarrow> string \<Rightarrow> string"
  cy_verify :: "string \<Rightarrow> string \<Rightarrow> string \<Rightarrow> bool"
  cy_marshal :: "approved_plan \<Rightarrow> string option"
  cy_unmarshal :: "string \<Rightarrow> approved_plan option"

abbreviation PrivateKeySize :: nat where "PrivateKeySize \<equiv> 64"
abbreviation PublicKeySize :: nat where "PublicKeySize \<equiv> 32"

definition SigningPayload :: "crypto \<Rightarrow> approved_plan \<Rightarrow> string option" where
  "SigningPayload cy a = cy_marshal cy (a\<lparr>ap_signature := []\<rparr>)"

definition Sign :: "crypto \<Rightarrow> string \<Rightarrow> approved_plan \<Rightarrow> provenance_error + approved_plan" where
  "Sign cy priv a =
     (if length priv \<noteq> PrivateKeySize then Inl InvalidKeySize
      else
        (case SigningPayload cy a of
           None \<Rightarrow> Inl MarshalPayload
         | Some payload \<Rightarrow> Inr (a\<lparr>ap_signature := cy_sign cy priv payload\<rparr>)))"

definition Verify_Plan :: "crypto \<Rightarrow> string \<Rightarrow> approved_plan \<Rightarrow> provenance_error option" where
  "Verify_Plan cy pub a =
     (if length pub \<noteq> PublicKeySize then Some InvalidKeySize
      else if ap_signature a = [] then Some (NoSignature (ap_planID a))
      else
        (case SigningPayload cy a of
           None \<Rightarrow> Some MarshalPayload
         | Some payload \<Rightarrow>
             (if cy_verify cy pub payload (ap_signature a) then None else Some (SignatureMismatch (ap_planID a)))))"

definition Revoke_Plan :: "crypto \<Rightarrow> string \<Rightarrow> approved_plan \<Rightarrow> string \<Rightarrow> string \<Rightarrow> provenance_error + approved_plan" where
  "Revoke_Plan cy priv a revokedBy reason =
     (if reason = [] then Inl EmptyReason
      else if revokedBy = [] then Inl EmptyRevokedBy
      else Sign cy priv (a\<lparr>ap_revoked := True, ap_revokedBy := revokedBy, ap_revocationReason := reason\<rparr>))"

definition AppendApprover :: "crypto \<Rightarrow> string \<Rightarrow> approved_plan \<Rightarrow> approver \<Rightarrow> provenance_error + approved_plan" where
  "AppendApprover cy priv a v =
     (if av_Principal v = [] then Inl EmptyPrincipal
      else if av_Method v = [] then Inl EmptyMethod
      else Sign cy priv (a\<lparr>ap_approvers := ap_approvers a @ [v]\<rparr>))"

section \<open>Raw stores\<close>

text \<open>A call may fail in the database, and then takes no effect; \<open>pe_now\<close> is the clock.\<close>

record provenance_env =
  pe_fault :: bool
  pe_now :: int

type_synonym mem_plans = "string \<Rightarrow> string option"

definition MemRawStore_Insert ::
  "crypto \<Rightarrow> provenance_env \<Rightarrow> mem_plans \<Rightarrow> approved_plan \<Rightarrow> provenance_error option \<times> mem_plans" where
  "MemRawStore_Insert cy e s a =
     (if s (ap_planID a) \<noteq> None then (Some (AlreadyExists (ap_planID a)), s)
      else (case cy_marshal cy a of None \<Rightarrow> (Some MarshalPayload, s) | Some d \<Rightarrow> (None, s(ap_planID a \<mapsto> d))))"

definition MemRawStore_Load :: "crypto \<Rightarrow> provenance_env \<Rightarrow> mem_plans \<Rightarrow> string \<Rightarrow> provenance_error + approved_plan" where
  "MemRawStore_Load cy e s planID =
     (case s planID of
        None \<Rightarrow> Inl ErrNotFound
      | Some d \<Rightarrow> (case cy_unmarshal cy d of None \<Rightarrow> Inl (RawDecode planID) | Some a \<Rightarrow> Inr a))"

definition MemRawStore_Update ::
  "crypto \<Rightarrow> provenance_env \<Rightarrow> mem_plans \<Rightarrow> approved_plan \<Rightarrow> provenance_error option \<times> mem_plans" where
  "MemRawStore_Update cy e s a =
     (if s (ap_planID a) = None then (Some ErrNotFound, s)
      else (case cy_marshal cy a of None \<Rightarrow> (Some MarshalPayload, s) | Some d \<Rightarrow> (None, s(ap_planID a \<mapsto> d))))"

text \<open>
  The table \<open>approved_plans\<close>; the data column is \<open>JSONB\<close>, whose normal form is the parameter
  \<open>jsonb\<close>. The other columns are copies that nothing here reads.
\<close>

record pg_plan_row =
  pr_plan_digest :: string
  pr_approved_at :: int
  pr_expires_at :: "int option"
  pr_revoked :: bool
  pr_data :: string

type_synonym pg_plans = "string \<Rightarrow> pg_plan_row option"

definition PGRawStore_Insert ::
  "crypto \<Rightarrow> (string \<Rightarrow> string option) \<Rightarrow> provenance_env \<Rightarrow> pg_plans \<Rightarrow> approved_plan \<Rightarrow> provenance_error option \<times> pg_plans" where
  "PGRawStore_Insert cy jsonb e s a =
     (case cy_marshal cy a of
        None \<Rightarrow> (Some MarshalPayload, s)
      | Some data \<Rightarrow>
          (if pe_fault e \<or> s (ap_planID a) \<noteq> None then (Some (RawDB (ap_planID a)), s)
           else
             (case jsonb data of
                None \<Rightarrow> (Some (RawDB (ap_planID a)), s)
              | Some d \<Rightarrow>
                  (None, s(ap_planID a \<mapsto> \<lparr>pr_plan_digest = ap_planDigest a, pr_approved_at = ap_approvedAt a,
                      pr_expires_at = ap_expiresAt a, pr_revoked = ap_revoked a, pr_data = d\<rparr>)))))"

definition PGRawStore_Load :: "crypto \<Rightarrow> provenance_env \<Rightarrow> pg_plans \<Rightarrow> string \<Rightarrow> provenance_error + approved_plan" where
  "PGRawStore_Load cy e s planID =
     (if pe_fault e then Inl (RawDB planID)
      else
        (case s planID of
           None \<Rightarrow> Inl ErrNotFound
         | Some row \<Rightarrow> (case cy_unmarshal cy (pr_data row) of None \<Rightarrow> Inl (RawDecode planID) | Some a \<Rightarrow> Inr a)))"

definition PGRawStore_Update ::
  "crypto \<Rightarrow> (string \<Rightarrow> string option) \<Rightarrow> provenance_env \<Rightarrow> pg_plans \<Rightarrow> approved_plan \<Rightarrow> provenance_error option \<times> pg_plans" where
  "PGRawStore_Update cy jsonb e s a =
     (case cy_marshal cy a of
        None \<Rightarrow> (Some MarshalPayload, s)
      | Some data \<Rightarrow>
          (if pe_fault e then (Some (RawDB (ap_planID a)), s)
           else
             (case jsonb data of
                None \<Rightarrow> (Some (RawDB (ap_planID a)), s)
              | Some d \<Rightarrow>
                  (case s (ap_planID a) of
                     None \<Rightarrow> (Some ErrNotFound, s)
                   | Some row \<Rightarrow> (None, s(ap_planID a \<mapsto> row\<lparr>pr_revoked := ap_revoked a, pr_data := d\<rparr>))))))"

section \<open>The verifying store\<close>

type_synonym 's raw_write = "provenance_env \<Rightarrow> 's \<Rightarrow> approved_plan \<Rightarrow> provenance_error option \<times> 's"
type_synonym 's raw_load = "provenance_env \<Rightarrow> 's \<Rightarrow> string \<Rightarrow> provenance_error + approved_plan"

definition checkPlanOpen :: "int \<Rightarrow> string \<Rightarrow> approved_plan \<Rightarrow> provenance_error option" where
  "checkPlanOpen now planID a =
     (if ap_revoked a then Some (ErrPlanRevoked planID)
      else
        (case ap_expiresAt a of
           None \<Rightarrow> None
         | Some t \<Rightarrow> if t < now then Some (ErrPlanExpired planID) else None))"

definition Store_Insert :: "crypto \<Rightarrow> string \<Rightarrow> 's raw_write \<Rightarrow> provenance_env \<Rightarrow> 's \<Rightarrow> approved_plan \<Rightarrow> provenance_error option \<times> 's" where
  "Store_Insert cy pub raw_insert e s a =
     (case Verify_Plan cy pub a of Some err \<Rightarrow> (Some (UnverifiedInsert err), s) | None \<Rightarrow> raw_insert e s a)"

definition Store_Load :: "crypto \<Rightarrow> string \<Rightarrow> 's raw_load \<Rightarrow> provenance_env \<Rightarrow> 's \<Rightarrow> string \<Rightarrow> provenance_error + approved_plan" where
  "Store_Load cy pub load e s planID =
     (case load e s planID of
        Inl err \<Rightarrow> Inl err
      | Inr a \<Rightarrow>
          (case Verify_Plan cy pub a of
             Some err \<Rightarrow> Inl (Tampered planID err)
           | None \<Rightarrow> (case checkPlanOpen (pe_now e) planID a of Some err \<Rightarrow> Inl err | None \<Rightarrow> Inr a)))"

definition Store_Revoke ::
  "crypto \<Rightarrow> string \<Rightarrow> 's raw_load \<Rightarrow> 's raw_write \<Rightarrow> provenance_env \<Rightarrow> 's \<Rightarrow> string \<Rightarrow> string \<Rightarrow> string \<Rightarrow> string
     \<Rightarrow> (provenance_error + approved_plan) \<times> 's" where
  "Store_Revoke cy pub load update e s planID priv revokedBy reason =
     (case load e s planID of
        Inl err \<Rightarrow> (Inl err, s)
      | Inr a \<Rightarrow>
          (case Verify_Plan cy pub a of
             Some err \<Rightarrow> (Inl (Tampered planID err), s)
           | None \<Rightarrow>
               (case Revoke_Plan cy priv a revokedBy reason of
                  Inl err \<Rightarrow> (Inl err, s)
                | Inr b \<Rightarrow> (case update e s b of (Some err, s') \<Rightarrow> (Inl err, s') | (None, s') \<Rightarrow> (Inr b, s')))))"

definition Store_AddApprover ::
  "crypto \<Rightarrow> string \<Rightarrow> 's raw_load \<Rightarrow> 's raw_write \<Rightarrow> provenance_env \<Rightarrow> 's \<Rightarrow> string \<Rightarrow> string \<Rightarrow> approver
     \<Rightarrow> (provenance_error + approved_plan) \<times> 's" where
  "Store_AddApprover cy pub load update e s planID priv v =
     (case load e s planID of
        Inl err \<Rightarrow> (Inl err, s)
      | Inr a \<Rightarrow>
          (case Verify_Plan cy pub a of
             Some err \<Rightarrow> (Inl (Tampered planID err), s)
           | None \<Rightarrow>
               (case checkPlanOpen (pe_now e) planID a of
                  Some err \<Rightarrow> (Inl err, s)
                | None \<Rightarrow>
                    (case AppendApprover cy priv a v of
                       Inl err \<Rightarrow> (Inl err, s)
                     | Inr b \<Rightarrow> (case update e s b of (Some err, s') \<Rightarrow> (Inl err, s') | (None, s') \<Rightarrow> (Inr b, s'))))))"

section \<open>Plan files and the activities\<close>

record verify_plan_result =
  vr_PlanID :: string
  vr_FileDigest :: string
  vr_ApprovedDigest :: string
  vr_DigestMatches :: bool
  vr_Requested :: "permission list"
  vr_Granted :: "permission list"
  vr_GrantedSubset :: bool

definition isSubset :: "permission list \<Rightarrow> permission list \<Rightarrow> bool" where
  "isSubset granted requested = list_all (\<lambda>g. g \<in> set requested) granted"

text \<open>
  \<open>parse\<close> is \<open>plan.ParseBytes\<close> and \<open>digest\<close> the hexadecimal digest of a document. Reading the file
  is an answer of the file system: the error or the content at that moment.
\<close>

definition VerifyPlanFile ::
  "(string \<Rightarrow> plan_error + document) \<Rightarrow> (document \<Rightarrow> string) \<Rightarrow> (string \<Rightarrow> provenance_error + approved_plan) \<Rightarrow> string
     \<Rightarrow> string + string \<Rightarrow> provenance_error + verify_plan_result" where
  "VerifyPlanFile parse digest load planID file =
     (case file of
        Inl err \<Rightarrow> Inl (ReadPlanFile err)
      | Inr raw \<Rightarrow>
          (case parse raw of
             Inl err \<Rightarrow> Inl (ParsePlanFile err)
           | Inr doc \<Rightarrow>
               (case load planID of
                  Inl err \<Rightarrow> Inl (LoadApproval err)
                | Inr approved \<Rightarrow>
                    Inr \<lparr>vr_PlanID = planID, vr_FileDigest = digest doc, vr_ApprovedDigest = ap_planDigest approved,
                       vr_DigestMatches = (digest doc = ap_planDigest approved), vr_Requested = ap_requested approved,
                       vr_Granted = ap_granted approved, vr_GrantedSubset = isSubset (ap_granted approved) (ap_requested approved)\<rparr>)))"

record load_plan_out =
  lo_PlanID :: string
  lo_RiskTier :: string
  lo_Tasks :: "task list"

text \<open>The file is read twice, and the approval is loaded twice: \<open>file1\<close>, \<open>load1\<close> and \<open>file2\<close>, \<open>load2\<close>.\<close>

definition LoadApprovedPlan ::
  "(string \<Rightarrow> plan_error + document) \<Rightarrow> (document \<Rightarrow> string) \<Rightarrow> (string \<Rightarrow> provenance_error + approved_plan)
     \<Rightarrow> (string \<Rightarrow> provenance_error + approved_plan) \<Rightarrow> string \<Rightarrow> string \<Rightarrow> string + string \<Rightarrow> string + string
     \<Rightarrow> provenance_error + load_plan_out" where
  "LoadApprovedPlan parse digest load1 load2 planID path file1 file2 =
     (case VerifyPlanFile parse digest load1 planID file1 of
        Inl err \<Rightarrow> Inl err
      | Inr result \<Rightarrow>
          (if \<not> vr_DigestMatches result then Inl (DigestChanged path)
           else if \<not> vr_GrantedSubset result then Inl (GrantOutsideScope planID)
           else
             (case load2 planID of
                Inl err \<Rightarrow> Inl (LoadApproval err)
              | Inr approved \<Rightarrow>
                  (case file2 of
                     Inl err \<Rightarrow> Inl (ReadPlanFile err)
                   | Inr raw \<Rightarrow>
                       (case parse raw of
                          Inl err \<Rightarrow> Inl (ParsePlanFile err)
                        | Inr doc \<Rightarrow> Inr \<lparr>lo_PlanID = planID, lo_RiskTier = ap_riskTier approved, lo_Tasks = dc_Tasks doc\<rparr>)))))"

definition RecheckApproval :: "(string \<Rightarrow> provenance_error + approved_plan) \<Rightarrow> string \<Rightarrow> provenance_error + bool" where
  "RecheckApproval load planID = (case load planID of Inl err \<Rightarrow> Inl (LoadApproval err) | Inr _ \<Rightarrow> Inr True)"

section \<open>Organization plans\<close>

record source_ref =
  sf_Path :: string
  sf_Digest :: string

record org_source =
  os_Repo :: string
  os_Revision :: string
  os_SourceDigests :: "source_ref list"

record org_ref =
  rf_Kind :: string
  rf_URL :: string

record org_result =
  or_SourceOK :: bool
  or_RefsOK :: bool
  or_ApproversOK :: bool
  or_FailedChecks :: "string list"

definition org_Valid :: "org_result \<Rightarrow> bool" where
  "org_Valid r \<longleftrightarrow> or_SourceOK r \<and> or_RefsOK r \<and> or_ApproversOK r"

text \<open>\<open>scheme\<close> is the scheme \<open>url.Parse\<close> finds, \<^const>\<open>None\<close> for its error; \<open>matches\<close> is the regular expression matcher.\<close>

definition ValidateRef ::
  "(string \<Rightarrow> string option) \<Rightarrow> ('re \<Rightarrow> string \<Rightarrow> bool) \<Rightarrow> 're list \<Rightarrow> org_ref \<Rightarrow> string option" where
  "ValidateRef scheme matches patterns ref =
     (if scheme (rf_URL ref) \<noteq> Some ''https'' \<and> scheme (rf_URL ref) \<noteq> Some ''http'' then
        Some (''ref '' @ quote (rf_URL ref) @ '': invalid or non-http(s) URL'')
      else if patterns = [] then
        Some (''ref '' @ quote (rf_URL ref) @ '': no URL allowlist configured '' @ em_dash @ '' refusing (deny-when-absent, Task 116/C24)'')
      else if list_ex (\<lambda>p. matches p (rf_URL ref)) patterns then None
      else Some (''ref '' @ quote (rf_URL ref) @ '': URL does not match any allowed pattern''))"

definition source_error :: "(string \<Rightarrow> string) \<Rightarrow> string \<Rightarrow> (string \<Rightarrow> string option) \<Rightarrow> source_ref \<Rightarrow> string list" where
  "source_error sha256hex revision contents ref =
     (case contents (sf_Path ref) of
        None \<Rightarrow> [''path '' @ quote (sf_Path ref) @ '': not found in revision '' @ revision]
      | Some c \<Rightarrow>
          (if sha256hex c \<noteq> sf_Digest ref then
             [''path '' @ quote (sf_Path ref) @ '': digest mismatch (want '' @ sf_Digest ref @ '', got '' @ sha256hex c @ '')'']
           else []))"

definition ValidateSourceDigests :: "(string \<Rightarrow> string) \<Rightarrow> org_source \<Rightarrow> (string \<Rightarrow> string option) \<Rightarrow> string option" where
  "ValidateSourceDigests sha256hex src contents =
     (if os_Repo src = [] then Some ''org provenance: source repo is required''
      else if os_Revision src = [] then Some ''org provenance: source revision is required''
      else
        (let errs = concat (map (source_error sha256hex (os_Revision src) contents) (os_SourceDigests src)) in
         if errs \<noteq> [] then Some (''org provenance: source digest failures: '' @ join_with ''; '' (sort errs)) else None))"

definition approver_role :: "approver \<Rightarrow> string" where
  "approver_role v = (if has_prefix ''role:'' (av_Method v) then trim_prefix ''role:'' (av_Method v) else av_Method v)"

text \<open>\<open>validateRef\<close> is \<^const>\<open>None\<close> for a nil \<open>RefValidator\<close>.\<close>

definition OrgValidator_Validate ::
  "(string \<Rightarrow> string) \<Rightarrow> string list \<Rightarrow> (org_ref \<Rightarrow> string option) option \<Rightarrow> org_source \<Rightarrow> org_ref list \<Rightarrow> approver list
     \<Rightarrow> (string \<Rightarrow> string option) \<Rightarrow> org_result" where
  "OrgValidator_Validate sha256hex requiredRoles validateRef src refs approvers contents =
     (let sourceErr = (case ValidateSourceDigests sha256hex src contents of None \<Rightarrow> [] | Some e \<Rightarrow> [e]);
          refErrs = (case validateRef of None \<Rightarrow> [] | Some v \<Rightarrow> List.map_filter v refs);
          presentRoles = map approver_role approvers;
          roleErrs = map (\<lambda>r. ''missing required approver role: '' @ quote r) (filter (\<lambda>r. r \<notin> set presentRoles) requiredRoles) in
      \<lparr>or_SourceOK = (sourceErr = []), or_RefsOK = (refErrs = []), or_ApproversOK = (roleErrs = []),
       or_FailedChecks = sourceErr @ refErrs @ roleErrs\<rparr>)"

section \<open>Signing and granting\<close>

lemma SigningPayload_signature [simp]: "SigningPayload cy (a\<lparr>ap_signature := sg\<rparr>) = SigningPayload cy a"
  by (simp add: SigningPayload_def)

lemma Verify_Plan_None:
  "Verify_Plan cy pub a = None \<longleftrightarrow> length pub = PublicKeySize \<and> ap_signature a \<noteq> [] \<and>
     (\<exists>p. SigningPayload cy a = Some p \<and> cy_verify cy pub p (ap_signature a))"
  by (auto simp: Verify_Plan_def split: option.splits)

lemma Sign_fields: "Sign cy priv a = Inr b \<Longrightarrow> \<exists>p. SigningPayload cy a = Some p \<and> b = a\<lparr>ap_signature := cy_sign cy priv p\<rparr>"
  by (auto simp: Sign_def split: if_splits option.splits)

lemma Revoke_Plan_fields:
  "Revoke_Plan cy priv a by r = Inr b \<Longrightarrow> ap_planID b = ap_planID a \<and> ap_revoked b \<and> ap_granted b = ap_granted a \<and> ap_requested b = ap_requested a"
  by (auto simp: Revoke_Plan_def dest!: Sign_fields split: if_splits)

lemma AppendApprover_fields:
  "AppendApprover cy priv a v = Inr b \<Longrightarrow> ap_planID b = ap_planID a \<and> ap_revoked b = ap_revoked a \<and> ap_granted b = ap_granted a
     \<and> ap_requested b = ap_requested a \<and> ap_planDigest b = ap_planDigest a \<and> ap_expiresAt b = ap_expiresAt a \<and> ap_approvers b = ap_approvers a @ [v]"
  by (auto simp: AppendApprover_def dest!: Sign_fields split: if_splits)

text \<open>A plan is granted exactly the requested permissions that the allowlist covers.\<close>

lemma NewApprovedPlan_granted:
  "NewApprovedPlan i allow = Inr a \<Longrightarrow> set (ap_granted a) = {p \<in> set (ap_requested a). allows allow p} \<and> isSubset (ap_granted a) (ap_requested a)"
  by (auto simp: NewApprovedPlan_def Intersect_def isSubset_def list_all_iff split: if_splits)

lemma Store_Load_Inr:
  "Store_Load cy pub load e s planID = Inr a \<longleftrightarrow>
     load e s planID = Inr a \<and> Verify_Plan cy pub a = None \<and> \<not> ap_revoked a \<and> (\<forall>t. ap_expiresAt a = Some t \<longrightarrow> pe_now e \<le> t)"
  by (auto simp: Store_Load_def checkPlanOpen_def split: sum.splits option.splits if_splits)

section \<open>The interface of a raw store\<close>

datatype store_op =
    OpInsert provenance_env approved_plan
  | OpRevoke provenance_env string string string string
  | OpAddApprover provenance_env string string approver

fun store_step :: "crypto \<Rightarrow> string \<Rightarrow> 's raw_write \<Rightarrow> 's raw_load \<Rightarrow> 's raw_write \<Rightarrow> store_op \<Rightarrow> 's \<Rightarrow> 's" where
  "store_step cy pub ins load update (OpInsert e a) s = snd (Store_Insert cy pub ins e s a)"
| "store_step cy pub ins load update (OpRevoke e planID priv revokedBy reason) s =
     snd (Store_Revoke cy pub load update e s planID priv revokedBy reason)"
| "store_step cy pub ins load update (OpAddApprover e planID priv v) s = snd (Store_AddApprover cy pub load update e s planID priv v)"

text \<open>
  \<open>has\<close> tells whether there is a row, \<open>row\<close> what it decodes to, and \<open>stored\<close> what a plan decodes to
  once it was encoded and written. A write that reports success leaves the written plan under its
  id, one that reports an error changes nothing, and an insertion never replaces a row.
\<close>

locale raw_store =
  fixes raw_insert :: "'s raw_write" and raw_load :: "'s raw_load" and raw_update :: "'s raw_write"
    and has :: "'s \<Rightarrow> string \<Rightarrow> bool" and row :: "'s \<Rightarrow> string \<Rightarrow> approved_plan option"
    and stored :: "approved_plan \<Rightarrow> approved_plan option"
  assumes load_row: "raw_load e s k = Inr a \<Longrightarrow> row s k = Some a"
    and row_has: "row s k = Some a \<Longrightarrow> has s k"
    and insert_new: "raw_insert e s a = (None, s') \<Longrightarrow> \<not> has s (ap_planID a) \<and> row s' = (row s)(ap_planID a := stored a)
      \<and> has s' = (has s)(ap_planID a := True)"
    and insert_error: "raw_insert e s a = (Some err, s') \<Longrightarrow> s' = s"
    and update_row: "raw_update e s a = (None, s') \<Longrightarrow> row s' = (row s)(ap_planID a := stored a) \<and> has s' = (has s)(ap_planID a := True)"
    and update_error: "raw_update e s a = (Some err, s') \<Longrightarrow> s' = s"
begin

definition keyed :: "'s \<Rightarrow> bool" where
  "keyed s \<longleftrightarrow> (\<forall>k a. row s k = Some a \<longrightarrow> ap_planID a = k)"

definition faithful :: bool where
  "faithful \<longleftrightarrow> (\<forall>a b. stored a = Some b \<longrightarrow> b = a)"

text \<open>A plan that is there and cannot be read as anything but a revoked one.\<close>

definition revoked_row :: "'s \<Rightarrow> string \<Rightarrow> bool" where
  "revoked_row s k \<longleftrightarrow> has s k \<and> (\<forall>a. row s k = Some a \<longrightarrow> ap_revoked a)"

abbreviation step :: "crypto \<Rightarrow> string \<Rightarrow> store_op \<Rightarrow> 's \<Rightarrow> 's" where
  "step cy pub \<equiv> store_step cy pub raw_insert raw_load raw_update"

text \<open>One operation: nothing, or one plan is written under its own id, and no revocation is taken back.\<close>

definition advances :: "'s \<Rightarrow> 's \<Rightarrow> bool" where
  "advances s s' \<longleftrightarrow> s' = s \<or>
    (\<exists>a. row s' = (row s)(ap_planID a := stored a) \<and> has s' = (has s)(ap_planID a := True)
      \<and> (\<not> has s (ap_planID a) \<or> (\<exists>a0. row s (ap_planID a) = Some a0 \<and> (ap_revoked a0 \<longrightarrow> ap_revoked a))))"

lemma update_advances:
  assumes "raw_update e s b = (r, s')" and "row s (ap_planID b) = Some a0" and "ap_revoked a0 \<Longrightarrow> ap_revoked b"
  shows "advances s s'"
proof (cases r)
  case None
  then have "row s' = (row s)(ap_planID b := stored b) \<and> has s' = (has s)(ap_planID b := True)" using assms(1) update_row by blast
  then show ?thesis unfolding advances_def using assms(2,3) by blast
next
  case (Some err)
  then show ?thesis unfolding advances_def using assms(1) update_error by blast
qed

lemma step_advances:
  assumes "keyed s"
  shows "advances s (step cy pub op s)"
proof (cases op)
  case (OpInsert e a)
  obtain r s' where ins: "raw_insert e s a = (r, s')" by fastforce
  have "advances s s'"
  proof (cases r)
    case None
    then show ?thesis unfolding advances_def using ins insert_new by blast
  next
    case (Some err)
    then show ?thesis unfolding advances_def using ins insert_error by blast
  qed
  then show ?thesis using OpInsert ins by (auto simp: Store_Insert_def advances_def split: option.splits)
next
  case (OpRevoke e planID priv revokedBy reason)
  show ?thesis
  proof (cases "\<exists>a0 b. raw_load e s planID = Inr a0 \<and> Verify_Plan cy pub a0 = None \<and> Revoke_Plan cy priv a0 revokedBy reason = Inr b")
    case True
    then obtain a0 b where b: "raw_load e s planID = Inr a0" "Verify_Plan cy pub a0 = None" "Revoke_Plan cy priv a0 revokedBy reason = Inr b"
      by blast
    obtain r s' where u: "raw_update e s b = (r, s')" by fastforce
    have "advances s s'"
      by (rule update_advances [OF u, of a0]) (use load_row [OF b(1)] assms Revoke_Plan_fields [OF b(3)] in \<open>auto simp: keyed_def\<close>)
    moreover have "step cy pub op s = s'" using OpRevoke b u by (simp add: Store_Revoke_def split: option.splits)
    ultimately show ?thesis by simp
  next
    case False
    then have "step cy pub op s = s" using OpRevoke by (auto simp: Store_Revoke_def split: sum.splits option.splits)
    then show ?thesis by (simp add: advances_def)
  qed
next
  case (OpAddApprover e planID priv v)
  show ?thesis
  proof (cases "\<exists>a0 b. raw_load e s planID = Inr a0 \<and> Verify_Plan cy pub a0 = None \<and> checkPlanOpen (pe_now e) planID a0 = None
      \<and> AppendApprover cy priv a0 v = Inr b")
    case True
    then obtain a0 b where b: "raw_load e s planID = Inr a0" "Verify_Plan cy pub a0 = None" "checkPlanOpen (pe_now e) planID a0 = None"
        "AppendApprover cy priv a0 v = Inr b"
      by blast
    obtain r s' where u: "raw_update e s b = (r, s')" by fastforce
    have "advances s s'"
      by (rule update_advances [OF u, of a0]) (use load_row [OF b(1)] assms AppendApprover_fields [OF b(4)] in \<open>auto simp: keyed_def\<close>)
    moreover have "step cy pub op s = s'" using OpAddApprover b u by (simp add: Store_AddApprover_def split: option.splits)
    ultimately show ?thesis by simp
  next
    case False
    then have "step cy pub op s = s" using OpAddApprover by (auto simp: Store_AddApprover_def split: sum.splits option.splits)
    then show ?thesis by (simp add: advances_def)
  qed
qed

lemma step_keyed:
  assumes "faithful" and "keyed s"
  shows "keyed (step cy pub op s)"
  using step_advances [OF assms(2), of cy pub op] assms unfolding advances_def keyed_def faithful_def by (metis fun_upd_apply)

lemma step_revoked:
  assumes "faithful" and "keyed s" and "revoked_row s k"
  shows "revoked_row (step cy pub op s) k"
  using step_advances [OF assms(2), of cy pub op] assms row_has unfolding advances_def revoked_row_def faithful_def by (metis fun_upd_apply)

lemma history_keyed: "faithful \<Longrightarrow> keyed s \<Longrightarrow> keyed (fold (step cy pub) ops s)"
  by (induction ops arbitrary: s) (simp_all add: step_keyed)

lemma history_revoked: "faithful \<Longrightarrow> keyed s \<Longrightarrow> revoked_row s k \<Longrightarrow> revoked_row (fold (step cy pub) ops s) k"
  by (induction ops arbitrary: s) (simp_all add: step_keyed step_revoked)

text \<open>Once a plan is revoked, it is never loaded again.\<close>

lemma revocation_permanent:
  assumes f: "faithful" and "keyed s" and rev: "Store_Revoke cy pub raw_load raw_update e s planID priv revokedBy reason = (Inr a, s1)"
  shows "\<exists>err. Store_Load cy pub raw_load e' (fold (step cy pub) ops s1) planID = Inl err"
proof -
  obtain a0 where a0: "raw_load e s planID = Inr a0" "Revoke_Plan cy priv a0 revokedBy reason = Inr a" "raw_update e s a = (None, s1)"
    using rev by (auto simp: Store_Revoke_def split: sum.splits option.splits prod.splits)
  have "ap_planID a = planID" "ap_revoked a"
    using Revoke_Plan_fields [OF a0(2)] load_row [OF a0(1)] assms(2) by (auto simp: keyed_def)
  then have r1: "revoked_row s1 planID" using update_row [OF a0(3)] f by (auto simp: revoked_row_def faithful_def)
  have "s1 = step cy pub (OpRevoke e planID priv revokedBy reason) s" using rev by simp
  then have "keyed s1" using step_keyed [OF f assms(2)] by metis
  from history_revoked [OF f this r1, of cy pub ops] show ?thesis
    using load_row by (cases "Store_Load cy pub raw_load e' (fold (step cy pub) ops s1) planID") (auto simp: Store_Load_Inr revoked_row_def)
qed

end

interpretation mem_plans: raw_store "MemRawStore_Insert cy" "MemRawStore_Load cy" "MemRawStore_Update cy" "\<lambda>s k. s k \<noteq> None"
    "\<lambda>s k. Option.bind (s k) (cy_unmarshal cy)" "\<lambda>a. Option.bind (cy_marshal cy a) (cy_unmarshal cy)" for cy
  by unfold_locales
    (auto simp: MemRawStore_Insert_def MemRawStore_Load_def MemRawStore_Update_def bind_eq_Some_conv intro!: ext split: option.splits if_splits)

interpretation pg_plans: raw_store "PGRawStore_Insert cy jsonb" "PGRawStore_Load cy" "PGRawStore_Update cy jsonb" "\<lambda>s k. s k \<noteq> None"
    "\<lambda>s k. Option.bind (s k) (\<lambda>r. cy_unmarshal cy (pr_data r))"
    "\<lambda>a. Option.bind (cy_marshal cy a) (\<lambda>d. Option.bind (jsonb d) (cy_unmarshal cy))" for cy jsonb
  by unfold_locales
    (auto simp: PGRawStore_Insert_def PGRawStore_Load_def PGRawStore_Update_def bind_eq_Some_conv intro!: ext split: option.splits if_splits)

text \<open>
  C8: A revocation is permanent. In a database that the store has filled, once a plan was revoked
  no later call of the store makes it loadable again: every load of it is refused, whatever
  insertions, approvals and revocations of this and other plans come after.
\<close>

theorem Store_revocation_permanent:
  fixes cy :: crypto and jsonb :: "string \<Rightarrow> string option"
  assumes "json_round_trips (cy_marshal cy) jsonb (cy_unmarshal cy)"
    and "s = fold (store_step cy pub (PGRawStore_Insert cy jsonb) (PGRawStore_Load cy) (PGRawStore_Update cy jsonb)) ops0 Map.empty"
    and "Store_Revoke cy pub (PGRawStore_Load cy) (PGRawStore_Update cy jsonb) e s planID priv revokedBy reason = (Inr a, s1)"
    and "s2 = fold (store_step cy pub (PGRawStore_Insert cy jsonb) (PGRawStore_Load cy) (PGRawStore_Update cy jsonb)) ops s1"
  shows "\<exists>err. Store_Load cy pub (PGRawStore_Load cy) e' s2 planID = Inl err"
proof -
  have f: "pg_plans.faithful cy jsonb"
    using assms(1) by (auto simp: pg_plans.faithful_def json_round_trips_def bind_eq_Some_conv)
  have "pg_plans.keyed cy s" unfolding assms(2)
    by (rule pg_plans.history_keyed [OF f]) (simp add: pg_plans.keyed_def)
  from pg_plans.revocation_permanent [OF f this assms(3)] show ?thesis unfolding assms(4) .
qed

definition sample_plan :: "bool \<Rightarrow> string \<Rightarrow> approved_plan" where
  "sample_plan r sg = \<lparr>ap_planID = ''p'', ap_planDigest = ''d'', ap_creatorPrincipal = [], ap_submittingPrincipal = [],
     ap_classifierVersion = [], ap_declared = [], ap_requested = [], ap_granted = [],
     ap_scope = \<lparr>sc_Repositories = [], sc_Paths = [], sc_Branches = []\<rparr>, ap_riskTier = ''A1'', ap_profileKind = [],
     ap_budgetEnvelope = \<lparr>be_MonthlyUSD = Fin 0, be_WorkflowUSD = Fin 0\<rparr>, ap_dataClass = [], ap_approvers = [],
     ap_authMethod = AuthMethodEd25519Local, ap_approvedAt = 0, ap_expiresAt = None, ap_revoked = r,
     ap_revokedBy = (if r then ''op'' else []), ap_revocationReason = (if r then ''bad'' else []), ap_signature = sg\<rparr>"

definition sample_codes :: "(approved_plan \<times> string) list" where
  "sample_codes = [(sample_plan False [], ''0''), (sample_plan False ''s'', ''1''), (sample_plan True [], ''2''), (sample_plan True ''s'', ''3'')]"

definition sample_crypto :: crypto where
  "sample_crypto = \<lparr>cy_sign = (\<lambda>_ _. ''s''), cy_verify = (\<lambda>_ _ sg. sg = ''s''), cy_marshal = map_of sample_codes,
     cy_unmarshal = map_of (map (\<lambda>(a, c). (c, a)) sample_codes)\<rparr>"

lemma sample_plan_eq: "sample_plan r sg = sample_plan r' sg' \<longleftrightarrow> r = r' \<and> sg = sg'"
  by (auto simp: sample_plan_def)

lemma sample_round_trips: "json_round_trips (cy_marshal sample_crypto) Some (cy_unmarshal sample_crypto)"
  by (auto simp: json_round_trips_def sample_crypto_def sample_codes_def sample_plan_eq split: if_splits)

definition sample_key :: string where "sample_key = replicate 64 CHR ''k''"
definition sample_pub :: string where "sample_pub = replicate 32 CHR ''k''"

abbreviation calm :: provenance_env where "calm \<equiv> \<lparr>pe_fault = False, pe_now = 1\<rparr>"

definition sample_rows :: pg_plans where
  "sample_rows = fold (store_step sample_crypto sample_pub (PGRawStore_Insert sample_crypto Some) (PGRawStore_Load sample_crypto)
     (PGRawStore_Update sample_crypto Some)) [OpInsert calm (sample_plan False ''s'')] Map.empty"

lemma sample_payload: "SigningPayload sample_crypto (sample_plan r sg) = Some (if r then ''2'' else ''0'')"
proof -
  have "(sample_plan r sg)\<lparr>ap_signature := []\<rparr> = sample_plan r []" by (simp add: sample_plan_def)
  then show ?thesis by (simp add: SigningPayload_def sample_crypto_def sample_codes_def sample_plan_eq)
qed

lemma sample_verified: "Verify_Plan sample_crypto sample_pub (sample_plan r ''s'') = None"
  by (simp add: Verify_Plan_None sample_payload sample_pub_def) (simp add: sample_plan_def sample_crypto_def)

lemma sample_stored:
  "cy_marshal sample_crypto (sample_plan r ''s'') = Some (if r then ''3'' else ''1'')"
  "cy_unmarshal sample_crypto (if r then ''3'' else ''1'') = Some (sample_plan r ''s'')"
  by (simp_all add: sample_crypto_def sample_codes_def sample_plan_eq)

lemma sample_rows_eq:
  "sample_rows = [''p'' \<mapsto> \<lparr>pr_plan_digest = ''d'', pr_approved_at = 0, pr_expires_at = None, pr_revoked = False, pr_data = ''1''\<rparr>]"
  using sample_stored(1) [of False]
  by (simp add: sample_rows_def Store_Insert_def sample_verified PGRawStore_Insert_def) (simp add: sample_plan_def)

lemma sample_load: "PGRawStore_Load sample_crypto calm sample_rows ''p'' = Inr (sample_plan False ''s'')"
  using sample_stored(2) [of False] by (simp add: PGRawStore_Load_def sample_rows_eq)

lemma sample_revocation:
  "Store_Revoke sample_crypto sample_pub (PGRawStore_Load sample_crypto) (PGRawStore_Update sample_crypto Some) calm sample_rows ''p''
     sample_key ''op'' ''bad'' = (Inr (sample_plan True ''s''), sample_rows(''p'' := map_option (\<lambda>r. r\<lparr>pr_revoked := True, pr_data := ''3''\<rparr>) (sample_rows ''p'')))"
proof -
  have idp: "ap_planID (sample_plan r sg) = ''p''" for r sg by (simp add: sample_plan_def)
  have rev: "(sample_plan False ''s'')\<lparr>ap_revoked := True, ap_revokedBy := ''op'', ap_revocationReason := ''bad''\<rparr> = sample_plan True ''s''"
    by (simp add: sample_plan_def)
  have "Revoke_Plan sample_crypto sample_key (sample_plan False ''s'') ''op'' ''bad'' = Inr (sample_plan True ''s'')"
    unfolding Revoke_Plan_def rev by (simp add: Sign_def sample_payload sample_key_def) (simp add: sample_plan_def sample_crypto_def)
  then show ?thesis
    using sample_load sample_stored(1) [of True]
    by (simp add: Store_Revoke_def sample_verified PGRawStore_Update_def idp sample_rows_eq) (simp add: sample_plan_def)
qed

theorem Store_revocation_permanent_witness:
  "\<exists>err. Store_Load sample_crypto sample_pub (PGRawStore_Load sample_crypto) calm
     (sample_rows(''p'' := map_option (\<lambda>r. r\<lparr>pr_revoked := True, pr_data := ''3''\<rparr>) (sample_rows ''p''))) ''p'' = Inl err"
  using Store_revocation_permanent [OF sample_round_trips sample_rows_def sample_revocation, where ops = "[]"] by simp

section \<open>What an approval guarantees\<close>



text \<open>
  The file is not pinned between the two reads: whatever it holds at the second one is what is
  returned, whether it was approved or not.
\<close>

theorem LoadApprovedPlan_second_read:
  assumes "parse raw1 = Inr doc1" and "load1 planID = Inr a" and "digest doc1 = ap_planDigest a" and "isSubset (ap_granted a) (ap_requested a)"
    and "load2 planID = Inr b" and "parse raw2 = Inr doc2"
  shows "LoadApprovedPlan parse digest load1 load2 planID path (Inr raw1) (Inr raw2)
    = Inr \<lparr>lo_PlanID = planID, lo_RiskTier = ap_riskTier b, lo_Tasks = dc_Tasks doc2\<rparr>"
  using assms by (simp add: LoadApprovedPlan_def VerifyPlanFile_def)

text \<open>
  The signature does not bind a row to its key: the row of one plan, copied over the row of another
  one, is accepted for the other one, even when that was revoked.
\<close>

theorem Store_Load_swapped_row:
  assumes "Store_Load cy pub (PGRawStore_Load cy) e s k = Inr a"
  shows "Store_Load cy pub (PGRawStore_Load cy) e (s(k' := s k)) k' = Inr a
    \<and> RecheckApproval (Store_Load cy pub (PGRawStore_Load cy) e (s(k' := s k))) k' = Inr True"
proof -
  have "PGRawStore_Load cy e (s(k' := s k)) k' = Inr a"
    using assms by (auto simp: Store_Load_Inr PGRawStore_Load_def split: if_splits option.splits)
  then have "Store_Load cy pub (PGRawStore_Load cy) e (s(k' := s k)) k' = Inr a" using assms by (simp add: Store_Load_Inr)
  then show ?thesis by (simp add: RecheckApproval_def)
qed

text \<open>
  The check of an organization plan is exact: it passes exactly when the source names a repository and
  a revision and every declared digest is the one of the content, every reference is accepted, and
  every required role is held by an approver; a failed check always says what failed.
\<close>

theorem OrgValidator_exact:
  "org_Valid (OrgValidator_Validate sha256hex roles (Some validateRef) src refs approvers contents) \<longleftrightarrow>
     os_Repo src \<noteq> [] \<and> os_Revision src \<noteq> []
     \<and> list_all (\<lambda>f. \<exists>c. contents (sf_Path f) = Some c \<and> sha256hex c = sf_Digest f) (os_SourceDigests src)
     \<and> list_all (\<lambda>r. validateRef r = None) refs \<and> set roles \<subseteq> approver_role ` set approvers"
  "or_FailedChecks (OrgValidator_Validate sha256hex roles vref src refs approvers contents) = [] \<longleftrightarrow>
     org_Valid (OrgValidator_Validate sha256hex roles vref src refs approvers contents)"
proof -
  have src: "ValidateSourceDigests sha256hex src contents = None \<longleftrightarrow> os_Repo src \<noteq> [] \<and> os_Revision src \<noteq> []
      \<and> list_all (\<lambda>f. \<exists>c. contents (sf_Path f) = Some c \<and> sha256hex c = sf_Digest f) (os_SourceDigests src)"
    by (auto simp: ValidateSourceDigests_def Let_def source_error_def list_all_iff split: option.splits if_splits)
  have refs: "List.map_filter validateRef refs = [] \<longleftrightarrow> list_all (\<lambda>r. validateRef r = None) refs"
    by (induction refs) (auto simp: map_filter_simps split: option.splits)
  show "org_Valid (OrgValidator_Validate sha256hex roles (Some validateRef) src refs approvers contents) \<longleftrightarrow>
     os_Repo src \<noteq> [] \<and> os_Revision src \<noteq> []
     \<and> list_all (\<lambda>f. \<exists>c. contents (sf_Path f) = Some c \<and> sha256hex c = sf_Digest f) (os_SourceDigests src)
     \<and> list_all (\<lambda>r. validateRef r = None) refs \<and> set roles \<subseteq> approver_role ` set approvers"
    using src refs by (auto simp: org_Valid_def OrgValidator_Validate_def Let_def filter_empty_conv split: option.splits)
  show "or_FailedChecks (OrgValidator_Validate sha256hex roles vref src refs approvers contents) = [] \<longleftrightarrow>
     org_Valid (OrgValidator_Validate sha256hex roles vref src refs approvers contents)"
    by (simp add: org_Valid_def OrgValidator_Validate_def Let_def)
qed

end
