(* ===== verification/Audit_Log.thy ===== *)
theory Audit_Log
  imports Prelude
begin

text \<open>
  The audit hash chain: the writer and the verifier of \<open>internal/provenance/audit.go\<close> over
  migration \<open>00008\<close>, the verifier over loaded rows and the anchors of \<open>internal/audit\<close>. The hash
  and the normal form of a \<open>JSONB\<close> value are parameters. The lemmas show what the chain does
  and does not detect: two chains that verify and end in the same hash are the same chain,
  while a chain that was cut at either end still verifies; and that two writers at once leave a
  chain that does not verify although nobody touched it.
\<close>

section \<open>The log\<close>

text \<open>The column \<open>prev_hash\<close> of the first row is \<open>NULL\<close>, which is read as an empty slice.\<close>

record audit_row =
  ar_Seq :: int
  ar_Actor :: string
  ar_Action :: string
  ar_Subject :: string
  ar_Payload :: string
  ar_PrevHash :: string
  ar_Hash :: string

text \<open>The table: its rows in the order of \<open>seq\<close>, and the next value of the sequence.\<close>

record audit_log =
  al_Rows :: "audit_row list"
  al_Next :: int

definition last_hash :: "audit_row list \<Rightarrow> string" where
  "last_hash rows = (if rows = [] then [] else ar_Hash (last rows))"

text \<open>
  \<open>AppendAuditRow\<close> is three statements: the cast, the read of the last hash, the insertion. Each
  may fail. The insertion takes the hash that was read before.
\<close>

datatype audit_error = CanonicalizeFailed | ReadLastFailed | InsertFailed

record audit_env =
  ae_cast_fault :: bool
  ae_read_fault :: bool
  ae_insert_fault :: bool

definition insert_audit_row :: "(string \<Rightarrow> string) \<Rightarrow> string \<Rightarrow> string \<Rightarrow> string \<Rightarrow> string \<Rightarrow> string \<Rightarrow> audit_log \<Rightarrow> audit_log" where
  "insert_audit_row sha256 prevHash actor action subject canonical l =
     \<lparr>al_Rows = al_Rows l @ [\<lparr>ar_Seq = al_Next l, ar_Actor = actor, ar_Action = action, ar_Subject = subject, ar_Payload = canonical,
        ar_PrevHash = prevHash, ar_Hash = sha256 (prevHash @ canonical)\<rparr>], al_Next = al_Next l + 1\<rparr>"

definition AppendAuditRow ::
  "(string \<Rightarrow> string) \<Rightarrow> (string \<Rightarrow> string option) \<Rightarrow> audit_env \<Rightarrow> string \<Rightarrow> string \<Rightarrow> string \<Rightarrow> string \<Rightarrow> audit_log
     \<Rightarrow> audit_error option \<times> audit_log" where
  "AppendAuditRow sha256 jsonb e actor action subject payload l =
     (if ae_cast_fault e then (Some CanonicalizeFailed, l)
      else
        (case jsonb payload of
           None \<Rightarrow> (Some CanonicalizeFailed, l)
         | Some canonical \<Rightarrow>
             (if ae_read_fault e then (Some ReadLastFailed, l)
              else if ae_insert_fault e then (Some InsertFailed, l)
              else (None, insert_audit_row sha256 (last_hash (al_Rows l)) actor action subject canonical l))))"

record audit_result =
  au_RowCount :: int
  au_OK :: bool
  au_BadSeq :: int
  au_BrokenLinkSeq :: int

text \<open>The turn of the loop for one row; the state is the result and the hash of the row before.\<close>

definition verify_row :: "(string \<Rightarrow> string) \<Rightarrow> audit_row \<Rightarrow> audit_result \<times> string \<Rightarrow> audit_result \<times> string" where
  "verify_row sha256 row st =
     (case st of (r, prevHash) \<Rightarrow>
        let r1 = r\<lparr>au_RowCount := au_RowCount r + 1\<rparr>;
            r2 = (if au_OK r1 \<and> 1 < au_RowCount r1 \<and> ar_PrevHash row \<noteq> prevHash
                  then r1\<lparr>au_OK := False, au_BrokenLinkSeq := ar_Seq row\<rparr> else r1);
            r3 = (if au_OK r2 \<and> sha256 (ar_PrevHash row @ ar_Payload row) \<noteq> ar_Hash row
                  then r2\<lparr>au_OK := False, au_BadSeq := ar_Seq row\<rparr> else r2) in
        (r3, ar_Hash row))"

definition VerifyAuditChain :: "(string \<Rightarrow> string) \<Rightarrow> audit_row list \<Rightarrow> audit_result" where
  "VerifyAuditChain sha256 rows =
     fst (fold (verify_row sha256) rows (\<lparr>au_RowCount = 0, au_OK = True, au_BadSeq = 0, au_BrokenLinkSeq = 0\<rparr>, []))"

text \<open>\<open>VerifyRows\<close> of the audit package, with the index of the row.\<close>

definition rows_turn :: "(string \<Rightarrow> string) \<Rightarrow> nat \<Rightarrow> string \<Rightarrow> audit_row \<Rightarrow> audit_result \<Rightarrow> audit_result" where
  "rows_turn sha256 i previous row r =
     (let r1 = (if 0 < i \<and> ar_PrevHash row \<noteq> previous \<and> au_OK r then r\<lparr>au_OK := False, au_BrokenLinkSeq := ar_Seq row\<rparr> else r) in
      if sha256 (ar_PrevHash row @ ar_Payload row) \<noteq> ar_Hash row \<and> au_OK r1
      then r1\<lparr>au_OK := False, au_BadSeq := ar_Seq row\<rparr> else r1)"

fun verify_rows_from :: "(string \<Rightarrow> string) \<Rightarrow> nat \<Rightarrow> string \<Rightarrow> audit_row list \<Rightarrow> audit_result \<Rightarrow> audit_result" where
  "verify_rows_from sha256 i previous [] r = r"
| "verify_rows_from sha256 i previous (row # rows) r =
     verify_rows_from sha256 (i + 1) (ar_Hash row) rows (rows_turn sha256 i previous row r)"

definition VerifyRows :: "(string \<Rightarrow> string) \<Rightarrow> audit_row list \<Rightarrow> audit_result" where
  "VerifyRows sha256 rows =
     verify_rows_from sha256 0 [] rows \<lparr>au_RowCount = int (length rows), au_OK = True, au_BadSeq = 0, au_BrokenLinkSeq = 0\<rparr>"

record anchor =
  ac_StartSeq :: int
  ac_EndSeq :: int
  ac_Digest :: string
  ac_CreatedAt :: int

definition AnchorDigest :: "(string \<Rightarrow> string) \<Rightarrow> audit_row list \<Rightarrow> string" where
  "AnchorDigest sha256hex rows = sha256hex (concat (map ar_Hash rows))"

function chunks :: "nat \<Rightarrow> 'a list \<Rightarrow> 'a list list" where
  "chunks n xs = (if xs = [] \<or> n = 0 then [] else take n xs # chunks n (drop n xs))"
  by auto
termination by (relation "measure (length \<circ> snd)") auto

declare chunks.simps [simp del]

definition BuildAnchors :: "(string \<Rightarrow> string) \<Rightarrow> audit_row list \<Rightarrow> int \<Rightarrow> int \<Rightarrow> anchor list" where
  "BuildAnchors sha256hex rows stride now =
     (let n = (if stride \<le> 0 then 10000 else stride) in
      map (\<lambda>chunk. \<lparr>ac_StartSeq = ar_Seq (hd chunk), ac_EndSeq = ar_Seq (last chunk), ac_Digest = AnchorDigest sha256hex chunk,
             ac_CreatedAt = now\<rparr>) (chunks (nat n) rows))"

section \<open>The two verifiers\<close>

definition row_ok :: "(string \<Rightarrow> string) \<Rightarrow> audit_row \<Rightarrow> bool" where
  "row_ok sha256 row \<longleftrightarrow> ar_Hash row = sha256 (ar_PrevHash row @ ar_Payload row)"

fun linked :: "audit_row list \<Rightarrow> bool" where
  "linked [] = True"
| "linked [row] = True"
| "linked (r1 # r2 # rows) = (ar_PrevHash r2 = ar_Hash r1 \<and> linked (r2 # rows))"

lemma linked_append: "linked (xs @ ys) \<longleftrightarrow> linked xs \<and> linked ys \<and> (xs \<noteq> [] \<and> ys \<noteq> [] \<longrightarrow> ar_PrevHash (hd ys) = ar_Hash (last xs))"
  by (induction xs rule: linked.induct) (cases ys; auto)+

text \<open>Both verifiers walk over the rows in the same way.\<close>

lemma rows_turn_count: "rows_turn sha256 i p row (r\<lparr>au_RowCount := c\<rparr>) = (rows_turn sha256 i p row r)\<lparr>au_RowCount := c\<rparr>"
  by (cases r) (simp add: rows_turn_def Let_def)

lemma verify_rows_from_count:
  "verify_rows_from sha256 i p rows (r\<lparr>au_RowCount := c\<rparr>) = (verify_rows_from sha256 i p rows r)\<lparr>au_RowCount := c\<rparr>"
  by (induction rows arbitrary: i p r) (simp_all add: rows_turn_count)

lemma verify_row_turn:
  assumes "0 \<le> au_RowCount r"
  shows "verify_row sha256 row (r, p) = ((rows_turn sha256 (nat (au_RowCount r)) p row r)\<lparr>au_RowCount := au_RowCount r + 1\<rparr>, ar_Hash row)"
  using assms by (cases r) (auto simp: verify_row_def rows_turn_def Let_def)

lemma verify_fold:
  assumes "0 \<le> au_RowCount r"
  shows "fst (fold (verify_row sha256) rows (r, p)) =
     (verify_rows_from sha256 (nat (au_RowCount r)) p rows r)\<lparr>au_RowCount := au_RowCount r + int (length rows)\<rparr>"
  using assms
proof (induction rows arbitrary: r p)
  case (Cons row rows)
  then show ?case by (simp add: verify_row_turn verify_rows_from_count nat_add_distrib add.commute)
qed simp

text \<open>
  The verifier of the provenance package and the one of the audit package agree on every log,
  in the verdict, the count and the sequence numbers they report.
\<close>

theorem VerifyAuditChain_VerifyRows: "VerifyAuditChain sha256 rows = VerifyRows sha256 rows"
proof -
  let ?z = "\<lparr>au_RowCount = 0, au_OK = True, au_BadSeq = 0, au_BrokenLinkSeq = 0\<rparr>"
  have "VerifyAuditChain sha256 rows = (verify_rows_from sha256 0 [] rows ?z)\<lparr>au_RowCount := int (length rows)\<rparr>"
    by (simp add: VerifyAuditChain_def verify_fold)
  also have "\<dots> = VerifyRows sha256 rows"
    by (simp add: VerifyRows_def verify_rows_from_count [symmetric])
  finally show ?thesis .
qed

section \<open>What a verified chain means\<close>

lemma verify_rows_from_bad: "\<not> au_OK r \<Longrightarrow> verify_rows_from sha256 i p rows r = r"
  by (induction rows arbitrary: i p) (simp_all add: rows_turn_def)

lemma verify_rows_from_ok:
  "au_OK r \<Longrightarrow> au_OK (verify_rows_from sha256 i p rows r) \<longleftrightarrow>
     list_all (row_ok sha256) rows \<and> linked rows \<and> (0 < i \<and> rows \<noteq> [] \<longrightarrow> ar_PrevHash (hd rows) = p)"
proof (induction rows arbitrary: i p r)
  case (Cons row rows)
  show ?case
  proof (cases "row_ok sha256 row \<and> (0 < i \<longrightarrow> ar_PrevHash row = p)")
    case True
    then have "rows_turn sha256 i p row r = r" by (auto simp: rows_turn_def row_ok_def Let_def)
    then show ?thesis using Cons True by (cases rows) (auto simp: Cons.IH)
  next
    case False
    then have "\<not> au_OK (rows_turn sha256 i p row r)" using Cons.prems by (auto simp: rows_turn_def row_ok_def Let_def)
    then show ?thesis using False verify_rows_from_bad by auto
  qed
qed simp

lemma VerifyAuditChain_OK: "au_OK (VerifyAuditChain sha256 rows) \<longleftrightarrow> list_all (row_ok sha256) rows \<and> linked rows"
proof -
  let ?z = "\<lparr>au_RowCount = 0, au_OK = True, au_BadSeq = 0, au_BrokenLinkSeq = 0\<rparr>"
  have "VerifyAuditChain sha256 rows = (verify_rows_from sha256 0 [] rows ?z)\<lparr>au_RowCount := int (length rows)\<rparr>"
    by (simp add: VerifyAuditChain_def verify_fold)
  then show ?thesis using verify_rows_from_ok [of ?z] by simp
qed

lemma insert_audit_row_ok:
  "au_OK (VerifyAuditChain sha256 (al_Rows l)) \<Longrightarrow>
     au_OK (VerifyAuditChain sha256 (al_Rows (insert_audit_row sha256 (last_hash (al_Rows l)) a b c d l)))"
  by (auto simp: VerifyAuditChain_OK insert_audit_row_def linked_append row_ok_def last_hash_def)

text \<open>A history of calls one after the other, each with its faults.\<close>

fun audit_history :: "(string \<Rightarrow> string) \<Rightarrow> (string \<Rightarrow> string option) \<Rightarrow> (audit_env \<times> string \<times> string \<times> string \<times> string) list \<Rightarrow> audit_log \<Rightarrow> audit_log" where
  "audit_history sha256 jsonb [] l = l"
| "audit_history sha256 jsonb ((e, actor, action, subject, payload) # calls) l =
     audit_history sha256 jsonb calls (snd (AppendAuditRow sha256 jsonb e actor action subject payload l))"

lemma audit_history_grows:
  "\<exists>new. al_Rows (audit_history sha256 jsonb calls l) = al_Rows l @ new \<and> (au_OK (VerifyAuditChain sha256 (al_Rows l)) \<longrightarrow>
     au_OK (VerifyAuditChain sha256 (al_Rows (audit_history sha256 jsonb calls l))))"
proof (induction calls arbitrary: l)
  case (Cons call calls)
  obtain e actor action subject payload where call: "call = (e, actor, action, subject, payload)" by (metis prod_cases5)
  obtain err l' where l': "AppendAuditRow sha256 jsonb e actor action subject payload l = (err, l')" by fastforce
  have "l' = l \<or> (\<exists>d. l' = insert_audit_row sha256 (last_hash (al_Rows l)) actor action subject d l)"
    using l' by (auto simp: AppendAuditRow_def split: if_splits option.splits)
  then have "\<exists>n1. al_Rows l' = al_Rows l @ n1 \<and> (au_OK (VerifyAuditChain sha256 (al_Rows l)) \<longrightarrow> au_OK (VerifyAuditChain sha256 (al_Rows l')))"
    using insert_audit_row_ok by (auto simp: insert_audit_row_def)
  then show ?case using Cons.IH [of l'] call l' by auto
qed simp

lemma audit_history_first:
  "(al_Rows l \<noteq> [] \<Longrightarrow> ar_PrevHash (hd (al_Rows l)) = []) \<Longrightarrow> al_Rows (audit_history sha256 jsonb calls l) \<noteq> [] \<Longrightarrow>
     ar_PrevHash (hd (al_Rows (audit_history sha256 jsonb calls l))) = []"
proof (induction calls arbitrary: l)
  case (Cons call calls)
  obtain e actor action subject payload where call: "call = (e, actor, action, subject, payload)" by (metis prod_cases5)
  have "ar_PrevHash (hd (al_Rows (snd (AppendAuditRow sha256 jsonb e actor action subject payload l)))) = []"
    if "al_Rows (snd (AppendAuditRow sha256 jsonb e actor action subject payload l)) \<noteq> []"
    using that Cons.prems(1)
    by (auto simp: AppendAuditRow_def insert_audit_row_def last_hash_def hd_append split: if_splits option.splits)
  then show ?case using Cons.IH Cons.prems(2) call by simp
qed simp

text \<open>
  The chain is tamper evident as far as its last hash is kept elsewhere: when the hash has a fixed
  length and no collision among what the two logs hash, two verified logs with the same number of
  rows, starts of the same length and the same last hash have the same payloads and hashes throughout.
\<close>

abbreviation hashed :: "audit_row \<Rightarrow> string" where
  "hashed r \<equiv> ar_PrevHash r @ ar_Payload r"

lemma chain_pinned:
  assumes inj: "inj_on sha256 S" and len: "\<And>x. length (sha256 x) = 32"
  shows "hashed ` set rows \<subseteq> S \<Longrightarrow> hashed ` set rows' \<subseteq> S \<Longrightarrow> list_all (row_ok sha256) rows \<Longrightarrow> linked rows \<Longrightarrow> list_all (row_ok sha256) rows' \<Longrightarrow> linked rows' \<Longrightarrow>
    length rows = length rows' \<Longrightarrow> last_hash rows = last_hash rows' \<Longrightarrow>
    (rows \<noteq> [] \<Longrightarrow> length (ar_PrevHash (hd rows)) = length (ar_PrevHash (hd rows'))) \<Longrightarrow>
    map (\<lambda>r. (ar_PrevHash r, ar_Payload r, ar_Hash r)) rows = map (\<lambda>r. (ar_PrevHash r, ar_Payload r, ar_Hash r)) rows'"
proof (induction rows arbitrary: rows' rule: rev_induct)
  case (snoc row rows)
  obtain xs x where rows': "rows' = xs @ [x]" using snoc.prems(7) by (cases rows' rule: rev_cases) auto
  have h: "ar_Hash row = ar_Hash x" using snoc.prems(8) rows' by (simp add: last_hash_def)
  have "sha256 (ar_PrevHash row @ ar_Payload row) = sha256 (ar_PrevHash x @ ar_Payload x)"
    using h snoc.prems(3,5) rows' by (simp add: row_ok_def)
  then have pp: "ar_PrevHash row @ ar_Payload row = ar_PrevHash x @ ar_Payload x"
    by (rule inj_onD [OF inj]) (use snoc.prems(1,2) rows' in auto)
  have lens: "length rows = length xs" using snoc.prems(7) rows' by simp
  have pl: "length (ar_PrevHash row) = length (ar_PrevHash x) \<and> (rows \<noteq> [] \<longrightarrow> last_hash rows = ar_PrevHash row \<and> last_hash xs = ar_PrevHash x)"
  proof (cases "rows = []")
    case True
    then show ?thesis using snoc.prems(9) lens rows' by simp
  next
    case False
    then have ne: "xs \<noteq> []" using lens by auto
    have "ar_PrevHash row = ar_Hash (last rows)" "ar_PrevHash x = ar_Hash (last xs)"
      using snoc.prems(4,6) False ne rows' by (simp_all add: linked_append)
    moreover have "row_ok sha256 (last rows)" "row_ok sha256 (last xs)" using snoc.prems(3,5) False ne rows' by (auto simp: list_all_iff)
    ultimately show ?thesis using len False ne by (simp add: row_ok_def last_hash_def)
  qed
  then have e: "ar_PrevHash row = ar_PrevHash x" "ar_Payload row = ar_Payload x" using pp by auto
  have lh: "last_hash rows = last_hash xs" using pl e lens by (cases "rows = []") (auto simp: last_hash_def)
  have hd: "length (ar_PrevHash (hd rows)) = length (ar_PrevHash (hd xs))" if "rows \<noteq> []"
    using snoc.prems(9) that lens rows' by (auto simp: hd_append)
  have "map (\<lambda>r. (ar_PrevHash r, ar_Payload r, ar_Hash r)) rows = map (\<lambda>r. (ar_PrevHash r, ar_Payload r, ar_Hash r)) xs"
    using snoc.IH [OF _ _ _ _ _ _ lens lh hd] snoc.prems(1-6) rows' by (simp add: linked_append)
  then show ?case using e h rows' by simp
qed simp


text \<open>A hash of fixed length without collisions on short inputs, for the witness.\<close>

definition pad_hash :: "string \<Rightarrow> string" where
  "pad_hash s = take 32 (s @ replicate 32 CHR ''0'')"

definition calm_audit :: audit_env where
  "calm_audit = \<lparr>ae_cast_fault = False, ae_read_fault = False, ae_insert_fault = False\<rparr>"


section \<open>What the chain does not detect\<close>

text \<open>
  A verified log that is cut, at the front or at the end, still verifies; and the actor, the action and
  the subject of a row can be rewritten, since the hash covers the payload only.
\<close>

theorem audit_cut_undetected:
  assumes "au_OK (VerifyAuditChain sha256 (front @ middle @ back))"
  shows "au_OK (VerifyAuditChain sha256 middle)"
  using assms by (auto simp: VerifyAuditChain_OK linked_append)

theorem audit_actor_undetected:
  "VerifyAuditChain sha256 (map (\<lambda>r. r\<lparr>ar_Actor := x r, ar_Action := y r, ar_Subject := z r\<rparr>) rows) = VerifyAuditChain sha256 rows"
proof -
  have "verify_row sha256 (r\<lparr>ar_Actor := x r, ar_Action := y r, ar_Subject := z r\<rparr>) = verify_row sha256 r" for r
    by (simp add: verify_row_def fun_eq_iff Let_def)
  then show ?thesis by (simp add: VerifyAuditChain_def fold_map comp_def)
qed

text \<open>
  Two writers at once: both read the last hash before either inserts. The log then holds a broken
  link, although nothing was tampered with.
\<close>

theorem audit_race_breaks_chain:
  assumes "sha256 (last_hash (al_Rows l) @ p1) \<noteq> last_hash (al_Rows l)"
  shows "\<not> au_OK (VerifyAuditChain sha256 (al_Rows
    (insert_audit_row sha256 (last_hash (al_Rows l)) a2 b2 c2 p2 (insert_audit_row sha256 (last_hash (al_Rows l)) a1 b1 c1 p1 l))))"
  using assms by (auto simp: VerifyAuditChain_OK insert_audit_row_def linked_append)

section \<open>Anchors\<close>

lemma chunks_concat: "0 < n \<Longrightarrow> concat (chunks n xs) = xs \<and> list_all (\<lambda>c. c \<noteq> [] \<and> length c \<le> n) (chunks n xs)"
  by (induction n xs rule: chunks.induct) (subst (1 2) chunks.simps, auto)

text \<open>
  The anchors cover the log: the chunks they are made of are, one after the other, all its rows,
  none is empty and none is longer than the stride, so that the first anchor starts at the first row, and
  the last one ends at the last.
\<close>

theorem BuildAnchors_cover:
  "\<exists>cs. concat cs = rows \<and> list_all (\<lambda>c. c \<noteq> [] \<and> int (length c) \<le> (if stride \<le> 0 then 10000 else stride)) cs
     \<and> BuildAnchors sha256hex rows stride now =
       map (\<lambda>c. \<lparr>ac_StartSeq = ar_Seq (hd c), ac_EndSeq = ar_Seq (last c), ac_Digest = sha256hex (concat (map ar_Hash c)), ac_CreatedAt = now\<rparr>) cs"
proof -
  let ?n = "nat (if stride \<le> 0 then 10000 else stride)"
  have n: "0 < ?n" by simp
  have "list_all (\<lambda>c. c \<noteq> [] \<and> int (length c) \<le> (if stride \<le> 0 then 10000 else stride)) (chunks ?n rows)"
    using chunks_concat [OF n, of rows] by (auto simp: list_all_iff split: if_splits)
  then show ?thesis
    using chunks_concat [OF n, of rows] by (intro exI [of _ "chunks ?n rows"]) (simp add: BuildAnchors_def AnchorDigest_def Let_def)
qed

end
