(* ===== verification/Deliver_Plan.thy ===== *)
theory Deliver_Plan
  imports Pec Cost_Ledger Recovery Executors
begin

text \<open>
  The durable workflow \<open>DeliverPlan\<close> (\<open>internal/kernel/workflow.go\<close>) and the activity \<open>ValidateTask\<close>
  (\<open>internal/kernel/activities.go\<close>).

  A workflow is its control flow over the answers of its activities: what each activity
  answered is an input, the calls made, with their arguments, are the output. The tasks of
  a wave run as coroutines; their calls may interleave in any way, which a scheduler chooses.
  The lemmas show that a task is executed only after the approval, the budget, the lease and
  the worktree, that a plan succeeds only when every task was validated, that a task starts
  only after the tasks it depends on are done, and that the workflow records one terminal
  transition, its last act.
\<close>

section \<open>Inputs and outputs\<close>

record deliver_input =
  di_PlanID :: string
  di_PlanFilePath :: string
  di_RepoPath :: string
  di_ExecutorName :: string
  di_ExecutorAllowlist :: "string list"
  di_MaxWaveConcurrency :: int
  di_EnvelopeID :: string
  di_EnvelopeDigest :: string
  di_MissionID :: string
  di_Unattended :: bool
  di_RequireSandbox :: bool
  di_BudgetScope :: string
  di_BudgetScopeID :: string

record task_result =
  tr_TaskID :: string
  tr_Failed :: bool

record deliver_result =
  dv_Status :: status
  dv_ResultCode :: result_code
  dv_Tasks :: "task_result list"

record validate_in =
  vi_ExecuteFailed :: bool
  vi_WorkspacePath :: string
  vi_ValidationCommands :: "string list"
  vi_Attempt :: int
  vi_PreClassification :: string

record validate_out =
  vo_Validated :: bool
  vo_Reason :: string

text \<open>
  \<open>ValidateTask\<close>; \<open>run\<close> is the validator on the workspace of the task, the records or an error.
\<close>

definition ValidateTask :: "(string \<Rightarrow> string list \<Rightarrow> string + command_record list) \<Rightarrow> validate_in \<Rightarrow> string + validate_out" where
  "ValidateTask run i =
     (if vi_ExecuteFailed i then
        Inr \<lparr>vo_Validated = False,
             vo_Reason = (if vi_PreClassification i = [] then ''verification-failed'' else vi_PreClassification i)\<rparr>
      else
        (case run (vi_WorkspacePath i) (vi_ValidationCommands i) of
           Inl e \<Rightarrow> Inl e
         | Inr records \<Rightarrow>
             (case Evaluate records (vi_Attempt i) of
                (True, _) \<Rightarrow> Inr \<lparr>vo_Validated = True, vo_Reason = []\<rparr>
              | (False, cls) \<Rightarrow> Inr \<lparr>vo_Validated = False, vo_Reason = cls\<rparr>)))"

section \<open>The calls of a workflow\<close>

text \<open>
  The calls to the activities with their arguments, except the token usage, the digest of the
  envelope and the time of occurrence that some of them pass on, which decide nothing.
\<close>

datatype task_event =
    TERecheck string
  | TEReserve reserve_in
  | TELease string string int
  | TEWorktree string string int string string string
  | TEExecute execute_in
  | TERecordCost string string int string string
  | TEValidate string validate_in
  | TEEvidence string string int string "string list" bool string
  | TESignature string string int string string
  | TERelease string string
  | TEWait string
  | TEResume string

datatype deliver_event =
    DLoad string string
  | DTask task_event
  | DTransition int transition

text \<open>
  What the activities of one attempt at a task answered; \<^const>\<open>None\<close> is an error. \<open>aa_Cancelled\<close>
  is whether the context was cancelled when the attempt gave up.
\<close>

record attempt_answers =
  aa_Recheck :: "bool option"
  aa_Reserve :: "reserve_out option"
  aa_Lease :: "string option"
  aa_Worktree :: "string option"
  aa_Execute :: "execute_out option"
  aa_Validate :: "validate_out option"
  aa_Evidence :: "string option"
  aa_Cancelled :: bool

section \<open>One task\<close>

abbreviation phaseExecution :: string where "phaseExecution \<equiv> ''I''"

definition phaseHintFor :: "task \<Rightarrow> string" where
  "phaseHintFor t = phaseExecution"

definition cancelOr :: "bool \<Rightarrow> string \<Rightarrow> string" where
  "cancelOr cancelled fallback = (if cancelled then ''cancelled'' else fallback)"

definition reserve_input :: "string \<Rightarrow> deliver_input \<Rightarrow> task \<Rightarrow> string \<Rightarrow> nat \<Rightarrow> reserve_in" where
  "reserve_input wid i t executorName budgetAttempt =
     \<lparr>ri_WorkflowID = wid, ri_TaskID = tk_ID t, ri_ExecutorName = executorName, ri_Attempt = int budgetAttempt,
      ri_MissionID = di_MissionID i, ri_Unattended = di_Unattended i, ri_EnvelopeDigest = di_EnvelopeDigest i,
      ri_BudgetScope = di_BudgetScope i, ri_BudgetScopeID = di_BudgetScopeID i\<rparr>"

definition execute_input :: "string \<Rightarrow> deliver_input \<Rightarrow> task \<Rightarrow> string \<Rightarrow> string \<Rightarrow> execute_in" where
  "execute_input wid i t executorName path =
     \<lparr>xi_WorkflowID = wid, xi_TaskID = tk_ID t, xi_Attempt = 1, xi_ExecutorName = executorName,
      xi_ExplicitExecutor = tk_Executor t, xi_TaskClass = tk_Class t, xi_ExecutorAllowlist = di_ExecutorAllowlist i,
      xi_WorkspacePath = path, xi_RequireSandbox = di_RequireSandbox i, xi_EnvelopeDigest = di_EnvelopeDigest i,
      xi_Packet = \<lparr>tp_PlanID = di_PlanID i, tp_TaskID = tk_ID t, tp_Goal = tk_Goal t, tp_Commands = tk_Commands t,
         tp_ValidationCommands = tk_ValidationCommands t, tp_TimeoutSec = 600, tp_Class = tk_Class t, tp_PhaseHint = phaseHintFor t\<rparr>\<rparr>"

text \<open>
  \<open>runTask\<close>: the result, the evidence bundle, the failure classification and the calls. From the
  acquired worktree on, its release is the deferred last call.
\<close>

definition runTask ::
  "(string \<Rightarrow> string) \<Rightarrow> string \<Rightarrow> deliver_input \<Rightarrow> task \<Rightarrow> string \<Rightarrow> nat \<Rightarrow> attempt_answers
     \<Rightarrow> task_result \<times> string \<times> string \<times> task_event list" where
  "runTask sha256hex wid i t executorName budgetAttempt a =
     (let tid = tk_ID t; failed = \<lparr>tr_TaskID = tid, tr_Failed = True\<rparr>; give_up = cancelOr (aa_Cancelled a);
          e1 = [TERecheck (di_PlanID i)] in
      case aa_Recheck a of None \<Rightarrow> (failed, [], give_up ''admission-rejected'', e1)
    | Some _ \<Rightarrow>
      let e2 = e1 @ [TEReserve (reserve_input wid i t executorName budgetAttempt)] in
      case aa_Reserve a of None \<Rightarrow> (failed, [], give_up ''environment'', e2)
    | Some reserved \<Rightarrow>
      if ro_Exhausted reserved then (failed, [], give_up ''budget'', e2)
      else
      let leaseResource = ''worktree:'' @ wid @ '':'' @ tid;
          e3 = e2 @ [TELease leaseResource wid 900] in
      case aa_Lease a of None \<Rightarrow> (failed, [], give_up ''environment'', e3)
    | Some token \<Rightarrow>
      let e4 = e3 @ [TEWorktree wid tid 1 (di_RepoPath i) leaseResource token] in
      case aa_Worktree a of None \<Rightarrow> (failed, [], give_up ''environment'', e4)
    | Some path \<Rightarrow>
      let release = TERelease wid tid;
          e5 = e4 @ [TEExecute (execute_input wid i t executorName path)] in
      case aa_Execute a of None \<Rightarrow> (failed, [], give_up ''environment'', e5 @ [release])
    | Some execOut \<Rightarrow>
      let e6 = e5 @ (if ro_EntryID reserved \<noteq> []
                     then [TERecordCost wid tid (int budgetAttempt) (ro_EntryID reserved) (eo_ExecutorUsed execOut)] else []);
          e7 = e6 @ [TEValidate tid \<lparr>vi_ExecuteFailed = eo_Failed execOut, vi_WorkspacePath = path,
             vi_ValidationCommands = tk_ValidationCommands t, vi_Attempt = int budgetAttempt,
             vi_PreClassification = eo_Classification execOut\<rparr>] in
      case aa_Validate a of None \<Rightarrow> (failed, [], give_up ''environment'', e7 @ [release])
    | Some validated \<Rightarrow>
      let e8 = e7 @ [TEEvidence wid tid 1 path (eo_ArtifactPaths execOut) (eo_Failed execOut) (eo_ExecutorUsed execOut)] in
      case aa_Evidence a of None \<Rightarrow> (failed, [], give_up ''environment'', e8 @ [release])
    | Some bundle \<Rightarrow>
      if \<not> vo_Validated validated then
        (failed, bundle, vo_Reason validated,
         e8 @ [TESignature wid tid (int budgetAttempt) (vo_Reason validated)
                 (FailureDetailDigest sha256hex tid (vo_Reason validated) (tk_ValidationCommands t)), release])
      else (\<lparr>tr_TaskID = tid, tr_Failed = False\<rparr>, bundle, [], e8 @ [release]))"

text \<open>
  \<open>runTaskWithBudget\<close> over the attempts that come to pass: the answers of each, and whether the
  wait after it was ended by the signal (and not by a cancelled context). \<^const>\<open>None\<close> is a
  task that is still waiting.
\<close>

fun runTaskWithBudget ::
  "(string \<Rightarrow> string) \<Rightarrow> string \<Rightarrow> deliver_input \<Rightarrow> task \<Rightarrow> string \<Rightarrow> nat \<Rightarrow> (attempt_answers \<times> bool) list
     \<Rightarrow> (task_result \<times> string \<times> string \<times> task_event list) option" where
  "runTaskWithBudget sha256hex wid i t executorName n [] = None"
| "runTaskWithBudget sha256hex wid i t executorName n ((a, signalled) # rounds) =
     (let (result, evidenceID, cls, evs) = runTask sha256hex wid i t executorName n a in
      if cls \<noteq> ''budget'' then Some (result, evidenceID, cls, evs)
      else if \<not> signalled then Some (result, evidenceID, ''cancelled'', evs @ [TEWait (tk_ID t)])
      else
        (case runTaskWithBudget sha256hex wid i t executorName (n + 1) rounds of
           None \<Rightarrow> None
         | Some (r, e, c, evs') \<Rightarrow> Some (r, e, c, evs @ [TEWait (tk_ID t), TEResume (tk_ID t)] @ evs')))"

section \<open>Waves\<close>

definition sequential :: "task list \<Rightarrow> task list list" where
  "sequential tasks = map (\<lambda>t. [t]) tasks"

text \<open>A map from ids to tasks: a later task overwrites an earlier one of the same id.\<close>

definition taskByID :: "task list \<Rightarrow> string \<Rightarrow> task option" where
  "taskByID tasks tid = map_of (rev (map (\<lambda>t. (tk_ID t, t)) tasks)) tid"

definition pecWaves :: "task list \<Rightarrow> task list list" where
  "pecWaves tasks =
     (if tasks = [] then []
      else
        (let doc = zero_document\<lparr>dc_Tasks := tasks\<rparr> in
         case ProposeWaves doc of
           Inl _ \<Rightarrow> sequential tasks
         | Inr proposal \<Rightarrow>
             (if ValidateWaveProposal proposal doc \<noteq> None then sequential tasks
              else
                (let found = map (List.map_filter (taskByID tasks)) (wp_Waves proposal);
                     covered = sum_list (map length found) in
                 if covered \<noteq> length tasks then sequential tasks else filter (\<lambda>w. w \<noteq> []) found))))"

section \<open>The workflow\<close>

text \<open>
  \<open>appendTransition\<close>: a transition that does not validate is logged and not sent. The error of
  the activity is dropped.
\<close>

definition appendTransition ::
  "(string \<Rightarrow> string) \<Rightarrow> int \<Rightarrow> string \<Rightarrow> status \<Rightarrow> status \<Rightarrow> reason \<Rightarrow> checkpoint \<Rightarrow> int \<Rightarrow> string \<Rightarrow> deliver_event list" where
  "appendTransition sha256hex now wid st0 to reason ck seq envelopeDigest =
     (let t = \<lparr>tr_WorkflowID = wid, tr_Status = to, tr_PhaseFrom = [], tr_PhaseTo = [], tr_Reason = reason, tr_ResultCode = [],
           tr_Actor = [], tr_Profile = [], tr_Evidence = [], tr_CheckpointID = Checkpoint_ID sha256hex ck, tr_Attempt = 0,
           tr_NextAction = [], tr_WakeAt = None, tr_OccurredAt = now, tr_EnvelopeDigest = envelopeDigest\<rparr> in
      case Transition_Validate t st0 to of Some _ \<Rightarrow> [] | None \<Rightarrow> [DTransition seq t])"

text \<open>
  The calls of a wave as they happen: a wait and a resumption of a task are transitions of the
  whole workflow, numbered by the shared counter and carrying the checkpoint from before the
  wave.
\<close>

fun emit ::
  "(string \<Rightarrow> string) \<Rightarrow> int \<Rightarrow> string \<Rightarrow> deliver_input \<Rightarrow> checkpoint \<Rightarrow> task_event list \<Rightarrow> int \<Rightarrow> deliver_event list \<times> int" where
  "emit sha256hex now wid i ck [] seq = ([], seq)"
| "emit sha256hex now wid i ck (ev # evs) seq =
     (let (out, seq1) =
            (case ev of
               TEWait _ \<Rightarrow> (appendTransition sha256hex now wid StatusRunning StatusWaiting ReasonBudget ck (seq + 1) (di_EnvelopeDigest i), seq + 1)
             | TEResume _ \<Rightarrow> (appendTransition sha256hex now wid StatusWaiting StatusRunning [] ck (seq + 1) (di_EnvelopeDigest i), seq + 1)
             | _ \<Rightarrow> ([DTask ev], seq));
          (outs, seq2) = emit sha256hex now wid i ck evs seq1 in
      (out @ outs, seq2))"

record deliver_state =
  ds_Results :: "task_result list"
  ds_Checkpoint :: checkpoint
  ds_Seq :: int
  ds_Trace :: "deliver_event list"

text \<open>The fold over the outcomes of a wave, in the order of the wave.\<close>

fun fold_outcomes ::
  "(task \<times> task_result \<times> string \<times> string \<times> task_event list) list \<Rightarrow> task_result list \<times> checkpoint \<times> string
     \<Rightarrow> task_result list \<times> checkpoint \<times> string" where
  "fold_outcomes [] st = st"
| "fold_outcomes ((t, r, e, c, _) # ocs) (results, ck, cls) =
     (let ck1 = (if e \<noteq> [] then ck\<lparr>ck_EvidenceIDs := ck_EvidenceIDs ck @ [e]\<rparr> else ck) in
      fold_outcomes ocs
        (results @ [r], if c \<noteq> [] then ck1 else ck1\<lparr>ck_LastCompletedTaskID := tk_ID t\<rparr>,
         if c \<noteq> [] \<and> cls = [] then c else cls))"

text \<open>
  What the workflow meets: the answer of \<open>LoadApprovedPlan\<close>, the attempts at each task, the waves
  before which the context is found cancelled, whether it is at the end, the interleaving of each wave, and the clock.
\<close>

record deliver_world =
  dw_Load :: "string + task list"
  dw_Rounds :: "task \<Rightarrow> (attempt_answers \<times> bool) list"
  dw_CancelledAt :: "nat \<Rightarrow> bool"
  dw_CancelledEnd :: bool
  dw_Schedule :: "nat \<Rightarrow> task_event list list \<Rightarrow> task_event list"
  dw_Now :: int

fun waveLoop ::
  "(string \<Rightarrow> string) \<Rightarrow> deliver_world \<Rightarrow> string \<Rightarrow> deliver_input \<Rightarrow> string \<Rightarrow> nat \<Rightarrow> task list list \<Rightarrow> deliver_state
     \<Rightarrow> (deliver_state \<times> string) option" where
  "waveLoop sha256hex w wid i executorName k [] st = Some (st, [])"
| "waveLoop sha256hex w wid i executorName k (wave # waves) st =
     (if dw_CancelledAt w k then Some (st, ''cancelled'')
      else
        (case those (map (\<lambda>t. runTaskWithBudget sha256hex wid i t executorName 1 (dw_Rounds w t)) wave) of
           None \<Rightarrow> None
         | Some outcomes \<Rightarrow>
             (let calls = dw_Schedule w k (map (\<lambda>(_, _, _, evs). evs) outcomes);
                  (evs, seq) = emit sha256hex (dw_Now w) wid i (ds_Checkpoint st) calls (ds_Seq st);
                  (results, ck, cls) = fold_outcomes (zip wave outcomes) (ds_Results st, ds_Checkpoint st, []);
                  st1 = \<lparr>ds_Results = results, ds_Checkpoint = ck, ds_Seq = seq, ds_Trace = ds_Trace st @ evs\<rparr> in
              if cls \<noteq> [] then Some (st1, cls)
              else waveLoop sha256hex w wid i executorName (k + 1) waves st1)))"

abbreviation zero_checkpoint :: checkpoint where
  "zero_checkpoint \<equiv> \<lparr>ck_LastCompletedTaskID = [], ck_EvidenceIDs = []\<rparr>"

text \<open>The result, whether an error is returned beside it, and the calls; \<^const>\<open>None\<close> while a task is waiting.\<close>

definition DeliverPlan ::
  "(string \<Rightarrow> string) \<Rightarrow> deliver_world \<Rightarrow> string \<Rightarrow> deliver_input \<Rightarrow> (deliver_result \<times> bool \<times> deliver_event list) option" where
  "DeliverPlan sha256hex w wid i =
     (let executorName = (if di_ExecutorName i = [] then ''fake'' else di_ExecutorName i);
          append = (\<lambda>st0 to reason ck seq. appendTransition sha256hex (dw_Now w) wid st0 to reason ck seq (di_EnvelopeDigest i));
          start = [DLoad (di_PlanID i) (di_PlanFilePath i)] @ append StatusPending StatusRunning [] zero_checkpoint 1 in
      case dw_Load w of
        Inl _ \<Rightarrow>
          Some (\<lparr>dv_Status = StatusFailed, dv_ResultCode = ResultAdmissionRejected, dv_Tasks = []\<rparr>, True,
                start @ append StatusRunning StatusFailed ''admission-rejected'' zero_checkpoint 2)
      | Inr tasks \<Rightarrow>
          (case waveLoop sha256hex w wid i executorName 0 (pecWaves tasks)
                  \<lparr>ds_Results = [], ds_Checkpoint = zero_checkpoint, ds_Seq = 1, ds_Trace = start\<rparr> of
             None \<Rightarrow> None
           | Some (st, cls) \<Rightarrow>
               (let finish = (\<lambda>to reason. ds_Trace st @ append StatusRunning to reason (ds_Checkpoint st) (ds_Seq st + 1)) in
                if cls = [] then
                  Some (\<lparr>dv_Status = StatusSucceeded, dv_ResultCode = [], dv_Tasks = ds_Results st\<rparr>, False, finish StatusSucceeded [])
                else if cls = ''cancelled'' then
                  Some (\<lparr>dv_Status = StatusCancelled, dv_ResultCode = [], dv_Tasks = ds_Results st\<rparr>, dw_CancelledEnd w, finish StatusCancelled [])
                else if cls = ''admission-rejected'' then
                  Some (\<lparr>dv_Status = StatusFailed, dv_ResultCode = ResultAdmissionRejected, dv_Tasks = ds_Results st\<rparr>, False, finish StatusFailed cls)
                else
                  Some (\<lparr>dv_Status = StatusFailed, dv_ResultCode = cls, dv_Tasks = ds_Results st\<rparr>, False, finish StatusFailed cls))))"

section \<open>Lanes\<close>

section \<open>One task is run in order\<close>

lemma ValidateTask_reason: "ValidateTask run i = Inr v \<Longrightarrow> vo_Validated v \<longleftrightarrow> vo_Reason v = []"
  using evaluate_records_ok by (fastforce simp: ValidateTask_def Evaluate_def split: if_splits sum.splits prod.splits bool.splits)

text \<open>The answers of an attempt that carried its task to success.\<close>

definition passed :: "attempt_answers \<Rightarrow> bool" where
  "passed a \<longleftrightarrow> aa_Recheck a \<noteq> None \<and> (\<exists>r. aa_Reserve a = Some r \<and> \<not> ro_Exhausted r) \<and> aa_Lease a \<noteq> None \<and> aa_Worktree a \<noteq> None
     \<and> aa_Execute a \<noteq> None \<and> (\<exists>v. aa_Validate a = Some v \<and> vo_Validated v) \<and> aa_Evidence a \<noteq> None"

definition release_event :: "task_event \<Rightarrow> bool" where
  "release_event ev = (case ev of TERelease _ _ \<Rightarrow> True | _ \<Rightarrow> False)"

lemmas run_splits = option.splits if_splits


definition passing_answers :: attempt_answers where
  "passing_answers = \<lparr>aa_Recheck = Some True, aa_Reserve = Some zero_reserve_out, aa_Lease = Some ''tok'', aa_Worktree = Some ''/ws'',
     aa_Execute = Some (zero_out\<lparr>eo_ExecutorUsed := ''fake''\<rparr>),
     aa_Validate = Some \<lparr>vo_Validated = True, vo_Reason = []\<rparr>, aa_Evidence = Some ''b1'', aa_Cancelled = False\<rparr>"

definition plain_task :: "string \<Rightarrow> string list \<Rightarrow> task" where
  "plain_task tid ds = \<lparr>tk_ID = tid, tk_Goal = [], tk_DependsOn = ds, tk_Commands = [], tk_ValidationCommands = [''true''], tk_Files = [],
     tk_ValidationOptOut = False, tk_ValidationOptOutReason = [], tk_Executor = [], tk_Class = []\<rparr>"

definition plain_input :: deliver_input where
  "plain_input = \<lparr>di_PlanID = ''p'', di_PlanFilePath = ''p.md'', di_RepoPath = ''/r'', di_ExecutorName = [], di_ExecutorAllowlist = [''fake''],
     di_MaxWaveConcurrency = 0, di_EnvelopeID = [], di_EnvelopeDigest = [], di_MissionID = [], di_Unattended = False, di_RequireSandbox = False,
     di_BudgetScope = [], di_BudgetScopeID = []\<rparr>"


text \<open>
  The answer \<open>Refused\<close> of \<open>ReserveBudget\<close> is not looked at: an unattended task whose envelope is
  missing, and which must not run, is executed all the same.
\<close>

theorem runTask_ignores_refusal:
  assumes "aa_Recheck a = Some ok" and "aa_Reserve a = Some reserved" and "ro_Refused reserved" and "\<not> ro_Exhausted reserved"
    and "aa_Lease a = Some token" and "aa_Worktree a = Some path"
  shows "TEExecute (execute_input wid i t executorName path) \<in> set (snd (snd (snd (runTask sha256hex wid i t executorName n a))))"
  using assms by (auto simp: runTask_def Let_def split: run_splits)

section \<open>A plan succeeds only honestly\<close>

text \<open>What \<open>ValidateTask\<close> promises of the answers: a failed validation has a reason.\<close>

definition reasoned :: "attempt_answers \<Rightarrow> bool" where
  "reasoned a \<longleftrightarrow> (\<forall>v. aa_Validate a = Some v \<and> \<not> vo_Validated v \<longrightarrow> vo_Reason v \<noteq> [])"

abbreviation all_reasoned :: "(attempt_answers \<times> bool) list \<Rightarrow> bool" where
  "all_reasoned rounds \<equiv> list_all (\<lambda>(a, _). reasoned a) rounds"

lemma runTask_outcome:
  assumes "runTask sha256hex wid i t executorName n a = (r, e, c, evs)" and "reasoned a"
  shows "tr_TaskID r = tk_ID t \<and> (c = [] \<longleftrightarrow> passed a) \<and> (tr_Failed r \<longleftrightarrow> \<not> passed a)
    \<and> (passed a \<longrightarrow> TERelease wid (tk_ID t) \<in> set evs)"
  using assms unfolding runTask_def Let_def passed_def reasoned_def cancelOr_def
  by (auto split: run_splits)

lemma runTaskWithBudget_outcome:
  "runTaskWithBudget sha256hex wid i t executorName n rounds = Some (r, e, c, evs) \<Longrightarrow> all_reasoned rounds \<Longrightarrow>
     tr_TaskID r = tk_ID t \<and> (tr_Failed r \<longleftrightarrow> c \<noteq> []) \<and>
     (c = [] \<longrightarrow> list_ex (\<lambda>(a, _). passed a) rounds \<and> TERelease wid (tk_ID t) \<in> set evs)"
proof (induction rounds arbitrary: n r e c evs)
  case (Cons round rounds)
  obtain a signalled where round: "round = (a, signalled)" by fastforce
  obtain r1 e1 c1 evs1 where run: "runTask sha256hex wid i t executorName n a = (r1, e1, c1, evs1)" by (metis prod_cases4)
  have o: "tr_TaskID r1 = tk_ID t \<and> (c1 = [] \<longleftrightarrow> passed a) \<and> (tr_Failed r1 \<longleftrightarrow> \<not> passed a)
      \<and> (passed a \<longrightarrow> TERelease wid (tk_ID t) \<in> set evs1)"
    using runTask_outcome [OF run] Cons.prems(2) round by simp
  show ?case
  proof (cases "c1 = ''budget'' \<and> signalled")
    case True
    then obtain r2 e2 c2 evs2 where rest: "runTaskWithBudget sha256hex wid i t executorName (n + 1) rounds = Some (r2, e2, c2, evs2)"
      using Cons.prems(1) run round by (auto split: option.splits)
    then have "r = r2" "c = c2" "evs = evs1 @ [TEWait (tk_ID t), TEResume (tk_ID t)] @ evs2"
      using Cons.prems(1) run round True by auto
    then show ?thesis using Cons.IH [OF rest] Cons.prems(2) round by auto
  next
    case False
    then show ?thesis using Cons.prems(1) run round o by (auto split: if_splits)
  qed
qed simp

lemma fold_outcomes_spec:
  "fold_outcomes ocs (results, ck, cls) = (results', ck', cls') \<Longrightarrow>
     results' = results @ map (\<lambda>(t, r, e, c, evs). r) ocs \<and> (cls' = [] \<longleftrightarrow> cls = [] \<and> list_all (\<lambda>(t, r, e, c, evs). c = []) ocs)"
proof (induction ocs arbitrary: results ck cls)
  case (Cons oc ocs)
  obtain t r e c evs where oc: "oc = (t, r, e, c, evs)" by (metis prod_cases5)
  obtain ck1 where "fold_outcomes ocs (results @ [r], ck1, if c \<noteq> [] \<and> cls = [] then c else cls) = (results', ck', cls')"
    using Cons.prems oc by (auto simp: Let_def)
  from Cons.IH [OF this] show ?case using oc by (auto split: if_splits)
qed simp

lemma those_Some_iff: "those xs = Some ys \<longleftrightarrow> xs = map Some ys"
  by (induction xs arbitrary: ys) (auto split: option.splits simp: Cons_eq_map_conv)

text \<open>The tasks of a wave that went on were all carried to success.\<close>

lemma wave_passed:
  assumes "those (map (\<lambda>t. runTaskWithBudget sha256hex wid i t executorName 1 (dw_Rounds w t)) wave) = Some outcomes"
    and "list_all (\<lambda>t. all_reasoned (dw_Rounds w t)) wave"
  shows "length outcomes = length wave
    \<and> list_all2 (\<lambda>t (r, e, c, evs). tr_TaskID r = tk_ID t \<and> (tr_Failed r \<longleftrightarrow> c \<noteq> []) \<and>
        (c = [] \<longrightarrow> list_ex (\<lambda>(a, _). passed a) (dw_Rounds w t) \<and> TERelease wid (tk_ID t) \<in> set evs)) wave outcomes"
proof -
  have m: "map (\<lambda>t. runTaskWithBudget sha256hex wid i t executorName 1 (dw_Rounds w t)) wave = map Some outcomes"
    using assms(1) by (simp add: those_Some_iff)
  then have len: "length outcomes = length wave" by (metis length_map)
  have "runTaskWithBudget sha256hex wid i (wave ! k) executorName 1 (dw_Rounds w (wave ! k)) = Some (outcomes ! k)" if "k < length wave" for k
    using arg_cong [OF m, of "\<lambda>xs. xs ! k"] that len by simp
  then have "list_all2 (\<lambda>t oc. runTaskWithBudget sha256hex wid i t executorName 1 (dw_Rounds w t) = Some oc \<and> all_reasoned (dw_Rounds w t)) wave outcomes"
    using len assms(2) by (simp add: list_all2_conv_all_nth list_all_length)
  then show ?thesis using len runTaskWithBudget_outcome by (auto elim!: list_all2_mono)
qed

lemma wave_all_passed:
  assumes "list_all2 (\<lambda>t (r, e, c, evs). tr_TaskID r = tk_ID t \<and> (tr_Failed r \<longleftrightarrow> c \<noteq> []) \<and>
        (c = [] \<longrightarrow> list_ex (\<lambda>(a, _). passed a) (dw_Rounds w t) \<and> TERelease wid (tk_ID t) \<in> set evs)) wave outcomes"
    and "list_all (\<lambda>(r, e, c, evs). c = []) outcomes"
  shows "list_all (\<lambda>r. \<not> tr_Failed r) (map (\<lambda>(r, e, c, evs). r) outcomes)
    \<and> list_all (\<lambda>t. list_ex (\<lambda>(a, _). passed a) (dw_Rounds w t)) wave
    \<and> list_all (\<lambda>t. TERelease wid (tk_ID t) \<in> set (concat (map (\<lambda>(r, e, c, evs). evs) outcomes))) wave"
  using assms
proof (induction rule: list_all2_induct)
  case (Cons t wave oc outcomes)
  obtain r e c evs where "oc = (r, e, c, evs)" by (metis prod_cases4)
  then show ?case using Cons by (auto simp: list_all_iff)
qed simp

text \<open>One turn of the loop over the waves: the outcomes, the calls and what the fold makes of them.\<close>

definition wave_turn ::
  "(string \<Rightarrow> string) \<Rightarrow> deliver_world \<Rightarrow> string \<Rightarrow> deliver_input \<Rightarrow> string \<Rightarrow> nat \<Rightarrow> task list \<Rightarrow> deliver_state
     \<Rightarrow> (task_result \<times> string \<times> string \<times> task_event list) list \<Rightarrow> deliver_state \<Rightarrow> string \<Rightarrow> bool" where
  "wave_turn sha256hex w wid i executorName k wave st outcomes st1 cls \<longleftrightarrow>
     those (map (\<lambda>t. runTaskWithBudget sha256hex wid i t executorName 1 (dw_Rounds w t)) wave) = Some outcomes
     \<and> (\<exists>evs. emit sha256hex (dw_Now w) wid i (ds_Checkpoint st) (dw_Schedule w k (map (\<lambda>(_, _, _, evs). evs) outcomes)) (ds_Seq st)
            = (evs, ds_Seq st1) \<and> ds_Trace st1 = ds_Trace st @ evs)
     \<and> ds_Results st1 = ds_Results st @ map (\<lambda>(r, e, c, evs). r) outcomes
     \<and> map tr_TaskID (map (\<lambda>(r, e, c, evs). r) outcomes) = map tk_ID wave
     \<and> (cls = [] \<longleftrightarrow> list_all (\<lambda>(r, e, c, evs). c = []) outcomes)"

lemma waveLoop_step:
  assumes "waveLoop sha256hex w wid i executorName k (wave # waves) st = Some (st', cls)" and "\<not> dw_CancelledAt w k"
    and "list_all (\<lambda>t. all_reasoned (dw_Rounds w t)) wave"
  shows "\<exists>outcomes st1 cls1. wave_turn sha256hex w wid i executorName k wave st outcomes st1 cls1
    \<and> (if cls1 \<noteq> [] then cls = cls1 \<and> st' = st1 else waveLoop sha256hex w wid i executorName (k + 1) waves st1 = Some (st', cls))"
proof -
  obtain outcomes where oc: "those (map (\<lambda>t. runTaskWithBudget sha256hex wid i t executorName 1 (dw_Rounds w t)) wave) = Some outcomes"
    using assms(1,2) by (auto split: option.splits)
  obtain evs seq where em: "emit sha256hex (dw_Now w) wid i (ds_Checkpoint st) (dw_Schedule w k (map (\<lambda>(_, _, _, evs). evs) outcomes)) (ds_Seq st)
      = (evs, seq)" by fastforce
  obtain results ck cls1 where fo: "fold_outcomes (zip wave outcomes) (ds_Results st, ds_Checkpoint st, []) = (results, ck, cls1)"
    by (metis prod_cases3)
  have len: "length outcomes = length wave" using wave_passed [OF oc assms(3)] by simp
  have ids: "map tr_TaskID (map (\<lambda>(r, e, c, evs). r) outcomes) = map tk_ID wave"
    using wave_passed [OF oc assms(3)] len by (auto intro!: nth_equalityI simp: list_all2_conv_all_nth split: prod.splits)
  have sp: "results = ds_Results st @ map (\<lambda>(r, e, c, evs). r) outcomes" "cls1 = [] \<longleftrightarrow> list_all (\<lambda>(r, e, c, evs). c = []) outcomes"
  proof -
    have m: "map (\<lambda>(t, r, e, c, evs). r) (zip wave outcomes) = map (\<lambda>(r, e, c, evs). r) outcomes"
      using len by (auto intro!: nth_equalityI split: prod.splits)
    show "results = ds_Results st @ map (\<lambda>(r, e, c, evs). r) outcomes" using fold_outcomes_spec [OF fo] m by simp
    have "list_all (\<lambda>(t, r, e, c, evs). c = []) (zip wave outcomes) \<longleftrightarrow> list_all (\<lambda>(r, e, c, evs). c = []) outcomes"
      using len by (auto simp: list_all_length split: prod.splits)
    then show "cls1 = [] \<longleftrightarrow> list_all (\<lambda>(r, e, c, evs). c = []) outcomes" using fold_outcomes_spec [OF fo] by simp
  qed
  let ?st1 = "\<lparr>ds_Results = results, ds_Checkpoint = ck, ds_Seq = seq, ds_Trace = ds_Trace st @ evs\<rparr>"
  have "wave_turn sha256hex w wid i executorName k wave st outcomes ?st1 cls1"
    using oc em sp ids by (simp add: wave_turn_def)
  moreover have "if cls1 \<noteq> [] then cls = cls1 \<and> st' = ?st1 else waveLoop sha256hex w wid i executorName (k + 1) waves ?st1 = Some (st', cls)"
    using assms(1,2) oc em fo by (auto simp: Let_def)
  ultimately show ?thesis by blast
qed

lemma waveLoop_success:
  "waveLoop sha256hex w wid i executorName k waves st = Some (st', []) \<Longrightarrow>
     list_all (\<lambda>t. all_reasoned (dw_Rounds w t)) (concat waves) \<Longrightarrow>
     \<exists>rs. ds_Results st' = ds_Results st @ rs \<and> map tr_TaskID rs = map tk_ID (concat waves)
       \<and> list_all (\<lambda>r. \<not> tr_Failed r) rs \<and> list_all (\<lambda>t. list_ex (\<lambda>(a, _). passed a) (dw_Rounds w t)) (concat waves)"
proof (induction waves arbitrary: k st)
  case (Cons wave waves)
  have nc: "\<not> dw_CancelledAt w k" using Cons.prems(1) by auto
  have rw: "list_all (\<lambda>t. all_reasoned (dw_Rounds w t)) wave" using Cons.prems(2) by simp
  obtain outcomes st1 cls1 where s: "wave_turn sha256hex w wid i executorName k wave st outcomes st1 cls1"
      "if cls1 \<noteq> [] then [] = cls1 \<and> st' = st1 else waveLoop sha256hex w wid i executorName (k + 1) waves st1 = Some (st', [])"
    using waveLoop_step [OF Cons.prems(1) nc rw] by blast
  have rest: "waveLoop sha256hex w wid i executorName (k + 1) waves st1 = Some (st', [])" and "cls1 = []"
    using s(2) by (auto split: if_splits)
  then have c: "list_all (\<lambda>(r, e, c, evs). c = []) outcomes" and
    those: "those (map (\<lambda>t. runTaskWithBudget sha256hex wid i t executorName 1 (dw_Rounds w t)) wave) = Some outcomes" and
    res: "ds_Results st1 = ds_Results st @ map (\<lambda>(r, e, c, evs). r) outcomes"
      "map tr_TaskID (map (\<lambda>(r, e, c, evs). r) outcomes) = map tk_ID wave"
    using s(1) by (auto simp: wave_turn_def)
  obtain rs where rs: "ds_Results st' = ds_Results st1 @ rs" "map tr_TaskID rs = map tk_ID (concat waves)"
      "list_all (\<lambda>r. \<not> tr_Failed r) rs" "list_all (\<lambda>t. list_ex (\<lambda>(a, _). passed a) (dw_Rounds w t)) (concat waves)"
    using Cons.IH [OF rest] Cons.prems(2) by auto
  have p: "list_all2 (\<lambda>t (r, e, c, evs). tr_TaskID r = tk_ID t \<and> (tr_Failed r \<longleftrightarrow> c \<noteq> []) \<and>
        (c = [] \<longrightarrow> list_ex (\<lambda>(a, _). passed a) (dw_Rounds w t) \<and> TERelease wid (tk_ID t) \<in> set evs)) wave outcomes"
    using wave_passed [OF those rw] by simp
  have ok: "list_all (\<lambda>r. \<not> tr_Failed r) (map (\<lambda>(r, e, c, evs). r) outcomes)"
      "list_all (\<lambda>t. list_ex (\<lambda>(a, _). passed a) (dw_Rounds w t)) wave"
    using wave_all_passed [OF p c] by simp_all
  show ?case
    using rs ok res by (intro exI [of _ "map (\<lambda>(r, e, c, evs). r) outcomes @ rs"]) simp
qed simp

section \<open>The waves cover the plan\<close>

lemma sequential_mset: "mset (concat (sequential tasks)) = mset tasks"
  by (induction tasks) (simp_all add: sequential_def)

lemma taskByID_ids: "taskByID tasks tid = Some t \<Longrightarrow> t \<in> set tasks \<and> tk_ID t = tid"
  by (auto simp: taskByID_def dest!: map_of_SomeD)

lemma taskByID_known: "tid \<in> tk_ID ` set tasks \<Longrightarrow> \<exists>t. taskByID tasks tid = Some t"
  by (cases "taskByID tasks tid") (auto simp: taskByID_def map_of_eq_None_iff image_iff)

lemma map_filter_taskByID:
  "set ids \<subseteq> tk_ID ` set tasks \<Longrightarrow> map tk_ID (List.map_filter (taskByID tasks) ids) = ids
     \<and> set (List.map_filter (taskByID tasks) ids) \<subseteq> set tasks"
proof (induction ids)
  case (Cons tid ids)
  obtain t where "taskByID tasks tid = Some t" using Cons.prems taskByID_known [of tid tasks] by auto
  then show ?case using Cons taskByID_ids by (auto simp: map_filter_simps)
qed (simp add: map_filter_simps)

text \<open>
  Either the waves are one task each, in the order of the plan, or they are the layering of
  the dependency graph; in both cases they hold every task once.
\<close>

lemma pecWaves_cases:
  "mset (concat (pecWaves tasks)) = mset tasks
   \<and> (pecWaves tasks = sequential tasks
      \<or> distinct (map tk_ID tasks) \<and> is_layering (tk_ID ` set tasks) (doc_deps (zero_document\<lparr>dc_Tasks := tasks\<rparr>)) (map (map tk_ID) (pecWaves tasks)))"
proof (cases "tasks = []")
  case True
  then show ?thesis by (simp add: pecWaves_def sequential_def)
next
  case ne: False
  let ?doc = "zero_document\<lparr>dc_Tasks := tasks\<rparr>"
  show ?thesis
  proof (cases "\<exists>p. ProposeWaves ?doc = Inr p \<and> ValidateWaveProposal p ?doc = None
      \<and> sum_list (map length (map (List.map_filter (taskByID tasks)) (wp_Waves p))) = length tasks")
    case False
    then have "pecWaves tasks = sequential tasks"
      using ne by (auto simp: pecWaves_def Let_def split: sum.splits)
    then show ?thesis by (simp add: sequential_mset)
  next
    case True
    then obtain p where p: "ProposeWaves ?doc = Inr p" "ValidateWaveProposal p ?doc = None"
        "sum_list (map length (map (List.map_filter (taskByID tasks)) (wp_Waves p))) = length tasks" by blast
    define found where "found = map (List.map_filter (taskByID tasks)) (wp_Waves p)"
    have lay: "is_layering (tk_ID ` set tasks) (doc_deps ?doc) (wp_Waves p)" using ProposeWaves_cases [of ?doc] p(1) by simp
    have w: "set (concat (wp_Waves p)) = tk_ID ` set tasks" "distinct (concat (wp_Waves p))" "\<forall>v \<in> set (wp_Waves p). v \<noteq> []"
      using lay by (auto simp: is_layering_def)
    have sub: "set v \<subseteq> tk_ID ` set tasks" if "v \<in> set (wp_Waves p)" for v using that w(1) by auto
    have ids: "map (map tk_ID) found = wp_Waves p" "set (concat found) \<subseteq> set tasks"
      using map_filter_taskByID [OF sub] by (auto simp: found_def intro!: map_idI)
    have nonempty: "filter (\<lambda>v. v \<noteq> []) found = found"
      using w(3) unfolding ids(1) [symmetric] by (auto simp: filter_id_conv)
    have pw: "pecWaves tasks = found" using ne p nonempty by (simp add: pecWaves_def Let_def found_def)
    have cc: "map tk_ID (concat found) = concat (wp_Waves p)" using ids(1) by (metis map_concat)
    have len: "length (concat found) = length tasks" using p(3) by (simp add: found_def length_concat)
    have df: "distinct (concat found)" using w(2) cc by (metis distinct_map)
    have "card (set tasks) \<ge> card (set (concat found))" using ids(2) by (simp add: card_mono)
    then have "card (set tasks) = length tasks" using df len by (metis card_length distinct_card le_antisym)
    then have dt: "distinct tasks" by (rule card_distinct)
    have "set (concat found) = set tasks" using ids(2) df dt len by (metis card_subset_eq distinct_card finite_set)
    then have m: "mset (concat found) = mset tasks" using df dt by (metis set_eq_iff_mset_eq_distinct)
    have "mset (map tk_ID tasks) = mset (concat (wp_Waves p))" using m cc by (metis mset_map)
    then have "distinct (map tk_ID tasks)" using w(2) mset_eq_imp_distinct_iff by blast
    then show ?thesis using m pw lay ids(1) by simp
  qed
qed

section \<open>What the workflow guarantees\<close>

definition start_trace :: "(string \<Rightarrow> string) \<Rightarrow> deliver_world \<Rightarrow> string \<Rightarrow> deliver_input \<Rightarrow> deliver_event list" where
  "start_trace sha256hex w wid i = DLoad (di_PlanID i) (di_PlanFilePath i)
     # appendTransition sha256hex (dw_Now w) wid StatusPending StatusRunning [] zero_checkpoint 1 (di_EnvelopeDigest i)"

definition run_waves :: "(string \<Rightarrow> string) \<Rightarrow> deliver_world \<Rightarrow> string \<Rightarrow> deliver_input \<Rightarrow> task list \<Rightarrow> (deliver_state \<times> string) option" where
  "run_waves sha256hex w wid i tasks =
     waveLoop sha256hex w wid i (if di_ExecutorName i = [] then ''fake'' else di_ExecutorName i) 0 (pecWaves tasks)
       \<lparr>ds_Results = [], ds_Checkpoint = zero_checkpoint, ds_Seq = 1, ds_Trace = start_trace sha256hex w wid i\<rparr>"

definition final_status :: "string \<Rightarrow> status" where
  "final_status cls = (if cls = [] then StatusSucceeded else if cls = ''cancelled'' then StatusCancelled else StatusFailed)"

definition final_code :: "string \<Rightarrow> result_code" where
  "final_code cls = (if cls = [] \<or> cls = ''cancelled'' then [] else if cls = ''admission-rejected'' then ResultAdmissionRejected else cls)"

definition final_reason :: "string \<Rightarrow> reason" where
  "final_reason cls = (if cls = ''cancelled'' then [] else cls)"

lemma DeliverPlan_loaded:
  "dw_Load w = Inr tasks \<Longrightarrow> DeliverPlan sha256hex w wid i =
     map_option (\<lambda>(st, cls). (\<lparr>dv_Status = final_status cls, dv_ResultCode = final_code cls, dv_Tasks = ds_Results st\<rparr>, cls = ''cancelled'' \<and> dw_CancelledEnd w,
        ds_Trace st @ appendTransition sha256hex (dw_Now w) wid StatusRunning (final_status cls) (final_reason cls)
          (ds_Checkpoint st) (ds_Seq st + 1) (di_EnvelopeDigest i))) (run_waves sha256hex w wid i tasks)"
  unfolding DeliverPlan_def run_waves_def start_trace_def Let_def final_status_def final_code_def final_reason_def
  by (auto split: option.splits)

lemma DeliverPlan_rejected:
  "dw_Load w = Inl e \<Longrightarrow> DeliverPlan sha256hex w wid i =
     Some (\<lparr>dv_Status = StatusFailed, dv_ResultCode = ResultAdmissionRejected, dv_Tasks = []\<rparr>, True,
       start_trace sha256hex w wid i @ appendTransition sha256hex (dw_Now w) wid StatusRunning StatusFailed ''admission-rejected''
         zero_checkpoint 2 (di_EnvelopeDigest i))"
  by (simp add: DeliverPlan_def start_trace_def Let_def)


text \<open>Attempts that end in success, the ones before it stopped by an exhausted budget that was raised.\<close>

definition eventually_passes :: "(attempt_answers \<times> bool) list \<Rightarrow> bool" where
  "eventually_passes rounds \<longleftrightarrow> (\<exists>bs a s rest. rounds = bs @ (a, s) # rest \<and> passed a
     \<and> list_all (\<lambda>(b, signalled). signalled \<and> aa_Recheck b \<noteq> None \<and> (\<exists>r. aa_Reserve b = Some r \<and> ro_Exhausted r) \<and> \<not> aa_Cancelled b) bs)"

lemma runTask_passed:
  assumes "passed a" and "reasoned a"
  shows "\<exists>r e evs. runTask sha256hex wid i t executorName n a = (r, e, [], evs)"
proof -
  obtain r e c evs where run: "runTask sha256hex wid i t executorName n a = (r, e, c, evs)" by (metis prod_cases4)
  then show ?thesis using runTask_outcome [OF run assms(2)] assms(1) by simp
qed

lemma runTask_exhausted:
  assumes "aa_Recheck b \<noteq> None" and "aa_Reserve b = Some r" and "ro_Exhausted r" and "\<not> aa_Cancelled b"
  shows "\<exists>res evs. runTask sha256hex wid i t executorName n b = (res, [], ''budget'', evs)"
  using assms by (auto simp: runTask_def Let_def cancelOr_def)

lemma runTaskWithBudget_passes:
  assumes "passed a" and "reasoned a"
    and "list_all (\<lambda>(b, signalled). signalled \<and> aa_Recheck b \<noteq> None \<and> (\<exists>r. aa_Reserve b = Some r \<and> ro_Exhausted r) \<and> \<not> aa_Cancelled b) bs"
  shows "\<exists>r e evs. runTaskWithBudget sha256hex wid i t executorName n (bs @ (a, s) # rest) = Some (r, e, [], evs)"
  using assms(3)
proof (induction bs arbitrary: n)
  case Nil
  obtain r e evs where "runTask sha256hex wid i t executorName n a = (r, e, [], evs)" using runTask_passed [OF assms(1,2)] by metis
  then show ?case by simp
next
  case (Cons b bs)
  obtain b' signalled where b: "b = (b', signalled)" by fastforce
  then have p: "signalled" "aa_Recheck b' \<noteq> None" "\<not> aa_Cancelled b'" "\<exists>r. aa_Reserve b' = Some r \<and> ro_Exhausted r"
    using Cons.prems by simp_all
  then obtain res evs where "runTask sha256hex wid i t executorName n b' = (res, [], ''budget'', evs)"
    using runTask_exhausted by blast
  moreover obtain r e evs' where "runTaskWithBudget sha256hex wid i t executorName (n + 1) (bs @ (a, s) # rest) = Some (r, e, [], evs')"
    using Cons.IH Cons.prems by fastforce
  ultimately show ?case using p(1) b by simp
qed

lemma waveLoop_completes:
  "list_all (\<lambda>t. eventually_passes (dw_Rounds w t) \<and> all_reasoned (dw_Rounds w t)) (concat waves) \<Longrightarrow> (\<And>k. \<not> dw_CancelledAt w k) \<Longrightarrow>
     \<exists>st'. waveLoop sha256hex w wid i executorName k waves st = Some (st', [])"
proof (induction waves arbitrary: k st)
  case (Cons wave waves)
  let ?run = "\<lambda>t. runTaskWithBudget sha256hex wid i t executorName 1 (dw_Rounds w t)"
  have "\<exists>oc. ?run t = Some oc \<and> fst (snd (snd oc)) = []" if t: "t \<in> set wave" for t
  proof -
    have "eventually_passes (dw_Rounds w t)" "all_reasoned (dw_Rounds w t)" using Cons.prems(1) t by (auto simp: list_all_iff)
    then obtain bs a s rest where r: "dw_Rounds w t = bs @ (a, s) # rest" "passed a" "reasoned a"
        "list_all (\<lambda>(b, signalled). signalled \<and> aa_Recheck b \<noteq> None \<and> (\<exists>r. aa_Reserve b = Some r \<and> ro_Exhausted r) \<and> \<not> aa_Cancelled b) bs"
      unfolding eventually_passes_def by auto
    then show ?thesis using runTaskWithBudget_passes [OF r(2-4)] unfolding r(1) by fastforce
  qed
  then obtain f where f: "\<And>t. t \<in> set wave \<Longrightarrow> ?run t = Some (f t) \<and> fst (snd (snd (f t))) = []" by metis
  have oc: "those (map ?run wave) = Some (map f wave)" using f by (simp add: those_Some_iff)
  have c: "list_all (\<lambda>(r, e, c, evs). c = []) (map f wave)" using f by (fastforce simp: list_all_iff split: prod.splits)
  obtain evs seq where em: "emit sha256hex (dw_Now w) wid i (ds_Checkpoint st) (dw_Schedule w k (map (\<lambda>(_, _, _, evs). evs) (map f wave))) (ds_Seq st)
      = (evs, seq)" by fastforce
  obtain results ck cls1 where fo: "fold_outcomes (zip wave (map f wave)) (ds_Results st, ds_Checkpoint st, []) = (results, ck, cls1)"
    by (metis prod_cases3)
  have "list_all (\<lambda>(t, r, e, c, evs). c = []) (zip wave (map f wave))"
    using c unfolding zip_map2 by (auto simp: list_all_iff dest!: set_zip_rightD split: prod.splits)
  then have "cls1 = []" using fold_outcomes_spec [OF fo] by simp
  moreover obtain st' where "waveLoop sha256hex w wid i executorName (k + 1) waves
      \<lparr>ds_Results = results, ds_Checkpoint = ck, ds_Seq = seq, ds_Trace = ds_Trace st @ evs\<rparr> = Some (st', [])"
    using Cons.IH Cons.prems by fastforce
  ultimately show ?case using oc em fo Cons.prems(2) by (simp add: Let_def)
qed simp

lemma DeliverPlan_returns:
  assumes "dw_Load w = Inr tasks" and "\<And>k. \<not> dw_CancelledAt w k"
    and "\<And>t. t \<in> set tasks \<Longrightarrow> eventually_passes (dw_Rounds w t) \<and> list_all (\<lambda>(a, _). reasoned a) (dw_Rounds w t)"
  shows "\<exists>res tr. DeliverPlan sha256hex w wid i = Some (res, False, tr) \<and> dv_Status res = StatusSucceeded"
proof -
  have "mset (concat (pecWaves tasks)) = mset tasks" using pecWaves_cases by blast
  then have "set (concat (pecWaves tasks)) = set tasks" by (rule mset_eq_setD)
  then have "list_all (\<lambda>t. eventually_passes (dw_Rounds w t) \<and> all_reasoned (dw_Rounds w t)) (concat (pecWaves tasks))"
    using assms(3) unfolding list_all_iff by metis
  from waveLoop_completes [OF this assms(2)] obtain st where "run_waves sha256hex w wid i tasks = Some (st, [])"
    unfolding run_waves_def by blast
  then show ?thesis by (simp add: DeliverPlan_loaded [OF assms(1)] final_status_def)
qed

text \<open>
  C4: A plan whose tasks come through is delivered: when the plan loads, the workflow is not
  cancelled, and every task passes at an attempt before which only exhausted budgets that
  were raised stopped it, the workflow returns, with \<open>SUCCEEDED\<close>.
\<close>

theorem DeliverPlan_completes:
  assumes "dw_Load w = Inr tasks" and "\<And>k. \<not> dw_CancelledAt w k"
    and "\<And>t. t \<in> set tasks \<Longrightarrow> eventually_passes (dw_Rounds w t) \<and> list_all (\<lambda>(a, _). reasoned a) (dw_Rounds w t)"
  shows "\<exists>res tr. DeliverPlan sha256hex w wid i = Some (res, False, tr) \<and> dv_Status res = StatusSucceeded"
  by (rule DeliverPlan_returns [OF assms])

definition plain_world :: "task list \<Rightarrow> (attempt_answers \<times> bool) list \<Rightarrow> (task_event list list \<Rightarrow> task_event list) \<Rightarrow> deliver_world" where
  "plain_world tasks rounds schedule = \<lparr>dw_Load = Inr tasks, dw_Rounds = (\<lambda>_. rounds), dw_CancelledAt = (\<lambda>_. False),
     dw_CancelledEnd = False, dw_Schedule = (\<lambda>_. schedule), dw_Now = 0\<rparr>"

definition exhausted_answers :: attempt_answers where
  "exhausted_answers = passing_answers\<lparr>aa_Reserve := Some (zero_reserve_out\<lparr>ro_Exhausted := True\<rparr>)\<rparr>"

definition sample_tasks :: "task list" where
  "sample_tasks = [plain_task ''t1'' [], plain_task ''t2'' [''t1'']]"

lemma passing_answers_ok: "passed passing_answers" "reasoned passing_answers"
  by (simp_all add: passing_answers_def passed_def reasoned_def zero_reserve_out_def)

lemma passing_passes: "eventually_passes [(passing_answers, True)]"
  unfolding eventually_passes_def by (rule exI [of _ "[]"]) (auto simp: passing_answers_ok)

lemma exhausted_passes: "eventually_passes [(exhausted_answers, True), (passing_answers, True)]"
  unfolding eventually_passes_def
proof (intro exI conjI)
  show "[(exhausted_answers, True), (passing_answers, True)] = [(exhausted_answers, True)] @ (passing_answers, True) # []" by simp
qed (simp_all add: passing_answers_ok exhausted_answers_def zero_reserve_out_def ex_bool_eq, simp_all add: passing_answers_def)

lemma exhausted_reasoned: "reasoned exhausted_answers"
  by (simp add: reasoned_def exhausted_answers_def passing_answers_def)

theorem DeliverPlan_completes_witness:
  "\<exists>res tr. DeliverPlan (\<lambda>s. s) (plain_world sample_tasks [(exhausted_answers, True), (passing_answers, True)] concat) ''w'' plain_input
     = Some (res, False, tr) \<and> dv_Status res = StatusSucceeded"
  by (rule DeliverPlan_completes [of _ sample_tasks])
    (simp_all add: plain_world_def exhausted_passes passing_answers_ok exhausted_reasoned)


section \<open>The order of the tasks\<close>

text \<open>A schedule interleaves the calls of the tasks of a wave: it drops none and adds none.\<close>

definition fair_schedule :: "deliver_world \<Rightarrow> bool" where
  "fair_schedule w \<longleftrightarrow> (\<forall>k ess. mset (dw_Schedule w k ess) = mset (concat ess))"

definition waiting_event :: "task_event \<Rightarrow> bool" where
  "waiting_event ev = (case ev of TEWait _ \<Rightarrow> True | TEResume _ \<Rightarrow> True | _ \<Rightarrow> False)"

lemma emit_tasks:
  "emit sha256hex now wid i ck evs seq = (out, seq') \<Longrightarrow> DTask ev \<in> set out \<longleftrightarrow> ev \<in> set evs \<and> \<not> waiting_event ev"
proof (induction evs arbitrary: seq out seq')
  case (Cons e evs)
  obtain o1 s1 where o1: "(case e of
       TEWait _ \<Rightarrow> (appendTransition sha256hex now wid StatusRunning StatusWaiting ReasonBudget ck (seq + 1) (di_EnvelopeDigest i), seq + 1)
     | TEResume _ \<Rightarrow> (appendTransition sha256hex now wid StatusWaiting StatusRunning [] ck (seq + 1) (di_EnvelopeDigest i), seq + 1)
     | _ \<Rightarrow> ([DTask e], seq)) = (o1, s1)" by fastforce
  obtain o2 s2 where o2: "emit sha256hex now wid i ck evs s1 = (o2, s2)" by fastforce
  have "out = o1 @ o2" using Cons.prems o1 o2 by (simp add: Let_def)
  moreover have "DTask ev \<in> set o1 \<longleftrightarrow> ev = e \<and> \<not> waiting_event e"
    using o1 by (auto simp: waiting_event_def appendTransition_def Let_def split: task_event.splits option.splits)
  ultimately show ?case using Cons.IH [OF o2] by auto
qed simp

lemma runTask_execute_id:
  "runTask sha256hex wid i t executorName n a = (r, e, c, evs) \<Longrightarrow> TEExecute x \<in> set evs \<Longrightarrow> xi_TaskID x = tk_ID t"
  by (auto simp: runTask_def Let_def execute_input_def split: run_splits)

lemma runTaskWithBudget_execute_id:
  "runTaskWithBudget sha256hex wid i t executorName n rounds = Some (r, e, c, evs) \<Longrightarrow> TEExecute x \<in> set evs \<Longrightarrow> xi_TaskID x = tk_ID t"
proof (induction rounds arbitrary: n r e c evs)
  case (Cons round rounds)
  obtain a signalled where round: "round = (a, signalled)" by fastforce
  obtain r1 e1 c1 evs1 where run: "runTask sha256hex wid i t executorName n a = (r1, e1, c1, evs1)" by (metis prod_cases4)
  show ?case using Cons round run runTask_execute_id [OF run] by (fastforce split: if_splits option.splits)
qed simp

lemma wave_turn_trace:
  assumes turn: "wave_turn sha256hex w wid i executorName k wave st outcomes st1 cls" and fair: "fair_schedule w"
    and rw: "list_all (\<lambda>t. all_reasoned (dw_Rounds w t)) wave"
  shows "\<exists>new. ds_Trace st1 = ds_Trace st @ new
    \<and> (\<forall>x. DTask (TEExecute x) \<in> set new \<longrightarrow> xi_TaskID x \<in> tk_ID ` set wave)
    \<and> (cls = [] \<longrightarrow> (\<forall>t \<in> set wave. DTask (TERelease wid (tk_ID t)) \<in> set new))"
proof -
  have those: "those (map (\<lambda>t. runTaskWithBudget sha256hex wid i t executorName 1 (dw_Rounds w t)) wave) = Some outcomes"
    using turn by (simp add: wave_turn_def)
  obtain new seq where em: "emit sha256hex (dw_Now w) wid i (ds_Checkpoint st) (dw_Schedule w k (map (\<lambda>(_, _, _, evs). evs) outcomes)) (ds_Seq st)
      = (new, seq)" "ds_Trace st1 = ds_Trace st @ new"
    using turn by (auto simp: wave_turn_def)
  have sch: "set (dw_Schedule w k (map (\<lambda>(_, _, _, evs). evs) outcomes)) = set (concat (map (\<lambda>(_, _, _, evs). evs) outcomes))"
    using fair unfolding fair_schedule_def by (metis mset_eq_setD)
  have "xi_TaskID x \<in> tk_ID ` set wave" if x: "DTask (TEExecute x) \<in> set new" for x
  proof -
    have "TEExecute x \<in> set (concat (map (\<lambda>(_, _, _, evs). evs) outcomes))"
      using emit_tasks [OF em(1)] x unfolding sch by blast
    then obtain r e c evs where "(r, e, c, evs) \<in> set outcomes" "TEExecute x \<in> set evs" by auto
    moreover have "\<exists>t \<in> set wave. runTaskWithBudget sha256hex wid i t executorName 1 (dw_Rounds w t) = Some oc" if "oc \<in> set outcomes" for oc
      using those that unfolding those_Some_iff by (metis (no_types, lifting) imageE image_eqI list.set_map)
    ultimately show ?thesis using runTaskWithBudget_execute_id by blast
  qed
  moreover have "DTask (TERelease wid (tk_ID t)) \<in> set new" if t: "cls = []" "t \<in> set wave" for t
  proof -
    have "list_all (\<lambda>(r, e, c, evs). c = []) outcomes" using turn t(1) by (simp add: wave_turn_def)
    from wave_all_passed [OF conjunct2 [OF wave_passed [OF those rw]] this]
    have "TERelease wid (tk_ID t) \<in> set (concat (map (\<lambda>(r, e, c, evs). evs) outcomes))" using t(2) by (simp add: list_all_iff)
    then show ?thesis using emit_tasks [OF em(1)] unfolding sch by (simp add: waiting_event_def)
  qed
  ultimately show ?thesis using em(2) by blast
qed

text \<open>Whenever a task of a later wave is executed, the tasks of the earlier waves are done.\<close>

definition wave_ordered :: "deliver_world \<Rightarrow> string \<Rightarrow> task list list \<Rightarrow> deliver_event list \<Rightarrow> bool" where
  "wave_ordered w wid waves new \<longleftrightarrow>
     (\<forall>x. DTask (TEExecute x) \<in> set new \<longrightarrow> xi_TaskID x \<in> tk_ID ` set (concat waves))
     \<and> (\<forall>pre x post m. new = pre @ DTask (TEExecute x) # post \<longrightarrow> m < length waves \<longrightarrow> xi_TaskID x \<in> tk_ID ` set (waves ! m) \<longrightarrow>
          (\<forall>j < m. \<forall>u \<in> set (waves ! j). DTask (TERelease wid (tk_ID u)) \<in> set pre \<and> list_ex (\<lambda>(a, _). passed a) (dw_Rounds w u)))"

lemma wave_orderedD:
  "wave_ordered w wid waves (pre @ DTask (TEExecute x) # post) \<Longrightarrow> m < length waves \<Longrightarrow> xi_TaskID x \<in> tk_ID ` set (waves ! m) \<Longrightarrow> j < m \<Longrightarrow>
     u \<in> set (waves ! j) \<Longrightarrow> DTask (TERelease wid (tk_ID u)) \<in> set pre \<and> list_ex (\<lambda>(a, _). passed a) (dw_Rounds w u)"
  unfolding wave_ordered_def by blast

lemma wave_ordered_known: "wave_ordered w wid waves new \<Longrightarrow> DTask (TEExecute x) \<in> set new \<Longrightarrow> xi_TaskID x \<in> tk_ID ` set (concat waves)"
  unfolding wave_ordered_def by blast

lemma waveLoop_order:
  "waveLoop sha256hex w wid i executorName k waves st = Some (st', cls) \<Longrightarrow> fair_schedule w \<Longrightarrow>
     list_all (\<lambda>t. all_reasoned (dw_Rounds w t)) (concat waves) \<Longrightarrow> distinct (map tk_ID (concat waves)) \<Longrightarrow>
     \<exists>new. ds_Trace st' = ds_Trace st @ new \<and> wave_ordered w wid waves new"
proof (induction waves arbitrary: k st)
  case Nil
  then show ?case by (simp add: wave_ordered_def)
next
  case (Cons wave waves)
  show ?case
  proof (cases "dw_CancelledAt w k")
    case True
    then show ?thesis using Cons.prems(1) by (intro exI [of _ "[]"]) (simp add: wave_ordered_def)
  next
    case nc: False
    have rw: "list_all (\<lambda>t. all_reasoned (dw_Rounds w t)) wave" using Cons.prems(3) by simp
    obtain outcomes st1 cls1 where s: "wave_turn sha256hex w wid i executorName k wave st outcomes st1 cls1"
        "if cls1 \<noteq> [] then cls = cls1 \<and> st' = st1 else waveLoop sha256hex w wid i executorName (k + 1) waves st1 = Some (st', cls)"
      using waveLoop_step [OF Cons.prems(1) nc rw] by blast
    obtain new1 where n1: "ds_Trace st1 = ds_Trace st @ new1" "\<And>x. DTask (TEExecute x) \<in> set new1 \<Longrightarrow> xi_TaskID x \<in> tk_ID ` set wave"
        "cls1 = [] \<Longrightarrow> \<forall>t \<in> set wave. DTask (TERelease wid (tk_ID t)) \<in> set new1"
      using wave_turn_trace [OF s(1) Cons.prems(2) rw] by blast
    have head: "m = 0" if len: "m < length (wave # waves)" and y: "y \<in> tk_ID ` set ((wave # waves) ! m)" "y \<in> tk_ID ` set wave" for m y
    proof (rule ccontr)
      assume "m \<noteq> 0"
      then obtain m' where "m = Suc m'" "m' < length waves" using len by (cases m) auto
      then have "set ((wave # waves) ! m) \<subseteq> set (concat waves)" using nth_mem [of m' waves] by (simp only: nth_Cons_Suc set_concat) blast
      then show False using y Cons.prems(4) by auto
    qed
    show ?thesis
    proof (cases "cls1 = []")
      case False
      then have "st' = st1" using s(2) by simp
      moreover have "wave_ordered w wid (wave # waves) new1" unfolding wave_ordered_def using n1(2) head by fastforce
      ultimately show ?thesis using n1(1) by blast
    next
      case True
      then have rest: "waveLoop sha256hex w wid i executorName (k + 1) waves st1 = Some (st', cls)" using s(2) by simp
      obtain new2 where n2: "ds_Trace st' = ds_Trace st1 @ new2" "wave_ordered w wid waves new2"
        using Cons.IH [OF rest Cons.prems(2)] Cons.prems(3,4) by fastforce
      have pw: "list_all (\<lambda>t. list_ex (\<lambda>(a, _). passed a) (dw_Rounds w t)) wave"
      proof -
        have "those (map (\<lambda>t. runTaskWithBudget sha256hex wid i t executorName 1 (dw_Rounds w t)) wave) = Some outcomes"
            "list_all (\<lambda>(r, e, c, evs). c = []) outcomes"
          using s(1) True by (simp_all add: wave_turn_def)
        then show ?thesis using wave_all_passed wave_passed [OF _ rw] by blast
      qed
      have order: "\<forall>j < m. \<forall>u \<in> set ((wave # waves) ! j). DTask (TERelease wid (tk_ID u)) \<in> set pre \<and> list_ex (\<lambda>(a, _). passed a) (dw_Rounds w u)"
        if sp: "new1 @ new2 = pre @ DTask (TEExecute x) # post" and m: "m < length (wave # waves)" "xi_TaskID x \<in> tk_ID ` set ((wave # waves) ! m)"
        for pre x post m
      proof (cases "length new1 \<le> length pre")
        case True
        then obtain pre2 where pre: "pre = new1 @ pre2" "new2 = pre2 @ DTask (TEExecute x) # post"
          using sp by (metis append_eq_append_conv_if append_eq_conv_conj append_take_drop_id append.assoc le_Suc_ex)
        show ?thesis
        proof (intro allI impI ballI)
          fix j u assume j: "j < m" and u: "u \<in> set ((wave # waves) ! j)"
          show "DTask (TERelease wid (tk_ID u)) \<in> set pre \<and> list_ex (\<lambda>(a, _). passed a) (dw_Rounds w u)"
          proof (cases j)
            case 0
            then show ?thesis using u n1(3) \<open>cls1 = []\<close> pw pre(1) by (auto simp: list_all_iff)
          next
            case (Suc j')
            then show ?thesis using wave_orderedD [OF n2(2) [unfolded pre(2)], of "m - 1" j' u] m j u pre(1) by (cases m) auto
          qed
        qed
      next
        case False
        then have "DTask (TEExecute x) \<in> set new1"
          using sp by (metis append_eq_append_conv_if in_set_conv_decomp list.set_intros(1) linorder_le_cases nth_append nth_append_length nth_mem not_le)
        then show ?thesis using head [OF m n1(2)] by simp
      qed
      have "xi_TaskID x \<in> tk_ID ` set (concat (wave # waves))" if "DTask (TEExecute x) \<in> set (new1 @ new2)" for x
        using that n1(2) [of x] wave_ordered_known [OF n2(2), of x] by (auto simp: image_Un)
      then have "wave_ordered w wid (wave # waves) (new1 @ new2)" unfolding wave_ordered_def using order by blast
      then show ?thesis using n1(1) n2(1) by (metis append.assoc)
    qed
  qed
qed

text \<open>A proposal for tasks with distinct ids is taken as it is.\<close>

lemma pecWaves_accepted:
  assumes "distinct (map tk_ID tasks)" and p: "ProposeWaves (zero_document\<lparr>dc_Tasks := tasks\<rparr>) = Inr p"
  shows "map (map tk_ID) (pecWaves tasks) = wp_Waves p"
proof -
  let ?doc = "zero_document\<lparr>dc_Tasks := tasks\<rparr>"
  have lay: "is_layering (tk_ID ` set tasks) (doc_deps ?doc) (wp_Waves p)" using ProposeWaves_cases [of ?doc] p by simp
  then have v: "ValidateWaveProposal p ?doc = None" using ValidateWaveProposal_layering [of ?doc] by simp
  have sub: "set ids \<subseteq> tk_ID ` set tasks" if "ids \<in> set (wp_Waves p)" for ids using that lay by (auto simp: is_layering_def)
  define found where "found = map (List.map_filter (taskByID tasks)) (wp_Waves p)"
  have ids: "map (map tk_ID) found = wp_Waves p"
    using map_filter_taskByID [OF sub] by (auto simp: found_def intro!: map_idI)
  have "sum_list (map length found) = length (concat (map (map tk_ID) found))" by (simp add: length_concat comp_def)
  also have "\<dots> = card (tk_ID ` set tasks)" unfolding ids using lay by (metis distinct_card is_layering_def)
  also have "\<dots> = length tasks" using assms(1) by (metis distinct_card length_map list.set_map)
  finally have cov: "sum_list (map length found) = length tasks" .
  have "filter (\<lambda>v. v \<noteq> []) found = found"
    using lay unfolding ids [symmetric] is_layering_def by (auto simp: filter_id_conv)
  moreover have "found = []" if "tasks = []" using that lay ids by (cases found) (auto simp: is_layering_def)
  ultimately have "pecWaves tasks = found" using p v cov by (auto simp: pecWaves_def Let_def found_def)
  then show ?thesis using ids by simp
qed

text \<open>A plan without duplicate ids, unknown dependencies and cycles is run in its layers.\<close>

lemma pecWaves_layering:
  assumes "distinct (map tk_ID tasks)" and "snd ` doc_deps (zero_document\<lparr>dc_Tasks := tasks\<rparr>) \<subseteq> tk_ID ` set tasks"
    and "acyclic (doc_deps (zero_document\<lparr>dc_Tasks := tasks\<rparr>))"
  shows "is_layering (tk_ID ` set tasks) (doc_deps (zero_document\<lparr>dc_Tasks := tasks\<rparr>)) (map (map tk_ID) (pecWaves tasks))"
proof -
  let ?doc = "zero_document\<lparr>dc_Tasks := tasks\<rparr>"
  obtain p where p: "ProposeWaves ?doc = Inr p" using assms(2,3) ProposeWaves_exists_iff [of ?doc] by auto
  then show ?thesis using ProposeWaves_cases [of ?doc] pecWaves_accepted [OF assms(1) p] by simp
qed

lemma layering_dep:
  "is_layering nodes r ws \<Longrightarrow> n < length ws \<Longrightarrow> y \<in> set (ws ! n) \<Longrightarrow> (y, d) \<in> r \<Longrightarrow> \<exists>j < n. d \<in> set (ws ! j)"
  unfolding is_layering_def by blast

lemma start_trace_no_execute: "DTask ev \<notin> set (start_trace sha256hex w wid i)"
  by (auto simp: start_trace_def appendTransition_def Let_def split: option.splits)

lemma execute_in_run:
  assumes "new0 @ new @ end = pre @ DTask x # post" and "DTask x \<notin> set new0" and "DTask x \<notin> set end"
  shows "\<exists>pre2 post2. pre = new0 @ pre2 \<and> new = pre2 @ DTask x # post2"
proof -
  have "\<exists>us. pre = new0 @ us \<and> new @ end = us @ DTask x # post"
    using assms(1,2) by (auto simp: append_eq_append_conv2 append_eq_Cons_conv)
  then obtain us where us: "pre = new0 @ us" "new @ end = us @ DTask x # post" by blast
  then show ?thesis using assms(3) by (auto simp: append_eq_append_conv2 append_eq_Cons_conv)
qed

lemma execute_not_in_append: "DTask ev \<notin> set (appendTransition sha256hex now wid st0 to reason ck seq digest)"
  by (auto simp: appendTransition_def Let_def split: option.splits)

text \<open>
  When a task is executed, every task it depends on has released its worktree and has passed.
\<close>

lemma DeliverPlan_order:
  assumes run: "DeliverPlan sha256hex w wid i = Some (res, err, pre @ DTask (TEExecute x) # post)" and load: "dw_Load w = Inr tasks"
    and sound: "distinct (map tk_ID tasks)" "snd ` doc_deps (zero_document\<lparr>dc_Tasks := tasks\<rparr>) \<subseteq> tk_ID ` set tasks"
      "acyclic (doc_deps (zero_document\<lparr>dc_Tasks := tasks\<rparr>))"
    and fair: "fair_schedule w" and reasoned: "\<And>t. all_reasoned (dw_Rounds w t)"
    and t: "t \<in> set tasks" "tk_ID t = xi_TaskID x" and u: "u \<in> set tasks" "tk_ID u \<in> set (tk_DependsOn t)"
  shows "DTask (TERelease wid (tk_ID u)) \<in> set pre \<and> list_ex (\<lambda>(a, _). passed a) (dw_Rounds w u)"
proof -
  let ?W = "pecWaves tasks" and ?doc = "zero_document\<lparr>dc_Tasks := tasks\<rparr>"
  have lay: "is_layering (tk_ID ` set tasks) (doc_deps ?doc) (map (map tk_ID) ?W)" by (rule pecWaves_layering [OF sound])
  have m: "set (concat ?W) = set tasks" using pecWaves_cases [of tasks] by (metis mset_eq_setD)
  have inj: "inj_on tk_ID (set tasks)" using sound(1) by (simp add: distinct_map)
  obtain st cls where r: "run_waves sha256hex w wid i tasks = Some (st, cls)" and
    tr: "ds_Trace st @ appendTransition sha256hex (dw_Now w) wid StatusRunning (final_status cls) (final_reason cls)
          (ds_Checkpoint st) (ds_Seq st + 1) (di_EnvelopeDigest i) = pre @ DTask (TEExecute x) # post"
    using run unfolding DeliverPlan_loaded [OF load] by auto
  have "distinct (map tk_ID (concat ?W))" using lay by (simp add: is_layering_def map_concat)
  moreover have "list_all (\<lambda>t. all_reasoned (dw_Rounds w t)) (concat ?W)" using reasoned by (simp add: list_all_iff)
  ultimately obtain new where new: "ds_Trace st = start_trace sha256hex w wid i @ new" "wave_ordered w wid ?W new"
    using waveLoop_order [OF r [unfolded run_waves_def] fair] by auto
  obtain pre2 post2 where p: "pre = start_trace sha256hex w wid i @ pre2" "new = pre2 @ DTask (TEExecute x) # post2"
    using execute_in_run [OF tr [unfolded new(1) append.assoc] start_trace_no_execute execute_not_in_append] by blast
  obtain n where n: "n < length ?W" "t \<in> set (?W ! n)" using t(1) m by (metis UN_E in_set_conv_nth set_concat)
  have d: "(tk_ID t, tk_ID u) \<in> doc_deps ?doc" using t(1) u(2) by (auto simp: doc_deps_def)
  have "n < length (map (map tk_ID) ?W)" "tk_ID t \<in> set (map (map tk_ID) ?W ! n)" using n by simp_all
  from layering_dep [OF lay this d] obtain j where j: "j < n" "tk_ID u \<in> set (map (map tk_ID) ?W ! j)" by blast
  then obtain u' where u': "u' \<in> set (?W ! j)" "tk_ID u' = tk_ID u" using n(1) by auto
  have "?W ! j \<in> set ?W" using j(1) n(1) by simp
  then have "u' \<in> set tasks" using u'(1) unfolding m [symmetric] set_concat by blast
  then have "u' = u" using inj u'(2) u(1) by (auto dest: inj_onD)
  then show ?thesis
    using wave_orderedD [OF new(2) [unfolded p(2)] n(1) _ j(1)] n(2) t(2) u'(1) p(1) by force
qed

section \<open>The transitions of a run\<close>

fun transitions :: "deliver_event list \<Rightarrow> (int \<times> transition) list" where
  "transitions [] = []"
| "transitions (DTransition n t # es) = (n, t) # transitions es"
| "transitions (_ # es) = transitions es"

lemma transitions_append [simp]: "transitions (es @ fs) = transitions es @ transitions fs"
  by (induction es rule: transitions.induct) simp_all

fun numbered :: "int \<Rightarrow> (int \<times> transition) list \<Rightarrow> bool" where
  "numbered seq [] = True"
| "numbered seq ((n, t) # ts) = (n = seq + 1 \<and> numbered (seq + 1) ts)"

lemma numbered_append [simp]: "numbered seq (ts @ us) \<longleftrightarrow> numbered seq ts \<and> numbered (seq + int (length ts)) us"
  by (induction seq ts rule: numbered.induct) (simp_all add: algebra_simps)

lemma numbered_upto: "numbered seq ts \<Longrightarrow> map fst ts = [seq + 1 .. seq + int (length ts)]"
  by (induction seq ts rule: numbered.induct) (simp_all add: upto_rec1 algebra_simps)

definition pausing :: "transition \<Rightarrow> bool" where
  "pausing t \<longleftrightarrow> tr_Status t = StatusWaiting \<and> tr_Reason t = ReasonBudget \<or> tr_Status t = StatusRunning"

lemma appendTransition_sent:
  assumes "Transition_Validate \<lparr>tr_WorkflowID = wid, tr_Status = to, tr_PhaseFrom = [], tr_PhaseTo = [], tr_Reason = reason, tr_ResultCode = [],
           tr_Actor = [], tr_Profile = [], tr_Evidence = [], tr_CheckpointID = Checkpoint_ID sha256hex ck, tr_Attempt = 0,
           tr_NextAction = [], tr_WakeAt = None, tr_OccurredAt = now, tr_EnvelopeDigest = digest\<rparr> st0 to = None"
  shows "\<exists>t. appendTransition sha256hex now wid st0 to reason ck seq digest = [DTransition seq t] \<and> tr_Status t = to \<and> tr_Reason t = reason
    \<and> tr_WorkflowID t = wid \<and> tr_CheckpointID t = Checkpoint_ID sha256hex ck \<and> Transition_Validate t st0 to = None"
  using assms by (simp add: appendTransition_def)

lemma emit_transitions:
  "emit sha256hex now wid i ck evs seq = (out, seq') \<Longrightarrow>
     numbered seq (transitions out) \<and> seq' = seq + int (length (transitions out)) \<and> list_all (\<lambda>(n, t). pausing t) (transitions out)"
proof (induction evs arbitrary: seq out seq')
  case (Cons e evs)
  obtain o1 s1 where o1: "(case e of
       TEWait _ \<Rightarrow> (appendTransition sha256hex now wid StatusRunning StatusWaiting ReasonBudget ck (seq + 1) (di_EnvelopeDigest i), seq + 1)
     | TEResume _ \<Rightarrow> (appendTransition sha256hex now wid StatusWaiting StatusRunning [] ck (seq + 1) (di_EnvelopeDigest i), seq + 1)
     | _ \<Rightarrow> ([DTask e], seq)) = (o1, s1)" by fastforce
  obtain o2 s2 where o2: "emit sha256hex now wid i ck evs s1 = (o2, s2)" by fastforce
  have "out = o1 @ o2" "seq' = s2" using Cons.prems o1 o2 by (simp_all add: Let_def)
  moreover have "numbered seq (transitions o1) \<and> s1 = seq + int (length (transitions o1)) \<and> list_all (\<lambda>(n, t). pausing t) (transitions o1)"
    using o1 by (auto simp: pausing_def appendTransition_def Let_def Transition_Validate_def split: task_event.splits)
  ultimately show ?case using Cons.IH [OF o2] by simp
qed simp

lemma waveLoop_transitions:
  "waveLoop sha256hex w wid i executorName k waves st = Some (st', cls) \<Longrightarrow>
     \<exists>new. ds_Trace st' = ds_Trace st @ new \<and> numbered (ds_Seq st) (transitions new)
       \<and> ds_Seq st' = ds_Seq st + int (length (transitions new)) \<and> list_all (\<lambda>(n, t). pausing t) (transitions new)"
proof (induction waves arbitrary: k st)
  case (Cons wave waves)
  show ?case
  proof (cases "dw_CancelledAt w k")
    case True
    then show ?thesis using Cons.prems by (intro exI [of _ "[]"]) simp
  next
    case nc: False
    obtain outcomes where oc: "those (map (\<lambda>t. runTaskWithBudget sha256hex wid i t executorName 1 (dw_Rounds w t)) wave) = Some outcomes"
      using Cons.prems nc by (auto split: option.splits)
    obtain evs seq where em: "emit sha256hex (dw_Now w) wid i (ds_Checkpoint st) (dw_Schedule w k (map (\<lambda>(_, _, _, evs). evs) outcomes)) (ds_Seq st)
        = (evs, seq)" by fastforce
    obtain results ck cls1 where fo: "fold_outcomes (zip wave outcomes) (ds_Results st, ds_Checkpoint st, []) = (results, ck, cls1)"
      by (metis prod_cases3)
    let ?st1 = "\<lparr>ds_Results = results, ds_Checkpoint = ck, ds_Seq = seq, ds_Trace = ds_Trace st @ evs\<rparr>"
    have e: "numbered (ds_Seq st) (transitions evs)" "seq = ds_Seq st + int (length (transitions evs))"
        "list_all (\<lambda>(n, t). pausing t) (transitions evs)"
      using emit_transitions [OF em] by simp_all
    show ?thesis
    proof (cases "cls1 = []")
      case False
      then have "st' = ?st1" using Cons.prems nc oc em fo by (auto simp: Let_def)
      then show ?thesis using e by (intro exI [of _ evs]) simp
    next
      case True
      then have "waveLoop sha256hex w wid i executorName (k + 1) waves ?st1 = Some (st', cls)" using Cons.prems nc oc em fo by (auto simp: Let_def)
      from Cons.IH [OF this] obtain new where "ds_Trace st' = ds_Trace ?st1 @ new" "numbered seq (transitions new)"
          "ds_Seq st' = seq + int (length (transitions new))" "list_all (\<lambda>(n, t). pausing t) (transitions new)" by auto
      then show ?thesis using e by (intro exI [of _ "evs @ new"]) simp
    qed
  qed
qed (simp add: exI [of _ "[]"])

lemma final_transition_validates:
  "Transition_Validate \<lparr>tr_WorkflowID = wid, tr_Status = final_status cls, tr_PhaseFrom = [], tr_PhaseTo = [], tr_Reason = final_reason cls,
     tr_ResultCode = [], tr_Actor = [], tr_Profile = [], tr_Evidence = [], tr_CheckpointID = c, tr_Attempt = 0, tr_NextAction = [],
     tr_WakeAt = None, tr_OccurredAt = now, tr_EnvelopeDigest = digest\<rparr> StatusRunning (final_status cls) = None"
  by (simp add: Transition_Validate_def final_status_def final_reason_def)

lemma start_transition:
  "\<exists>t. start_trace sha256hex w wid i = [DLoad (di_PlanID i) (di_PlanFilePath i), DTransition 1 t] \<and> tr_Status t = StatusRunning
     \<and> Transition_Validate t StatusPending StatusRunning = None"
  by (simp add: start_trace_def appendTransition_def Transition_Validate_def)

text \<open>
  C6: The records of a workflow. A workflow that returns first loaded the plan and recorded that
  it runs; its last act records a terminal status, the one it returns, and it is the only
  terminal status it recorded. The records in between are waits for budget and resumptions
  from them, all records are numbered consecutively from 1, so that no two share the key
  under which the activity deduplicates them, and without waits the stream is valid.
\<close>

theorem DeliverPlan_transitions:
  assumes "DeliverPlan sha256hex w wid i = Some (res, err, tr)"
  shows "\<exists>t0 mid n t1. tr = [DLoad (di_PlanID i) (di_PlanFilePath i), DTransition 1 t0] @ mid @ [DTransition n t1]
    \<and> tr_Status t0 = StatusRunning \<and> tr_Status t1 = dv_Status res \<and> IsTerminal (dv_Status res)
    \<and> list_all (\<lambda>(_, t). tr_Status t = StatusWaiting \<and> tr_Reason t = ReasonBudget \<or> tr_Status t = StatusRunning) (transitions mid)
    \<and> map fst (transitions tr) = [1 .. int (length (transitions tr))]
    \<and> (transitions mid = [] \<longrightarrow> valid_stream StatusPending (map snd (transitions tr)))"
proof (cases "dw_Load w")
  case (Inl e)
  obtain t0 where t0: "start_trace sha256hex w wid i = [DLoad (di_PlanID i) (di_PlanFilePath i), DTransition 1 t0]" "tr_Status t0 = StatusRunning"
      "Transition_Validate t0 StatusPending StatusRunning = None" using start_transition by blast
  obtain t1 where t1: "appendTransition sha256hex (dw_Now w) wid StatusRunning StatusFailed ''admission-rejected'' zero_checkpoint 2
        (di_EnvelopeDigest i) = [DTransition 2 t1]" "tr_Status t1 = StatusFailed" "Transition_Validate t1 StatusRunning StatusFailed = None"
    using appendTransition_sent [OF final_transition_validates [of wid "''admission-rejected''"]]
    by (simp add: final_status_def final_reason_def) blast
  have "tr = [DLoad (di_PlanID i) (di_PlanFilePath i), DTransition 1 t0] @ [] @ [DTransition 2 t1]" "dv_Status res = StatusFailed"
    using assms t0(1) t1(1) unfolding DeliverPlan_rejected [OF Inl] by auto
  then show ?thesis
    using t0 t1 by (rule_tac exI [of _ t0], rule_tac exI [of _ "[]"], rule_tac exI [of _ 2], rule_tac exI [of _ t1]) (simp add: upto_rec1)
next
  case (Inr tasks)
  obtain t0 where t0: "start_trace sha256hex w wid i = [DLoad (di_PlanID i) (di_PlanFilePath i), DTransition 1 t0]" "tr_Status t0 = StatusRunning"
      "Transition_Validate t0 StatusPending StatusRunning = None" using start_transition by blast
  obtain st cls where r: "run_waves sha256hex w wid i tasks = Some (st, cls)" "dv_Status res = final_status cls"
      "tr = ds_Trace st @ appendTransition sha256hex (dw_Now w) wid StatusRunning (final_status cls) (final_reason cls)
          (ds_Checkpoint st) (ds_Seq st + 1) (di_EnvelopeDigest i)"
    using assms unfolding DeliverPlan_loaded [OF Inr] by auto
  obtain t1 where t1: "appendTransition sha256hex (dw_Now w) wid StatusRunning (final_status cls) (final_reason cls)
        (ds_Checkpoint st) (ds_Seq st + 1) (di_EnvelopeDigest i) = [DTransition (ds_Seq st + 1) t1]" "tr_Status t1 = final_status cls"
      "Transition_Validate t1 StatusRunning (final_status cls) = None"
    using appendTransition_sent [OF final_transition_validates] by blast
  obtain mid where mid: "ds_Trace st = start_trace sha256hex w wid i @ mid" "numbered 1 (transitions mid)"
      "ds_Seq st = 1 + int (length (transitions mid))" "list_all (\<lambda>(n, t). pausing t) (transitions mid)"
    using waveLoop_transitions [OF r(1) [unfolded run_waves_def]] by auto
  have tr: "tr = [DLoad (di_PlanID i) (di_PlanFilePath i), DTransition 1 t0] @ mid @ [DTransition (ds_Seq st + 1) t1]"
    using r(3) t0(1) t1(1) mid(1) by simp
  have "numbered 0 (transitions tr)" unfolding tr using mid(2,3) by simp
  from numbered_upto [OF this] show ?thesis
    using tr t0 t1 r(2) mid(4)
    by (rule_tac exI [of _ t0], rule_tac exI [of _ mid], rule_tac exI [of _ "ds_Seq st + 1"], rule_tac exI [of _ t1])
      (auto simp: pausing_def final_status_def)
qed

theorem DeliverPlan_transitions_witness:
  "\<exists>res tr t0 mid n t1. DeliverPlan (\<lambda>s. s) (plain_world sample_tasks [(passing_answers, True)] concat) ''w'' plain_input = Some (res, False, tr)
     \<and> tr = [DLoad ''p'' ''p.md'', DTransition 1 t0] @ mid @ [DTransition n t1] \<and> tr_Status t1 = dv_Status res \<and> dv_Status res = StatusSucceeded"
proof -
  let ?w = "plain_world sample_tasks [(passing_answers, True)] concat"
  obtain res tr where run: "DeliverPlan (\<lambda>s. s) ?w ''w'' plain_input = Some (res, False, tr)" "dv_Status res = StatusSucceeded"
    using DeliverPlan_returns [of ?w sample_tasks "\<lambda>s. s" "''w''" plain_input] passing_passes passing_answers_ok(2) by (auto simp: plain_world_def)
  have "di_PlanID plain_input = ''p''" "di_PlanFilePath plain_input = ''p.md''" by (simp_all add: plain_input_def)
  then obtain t0 mid n t1 where "tr = [DLoad ''p'' ''p.md'', DTransition 1 t0] @ mid @ [DTransition n t1]" "tr_Status t1 = dv_Status res"
    using DeliverPlan_transitions [OF run(1)] by auto
  then show ?thesis using run by blast
qed

text \<open>
  Two tasks of one wave that wait for budget at the same time both record that the workflow
  goes from \<open>RUNNING\<close> to \<open>WAITING\<close>: the stream is then not valid, even though both come through.
\<close>

definition waits_first :: "task_event list list \<Rightarrow> task_event list" where
  "waits_first ess =
     (let before = (\<lambda>e. case e of TEResume _ \<Rightarrow> False | _ \<Rightarrow> True) in
      concat (map (takeWhile before) ess) @ concat (map (dropWhile before) ess))"

lemma waits_first_fair: "mset (waits_first ess) = mset (concat ess)"
proof (induction ess)
  case (Cons es ess)
  let ?before = "\<lambda>e. case e of TEResume _ \<Rightarrow> False | _ \<Rightarrow> True"
  have "mset es = mset (takeWhile ?before es) + mset (dropWhile ?before es)" by (metis mset_append takeWhile_dropWhile_id)
  then show ?case using Cons by (simp add: waits_first_def Let_def)
qed (simp add: waits_first_def)

lemma independent_waves: "pecWaves [plain_task ''t1'' [], plain_task ''t2'' []] = [[plain_task ''t1'' [], plain_task ''t2'' []]]"
  by code_simp

lemma sample_waves: "pecWaves sample_tasks = [[plain_task ''t1'' []], [plain_task ''t2'' [''t1'']]]"
  by code_simp

lemma plain_executor: "di_ExecutorName plain_input = []" by (simp add: plain_input_def)

lemmas run_plain = runTask_def exhausted_answers_def passing_answers_def zero_reserve_out_def Let_def cancelOr_def

lemma sample_executes:
   "map_option (\<lambda>(res, err, tr). DTask (TEExecute (execute_input ''w'' plain_input (plain_task ''t2'' [''t1'']) ''fake'' ''/ws'')) \<in> set tr)
     (DeliverPlan (\<lambda>s. s) (plain_world sample_tasks [(passing_answers, True)] concat) ''w'' plain_input) = Some True"
  unfolding DeliverPlan_def plain_world_def
  by (simp add: sample_waves plain_executor run_plain)

theorem overlapping_waits_invalid:
  "\<exists>res tr. DeliverPlan (\<lambda>s. s) (plain_world [plain_task ''t1'' [], plain_task ''t2'' []]
        [(exhausted_answers, True), (passing_answers, True)] waits_first) ''w'' plain_input = Some (res, False, tr)
     \<and> dv_Status res = StatusSucceeded \<and> \<not> valid_stream StatusPending (map snd (transitions tr))
     \<and> fair_schedule (plain_world [plain_task ''t1'' [], plain_task ''t2'' []] [(exhausted_answers, True), (passing_answers, True)] waits_first)"
proof -
  let ?w = "plain_world [plain_task ''t1'' [], plain_task ''t2'' []] [(exhausted_answers, True), (passing_answers, True)] waits_first"
  have "map_option (\<lambda>(res, err, tr). (dv_Status res, err, valid_stream StatusPending (map snd (transitions tr))))
      (DeliverPlan (\<lambda>s. s) ?w ''w'' plain_input) = Some (StatusSucceeded, False, False)"
    unfolding DeliverPlan_def plain_world_def
    by (simp add: independent_waves plain_executor run_plain waits_first_def appendTransition_def Transition_Validate_def)
  moreover have "fair_schedule ?w" by (simp add: fair_schedule_def plain_world_def waits_first_fair)
  ultimately show ?thesis by auto
qed

end
