(* ===== verification/Policy.thy ===== *)
theory Policy
  imports Prelude "HOL-Library.Finite_Map"
begin

text \<open>
  The policy compiler (\<open>internal/policy/compiler\<close>) and the decision point that evaluates its
  output (\<open>internal/policy/pdp\<close>). Four layers are folded in a fixed order; a lower layer may
  only tighten what it inherits. The lemmas show what an accepted fold guarantees against the
  platform and against every layer, that a refusal names a layer and a field that really break
  the rule, and when the decision point allows a request.

  A Go map is a finite map, walked in the order of its sorted keys as the source does. A nil
  slice or pointer of a layer is \<^const>\<open>None\<close>. YAML, JSON, SHA-256, the file system and the
  evaluation of a rego bundle are arguments of the definitions that use them.
\<close>

section \<open>The data model\<close>

datatype policy_layer = LayerPlatform | LayerOrg | LayerProfile | LayerWorkflow

type_synonym deploy_mode = string

abbreviation ModeAuto :: deploy_mode where "ModeAuto \<equiv> ''auto''"
abbreviation ModeCommand :: deploy_mode where "ModeCommand \<equiv> ''command''"
abbreviation ModeDisabled :: deploy_mode where "ModeDisabled \<equiv> ''disabled''"

definition modeRank :: "deploy_mode \<Rightarrow> nat option" where
  "modeRank m =
     (if m = ModeAuto then Some 0 else if m = ModeCommand then Some 1
      else if m = ModeDisabled then Some 2 else None)"

definition mode_valid :: "deploy_mode \<Rightarrow> bool" where
  "mode_valid m = (modeRank m \<noteq> None)"

text \<open>The lookup \<open>modeRank[m]\<close> of a missing key is zero.\<close>

definition rank_of :: "deploy_mode \<Rightarrow> nat" where
  "rank_of m = (case modeRank m of None \<Rightarrow> 0 | Some r \<Rightarrow> r)"

record risk_control =
  rc_AutoAllowed :: bool
  rc_RequireReview :: bool

definition stricterOrEqual :: "risk_control \<Rightarrow> risk_control \<Rightarrow> bool" where
  "stricterOrEqual prev nxt =
     (if rc_AutoAllowed nxt \<and> \<not> rc_AutoAllowed prev then False
      else if \<not> rc_RequireReview nxt \<and> rc_RequireReview prev then False
      else True)"

record policy =
  po_PermissionsAllowlist :: "string list"
  po_DeploymentModes :: "(string, deploy_mode) fmap"
  po_BudgetCeilingsUSD :: "(string, f64) fmap"
  po_ExecutorAllowlist :: "string list"
  po_ValidationAllowlistRef :: string
  po_NotificationClasses :: "string list"
  po_RiskTierControls :: "(string, risk_control) fmap"
  po_RequireSandbox :: bool

record layer_policy =
  lp_PermissionsAllowlist :: "string list option"
  lp_DeploymentModes :: "(string, deploy_mode) fmap"
  lp_BudgetCeilingsUSD :: "(string, f64) fmap"
  lp_ExecutorAllowlist :: "string list option"
  lp_ValidationAllowlistRef :: "string option"
  lp_NotificationClasses :: "string list option"
  lp_RiskTierControls :: "(string, risk_control) fmap"
  lp_RequireSandbox :: "bool option"

definition empty_layer :: layer_policy where
  "empty_layer =
     \<lparr>lp_PermissionsAllowlist = None, lp_DeploymentModes = fmempty, lp_BudgetCeilingsUSD = fmempty,
      lp_ExecutorAllowlist = None, lp_ValidationAllowlistRef = None, lp_NotificationClasses = None,
      lp_RiskTierControls = fmempty, lp_RequireSandbox = None\<rparr>"

definition RequireSandbox :: "policy \<Rightarrow> bool" where
  "RequireSandbox p = po_RequireSandbox p"

datatype policy_rule = RuleTightenOnly | RuleFixed | RuleFree

definition fieldRules :: "(string \<times> policy_rule) list" where
  "fieldRules =
     [(''permissions_allowlist'', RuleTightenOnly), (''deployment_modes'', RuleTightenOnly),
      (''budget_ceilings_usd'', RuleTightenOnly), (''executor_allowlist'', RuleTightenOnly),
      (''validation_allowlist_ref'', RuleFixed), (''notification_classes'', RuleTightenOnly),
      (''risk_tier_controls'', RuleTightenOnly), (''require_sandbox'', RuleTightenOnly)]"

datatype compile_error =
    CompileError (pe_Layer: policy_layer) (pe_Field: string) (pe_Message: string)
  | DigestError

datatype direction = DirectionTightened | DirectionChanged

record override =
  ov_Field :: string
  ov_FromLayer :: policy_layer
  ov_Old :: string
  ov_New :: string
  ov_Direction :: direction

record resolved =
  re_Effective :: policy
  re_Overrides :: "override list"
  re_Digest :: string

section \<open>Rendering\<close>

definition show_layer :: "policy_layer \<Rightarrow> string" where
  "show_layer l =
     (case l of LayerPlatform \<Rightarrow> ''platform'' | LayerOrg \<Rightarrow> ''org'' | LayerProfile \<Rightarrow> ''profile''
      | LayerWorkflow \<Rightarrow> ''workflow'')"

text \<open>The verb \<open>%v\<close> of a slice and of a bool, \<open>%+v\<close> of a control, \<open>%.2f\<close> of a \<open>float64\<close>.\<close>

definition show_strings :: "string list \<Rightarrow> string" where
  "show_strings vs = ''['' @ join_with '' '' vs @ '']''"

definition show_bool :: "bool \<Rightarrow> string" where
  "show_bool b = (if b then ''true'' else ''false'')"

definition show_control :: "risk_control \<Rightarrow> string" where
  "show_control c =
     ''{AutoAllowed:'' @ show_bool (rc_AutoAllowed c) @ '' RequireReview:'' @ show_bool (rc_RequireReview c) @ ''}''"

definition round_half_even :: "rat \<Rightarrow> nat" where
  "round_half_even q =
     (let n = nat \<lfloor>q\<rfloor>; d = q - of_nat n in
      if d < 1 / 2 \<or> d = 1 / 2 \<and> even n then n else n + 1)"

fun show_f2 :: "f64 \<Rightarrow> string" where
  "show_f2 (Fin q) =
     (let r = round_half_even (\<bar>q\<bar> * 100) in
      (if q < 0 then ''-'' else []) @ show_nat (r div 100) @ ''.'' @
      [digit_char (r mod 100 div 10), digit_char (r mod 10)])"
| "show_f2 PosInf = ''+Inf''"
| "show_f2 NegInf = ''-Inf''"
| "show_f2 NaN = ''NaN''"

text \<open>The comparisons of \<open>float64\<close>: every comparison with NaN is false.\<close>

fun f64_less :: "f64 \<Rightarrow> f64 \<Rightarrow> bool" where
  "f64_less (Fin a) (Fin b) = (a < b)"
| "f64_less NegInf (Fin b) = True"
| "f64_less NegInf PosInf = True"
| "f64_less (Fin a) PosInf = True"
| "f64_less _ _ = False"

definition f64_eq :: "f64 \<Rightarrow> f64 \<Rightarrow> bool" where
  "f64_eq a b = (a = b \<and> a \<noteq> NaN)"

definition show_CompileError :: "compile_error \<Rightarrow> string" where
  "show_CompileError e =
     (case e of
        CompileError l f m \<Rightarrow>
          ''policy compile error: layer '' @ quote (show_layer l) @ '' field '' @ quote f @ '': '' @ m
      | DigestError \<Rightarrow> ''policy compile: digest'')"

definition Explain :: "resolved \<Rightarrow> string" where
  "Explain r =
     (if re_Overrides r = [] then ''no overrides: effective policy equals the platform default''
      else concat (map (\<lambda>ov. ''layer '' @ show_layer (ov_FromLayer ov) @ '' field '' @ quote (ov_Field ov) @ '': '' @
             ov_Old ov @ '' -> '' @ ov_New ov @ '' ('' @
             (case ov_Direction ov of DirectionTightened \<Rightarrow> ''tightened'' | DirectionChanged \<Rightarrow> ''changed'') @
             '')'' @ [newline]) (re_Overrides r)))"

section \<open>Merging one field\<close>

text \<open>
  \<open>sortedCopy\<close> of an empty slice is the nil slice, so an effective list is nil exactly when it
  is empty and its JSON is a function of the list.
\<close>

abbreviation sortedCopy :: "string list \<Rightarrow> string list" where
  "sortedCopy vs \<equiv> sort vs"

definition sortedMapKeys :: "(string, 'v) fmap \<Rightarrow> string list" where
  "sortedMapKeys m = sorted_list_of_fset (fmdom m)"

definition mergeStringSet ::
    "string \<Rightarrow> policy_layer \<Rightarrow> string list \<Rightarrow> string list \<Rightarrow> compile_error + string list \<times> override list" where
  "mergeStringSet field layer prev nxt =
     (let nextSorted = sortedCopy nxt; added = filter (\<lambda>v. v \<notin> set prev) nextSorted in
      if added \<noteq> [] then
        Inl (CompileError layer field
          (''attempted to widen '' @ field @ '' beyond the inherited set '' @ show_strings prev @
           '' by adding '' @ show_strings added))
      else if prev = nextSorted then Inr (prev, [])
      else Inr (nextSorted,
        [\<lparr>ov_Field = field, ov_FromLayer = layer, ov_Old = show_strings prev, ov_New = show_strings nextSorted,
          ov_Direction = DirectionTightened\<rparr>]))"

text \<open>The loop of the three merges of maps: one step per key, in sorted order.\<close>

fun merge_loop ::
    "(string \<Rightarrow> 'm \<Rightarrow> compile_error + 'm \<times> override list) \<Rightarrow> string list \<Rightarrow> 'm \<Rightarrow> compile_error + 'm \<times> override list" where
  "merge_loop step [] prev = Inr (prev, [])"
| "merge_loop step (k # ks) prev =
     (case step k prev of
        Inl e \<Rightarrow> Inl e
      | Inr (prev', ov) \<Rightarrow>
          (case merge_loop step ks prev' of
             Inl e \<Rightarrow> Inl e
           | Inr (prev'', ovs) \<Rightarrow> Inr (prev'', ov @ ovs)))"

definition mode_step ::
    "policy_layer \<Rightarrow> (string, deploy_mode) fmap \<Rightarrow> string \<Rightarrow> (string, deploy_mode) fmap \<Rightarrow>
     compile_error + (string, deploy_mode) fmap \<times> override list" where
  "mode_step layer nxt env prev =
     (let newMode = the (fmlookup nxt env) in
      if \<not> mode_valid newMode then
        Inl (CompileError layer ''deployment_modes'' (''env '' @ quote env @ '': invalid mode '' @ quote newMode))
      else case fmlookup prev env of
        None \<Rightarrow> Inl (CompileError layer ''deployment_modes'' (''env '' @ quote env @ '' is not defined by the platform layer''))
      | Some oldMode \<Rightarrow>
          if rank_of newMode < rank_of oldMode then
            Inl (CompileError layer ''deployment_modes''
              (''env '' @ quote env @ '': attempted to weaken mode '' @ quote oldMode @ '' -> '' @ quote newMode))
          else if newMode = oldMode then Inr (prev, [])
          else Inr (fmupd env newMode prev,
            [\<lparr>ov_Field = ''deployment_modes'', ov_FromLayer = layer, ov_Old = env @ ''='' @ oldMode,
              ov_New = env @ ''='' @ newMode, ov_Direction = DirectionTightened\<rparr>]))"

definition mergeDeploymentModes ::
    "policy_layer \<Rightarrow> (string, deploy_mode) fmap \<Rightarrow> (string, deploy_mode) fmap \<Rightarrow>
     compile_error + (string, deploy_mode) fmap \<times> override list" where
  "mergeDeploymentModes layer prev nxt = merge_loop (mode_step layer nxt) (sortedMapKeys nxt) prev"

definition budget_step ::
    "policy_layer \<Rightarrow> (string, f64) fmap \<Rightarrow> string \<Rightarrow> (string, f64) fmap \<Rightarrow>
     compile_error + (string, f64) fmap \<times> override list" where
  "budget_step layer nxt name prev =
     (let newCeiling = the (fmlookup nxt name) in
      case fmlookup prev name of
        None \<Rightarrow> Inl (CompileError layer ''budget_ceilings_usd'' (''budget '' @ quote name @ '' is not defined by the platform layer''))
      | Some oldCeiling \<Rightarrow>
          if f64_less oldCeiling newCeiling then
            Inl (CompileError layer ''budget_ceilings_usd''
              (''budget '' @ quote name @ '': attempted to raise ceiling '' @ show_f2 oldCeiling @ '' -> '' @ show_f2 newCeiling))
          else if f64_eq newCeiling oldCeiling then Inr (prev, [])
          else Inr (fmupd name newCeiling prev,
            [\<lparr>ov_Field = ''budget_ceilings_usd'', ov_FromLayer = layer, ov_Old = name @ ''='' @ show_f2 oldCeiling,
              ov_New = name @ ''='' @ show_f2 newCeiling, ov_Direction = DirectionTightened\<rparr>]))"

definition mergeBudgets ::
    "policy_layer \<Rightarrow> (string, f64) fmap \<Rightarrow> (string, f64) fmap \<Rightarrow> compile_error + (string, f64) fmap \<times> override list" where
  "mergeBudgets layer prev nxt = merge_loop (budget_step layer nxt) (sortedMapKeys nxt) prev"

definition tier_step ::
    "policy_layer \<Rightarrow> (string, risk_control) fmap \<Rightarrow> string \<Rightarrow> (string, risk_control) fmap \<Rightarrow>
     compile_error + (string, risk_control) fmap \<times> override list" where
  "tier_step layer nxt tier prev =
     (let newCtl = the (fmlookup nxt tier) in
      case fmlookup prev tier of
        None \<Rightarrow> Inl (CompileError layer ''risk_tier_controls'' (''tier '' @ quote tier @ '' is not defined by the platform layer''))
      | Some oldCtl \<Rightarrow>
          if \<not> stricterOrEqual oldCtl newCtl then
            Inl (CompileError layer ''risk_tier_controls''
              (''tier '' @ quote tier @ '': attempted to weaken '' @ show_control oldCtl @ '' -> '' @ show_control newCtl))
          else if newCtl = oldCtl then Inr (prev, [])
          else Inr (fmupd tier newCtl prev,
            [\<lparr>ov_Field = ''risk_tier_controls'', ov_FromLayer = layer, ov_Old = tier @ ''='' @ show_control oldCtl,
              ov_New = tier @ ''='' @ show_control newCtl, ov_Direction = DirectionTightened\<rparr>]))"

definition mergeRiskTiers ::
    "policy_layer \<Rightarrow> (string, risk_control) fmap \<Rightarrow> (string, risk_control) fmap \<Rightarrow>
     compile_error + (string, risk_control) fmap \<times> override list" where
  "mergeRiskTiers layer prev nxt = merge_loop (tier_step layer nxt) (sortedMapKeys nxt) prev"

definition mergeFixedString :: "string \<Rightarrow> policy_layer \<Rightarrow> string \<Rightarrow> string \<Rightarrow> compile_error + override list" where
  "mergeFixedString field layer prev nxt =
     (if nxt = prev then Inr []
      else Inl (CompileError layer field
        (field @ '' is fixed by the platform layer ('' @ quote prev @ ''); layers may not change it (attempted '' @
         quote nxt @ '')'')))"

definition mergeRequireSandbox :: "policy_layer \<Rightarrow> bool \<Rightarrow> bool \<Rightarrow> compile_error + override option" where
  "mergeRequireSandbox layer prev nxt =
     (if nxt = prev then Inr None
      else if prev \<and> \<not> nxt then
        Inl (CompileError layer ''require_sandbox'' ''attempted to weaken require_sandbox true -> false'')
      else Inr (Some \<lparr>ov_Field = ''require_sandbox'', ov_FromLayer = layer, ov_Old = show_bool prev,
        ov_New = show_bool nxt, ov_Direction = DirectionTightened\<rparr>))"

section \<open>Applying a layer and folding the layers\<close>

text \<open>
  A step on the effective policy returns its new value and the overrides it appends; steps run
  one after another until one fails. On a failure Go leaves the effective policy half merged,
  but \<open>Compile\<close> drops it.
\<close>

type_synonym policy_step = "policy \<Rightarrow> compile_error + policy \<times> override list"

fun run_steps :: "policy_step list \<Rightarrow> policy_step" where
  "run_steps [] eff = Inr (eff, [])"
| "run_steps (f # fs) eff =
     (case f eff of
        Inl e \<Rightarrow> Inl e
      | Inr (eff', ovs) \<Rightarrow>
          (case run_steps fs eff' of
             Inl e \<Rightarrow> Inl e
           | Inr (eff'', ovs') \<Rightarrow> Inr (eff'', ovs @ ovs')))"

definition set_field ::
    "('v \<Rightarrow> policy \<Rightarrow> policy) \<Rightarrow> compile_error + 'v \<times> override list \<Rightarrow> policy \<Rightarrow> compile_error + policy \<times> override list" where
  "set_field put r eff = (case r of Inl e \<Rightarrow> Inl e | Inr (v, ovs) \<Rightarrow> Inr (put v eff, ovs))"

definition permissions_field :: "policy_layer \<Rightarrow> layer_policy \<Rightarrow> policy_step" where
  "permissions_field layer nxt eff =
     (case lp_PermissionsAllowlist nxt of
        None \<Rightarrow> Inr (eff, [])
      | Some vs \<Rightarrow> set_field (\<lambda>v. po_PermissionsAllowlist_update (\<lambda>_. v))
          (mergeStringSet ''permissions_allowlist'' layer (po_PermissionsAllowlist eff) vs) eff)"

definition executors_field :: "policy_layer \<Rightarrow> layer_policy \<Rightarrow> policy_step" where
  "executors_field layer nxt eff =
     (case lp_ExecutorAllowlist nxt of
        None \<Rightarrow> Inr (eff, [])
      | Some vs \<Rightarrow> set_field (\<lambda>v. po_ExecutorAllowlist_update (\<lambda>_. v))
          (mergeStringSet ''executor_allowlist'' layer (po_ExecutorAllowlist eff) vs) eff)"

definition classes_field :: "policy_layer \<Rightarrow> layer_policy \<Rightarrow> policy_step" where
  "classes_field layer nxt eff =
     (case lp_NotificationClasses nxt of
        None \<Rightarrow> Inr (eff, [])
      | Some vs \<Rightarrow> set_field (\<lambda>v. po_NotificationClasses_update (\<lambda>_. v))
          (mergeStringSet ''notification_classes'' layer (po_NotificationClasses eff) vs) eff)"

definition modes_field :: "policy_layer \<Rightarrow> layer_policy \<Rightarrow> policy_step" where
  "modes_field layer nxt eff =
     (if lp_DeploymentModes nxt = fmempty then Inr (eff, [])
      else set_field (\<lambda>v. po_DeploymentModes_update (\<lambda>_. v))
        (mergeDeploymentModes layer (po_DeploymentModes eff) (lp_DeploymentModes nxt)) eff)"

definition budgets_field :: "policy_layer \<Rightarrow> layer_policy \<Rightarrow> policy_step" where
  "budgets_field layer nxt eff =
     (if lp_BudgetCeilingsUSD nxt = fmempty then Inr (eff, [])
      else set_field (\<lambda>v. po_BudgetCeilingsUSD_update (\<lambda>_. v))
        (mergeBudgets layer (po_BudgetCeilingsUSD eff) (lp_BudgetCeilingsUSD nxt)) eff)"

definition tiers_field :: "policy_layer \<Rightarrow> layer_policy \<Rightarrow> policy_step" where
  "tiers_field layer nxt eff =
     (if lp_RiskTierControls nxt = fmempty then Inr (eff, [])
      else set_field (\<lambda>v. po_RiskTierControls_update (\<lambda>_. v))
        (mergeRiskTiers layer (po_RiskTierControls eff) (lp_RiskTierControls nxt)) eff)"

definition reference_field :: "policy_layer \<Rightarrow> layer_policy \<Rightarrow> policy_step" where
  "reference_field layer nxt eff =
     (case lp_ValidationAllowlistRef nxt of
        None \<Rightarrow> Inr (eff, [])
      | Some r \<Rightarrow>
          (case mergeFixedString ''validation_allowlist_ref'' layer (po_ValidationAllowlistRef eff) r of
             Inl e \<Rightarrow> Inl e
           | Inr ovs \<Rightarrow> Inr (eff, ovs)))"

definition sandbox_field :: "policy_layer \<Rightarrow> layer_policy \<Rightarrow> policy_step" where
  "sandbox_field layer nxt eff =
     (case lp_RequireSandbox nxt of
        None \<Rightarrow> Inr (eff, [])
      | Some b \<Rightarrow>
          (case mergeRequireSandbox layer (po_RequireSandbox eff) b of
             Inl e \<Rightarrow> Inl e
           | Inr None \<Rightarrow> Inr (eff, [])
           | Inr (Some ov) \<Rightarrow> Inr (eff\<lparr>po_RequireSandbox := b\<rparr>, [ov])))"

definition applyLayer :: "policy_layer \<Rightarrow> layer_policy \<Rightarrow> policy_step" where
  "applyLayer layer nxt =
     run_steps
       [permissions_field layer nxt, executors_field layer nxt, classes_field layer nxt, modes_field layer nxt,
        budgets_field layer nxt, tiers_field layer nxt, reference_field layer nxt, sandbox_field layer nxt]"

text \<open>
  The walk over the platform's deployment modes has no fixed order in Go; which of several
  invalid modes the message names is all that depends on it.
\<close>

definition platformEffective :: "layer_policy \<Rightarrow> compile_error + policy" where
  "platformEffective p =
     (let missing = (\<lambda>field. Inl (CompileError LayerPlatform field ''platform layer must set this field'')) in
      case lp_PermissionsAllowlist p of None \<Rightarrow> missing ''permissions_allowlist'' | Some perms \<Rightarrow>
      if lp_DeploymentModes p = fmempty then missing ''deployment_modes''
      else if lp_BudgetCeilingsUSD p = fmempty then missing ''budget_ceilings_usd''
      else case lp_ExecutorAllowlist p of None \<Rightarrow> missing ''executor_allowlist'' | Some execs \<Rightarrow>
      (case lp_ValidationAllowlistRef p of None \<Rightarrow> missing ''validation_allowlist_ref'' | Some r \<Rightarrow>
      if r = [] then missing ''validation_allowlist_ref''
      else case lp_NotificationClasses p of None \<Rightarrow> missing ''notification_classes'' | Some classes \<Rightarrow>
      if lp_RiskTierControls p = fmempty then missing ''risk_tier_controls''
      else case lp_RequireSandbox p of None \<Rightarrow> missing ''require_sandbox'' | Some sandbox \<Rightarrow>
      (case find (\<lambda>env. \<not> mode_valid (the (fmlookup (lp_DeploymentModes p) env))) (sortedMapKeys (lp_DeploymentModes p)) of
         Some env \<Rightarrow>
           Inl (CompileError LayerPlatform ''deployment_modes''
             (''env '' @ quote env @ '': invalid mode '' @ quote (the (fmlookup (lp_DeploymentModes p) env))))
       | None \<Rightarrow>
           Inr \<lparr>po_PermissionsAllowlist = sortedCopy perms, po_DeploymentModes = lp_DeploymentModes p,
             po_BudgetCeilingsUSD = lp_BudgetCeilingsUSD p, po_ExecutorAllowlist = sortedCopy execs,
             po_ValidationAllowlistRef = r, po_NotificationClasses = sortedCopy classes,
             po_RiskTierControls = lp_RiskTierControls p, po_RequireSandbox = sandbox\<rparr>)))"

text \<open>
  \<open>json.Marshal\<close> fails on this type exactly when a number is not finite; \<open>marshal\<close> is the text it
  returns otherwise and \<open>sha256\<close> the digest in hexadecimal.
\<close>

definition digestOf :: "(policy \<Rightarrow> string) \<Rightarrow> (string \<Rightarrow> string) \<Rightarrow> policy \<Rightarrow> compile_error + string" where
  "digestOf marshal sha256 eff =
     (if list_ex (\<lambda>k. non_finite (the (fmlookup (po_BudgetCeilingsUSD eff) k))) (sortedMapKeys (po_BudgetCeilingsUSD eff))
      then Inl DigestError
      else Inr (''sha256:'' @ sha256 (marshal eff)))"

definition Compile ::
    "(policy \<Rightarrow> string) \<Rightarrow> (string \<Rightarrow> string) \<Rightarrow> layer_policy \<Rightarrow> layer_policy \<Rightarrow> layer_policy \<Rightarrow> layer_policy \<Rightarrow>
     compile_error + resolved" where
  "Compile marshal sha256 platform org profile workflow =
     (case platformEffective platform of
        Inl e \<Rightarrow> Inl e
      | Inr eff \<Rightarrow>
          (case run_steps [applyLayer LayerOrg org, applyLayer LayerProfile profile, applyLayer LayerWorkflow workflow] eff of
             Inl e \<Rightarrow> Inl e
           | Inr (eff', overrides) \<Rightarrow>
               (case digestOf marshal sha256 eff' of
                  Inl e \<Rightarrow> Inl e
                | Inr digest \<Rightarrow> Inr \<lparr>re_Effective = eff', re_Overrides = overrides, re_Digest = digest\<rparr>)))"

section \<open>The sources of the layers\<close>

record org_governance =
  og_RequiredApproverRoles :: "string list"
  og_PushAuthorization :: string
  og_SCMProvider :: string

definition empty_pack :: org_governance where
  "empty_pack = \<lparr>og_RequiredApproverRoles = [], og_PushAuthorization = [], og_SCMProvider = []\<rparr>"

definition AllowsPushBy :: "org_governance \<Rightarrow> string \<Rightarrow> bool" where
  "AllowsPushBy g who =
     (if og_PushAuthorization g = ''kernel-only'' then who = ''service:go-kernel'' else False)"

definition ValidateOrgGovernancePack :: "org_governance \<Rightarrow> compile_error option" where
  "ValidateOrgGovernancePack g =
     (if \<not> (og_PushAuthorization g = ''kernel-only'' \<or> og_PushAuthorization g = []) then
        Some (CompileError LayerOrg ''push_authorization''
          (''unknown value '' @ og_PushAuthorization g @ ''; only \"kernel-only\" is accepted''))
      else if \<not> (og_SCMProvider g = [] \<or> og_SCMProvider g = ''github'' \<or> og_SCMProvider g = ''bitbucket'') then
        Some (CompileError LayerOrg ''scm_provider''
          (''unknown value '' @ og_SCMProvider g @ ''; only \"github\" or \"bitbucket\" are accepted''))
      else None)"

text \<open>
  A node of a parsed YAML document. A mapping keeps keys and values alternating in its content;
  the value of a node that is not a scalar is empty.
\<close>

datatype yaml_kind = DocumentNode | SequenceNode | MappingNode | ScalarNode | AliasNode

datatype yaml_node = YamlNode (yn_Kind: yaml_kind) (yn_Value: string) (yn_Content: "yaml_node list")

function (sequential) rejectDuplicateMappingKeys :: "yaml_node \<Rightarrow> string option"
  and reject_children :: "yaml_node list \<Rightarrow> string option"
  and reject_pairs :: "string list \<Rightarrow> yaml_node list \<Rightarrow> string option" where
  "rejectDuplicateMappingKeys (YamlNode DocumentNode v cs) = reject_children cs"
| "rejectDuplicateMappingKeys (YamlNode SequenceNode v cs) = reject_children cs"
| "rejectDuplicateMappingKeys (YamlNode MappingNode v cs) = reject_pairs [] cs"
| "rejectDuplicateMappingKeys (YamlNode _ v cs) = None"
| "reject_children [] = None"
| "reject_children (c # cs) =
     (case rejectDuplicateMappingKeys c of Some e \<Rightarrow> Some e | None \<Rightarrow> reject_children cs)"
| "reject_pairs seen (k # v # cs) =
     (if yn_Value k \<in> set seen then Some (''duplicate field '' @ quote (yn_Value k))
      else case rejectDuplicateMappingKeys v of
        Some e \<Rightarrow> Some e
      | None \<Rightarrow> reject_pairs (yn_Value k # seen) cs)"
| "reject_pairs seen _ = None"
  by pat_completeness auto
termination
  by (relation "measure (case_sum size (case_sum (size_list size) (\<lambda>(seen, cs). size_list size cs)))") auto

datatype load_error = LoadError string | LoadCompile compile_error

record layer_yaml =
  ly_Policy :: layer_policy
  ly_OrgGovernance :: "org_governance option"

text \<open>
  \<open>yaml_tree\<close> is \<open>yaml.Unmarshal\<close> into a node and \<open>yaml_layer\<close> the strict decoder, which refuses a
  key it does not know; the package selections it also accepts never leave the loader.
\<close>

record yaml_lib =
  yl_tree :: "string \<Rightarrow> string + yaml_node"
  yl_layer :: "string \<Rightarrow> string + layer_yaml"

definition decodeLayer :: "yaml_lib \<Rightarrow> string \<Rightarrow> string \<Rightarrow> load_error + layer_yaml" where
  "decodeLayer yl raw path =
     (let refuse = (\<lambda>e. Inl (LoadError (''policy compiler: parse layer '' @ path @ '': '' @ e))) in
      case yl_tree yl raw of
        Inl e \<Rightarrow> refuse e
      | Inr document \<Rightarrow>
          (case rejectDuplicateMappingKeys document of
             Some e \<Rightarrow> refuse e
           | None \<Rightarrow> (case yl_layer yl raw of Inl e \<Rightarrow> refuse e | Inr ly \<Rightarrow> Inr ly)))"

definition ParseOrgLayerYAML :: "yaml_lib \<Rightarrow> string \<Rightarrow> string \<Rightarrow> load_error + layer_policy \<times> org_governance" where
  "ParseOrgLayerYAML yl raw source0 =
     (let source = (if source0 = [] then ''<memory>'' else source0) in
      case decodeLayer yl raw source of
        Inl e \<Rightarrow> Inl e
      | Inr ly \<Rightarrow>
          (let pack = (case ly_OrgGovernance ly of None \<Rightarrow> empty_pack | Some p \<Rightarrow> p) in
           case ValidateOrgGovernancePack pack of
             Some e \<Rightarrow> Inl (LoadCompile e)
           | None \<Rightarrow> Inr (ly_Policy ly, pack)))"

definition ParseProfileLayerYAML :: "yaml_lib \<Rightarrow> string \<Rightarrow> string \<Rightarrow> load_error + layer_policy" where
  "ParseProfileLayerYAML yl raw source0 =
     (let source = (if source0 = [] then ''<memory>'' else source0) in
      case decodeLayer yl raw source of
        Inl e \<Rightarrow> Inl e
      | Inr ly \<Rightarrow>
          (if ly_OrgGovernance ly \<noteq> None then
             Inl (LoadError (''policy compiler: profile layer '' @ source @ '' must not declare org_governance (org-layer-only)''))
           else Inr (ly_Policy ly)))"

definition LoadOrgLayer :: "yaml_lib \<Rightarrow> (string \<Rightarrow> string option) \<Rightarrow> string \<Rightarrow> load_error + layer_policy \<times> org_governance" where
  "LoadOrgLayer yl files path =
     (case files path of
        None \<Rightarrow> Inl (LoadError (''policy compiler: read org layer '' @ path))
      | Some raw \<Rightarrow> ParseOrgLayerYAML yl raw path)"

definition LoadProfileLayer :: "yaml_lib \<Rightarrow> (string \<Rightarrow> string option) \<Rightarrow> string \<Rightarrow> load_error + layer_policy" where
  "LoadProfileLayer yl files path =
     (case files path of
        None \<Rightarrow> Inl (LoadError (''policy compiler: read profile layer '' @ path))
      | Some raw \<Rightarrow> ParseProfileLayerYAML yl raw path)"

definition WorkflowLayer :: layer_policy where
  "WorkflowLayer = empty_layer"

text \<open>The embedded \<open>platform.yaml\<close>, as \<open>PlatformDefaults\<close> decodes it.\<close>

definition PlatformDefaults :: layer_policy where
  "PlatformDefaults =
     \<lparr>lp_PermissionsAllowlist = Some [''repo-read'', ''repo-write'', ''ci-trigger''],
      lp_DeploymentModes =
        fmap_of_list [(''preview'', ModeAuto), (''staging'', ModeCommand), (''production'', ModeCommand)],
      lp_BudgetCeilingsUSD = fmap_of_list [(''workflow_usd'', Fin 100), (''task_usd'', Fin 5)],
      lp_ExecutorAllowlist = Some [''fake'', ''claude-code''],
      lp_ValidationAllowlistRef = Some ''config/validation-allowlist.yaml'',
      lp_NotificationClasses = Some [''telegram-low-risk'', ''telegram-veto-digest'', ''email''],
      lp_RiskTierControls =
        fmap_of_list
          [(''A0'', \<lparr>rc_AutoAllowed = True, rc_RequireReview = False\<rparr>),
           (''A1'', \<lparr>rc_AutoAllowed = True, rc_RequireReview = True\<rparr>),
           (''A2'', \<lparr>rc_AutoAllowed = True, rc_RequireReview = True\<rparr>),
           (''H'', \<lparr>rc_AutoAllowed = False, rc_RequireReview = True\<rparr>)],
      lp_RequireSandbox = Some False\<rparr>"

definition CompileFourLayer ::
    "(policy \<Rightarrow> string) \<Rightarrow> (string \<Rightarrow> string) \<Rightarrow> yaml_lib \<Rightarrow> (string \<Rightarrow> string option) \<Rightarrow> string \<Rightarrow> string \<Rightarrow>
     load_error + resolved \<times> org_governance" where
  "CompileFourLayer marshal sha256 yl files orgPath profilePath =
     (case (if orgPath \<noteq> [] then LoadOrgLayer yl files orgPath else Inr (empty_layer, empty_pack)) of
        Inl e \<Rightarrow> Inl e
      | Inr (org, pack) \<Rightarrow>
          (case (if profilePath \<noteq> [] then LoadProfileLayer yl files profilePath else Inr empty_layer) of
             Inl e \<Rightarrow> Inl e
           | Inr profile \<Rightarrow>
               (case Compile marshal sha256 PlatformDefaults org profile WorkflowLayer of
                  Inl e \<Rightarrow> Inl (LoadCompile e)
                | Inr r \<Rightarrow> Inr (r, pack))))"

text \<open>
  \<open>json_budget\<close> reads \<open>budget.max_usd\<close> of a profile's configuration: \<^const>\<open>None\<close> when the text is no
  JSON object of that shape, zero when the field is absent.
\<close>

definition ProfileLayerFromConfig :: "(string \<Rightarrow> f64 option) \<Rightarrow> string \<Rightarrow> load_error + layer_policy" where
  "ProfileLayerFromConfig json_budget raw =
     (case json_budget raw of
        None \<Rightarrow> Inl (LoadError ''compiler: parse profile config'')
      | Some usd \<Rightarrow> Inr (empty_layer\<lparr>lp_BudgetCeilingsUSD := fmap_of_list [(''workflow_usd'', usd)]\<rparr>))"

definition ProfilePolicyDigest ::
    "(policy \<Rightarrow> string) \<Rightarrow> (string \<Rightarrow> string) \<Rightarrow> (string \<Rightarrow> f64 option) \<Rightarrow> string \<Rightarrow> load_error + string" where
  "ProfilePolicyDigest marshal sha256 json_budget raw =
     (case ProfileLayerFromConfig json_budget raw of
        Inl e \<Rightarrow> Inl e
      | Inr profileLayer \<Rightarrow>
          (case Compile marshal sha256 PlatformDefaults empty_layer profileLayer empty_layer of
             Inl e \<Rightarrow> Inl (LoadCompile e)
           | Inr r \<Rightarrow> Inr (re_Digest r)))"

section \<open>The decision point\<close>

record dir_entry =
  de_Name :: string
  de_IsDir :: bool

text \<open>
  A directory listing and the content that reading an entry returns. An entry name of a
  directory has no separator and its join with the cleaned directory stays inside it, so the
  prefix test of the source never fires; the other tests are kept.
\<close>

fun read_rego ::
    "(string \<Rightarrow> string option) \<Rightarrow> dir_entry list \<Rightarrow> (string, string) fmap \<Rightarrow> string + (string, string) fmap" where
  "read_rego content [] files = Inr files"
| "read_rego content (e # es) files =
     (let name = de_Name e in
      if \<not> has_suffix name ''.rego'' then read_rego content es files
      else if de_IsDir e \<or> CHR ''/'' \<in> set name \<or> CHR 0x5C \<in> set name \<or> contains name ''..'' then
        Inl (''refusing suspicious entry '' @ quote name)
      else case content name of
        None \<Rightarrow> Inl (''pdp: read rego file '' @ quote name)
      | Some c \<Rightarrow> read_rego content es (fmupd name c files))"

definition loadRegoFiles :: "dir_entry list option \<Rightarrow> (string \<Rightarrow> string option) \<Rightarrow> string + (string, string) fmap" where
  "loadRegoFiles listing content =
     (case listing of
        None \<Rightarrow> Inl ''pdp: read rego bundle dir''
      | Some entries \<Rightarrow>
          (case read_rego content entries fmempty of
             Inl e \<Rightarrow> Inl e
           | Inr files \<Rightarrow> (if files = fmempty then Inl ''no .rego files found'' else Inr files)))"

definition bundle_text :: "(string, string) fmap \<Rightarrow> string" where
  "bundle_text files =
     concat (map (\<lambda>name. name @ [newline] @ the (fmlookup files name) @ [newline]) (sortedMapKeys files))"

definition digestFiles :: "(string \<Rightarrow> string) \<Rightarrow> (string, string) fmap \<Rightarrow> string" where
  "digestFiles sha256 files = ''sha256:'' @ sha256 (bundle_text files)"

definition BundleDigest :: "(string \<Rightarrow> string) \<Rightarrow> dir_entry list option \<Rightarrow> (string \<Rightarrow> string option) \<Rightarrow> string + string" where
  "BundleDigest sha256 listing content =
     (case loadRegoFiles listing content of Inl e \<Rightarrow> Inl e | Inr files \<Rightarrow> Inr (digestFiles sha256 files))"

record 'v pdp_request =
  pr_Principal :: string
  pr_Action :: string
  pr_Resource :: string
  pr_Context :: 'v
  pr_PolicyDigest :: string

record pdp_decision =
  pd_Allow :: bool
  pd_Reason :: string

record opa_decider =
  od_Files :: "(string, string) fmap"
  od_BundleDigest :: string
  od_Resolved :: resolved

text \<open>
  \<open>rego\<close> compiles and evaluates a bundle: \<open>prepare\<close> says whether the modules compile, \<open>eval\<close> returns
  for the modules, the request and the effective policy the bindings of each result, the
  variables \<open>x\<close> and \<open>y\<close> being \<^const>\<open>None\<close> when they are bound to another type than the source
  expects.
\<close>

definition NewOPADecider ::
    "(string \<Rightarrow> string) \<Rightarrow> ((string, string) fmap \<Rightarrow> bool) \<Rightarrow> dir_entry list option \<Rightarrow> (string \<Rightarrow> string option) \<Rightarrow>
     string \<Rightarrow> resolved option \<Rightarrow> string + opa_decider" where
  "NewOPADecider sha256 prepare listing content pinnedBundleDigest res =
     (case res of
        None \<Rightarrow> Inl ''pdp: resolved policy is required''
      | Some r \<Rightarrow>
          if re_Digest r = [] then Inl ''pdp: resolved policy has no digest''
          else case loadRegoFiles listing content of
            Inl e \<Rightarrow> Inl e
          | Inr files \<Rightarrow>
              (let actualDigest = digestFiles sha256 files in
               if actualDigest \<noteq> pinnedBundleDigest then
                 Inl (''pdp: rego bundle digest mismatch: pinned '' @ pinnedBundleDigest @ '', loaded '' @ actualDigest)
               else if \<not> prepare files then Inl ''pdp: compile rego bundle''
               else Inr \<lparr>od_Files = files, od_BundleDigest = actualDigest, od_Resolved = r\<rparr>))"

definition OPADecider_Decide ::
    "((string, string) fmap \<Rightarrow> 'v pdp_request \<Rightarrow> policy \<Rightarrow> string + (bool option \<times> string option) list) \<Rightarrow>
     opa_decider \<Rightarrow> 'v pdp_request \<Rightarrow> string + pdp_decision" where
  "OPADecider_Decide eval d req =
     (if pr_PolicyDigest req \<noteq> re_Digest (od_Resolved d) then
        Inr \<lparr>pd_Allow = False, pd_Reason =
          ''denied: request policy_digest '' @ quote (pr_PolicyDigest req) @
          '' does not match the ResolvedPolicy this PDP was booted with ('' @ quote (re_Digest (od_Resolved d)) @ '')''\<rparr>
      else case eval (od_Files d) req (re_Effective (od_Resolved d)) of
        Inl e \<Rightarrow> Inl (''pdp: evaluate: '' @ e)
      | Inr [] \<Rightarrow> Inl ''pdp: evaluate: empty result set''
      | Inr ((x, y) # _) \<Rightarrow>
          Inr \<lparr>pd_Allow = (case x of None \<Rightarrow> False | Some b \<Rightarrow> b), pd_Reason = (case y of None \<Rightarrow> [] | Some s \<Rightarrow> s)\<rparr>)"

definition VerifyIntegrity ::
    "(string \<Rightarrow> string) \<Rightarrow> opa_decider \<Rightarrow> dir_entry list option \<Rightarrow> (string \<Rightarrow> string option) \<Rightarrow> string option" where
  "VerifyIntegrity sha256 d listing content =
     (case loadRegoFiles listing content of
        Inl e \<Rightarrow> Some e
      | Inr files \<Rightarrow>
          (if digestFiles sha256 files \<noteq> od_BundleDigest d then Some ''has changed since boot'' else None))"

section \<open>Merging only tightens\<close>

lemma set_sortedMapKeys [simp]: "set (sortedMapKeys m) = fset (fmdom m)"
  by (simp add: sortedMapKeys_def)

lemma distinct_sortedMapKeys [simp]: "distinct (sortedMapKeys m)"
  by (simp add: sortedMapKeys_def sorted_list_of_fset.rep_eq)

lemma sortedMapKeys_empty [simp]: "sortedMapKeys fmempty = []"
  by (simp add: sortedMapKeys_def sorted_list_of_fset.rep_eq)

lemma sortedMapKeys_upd [simp]:
  "sortedMapKeys (fmupd k v m) = (if fmlookup m k = None then insort k (sortedMapKeys m) else sortedMapKeys m)"
proof (cases "fmlookup m k")
  case None
  then show ?thesis by (simp add: sortedMapKeys_def sorted_list_of_fset.rep_eq fmdom_notI)
next
  case (Some w)
  then have "finsert k (fmdom m) = fmdom m" by (simp add: fmdomI finsert_absorb)
  then show ?thesis using Some by (simp add: sortedMapKeys_def)
qed

lemma fmupd_not_empty [simp]: "fmupd k v m \<noteq> fmempty"
  by (metis fmdom_fmupd fmdom_empty finsert_not_fempty)

text \<open>
  The contract of the merges of maps: a step looks at its own key only, and an accepted key
  exists already, takes the value of the layer and is related to the old value.
\<close>

locale keyed_merge =
  fixes step :: "policy_layer \<Rightarrow> (string, 'v) fmap \<Rightarrow> string \<Rightarrow> (string, 'v) fmap \<Rightarrow> compile_error + (string, 'v) fmap \<times> override list"
    and field :: string
    and tightens :: "'v \<Rightarrow> 'v \<Rightarrow> bool"
  assumes step_Inr: "step l nxt k prev = Inr (prev', ovs) \<Longrightarrow> fmlookup nxt k = Some v \<Longrightarrow>
      \<exists>old. fmlookup prev k = Some old \<and> tightens old v \<and> prev' = fmupd k v prev"
    and step_Inl: "step l nxt k prev = Inl e \<Longrightarrow> fmlookup nxt k = Some v \<Longrightarrow>
      pe_Layer e = l \<and> pe_Field e = field \<and> e \<noteq> DigestError \<and>
      (fmlookup prev k = None \<or> (\<exists>old. fmlookup prev k = Some old \<and> \<not> tightens old v))"
begin

lemma loop_Inr:
  "merge_loop (step l nxt) ks prev = Inr (out, ovs) \<Longrightarrow> distinct ks \<Longrightarrow> set ks \<subseteq> fset (fmdom nxt) \<Longrightarrow>
     (\<forall>k. fmlookup out k = (if k \<in> set ks then fmlookup nxt k else fmlookup prev k)) \<and>
     (\<forall>k \<in> set ks. \<exists>old. fmlookup prev k = Some old \<and> tightens old (the (fmlookup nxt k)))"
proof (induction ks arbitrary: prev ovs)
  case (Cons k ks)
  obtain v where v: "fmlookup nxt k = Some v" using Cons.prems(3) by (auto simp: fmlookup_dom_iff)
  from Cons.prems(1) obtain prev' ov ovs' where s: "step l nxt k prev = Inr (prev', ov)"
    and r: "merge_loop (step l nxt) ks prev' = Inr (out, ovs')"
    by (auto split: sum.splits prod.splits)
  obtain old where old: "fmlookup prev k = Some old" "tightens old v" "prev' = fmupd k v prev"
    using step_Inr [OF s v] by blast
  have "(\<forall>x. fmlookup out x = (if x \<in> set ks then fmlookup nxt x else fmlookup prev' x)) \<and>
     (\<forall>x \<in> set ks. \<exists>old. fmlookup prev' x = Some old \<and> tightens old (the (fmlookup nxt x)))"
    using Cons.IH [OF r] Cons.prems by simp
  then show ?case using old v Cons.prems(2) by (auto split: if_splits)
qed auto

lemma loop_Inl:
  "merge_loop (step l nxt) ks prev = Inl e \<Longrightarrow> distinct ks \<Longrightarrow> set ks \<subseteq> fset (fmdom nxt) \<Longrightarrow>
     pe_Layer e = l \<and> pe_Field e = field \<and> e \<noteq> DigestError \<and>
     (\<exists>k v. k \<in> set ks \<and> fmlookup nxt k = Some v \<and> (fmlookup prev k = None \<or> (\<exists>old. fmlookup prev k = Some old \<and> \<not> tightens old v)))"
proof (induction ks arbitrary: prev)
  case (Cons k ks)
  obtain v where v: "fmlookup nxt k = Some v" using Cons.prems(3) by (auto simp: fmlookup_dom_iff)
  show ?case
  proof (cases "step l nxt k prev")
    case (Inl e')
    then show ?thesis using Cons.prems(1) step_Inl [OF Inl v] v by auto
  next
    case (Inr r)
    obtain prev' ov where r: "r = (prev', ov)" by fastforce
    then have m: "merge_loop (step l nxt) ks prev' = Inl e" using Cons.prems(1) Inr by (auto split: sum.splits prod.splits)
    obtain old where old: "fmlookup prev k = Some old" "tightens old v" "prev' = fmupd k v prev"
      using step_Inr Inr r v by blast
    from Cons.IH [OF m] Cons.prems(2,3)
    have e: "pe_Layer e = l \<and> pe_Field e = field \<and> e \<noteq> DigestError" and
      "\<exists>x w. x \<in> set ks \<and> fmlookup nxt x = Some w \<and> (fmlookup prev' x = None \<or> (\<exists>old. fmlookup prev' x = Some old \<and> \<not> tightens old w))"
      by simp_all
    then obtain x w where x: "x \<in> set ks" "fmlookup nxt x = Some w"
        "fmlookup prev' x = None \<or> (\<exists>old. fmlookup prev' x = Some old \<and> \<not> tightens old w)" by blast
    then have "x \<noteq> k" using Cons.prems(2) by auto
    then show ?thesis using e x old by auto
  qed
qed simp

end

definition mode_tightens :: "deploy_mode \<Rightarrow> deploy_mode \<Rightarrow> bool" where
  "mode_tightens old v = (mode_valid v \<and> rank_of old \<le> rank_of v)"

definition ceiling_tightens :: "f64 \<Rightarrow> f64 \<Rightarrow> bool" where
  "ceiling_tightens old v = (\<not> f64_less old v)"

lemma fmupd_same: "fmlookup m k = Some v \<Longrightarrow> fmupd k v m = m"
  by (rule fmap_ext) auto

interpretation modes_merge: keyed_merge mode_step "''deployment_modes''" mode_tightens
  by unfold_locales
    (auto simp: mode_step_def mode_tightens_def Let_def fmupd_same split: if_splits option.splits)

interpretation budgets_merge: keyed_merge budget_step "''budget_ceilings_usd''" ceiling_tightens
  by unfold_locales
    (auto simp: budget_step_def ceiling_tightens_def f64_eq_def Let_def fmupd_same split: if_splits option.splits)

interpretation tiers_merge: keyed_merge tier_step "''risk_tier_controls''" stricterOrEqual
  by unfold_locales
    (auto simp: tier_step_def Let_def fmupd_same split: if_splits option.splits)

section \<open>What a layer may do, as a specification\<close>

definition subset_ok :: "string list \<Rightarrow> string list option \<Rightarrow> bool" where
  "subset_ok prev nxt = (case nxt of None \<Rightarrow> True | Some vs \<Rightarrow> set vs \<subseteq> set prev)"

definition map_ok :: "('v \<Rightarrow> 'v \<Rightarrow> bool) \<Rightarrow> (string, 'v) fmap \<Rightarrow> (string, 'v) fmap \<Rightarrow> bool" where
  "map_ok tightens prev nxt =
     list_all (\<lambda>k. case fmlookup prev k of None \<Rightarrow> False | Some old \<Rightarrow> tightens old (the (fmlookup nxt k))) (sortedMapKeys nxt)"

definition fixed_ok :: "string \<Rightarrow> string option \<Rightarrow> bool" where
  "fixed_ok prev nxt = (case nxt of None \<Rightarrow> True | Some r \<Rightarrow> r = prev)"

definition sandbox_ok :: "bool \<Rightarrow> bool option \<Rightarrow> bool" where
  "sandbox_ok prev nxt = (case nxt of None \<Rightarrow> True | Some b \<Rightarrow> prev \<longrightarrow> b)"

text \<open>The rule of each field, by the name the errors use.\<close>

definition field_ok :: "string \<Rightarrow> policy \<Rightarrow> layer_policy \<Rightarrow> bool" where
  "field_ok field eff nxt =
     (if field = ''permissions_allowlist'' then subset_ok (po_PermissionsAllowlist eff) (lp_PermissionsAllowlist nxt)
      else if field = ''executor_allowlist'' then subset_ok (po_ExecutorAllowlist eff) (lp_ExecutorAllowlist nxt)
      else if field = ''notification_classes'' then subset_ok (po_NotificationClasses eff) (lp_NotificationClasses nxt)
      else if field = ''deployment_modes'' then map_ok mode_tightens (po_DeploymentModes eff) (lp_DeploymentModes nxt)
      else if field = ''budget_ceilings_usd'' then map_ok ceiling_tightens (po_BudgetCeilingsUSD eff) (lp_BudgetCeilingsUSD nxt)
      else if field = ''risk_tier_controls'' then map_ok stricterOrEqual (po_RiskTierControls eff) (lp_RiskTierControls nxt)
      else if field = ''validation_allowlist_ref'' then
        fixed_ok (po_ValidationAllowlistRef eff) (lp_ValidationAllowlistRef nxt)
      else if field = ''require_sandbox'' then
        sandbox_ok (po_RequireSandbox eff) (lp_RequireSandbox nxt)
      else True)"

definition accepts :: "policy \<Rightarrow> layer_policy \<Rightarrow> bool" where
  "accepts eff nxt = list_all (\<lambda>(field, rule). field_ok field eff nxt) fieldRules"

text \<open>What an accepted layer leaves: its own values where it has one, the inherited ones elsewhere.\<close>

definition declared :: "string list \<Rightarrow> string list option \<Rightarrow> string list" where
  "declared prev nxt = (case nxt of None \<Rightarrow> prev | Some vs \<Rightarrow> sort vs)"

definition given :: "'v \<Rightarrow> 'v option \<Rightarrow> 'v" where
  "given prev nxt = (case nxt of None \<Rightarrow> prev | Some v \<Rightarrow> v)"

definition overlay :: "policy \<Rightarrow> layer_policy \<Rightarrow> policy" where
  "overlay eff nxt =
     \<lparr>po_PermissionsAllowlist = declared (po_PermissionsAllowlist eff) (lp_PermissionsAllowlist nxt),
      po_DeploymentModes = po_DeploymentModes eff ++\<^sub>f lp_DeploymentModes nxt,
      po_BudgetCeilingsUSD = po_BudgetCeilingsUSD eff ++\<^sub>f lp_BudgetCeilingsUSD nxt,
      po_ExecutorAllowlist = declared (po_ExecutorAllowlist eff) (lp_ExecutorAllowlist nxt),
      po_ValidationAllowlistRef = po_ValidationAllowlistRef eff,
      po_NotificationClasses = declared (po_NotificationClasses eff) (lp_NotificationClasses nxt),
      po_RiskTierControls = po_RiskTierControls eff ++\<^sub>f lp_RiskTierControls nxt,
      po_RequireSandbox = given (po_RequireSandbox eff) (lp_RequireSandbox nxt)\<rparr>"

definition names :: "compile_error \<Rightarrow> policy_layer \<Rightarrow> string \<Rightarrow> bool" where
  "names e l field = (\<exists>m. e = CompileError l field m)"

lemma names_iff: "names e l field \<longleftrightarrow> pe_Layer e = l \<and> pe_Field e = field \<and> e \<noteq> DigestError"
  by (cases e) (auto simp: names_def)

lemma mergeStringSet_Inr: "mergeStringSet field l prev vs = Inr (out, ovs) \<Longrightarrow> set vs \<subseteq> set prev \<and> out = sort vs"
  by (auto simp: mergeStringSet_def Let_def filter_empty_conv split: if_splits)

lemma mergeStringSet_Inl: "mergeStringSet field l prev vs = Inl e \<Longrightarrow> names e l field \<and> \<not> set vs \<subseteq> set prev"
  by (auto simp: mergeStringSet_def names_def Let_def filter_empty_conv split: if_splits)

context keyed_merge
begin

lemma merge_Inr:
  assumes "merge_loop (step l nxt) (sortedMapKeys nxt) prev = Inr (out, ovs)"
  shows "map_ok tightens prev nxt \<and> out = prev ++\<^sub>f nxt"
proof -
  have l: "\<forall>k. fmlookup out k = (if k \<in> set (sortedMapKeys nxt) then fmlookup nxt k else fmlookup prev k)"
    and t: "\<forall>k \<in> set (sortedMapKeys nxt). \<exists>old. fmlookup prev k = Some old \<and> tightens old (the (fmlookup nxt k))"
    using loop_Inr [OF assms] by auto
  have "out = prev ++\<^sub>f nxt" by (rule fmap_ext) (simp add: l)
  moreover have "map_ok tightens prev nxt" using t by (fastforce simp: map_ok_def list_all_iff)
  ultimately show ?thesis by simp
qed

lemma merge_Inl:
  assumes "merge_loop (step l nxt) (sortedMapKeys nxt) prev = Inl e"
  shows "names e l field \<and> \<not> map_ok tightens prev nxt"
proof -
  obtain k v where "k \<in> set (sortedMapKeys nxt)" "fmlookup nxt k = Some v"
      "fmlookup prev k = None \<or> (\<exists>old. fmlookup prev k = Some old \<and> \<not> tightens old v)"
      and "pe_Layer e = l" "pe_Field e = field" "e \<noteq> DigestError"
    using loop_Inl [OF assms] by auto
  then show ?thesis
    by (auto simp: names_iff map_ok_def list_all_iff intro!: bexI [of _ k])
qed

end

lemma map_ok_empty [simp]: "map_ok t prev fmempty"
  by (simp add: map_ok_def list_all_iff)

lemmas merge_facts =
  modes_merge.merge_Inr [folded mergeDeploymentModes_def] modes_merge.merge_Inl [folded mergeDeploymentModes_def]
  budgets_merge.merge_Inr [folded mergeBudgets_def] budgets_merge.merge_Inl [folded mergeBudgets_def]
  tiers_merge.merge_Inr [folded mergeRiskTiers_def] tiers_merge.merge_Inl [folded mergeRiskTiers_def]
  mergeStringSet_Inr mergeStringSet_Inl

lemmas field_steps =
  permissions_field_def executors_field_def classes_field_def modes_field_def budgets_field_def tiers_field_def
  reference_field_def sandbox_field_def set_field_def

text \<open>Each step obeys the rule of its field and writes nothing else.\<close>

lemma field_Inr:
  "permissions_field l nxt eff = Inr (out, ovs) \<Longrightarrow> field_ok ''permissions_allowlist'' eff nxt \<and>
     out = eff\<lparr>po_PermissionsAllowlist := declared (po_PermissionsAllowlist eff) (lp_PermissionsAllowlist nxt)\<rparr>"
  "executors_field l nxt eff = Inr (out, ovs) \<Longrightarrow> field_ok ''executor_allowlist'' eff nxt \<and>
     out = eff\<lparr>po_ExecutorAllowlist := declared (po_ExecutorAllowlist eff) (lp_ExecutorAllowlist nxt)\<rparr>"
  "classes_field l nxt eff = Inr (out, ovs) \<Longrightarrow> field_ok ''notification_classes'' eff nxt \<and>
     out = eff\<lparr>po_NotificationClasses := declared (po_NotificationClasses eff) (lp_NotificationClasses nxt)\<rparr>"
  "modes_field l nxt eff = Inr (out, ovs) \<Longrightarrow> field_ok ''deployment_modes'' eff nxt \<and>
     out = eff\<lparr>po_DeploymentModes := po_DeploymentModes eff ++\<^sub>f lp_DeploymentModes nxt\<rparr>"
  "budgets_field l nxt eff = Inr (out, ovs) \<Longrightarrow> field_ok ''budget_ceilings_usd'' eff nxt \<and>
     out = eff\<lparr>po_BudgetCeilingsUSD := po_BudgetCeilingsUSD eff ++\<^sub>f lp_BudgetCeilingsUSD nxt\<rparr>"
  "tiers_field l nxt eff = Inr (out, ovs) \<Longrightarrow> field_ok ''risk_tier_controls'' eff nxt \<and>
     out = eff\<lparr>po_RiskTierControls := po_RiskTierControls eff ++\<^sub>f lp_RiskTierControls nxt\<rparr>"
  "reference_field l nxt eff = Inr (out, ovs) \<Longrightarrow> field_ok ''validation_allowlist_ref'' eff nxt \<and> out = eff"
  "sandbox_field l nxt eff = Inr (out, ovs) \<Longrightarrow> field_ok ''require_sandbox'' eff nxt \<and>
     out = eff\<lparr>po_RequireSandbox := given (po_RequireSandbox eff) (lp_RequireSandbox nxt)\<rparr>"
  by (auto simp: field_steps field_ok_def subset_ok_def fixed_ok_def sandbox_ok_def given_def declared_def mergeFixedString_def mergeRequireSandbox_def
      split: option.splits sum.splits if_splits dest!: merge_facts)

lemma field_Inl:
  "permissions_field l nxt eff = Inl e \<Longrightarrow> names e l ''permissions_allowlist'' \<and> \<not> field_ok ''permissions_allowlist'' eff nxt"
  "executors_field l nxt eff = Inl e \<Longrightarrow> names e l ''executor_allowlist'' \<and> \<not> field_ok ''executor_allowlist'' eff nxt"
  "classes_field l nxt eff = Inl e \<Longrightarrow> names e l ''notification_classes'' \<and> \<not> field_ok ''notification_classes'' eff nxt"
  "modes_field l nxt eff = Inl e \<Longrightarrow> names e l ''deployment_modes'' \<and> \<not> field_ok ''deployment_modes'' eff nxt"
  "budgets_field l nxt eff = Inl e \<Longrightarrow> names e l ''budget_ceilings_usd'' \<and> \<not> field_ok ''budget_ceilings_usd'' eff nxt"
  "tiers_field l nxt eff = Inl e \<Longrightarrow> names e l ''risk_tier_controls'' \<and> \<not> field_ok ''risk_tier_controls'' eff nxt"
  "reference_field l nxt eff = Inl e \<Longrightarrow> names e l ''validation_allowlist_ref'' \<and> \<not> field_ok ''validation_allowlist_ref'' eff nxt"
  "sandbox_field l nxt eff = Inl e \<Longrightarrow> names e l ''require_sandbox'' \<and> \<not> field_ok ''require_sandbox'' eff nxt"
  by (auto simp: field_steps field_ok_def subset_ok_def fixed_ok_def sandbox_ok_def mergeFixedString_def mergeRequireSandbox_def names_def
      split: option.splits sum.splits if_splits dest!: merge_facts [unfolded names_def])

lemma field_ok_simps:
  "field_ok ''permissions_allowlist'' eff nxt = subset_ok (po_PermissionsAllowlist eff) (lp_PermissionsAllowlist nxt)"
  "field_ok ''executor_allowlist'' eff nxt = subset_ok (po_ExecutorAllowlist eff) (lp_ExecutorAllowlist nxt)"
  "field_ok ''notification_classes'' eff nxt = subset_ok (po_NotificationClasses eff) (lp_NotificationClasses nxt)"
  "field_ok ''deployment_modes'' eff nxt = map_ok mode_tightens (po_DeploymentModes eff) (lp_DeploymentModes nxt)"
  "field_ok ''budget_ceilings_usd'' eff nxt = map_ok ceiling_tightens (po_BudgetCeilingsUSD eff) (lp_BudgetCeilingsUSD nxt)"
  "field_ok ''risk_tier_controls'' eff nxt = map_ok stricterOrEqual (po_RiskTierControls eff) (lp_RiskTierControls nxt)"
  "field_ok ''validation_allowlist_ref'' eff nxt = fixed_ok (po_ValidationAllowlistRef eff) (lp_ValidationAllowlistRef nxt)"
  "field_ok ''require_sandbox'' eff nxt = sandbox_ok (po_RequireSandbox eff) (lp_RequireSandbox nxt)"
  by (simp_all add: field_ok_def)

lemma applyLayer_Inr: "applyLayer l nxt eff = Inr (out, ovs) \<Longrightarrow> accepts eff nxt \<and> out = overlay eff nxt"
  unfolding applyLayer_def
  by (auto split: sum.splits prod.splits dest!: field_Inr simp: accepts_def fieldRules_def field_ok_simps overlay_def)

lemma run_steps_Inl:
  assumes "run_steps (f # fs) eff = Inl e"
  obtains "f eff = Inl e" | mid ovs where "f eff = Inr (mid, ovs)" "run_steps fs mid = Inl e"
  using assms by (auto split: sum.splits prod.splits)

lemma applyLayer_Inl:
  assumes "applyLayer l nxt eff = Inl e"
  shows "\<exists>field \<in> set (map fst fieldRules). names e l field \<and> \<not> field_ok field eff nxt"
proof -
  have here: ?thesis
    if "names e l field" "\<not> field_ok field mid nxt" "field_ok field mid nxt = field_ok field eff nxt"
      "field \<in> set (map fst fieldRules)" for field mid
    using that by blast
  from assms show ?thesis
    unfolding applyLayer_def
    by (elim run_steps_Inl)
      ((drule field_Inl; ((drule field_Inr)+)?; elim conjE;
         (rule here, assumption, assumption, simp add: field_ok_simps, simp add: fieldRules_def))+, simp)
qed

lemma applyLayer_Inr_iff:
  "(\<exists>ovs. applyLayer l nxt eff = Inr (out, ovs)) \<longleftrightarrow> accepts eff nxt \<and> out = overlay eff nxt"
proof
  assume a: "accepts eff nxt \<and> out = overlay eff nxt"
  show "\<exists>ovs. applyLayer l nxt eff = Inr (out, ovs)"
  proof (cases "applyLayer l nxt eff")
    case (Inl e)
    then show ?thesis using applyLayer_Inl [OF Inl] a by (force simp: accepts_def list_all_iff)
  next
    case (Inr r)
    then show ?thesis using applyLayer_Inr a by (cases r) blast
  qed
qed (use applyLayer_Inr in blast)

definition finite_budgets :: "policy \<Rightarrow> bool" where
  "finite_budgets p =
     list_all (\<lambda>k. \<not> non_finite (the (fmlookup (po_BudgetCeilingsUSD p) k))) (sortedMapKeys (po_BudgetCeilingsUSD p))"

lemma digestOf_Inr:
  "digestOf marshal sha256 eff = Inr d \<longleftrightarrow> finite_budgets eff \<and> d = ''sha256:'' @ sha256 (marshal eff)"
  by (auto simp: digestOf_def finite_budgets_def list_ex_iff list_all_iff)

lemma run_steps_three:
  "(\<exists>ovs. run_steps [f, g, h] eff = Inr (out, ovs)) \<longleftrightarrow>
     (\<exists>a b oa ob oc. f eff = Inr (a, oa) \<and> g a = Inr (b, ob) \<and> h b = Inr (out, oc))"
  by (auto split: sum.splits prod.splits)

lemma Compile_Inr_iff:
  "(\<exists>ovs. Compile marshal sha256 platform org profile workflow =
       Inr \<lparr>re_Effective = eff, re_Overrides = ovs, re_Digest = d\<rparr>) \<longleftrightarrow>
     (\<exists>p0. platformEffective platform = Inr p0 \<and> accepts p0 org \<and> accepts (overlay p0 org) profile
        \<and> accepts (overlay (overlay p0 org) profile) workflow
        \<and> eff = overlay (overlay (overlay p0 org) profile) workflow
        \<and> finite_budgets eff \<and> d = ''sha256:'' @ sha256 (marshal eff))"
proof -
  have "(\<exists>ovs. Compile marshal sha256 platform org profile workflow =
       Inr \<lparr>re_Effective = eff, re_Overrides = ovs, re_Digest = d\<rparr>) \<longleftrightarrow>
     (\<exists>p0. platformEffective platform = Inr p0 \<and> (\<exists>ovs. run_steps
        [applyLayer LayerOrg org, applyLayer LayerProfile profile, applyLayer LayerWorkflow workflow] p0 = Inr (eff, ovs))
        \<and> digestOf marshal sha256 eff = Inr d)"
    unfolding Compile_def by (auto split: sum.splits prod.splits simp del: run_steps.simps)
  also have "\<dots> \<longleftrightarrow> (\<exists>p0. platformEffective platform = Inr p0 \<and> accepts p0 org \<and> accepts (overlay p0 org) profile
        \<and> accepts (overlay (overlay p0 org) profile) workflow
        \<and> eff = overlay (overlay (overlay p0 org) profile) workflow
        \<and> finite_budgets eff \<and> d = ''sha256:'' @ sha256 (marshal eff))"
    unfolding run_steps_three digestOf_Inr using applyLayer_Inr_iff by metis
  finally show ?thesis .
qed

section \<open>An accepted fold is tighter than every layer\<close>

definition f64_le :: "f64 \<Rightarrow> f64 \<Rightarrow> bool" where
  "f64_le a b = (f64_less a b \<or> f64_eq a b)"

definition nan_free :: "(string, f64) fmap \<Rightarrow> bool" where
  "nan_free m = list_all (\<lambda>k. the (fmlookup m k) \<noteq> NaN) (sortedMapKeys m)"

definition stricter :: "policy \<Rightarrow> policy \<Rightarrow> bool" where
  "stricter p q =
     (set (po_PermissionsAllowlist p) \<subseteq> set (po_PermissionsAllowlist q) \<and>
      set (po_ExecutorAllowlist p) \<subseteq> set (po_ExecutorAllowlist q) \<and>
      set (po_NotificationClasses p) \<subseteq> set (po_NotificationClasses q) \<and>
      fmrel (\<lambda>m n. rank_of n \<le> rank_of m) (po_DeploymentModes p) (po_DeploymentModes q) \<and>
      fmrel f64_le (po_BudgetCeilingsUSD p) (po_BudgetCeilingsUSD q) \<and>
      fmrel (\<lambda>c d. stricterOrEqual d c) (po_RiskTierControls p) (po_RiskTierControls q) \<and>
      po_ValidationAllowlistRef p = po_ValidationAllowlistRef q \<and>
      (po_RequireSandbox q \<longrightarrow> po_RequireSandbox p))"

text \<open>A policy is bounded by a layer when it is at least as tight as every value the layer declares.\<close>

definition list_within :: "string list \<Rightarrow> string list option \<Rightarrow> bool" where
  "list_within vs nxt = (case nxt of None \<Rightarrow> True | Some ws \<Rightarrow> set vs \<subseteq> set ws)"

definition map_within :: "('v \<Rightarrow> 'v \<Rightarrow> bool) \<Rightarrow> (string, 'v) fmap \<Rightarrow> (string, 'v) fmap \<Rightarrow> bool" where
  "map_within R m nxt = (\<forall>k v. fmlookup nxt k = Some v \<longrightarrow> (\<exists>w. fmlookup m k = Some w \<and> R w v))"

definition bounded_by :: "policy \<Rightarrow> layer_policy \<Rightarrow> bool" where
  "bounded_by p nxt =
     (list_within (po_PermissionsAllowlist p) (lp_PermissionsAllowlist nxt) \<and>
      list_within (po_ExecutorAllowlist p) (lp_ExecutorAllowlist nxt) \<and>
      list_within (po_NotificationClasses p) (lp_NotificationClasses nxt) \<and>
      map_within (\<lambda>m n. rank_of n \<le> rank_of m) (po_DeploymentModes p) (lp_DeploymentModes nxt) \<and>
      map_within f64_le (po_BudgetCeilingsUSD p) (lp_BudgetCeilingsUSD nxt) \<and>
      map_within (\<lambda>c d. stricterOrEqual d c) (po_RiskTierControls p) (lp_RiskTierControls nxt) \<and>
      (lp_RequireSandbox nxt = Some True \<longrightarrow> po_RequireSandbox p))"

lemma f64_le_refl: "a \<noteq> NaN \<Longrightarrow> f64_le a a"
  by (simp add: f64_le_def f64_eq_def)

lemma f64_le_trans: "f64_le a b \<Longrightarrow> f64_le b c \<Longrightarrow> f64_le a c"
  by (cases a; cases b; cases c) (auto simp: f64_le_def f64_eq_def)

lemma f64_not_less: "\<not> f64_less old v \<Longrightarrow> old \<noteq> NaN \<Longrightarrow> v \<noteq> NaN \<Longrightarrow> f64_le v old"
  by (cases old; cases v) (auto simp: f64_le_def f64_eq_def)

lemma stricterOrEqual_refl [simp]: "stricterOrEqual c c"
  by (simp add: stricterOrEqual_def)

lemma stricterOrEqual_trans: "stricterOrEqual a b \<Longrightarrow> stricterOrEqual b c \<Longrightarrow> stricterOrEqual a c"
  by (auto simp: stricterOrEqual_def split: if_splits)

lemma nan_freeD: "nan_free m \<Longrightarrow> fmlookup m k = Some v \<Longrightarrow> v \<noteq> NaN"
  unfolding nan_free_def list_all_iff set_sortedMapKeys using fmdomI by fastforce

lemma nan_freeI: "(\<And>k. fmlookup m k \<noteq> Some NaN) \<Longrightarrow> nan_free m"
  by (auto simp: nan_free_def list_all_iff fmlookup_dom_iff)

lemma nan_free_overlay: "nan_free m \<Longrightarrow> nan_free n \<Longrightarrow> nan_free (m ++\<^sub>f n)"
  by (rule nan_freeI) (auto dest: nan_freeD split: if_splits)

lemma map_okD:
  "map_ok t prev nxt \<Longrightarrow> fmlookup nxt k = Some v \<Longrightarrow> \<exists>old. fmlookup prev k = Some old \<and> t old v"
  by (fastforce simp: map_ok_def list_all_iff fmlookup_dom_iff split: option.splits)

lemma fmrel_overlay:
  assumes ok: "map_ok t prev nxt" and refl: "\<And>k v. fmlookup prev k = Some v \<Longrightarrow> R v v"
    and t: "\<And>k old v. fmlookup prev k = Some old \<Longrightarrow> fmlookup nxt k = Some v \<Longrightarrow> t old v \<Longrightarrow> R v old"
  shows "fmrel R (prev ++\<^sub>f nxt) prev"
  unfolding fmrel_iff
proof
  fix k
  show "rel_option R (fmlookup (prev ++\<^sub>f nxt) k) (fmlookup prev k)"
  proof (cases "fmlookup nxt k")
    case None
    then show ?thesis using refl [of k] by (cases "fmlookup prev k") (auto simp: fmlookup_dom_iff)
  next
    case (Some v)
    then show ?thesis using map_okD [OF ok Some] t [of k] by (auto simp: fmdomI)
  qed
qed

lemma fmrel_trans: "fmrel R m n \<Longrightarrow> fmrel R n l \<Longrightarrow> (\<And>a b c. R a b \<Longrightarrow> R b c \<Longrightarrow> R a c) \<Longrightarrow> fmrel R m l"
  unfolding fmrel_iff by (blast intro: transpD [OF option.rel_transp] transpI)

lemma map_within_overlay:
  "(\<And>k v. fmlookup nxt k = Some v \<Longrightarrow> R v v) \<Longrightarrow> map_within R (m ++\<^sub>f nxt) nxt"
  by (auto simp: map_within_def fmdomI)

lemma map_within_fmrel:
  "fmrel R m n \<Longrightarrow> map_within R n nxt \<Longrightarrow> (\<And>a b c. R a b \<Longrightarrow> R b c \<Longrightarrow> R a c) \<Longrightarrow> map_within R m nxt"
  unfolding map_within_def fmrel_iff by (metis option.rel_cases option.sel option.discI)

lemma overlay_stricter:
  assumes "accepts eff nxt" and old: "nan_free (po_BudgetCeilingsUSD eff)" and new: "nan_free (lp_BudgetCeilingsUSD nxt)"
  shows "stricter (overlay eff nxt) eff"
proof -
  have ok: "subset_ok (po_PermissionsAllowlist eff) (lp_PermissionsAllowlist nxt)"
    "subset_ok (po_ExecutorAllowlist eff) (lp_ExecutorAllowlist nxt)"
    "subset_ok (po_NotificationClasses eff) (lp_NotificationClasses nxt)"
    "sandbox_ok (po_RequireSandbox eff) (lp_RequireSandbox nxt)"
    and m: "map_ok mode_tightens (po_DeploymentModes eff) (lp_DeploymentModes nxt)"
    and b: "map_ok ceiling_tightens (po_BudgetCeilingsUSD eff) (lp_BudgetCeilingsUSD nxt)"
    and t: "map_ok stricterOrEqual (po_RiskTierControls eff) (lp_RiskTierControls nxt)"
    using assms(1) by (simp_all add: accepts_def fieldRules_def field_ok_simps)
  have lists: "set (declared vs ws) \<subseteq> set vs" if "subset_ok vs ws" for vs ws
    using that by (auto simp: declared_def subset_ok_def split: option.splits)
  have "fmrel f64_le (po_BudgetCeilingsUSD eff ++\<^sub>f lp_BudgetCeilingsUSD nxt) (po_BudgetCeilingsUSD eff)"
    using b old new by (auto intro!: fmrel_overlay f64_le_refl f64_not_less simp: ceiling_tightens_def dest: nan_freeD)
  moreover have "fmrel (\<lambda>m n. rank_of n \<le> rank_of m) (po_DeploymentModes eff ++\<^sub>f lp_DeploymentModes nxt) (po_DeploymentModes eff)"
    using m by (auto intro!: fmrel_overlay simp: mode_tightens_def)
  moreover have "fmrel (\<lambda>c d. stricterOrEqual d c) (po_RiskTierControls eff ++\<^sub>f lp_RiskTierControls nxt) (po_RiskTierControls eff)"
    using t by (auto intro!: fmrel_overlay)
  ultimately show ?thesis
    using ok lists [OF ok(1)] lists [OF ok(2)] lists [OF ok(3)]
    by (simp add: stricter_def overlay_def given_def sandbox_ok_def split: option.splits)
qed

lemma stricter_trans: "stricter p q \<Longrightarrow> stricter q r \<Longrightarrow> stricter p r"
  unfolding stricter_def
  by (auto elim!: fmrel_trans dest: f64_le_trans stricterOrEqual_trans)

lemma overlay_bounded: "nan_free (lp_BudgetCeilingsUSD nxt) \<Longrightarrow> bounded_by (overlay eff nxt) nxt"
  by (auto simp: bounded_by_def overlay_def list_within_def declared_def given_def
      intro!: map_within_overlay f64_le_refl dest: nan_freeD split: option.splits)

lemma bounded_stricter: "stricter p q \<Longrightarrow> bounded_by q nxt \<Longrightarrow> bounded_by p nxt"
  unfolding bounded_by_def stricter_def
  by (auto elim!: map_within_fmrel dest: f64_le_trans stricterOrEqual_trans simp: list_within_def split: option.splits)

lemma Compile_InrE:
  assumes "Compile marshal sha256 platform org profile workflow = Inr r"
  obtains p0 where "platformEffective platform = Inr p0" "accepts p0 org" "accepts (overlay p0 org) profile"
    "accepts (overlay (overlay p0 org) profile) workflow"
    "re_Effective r = overlay (overlay (overlay p0 org) profile) workflow" "finite_budgets (re_Effective r)"
    "re_Digest r = ''sha256:'' @ sha256 (marshal (re_Effective r))"
proof -
  have "\<exists>ovs. Compile marshal sha256 platform org profile workflow =
       Inr \<lparr>re_Effective = re_Effective r, re_Overrides = ovs, re_Digest = re_Digest r\<rparr>"
    using assms by (intro exI [of _ "re_Overrides r"]) simp
  then show ?thesis unfolding Compile_Inr_iff using that by blast
qed

lemma platformEffective_budgets:
  "platformEffective platform = Inr p0 \<Longrightarrow> po_BudgetCeilingsUSD p0 = lp_BudgetCeilingsUSD platform"
  by (auto simp: platformEffective_def Let_def split: option.splits if_splits)

lemma platformEffective_Inl: "platformEffective platform = Inl e \<Longrightarrow> \<exists>field. names e LayerPlatform field"
  by (auto simp: platformEffective_def names_def Let_def split: option.splits if_splits)


definition sample_org :: layer_policy where
  "sample_org = empty_layer\<lparr>lp_ExecutorAllowlist := Some [''claude-code''], lp_RequireSandbox := Some True\<rparr>"

definition sample_profile :: layer_policy where
  "sample_profile = empty_layer\<lparr>lp_BudgetCeilingsUSD := fmap_of_list [(''workflow_usd'', Fin 20)],
     lp_DeploymentModes := fmap_of_list [(''preview'', ModeDisabled)]\<rparr>"

lemmas policy_eval = Compile_def platformEffective_def applyLayer_def field_steps Let_def digestOf_def
  mergeStringSet_def mergeDeploymentModes_def mergeBudgets_def mergeRiskTiers_def mergeRequireSandbox_def
  mergeFixedString_def mode_step_def budget_step_def tier_step_def mode_valid_def modeRank_def rank_of_def
  stricterOrEqual_def f64_eq_def non_finite_def PlatformDefaults_def empty_layer_def

lemma sample_compiles:
  "\<exists>r. Compile (\<lambda>_. []) id PlatformDefaults sample_org sample_profile WorkflowLayer = Inr r"
  by (simp add: policy_eval sample_org_def sample_profile_def WorkflowLayer_def fmlookup_of_list)


text \<open>
  C10: The compiler implements the fold of the specification. It succeeds exactly when the
  platform is complete, each layer obeys the rule of every field against what it inherits, and
  the resulting ceilings are finite; the effective policy is then the platform's with each
  layer's values laid over it in order, and the digest is that of its JSON.
\<close>

theorem Compile_refines_overlay:
  "(\<exists>ovs. Compile marshal sha256 platform org profile workflow =
       Inr \<lparr>re_Effective = eff, re_Overrides = ovs, re_Digest = d\<rparr>) \<longleftrightarrow>
     (\<exists>p0. platformEffective platform = Inr p0 \<and> accepts p0 org \<and> accepts (overlay p0 org) profile
        \<and> accepts (overlay (overlay p0 org) profile) workflow
        \<and> eff = overlay (overlay (overlay p0 org) profile) workflow
        \<and> finite_budgets eff \<and> d = ''sha256:'' @ sha256 (marshal eff))"
  by (rule Compile_Inr_iff)

definition breaks :: "compile_error \<Rightarrow> policy_layer \<Rightarrow> policy \<Rightarrow> layer_policy \<Rightarrow> bool" where
  "breaks e l eff nxt = (\<exists>field \<in> set (map fst fieldRules). names e l field \<and> \<not> field_ok field eff nxt)"

lemma applyLayer_breaks: "applyLayer l nxt eff = Inl e \<Longrightarrow> breaks e l eff nxt"
  using applyLayer_Inl by (simp add: breaks_def)

text \<open>
  C11: A refusal tells the truth. The error of a failed compilation either names the platform
  layer, whose own defaults are incomplete or invalid, or names the first layer below it that is
  not acceptable and a field of it that really breaks its rule against the inherited policy, or
  reports that the digest of ceilings that are not finite cannot be computed.
\<close>

theorem Compile_error_names:
  assumes "Compile marshal sha256 platform org profile workflow = Inl e"
  shows "(platformEffective platform = Inl e \<and> pe_Layer e = LayerPlatform)
    \<or> (\<exists>p0. platformEffective platform = Inr p0 \<and>
        (breaks e LayerOrg p0 org
         \<or> accepts p0 org \<and> breaks e LayerProfile (overlay p0 org) profile
         \<or> accepts p0 org \<and> accepts (overlay p0 org) profile
             \<and> breaks e LayerWorkflow (overlay (overlay p0 org) profile) workflow
         \<or> e = DigestError \<and> \<not> finite_budgets (overlay (overlay (overlay p0 org) profile) workflow)))"
proof (cases "platformEffective platform")
  case (Inl e')
  then have "e' = e" using assms by (simp add: Compile_def)
  then show ?thesis using Inl platformEffective_Inl [OF Inl] by (auto simp: names_def)
next
  case (Inr p0)
  show ?thesis
  proof (cases "run_steps [applyLayer LayerOrg org, applyLayer LayerProfile profile, applyLayer LayerWorkflow workflow] p0")
    case (Inl e')
    then have "run_steps [applyLayer LayerOrg org, applyLayer LayerProfile profile, applyLayer LayerWorkflow workflow] p0 = Inl e"
      using assms Inr by (simp add: Compile_def)
    then show ?thesis using Inr
      by (elim run_steps_Inl) (auto dest!: applyLayer_Inr applyLayer_breaks)
  next
    case (Inr r)
    then obtain eff ovs where r: "run_steps [applyLayer LayerOrg org, applyLayer LayerProfile profile,
        applyLayer LayerWorkflow workflow] p0 = Inr (eff, ovs)" by (cases r) simp
    then have "eff = overlay (overlay (overlay p0 org) profile) workflow"
      using run_steps_three [of "applyLayer LayerOrg org"] applyLayer_Inr by metis
    moreover have "digestOf marshal sha256 eff = Inl e"
      using assms r \<open>platformEffective platform = Inr p0\<close> by (simp add: Compile_def split: sum.splits)
    ultimately show ?thesis
      using \<open>platformEffective platform = Inr p0\<close> digestOf_Inr [of marshal sha256 eff]
      by (auto simp: digestOf_def split: if_splits)
  qed
qed

definition widening_profile :: layer_policy where
  "widening_profile = empty_layer\<lparr>lp_BudgetCeilingsUSD := fmap_of_list [(''workflow_usd'', Fin 500)]\<rparr>"

lemma widening_refused:
  "Compile (\<lambda>_. []) id PlatformDefaults sample_org widening_profile WorkflowLayer =
     Inl (CompileError LayerProfile ''budget_ceilings_usd''
       (''budget '' @ quote ''workflow_usd'' @ '': attempted to raise ceiling '' @ show_f2 (Fin 100) @ '' -> '' @ show_f2 (Fin 500)))"
  by (simp add: policy_eval sample_org_def widening_profile_def WorkflowLayer_def del: show_f2.simps)

theorem Compile_error_names_witness:
  "\<exists>e p0. Compile (\<lambda>_. []) id PlatformDefaults sample_org widening_profile WorkflowLayer = Inl e
    \<and> platformEffective PlatformDefaults = Inr p0 \<and> breaks e LayerProfile (overlay p0 sample_org) widening_profile"
proof -
  have "platformEffective PlatformDefaults \<noteq> Inl e" for e by (simp add: policy_eval)
  then show ?thesis
    using Compile_error_names [OF widening_refused] widening_refused by (fastforce simp: breaks_def names_def)
qed

text \<open>
  The premise on NaN is needed: a comparison with NaN is false, so a layer may replace a ceiling
  by NaN, and the next one may then replace NaN by any number. Here a profile raises the
  platform's ceiling of 100 dollars to 500 behind such an organisation layer.
\<close>

theorem Compile_nan_raises_ceiling:
  "\<exists>r. Compile (\<lambda>_. []) id PlatformDefaults (empty_layer\<lparr>lp_BudgetCeilingsUSD := fmap_of_list [(''workflow_usd'', NaN)]\<rparr>)
      widening_profile WorkflowLayer = Inr r
    \<and> fmlookup (po_BudgetCeilingsUSD (re_Effective r)) ''workflow_usd'' = Some (Fin 500)"
  by (simp add: policy_eval widening_profile_def WorkflowLayer_def)

section \<open>Loading the layers\<close>

text \<open>The keys and the values of a mapping's content; a trailing key without a value is not looked at.\<close>

fun content_keys :: "yaml_node list \<Rightarrow> string list" where
  "content_keys (k # v # cs) = yn_Value k # content_keys cs"
| "content_keys _ = []"

fun content_values :: "yaml_node list \<Rightarrow> yaml_node list" where
  "content_values (k # v # cs) = v # content_values cs"
| "content_values _ = []"

lemma content_values_set: "v \<in> set (content_values cs) \<Longrightarrow> v \<in> set cs"
  by (induction cs rule: content_values.induct) auto

function unique_keys :: "yaml_node \<Rightarrow> bool" where
  "unique_keys (YamlNode kind v cs) =
     (case kind of
        MappingNode \<Rightarrow> distinct (content_keys cs) \<and> list_all unique_keys (content_values cs)
      | ScalarNode \<Rightarrow> True
      | AliasNode \<Rightarrow> True
      | _ \<Rightarrow> list_all unique_keys cs)"
  by pat_completeness auto
termination
  by (relation "measure size") (auto simp: less_Suc_eq_le intro: size_list_estimation' [OF _ order_refl] dest!: content_values_set)

text \<open>The walk accepts a document exactly when no mapping in it repeats a key.\<close>

lemma rejectDuplicateMappingKeys_None:
  "rejectDuplicateMappingKeys n = None \<longleftrightarrow> unique_keys n"
  "reject_children cs = None \<longleftrightarrow> list_all unique_keys cs"
  "reject_pairs seen cs = None \<longleftrightarrow>
     distinct (content_keys cs) \<and> set (content_keys cs) \<inter> set seen = {} \<and> list_all unique_keys (content_values cs)"
  by (induction n and cs and seen cs rule: rejectDuplicateMappingKeys_reject_children_reject_pairs.induct)
    (auto split: option.splits)

text \<open>Whatever the organisation file says, only the kernel can be let through to a shared branch.\<close>

lemma push_authority:
  "CompileFourLayer marshal sha256 yl files orgPath profilePath = Inr (r, pack) \<Longrightarrow>
     (og_PushAuthorization pack = ''kernel-only'' \<or> og_PushAuthorization pack = []) \<and>
     (AllowsPushBy pack who \<longleftrightarrow> og_PushAuthorization pack = ''kernel-only'' \<and> who = ''service:go-kernel'')"
  by (auto simp: CompileFourLayer_def LoadOrgLayer_def ParseOrgLayerYAML_def ValidateOrgGovernancePack_def Let_def
      AllowsPushBy_def empty_pack_def split: sum.splits option.splits if_splits prod.splits)

section \<open>Decisions\<close>

text \<open>
  The decision point allows a request only under the policy it was booted with and under the
  pinned bundle: the caller's policy digest is that of the resolved policy, the loaded modules
  have the pinned digest, and their first result binds the decision to true. In every other case
  the answer is a denial or an error.
\<close>

theorem Decide_allow_sound:
  assumes "NewOPADecider sha256 prepare listing content pinned (Some r) = Inr d"
    and "OPADecider_Decide eval d req = Inr dec" and "pd_Allow dec"
  shows "pr_PolicyDigest req = re_Digest r \<and> re_Digest r \<noteq> [] \<and> digestFiles sha256 (od_Files d) = pinned
    \<and> loadRegoFiles listing content = Inr (od_Files d)
    \<and> (\<exists>y rest. eval (od_Files d) req (re_Effective r) = Inr ((Some True, y) # rest))"
  using assms
  by (auto simp: NewOPADecider_def OPADecider_Decide_def Let_def split: if_splits sum.splits list.splits option.splits prod.splits)

definition sample_resolved :: resolved where
  "sample_resolved = \<lparr>re_Effective = \<lparr>po_PermissionsAllowlist = [], po_DeploymentModes = fmempty, po_BudgetCeilingsUSD = fmempty,
     po_ExecutorAllowlist = [], po_ValidationAllowlistRef = ''v'', po_NotificationClasses = [], po_RiskTierControls = fmempty,
     po_RequireSandbox = False\<rparr>, re_Overrides = [], re_Digest = ''sha256:p''\<rparr>"

theorem Decide_allow_sound_witness:
  "let listing = Some [\<lparr>de_Name = ''a.rego'', de_IsDir = False\<rparr>]; content = (\<lambda>_. Some ''x'');
       files = fmap_of_list [(''a.rego'', ''x'')];
       d = \<lparr>od_Files = files, od_BundleDigest = digestFiles id files, od_Resolved = sample_resolved\<rparr>;
       req = \<lparr>pr_Principal = ''u'', pr_Action = ''a'', pr_Resource = ''r'', pr_Context = (), pr_PolicyDigest = ''sha256:p''\<rparr>
   in NewOPADecider id (\<lambda>_. True) listing content (digestFiles id files) (Some sample_resolved) = Inr d
    \<and> OPADecider_Decide (\<lambda>_ _ _. Inr [(Some True, None)]) d req = Inr \<lparr>pd_Allow = True, pd_Reason = []\<rparr>
    \<and> loadRegoFiles listing content = Inr (od_Files d)"
proof -
  define files where "files = fmap_of_list [(''a.rego'', ''x'')]"
  define d where "d = \<lparr>od_Files = files, od_BundleDigest = digestFiles id files, od_Resolved = sample_resolved\<rparr>"
  define req where "req = \<lparr>pr_Principal = ''u'', pr_Action = ''a'', pr_Resource = ''r'', pr_Context = (), pr_PolicyDigest = ''sha256:p''\<rparr>"
  have n: "NewOPADecider id (\<lambda>_. True) (Some [\<lparr>de_Name = ''a.rego'', de_IsDir = False\<rparr>]) (\<lambda>_. Some ''x'')
      (digestFiles id files) (Some sample_resolved) = Inr d"
    by (simp add: NewOPADecider_def loadRegoFiles_def has_suffix_def has_prefix_def Let_def d_def files_def sample_resolved_def)
  have c: "OPADecider_Decide (\<lambda>_ _ _. Inr [(Some True, None)]) d req = Inr \<lparr>pd_Allow = True, pd_Reason = []\<rparr>"
    by (simp add: OPADecider_Decide_def d_def req_def sample_resolved_def)
  show ?thesis
    using Decide_allow_sound [OF n c] n c unfolding Let_def files_def [symmetric] d_def [symmetric] req_def [symmetric] by simp
qed

text \<open>
  The text that is hashed separates a name, a content and the next name by a newline only, so
  one file whose content has lines that look like a second file has the digest of the two files:
  the pin does not determine the bundle.
\<close>

theorem digestFiles_ambiguous:
  "digestFiles sha256 (fmap_of_list [(''a.rego'', ''x'' @ [newline] @ ''b.rego'' @ [newline] @ ''y'')]) =
   digestFiles sha256 (fmap_of_list [(''a.rego'', ''x''), (''b.rego'', ''y'')])"
  by (simp add: digestFiles_def bundle_text_def)

text \<open>The part of the order that needs no premise on ceilings.\<close>

lemma overlay_narrows:
  "accepts eff nxt \<Longrightarrow> set (po_ExecutorAllowlist (overlay eff nxt)) \<subseteq> set (po_ExecutorAllowlist eff)
     \<and> (po_RequireSandbox eff \<or> lp_RequireSandbox nxt = Some True \<longrightarrow> po_RequireSandbox (overlay eff nxt))"
  by (auto simp: accepts_def fieldRules_def field_ok_simps overlay_def declared_def given_def subset_ok_def sandbox_ok_def
      split: option.splits)

lemma Compile_narrows:
  assumes "Compile marshal sha256 platform org profile workflow = Inr r" and "platformEffective platform = Inr p0"
  shows "set (po_ExecutorAllowlist (re_Effective r)) \<subseteq> set (po_ExecutorAllowlist p0)"
    "po_RequireSandbox p0 \<or> lp_RequireSandbox org = Some True \<or> lp_RequireSandbox profile = Some True \<or> lp_RequireSandbox workflow = Some True
       \<Longrightarrow> po_RequireSandbox (re_Effective r)"
proof -
  from Compile_InrE [OF assms(1)] assms(2) have a: "accepts p0 org" "accepts (overlay p0 org) profile"
      "accepts (overlay (overlay p0 org) profile) workflow"
    and e: "re_Effective r = overlay (overlay (overlay p0 org) profile) workflow" by force+
  show "set (po_ExecutorAllowlist (re_Effective r)) \<subseteq> set (po_ExecutorAllowlist p0)"
    using overlay_narrows [OF a(1)] overlay_narrows [OF a(2)] overlay_narrows [OF a(3)] unfolding e by blast
  show "po_RequireSandbox (re_Effective r)"
    if "po_RequireSandbox p0 \<or> lp_RequireSandbox org = Some True \<or> lp_RequireSandbox profile = Some True \<or> lp_RequireSandbox workflow = Some True"
    using that overlay_narrows [OF a(1)] overlay_narrows [OF a(2)] overlay_narrows [OF a(3)] unfolding e by blast
qed

lemma PlatformDefaults_effective:
  "\<exists>p0. platformEffective PlatformDefaults = Inr p0 \<and> set (po_ExecutorAllowlist p0) = {''fake'', ''claude-code''}"
  by (auto simp: policy_eval)

lemma CompileFourLayer_Inr:
  assumes "CompileFourLayer marshal sha256 yl files orgPath profilePath = Inr (r, pack)"
  obtains org profile where "Compile marshal sha256 PlatformDefaults org profile WorkflowLayer = Inr r"
    "orgPath \<noteq> [] \<Longrightarrow> LoadOrgLayer yl files orgPath = Inr (org, pack)"
    "profilePath \<noteq> [] \<Longrightarrow> LoadProfileLayer yl files profilePath = Inr profile"
  using assms by (auto simp: CompileFourLayer_def split: sum.splits if_splits)

end
