(* ===== verification/Envelope.thy ===== *)
theory Envelope
  imports Policy Provenance
begin

text \<open>
  The execution envelope (\<open>internal/kernel/execution_envelope.go\<close>) and its stores
  (\<open>execution_envelope_store.go\<close>, migration \<open>00035\<close>): the resolution of one authority record from
  the approved plan and the compiled policy, its canonical form and digest, its validation, and
  the load that refuses what is revoked, expired or altered. The store is a locale that the
  in-memory and the Postgres store interpret.

  A time is \<^const>\<open>None\<close> for Go's zero time. JSON of an envelope (\<^const>\<open>None\<close> for an error of
  \<open>json.Marshal\<close>), the normal form of a \<open>JSONB\<close> column and SHA-256 in hexadecimal are arguments.
\<close>

section \<open>The record\<close>

abbreviation ExecutionEnvelopeSchemaV1 :: string where "ExecutionEnvelopeSchemaV1 \<equiv> ''1''"
abbreviation WorkspaceStrategyIsolated :: string where "WorkspaceStrategyIsolated \<equiv> ''isolated-worktree''"
abbreviation ProviderLocal :: string where "ProviderLocal \<equiv> ''local''"
abbreviation BudgetScopeMission :: string where "BudgetScopeMission \<equiv> ''mission''"
abbreviation BudgetScopeWorkflow :: string where "BudgetScopeWorkflow \<equiv> ''workflow''"

record envelope_plan =
  xp_ApprovedPlanID :: string
  xp_PlanDigest :: string
  xp_PlanArtifactRef :: string
  xp_ApprovalRef :: string
  xp_ApprovalSignatureRef :: string
  xp_ApprovalExpiresAt :: "int option"

record envelope_repository =
  xr_RepositoryID :: string
  xr_Provider :: string
  xr_CanonicalURL :: string
  xr_RepositoryAlias :: string
  xr_PinnedBaseRevision :: string
  xr_RequestedTargetBranch :: string
  xr_WorkspaceStrategy :: string

record envelope_ownership =
  xo_MissionID :: string
  xo_PortfolioID :: string
  xo_ProfileID :: string
  xo_OrganizationID :: string
  xo_PrincipalID :: string

record envelope_execution =
  xe_Unattended :: bool
  xe_RequireSandbox :: bool
  xe_ExecutorAllowlist :: "string list"
  xe_ValidationAllowlistRef :: string
  xe_MaxWaveConcurrency :: int
  xe_PermittedEffects :: "string list"
  xe_DeploymentMode :: string
  xe_BranchDeliveryPolicy :: string

record envelope_cost =
  xc_BudgetScope :: string
  xc_BudgetScopeID :: string
  xc_BudgetEnvelopeID :: string
  xc_SessionCapUSD :: f64
  xc_ExperimentCapUSD :: f64
  xc_DeploymentCapUSD :: f64

record envelope_policy =
  xl_PolicyDigest :: string
  xl_PolicyVersion :: string
  xl_ResolvedLayerDigests :: "string list"
  xl_AuthorizationDecisionRef :: string

record envelope_validity =
  xv_IssuedAt :: "int option"
  xv_ExpiresAt :: "int option option"

record execution_envelope =
  ee_SchemaVersion :: string
  ee_EnvelopeID :: string
  ee_EnvelopeDigest :: string
  ee_Plan :: envelope_plan
  ee_Repository :: envelope_repository
  ee_Ownership :: envelope_ownership
  ee_Execution :: envelope_execution
  ee_Cost :: envelope_cost
  ee_Policy :: envelope_policy
  ee_Validity :: envelope_validity

record resolve_input =
  rx_PlanID :: string
  rx_PlanArtifactRef :: string
  rx_RepositoryID :: string
  rx_Provider :: string
  rx_CanonicalURL :: string
  rx_RepositoryAlias :: string
  rx_PinnedBaseRevision :: string
  rx_TargetBranch :: string
  rx_MissionID :: string
  rx_PortfolioID :: string
  rx_ProfileID :: string
  rx_OrganizationID :: string
  rx_PrincipalID :: string
  rx_Unattended :: bool
  rx_RequireSandbox :: "bool option"
  rx_MaxWaveConcurrency :: int
  rx_BudgetScope :: string
  rx_BudgetScopeID :: string
  rx_BudgetEnvelopeID :: string
  rx_SessionCapUSD :: f64
  rx_ExperimentCapUSD :: f64
  rx_DeploymentCapUSD :: f64
  rx_DeploymentMode :: string
  rx_BranchDeliveryPolicy :: string
  rx_PermittedEffects :: "string list"
  rx_AuthorizationDecisionRef :: string
  rx_IssuedAt :: "int option"
  rx_ExpiresAt :: "int option option"
  rx_EnvelopeID :: string

datatype envelope_error =
    ErrEnvelopeRefused string | RefusedPlan provenance_error | RefusedBy envelope_error
  | ErrEnvelopeNotFound | ErrEnvelopeTampered string | TamperedStored envelope_error
  | ErrEnvelopeExpired | ErrEnvelopeRevoked | ErrEnvelopeSchema string
  | LoadPlanFailed provenance_error | MarshalEnvelope | EnvelopeExists string | EnvelopeDigestExists string
  | EnvelopeDB string | DecodeEnvelope string

section \<open>Closed vocabularies\<close>

definition validProvider :: "string \<Rightarrow> bool" where
  "validProvider p = (p = ''github'' \<or> p = ''bitbucket'' \<or> p = ProviderLocal)"

definition validBudgetScope :: "string \<Rightarrow> bool" where
  "validBudgetScope s = (s = BudgetScopeMission \<or> s = BudgetScopeWorkflow \<or> s = ''session'')"

definition validDeploymentMode :: "string \<Rightarrow> bool" where
  "validDeploymentMode m = (m = ModeAuto \<or> m = ModeCommand \<or> m = ModeDisabled)"

definition validBranchPolicy :: "string \<Rightarrow> bool" where
  "validBranchPolicy p = (p = ''none'' \<or> p = ''ten-x-handoff'' \<or> p = ''direct'')"

section \<open>Canonical form and digest\<close>

definition canonical :: "execution_envelope \<Rightarrow> execution_envelope" where
  "canonical e = e\<lparr>ee_Execution := (ee_Execution e)\<lparr>
       xe_ExecutorAllowlist := sort (xe_ExecutorAllowlist (ee_Execution e)),
       xe_PermittedEffects := sort (xe_PermittedEffects (ee_Execution e))\<rparr>,
     ee_Policy := (ee_Policy e)\<lparr>xl_ResolvedLayerDigests := sort (xl_ResolvedLayerDigests (ee_Policy e))\<rparr>\<rparr>"

definition CanonicalJSON :: "(execution_envelope \<Rightarrow> string option) \<Rightarrow> execution_envelope \<Rightarrow> envelope_error + string" where
  "CanonicalJSON marshal e =
     (if ee_SchemaVersion e = [] then Inl (ErrEnvelopeSchema ''empty schema_version'')
      else case marshal (canonical e) of None \<Rightarrow> Inl MarshalEnvelope | Some raw \<Rightarrow> Inr raw)"

definition ComputeDigest ::
    "(execution_envelope \<Rightarrow> string option) \<Rightarrow> (string \<Rightarrow> string) \<Rightarrow> execution_envelope \<Rightarrow> envelope_error + string" where
  "ComputeDigest marshal sha e =
     (case CanonicalJSON marshal (e\<lparr>ee_EnvelopeDigest := []\<rparr>) of
        Inl err \<Rightarrow> Inl err
      | Inr raw \<Rightarrow> Inr (''sha256:'' @ sha raw))"

text \<open>The checks on the content of an envelope that follow the check of its digest.\<close>

definition check_fields :: "execution_envelope \<Rightarrow> envelope_error option" where
  "check_fields e =
     (if xp_ApprovedPlanID (ee_Plan e) = [] \<or> xp_PlanDigest (ee_Plan e) = [] then Some (ErrEnvelopeRefused ''missing ApprovedPlan'')
      else if xp_PlanArtifactRef (ee_Plan e) = [] then Some (ErrEnvelopeRefused ''missing plan artifact'')
      else if xe_ExecutorAllowlist (ee_Execution e) = [] then Some (ErrEnvelopeRefused ''missing executor allowlist'')
      else if xe_ValidationAllowlistRef (ee_Execution e) = [] then Some (ErrEnvelopeRefused ''missing validation policy'')
      else if xl_PolicyDigest (ee_Policy e) = [] then Some (ErrEnvelopeRefused ''missing policy digest'')
      else if \<not> validProvider (xr_Provider (ee_Repository e)) then
        Some (ErrEnvelopeRefused (''unknown repository provider '' @ quote (xr_Provider (ee_Repository e))))
      else if xr_WorkspaceStrategy (ee_Repository e) \<noteq> [] \<and> xr_WorkspaceStrategy (ee_Repository e) \<noteq> WorkspaceStrategyIsolated then
        Some (ErrEnvelopeRefused (''unknown workspace strategy '' @ quote (xr_WorkspaceStrategy (ee_Repository e))))
      else if \<not> validBudgetScope (xc_BudgetScope (ee_Cost e)) then
        Some (ErrEnvelopeRefused (''unknown budget scope '' @ quote (xc_BudgetScope (ee_Cost e))))
      else if \<not> validDeploymentMode (xe_DeploymentMode (ee_Execution e)) then
        Some (ErrEnvelopeRefused (''unknown deployment mode '' @ quote (xe_DeploymentMode (ee_Execution e))))
      else if \<not> validBranchPolicy (xe_BranchDeliveryPolicy (ee_Execution e)) then
        Some (ErrEnvelopeRefused (''unknown branch delivery policy '' @ quote (xe_BranchDeliveryPolicy (ee_Execution e))))
      else None)"

definition Validate ::
    "(execution_envelope \<Rightarrow> string option) \<Rightarrow> (string \<Rightarrow> string) \<Rightarrow> execution_envelope \<Rightarrow> envelope_error option" where
  "Validate marshal sha e =
     (if ee_SchemaVersion e \<noteq> ExecutionEnvelopeSchemaV1 then Some (ErrEnvelopeSchema (quote (ee_SchemaVersion e)))
      else if ee_EnvelopeID e = [] \<or> ee_EnvelopeDigest e = [] then Some (ErrEnvelopeRefused ''missing envelope id/digest'')
      else case ComputeDigest marshal sha e of
        Inl err \<Rightarrow> Some err
      | Inr got \<Rightarrow>
          if got \<noteq> ee_EnvelopeDigest e then Some (ErrEnvelopeTampered ''digest mismatch'') else check_fields e)"

definition VerifyUsable ::
    "(execution_envelope \<Rightarrow> string option) \<Rightarrow> (string \<Rightarrow> string) \<Rightarrow> execution_envelope \<Rightarrow> int \<Rightarrow> bool \<Rightarrow> envelope_error option" where
  "VerifyUsable marshal sha e now revoked =
     (case Validate marshal sha e of
        Some err \<Rightarrow> Some err
      | None \<Rightarrow>
          if revoked then Some ErrEnvelopeRevoked
          else (case xv_ExpiresAt (ee_Validity e) of
                  Some (Some t) \<Rightarrow> if t < now then Some ErrEnvelopeExpired else None
                | _ \<Rightarrow> None))"

definition RefuseTransportWidening :: "execution_envelope \<Rightarrow> resolve_input \<Rightarrow> envelope_error option" where
  "RefuseTransportWidening e i =
     (let x = ee_Execution e in
      if rx_Unattended i \<and> \<not> xe_Unattended x then Some (ErrEnvelopeRefused ''transport cannot widen unattended'')
      else if rx_RequireSandbox i = Some False \<and> xe_RequireSandbox x then
        Some (ErrEnvelopeRefused ''transport cannot widen require_sandbox'')
      else if 0 < rx_MaxWaveConcurrency i \<and> 0 < xe_MaxWaveConcurrency x \<and> xe_MaxWaveConcurrency x < rx_MaxWaveConcurrency i then
        Some (ErrEnvelopeRefused ''transport cannot widen max_wave_concurrency'')
      else if f64_less (Fin 0) (rx_SessionCapUSD i) \<and> f64_less (Fin 0) (xc_SessionCapUSD (ee_Cost e))
          \<and> f64_less (xc_SessionCapUSD (ee_Cost e)) (rx_SessionCapUSD i) then
        Some (ErrEnvelopeRefused ''transport cannot widen session_cap_usd'')
      else if list_ex (\<lambda>p. p \<notin> set (xe_PermittedEffects x) \<and> xe_PermittedEffects x \<noteq> []) (rx_PermittedEffects i) then
        Some (ErrEnvelopeRefused ''transport cannot widen permitted_effects'')
      else None)"

section \<open>Resolution\<close>

definition checkOwnershipConsistency :: "resolve_input \<Rightarrow> approved_plan \<Rightarrow> envelope_error option" where
  "checkOwnershipConsistency i approved =
     (let kind = ProfileKind approved in
      if kind = ''organization'' \<and> rx_OrganizationID i = [] \<and> rx_ProfileID i \<noteq> [] then
        Some (ErrEnvelopeRefused ''organization/profile mismatch'')
      else if kind = ''personal'' \<and> rx_OrganizationID i \<noteq> [] then Some (ErrEnvelopeRefused ''organization/profile mismatch'')
      else None)"

definition profileRequiresSandbox :: "string \<Rightarrow> resolved option \<Rightarrow> bool" where
  "profileRequiresSandbox profileID pol =
     (case pol of
        Some p \<Rightarrow> RequireSandbox (re_Effective p) \<or> profileID = ''personal-autonomous-venture'' \<or> profileID = ''organization-10x''
      | None \<Rightarrow> profileID = ''personal-autonomous-venture'' \<or> profileID = ''organization-10x'')"

text \<open>\<open>UnixNano\<close> of a time; only times that are not zero reach it.\<close>

definition newEnvelopeID :: "(string \<Rightarrow> string) \<Rightarrow> string \<Rightarrow> int \<Rightarrow> string" where
  "newEnvelopeID sha planDigest issuedAt =
     ''env-'' @ take 32 (sha (''envelope|'' @ planDigest @ ''|'' @ show_int issuedAt))"

record resolver_deps =
  rd_Load :: "(string \<Rightarrow> provenance_error + approved_plan) option"
  rd_Policy :: "resolved option"
  rd_LayerDigests :: "string list"
  rd_PolicyVersion :: string
  rd_Now :: int

definition or_default :: "string \<Rightarrow> string \<Rightarrow> string" where
  "or_default s d = (if s = [] then d else s)"

text \<open>
  The choices of the resolver that can fail, in the order of the source: the sandbox decision,
  the budget scope and the deployment mode.
\<close>

definition decide_sandbox :: "resolved \<Rightarrow> resolve_input \<Rightarrow> envelope_error + bool" where
  "decide_sandbox pol i =
     (let required = profileRequiresSandbox (rx_ProfileID i) (Some pol) in
      if rx_RequireSandbox i = Some False \<and> required then
        Inl (ErrEnvelopeRefused ''sandbox-required profile cannot set require_sandbox=false'')
      else Inr (required \<or> rx_RequireSandbox i = Some True \<or> rx_Unattended i))"

definition decide_scope :: "resolve_input \<Rightarrow> envelope_error + string \<times> string" where
  "decide_scope i =
     (let budgetScope = or_default (rx_BudgetScope i) (if rx_MissionID i \<noteq> [] then BudgetScopeMission else BudgetScopeWorkflow) in
      if \<not> validBudgetScope budgetScope then Inl (ErrEnvelopeRefused (''unknown budget scope '' @ quote budgetScope))
      else
        (let budgetScopeID = or_default (rx_BudgetScopeID i) (if budgetScope = BudgetScopeMission then rx_MissionID i else rx_PlanID i) in
         if rx_Unattended i \<and> budgetScopeID = [] then
           Inl (ErrEnvelopeRefused ''missing budget scope id for unattended delivery'')
         else Inr (budgetScope, budgetScopeID)))"

definition decide_mode :: "resolved \<Rightarrow> resolve_input \<Rightarrow> envelope_error + string" where
  "decide_mode pol i =
     (let production = (case fmlookup (po_DeploymentModes (re_Effective pol)) ''production'' of None \<Rightarrow> [] | Some m \<Rightarrow> m);
          mode = or_default (rx_DeploymentMode i) (or_default production ModeCommand) in
      if \<not> validDeploymentMode mode then Inl (ErrEnvelopeRefused (''unknown deployment mode '' @ quote mode)) else Inr mode)"

definition build_envelope ::
    "(string \<Rightarrow> string) \<Rightarrow> resolver_deps \<Rightarrow> resolve_input \<Rightarrow> resolved \<Rightarrow> approved_plan \<Rightarrow> bool \<Rightarrow> string \<times> string \<Rightarrow> string \<Rightarrow> execution_envelope" where
  "build_envelope sha deps i pol approved sandbox scope mode =
     (let issuedAt = (case rx_IssuedAt i of None \<Rightarrow> rd_Now deps | Some t \<Rightarrow> t) in
      \<lparr>ee_SchemaVersion = ExecutionEnvelopeSchemaV1,
       ee_EnvelopeID = or_default (rx_EnvelopeID i) (newEnvelopeID sha (ap_planDigest approved) issuedAt),
       ee_EnvelopeDigest = [],
       ee_Plan = \<lparr>xp_ApprovedPlanID = rx_PlanID i, xp_PlanDigest = ap_planDigest approved,
         xp_PlanArtifactRef = or_default (rx_PlanArtifactRef i) (''approved-plan:'' @ rx_PlanID i),
         xp_ApprovalRef = ''approved-plan:'' @ rx_PlanID i,
         xp_ApprovalSignatureRef = (if ap_signature approved \<noteq> [] then ''sha256:'' @ sha (ap_signature approved) else []),
         xp_ApprovalExpiresAt = ap_expiresAt approved\<rparr>,
       ee_Repository = \<lparr>xr_RepositoryID = rx_RepositoryID i, xr_Provider = or_default (rx_Provider i) ProviderLocal,
         xr_CanonicalURL = rx_CanonicalURL i, xr_RepositoryAlias = rx_RepositoryAlias i,
         xr_PinnedBaseRevision = rx_PinnedBaseRevision i, xr_RequestedTargetBranch = rx_TargetBranch i,
         xr_WorkspaceStrategy = WorkspaceStrategyIsolated\<rparr>,
       ee_Ownership = \<lparr>xo_MissionID = rx_MissionID i, xo_PortfolioID = rx_PortfolioID i, xo_ProfileID = rx_ProfileID i,
         xo_OrganizationID = rx_OrganizationID i, xo_PrincipalID = rx_PrincipalID i\<rparr>,
       ee_Execution = \<lparr>xe_Unattended = rx_Unattended i, xe_RequireSandbox = sandbox,
         xe_ExecutorAllowlist = sort (po_ExecutorAllowlist (re_Effective pol)),
         xe_ValidationAllowlistRef = po_ValidationAllowlistRef (re_Effective pol),
         xe_MaxWaveConcurrency = rx_MaxWaveConcurrency i, xe_PermittedEffects = sort (rx_PermittedEffects i),
         xe_DeploymentMode = mode, xe_BranchDeliveryPolicy = or_default (rx_BranchDeliveryPolicy i) ''none''\<rparr>,
       ee_Cost = \<lparr>xc_BudgetScope = fst scope, xc_BudgetScopeID = snd scope, xc_BudgetEnvelopeID = rx_BudgetEnvelopeID i,
         xc_SessionCapUSD = rx_SessionCapUSD i, xc_ExperimentCapUSD = rx_ExperimentCapUSD i,
         xc_DeploymentCapUSD = rx_DeploymentCapUSD i\<rparr>,
       ee_Policy = \<lparr>xl_PolicyDigest = re_Digest pol, xl_PolicyVersion = or_default (rd_PolicyVersion deps) ''1'',
         xl_ResolvedLayerDigests = sort (rd_LayerDigests deps), xl_AuthorizationDecisionRef = rx_AuthorizationDecisionRef i\<rparr>,
       ee_Validity = \<lparr>xv_IssuedAt = Some issuedAt, xv_ExpiresAt = rx_ExpiresAt i\<rparr>\<rparr>)"

text \<open>The part of the resolver after the approved plan is loaded.\<close>

definition resolve_approved ::
    "(execution_envelope \<Rightarrow> string option) \<Rightarrow> (string \<Rightarrow> string) \<Rightarrow> resolver_deps \<Rightarrow> resolve_input \<Rightarrow> resolved \<Rightarrow> approved_plan \<Rightarrow>
     envelope_error + execution_envelope" where
  "resolve_approved marshal sha deps i pol approved =
     (let refuse = (\<lambda>m. Inl (ErrEnvelopeRefused m));
          named = (rx_RepositoryID i \<noteq> [] \<or> rx_CanonicalURL i \<noteq> []); pinned = (rx_PinnedBaseRevision i \<noteq> []) in
      if ap_planDigest approved = [] then refuse ''missing plan digest''
      else if \<not> pinned \<and> \<not> named \<and> rx_Unattended i then refuse ''missing repository revision''
      else if named \<and> \<not> pinned then refuse ''missing repository revision''
      else if \<not> validProvider (or_default (rx_Provider i) ProviderLocal) then
        refuse (''unknown repository provider '' @ quote (or_default (rx_Provider i) ProviderLocal))
      else case decide_sandbox pol i of Inl e \<Rightarrow> Inl e | Inr sandbox \<Rightarrow>
      if rx_OrganizationID i \<noteq> [] \<and> rx_ProfileID i = [] then refuse ''organization/profile mismatch''
      else case checkOwnershipConsistency i approved of Some e \<Rightarrow> Inl e | None \<Rightarrow>
      (case decide_scope i of Inl e \<Rightarrow> Inl e | Inr scope \<Rightarrow>
      (case decide_mode pol i of Inl e \<Rightarrow> Inl e | Inr mode \<Rightarrow>
      if \<not> validBranchPolicy (or_default (rx_BranchDeliveryPolicy i) ''none'') then
        refuse (''unknown branch delivery policy '' @ quote (or_default (rx_BranchDeliveryPolicy i) ''none''))
      else if rx_MaxWaveConcurrency i < 0 then refuse ''max_wave_concurrency cannot be negative''
      else
        (let env = build_envelope sha deps i pol approved sandbox scope mode in
         case ComputeDigest marshal sha env of Inl e \<Rightarrow> Inl e | Inr digest \<Rightarrow>
         (let env' = env\<lparr>ee_EnvelopeDigest := digest\<rparr> in
          case Validate marshal sha env' of Some e \<Rightarrow> Inl e | None \<Rightarrow> Inr env')))))"

definition ResolveExecutionEnvelope ::
    "(execution_envelope \<Rightarrow> string option) \<Rightarrow> (string \<Rightarrow> string) \<Rightarrow> resolver_deps \<Rightarrow> resolve_input \<Rightarrow> envelope_error + execution_envelope" where
  "ResolveExecutionEnvelope marshal sha deps i =
     (case rd_Load deps of None \<Rightarrow> Inl (ErrEnvelopeRefused ''missing provenance store'') | Some load \<Rightarrow>
      (case rd_Policy deps of None \<Rightarrow> Inl (ErrEnvelopeRefused ''missing policy digest'') | Some pol \<Rightarrow>
       if re_Digest pol = [] then Inl (ErrEnvelopeRefused ''missing policy digest'')
       else if po_ExecutorAllowlist (re_Effective pol) = [] then Inl (ErrEnvelopeRefused ''missing executor allowlist'')
       else if po_ValidationAllowlistRef (re_Effective pol) = [] then Inl (ErrEnvelopeRefused ''missing validation policy'')
       else if rx_PlanID i = [] then Inl (ErrEnvelopeRefused ''missing ApprovedPlan'')
       else case load (rx_PlanID i) of
         Inl err \<Rightarrow>
           (case err of
              ErrPlanRevoked _ \<Rightarrow> Inl (RefusedPlan err) | ErrPlanExpired _ \<Rightarrow> Inl (RefusedPlan err)
            | ErrNotFound \<Rightarrow> Inl (RefusedPlan err) | _ \<Rightarrow> Inl (LoadPlanFailed err))
       | Inr approved \<Rightarrow> resolve_approved marshal sha deps i pol approved))"

section \<open>The stores\<close>

record stored_envelope =
  se_Env :: execution_envelope
  se_Revoked :: bool
  se_Reason :: string
  se_At :: int

record mem_envelopes =
  me_ByID :: "string \<Rightarrow> stored_envelope option"
  me_ByDigest :: "string \<Rightarrow> string option"

definition NewMemEnvelopeStore :: mem_envelopes where
  "NewMemEnvelopeStore = \<lparr>me_ByID = Map.empty, me_ByDigest = Map.empty\<rparr>"

type_synonym envelope_marshal = "execution_envelope \<Rightarrow> string option"

definition MemEnvelopeStore_Insert ::
    "envelope_marshal \<Rightarrow> (string \<Rightarrow> string) \<Rightarrow> bool \<Rightarrow> mem_envelopes \<Rightarrow> execution_envelope \<Rightarrow> envelope_error option \<times> mem_envelopes" where
  "MemEnvelopeStore_Insert marshal sha fault s env =
     (case Validate marshal sha env of
        Some e \<Rightarrow> (Some e, s)
      | None \<Rightarrow>
          if me_ByID s (ee_EnvelopeID env) \<noteq> None then (Some (EnvelopeExists (ee_EnvelopeID env)), s)
          else if me_ByDigest s (ee_EnvelopeDigest env) \<noteq> None then (Some (EnvelopeDigestExists (ee_EnvelopeDigest env)), s)
          else (None, \<lparr>me_ByID = (me_ByID s)(ee_EnvelopeID env \<mapsto> \<lparr>se_Env = env, se_Revoked = False, se_Reason = [], se_At = 0\<rparr>),
                 me_ByDigest = (me_ByDigest s)(ee_EnvelopeDigest env \<mapsto> ee_EnvelopeID env)\<rparr>))"

definition MemEnvelopeStore_LoadByID :: "bool \<Rightarrow> mem_envelopes \<Rightarrow> string \<Rightarrow> envelope_error + execution_envelope \<times> bool" where
  "MemEnvelopeStore_LoadByID fault s envelopeID =
     (case me_ByID s envelopeID of None \<Rightarrow> Inl ErrEnvelopeNotFound | Some row \<Rightarrow> Inr (se_Env row, se_Revoked row))"

text \<open>An index entry without a row would be a nil dereference; the invariant below excludes it.\<close>

definition MemEnvelopeStore_LoadByDigest :: "bool \<Rightarrow> mem_envelopes \<Rightarrow> string \<Rightarrow> envelope_error + execution_envelope \<times> bool" where
  "MemEnvelopeStore_LoadByDigest fault s digest =
     (case me_ByDigest s digest of
        None \<Rightarrow> Inl ErrEnvelopeNotFound
      | Some envelopeID \<Rightarrow>
          (case me_ByID s envelopeID of None \<Rightarrow> Inl (EnvelopeDB ''nil row'') | Some row \<Rightarrow> Inr (se_Env row, se_Revoked row)))"

definition MemEnvelopeStore_Revoke :: "bool \<Rightarrow> mem_envelopes \<Rightarrow> string \<Rightarrow> string \<Rightarrow> int \<Rightarrow> envelope_error option \<times> mem_envelopes" where
  "MemEnvelopeStore_Revoke fault s envelopeID reason t =
     (case me_ByID s envelopeID of
        None \<Rightarrow> (Some ErrEnvelopeNotFound, s)
      | Some row \<Rightarrow>
          (None, s\<lparr>me_ByID := (me_ByID s)(envelopeID \<mapsto> row\<lparr>se_Revoked := True, se_Reason := reason, se_At := t\<rparr>)\<rparr>))"

text \<open>
  A row of \<open>execution_envelopes\<close>. The columns that copy single fields of the payload are only
  written and are left out. \<open>fault\<close> is a failure of the database, in which nothing changes.
\<close>

record envelope_row =
  er_ID :: string
  er_Digest :: string
  er_Payload :: string
  er_Revoked :: bool
  er_RevokedAt :: "int option"
  er_Reason :: string

type_synonym pg_envelopes = "envelope_row list"

definition PGEnvelopeStore_Insert ::
    "envelope_marshal \<Rightarrow> (string \<Rightarrow> string) \<Rightarrow> (string \<Rightarrow> string option) \<Rightarrow> bool \<Rightarrow> pg_envelopes \<Rightarrow> execution_envelope \<Rightarrow>
     envelope_error option \<times> pg_envelopes" where
  "PGEnvelopeStore_Insert marshal sha jsonb fault s env =
     (case Validate marshal sha env of
        Some e \<Rightarrow> (Some e, s)
      | None \<Rightarrow>
          (case CanonicalJSON marshal env of
             Inl e \<Rightarrow> (Some e, s)
           | Inr payload \<Rightarrow>
               (case jsonb payload of
                  None \<Rightarrow> (Some (EnvelopeDB (ee_EnvelopeID env)), s)
                | Some doc \<Rightarrow>
                    if fault \<or> list_ex (\<lambda>r. er_ID r = ee_EnvelopeID env \<or> er_Digest r = ee_EnvelopeDigest env) s
                    then (Some (EnvelopeDB (ee_EnvelopeID env)), s)
                    else (None, s @ [\<lparr>er_ID = ee_EnvelopeID env, er_Digest = ee_EnvelopeDigest env, er_Payload = doc,
                           er_Revoked = False, er_RevokedAt = None, er_Reason = []\<rparr>]))))"

definition PGEnvelopeStore_load ::
    "envelope_marshal \<Rightarrow> (string \<Rightarrow> string) \<Rightarrow> (string \<Rightarrow> execution_envelope option) \<Rightarrow> bool \<Rightarrow> envelope_row option \<Rightarrow> string \<Rightarrow>
     envelope_error + execution_envelope \<times> bool" where
  "PGEnvelopeStore_load marshal sha unmarshal fault selected key =
     (if fault then Inl (EnvelopeDB key)
      else case selected of
        None \<Rightarrow> Inl ErrEnvelopeNotFound
      | Some r \<Rightarrow>
          (case unmarshal (er_Payload r) of
             None \<Rightarrow> Inl (DecodeEnvelope key)
           | Some env \<Rightarrow>
               (case Validate marshal sha env of
                  Some e \<Rightarrow> Inl (TamperedStored e)
                | None \<Rightarrow> Inr (env, er_Revoked r))))"

definition PGEnvelopeStore_LoadByID ::
    "envelope_marshal \<Rightarrow> (string \<Rightarrow> string) \<Rightarrow> (string \<Rightarrow> execution_envelope option) \<Rightarrow> bool \<Rightarrow> pg_envelopes \<Rightarrow> string \<Rightarrow>
     envelope_error + execution_envelope \<times> bool" where
  "PGEnvelopeStore_LoadByID marshal sha unmarshal fault s envelopeID =
     PGEnvelopeStore_load marshal sha unmarshal fault (find (\<lambda>r. er_ID r = envelopeID) s) envelopeID"

definition PGEnvelopeStore_LoadByDigest ::
    "envelope_marshal \<Rightarrow> (string \<Rightarrow> string) \<Rightarrow> (string \<Rightarrow> execution_envelope option) \<Rightarrow> bool \<Rightarrow> pg_envelopes \<Rightarrow> string \<Rightarrow>
     envelope_error + execution_envelope \<times> bool" where
  "PGEnvelopeStore_LoadByDigest marshal sha unmarshal fault s digest =
     PGEnvelopeStore_load marshal sha unmarshal fault (find (\<lambda>r. er_Digest r = digest) s) digest"

definition PGEnvelopeStore_Revoke :: "bool \<Rightarrow> pg_envelopes \<Rightarrow> string \<Rightarrow> string \<Rightarrow> int \<Rightarrow> envelope_error option \<times> pg_envelopes" where
  "PGEnvelopeStore_Revoke fault s envelopeID reason t =
     (if fault then (Some (EnvelopeDB envelopeID), s)
      else if \<not> list_ex (\<lambda>r. er_ID r = envelopeID) s then (Some ErrEnvelopeNotFound, s)
      else (None, map (\<lambda>r. if er_ID r = envelopeID
              then r\<lparr>er_Revoked := True, er_RevokedAt := Some t, er_Reason := reason\<rparr> else r) s))"

definition LoadAndVerifyEnvelope ::
    "envelope_marshal \<Rightarrow> (string \<Rightarrow> string) \<Rightarrow> ('s \<Rightarrow> string \<Rightarrow> envelope_error + execution_envelope \<times> bool) \<Rightarrow> 's option \<Rightarrow>
     string \<Rightarrow> int \<Rightarrow> envelope_error + execution_envelope" where
  "LoadAndVerifyEnvelope marshal sha loadByDigest store digest now =
     (case store of
        None \<Rightarrow> Inl (ErrEnvelopeRefused ''missing envelope store'')
      | Some s \<Rightarrow>
          if digest = [] then Inl (ErrEnvelopeRefused ''empty envelope digest'')
          else case loadByDigest s digest of
            Inl e \<Rightarrow> Inl e
          | Inr (env, revoked) \<Rightarrow>
              (case VerifyUsable marshal sha env now revoked of Some e \<Rightarrow> Inl (RefusedBy e) | None \<Rightarrow> Inr env))"

section \<open>Canonical envelopes\<close>

lemma canonical_idem [simp]: "canonical (canonical e) = canonical e"
  by (simp add: canonical_def sorted_sort_id)

lemma canonical_fields [simp]:
  "ee_SchemaVersion (canonical e) = ee_SchemaVersion e" "ee_EnvelopeID (canonical e) = ee_EnvelopeID e"
  "ee_EnvelopeDigest (canonical e) = ee_EnvelopeDigest e" "ee_Validity (canonical e) = ee_Validity e"
  by (simp_all add: canonical_def)

lemma canonical_clear: "(canonical e)\<lparr>ee_EnvelopeDigest := []\<rparr> = canonical (e\<lparr>ee_EnvelopeDigest := []\<rparr>)"
  by (simp add: canonical_def)

text \<open>The digest, and with it the validation, does not depend on the order of the lists.\<close>

lemma ComputeDigest_canonical [simp]: "ComputeDigest marshal sha (canonical e) = ComputeDigest marshal sha e"
  by (simp add: ComputeDigest_def CanonicalJSON_def canonical_clear)

lemma check_fields_canonical [simp]: "check_fields (canonical e) = check_fields e"
  by (simp add: check_fields_def canonical_def)

lemma Validate_canonical [simp]: "Validate marshal sha (canonical e) = Validate marshal sha e"
  by (simp add: Validate_def split: sum.splits)

lemma Validate_None:
  "Validate marshal sha e = None \<longleftrightarrow> ee_SchemaVersion e = ExecutionEnvelopeSchemaV1 \<and> ee_EnvelopeID e \<noteq> []
     \<and> ee_EnvelopeDigest e \<noteq> [] \<and> ComputeDigest marshal sha e = Inr (ee_EnvelopeDigest e) \<and> check_fields e = None"
  by (auto simp: Validate_def split: sum.splits)

lemma VerifyUsable_None:
  "VerifyUsable marshal sha e now revoked = None \<longleftrightarrow> Validate marshal sha e = None \<and> \<not> revoked
     \<and> (\<forall>t. xv_ExpiresAt (ee_Validity e) = Some (Some t) \<longrightarrow> now \<le> t)"
  by (auto simp: VerifyUsable_def split: option.splits)

section \<open>The interface of a store\<close>

datatype envelope_op =
    EnvInsert bool execution_envelope
  | EnvRevoke bool string string int

fun envelope_step ::
    "(bool \<Rightarrow> 's \<Rightarrow> execution_envelope \<Rightarrow> envelope_error option \<times> 's) \<Rightarrow>
     (bool \<Rightarrow> 's \<Rightarrow> string \<Rightarrow> string \<Rightarrow> int \<Rightarrow> envelope_error option \<times> 's) \<Rightarrow> envelope_op \<Rightarrow> 's \<Rightarrow> 's" where
  "envelope_step insert_env revoke (EnvInsert fault env) s = snd (insert_env fault s env)"
| "envelope_step insert_env revoke (EnvRevoke fault k reason t) s = snd (revoke fault s k reason t)"

text \<open>
  \<open>row\<close> reads the envelope stored under a digest without failing; \<open>stored\<close> is the form in which
  an inserted envelope is read back.
\<close>

locale envelope_store =
  fixes marshal :: envelope_marshal and sha :: "string \<Rightarrow> string"
    and insert_env :: "bool \<Rightarrow> 's \<Rightarrow> execution_envelope \<Rightarrow> envelope_error option \<times> 's"
    and load :: "bool \<Rightarrow> 's \<Rightarrow> string \<Rightarrow> envelope_error + execution_envelope \<times> bool"
    and revoke :: "bool \<Rightarrow> 's \<Rightarrow> string \<Rightarrow> string \<Rightarrow> int \<Rightarrow> envelope_error option \<times> 's"
    and row :: "'s \<Rightarrow> string \<Rightarrow> (execution_envelope \<times> bool) option"
    and stored :: "execution_envelope \<Rightarrow> execution_envelope"
    and inv :: "'s \<Rightarrow> bool"
    and faithful :: bool
  assumes insert_ok: "faithful \<Longrightarrow> inv s \<Longrightarrow> insert_env f s env = (None, s') \<Longrightarrow>
      inv s' \<and> row s (ee_EnvelopeDigest env) = None
      \<and> (\<forall>d. row s' d = (if d = ee_EnvelopeDigest env then Some (stored env, False) else row s d))"
    and insert_err: "insert_env f s env = (Some e, s') \<Longrightarrow> s' = s"
    and load_row: "faithful \<Longrightarrow> inv s \<Longrightarrow> load f s d = Inr r \<Longrightarrow> row s d = Some r"
    and row_digest: "faithful \<Longrightarrow> inv s \<Longrightarrow> row s d = Some (env, b) \<Longrightarrow> ee_EnvelopeDigest env = d"
    and revoke_ok: "faithful \<Longrightarrow> inv s \<Longrightarrow> revoke f s k reason t = (None, s') \<Longrightarrow>
      inv s' \<and> (\<forall>d. row s' d = map_option (\<lambda>(env, b). (env, b \<or> ee_EnvelopeID env = k)) (row s d))"
    and revoke_err: "revoke f s k reason t = (Some e, s') \<Longrightarrow> s' = s"
begin

abbreviation step :: "envelope_op \<Rightarrow> 's \<Rightarrow> 's" where
  "step \<equiv> envelope_step insert_env revoke"

definition revoked_at :: "'s \<Rightarrow> string \<Rightarrow> bool" where
  "revoked_at s d = (\<exists>env. row s d = Some (env, True))"

lemma step_cases:
  assumes "faithful" and "inv s"
  obtains "step op s = s"
  | f env where "op = EnvInsert f env" "inv (step op s)" "row s (ee_EnvelopeDigest env) = None"
      "\<And>d. row (step op s) d = (if d = ee_EnvelopeDigest env then Some (stored env, False) else row s d)"
  | f k reason t where "op = EnvRevoke f k reason t" "inv (step op s)"
      "\<And>d. row (step op s) d = map_option (\<lambda>(env, b). (env, b \<or> ee_EnvelopeID env = k)) (row s d)"
proof (cases op)
  case (EnvInsert f env)
  obtain r s' where r: "insert_env f s env = (r, s')" by fastforce
  show thesis
  proof (cases r)
    case None
    then show thesis using insert_ok [OF assms, of f env s'] r EnvInsert that(2) by simp
  next
    case (Some e)
    then show thesis using insert_err r EnvInsert that(1) by simp
  qed
next
  case (EnvRevoke f k reason t)
  obtain r s' where r: "revoke f s k reason t = (r, s')" by fastforce
  show thesis
  proof (cases r)
    case None
    then show thesis using revoke_ok [OF assms, of f k reason t s'] r EnvRevoke that(3) by simp
  next
    case (Some e)
    then show thesis using revoke_err r EnvRevoke that(1) by simp
  qed
qed

lemma history_inv: "faithful \<Longrightarrow> inv s \<Longrightarrow> inv (fold step ops s)"
proof (induction ops arbitrary: s)
  case (Cons op ops)
  have "inv (step op s)" using Cons.prems by (elim step_cases [of s op]) auto
  then show ?case using Cons by simp
qed simp

lemma step_revoked: "faithful \<Longrightarrow> inv s \<Longrightarrow> revoked_at s d \<Longrightarrow> revoked_at (step op s) d"
  by (elim step_cases [of s op]) (auto simp: revoked_at_def)

lemma history_revoked: "faithful \<Longrightarrow> inv s \<Longrightarrow> revoked_at s d \<Longrightarrow> revoked_at (fold step ops s) d"
proof (induction ops arbitrary: s)
  case (Cons op ops)
  have "inv (step op s)" using Cons.prems by (elim step_cases [of s op]) auto
  then show ?case using Cons step_revoked by simp
qed simp

lemma revoked_refused:
  assumes "faithful" and "inv s" and "revoked_at s d"
  shows "LoadAndVerifyEnvelope marshal sha (load f) (Some s) d now \<noteq> Inr env"
  using assms load_row [OF assms(1,2), of f d]
  by (auto simp: LoadAndVerifyEnvelope_def revoked_at_def VerifyUsable_None split: sum.splits option.splits if_splits)

lemma history_source:
  "faithful \<Longrightarrow> inv s \<Longrightarrow> row (fold step ops s) d = Some (env, b) \<Longrightarrow>
     (\<exists>b'. row s d = Some (env, b')) \<or> (\<exists>f env'. EnvInsert f env' \<in> set ops \<and> env = stored env')"
proof (induction ops arbitrary: s)
  case (Cons op ops)
  have i: "inv (step op s)" using Cons.prems by (elim step_cases [of s op]) auto
  consider b' where "row (step op s) d = Some (env, b')" | f env' where "EnvInsert f env' \<in> set ops" "env = stored env'"
    using Cons.IH [OF Cons.prems(1) i] Cons.prems(3) by auto
  then show ?case
  proof cases
    case 1
    show ?thesis
      using Cons.prems(1,2)
      by (rule step_cases [of s op]) (use 1 in \<open>auto split: if_splits\<close>)
  qed auto
qed simp

lemma revocation_permanent:
  assumes "faithful" and "inv s" and "row s d = Some (env0, b)" and "revoke f s (ee_EnvelopeID env0) reason t = (None, s')"
  shows "LoadAndVerifyEnvelope marshal sha (load f') (Some (fold step ops s')) d now \<noteq> Inr env"
proof -
  have i: "inv s'" and r: "revoked_at s' d"
    using revoke_ok [OF assms(1,2,4)] assms(3) by (auto simp: revoked_at_def)
  show ?thesis
    using revoked_refused [OF assms(1) history_inv [OF assms(1) i] history_revoked [OF assms(1) i r]] .
qed

lemma verified_history:
  assumes "faithful" and "inv s0" and "\<And>d. row s0 d = None"
    and "LoadAndVerifyEnvelope marshal sha (load f) (Some (fold step ops s0)) digest now = Inr env"
  shows "ee_EnvelopeDigest env = digest \<and> (\<exists>f env'. EnvInsert f env' \<in> set ops \<and> env = stored env')
    \<and> Validate marshal sha env = None \<and> row (fold step ops s0) digest = Some (env, False)
    \<and> (\<forall>t. xv_ExpiresAt (ee_Validity env) = Some (Some t) \<longrightarrow> now \<le> t)"
proof -
  have i: "inv (fold step ops s0)" using history_inv assms(1,2) .
  obtain b where l: "load f (fold step ops s0) digest = Inr (env, b)" and v: "VerifyUsable marshal sha env now b = None"
    using assms(4) by (auto simp: LoadAndVerifyEnvelope_def split: sum.splits option.splits if_splits)
  have r: "row (fold step ops s0) digest = Some (env, b)" by (rule load_row [OF assms(1) i l])
  show ?thesis
    using r v history_source [OF assms(1,2) r] assms(3) row_digest [OF assms(1) i r] by (auto simp: VerifyUsable_None)
qed

end

section \<open>Both stores keep the contract\<close>

definition mem_row :: "mem_envelopes \<Rightarrow> string \<Rightarrow> (execution_envelope \<times> bool) option" where
  "mem_row s d =
     (case me_ByDigest s d of None \<Rightarrow> None | Some k \<Rightarrow> map_option (\<lambda>r. (se_Env r, se_Revoked r)) (me_ByID s k))"

definition mem_envelopes_inv :: "mem_envelopes \<Rightarrow> bool" where
  "mem_envelopes_inv s = (\<forall>d k. me_ByDigest s d = Some k \<longrightarrow>
     (\<exists>r. me_ByID s k = Some r \<and> ee_EnvelopeDigest (se_Env r) = d \<and> ee_EnvelopeID (se_Env r) = k))"

lemma mem_envelopes_invD:
  "mem_envelopes_inv s \<Longrightarrow> me_ByDigest s d = Some k \<Longrightarrow>
     \<exists>r. me_ByID s k = Some r \<and> ee_EnvelopeDigest (se_Env r) = d \<and> ee_EnvelopeID (se_Env r) = k"
  by (auto simp: mem_envelopes_inv_def)

interpretation mem_env: envelope_store marshal sha "MemEnvelopeStore_Insert marshal sha" MemEnvelopeStore_LoadByDigest
  MemEnvelopeStore_Revoke mem_row id mem_envelopes_inv True
  for marshal sha
proof unfold_locales
  fix s f env s'
  assume inv: "mem_envelopes_inv s" and "MemEnvelopeStore_Insert marshal sha f s env = (None, s')"
  then have n: "me_ByID s (ee_EnvelopeID env) = None" "me_ByDigest s (ee_EnvelopeDigest env) = None"
    and s': "s' = \<lparr>me_ByID = (me_ByID s)(ee_EnvelopeID env \<mapsto> \<lparr>se_Env = env, se_Revoked = False, se_Reason = [], se_At = 0\<rparr>),
                 me_ByDigest = (me_ByDigest s)(ee_EnvelopeDigest env \<mapsto> ee_EnvelopeID env)\<rparr>"
    by (auto simp: MemEnvelopeStore_Insert_def split: option.splits if_splits)
  have other: "k \<noteq> ee_EnvelopeID env" if "me_ByDigest s d = Some k" for d k
    using mem_envelopes_invD [OF inv that] n by auto
  have "mem_envelopes_inv s'" using inv other by (auto simp: mem_envelopes_inv_def s')
  then show "mem_envelopes_inv s' \<and> mem_row s (ee_EnvelopeDigest env) = None \<and>
    (\<forall>d. mem_row s' d = (if d = ee_EnvelopeDigest env then Some (id env, False) else mem_row s d))"
    using n other by (auto simp: mem_row_def s' split: option.splits)
next
  fix s f k reason t s'
  assume inv: "mem_envelopes_inv s" and "MemEnvelopeStore_Revoke f s k reason t = (None, s')"
  then obtain r where r: "me_ByID s k = Some r"
    and s': "s' = s\<lparr>me_ByID := (me_ByID s)(k \<mapsto> r\<lparr>se_Revoked := True, se_Reason := reason, se_At := t\<rparr>)\<rparr>"
    by (auto simp: MemEnvelopeStore_Revoke_def split: option.splits)
  have "mem_envelopes_inv s'" using inv r by (force simp: mem_envelopes_inv_def s')
  moreover have "mem_row s' d = map_option (\<lambda>(env, b). (env, b \<or> ee_EnvelopeID env = k)) (mem_row s d)" for d
    using r mem_envelopes_invD [OF inv, of d] by (auto simp: mem_row_def s' split: option.splits)
  ultimately show "mem_envelopes_inv s' \<and>
    (\<forall>d. mem_row s' d = map_option (\<lambda>(env, b). (env, b \<or> ee_EnvelopeID env = k)) (mem_row s d))" by blast
qed (auto simp: MemEnvelopeStore_Insert_def MemEnvelopeStore_LoadByDigest_def MemEnvelopeStore_Revoke_def mem_row_def
    split: option.splits if_splits dest: mem_envelopes_invD)

definition pg_row :: "(string \<Rightarrow> execution_envelope option) \<Rightarrow> pg_envelopes \<Rightarrow> string \<Rightarrow> (execution_envelope \<times> bool) option" where
  "pg_row unmarshal s d =
     (case find (\<lambda>r. er_Digest r = d) s of None \<Rightarrow> None | Some r \<Rightarrow> map_option (\<lambda>e. (e, er_Revoked r)) (unmarshal (er_Payload r)))"

definition pg_envelopes_inv :: "(string \<Rightarrow> execution_envelope option) \<Rightarrow> pg_envelopes \<Rightarrow> bool" where
  "pg_envelopes_inv unmarshal s =
     list_all (\<lambda>r. case unmarshal (er_Payload r) of None \<Rightarrow> False | Some e \<Rightarrow> ee_EnvelopeID e = er_ID r \<and> ee_EnvelopeDigest e = er_Digest r) s"

lemma find_snoc: "find P (xs @ [x]) = (case find P xs of None \<Rightarrow> if P x then Some x else None | Some y \<Rightarrow> Some y)"
  by (induction xs) auto

lemma find_SomeD: "find P xs = Some x \<Longrightarrow> x \<in> set xs \<and> P x"
  by (auto simp: find_Some_iff)

lemma pg_envelopes_invD:
  "pg_envelopes_inv unmarshal s \<Longrightarrow> find (\<lambda>r. er_Digest r = d) s = Some r \<Longrightarrow>
     \<exists>e. unmarshal (er_Payload r) = Some e \<and> ee_EnvelopeID e = er_ID r \<and> ee_EnvelopeDigest e = d"
  by (fastforce simp: pg_envelopes_inv_def list_all_iff split: option.splits dest!: find_SomeD)

interpretation pg_env: envelope_store marshal sha "PGEnvelopeStore_Insert marshal sha jsonb"
  "PGEnvelopeStore_LoadByDigest marshal sha unmarshal" PGEnvelopeStore_Revoke "pg_row unmarshal" canonical
  "pg_envelopes_inv unmarshal" "json_round_trips marshal jsonb unmarshal"
  for marshal sha jsonb unmarshal
proof unfold_locales
  fix s f env s'
  assume rt: "json_round_trips marshal jsonb unmarshal" and inv: "pg_envelopes_inv unmarshal s"
    and i: "PGEnvelopeStore_Insert marshal sha jsonb f s env = (None, s')"
  from i obtain payload doc where p: "CanonicalJSON marshal env = Inr payload" "jsonb payload = Some doc"
    and n: "\<not> list_ex (\<lambda>r. er_ID r = ee_EnvelopeID env \<or> er_Digest r = ee_EnvelopeDigest env) s"
    and s': "s' = s @ [\<lparr>er_ID = ee_EnvelopeID env, er_Digest = ee_EnvelopeDigest env, er_Payload = doc,
                           er_Revoked = False, er_RevokedAt = None, er_Reason = []\<rparr>]"
    by (auto simp: PGEnvelopeStore_Insert_def split: option.splits sum.splits if_splits)
  have "unmarshal doc = Some (canonical env)"
    using rt p by (auto simp: CanonicalJSON_def json_round_trips_def split: if_splits option.splits)
  moreover have "find (\<lambda>r. er_Digest r = ee_EnvelopeDigest env) s = None"
    using n by (auto simp: find_None_iff list_ex_iff)
  ultimately show "pg_envelopes_inv unmarshal s' \<and> pg_row unmarshal s (ee_EnvelopeDigest env) = None \<and>
    (\<forall>d. pg_row unmarshal s' d = (if d = ee_EnvelopeDigest env then Some (canonical env, False) else pg_row unmarshal s d))"
    using inv by (auto simp: pg_envelopes_inv_def pg_row_def s' find_snoc split: option.splits)
next
  fix s f k reason t s'
  assume inv: "pg_envelopes_inv unmarshal s" and "PGEnvelopeStore_Revoke f s k reason t = (None, s')"
  then have s': "s' = map (\<lambda>r. if er_ID r = k then r\<lparr>er_Revoked := True, er_RevokedAt := Some t, er_Reason := reason\<rparr> else r) s"
    by (auto simp: PGEnvelopeStore_Revoke_def split: if_splits)
  have "pg_envelopes_inv unmarshal s'"
    using inv by (auto simp: pg_envelopes_inv_def s' list_all_iff cong: option.case_cong split: option.splits)
  moreover have "pg_row unmarshal s' d = map_option (\<lambda>(env, b). (env, b \<or> ee_EnvelopeID env = k)) (pg_row unmarshal s d)" for d
  proof -
    have "find (\<lambda>r. er_Digest r = d) s' = map_option (\<lambda>r. if er_ID r = k
        then r\<lparr>er_Revoked := True, er_RevokedAt := Some t, er_Reason := reason\<rparr> else r) (find (\<lambda>r. er_Digest r = d) s)"
      by (simp add: s' find_map_list if_distrib cong: if_cong)
    then show ?thesis
      using pg_envelopes_invD [OF inv, of d] by (cases "find (\<lambda>r. er_Digest r = d) s") (auto simp: pg_row_def)
  qed
  ultimately show "pg_envelopes_inv unmarshal s' \<and>
    (\<forall>d. pg_row unmarshal s' d = map_option (\<lambda>(env, b). (env, b \<or> ee_EnvelopeID env = k)) (pg_row unmarshal s d))" by blast
next
  fix s d env b
  assume "pg_envelopes_inv unmarshal s" "pg_row unmarshal s d = Some (env, b)"
  then show "ee_EnvelopeDigest env = d" by (auto simp: pg_row_def split: option.splits dest: pg_envelopes_invD)
qed (auto simp: PGEnvelopeStore_Insert_def PGEnvelopeStore_LoadByDigest_def PGEnvelopeStore_load_def PGEnvelopeStore_Revoke_def
    pg_row_def split: option.splits sum.splits if_splits)

section \<open>What the stores guarantee\<close>

abbreviation pg_envelope_history ::
    "envelope_marshal \<Rightarrow> (string \<Rightarrow> string) \<Rightarrow> (string \<Rightarrow> string option) \<Rightarrow> envelope_op list \<Rightarrow> pg_envelopes \<Rightarrow> pg_envelopes" where
  "pg_envelope_history marshal sha jsonb \<equiv> fold (envelope_step (PGEnvelopeStore_Insert marshal sha jsonb) PGEnvelopeStore_Revoke)"

lemma pg_empty: "pg_envelopes_inv unmarshal []" "pg_row unmarshal [] d = None"
  by (simp_all add: pg_envelopes_inv_def pg_row_def)

text \<open>
  C13: What the Postgres store lets a delivery run under. If, after any sequence of inserts and
  revocations on an empty table, an envelope is loaded and verified for a digest, then it is one
  of the inserted envelopes in canonical form, its digest is the one that was asked for and the
  hash of its own content, its fields are in their closed vocabularies, its row is not revoked
  and it has not expired. A JSON value is assumed to survive the way through the column.
\<close>

theorem LoadAndVerifyEnvelope_sound:
  assumes "json_round_trips marshal jsonb unmarshal"
    and "s = pg_envelope_history marshal sha jsonb ops []"
    and "LoadAndVerifyEnvelope marshal sha (PGEnvelopeStore_LoadByDigest marshal sha unmarshal fault) (Some s) digest now = Inr env"
  shows "ee_EnvelopeDigest env = digest \<and> ComputeDigest marshal sha env = Inr digest \<and> check_fields env = None
    \<and> (\<exists>f env'. EnvInsert f env' \<in> set ops \<and> env = canonical env')
    \<and> pg_row unmarshal s digest = Some (env, False)
    \<and> (\<forall>t. xv_ExpiresAt (ee_Validity env) = Some (Some t) \<longrightarrow> now \<le> t)"
  using pg_env.verified_history [OF assms(1) pg_empty(1), of sha fault ops digest now env] assms(2,3) pg_empty(2)
  by (auto simp: Validate_None)

text \<open>
  Revoking an envelope is final. Once a revocation of the envelope stored under a digest has
  succeeded, no later sequence of inserts and revocations makes the load of that digest succeed.
\<close>

theorem envelope_revocation_permanent:
  assumes "json_round_trips marshal jsonb unmarshal"
    and "s = pg_envelope_history marshal sha jsonb ops []"
    and "pg_row unmarshal s digest = Some (env0, b)"
    and "PGEnvelopeStore_Revoke f s (ee_EnvelopeID env0) reason t = (None, s')"
  shows "LoadAndVerifyEnvelope marshal sha (PGEnvelopeStore_LoadByDigest marshal sha unmarshal fault)
    (Some (pg_envelope_history marshal sha jsonb ops' s')) digest now \<noteq> Inr env"
proof -
  have "pg_envelopes_inv unmarshal s"
    unfolding assms(2) by (rule pg_env.history_inv [OF assms(1) pg_empty(1)])
  from pg_env.revocation_permanent [OF assms(1) this assms(3,4)] show ?thesis .
qed

section \<open>What resolution guarantees\<close>

lemma resolve_approved_Inr:
  assumes "resolve_approved marshal sha deps i pol approved = Inr env"
  obtains sandbox scope mode digest where "decide_sandbox pol i = Inr sandbox" "decide_scope i = Inr scope"
    "decide_mode pol i = Inr mode" "checkOwnershipConsistency i approved = None" "0 \<le> rx_MaxWaveConcurrency i"
    "env = (build_envelope sha deps i pol approved sandbox scope mode)\<lparr>ee_EnvelopeDigest := digest\<rparr>"
    "Validate marshal sha env = None"
    "rx_RepositoryID i \<noteq> [] \<or> rx_CanonicalURL i \<noteq> [] \<or> rx_Unattended i \<Longrightarrow> rx_PinnedBaseRevision i \<noteq> []"
  using assms by (auto simp: resolve_approved_def Let_def split: if_splits sum.splits option.splits)

lemma ResolveExecutionEnvelope_Inr:
  assumes "ResolveExecutionEnvelope marshal sha deps i = Inr env"
  obtains load pol approved where "rd_Load deps = Some load" "rd_Policy deps = Some pol" "load (rx_PlanID i) = Inr approved"
    "rx_PlanID i \<noteq> []" "resolve_approved marshal sha deps i pol approved = Inr env"
  using assms
  by (auto simp: ResolveExecutionEnvelope_def split: option.splits sum.splits if_splits provenance_error.splits)

lemma decide_sandbox_Inr:
  "decide_sandbox pol i = Inr b \<Longrightarrow> b = (profileRequiresSandbox (rx_ProfileID i) (Some pol) \<or> rx_RequireSandbox i = Some True \<or> rx_Unattended i)
     \<and> (rx_RequireSandbox i = Some False \<longrightarrow> \<not> profileRequiresSandbox (rx_ProfileID i) (Some pol))"
  by (auto simp: decide_sandbox_def Let_def split: if_splits)

lemma resolved_envelope:
  assumes "ResolveExecutionEnvelope marshal sha deps i = Inr env"
  shows "\<exists>pol load approved. rd_Policy deps = Some pol \<and> rd_Load deps = Some load \<and> load (rx_PlanID i) = Inr approved
    \<and> mset (xe_ExecutorAllowlist (ee_Execution env)) = mset (po_ExecutorAllowlist (re_Effective pol))
    \<and> xe_ValidationAllowlistRef (ee_Execution env) = po_ValidationAllowlistRef (re_Effective pol)
    \<and> xl_PolicyDigest (ee_Policy env) = re_Digest pol \<and> xp_PlanDigest (ee_Plan env) = ap_planDigest approved
    \<and> xe_RequireSandbox (ee_Execution env) =
        (profileRequiresSandbox (rx_ProfileID i) (Some pol) \<or> rx_RequireSandbox i = Some True \<or> rx_Unattended i)
    \<and> (rx_RequireSandbox i = Some False \<longrightarrow> \<not> RequireSandbox (re_Effective pol))
    \<and> (rx_RepositoryID i \<noteq> [] \<or> rx_CanonicalURL i \<noteq> [] \<or> rx_Unattended i \<longrightarrow> xr_PinnedBaseRevision (ee_Repository env) \<noteq> [])
    \<and> Validate marshal sha env = None"
proof -
  obtain load pol approved where l: "rd_Load deps = Some load" "rd_Policy deps = Some pol" "load (rx_PlanID i) = Inr approved"
    and a: "resolve_approved marshal sha deps i pol approved = Inr env"
    using ResolveExecutionEnvelope_Inr [OF assms] by blast
  obtain sandbox scope mode digest where d: "decide_sandbox pol i = Inr sandbox"
    and e: "env = (build_envelope sha deps i pol approved sandbox scope mode)\<lparr>ee_EnvelopeDigest := digest\<rparr>"
    and v: "Validate marshal sha env = None"
    and p: "rx_RepositoryID i \<noteq> [] \<or> rx_CanonicalURL i \<noteq> [] \<or> rx_Unattended i \<Longrightarrow> rx_PinnedBaseRevision i \<noteq> []"
    using resolve_approved_Inr [OF a] by metis
  show ?thesis
    using l v p decide_sandbox_Inr [OF d]
    by (intro exI [of _ pol] exI [of _ load] exI [of _ approved])
      (auto simp: e build_envelope_def Let_def profileRequiresSandbox_def)
qed

text \<open>
  An envelope never grants more than the compiled policy. The executors and the validation
  reference are the policy's, the digest names that policy and the approved plan is the one the
  provenance store loads; the sandbox is required whenever the policy or the profile requires it
  or the delivery is unattended, and a request to drop it is refused; a named repository and an
  unattended delivery have a pinned revision; and the result passes its own validation.
\<close>

theorem ResolveExecutionEnvelope_bounded:
  assumes "ResolveExecutionEnvelope marshal sha deps i = Inr env"
  shows "\<exists>pol load approved. rd_Policy deps = Some pol \<and> rd_Load deps = Some load \<and> load (rx_PlanID i) = Inr approved
    \<and> mset (xe_ExecutorAllowlist (ee_Execution env)) = mset (po_ExecutorAllowlist (re_Effective pol))
    \<and> xe_ValidationAllowlistRef (ee_Execution env) = po_ValidationAllowlistRef (re_Effective pol)
    \<and> xl_PolicyDigest (ee_Policy env) = re_Digest pol \<and> xp_PlanDigest (ee_Plan env) = ap_planDigest approved
    \<and> xe_RequireSandbox (ee_Execution env) =
        (profileRequiresSandbox (rx_ProfileID i) (Some pol) \<or> rx_RequireSandbox i = Some True \<or> rx_Unattended i)
    \<and> (rx_RequireSandbox i = Some False \<longrightarrow> \<not> RequireSandbox (re_Effective pol))
    \<and> (rx_RepositoryID i \<noteq> [] \<or> rx_CanonicalURL i \<noteq> [] \<or> rx_Unattended i \<longrightarrow> xr_PinnedBaseRevision (ee_Repository env) \<noteq> [])
    \<and> Validate marshal sha env = None"
  by (rule resolved_envelope [OF assms])

text \<open>
  The mode of the envelope is not bounded by the policy: a mode named in the request is taken as
  it is, even where the policy disables deployments to production.
\<close>

theorem decide_mode_not_bounded:
  "fmlookup (po_DeploymentModes (re_Effective pol)) ''production'' = Some ModeDisabled \<Longrightarrow> rx_DeploymentMode i = ModeAuto \<Longrightarrow>
     decide_mode pol i = Inr ModeAuto"
  by (simp add: decide_mode_def or_default_def validDeploymentMode_def)

text \<open>
  A stored limit of zero or an empty set of effects is read as no limit when a request is
  compared with the envelope: any effect, any concurrency and any cap passes.
\<close>

theorem widening_of_empty_limits:
  assumes "xe_PermittedEffects (ee_Execution e) = []" and "xe_MaxWaveConcurrency (ee_Execution e) = 0"
    and "xc_SessionCapUSD (ee_Cost e) = Fin 0" and "rx_Unattended i = xe_Unattended (ee_Execution e)"
    and "rx_RequireSandbox i \<noteq> Some False"
  shows "RefuseTransportWidening e i = None"
  using assms by (simp add: RefuseTransportWidening_def Let_def list_ex_iff)

text \<open>
  The load does not compare the digest of the envelope it decoded with the digest it was asked
  for. A row whose payload was replaced by another valid envelope is accepted.
\<close>

theorem LoadAndVerifyEnvelope_swapped_payload:
  assumes "Validate marshal sha other = None" and "unmarshal doc = Some other" and "digest \<noteq> []"
    and "xv_ExpiresAt (ee_Validity other) = None"
  shows "LoadAndVerifyEnvelope marshal sha (PGEnvelopeStore_LoadByDigest marshal sha unmarshal False)
    (Some [\<lparr>er_ID = k, er_Digest = digest, er_Payload = doc, er_Revoked = False, er_RevokedAt = None, er_Reason = []\<rparr>])
    digest now = Inr other"
  using assms
  by (simp add: LoadAndVerifyEnvelope_def PGEnvelopeStore_LoadByDigest_def PGEnvelopeStore_load_def VerifyUsable_def)

section \<open>A concrete delivery\<close>

definition sample_policy :: resolved where
  "sample_policy = sample_resolved\<lparr>re_Effective := (re_Effective sample_resolved)\<lparr>po_ExecutorAllowlist := [''fake''],
     po_RequireSandbox := True\<rparr>\<rparr>"

definition sample_intent :: resolve_input where
  "sample_intent = \<lparr>rx_PlanID = ''p'', rx_PlanArtifactRef = [], rx_RepositoryID = [], rx_Provider = [], rx_CanonicalURL = [],
     rx_RepositoryAlias = [], rx_PinnedBaseRevision = ''c0'', rx_TargetBranch = [], rx_MissionID = [], rx_PortfolioID = [],
     rx_ProfileID = [], rx_OrganizationID = [], rx_PrincipalID = [], rx_Unattended = True, rx_RequireSandbox = None,
     rx_MaxWaveConcurrency = 0, rx_BudgetScope = [], rx_BudgetScopeID = [], rx_BudgetEnvelopeID = [], rx_SessionCapUSD = Fin 0,
     rx_ExperimentCapUSD = Fin 0, rx_DeploymentCapUSD = Fin 0, rx_DeploymentMode = [], rx_BranchDeliveryPolicy = [],
     rx_PermittedEffects = [], rx_AuthorizationDecisionRef = [], rx_IssuedAt = Some 7, rx_ExpiresAt = None, rx_EnvelopeID = []\<rparr>"

definition sample_loader :: "string \<Rightarrow> provenance_error + approved_plan" where
  "sample_loader = Store_Load sample_crypto sample_pub (PGRawStore_Load sample_crypto) calm sample_rows"

definition sample_deps :: resolver_deps where
  "sample_deps = \<lparr>rd_Load = Some sample_loader, rd_Policy = Some sample_policy, rd_LayerDigests = [], rd_PolicyVersion = [], rd_Now = 7\<rparr>"

definition sample_envelope :: "string \<Rightarrow> execution_envelope" where
  "sample_envelope d = (build_envelope id sample_deps sample_intent sample_policy (sample_plan False ''s'') True
     (BudgetScopeWorkflow, ''p'') ModeCommand)\<lparr>ee_EnvelopeDigest := d\<rparr>"

definition sample_documents :: "(execution_envelope \<times> string) list" where
  "sample_documents = [(sample_envelope [], ''1''), (sample_envelope ''sha256:1'', ''2'')]"

definition sample_marshal :: envelope_marshal where
  "sample_marshal = map_of sample_documents"

definition sample_unmarshal :: "string \<Rightarrow> execution_envelope option" where
  "sample_unmarshal = map_of (map (\<lambda>(e, c). (c, e)) sample_documents)"

lemma sample_envelope_eq: "sample_envelope d = sample_envelope d' \<longleftrightarrow> d = d'"
  by (auto simp: sample_envelope_def dest: arg_cong [of _ _ ee_EnvelopeDigest])

lemma sample_envelope_round_trips: "json_round_trips sample_marshal Some sample_unmarshal"
  by (auto simp: json_round_trips_def sample_marshal_def sample_unmarshal_def sample_documents_def sample_envelope_eq split: if_splits)

lemma sample_envelope_canonical [simp]:
  "canonical (sample_envelope d) = sample_envelope d" "(sample_envelope d)\<lparr>ee_EnvelopeDigest := d'\<rparr> = sample_envelope d'"
  by (simp_all add: canonical_def sample_envelope_def build_envelope_def sample_policy_def sample_intent_def sample_deps_def)

lemma sample_envelope_fields:
  "ee_SchemaVersion (sample_envelope d) = ''1''" "ee_EnvelopeDigest (sample_envelope d) = d"
  "ee_EnvelopeID (sample_envelope d) \<noteq> []" "check_fields (sample_envelope d) = None"
  "xv_ExpiresAt (ee_Validity (sample_envelope d)) = None"
  by (simp_all add: sample_envelope_def build_envelope_def sample_policy_def sample_resolved_def sample_intent_def sample_deps_def
      check_fields_def or_default_def newEnvelopeID_def validProvider_def validBudgetScope_def validDeploymentMode_def
      validBranchPolicy_def sample_plan_def)

lemma sample_digest: "ComputeDigest sample_marshal id (sample_envelope d) = Inr ''sha256:1''"
  by (simp add: ComputeDigest_def CanonicalJSON_def sample_envelope_fields) (simp add: sample_marshal_def sample_documents_def)

lemma sample_valid: "Validate sample_marshal id (sample_envelope ''sha256:1'') = None"
  by (simp add: Validate_None sample_envelope_fields sample_digest)

lemma sample_resolves: "ResolveExecutionEnvelope sample_marshal id sample_deps sample_intent = Inr (sample_envelope ''sha256:1'')"
proof -
  have l: "sample_loader ''p'' = Inr (sample_plan False ''s'')"
    by (simp add: sample_loader_def Store_Load_def sample_load sample_verified checkPlanOpen_def) (simp add: sample_plan_def)
  have f: "rd_Load sample_deps = Some sample_loader" "rd_Policy sample_deps = Some sample_policy" "re_Digest sample_policy \<noteq> []"
    "po_ExecutorAllowlist (re_Effective sample_policy) \<noteq> []" "po_ValidationAllowlistRef (re_Effective sample_policy) \<noteq> []"
    "rx_PlanID sample_intent = ''p''"
    by (simp_all add: sample_deps_def sample_policy_def sample_resolved_def sample_intent_def)
  have d: "decide_sandbox sample_policy sample_intent = Inr True" "decide_scope sample_intent = Inr (BudgetScopeWorkflow, ''p'')"
    "decide_mode sample_policy sample_intent = Inr ModeCommand" "checkOwnershipConsistency sample_intent (sample_plan False ''s'') = None"
    by (simp_all add: decide_sandbox_def decide_scope_def decide_mode_def sample_policy_def sample_resolved_def sample_intent_def
        profileRequiresSandbox_def RequireSandbox_def or_default_def validBudgetScope_def validDeploymentMode_def Let_def
        checkOwnershipConsistency_def)
  have i: "ap_planDigest (sample_plan False ''s'') = ''d''" "rx_PinnedBaseRevision sample_intent = ''c0''" "rx_Provider sample_intent = []"
    "rx_OrganizationID sample_intent = []" "rx_BranchDeliveryPolicy sample_intent = []" "rx_MaxWaveConcurrency sample_intent = 0"
    by (simp_all add: sample_plan_def sample_intent_def)
  have b: "build_envelope id sample_deps sample_intent sample_policy (sample_plan False ''s'') True (BudgetScopeWorkflow, ''p'') ModeCommand
      = sample_envelope []"
    by (simp add: sample_envelope_def build_envelope_def Let_def)
  show ?thesis
    by (simp add: ResolveExecutionEnvelope_def f l resolve_approved_def d i b Let_def or_default_def validProvider_def validBranchPolicy_def
        sample_digest sample_valid)
qed

theorem ResolveExecutionEnvelope_bounded_witness:
  "ResolveExecutionEnvelope sample_marshal id sample_deps sample_intent = Inr (sample_envelope ''sha256:1'')
    \<and> xe_RequireSandbox (ee_Execution (sample_envelope ''sha256:1''))
    \<and> mset (xe_ExecutorAllowlist (ee_Execution (sample_envelope ''sha256:1''))) = mset [''fake'']"
  using ResolveExecutionEnvelope_bounded [OF sample_resolves] sample_resolves
  by (auto simp: sample_deps_def sample_policy_def sample_intent_def)

lemma sample_inserted:
  "PGEnvelopeStore_Insert sample_marshal id Some False [] (sample_envelope ''sha256:1'') =
     (None, [\<lparr>er_ID = ee_EnvelopeID (sample_envelope []), er_Digest = ''sha256:1'', er_Payload = ''2'', er_Revoked = False,
        er_RevokedAt = None, er_Reason = []\<rparr>])"
  by (simp add: PGEnvelopeStore_Insert_def sample_valid CanonicalJSON_def sample_envelope_fields)
    (simp add: sample_marshal_def sample_documents_def sample_envelope_eq, simp add: sample_envelope_def build_envelope_def sample_deps_def Let_def)

theorem LoadAndVerifyEnvelope_sound_witness:
  "LoadAndVerifyEnvelope sample_marshal id (PGEnvelopeStore_LoadByDigest sample_marshal id sample_unmarshal False)
     (Some (pg_envelope_history sample_marshal id Some [EnvInsert False (sample_envelope ''sha256:1'')] [])) ''sha256:1'' 9
       = Inr (sample_envelope ''sha256:1'')
   \<and> pg_row sample_unmarshal (pg_envelope_history sample_marshal id Some [EnvInsert False (sample_envelope ''sha256:1'')] [])
       ''sha256:1'' = Some (sample_envelope ''sha256:1'', False)"
proof -
  have l: "LoadAndVerifyEnvelope sample_marshal id (PGEnvelopeStore_LoadByDigest sample_marshal id sample_unmarshal False)
     (Some (pg_envelope_history sample_marshal id Some [EnvInsert False (sample_envelope ''sha256:1'')] [])) ''sha256:1'' 9
       = Inr (sample_envelope ''sha256:1'')"
    by (simp add: sample_inserted LoadAndVerifyEnvelope_def PGEnvelopeStore_LoadByDigest_def PGEnvelopeStore_load_def)
      (simp add: sample_unmarshal_def sample_documents_def sample_valid VerifyUsable_def sample_envelope_fields)
  from LoadAndVerifyEnvelope_sound [OF sample_envelope_round_trips refl l] l show ?thesis by simp
qed

theorem envelope_revocation_permanent_witness:
  "LoadAndVerifyEnvelope sample_marshal id (PGEnvelopeStore_LoadByDigest sample_marshal id sample_unmarshal False)
     (Some (pg_envelope_history sample_marshal id Some [EnvInsert False (sample_envelope ''sha256:1'')]
       (snd (PGEnvelopeStore_Revoke False (pg_envelope_history sample_marshal id Some [EnvInsert False (sample_envelope ''sha256:1'')] [])
         (ee_EnvelopeID (sample_envelope ''sha256:1'')) ''leak'' 8)))) ''sha256:1'' 9 \<noteq> Inr (sample_envelope ''sha256:1'')"
proof -
  let ?s = "pg_envelope_history sample_marshal id Some [EnvInsert False (sample_envelope ''sha256:1'')] []"
  have i: "ee_EnvelopeID (sample_envelope d) = ee_EnvelopeID (sample_envelope [])" for d by (simp add: sample_envelope_def)
  have r: "pg_row sample_unmarshal ?s ''sha256:1'' = Some (sample_envelope ''sha256:1'', False)"
    by (simp add: sample_inserted pg_row_def) (simp add: sample_unmarshal_def sample_documents_def)
  have v: "PGEnvelopeStore_Revoke False ?s (ee_EnvelopeID (sample_envelope ''sha256:1'')) ''leak'' 8 =
      (None, snd (PGEnvelopeStore_Revoke False ?s (ee_EnvelopeID (sample_envelope ''sha256:1'')) ''leak'' 8))"
    using i [of "''sha256:1''"] by (simp add: sample_inserted PGEnvelopeStore_Revoke_def)
  show ?thesis by (rule envelope_revocation_permanent [OF sample_envelope_round_trips refl r v])
qed

end
