(* ===== verification/Start_Delivery.thy ===== *)
theory Start_Delivery
  imports Envelope Deliver_Plan
begin

text \<open>
  The edge from an approved plan to a running delivery (\<open>internal/kernel/start.go\<close>), with the
  queue lanes it chooses from (\<open>internal/observe/queues.go\<close>, \<open>internal/kernel/lane.go\<close>) and the
  resolution of an owned repository (\<open>internal/repository/resolver.go\<close>). The workflow service is
  an argument: \<open>execute\<close> starts an execution under an id and a queue, or reports that the id is
  taken. The lemmas show with which authority a delivery is started, and what two starts of the
  same plan do.
\<close>

abbreviation PhaseIntake :: phase where "PhaseIntake \<equiv> ''intake''"

section \<open>Lanes\<close>

record lane_config =
  lc_Name :: string
  lc_TaskQueue :: string
  lc_Priority :: int
  lc_WorkerSlots :: int
  lc_Sheddable :: bool

definition laneOrder :: "string list" where
  "laneOrder = [''recovery'', ''delivery'', ''notification'', ''learning'']"

abbreviation defaultLane :: string where "defaultLane \<equiv> ''delivery''"

fun check_lanes :: "nat \<Rightarrow> string list \<Rightarrow> lane_config list \<Rightarrow> string option" where
  "check_lanes i (want # wants) (got # gots) =
     (if lc_Name got \<noteq> want then Some (''lane '' @ show_nat i @ '': expected name '' @ quote want)
      else if lc_Priority got \<noteq> int i then Some (''lane '' @ quote (lc_Name got) @ '': expected priority '' @ show_nat i)
      else if lc_TaskQueue got = [] then Some (''lane '' @ quote (lc_Name got) @ '': task_queue must not be empty'')
      else if lc_WorkerSlots got \<le> 0 then Some (''lane '' @ quote (lc_Name got) @ '': worker_slots must be positive'')
      else check_lanes (Suc i) wants gots)"
| "check_lanes i _ _ = None"

definition QueueConfig_validate :: "lane_config list \<Rightarrow> string option" where
  "QueueConfig_validate lanes =
     (if length lanes \<noteq> length laneOrder then Some (''expected exactly '' @ show_nat (length laneOrder) @ '' lanes, got '' @ show_nat (length lanes))
      else check_lanes 0 laneOrder lanes)"

definition QueueConfig_Lane :: "lane_config list \<Rightarrow> string \<Rightarrow> lane_config option" where
  "QueueConfig_Lane lanes name = find (\<lambda>l. lc_Name l = name) lanes"

definition LaneSelector_Select :: "string \<Rightarrow> lane_config list \<Rightarrow> string + string" where
  "LaneSelector_Select explicitLane cfg =
     (let lane = (if explicitLane = [] then defaultLane else explicitLane) in
      case QueueConfig_Lane cfg lane of
        None \<Rightarrow> Inl (''kernel: lane '' @ quote explicitLane @ '' is not a configured queue-priority lane'')
      | Some l \<Rightarrow> Inr (lc_TaskQueue l))"

section \<open>Repositories\<close>

record repo_record =
  rp_ID :: string
  rp_Provider :: string
  rp_CanonicalURL :: string
  rp_Alias :: string
  rp_ProfileID :: string
  rp_OrganizationID :: string
  rp_PinnedBaseRevision :: string
  rp_DefaultTargetBranch :: string

datatype repo_error =
    RepoNotFound | RepoInvalid string | RepoWrongOwner string | RepoPathRefused string | RepoStaleRevision string | RepoDB string

definition refuseUnsafeLocalPath :: "string \<Rightarrow> string list \<Rightarrow> repo_error option" where
  "refuseUnsafeLocalPath url roots =
     (let path = trim_prefix url ''file://'' in
      if path = [] then Some (RepoPathRefused ''empty local path'')
      else if contains path ''..'' then Some (RepoPathRefused ''path traversal'')
      else if roots = [] then
        (if contains path ''/.git'' \<or> has_suffix path ''.git'' then Some (RepoPathRefused ''canonical clone target'') else None)
      else if list_ex (\<lambda>root. case filepath_Rel root path of None \<Rightarrow> False | Some es \<Rightarrow> es = [] \<or> hd es \<noteq> ''..'') roots then None
      else Some (RepoPathRefused ''outside allowed roots''))"

record repo_query =
  rq_RepositoryID :: string
  rq_ProfileID :: string
  rq_OrganizationID :: string
  rq_AllowedLocalRoots :: "string list"
  rq_RequirePinned :: bool

definition Resolver_Resolve :: "(string \<Rightarrow> repo_error + repo_record) \<Rightarrow> repo_query \<Rightarrow> repo_error + repo_record" where
  "Resolver_Resolve get q =
     (if rq_RepositoryID q = [] then Inl (RepoInvalid ''missing repository id'')
      else case get (rq_RepositoryID q) of
        Inl e \<Rightarrow> Inl e
      | Inr rec \<Rightarrow>
          if rq_ProfileID q \<noteq> [] \<and> rp_ProfileID rec \<noteq> [] \<and> rq_ProfileID q \<noteq> rp_ProfileID rec then
            Inl (RepoWrongOwner (''profile '' @ quote (rq_ProfileID q) @ '' cannot use repo owned by '' @ quote (rp_ProfileID rec)))
          else if rq_OrganizationID q \<noteq> [] \<and> rp_OrganizationID rec \<noteq> [] \<and> rq_OrganizationID q \<noteq> rp_OrganizationID rec then
            Inl (RepoWrongOwner ''organization mismatch'')
          else if rq_RequirePinned q \<and> rp_PinnedBaseRevision rec = [] then Inl (RepoStaleRevision (rp_ID rec))
          else if rp_Provider rec = ProviderLocal then
            (case refuseUnsafeLocalPath (rp_CanonicalURL rec) (rq_AllowedLocalRoots q) of Some e \<Rightarrow> Inl e | None \<Rightarrow> Inr rec)
          else Inr rec)"

section \<open>Starting a delivery\<close>

record start_input =
  si_PlanID :: string
  si_PlanFilePath :: string
  si_RepoPath :: string
  si_Lane :: string
  si_Attempt :: int
  si_MissionID :: string
  si_PortfolioID :: string
  si_ProfileID :: string
  si_OrganizationID :: string
  si_PrincipalID :: string
  si_Unattended :: bool
  si_RepositoryID :: string
  si_Provider :: string
  si_CanonicalURL :: string
  si_RepositoryAlias :: string
  si_PinnedBaseRevision :: string
  si_TargetBranch :: string
  si_PlanArtifactRef :: string
  si_BudgetEnvelopeID :: string
  si_SessionCapUSD :: f64
  si_ExperimentCapUSD :: f64
  si_DeploymentCapUSD :: f64
  si_MaxWaveConcurrency :: int
  si_BranchDeliveryPolicy :: string
  si_PermittedEffects :: "string list"
  si_AuthorizationDecisionRef :: string

record start_output =
  so_WorkflowID :: string
  so_RunID :: string
  so_TaskQueue :: string
  so_Lane :: string
  so_EnvelopeID :: string
  so_EnvelopeDigest :: string

text \<open>\<open>sd_Load\<close> is the verifying provenance store, read twice; its first argument counts the reads.\<close>

record start_deps =
  sd_Load :: "(nat \<Rightarrow> string \<Rightarrow> provenance_error + approved_plan) option"
  sd_Queues :: "lane_config list"
  sd_ExecutorAllowlist :: "string list"
  sd_HasEnvelopeStore :: bool
  sd_Policy :: "resolved option"
  sd_LayerDigests :: "string list"
  sd_PolicyVersion :: string
  sd_Now :: int
  sd_Repositories :: "(string \<Rightarrow> repo_error + repo_record) option"
  sd_AllowedLocalRoots :: "string list"
  sd_HasTransitions :: bool

datatype start_error =
    StartRefused string | PlanNotOpen provenance_error | StartLoadFailed provenance_error | StartMissing string
  | StartRepository repo_error | StartEnvelope envelope_error | PersistEnvelope envelope_error
  | ErrStartDuplicate string | StartFailed string

datatype execute_error = AlreadyStarted | ExecuteFailed string

definition DeliveryWorkflowID :: "(string \<Rightarrow> string) \<Rightarrow> string \<Rightarrow> int \<Rightarrow> string \<Rightarrow> string" where
  "DeliveryWorkflowID sha planDigest attempt envelopeDigest =
     (let payload = planDigest @ ''|'' @ show_int attempt;
          payload' = (if envelopeDigest \<noteq> [] then payload @ ''|'' @ envelopeDigest else payload) in
      ''deliver-'' @ take 32 (sha payload'))"

text \<open>The repository step: a named repository replaces what the transport said about it.\<close>

definition with_repository :: "start_deps \<Rightarrow> start_input \<Rightarrow> start_error + start_input" where
  "with_repository deps i =
     (case (if si_RepositoryID i \<noteq> [] then sd_Repositories deps else None) of
        None \<Rightarrow> Inr i
      | Some get \<Rightarrow>
          (case Resolver_Resolve get \<lparr>rq_RepositoryID = si_RepositoryID i, rq_ProfileID = si_ProfileID i,
               rq_OrganizationID = si_OrganizationID i, rq_AllowedLocalRoots = sd_AllowedLocalRoots deps,
               rq_RequirePinned = si_Unattended i\<rparr> of
             Inl e \<Rightarrow> Inl (StartRepository e)
           | Inr rec \<Rightarrow>
               Inr (i\<lparr>si_Provider := rp_Provider rec, si_CanonicalURL := rp_CanonicalURL rec, si_RepositoryAlias := rp_Alias rec,
                 si_PinnedBaseRevision := or_default (si_PinnedBaseRevision i) (rp_PinnedBaseRevision rec),
                 si_TargetBranch := or_default (si_TargetBranch i) (rp_DefaultTargetBranch rec)\<rparr>)))"

definition intent_of :: "start_deps \<Rightarrow> start_input \<Rightarrow> resolve_input" where
  "intent_of deps i =
     \<lparr>rx_PlanID = si_PlanID i, rx_PlanArtifactRef = si_PlanArtifactRef i, rx_RepositoryID = si_RepositoryID i,
      rx_Provider = si_Provider i, rx_CanonicalURL = si_CanonicalURL i, rx_RepositoryAlias = si_RepositoryAlias i,
      rx_PinnedBaseRevision = si_PinnedBaseRevision i, rx_TargetBranch = si_TargetBranch i, rx_MissionID = si_MissionID i,
      rx_PortfolioID = si_PortfolioID i, rx_ProfileID = si_ProfileID i, rx_OrganizationID = si_OrganizationID i,
      rx_PrincipalID = si_PrincipalID i, rx_Unattended = si_Unattended i, rx_RequireSandbox = None,
      rx_MaxWaveConcurrency = si_MaxWaveConcurrency i, rx_BudgetScope = [], rx_BudgetScopeID = [],
      rx_BudgetEnvelopeID = si_BudgetEnvelopeID i, rx_SessionCapUSD = si_SessionCapUSD i,
      rx_ExperimentCapUSD = si_ExperimentCapUSD i, rx_DeploymentCapUSD = si_DeploymentCapUSD i, rx_DeploymentMode = [],
      rx_BranchDeliveryPolicy = si_BranchDeliveryPolicy i, rx_PermittedEffects = si_PermittedEffects i,
      rx_AuthorizationDecisionRef = si_AuthorizationDecisionRef i, rx_IssuedAt = Some (sd_Now deps), rx_ExpiresAt = None,
      rx_EnvelopeID = []\<rparr>"

text \<open>
  The envelope step: when the policy and the store are there the envelope is resolved and
  inserted, otherwise an attended delivery goes on without one.
\<close>

definition with_envelope ::
    "envelope_marshal \<Rightarrow> (string \<Rightarrow> string) \<Rightarrow> ('s \<Rightarrow> execution_envelope \<Rightarrow> envelope_error option \<times> 's) \<Rightarrow> start_deps \<Rightarrow> start_input \<Rightarrow>
     's \<Rightarrow> (start_error + execution_envelope option) \<times> 's" where
  "with_envelope marshal sha insert_env deps i s =
     (if sd_Policy deps \<noteq> None \<and> sd_HasEnvelopeStore deps then
        (case ResolveExecutionEnvelope marshal sha
            \<lparr>rd_Load = map_option (\<lambda>load. load 1) (sd_Load deps), rd_Policy = sd_Policy deps, rd_LayerDigests = sd_LayerDigests deps,
             rd_PolicyVersion = sd_PolicyVersion deps, rd_Now = sd_Now deps\<rparr> (intent_of deps i) of
           Inl e \<Rightarrow> (Inl (StartEnvelope e), s)
         | Inr env \<Rightarrow>
             (case insert_env s env of
                (Some e, s') \<Rightarrow> (Inl (PersistEnvelope e), s')
              | (None, s') \<Rightarrow> (Inr (Some env), s')))
      else (Inr None, s))"

definition deliver_request ::
    "(string \<Rightarrow> string) \<Rightarrow> start_deps \<Rightarrow> start_input \<Rightarrow> approved_plan \<Rightarrow> execution_envelope option \<Rightarrow> start_error + string \<times> deliver_input" where
  "deliver_request sha deps i approved env =
     (let allowlist = (case env of None \<Rightarrow> sd_ExecutorAllowlist deps | Some e \<Rightarrow> xe_ExecutorAllowlist (ee_Execution e));
          digest = (case env of None \<Rightarrow> [] | Some e \<Rightarrow> ee_EnvelopeDigest e) in
      if allowlist = [] then Inl (StartRefused ''empty executor allowlist'')
      else Inr (DeliveryWorkflowID sha (ap_planDigest approved) (si_Attempt i) digest,
        \<lparr>di_PlanID = si_PlanID i, di_PlanFilePath = si_PlanFilePath i, di_RepoPath = si_RepoPath i, di_ExecutorName = [],
         di_ExecutorAllowlist = allowlist,
         di_MaxWaveConcurrency = (case env of None \<Rightarrow> si_MaxWaveConcurrency i | Some e \<Rightarrow> xe_MaxWaveConcurrency (ee_Execution e)),
         di_EnvelopeID = (case env of None \<Rightarrow> [] | Some e \<Rightarrow> ee_EnvelopeID e), di_EnvelopeDigest = digest,
         di_MissionID = (case env of None \<Rightarrow> si_MissionID i | Some e \<Rightarrow> xo_MissionID (ee_Ownership e)),
         di_Unattended = (case env of None \<Rightarrow> si_Unattended i | Some e \<Rightarrow> xe_Unattended (ee_Execution e)),
         di_RequireSandbox = (case env of None \<Rightarrow> False | Some e \<Rightarrow> xe_RequireSandbox (ee_Execution e)),
         di_BudgetScope = (case env of None \<Rightarrow> [] | Some e \<Rightarrow> xc_BudgetScope (ee_Cost e)),
         di_BudgetScopeID = (case env of None \<Rightarrow> [] | Some e \<Rightarrow> xc_BudgetScopeID (ee_Cost e))\<rparr>))"

definition start_transition :: "string \<Rightarrow> int \<Rightarrow> string \<Rightarrow> transition" where
  "start_transition workflowID now digest =
     \<lparr>tr_WorkflowID = workflowID, tr_Status = StatusRunning, tr_PhaseFrom = PhaseIntake, tr_PhaseTo = PhaseIntake, tr_Reason = [],
      tr_ResultCode = [], tr_Actor = [], tr_Profile = [], tr_Evidence = [], tr_CheckpointID = [], tr_Attempt = 0, tr_NextAction = [],
      tr_WakeAt = None, tr_OccurredAt = now, tr_EnvelopeDigest = digest\<rparr>"

text \<open>
  What a start changes: the envelope table, the workflow service and the transition stream. The
  result of the append to the stream is ignored.
\<close>

record ('s, 'w, 't) start_world =
  sw_Envelopes :: 's
  sw_Workflows :: 'w
  sw_Transitions :: 't

definition StartDelivery ::
    "envelope_marshal \<Rightarrow> (string \<Rightarrow> string) \<Rightarrow> ('s \<Rightarrow> execution_envelope \<Rightarrow> envelope_error option \<times> 's) \<Rightarrow>
     ('w \<Rightarrow> string \<Rightarrow> string \<Rightarrow> deliver_input \<Rightarrow> (execute_error + string) \<times> 'w) \<Rightarrow> ('t \<Rightarrow> string \<Rightarrow> transition \<Rightarrow> 't) \<Rightarrow>
     start_deps \<Rightarrow> start_input \<Rightarrow> ('s, 'w, 't) start_world \<Rightarrow> (start_error + start_output) \<times> ('s, 'w, 't) start_world" where
  "StartDelivery marshal sha insert_env execute put_tr deps i0 w =
     (case sd_Load deps of None \<Rightarrow> (Inl (StartMissing ''provenance store''), w) | Some load \<Rightarrow>
      if si_PlanID i0 = [] then (Inl (StartMissing ''plan id''), w)
      else case load 0 (si_PlanID i0) of
        Inl err \<Rightarrow>
          (case err of
             ErrPlanRevoked _ \<Rightarrow> (Inl (PlanNotOpen err), w) | ErrPlanExpired _ \<Rightarrow> (Inl (PlanNotOpen err), w)
           | _ \<Rightarrow> (Inl (StartLoadFailed err), w))
      | Inr approved \<Rightarrow>
      (case LaneSelector_Select (si_Lane i0) (sd_Queues deps) of Inl m \<Rightarrow> (Inl (StartRefused m), w) | Inr queue \<Rightarrow>
      if si_Unattended i0 \<and> (\<not> sd_HasEnvelopeStore deps \<or> sd_Policy deps = None) then
        (Inl (StartRefused ''unattended execution without an envelope''), w)
      else case with_repository deps i0 of Inl e \<Rightarrow> (Inl e, w) | Inr i \<Rightarrow>
      (case with_envelope marshal sha insert_env deps i (sw_Envelopes w) of
         (Inl e, s') \<Rightarrow> (Inl e, w\<lparr>sw_Envelopes := s'\<rparr>)
       | (Inr env, s') \<Rightarrow>
      (let w1 = w\<lparr>sw_Envelopes := s'\<rparr> in
       case deliver_request sha deps i approved env of Inl e \<Rightarrow> (Inl e, w1) | Inr (workflowID, request) \<Rightarrow>
      (case execute (sw_Workflows w1) workflowID queue request of
         (Inl AlreadyStarted, ws) \<Rightarrow> (Inl (ErrStartDuplicate workflowID), w1\<lparr>sw_Workflows := ws\<rparr>)
       | (Inl (ExecuteFailed m), ws) \<Rightarrow> (Inl (StartFailed m), w1\<lparr>sw_Workflows := ws\<rparr>)
       | (Inr runID, ws) \<Rightarrow>
           (Inr \<lparr>so_WorkflowID = workflowID, so_RunID = runID, so_TaskQueue = queue,
              so_Lane = (if si_Lane i = [] then defaultLane else si_Lane i),
              so_EnvelopeID = di_EnvelopeID request, so_EnvelopeDigest = di_EnvelopeDigest request\<rparr>,
            w1\<lparr>sw_Workflows := ws, sw_Transitions :=
                 (if sd_HasTransitions deps
                  then put_tr (sw_Transitions w1) workflowID (start_transition workflowID (sd_Now deps) (di_EnvelopeDigest request))
                  else sw_Transitions w1)\<rparr>))))))"

definition TenXWorkflowID :: "(string \<Rightarrow> string) \<Rightarrow> string \<Rightarrow> string" where
  "TenXWorkflowID sha idempotencyKey = ''tenx-'' @ take 32 (sha (''tenx|'' @ idempotencyKey))"

definition StartTenXDelivery ::
    "(string \<Rightarrow> string) \<Rightarrow> ('w \<Rightarrow> string \<Rightarrow> string \<Rightarrow> 'i \<Rightarrow> (execute_error + string) \<times> 'w) \<Rightarrow> lane_config list \<Rightarrow>
     string \<Rightarrow> string \<Rightarrow> 'i \<Rightarrow> 'w \<Rightarrow> (start_error + start_output) \<times> 'w" where
  "StartTenXDelivery sha execute queues idempotencyKey lane inp w =
     (case LaneSelector_Select lane queues of Inl m \<Rightarrow> (Inl (StartRefused m), w) | Inr queue \<Rightarrow>
      (let workflowID = TenXWorkflowID sha idempotencyKey in
       case execute w workflowID queue inp of
         (Inl AlreadyStarted, w') \<Rightarrow> (Inl (ErrStartDuplicate workflowID), w')
       | (Inl (ExecuteFailed m), w') \<Rightarrow> (Inl (StartFailed m), w')
       | (Inr runID, w') \<Rightarrow>
           (Inr \<lparr>so_WorkflowID = workflowID, so_RunID = runID, so_TaskQueue = queue,
              so_Lane = (if lane = [] then defaultLane else lane), so_EnvelopeID = [], so_EnvelopeDigest = []\<rparr>, w')))"

section \<open>The authority of a start\<close>

lemma LaneSelector_Select_Inr:
  "LaneSelector_Select lane cfg = Inr q \<Longrightarrow> \<exists>l \<in> set cfg. lc_TaskQueue l = q \<and> lc_Name l = (if lane = [] then defaultLane else lane)"
  by (auto simp: LaneSelector_Select_def QueueConfig_Lane_def Let_def split: option.splits dest!: find_SomeD)

lemma with_repository_keeps:
  "with_repository deps i = Inr i' \<Longrightarrow> si_PlanID i' = si_PlanID i \<and> si_Unattended i' = si_Unattended i \<and> si_Lane i' = si_Lane i
     \<and> si_ProfileID i' = si_ProfileID i \<and> si_Attempt i' = si_Attempt i"
  by (auto simp: with_repository_def split: option.splits sum.splits if_splits)

lemma with_envelope_Inr:
  assumes "with_envelope marshal sha insert_env deps i s = (Inr env, s')"
  shows "if sd_Policy deps \<noteq> None \<and> sd_HasEnvelopeStore deps
    then \<exists>e d. env = Some e \<and> insert_env s e = (None, s') \<and> rd_Policy d = sd_Policy deps
      \<and> ResolveExecutionEnvelope marshal sha d (intent_of deps i) = Inr e
    else env = None \<and> s' = s"
  using assms unfolding with_envelope_def
  by (auto split: sum.splits prod.splits option.splits if_splits) (rule exI, rule conjI [rotated], assumption, simp)

lemma StartDelivery_stages:
  assumes "StartDelivery marshal sha insert_env execute put_tr deps i0 w = (Inr out, w')"
  obtains load approved i env request where "sd_Load deps = Some load" "load 0 (si_PlanID i0) = Inr approved"
    "LaneSelector_Select (si_Lane i0) (sd_Queues deps) = Inr (so_TaskQueue out)"
    "si_Unattended i0 \<Longrightarrow> sd_HasEnvelopeStore deps \<and> sd_Policy deps \<noteq> None"
    "with_repository deps i0 = Inr i"
    "with_envelope marshal sha insert_env deps i (sw_Envelopes w) = (Inr env, sw_Envelopes w')"
    "deliver_request sha deps i approved env = Inr (so_WorkflowID out, request)"
    "execute (sw_Workflows w) (so_WorkflowID out) (so_TaskQueue out) request = (Inr (so_RunID out), sw_Workflows w')"
    "so_Lane out = (if si_Lane i = [] then defaultLane else si_Lane i)" "so_EnvelopeDigest out = di_EnvelopeDigest request"
  using assms unfolding StartDelivery_def Let_def
  by (auto split: option.splits sum.splits if_splits prod.splits provenance_error.splits execute_error.splits)

lemma deliver_request_Inr:
  "deliver_request sha deps i approved env = Inr (workflowID, request) \<Longrightarrow>
     di_ExecutorAllowlist request \<noteq> [] \<and> di_PlanID request = si_PlanID i
     \<and> workflowID = DeliveryWorkflowID sha (ap_planDigest approved) (si_Attempt i) (di_EnvelopeDigest request)
     \<and> (case env of None \<Rightarrow> di_ExecutorAllowlist request = sd_ExecutorAllowlist deps \<and> di_EnvelopeDigest request = []
        | Some e \<Rightarrow> di_ExecutorAllowlist request = xe_ExecutorAllowlist (ee_Execution e) \<and> di_EnvelopeDigest request = ee_EnvelopeDigest e
            \<and> di_RequireSandbox request = xe_RequireSandbox (ee_Execution e) \<and> di_Unattended request = xe_Unattended (ee_Execution e))"
  by (auto simp: deliver_request_def Let_def split: option.splits if_splits)

text \<open>The unattended flag of an envelope is that of the request for it.\<close>

lemma resolved_unattended:
  "ResolveExecutionEnvelope marshal sha d i = Inr env \<Longrightarrow> xe_Unattended (ee_Execution env) = rx_Unattended i"
  by (elim ResolveExecutionEnvelope_Inr resolve_approved_Inr) (simp add: build_envelope_def Let_def)

text \<open>What holds of the request of a start that used an envelope.\<close>

definition granted :: "start_deps \<Rightarrow> resolved \<Rightarrow> start_input \<Rightarrow> deliver_input \<Rightarrow> bool" where
  "granted deps pol i request =
     (mset (di_ExecutorAllowlist request) = mset (po_ExecutorAllowlist (re_Effective pol))
      \<and> (di_RequireSandbox request \<longleftrightarrow> profileRequiresSandbox (si_ProfileID i) (Some pol) \<or> si_Unattended i)
      \<and> di_Unattended request = si_Unattended i \<and> di_EnvelopeDigest request \<noteq> [])"

lemma StartDelivery_grants:
  assumes "StartDelivery marshal sha insert_env execute put_tr deps i w = (Inr out, w')"
  shows "\<exists>load approved request. sd_Load deps = Some load \<and> load 0 (si_PlanID i) = Inr approved
    \<and> execute (sw_Workflows w) (so_WorkflowID out) (so_TaskQueue out) request = (Inr (so_RunID out), sw_Workflows w')
    \<and> so_WorkflowID out = DeliveryWorkflowID sha (ap_planDigest approved) (si_Attempt i) (di_EnvelopeDigest request)
    \<and> (\<exists>l \<in> set (sd_Queues deps). lc_TaskQueue l = so_TaskQueue out \<and> lc_Name l = so_Lane out)
    \<and> di_PlanID request = si_PlanID i \<and> di_ExecutorAllowlist request \<noteq> []
    \<and> (if sd_HasEnvelopeStore deps \<and> sd_Policy deps \<noteq> None
       then granted deps (the (sd_Policy deps)) i request
         \<and> (\<exists>env. insert_env (sw_Envelopes w) env = (None, sw_Envelopes w') \<and> Validate marshal sha env = None
              \<and> ee_EnvelopeDigest env = di_EnvelopeDigest request)
       else \<not> si_Unattended i \<and> sw_Envelopes w' = sw_Envelopes w)"
proof -
  obtain load approved i' env request where l: "sd_Load deps = Some load" "load 0 (si_PlanID i) = Inr approved"
    and q: "LaneSelector_Select (si_Lane i) (sd_Queues deps) = Inr (so_TaskQueue out)"
    and u: "si_Unattended i \<Longrightarrow> sd_HasEnvelopeStore deps \<and> sd_Policy deps \<noteq> None"
    and r: "with_repository deps i = Inr i'"
    and e: "with_envelope marshal sha insert_env deps i' (sw_Envelopes w) = (Inr env, sw_Envelopes w')"
    and d: "deliver_request sha deps i' approved env = Inr (so_WorkflowID out, request)"
    and x: "execute (sw_Workflows w) (so_WorkflowID out) (so_TaskQueue out) request = (Inr (so_RunID out), sw_Workflows w')"
    and n: "so_Lane out = (if si_Lane i' = [] then defaultLane else si_Lane i')"
    using StartDelivery_stages [OF assms] by metis
  note k = with_repository_keeps [OF r]
  have "if sd_HasEnvelopeStore deps \<and> sd_Policy deps \<noteq> None
       then granted deps (the (sd_Policy deps)) i request
         \<and> (\<exists>env. insert_env (sw_Envelopes w) env = (None, sw_Envelopes w') \<and> Validate marshal sha env = None
              \<and> ee_EnvelopeDigest env = di_EnvelopeDigest request)
       else \<not> si_Unattended i \<and> sw_Envelopes w' = sw_Envelopes w"
  proof (cases "sd_Policy deps \<noteq> None \<and> sd_HasEnvelopeStore deps")
    case True
    then obtain ev dp where ev: "env = Some ev" "insert_env (sw_Envelopes w) ev = (None, sw_Envelopes w')" "rd_Policy dp = sd_Policy deps"
      and re: "ResolveExecutionEnvelope marshal sha dp (intent_of deps i') = Inr ev"
      using with_envelope_Inr [OF e] by auto
    show ?thesis
      using True ev deliver_request_Inr [OF d] resolved_envelope [OF re] resolved_unattended [OF re] k
      by (auto simp: granted_def intent_of_def Validate_None)
  next
    case False
    then show ?thesis using u with_envelope_Inr [OF e] by (auto split: if_splits)
  qed
  then show ?thesis
    using l x n k deliver_request_Inr [OF d] LaneSelector_Select_Inr [OF q] by (intro exI [of _ load] exI [of _ approved] exI [of _ request]) auto
qed


section \<open>Starting the same plan again\<close>

text \<open>
  The workflow service with the reuse policy \<open>REJECT_DUPLICATE\<close>, as its documentation has it: an
  id that was started once is refused.
\<close>

definition rejects_duplicates :: "('w \<Rightarrow> string \<Rightarrow> string \<Rightarrow> 'i \<Rightarrow> (execute_error + string) \<times> 'w) \<Rightarrow> bool" where
  "rejects_duplicates execute =
     (\<forall>ws k q inp run ws'. execute ws k q inp = (Inr run, ws') \<longrightarrow>
        (\<forall>q' inp'. \<exists>ws''. execute ws' k q' inp' = (Inl AlreadyStarted, ws'')))"

definition service_list ::
    "(string \<times> string \<times> 'i) list \<Rightarrow> string \<Rightarrow> string \<Rightarrow> 'i \<Rightarrow> (execute_error + string) \<times> (string \<times> string \<times> 'i) list" where
  "service_list ws k q inp =
     (if list_ex (\<lambda>(k', _). k' = k) ws then (Inl AlreadyStarted, ws) else (Inr (''run-'' @ k), ws @ [(k, q, inp)]))"

lemma service_list_rejects: "rejects_duplicates service_list"
  by (auto simp: rejects_duplicates_def service_list_def split: if_splits)

text \<open>
  Without an envelope a second start of the same plan and attempt collapses to the first: it is
  refused as a duplicate, whatever else the second request says.
\<close>

theorem StartDelivery_collapses_without_envelope:
  assumes "rejects_duplicates execute" and "\<not> sd_HasEnvelopeStore deps"
    and "StartDelivery marshal sha insert_env execute put_tr deps i w = (Inr out, w')"
    and "sd_Load deps' = sd_Load deps" and "sd_Queues deps' = sd_Queues deps" and "\<not> sd_HasEnvelopeStore deps'"
    and "sd_ExecutorAllowlist deps' \<noteq> []" and "sd_Repositories deps' = None"
    and "si_PlanID i' = si_PlanID i" and "si_Attempt i' = si_Attempt i" and "si_Lane i' = si_Lane i" and "\<not> si_Unattended i'"
  shows "fst (StartDelivery marshal sha insert_env execute put_tr deps' i' w') = Inl (ErrStartDuplicate (so_WorkflowID out))"
proof -
  obtain load approved j env request where l: "sd_Load deps = Some load" "load 0 (si_PlanID i) = Inr approved"
    and q: "LaneSelector_Select (si_Lane i) (sd_Queues deps) = Inr (so_TaskQueue out)"
    and r: "with_repository deps i = Inr j"
    and e: "with_envelope marshal sha insert_env deps j (sw_Envelopes w) = (Inr env, sw_Envelopes w')"
    and d: "deliver_request sha deps j approved env = Inr (so_WorkflowID out, request)"
    and x: "execute (sw_Workflows w) (so_WorkflowID out) (so_TaskQueue out) request = (Inr (so_RunID out), sw_Workflows w')"
    using StartDelivery_stages [OF assms(3)] by metis
  have "env = None" using with_envelope_Inr [OF e] assms(2) by simp
  then have id1: "so_WorkflowID out = DeliveryWorkflowID sha (ap_planDigest approved) (si_Attempt i) []"
    using deliver_request_Inr [OF d] with_repository_keeps [OF r] by simp
  have p: "si_PlanID i \<noteq> []" using assms(3) by (auto simp: StartDelivery_def split: option.splits if_splits)
  obtain req' where req': "deliver_request sha deps' i' approved None = Inr (so_WorkflowID out, req')"
    using assms(7,10) id1 by (simp add: deliver_request_def Let_def)
  obtain ws'' where "execute (sw_Workflows w') (so_WorkflowID out) (so_TaskQueue out) req' = (Inl AlreadyStarted, ws'')"
    using assms(1) x unfolding rejects_duplicates_def by blast
  then show ?thesis
    using l q assms(4-12) p req' by (simp add: StartDelivery_def with_repository_def with_envelope_def Let_def)
qed

definition sample_lanes :: "lane_config list" where
  "sample_lanes = [\<lparr>lc_Name = ''delivery'', lc_TaskQueue = ''q'', lc_Priority = 1, lc_WorkerSlots = 4, lc_Sheddable = False\<rparr>]"

definition sample_start_deps :: "resolved \<Rightarrow> int \<Rightarrow> start_deps" where
  "sample_start_deps pol now = \<lparr>sd_Load = Some (\<lambda>_. sample_loader), sd_Queues = sample_lanes, sd_ExecutorAllowlist = [],
     sd_HasEnvelopeStore = True, sd_Policy = Some pol, sd_LayerDigests = [], sd_PolicyVersion = [], sd_Now = now,
     sd_Repositories = None, sd_AllowedLocalRoots = [], sd_HasTransitions = False\<rparr>"

definition sample_start :: start_input where
  "sample_start = \<lparr>si_PlanID = ''p'', si_PlanFilePath = ''p.md'', si_RepoPath = ''/r'', si_Lane = [], si_Attempt = 0, si_MissionID = [],
     si_PortfolioID = [], si_ProfileID = [], si_OrganizationID = [], si_PrincipalID = [], si_Unattended = True, si_RepositoryID = [],
     si_Provider = [], si_CanonicalURL = [], si_RepositoryAlias = [], si_PinnedBaseRevision = ''c0'', si_TargetBranch = [],
     si_PlanArtifactRef = [], si_BudgetEnvelopeID = [], si_SessionCapUSD = Fin 0, si_ExperimentCapUSD = Fin 0,
     si_DeploymentCapUSD = Fin 0, si_MaxWaveConcurrency = 0, si_BranchDeliveryPolicy = [], si_PermittedEffects = [],
     si_AuthorizationDecisionRef = []\<rparr>"

text \<open>A policy under which the examples resolve.\<close>

definition usable :: "resolved \<Rightarrow> bool" where
  "usable pol = (re_Digest pol \<noteq> [] \<and> po_ExecutorAllowlist (re_Effective pol) \<noteq> [] \<and> po_ValidationAllowlistRef (re_Effective pol) \<noteq> []
     \<and> (case fmlookup (po_DeploymentModes (re_Effective pol)) ''production'' of None \<Rightarrow> True | Some m \<Rightarrow> m = ModeCommand))"

text \<open>A JSON in which only the time of issue and the digest are visible is enough for the examples.\<close>

definition issue_json :: envelope_marshal where
  "issue_json e = Some (case xv_IssuedAt (ee_Validity e) of None \<Rightarrow> [] | Some t \<Rightarrow> show_int t)"

definition issued :: "resolved \<Rightarrow> int \<Rightarrow> execution_envelope" where
  "issued pol now = (build_envelope id \<lparr>rd_Load = Some sample_loader, rd_Policy = Some pol, rd_LayerDigests = [], rd_PolicyVersion = [],
      rd_Now = now\<rparr> (intent_of (sample_start_deps pol now) sample_start) pol (sample_plan False ''s'') True
      (BudgetScopeWorkflow, ''p'') ModeCommand)\<lparr>ee_EnvelopeDigest := ''sha256:'' @ show_int now\<rparr>"

lemma sample_loads: "sample_loader ''p'' = Inr (sample_plan False ''s'')"
  by (simp add: sample_loader_def Store_Load_def sample_load sample_verified checkPlanOpen_def) (simp add: sample_plan_def)

lemma issued_fields:
  "ee_SchemaVersion (issued pol now) = ''1''" "ee_EnvelopeDigest (issued pol now) = ''sha256:'' @ show_int now"
  "ee_EnvelopeID (issued pol now) \<noteq> []"
  "xe_ExecutorAllowlist (ee_Execution (issued pol now)) = sort (po_ExecutorAllowlist (re_Effective pol))"
  "usable pol \<Longrightarrow> check_fields (issued pol now) = None"
  by (simp_all add: issued_def build_envelope_def intent_of_def sample_start_def sample_start_deps_def usable_def
      check_fields_def or_default_def newEnvelopeID_def validProvider_def validBudgetScope_def validDeploymentMode_def
      validBranchPolicy_def sample_plan_def)

lemma issue_digest: "xv_IssuedAt (ee_Validity e) = Some t \<Longrightarrow> ee_SchemaVersion e = ''1'' \<Longrightarrow> ComputeDigest issue_json id e = Inr (''sha256:'' @ show_int t)"
  by (simp add: ComputeDigest_def CanonicalJSON_def issue_json_def canonical_def)

lemma issued_valid: "usable pol \<Longrightarrow> Validate issue_json id (issued pol now) = None"
proof -
  assume u: "usable pol"
  have "xv_IssuedAt (ee_Validity (issued pol now)) = Some now"
    by (simp add: issued_def build_envelope_def intent_of_def sample_start_deps_def)
  then show ?thesis using u by (simp add: Validate_None issued_fields issue_digest)
qed

lemma issued_resolves:
  assumes u: "usable pol"
  shows "with_envelope issue_json id insert_env (sample_start_deps pol now) sample_start s =
     (case insert_env s (issued pol now) of (Some e, s') \<Rightarrow> (Inl (PersistEnvelope e), s') | (None, s') \<Rightarrow> (Inr (Some (issued pol now)), s'))"
proof -
  let ?i = "intent_of (sample_start_deps pol now) sample_start"
  have f: "re_Digest pol \<noteq> []" "po_ExecutorAllowlist (re_Effective pol) \<noteq> []"
    "po_ValidationAllowlistRef (re_Effective pol) \<noteq> []" "rx_PlanID ?i = ''p''"
    using u by (simp_all add: usable_def intent_of_def sample_start_def)
  have d: "decide_sandbox pol ?i = Inr True" "decide_scope ?i = Inr (BudgetScopeWorkflow, ''p'')"
    "decide_mode pol ?i = Inr ModeCommand" "checkOwnershipConsistency ?i (sample_plan False ''s'') = None"
    using u
    by (auto simp: decide_sandbox_def decide_scope_def decide_mode_def usable_def intent_of_def sample_start_def
        or_default_def validBudgetScope_def validDeploymentMode_def Let_def checkOwnershipConsistency_def split: option.splits)
  have i: "ap_planDigest (sample_plan False ''s'') = ''d''" "rx_PinnedBaseRevision ?i = ''c0''" "rx_Provider ?i = []"
    "rx_OrganizationID ?i = []" "rx_BranchDeliveryPolicy ?i = []" "rx_MaxWaveConcurrency ?i = 0" "rx_IssuedAt ?i = Some now"
    by (simp_all add: sample_plan_def intent_of_def sample_start_def sample_start_deps_def)
  have g: "ComputeDigest issue_json id (build_envelope id dp ?i pl a b c m) = Inr (''sha256:'' @ show_int now)" for dp pl a b c m
    by (rule issue_digest) (simp_all add: build_envelope_def i Let_def)
  have "ResolveExecutionEnvelope issue_json id \<lparr>rd_Load = Some sample_loader, rd_Policy = Some pol, rd_LayerDigests = [],
      rd_PolicyVersion = [], rd_Now = now\<rparr> ?i = Inr (issued pol now)"
    using issued_valid [OF u, of now]
    by (simp add: ResolveExecutionEnvelope_def f sample_loads resolve_approved_def d i g Let_def or_default_def validProvider_def
        validBranchPolicy_def issued_def [symmetric, unfolded append_Cons append_Nil])
  then show ?thesis
    by (simp add: with_envelope_def sample_start_deps_def split: prod.splits option.splits)
qed

definition empty_world :: "(mem_envelopes, (string \<times> string \<times> deliver_input) list, unit) start_world" where
  "empty_world = \<lparr>sw_Envelopes = NewMemEnvelopeStore, sw_Workflows = [], sw_Transitions = ()\<rparr>"

abbreviation start_at :: "resolved \<Rightarrow> int \<Rightarrow> (mem_envelopes, (string \<times> string \<times> deliver_input) list, unit) start_world \<Rightarrow>
    (start_error + start_output) \<times> (mem_envelopes, (string \<times> string \<times> deliver_input) list, unit) start_world" where
  "start_at pol now \<equiv> StartDelivery issue_json id (MemEnvelopeStore_Insert issue_json id False) service_list (\<lambda>u _ _. u)
     (sample_start_deps pol now) sample_start"

definition workflow_at :: "int \<Rightarrow> string" where
  "workflow_at now = DeliveryWorkflowID id ''d'' 0 (''sha256:'' @ show_int now)"

lemma start_at_new:
  assumes u: "usable pol" and "me_ByID (sw_Envelopes w) (ee_EnvelopeID (issued pol now)) = None"
    and "me_ByDigest (sw_Envelopes w) (''sha256:'' @ show_int now) = None" and "\<forall>e \<in> set (sw_Workflows w). fst e \<noteq> workflow_at now"
  obtains out w' request where "start_at pol now w = (Inr out, w')" "so_WorkflowID out = workflow_at now"
    "sw_Workflows w' = sw_Workflows w @ [(workflow_at now, ''q'', request)]"
    "sw_Envelopes w' = snd (MemEnvelopeStore_Insert issue_json id False (sw_Envelopes w) (issued pol now))"
proof -
  have i: "fst (MemEnvelopeStore_Insert issue_json id False (sw_Envelopes w) (issued pol now)) = None"
    using assms(2,3) by (simp add: MemEnvelopeStore_Insert_def issued_valid [OF u] issued_fields)
  have s: "sd_Load (sample_start_deps pol now) = Some (\<lambda>_. sample_loader)" "si_PlanID sample_start = ''p''"
    "LaneSelector_Select (si_Lane sample_start) (sd_Queues (sample_start_deps pol now)) = Inr ''q''" "sd_HasEnvelopeStore (sample_start_deps pol now)"
    "sd_Policy (sample_start_deps pol now) \<noteq> None" "with_repository (sample_start_deps pol now) sample_start = Inr sample_start"
    by (simp_all add: sample_start_deps_def sample_start_def LaneSelector_Select_def QueueConfig_Lane_def sample_lanes_def with_repository_def)
  have d: "ap_planDigest (sample_plan False ''s'') = ''d''" "si_Attempt sample_start = 0"
    by (simp_all add: sample_plan_def sample_start_def)
  obtain request where r: "deliver_request id (sample_start_deps pol now) sample_start (sample_plan False ''s'') (Some (issued pol now)) =
      Inr (workflow_at now, request)"
    using u by (simp add: deliver_request_def issued_fields d workflow_at_def Let_def usable_def)
  have x: "service_list (sw_Workflows w) (workflow_at now) ''q'' request = (Inr (''run-'' @ workflow_at now), sw_Workflows w @ [(workflow_at now, ''q'', request)])"
    using assms(4) by (force simp: service_list_def list_ex_iff)
  show thesis
    using i by (cases "MemEnvelopeStore_Insert issue_json id False (sw_Envelopes w) (issued pol now)")
      (simp add: StartDelivery_def s sample_loads issued_resolves [OF u] r x Let_def that)
qed

lemma workflow_at_eight: "workflow_at 7 \<noteq> workflow_at 8" "show_int 7 \<noteq> show_int 8"
  by (simp_all add: workflow_at_def DeliveryWorkflowID_def show_int_def show_nat.simps digit_char_def)

lemma issued_id: "ee_EnvelopeID (issued pol now) = ''env-'' @ take 32 (''envelope|d|'' @ show_int now)"
  by (simp add: issued_def build_envelope_def intent_of_def sample_start_deps_def or_default_def newEnvelopeID_def sample_plan_def)

lemma first_start:
  assumes "usable pol"
  obtains out w' request where "start_at pol 7 empty_world = (Inr out, w')" "so_WorkflowID out = workflow_at 7"
    "sw_Workflows w' = [(workflow_at 7, ''q'', request)]"
    "sw_Envelopes w' = snd (MemEnvelopeStore_Insert issue_json id False NewMemEnvelopeStore (issued pol 7))"
  using start_at_new [OF assms, of empty_world 7] by (auto simp: empty_world_def NewMemEnvelopeStore_def)

lemma sample_usable: "usable sample_policy"
  by (simp add: usable_def sample_policy_def sample_resolved_def)


text \<open>
  With an envelope the start is not idempotent. The time of issue is part of the envelope, so a
  retry one nanosecond later resolves another envelope, derives another workflow id from its
  digest, and the same plan and attempt run twice.
\<close>

theorem StartDelivery_double_start:
  "\<exists>out1 w1 out2 w2. start_at sample_policy 7 empty_world = (Inr out1, w1) \<and> start_at sample_policy 8 w1 = (Inr out2, w2)
    \<and> so_WorkflowID out1 \<noteq> so_WorkflowID out2 \<and> map fst (sw_Workflows w2) = [so_WorkflowID out1, so_WorkflowID out2]"
proof -
  obtain out1 w1 r1 where s1: "start_at sample_policy 7 empty_world = (Inr out1, w1)" "so_WorkflowID out1 = workflow_at 7"
    "sw_Workflows w1 = [(workflow_at 7, ''q'', r1)]"
    and e1: "sw_Envelopes w1 = snd (MemEnvelopeStore_Insert issue_json id False NewMemEnvelopeStore (issued sample_policy 7))"
    using first_start [OF sample_usable] by blast
  have n: "me_ByID (sw_Envelopes w1) (ee_EnvelopeID (issued sample_policy 8)) = None" "me_ByDigest (sw_Envelopes w1) (''sha256:'' @ show_int 8) = None"
    by (simp_all add: e1 MemEnvelopeStore_Insert_def NewMemEnvelopeStore_def issued_valid [OF sample_usable] issued_fields issued_id
        show_int_def show_nat.simps digit_char_def)
  have "\<forall>e \<in> set (sw_Workflows w1). fst e \<noteq> workflow_at 8" using s1(3) workflow_at_eight(1) by simp
  from start_at_new [OF sample_usable n this] obtain out2 w2 r2 where "start_at sample_policy 8 w1 = (Inr out2, w2)" "so_WorkflowID out2 = workflow_at 8"
    "sw_Workflows w2 = sw_Workflows w1 @ [(workflow_at 8, ''q'', r2)]" by blast
  then show ?thesis using s1 workflow_at_eight(1) by auto
qed

text \<open>A configuration that passes its validation has a queue for each of the four lanes and for the default.\<close>

lemma check_lanes_Select:
  "check_lanes i wants lanes = None \<Longrightarrow> length lanes = length wants \<Longrightarrow> name \<in> set wants \<Longrightarrow>
     \<exists>l. find (\<lambda>l. lc_Name l = name) lanes = Some l \<and> lc_TaskQueue l \<noteq> []"
  by (induction i wants lanes rule: check_lanes.induct) (auto split: if_splits)

lemma LaneSelector_Select_total:
  assumes "QueueConfig_validate cfg = None" and "lane = [] \<or> lane \<in> set laneOrder"
  shows "\<exists>q. LaneSelector_Select lane cfg = Inr q \<and> q \<noteq> []"
proof -
  have "(if lane = [] then defaultLane else lane) \<in> set laneOrder" using assms(2) by (auto simp: laneOrder_def)
  then show ?thesis
    using assms(1) check_lanes_Select [of 0 laneOrder cfg "if lane = [] then defaultLane else lane"]
    by (force simp: QueueConfig_validate_def LaneSelector_Select_def QueueConfig_Lane_def Let_def split: if_splits option.splits)
qed

text \<open>A named owner is enforced, a missing one is not asked for.\<close>

lemma Resolver_Resolve_owner:
  "Resolver_Resolve get q = Inr r \<Longrightarrow> get (rq_RepositoryID q) = Inr r
     \<and> (rq_ProfileID q = [] \<or> rp_ProfileID r = [] \<or> rq_ProfileID q = rp_ProfileID r)
     \<and> (rq_RequirePinned q \<longrightarrow> rp_PinnedBaseRevision r \<noteq> [])"
  by (auto simp: Resolver_Resolve_def split: sum.splits if_splits option.splits)

end
