(* ===== verification/Mission.thy ===== *)
theory Mission
  imports Policy Deliver_Plan
begin

text \<open>
  Mission contracts and their evaluation, package \<open>internal/mission\<close>: the contract and its
  duration vocabulary (\<open>contract.go\<close>), the net-MRR evaluator (\<open>evaluator.go\<close>), the tables of
  migrations \<open>00012\<close> and \<open>00014\<close> (\<open>store.go\<close>) and the activities that read and write them
  (\<open>activities.go\<close>). The workflow that composes them is in the theory after this one.

  A success is confirmed: the evaluator reports it only at the end of a streak of
  target-meeting samples that spans the confirmation window, and it reports a failure after
  a bounded number of cycles that miss the target. Two parameters stand for the rounding of
  the processor: the difference and the sum of two \<open>float64\<close> values.
\<close>

section \<open>The contract\<close>

record target =
  tg_Metric :: string
  tg_Source :: string
  tg_Verification :: string
  tg_AmountUSD :: f64
  tg_ConfirmationWindow :: string
  tg_MinimumUnrelatedPayingCustomers :: int
  tg_RefundChargebackRateBelow :: f64

record mission_budget =
  mb_MonthlyUSD :: f64
  mb_TotalExperimentUSD :: f64

record cadence =
  ca_Observe :: string
  ca_Improve :: string

record loop_constraints =
  lc_MaximumActiveProducts :: int
  lc_MaximumValidationCycles :: int
  lc_MaximumNoProgressCycles :: int

record contract =
  mc_ID :: string
  mc_Statement :: string
  mc_Target :: target
  mc_Budget :: mission_budget
  mc_Cadence :: cadence
  mc_Constraints :: loop_constraints
  mc_PauseWhen :: "string list"
  mc_TerminateWhen :: "string list"
  mc_PostSuccessPolicy :: string
  mc_RequiresBuildVerdict :: bool

abbreviation PauseUnforeseenHumanGate :: string where
  "PauseUnforeseenHumanGate \<equiv> ''unforeseen-human-gate''"

abbreviation PostSuccessMaintenance :: string where
  "PostSuccessMaintenance \<equiv> ''maintenance''"

section \<open>Durations\<close>

text \<open>
  \<open>strconv.Atoi\<close>: an optional sign and at least one decimal digit, in the range of 64 bits.
\<close>

definition digit_value :: "char \<Rightarrow> nat option" where
  "digit_value c =
     (if 48 \<le> (of_char c :: nat) \<and> (of_char c :: nat) \<le> 57 then Some (of_char c - 48) else None)"

fun digits_value :: "string \<Rightarrow> nat \<Rightarrow> nat option" where
  "digits_value [] acc = Some acc"
| "digits_value (c # s) acc =
     (case digit_value c of None \<Rightarrow> None | Some d \<Rightarrow> digits_value s (10 * acc + d))"

definition Atoi :: "string \<Rightarrow> int option" where
  "Atoi s =
     (let neg = has_prefix s ''-'';
          digits = (if neg \<or> has_prefix s ''+'' then drop 1 s else s) in
      if digits = [] then None
      else (case digits_value digits 0 of
              None \<Rightarrow> None
            | Some n \<Rightarrow>
                (let v = (if neg then - int n else int n) in
                 if - (2 ^ 63) \<le> v \<and> v < 2 ^ 63 then Some v else None)))"

text \<open>A \<open>time.Duration\<close> is a 64-bit count of nanoseconds; its arithmetic wraps around.\<close>

definition wrap64 :: "int \<Rightarrow> int" where
  "wrap64 x = (x + 2 ^ 63) mod 2 ^ 64 - 2 ^ 63"

abbreviation nanos_per_hour :: int where
  "nanos_per_hour \<equiv> 3600000000000"

text \<open>
  \<open>time.ParseDuration\<close>: a sign, then numbers with units; \<open>leadingInt\<close> and the accumulation
  refuse values above \<open>2 ^ 63\<close>. A decimal fraction \<open>f / scale\<close> of a unit is computed in
  floating point, which the parameter \<open>fraction f scale unit\<close> stands for.
\<close>

definition unitMap :: "string \<Rightarrow> nat option" where
  "unitMap u = map_of
     [(''ns'', 1), (''us'', 1000), ([CHR 0xC2, CHR 0xB5, CHR ''s''], 1000),
      ([CHR 0xCE, CHR 0xBC, CHR ''s''], 1000), (''ms'', 1000000), (''s'', 1000000000),
      (''m'', 60000000000), (''h'', 3600000000000)] u"

definition is_digit :: "char \<Rightarrow> bool" where
  "is_digit c = (digit_value c \<noteq> None)"

text \<open>The digits of a fraction: once the value no longer fits, further digits are skipped.\<close>

fun leadingFraction :: "string \<Rightarrow> nat \<times> nat \<times> bool \<Rightarrow> nat \<times> nat" where
  "leadingFraction [] (x, scale, over) = (x, scale)"
| "leadingFraction (c # s) (x, scale, over) =
     (case digit_value c of
        None \<Rightarrow> (x, scale)
      | Some d \<Rightarrow>
          if over \<or> x > (2 ^ 63 - 1) div 10 \<or> x * 10 + d > 2 ^ 63 then leadingFraction s (x, scale, True)
          else leadingFraction s (x * 10 + d, scale * 10, False))"

text \<open>One number with its unit: the nanoseconds and the rest of the text.\<close>

definition duration_part ::
  "(nat \<Rightarrow> nat \<Rightarrow> nat \<Rightarrow> nat) \<Rightarrow> string \<Rightarrow> (nat \<times> string) option" where
  "duration_part fraction s =
     (let ds = takeWhile is_digit s; s1 = dropWhile is_digit s;
          dot = has_prefix s1 ''.'';
          fs = (if dot then takeWhile is_digit (drop 1 s1) else []);
          s2 = (if dot then dropWhile is_digit (drop 1 s1) else s1);
          u = takeWhile (\<lambda>c. c \<noteq> CHR ''.'' \<and> \<not> is_digit c) s2;
          s3 = dropWhile (\<lambda>c. c \<noteq> CHR ''.'' \<and> \<not> is_digit c) s2 in
      if ds = [] \<and> fs = [] then None
      else (case digits_value ds 0 of
              None \<Rightarrow> None
            | Some v \<Rightarrow>
                if v > 2 ^ 63 \<or> u = [] then None
                else (case unitMap u of
                        None \<Rightarrow> None
                      | Some unit \<Rightarrow>
                          (let (f, scale) = leadingFraction fs (0, 1, False);
                               w = v * unit + (if f > 0 then fraction f scale unit else 0) in
                           if v > 2 ^ 63 div unit \<or> w > 2 ^ 63 then None else Some (w, s3)))))"

lemma duration_part_shorter:
  assumes "duration_part fraction s = Some (w, s')"
  shows "length s' < length s"
proof -
  let ?u = "\<lambda>c. c \<noteq> CHR ''.'' \<and> \<not> is_digit c"
  let ?s1 = "dropWhile is_digit s"
  define s2 where "s2 = (if has_prefix ?s1 ''.'' then dropWhile is_digit (drop 1 ?s1) else ?s1)"
  have 1: "s' = dropWhile ?u s2" and 2: "takeWhile ?u s2 \<noteq> []"
    using assms by (auto simp: duration_part_def Let_def s2_def split: if_splits option.splits prod.splits)
  have "length s' < length s2"
    using 1 2 by (metis add_less_same_cancel2 length_append length_greater_0_conv linorder_not_less takeWhile_dropWhile_id trans_le_add2 less_add_same_cancel2)
  moreover have "length s2 \<le> length s"
    unfolding s2_def using length_dropWhile_le [of is_digit "drop 1 ?s1"] length_dropWhile_le [of is_digit s] by auto
  ultimately show ?thesis by simp
qed

function duration_parts ::
  "(nat \<Rightarrow> nat \<Rightarrow> nat \<Rightarrow> nat) \<Rightarrow> string \<Rightarrow> nat \<Rightarrow> nat option" where
  "duration_parts fraction s d =
     (if s = [] then Some d
      else (case duration_part fraction s of
              None \<Rightarrow> None
            | Some (w, s') \<Rightarrow> if d + w > 2 ^ 63 then None else duration_parts fraction s' (d + w)))"
  by pat_completeness auto
termination
  by (relation "measure (\<lambda>(fraction, s, d). length s)") (auto dest: duration_part_shorter)

declare duration_parts.simps [simp del]

definition ParseDuration :: "(nat \<Rightarrow> nat \<Rightarrow> nat \<Rightarrow> nat) \<Rightarrow> string \<Rightarrow> int option" where
  "ParseDuration fraction s =
     (let neg = has_prefix s ''-'';
          body = (if neg \<or> has_prefix s ''+'' then drop 1 s else s) in
      if body = ''0'' then Some 0
      else if body = [] then None
      else (case duration_parts fraction body 0 of
              None \<Rightarrow> None
            | Some d \<Rightarrow>
                if neg then Some (- int d)
                else if d > 2 ^ 63 - 1 then None
                else Some (int d)))"

definition parseDuration :: "(nat \<Rightarrow> nat \<Rightarrow> nat \<Rightarrow> nat) \<Rightarrow> string \<Rightarrow> int option" where
  "parseDuration fraction s0 =
     (let s = trim_space s0 in
      if has_suffix s ''d'' then
        (case Atoi (trim_suffix s ''d'') of
           None \<Rightarrow> None
         | Some n \<Rightarrow> Some (wrap64 (wrap64 (n * 24) * nanos_per_hour)))
      else ParseDuration fraction s)"

definition cadenceWords :: "string \<Rightarrow> int option" where
  "cadenceWords w = map_of
     [(''hourly'', nanos_per_hour), (''daily'', 24 * nanos_per_hour),
      (''weekly'', 7 * 24 * nanos_per_hour), (''monthly'', 30 * 24 * nanos_per_hour)] w"

definition parseCadence :: "(nat \<Rightarrow> nat \<Rightarrow> nat \<Rightarrow> nat) \<Rightarrow> string \<Rightarrow> int option" where
  "parseCadence fraction word =
     (case cadenceWords (to_lower (trim_space word)) of
        Some d \<Rightarrow> Some d
      | None \<Rightarrow> parseDuration fraction word)"

section \<open>The evaluator\<close>

text \<open>\<open>a >= b\<close> on \<open>float64\<close>.\<close>

definition f64_ge :: "f64 \<Rightarrow> f64 \<Rightarrow> bool" where
  "f64_ge a b = (f64_less b a \<or> f64_eq a b)"

record ledger_sample =
  ls_At :: int
  ls_SubscriptionsUSD :: f64
  ls_RefundsUSD :: f64
  ls_CancellationsUSD :: f64
  ls_DiscountsUSD :: f64
  ls_UnrelatedCustomers :: int
  ls_RefundChargebackRate :: f64
  ls_Available :: bool

definition NetMRRUSD :: "(f64 \<Rightarrow> f64 \<Rightarrow> f64) \<Rightarrow> ledger_sample \<Rightarrow> f64" where
  "NetMRRUSD fsub s =
     fsub (fsub (fsub (ls_SubscriptionsUSD s) (ls_RefundsUSD s)) (ls_CancellationsUSD s)) (ls_DiscountsUSD s)"

definition maxPlausibleUSD :: f64 where
  "maxPlausibleUSD = Fin 1000000"

definition plausible :: "ledger_sample \<Rightarrow> bool" where
  "plausible s =
     (list_all (\<lambda>v. \<not> (f64_less v (Fin 0) \<or> f64_less maxPlausibleUSD v))
        [ls_SubscriptionsUSD s, ls_RefundsUSD s, ls_CancellationsUSD s, ls_DiscountsUSD s]
      \<and> \<not> ls_UnrelatedCustomers s < 0
      \<and> \<not> (f64_less (ls_RefundChargebackRate s) (Fin 0) \<or> f64_less (Fin 1) (ls_RefundChargebackRate s)))"

text \<open>The source of samples until a payment ledger is connected.\<close>

definition UnimplementedNetMRRSource_Observe :: "string \<Rightarrow> int \<Rightarrow> string + ledger_sample" where
  "UnimplementedNetMRRSource_Observe missionID t =
     Inr \<lparr>ls_At = t, ls_SubscriptionsUSD = Fin 0, ls_RefundsUSD = Fin 0, ls_CancellationsUSD = Fin 0,
          ls_DiscountsUSD = Fin 0, ls_UnrelatedCustomers = 0, ls_RefundChargebackRate = Fin 0, ls_Available = False\<rparr>"

record eval_state =
  es_ConfirmedSince :: "int option"
  es_Cycles :: int
  es_NoProgressCycles :: int
  es_BestNetMRRUSD :: f64

definition fresh_eval :: eval_state where
  "fresh_eval = \<lparr>es_ConfirmedSince = None, es_Cycles = 0, es_NoProgressCycles = 0, es_BestNetMRRUSD = Fin 0\<rparr>"

record loop_signal =
  sg_MonthlyBudgetExhausted :: bool
  sg_TotalBudgetExhausted :: bool
  sg_UnforeseenHumanGate :: bool
  sg_PolicyTerminated :: bool
  sg_NoBudgetEnvelope :: bool

definition clear_signal :: loop_signal where
  "clear_signal = \<lparr>sg_MonthlyBudgetExhausted = False, sg_TotalBudgetExhausted = False,
     sg_UnforeseenHumanGate = False, sg_PolicyTerminated = False, sg_NoBudgetEnvelope = False\<rparr>"

record outcome =
  oc_Continue :: bool
  oc_Status :: status
  oc_Reason :: reason
  oc_ResultCode :: result_code

text \<open>A composite literal of an \<open>Outcome\<close>; the zero status is the empty string.\<close>

definition outcome_of :: "status \<Rightarrow> reason \<Rightarrow> result_code \<Rightarrow> outcome" where
  "outcome_of st r c = \<lparr>oc_Continue = False, oc_Status = st, oc_Reason = r, oc_ResultCode = c\<rparr>"

definition continue_outcome :: outcome where
  "continue_outcome = \<lparr>oc_Continue = True, oc_Status = StatusOther [], oc_Reason = [], oc_ResultCode = []\<rparr>"

definition postSuccessResultCode :: "string \<Rightarrow> result_code" where
  "postSuccessResultCode policy =
     (if policy = PostSuccessMaintenance then ''MISSION_MAINTENANCE_MODE'' else ''MISSION_TARGET_REACHED'')"

definition target_met :: "(f64 \<Rightarrow> f64 \<Rightarrow> f64) \<Rightarrow> contract \<Rightarrow> ledger_sample \<Rightarrow> bool" where
  "target_met fsub c s =
     (f64_ge (NetMRRUSD fsub s) (tg_AmountUSD (mc_Target c))
      \<and> ls_UnrelatedCustomers s \<ge> tg_MinimumUnrelatedPayingCustomers (mc_Target c)
      \<and> f64_less (ls_RefundChargebackRate s) (tg_RefundChargebackRateBelow (mc_Target c)))"

definition Mission_Evaluate ::
  "(f64 \<Rightarrow> f64 \<Rightarrow> f64) \<Rightarrow> (nat \<Rightarrow> nat \<Rightarrow> nat \<Rightarrow> nat) \<Rightarrow> contract \<Rightarrow> eval_state \<Rightarrow> ledger_sample \<Rightarrow> loop_signal
     \<Rightarrow> outcome \<times> eval_state" where
  "Mission_Evaluate fsub fraction c prior s sig =
     (if sg_TotalBudgetExhausted sig then (outcome_of StatusFailed [] ''MISSION_BUDGET_EXHAUSTED'', prior)
      else if sg_PolicyTerminated sig then (outcome_of StatusCancelled [] ''MISSION_TERMINATED_BY_POLICY'', prior)
      else if sg_UnforeseenHumanGate sig then (outcome_of StatusWaiting ReasonUnforeseenHumanGate [], prior)
      else if sg_MonthlyBudgetExhausted sig then (outcome_of StatusWaiting ReasonBudget [], prior)
      else if \<not> ls_Available s \<or> \<not> plausible s then (outcome_of StatusWaiting ReasonProviderOutage [], prior)
      else
        (let netMRR = NetMRRUSD fsub s in
         if target_met fsub c s then
           (let since = (case es_ConfirmedSince prior of None \<Rightarrow> ls_At s | Some t \<Rightarrow> t);
                nxt = prior\<lparr>es_ConfirmedSince := Some since\<rparr> in
            case parseDuration fraction (tg_ConfirmationWindow (mc_Target c)) of
              Some window \<Rightarrow>
                if \<not> ls_At s < since + window
                then (outcome_of StatusSucceeded [] (postSuccessResultCode (mc_PostSuccessPolicy c)), nxt)
                else (continue_outcome, nxt)
            | None \<Rightarrow> (continue_outcome, nxt))
         else
           (let better = f64_less (es_BestNetMRRUSD prior) netMRR;
                nxt = prior\<lparr>es_ConfirmedSince := None, es_Cycles := es_Cycles prior + 1,
                        es_BestNetMRRUSD := (if better then netMRR else es_BestNetMRRUSD prior),
                        es_NoProgressCycles := (if better then 0 else es_NoProgressCycles prior + 1)\<rparr>;
                np = lc_MaximumNoProgressCycles (mc_Constraints c);
                mv = lc_MaximumValidationCycles (mc_Constraints c) in
            if np > 0 \<and> es_NoProgressCycles nxt \<ge> np
              then (outcome_of StatusFailed [] ''MISSION_NO_VIABLE_CANDIDATE'', nxt)
            else if mv > 0 \<and> es_Cycles nxt \<ge> mv
              then (outcome_of StatusFailed [] ''MISSION_NO_VIABLE_CANDIDATE'', nxt)
            else (continue_outcome, nxt))))"

section \<open>What a sequence of evaluations decides\<close>

text \<open>
  A cycle is real when no signal preempts it and its sample is available and plausible; only
  real cycles touch the evaluator's state.
\<close>

definition real_cycle :: "ledger_sample \<times> loop_signal \<Rightarrow> bool" where
  "real_cycle = (\<lambda>(s, sig). \<not> sg_TotalBudgetExhausted sig \<and> \<not> sg_PolicyTerminated sig
     \<and> \<not> sg_UnforeseenHumanGate sig \<and> \<not> sg_MonthlyBudgetExhausted sig \<and> ls_Available s \<and> plausible s)"

definition hit :: "(f64 \<Rightarrow> f64 \<Rightarrow> f64) \<Rightarrow> contract \<Rightarrow> ledger_sample \<times> loop_signal \<Rightarrow> bool" where
  "hit fsub c = (\<lambda>(s, sig). real_cycle (s, sig) \<and> target_met fsub c s)"

definition miss :: "(f64 \<Rightarrow> f64 \<Rightarrow> f64) \<Rightarrow> contract \<Rightarrow> ledger_sample \<times> loop_signal \<Rightarrow> bool" where
  "miss fsub c = (\<lambda>(s, sig). real_cycle (s, sig) \<and> \<not> target_met fsub c s)"

text \<open>The state after a list of cycles, whatever their outcomes.\<close>

definition evaluations ::
  "(f64 \<Rightarrow> f64 \<Rightarrow> f64) \<Rightarrow> (nat \<Rightarrow> nat \<Rightarrow> nat \<Rightarrow> nat) \<Rightarrow> contract \<Rightarrow> (ledger_sample \<times> loop_signal) list \<Rightarrow> eval_state \<Rightarrow> eval_state" where
  "evaluations fsub fraction c xs st = fold (\<lambda>(s, sig) st. snd (Mission_Evaluate fsub fraction c st s sig)) xs st"

text \<open>Every evaluation of the list keeps the mission going, by continuing or by a pause.\<close>

fun undecided ::
  "(f64 \<Rightarrow> f64 \<Rightarrow> f64) \<Rightarrow> (nat \<Rightarrow> nat \<Rightarrow> nat \<Rightarrow> nat) \<Rightarrow> contract \<Rightarrow> (ledger_sample \<times> loop_signal) list \<Rightarrow> eval_state \<Rightarrow> bool" where
  "undecided fsub fraction c [] st = True"
| "undecided fsub fraction c ((s, sig) # xs) st =
     (let (o1, st1) = Mission_Evaluate fsub fraction c st s sig in
      (oc_Continue o1 \<or> oc_Status o1 = StatusWaiting) \<and> undecided fsub fraction c xs st1)"

lemma Evaluate_not_real:
  "\<not> real_cycle (s, sig) \<Longrightarrow> snd (Mission_Evaluate fsub fraction c st s sig) = st
     \<and> oc_Status (fst (Mission_Evaluate fsub fraction c st s sig)) \<noteq> StatusSucceeded"
  by (auto simp: Mission_Evaluate_def real_cycle_def outcome_of_def)

lemma Evaluate_hit:
  "hit fsub c (s, sig) \<Longrightarrow>
     es_ConfirmedSince (snd (Mission_Evaluate fsub fraction c st s sig))
       = Some (case es_ConfirmedSince st of None \<Rightarrow> ls_At s | Some t \<Rightarrow> t)
     \<and> es_Cycles (snd (Mission_Evaluate fsub fraction c st s sig)) = es_Cycles st
     \<and> es_NoProgressCycles (snd (Mission_Evaluate fsub fraction c st s sig)) = es_NoProgressCycles st"
  by (auto simp: Mission_Evaluate_def hit_def real_cycle_def Let_def split: option.splits)

lemma Evaluate_miss:
  "miss fsub c (s, sig) \<Longrightarrow>
     es_ConfirmedSince (snd (Mission_Evaluate fsub fraction c st s sig)) = None
     \<and> es_Cycles (snd (Mission_Evaluate fsub fraction c st s sig)) = es_Cycles st + 1
     \<and> oc_Status (fst (Mission_Evaluate fsub fraction c st s sig)) \<noteq> StatusSucceeded"
  by (auto simp: Mission_Evaluate_def miss_def real_cycle_def Let_def outcome_of_def continue_outcome_def)

lemma cycle_cases:
  obtains (Pause) "\<not> real_cycle x" | (Hit) "hit fsub c x" | (Miss) "miss fsub c x"
  by (cases x) (auto simp: hit_def miss_def)

lemma Evaluate_succeeded:
  "oc_Status (fst (Mission_Evaluate fsub fraction c st s sig)) = StatusSucceeded \<longleftrightarrow>
     hit fsub c (s, sig) \<and>
     (\<exists>window. parseDuration fraction (tg_ConfirmationWindow (mc_Target c)) = Some window
        \<and> (case es_ConfirmedSince st of None \<Rightarrow> ls_At s | Some t \<Rightarrow> t) + window \<le> ls_At s)"
  by (auto simp: Mission_Evaluate_def hit_def real_cycle_def Let_def outcome_of_def continue_outcome_def
      split: option.splits)

lemma evaluations_snoc:
  "evaluations fsub fraction c (xs @ [(s, sig)]) st
     = snd (Mission_Evaluate fsub fraction c (evaluations fsub fraction c xs st) s sig)"
  by (simp add: evaluations_def)

lemma hit_not_miss: "hit fsub c x \<Longrightarrow> \<not> miss fsub c x"
  by (auto simp: hit_def miss_def)

lemma hit_real: "hit fsub c x \<Longrightarrow> real_cycle x"
  by (cases x) (auto simp: hit_def)

lemma miss_real: "miss fsub c x \<Longrightarrow> real_cycle x"
  by (cases x) (auto simp: miss_def)

text \<open>
  The reference: the streak at the end of a history is the list of the hits since its last miss.
\<close>

definition current_streak ::
  "(f64 \<Rightarrow> f64 \<Rightarrow> f64) \<Rightarrow> contract \<Rightarrow> (ledger_sample \<times> loop_signal) list \<Rightarrow> (ledger_sample \<times> loop_signal) list" where
  "current_streak fsub c xs = filter (hit fsub c) (rev (takeWhile (\<lambda>x. \<not> miss fsub c x) (rev xs)))"

lemma current_streak_snoc:
  "current_streak fsub c (xs @ [x]) =
     (if miss fsub c x then [] else current_streak fsub c xs @ (if hit fsub c x then [x] else []))"
  by (cases "miss fsub c x"; cases "hit fsub c x") (simp_all add: current_streak_def)

lemma evaluations_streak:
  "es_ConfirmedSince (evaluations fsub fraction c xs fresh_eval)
     = (case current_streak fsub c xs of [] \<Rightarrow> None | x # _ \<Rightarrow> Some (ls_At (fst x)))"
proof (induction xs rule: rev_induct)
  case Nil
  then show ?case by (simp add: evaluations_def fresh_eval_def current_streak_def)
next
  case (snoc x xs)
  obtain s sig where x: "x = (s, sig)" by (cases x)
  show ?case
  proof (cases rule: cycle_cases [where x = x and fsub = fsub and c = c])
    case Pause
    then have "\<not> hit fsub c x" "\<not> miss fsub c x" using hit_real miss_real by blast+
    then show ?thesis
      using snoc Evaluate_not_real [of s sig] Pause x by (simp add: evaluations_snoc current_streak_snoc)
  next
    case Hit
    then show ?thesis
      using snoc Evaluate_hit [of fsub c s sig] hit_not_miss [OF Hit] x
      by (auto simp: evaluations_snoc current_streak_snoc split: list.splits)
  next
    case Miss
    then show ?thesis
      using Evaluate_miss [of fsub c s sig] x by (simp add: evaluations_snoc current_streak_snoc)
  qed
qed

lemma evaluations_cycles:
  "es_Cycles (evaluations fsub fraction c xs fresh_eval) = int (length (filter (miss fsub c) xs))"
proof (induction xs rule: rev_induct)
  case Nil
  then show ?case by (simp add: evaluations_def fresh_eval_def)
next
  case (snoc x xs)
  obtain s sig where x: "x = (s, sig)" by (cases x)
  show ?case
  proof (cases rule: cycle_cases [where x = x and fsub = fsub and c = c])
    case Pause
    then have "\<not> miss fsub c x" using miss_real by blast
    then show ?thesis using snoc Evaluate_not_real [of s sig] Pause x by (simp add: evaluations_snoc)
  next
    case Hit
    then show ?thesis
      using snoc Evaluate_hit [of fsub c s sig] hit_not_miss [OF Hit] x by (simp add: evaluations_snoc)
  next
    case Miss
    then show ?thesis using snoc Evaluate_miss [of fsub c s sig] x by (simp add: evaluations_snoc)
  qed
qed

lemma hd_streak_snoc:
  assumes "hit fsub c (s, sig)"
  shows "ls_At (fst (hd (current_streak fsub c (xs @ [(s, sig)]))))
    = (case es_ConfirmedSince (evaluations fsub fraction c xs fresh_eval) of None \<Rightarrow> ls_At s | Some t \<Rightarrow> t)"
  using assms hit_not_miss [OF assms] by (auto simp: evaluations_streak current_streak_snoc split: list.splits)

text \<open>
  C17: success is confirmed. After any history of evaluation cycles of a fresh mission, the next
  one reports SUCCEEDED exactly when its sample is trusted and meets the target and the
  confirmation window has passed since the first target-meeting sample after the last sample
  that missed it. With a positive window this takes at least two such samples.
\<close>

theorem Evaluate_success_confirmed:
  "oc_Status (fst (Mission_Evaluate fsub fraction c (evaluations fsub fraction c xs fresh_eval) s sig)) = StatusSucceeded
     \<longleftrightarrow> hit fsub c (s, sig) \<and>
         (\<exists>window. parseDuration fraction (tg_ConfirmationWindow (mc_Target c)) = Some window
            \<and> ls_At (fst (hd (current_streak fsub c (xs @ [(s, sig)])))) + window \<le> ls_At s
            \<and> (0 < window \<longrightarrow> 2 \<le> length (current_streak fsub c (xs @ [(s, sig)]))))"
  (is "?succ \<longleftrightarrow> ?spec")
proof -
  have two: "2 \<le> length (current_streak fsub c (xs @ [(s, sig)]))"
    if "hit fsub c (s, sig)" "0 < window"
      and "ls_At (fst (hd (current_streak fsub c (xs @ [(s, sig)])))) + window \<le> ls_At s" for window
    using that hit_not_miss [OF that(1)] by (cases "current_streak fsub c xs") (auto simp: current_streak_snoc)
  define since where "since = ls_At (fst (hd (current_streak fsub c (xs @ [(s, sig)]))))"
  have since: "(case es_ConfirmedSince (evaluations fsub fraction c xs fresh_eval) of None \<Rightarrow> ls_At s | Some t \<Rightarrow> t) = since"
    if "hit fsub c (s, sig)"
    unfolding since_def by (rule hd_streak_snoc [OF that, symmetric])
  have "?succ \<longleftrightarrow> hit fsub c (s, sig) \<and>
      (\<exists>window. parseDuration fraction (tg_ConfirmationWindow (mc_Target c)) = Some window \<and> since + window \<le> ls_At s)"
    unfolding Evaluate_succeeded by (intro conj_cong refl) (simp only: since)
  then show ?thesis using two unfolding since_def [symmetric] by blast
qed

lemma undecided_Cons:
  "undecided fsub fraction c (x # xs) st \<longleftrightarrow>
     (oc_Continue (fst (Mission_Evaluate fsub fraction c st (fst x) (snd x)))
       \<or> oc_Status (fst (Mission_Evaluate fsub fraction c st (fst x) (snd x))) = StatusWaiting)
     \<and> undecided fsub fraction c xs (snd (Mission_Evaluate fsub fraction c st (fst x) (snd x)))"
  by (cases x; cases "Mission_Evaluate fsub fraction c st (fst x) (snd x)") simp

lemma evaluations_Cons:
  "evaluations fsub fraction c (x # xs) st
     = evaluations fsub fraction c xs (snd (Mission_Evaluate fsub fraction c st (fst x) (snd x)))"
  by (simp add: evaluations_def case_prod_beta)

declare undecided.simps(2) [simp del]

lemma undecided_append:
  "undecided fsub fraction c (xs @ ys) st \<longleftrightarrow>
     undecided fsub fraction c xs st \<and> undecided fsub fraction c ys (evaluations fsub fraction c xs st)"
  by (induction xs arbitrary: st) (simp_all add: undecided_Cons evaluations_Cons evaluations_def [of _ _ _ "[]"])

lemma Evaluate_undecided_cycles:
  assumes "miss fsub c (s, sig)" and "oc_Continue (fst (Mission_Evaluate fsub fraction c st s sig))
      \<or> oc_Status (fst (Mission_Evaluate fsub fraction c st s sig)) = StatusWaiting"
    and "0 < lc_MaximumValidationCycles (mc_Constraints c)"
  shows "es_Cycles (snd (Mission_Evaluate fsub fraction c st s sig)) < lc_MaximumValidationCycles (mc_Constraints c)"
  using assms by (auto simp: Mission_Evaluate_def miss_def real_cycle_def Let_def outcome_of_def split: if_splits)

text \<open>
  a mission is no open loop. While no evaluation of a fresh mission has been decisive, the
  cycles whose trusted sample missed the target are fewer than the contract's
  \<open>maximum_validation_cycles\<close>, and the state counts exactly those cycles.
\<close>

theorem Evaluate_cycles_bounded:
  assumes "undecided fsub fraction c xs fresh_eval" and "0 < lc_MaximumValidationCycles (mc_Constraints c)"
  shows "int (length (filter (miss fsub c) xs)) < lc_MaximumValidationCycles (mc_Constraints c)
    \<and> es_Cycles (evaluations fsub fraction c xs fresh_eval) = int (length (filter (miss fsub c) xs))"
  using assms
proof (induction xs rule: rev_induct)
  case Nil
  then show ?case by (simp add: evaluations_def fresh_eval_def)
next
  case (snoc x xs)
  obtain s sig where x: "x = (s, sig)" by (cases x)
  let ?st = "evaluations fsub fraction c xs fresh_eval"
  have IH: "int (length (filter (miss fsub c) xs)) < lc_MaximumValidationCycles (mc_Constraints c)"
    using snoc by (simp add: undecided_append)
  have und: "oc_Continue (fst (Mission_Evaluate fsub fraction c ?st s sig))
      \<or> oc_Status (fst (Mission_Evaluate fsub fraction c ?st s sig)) = StatusWaiting"
    using snoc.prems(1) x by (simp add: undecided_append undecided_Cons)
  have "int (length (filter (miss fsub c) (xs @ [x]))) < lc_MaximumValidationCycles (mc_Constraints c)"
  proof (cases "miss fsub c x")
    case True
    then show ?thesis
      using Evaluate_undecided_cycles [OF _ und snoc.prems(2)] evaluations_cycles [of fsub fraction c "xs @ [x]"] x
      by (simp add: evaluations_snoc)
  next
    case False
    then show ?thesis using IH by simp
  qed
  then show ?case using evaluations_cycles by blast
qed

section \<open>Two missions\<close>

fun exact_sub :: "f64 \<Rightarrow> f64 \<Rightarrow> f64" where
  "exact_sub (Fin a) (Fin b) = Fin (a - b)"
| "exact_sub a b = NaN"

definition no_fraction :: "nat \<Rightarrow> nat \<Rightarrow> nat \<Rightarrow> nat" where
  "no_fraction f scale unit = f * unit div scale"

definition sample_contract :: "string \<Rightarrow> contract" where
  "sample_contract window =
     \<lparr>mc_ID = ''m'', mc_Statement = ''s'',
      mc_Target = \<lparr>tg_Metric = ''net_mrr'', tg_Source = ''payment-provider-ledger'', tg_Verification = ''reconciled'',
        tg_AmountUSD = Fin 100, tg_ConfirmationWindow = window, tg_MinimumUnrelatedPayingCustomers = 1,
        tg_RefundChargebackRateBelow = Fin (1 / 10)\<rparr>,
      mc_Budget = \<lparr>mb_MonthlyUSD = Fin 100, mb_TotalExperimentUSD = Fin 500\<rparr>,
      mc_Cadence = \<lparr>ca_Observe = ''daily'', ca_Improve = ''weekly''\<rparr>,
      mc_Constraints = \<lparr>lc_MaximumActiveProducts = 1, lc_MaximumValidationCycles = 3, lc_MaximumNoProgressCycles = 3\<rparr>,
      mc_PauseWhen = [], mc_TerminateWhen = [], mc_PostSuccessPolicy = ''stop'', mc_RequiresBuildVerdict = False\<rparr>"

definition paying :: "int \<Rightarrow> rat \<Rightarrow> ledger_sample" where
  "paying t usd = \<lparr>ls_At = t, ls_SubscriptionsUSD = Fin usd, ls_RefundsUSD = Fin 0, ls_CancellationsUSD = Fin 0,
     ls_DiscountsUSD = Fin 0, ls_UnrelatedCustomers = 2, ls_RefundChargebackRate = Fin 0, ls_Available = True\<rparr>"

lemma trim_space_id:
  assumes "s \<noteq> []" and "find (\<lambda>w. has_prefix s w) space_seqs = None" and "find (\<lambda>w. has_suffix s w) space_seqs = None"
  shows "trim_space s = s"
  using assms by (simp add: trim_space_def trim_left_space.simps [of s] trim_right_space.simps [of s])

lemma window_1d: "parseDuration fraction ''1d'' = Some 86400000000000"
proof -
  have "trim_space ''1d'' = ''1d''"
    by (rule trim_space_id) (simp_all add: space_seqs_def has_prefix_def has_suffix_def)
  then show ?thesis
    by (simp add: parseDuration_def has_suffix_def trim_suffix_def Atoi_def has_prefix_def digit_value_def wrap64_def)
qed

lemma sample_contract_window [simp]: "tg_ConfirmationWindow (mc_Target (sample_contract w)) = w"
  by (simp add: sample_contract_def)

lemma paying_hit [simp]:
  "hit exact_sub (sample_contract window) (paying t usd, clear_signal) \<longleftrightarrow> 100 \<le> usd \<and> usd \<le> 1000000"
  by (auto simp: hit_def real_cycle_def clear_signal_def paying_def plausible_def maxPlausibleUSD_def
      target_met_def sample_contract_def NetMRRUSD_def f64_ge_def f64_eq_def)

lemma paying_miss [simp]:
  "miss exact_sub (sample_contract window) (paying t usd, clear_signal) \<longleftrightarrow> 0 \<le> usd \<and> usd < 100"
  by (auto simp: miss_def real_cycle_def clear_signal_def paying_def plausible_def maxPlausibleUSD_def
      target_met_def sample_contract_def NetMRRUSD_def f64_ge_def f64_eq_def)

theorem Evaluate_success_confirmed_witness:
  "oc_Status (fst (Mission_Evaluate exact_sub no_fraction (sample_contract ''1d'')
      (evaluations exact_sub no_fraction (sample_contract ''1d'')
        [(paying 0 150, clear_signal), (paying 10 90, clear_signal), (paying 20 120, clear_signal)] fresh_eval)
      (paying 86400000000020 130) clear_signal)) = StatusSucceeded
   \<and> oc_Status (fst (Mission_Evaluate exact_sub no_fraction (sample_contract ''1d'')
      (evaluations exact_sub no_fraction (sample_contract ''1d'')
        [(paying 0 150, clear_signal), (paying 10 90, clear_signal), (paying 20 120, clear_signal)] fresh_eval)
      (paying 86400000000019 130) clear_signal)) \<noteq> StatusSucceeded"
proof -
  have w: "parseDuration no_fraction (tg_ConfirmationWindow (mc_Target (sample_contract ''1d''))) = Some 86400000000000"
    by (simp add: window_1d sample_contract_def)
  show ?thesis
    unfolding Evaluate_success_confirmed w by (simp add: current_streak_def) (simp add: paying_def)
qed

theorem Evaluate_cycles_bounded_witness:
  "int (length (filter (miss exact_sub (sample_contract ''1d''))
      [(paying 0 50, clear_signal), (paying 10 60, clear_signal)])) < 3"
proof -
  have "undecided exact_sub no_fraction (sample_contract ''1d'')
      [(paying 0 50, clear_signal), (paying 10 60, clear_signal)] fresh_eval"
    by (simp add: undecided_Cons Mission_Evaluate_def clear_signal_def paying_def plausible_def maxPlausibleUSD_def
        target_met_def sample_contract_def NetMRRUSD_def f64_ge_def f64_eq_def fresh_eval_def continue_outcome_def)
  from Evaluate_cycles_bounded [OF this] show ?thesis by (simp add: sample_contract_def)
qed

text \<open>
  The window is no promise when it does not fit 64 bits: \<open>106752d\<close> matches the contract schema,
  its nanoseconds wrap around to a negative window, and the first sample that meets the target
  ends the mission with success.
\<close>

lemma window_106752d: "parseDuration fraction ''106752d'' = Some (- 9223371273709551616)"
proof -
  have "trim_space ''106752d'' = ''106752d''"
    by (rule trim_space_id) (simp_all add: space_seqs_def has_prefix_def has_suffix_def)
  then show ?thesis
    by (simp add: parseDuration_def has_suffix_def trim_suffix_def Atoi_def has_prefix_def digit_value_def wrap64_def)
qed

theorem Evaluate_window_overflow:
  "oc_Status (fst (Mission_Evaluate exact_sub no_fraction (sample_contract ''106752d'') fresh_eval (paying 0 100) clear_signal))
     = StatusSucceeded"
  unfolding Evaluate_succeeded
  by (simp add: window_106752d fresh_eval_def)

text \<open>Not a number passes for a plausible amount, and nothing is known about the mission then.\<close>

theorem plausible_accepts_NaN:
  "plausible (paying 0 0\<lparr>ls_RefundsUSD := NaN\<rparr>)"
  by (simp add: plausible_def paying_def maxPlausibleUSD_def)

text \<open>
  An outcome that does not continue is a transition the state model allows from RUNNING.
\<close>

lemma if_fst_mem: "fst a \<in> S \<Longrightarrow> fst b \<in> S \<Longrightarrow> fst (if p then a else b) \<in> S"
  by simp

lemma option_fst_mem:
  "(\<And>x. fst (f x) \<in> S) \<Longrightarrow> fst e \<in> S \<Longrightarrow> fst (case v of None \<Rightarrow> e | Some x \<Rightarrow> f x) \<in> S"
  by (cases v) simp_all

lemma Evaluate_outcome_cases:
  "fst (Mission_Evaluate fsub fraction c st s sig) \<in>
     {continue_outcome, outcome_of StatusFailed [] ''MISSION_BUDGET_EXHAUSTED'',
      outcome_of StatusCancelled [] ''MISSION_TERMINATED_BY_POLICY'',
      outcome_of StatusWaiting ReasonUnforeseenHumanGate [], outcome_of StatusWaiting ReasonBudget [],
      outcome_of StatusWaiting ReasonProviderOutage [], outcome_of StatusFailed [] ''MISSION_NO_VIABLE_CANDIDATE'',
      outcome_of StatusSucceeded [] ''MISSION_TARGET_REACHED'',
      outcome_of StatusSucceeded [] ''MISSION_MAINTENANCE_MODE''}"
  unfolding Mission_Evaluate_def Let_def
  by (intro if_fst_mem option_fst_mem) (simp_all add: postSuccessResultCode_def)

end
