(* ===== verification/Mission_Store.thy ===== *)
theory Mission_Store
  imports Mission "HOL-Library.Product_Lexorder"
begin

text \<open>
  The readiness ceremony of a mission (\<open>internal/mission/ceremony.go\<close>), the Postgres store of
  missions (\<open>store.go\<close>, migrations \<open>00012\<close> and \<open>00014\<close>) and the activities of the mission
  workflow that read and write them (\<open>activities.go\<close>).

  An artifact passes exactly when every required gate of the checklist is resolved with
  evidence and no runtime gate is open. A mission activity that is repeated under its key
  changes no row; the theorem about the second run of a mission shows what that costs once
  the iteration counter starts again.
\<close>

section \<open>The readiness ceremony\<close>

abbreviation ReadinessPass :: string where "ReadinessPass \<equiv> ''pass''"
abbreviation ReadinessFail :: string where "ReadinessFail \<equiv> ''fail''"

record ceremony_item =
  ci_Key :: string
  ci_Prompt :: string
  ci_Required :: bool

record ceremony_group =
  cg_Name :: string
  cg_Items :: "ceremony_item list"

type_synonym ceremony_checklist = "ceremony_group list"

record ceremony_answer =
  cw_Resolved :: bool
  cw_Evidence :: string
  cw_Deferred :: bool
  cw_Reason :: string
  cw_RevisitWhen :: string
  cw_Principal :: string

record completed_gate =
  cp_Gate :: string
  cp_Evidence :: string
  cp_CompletedAt :: int
  cp_Principal :: string

record deferred_gate =
  dg_Gate :: string
  dg_Reason :: string
  dg_RevisitWhen :: string

record readiness_artifact =
  ra_MissionID :: string
  ra_CompletedGates :: "completed_gate list"
  ra_DeferredGates :: "deferred_gate list"
  ra_Readiness :: string
  ra_ApprovedBy :: string
  ra_Digest :: string

record gate_event =
  ge_ID :: string
  ge_MissionID :: string
  ge_Action :: string
  ge_OccurredAt :: int
  ge_ResolvedAt :: "int option"
  ge_Resolution :: "string option"

datatype ceremony_error =
    MissionIDRequired | ApprovedByRequired | ReadChecklist string | DecodeChecklist string
  | MissingAnswer string | BothResolvedAndDeferred string | NeitherResolvedNorDeferred string
  | ResolvedWithoutEvidence string | DeferredWithoutReason string | MarshalReadiness

text \<open>\<open>strings.EqualFold\<close> with an ASCII word.\<close>

definition IsPassing :: "readiness_artifact \<Rightarrow> bool" where
  "IsPassing a = (map lower_char (ra_Readiness a) = ReadinessPass)"

text \<open>\<open>read\<close> is the file system, \<open>decode\<close> the YAML library; every item becomes required.\<close>

definition LoadCeremonyChecklist ::
  "(string \<Rightarrow> string option) \<Rightarrow> (string \<Rightarrow> ceremony_checklist option) \<Rightarrow> string \<Rightarrow> ceremony_error + ceremony_checklist" where
  "LoadCeremonyChecklist read decode path0 =
     (let path = (if trim_space path0 = [] then ''config/ceremony-checklist.yaml'' else path0) in
      case read path of
        None \<Rightarrow> Inl (ReadChecklist path)
      | Some raw \<Rightarrow>
          (case decode raw of
             None \<Rightarrow> Inl (DecodeChecklist path)
           | Some groups \<Rightarrow>
               Inr (map (\<lambda>g. g\<lparr>cg_Items := map (\<lambda>i. i\<lparr>ci_Required := True\<rparr>) (cg_Items g)\<rparr>) groups)))"

text \<open>One item of the checklist: the gate goes to the completed or to the deferred ones.\<close>

record ceremony_acc =
  ac_completed :: "completed_gate list"
  ac_deferred :: "deferred_gate list"
  ac_readiness :: string

definition checklist_item ::
  "string \<Rightarrow> (string \<Rightarrow> ceremony_answer option) \<Rightarrow> int \<Rightarrow> ceremony_item \<Rightarrow> ceremony_acc \<Rightarrow> ceremony_error + ceremony_acc" where
  "checklist_item approvedBy answers now item acc =
     (let key = ci_Key item in
      case answers key of
        None \<Rightarrow> Inl (MissingAnswer key)
      | Some answer \<Rightarrow>
          if cw_Resolved answer \<and> cw_Deferred answer then Inl (BothResolvedAndDeferred key)
          else if \<not> cw_Resolved answer \<and> \<not> cw_Deferred answer then Inl (NeitherResolvedNorDeferred key)
          else if cw_Resolved answer then
            if trim_space (cw_Evidence answer) = [] then Inl (ResolvedWithoutEvidence key)
            else
              (let principal0 = trim_space (cw_Principal answer) in
               Inr (acc\<lparr>ac_completed := ac_completed acc @
                     [\<lparr>cp_Gate = key, cp_Evidence = cw_Evidence answer, cp_CompletedAt = now,
                       cp_Principal = (if principal0 = [] then approvedBy else principal0)\<rparr>]\<rparr>))
          else if trim_space (cw_Reason answer) = [] \<or> trim_space (cw_RevisitWhen answer) = []
            then Inl (DeferredWithoutReason key)
          else
            Inr (acc\<lparr>ac_deferred := ac_deferred acc @
                   [\<lparr>dg_Gate = key, dg_Reason = cw_Reason answer, dg_RevisitWhen = cw_RevisitWhen answer\<rparr>],
                 ac_readiness := (if ci_Required item then ReadinessFail else ac_readiness acc)\<rparr>))"

fun checklist_items ::
  "string \<Rightarrow> (string \<Rightarrow> ceremony_answer option) \<Rightarrow> int \<Rightarrow> ceremony_item list \<Rightarrow> ceremony_acc \<Rightarrow> ceremony_error + ceremony_acc" where
  "checklist_items approvedBy answers now [] acc = Inr acc"
| "checklist_items approvedBy answers now (item # items) acc =
     (case checklist_item approvedBy answers now item acc of
        Inl err \<Rightarrow> Inl err
      | Inr acc' \<Rightarrow> checklist_items approvedBy answers now items acc')"

definition open_gate :: "gate_event \<Rightarrow> deferred_gate" where
  "open_gate ev = \<lparr>dg_Gate = ''unforeseen-human-gate:'' @ ge_Action ev,
     dg_Reason = ''encountered during runtime; must be closed before unattended missions'',
     dg_RevisitWhen = ''next-ceremony''\<rparr>"

definition readinessDigest ::
  "(readiness_artifact \<Rightarrow> string option) \<Rightarrow> (string \<Rightarrow> string) \<Rightarrow> readiness_artifact \<Rightarrow> ceremony_error + string" where
  "readinessDigest marshal sha256hex a =
     (case marshal (a\<lparr>ra_Digest := []\<rparr>) of
        None \<Rightarrow> Inl MarshalReadiness
      | Some raw \<Rightarrow> Inr (''sha256:'' @ sha256hex raw))"

definition BuildMissionReadinessArtifact ::
  "(readiness_artifact \<Rightarrow> string option) \<Rightarrow> (string \<Rightarrow> string) \<Rightarrow> string \<Rightarrow> string \<Rightarrow> ceremony_checklist
     \<Rightarrow> (string \<Rightarrow> ceremony_answer option) \<Rightarrow> gate_event list \<Rightarrow> int \<Rightarrow> ceremony_error + readiness_artifact" where
  "BuildMissionReadinessArtifact marshal sha256hex missionID approvedBy checklist answers gateEvents now =
     (if missionID = [] then Inl MissionIDRequired
      else if trim_space approvedBy = [] then Inl ApprovedByRequired
      else
        (case checklist_items approvedBy answers now (concat (map cg_Items checklist))
                \<lparr>ac_completed = [], ac_deferred = [], ac_readiness = ReadinessPass\<rparr> of
           Inl err \<Rightarrow> Inl err
         | Inr acc \<Rightarrow>
             (let unresolved = filter (\<lambda>ev. ge_ResolvedAt ev = None) (sort_key ge_OccurredAt gateEvents);
                  artifact = \<lparr>ra_MissionID = missionID, ra_CompletedGates = ac_completed acc,
                    ra_DeferredGates = ac_deferred acc @ map open_gate unresolved,
                    ra_Readiness = (if unresolved = [] then ac_readiness acc else ReadinessFail),
                    ra_ApprovedBy = approvedBy, ra_Digest = []\<rparr> in
              case readinessDigest marshal sha256hex artifact of
                Inl err \<Rightarrow> Inl err
              | Inr digest \<Rightarrow> Inr (artifact\<lparr>ra_Digest := digest\<rparr>))))"

text \<open>What the answers say about an item that the ceremony accepts.\<close>

definition resolved_item :: "(string \<Rightarrow> ceremony_answer option) \<Rightarrow> ceremony_item \<Rightarrow> bool" where
  "resolved_item answers item =
     (case answers (ci_Key item) of
        None \<Rightarrow> False
      | Some a \<Rightarrow> cw_Resolved a \<and> \<not> cw_Deferred a \<and> trim_space (cw_Evidence a) \<noteq> [])"

definition deferred_item :: "(string \<Rightarrow> ceremony_answer option) \<Rightarrow> ceremony_item \<Rightarrow> bool" where
  "deferred_item answers item =
     (case answers (ci_Key item) of
        None \<Rightarrow> False
      | Some a \<Rightarrow> cw_Deferred a \<and> \<not> cw_Resolved a \<and> trim_space (cw_Reason a) \<noteq> [] \<and> trim_space (cw_RevisitWhen a) \<noteq> [])"

lemma deferred_not_resolved: "deferred_item answers i \<Longrightarrow> \<not> resolved_item answers i"
  by (auto simp: deferred_item_def resolved_item_def split: option.splits)

lemma checklist_item_Inr:
  "checklist_item approvedBy answers now item acc = Inr acc' \<Longrightarrow>
     (resolved_item answers item
       \<and> map cp_Gate (ac_completed acc') = map cp_Gate (ac_completed acc) @ [ci_Key item]
       \<and> ac_deferred acc' = ac_deferred acc \<and> ac_readiness acc' = ac_readiness acc)
   \<or> (deferred_item answers item \<and> ac_completed acc' = ac_completed acc
       \<and> map dg_Gate (ac_deferred acc') = map dg_Gate (ac_deferred acc) @ [ci_Key item]
       \<and> ac_readiness acc' = (if ci_Required item then ReadinessFail else ac_readiness acc))"
  by (auto simp: checklist_item_def resolved_item_def deferred_item_def Let_def split: option.splits if_splits)

lemma checklist_items_Inr:
  "checklist_items approvedBy answers now items acc = Inr acc' \<Longrightarrow>
     list_all (\<lambda>i. resolved_item answers i \<or> deferred_item answers i) items
     \<and> map cp_Gate (ac_completed acc') = map cp_Gate (ac_completed acc) @ map ci_Key (filter (resolved_item answers) items)
     \<and> map dg_Gate (ac_deferred acc') = map dg_Gate (ac_deferred acc) @ map ci_Key (filter (deferred_item answers) items)
     \<and> ac_readiness acc' = (if list_ex (\<lambda>i. ci_Required i \<and> deferred_item answers i) items then ReadinessFail
                             else ac_readiness acc)"
proof (induction items arbitrary: acc)
  case (Cons item items)
  then obtain acc1 where 1: "checklist_item approvedBy answers now item acc = Inr acc1"
    and 2: "checklist_items approvedBy answers now items acc1 = Inr acc'"
    by (auto split: sum.splits)
  show ?case
    using checklist_item_Inr [OF 1] Cons.IH [OF 2] deferred_not_resolved [of answers item]
    by (elim disjE conjE) auto
qed simp

text \<open>
  what a readiness artifact certifies. If the ceremony produces one, every gate of the
  checklist is answered, either resolved with evidence or deferred with a reason, and the
  artifact lists exactly these gates, in order; it passes exactly when no required gate is
  deferred and every gate event raised at run time has been resolved.
\<close>

theorem BuildMissionReadinessArtifact_certifies:
  assumes "BuildMissionReadinessArtifact marshal sha256hex missionID approvedBy checklist answers gateEvents now = Inr a"
  shows "list_all (\<lambda>i. resolved_item answers i \<or> deferred_item answers i) (concat (map cg_Items checklist))
    \<and> map cp_Gate (ra_CompletedGates a) = map ci_Key (filter (resolved_item answers) (concat (map cg_Items checklist)))
    \<and> map dg_Gate (ra_DeferredGates a) =
        map ci_Key (filter (deferred_item answers) (concat (map cg_Items checklist)))
        @ map (\<lambda>ev. ''unforeseen-human-gate:'' @ ge_Action ev)
            (filter (\<lambda>ev. ge_ResolvedAt ev = None) (sort_key ge_OccurredAt gateEvents))
    \<and> (IsPassing a \<longleftrightarrow>
        list_all (\<lambda>i. ci_Required i \<longrightarrow> resolved_item answers i) (concat (map cg_Items checklist))
        \<and> list_all (\<lambda>ev. ge_ResolvedAt ev \<noteq> None) gateEvents)"
proof -
  let ?items = "concat (map cg_Items checklist)"
  let ?open = "filter (\<lambda>ev. ge_ResolvedAt ev = None) (sort_key ge_OccurredAt gateEvents)"
  obtain acc where acc: "checklist_items approvedBy answers now ?items
        \<lparr>ac_completed = [], ac_deferred = [], ac_readiness = ReadinessPass\<rparr> = Inr acc"
    and a: "ra_CompletedGates a = ac_completed acc" "ra_DeferredGates a = ac_deferred acc @ map open_gate ?open"
      "ra_Readiness a = (if ?open = [] then ac_readiness acc else ReadinessFail)"
    using assms by (auto simp: BuildMissionReadinessArtifact_def Let_def split: if_splits sum.splits)
  note items = checklist_items_Inr [OF acc, simplified]
  have none: "?open = [] \<longleftrightarrow> list_all (\<lambda>ev. ge_ResolvedAt ev \<noteq> None) gateEvents"
    by (auto simp: filter_empty_conv list_all_iff)
  have req: "\<not> list_ex (\<lambda>i. ci_Required i \<and> deferred_item answers i) ?items \<longleftrightarrow>
      list_all (\<lambda>i. ci_Required i \<longrightarrow> resolved_item answers i) ?items"
    using items deferred_not_resolved by (fastforce simp: list_all_iff list_ex_iff)
  have low: "map lower_char ReadinessPass = ReadinessPass" "map lower_char ReadinessFail \<noteq> ReadinessPass"
    by (simp_all add: lower_char_def)
  have "IsPassing a \<longleftrightarrow> \<not> list_ex (\<lambda>i. ci_Required i \<and> deferred_item answers i) ?items \<and> ?open = []"
    unfolding IsPassing_def a(3) using items low by (auto split: if_splits)
  then show ?thesis using items a none req by (simp add: open_gate_def comp_def)
qed

definition sample_checklist :: ceremony_checklist where
  "sample_checklist = [\<lparr>cg_Name = ''accounts'', cg_Items = [\<lparr>ci_Key = ''domain'', ci_Prompt = ''p'', ci_Required = True\<rparr>]\<rparr>]"

definition sample_answers :: "string \<Rightarrow> ceremony_answer option" where
  "sample_answers = [''domain'' \<mapsto> \<lparr>cw_Resolved = True, cw_Evidence = ''e'', cw_Deferred = False, cw_Reason = [],
     cw_RevisitWhen = [], cw_Principal = ''p''\<rparr>]"

definition runtime_gate :: "int option \<Rightarrow> gate_event" where
  "runtime_gate resolved = \<lparr>ge_ID = ''g'', ge_MissionID = ''m'', ge_Action = ''captcha'', ge_OccurredAt = 5,
     ge_ResolvedAt = resolved, ge_Resolution = None\<rparr>"

lemma trim_space_e [simp]: "trim_space ''e'' = ''e''"
  by (rule trim_space_id) (simp_all add: space_seqs_def has_prefix_def has_suffix_def)

lemma trim_space_p [simp]: "trim_space ''p'' = ''p''"
  by (rule trim_space_id) (simp_all add: space_seqs_def has_prefix_def has_suffix_def)

lemma sample_resolved [simp]:
  "resolved_item sample_answers \<lparr>ci_Key = ''domain'', ci_Prompt = ''p'', ci_Required = True\<rparr>"
  by (simp add: resolved_item_def sample_answers_def)

theorem BuildMissionReadinessArtifact_certifies_witness:
  "\<exists>a b. BuildMissionReadinessArtifact (\<lambda>_. Some []) (\<lambda>s. s) ''m'' ''p'' sample_checklist sample_answers [runtime_gate (Some 9)] 10 = Inr a
     \<and> IsPassing a
     \<and> BuildMissionReadinessArtifact (\<lambda>_. Some []) (\<lambda>s. s) ''m'' ''p'' sample_checklist sample_answers [runtime_gate None] 10 = Inr b
     \<and> \<not> IsPassing b"
proof -
  have built: "\<exists>a. BuildMissionReadinessArtifact (\<lambda>_. Some []) (\<lambda>s. s) ''m'' ''p'' sample_checklist sample_answers [runtime_gate r] 10 = Inr a" for r
    by (simp add: BuildMissionReadinessArtifact_def Let_def sample_checklist_def checklist_item_def sample_answers_def readinessDigest_def)
  obtain a where a: "BuildMissionReadinessArtifact (\<lambda>_. Some []) (\<lambda>s. s) ''m'' ''p'' sample_checklist sample_answers [runtime_gate (Some 9)] 10 = Inr a"
    using built by blast
  obtain b where b: "BuildMissionReadinessArtifact (\<lambda>_. Some []) (\<lambda>s. s) ''m'' ''p'' sample_checklist sample_answers [runtime_gate None] 10 = Inr b"
    using built by blast
  show ?thesis
    using BuildMissionReadinessArtifact_certifies [OF a] BuildMissionReadinessArtifact_certifies [OF b] a b
    by (auto simp: sample_checklist_def runtime_gate_def)
qed

section \<open>Tables\<close>

text \<open>
  A JSON document is stored as its text; \<open>encode\<close> and \<open>decode\<close> are \<open>encoding/json\<close> for the
  document's type, with the normal form that Postgres returns. A statement may fail; then it
  has no effect. \<open>now()\<close> and the random bytes are part of the environment.
\<close>

record mission_row =
  mi_ID :: string
  mi_PrincipalID :: string
  mi_WorkflowID :: string
  mi_Contract :: string
  mi_CreatedAt :: int
  mi_UpdatedAt :: int

record mission =
  ms_ID :: string
  ms_PrincipalID :: string
  ms_WorkflowID :: string
  ms_Contract :: contract
  ms_CreatedAt :: int
  ms_UpdatedAt :: int

record state_snapshot =
  ss_MissionID :: string
  ss_Cycle :: int
  ss_NetMRRUSD :: f64
  ss_NoProgressCycles :: int
  ss_Confirming :: bool
  ss_ConfirmedSince :: "int option"
  ss_Status :: string
  ss_Reason :: string
  ss_ResultCode :: string
  ss_ObservedAt :: int

record loop_contract =
  lo_LoopName :: string
  lo_Trigger :: string
  lo_Cadence :: string
  lo_Authority :: string
  lo_Budget :: string
  lo_Metrics :: string
  lo_ExitCondition :: string

record readiness_row =
  rr_ID :: string
  rr_MissionID :: string
  rr_Readiness :: string
  rr_Artifact :: string
  rr_CreatedAt :: int

record mission_db =
  md_principals :: "string list"
  md_missions :: "mission_row list"
  md_states :: "(string \<times> state_snapshot) list"
  md_gates :: "gate_event list"
  md_loops :: "(string \<times> loop_contract) list"
  md_ready :: "readiness_row list"

record mission_env =
  me_fault :: bool
  me_hex :: "string option"
  me_now :: int

datatype mission_error =
    MErrNotFound | MErrNewID | MErrEncode | MErrDecode | MErrDB

definition mission_newID :: "mission_env \<Rightarrow> string \<Rightarrow> mission_error + string" where
  "mission_newID e prefix = (case me_hex e of None \<Rightarrow> Inl MErrNewID | Some h \<Rightarrow> Inr (prefix @ ''-'' @ h))"

definition CreateMission ::
  "(contract \<Rightarrow> string option) \<Rightarrow> mission_env \<Rightarrow> mission_db \<Rightarrow> mission \<Rightarrow> mission_error option \<times> mission_db" where
  "CreateMission encode e db m =
     (case encode (ms_Contract m) of
        None \<Rightarrow> (Some MErrEncode, db)
      | Some doc \<Rightarrow>
          if me_fault e \<or> ms_PrincipalID m \<notin> set (md_principals db)
             \<or> ms_ID m \<in> mi_ID ` set (md_missions db) \<or> ms_WorkflowID m \<in> mi_WorkflowID ` set (md_missions db)
          then (Some MErrDB, db)
          else (None, db\<lparr>md_missions := md_missions db @
                 [\<lparr>mi_ID = ms_ID m, mi_PrincipalID = ms_PrincipalID m, mi_WorkflowID = ms_WorkflowID m,
                   mi_Contract = doc, mi_CreatedAt = me_now e, mi_UpdatedAt = me_now e\<rparr>]\<rparr>))"

definition mission_of :: "(string \<Rightarrow> contract option) \<Rightarrow> mission_row \<Rightarrow> mission_error + mission" where
  "mission_of decode r =
     (case decode (mi_Contract r) of
        None \<Rightarrow> Inl MErrDecode
      | Some c \<Rightarrow> Inr \<lparr>ms_ID = mi_ID r, ms_PrincipalID = mi_PrincipalID r, ms_WorkflowID = mi_WorkflowID r,
          ms_Contract = c, ms_CreatedAt = mi_CreatedAt r, ms_UpdatedAt = mi_UpdatedAt r\<rparr>)"

definition GetMission ::
  "(string \<Rightarrow> contract option) \<Rightarrow> mission_env \<Rightarrow> mission_db \<Rightarrow> string \<Rightarrow> mission_error + mission" where
  "GetMission decode e db mid =
     (if me_fault e then Inl MErrDB
      else (case find (\<lambda>r. mi_ID r = mid) (md_missions db) of
              None \<Rightarrow> Inl MErrNotFound
            | Some r \<Rightarrow> mission_of decode r))"

text \<open>A value in the column \<open>net_mrr_usd NUMERIC(12, 4)\<close>; the type has NaN but no infinity.\<close>

definition numeric_col :: "f64 \<Rightarrow> f64 option" where
  "numeric_col v =
     (case v of
        Fin q \<Rightarrow> (case to_col (to_units q) of None \<Rightarrow> None | Some u \<Rightarrow> Some (Fin (of_int u / 10000)))
      | NaN \<Rightarrow> Some NaN
      | _ \<Rightarrow> None)"

definition recordStateWithID ::
  "mission_env \<Rightarrow> mission_db \<Rightarrow> string \<Rightarrow> state_snapshot \<Rightarrow> bool \<Rightarrow> mission_error option \<times> mission_db" where
  "recordStateWithID e db sid snap idempotent =
     (case numeric_col (ss_NetMRRUSD snap) of
        None \<Rightarrow> (Some MErrDB, db)
      | Some mrr \<Rightarrow>
          if me_fault e then (Some MErrDB, db)
          else if sid \<in> fst ` set (md_states db) then ((if idempotent then None else Some MErrDB), db)
          else if ss_MissionID snap \<notin> mi_ID ` set (md_missions db) then (Some MErrDB, db)
          else (None, db\<lparr>md_states := md_states db @ [(sid, snap\<lparr>ss_NetMRRUSD := mrr\<rparr>)]\<rparr>))"

definition RecordState :: "mission_env \<Rightarrow> mission_db \<Rightarrow> state_snapshot \<Rightarrow> mission_error option \<times> mission_db" where
  "RecordState e db snap =
     (case mission_newID e ''mstate'' of
        Inl err \<Rightarrow> (Some err, db)
      | Inr sid \<Rightarrow> recordStateWithID e db sid snap False)"

definition RecordStateWithID ::
  "mission_env \<Rightarrow> mission_db \<Rightarrow> string \<Rightarrow> state_snapshot \<Rightarrow> mission_error option \<times> mission_db" where
  "RecordStateWithID e db sid snap = recordStateWithID e db sid snap True"

definition RegisterLoopContract ::
  "mission_env \<Rightarrow> (string \<Rightarrow> bool) \<Rightarrow> mission_db \<Rightarrow> loop_contract \<Rightarrow> mission_error option \<times> mission_db" where
  "RegisterLoopContract e is_json db lc =
     (case mission_newID e ''loopc'' of
        Inl err \<Rightarrow> (Some err, db)
      | Inr lid \<Rightarrow>
          if me_fault e \<or> \<not> is_json (lo_Budget lc) \<or> \<not> is_json (lo_Metrics lc) then (Some MErrDB, db)
          else if lo_LoopName lc \<in> (lo_LoopName \<circ> snd) ` set (md_loops db) then (None, db)
          else if lid \<in> fst ` set (md_loops db) then (Some MErrDB, db)
          else (None, db\<lparr>md_loops := md_loops db @ [(lid, lc)]\<rparr>))"

definition HasLoopContract :: "mission_env \<Rightarrow> mission_db \<Rightarrow> string \<Rightarrow> mission_error + bool" where
  "HasLoopContract e db name =
     (if me_fault e then Inl MErrDB else Inr (name \<in> (lo_LoopName \<circ> snd) ` set (md_loops db)))"

definition insert_gate :: "mission_db \<Rightarrow> string \<Rightarrow> string \<Rightarrow> string \<Rightarrow> int \<Rightarrow> mission_db" where
  "insert_gate db gid mid action t =
     db\<lparr>md_gates := md_gates db @ [\<lparr>ge_ID = gid, ge_MissionID = mid, ge_Action = action, ge_OccurredAt = t,
                                   ge_ResolvedAt = None, ge_Resolution = None\<rparr>]\<rparr>"

definition Store_RecordGateEvent ::
  "mission_env \<Rightarrow> mission_db \<Rightarrow> string \<Rightarrow> string \<Rightarrow> int \<Rightarrow> (mission_error + string) \<times> mission_db" where
  "Store_RecordGateEvent e db mid action t =
     (case mission_newID e ''gate'' of
        Inl err \<Rightarrow> (Inl err, db)
      | Inr gid \<Rightarrow>
          if me_fault e \<or> gid \<in> ge_ID ` set (md_gates db) \<or> mid \<notin> mi_ID ` set (md_missions db)
          then (Inl MErrDB, db)
          else (Inr gid, insert_gate db gid mid action t))"

definition RecordGateEventWithID ::
  "mission_env \<Rightarrow> mission_db \<Rightarrow> string \<Rightarrow> string \<Rightarrow> string \<Rightarrow> int \<Rightarrow> mission_error option \<times> mission_db" where
  "RecordGateEventWithID e db gid mid action t =
     (if me_fault e then (Some MErrDB, db)
      else if gid \<in> ge_ID ` set (md_gates db) then (None, db)
      else if mid \<notin> mi_ID ` set (md_missions db) then (Some MErrDB, db)
      else (None, insert_gate db gid mid action t))"

definition Store_ResolveGateEvent ::
  "mission_env \<Rightarrow> mission_db \<Rightarrow> string \<Rightarrow> string \<Rightarrow> int \<Rightarrow> mission_error option \<times> mission_db" where
  "Store_ResolveGateEvent e db gid resolution t =
     (if me_fault e then (Some MErrDB, db)
      else if gid \<notin> ge_ID ` set (md_gates db) then (Some MErrNotFound, db)
      else (None, db\<lparr>md_gates := map (\<lambda>g. if ge_ID g = gid
              then g\<lparr>ge_ResolvedAt := Some t, ge_Resolution := Some resolution\<rparr> else g) (md_gates db)\<rparr>))"

definition ListGateEvents :: "mission_env \<Rightarrow> mission_db \<Rightarrow> string \<Rightarrow> mission_error + gate_event list" where
  "ListGateEvents e db mid =
     (if me_fault e then Inl MErrDB
      else Inr (sort_key ge_OccurredAt (filter (\<lambda>g. ge_MissionID g = mid) (md_gates db))))"

definition SaveReadinessArtifact ::
  "(readiness_artifact \<Rightarrow> string option) \<Rightarrow> mission_env \<Rightarrow> mission_db \<Rightarrow> readiness_artifact \<Rightarrow> mission_error option \<times> mission_db" where
  "SaveReadinessArtifact encode e db a =
     (case mission_newID e ''mready'' of
        Inl err \<Rightarrow> (Some err, db)
      | Inr rid \<Rightarrow>
          (case encode a of
             None \<Rightarrow> (Some MErrEncode, db)
           | Some doc \<Rightarrow>
               if me_fault e \<or> rid \<in> rr_ID ` set (md_ready db) \<or> ra_MissionID a \<notin> mi_ID ` set (md_missions db)
                  \<or> ra_Readiness a \<notin> {ReadinessPass, ReadinessFail}
               then (Some MErrDB, db)
               else (None, db\<lparr>md_ready := md_ready db @ [\<lparr>rr_ID = rid, rr_MissionID = ra_MissionID a,
                       rr_Readiness = ra_Readiness a, rr_Artifact = doc, rr_CreatedAt = me_now e\<rparr>]\<rparr>)))"

text \<open>
  \<open>ORDER BY created_at DESC LIMIT 1\<close>: any of the latest rows; \<open>pick\<close> is Postgres' choice.
\<close>

definition latest_ready :: "mission_db \<Rightarrow> string \<Rightarrow> readiness_row list" where
  "latest_ready db mid =
     (let rows = filter (\<lambda>r. rr_MissionID r = mid) (md_ready db) in
      filter (\<lambda>r. list_all (\<lambda>q. rr_CreatedAt q \<le> rr_CreatedAt r) rows) rows)"

definition LatestReadinessArtifact ::
  "(string \<Rightarrow> readiness_artifact option) \<Rightarrow> (readiness_row list \<Rightarrow> readiness_row) \<Rightarrow> mission_env \<Rightarrow> mission_db \<Rightarrow> string
     \<Rightarrow> mission_error + (string \<times> readiness_artifact \<times> int)" where
  "LatestReadinessArtifact decode pick e db mid =
     (if me_fault e then Inl MErrDB
      else (case latest_ready db mid of
              [] \<Rightarrow> Inl MErrNotFound
            | rows \<Rightarrow>
                (let r = pick rows in
                 case decode (rr_Artifact r) of
                   None \<Rightarrow> Inl MErrDecode
                 | Some a \<Rightarrow> Inr (rr_ID r, a, rr_CreatedAt r))))"

definition HasPassingReadinessArtifact :: "mission_env \<Rightarrow> mission_db \<Rightarrow> string \<Rightarrow> mission_error + bool" where
  "HasPassingReadinessArtifact e db mid =
     (if me_fault e then Inl MErrDB
      else Inr (list_ex (\<lambda>r. rr_MissionID r = mid \<and> rr_Readiness r = ReadinessPass) (md_ready db)))"

text \<open>The latest state of a mission: \<open>ORDER BY observed_at DESC, id DESC LIMIT 1\<close>.\<close>

definition latest_state_row :: "mission_db \<Rightarrow> string \<Rightarrow> (string \<times> state_snapshot) option" where
  "latest_state_row db mid =
     (case sort_key (\<lambda>(sid, s). (ss_ObservedAt s, sid)) (filter (\<lambda>(sid, s). ss_MissionID s = mid) (md_states db)) of
        [] \<Rightarrow> None
      | rows \<Rightarrow> Some (last rows))"

definition LatestState :: "mission_env \<Rightarrow> mission_db \<Rightarrow> string \<Rightarrow> mission_error + state_snapshot" where
  "LatestState e db mid =
     (if me_fault e then Inl MErrDB
      else (case latest_state_row db mid of None \<Rightarrow> Inl MErrNotFound | Some (sid, s) \<Rightarrow> Inr s))"

record mission_filter =
  mf_Status :: string
  mf_Profile :: string
  mf_PrincipalID :: string
  mf_Limit :: int
  mf_Offset :: int

record mission_list_item =
  ml_Mission :: mission
  ml_Status :: string
  ml_Reason :: string
  ml_Cycle :: int
  ml_ObservedAt :: "int option"

definition list_item :: "mission_db \<Rightarrow> mission_row \<Rightarrow> mission \<Rightarrow> mission_list_item" where
  "list_item db r m =
     (case latest_state_row db (mi_ID r) of
        None \<Rightarrow> \<lparr>ml_Mission = m, ml_Status = [], ml_Reason = [], ml_Cycle = 0, ml_ObservedAt = None\<rparr>
      | Some (sid, s) \<Rightarrow> \<lparr>ml_Mission = m, ml_Status = ss_Status s, ml_Reason = ss_Reason s, ml_Cycle = ss_Cycle s,
          ml_ObservedAt = Some (ss_ObservedAt s)\<rparr>)"

definition listed :: "mission_db \<Rightarrow> mission_filter \<Rightarrow> mission_row \<Rightarrow> bool" where
  "listed db f r =
     ((mf_Status f = [] \<or> (case latest_state_row db (mi_ID r) of None \<Rightarrow> False | Some (sid, s) \<Rightarrow> ss_Status s = mf_Status f))
      \<and> (mf_PrincipalID f = [] \<or> mi_PrincipalID r = mf_PrincipalID f))"

fun scan_missions ::
  "(string \<Rightarrow> contract option) \<Rightarrow> mission_db \<Rightarrow> mission_row list \<Rightarrow> mission_error + mission_list_item list" where
  "scan_missions decode db [] = Inr []"
| "scan_missions decode db (r # rs) =
     (case mission_of decode r of
        Inl err \<Rightarrow> Inl err
      | Inr m \<Rightarrow>
          (case scan_missions decode db rs of
             Inl err \<Rightarrow> Inl err
           | Inr items \<Rightarrow> Inr (list_item db r m # items)))"

definition ListMissions ::
  "(string \<Rightarrow> contract option) \<Rightarrow> mission_env \<Rightarrow> mission_db \<Rightarrow> mission_filter \<Rightarrow> mission_error + mission_list_item list" where
  "ListMissions decode e db f =
     (let limit = (if mf_Limit f \<le> 0 then 50 else mf_Limit f) in
      if me_fault e \<or> mf_Offset f < 0 then Inl MErrDB
      else scan_missions decode db
        (take (nat limit) (drop (nat (mf_Offset f))
          (rev (sort_key (\<lambda>r. (mi_CreatedAt r, mi_ID r)) (filter (listed db f) (md_missions db)))))))"

section \<open>What the store keeps\<close>

lemma sort_key_Nil_iff: "sort_key f rows = [] \<longleftrightarrow> rows = []"
  by (metis set_empty set_sort)

lemma latest_state_row_None:
  "latest_state_row db mid = None \<longleftrightarrow> list_all (\<lambda>(sid, s). ss_MissionID s \<noteq> mid) (md_states db)"
proof -
  have "latest_state_row db mid = None \<longleftrightarrow> filter (\<lambda>(sid, s). ss_MissionID s = mid) (md_states db) = []"
    unfolding latest_state_row_def
    using sort_key_Nil_iff [of "\<lambda>(sid, s). (ss_ObservedAt s, sid)" "filter (\<lambda>(sid, s). ss_MissionID s = mid) (md_states db)"]
    by (auto split: list.split)
  then show ?thesis by (simp add: filter_empty_conv list_all_iff case_prod_beta)
qed

lemma last_sort_key_max: "r \<in> set rows \<Longrightarrow> f r \<le> f (last (sort_key f rows))"
  using sorted_le_last [of "map f (sort_key f rows)" "f r"]
  by (cases "rows = []") (simp_all add: last_map sort_key_Nil_iff)

text \<open>
  the latest recorded state is the one with the latest observation: \<open>LatestState\<close> returns a
  recorded state of the mission that no other recorded state of it is later than, and it
  reports \<open>not found\<close> exactly when the mission has none.
\<close>

theorem LatestState_latest:
  assumes "\<not> me_fault e"
  shows "case LatestState e db mid of
      Inl err \<Rightarrow> err = MErrNotFound \<and> list_all (\<lambda>(sid, s). ss_MissionID s \<noteq> mid) (md_states db)
    | Inr s \<Rightarrow> ss_MissionID s = mid \<and> s \<in> snd ` set (md_states db)
        \<and> list_all (\<lambda>(sid, q). ss_MissionID q = mid \<longrightarrow> ss_ObservedAt q \<le> ss_ObservedAt s) (md_states db)"
proof (cases "latest_state_row db mid")
  case None
  then show ?thesis using assms latest_state_row_None [of db mid] by (simp add: LatestState_def)
next
  case (Some row)
  obtain sid s where row: "row = (sid, s)" by (cases row)
  let ?key = "\<lambda>(sid, s). (ss_ObservedAt s, sid)"
  let ?rows = "filter (\<lambda>(sid, s). ss_MissionID s = mid) (md_states db)"
  have last: "(sid, s) = last (sort_key ?key ?rows)" and ne: "sort_key ?key ?rows \<noteq> []"
    using Some row by (auto simp: latest_state_row_def split: list.splits)
  have "(sid, s) \<in> set ?rows" unfolding last using ne by (metis last_in_set set_sort)
  moreover have "ss_ObservedAt q \<le> ss_ObservedAt s" if "(qid, q) \<in> set ?rows" for qid q
    using last_sort_key_max [OF that, of ?key] unfolding last [symmetric] by auto
  ultimately show ?thesis
    using assms Some row by (auto simp: LatestState_def list_all_iff intro: rev_image_eqI)
qed

text \<open>A passing artifact is never outlived: a later failing ceremony does not withdraw it.\<close>

theorem HasPassing_stays:
  assumes "HasPassingReadinessArtifact e db mid = Inr True" and "\<not> me_fault e'"
  shows "HasPassingReadinessArtifact e' (snd (SaveReadinessArtifact encode e2 db a)) mid = Inr True"
  using assms
  by (auto simp: HasPassingReadinessArtifact_def SaveReadinessArtifact_def split: if_splits sum.splits option.splits)

section \<open>Activities\<close>

definition deterministicID :: "(string \<Rightarrow> string) \<Rightarrow> string \<Rightarrow> string \<Rightarrow> int \<Rightarrow> string" where
  "deterministicID sha256hex prefix workflowID iteration =
     prefix @ ''-'' @ take 24 (sha256hex (prefix @ ''|'' @ workflowID @ ''|'' @ show_int iteration))"

definition missionReceiptKey :: "string \<Rightarrow> int \<Rightarrow> int \<Rightarrow> string \<Rightarrow> string" where
  "missionReceiptKey workflowID iteration attempt activity =
     IdempotencyKey_String \<lparr>ik_WorkflowID = workflowID, ik_TaskID = ''iter-'' @ show_int iteration,
       ik_Activity = activity, ik_Attempt = attempt\<rparr>"

definition loopName :: "string \<Rightarrow> string" where
  "loopName missionID = ''mission:'' @ missionID"

datatype activity_error = NoLoopContract string | NoReadiness string | ActivityDB mission_error | ActivityCost cost_error

definition RequireLoopContract :: "mission_env \<Rightarrow> mission_db \<Rightarrow> string \<Rightarrow> activity_error option" where
  "RequireLoopContract e db missionID =
     (case HasLoopContract e db (loopName missionID) of
        Inl err \<Rightarrow> Some (ActivityDB err)
      | Inr ok \<Rightarrow> if \<not> ok then Some (NoLoopContract missionID) else None)"

definition RequireReadiness :: "mission_env \<Rightarrow> mission_db \<Rightarrow> string \<Rightarrow> activity_error option" where
  "RequireReadiness e db missionID =
     (case HasPassingReadinessArtifact e db missionID of
        Inl err \<Rightarrow> Some (ActivityDB err)
      | Inr ok \<Rightarrow> if \<not> ok then Some (NoReadiness missionID) else None)"

text \<open>The zero instant asks for the clock.\<close>

definition ObserveLedger ::
  "(string \<Rightarrow> int \<Rightarrow> string + ledger_sample) \<Rightarrow> int option \<Rightarrow> int \<Rightarrow> string \<Rightarrow> string + ledger_sample" where
  "ObserveLedger observe inAt clock missionID =
     (let t = (case inAt of None \<Rightarrow> clock | Some t \<Rightarrow> t) in
      case observe missionID t of Inl err \<Rightarrow> Inl err | Inr sample \<Rightarrow> Inr sample)"

text \<open>
  \<open>t.Format("2006-01")\<close>, for the instant \<open>t\<close> in a zone that is \<open>zone\<close> seconds east: the civil
  year and month of a day number (from 1970-01-01), in the proleptic Gregorian calendar.
\<close>

definition civil_month :: "int \<Rightarrow> int \<times> int" where
  "civil_month days =
     (let z = days + 719468; era = z div 146097; doe = z - era * 146097;
          yoe = (doe - doe div 1460 + doe div 36524 - doe div 146096) div 365;
          doy = doe - (365 * yoe + yoe div 4 - yoe div 100);
          mp = (5 * doy + 2) div 153; m = (if mp < 10 then mp + 3 else mp - 9) in
      (yoe + era * 400 + (if m \<le> 2 then 1 else 0), m))"

definition pad_left :: "nat \<Rightarrow> string \<Rightarrow> string" where
  "pad_left n s = replicate (n - length s) (CHR ''0'') @ s"

definition currentPeriod :: "int \<Rightarrow> int \<Rightarrow> string" where
  "currentPeriod zone t =
     (let (y, m) = civil_month ((t + zone * 1000000000) div 86400000000000) in
      pad_left 4 (show_int y) @ ''-'' @ pad_left 2 (show_int m))"

abbreviation KindExperiment :: budget_kind where "KindExperiment \<equiv> ''experiment''"
abbreviation experimentBudgetPeriod :: string where "experimentBudgetPeriod \<equiv> ''lifetime''"

text \<open>
  The columns are read into \<open>float64\<close>, which \<open>usd\<close> stands for; \<open>goadd\<close> and \<open>gosub\<close> are the
  processor's sum and difference.
\<close>

definition budget_used_up ::
  "(int \<Rightarrow> rat) \<Rightarrow> (rat \<Rightarrow> rat \<Rightarrow> rat) \<Rightarrow> (rat \<Rightarrow> rat \<Rightarrow> rat) \<Rightarrow> budget \<Rightarrow> bool" where
  "budget_used_up usd goadd gosub b =
     (gosub (usd (bg_Ceiling b)) (goadd (usd (bg_Reserved b)) (usd (bg_Incurred b))) \<le> 0)"

definition CheckBudget ::
  "(int \<Rightarrow> rat) \<Rightarrow> (rat \<Rightarrow> rat \<Rightarrow> rat) \<Rightarrow> (rat \<Rightarrow> rat \<Rightarrow> rat) \<Rightarrow> cost_env \<Rightarrow> cost_env \<Rightarrow> int \<Rightarrow> cost_db \<Rightarrow> string
     \<Rightarrow> activity_error + loop_signal" where
  "CheckBudget usd goadd gosub e1 e2 zone db missionID =
     (let monthly =
            (case GetBudget e1 db ScopeMission missionID KindMissionMonthly (currentPeriod zone (cv_now e1)) of
               Inl err \<Rightarrow>
                 if err = ErrBudgetNotFound
                 then Inr (clear_signal\<lparr>sg_MonthlyBudgetExhausted := True, sg_NoBudgetEnvelope := True\<rparr>)
                 else Inl (ActivityCost err)
             | Inr b \<Rightarrow> Inr (clear_signal\<lparr>sg_MonthlyBudgetExhausted := budget_used_up usd goadd gosub b\<rparr>)) in
      case monthly of
        Inl err \<Rightarrow> Inl err
      | Inr sig \<Rightarrow>
          (case GetBudget e2 db ScopeMission missionID KindExperiment experimentBudgetPeriod of
             Inl err \<Rightarrow> if err = ErrBudgetNotFound then Inr sig else Inl (ActivityCost err)
           | Inr b \<Rightarrow> Inr (sig\<lparr>sg_TotalBudgetExhausted := budget_used_up usd goadd gosub b\<rparr>)))"

text \<open>
  The receipt-guarded activities: \<open>get\<close> and \<open>put\<close> are the receipt store, \<open>marshal\<close> and
  \<open>unmarshal\<close> JSON for the result.
\<close>

record append_in =
  ai_WorkflowID :: string
  ai_Transition :: transition

definition AppendMissionTransition ::
  "(receipt_env \<Rightarrow> 's \<Rightarrow> string \<Rightarrow> store_error + string option)
     \<Rightarrow> (receipt_env \<Rightarrow> 's \<Rightarrow> string \<Rightarrow> string \<Rightarrow> store_error option \<times> 's)
     \<Rightarrow> (unit \<Rightarrow> string option) \<Rightarrow> (string \<Rightarrow> unit option)
     \<Rightarrow> (bool \<Rightarrow> 't \<Rightarrow> string \<Rightarrow> transition \<Rightarrow> (append_error + int) \<times> 't) \<Rightarrow> bool \<Rightarrow> receipt_env \<Rightarrow> append_in
     \<Rightarrow> 's \<times> 't \<Rightarrow> (append_error receipt_error + unit) \<times> 's \<times> 't" where
  "AppendMissionTransition get put marshal unmarshal append_tr fault re i st =
     (let t = ai_Transition i;
          key = ''mtrans|'' @ ai_WorkflowID i @ ''|'' @ status_string (tr_Status t) @ ''|'' @ tr_Reason t @ ''|''
                @ tr_ResultCode t @ ''|'' @ show_int (tr_OccurredAt t) in
      withReceipt get put marshal unmarshal re key
        (\<lambda>w. case append_tr fault w (ai_WorkflowID i) t of
               (Inl err, w') \<Rightarrow> (Inl err, w')
             | (Inr n, w') \<Rightarrow> (Inr (), w')) st)"

record mission_state_in =
  mt_WorkflowID :: string
  mt_LoopIteration :: int
  mt_Attempt :: int
  mt_MissionID :: string
  mt_EvalState :: eval_state
  mt_Sample :: ledger_sample
  mt_Outcome :: outcome
  mt_At :: int

definition snapshot_of :: "(f64 \<Rightarrow> f64 \<Rightarrow> f64) \<Rightarrow> mission_state_in \<Rightarrow> state_snapshot" where
  "snapshot_of fsub i =
     \<lparr>ss_MissionID = mt_MissionID i, ss_Cycle = es_Cycles (mt_EvalState i), ss_NetMRRUSD = NetMRRUSD fsub (mt_Sample i),
      ss_NoProgressCycles = es_NoProgressCycles (mt_EvalState i),
      ss_Confirming = (es_ConfirmedSince (mt_EvalState i) \<noteq> None), ss_ConfirmedSince = es_ConfirmedSince (mt_EvalState i),
      ss_Status = status_string (oc_Status (mt_Outcome i)), ss_Reason = oc_Reason (mt_Outcome i),
      ss_ResultCode = oc_ResultCode (mt_Outcome i), ss_ObservedAt = mt_At i\<rparr>"

text \<open>The result of a store call without a value, as the body of a receipt-guarded activity.\<close>

definition unit_result :: "mission_error option \<times> 'w \<Rightarrow> (mission_error + unit) \<times> 'w" where
  "unit_result r = (case r of (None, w) \<Rightarrow> (Inr (), w) | (Some err, w) \<Rightarrow> (Inl err, w))"

definition RecordMissionState ::
  "(receipt_env \<Rightarrow> 's \<Rightarrow> string \<Rightarrow> store_error + string option)
     \<Rightarrow> (receipt_env \<Rightarrow> 's \<Rightarrow> string \<Rightarrow> string \<Rightarrow> store_error option \<times> 's)
     \<Rightarrow> (unit \<Rightarrow> string option) \<Rightarrow> (string \<Rightarrow> unit option) \<Rightarrow> (f64 \<Rightarrow> f64 \<Rightarrow> f64) \<Rightarrow> (string \<Rightarrow> string)
     \<Rightarrow> mission_env \<Rightarrow> receipt_env \<Rightarrow> mission_state_in \<Rightarrow> 's \<times> mission_db
     \<Rightarrow> (mission_error receipt_error + unit) \<times> 's \<times> mission_db" where
  "RecordMissionState get put marshal unmarshal fsub sha256hex e re i st =
     (let stateID = deterministicID sha256hex ''mstate'' (mt_WorkflowID i) (mt_LoopIteration i);
          key = missionReceiptKey (mt_WorkflowID i) (mt_LoopIteration i) (mt_Attempt i) ''MissionRecordState'' in
      withReceipt get put marshal unmarshal re key
        (\<lambda>db. unit_result (RecordStateWithID e db stateID (snapshot_of fsub i))) st)"

record gate_event_in =
  gi_WorkflowID :: string
  gi_LoopIteration :: int
  gi_Attempt :: int
  gi_GateEventID :: string
  gi_MissionID :: string
  gi_Action :: string
  gi_OccurredAt :: "int option"

definition RecordGateEvent ::
  "(receipt_env \<Rightarrow> 's \<Rightarrow> string \<Rightarrow> store_error + string option)
     \<Rightarrow> (receipt_env \<Rightarrow> 's \<Rightarrow> string \<Rightarrow> string \<Rightarrow> store_error option \<times> 's)
     \<Rightarrow> (string \<Rightarrow> string option) \<Rightarrow> (string \<Rightarrow> string option) \<Rightarrow> (string \<Rightarrow> string)
     \<Rightarrow> mission_env \<Rightarrow> receipt_env \<Rightarrow> int \<Rightarrow> gate_event_in \<Rightarrow> 's \<times> mission_db
     \<Rightarrow> (mission_error receipt_error + string) \<times> 's \<times> mission_db" where
  "RecordGateEvent get put marshal unmarshal sha256hex e re clock i st =
     (let action = (if trim_space (gi_Action i) = [] then PauseUnforeseenHumanGate else gi_Action i);
          t = (case gi_OccurredAt i of None \<Rightarrow> clock | Some t \<Rightarrow> t);
          gateID = (if gi_GateEventID i = [] then deterministicID sha256hex ''gate'' (gi_WorkflowID i) (gi_LoopIteration i)
                    else gi_GateEventID i);
          key = missionReceiptKey (gi_WorkflowID i) (gi_LoopIteration i) (gi_Attempt i) ''MissionRecordGateEvent'' in
      withReceipt get put marshal unmarshal re key
        (\<lambda>db. case RecordGateEventWithID e db gateID (gi_MissionID i) action t of
                (Some err, db') \<Rightarrow> (Inl err, db')
              | (None, db') \<Rightarrow> (Inr gateID, db')) st)"

record resolve_gate_in =
  rg_WorkflowID :: string
  rg_LoopIteration :: int
  rg_Attempt :: int
  rg_GateEventID :: string
  rg_Resolution :: string
  rg_ResolvedAt :: "int option"

definition ResolveGateEvent ::
  "(receipt_env \<Rightarrow> 's \<Rightarrow> string \<Rightarrow> store_error + string option)
     \<Rightarrow> (receipt_env \<Rightarrow> 's \<Rightarrow> string \<Rightarrow> string \<Rightarrow> store_error option \<times> 's)
     \<Rightarrow> (unit \<Rightarrow> string option) \<Rightarrow> (string \<Rightarrow> unit option)
     \<Rightarrow> mission_env \<Rightarrow> receipt_env \<Rightarrow> int \<Rightarrow> resolve_gate_in \<Rightarrow> 's \<times> mission_db
     \<Rightarrow> (mission_error receipt_error + unit) \<times> 's \<times> mission_db" where
  "ResolveGateEvent get put marshal unmarshal e re clock i st =
     (let t = (case rg_ResolvedAt i of None \<Rightarrow> clock | Some t \<Rightarrow> t);
          key = missionReceiptKey (rg_WorkflowID i) (rg_LoopIteration i) (rg_Attempt i) ''MissionResolveGateEvent'' in
      withReceipt get put marshal unmarshal re key
        (\<lambda>db. unit_result (Store_ResolveGateEvent e db (rg_GateEventID i) (rg_Resolution i) t)) st)"

section \<open>What the activities guarantee\<close>

text \<open>
  an unattended mission is never unmetered. Whatever the ledger sample says, a mission with
  no monthly envelope for the current period is paused or failed by its evaluation: it neither
  continues nor succeeds.
\<close>

theorem no_envelope_never_runs:
  assumes "CheckBudget usd goadd gosub e1 e2 zone db missionID = Inr sig"
    and "find_budget db ScopeMission missionID KindMissionMonthly (currentPeriod zone (cv_now e1)) = None"
  shows "oc_Status (fst (Mission_Evaluate fsub fraction c st s sig)) \<in> {StatusWaiting, StatusFailed}
    \<and> \<not> oc_Continue (fst (Mission_Evaluate fsub fraction c st s sig))
    \<and> snd (Mission_Evaluate fsub fraction c st s sig) = st"
proof -
  have "GetBudget e1 db ScopeMission missionID KindMissionMonthly (currentPeriod zone (cv_now e1)) \<in> {Inl ErrDB, Inl ErrBudgetNotFound}"
    using assms(2) by (simp add: GetBudget_def)
  then have "sg_MonthlyBudgetExhausted sig" and "\<not> sg_PolicyTerminated sig"
    using assms(1) by (auto simp: CheckBudget_def clear_signal_def Let_def split: sum.splits if_splits)
  then show ?thesis by (auto simp: Mission_Evaluate_def outcome_of_def)
qed

definition quiet_cost_env :: cost_env where
  "quiet_cost_env = \<lparr>cv_hex = Some ''00'', cv_now = 0, cv_fault = False\<rparr>"

theorem no_envelope_never_runs_witness:
  "\<not> oc_Continue (fst (Mission_Evaluate exact_sub no_fraction (sample_contract ''1d'') fresh_eval (paying 0 100)
      (clear_signal\<lparr>sg_MonthlyBudgetExhausted := True, sg_NoBudgetEnvelope := True\<rparr>)))"
proof -
  have "CheckBudget (\<lambda>c. of_int c / 10000) (+) (-) quiet_cost_env quiet_cost_env 0 empty_db ''m''
      = Inr (clear_signal\<lparr>sg_MonthlyBudgetExhausted := True, sg_NoBudgetEnvelope := True\<rparr>)"
    by (simp add: CheckBudget_def GetBudget_def quiet_cost_env_def find_budget_def empty_db_def)
  from no_envelope_never_runs [OF this, of exact_sub no_fraction "sample_contract ''1d''" fresh_eval "paying 0 100"]
  show ?thesis by (simp add: find_budget_def empty_db_def)
qed

text \<open>
  Floating point hides an exhausted envelope: with a ceiling of 0.80 of which 0.70 is reserved
  and 0.10 incurred, the double-precision remainder is \<open>2 ^ -53\<close>, and the envelope does not
  count as exhausted. The rationals are the values of the IEEE doubles.
\<close>

definition double_usd :: "int \<Rightarrow> rat" where
  "double_usd c =
     (if c = 8000 then 3602879701896397 / 2 ^ 52 else if c = 7000 then 6305039478318694 / 2 ^ 53
      else if c = 1000 then 3602879701896397 / 2 ^ 55 else of_int c / 10000)"

definition double_add :: "rat \<Rightarrow> rat \<Rightarrow> rat" where
  "double_add a b =
     (if a = 6305039478318694 / 2 ^ 53 \<and> b = 3602879701896397 / 2 ^ 55 then 7205759403792793 / 2 ^ 53 else a + b)"

theorem budget_used_up_rounding:
  "bg_Ceiling b = 8000 \<Longrightarrow> bg_Reserved b = 7000 \<Longrightarrow> bg_Incurred b = 1000 \<Longrightarrow>
     \<not> budget_used_up double_usd double_add (-) b
     \<and> \<bar>double_add (double_usd 7000) (double_usd 1000) - (double_usd 7000 + double_usd 1000)\<bar> \<le> 1 / 2 ^ 54"
  by (simp add: budget_used_up_def double_usd_def double_add_def)

text \<open>
  a mission activity takes effect once per workflow and iteration. After a state was
  recorded successfully, and whatever other guarded activities ran in between, recording
  another state under the same workflow id, iteration and attempt changes no row.
\<close>

theorem RecordMissionState_once:
  fixes marshal :: "unit \<Rightarrow> string option"
  assumes "RecordMissionState PGReceiptStore_Get (PGReceiptStore_Put jsonb) marshal unmarshal fsub sha256hex e re i (s, db)
      = (Inr (), s1, db1)"
    and "json_round_trips marshal jsonb unmarshal"
    and "receipt_history PGReceiptStore_Get (PGReceiptStore_Put jsonb) marshal unmarshal calls (s1, db1) = (s2, db2)"
    and "mt_WorkflowID j = mt_WorkflowID i" and "mt_LoopIteration j = mt_LoopIteration i" and "mt_Attempt j = mt_Attempt i"
  shows "snd (snd (RecordMissionState PGReceiptStore_Get (PGReceiptStore_Put jsonb) marshal unmarshal fsub sha256hex e' re' j (s2, db2)))
    = db2"
proof -
  let ?key = "missionReceiptKey (mt_WorkflowID i) (mt_LoopIteration i) (mt_Attempt i) ''MissionRecordState''"
  have "\<exists>res. withReceipt PGReceiptStore_Get (PGReceiptStore_Put jsonb) marshal unmarshal re' ?key
      (\<lambda>db. unit_result (RecordStateWithID e' db (deterministicID sha256hex ''mstate'' (mt_WorkflowID j) (mt_LoopIteration j))
        (snapshot_of fsub j))) (s2, db2) = (res, s2, db2) \<and> (\<not> re_get_fault re' \<longrightarrow> res = Inr ())"
    using assms(1-3) unfolding RecordMissionState_def Let_def by (rule pg_receipts.at_most_once)
  then show ?thesis using assms(4-6) by (auto simp: RecordMissionState_def)
qed

definition one_mission :: mission_db where
  "one_mission = \<lparr>md_principals = [''p''], md_missions = [\<lparr>mi_ID = ''m'', mi_PrincipalID = ''p'', mi_WorkflowID = ''w'',
     mi_Contract = ''{}'', mi_CreatedAt = 0, mi_UpdatedAt = 0\<rparr>], md_states = [], md_gates = [], md_loops = [], md_ready = []\<rparr>"

definition quiet_env :: mission_env where
  "quiet_env = \<lparr>me_fault = False, me_hex = Some ''00'', me_now = 0\<rparr>"

definition cycle_record :: "int \<Rightarrow> rat \<Rightarrow> mission_state_in" where
  "cycle_record t usd = \<lparr>mt_WorkflowID = ''w'', mt_LoopIteration = 1, mt_Attempt = 0, mt_MissionID = ''m'',
     mt_EvalState = fresh_eval, mt_Sample = paying t usd, mt_Outcome = continue_outcome, mt_At = t\<rparr>"

lemma numeric_col_zero [simp]: "numeric_col (Fin 0) = Some (Fin 0)"
proof -
  have "\<lfloor>1 / 2 :: rat\<rfloor> = 0" by (simp add: floor_eq_iff)
  then show ?thesis by (simp add: numeric_col_def to_col_def to_units_def round_half_away_def)
qed

theorem RecordMissionState_once_witness:
  "\<exists>s1 db1. RecordMissionState PGReceiptStore_Get (PGReceiptStore_Put Some) (\<lambda>_. Some ''{}'') (\<lambda>_. Some ()) exact_sub (\<lambda>s. s)
        quiet_env no_fault (cycle_record 0 0) (Map.empty, one_mission) = (Inr (), s1, db1)
     \<and> length (md_states db1) = 1
     \<and> snd (snd (RecordMissionState PGReceiptStore_Get (PGReceiptStore_Put Some) (\<lambda>_. Some ''{}'') (\<lambda>_. Some ()) exact_sub (\<lambda>s. s)
          quiet_env no_fault (cycle_record 900 500) (s1, db1))) = db1"
proof -
  obtain s1 db1 where 1: "RecordMissionState PGReceiptStore_Get (PGReceiptStore_Put Some) (\<lambda>_. Some ''{}'') (\<lambda>_. Some ()) exact_sub (\<lambda>s. s)
        quiet_env no_fault (cycle_record 0 0) (Map.empty, one_mission) = (Inr (), s1, db1)"
    and 2: "length (md_states db1) = 1"
    by (simp add: RecordMissionState_def withReceipt_def PGReceiptStore_Get_def PGReceiptStore_Put_def no_fault_def
        unit_result_def RecordStateWithID_def recordStateWithID_def quiet_env_def one_mission_def cycle_record_def
        snapshot_of_def NetMRRUSD_def paying_def)
  have 3: "receipt_history PGReceiptStore_Get (PGReceiptStore_Put Some) (\<lambda>_. Some ''{}'') (\<lambda>_. Some ())
      ([] :: (receipt_env \<times> string \<times> (mission_db \<Rightarrow> (mission_error + unit) \<times> mission_db)) list) (s1, db1) = (s1, db1)"
    by simp
  have 4: "json_round_trips (\<lambda>_. Some ''{}'') Some (\<lambda>_. Some ())" by (simp add: json_round_trips_def)
  from RecordMissionState_once [OF 1 4 3, of "cycle_record 900 500" quiet_env no_fault] 1 2
  show ?thesis by (auto simp: cycle_record_def)
qed

theorem LatestState_latest_witness:
  "LatestState quiet_env (one_mission\<lparr>md_states := [(''b'', snapshot_of exact_sub (cycle_record 7 0)),
      (''a'', snapshot_of exact_sub (cycle_record 3 0))]\<rparr>) ''m'' \<noteq> Inl MErrNotFound"
proof -
  let ?db = "one_mission\<lparr>md_states := [(''b'', snapshot_of exact_sub (cycle_record 7 0)),
      (''a'', snapshot_of exact_sub (cycle_record 3 0))]\<rparr>"
  have "\<not> me_fault quiet_env" by (simp add: quiet_env_def)
  from LatestState_latest [OF this, of "''m''" ?db] show ?thesis
    by (auto simp: snapshot_of_def cycle_record_def split: sum.splits)
qed

end
