(* ===== verification/Mission_Loop.thy ===== *)
theory Mission_Loop
  imports Mission_Store
begin

text \<open>
  The workflow of a mission, \<open>MissionLoop\<close> in \<open>internal/mission/workflow.go\<close>, as a step
  relation: signals arrive in the buffers of their channels at any time, and the workflow
  takes a step at each of the points where it blocks (the selector of the loop, the selector
  over a child delivery and the kill channel, and a pause). Everything it does is an event of
  its trace: activities, child workflows and transitions. Which of several ready cases a
  selector takes is left open. \<open>ContinueAsNew\<close> starts the next run of the same workflow id.

  The trace of every run follows a small protocol (an abstract machine over the status of the
  mission and the delivery in flight), child workflow ids are never used twice over all runs,
  and a kill that has arrived is never lost. The last section shows what starting the
  iteration counter again costs.
\<close>

section \<open>Inputs, points and events\<close>

record mission_input =
  mn_MissionID :: string
  mn_Contract :: contract
  mn_DeliveryTaskQueue :: string
  mn_CarriedDeliverySeq :: int
  mn_CarriedEvalState :: eval_state
  mn_CarriedIteration :: int
  mn_MaxIterationsBeforeContinue :: int

record kill_request =
  kr_RequestedBy :: string
  kr_Reason :: string

record pause_request =
  pr_RequestedBy :: string
  pr_Reason :: string

record human_gate_request =
  hg_RequestedBy :: string
  hg_Action :: string

record mission_result =
  rs_Status :: string
  rs_ResultCode :: string
  rs_HandoffNote :: string

datatype mission_event =
    MTransition transition
  | MObserve string int
  | MCheckBudget string
  | MRecordState mission_state_in
  | MRecordGate gate_event_in
  | MResolveGate resolve_gate_in
  | MStartChild string string deliver_input
  | MChildDone string
  | MCancelChild string

text \<open>
  Where the workflow blocks. A pause for a human gate carries the gate's id and iteration; the
  three last points end the run.
\<close>

datatype mission_point =
    AtSelect
  | InDelivery string
  | InPause reason "(string \<times> int) option"
  | Returned mission_result
  | ContinuedAsNew mission_input
  | Errored string

record mission_run =
  rn_point :: mission_point
  rn_eval :: eval_state
  rn_seq :: int
  rn_iteration :: int
  rn_kill :: "kill_request list"
  rn_deliver :: "deliver_input list"
  rn_pause :: "pause_request list"
  rn_gate :: "human_gate_request list"
  rn_resume :: nat
  rn_trace :: "mission_event list"

text \<open>The rounding of the processor, SHA-256 and the workflow id are fixed for a mission.\<close>

record mission_ctx =
  mx_fsub :: "f64 \<Rightarrow> f64 \<Rightarrow> f64"
  mx_fraction :: "nat \<Rightarrow> nat \<Rightarrow> nat \<Rightarrow> nat"
  mx_sha256hex :: "string \<Rightarrow> string"
  mx_workflowID :: string

section \<open>The parts of the workflow\<close>

definition mission_transition :: "string \<Rightarrow> int \<Rightarrow> status \<Rightarrow> reason \<Rightarrow> result_code \<Rightarrow> transition" where
  "mission_transition wid now to reason code =
     \<lparr>tr_WorkflowID = wid, tr_Status = to, tr_PhaseFrom = [], tr_PhaseTo = [], tr_Reason = reason, tr_ResultCode = code,
      tr_Actor = [], tr_Profile = [], tr_Evidence = [], tr_CheckpointID = [], tr_Attempt = 0, tr_NextAction = [],
      tr_WakeAt = None, tr_OccurredAt = now, tr_EnvelopeDigest = []\<rparr>"

text \<open>\<open>appendTransition\<close>: a transition that does not validate is logged and not sent.\<close>

definition mission_appendTransition ::
  "string \<Rightarrow> int \<Rightarrow> status \<Rightarrow> status \<Rightarrow> reason \<Rightarrow> result_code \<Rightarrow> mission_event list" where
  "mission_appendTransition wid now st0 to reason code =
     (let t = mission_transition wid now to reason code in
      case Transition_Validate t st0 to of Some _ \<Rightarrow> [] | None \<Rightarrow> [MTransition t])"

definition emits :: "mission_event list \<Rightarrow> mission_run \<Rightarrow> mission_run" where
  "emits evs r = r\<lparr>rn_trace := rn_trace r @ evs\<rparr>"

definition validateDeliverInput :: "deliver_input \<Rightarrow> string option" where
  "validateDeliverInput d =
     (if di_PlanID d = [] then Some ''mission: delivery trigger has empty plan id''
      else if di_PlanFilePath d = [] then Some ''mission: delivery trigger has empty plan file path''
      else if di_RepoPath d = [] then Some ''mission: delivery trigger has empty repo path''
      else None)"

definition childResultFailed :: "deliver_result \<Rightarrow> bool" where
  "childResultFailed res = (dv_Status res = StatusFailed)"

definition handoff_note :: "kill_request \<Rightarrow> eval_state \<Rightarrow> string" where
  "handoff_note req es =
     ''mission killed by '' @ quote (kr_RequestedBy req) @ '' ('' @ kr_Reason req @ '') after '' @ show_int (es_Cycles es)
     @ '' evaluation cycle(s), best net MRR observed $'' @ show_f2 (es_BestNetMRRUSD es)
     @ '' -- handing off current product state as-is; no further mission-driven changes will occur''"

definition finishKilled :: "mission_ctx \<Rightarrow> int \<Rightarrow> status \<Rightarrow> kill_request \<Rightarrow> mission_run \<Rightarrow> mission_run" where
  "finishKilled x now st0 req r =
     (emits (mission_appendTransition (mx_workflowID x) now st0 StatusCancelled [] ''MISSION_KILLED'') r)
       \<lparr>rn_point := Returned \<lparr>rs_Status = ''CANCELLED'', rs_ResultCode = ''MISSION_KILLED'',
          rs_HandoffNote = handoff_note req (rn_eval r)\<rparr>\<rparr>"

text \<open>\<open>RUNNING\<close> to \<open>WAITING\<close>, then \<open>pauseAndWait\<close> blocks.\<close>

definition begin_pause :: "mission_ctx \<Rightarrow> int \<Rightarrow> reason \<Rightarrow> (string \<times> int) option \<Rightarrow> mission_run \<Rightarrow> mission_run" where
  "begin_pause x now reason gate r =
     (emits (mission_appendTransition (mx_workflowID x) now StatusRunning StatusWaiting reason []) r)
       \<lparr>rn_point := InPause reason gate\<rparr>"

text \<open>
  \<open>EnterHumanGate\<close> up to its wait: \<open>answer\<close> is the id that the activity \<open>RecordGateEvent\<close>
  returned, \<^const>\<open>None\<close> if it failed; then the deterministic id stays.
\<close>

definition EnterHumanGate ::
  "mission_ctx \<Rightarrow> string \<Rightarrow> int \<Rightarrow> string \<Rightarrow> string option \<Rightarrow> mission_run \<Rightarrow> mission_run" where
  "EnterHumanGate x missionID now action0 answer r =
     (let action = (if action0 = [] then PauseUnforeseenHumanGate else action0);
          gateID = deterministicID (mx_sha256hex x) ''gate'' (mx_workflowID x) (rn_iteration r);
          ev = MRecordGate \<lparr>gi_WorkflowID = mx_workflowID x, gi_LoopIteration = rn_iteration r, gi_Attempt = 0,
                 gi_GateEventID = gateID, gi_MissionID = missionID, gi_Action = action, gi_OccurredAt = Some now\<rparr> in
      begin_pause x now ReasonUnforeseenHumanGate
        (Some (case answer of None \<Rightarrow> gateID | Some g \<Rightarrow> g, rn_iteration r)) (emits [ev] r))"

text \<open>The end of a pause on a resume signal; a gate is resolved.\<close>

definition end_pause :: "mission_ctx \<Rightarrow> int \<Rightarrow> (string \<times> int) option \<Rightarrow> mission_run \<Rightarrow> mission_run" where
  "end_pause x now gate r =
     (let back = mission_appendTransition (mx_workflowID x) now StatusWaiting StatusRunning [] [];
          resolve =
            (case gate of
               None \<Rightarrow> []
             | Some (gateID, it) \<Rightarrow>
                 if gateID = [] then []
                 else [MResolveGate \<lparr>rg_WorkflowID = mx_workflowID x, rg_LoopIteration = it, rg_Attempt = 0,
                         rg_GateEventID = gateID, rg_Resolution = ''resumed via mission-resume signal'',
                         rg_ResolvedAt = Some now\<rparr>]) in
      (emits (back @ resolve) r)\<lparr>rn_point := AtSelect\<rparr>)"

definition child_id :: "string \<Rightarrow> int \<Rightarrow> string" where
  "child_id wid seq = wid @ ''-delivery-'' @ show_int seq"

definition handle_trigger :: "mission_ctx \<Rightarrow> mission_input \<Rightarrow> int \<Rightarrow> deliver_input \<Rightarrow> mission_run \<Rightarrow> mission_run" where
  "handle_trigger x i now d r =
     (case validateDeliverInput d of
        Some err \<Rightarrow>
          emits (mission_appendTransition (mx_workflowID x) now StatusRunning StatusRunning ReasonHumanCommand []) r
      | None \<Rightarrow>
          (let seq = rn_seq r + 1; cid = child_id (mx_workflowID x) seq in
           (emits [MStartChild cid (mn_DeliveryTaskQueue i) d] r)\<lparr>rn_seq := seq, rn_point := InDelivery cid\<rparr>))"

text \<open>The child delivery ends with a result or an error.\<close>

definition delivery_done :: "mission_ctx \<Rightarrow> int \<Rightarrow> string \<Rightarrow> (string + deliver_result) \<Rightarrow> mission_run \<Rightarrow> mission_run" where
  "delivery_done x now cid res r =
     (let failed = (case res of Inl err \<Rightarrow> True | Inr v \<Rightarrow> childResultFailed v) in
      (emits (MChildDone cid #
          (if failed
           then mission_appendTransition (mx_workflowID x) now StatusRunning StatusRunning ReasonBlockedDependency []
           else [])) r)
        \<lparr>rn_point := AtSelect\<rparr>)"

text \<open>The answers of the activities of one observation cycle.\<close>

record cycle_answers =
  an_now :: int
  an_sample :: "string + ledger_sample"
  an_budget :: "activity_error + loop_signal"
  an_gate :: "string option"

definition after_outcome ::
  "mission_ctx \<Rightarrow> mission_input \<Rightarrow> cycle_answers \<Rightarrow> outcome \<Rightarrow> mission_run \<Rightarrow> mission_run" where
  "after_outcome x i ans oc r =
     (if oc_Continue oc then r\<lparr>rn_point := AtSelect\<rparr>
      else if oc_Status oc = StatusWaiting then
        (if oc_Reason oc = ReasonUnforeseenHumanGate
         then EnterHumanGate x (mn_MissionID i) (an_now ans) PauseUnforeseenHumanGate (an_gate ans) r
         else begin_pause x (an_now ans) (oc_Reason oc) None r)
      else
        (emits (mission_appendTransition (mx_workflowID x) (an_now ans) StatusRunning (oc_Status oc) [] (oc_ResultCode oc)) r)
          \<lparr>rn_point := Returned \<lparr>rs_Status = status_string (oc_Status oc), rs_ResultCode = oc_ResultCode oc,
             rs_HandoffNote = []\<rparr>\<rparr>)"

definition observe_cycle :: "mission_ctx \<Rightarrow> mission_input \<Rightarrow> cycle_answers \<Rightarrow> mission_run \<Rightarrow> mission_run" where
  "observe_cycle x i ans r0 =
     (let r1 = emits [MObserve (mn_MissionID i) (an_now ans)] r0 in
      case an_sample ans of
        Inl err \<Rightarrow> r1\<lparr>rn_point := Errored (''mission: observe ledger: '' @ err)\<rparr>
      | Inr sample \<Rightarrow>
          (let r2 = emits [MCheckBudget (mn_MissionID i)] r1 in
           case an_budget ans of
             Inl err \<Rightarrow> r2\<lparr>rn_point := Errored ''mission: check budget''\<rparr>
           | Inr sig \<Rightarrow>
               (let (oc, es) = Mission_Evaluate (mx_fsub x) (mx_fraction x) (mn_Contract i) (rn_eval r2) sample sig;
                    rec1 = MRecordState \<lparr>mt_WorkflowID = mx_workflowID x, mt_LoopIteration = rn_iteration r2, mt_Attempt = 0,
                      mt_MissionID = mn_MissionID i, mt_EvalState = es, mt_Sample = sample, mt_Outcome = oc,
                      mt_At = an_now ans\<rparr> in
                after_outcome x i ans oc (emits [rec1] (r2\<lparr>rn_eval := es\<rparr>)))))"

definition maxIterations :: "mission_input \<Rightarrow> int" where
  "maxIterations i =
     (if mn_MaxIterationsBeforeContinue i \<le> 0 then 1000 else mn_MaxIterationsBeforeContinue i)"

definition next_input :: "mission_input \<Rightarrow> mission_run \<Rightarrow> mission_input" where
  "next_input i r =
     \<lparr>mn_MissionID = mn_MissionID i, mn_Contract = mn_Contract i, mn_DeliveryTaskQueue = mn_DeliveryTaskQueue i,
      mn_CarriedDeliverySeq = rn_seq r, mn_CarriedEvalState = rn_eval r, mn_CarriedIteration = 0,
      mn_MaxIterationsBeforeContinue = mn_MaxIterationsBeforeContinue i\<rparr>"

text \<open>Below the bound a round of the loop counts; at the bound signals are only drained.\<close>

definition tick :: "mission_input \<Rightarrow> mission_run \<Rightarrow> mission_run" where
  "tick i r = (if rn_iteration r < maxIterations i then r\<lparr>rn_iteration := rn_iteration r + 1\<rparr> else r)"

section \<open>The step relation\<close>

text \<open>The start of a run: the two refusals, the cadence, and the first transition.\<close>

datatype start_error = StartRefused activity_error | InvalidCadence string

definition mission_start ::
  "mission_ctx \<Rightarrow> mission_env \<Rightarrow> mission_env \<Rightarrow> mission_db \<Rightarrow> mission_input \<Rightarrow> int \<Rightarrow> start_error + mission_run" where
  "mission_start x e1 e2 db i now =
     (case RequireLoopContract e1 db (mn_MissionID i) of
        Some err \<Rightarrow> Inl (StartRefused err)
      | None \<Rightarrow>
          (case RequireReadiness e2 db (mn_MissionID i) of
             Some err \<Rightarrow> Inl (StartRefused err)
           | None \<Rightarrow>
               (case parseCadence (mx_fraction x) (ca_Observe (mc_Cadence (mn_Contract i))) of
                  None \<Rightarrow> Inl (InvalidCadence (ca_Observe (mc_Cadence (mn_Contract i))))
                | Some interval \<Rightarrow>
                    Inr \<lparr>rn_point = AtSelect, rn_eval = mn_CarriedEvalState i, rn_seq = mn_CarriedDeliverySeq i,
                      rn_iteration = mn_CarriedIteration i, rn_kill = [], rn_deliver = [], rn_pause = [], rn_gate = [],
                      rn_resume = 0,
                      rn_trace = mission_appendTransition (mx_workflowID x) now StatusPending StatusRunning [] []\<rparr>)))"

inductive mission_step :: "mission_ctx \<Rightarrow> mission_input \<Rightarrow> mission_run \<Rightarrow> mission_run \<Rightarrow> bool"
  for x :: mission_ctx and i :: mission_input where
  signal_kill: "mission_step x i r (r\<lparr>rn_kill := rn_kill r @ [k]\<rparr>)"
| signal_deliver: "mission_step x i r (r\<lparr>rn_deliver := rn_deliver r @ [d]\<rparr>)"
| signal_pause: "mission_step x i r (r\<lparr>rn_pause := rn_pause r @ [p]\<rparr>)"
| signal_gate: "mission_step x i r (r\<lparr>rn_gate := rn_gate r @ [g]\<rparr>)"
| signal_resume: "mission_step x i r (r\<lparr>rn_resume := rn_resume r + 1\<rparr>)"
| top_kill: "rn_point r = AtSelect \<Longrightarrow> rn_kill r = k # ks \<Longrightarrow>
    mission_step x i r (finishKilled x now StatusRunning k (tick i (r\<lparr>rn_kill := ks\<rparr>)))"
| top_deliver: "rn_point r = AtSelect \<Longrightarrow> rn_deliver r = d # ds \<Longrightarrow>
    rn_iteration r < maxIterations i \<or> rn_kill r = [] \<Longrightarrow>
    mission_step x i r (handle_trigger x i now d (tick i (r\<lparr>rn_deliver := ds\<rparr>)))"
| top_pause: "rn_point r = AtSelect \<Longrightarrow> rn_pause r = p # ps \<Longrightarrow>
    rn_iteration r < maxIterations i \<or> rn_kill r = [] \<and> rn_deliver r = [] \<Longrightarrow>
    mission_step x i r (begin_pause x now ReasonHumanCommand None (tick i (r\<lparr>rn_pause := ps\<rparr>)))"
| top_gate: "rn_point r = AtSelect \<Longrightarrow> rn_gate r = g # gs \<Longrightarrow>
    rn_iteration r < maxIterations i \<or> rn_kill r = [] \<and> rn_deliver r = [] \<and> rn_pause r = [] \<Longrightarrow>
    mission_step x i r (EnterHumanGate x (mn_MissionID i) now (hg_Action g) answer (tick i (r\<lparr>rn_gate := gs\<rparr>)))"
| top_timer: "rn_point r = AtSelect \<Longrightarrow> rn_iteration r < maxIterations i \<Longrightarrow>
    mission_step x i r (observe_cycle x i ans (tick i r))"
| top_continue: "rn_point r = AtSelect \<Longrightarrow> \<not> rn_iteration r < maxIterations i \<Longrightarrow>
    rn_kill r = [] \<Longrightarrow> rn_deliver r = [] \<Longrightarrow> rn_pause r = [] \<Longrightarrow> rn_gate r = [] \<Longrightarrow>
    mission_step x i r (r\<lparr>rn_point := ContinuedAsNew (next_input i r)\<rparr>)"
| delivery_ends: "rn_point r = InDelivery cid \<Longrightarrow> mission_step x i r (delivery_done x now cid res r)"
| delivery_killed: "rn_point r = InDelivery cid \<Longrightarrow> rn_kill r = k # ks \<Longrightarrow>
    mission_step x i r (finishKilled x now StatusRunning k (emits [MCancelChild cid] (r\<lparr>rn_kill := ks\<rparr>)))"
| pause_resumed: "rn_point r = InPause reason gate \<Longrightarrow> rn_resume r = Suc n \<Longrightarrow>
    mission_step x i r (end_pause x now gate (r\<lparr>rn_resume := n\<rparr>))"
| pause_killed: "rn_point r = InPause reason gate \<Longrightarrow> rn_kill r = k # ks \<Longrightarrow>
    mission_step x i r (finishKilled x now StatusWaiting k (r\<lparr>rn_kill := ks\<rparr>))"

text \<open>
  All runs of a mission: its input, the trace of the runs before the present one, and the
  present run. The first run carries nothing.
\<close>

inductive mission_reach :: "mission_ctx \<Rightarrow> mission_input \<Rightarrow> mission_event list \<Rightarrow> mission_run \<Rightarrow> bool"
  for x :: mission_ctx where
  first: "mission_start x e1 e2 db i now = Inr r \<Longrightarrow> mn_CarriedDeliverySeq i = 0 \<Longrightarrow> mission_reach x i [] r"
| step: "mission_reach x i h r \<Longrightarrow> mission_step x i r r' \<Longrightarrow> mission_reach x i h r'"
| continued: "mission_reach x i h r \<Longrightarrow> rn_point r = ContinuedAsNew i' \<Longrightarrow>
    mission_start x e1 e2 db i' now = Inr r' \<Longrightarrow> mission_reach x i' (h @ rn_trace r) r'"

inductive_cases mission_stepE: "mission_step x i r r'"

section \<open>The protocol of a run\<close>

text \<open>
  The abstract machine: its state is the status of the mission and the delivery in flight.
  Transitions follow the state model; observations, recordings and new deliveries happen only
  in status RUNNING with no delivery in flight, and a delivery only with an input that names a
  plan, a file and a repository.
\<close>

fun protocol_step :: "mission_event \<Rightarrow> status \<times> string option \<Rightarrow> (status \<times> string option) option" where
  "protocol_step (MTransition t) (st, ch) =
     (if Transition_Validate t st (tr_Status t) = None then Some (tr_Status t, ch) else None)"
| "protocol_step (MStartChild cid queue d) (st, ch) =
     (if st = StatusRunning \<and> ch = None \<and> di_PlanID d \<noteq> [] \<and> di_PlanFilePath d \<noteq> [] \<and> di_RepoPath d \<noteq> []
      then Some (st, Some cid) else None)"
| "protocol_step (MChildDone cid) (st, ch) = (if ch = Some cid then Some (st, None) else None)"
| "protocol_step (MCancelChild cid) (st, ch) = (if ch = Some cid then Some (st, None) else None)"
| "protocol_step _ (st, ch) = (if st = StatusRunning \<and> ch = None then Some (st, ch) else None)"

fun protocol_run :: "mission_event list \<Rightarrow> status \<times> string option \<Rightarrow> (status \<times> string option) option" where
  "protocol_run [] s = Some s"
| "protocol_run (ev # evs) s = (case protocol_step ev s of None \<Rightarrow> None | Some s' \<Rightarrow> protocol_run evs s')"

lemma protocol_run_append:
  "protocol_run (as @ bs) s = (case protocol_run as s of None \<Rightarrow> None | Some s' \<Rightarrow> protocol_run bs s')"
  by (induction as arbitrary: s) (auto split: option.splits)

text \<open>The abstract state of each point of the workflow.\<close>

fun status_of_string :: "string \<Rightarrow> status" where
  "status_of_string s =
     (if s = ''SUCCEEDED'' then StatusSucceeded else if s = ''FAILED'' then StatusFailed
      else if s = ''CANCELLED'' then StatusCancelled else StatusOther s)"

fun point_state :: "mission_point \<Rightarrow> status \<times> string option" where
  "point_state AtSelect = (StatusRunning, None)"
| "point_state (InDelivery cid) = (StatusRunning, Some cid)"
| "point_state (InPause reason gate) = (StatusWaiting, None)"
| "point_state (Returned res) = (status_of_string (rs_Status res), None)"
| "point_state (ContinuedAsNew i) = (StatusRunning, None)"
| "point_state (Errored msg) = (StatusRunning, None)"

definition follows_protocol :: "mission_run \<Rightarrow> bool" where
  "follows_protocol r \<longleftrightarrow> protocol_run (rn_trace r) (StatusPending, None) = Some (point_state (rn_point r))"

named_theorems loop_defs \<open>the parts of the mission workflow\<close>

declare emits_def [loop_defs] tick_def [loop_defs] finishKilled_def [loop_defs] begin_pause_def [loop_defs]
  EnterHumanGate_def [loop_defs] end_pause_def [loop_defs] handle_trigger_def [loop_defs]
  delivery_done_def [loop_defs] after_outcome_def [loop_defs] observe_cycle_def [loop_defs]

lemma mission_codes [simp]:
  "KnownResultCode ''MISSION_KILLED'' = Some StatusCancelled"
  "KnownResultCode ''MISSION_BUDGET_EXHAUSTED'' = Some StatusFailed"
  "KnownResultCode ''MISSION_TERMINATED_BY_POLICY'' = Some StatusCancelled"
  "KnownResultCode ''MISSION_NO_VIABLE_CANDIDATE'' = Some StatusFailed"
  "KnownResultCode ''MISSION_TARGET_REACHED'' = Some StatusSucceeded"
  "KnownResultCode ''MISSION_MAINTENANCE_MODE'' = Some StatusSucceeded"
  by (simp_all add: KnownResultCode_def resultCodeRegistry_def)

lemma append_start [simp]:
  "mission_appendTransition wid now StatusPending StatusRunning [] [] = [MTransition (mission_transition wid now StatusRunning [] [])]"
  by (simp add: mission_appendTransition_def mission_transition_def Transition_Validate_def)

lemma append_same [simp]: "mission_appendTransition wid now StatusRunning StatusRunning r c = []"
  by (simp add: mission_appendTransition_def Transition_Validate_def)

lemma append_killed [simp]:
  "st0 = StatusRunning \<or> st0 = StatusWaiting \<Longrightarrow>
     mission_appendTransition wid now st0 StatusCancelled [] ''MISSION_KILLED'' =
       [MTransition (mission_transition wid now StatusCancelled [] ''MISSION_KILLED'')]"
  by (auto simp: mission_appendTransition_def mission_transition_def Transition_Validate_def)

lemma append_waiting [simp]:
  "reason \<noteq> [] \<Longrightarrow> mission_appendTransition wid now StatusRunning StatusWaiting reason [] =
     [MTransition (mission_transition wid now StatusWaiting reason [])]"
  by (simp add: mission_appendTransition_def mission_transition_def Transition_Validate_def)

lemma append_resumed [simp]:
  "mission_appendTransition wid now StatusWaiting StatusRunning [] [] = [MTransition (mission_transition wid now StatusRunning [] [])]"
  by (simp add: mission_appendTransition_def mission_transition_def Transition_Validate_def)

text \<open>The outcomes of an evaluation: continue, pause with a reason, or a final status that validates.\<close>

definition final_outcome :: "string \<Rightarrow> int \<Rightarrow> outcome \<Rightarrow> bool" where
  "final_outcome wid now oc \<longleftrightarrow>
     oc_Status oc \<in> {StatusFailed, StatusCancelled, StatusSucceeded}
     \<and> Transition_Validate (mission_transition wid now (oc_Status oc) [] (oc_ResultCode oc)) StatusRunning (oc_Status oc) = None"

lemma outcome_kind:
  "oc_Continue (fst (Mission_Evaluate fsub fraction c st s sig))
   \<or> \<not> oc_Continue (fst (Mission_Evaluate fsub fraction c st s sig))
     \<and> oc_Status (fst (Mission_Evaluate fsub fraction c st s sig)) = StatusWaiting
     \<and> oc_Reason (fst (Mission_Evaluate fsub fraction c st s sig)) \<noteq> []
   \<or> \<not> oc_Continue (fst (Mission_Evaluate fsub fraction c st s sig))
     \<and> final_outcome wid now (fst (Mission_Evaluate fsub fraction c st s sig))"
  using Evaluate_outcome_cases [of fsub fraction c st s sig]
  by (elim insertE emptyE)
    (simp_all add: final_outcome_def outcome_of_def continue_outcome_def mission_transition_def Transition_Validate_def)

lemma transition_status [simp]: "tr_Status (mission_transition wid now to reason code) = to"
  by (simp add: mission_transition_def)

lemma validates [simp]:
  "Transition_Validate (mission_transition wid now StatusRunning [] []) StatusPending StatusRunning = None"
  "Transition_Validate (mission_transition wid now StatusRunning [] []) StatusWaiting StatusRunning = None"
  "reason \<noteq> [] \<Longrightarrow> Transition_Validate (mission_transition wid now StatusWaiting reason []) StatusRunning StatusWaiting = None"
  "st0 = StatusRunning \<or> st0 = StatusWaiting \<Longrightarrow>
     Transition_Validate (mission_transition wid now StatusCancelled [] ''MISSION_KILLED'') st0 StatusCancelled = None"
  by (auto simp: mission_transition_def Transition_Validate_def)

text \<open>The parts preserve the protocol.\<close>

lemma emits_follows:
  assumes "follows_protocol r" and "protocol_run evs (point_state (rn_point r)) = Some (point_state p)"
  shows "follows_protocol ((emits evs r)\<lparr>rn_point := p\<rparr>)"
  using assms by (simp add: follows_protocol_def emits_def protocol_run_append)

lemma follows_cong: "rn_trace r' = rn_trace r \<Longrightarrow> rn_point r' = rn_point r \<Longrightarrow> follows_protocol r' \<longleftrightarrow> follows_protocol r"
  by (simp add: follows_protocol_def)

lemma tick_simps [simp]:
  "rn_trace (tick i r) = rn_trace r" "rn_point (tick i r) = rn_point r" "rn_eval (tick i r) = rn_eval r"
  "rn_seq (tick i r) = rn_seq r" "rn_kill (tick i r) = rn_kill r" "rn_deliver (tick i r) = rn_deliver r"
  "rn_pause (tick i r) = rn_pause r" "rn_gate (tick i r) = rn_gate r" "rn_resume (tick i r) = rn_resume r"
  by (simp_all add: tick_def)

lemma emits_simps [simp]:
  "rn_trace (emits evs r) = rn_trace r @ evs" "rn_point (emits evs r) = rn_point r" "rn_eval (emits evs r) = rn_eval r"
  "rn_seq (emits evs r) = rn_seq r" "rn_iteration (emits evs r) = rn_iteration r" "rn_kill (emits evs r) = rn_kill r"
  by (simp_all add: emits_def)

lemma finishKilled_follows:
  assumes "follows_protocol r" and "point_state (rn_point r) = (st0, None)" and "st0 = StatusRunning \<or> st0 = StatusWaiting"
  shows "follows_protocol (finishKilled x now st0 k r)"
  unfolding finishKilled_def append_killed [OF assms(3)]
  by (rule emits_follows [OF assms(1)]) (use assms(2,3) in auto)

lemma begin_pause_follows:
  assumes "follows_protocol r" and "point_state (rn_point r) = (StatusRunning, None)" and "reason \<noteq> []"
  shows "follows_protocol (begin_pause x now reason gate r)"
  unfolding begin_pause_def append_waiting [OF assms(3)]
  by (rule emits_follows [OF assms(1)]) (use assms(2,3) in simp)

lemma EnterHumanGate_follows:
  assumes "follows_protocol r" and "point_state (rn_point r) = (StatusRunning, None)"
  shows "follows_protocol (EnterHumanGate x missionID now action answer r)"
  unfolding EnterHumanGate_def Let_def
  by (rule begin_pause_follows) (use assms in \<open>simp_all add: follows_protocol_def protocol_run_append\<close>)

lemma end_pause_follows:
  assumes "follows_protocol r" and "point_state (rn_point r) = (StatusWaiting, None)"
  shows "follows_protocol (end_pause x now gate r)"
  unfolding end_pause_def Let_def
  by (rule emits_follows [OF assms(1)]) (use assms(2) in \<open>auto split: option.splits\<close>)

lemma handle_trigger_follows:
  assumes "follows_protocol r" and "rn_point r = AtSelect"
  shows "follows_protocol (handle_trigger x i now d r)"
proof (cases "validateDeliverInput d")
  case None
  then have "protocol_run [MStartChild (child_id (mx_workflowID x) (rn_seq r + 1)) (mn_DeliveryTaskQueue i) d]
      (point_state (rn_point r)) = Some (point_state (InDelivery (child_id (mx_workflowID x) (rn_seq r + 1))))"
    using assms(2) by (auto simp: validateDeliverInput_def split: if_splits)
  from emits_follows [OF assms(1) this] None show ?thesis
    by (simp add: handle_trigger_def Let_def follows_protocol_def)
next
  case (Some err)
  then show ?thesis using assms by (simp add: handle_trigger_def follows_protocol_def)
qed

lemma delivery_done_follows:
  assumes "follows_protocol r" and "rn_point r = InDelivery cid"
  shows "follows_protocol (delivery_done x now cid res r)"
  unfolding delivery_done_def Let_def
  by (rule emits_follows [OF assms(1)]) (use assms(2) in simp)

lemma after_outcome_follows:
  assumes "follows_protocol r" and "rn_point r = AtSelect"
    and "oc = fst (Mission_Evaluate fsub fraction c st s sig)"
  shows "follows_protocol (after_outcome x i ans oc r)"
proof -
  have p: "point_state (rn_point r) = (StatusRunning, None)" using assms(2) by simp
  consider (Cont) "oc_Continue oc" | (Wait) "\<not> oc_Continue oc" "oc_Status oc = StatusWaiting" "oc_Reason oc \<noteq> []"
    | (Final) "\<not> oc_Continue oc" "final_outcome (mx_workflowID x) (an_now ans) oc"
    using outcome_kind [of fsub fraction c st s sig, folded assms(3)] by blast
  then show ?thesis
  proof cases
    case Cont
    then show ?thesis using assms(1,2) by (simp add: after_outcome_def follows_protocol_def)
  next
    case Wait
    then show ?thesis
      using EnterHumanGate_follows [OF assms(1) p] begin_pause_follows [OF assms(1) p] by (simp add: after_outcome_def)
  next
    case Final
    let ?ev = "mission_appendTransition (mx_workflowID x) (an_now ans) StatusRunning (oc_Status oc) [] (oc_ResultCode oc)"
    have "protocol_run ?ev (point_state (rn_point r)) = Some (point_state (Returned \<lparr>rs_Status = status_string (oc_Status oc),
        rs_ResultCode = oc_ResultCode oc, rs_HandoffNote = []\<rparr>))"
      using Final p by (auto simp: final_outcome_def mission_appendTransition_def)
    from emits_follows [OF assms(1) this] Final show ?thesis by (auto simp: after_outcome_def final_outcome_def)
  qed
qed

lemma observe_cycle_follows:
  assumes "follows_protocol r" and "rn_point r = AtSelect"
  shows "follows_protocol (observe_cycle x i ans r)"
proof -
  have run: "protocol_run (rn_trace r) (StatusPending, None) = Some (StatusRunning, None)"
    using assms by (simp add: follows_protocol_def)
  show ?thesis
  proof (cases "an_sample ans")
    case (Inl err)
    then show ?thesis using run by (simp add: observe_cycle_def follows_protocol_def protocol_run_append)
  next
    case sample: (Inr sample)
    show ?thesis
    proof (cases "an_budget ans")
      case (Inl err)
      then show ?thesis using run sample by (simp add: observe_cycle_def follows_protocol_def protocol_run_append)
    next
      case (Inr sig)
      obtain oc es where ev: "Mission_Evaluate (mx_fsub x) (mx_fraction x) (mn_Contract i) (rn_eval r) sample sig = (oc, es)"
        by (cases "Mission_Evaluate (mx_fsub x) (mx_fraction x) (mn_Contract i) (rn_eval r) sample sig")
      let ?r = "emits [MRecordState \<lparr>mt_WorkflowID = mx_workflowID x, mt_LoopIteration = rn_iteration r, mt_Attempt = 0,
          mt_MissionID = mn_MissionID i, mt_EvalState = es, mt_Sample = sample, mt_Outcome = oc, mt_At = an_now ans\<rparr>]
        ((emits [MCheckBudget (mn_MissionID i)] (emits [MObserve (mn_MissionID i) (an_now ans)] r))\<lparr>rn_eval := es\<rparr>)"
      have "observe_cycle x i ans r = after_outcome x i ans oc ?r"
        using sample Inr ev by (simp add: observe_cycle_def)
      moreover have "follows_protocol ?r" "rn_point ?r = AtSelect"
        using run assms(2) by (simp_all add: follows_protocol_def protocol_run_append)
      ultimately show ?thesis using after_outcome_follows ev by (metis fst_conv)
    qed
  qed
qed

lemma mission_step_follows: "mission_step x i r r' \<Longrightarrow> follows_protocol r \<Longrightarrow> follows_protocol r'"
proof (induction rule: mission_step.induct)
  case (top_kill r k ks now)
  then show ?case by (intro finishKilled_follows) (simp_all add: follows_protocol_def)
next
  case (top_deliver r d ds now)
  then show ?case by (intro handle_trigger_follows) (simp_all add: follows_protocol_def)
next
  case (top_pause r p ps now)
  then show ?case by (intro begin_pause_follows) (simp_all add: follows_protocol_def)
next
  case (top_gate r g gs now answer)
  then show ?case by (intro EnterHumanGate_follows) (simp_all add: follows_protocol_def)
next
  case (top_timer r ans)
  then show ?case by (intro observe_cycle_follows) (simp_all add: follows_protocol_def)
next
  case (delivery_ends r cid now res)
  then show ?case by (intro delivery_done_follows)
next
  case (delivery_killed r cid k ks now)
  let ?r = "emits [MCancelChild cid] (r\<lparr>rn_kill := ks\<rparr>)"
  have "follows_protocol (?r\<lparr>rn_point := AtSelect\<rparr>)"
    using delivery_killed by (simp add: follows_protocol_def protocol_run_append)
  then have "follows_protocol (finishKilled x now StatusRunning k (?r\<lparr>rn_point := AtSelect\<rparr>))"
    by (intro finishKilled_follows) simp_all
  then show ?case by (simp add: follows_protocol_def finishKilled_def)
next
  case (pause_resumed r reason gate n now)
  then show ?case by (intro end_pause_follows) (simp_all add: follows_protocol_def)
next
  case (pause_killed r reason gate k ks now)
  then show ?case by (intro finishKilled_follows) (simp_all add: follows_protocol_def)
qed (simp_all add: follows_protocol_def)

lemma mission_start_follows: "mission_start x e1 e2 db i now = Inr r \<Longrightarrow> follows_protocol r"
  by (auto simp: mission_start_def follows_protocol_def split: option.splits)

lemma mission_reach_follows: "mission_reach x i h r \<Longrightarrow> follows_protocol r"
  by (induction rule: mission_reach.induct) (auto intro: mission_start_follows mission_step_follows)

section \<open>What every run keeps\<close>

fun stream_of :: "mission_event list \<Rightarrow> transition list" where
  "stream_of [] = []"
| "stream_of (MTransition t # evs) = t # stream_of evs"
| "stream_of (_ # evs) = stream_of evs"

lemma stream_of_append [simp]: "stream_of (as @ bs) = stream_of as @ stream_of bs"
  by (induction as rule: stream_of.induct) simp_all

lemma protocol_status:
  "(\<forall>t. ev \<noteq> MTransition t) \<Longrightarrow> protocol_step ev (st, ch) = Some s' \<Longrightarrow> fst s' = st"
  by (cases ev) (auto split: if_splits)

lemma protocol_run_stream:
  "protocol_run evs (st, ch) = Some (st', ch') \<Longrightarrow>
     valid_stream st (stream_of evs) \<and> st' = (if stream_of evs = [] then st else tr_Status (last (stream_of evs)))"
proof (induction evs arbitrary: st ch)
  case (Cons ev evs)
  then obtain st1 ch1 where 1: "protocol_step ev (st, ch) = Some (st1, ch1)" and 2: "protocol_run evs (st1, ch1) = Some (st', ch')"
    by (auto split: option.splits)
  show ?case
  proof (cases "\<exists>t. ev = MTransition t")
    case True
    then show ?thesis using 1 Cons.IH [OF 2] by (auto split: if_splits)
  next
    case False
    then have "stream_of (ev # evs) = stream_of evs" by (cases ev) auto
    moreover have "st1 = st" using protocol_status [of ev st ch] False 1 by force
    ultimately show ?thesis using Cons.IH [OF 2] by simp
  qed
qed simp

text \<open>
  C15: every run of a mission refines the protocol. Its trace is a run of the abstract machine,
  which ends in the state of the point where the workflow stands: so observations, recordings
  and deliveries happen only while the mission is RUNNING, never during a pause, at most one
  delivery is in flight, each with a complete input, and the transitions sent form a valid
  stream from PENDING, in which a returned workflow has reached its terminal status.
\<close>

theorem mission_refines_protocol:
  assumes "mission_reach x i h r"
  shows "protocol_run (rn_trace r) (StatusPending, None) = Some (point_state (rn_point r))
    \<and> valid_stream StatusPending (stream_of (rn_trace r))
    \<and> (\<forall>res. rn_point r = Returned res \<longrightarrow>
          stream_of (rn_trace r) \<noteq> [] \<and> tr_Status (last (stream_of (rn_trace r))) = status_of_string (rs_Status res))"
proof -
  have run: "protocol_run (rn_trace r) (StatusPending, None) = Some (point_state (rn_point r))"
    using mission_reach_follows [OF assms] by (simp add: follows_protocol_def)
  obtain st ch where ps: "point_state (rn_point r) = (st, ch)" by (cases "point_state (rn_point r)")
  note stream = protocol_run_stream [OF run [unfolded ps]]
  show ?thesis
  proof (intro conjI allI impI)
    fix res assume res: "rn_point r = Returned res"
    then have "st = status_of_string (rs_Status res)" using ps by simp
    moreover have "status_of_string (rs_Status res) \<noteq> StatusPending" by simp
    ultimately show "stream_of (rn_trace r) \<noteq> []"
      and "tr_Status (last (stream_of (rn_trace r))) = status_of_string (rs_Status res)"
      using stream by (auto split: if_splits)
  qed (use run stream in auto)
qed

section \<open>Deliveries have their own ids\<close>

fun child_ids :: "mission_event list \<Rightarrow> string list" where
  "child_ids [] = []"
| "child_ids (MStartChild cid queue d # evs) = cid # child_ids evs"
| "child_ids (_ # evs) = child_ids evs"

lemma child_ids_append [simp]: "child_ids (as @ bs) = child_ids as @ child_ids bs"
  by (induction as rule: child_ids.induct) simp_all

lemma child_ids_transition [simp]: "child_ids (mission_appendTransition wid now st0 to reason code) = []"
  by (simp add: mission_appendTransition_def Let_def split: option.splits)

text \<open>A part that starts no delivery and does not continue as new.\<close>

definition quiet_part :: "mission_run \<Rightarrow> mission_run \<Rightarrow> bool" where
  "quiet_part r r' \<longleftrightarrow> rn_seq r' = rn_seq r \<and> child_ids (rn_trace r') = child_ids (rn_trace r)
     \<and> (\<forall>i. rn_point r' \<noteq> ContinuedAsNew i)"

lemma begin_pause_quiet: "quiet_part r (begin_pause x now reason gate r)"
  by (simp add: quiet_part_def begin_pause_def)

lemma EnterHumanGate_quiet: "quiet_part r (EnterHumanGate x missionID now action answer r)"
  by (simp add: quiet_part_def EnterHumanGate_def begin_pause_def Let_def)

lemma finishKilled_quiet: "quiet_part r (finishKilled x now st0 k r)"
  by (simp add: quiet_part_def finishKilled_def)

lemma end_pause_quiet: "quiet_part r (end_pause x now gate r)"
  by (simp add: quiet_part_def end_pause_def Let_def split: option.splits)

lemma delivery_done_quiet: "quiet_part r (delivery_done x now cid res r)"
  by (simp add: quiet_part_def delivery_done_def Let_def)

lemma after_outcome_quiet: "quiet_part r (after_outcome x i ans oc r)"
  using EnterHumanGate_quiet begin_pause_quiet by (simp add: after_outcome_def) (simp add: quiet_part_def)

lemma observe_cycle_quiet: "quiet_part r (observe_cycle x i ans r)"
proof -
  have after: "quiet_part r (after_outcome x i ans oc r1)"
    if "rn_seq r1 = rn_seq r" "child_ids (rn_trace r1) = child_ids (rn_trace r)" for oc r1
    using after_outcome_quiet [of r1 x i ans oc] that by (simp add: quiet_part_def)
  show ?thesis
    by (auto simp: observe_cycle_def Let_def split: sum.splits prod.splits intro!: after)
      (simp_all add: quiet_part_def)
qed

definition numbered_children :: "mission_ctx \<Rightarrow> mission_event list \<Rightarrow> mission_run \<Rightarrow> bool" where
  "numbered_children x h r \<longleftrightarrow> 0 \<le> rn_seq r
     \<and> child_ids (h @ rn_trace r) = map (child_id (mx_workflowID x)) [1..rn_seq r]
     \<and> (\<forall>i'. rn_point r = ContinuedAsNew i' \<longrightarrow> mn_CarriedDeliverySeq i' = rn_seq r)"

lemma quiet_numbered:
  "quiet_part r0 r' \<Longrightarrow> rn_seq r0 = rn_seq r \<Longrightarrow> child_ids (rn_trace r0) = child_ids (rn_trace r) \<Longrightarrow>
     numbered_children x h r \<Longrightarrow> numbered_children x h r'"
  by (simp add: quiet_part_def numbered_children_def)

lemma upto_snoc: "0 \<le> n \<Longrightarrow> [1..n + 1] = [1..n] @ [n + 1 :: int]"
  by (simp add: upto_rec2)

lemma trigger_numbered:
  assumes "numbered_children x h r" and "rn_point r = AtSelect" and "rn_seq r0 = rn_seq r"
    and "rn_trace r0 = rn_trace r" and "rn_point r0 = rn_point r"
  shows "numbered_children x h (handle_trigger x i now d r0)"
  using assms by (cases "validateDeliverInput d") (simp_all add: numbered_children_def handle_trigger_def Let_def upto_snoc)

lemma mission_step_numbered:
  "mission_step x i r r' \<Longrightarrow> numbered_children x h r \<Longrightarrow> numbered_children x h r'"
proof (induction rule: mission_step.induct)
  case (top_kill r k ks now)
  then show ?case by (intro quiet_numbered [OF finishKilled_quiet, of _ r]) simp_all
next
  case (top_deliver r d ds now)
  then show ?case by (intro trigger_numbered [of _ _ r]) simp_all
next
  case (top_pause r p ps now)
  then show ?case by (intro quiet_numbered [OF begin_pause_quiet, of _ r]) simp_all
next
  case (top_gate r g gs now answer)
  then show ?case by (intro quiet_numbered [OF EnterHumanGate_quiet, of _ r]) simp_all
next
  case (top_timer r ans)
  then show ?case by (intro quiet_numbered [OF observe_cycle_quiet, of _ r]) simp_all
next
  case (delivery_ends r cid now res)
  then show ?case by (intro quiet_numbered [OF delivery_done_quiet, of _ r]) simp_all
next
  case (delivery_killed r cid k ks now)
  then show ?case by (intro quiet_numbered [OF finishKilled_quiet, of _ r]) simp_all
next
  case (pause_resumed r reason gate n now)
  then show ?case by (intro quiet_numbered [OF end_pause_quiet, of _ r]) simp_all
next
  case (pause_killed r reason gate k ks now)
  then show ?case by (intro quiet_numbered [OF finishKilled_quiet, of _ r]) simp_all
qed (simp_all add: numbered_children_def next_input_def)

lemma mission_start_numbered:
  assumes "mission_start x e1 e2 db i now = Inr r"
  shows "rn_seq r = mn_CarriedDeliverySeq i \<and> child_ids (rn_trace r) = [] \<and> rn_point r = AtSelect"
  using assms by (auto simp: mission_start_def split: option.splits)

lemma mission_reach_numbered: "mission_reach x i h r \<Longrightarrow> numbered_children x h r"
proof (induction rule: mission_reach.induct)
  case (first e1 e2 db i now r)
  then show ?case using mission_start_numbered [OF first(1)] by (simp add: numbered_children_def)
next
  case (step i h r r')
  then show ?case by (simp add: mission_step_numbered)
next
  case (continued i h r i' e1 e2 db now r')
  then show ?case
    using mission_start_numbered [OF continued(3)] by (simp add: numbered_children_def)
qed

lemma child_id_inj: "child_id wid a = child_id wid b \<longleftrightarrow> a = b"
  using show_int_inj by (auto simp: child_id_def)

text \<open>
  over all the runs of a mission, the deliveries it started are numbered from 1 without a
  gap, so no two of them share a workflow id, also across \<open>ContinueAsNew\<close>.
\<close>

theorem mission_children_distinct:
  assumes "mission_reach x i h r"
  shows "child_ids (h @ rn_trace r) = map (child_id (mx_workflowID x)) [1..rn_seq r]
    \<and> distinct (child_ids (h @ rn_trace r))"
proof -
  have "child_ids (h @ rn_trace r) = map (child_id (mx_workflowID x)) [1..rn_seq r]"
    using mission_reach_numbered [OF assms] by (simp add: numbered_children_def)
  then show ?thesis by (simp add: distinct_map inj_on_def child_id_inj)
qed

section \<open>No kill is lost\<close>

definition killed_run :: "mission_run \<Rightarrow> bool" where
  "killed_run r \<longleftrightarrow> (\<exists>note. rn_point r = Returned \<lparr>rs_Status = ''CANCELLED'', rs_ResultCode = ''MISSION_KILLED'', rs_HandoffNote = note\<rparr>)"

fun blocked_point :: "mission_point \<Rightarrow> bool" where
  "blocked_point AtSelect = True"
| "blocked_point (InDelivery cid) = True"
| "blocked_point (InPause reason gate) = True"
| "blocked_point _ = False"

lemma finishKilled_killed: "killed_run (finishKilled x now st0 k r)"
  by (simp add: killed_run_def finishKilled_def)

lemma parts_keep_kill [simp]:
  "rn_kill (begin_pause x now reason gate r) = rn_kill r"
  "rn_kill (EnterHumanGate x missionID now action answer r) = rn_kill r"
  "rn_kill (finishKilled x now st0 k r) = rn_kill r"
  "rn_kill (end_pause x now gate r) = rn_kill r"
  "rn_kill (delivery_done x now cid res r) = rn_kill r"
  "rn_kill (handle_trigger x i now d r) = rn_kill r"
  "rn_kill (after_outcome x i ans oc r) = rn_kill r"
  by (simp_all add: begin_pause_def EnterHumanGate_def finishKilled_def end_pause_def delivery_done_def handle_trigger_def
      after_outcome_def Let_def split: option.splits)

lemma observe_keeps_kill [simp]: "rn_kill (observe_cycle x i ans r) = rn_kill r"
  by (simp add: observe_cycle_def Let_def case_prod_beta split: sum.splits)

text \<open>
  C16: a kill that has arrived is not lost and can always be served. While a kill request waits,
  every step either keeps it in the buffer or ends the mission as CANCELLED/\<open>MISSION_KILLED\<close>, none
  continues the workflow as new, which would drop it, and at each point where the workflow
  blocks (observing, delivering or paused) a step that kills the mission is possible.
\<close>

theorem mission_kill_not_lost:
  assumes "rn_kill r = k # ks"
  shows "(\<forall>r'. mission_step x i r r' \<longrightarrow>
        ((\<exists>more. rn_kill r' = rn_kill r @ more) \<or> killed_run r' \<and> rn_kill r' = ks)
        \<and> (\<forall>i'. rn_point r' = ContinuedAsNew i' \<longrightarrow> rn_point r = ContinuedAsNew i'))
    \<and> (blocked_point (rn_point r) \<longrightarrow> (\<exists>r'. mission_step x i r r' \<and> killed_run r'))"
proof (intro conjI allI impI)
  fix r' assume st: "mission_step x i r r'"
  show "(\<exists>more. rn_kill r' = rn_kill r @ more) \<or> killed_run r' \<and> rn_kill r' = ks"
    using st assms by (cases rule: mission_step.cases) (simp_all add: finishKilled_killed)
next
  fix r' i' assume st: "mission_step x i r r'" and p: "rn_point r' = ContinuedAsNew i'"
  show "rn_point r = ContinuedAsNew i'"
    using st p assms
      finishKilled_quiet begin_pause_quiet EnterHumanGate_quiet end_pause_quiet delivery_done_quiet observe_cycle_quiet
    by (cases rule: mission_step.cases)
      (auto simp: quiet_part_def handle_trigger_def Let_def split: option.splits)
next
  assume b: "blocked_point (rn_point r)"
  then consider "rn_point r = AtSelect" | cid where "rn_point r = InDelivery cid"
    | reason gate where "rn_point r = InPause reason gate" by (cases "rn_point r") auto
  then show "\<exists>r'. mission_step x i r r' \<and> killed_run r'"
    using assms by cases (blast intro: top_kill delivery_killed pause_killed finishKilled_killed)+
qed

section \<open>Across runs\<close>

lemma parts_extend:
  "\<exists>evs. rn_trace (begin_pause x now reason gate r) = rn_trace r @ evs"
  "\<exists>evs. rn_trace (EnterHumanGate x missionID now action answer r) = rn_trace r @ evs"
  "\<exists>evs. rn_trace (finishKilled x now st0 k r) = rn_trace r @ evs"
  "\<exists>evs. rn_trace (end_pause x now gate r) = rn_trace r @ evs"
  "\<exists>evs. rn_trace (delivery_done x now cid res r) = rn_trace r @ evs"
  "\<exists>evs. rn_trace (handle_trigger x i now d r) = rn_trace r @ evs"
  "\<exists>evs. rn_trace (after_outcome x i ans oc r) = rn_trace r @ evs"
  by (simp_all add: begin_pause_def EnterHumanGate_def finishKilled_def end_pause_def delivery_done_def handle_trigger_def
      after_outcome_def Let_def split: option.splits)

lemma observe_extends: "\<exists>evs. rn_trace (observe_cycle x i ans r) = rn_trace r @ evs"
proof -
  have "\<exists>evs. rn_trace (after_outcome x i ans oc r1) = rn_trace r @ evs" if "rn_trace r1 = rn_trace r @ pre" for oc r1 pre
    using parts_extend(7) [of x i ans oc r1] that by auto
  then show ?thesis by (auto simp: observe_cycle_def Let_def case_prod_beta split: sum.splits)
qed

lemma step_extends: "mission_step x i r r' \<Longrightarrow> \<exists>evs. rn_trace r' = rn_trace r @ evs"
proof (induction rule: mission_step.induct)
  case (top_kill r k ks now)
  show ?case using parts_extend(3) [of x now StatusRunning k "tick i (r\<lparr>rn_kill := ks\<rparr>)"] by simp
next
  case (top_deliver r d ds now)
  show ?case using parts_extend(6) [of x i now d "tick i (r\<lparr>rn_deliver := ds\<rparr>)"] by simp
next
  case (top_pause r p ps now)
  show ?case using parts_extend(1) [of x now ReasonHumanCommand None "tick i (r\<lparr>rn_pause := ps\<rparr>)"] by simp
next
  case (top_gate r g gs now answer)
  show ?case using parts_extend(2) [of x "mn_MissionID i" now "hg_Action g" answer "tick i (r\<lparr>rn_gate := gs\<rparr>)"] by simp
next
  case (top_timer r ans)
  show ?case using observe_extends [of x i ans "tick i r"] by simp
next
  case (delivery_killed r cid k ks now)
  show ?case using parts_extend(3) [of x now StatusRunning k "emits [MCancelChild cid] (r\<lparr>rn_kill := ks\<rparr>)"] by auto
next
  case (pause_resumed r reason gate n now)
  show ?case using parts_extend(4) [of x now gate "r\<lparr>rn_resume := n\<rparr>"] by simp
next
  case (pause_killed r reason gate k ks now)
  show ?case using parts_extend(3) [of x now StatusWaiting k "r\<lparr>rn_kill := ks\<rparr>"] by simp
qed (simp_all add: parts_extend(5))

lemma reach_head:
  "mission_reach x i h r \<Longrightarrow> \<exists>t rest. rn_trace r = MTransition t # rest \<and> tr_Status t = StatusRunning"
proof (induction rule: mission_reach.induct)
  case (step i h r r')
  then show ?case using step_extends [OF step(2)] by force
qed (auto simp: mission_start_def split: option.splits)

lemma reach_history:
  "mission_reach x i h r \<Longrightarrow> h \<noteq> [] \<Longrightarrow> stream_of h \<noteq> [] \<and> tr_Status (last (stream_of h)) = StatusRunning"
proof (induction rule: mission_reach.induct)
  case (continued i h r i' e1 e2 db now r')
  then have "protocol_run (rn_trace r) (StatusPending, None) = Some (StatusRunning, None)"
    using mission_reach_follows [OF continued(1)] by (simp add: follows_protocol_def)
  from protocol_run_stream [OF this] show ?case by (auto split: if_splits)
qed simp_all

text \<open>
  A mission that continued as new has an invalid stream: the second run sends RUNNING again,
  from PENDING in its own view, although the stream of the workflow is RUNNING already.
\<close>

theorem continued_stream_invalid:
  assumes "mission_reach x i h r" and "h \<noteq> []"
  shows "\<not> valid_stream StatusPending (stream_of (h @ rn_trace r))"
proof -
  obtain t rest where t: "rn_trace r = MTransition t # rest" "tr_Status t = StatusRunning"
    using reach_head [OF assms(1)] by blast
  have "Transition_Validate t StatusRunning StatusRunning \<noteq> None" by (simp add: Transition_Validate_def)
  then show ?thesis using reach_history [OF assms] t by (simp add: valid_stream_append)
qed

section \<open>A mission of two runs\<close>

definition sample_ctx :: mission_ctx where
  "sample_ctx = \<lparr>mx_fsub = exact_sub, mx_fraction = no_fraction, mx_sha256hex = (\<lambda>s. s), mx_workflowID = ''w''\<rparr>"

definition sample_input :: "eval_state \<Rightarrow> mission_input" where
  "sample_input es = \<lparr>mn_MissionID = ''m'', mn_Contract = sample_contract ''1d'', mn_DeliveryTaskQueue = [],
     mn_CarriedDeliverySeq = 0, mn_CarriedEvalState = es, mn_CarriedIteration = 0, mn_MaxIterationsBeforeContinue = 1\<rparr>"

definition ready_db :: mission_db where
  "ready_db = one_mission\<lparr>md_loops := [(''l'', \<lparr>lo_LoopName = ''mission:m'', lo_Trigger = [], lo_Cadence = [], lo_Authority = [],
       lo_Budget = ''{}'', lo_Metrics = ''{}'', lo_ExitCondition = []\<rparr>)],
     md_ready := [\<lparr>rr_ID = ''r'', rr_MissionID = ''m'', rr_Readiness = ReadinessPass, rr_Artifact = ''{}'', rr_CreatedAt = 0\<rparr>]\<rparr>"

definition started :: "eval_state \<Rightarrow> int \<Rightarrow> mission_run" where
  "started es now = \<lparr>rn_point = AtSelect, rn_eval = es, rn_seq = 0, rn_iteration = 0, rn_kill = [], rn_deliver = [],
     rn_pause = [], rn_gate = [], rn_resume = 0,
     rn_trace = [MTransition (mission_transition ''w'' now StatusRunning [] [])]\<rparr>"

lemma daily: "parseCadence fraction ''daily'' = Some (24 * nanos_per_hour)"
proof -
  have "trim_space ''daily'' = ''daily''"
    by (rule trim_space_id) (simp_all add: space_seqs_def has_prefix_def has_suffix_def)
  then show ?thesis by (simp add: parseCadence_def cadenceWords_def lower_char_def)
qed

lemma sample_start: "mission_start sample_ctx quiet_env quiet_env ready_db (sample_input es) now = Inr (started es now)"
  using daily [of no_fraction]
  by (simp add: mission_start_def RequireLoopContract_def HasLoopContract_def loopName_def RequireReadiness_def
      HasPassingReadinessArtifact_def quiet_env_def ready_db_def sample_input_def sample_ctx_def sample_contract_def started_def)

definition quiet_answers :: "int \<Rightarrow> rat \<Rightarrow> cycle_answers" where
  "quiet_answers t usd = \<lparr>an_now = t, an_sample = Inr (paying t usd), an_budget = Inr clear_signal, an_gate = None\<rparr>"

definition miss_state :: "rat \<Rightarrow> int \<Rightarrow> eval_state" where
  "miss_state best n = \<lparr>es_ConfirmedSince = None, es_Cycles = n, es_NoProgressCycles = 0, es_BestNetMRRUSD = Fin best\<rparr>"

definition state_record :: "int \<Rightarrow> rat \<Rightarrow> int \<Rightarrow> mission_state_in" where
  "state_record t usd n = \<lparr>mt_WorkflowID = ''w'', mt_LoopIteration = 1, mt_Attempt = 0, mt_MissionID = ''m'',
     mt_EvalState = miss_state usd n, mt_Sample = paying t usd, mt_Outcome = continue_outcome, mt_At = t\<rparr>"

lemma miss_evaluation:
  assumes "0 \<le> best" and "best < usd" and "usd < 100" and "n < 2"
  shows "Mission_Evaluate exact_sub no_fraction (sample_contract ''1d'') (miss_state best n) (paying t usd) clear_signal
    = (continue_outcome, miss_state usd (n + 1))"
  using assms
  by (simp add: Mission_Evaluate_def clear_signal_def paying_def plausible_def maxPlausibleUSD_def miss_state_def
      target_met_def sample_contract_def NetMRRUSD_def f64_ge_def f64_eq_def)

lemma sample_cycle:
  assumes "0 \<le> best" and "best < usd" and "usd < 100" and "n < 2"
  shows "mission_step sample_ctx (sample_input es0) (started (miss_state best n) now)
    ((started (miss_state usd (n + 1)) now)\<lparr>rn_iteration := 1,
       rn_trace := [MTransition (mission_transition ''w'' now StatusRunning [] []), MObserve ''m'' t, MCheckBudget ''m'',
         MRecordState (state_record t usd (n + 1))]\<rparr>)"
proof -
  have "maxIterations (sample_input es0) = 1" by (simp add: maxIterations_def sample_input_def)
  then have "mission_step sample_ctx (sample_input es0) (started (miss_state best n) now)
      (observe_cycle sample_ctx (sample_input es0) (quiet_answers t usd) (tick (sample_input es0) (started (miss_state best n) now)))"
    by (intro top_timer) (simp_all add: started_def)
  moreover have "observe_cycle sample_ctx (sample_input es0) (quiet_answers t usd) (tick (sample_input es0) (started (miss_state best n) now))
    = (started (miss_state usd (n + 1)) now)\<lparr>rn_iteration := 1,
       rn_trace := [MTransition (mission_transition ''w'' now StatusRunning [] []), MObserve ''m'' t, MCheckBudget ''m'',
         MRecordState (state_record t usd (n + 1))]\<rparr>"
    using \<open>maxIterations (sample_input es0) = 1\<close> miss_evaluation [OF assms]
    by (simp add: observe_cycle_def quiet_answers_def tick_def started_def emits_def sample_ctx_def sample_input_def
        after_outcome_def continue_outcome_def state_record_def)
  ultimately show ?thesis by simp
qed

abbreviation first_events :: "mission_event list" where
  "first_events \<equiv> [MTransition (mission_transition ''w'' 0 StatusRunning [] []), MObserve ''m'' 5, MCheckBudget ''m'',
     MRecordState (state_record 5 50 1)]"

abbreviation second_events :: "mission_event list" where
  "second_events \<equiv> [MTransition (mission_transition ''w'' 10 StatusRunning [] []), MObserve ''m'' 15, MCheckBudget ''m'',
     MRecordState (state_record 15 60 2)]"

lemma two_runs:
  "\<exists>i r. mission_reach sample_ctx i first_events r \<and> rn_trace r = second_events \<and> rn_point r = AtSelect"
proof -
  let ?i = "sample_input (miss_state 0 0)"
  let ?r1 = "(started (miss_state 50 1) 0)\<lparr>rn_iteration := 1, rn_trace := first_events\<rparr>"
  have "mission_reach sample_ctx ?i [] (started (miss_state 0 0) 0)"
    by (rule mission_reach.first [OF sample_start]) (simp add: sample_input_def)
  then have 1: "mission_reach sample_ctx ?i [] ?r1"
    by (rule mission_reach.step) (use sample_cycle [of 0 50 0 "miss_state 0 0" 0 5] in simp)
  have ni: "next_input ?i ?r1 = sample_input (miss_state 50 1)"
    by (simp add: next_input_def sample_input_def started_def)
  have "mission_step sample_ctx ?i ?r1 (?r1\<lparr>rn_point := ContinuedAsNew (next_input ?i ?r1)\<rparr>)"
    by (rule top_continue) (simp_all add: started_def maxIterations_def sample_input_def)
  with 1 have "mission_reach sample_ctx ?i [] (?r1\<lparr>rn_point := ContinuedAsNew (sample_input (miss_state 50 1))\<rparr>)"
    unfolding ni by (rule mission_reach.step)
  from mission_reach.continued [OF this _ sample_start [of "miss_state 50 1" 10]]
  have "mission_reach sample_ctx (sample_input (miss_state 50 1)) first_events (started (miss_state 50 1) 10)" by simp
  then have "mission_reach sample_ctx (sample_input (miss_state 50 1)) first_events
      ((started (miss_state 60 2) 10)\<lparr>rn_iteration := 1, rn_trace := second_events\<rparr>)"
    by (rule mission_reach.step) (use sample_cycle [of 50 60 1 "miss_state 50 1" 10 15] in simp)
  then show ?thesis by (intro exI conjI) (auto simp: started_def)
qed

theorem mission_refines_protocol_witness:
  "protocol_run second_events (StatusPending, None) = Some (StatusRunning, None)
     \<and> valid_stream StatusPending (stream_of second_events)"
proof -
  obtain i r where "mission_reach sample_ctx i first_events r" "rn_trace r = second_events" "rn_point r = AtSelect"
    using two_runs by blast
  from mission_refines_protocol [OF this(1)] this(2,3) show ?thesis by simp
qed

theorem mission_children_distinct_witness:
  "\<exists>i r. mission_reach sample_ctx i first_events r \<and> distinct (child_ids (first_events @ rn_trace r))"
proof -
  obtain i r where "mission_reach sample_ctx i first_events r" using two_runs by blast
  from mission_children_distinct [OF this] this show ?thesis by blast
qed

theorem mission_kill_not_lost_witness:
  "\<exists>r'. mission_step sample_ctx (sample_input fresh_eval)
      ((started fresh_eval 0)\<lparr>rn_kill := [\<lparr>kr_RequestedBy = ''op'', kr_Reason = ''stop''\<rparr>], rn_iteration := 1\<rparr>) r' \<and> killed_run r'"
proof -
  let ?r = "(started fresh_eval 0)\<lparr>rn_kill := [\<lparr>kr_RequestedBy = ''op'', kr_Reason = ''stop''\<rparr>], rn_iteration := 1\<rparr>"
  have "rn_kill ?r = [\<lparr>kr_RequestedBy = ''op'', kr_Reason = ''stop''\<rparr>]" by simp
  from mission_kill_not_lost [OF this, of sample_ctx "sample_input fresh_eval"] show ?thesis by (simp add: started_def)
qed

text \<open>
  The iteration counter starts again in the second run, and with it the keys and row ids of the
  recordings: two different cycles are recorded under one key, so the second is dropped.
\<close>

theorem second_run_record_collides:
  "\<exists>i r a b. mission_reach sample_ctx i first_events r \<and> MRecordState a \<in> set first_events \<and> MRecordState b \<in> set (rn_trace r)
     \<and> mt_At a \<noteq> mt_At b \<and> mt_WorkflowID a = mt_WorkflowID b \<and> mt_LoopIteration a = mt_LoopIteration b \<and> mt_Attempt a = mt_Attempt b"
proof -
  obtain i r where "mission_reach sample_ctx i first_events r" "rn_trace r = second_events" using two_runs by blast
  then show ?thesis
    by (intro exI [of _ i] exI [of _ r] exI [of _ "state_record 5 50 1"] exI [of _ "state_record 15 60 2"])
      (simp add: state_record_def)
qed

end
