(* ===== verification/Portfolio.thy ===== *)
theory Portfolio
  imports Mission_Loop
begin

text \<open>
  A portfolio of missions: the in-memory portfolio (\<open>internal/mission/portfolio.go\<close>), its
  Postgres store (\<open>portfolio_store.go\<close>, migration \<open>00029\<close>) and the supervising workflow
  (\<open>portfolio_workflow.go\<close>).

  The map of missions and the sorted list of its keys are one list of missions, sorted by id.
  The store refines the in-memory portfolio: loading the rows after an operation gives the
  portfolio after the same operation. The active-mission cap is an invariant of the
  operations, a charge touches one mission only, and the scheduler keeps the missions that are
  active within one turn of each other, as long as no mission joins late.
\<close>

section \<open>The portfolio\<close>

record portfolio_mission =
  pm_ID :: string
  pm_MonthlyBudgetUSD :: f64
  pm_SpentUSD :: f64
  pm_RevenueBearing :: bool
  pm_Active :: bool
  pm_BudgetScope :: string
  pm_LastScheduledAt :: "int option"
  pm_scheduled :: int

record portfolio =
  pf_MaxActiveProducts :: int
  pf_missions :: "portfolio_mission list"

datatype portfolio_error =
    PortfolioMissionRequiresID | AlreadyInPortfolio string | CapReached string | NotInPortfolio string
  | NegativeCharge string | OverBudget string

definition NewPortfolio :: "int \<Rightarrow> portfolio" where
  "NewPortfolio maxActive = \<lparr>pf_MaxActiveProducts = maxActive, pf_missions = []\<rparr>"

definition NewPortfolioFromQuota :: "int \<Rightarrow> portfolio" where
  "NewPortfolioFromQuota maxActiveMissions = NewPortfolio maxActiveMissions"

definition ActiveCount :: "portfolio \<Rightarrow> int" where
  "ActiveCount p = int (length (filter pm_Active (pf_missions p)))"

definition atActiveCap :: "portfolio \<Rightarrow> bool" where
  "atActiveCap p = (pf_MaxActiveProducts p > 0 \<and> ActiveCount p \<ge> pf_MaxActiveProducts p)"

definition find_mission :: "string \<Rightarrow> portfolio \<Rightarrow> portfolio_mission option" where
  "find_mission mid p = find (\<lambda>m. pm_ID m = mid) (pf_missions p)"

definition AddMission :: "portfolio \<Rightarrow> portfolio_mission \<Rightarrow> portfolio_error option \<times> portfolio" where
  "AddMission p m =
     (if pm_ID m = [] then (Some PortfolioMissionRequiresID, p)
      else if find_mission (pm_ID m) p \<noteq> None then (Some (AlreadyInPortfolio (pm_ID m)), p)
      else if pm_Active m \<and> atActiveCap p then (Some (CapReached (pm_ID m)), p)
      else (None, p\<lparr>pf_missions := sort_key pm_ID (pf_missions p @ [m])\<rparr>))"

definition update_mission :: "string \<Rightarrow> (portfolio_mission \<Rightarrow> portfolio_mission) \<Rightarrow> portfolio \<Rightarrow> portfolio" where
  "update_mission mid f p = p\<lparr>pf_missions := map (\<lambda>m. if pm_ID m = mid then f m else m) (pf_missions p)\<rparr>"

definition Activate :: "portfolio \<Rightarrow> string \<Rightarrow> portfolio_error option \<times> portfolio" where
  "Activate p mid =
     (case find_mission mid p of
        None \<Rightarrow> (Some (NotInPortfolio mid), p)
      | Some m \<Rightarrow>
          if pm_Active m then (None, p)
          else if atActiveCap p then (Some (CapReached mid), p)
          else (None, update_mission mid (\<lambda>m. m\<lparr>pm_Active := True\<rparr>) p))"

definition Deactivate :: "portfolio \<Rightarrow> string \<Rightarrow> portfolio_error option \<times> portfolio" where
  "Deactivate p mid =
     (case find_mission mid p of
        None \<Rightarrow> (Some (NotInPortfolio mid), p)
      | Some m \<Rightarrow> (None, update_mission mid (\<lambda>m. m\<lparr>pm_Active := False\<rparr>) p))"

text \<open>\<open>fadd\<close> and \<open>fsub\<close> are the processor's sum and difference of two \<open>float64\<close> values.\<close>

definition Charge :: "(f64 \<Rightarrow> f64 \<Rightarrow> f64) \<Rightarrow> portfolio \<Rightarrow> string \<Rightarrow> f64 \<Rightarrow> portfolio_error option \<times> portfolio" where
  "Charge fadd p mid amount =
     (case find_mission mid p of
        None \<Rightarrow> (Some (NotInPortfolio mid), p)
      | Some m \<Rightarrow>
          if f64_less amount (Fin 0) then (Some (NegativeCharge mid), p)
          else if f64_less (Fin 0) (pm_MonthlyBudgetUSD m)
                  \<and> f64_less (pm_MonthlyBudgetUSD m) (fadd (pm_SpentUSD m) amount)
            then (Some (OverBudget mid), p)
          else (None, update_mission mid (\<lambda>m. m\<lparr>pm_SpentUSD := fadd (pm_SpentUSD m) amount\<rparr>) p))"

definition Remaining :: "(f64 \<Rightarrow> f64 \<Rightarrow> f64) \<Rightarrow> portfolio \<Rightarrow> string \<Rightarrow> f64" where
  "Remaining fsub p mid =
     (case find_mission mid p of
        None \<Rightarrow> Fin 0
      | Some m \<Rightarrow> fsub (pm_MonthlyBudgetUSD m) (pm_SpentUSD m))"

text \<open>The loop of the scheduler: the first active mission with the fewest turns.\<close>

fun pick_least :: "portfolio_mission list \<Rightarrow> portfolio_mission option \<Rightarrow> portfolio_mission option" where
  "pick_least [] pick = pick"
| "pick_least (m # ms) pick =
     (if \<not> pm_Active m then pick_least ms pick
      else (case pick of
              None \<Rightarrow> pick_least ms (Some m)
            | Some q \<Rightarrow> pick_least ms (if pm_scheduled m < pm_scheduled q then Some m else Some q)))"

definition NextScheduled :: "portfolio \<Rightarrow> string option \<times> portfolio" where
  "NextScheduled p =
     (case pick_least (pf_missions p) None of
        None \<Rightarrow> (None, p)
      | Some m \<Rightarrow> (Some (pm_ID m), update_mission (pm_ID m) (\<lambda>m. m\<lparr>pm_scheduled := pm_scheduled m + 1\<rparr>) p))"

fun Schedule :: "nat \<Rightarrow> portfolio \<Rightarrow> string list \<times> portfolio" where
  "Schedule 0 p = ([], p)"
| "Schedule (Suc rounds) p =
     (case NextScheduled p of
        (None, p') \<Rightarrow> ([], p')
      | (Some mid, p') \<Rightarrow> (let (out, p'') = Schedule rounds p' in (mid # out, p'')))"

text \<open>\<open>minv\<close> and \<open>maxv\<close> start at \<open>-1\<close>; a negative \<open>minv\<close> is replaced by the next count.\<close>

fun spread_loop :: "portfolio_mission list \<Rightarrow> int \<Rightarrow> int \<Rightarrow> int \<times> int" where
  "spread_loop [] minv maxv = (minv, maxv)"
| "spread_loop (m # ms) minv maxv =
     (if \<not> pm_Active m then spread_loop ms minv maxv
      else spread_loop ms (if minv < 0 \<or> pm_scheduled m < minv then pm_scheduled m else minv)
             (if pm_scheduled m > maxv then pm_scheduled m else maxv))"

definition FairnessSpread :: "portfolio \<Rightarrow> int" where
  "FairnessSpread p = (let (minv, maxv) = spread_loop (pf_missions p) (- 1) (- 1) in if minv < 0 then 0 else maxv - minv)"

datatype decision_kind = DecisionInvestMore | DecisionHold | DecisionKillCandidate | DecisionOther string

record portfolio_decision =
  pd_MissionID :: string
  pd_Kind :: decision_kind
  pd_RequiresHumanApproval :: bool
  pd_Rationale :: string

definition ProposeDecision :: "portfolio \<Rightarrow> string \<Rightarrow> decision_kind \<Rightarrow> string \<Rightarrow> portfolio_error + portfolio_decision" where
  "ProposeDecision p mid kind rationale =
     (case find_mission mid p of
        None \<Rightarrow> Inl (NotInPortfolio mid)
      | Some m \<Rightarrow> Inr \<lparr>pd_MissionID = mid, pd_Kind = kind,
          pd_RequiresHumanApproval = (kind = DecisionKillCandidate \<and> pm_RevenueBearing m), pd_Rationale = rationale\<rparr>)"

record panel_row =
  pw_ID :: string
  pw_Active :: bool
  pw_SpentUSD :: f64
  pw_RemainingUSD :: f64
  pw_Scheduled :: int
  pw_RevenueBearing :: bool

definition Panel :: "(f64 \<Rightarrow> f64 \<Rightarrow> f64) \<Rightarrow> portfolio \<Rightarrow> panel_row list" where
  "Panel fsub p =
     map (\<lambda>m. \<lparr>pw_ID = pm_ID m, pw_Active = pm_Active m, pw_SpentUSD = pm_SpentUSD m,
            pw_RemainingUSD = fsub (pm_MonthlyBudgetUSD m) (pm_SpentUSD m), pw_Scheduled = pm_scheduled m,
            pw_RevenueBearing = pm_RevenueBearing m\<rparr>) (pf_missions p)"

definition panel_line :: "panel_row \<Rightarrow> string" where
  "panel_line r =
     ''  '' @ [CHR 0xE2, CHR 0x80, CHR 0xA2] @ '' '' @ pw_ID r @ '' ('' @ (if pw_Active r then ''active'' else ''idle'') @ '')''
     @ (if pw_RevenueBearing r then '' '' @ [CHR 0xF0, CHR 0x9F, CHR 0x92, CHR 0xB0] else [])
     @ '' '' @ em_dash @ '' spent $'' @ show_f2 (pw_SpentUSD r) @ '', remaining $'' @ show_f2 (pw_RemainingUSD r)
     @ '', scheduled '' @ show_int (pw_Scheduled r) @ [newline]"

definition FormatPortfolioDigest :: "(f64 \<Rightarrow> f64 \<Rightarrow> f64) \<Rightarrow> portfolio \<Rightarrow> string" where
  "FormatPortfolioDigest fsub p =
     ''*Portfolio*'' @ [newline] @ ''Active '' @ show_int (ActiveCount p) @ '' / cap '' @ show_int (pf_MaxActiveProducts p)
     @ '' '' @ [CHR 0xC2, CHR 0xB7] @ '' fairness spread '' @ show_int (FairnessSpread p) @ [newline]
     @ concat (map panel_line (Panel fsub p))"

section \<open>The store\<close>

record schedule_row =
  sr_portfolio :: string
  sr_mission :: portfolio_mission

record portfolio_db =
  pb_state :: "(string \<times> int \<times> int) list"
  pb_rows :: "schedule_row list"

datatype store_portfolio_error =
    ErrPortfolioNotFound | ErrPortfolioMissionNotFound | ErrPortfolioCapReached | ErrPortfolioOverBudget
  | ErrPortfolioArgument | ErrPortfolioDB

definition portfolio_cap :: "portfolio_db \<Rightarrow> string \<Rightarrow> int option" where
  "portfolio_cap db pid = (case find (\<lambda>(q, c, v). q = pid) (pb_state db) of None \<Rightarrow> None | Some (q, c, v) \<Rightarrow> Some c)"

definition bump_version :: "string \<Rightarrow> portfolio_db \<Rightarrow> portfolio_db" where
  "bump_version pid db = db\<lparr>pb_state := map (\<lambda>(q, c, v). (q, c, if q = pid then v + 1 else v)) (pb_state db)\<rparr>"

definition rows_of :: "portfolio_db \<Rightarrow> string \<Rightarrow> portfolio_mission list" where
  "rows_of db pid = sort_key pm_ID (map sr_mission (filter (\<lambda>r. sr_portfolio r = pid) (pb_rows db)))"

definition update_row :: "string \<Rightarrow> string \<Rightarrow> (portfolio_mission \<Rightarrow> portfolio_mission) \<Rightarrow> portfolio_db \<Rightarrow> portfolio_db" where
  "update_row pid mid f db =
     db\<lparr>pb_rows := map (\<lambda>r. if sr_portfolio r = pid \<and> pm_ID (sr_mission r) = mid
            then r\<lparr>sr_mission := f (sr_mission r)\<rparr> else r) (pb_rows db)\<rparr>"

definition find_row :: "portfolio_db \<Rightarrow> string \<Rightarrow> string \<Rightarrow> portfolio_mission option" where
  "find_row db pid mid = find (\<lambda>m. pm_ID m = mid) (rows_of db pid)"

definition EnsurePortfolio :: "bool \<Rightarrow> portfolio_db \<Rightarrow> string \<Rightarrow> int \<Rightarrow> store_portfolio_error option \<times> portfolio_db" where
  "EnsurePortfolio fault db pid maxActive =
     (if pid = [] \<or> maxActive < 0 then (Some ErrPortfolioArgument, db)
      else if fault then (Some ErrPortfolioDB, db)
      else if portfolio_cap db pid \<noteq> None then (None, db)
      else (None, db\<lparr>pb_state := pb_state db @ [(pid, maxActive, 0)]\<rparr>))"

text \<open>The comparison of \<open>DOUBLE PRECISION\<close> values: NaN equals itself and is above every number.\<close>

definition pg_le :: "f64 \<Rightarrow> f64 \<Rightarrow> bool" where
  "pg_le a b = (b = NaN \<or> a = b \<or> f64_less a b)"

definition UpsertMission ::
  "bool \<Rightarrow> portfolio_db \<Rightarrow> string \<Rightarrow> portfolio_mission \<Rightarrow> store_portfolio_error option \<times> portfolio_db" where
  "UpsertMission fault db pid m =
     (if pm_ID m = [] then (Some ErrPortfolioArgument, db)
      else
        (let scope = (if pm_BudgetScope m = [] then pm_ID m else pm_BudgetScope m) in
         if fault \<or> portfolio_cap db pid = None
            \<or> \<not> (pg_le (Fin 0) (pm_MonthlyBudgetUSD m) \<and> pg_le (Fin 0) (pm_SpentUSD m)) then (Some ErrPortfolioDB, db)
         else if find_row db pid (pm_ID m) \<noteq> None
           then (None, update_row pid (pm_ID m) (\<lambda>q. q\<lparr>pm_RevenueBearing := pm_RevenueBearing m,
                  pm_MonthlyBudgetUSD := pm_MonthlyBudgetUSD m, pm_BudgetScope := scope\<rparr>) db)
         else (None, db\<lparr>pb_rows := pb_rows db @ [\<lparr>sr_portfolio = pid,
                sr_mission = m\<lparr>pm_BudgetScope := scope, pm_LastScheduledAt := None, pm_scheduled := 0\<rparr>\<rparr>]\<rparr>)))"

definition active_rows :: "portfolio_db \<Rightarrow> string \<Rightarrow> int" where
  "active_rows db pid = int (length (filter pm_Active (rows_of db pid)))"

definition mutateActive ::
  "bool \<Rightarrow> portfolio_db \<Rightarrow> string \<Rightarrow> string \<Rightarrow> bool \<Rightarrow> store_portfolio_error option \<times> portfolio_db" where
  "mutateActive fault db pid mid active =
     (if fault then (Some ErrPortfolioDB, db)
      else (case portfolio_cap db pid of
              None \<Rightarrow> (Some ErrPortfolioNotFound, db)
            | Some cap \<Rightarrow>
                (case find_row db pid mid of
                   None \<Rightarrow> (Some ErrPortfolioMissionNotFound, db)
                 | Some m \<Rightarrow>
                     if pm_Active m = active then (None, db)
                     else if active \<and> cap > 0 \<and> active_rows db pid \<ge> cap then (Some ErrPortfolioCapReached, db)
                     else (None, bump_version pid (update_row pid mid (\<lambda>m. m\<lparr>pm_Active := active\<rparr>) db)))))"

definition Store_Activate ::
  "bool \<Rightarrow> portfolio_db \<Rightarrow> string \<Rightarrow> string \<Rightarrow> store_portfolio_error option \<times> portfolio_db" where
  "Store_Activate fault db pid mid = mutateActive fault db pid mid True"

definition Store_Deactivate ::
  "bool \<Rightarrow> portfolio_db \<Rightarrow> string \<Rightarrow> string \<Rightarrow> store_portfolio_error option \<times> portfolio_db" where
  "Store_Deactivate fault db pid mid = mutateActive fault db pid mid False"

definition Store_Charge ::
  "(f64 \<Rightarrow> f64 \<Rightarrow> f64) \<Rightarrow> bool \<Rightarrow> portfolio_db \<Rightarrow> string \<Rightarrow> string \<Rightarrow> f64 \<Rightarrow> store_portfolio_error option \<times> portfolio_db" where
  "Store_Charge fadd fault db pid mid amount =
     (if f64_less amount (Fin 0) then (Some ErrPortfolioArgument, db)
      else if fault then (Some ErrPortfolioDB, db)
      else (case find_row db pid mid of
              None \<Rightarrow> (Some ErrPortfolioMissionNotFound, db)
            | Some m \<Rightarrow>
                if pm_MonthlyBudgetUSD m = Fin 0 \<or> pg_le (fadd (pm_SpentUSD m) amount) (pm_MonthlyBudgetUSD m)
                then (if pg_le (Fin 0) (fadd (pm_SpentUSD m) amount)
                      then (None, update_row pid mid (\<lambda>m. m\<lparr>pm_SpentUSD := fadd (pm_SpentUSD m) amount\<rparr>) db)
                      else (Some ErrPortfolioDB, db))
                else (Some ErrPortfolioOverBudget, db)))"

text \<open>\<open>ORDER BY scheduled ASC, mission_id ASC LIMIT 1\<close> among the active rows.\<close>

definition least_row :: "portfolio_db \<Rightarrow> string \<Rightarrow> portfolio_mission option" where
  "least_row db pid =
     (case sort_key (\<lambda>m. (pm_scheduled m, pm_ID m)) (filter pm_Active (rows_of db pid)) of [] \<Rightarrow> None | m # ms \<Rightarrow> Some m)"

definition Store_NextScheduled ::
  "bool \<Rightarrow> portfolio_db \<Rightarrow> string \<Rightarrow> int \<Rightarrow> (store_portfolio_error + string option) \<times> portfolio_db" where
  "Store_NextScheduled fault db pid now =
     (if fault then (Inl ErrPortfolioDB, db)
      else (case least_row db pid of
              None \<Rightarrow> (Inr None, db)
            | Some m \<Rightarrow> (Inr (Some (pm_ID m)),
                update_row pid (pm_ID m) (\<lambda>m. m\<lparr>pm_scheduled := pm_scheduled m + 1, pm_LastScheduledAt := Some now\<rparr>) db)))"

definition Load :: "bool \<Rightarrow> portfolio_db \<Rightarrow> string \<Rightarrow> store_portfolio_error + portfolio" where
  "Load fault db pid =
     (if fault then Inl ErrPortfolioDB
      else (case portfolio_cap db pid of
              None \<Rightarrow> Inl ErrPortfolioNotFound
            | Some cap \<Rightarrow> Inr \<lparr>pf_MaxActiveProducts = cap, pf_missions = rows_of db pid\<rparr>))"

fun activate_loop ::
  "int \<Rightarrow> string \<Rightarrow> string list \<Rightarrow> int \<Rightarrow> portfolio_db \<Rightarrow> string list \<times> portfolio_db" where
  "activate_loop cap pid [] active db = ([], db)"
| "activate_loop cap pid (mid # pending) active db =
     (if cap > 0 \<and> active \<ge> cap then ([], db)
      else (let (ids, db') = activate_loop cap pid pending (active + 1)
                   (update_row pid mid (\<lambda>m. m\<lparr>pm_Active := True\<rparr>) db) in
            (mid # ids, db')))"

definition ActivatePendingUpToCap ::
  "bool \<Rightarrow> portfolio_db \<Rightarrow> string \<Rightarrow> (store_portfolio_error + string list) \<times> portfolio_db" where
  "ActivatePendingUpToCap fault db pid =
     (if fault then (Inl ErrPortfolioDB, db)
      else (case portfolio_cap db pid of
              None \<Rightarrow> (Inl ErrPortfolioNotFound, db)
            | Some cap \<Rightarrow>
                (let pending = map pm_ID (filter (\<lambda>m. \<not> pm_Active m) (rows_of db pid));
                     (ids, db') = activate_loop cap pid pending (active_rows db pid) db in
                 (Inr ids, if ids = [] then db' else bump_version pid db'))))"

definition ActiveMissionIDs :: "bool \<Rightarrow> portfolio_db \<Rightarrow> string \<Rightarrow> store_portfolio_error + string list" where
  "ActiveMissionIDs fault db pid =
     (if fault then Inl ErrPortfolioDB else Inr (map pm_ID (filter pm_Active (rows_of db pid))))"

section \<open>The operations keep the cap\<close>

definition pf_wf :: "portfolio \<Rightarrow> bool" where
  "pf_wf p \<longleftrightarrow> distinct (map pm_ID (pf_missions p)) \<and> sorted (map pm_ID (pf_missions p))"

definition capped :: "portfolio \<Rightarrow> bool" where
  "capped p \<longleftrightarrow> (pf_MaxActiveProducts p > 0 \<longrightarrow> ActiveCount p \<le> pf_MaxActiveProducts p)"

definition keeps_id :: "(portfolio_mission \<Rightarrow> portfolio_mission) \<Rightarrow> bool" where
  "keeps_id f \<longleftrightarrow> (\<forall>m. pm_ID (f m) = pm_ID m)"

lemma map_update_ids:
  "keeps_id f \<Longrightarrow> map pm_ID (map (\<lambda>m. if pm_ID m = mid then f m else m) ms) = map pm_ID ms"
  by (induction ms) (auto simp: keeps_id_def)

lemma update_mission_wf: "keeps_id f \<Longrightarrow> pf_wf (update_mission mid f p) \<longleftrightarrow> pf_wf p"
proof -
  assume "keeps_id f"
  then have "map pm_ID (pf_missions (update_mission mid f p)) = map pm_ID (pf_missions p)"
    by (auto simp: update_mission_def keeps_id_def)
  then show ?thesis by (simp only: pf_wf_def)
qed

lemma update_mission_max [simp]: "pf_MaxActiveProducts (update_mission mid f p) = pf_MaxActiveProducts p"
  by (simp add: update_mission_def)

lemma active_update_one:
  "distinct (map pm_ID ms) \<Longrightarrow>
     length (filter pm_Active (map (\<lambda>m. if pm_ID m = mid then m\<lparr>pm_Active := True\<rparr> else m) ms)) \<le> Suc (length (filter pm_Active ms))"
proof (induction ms)
  case (Cons m ms)
  show ?case
  proof (cases "pm_ID m = mid")
    case True
    then have "map (\<lambda>m. if pm_ID m = mid then m\<lparr>pm_Active := True\<rparr> else m) ms = ms"
      using Cons.prems by (intro map_idI) (metis image_eqI distinct.simps(2) list.set_map list.simps(9))
    then show ?thesis using True by simp
  next
    case False
    then show ?thesis using Cons by auto
  qed
qed simp

lemma active_update_keep:
  "(\<And>m. pm_Active (f m) = pm_Active m) \<Longrightarrow>
     length (filter pm_Active (map (\<lambda>m. if pm_ID m = mid then f m else m) ms)) = length (filter pm_Active ms)"
  by (induction ms) auto

lemma active_update_less:
  "length (filter pm_Active (map (\<lambda>m. if pm_ID m = mid then m\<lparr>pm_Active := False\<rparr> else m) ms)) \<le> length (filter pm_Active ms)"
  by (induction ms) auto

lemma Activate_keeps: "pf_wf p \<Longrightarrow> capped p \<Longrightarrow> pf_wf (snd (Activate p mid)) \<and> capped (snd (Activate p mid))"
  using active_update_one [of "pf_missions p" mid]
  by (auto simp: Activate_def update_mission_wf keeps_id_def split: option.splits)
    (auto simp: capped_def atActiveCap_def ActiveCount_def update_mission_def pf_wf_def)

lemma Deactivate_keeps: "pf_wf p \<Longrightarrow> capped p \<Longrightarrow> pf_wf (snd (Deactivate p mid)) \<and> capped (snd (Deactivate p mid))"
  using active_update_less [of mid "pf_missions p"]
  by (auto simp: Deactivate_def update_mission_wf keeps_id_def split: option.splits)
    (auto simp: capped_def ActiveCount_def update_mission_def)

lemma neutral_update_keeps:
  "pf_wf p \<Longrightarrow> capped p \<Longrightarrow> keeps_id f \<Longrightarrow> (\<And>m. pm_Active (f m) = pm_Active m) \<Longrightarrow>
     pf_wf (update_mission mid f p) \<and> capped (update_mission mid f p)"
  using active_update_keep [of f mid "pf_missions p"]
  by (simp add: update_mission_wf) (simp add: capped_def ActiveCount_def update_mission_def)

lemma Charge_keeps: "pf_wf p \<Longrightarrow> capped p \<Longrightarrow> pf_wf (snd (Charge fadd p mid a)) \<and> capped (snd (Charge fadd p mid a))"
  by (auto simp: Charge_def keeps_id_def split: option.splits dest: neutral_update_keeps)
    (simp_all add: neutral_update_keeps keeps_id_def)

lemma NextScheduled_keeps: "pf_wf p \<Longrightarrow> capped p \<Longrightarrow> pf_wf (snd (NextScheduled p)) \<and> capped (snd (NextScheduled p))"
  by (auto simp: NextScheduled_def neutral_update_keeps keeps_id_def split: option.splits)

lemma find_mission_None: "find_mission mid p = None \<longleftrightarrow> mid \<notin> pm_ID ` set (pf_missions p)"
  by (auto simp: find_mission_def find_None_iff)

lemma filter_sort_length: "length (filter P (sort_key f xs)) = length (filter P xs)"
  by (metis mset_filter mset_sort size_mset)

lemma AddMission_keeps: "pf_wf p \<Longrightarrow> capped p \<Longrightarrow> pf_wf (snd (AddMission p m)) \<and> capped (snd (AddMission p m))"
proof -
  assume p: "pf_wf p" "capped p"
  have "distinct (map pm_ID (sort_key pm_ID (pf_missions p @ [m])))" if "find_mission (pm_ID m) p = None"
  proof -
    have "distinct (map pm_ID (pf_missions p @ [m]))" using that p(1) by (simp add: find_mission_None pf_wf_def)
    then show ?thesis by (metis distinct_map distinct_sort set_sort)
  qed
  then show ?thesis
    using p by (auto simp: AddMission_def pf_wf_def capped_def atActiveCap_def ActiveCount_def filter_sort_length)
qed

text \<open>Any sequence of the operations, from an empty portfolio.\<close>

inductive portfolio_run :: "(f64 \<Rightarrow> f64 \<Rightarrow> f64) \<Rightarrow> int \<Rightarrow> portfolio \<Rightarrow> bool" for fadd cap where
  new: "portfolio_run fadd cap (NewPortfolio cap)"
| add: "portfolio_run fadd cap p \<Longrightarrow> portfolio_run fadd cap (snd (AddMission p m))"
| activate: "portfolio_run fadd cap p \<Longrightarrow> portfolio_run fadd cap (snd (Activate p mid))"
| deactivate: "portfolio_run fadd cap p \<Longrightarrow> portfolio_run fadd cap (snd (Deactivate p mid))"
| charge: "portfolio_run fadd cap p \<Longrightarrow> portfolio_run fadd cap (snd (Charge fadd p mid a))"
| schedule: "portfolio_run fadd cap p \<Longrightarrow> portfolio_run fadd cap (snd (NextScheduled p))"

lemma ops_max [simp]:
  "pf_MaxActiveProducts (snd (AddMission p m)) = pf_MaxActiveProducts p"
  "pf_MaxActiveProducts (snd (Activate p mid)) = pf_MaxActiveProducts p"
  "pf_MaxActiveProducts (snd (Deactivate p mid)) = pf_MaxActiveProducts p"
  "pf_MaxActiveProducts (snd (Charge fadd p mid a)) = pf_MaxActiveProducts p"
  "pf_MaxActiveProducts (snd (NextScheduled p)) = pf_MaxActiveProducts p"
  by (simp_all add: AddMission_def Activate_def Deactivate_def Charge_def NextScheduled_def split: option.splits)

text \<open>
  C18: the cap of a portfolio is never exceeded: whatever missions are added, activated,
  deactivated, charged and scheduled, at most \<open>maximum_active_products\<close> missions are active, and
  every mission is listed once, in the order of the ids.
\<close>

theorem portfolio_cap_invariant:
  assumes "portfolio_run fadd cap p" and "0 < cap"
  shows "ActiveCount p \<le> cap \<and> distinct (map pm_ID (pf_missions p)) \<and> sorted (map pm_ID (pf_missions p))"
proof -
  have "pf_MaxActiveProducts p = cap \<and> pf_wf p \<and> capped p"
    using assms(1)
  proof (induction rule: portfolio_run.induct)
    case new
    then show ?case by (simp add: NewPortfolio_def pf_wf_def capped_def ActiveCount_def)
  qed (simp_all add: AddMission_keeps Activate_keeps Deactivate_keeps Charge_keeps NextScheduled_keeps)
  then show ?thesis using assms(2) unfolding capped_def pf_wf_def by metis
qed

section \<open>A charge is isolated\<close>

lemma find_update_same:
  "keeps_id f \<Longrightarrow> find (\<lambda>m. pm_ID m = mid) (map (\<lambda>m. if pm_ID m = mid then f m else m) ms)
     = map_option f (find (\<lambda>m. pm_ID m = mid) ms)"
  by (induction ms) (auto simp: keeps_id_def)

lemma find_update_other:
  "keeps_id f \<Longrightarrow> other \<noteq> mid \<Longrightarrow> find (\<lambda>m. pm_ID m = other) (map (\<lambda>m. if pm_ID m = mid then f m else m) ms)
     = find (\<lambda>m. pm_ID m = other) ms"
  by (induction ms) (auto simp: keeps_id_def)

text \<open>
  a charge draws on one envelope. It leaves every other mission as it is; when refused it
  changes nothing; when accepted it adds the amount to the mission's own spend, and a mission
  with a positive monthly budget is then not beyond it.
\<close>

theorem Charge_isolated:
  assumes "Charge fadd p mid amount = (res, p')"
  shows "(other \<noteq> mid \<longrightarrow> find_mission other p' = find_mission other p)
    \<and> (res \<noteq> None \<longrightarrow> p' = p)
    \<and> (res = None \<longrightarrow> (\<exists>m. find_mission mid p = Some m
         \<and> find_mission mid p' = Some (m\<lparr>pm_SpentUSD := fadd (pm_SpentUSD m) amount\<rparr>)
         \<and> \<not> f64_less amount (Fin 0)
         \<and> (f64_less (Fin 0) (pm_MonthlyBudgetUSD m) \<longrightarrow>
              \<not> f64_less (pm_MonthlyBudgetUSD m) (fadd (pm_SpentUSD m) amount))))"
proof -
  have k: "keeps_id (\<lambda>m. m\<lparr>pm_SpentUSD := fadd (pm_SpentUSD m) amount\<rparr>)" by (simp add: keeps_id_def)
  show ?thesis
    using assms find_update_same [OF k, of mid "pf_missions p"] find_update_other [OF k, of other mid "pf_missions p"]
    by (auto simp: Charge_def find_mission_def update_mission_def split: option.splits if_splits)
qed

definition sample_mission :: "string \<Rightarrow> bool \<Rightarrow> int \<Rightarrow> portfolio_mission" where
  "sample_mission mid active n = \<lparr>pm_ID = mid, pm_MonthlyBudgetUSD = Fin 100, pm_SpentUSD = Fin 90, pm_RevenueBearing = False,
     pm_Active = active, pm_BudgetScope = mid, pm_LastScheduledAt = None, pm_scheduled = n\<rparr>"

fun exact_add :: "f64 \<Rightarrow> f64 \<Rightarrow> f64" where
  "exact_add (Fin a) (Fin b) = Fin (a + b)"
| "exact_add a b = NaN"

definition sample_portfolio :: portfolio where
  "sample_portfolio = \<lparr>pf_MaxActiveProducts = 2, pf_missions = [sample_mission ''a'' True 0, sample_mission ''b'' True 0]\<rparr>"

theorem Charge_isolated_witness:
  "find_mission ''b'' (snd (Charge exact_add sample_portfolio ''a'' (Fin 10))) = Some (sample_mission ''b'' True 0)
     \<and> fst (Charge exact_add sample_portfolio ''a'' (Fin 11)) \<noteq> None"
proof -
  obtain res p' where 1: "Charge exact_add sample_portfolio ''a'' (Fin 10) = (res, p')" by fastforce
  obtain res2 p2 where 2: "Charge exact_add sample_portfolio ''a'' (Fin 11) = (res2, p2)" by fastforce
  have b: "find_mission ''b'' sample_portfolio = Some (sample_mission ''b'' True 0)"
    and a: "find_mission ''a'' sample_portfolio = Some (sample_mission ''a'' True 0)"
    by (simp_all add: find_mission_def sample_portfolio_def sample_mission_def)
  have "find_mission ''b'' p' = find_mission ''b'' sample_portfolio"
    using Charge_isolated [OF 1, of "''b''"] by simp
  moreover have "res2 \<noteq> None"
    using Charge_isolated [OF 2, of "''b''"] a by (auto simp: sample_mission_def)
  ultimately show ?thesis using 1 2 b by simp
qed

theorem portfolio_cap_invariant_witness:
  "ActiveCount (snd (AddMission (NewPortfolio 1) (sample_mission ''a'' True 0))) \<le> 1"
  using portfolio_cap_invariant [OF portfolio_run.add [OF portfolio_run.new [of exact_add 1], of "sample_mission ''a'' True 0"]] by simp

text \<open>
  The limit does not hold for a NaN: such a charge is accepted, the spend becomes NaN, and no
  later charge is refused.
\<close>

theorem Charge_NaN:
  assumes "\<And>v. fadd v NaN = NaN" and "\<And>v. fadd NaN v = NaN" and "find_mission mid p = Some m"
    and "\<not> f64_less amount (Fin 0)"
  shows "fst (Charge fadd p mid NaN) = None \<and> fst (Charge fadd (snd (Charge fadd p mid NaN)) mid amount) = None"
proof -
  have k: "keeps_id (\<lambda>m. m\<lparr>pm_SpentUSD := NaN\<rparr>)" by (simp add: keeps_id_def)
  have nan: "\<not> f64_less v NaN" for v by (cases v) simp_all
  have "find_mission mid (update_mission mid (\<lambda>m. m\<lparr>pm_SpentUSD := NaN\<rparr>) p) = Some (m\<lparr>pm_SpentUSD := NaN\<rparr>)"
    using find_update_same [OF k, of mid "pf_missions p"] assms(3) by (simp add: find_mission_def update_mission_def)
  then show ?thesis using assms nan by (simp add: Charge_def)
qed

section \<open>The scheduler is fair\<close>

definition fair :: "portfolio_mission list \<Rightarrow> bool" where
  "fair ms \<longleftrightarrow> (\<forall>a \<in> set ms. \<forall>b \<in> set ms. pm_Active a \<and> pm_Active b \<longrightarrow> pm_scheduled a \<le> pm_scheduled b + 1)"

definition counts_ok :: "portfolio_mission list \<Rightarrow> bool" where
  "counts_ok ms \<longleftrightarrow> (\<forall>m \<in> set ms. 0 \<le> pm_scheduled m)"

lemma pick_least_None: "pick_least ms pick = None \<longleftrightarrow> pick = None \<and> (\<forall>m \<in> set ms. \<not> pm_Active m)"
  by (induction ms arbitrary: pick) (auto split: option.splits)

lemma pick_least_Some:
  "pick_least ms pick = Some m \<Longrightarrow>
     (m \<in> set ms \<and> pm_Active m \<or> pick = Some m)
     \<and> (\<forall>q \<in> set ms. pm_Active q \<longrightarrow> pm_scheduled m \<le> pm_scheduled q)
     \<and> (\<forall>q. pick = Some q \<longrightarrow> pm_scheduled m \<le> pm_scheduled q)"
proof (induction ms arbitrary: pick)
  case (Cons a ms)
  show ?case
  proof (cases "pm_Active a")
    case False
    then show ?thesis using Cons.IH [of pick] Cons.prems by auto
  next
    case True
    then show ?thesis
      using Cons.IH [of "Some a"] Cons.IH [of pick] Cons.prems
      by (cases pick) (auto split: if_splits)
  qed
qed simp

lemma NextScheduled_fair:
  assumes "pf_wf p" and "fair (pf_missions p)" and "counts_ok (pf_missions p)"
  shows "fair (pf_missions (snd (NextScheduled p))) \<and> counts_ok (pf_missions (snd (NextScheduled p)))"
proof (cases "pick_least (pf_missions p) None")
  case None
  then show ?thesis using assms by (simp add: NextScheduled_def)
next
  case (Some m)
  note pick = pick_least_Some [OF Some]
  have m: "m \<in> set (pf_missions p)" "pm_Active m" using pick by auto
  have uniq: "q = m" if "q \<in> set (pf_missions p)" "pm_ID q = pm_ID m" for q
    using assms(1) m(1) that by (auto simp: pf_wf_def distinct_map dest: inj_onD)
  have s: "pf_missions (snd (NextScheduled p)) =
      map (\<lambda>q. if pm_ID q = pm_ID m then q\<lparr>pm_scheduled := pm_scheduled q + 1\<rparr> else q) (pf_missions p)"
    using Some by (simp add: NextScheduled_def update_mission_def)
  have le: "pm_scheduled m \<le> pm_scheduled b" if "b \<in> set (pf_missions p)" "pm_Active b" for b
    using pick that by blast
  have close: "pm_scheduled a \<le> pm_scheduled b + 1"
    if "a \<in> set (pf_missions p)" "pm_Active a" "b \<in> set (pf_missions p)" "pm_Active b" for a b
    using assms(2) that by (auto simp: fair_def)
  define up where "up = (\<lambda>q :: portfolio_mission. if pm_ID q = pm_ID m then q\<lparr>pm_scheduled := pm_scheduled q + 1\<rparr> else q)"
  have up_turns: "pm_scheduled (up a) \<le> pm_scheduled (up b) + 1"
    if "a \<in> set (pf_missions p)" "pm_Active a" "b \<in> set (pf_missions p)" "pm_Active b" for a b
    using uniq [OF that(1)] le [OF that(3,4)] close [OF that] by (auto simp: up_def)
  have up_active: "pm_Active (up q) = pm_Active q" for q by (simp add: up_def)
  have "fair (map up (pf_missions p))" by (auto simp: fair_def up_active intro: up_turns)
  moreover have "counts_ok (map up (pf_missions p))" using assms(3) by (auto simp: counts_ok_def up_def)
  ultimately show ?thesis by (simp add: s up_def)
qed

lemma spread_loop_bounds:
  assumes "\<forall>m \<in> set ms. pm_Active m \<longrightarrow> lo \<le> pm_scheduled m \<and> pm_scheduled m \<le> hi" and "0 \<le> lo"
    and "minv < 0 \<and> maxv < 0 \<or> lo \<le> minv \<and> maxv \<le> hi"
    and "spread_loop ms minv maxv = (a, b)" and "minv < 0 \<longrightarrow> maxv = - 1"
  shows "a < 0 \<or> lo \<le> a \<and> b \<le> hi"
  using assms
proof (induction ms arbitrary: minv maxv)
  case (Cons m ms)
  show ?case
  proof (cases "pm_Active m")
    case False
    then show ?thesis using Cons by simp
  next
    case True
    show ?thesis
      by (rule Cons.IH [of "if minv < 0 \<or> pm_scheduled m < minv then pm_scheduled m else minv"
            "if pm_scheduled m > maxv then pm_scheduled m else maxv"])
        (use Cons.prems True in \<open>auto split: if_splits\<close>)
  qed
qed auto

lemma fair_spread:
  assumes "fair (pf_missions p)" and "counts_ok (pf_missions p)"
  shows "FairnessSpread p \<le> 1"
proof (cases "filter pm_Active (pf_missions p)")
  case Nil
  have none: "spread_loop ms minv maxv = (minv, maxv)" if "\<forall>m \<in> set ms. \<not> pm_Active m" for ms minv maxv
    using that by (induction ms arbitrary: minv maxv) auto
  have "spread_loop (pf_missions p) (- 1) (- 1) = (- 1, - 1)"
    using Nil none by (auto simp: filter_empty_conv)
  then show ?thesis by (simp add: FairnessSpread_def)
next
  case (Cons m ms)
  let ?act = "set (filter pm_Active (pf_missions p))"
  have fin: "finite (pm_scheduled ` ?act)" and ne: "pm_scheduled ` ?act \<noteq> {}" using Cons by auto
  define lo where "lo = Min (pm_scheduled ` ?act)"
  obtain l where l: "l \<in> ?act" "lo = pm_scheduled l" using Min_in [OF fin ne] unfolding lo_def by blast
  have all: "\<forall>m \<in> set (pf_missions p). pm_Active m \<longrightarrow> lo \<le> pm_scheduled m \<and> pm_scheduled m \<le> lo + 1"
    using l assms(1) Min_le [OF fin] unfolding lo_def [symmetric] by (auto simp: fair_def)
  have "0 \<le> lo" using l assms(2) by (auto simp: counts_ok_def)
  obtain a b where ab: "spread_loop (pf_missions p) (- 1) (- 1) = (a, b)" by fastforce
  have "a < 0 \<or> lo \<le> a \<and> b \<le> lo + 1" by (rule spread_loop_bounds [OF all \<open>0 \<le> lo\<close> _ ab]) auto
  then show ?thesis by (auto simp: FairnessSpread_def ab)
qed

lemma Schedule_keeps:
  "pf_wf p \<Longrightarrow> capped p \<Longrightarrow> fair (pf_missions p) \<Longrightarrow> counts_ok (pf_missions p) \<Longrightarrow>
     fair (pf_missions (snd (Schedule n p))) \<and> counts_ok (pf_missions (snd (Schedule n p)))"
proof (induction n arbitrary: p)
  case (Suc n)
  have "pf_wf (snd (NextScheduled p))" "capped (snd (NextScheduled p))"
    "fair (pf_missions (snd (NextScheduled p)))" "counts_ok (pf_missions (snd (NextScheduled p)))"
    using NextScheduled_keeps NextScheduled_fair Suc.prems by auto
  then show ?case
    using Suc.IH [of "snd (NextScheduled p)"] by (auto split: prod.splits option.splits)
qed simp

text \<open>
  the scheduler is fair to the missions it started with: from a portfolio whose active
  missions are within one turn of each other, any number of turns leaves them within one turn,
  and the reported fairness spread is at most 1.
\<close>

theorem Schedule_spread:
  assumes "pf_wf p" and "capped p" and "fair (pf_missions p)" and "counts_ok (pf_missions p)"
  shows "FairnessSpread (snd (Schedule n p)) \<le> 1"
  using fair_spread Schedule_keeps [OF assms, of n] by blast

theorem Schedule_spread_witness: "FairnessSpread (snd (Schedule 7 sample_portfolio)) \<le> 1"
  by (rule Schedule_spread)
    (simp_all add: pf_wf_def capped_def fair_def counts_ok_def sample_portfolio_def sample_mission_def ActiveCount_def)

text \<open>
  A mission that joins late breaks the bound that the code's comments promise: it has had no
  turn, so the spread is the lead of the others, and it alone is scheduled until it has caught up.
\<close>

definition late_portfolio :: portfolio where
  "late_portfolio = snd (AddMission \<lparr>pf_MaxActiveProducts = 2, pf_missions = [sample_mission ''a'' True 3]\<rparr> (sample_mission ''b'' True 0))"

theorem late_mission_unfair:
  "FairnessSpread late_portfolio = 3 \<and> fst (Schedule 3 late_portfolio) = [''b'', ''b'', ''b'']"
  by (simp add: late_portfolio_def AddMission_def find_mission_def atActiveCap_def ActiveCount_def sample_mission_def
      FairnessSpread_def numeral_3_eq_3 NextScheduled_def update_mission_def)

section \<open>The store implements the portfolio\<close>

definition db_wf :: "portfolio_db \<Rightarrow> bool" where
  "db_wf db \<longleftrightarrow> distinct (map (\<lambda>r. (sr_portfolio r, pm_ID (sr_mission r))) (pb_rows db))"

text \<open>
  What a reader sees of a portfolio; the in-memory scheduler keeps no time stamp, so the view
  leaves it out. A portfolio without a row is empty.
\<close>

definition unstamped :: "portfolio_mission \<Rightarrow> portfolio_mission" where
  "unstamped m = m\<lparr>pm_LastScheduledAt := None\<rparr>"

definition mem_view :: "portfolio \<Rightarrow> portfolio" where
  "mem_view p = p\<lparr>pf_missions := map unstamped (pf_missions p)\<rparr>"

definition pg_view :: "string \<Rightarrow> portfolio_db \<Rightarrow> portfolio" where
  "pg_view pid db = (case Load False db pid of Inl err \<Rightarrow> NewPortfolio 0 | Inr p \<Rightarrow> mem_view p)"

datatype portfolio_op = OpActivate string | OpDeactivate string | OpSchedule int

fun mem_op :: "portfolio_op \<Rightarrow> portfolio \<Rightarrow> portfolio" where
  "mem_op (OpActivate mid) p = snd (Activate p mid)"
| "mem_op (OpDeactivate mid) p = snd (Deactivate p mid)"
| "mem_op (OpSchedule now) p = snd (NextScheduled p)"

fun pg_op :: "string \<Rightarrow> portfolio_op \<Rightarrow> portfolio_db \<Rightarrow> portfolio_db" where
  "pg_op pid (OpActivate mid) db = snd (Store_Activate False db pid mid)"
| "pg_op pid (OpDeactivate mid) db = snd (Store_Deactivate False db pid mid)"
| "pg_op pid (OpSchedule now) db = snd (Store_NextScheduled False db pid now)"

text \<open>
  The interface of a portfolio: whatever keeps one simulates the operations on what is seen of
  it. Its clients learn that the cap holds and the scheduler is fair.
\<close>

locale portfolio_impl =
  fixes op :: "portfolio_op \<Rightarrow> 's \<Rightarrow> 's"
    and view :: "'s \<Rightarrow> portfolio"
    and inv :: "'s \<Rightarrow> bool"
  assumes op_inv: "inv s \<Longrightarrow> inv (op a s)"
    and op_view: "inv s \<Longrightarrow> view (op a s) = mem_view (mem_op a (view s))"
    and inv_wf: "inv s \<Longrightarrow> pf_wf (view s)"
begin

lemma run_inv: "inv s \<Longrightarrow> inv (fold op ops s)"
  by (induction ops arbitrary: s) (simp_all add: op_inv)

lemma view_capped: "capped (mem_view p) \<longleftrightarrow> capped p"
  by (simp add: capped_def ActiveCount_def mem_view_def unstamped_def filter_map comp_def)

lemma cap_kept: "inv s \<Longrightarrow> capped (view s) \<Longrightarrow> capped (view (fold op ops s))"
proof (induction ops arbitrary: s)
  case (Cons a ops)
  have "capped (view (op a s))"
    using Cons.prems inv_wf [of s] op_view [of s a] Activate_keeps Deactivate_keeps NextScheduled_keeps
    by (cases a) (auto simp: view_capped)
  then show ?case using Cons op_inv by simp
qed simp

lemma view_fair: "fair (pf_missions (mem_view p)) \<longleftrightarrow> fair (pf_missions p)"
  by (simp add: fair_def mem_view_def unstamped_def)

lemma view_counts: "counts_ok (pf_missions (mem_view p)) \<longleftrightarrow> counts_ok (pf_missions p)"
  by (simp add: counts_ok_def mem_view_def unstamped_def)

lemma turns_fair:
  "inv s \<Longrightarrow> fair (pf_missions (view s)) \<Longrightarrow> counts_ok (pf_missions (view s)) \<Longrightarrow>
     FairnessSpread (view (fold op (map OpSchedule nows) s)) \<le> 1"
proof (induction nows arbitrary: s)
  case (Cons now nows)
  have "fair (pf_missions (view (op (OpSchedule now) s)))" "counts_ok (pf_missions (view (op (OpSchedule now) s)))"
    using Cons.prems NextScheduled_fair [OF inv_wf [OF Cons.prems(1)]] op_view [of s "OpSchedule now"]
    by (simp_all add: view_fair view_counts)
  then show ?case using Cons op_inv by simp
qed (simp add: fair_spread)

end

lemma unstamped_simps [simp]:
  "pm_ID (unstamped m) = pm_ID m" "pm_Active (unstamped m) = pm_Active m" "pm_scheduled (unstamped m) = pm_scheduled m"
  by (simp_all add: unstamped_def)

lemma unstamped_idem [simp]: "unstamped (unstamped m) = unstamped m"
  by (simp add: unstamped_def)

lemma find_mission_view: "find_mission mid (mem_view p) = map_option unstamped (find_mission mid p)"
proof -
  have "find (\<lambda>m. pm_ID m = mid) (map unstamped ms) = map_option unstamped (find (\<lambda>m. pm_ID m = mid) ms)" for ms
    by (induction ms) auto
  then show ?thesis by (simp add: find_mission_def mem_view_def)
qed

lemma ActiveCount_view: "ActiveCount (mem_view p) = ActiveCount p"
  by (simp add: ActiveCount_def mem_view_def filter_map comp_def)

lemma atActiveCap_view: "atActiveCap (mem_view p) = atActiveCap p"
  unfolding atActiveCap_def ActiveCount_view by (simp add: mem_view_def)

lemma update_view:
  "keeps_id f \<Longrightarrow> (\<And>m. unstamped (f (unstamped m)) = unstamped (g m)) \<Longrightarrow>
     mem_view (update_mission mid f (mem_view p)) = mem_view (update_mission mid g p)"
  by (simp add: mem_view_def update_mission_def)

lemma pick_view: "pick_least (map unstamped ms) (map_option unstamped pick) = map_option unstamped (pick_least ms pick)"
proof (induction ms arbitrary: pick)
  case (Cons m ms)
  show ?case
    using Cons.IH [of pick] Cons.IH [of "Some m"] by (cases pick) auto
qed simp

text \<open>The in-memory operations do not depend on what the view leaves out.\<close>

lemma mem_op_view: "mem_view (mem_op a (mem_view p)) = mem_view (mem_op a p)"
proof (cases a)
  case (OpActivate mid)
  have "mem_view (update_mission mid (\<lambda>m. m\<lparr>pm_Active := True\<rparr>) (mem_view p)) = mem_view (update_mission mid (\<lambda>m. m\<lparr>pm_Active := True\<rparr>) p)"
    by (rule update_view) (simp_all add: keeps_id_def unstamped_def)
  then show ?thesis
    unfolding OpActivate mem_op.simps Activate_def find_mission_view atActiveCap_view
    by (cases "find_mission mid p") (simp_all add: mem_view_def)
next
  case (OpDeactivate mid)
  have "mem_view (update_mission mid (\<lambda>m. m\<lparr>pm_Active := False\<rparr>) (mem_view p)) = mem_view (update_mission mid (\<lambda>m. m\<lparr>pm_Active := False\<rparr>) p)"
    by (rule update_view) (simp_all add: keeps_id_def unstamped_def)
  then show ?thesis
    unfolding OpDeactivate mem_op.simps Deactivate_def find_mission_view
    by (cases "find_mission mid p") (simp_all add: mem_view_def)
next
  case (OpSchedule now)
  have pick: "pick_least (pf_missions (mem_view p)) None = map_option unstamped (pick_least (pf_missions p) None)"
    using pick_view [of "pf_missions p" None] by (simp add: mem_view_def)
  have "mem_view (update_mission mid (\<lambda>m. m\<lparr>pm_scheduled := pm_scheduled m + 1\<rparr>) (mem_view p))
      = mem_view (update_mission mid (\<lambda>m. m\<lparr>pm_scheduled := pm_scheduled m + 1\<rparr>) p)" for mid
    by (rule update_view) (simp_all add: keeps_id_def unstamped_def)
  then show ?thesis
    unfolding OpSchedule mem_op.simps NextScheduled_def pick
    by (cases "pick_least (pf_missions p) None") (simp_all add: mem_view_def)
qed

lemma mem_view_wf: "pf_wf (mem_view p) \<longleftrightarrow> pf_wf p"
  by (simp add: pf_wf_def mem_view_def comp_def)

lemma mem_op_wf: "pf_wf p \<Longrightarrow> pf_wf (mem_op a p)"
  by (cases a)
    (auto simp: Activate_def Deactivate_def NextScheduled_def update_mission_wf keeps_id_def split: option.splits)

interpretation mem_portfolio: portfolio_impl mem_op mem_view pf_wf
  by unfold_locales (simp_all add: mem_op_view mem_op_wf mem_view_wf)

lemma insort_key_map:
  "(\<And>m. k (g m) = k m) \<Longrightarrow> insort_key k (g x) (map g xs) = map g (insort_key k x xs)"
  by (induction xs) auto

lemma sort_key_map_keep: "(\<And>m. k (g m) = k m) \<Longrightarrow> sort_key k (map g xs) = map g (sort_key k xs)"
  by (induction xs) (simp_all add: insort_key_map)

lemma rows_update:
  assumes "keeps_id f"
  shows "rows_of (update_row pid mid f db) pid = map (\<lambda>m. if pm_ID m = mid then f m else m) (rows_of db pid)"
proof -
  let ?g = "\<lambda>m. if pm_ID m = mid then f m else m"
  have "map sr_mission (filter (\<lambda>r. sr_portfolio r = pid)
      (map (\<lambda>r. if sr_portfolio r = pid \<and> pm_ID (sr_mission r) = mid then r\<lparr>sr_mission := f (sr_mission r)\<rparr> else r) rows))
    = map ?g (map sr_mission (filter (\<lambda>r. sr_portfolio r = pid) rows))" for rows :: "schedule_row list"
    by (induction rows) auto
  moreover have "sort_key pm_ID (map ?g ms) = map ?g (sort_key pm_ID ms)" for ms
    by (rule sort_key_map_keep) (use assms in \<open>simp add: keeps_id_def\<close>)
  moreover have "pb_rows (update_row pid mid f db) = map (\<lambda>r. if sr_portfolio r = pid \<and> pm_ID (sr_mission r) = mid
      then r\<lparr>sr_mission := f (sr_mission r)\<rparr> else r) (pb_rows db)"
    by (simp add: update_row_def)
  ultimately show ?thesis by (simp only: rows_of_def)
qed

lemma rows_update_other: "pid' \<noteq> pid \<Longrightarrow> rows_of (update_row pid mid f db) pid' = rows_of db pid'"
proof -
  assume "pid' \<noteq> pid"
  then have "filter (\<lambda>r. sr_portfolio r = pid')
      (map (\<lambda>r. if sr_portfolio r = pid \<and> pm_ID (sr_mission r) = mid then r\<lparr>sr_mission := f (sr_mission r)\<rparr> else r) rows)
    = filter (\<lambda>r. sr_portfolio r = pid') rows" for rows :: "schedule_row list"
    by (induction rows) auto
  then show ?thesis by (simp add: rows_of_def update_row_def)
qed

lemma cap_simps [simp]:
  "portfolio_cap (update_row pid mid f db) pid' = portfolio_cap db pid'"
  "portfolio_cap (bump_version pid db) pid' = portfolio_cap db pid'"
proof -
  have "(case find (\<lambda>(q, c, v). q = pid') (map (\<lambda>(q, c, v). (q, c, if q = pid then v + 1 else v)) xs) of None \<Rightarrow> None | Some (q, c, v) \<Rightarrow> Some c)
      = (case find (\<lambda>(q, c, v). q = pid') xs of None \<Rightarrow> None | Some (q, c, v) \<Rightarrow> Some c)" for xs :: "(string \<times> int \<times> int) list"
    by (induction xs) auto
  then show "portfolio_cap (bump_version pid db) pid' = portfolio_cap db pid'"
    by (simp add: portfolio_cap_def bump_version_def)
qed (simp add: portfolio_cap_def update_row_def)

lemma rows_bump [simp]: "rows_of (bump_version pid db) pid' = rows_of db pid'"
  by (simp add: rows_of_def bump_version_def)

lemma db_wf_update [simp]: "keeps_id f \<Longrightarrow> db_wf (update_row pid mid f db) \<longleftrightarrow> db_wf db"
proof -
  assume "keeps_id f"
  then have "map (\<lambda>r. (sr_portfolio r, pm_ID (sr_mission r))) (pb_rows (update_row pid mid f db))
      = map (\<lambda>r. (sr_portfolio r, pm_ID (sr_mission r))) (pb_rows db)"
    by (auto simp: update_row_def keeps_id_def)
  then show ?thesis by (simp only: db_wf_def)
qed

lemma db_wf_bump [simp]: "db_wf (bump_version pid db) \<longleftrightarrow> db_wf db"
  by (simp add: db_wf_def bump_version_def)

lemma rows_wf:
  assumes "db_wf db"
  shows "distinct (map pm_ID (rows_of db pid)) \<and> sorted (map pm_ID (rows_of db pid))"
proof -
  have "inj_on (\<lambda>r. (sr_portfolio r, pm_ID (sr_mission r))) (set (pb_rows db))" "distinct (pb_rows db)"
    using assms by (auto simp: db_wf_def distinct_map)
  then have "distinct (map pm_ID (map sr_mission (filter (\<lambda>r. sr_portfolio r = pid) (pb_rows db))))"
    by (auto simp: distinct_map inj_on_def)
  then have "distinct (map pm_ID (rows_of db pid))"
    unfolding rows_of_def by (metis distinct_map distinct_sort set_sort)
  then show ?thesis by (simp add: rows_of_def)
qed

lemma pg_view_Some:
  "portfolio_cap db pid = Some cap \<Longrightarrow> pg_view pid db = mem_view \<lparr>pf_MaxActiveProducts = cap, pf_missions = rows_of db pid\<rparr>"
  by (simp add: pg_view_def Load_def)

lemma pg_view_None: "portfolio_cap db pid = None \<Longrightarrow> pg_view pid db = NewPortfolio 0"
  by (simp add: pg_view_def Load_def)

lemma mem_op_empty: "mem_op a (NewPortfolio 0) = NewPortfolio 0" "mem_view (NewPortfolio n) = NewPortfolio n"
  by (cases a) (simp_all add: NewPortfolio_def Activate_def Deactivate_def NextScheduled_def find_mission_def mem_view_def)

text \<open>The database's pick is the scheduler's.\<close>

lemma pick_least_first:
  "sorted (map pm_ID ms) \<Longrightarrow> (\<forall>p. pick = Some p \<longrightarrow> (\<forall>q \<in> set ms. pm_ID p \<le> pm_ID q)) \<Longrightarrow> pick_least ms pick = Some m \<Longrightarrow>
     (\<forall>q \<in> set ms. pm_Active q \<longrightarrow> (pm_scheduled m, pm_ID m) \<le> (pm_scheduled q, pm_ID q))
     \<and> (\<forall>p. pick = Some p \<longrightarrow> (pm_scheduled m, pm_ID m) \<le> (pm_scheduled p, pm_ID p))"
proof (induction ms arbitrary: pick)
  case (Cons a ms)
  show ?case
  proof (cases "pm_Active a")
    case False
    then show ?thesis using Cons.IH [of pick] Cons.prems by auto
  next
    case True
    show ?thesis
    proof (cases "\<exists>p. pick = Some p \<and> \<not> pm_scheduled a < pm_scheduled p")
      case keep: True
      then obtain p where p: "pick = Some p" "\<not> pm_scheduled a < pm_scheduled p" by blast
      then have "pick_least ms (Some p) = Some m" using Cons.prems(3) True by simp
      moreover have "\<forall>q \<in> set ms. pm_ID p \<le> pm_ID q" "pm_ID p \<le> pm_ID a" using Cons.prems(2) p by auto
      ultimately show ?thesis using Cons.IH [of "Some p"] Cons.prems(1) p by (auto simp: less_eq_prod_def)
    next
      case False
      then have "pick_least ms (Some a) = Some m" using Cons.prems(3) True by (cases pick) auto
      moreover have "\<forall>q \<in> set ms. pm_ID a \<le> pm_ID q" using Cons.prems(1) by auto
      ultimately have "\<forall>q \<in> set ms. pm_Active q \<longrightarrow> (pm_scheduled m, pm_ID m) \<le> (pm_scheduled q, pm_ID q)"
        and ma: "(pm_scheduled m, pm_ID m) \<le> (pm_scheduled a, pm_ID a)"
        using Cons.IH [of "Some a"] Cons.prems(1) by auto
      moreover have "(pm_scheduled a, pm_ID a) \<le> (pm_scheduled p, pm_ID p)" if "pick = Some p" for p
        using False that by (auto simp: less_eq_prod_def not_less)
      ultimately show ?thesis using ma by (auto intro: order_trans)
    qed
  qed
qed simp

lemma least_row_pick:
  assumes "db_wf db"
  shows "least_row db pid = pick_least (rows_of db pid) None"
proof (cases "pick_least (rows_of db pid) None")
  case None
  then have "filter pm_Active (rows_of db pid) = []" by (simp add: pick_least_None filter_empty_conv)
  then show ?thesis using None by (simp add: least_row_def)
next
  case (Some m)
  let ?key = "\<lambda>m. (pm_scheduled m, pm_ID m)"
  let ?act = "filter pm_Active (rows_of db pid)"
  have m: "m \<in> set ?act" using pick_least_Some [OF Some] by auto
  have min: "?key m \<le> ?key q" if "q \<in> set ?act" for q
    using pick_least_first [OF _ _ Some] rows_wf [OF assms, of pid] that by auto
  obtain h t where ht: "sort_key ?key ?act = h # t" using m sort_key_Nil_iff [of ?key ?act] by (cases "sort_key ?key ?act") (auto simp: filter_empty_conv)
  have h: "h \<in> set ?act" using ht by (metis list.set_intros(1) set_sort)
  have "sorted (map ?key (sort_key ?key ?act))" by simp
  then have "sorted (map ?key (h # t))" unfolding ht .
  moreover have "m \<in> set (h # t)" using m unfolding ht [symmetric] by simp
  ultimately have "?key h \<le> ?key m" by auto
  then have "pm_ID h = pm_ID m" using min [OF h] by (auto simp: less_eq_prod_def)
  then have "h = m"
    using rows_wf [OF assms, of pid] h m by (auto simp: distinct_map dest: inj_onD)
  then show ?thesis using ht Some by (simp add: least_row_def)
qed

lemma find_row_view:
  "find_row db pid mid = find_mission mid \<lparr>pf_MaxActiveProducts = cap, pf_missions = rows_of db pid\<rparr>"
  by (simp add: find_row_def find_mission_def)

lemma update_idle:
  assumes "distinct (map pm_ID (pf_missions p))" and "find_mission mid p = Some m" and "f m = m"
  shows "update_mission mid f p = p"
proof -
  have m: "m \<in> set (pf_missions p)" "pm_ID m = mid" using assms(2) by (auto simp: find_mission_def find_Some_iff)
  have "f q = q" if "q \<in> set (pf_missions p)" "pm_ID q = mid" for q
    using assms(1,3) m that by (metis distinct_map inj_onD)
  then have "map (\<lambda>m. if pm_ID m = mid then f m else m) (pf_missions p) = pf_missions p" by (intro map_idI) auto
  then show ?thesis by (simp add: update_mission_def)
qed

lemma mutate_refines:
  fixes p :: portfolio
  assumes "db_wf db" and "portfolio_cap db pid = Some cap"
  defines "p \<equiv> \<lparr>pf_MaxActiveProducts = cap, pf_missions = rows_of db pid\<rparr>"
  shows "pg_view pid (snd (mutateActive False db pid mid active)) = mem_view (snd (if active then Activate p mid else Deactivate p mid))
    \<and> (fst (mutateActive False db pid mid active) = None \<longleftrightarrow> fst (if active then Activate p mid else Deactivate p mid) = None)"
proof -
  let ?f = "\<lambda>m :: portfolio_mission. m\<lparr>pm_Active := active\<rparr>"
  have k: "keeps_id ?f" by (simp add: keeps_id_def)
  have fm: "find_row db pid mid = find_mission mid p" unfolding p_def by (rule find_row_view)
  have up: "pg_view pid (bump_version pid (update_row pid mid ?f db)) = mem_view (update_mission mid ?f p)"
    using assms(2) rows_update [OF k, of pid mid db] by (simp add: pg_view_Some p_def update_mission_def)
  have here: "pg_view pid db = mem_view p" using assms(2) by (simp add: pg_view_Some p_def)
  have cap: "atActiveCap p \<longleftrightarrow> cap > 0 \<and> active_rows db pid \<ge> cap"
    by (simp add: atActiveCap_def ActiveCount_def active_rows_def p_def)
  show ?thesis
  proof (cases "find_mission mid p")
    case None
    then show ?thesis using here fm assms(2) by (simp add: mutateActive_def Activate_def Deactivate_def)
  next
    case (Some m)
    show ?thesis
    proof (cases "pm_Active m = active")
      case True
      then have "update_mission mid ?f p = p"
        using update_idle [OF _ Some, of ?f] rows_wf [OF assms(1), of pid] by (auto simp: p_def)
      then show ?thesis using here fm assms(2) Some True by (auto simp: mutateActive_def Activate_def Deactivate_def)
    next
      case False
      then show ?thesis
        using up here fm assms(2) Some cap by (cases active) (auto simp: mutateActive_def Activate_def Deactivate_def)
    qed
  qed
qed

lemma schedule_refines:
  fixes p :: portfolio
  assumes "db_wf db" and "portfolio_cap db pid = Some cap"
  defines "p \<equiv> \<lparr>pf_MaxActiveProducts = cap, pf_missions = rows_of db pid\<rparr>"
  shows "pg_view pid (snd (Store_NextScheduled False db pid now)) = mem_view (snd (NextScheduled p))
    \<and> fst (Store_NextScheduled False db pid now) = Inr (fst (NextScheduled p))"
proof -
  let ?f = "\<lambda>m :: portfolio_mission. m\<lparr>pm_scheduled := pm_scheduled m + 1, pm_LastScheduledAt := Some now\<rparr>"
  have k: "keeps_id ?f" by (simp add: keeps_id_def)
  have pick: "least_row db pid = pick_least (pf_missions p) None"
    using least_row_pick [OF assms(1)] by (simp add: p_def)
  have up: "pg_view pid (update_row pid mid ?f db) = mem_view (update_mission mid (\<lambda>m. m\<lparr>pm_scheduled := pm_scheduled m + 1\<rparr>) p)" for mid
    using assms(2) rows_update [OF k, of pid mid db]
    by (simp add: pg_view_Some p_def update_mission_def mem_view_def unstamped_def)
  show ?thesis
    using up pick assms(2)
    by (cases "pick_least (pf_missions p) None")
      (simp_all add: Store_NextScheduled_def NextScheduled_def pg_view_Some p_def)
qed

lemma pg_op_wf: "db_wf db \<Longrightarrow> db_wf (pg_op pid a db)"
  by (cases a)
    (auto simp: Store_Activate_def Store_Deactivate_def mutateActive_def Store_NextScheduled_def keeps_id_def split: option.splits)

lemma pg_op_cap: "portfolio_cap (pg_op pid a db) pid' = portfolio_cap db pid'"
  by (cases a)
    (auto simp: Store_Activate_def Store_Deactivate_def mutateActive_def Store_NextScheduled_def split: option.splits)

lemma pg_op_view:
  assumes "db_wf db"
  shows "pg_view pid (pg_op pid a db) = mem_view (mem_op a (pg_view pid db))"
proof (cases "portfolio_cap db pid")
  case None
  then show ?thesis by (simp add: pg_view_None pg_op_cap mem_op_empty)
next
  case (Some cap)
  have "pg_view pid (pg_op pid a db) = mem_view (mem_op a \<lparr>pf_MaxActiveProducts = cap, pf_missions = rows_of db pid\<rparr>)"
    using mutate_refines [OF assms Some] schedule_refines [OF assms Some]
    by (cases a) (auto simp: Store_Activate_def Store_Deactivate_def)
  then show ?thesis using Some by (simp add: pg_view_Some mem_op_view)
qed

lemma pg_view_wf: "db_wf db \<Longrightarrow> pf_wf (pg_view pid db)"
  using rows_wf [of db pid]
  by (cases "portfolio_cap db pid")
    (simp_all add: pg_view_None pg_view_Some mem_view_wf, simp_all add: pf_wf_def NewPortfolio_def)

interpretation pg_portfolio: portfolio_impl "pg_op pid" "pg_view pid" db_wf
  for pid
  by unfold_locales (simp_all add: pg_op_wf pg_op_view pg_view_wf)

lemma pg_op_other:
  assumes "pid' \<noteq> pid"
  shows "pg_view pid' (pg_op pid a db) = pg_view pid' db"
proof -
  have "rows_of (pg_op pid a db) pid' = rows_of db pid'"
    using rows_update_other [OF assms]
    by (cases a) (auto simp: Store_Activate_def Store_Deactivate_def mutateActive_def Store_NextScheduled_def split: option.splits)
  then show ?thesis by (cases "portfolio_cap db pid'") (simp_all add: pg_view_Some pg_view_None pg_op_cap)
qed


definition sample_rows :: portfolio_db where
  "sample_rows = \<lparr>pb_state = [(''p'', 1, 0)],
     pb_rows = [\<lparr>sr_portfolio = ''p'', sr_mission = sample_mission ''a'' True 0\<rparr>, \<lparr>sr_portfolio = ''p'', sr_mission = sample_mission ''b'' False 0\<rparr>]\<rparr>"

lemma sample_rows_wf: "db_wf sample_rows"
  by (simp add: db_wf_def sample_rows_def sample_mission_def)


section \<open>Admission of pending missions\<close>

lemma activate_loop_ids: "0 < cap \<Longrightarrow> fst (activate_loop cap pid pending active db) = take (nat (cap - active)) pending"
proof (induction pending arbitrary: active db)
  case (Cons mid pending)
  show ?case
  proof (cases "active \<ge> cap")
    case False
    then have "nat (cap - active) = Suc (nat (cap - (active + 1)))" by linarith
    then show ?thesis using Cons False by (simp add: case_prod_beta)
  qed (use Cons.prems in simp)
qed simp

lemma activate_loop_rows:
  "rows_of (snd (activate_loop cap pid pending active db)) pid =
     map (\<lambda>m. if pm_ID m \<in> set (fst (activate_loop cap pid pending active db)) then m\<lparr>pm_Active := True\<rparr> else m) (rows_of db pid)"
proof (induction pending arbitrary: active db)
  case (Cons mid pending)
  show ?case
  proof (cases "cap > 0 \<and> active \<ge> cap")
    case False
    have "keeps_id (\<lambda>m :: portfolio_mission. m\<lparr>pm_Active := True\<rparr>)" by (simp add: keeps_id_def)
    then show ?thesis using Cons False by (auto simp: case_prod_beta rows_update)
  qed simp
qed simp

lemma filter_in_take:
  "distinct (map f xs) \<Longrightarrow> filter (\<lambda>x. f x \<in> set (take n (map f xs))) xs = take n xs"
proof (induction xs arbitrary: n)
  case (Cons x xs)
  show ?case
  proof (cases n)
    case (Suc k)
    have "filter (\<lambda>y. f y = f x \<or> f y \<in> set (take k (map f xs))) xs = filter (\<lambda>y. f y \<in> set (take k (map f xs))) xs"
      using Cons.prems by (intro filter_cong) (auto simp: image_iff)
    then show ?thesis using Cons Suc by (simp add: take_map)
  qed simp
qed simp

lemma count_activated:
  fixes ms :: "portfolio_mission list"
  assumes "distinct (map pm_ID ms)" and "ids = take n (map pm_ID (filter (\<lambda>m. \<not> pm_Active m) ms))"
  shows "length (filter pm_Active (map (\<lambda>m. if pm_ID m \<in> set ids then m\<lparr>pm_Active := True\<rparr> else m) ms))
    = length (filter pm_Active ms) + length ids"
proof -
  let ?idle = "filter (\<lambda>m. \<not> pm_Active m) ms"
  have "distinct (map pm_ID ?idle)" using assms(1) by (simp add: distinct_map_filter)
  then have idle: "length (filter (\<lambda>m. pm_ID m \<in> set ids) ?idle) = length ids"
    unfolding assms(2) using filter_in_take [of pm_ID ?idle n] by (simp del: filter_filter)
  have "length (filter pm_Active (map (\<lambda>m. if pm_ID m \<in> S then m\<lparr>pm_Active := True\<rparr> else m) ms))
      = length (filter pm_Active ms) + length (filter (\<lambda>m. pm_ID m \<in> S) (filter (\<lambda>m. \<not> pm_Active m) ms))" for S and ms :: "portfolio_mission list"
    by (induction ms) auto
  then show ?thesis using idle by simp
qed

text \<open>
  the supervisor's admission step fills a portfolio exactly: with a positive cap that is not
  yet exceeded, it activates pending missions in the order of their ids until the cap is
  reached or none is pending, and no other mission changes.
\<close>

theorem ActivatePendingUpToCap_fills:
  assumes "db_wf db" and "portfolio_cap db pid = Some cap" and "0 < cap" and "active_rows db pid \<le> cap"
  shows "\<exists>ids db'. ActivatePendingUpToCap False db pid = (Inr ids, db')
    \<and> ids = take (nat (cap - active_rows db pid)) (map pm_ID (filter (\<lambda>m. \<not> pm_Active m) (rows_of db pid)))
    \<and> rows_of db' pid = map (\<lambda>m. if pm_ID m \<in> set ids then m\<lparr>pm_Active := True\<rparr> else m) (rows_of db pid)
    \<and> active_rows db' pid = min cap (int (length (rows_of db pid)))"
proof -
  let ?pending = "map pm_ID (filter (\<lambda>m. \<not> pm_Active m) (rows_of db pid))"
  obtain ids db1 where l: "activate_loop cap pid ?pending (active_rows db pid) db = (ids, db1)" by fastforce
  have ids: "ids = take (nat (cap - active_rows db pid)) ?pending" using activate_loop_ids [OF assms(3)] l by (metis fst_conv)
  have rows: "rows_of db1 pid = map (\<lambda>m. if pm_ID m \<in> set ids then m\<lparr>pm_Active := True\<rparr> else m) (rows_of db pid)"
    using activate_loop_rows [of cap pid ?pending "active_rows db pid" db] l by simp
  have "length (filter pm_Active (rows_of db1 pid)) = length (filter pm_Active (rows_of db pid)) + length ids"
    unfolding rows by (rule count_activated [OF _ ids]) (use rows_wf [OF assms(1)] in simp)
  moreover have "length (filter pm_Active (rows_of db pid)) + length ?pending = length (rows_of db pid)"
    using sum_length_filter_compl [of pm_Active "rows_of db pid"] by simp
  ultimately have "active_rows db1 pid = min cap (int (length (rows_of db pid)))"
    using assms(4) ids by (simp add: active_rows_def)
  then show ?thesis
    using assms(2) l ids rows by (auto simp: ActivatePendingUpToCap_def active_rows_def)
qed

theorem ActivatePendingUpToCap_fills_witness:
  "\<exists>ids db'. ActivatePendingUpToCap False (sample_rows\<lparr>pb_state := [(''p'', 3, 0)]\<rparr>) ''p'' = (Inr ids, db') \<and> active_rows db' ''p'' = 2"
proof -
  let ?db = "sample_rows\<lparr>pb_state := [(''p'', 3, 0)]\<rparr>"
  have wf: "db_wf ?db" using sample_rows_wf by (simp add: db_wf_def)
  have rows: "rows_of ?db ''p'' = [sample_mission ''a'' True 0, sample_mission ''b'' False 0]"
    by (simp add: rows_of_def sample_rows_def sample_mission_def)
  have "portfolio_cap ?db ''p'' = Some 3" by (simp add: portfolio_cap_def)
  moreover have "active_rows ?db ''p'' \<le> 3" unfolding active_rows_def rows by (simp add: sample_mission_def)
  ultimately obtain ids db' where "ActivatePendingUpToCap False ?db ''p'' = (Inr ids, db')"
      "active_rows db' ''p'' = min 3 (int (length (rows_of ?db ''p'')))"
    using ActivatePendingUpToCap_fills [OF wf, of "''p''" 3] by auto
  then show ?thesis unfolding rows by auto
qed

text \<open>
  Registering a mission that is marked active does not look at the cap: with a cap of 1 the
  second such registration leaves two active missions.
\<close>

theorem UpsertMission_ignores_cap:
  "active_rows (snd (UpsertMission False sample_rows ''p'' (sample_mission ''c'' True 0))) ''p'' = 2 \<and> portfolio_cap sample_rows ''p'' = Some 1"
  by (simp add: UpsertMission_def sample_rows_def portfolio_cap_def sample_mission_def pg_le_def find_row_def rows_of_def active_rows_def)

section \<open>The supervisor\<close>

record portfolio_input =
  pi_PortfolioID :: string
  pi_MissionTaskQueue :: string
  pi_DeliveryTaskQueue :: string
  pi_CadenceSeconds :: int
  pi_MaxIterations :: int
  pi_CarriedIteration :: int

record active_mission =
  am_MissionID :: string
  am_WorkflowID :: string
  am_Contract :: contract

record reconcile_result =
  rc_Activated :: "string list"
  rc_Active :: "active_mission list"
  rc_ScheduledPick :: string
  rc_FairnessSpread :: int

definition PortfolioWorkflowID :: "string \<Rightarrow> string" where
  "PortfolioWorkflowID pid = ''portfolio-'' @ pid"

definition zero_contract :: contract where
  "zero_contract =
     \<lparr>mc_ID = [], mc_Statement = [],
      mc_Target = \<lparr>tg_Metric = [], tg_Source = [], tg_Verification = [], tg_AmountUSD = Fin 0, tg_ConfirmationWindow = [],
        tg_MinimumUnrelatedPayingCustomers = 0, tg_RefundChargebackRateBelow = Fin 0\<rparr>,
      mc_Budget = \<lparr>mb_MonthlyUSD = Fin 0, mb_TotalExperimentUSD = Fin 0\<rparr>, mc_Cadence = \<lparr>ca_Observe = [], ca_Improve = []\<rparr>,
      mc_Constraints = \<lparr>lc_MaximumActiveProducts = 0, lc_MaximumValidationCycles = 0, lc_MaximumNoProgressCycles = 0\<rparr>,
      mc_PauseWhen = [], mc_TerminateWhen = [], mc_PostSuccessPolicy = [], mc_RequiresBuildVerdict = False\<rparr>"

text \<open>\<open>missions\<close> is \<open>GetMission\<close> of the mission store, \<^const>\<open>None\<close> when no store is configured.\<close>

definition active_of :: "(string \<Rightarrow> mission_error + mission) option \<Rightarrow> string \<Rightarrow> active_mission" where
  "active_of missions mid =
     (let base = \<lparr>am_MissionID = mid, am_WorkflowID = ''mission-'' @ mid, am_Contract = zero_contract\<rparr> in
      case missions of
        None \<Rightarrow> base
      | Some get \<Rightarrow>
          (case get mid of
             Inl err \<Rightarrow> base
           | Inr m \<Rightarrow> base\<lparr>am_WorkflowID := ms_WorkflowID m, am_Contract := ms_Contract m\<rparr>))"

text \<open>The four calls of the activity may fail one by one; \<open>faults\<close> says which.\<close>

definition ReconcilePortfolio ::
  "bool \<times> bool \<times> bool \<times> bool \<Rightarrow> (string \<Rightarrow> mission_error + mission) option \<Rightarrow> portfolio_db \<Rightarrow> string \<Rightarrow> int
     \<Rightarrow> (store_portfolio_error + reconcile_result) \<times> portfolio_db" where
  "ReconcilePortfolio faults missions db0 pid now =
     (case faults of (f1, f2, f3, f4) \<Rightarrow>
        case ActivatePendingUpToCap f1 db0 pid of
          (Inl err, db1) \<Rightarrow> (Inl err, db1)
        | (Inr activated, db1) \<Rightarrow>
            (case ActiveMissionIDs f2 db1 pid of
               Inl err \<Rightarrow> (Inl err, db1)
             | Inr ids \<Rightarrow>
                 (case Store_NextScheduled f3 db1 pid now of
                    (Inl err, db2) \<Rightarrow> (Inl err, db2)
                  | (Inr pick, db2) \<Rightarrow>
                      (case Load f4 db2 pid of
                         Inl err \<Rightarrow> (Inl err, db2)
                       | Inr loaded \<Rightarrow>
                           (Inr \<lparr>rc_Activated = activated, rc_Active = map (active_of missions) ids,
                              rc_ScheduledPick = (case pick of None \<Rightarrow> [] | Some mid \<Rightarrow> mid),
                              rc_FairnessSpread = FairnessSpread loaded\<rparr>, db2)))))"

text \<open>A child start: the workflow id, the task queue and the input of the mission.\<close>

definition startMissionChild :: "portfolio_input \<Rightarrow> active_mission \<Rightarrow> string \<times> string \<times> mission_input" where
  "startMissionChild i m =
     ((if am_WorkflowID m = [] then ''mission-'' @ am_MissionID m else am_WorkflowID m), pi_MissionTaskQueue i,
      \<lparr>mn_MissionID = am_MissionID m, mn_Contract = am_Contract m, mn_DeliveryTaskQueue = pi_DeliveryTaskQueue i,
       mn_CarriedDeliverySeq = 0, mn_CarriedEvalState = fresh_eval, mn_CarriedIteration = 0, mn_MaxIterationsBeforeContinue = 0\<rparr>)"

datatype portfolio_end = PortfolioFailed store_portfolio_error | PortfolioSleepCancelled | PortfolioContinued portfolio_input | PortfolioRunning

definition maxIter :: "portfolio_input \<Rightarrow> int" where
  "maxIter i = (if pi_MaxIterations i \<le> 0 then 500 else pi_MaxIterations i)"

text \<open>
  The loop over the answers of its activity, one per tick: the child starts, and how the run
  ends; with no further answer the loop is still running. The second component of an answer is
  whether the sleep after the tick is cancelled.
\<close>

fun PortfolioLoop ::
  "portfolio_input \<Rightarrow> int \<Rightarrow> ((store_portfolio_error + reconcile_result) \<times> bool) list \<Rightarrow> (string \<times> string \<times> mission_input) list \<times> portfolio_end" where
  "PortfolioLoop i iteration [] = ([], PortfolioRunning)"
| "PortfolioLoop i iteration ((answer, cancelled) # ticks) =
     (case answer of
        Inl err \<Rightarrow> ([], PortfolioFailed err)
      | Inr res \<Rightarrow>
          (let starts = map (startMissionChild i) (rc_Active res) in
           if iteration + 1 \<ge> maxIter i
             then (starts, PortfolioContinued (i\<lparr>pi_CarriedIteration := 0\<rparr>))
           else if cancelled then (starts, PortfolioSleepCancelled)
           else (let (more, end1) = PortfolioLoop i (iteration + 1) ticks in (starts @ more, end1))))"

text \<open>
  A run of the supervisor is bounded: however its activity answers, it ends or continues as new
  before it has made more than the configured number of ticks.
\<close>

theorem PortfolioLoop_bounded:
  assumes "maxIter i - iteration \<le> int (length ticks)" and "ticks \<noteq> []"
  shows "snd (PortfolioLoop i iteration ticks) \<noteq> PortfolioRunning"
  using assms
proof (induction i iteration ticks rule: PortfolioLoop.induct)
  case (2 i iteration answer cancelled ticks)
  show ?case
  proof (cases answer)
    case (Inr res)
    show ?thesis
    proof (cases "iteration + 1 \<ge> maxIter i \<or> cancelled")
      case False
      then have "ticks \<noteq> []" "maxIter i - (iteration + 1) \<le> int (length ticks)" using "2.prems" by auto
      then show ?thesis using 2(1) [OF Inr refl] False Inr by (auto simp: case_prod_beta)
    qed (use Inr in \<open>auto simp: Let_def\<close>)
  qed simp
qed simp

text \<open>A mission whose row cannot be read is started with the empty contract, which refuses to start.\<close>

lemma empty_cadence: "parseCadence fraction [] = None"
proof -
  have "trim_space [] = []"
    by (simp add: trim_space_def trim_left_space.simps [of "[]"] trim_right_space.simps [of "[]"] space_seqs_def has_prefix_def has_suffix_def)
  then show ?thesis
    by (simp add: parseCadence_def cadenceWords_def parseDuration_def has_suffix_def ParseDuration_def has_prefix_def)
qed

theorem unreadable_mission_refused:
  "missions mid = Inl err \<Longrightarrow>
     \<exists>e. mission_start x e1 e2 db (snd (snd (startMissionChild i (active_of (Some missions) mid)))) now = Inl e"
  by (auto simp: active_of_def startMissionChild_def mission_start_def zero_contract_def empty_cadence split: option.splits)

end
