(* ===== verification/Improvement.thy ===== *)
theory Improvement
  imports Mission_Store Admission
begin

text \<open>
  What a mission does between deliveries: the decision from its observations
  (\<open>internal/mission/observe.go\<close>), the bounded improvement cycle (\<open>improve.go\<close>) and the child
  workflow that sequences one improvement (\<open>improvement_workflow.go\<close>,
  \<open>improvement_activities.go\<close>). An admitted improvement is never frozen, never outside the
  tiers of the profile and never below what its effects call for; the workflow delivers only
  what was admitted. The generator of improvement plans is the specification pipeline, which is
  not modelled; it is an argument here.
\<close>

section \<open>Decide\<close>

record observation =
  ob_At :: int
  ob_ActivationRate :: f64
  ob_ConversionRate :: f64
  ob_NetMRRUSD :: f64
  ob_CostToDateUSD :: f64
  ob_NoProgressCycles :: int

datatype decide = DecideContinue | DecideImprove | DecidePivot | DecideKillCandidate

record decide_policy =
  dp_NoProgressCyclesForKill :: int
  dp_DeclineStreakForPivot :: int

datatype policy_file_error = ReadPolicy string | DecodePolicy string

text \<open>\<open>decode\<close> is \<open>yaml.Unmarshal\<close>, which ignores unknown keys and leaves absent ones zero.\<close>

definition ParseDecidePolicyYAML ::
  "(string \<Rightarrow> decide_policy option) \<Rightarrow> string \<Rightarrow> string \<Rightarrow> policy_file_error + decide_policy" where
  "ParseDecidePolicyYAML decode raw source0 =
     (let source = (if source0 = [] then ''<memory>'' else source0) in
      case decode raw of None \<Rightarrow> Inl (DecodePolicy source) | Some p \<Rightarrow> Inr p)"

definition LoadDecidePolicy ::
  "(string \<Rightarrow> string option) \<Rightarrow> (string \<Rightarrow> decide_policy option) \<Rightarrow> string \<Rightarrow> policy_file_error + decide_policy" where
  "LoadDecidePolicy read decode path =
     (case read path of None \<Rightarrow> Inl (ReadPolicy path) | Some raw \<Rightarrow> ParseDecidePolicyYAML decode raw path)"

text \<open>The loop from the newest observation back; the argument is the reversed history.\<close>

fun decline_loop :: "observation list \<Rightarrow> int \<Rightarrow> int" where
  "decline_loop (new # old # rest) declines =
     (if f64_less (ob_NetMRRUSD new) (ob_NetMRRUSD old) then decline_loop (old # rest) (declines + 1) else declines)"
| "decline_loop _ declines = declines"

definition DecideFromObservations :: "observation list \<Rightarrow> decide_policy \<Rightarrow> decide" where
  "DecideFromObservations history policy =
     (if history = [] then DecideContinue
      else
        (let newest = last history in
         if ob_NoProgressCycles newest \<ge> dp_NoProgressCyclesForKill policy then DecideKillCandidate
         else if decline_loop (rev history) 0 \<ge> dp_DeclineStreakForPivot policy then DecidePivot
         else if f64_less (ob_ActivationRate newest) (Fin (1 / 10)) \<or> f64_less (ob_ConversionRate newest) (Fin (2 / 100))
           then DecideImprove
         else DecideContinue))"

text \<open>The reference: the number of steps, from the end, at which net MRR fell.\<close>

fun falls :: "observation list \<Rightarrow> bool list" where
  "falls (old # new # rest) = f64_less (ob_NetMRRUSD new) (ob_NetMRRUSD old) # falls (new # rest)"
| "falls _ = []"

lemma falls_snoc: "falls (h @ [old, new]) = falls (h @ [old]) @ [f64_less (ob_NetMRRUSD new) (ob_NetMRRUSD old)]"
proof (induction h)
  case (Cons a h)
  then show ?case by (cases h) simp_all
qed simp

lemma decline_loop_falls: "decline_loop (rev h) d = d + int (length (takeWhile id (rev (falls h))))"
proof (induction h arbitrary: d rule: rev_induct)
  case (snoc new h)
  show ?case
  proof (cases h rule: rev_cases)
    case (snoc h' old)
    then show ?thesis using snoc.IH [of "d + 1"] falls_snoc [of h' old new] by simp
  qed simp
qed simp

text \<open>
  The decision, case by case: \<open>kill-candidate\<close> at the no-progress bound, else \<open>pivot\<close> when net MRR
  fell in each of the last \<open>decline_streak_for_pivot\<close> steps, else \<open>improve\<close> below the activation
  or conversion floor, else \<open>continue\<close>.
\<close>

theorem DecideFromObservations_reference:
  assumes "history \<noteq> []"
  shows "DecideFromObservations history policy =
    (if ob_NoProgressCycles (last history) \<ge> dp_NoProgressCyclesForKill policy then DecideKillCandidate
     else if int (length (takeWhile id (rev (falls history)))) \<ge> dp_DeclineStreakForPivot policy then DecidePivot
     else if f64_less (ob_ActivationRate (last history)) (Fin (1 / 10)) \<or> f64_less (ob_ConversionRate (last history)) (Fin (2 / 100))
       then DecideImprove
     else DecideContinue)"
  using assms decline_loop_falls [of history 0] by (simp add: DecideFromObservations_def Let_def)

text \<open>
  An empty policy file decodes to zero bounds: then every mission with an observation is
  proposed for a kill.
\<close>

theorem zero_policy_kills:
  "history \<noteq> [] \<Longrightarrow> 0 \<le> ob_NoProgressCycles (last history) \<Longrightarrow>
     DecideFromObservations history \<lparr>dp_NoProgressCyclesForKill = 0, dp_DeclineStreakForPivot = 0\<rparr> = DecideKillCandidate"
  by (simp add: DecideFromObservations_def)

section \<open>The improvement cycle\<close>

record improvement_proposal =
  ip_PlanDoc :: "document option"
  ip_Digest :: string
  ip_CycleID :: string
  ip_GeneratedAt :: int

record promotion =
  pn_ID :: string
  pn_MissionID :: string
  pn_ProductID :: string
  pn_ChangeRef :: string
  pn_PlanDigest :: string
  pn_MetricsBefore :: "(string \<times> f64) list"
  pn_RollbackRef :: string
  pn_Level :: string
  pn_CreatedAt :: int

type_synonym generator = "string \<Rightarrow> string \<Rightarrow> observation \<Rightarrow> string + improvement_proposal option"
type_synonym admitter = "document option \<Rightarrow> decision \<times> admission_error option"

record improve_input =
  ii_MissionID :: string
  ii_ProductID :: string
  ii_Observation :: observation
  ii_BudgetCapUSD :: f64
  ii_AutoTiers :: "string list"
  ii_Generator :: "generator option"
  ii_Admitter :: "admitter option"
  ii_Frozen :: bool
  ii_FrozenReason :: string

record improve_result =
  ir_CycleID :: string
  ir_Proposal :: "improvement_proposal option"
  ir_Admitted :: bool
  ir_Tier :: string
  ir_HaltReason :: string
  ir_Promotion :: "promotion option"

definition zero_improve_result :: improve_result where
  "zero_improve_result = \<lparr>ir_CycleID = [], ir_Proposal = None, ir_Admitted = False, ir_Tier = [], ir_HaltReason = [], ir_Promotion = None\<rparr>"

definition DefaultAdmitter :: admitter where
  "DefaultAdmitter doc = Admission_Classify doc (Some NoopPolicyView)"

text \<open>\<open>marshal\<close> is JSON of a plan document; the clock is read once.\<close>

definition CassetteGenerator_Generate ::
  "(document \<Rightarrow> string option) \<Rightarrow> (string \<Rightarrow> string) \<Rightarrow> int \<Rightarrow> document option \<Rightarrow> generator" where
  "CassetteGenerator_Generate marshal sha256hex now doc missionID productID obs =
     (case doc of
        None \<Rightarrow> Inl ''improve: cassette generator: no document configured''
      | Some d \<Rightarrow>
          (case marshal d of
             None \<Rightarrow> Inl ''improve: cassette generator: marshal plan''
           | Some raw \<Rightarrow>
               Inr (Some \<lparr>ip_PlanDoc = Some d, ip_Digest = sha256hex raw,
                  ip_CycleID = ''cycle-'' @ dc_ID d @ ''-'' @ show_int now, ip_GeneratedAt = now\<rparr>)))"

definition envelopeCheck :: "string \<Rightarrow> string list \<Rightarrow> bool" where
  "envelopeCheck t autoTiers = list_ex (\<lambda>a. a = t) autoTiers"

definition RunImproveCycle ::
  "(admission_error \<Rightarrow> string) \<Rightarrow> int \<Rightarrow> improve_input \<Rightarrow> string + improve_result" where
  "RunImproveCycle show_err now i =
     (case ii_Generator i of
        None \<Rightarrow> Inl ''improve: generator is required''
      | Some gen \<Rightarrow>
          (let admit = (case ii_Admitter i of None \<Rightarrow> DefaultAdmitter | Some a \<Rightarrow> a) in
           if ii_Frozen i then
             Inr (zero_improve_result\<lparr>ir_HaltReason := ''frozen: '' @
               (if ii_FrozenReason i = [] then ''promotion frozen'' else ii_FrozenReason i)\<rparr>)
           else
             (case gen (ii_MissionID i) (ii_ProductID i) (ii_Observation i) of
                Inl err \<Rightarrow> Inl (''improve: generate proposal: '' @ err)
              | Inr None \<Rightarrow> Inl ''improve: generator returned nil proposal or nil PlanDoc''
              | Inr (Some proposal) \<Rightarrow>
                  if ip_PlanDoc proposal = None then Inl ''improve: generator returned nil proposal or nil PlanDoc''
                  else
                    (case admit (ip_PlanDoc proposal) of
                       (decision, Some err) \<Rightarrow>
                         Inr (zero_improve_result\<lparr>ir_CycleID := ip_CycleID proposal, ir_Proposal := Some proposal,
                           ir_Tier := Tier_String (de_Tier decision), ir_HaltReason := ''admission error: '' @ show_err err\<rparr>)
                     | (decision, None) \<Rightarrow>
                         (let t = Tier_String (de_Tier decision) in
                          if \<not> envelopeCheck t (ii_AutoTiers i) then
                            Inr (zero_improve_result\<lparr>ir_CycleID := ip_CycleID proposal, ir_Proposal := Some proposal, ir_Tier := t,
                              ir_HaltReason := ''out-of-envelope: tier '' @ t @ '' not in auto_tiers '' @ show_strings (ii_AutoTiers i)
                                @ '' '' @ em_dash @ '' halted pre-build (notification required)''\<rparr>)
                          else
                            Inr \<lparr>ir_CycleID = ip_CycleID proposal, ir_Proposal = Some proposal, ir_Admitted = True, ir_Tier = t,
                              ir_HaltReason = [],
                              ir_Promotion = Some \<lparr>pn_ID = ''promo-'' @ ii_MissionID i @ ''-'' @ show_int now,
                                pn_MissionID = ii_MissionID i, pn_ProductID = ii_ProductID i, pn_ChangeRef = [],
                                pn_PlanDigest = ip_Digest proposal,
                                pn_MetricsBefore =
                                  [(''activation_rate'', ob_ActivationRate (ii_Observation i)),
                                   (''conversion_rate'', ob_ConversionRate (ii_Observation i)),
                                   (''net_mrr_usd'', ob_NetMRRUSD (ii_Observation i)),
                                   (''cost_to_date_usd'', ob_CostToDateUSD (ii_Observation i))],
                                pn_RollbackRef = [], pn_Level = ''plan-cycle'', pn_CreatedAt = now\<rparr>\<rparr>)))))"

lemma Tier_String_inj: "Tier_String t = Tier_String u \<longleftrightarrow> t = u"
  by (metis Tier_label_round_trip sum.inject(2))

lemma RunImproveCycle_admitted:
  assumes "RunImproveCycle show_err now i = Inr res" and "ir_Admitted res \<or> ir_Promotion res \<noteq> None"
  shows "\<exists>proposal doc decision. \<not> ii_Frozen i \<and> ir_Proposal res = Some proposal \<and> ip_PlanDoc proposal = Some doc
    \<and> (case ii_Admitter i of None \<Rightarrow> DefaultAdmitter | Some a \<Rightarrow> a) (Some doc) = (decision, None)
    \<and> Tier_String (de_Tier decision) \<in> set (ii_AutoTiers i)
    \<and> (\<exists>p. ir_Promotion res = Some p \<and> pn_PlanDigest p = ip_Digest proposal)"
  using assms
  by (auto simp: RunImproveCycle_def zero_improve_result_def envelopeCheck_def list_ex_iff Let_def
      split: option.splits if_splits sum.splits prod.splits)

text \<open>
  an improvement runs unattended only inside its envelope. If a cycle with the default
  admission admits a proposal, promotion was not frozen, the plan did not classify itself, its
  tier is one of the profile's automatic tiers, and every declared or detected effect of the
  plan calls for at most that tier; the promotion records the digest of this very proposal.
\<close>

theorem RunImproveCycle_in_envelope:
  assumes "RunImproveCycle show_err now i = Inr res" and "ir_Admitted res" and "ii_Admitter i = None"
  shows "\<exists>proposal doc t. \<not> ii_Frozen i \<and> ir_Proposal res = Some proposal \<and> ip_PlanDoc proposal = Some doc
    \<and> \<not> dc_SelfClassified doc \<and> Tier_String t \<in> set (ii_AutoTiers i)
    \<and> list_all (\<lambda>e. effect_floor e \<le> t) (dc_DeclaredEffects doc @ FromDocument doc)
    \<and> (\<exists>p. ir_Promotion res = Some p \<and> pn_PlanDigest p = ip_Digest proposal)"
proof -
  obtain proposal doc decision where p: "\<not> ii_Frozen i" "ir_Proposal res = Some proposal" "ip_PlanDoc proposal = Some doc"
    and c: "DefaultAdmitter (Some doc) = (decision, None)" and t: "Tier_String (de_Tier decision) \<in> set (ii_AutoTiers i)"
    and pr: "\<exists>p. ir_Promotion res = Some p \<and> pn_PlanDigest p = ip_Digest proposal"
    using RunImproveCycle_admitted [OF assms(1)] assms(2,3) by auto
  have s: "\<not> dc_SelfClassified doc" using c by (auto simp: DefaultAdmitter_def Admission_Classify_def split: if_splits)
  have "de_Tier decision = applyDiscrepancyFloor (highest_floor (dc_DeclaredEffects doc @ FromDocument doc))
      (discrepancyEffects (dc_DeclaredEffects doc) (FromDocument doc))"
    using c s eval_RulesV1_1 [of "dc_DeclaredEffects doc @ FromDocument doc" "[]"]
    by (auto simp: DefaultAdmitter_def Admission_Classify_def Let_def case_prod_beta)
  then have "highest_floor (dc_DeclaredEffects doc @ FromDocument doc) \<le> de_Tier decision"
    by (simp add: applyDiscrepancyFloor_above)
  then have "list_all (\<lambda>e. effect_floor e \<le> de_Tier decision) (dc_DeclaredEffects doc @ FromDocument doc)"
    by (simp add: highest_floor_le list_all_iff)
  then show ?thesis using p s t pr by blast
qed

section \<open>The improvement workflow\<close>

record improvement_input =
  im_MissionID :: string
  im_ProductID :: string
  im_CycleID :: string
  im_IdempotencyKey :: string
  im_BudgetCapUSD :: f64
  im_Frozen :: bool
  im_FrozenReason :: string
  im_DeliveryTaskQueue :: string
  im_ApprovedPlanID :: string
  im_EnvelopeDigest :: string
  im_PlanDigest :: string

record improvement_lease =
  il_Acquired :: bool
  il_LeaseID :: string

record proposal_result =
  pp_PlanBytes :: string
  pp_PlanDigest :: string

record improvement_admission_in =
  iai_MissionID :: string
  iai_ProductID :: string
  iai_CycleID :: string
  iai_PlanBytes :: string
  iai_PlanDigest :: string

record improvement_admission =
  ia_Admitted :: bool
  ia_RequiresHuman :: bool
  ia_HaltReason :: string
  ia_PlanID :: string
  ia_EnvelopeDigest :: string
  ia_Tier :: string

record improvement_run =
  iu_RunID :: string
  iu_MissionID :: string
  iu_ProductID :: string
  iu_LeaseID :: string
  iu_PlanID :: string
  iu_PlanDigest :: string
  iu_EnvelopeDigest :: string
  iu_IdempotencyKey :: string
  iu_Status :: string

record improvement_delivery_in =
  idi_MissionID :: string
  idi_ProductID :: string
  idi_ApprovedPlanID :: string
  idi_EnvelopeDigest :: string
  idi_PlanDigest :: string
  idi_TaskQueue :: string

record improvement_delivery =
  idl_WorkflowID :: string
  idl_DeployReceipt :: string

record post_observation =
  po_Beneficial :: bool
  po_HealthOK :: bool

record retain_in =
  rti_MissionID :: string
  rti_ProductID :: string
  rti_CycleID :: string
  rti_Beneficial :: bool
  rti_HealthOK :: bool
  rti_DeployRef :: string

record retain_decision =
  rd_Retained :: bool
  rd_PromotionID :: string
  rd_RollbackRef :: string

record improvement_result =
  ires_Status :: string
  ires_ResultCode :: string
  ires_PromotionID :: string
  ires_RollbackRef :: string
  ires_DeliveryWF :: string
  ires_Retained :: bool

definition improvement_status :: "string \<Rightarrow> string \<Rightarrow> string \<Rightarrow> improvement_result" where
  "improvement_status st code ref = \<lparr>ires_Status = st, ires_ResultCode = code, ires_PromotionID = [], ires_RollbackRef = ref,
     ires_DeliveryWF = [], ires_Retained = False\<rparr>"

text \<open>The seams of \<open>ImprovementActivities\<close>; a nil function is \<^const>\<open>None\<close>.\<close>

record improvement_seams =
  se_AcquireLease :: "(improvement_input \<Rightarrow> string + improvement_lease) option"
  se_Generate :: "(improvement_input \<Rightarrow> string + proposal_result) option"
  se_Admit :: "(improvement_admission_in \<Rightarrow> string + improvement_admission) option"
  se_Record :: "(improvement_run \<Rightarrow> string option) option"
  se_StartDeliver :: "(improvement_delivery_in \<Rightarrow> string + improvement_delivery) option"
  se_Observe :: "(improvement_input \<Rightarrow> string + post_observation) option"
  se_Decide :: "(retain_in \<Rightarrow> string + retain_decision) option"

definition AcquireImprovementLease :: "improvement_seams \<Rightarrow> improvement_input \<Rightarrow> string + improvement_lease" where
  "AcquireImprovementLease a i = (case se_AcquireLease a of None \<Rightarrow> Inl ''mission: AcquireLease not configured'' | Some f \<Rightarrow> f i)"

definition GenerateImprovementPlan :: "improvement_seams \<Rightarrow> improvement_input \<Rightarrow> string + proposal_result" where
  "GenerateImprovementPlan a i = (case se_Generate a of None \<Rightarrow> Inl ''mission: Generate not configured'' | Some f \<Rightarrow> f i)"

definition ResolveImprovementAdmission :: "improvement_seams \<Rightarrow> improvement_admission_in \<Rightarrow> string + improvement_admission" where
  "ResolveImprovementAdmission a i = (case se_Admit a of None \<Rightarrow> Inl ''mission: Admit not configured'' | Some f \<Rightarrow> f i)"

definition RecordImprovementRun :: "improvement_seams \<Rightarrow> improvement_run \<Rightarrow> string option" where
  "RecordImprovementRun a r = (case se_Record a of None \<Rightarrow> None | Some f \<Rightarrow> f r)"

definition StartImprovementDelivery :: "improvement_seams \<Rightarrow> improvement_delivery_in \<Rightarrow> string + improvement_delivery" where
  "StartImprovementDelivery a i = (case se_StartDeliver a of None \<Rightarrow> Inl ''mission: StartDeliver not configured'' | Some f \<Rightarrow> f i)"

definition ObservePostChange :: "improvement_seams \<Rightarrow> improvement_input \<Rightarrow> string + post_observation" where
  "ObservePostChange a i =
     (case se_Observe a of None \<Rightarrow> Inr \<lparr>po_Beneficial = True, po_HealthOK = True\<rparr> | Some f \<Rightarrow> f i)"

definition DecideRetainOrRollback :: "improvement_seams \<Rightarrow> retain_in \<Rightarrow> string + retain_decision" where
  "DecideRetainOrRollback a i =
     (case se_Decide a of
        Some f \<Rightarrow> f i
      | None \<Rightarrow>
          if \<not> rti_HealthOK i \<or> \<not> rti_Beneficial i
          then Inr \<lparr>rd_Retained = False, rd_PromotionID = [], rd_RollbackRef = ''rollback:'' @ rti_CycleID i\<rparr>
          else Inr \<lparr>rd_Retained = True, rd_PromotionID = ''promo:'' @ rti_CycleID i, rd_RollbackRef = []\<rparr>)"

text \<open>
  The workflow returns its result or the error of an activity, with the runs it recorded and the
  deliveries it started. The error of the recording is dropped.
\<close>

datatype improvement_event = IRecord improvement_run | IDeliver improvement_delivery_in

definition ImprovementLoop ::
  "improvement_seams \<Rightarrow> improvement_input \<Rightarrow> (string + improvement_result) \<times> improvement_event list" where
  "ImprovementLoop a i =
     (if im_MissionID i = [] \<or> im_ProductID i = [] then (Inl ''mission: ImprovementLoop requires mission_id and product_id'', [])
      else if im_Frozen i then (Inr (improvement_status ''WAITING'' ''FROZEN'' (im_FrozenReason i)), [])
      else
        (case AcquireImprovementLease a i of
           Inl err \<Rightarrow> (Inl err, [])
         | Inr lease \<Rightarrow>
             if \<not> il_Acquired lease then (Inr (improvement_status ''WAITING'' ''LEASE_HELD'' []), [])
             else
               (case GenerateImprovementPlan a i of
                  Inl err \<Rightarrow> (Inl err, [])
                | Inr proposal \<Rightarrow>
                    (case ResolveImprovementAdmission a \<lparr>iai_MissionID = im_MissionID i, iai_ProductID = im_ProductID i,
                            iai_CycleID = im_CycleID i, iai_PlanBytes = pp_PlanBytes proposal, iai_PlanDigest = pp_PlanDigest proposal\<rparr> of
                       Inl err \<Rightarrow> (Inl err, [])
                     | Inr adm \<Rightarrow>
                         if ia_RequiresHuman adm then (Inr (improvement_status ''WAITING'' ''H_TIER_APPROVAL'' []), [])
                         else if \<not> ia_Admitted adm then (Inr (improvement_status ''WAITING'' (ia_HaltReason adm) []), [])
                         else
                           (let d = \<lparr>idi_MissionID = im_MissionID i, idi_ProductID = im_ProductID i, idi_ApprovedPlanID = ia_PlanID adm,
                                  idi_EnvelopeDigest = ia_EnvelopeDigest adm, idi_PlanDigest = pp_PlanDigest proposal,
                                  idi_TaskQueue = im_DeliveryTaskQueue i\<rparr>;
                                run = \<lparr>iu_RunID = im_CycleID i, iu_MissionID = im_MissionID i, iu_ProductID = im_ProductID i,
                                  iu_LeaseID = il_LeaseID lease, iu_PlanID = ia_PlanID adm, iu_PlanDigest = pp_PlanDigest proposal,
                                  iu_EnvelopeDigest = ia_EnvelopeDigest adm, iu_IdempotencyKey = im_IdempotencyKey i,
                                  iu_Status = ''delivering''\<rparr>;
                                evs = [IRecord run, IDeliver d] in
                            case StartImprovementDelivery a d of
                              Inl err \<Rightarrow> (Inl err, evs)
                            | Inr delivery \<Rightarrow>
                                (case ObservePostChange a i of
                                   Inl err \<Rightarrow> (Inl err, evs)
                                 | Inr post \<Rightarrow>
                                     (case DecideRetainOrRollback a \<lparr>rti_MissionID = im_MissionID i, rti_ProductID = im_ProductID i,
                                             rti_CycleID = im_CycleID i, rti_Beneficial = po_Beneficial post,
                                             rti_HealthOK = po_HealthOK post, rti_DeployRef = idl_DeployReceipt delivery\<rparr> of
                                        Inl err \<Rightarrow> (Inl err, evs)
                                      | Inr dec \<Rightarrow>
                                          (Inr \<lparr>ires_Status = ''SUCCEEDED'',
                                             ires_ResultCode = (if rd_Retained dec then ''IMPROVEMENT_RETAINED'' else ''IMPROVEMENT_ROLLED_BACK''),
                                             ires_PromotionID = rd_PromotionID dec, ires_RollbackRef = rd_RollbackRef dec,
                                             ires_DeliveryWF = idl_WorkflowID delivery, ires_Retained = rd_Retained dec\<rparr>, evs))))))))"

lemma ImprovementLoop_events:
  assumes "IDeliver d \<in> set (snd (ImprovementLoop a i))"
  shows "\<not> im_Frozen i
    \<and> (\<exists>lease proposal adm. AcquireImprovementLease a i = Inr lease \<and> il_Acquired lease
        \<and> GenerateImprovementPlan a i = Inr proposal
        \<and> ResolveImprovementAdmission a \<lparr>iai_MissionID = im_MissionID i, iai_ProductID = im_ProductID i,
            iai_CycleID = im_CycleID i, iai_PlanBytes = pp_PlanBytes proposal, iai_PlanDigest = pp_PlanDigest proposal\<rparr> = Inr adm
        \<and> ia_Admitted adm \<and> \<not> ia_RequiresHuman adm
        \<and> d = \<lparr>idi_MissionID = im_MissionID i, idi_ProductID = im_ProductID i, idi_ApprovedPlanID = ia_PlanID adm,
              idi_EnvelopeDigest = ia_EnvelopeDigest adm, idi_PlanDigest = pp_PlanDigest proposal,
              idi_TaskQueue = im_DeliveryTaskQueue i\<rparr>)"
  using assms by (auto simp: ImprovementLoop_def Let_def split: if_splits sum.splits)


definition sample_seams :: improvement_seams where
  "sample_seams = \<lparr>se_AcquireLease = Some (\<lambda>_. Inr \<lparr>il_Acquired = True, il_LeaseID = ''l''\<rparr>),
     se_Generate = Some (\<lambda>_. Inr \<lparr>pp_PlanBytes = ''plan'', pp_PlanDigest = ''d''\<rparr>),
     se_Admit = Some (\<lambda>i. Inr \<lparr>ia_Admitted = True, ia_RequiresHuman = False, ia_HaltReason = [], ia_PlanID = ''p'',
       ia_EnvelopeDigest = ''e'', ia_Tier = ''A0''\<rparr>),
     se_Record = None, se_StartDeliver = Some (\<lambda>_. Inr \<lparr>idl_WorkflowID = ''w'', idl_DeployReceipt = ''r''\<rparr>),
     se_Observe = None, se_Decide = None\<rparr>"

definition sample_improvement :: improvement_input where
  "sample_improvement = \<lparr>im_MissionID = ''m'', im_ProductID = ''x'', im_CycleID = ''c'', im_IdempotencyKey = ''k'',
     im_BudgetCapUSD = Fin 0, im_Frozen = False, im_FrozenReason = [], im_DeliveryTaskQueue = [], im_ApprovedPlanID = [],
     im_EnvelopeDigest = [], im_PlanDigest = []\<rparr>"


text \<open>Without an observer every delivered improvement is retained; its result code is in no registry.\<close>

theorem unobserved_improvement_retained:
  assumes "se_Observe a = None" and "se_Decide a = None" and "fst (ImprovementLoop a i) = Inr res" and "ires_Status res = ''SUCCEEDED''"
  shows "ires_Retained res \<and> KnownResultCode (ires_ResultCode res) = None"
proof -
  have "ires_Retained res \<and> ires_ResultCode res = ''IMPROVEMENT_RETAINED''"
    using assms
    by (auto simp: ImprovementLoop_def Let_def improvement_status_def ObservePostChange_def DecideRetainOrRollback_def
        split: if_splits sum.splits)
  then show ?thesis by (simp add: KnownResultCode_def resultCodeRegistry_def)
qed

definition sample_cycle_input :: "bool \<Rightarrow> improve_input" where
  "sample_cycle_input frozen = \<lparr>ii_MissionID = ''m'', ii_ProductID = ''x'',
     ii_Observation = \<lparr>ob_At = 0, ob_ActivationRate = Fin 0, ob_ConversionRate = Fin 0, ob_NetMRRUSD = Fin 0, ob_CostToDateUSD = Fin 0,
       ob_NoProgressCycles = 0\<rparr>,
     ii_BudgetCapUSD = Fin 0, ii_AutoTiers = [''A0'', ''A1'', ''A2'', ''H''],
     ii_Generator = Some (CassetteGenerator_Generate (\<lambda>_. Some []) (\<lambda>s. s) 7 (Some quiet_plan)),
     ii_Admitter = None, ii_Frozen = frozen, ii_FrozenReason = []\<rparr>"

theorem RunImproveCycle_in_envelope_witness:
  "\<exists>res. RunImproveCycle (\<lambda>_. []) 7 (sample_cycle_input False) = Inr res \<and> ir_Admitted res \<and> ir_Promotion res \<noteq> None"
proof -
  have "\<not> dc_SelfClassified quiet_plan" by (simp add: quiet_plan_def zero_document_def)
  then obtain decision where d: "DefaultAdmitter (Some quiet_plan) = (decision, None)"
    using Classify_accepts [of quiet_plan NoopPolicyView] by (auto simp: DefaultAdmitter_def)
  have t: "Tier_String (de_Tier decision) \<in> set [''A0'', ''A1'', ''A2'', ''H'']" by (cases "de_Tier decision") simp_all
  obtain res where r: "RunImproveCycle (\<lambda>_. []) 7 (sample_cycle_input False) = Inr res" "ir_Admitted res"
    using d t by (auto simp: RunImproveCycle_def sample_cycle_input_def CassetteGenerator_Generate_def envelopeCheck_def Let_def)
  have "ii_Admitter (sample_cycle_input False) = None" by (simp add: sample_cycle_input_def)
  from RunImproveCycle_in_envelope [OF r this] r show ?thesis by auto
qed

end
