(* ===== verification/Projection.thy ===== *)
theory Projection
  imports Receipts "HOL-Library.AList" "HOL-Library.List_Lexorder" "HOL-Library.Char_ord" "HOL-Library.Product_Lexorder"
begin

text \<open>
  The status projection, \<open>internal/projection\<close>: \<open>projector.go\<close> folds the transition stream into
  one row per workflow, \<open>rebuild.go\<close> replays it from the start, and \<open>versioning.go\<close> cuts over to
  a table built by another version. The tables are those of the migrations \<open>00003\<close>, \<open>00011\<close> and
  \<open>00013\<close>; the column \<open>updated_at\<close>, which no statement reads, is left out. JSON and MD5 are
  parameters.

  The projected row of a workflow is that of its latest transition in the order of time and
  sequence number, in whatever order and however often transitions are processed; a
  rebuild reproduces the live table and its checksum. Two things are lost: a transition that
  commits behind the offset, and one that the live projector reads during a roll-out.
\<close>

section \<open>Tables\<close>

record projection_row =
  pj_status :: string
  pj_phase :: string
  pj_reason :: string
  pj_result_code :: string
  pj_attempt :: int
  pj_checkpoint_id :: string
  pj_wake_at :: "int option"
  pj_last_seq :: int
  pj_occurred_at :: "int option"
  pj_version :: string

text \<open>A table has its primary key \<open>workflow_id\<close> first.\<close>

type_synonym projection_table = "(string \<times> projection_row) list"

record 'p projection_db =
  pd_transitions :: "'p pg_transition_row list"
  pd_live :: projection_table
  pd_shadow :: projection_table
  pd_previous :: "projection_table option"
  pd_offsets :: "(string \<times> int) list"

datatype projection_error =
    UnknownTable string
  | DecodeTransition int
  | UpsertProjection string int
  | ProjectionDB
  | RowCountMismatch nat nat
  | VersionRequired
  | NotConverged

section \<open>The projector\<close>

abbreviation ProjectorVersion :: string where "ProjectorVersion \<equiv> ''v0''"
abbreviation DefaultProjectorName :: string where "DefaultProjectorName \<equiv> ''workflow_status_projection''"
abbreviation DefaultTable :: string where "DefaultTable \<equiv> ''workflow_status_projection''"
abbreviation ShadowTable :: string where "ShadowTable \<equiv> ''workflow_status_projection_shadow''"
abbreviation ShadowProjectorName :: string where "ShadowProjectorName \<equiv> ''workflow_status_projection_shadow''"

record projector =
  pr_Name :: string
  pr_BatchSize :: int
  pr_Table :: string
  pr_Version :: string

definition projector_name :: "projector \<Rightarrow> string" where
  "projector_name p = (if pr_Name p = [] then DefaultProjectorName else pr_Name p)"

definition batchSize :: "projector \<Rightarrow> int" where
  "batchSize p = (if pr_BatchSize p \<le> 0 then 500 else pr_BatchSize p)"

definition projector_table :: "projector \<Rightarrow> string" where
  "projector_table p = (if pr_Table p = [] then DefaultTable else pr_Table p)"

definition projector_version :: "projector \<Rightarrow> string" where
  "projector_version p = (if pr_Version p = [] then ProjectorVersion else pr_Version p)"

text \<open>
  \<open>upsertSQL\<close> refuses every table but the two that it has a statement for; the statements
  differ in the table only.
\<close>

definition upsertSQL :: "projector \<Rightarrow> projection_error option" where
  "upsertSQL p = (if projector_table p \<in> {DefaultTable, ShadowTable} then None else Some (UnknownTable (projector_table p)))"

definition the_table :: "string \<Rightarrow> 'p projection_db \<Rightarrow> projection_table" where
  "the_table name db = (if name = DefaultTable then pd_live db else pd_shadow db)"

definition set_table :: "string \<Rightarrow> projection_table \<Rightarrow> 'p projection_db \<Rightarrow> 'p projection_db" where
  "set_table name tab db = (if name = DefaultTable then db\<lparr>pd_live := tab\<rparr> else db\<lparr>pd_shadow := tab\<rparr>)"

definition currentOffset :: "'p projection_db \<Rightarrow> string \<Rightarrow> int" where
  "currentOffset db name = (case map_of (pd_offsets db) name of None \<Rightarrow> 0 | Some n \<Rightarrow> n)"

definition advanceOffset :: "string \<Rightarrow> int \<Rightarrow> 'p projection_db \<Rightarrow> 'p projection_db" where
  "advanceOffset name seq db =
     (case map_of (pd_offsets db) name of
        Some n \<Rightarrow> if n < seq then db\<lparr>pd_offsets := AList.update name seq (pd_offsets db)\<rparr> else db
      | None \<Rightarrow> db\<lparr>pd_offsets := AList.update name seq (pd_offsets db)\<rparr>)"

definition row_of :: "string \<Rightarrow> int \<Rightarrow> transition \<Rightarrow> projection_row" where
  "row_of version seq t =
     \<lparr>pj_status = status_string (tr_Status t), pj_phase = tr_PhaseTo t, pj_reason = tr_Reason t, pj_result_code = tr_ResultCode t,
      pj_attempt = tr_Attempt t, pj_checkpoint_id = tr_CheckpointID t, pj_wake_at = tr_WakeAt t, pj_last_seq = seq,
      pj_occurred_at = Some (tr_OccurredAt t), pj_version = version\<rparr>"

text \<open>
  The guard \<open>(EXCLUDED.occurred_at, EXCLUDED.last_seq) > (COALESCE(occurred_at, '-infinity'), last_seq)\<close>
  of the upsert, for a new row with a time.
\<close>

definition row_newer :: "int \<Rightarrow> int \<Rightarrow> projection_row \<Rightarrow> bool" where
  "row_newer occurred seq old =
     (case pj_occurred_at old of None \<Rightarrow> True | Some old_at \<Rightarrow> (old_at, pj_last_seq old) < (occurred, seq))"

text \<open>The upsert fails when the attempt does not fit the column of type \<open>INT\<close>.\<close>

definition upsertProjection ::
  "string \<Rightarrow> string \<Rightarrow> int \<Rightarrow> transition \<Rightarrow> projection_table \<Rightarrow> projection_table option" where
  "upsertProjection version workflowID seq t tab =
     (if tr_Attempt t < - (2 ^ 31) \<or> 2 ^ 31 \<le> tr_Attempt t then None
      else case map_of tab workflowID of
             None \<Rightarrow> Some (AList.update workflowID (row_of version seq t) tab)
           | Some old \<Rightarrow>
               if row_newer (tr_OccurredAt t) seq old then Some (AList.update workflowID (row_of version seq t) tab)
               else Some tab)"

fun project_batch ::
  "('p \<Rightarrow> transition option) \<Rightarrow> string \<Rightarrow> 'p pg_transition_row list \<Rightarrow> projection_table \<Rightarrow> projection_error + projection_table" where
  "project_batch decode version [] tab = Inr tab"
| "project_batch decode version (r # rs) tab =
     (case decode (tw_payload r) of
        None \<Rightarrow> Inl (DecodeTransition (tw_seq r))
      | Some t \<Rightarrow>
          (case upsertProjection version (tw_workflow_id r) (tw_seq r) t tab of
             None \<Rightarrow> Inl (UpsertProjection (tw_workflow_id r) (tw_seq r))
           | Some tab' \<Rightarrow> project_batch decode version rs tab'))"

definition next_batch :: "projector \<Rightarrow> 'p projection_db \<Rightarrow> 'p pg_transition_row list" where
  "next_batch p db =
     take (nat (batchSize p))
       (sort_key tw_seq (filter (\<lambda>r. currentOffset db (projector_name p) < tw_seq r) (pd_transitions db)))"

text \<open>
  A transaction may fail before it commits, which rolls it back, or its commit may be carried
  out although the client sees an error.
\<close>

datatype tx_fault = TxOk | TxAborted | TxCommitLost

definition Tick ::
  "('p \<Rightarrow> transition option) \<Rightarrow> tx_fault \<Rightarrow> projector \<Rightarrow> 'p projection_db \<Rightarrow> (projection_error + nat) \<times> 'p projection_db" where
  "Tick decode fault p db =
     (case upsertSQL p of
        Some err \<Rightarrow> (Inl err, db)
      | None \<Rightarrow>
          if fault = TxAborted then (Inl ProjectionDB, db)
          else
            (case next_batch p db of
               [] \<Rightarrow> (if fault = TxCommitLost then Inl ProjectionDB else Inr 0, db)
             | batch \<Rightarrow>
                 (case project_batch decode (projector_version p) batch (the_table (projector_table p) db) of
                    Inl err \<Rightarrow> (Inl err, db)
                  | Inr tab \<Rightarrow>
                      (if fault = TxCommitLost then Inl ProjectionDB else Inr (length batch),
                       advanceOffset (projector_name p) (tw_seq (last batch))
                         (set_table (projector_table p) tab db)))))"

text \<open>
  \<open>Run\<close> polls until its context ends or a tick fails; the ticks that happen are given by their faults.
\<close>

fun Run :: "('p \<Rightarrow> transition option) \<Rightarrow> tx_fault list \<Rightarrow> projector \<Rightarrow> 'p projection_db \<Rightarrow> projection_error option \<times> 'p projection_db" where
  "Run decode [] p db = (None, db)"
| "Run decode (f # fs) p db =
     (case Tick decode f p db of
        (Inl err, db') \<Rightarrow> (Some err, db')
      | (Inr n, db') \<Rightarrow> Run decode fs p db')"

section \<open>Other writers\<close>

text \<open>
  While a rebuild or a roll-out is under way, transitions are committed and the live projector
  ticks. A slot says what happens before a statement, and how the statement fares; when the
  slots are used up nothing interferes any more.
\<close>

datatype 'p other = OtherCommit "'p pg_transition_row" | OtherTick

definition live_projector :: projector where
  "live_projector = \<lparr>pr_Name = [], pr_BatchSize = 0, pr_Table = [], pr_Version = []\<rparr>"

definition commit_transition :: "'p pg_transition_row \<Rightarrow> 'p projection_db \<Rightarrow> 'p projection_db" where
  "commit_transition r db = db\<lparr>pd_transitions := pd_transitions db @ [r]\<rparr>"

fun other_step :: "('p \<Rightarrow> transition option) \<Rightarrow> 'p other \<Rightarrow> 'p projection_db \<Rightarrow> 'p projection_db" where
  "other_step decode (OtherCommit r) db = commit_transition r db"
| "other_step decode OtherTick db = snd (Tick decode TxOk live_projector db)"

type_synonym 'p slot = "tx_fault \<times> 'p other list"

definition slot_db :: "('p \<Rightarrow> transition option) \<Rightarrow> 'p slot list \<Rightarrow> 'p projection_db \<Rightarrow> 'p projection_db" where
  "slot_db decode slots db = (case slots of [] \<Rightarrow> db | (f, os) # rest \<Rightarrow> fold (other_step decode) os db)"

definition slot_fault :: "'p slot list \<Rightarrow> tx_fault" where
  "slot_fault slots = (case slots of [] \<Rightarrow> TxOk | (f, os) # rest \<Rightarrow> f)"

definition pending :: "projector \<Rightarrow> 'p projection_db \<Rightarrow> 'p pg_transition_row list" where
  "pending p db = filter (\<lambda>r. currentOffset db (projector_name p) < tw_seq r) (pd_transitions db)"

lemma currentOffset_advance:
  "currentOffset (advanceOffset name seq db) name' =
     (if name' = name then (case map_of (pd_offsets db) name of None \<Rightarrow> seq | Some n \<Rightarrow> max n seq) else currentOffset db name')"
  by (auto simp: currentOffset_def advanceOffset_def update_conv' split: option.splits)

lemma set_table_simps [simp]:
  "pd_transitions (set_table name tab db) = pd_transitions db"
  "pd_offsets (set_table name tab db) = pd_offsets db"
  "pd_previous (set_table name tab db) = pd_previous db"
  by (simp_all add: set_table_def)

lemma advanceOffset_simps [simp]:
  "pd_transitions (advanceOffset name seq db) = pd_transitions db"
  "pd_live (advanceOffset name seq db) = pd_live db"
  "pd_shadow (advanceOffset name seq db) = pd_shadow db"
  "pd_previous (advanceOffset name seq db) = pd_previous db"
  by (auto simp: advanceOffset_def split: option.splits)

lemma batchSize_pos [simp]: "0 < nat (batchSize p)"
  by (simp add: batchSize_def)

lemma next_batch_def': "next_batch p db = take (nat (batchSize p)) (sort_key tw_seq (pending p db))"
  by (simp add: next_batch_def pending_def)

lemma next_batch_Nil_iff: "next_batch p db = [] \<longleftrightarrow> pending p db = []"
  by (metis batchSize_pos next_batch_def' set_empty set_sort take_eq_Nil2 less_irrefl)

lemma next_batch_pending: "r \<in> set (next_batch p db) \<Longrightarrow> r \<in> set (pending p db)"
  by (auto simp: next_batch_def' dest: in_set_takeD)

lemma Tick_progress:
  assumes "Tick decode f p db = (Inr n, db')" and "n \<noteq> 0"
  shows "length (pending p db') < length (pending p db)"
proof -
  obtain tab where b: "next_batch p db \<noteq> []"
    and db': "db' = advanceOffset (projector_name p) (tw_seq (last (next_batch p db))) (set_table (projector_table p) tab db)"
    using assms by (auto simp: Tick_def split: option.splits list.splits sum.splits if_splits)
  let ?r = "last (next_batch p db)"
  have r: "?r \<in> set (pending p db)" by (rule next_batch_pending) (use b in simp)
  then have off: "currentOffset db' (projector_name p) = tw_seq ?r"
    unfolding db' currentOffset_advance by (auto simp: pending_def currentOffset_def split: option.splits)
  have "set (pending p db') \<subseteq> set (pending p db)" "pending p db' = filter (\<lambda>q. tw_seq ?r < tw_seq q) (pending p db)"
    using r off by (auto simp: pending_def db' intro!: filter_cong)
  then show ?thesis using r by (simp add: length_filter_less)
qed

function drainProjector ::
  "('p \<Rightarrow> transition option) \<Rightarrow> 'p slot list \<Rightarrow> projector \<Rightarrow> 'p projection_db
     \<Rightarrow> projection_error option \<times> 'p slot list \<times> 'p projection_db" where
  "drainProjector decode slots p db =
     (case Tick decode (slot_fault slots) p (slot_db decode slots db) of
        (Inl err, db') \<Rightarrow> (Some err, tl slots, db')
      | (Inr n, db') \<Rightarrow> if n = 0 then (None, tl slots, db') else drainProjector decode (tl slots) p db')"
  by pat_completeness auto
termination
proof (relation "measures [\<lambda>(decode, slots, p, db). length slots, \<lambda>(decode, slots, p, db). length (pending p db)]", goal_cases)
  case (2 decode slots p db x y n)
  then show ?case
    using Tick_progress [of decode TxOk p db n y] by (cases slots) (auto simp: slot_fault_def slot_db_def)
qed simp

declare drainProjector.simps [simp del]

section \<open>Rebuild and roll-out\<close>

text \<open>
  \<open>projection_checksum()\<close> of migration \<open>00013\<close>, with MD5 and the text form of a time as parameters.
\<close>

definition row_digest :: "(string \<Rightarrow> string) \<Rightarrow> (int \<Rightarrow> string) \<Rightarrow> string \<times> projection_row \<Rightarrow> string" where
  "row_digest md5 show_ts = (\<lambda>(wid, r).
     md5 (wid @ ''|'' @ pj_status r @ ''|'' @ pj_phase r @ ''|'' @ pj_reason r @ ''|'' @ pj_result_code r @ ''|''
       @ show_int (pj_attempt r) @ ''|'' @ pj_checkpoint_id r @ ''|''
       @ (case pj_wake_at r of None \<Rightarrow> [] | Some t \<Rightarrow> show_ts t) @ ''|'' @ show_int (pj_last_seq r) @ ''|''
       @ (case pj_occurred_at r of None \<Rightarrow> [] | Some t \<Rightarrow> show_ts t) @ ''|'' @ pj_version r))"

definition projection_checksum :: "(string \<Rightarrow> string) \<Rightarrow> (int \<Rightarrow> string) \<Rightarrow> projection_table \<Rightarrow> string" where
  "projection_checksum md5 show_ts tab =
     md5 (join_with ''|'' (map (row_digest md5 show_ts) (sort_key fst tab)))"

definition delete_offset :: "string \<Rightarrow> 'p projection_db \<Rightarrow> 'p projection_db" where
  "delete_offset name db = db\<lparr>pd_offsets := AList.delete name (pd_offsets db)\<rparr>"

text \<open>One statement outside a transaction: what others did before is there even if it fails.\<close>

definition statement ::
  "('p \<Rightarrow> transition option) \<Rightarrow> ('p projection_db \<Rightarrow> 'p projection_db) \<Rightarrow> 'p slot list \<Rightarrow> 'p projection_db
     \<Rightarrow> bool \<times> 'p slot list \<times> 'p projection_db" where
  "statement decode act slots db =
     (let db1 = slot_db decode slots db in
      (slot_fault slots \<noteq> TxOk, tl slots, if slot_fault slots = TxAborted then db1 else act db1))"

definition reset_table :: "string \<Rightarrow> string \<Rightarrow> ('p \<Rightarrow> transition option) \<Rightarrow> 'p slot list \<Rightarrow> 'p projection_db
     \<Rightarrow> projection_error option \<times> 'p slot list \<times> 'p projection_db" where
  "reset_table tname name decode slots db =
     (let (e1, s1, db1) = statement decode (set_table tname []) slots db in
      if e1 then (Some ProjectionDB, s1, db1)
      else (let (e2, s2, db2) = statement decode (delete_offset name) s1 db1 in
            (if e2 then Some ProjectionDB else None, s2, db2)))"

record rebuild_result =
  rb_Rows :: nat
  rb_Checksum :: string

definition distinct_workflows :: "'p projection_db \<Rightarrow> nat" where
  "distinct_workflows db = length (remdups (map tw_workflow_id (pd_transitions db)))"

definition Rebuild ::
  "(string \<Rightarrow> string) \<Rightarrow> (int \<Rightarrow> string) \<Rightarrow> ('p \<Rightarrow> transition option) \<Rightarrow> 'p slot list \<Rightarrow> string \<Rightarrow> 'p projection_db
     \<Rightarrow> (projection_error + rebuild_result) \<times> 'p projection_db" where
  "Rebuild md5 show_ts decode slots name db =
     (case reset_table DefaultTable name decode slots db of
        (Some err, s1, db1) \<Rightarrow> (Inl err, db1)
      | (None, s1, db1) \<Rightarrow>
          (case drainProjector decode s1 \<lparr>pr_Name = name, pr_BatchSize = 0, pr_Table = [], pr_Version = []\<rparr> db1 of
             (Some err, s2, db2) \<Rightarrow> (Inl err, db2)
           | (None, s2, db2) \<Rightarrow>
               (let (e3, s3, db3) = statement decode id s2 db2; expected = distinct_workflows db3 in
                if e3 then (Inl ProjectionDB, db3)
                else
                  (let (e4, s4, db4) = statement decode id s3 db3; actual = length (pd_live db4) in
                   if e4 then (Inl ProjectionDB, db4)
                   else if actual \<noteq> expected then (Inl (RowCountMismatch actual expected), db4)
                   else
                     (let (e5, s5, db5) = statement decode id s4 db4 in
                      if e5 then (Inl ProjectionDB, db5)
                      else (Inr \<lparr>rb_Rows = actual, rb_Checksum = projection_checksum md5 show_ts (pd_live db5)\<rparr>, db5))))))"

definition resetShadow :: "('p \<Rightarrow> transition option) \<Rightarrow> 'p slot list \<Rightarrow> 'p projection_db
     \<Rightarrow> projection_error option \<times> 'p slot list \<times> 'p projection_db" where
  "resetShadow = reset_table ShadowTable ShadowProjectorName"

text \<open>One pass of the backfill: the number of transitions and the checksum of the shadow table after it.\<close>

definition backfill_pass ::
  "(string \<Rightarrow> string) \<Rightarrow> (int \<Rightarrow> string) \<Rightarrow> ('p \<Rightarrow> transition option) \<Rightarrow> projector \<Rightarrow> 'p slot list \<Rightarrow> 'p projection_db
     \<Rightarrow> (projection_error + nat \<times> string) \<times> 'p slot list \<times> 'p projection_db" where
  "backfill_pass md5 show_ts decode shadow slots db =
     (case resetShadow decode slots db of
        (Some err, s1, db1) \<Rightarrow> (Inl err, s1, db1)
      | (None, s1, db1) \<Rightarrow>
          (case drainProjector decode s1 shadow db1 of
             (Some err, s2, db2) \<Rightarrow> (Inl err, s2, db2)
           | (None, s2, db2) \<Rightarrow>
               (let (e3, s3, db3) = statement decode id s2 db2; count = length (pd_transitions db3) in
                if e3 then (Inl ProjectionDB, s3, db3)
                else
                  (let (e4, s4, db4) = statement decode id s3 db3 in
                   if e4 then (Inl ProjectionDB, s4, db4)
                   else (Inr (count, projection_checksum md5 show_ts (pd_shadow db4)), s4, db4)))))"

text \<open>Renaming the tables, in one transaction.\<close>

definition swap :: "'p projection_db \<Rightarrow> 'p projection_db" where
  "swap db = db\<lparr>pd_previous := Some (pd_live db), pd_live := pd_shadow db, pd_shadow := []\<rparr>"

definition swapTables :: "('p \<Rightarrow> transition option) \<Rightarrow> 'p slot list \<Rightarrow> 'p projection_db \<Rightarrow> (projection_error + nat) \<times> 'p projection_db" where
  "swapTables decode slots db =
     (let (e, s1, db1) = statement decode swap slots db in
      (if e then Inl ProjectionDB else Inr (length (pd_live db1)), db1))"

record rollout_result =
  ro_FromVersion :: string
  ro_ToVersion :: string
  ro_Rows :: nat
  ro_Checksum :: string
  ro_ConvergeAttempts :: nat

abbreviation maxConvergeAttempts :: nat where "maxConvergeAttempts \<equiv> 10"

definition shadow_projector :: "string \<Rightarrow> projector" where
  "shadow_projector toVersion =
     \<lparr>pr_Name = ShadowProjectorName, pr_BatchSize = 0, pr_Table = ShadowTable, pr_Version = toVersion\<rparr>"

text \<open>The loop over the attempts; \<open>left\<close> are still allowed.\<close>

fun converge ::
  "(string \<Rightarrow> string) \<Rightarrow> (int \<Rightarrow> string) \<Rightarrow> ('p \<Rightarrow> transition option) \<Rightarrow> string \<Rightarrow> nat \<Rightarrow> 'p slot list \<Rightarrow> 'p projection_db
     \<Rightarrow> (projection_error + nat \<times> string) \<times> 'p slot list \<times> 'p projection_db" where
  "converge md5 show_ts decode toVersion 0 slots db = (Inl NotConverged, slots, db)"
| "converge md5 show_ts decode toVersion (Suc left) slots db =
     (case backfill_pass md5 show_ts decode (shadow_projector toVersion) slots db of
        (Inl err, s1, db1) \<Rightarrow> (Inl err, s1, db1)
      | (Inr (countA, checksumA), s1, db1) \<Rightarrow>
          (case backfill_pass md5 show_ts decode (shadow_projector toVersion) s1 db1 of
             (Inl err, s2, db2) \<Rightarrow> (Inl err, s2, db2)
           | (Inr (countB, checksumB), s2, db2) \<Rightarrow>
               if countA = countB \<and> checksumA = checksumB
               then (Inr (maxConvergeAttempts - left, checksumB), s2, db2)
               else converge md5 show_ts decode toVersion left s2 db2))"

definition Rollout ::
  "(string \<Rightarrow> string) \<Rightarrow> (int \<Rightarrow> string) \<Rightarrow> ('p \<Rightarrow> transition option) \<Rightarrow> 'p slot list \<Rightarrow> string \<Rightarrow> 'p projection_db
     \<Rightarrow> (projection_error + rollout_result) \<times> 'p projection_db" where
  "Rollout md5 show_ts decode slots toVersion db =
     (if toVersion = [] then (Inl VersionRequired, db)
      else
        (case converge md5 show_ts decode toVersion maxConvergeAttempts slots db of
           (Inl err, s1, db1) \<Rightarrow> (Inl err, db1)
         | (Inr (attempt, checksum), s1, db1) \<Rightarrow>
             (case swapTables decode s1 db1 of
                (Inl err, db2) \<Rightarrow> (Inl err, db2)
              | (Inr rows, db2) \<Rightarrow>
                  (Inr \<lparr>ro_FromVersion = ProjectorVersion, ro_ToVersion = toVersion, ro_Rows = rows,
                        ro_Checksum = checksum, ro_ConvergeAttempts = attempt\<rparr>, db2))))"

section \<open>What the table holds\<close>

text \<open>
  The specification: a table projects a set of transitions if it has a row exactly for the
  workflows of the set, the row of the transition that is the latest of its workflow in the
  order of time and then of sequence numbers.
\<close>

definition row_key :: "('p \<Rightarrow> transition option) \<Rightarrow> 'p pg_transition_row \<Rightarrow> int \<times> int" where
  "row_key decode r = (tr_OccurredAt (the (decode (tw_payload r))), tw_seq r)"

definition latest_of :: "('p \<Rightarrow> transition option) \<Rightarrow> 'p pg_transition_row set \<Rightarrow> 'p pg_transition_row \<Rightarrow> bool" where
  "latest_of decode rows r \<longleftrightarrow>
     r \<in> rows \<and> (\<forall>q \<in> rows. tw_workflow_id q = tw_workflow_id r \<longrightarrow> row_key decode q \<le> row_key decode r)"

definition projects :: "('p \<Rightarrow> transition option) \<Rightarrow> string \<Rightarrow> 'p pg_transition_row set \<Rightarrow> projection_table \<Rightarrow> bool" where
  "projects decode version rows tab \<longleftrightarrow>
     distinct (map fst tab)
     \<and> (\<forall>wid. case map_of tab wid of
            None \<Rightarrow> (\<forall>q \<in> rows. tw_workflow_id q \<noteq> wid)
          | Some x \<Rightarrow> \<exists>r. latest_of decode rows r \<and> tw_workflow_id r = wid
              \<and> x = row_of version (tw_seq r) (the (decode (tw_payload r))))"

definition projectable :: "('p \<Rightarrow> transition option) \<Rightarrow> 'p pg_transition_row \<Rightarrow> bool" where
  "projectable decode r \<longleftrightarrow>
     (case decode (tw_payload r) of None \<Rightarrow> False | Some t \<Rightarrow> - (2 ^ 31) \<le> tr_Attempt t \<and> tr_Attempt t < 2 ^ 31)"

lemma projects_empty: "projects decode version {} []"
  by (simp add: projects_def)

lemma latest_of_insert_old:
  assumes "latest_of decode rows q" and "tw_workflow_id q = tw_workflow_id r \<Longrightarrow> row_key decode r \<le> row_key decode q"
  shows "latest_of decode (insert r rows) q"
  using assms by (auto simp: latest_of_def)

lemma latest_of_insert_new:
  assumes "\<And>q. latest_of decode rows q \<Longrightarrow> tw_workflow_id q = tw_workflow_id r \<Longrightarrow> row_key decode q \<le> row_key decode r"
    and "\<And>q. q \<in> rows \<Longrightarrow> tw_workflow_id q = tw_workflow_id r \<Longrightarrow> \<exists>q'. latest_of decode rows q' \<and> tw_workflow_id q' = tw_workflow_id r"
  shows "latest_of decode (insert r rows) r"
  unfolding latest_of_def
proof (intro conjI ballI impI)
  fix q assume q: "q \<in> insert r rows" "tw_workflow_id q = tw_workflow_id r"
  show "row_key decode q \<le> row_key decode r"
  proof (cases "q = r")
    case False
    then obtain q' where "latest_of decode rows q'" "tw_workflow_id q' = tw_workflow_id r" using q assms(2) [of q] by auto
    moreover from this have "row_key decode q \<le> row_key decode q'" using q False by (simp add: latest_of_def)
    ultimately show ?thesis using assms(1) order_trans by blast
  qed simp
qed simp

text \<open>The step of the projection, for a transition that is new, late or a duplicate.\<close>

lemma projectsD:
  assumes "projects decode version rows tab"
  shows "map_of tab wid = None \<Longrightarrow> q \<in> rows \<Longrightarrow> tw_workflow_id q \<noteq> wid"
    and "map_of tab wid = Some x \<Longrightarrow> \<exists>r. latest_of decode rows r \<and> tw_workflow_id r = wid
       \<and> x = row_of version (tw_seq r) (the (decode (tw_payload r)))"
proof -
  note table = assms [unfolded projects_def, THEN conjunct2, rule_format, of wid]
  show "map_of tab wid = None \<Longrightarrow> q \<in> rows \<Longrightarrow> tw_workflow_id q \<noteq> wid" using table by simp
  show "map_of tab wid = Some x \<Longrightarrow> \<exists>r. latest_of decode rows r \<and> tw_workflow_id r = wid
       \<and> x = row_of version (tw_seq r) (the (decode (tw_payload r)))" using table by simp
qed

lemma projectsI:
  assumes "distinct (map fst tab)" and "\<And>wid q. map_of tab wid = None \<Longrightarrow> q \<in> rows \<Longrightarrow> tw_workflow_id q \<noteq> wid"
    and "\<And>wid x. map_of tab wid = Some x \<Longrightarrow> \<exists>r. latest_of decode rows r \<and> tw_workflow_id r = wid
       \<and> x = row_of version (tw_seq r) (the (decode (tw_payload r)))"
  shows "projects decode version rows tab"
  unfolding projects_def using assms by (simp split: option.split)

lemma projects_distinct: "projects decode version rows tab \<Longrightarrow> distinct (map fst tab)"
  by (simp add: projects_def)

lemma projects_put:
  assumes p: "projects decode version rows tab" and d: "decode (tw_payload r) = Some t" and l: "latest_of decode (insert r rows) r"
  shows "projects decode version (insert r rows) (AList.update (tw_workflow_id r) (row_of version (tw_seq r) t) tab)"
proof (rule projectsI)
  show "distinct (map fst (AList.update (tw_workflow_id r) (row_of version (tw_seq r) t) tab))"
    using projects_distinct [OF p] by (rule AList.distinct_update)
next
  fix wid q assume "map_of (AList.update (tw_workflow_id r) (row_of version (tw_seq r) t) tab) wid = None" "q \<in> insert r rows"
  then show "tw_workflow_id q \<noteq> wid" using projectsD(1) [OF p] by (auto simp: AList.update_conv' split: if_splits)
next
  fix wid x assume x: "map_of (AList.update (tw_workflow_id r) (row_of version (tw_seq r) t) tab) wid = Some x"
  show "\<exists>q. latest_of decode (insert r rows) q \<and> tw_workflow_id q = wid \<and> x = row_of version (tw_seq q) (the (decode (tw_payload q)))"
  proof (cases "wid = tw_workflow_id r")
    case True
    then show ?thesis using x l d by (intro exI [of _ r]) (simp add: AList.update_conv')
  next
    case False
    then obtain q where q: "latest_of decode rows q" "tw_workflow_id q = wid" "x = row_of version (tw_seq q) (the (decode (tw_payload q)))"
      using x projectsD(2) [OF p] by (auto simp: AList.update_conv')
    then show ?thesis using False latest_of_insert_old [OF q(1), of r] by auto
  qed
qed

lemma projects_keep:
  assumes p: "projects decode version rows tab" and q: "latest_of decode rows q" "tw_workflow_id q = tw_workflow_id r"
    and k: "row_key decode r \<le> row_key decode q"
  shows "projects decode version (insert r rows) tab"
proof (rule projectsI [OF projects_distinct [OF p]])
  fix wid q' assume "map_of tab wid = None" "q' \<in> insert r rows"
  then show "tw_workflow_id q' \<noteq> wid" using projectsD(1) [OF p] q by (auto simp: latest_of_def)
next
  fix wid x assume "map_of tab wid = Some x"
  then obtain q' where q': "latest_of decode rows q'" "tw_workflow_id q' = wid" "x = row_of version (tw_seq q') (the (decode (tw_payload q')))"
    using projectsD(2) [OF p] by blast
  have "latest_of decode (insert r rows) q'"
  proof (rule latest_of_insert_old [OF q'(1)])
    assume same: "tw_workflow_id q' = tw_workflow_id r"
    have "row_key decode q \<le> row_key decode q'" using q' q same by (simp add: latest_of_def)
    then show "row_key decode r \<le> row_key decode q'" using k by (rule order_trans [rotated])
  qed
  then show "\<exists>q. latest_of decode (insert r rows) q \<and> tw_workflow_id q = wid \<and> x = row_of version (tw_seq q) (the (decode (tw_payload q)))"
    using q' by blast
qed

lemma row_newer_row_of: "row_newer occurred seq (row_of version seq' t) \<longleftrightarrow> (tr_OccurredAt t, seq') < (occurred, seq)"
  by (simp add: row_newer_def row_of_def)

lemma upsertProjection_projects:
  assumes p: "projects decode version rows tab" and d: "decode (tw_payload r) = Some t"
    and u: "upsertProjection version (tw_workflow_id r) (tw_seq r) t tab = Some tab'"
  shows "projects decode version (insert r rows) tab'"
proof (cases "map_of tab (tw_workflow_id r)")
  case None
  have "latest_of decode (insert r rows) r"
    using projectsD(1) [OF p None] by (intro latest_of_insert_new) (metis latest_of_def, metis)
  then show ?thesis using projects_put [OF p d] u None by (auto simp: upsertProjection_def split: if_splits)
next
  case (Some old)
  then obtain q where q: "latest_of decode rows q" "tw_workflow_id q = tw_workflow_id r"
      "old = row_of version (tw_seq q) (the (decode (tw_payload q)))"
    using projectsD(2) [OF p] by blast
  have key: "row_newer (tr_OccurredAt t) (tw_seq r) old \<longleftrightarrow> row_key decode q < row_key decode r"
    using q(3) d by (simp add: row_newer_row_of row_key_def)
  show ?thesis
  proof (cases "row_key decode q < row_key decode r")
    case True
    then have "latest_of decode (insert r rows) r"
      using q by (intro latest_of_insert_new) (auto simp: latest_of_def intro: order_trans less_imp_le)
    then show ?thesis using projects_put [OF p d] u Some True key by (auto simp: upsertProjection_def split: if_splits)
  next
    case False
    then show ?thesis
      using projects_keep [OF p q(1,2)] u Some key by (auto simp: upsertProjection_def split: if_splits)
  qed
qed

lemma project_batch_projects:
  "projects decode version rows tab \<Longrightarrow> project_batch decode version batch tab = Inr tab' \<Longrightarrow>
     projects decode version (rows \<union> set batch) tab'"
proof (induction batch arbitrary: rows tab)
  case (Cons r batch)
  then obtain t tab1 where "decode (tw_payload r) = Some t"
      "upsertProjection version (tw_workflow_id r) (tw_seq r) t tab = Some tab1" "project_batch decode version batch tab1 = Inr tab'"
    by (auto split: option.splits)
  then show ?case using Cons.IH [OF upsertProjection_projects [OF Cons.prems(1)]] by simp
qed simp

lemma project_batch_succeeds:
  "list_all (projectable decode) batch \<Longrightarrow> \<exists>tab'. project_batch decode version batch tab = Inr tab'"
proof (induction batch arbitrary: tab)
  case (Cons r batch)
  obtain t where t: "decode (tw_payload r) = Some t" "- (2 ^ 31) \<le> tr_Attempt t" "tr_Attempt t < 2 ^ 31"
    using Cons.prems by (auto simp: projectable_def split: option.splits)
  then obtain tab1 where "upsertProjection version (tw_workflow_id r) (tw_seq r) t tab = Some tab1"
    by (cases "map_of tab (tw_workflow_id r)")
      (simp_all add: upsertProjection_def split: if_splits, metis)
  then show ?case using t Cons by simp
qed simp

section \<open>The projector converges\<close>

text \<open>
  \<open>seq\<close> is a \<open>BIGSERIAL\<close> primary key. The offset of a projector is 0 or the number of a transition.
\<close>

definition stream_ok :: "'p projection_db \<Rightarrow> bool" where
  "stream_ok db \<longleftrightarrow> distinct (map tw_seq (pd_transitions db)) \<and> (\<forall>r \<in> set (pd_transitions db). 0 < tw_seq r)"

definition seen :: "projector \<Rightarrow> 'p projection_db \<Rightarrow> 'p pg_transition_row set" where
  "seen p db = {r \<in> set (pd_transitions db). tw_seq r \<le> currentOffset db (projector_name p)}"

definition tracks :: "('p \<Rightarrow> transition option) \<Rightarrow> projector \<Rightarrow> 'p projection_db \<Rightarrow> bool" where
  "tracks decode p db \<longleftrightarrow>
     projects decode (projector_version p) (seen p db) (the_table (projector_table p) db)
     \<and> currentOffset db (projector_name p) \<in> insert 0 (tw_seq ` set (pd_transitions db))"

lemma sorted_take_set:
  assumes "sorted (map f xs)" and "distinct (map f xs)" and ne: "take n xs \<noteq> []"
  shows "set (take n xs) = {x \<in> set xs. f x \<le> f (last (take n xs))}"
proof -
  obtain as bs where ab: "take n xs = as" "xs = as @ bs" by (metis append_take_drop_id)
  have as: "as \<noteq> []" using ne ab(1) by blast
  have le: "f x \<le> f (last as)" if "x \<in> set as" for x
    using that assms(1) as sorted_le_last [of "map f as" "f x"] unfolding ab(2) by (simp add: last_map sorted_append)
  have "last as \<in> set as" using as by simp
  then have "f (last as) < f x" if "x \<in> set bs" for x
    using that assms(1,2) unfolding ab by (auto simp: sorted_append order_less_le dest: imageI [of _ _ f])
  then show ?thesis unfolding ab(1) using le by (auto simp: ab(2) dest: leD)
qed

lemma next_batch_set:
  assumes "stream_ok db" and "next_batch p db \<noteq> []"
  shows "set (next_batch p db) = {r \<in> set (pending p db). tw_seq r \<le> tw_seq (last (next_batch p db))}"
proof -
  have "distinct (map tw_seq (pending p db))" using assms(1) by (simp add: stream_ok_def pending_def distinct_map_filter)
  then have "distinct (map tw_seq (sort_key tw_seq (pending p db)))" by (simp add: distinct_map)
  from sorted_take_set [OF sorted_sort_key this assms(2) [unfolded next_batch_def']] show ?thesis
    by (simp add: next_batch_def')
qed

lemma the_table_set [simp]: "the_table name (set_table name tab db) = tab"
  by (simp add: the_table_def set_table_def)

lemma the_table_advance [simp]: "the_table name (advanceOffset n seq db) = the_table name db"
  by (simp add: the_table_def)

lemma Tick_cases:
  assumes "Tick decode f p db = (res, db')"
  shows "db' = db \<or> next_batch p db \<noteq> [] \<and> (\<exists>tab. project_batch decode (projector_version p) (next_batch p db) (the_table (projector_table p) db) = Inr tab
     \<and> db' = advanceOffset (projector_name p) (tw_seq (last (next_batch p db))) (set_table (projector_table p) tab db))"
  using assms by (auto simp: Tick_def split: option.splits list.splits sum.splits if_splits)

lemma Tick_transitions [simp]: "pd_transitions (snd (Tick decode f p db)) = pd_transitions db"
  using Tick_cases [of decode f p db] by (cases "Tick decode f p db") auto

lemma seen_advance:
  assumes "stream_ok db" and ne: "next_batch p db \<noteq> []"
    and db': "db' = advanceOffset (projector_name p) (tw_seq (last (next_batch p db))) (set_table (projector_table p) tab db)"
  shows "seen p db' = seen p db \<union> set (next_batch p db)"
    and "currentOffset db' (projector_name p) = tw_seq (last (next_batch p db))"
    and "last (next_batch p db) \<in> set (pd_transitions db)"
proof -
  let ?l = "last (next_batch p db)"
  have l: "?l \<in> set (pending p db)" by (rule next_batch_pending) (use ne in simp)
  then show "?l \<in> set (pd_transitions db)" by (simp add: pending_def)
  show off: "currentOffset db' (projector_name p) = tw_seq ?l"
    using l unfolding db' currentOffset_advance by (auto simp: pending_def currentOffset_def split: option.splits)
  show "seen p db' = seen p db \<union> set (next_batch p db)"
    unfolding next_batch_set [OF assms(1,2)] seen_def off using l by (auto simp: db' pending_def)
qed

lemma Tick_tracks:
  assumes "stream_ok db" and "tracks decode p db"
  shows "tracks decode p (snd (Tick decode f p db))"
proof -
  obtain res db' where t: "Tick decode f p db = (res, db')" by (cases "Tick decode f p db")
  from Tick_cases [OF t] show ?thesis
  proof
    assume "next_batch p db \<noteq> [] \<and> (\<exists>tab. project_batch decode (projector_version p) (next_batch p db) (the_table (projector_table p) db) = Inr tab
     \<and> db' = advanceOffset (projector_name p) (tw_seq (last (next_batch p db))) (set_table (projector_table p) tab db))"
    then obtain tab where ne: "next_batch p db \<noteq> []"
      and tab: "project_batch decode (projector_version p) (next_batch p db) (the_table (projector_table p) db) = Inr tab"
      and db': "db' = advanceOffset (projector_name p) (tw_seq (last (next_batch p db))) (set_table (projector_table p) tab db)" by blast
    have "projects decode (projector_version p) (seen p db \<union> set (next_batch p db)) tab"
      using project_batch_projects [OF _ tab] assms(2) by (simp add: tracks_def)
    then show ?thesis
      using seen_advance [OF assms(1) ne db'] t by (simp add: tracks_def db')
  qed (use t assms in simp)
qed

text \<open>
  The histories of a projector: transitions are committed in the order of their numbers, and
  the projector ticks with any batch size, any faults and at any time.
\<close>

inductive projector_run :: "('p \<Rightarrow> transition option) \<Rightarrow> projector \<Rightarrow> 'p projection_db \<Rightarrow> bool"
  for decode :: "'p \<Rightarrow> transition option" and p :: projector where
  start: "pd_transitions db = [] \<Longrightarrow> the_table (projector_table p) db = [] \<Longrightarrow>
    map_of (pd_offsets db) (projector_name p) = None \<Longrightarrow> projector_run decode p db"
| commit: "projector_run decode p db \<Longrightarrow> 0 < tw_seq r \<Longrightarrow> \<forall>q \<in> set (pd_transitions db). tw_seq q < tw_seq r \<Longrightarrow>
    projector_run decode p (commit_transition r db)"
| tick: "projector_run decode p db \<Longrightarrow> projector_run decode p (snd (Tick decode f (p\<lparr>pr_BatchSize := n\<rparr>) db))"

lemma batch_size_irrelevant [simp]:
  "projector_name (p\<lparr>pr_BatchSize := n\<rparr>) = projector_name p"
  "projector_table (p\<lparr>pr_BatchSize := n\<rparr>) = projector_table p"
  "projector_version (p\<lparr>pr_BatchSize := n\<rparr>) = projector_version p"
  "tracks decode (p\<lparr>pr_BatchSize := n\<rparr>) db = tracks decode p db"
  by (simp_all add: projector_name_def projector_table_def projector_version_def tracks_def seen_def)

lemma commit_simps [simp]:
  "pd_transitions (commit_transition r db) = pd_transitions db @ [r]"
  "currentOffset (commit_transition r db) name = currentOffset db name"
  "the_table name (commit_transition r db) = the_table name db"
  by (simp_all add: commit_transition_def currentOffset_def the_table_def)

lemma projector_run_tracks:
  "projector_run decode p db \<Longrightarrow> stream_ok db \<and> tracks decode p db"
proof (induction rule: projector_run.induct)
  case (start db)
  then show ?case by (simp add: stream_ok_def tracks_def seen_def currentOffset_def projects_empty)
next
  case (commit db r)
  then have "currentOffset db (projector_name p) < tw_seq r" by (auto simp: tracks_def)
  then have "seen p (commit_transition r db) = seen p db" by (auto simp: seen_def)
  then show ?case using commit by (auto simp: stream_ok_def tracks_def)
next
  case (tick db f n)
  then show ?case using Tick_tracks [of db decode "p\<lparr>pr_BatchSize := n\<rparr>" f] by (simp add: stream_ok_def)
qed

lemma Tick_succeeds:
  assumes "upsertSQL p = None" and "list_all (projectable decode) (pd_transitions db)"
  shows "fst (Tick decode TxOk p db) = Inr (length (next_batch p db))"
proof -
  have "list_all (projectable decode) (next_batch p db)"
    using assms(2) next_batch_pending by (fastforce simp: list_all_iff pending_def)
  then obtain tab where "project_batch decode (projector_version p) (next_batch p db) (the_table (projector_table p) db) = Inr tab"
    using project_batch_succeeds by blast
  then show ?thesis using assms(1) by (cases "next_batch p db") (simp_all add: Tick_def)
qed

lemma drainProjector_drains:
  assumes "upsertSQL p = None" and "list_all (projectable decode) (pd_transitions db)" and "stream_ok db" and "tracks decode p db"
  shows "\<exists>db'. drainProjector decode [] p db = (None, [], db') \<and> pd_transitions db' = pd_transitions db
    \<and> projects decode (projector_version p) (set (pd_transitions db)) (the_table (projector_table p) db')"
  using assms
proof (induction "length (pending p db)" arbitrary: db rule: less_induct)
  case less
  obtain db1 where t: "Tick decode TxOk p db = (Inr (length (next_batch p db)), db1)"
    using Tick_succeeds [OF less.prems(1,2)] by (cases "Tick decode TxOk p db") simp
  have keep: "pd_transitions db1 = pd_transitions db" using Tick_transitions [of decode TxOk p db] t by simp
  have tr: "tracks decode p db1" using Tick_tracks [OF less.prems(3,4), of TxOk] t by simp
  show ?case
  proof (cases "next_batch p db = []")
    case True
    then have "db1 = db" using Tick_cases [OF t] by blast
    moreover have "seen p db = set (pd_transitions db)"
      using True by (auto simp: next_batch_Nil_iff pending_def seen_def filter_empty_conv not_less)
    ultimately show ?thesis
      using t True less.prems(4) by (simp add: drainProjector.simps slot_fault_def slot_db_def tracks_def)
  next
    case False
    have "length (pending p db1) < length (pending p db)" using Tick_progress [OF t] False by simp
    from less.hyps [OF this less.prems(1)] tr less.prems(2,3) keep obtain db' where
      "drainProjector decode [] p db1 = (None, [], db')" "pd_transitions db' = pd_transitions db"
      "projects decode (projector_version p) (set (pd_transitions db)) (the_table (projector_table p) db')"
      by (auto simp: stream_ok_def)
    then show ?thesis using t False by (subst drainProjector.simps) (simp add: slot_fault_def slot_db_def)
  qed
qed


section \<open>A rebuild reproduces the table\<close>

lemma projects_unique:
  assumes "stream_ok db" and "projects decode v (set (pd_transitions db)) t1" and "projects decode v (set (pd_transitions db)) t2"
  shows "map_of t1 = map_of t2"
proof
  fix wid
  have one: "q = r" if "latest_of decode (set (pd_transitions db)) q" "latest_of decode (set (pd_transitions db)) r"
      "tw_workflow_id q = wid" "tw_workflow_id r = wid" for q r
  proof -
    have "row_key decode q = row_key decode r" using that by (auto simp: latest_of_def intro: antisym)
    then have "tw_seq q = tw_seq r" by (simp add: row_key_def)
    then show ?thesis using that assms(1) by (auto simp: latest_of_def stream_ok_def distinct_map dest: inj_onD)
  qed
  show "map_of t1 wid = map_of t2 wid"
  proof (cases "map_of t1 wid")
    case None
    then show ?thesis using projectsD(1) [OF assms(2) None] projectsD(2) [OF assms(3), of wid]
      by (cases "map_of t2 wid") (auto simp: latest_of_def)
  next
    case (Some x)
    then obtain q where q: "latest_of decode (set (pd_transitions db)) q" "tw_workflow_id q = wid"
      "x = row_of v (tw_seq q) (the (decode (tw_payload q)))" using projectsD(2) [OF assms(2)] by blast
    then obtain y where y: "map_of t2 wid = Some y" using projectsD(1) [OF assms(3), of wid q] by (cases "map_of t2 wid") (auto simp: latest_of_def)
    then show ?thesis using projectsD(2) [OF assms(3) y] one q Some by metis
  qed
qed

lemma same_map_sort:
  assumes "distinct (map fst t1)" and "distinct (map fst t2)" and "map_of t1 = map_of t2"
  shows "sort_key fst t1 = sort_key fst t2"
proof (rule sort_key_inj_key_eq)
  have "set t1 = set t2" using assms by (metis (no_types) map_of_eqI map_of_eq_Some_iff subset_antisym subrelI)
  then show "mset t1 = mset (sort_key fst t2)"
    using assms(1,2) by (simp add: distinct_map set_eq_iff_mset_eq_distinct)
  show "inj_on fst (set t1)" using assms(1) by (simp add: distinct_map)
qed simp

lemma projects_count:
  assumes "projects decode v rows tab" shows "fst ` set tab = tw_workflow_id ` rows"
proof -
  have "wid \<in> fst ` set tab \<longleftrightarrow> wid \<in> tw_workflow_id ` rows" for wid
    using projectsD [OF assms, of wid]
    by (cases "map_of tab wid") (auto simp: map_of_eq_None_iff latest_of_def dest: map_of_SomeD intro: rev_image_eqI)
  then show ?thesis by blast
qed

lemma statement_quiet [simp]: "statement decode act [] db = (False, [], act db)"
  by (simp add: statement_def slot_db_def slot_fault_def)

lemma reset_table_quiet: "reset_table tname name decode [] db = (None, [], delete_offset name (set_table tname [] db))"
  by (simp add: reset_table_def)

lemma delete_offset_simps [simp]:
  "pd_transitions (delete_offset name db) = pd_transitions db"
  "pd_live (delete_offset name db) = pd_live db"
  "pd_shadow (delete_offset name db) = pd_shadow db"
  "pd_previous (delete_offset name db) = pd_previous db"
  "currentOffset (delete_offset name db) name = 0"
  by (simp_all add: delete_offset_def currentOffset_def AList.delete_conv')

lemma set_table_other [simp]:
  "pd_shadow (set_table DefaultTable tab db) = pd_shadow db" "pd_live (set_table DefaultTable tab db) = tab"
  "pd_live (set_table ShadowTable tab db) = pd_live db" "pd_shadow (set_table ShadowTable tab db) = tab"
  by (simp_all add: set_table_def)

text \<open>After the reset a projector starts from nothing.\<close>

lemma reset_tracks:
  assumes "stream_ok db" and "pr_Name p \<noteq> []"
  shows "tracks decode p (delete_offset (pr_Name p) (set_table (projector_table p) [] db))"
proof -
  have "seen p (delete_offset (pr_Name p) (set_table (projector_table p) [] db)) = {}"
    using assms by (auto simp: seen_def projector_name_def stream_ok_def)
  moreover have "the_table t (delete_offset n d) = the_table t d" for t n and d :: "'a projection_db"
    by (simp add: the_table_def)
  ultimately show ?thesis using assms(2) by (simp add: tracks_def projects_empty projector_name_def)
qed

lemma Tick_other_table:
  "projector_table p = DefaultTable \<Longrightarrow> pd_shadow (snd (Tick decode f p db)) = pd_shadow db \<and> pd_previous (snd (Tick decode f p db)) = pd_previous db"
  "projector_table p = ShadowTable \<Longrightarrow> pd_live (snd (Tick decode f p db)) = pd_live db \<and> pd_previous (snd (Tick decode f p db)) = pd_previous db"
  using Tick_cases [of decode f p db] by (cases "Tick decode f p db"; auto)+

lemma drain_preserves:
  assumes "\<And>d. P d \<Longrightarrow> P (snd (Tick decode TxOk p d))"
  shows "P db \<Longrightarrow> drainProjector decode [] p db = (res, slots, db') \<Longrightarrow> P db'"
proof (induction "length (pending p db)" arbitrary: db rule: less_induct)
  case less
  obtain r1 db1 where t: "Tick decode TxOk p db = (r1, db1)" by (cases "Tick decode TxOk p db")
  have P: "P db1" using assms [OF less.prems(1)] t by simp
  show ?case
    using less.hyps [of db1] less.prems(2) P t Tick_progress [of decode TxOk p db _ db1]
    by (subst (asm) drainProjector.simps) (auto simp: slot_fault_def slot_db_def split: sum.splits if_splits)
qed

lemma drain_other_table:
  "projector_table p = DefaultTable \<Longrightarrow> drainProjector decode [] p db = (res, slots, db') \<Longrightarrow>
     pd_shadow db' = pd_shadow db \<and> pd_previous db' = pd_previous db"
  "projector_table p = ShadowTable \<Longrightarrow> drainProjector decode [] p db = (res, slots, db') \<Longrightarrow>
     pd_live db' = pd_live db \<and> pd_previous db' = pd_previous db"
proof -
  assume p: "projector_table p = DefaultTable" and d: "drainProjector decode [] p db = (res, slots, db')"
  show "pd_shadow db' = pd_shadow db \<and> pd_previous db' = pd_previous db"
    by (rule drain_preserves [where P = "\<lambda>d. pd_shadow d = pd_shadow db \<and> pd_previous d = pd_previous db", OF _ _ d])
      (simp_all only: Tick_other_table(1) [OF p] simp_thms)
next
  assume p: "projector_table p = ShadowTable" and d: "drainProjector decode [] p db = (res, slots, db')"
  show "pd_live db' = pd_live db \<and> pd_previous db' = pd_previous db"
    by (rule drain_preserves [where P = "\<lambda>d. pd_live d = pd_live db \<and> pd_previous d = pd_previous db", OF _ _ d])
      (simp_all only: Tick_other_table(2) [OF p] simp_thms)
qed

text \<open>What a replay from the start gives, for either table.\<close>

lemma replay:
  assumes "stream_ok db" and "list_all (projectable decode) (pd_transitions db)" and "upsertSQL p = None" and "pr_Name p \<noteq> []"
  shows "\<exists>db'. drainProjector decode [] p (delete_offset (pr_Name p) (set_table (projector_table p) [] db)) = (None, [], db')
    \<and> pd_transitions db' = pd_transitions db
    \<and> projects decode (projector_version p) (set (pd_transitions db)) (the_table (projector_table p) db')"
  using drainProjector_drains [OF assms(3) _ _ reset_tracks [OF assms(1,4), of decode]] assms(1,2)
  by (simp add: stream_ok_def)

lemma projects_length:
  "projects decode v (set (pd_transitions db)) tab \<Longrightarrow> length tab = distinct_workflows db"
  using distinct_card [of "map fst tab"] projects_distinct [of decode v "set (pd_transitions db)" tab]
    projects_count [of decode v "set (pd_transitions db)" tab]
  by (simp add: distinct_workflows_def length_remdups_card_conv)

text \<open>
  a rebuild is a routine operation. When nothing interferes and all transitions can be
  projected, it succeeds, counts the workflows, leaves the stream and the other tables alone
  and projects every transition; if the live table was up to date, the checksum is the one it
  had before.
\<close>

theorem Rebuild_reproduces:
  assumes "projector_run decode live_projector db" and "list_all (projectable decode) (pd_transitions db)" and "name \<noteq> []"
  shows "\<exists>sum db'. Rebuild md5 show_ts decode [] name db = (Inr \<lparr>rb_Rows = distinct_workflows db, rb_Checksum = sum\<rparr>, db')
    \<and> pd_transitions db' = pd_transitions db \<and> pd_shadow db' = pd_shadow db
    \<and> projects decode ProjectorVersion (set (pd_transitions db)) (pd_live db')
    \<and> (pending live_projector db = [] \<longrightarrow> sum = projection_checksum md5 show_ts (pd_live db) \<and> map_of (pd_live db') = map_of (pd_live db))"
proof -
  let ?p = "\<lparr>pr_Name = name, pr_BatchSize = 0, pr_Table = [], pr_Version = []\<rparr>"
  have ok: "stream_ok db" and tr: "tracks decode live_projector db" using projector_run_tracks [OF assms(1)] by simp_all
  have p: "upsertSQL ?p = None" "projector_table ?p = DefaultTable" "projector_version ?p = ProjectorVersion"
    "projector_table live_projector = DefaultTable" "projector_version live_projector = ProjectorVersion"
    by (simp_all add: upsertSQL_def projector_table_def projector_version_def live_projector_def)
  obtain db' where d: "drainProjector decode [] ?p (delete_offset name (set_table DefaultTable [] db)) = (None, [], db')"
    and t: "pd_transitions db' = pd_transitions db" and pr: "projects decode ProjectorVersion (set (pd_transitions db)) (pd_live db')"
    using replay [OF ok assms(2) p(1)] assms(3) p by (auto simp: the_table_def)
  have len: "length (pd_live db') = distinct_workflows db" by (rule projects_length [OF pr])
  have sh: "pd_shadow db' = pd_shadow db" using drain_other_table(1) [OF p(2) d] by simp
  have "projection_checksum md5 show_ts (pd_live db') = projection_checksum md5 show_ts (pd_live db)
      \<and> map_of (pd_live db') = map_of (pd_live db)" if "pending live_projector db = []"
  proof -
    have "seen live_projector db = set (pd_transitions db)"
      using that by (auto simp: pending_def seen_def filter_empty_conv not_less)
    then have live: "projects decode ProjectorVersion (set (pd_transitions db)) (pd_live db)"
      using tr p by (simp add: tracks_def the_table_def)
    have m: "map_of (pd_live db') = map_of (pd_live db)" by (rule projects_unique [OF ok pr live])
    then show ?thesis
      using same_map_sort [OF projects_distinct [OF pr] projects_distinct [OF live]] by (simp add: projection_checksum_def)
  qed
  then show ?thesis using d len t sh pr by (simp add: Rebuild_def reset_table_quiet distinct_workflows_def)
qed

text \<open>
  a quiet roll-out cuts over. When nothing interferes it converges in the first attempt, the
  live table projects all transitions under the new version, the old table is kept as the
  previous generation and the shadow table is empty again.
\<close>

theorem Rollout_cuts_over:
  assumes "stream_ok db" and "list_all (projectable decode) (pd_transitions db)" and "toVersion \<noteq> []"
  shows "\<exists>sum db'. Rollout md5 show_ts decode [] toVersion db =
      (Inr \<lparr>ro_FromVersion = ProjectorVersion, ro_ToVersion = toVersion, ro_Rows = distinct_workflows db,
            ro_Checksum = sum, ro_ConvergeAttempts = 1\<rparr>, db')
    \<and> sum = projection_checksum md5 show_ts (pd_live db') \<and> pd_transitions db' = pd_transitions db
    \<and> projects decode toVersion (set (pd_transitions db)) (pd_live db')
    \<and> pd_previous db' = Some (pd_live db) \<and> pd_shadow db' = []"
proof -
  let ?p = "shadow_projector toVersion"
  have p: "upsertSQL ?p = None" "projector_table ?p = ShadowTable" "projector_version ?p = toVersion" "pr_Name ?p = ShadowProjectorName"
    using assms(3) by (simp_all add: upsertSQL_def projector_table_def projector_version_def shadow_projector_def)
  have pass: "\<exists>d'. backfill_pass md5 show_ts decode ?p [] d =
        (Inr (length (pd_transitions d), projection_checksum md5 show_ts (pd_shadow d')), [], d')
      \<and> pd_transitions d' = pd_transitions d \<and> pd_live d' = pd_live d \<and> projects decode toVersion (set (pd_transitions d)) (pd_shadow d')"
    if d: "stream_ok d" "list_all (projectable decode) (pd_transitions d)" for d
  proof -
    obtain d' where e: "drainProjector decode [] ?p (delete_offset ShadowProjectorName (set_table ShadowTable [] d)) = (None, [], d')"
      and t: "pd_transitions d' = pd_transitions d" and pr: "projects decode toVersion (set (pd_transitions d)) (pd_shadow d')"
      using replay [OF d p(1)] p by (auto simp: the_table_def)
    have "pd_live d' = pd_live d" using drain_other_table(2) [OF p(2) e] by simp
    then show ?thesis using e t pr by (simp add: backfill_pass_def resetShadow_def reset_table_quiet)
  qed
  obtain d1 where 1: "backfill_pass md5 show_ts decode ?p [] db =
        (Inr (length (pd_transitions db), projection_checksum md5 show_ts (pd_shadow d1)), [], d1)"
      "pd_transitions d1 = pd_transitions db" "pd_live d1 = pd_live db" "projects decode toVersion (set (pd_transitions db)) (pd_shadow d1)"
    using pass [OF assms(1,2)] by blast
  have ok1: "stream_ok d1" "list_all (projectable decode) (pd_transitions d1)" using assms(1,2) 1(2) by (simp_all add: stream_ok_def)
  obtain d2 where 2: "backfill_pass md5 show_ts decode ?p [] d1 =
        (Inr (length (pd_transitions d1), projection_checksum md5 show_ts (pd_shadow d2)), [], d2)"
      "pd_transitions d2 = pd_transitions db" "pd_live d2 = pd_live db" "projects decode toVersion (set (pd_transitions db)) (pd_shadow d2)"
    using pass [OF ok1] 1(2,3) by auto
  have same: "projection_checksum md5 show_ts (pd_shadow d1) = projection_checksum md5 show_ts (pd_shadow d2)"
    using same_map_sort [OF projects_distinct [OF 1(4)] projects_distinct [OF 2(4)] projects_unique [OF assms(1) 1(4) 2(4)]]
    by (simp add: projection_checksum_def)
  have "converge md5 show_ts decode toVersion maxConvergeAttempts [] db =
      (Inr (1, projection_checksum md5 show_ts (pd_shadow d2)), [], d2)"
    using 1 2 same by (simp add: eval_nat_numeral)
  then show ?thesis
    using assms(3) 2 projects_length [OF 2(4)] by (simp add: Rollout_def swapTables_def swap_def)
qed

section \<open>Two ways to lose an update\<close>

text \<open>
  Sequence numbers are drawn before a transaction commits: a transition that commits behind
  the offset is never read.
\<close>

theorem late_commit_skipped:
  assumes "upsertSQL p = None" and "pending p db = []" and "tw_seq r \<le> currentOffset db (projector_name p)"
  shows "Tick decode TxOk p (commit_transition r db) = (Inr 0, commit_transition r db)"
proof -
  have "pending p (commit_transition r db) = []" using assms(2,3) by (simp add: pending_def)
  then have "next_batch p (commit_transition r db) = []" by (simp add: next_batch_Nil_iff)
  then show ?thesis using assms(1) by (simp add: Tick_def)
qed

definition projected_at :: "int \<Rightarrow> int \<Rightarrow> transition pg_transition_row" where
  "projected_at seq occurred =
     \<lparr>tw_workflow_id = ''w1'', tw_seq = seq, tw_payload = (sample_transition ''a'')\<lparr>tr_OccurredAt := occurred\<rparr>\<rparr>"

definition empty_projection :: "transition projection_db" where
  "empty_projection = \<lparr>pd_transitions = [], pd_live = [], pd_shadow = [], pd_previous = None, pd_offsets = []\<rparr>"

text \<open>
  The live projector keeps its offset over the swap of the tables: a transition that it reads
  between the last backfill and the swap goes to the old table, is missing from the new one and
  is never read again, although the roll-out reports success.
\<close>

definition racing_slots :: "transition slot list" where
  "racing_slots = replicate 10 (TxOk, []) @ [(TxOk, [OtherCommit (projected_at 1 0), OtherTick])]"

lemma live_projector_simps [simp]:
  "upsertSQL live_projector = None" "projector_name live_projector = DefaultProjectorName"
  "projector_table live_projector = DefaultTable" "projector_version live_projector = ProjectorVersion" "batchSize live_projector = 500"
  by (simp_all add: live_projector_def upsertSQL_def projector_name_def projector_table_def projector_version_def batchSize_def)

lemma shadow_projector_simps [simp]:
  "upsertSQL (shadow_projector v) = None" "projector_name (shadow_projector v) = ShadowProjectorName"
  "projector_table (shadow_projector v) = ShadowTable" "batchSize (shadow_projector v) = 500"
  by (simp_all add: shadow_projector_def upsertSQL_def projector_name_def projector_table_def batchSize_def)

lemma empty_pass:
  assumes "take 5 slots = replicate 5 (TxOk, [])"
  shows "backfill_pass md5 show_ts decode (shadow_projector v) slots (empty_projection\<lparr>pd_shadow := []\<rparr>) =
    (Inr (0, md5 []), drop 5 slots, empty_projection)"
proof -
  obtain s' where "slots = replicate 5 (TxOk, []) @ s'" using assms by (metis append_take_drop_id)
  then show ?thesis
    by (simp add: eval_nat_numeral backfill_pass_def resetShadow_def reset_table_def statement_def slot_db_def slot_fault_def
        drainProjector.simps [of _ "_ # _"] Tick_def next_batch_def empty_projection_def set_table_def delete_offset_def projection_checksum_def)
qed

theorem rollout_loses_update:
  "\<exists>res db'. Rollout md5 show_ts Some racing_slots ''v1'' empty_projection = (Inr res, db')
     \<and> pd_transitions db' = [projected_at 1 0] \<and> pd_live db' = [] \<and> Tick Some TxOk live_projector db' = (Inr 0, db')"
proof -
  have e: "empty_projection\<lparr>pd_shadow := []\<rparr> = empty_projection" by (simp add: empty_projection_def)
  have "converge md5 show_ts Some ''v1'' maxConvergeAttempts racing_slots empty_projection =
      (Inr (1, md5 []), [(TxOk, [OtherCommit (projected_at 1 0), OtherTick])], empty_projection)"
    using empty_pass [of racing_slots md5 show_ts Some "''v1''"] empty_pass [of "drop 5 racing_slots" md5 show_ts Some "''v1''"]
    by (simp add: e racing_slots_def eval_nat_numeral)
  then show ?thesis
    by (simp add: Rollout_def swapTables_def statement_def slot_db_def slot_fault_def swap_def empty_projection_def commit_transition_def
        Tick_def next_batch_def currentOffset_def advanceOffset_def set_table_def the_table_def upsertProjection_def projected_at_def
        sample_transition_def)
qed

section \<open>The theorems at work\<close>

text \<open>A late transition with an older time comes after the newer one, and does not replace it.\<close>

definition two_transitions :: "transition projection_db" where
  "two_transitions = commit_transition (projected_at 2 3)
     (snd (Tick Some TxAborted live_projector (commit_transition (projected_at 1 5) empty_projection)))"

lemma two_transitions_run: "projector_run Some live_projector two_transitions"
proof -
  have 0: "projector_run Some live_projector empty_projection" by (rule projector_run.start) (simp_all add: empty_projection_def the_table_def)
  have 1: "projector_run Some live_projector (commit_transition (projected_at 1 5) empty_projection)"
    by (rule projector_run.commit [OF 0]) (simp_all add: projected_at_def empty_projection_def)
  have "live_projector = live_projector\<lparr>pr_BatchSize := 0\<rparr>" by (simp add: live_projector_def)
  then have 2: "projector_run Some live_projector (snd (Tick Some TxAborted live_projector (commit_transition (projected_at 1 5) empty_projection)))"
    using projector_run.tick [OF 1, of TxAborted 0] by metis
  show ?thesis
    unfolding two_transitions_def by (rule projector_run.commit [OF 2]) (simp_all add: projected_at_def empty_projection_def)
qed

lemma two_transitions_rows: "pd_transitions two_transitions = [projected_at 1 5, projected_at 2 3]"
  by (simp add: two_transitions_def empty_projection_def)

lemma two_projectable: "list_all (projectable Some) (pd_transitions two_transitions)"
  unfolding two_transitions_rows by (simp add: projectable_def projected_at_def sample_transition_def)


theorem Rebuild_reproduces_witness:
  "\<exists>sum db'. Rebuild (\<lambda>s. s) show_int Some [] DefaultProjectorName two_transitions = (Inr \<lparr>rb_Rows = 1, rb_Checksum = sum\<rparr>, db')
     \<and> projects Some ProjectorVersion {projected_at 1 5, projected_at 2 3} (pd_live db')"
proof -
  have "distinct_workflows two_transitions = 1" by (simp add: distinct_workflows_def two_transitions_rows projected_at_def)
  then show ?thesis
    using Rebuild_reproduces [OF two_transitions_run two_projectable, of DefaultProjectorName "\<lambda>s. s" show_int]
    by (auto simp: two_transitions_rows)
qed

theorem Rollout_cuts_over_witness:
  "\<exists>res db'. Rollout (\<lambda>s. s) show_int Some [] ''v1'' two_transitions = (Inr res, db')
     \<and> projects Some ''v1'' {projected_at 1 5, projected_at 2 3} (pd_live db')"
  using Rollout_cuts_over [of two_transitions Some "''v1''" "\<lambda>s. s" show_int] projector_run_tracks [OF two_transitions_run] two_projectable
  by (auto simp: two_transitions_rows)

end
