(* ===== verification/Notify.thy ===== *)
theory Notify
  imports Prelude "HOL-Library.AList" "HOL-Library.List_Lexorder" "HOL-Library.Char_ord" "HOL-Library.Multiset"
begin

text \<open>
  The outbound half of the notification engine, \<open>internal/notify\<close>: events (\<open>event.go\<close>), the
  batcher (\<open>batch.go\<close>), the outbox in memory and in Postgres (\<open>memory_store.go\<close>, \<open>store.go\<close>,
  migrations \<open>00007\<close> and \<open>00027\<close>), the sender (\<open>telegram.go\<close>) and the engine (\<open>engine.go\<close>,
  \<open>alerter.go\<close>). The columns \<open>updated_at\<close> and \<open>sent_at\<close>, which nothing reads, are left out. JSON, the
  HTTP exchange and the token buckets of \<open>golang.org/x/time/rate\<close> answer as inputs.

  The batcher loses and repeats no event, and the engine sends a notification successfully at
  most once and at most as often as configured. The outbox is an interface that both stores
  implement.
\<close>

section \<open>Events\<close>

datatype notify_class = P0Critical | P1Command | P2State | P3Progress | ClassOther int

fun Class_String :: "notify_class \<Rightarrow> string" where
  "Class_String P0Critical = ''P0''"
| "Class_String P1Command = ''P1''"
| "Class_String P2State = ''P2''"
| "Class_String P3Progress = ''P3''"
| "Class_String (ClassOther n) = ''P?''"

definition Immediate :: "notify_class \<Rightarrow> bool" where
  "Immediate c = (c = P0Critical \<or> c = P1Command)"

abbreviation ChatPrivate :: string where "ChatPrivate \<equiv> ''private''"
abbreviation ChatGroup :: string where "ChatGroup \<equiv> ''group''"

record notify_event =
  ne_Class :: notify_class
  ne_ChatID :: string
  ne_ChatType :: string
  ne_Workflow :: string
  ne_Text :: string
  ne_DedupeKey :: string
  ne_OccurredAt :: int

section \<open>The batcher\<close>

record aggregation_key =
  ak_ChatID :: string
  ak_ChatType :: string
  ak_Workflow :: string

record pending_batch =
  pb_events :: "notify_event list"
  pb_windowEnd :: int

record notify_digest =
  nd_ChatID :: string
  nd_ChatType :: string
  nd_Workflow :: string
  nd_Text :: string
  nd_DedupeKey :: string
  nd_EventsCount :: nat

record batcher =
  ba_window :: int
  ba_maxBatchSize :: int
  ba_batches :: "(aggregation_key \<times> pending_batch) list"

definition NewBatcher :: "int \<Rightarrow> int \<Rightarrow> batcher" where
  "NewBatcher window maxBatchSize =
     \<lparr>ba_window = window, ba_maxBatchSize = (if maxBatchSize < 1 then 1 else maxBatchSize), ba_batches = []\<rparr>"

definition event_key :: "notify_event \<Rightarrow> aggregation_key" where
  "event_key ev = \<lparr>ak_ChatID = ne_ChatID ev, ak_ChatType = ne_ChatType ev, ak_Workflow = ne_Workflow ev\<rparr>"

definition buildDigest :: "aggregation_key \<Rightarrow> notify_event list \<Rightarrow> notify_digest" where
  "buildDigest key events =
     \<lparr>nd_ChatID = ak_ChatID key, nd_ChatType = ak_ChatType key, nd_Workflow = ak_Workflow key,
      nd_Text = ''Delivery Foundry update '' @ em_dash @ '' '' @ ak_Workflow key @ [newline] @ ''Events combined: ''
        @ show_int (int (length events)) @ [newline, newline]
        @ join_with [newline] (map (\<lambda>ev. Class_String (ne_Class ev) @ '' '' @ ne_Text ev) events),
      nd_DedupeKey = ''digest:'' @ ak_ChatID key @ '':'' @ ak_Workflow key @ '':'' @ join_with '','' (map ne_DedupeKey events),
      nd_EventsCount = length events\<rparr>"

definition batch_of :: "batcher \<Rightarrow> int \<Rightarrow> aggregation_key \<Rightarrow> pending_batch" where
  "batch_of b now key =
     (case map_of (ba_batches b) key of None \<Rightarrow> \<lparr>pb_events = [], pb_windowEnd = now + ba_window b\<rparr> | Some pb \<Rightarrow> pb)"

definition Batcher_Add :: "batcher \<Rightarrow> notify_event \<Rightarrow> int \<Rightarrow> notify_digest option \<times> batcher" where
  "Batcher_Add b ev now =
     (let key = event_key ev; pb = batch_of b now key; events = pb_events pb @ [ev] in
      if int (length events) \<ge> ba_maxBatchSize b
      then (Some (buildDigest key events), b\<lparr>ba_batches := AList.delete key (ba_batches b)\<rparr>)
      else (None, b\<lparr>ba_batches := AList.update key (pb\<lparr>pb_events := events\<rparr>) (ba_batches b)\<rparr>))"

text \<open>
  Digests that are due, in the order of their keys; \<open>sort.Slice\<close> leaves the order of equal keys
  open, here it is that of the batches.
\<close>

definition Batcher_Tick :: "batcher \<Rightarrow> int \<Rightarrow> notify_digest list \<times> batcher" where
  "Batcher_Tick b now =
     (let due = filter (\<lambda>(key, pb). \<not> now < pb_windowEnd pb) (ba_batches b) in
      (sort_key nd_DedupeKey (map (\<lambda>(key, pb). buildDigest key (pb_events pb)) due),
       b\<lparr>ba_batches := filter (\<lambda>(key, pb). now < pb_windowEnd pb) (ba_batches b)\<rparr>))"

definition Batcher_Pending :: "batcher \<Rightarrow> nat" where
  "Batcher_Pending b = length (ba_batches b)"

section \<open>No event is lost in a batch\<close>

text \<open>
  The events that go in and the batches that come out, over any sequence of calls. \<open>flushed\<close> is
  what a call coalesces: the same events from which it builds its digests.
\<close>

datatype batch_op = AddEvent notify_event int | TickAt int

fun batch_step :: "batch_op \<Rightarrow> batcher \<Rightarrow> batcher" where
  "batch_step (AddEvent ev now) b = snd (Batcher_Add b ev now)"
| "batch_step (TickAt now) b = snd (Batcher_Tick b now)"

fun digests_of :: "batch_op \<Rightarrow> batcher \<Rightarrow> notify_digest list" where
  "digests_of (AddEvent ev now) b = (case fst (Batcher_Add b ev now) of None \<Rightarrow> [] | Some d \<Rightarrow> [d])"
| "digests_of (TickAt now) b = fst (Batcher_Tick b now)"

fun batch_run :: "batch_op list \<Rightarrow> batcher \<Rightarrow> notify_digest list \<times> batcher" where
  "batch_run [] b = ([], b)"
| "batch_run (op # ops) b = (let (ds, b') = batch_run ops (batch_step op b) in (digests_of op b @ ds, b'))"

definition added :: "batch_op list \<Rightarrow> notify_event list" where
  "added ops = concat (map (\<lambda>op. case op of AddEvent ev now \<Rightarrow> [ev] | TickAt now \<Rightarrow> []) ops)"

definition held :: "batcher \<Rightarrow> notify_event multiset" where
  "held b = (\<Sum>(key, pb) \<in># mset (ba_batches b). mset (pb_events pb))"

definition batcher_ok :: "batcher \<Rightarrow> bool" where
  "batcher_ok b \<longleftrightarrow> 1 \<le> ba_maxBatchSize b \<and> distinct (map fst (ba_batches b))
     \<and> (\<forall>(key, pb) \<in> set (ba_batches b). pb_events pb \<noteq> [] \<and> int (length (pb_events pb)) < ba_maxBatchSize b
          \<and> (\<forall>ev \<in> set (pb_events pb). event_key ev = key))"

definition group_ok :: "int \<Rightarrow> aggregation_key \<times> notify_event list \<Rightarrow> bool" where
  "group_ok limit = (\<lambda>(key, events). events \<noteq> [] \<and> int (length events) \<le> limit \<and> (\<forall>ev \<in> set events. event_key ev = key))"

definition events_of :: "(aggregation_key \<times> notify_event list) list \<Rightarrow> notify_event multiset" where
  "events_of groups = (\<Sum>(key, events) \<in># mset groups. mset events)"

definition alist_events :: "(aggregation_key \<times> pending_batch) list \<Rightarrow> notify_event multiset" where
  "alist_events al = (\<Sum>(key, pb) \<in># mset al. mset (pb_events pb))"

lemma alist_events_delete:
  assumes "distinct (map fst al)"
  shows "alist_events al = (case map_of al k of None \<Rightarrow> {#} | Some pb \<Rightarrow> mset (pb_events pb)) + alist_events (AList.delete k al)"
  using assms
proof (induction al)
  case (Cons x al)
  then show ?case
    by (cases x) (auto simp: alist_events_def AList.delete_eq map_of_eq_None_iff image_iff
        intro!: arg_cong [where f = "\<lambda>l. (\<Sum>(key, pb) \<in># mset l. mset (pb_events pb))"] split: option.splits)
qed (simp add: alist_events_def)

lemma alist_events_update:
  assumes "distinct (map fst al)"
  shows "alist_events (AList.update k pb al) = mset (pb_events pb) + alist_events (AList.delete k al)"
  using alist_events_delete [OF AList.distinct_update [OF assms], of k pb k]
  by (simp add: AList.update_conv' AList.delete_update_same)

lemma alist_events_filter: "alist_events al = alist_events (filter P al) + alist_events (filter (\<lambda>x. \<not> P x) al)"
  by (induction al) (auto simp: alist_events_def)

lemma set_update_subset: "x \<in> set (AList.update k v al) \<Longrightarrow> x = (k, v) \<or> x \<in> set al"
  by (induction al) (auto split: if_splits)

lemma held_alist: "held b = alist_events (ba_batches b)"
  by (simp add: held_def alist_events_def)

lemma batch_entry:
  assumes "batcher_ok b" and "map_of (ba_batches b) key = Some pb"
  shows "pb_events pb \<noteq> []" "int (length (pb_events pb)) < ba_maxBatchSize b" "\<And>ev. ev \<in> set (pb_events pb) \<Longrightarrow> event_key ev = key"
  using assms map_of_SomeD [OF assms(2)] by (auto simp: batcher_ok_def)

lemma batch_of_ok:
  assumes "batcher_ok b"
  shows "ev \<in> set (pb_events (batch_of b now key)) \<Longrightarrow> event_key ev = key"
    and "int (length (pb_events (batch_of b now key))) < ba_maxBatchSize b"
    and "held b = mset (pb_events (batch_of b now key)) + alist_events (AList.delete key (ba_batches b))"
proof -
  have d: "distinct (map fst (ba_batches b))" and m: "1 \<le> ba_maxBatchSize b" using assms by (simp_all add: batcher_ok_def)
  show "ev \<in> set (pb_events (batch_of b now key)) \<Longrightarrow> event_key ev = key"
    using batch_entry(3) [OF assms, of key] by (cases "map_of (ba_batches b) key") (simp_all add: batch_of_def)
  show "int (length (pb_events (batch_of b now key))) < ba_maxBatchSize b"
    using batch_entry(2) [OF assms, of key] m by (cases "map_of (ba_batches b) key") (simp_all add: batch_of_def)
  show "held b = mset (pb_events (batch_of b now key)) + alist_events (AList.delete key (ba_batches b))"
    unfolding held_alist alist_events_delete [OF d, of key] by (cases "map_of (ba_batches b) key") (simp_all add: batch_of_def)
qed

lemma batcher_ok_delete:
  assumes "batcher_ok b" shows "batcher_ok (b\<lparr>ba_batches := AList.delete key (ba_batches b)\<rparr>)"
  using assms by (auto simp: batcher_ok_def AList.delete_eq distinct_map_filter)

lemma Batcher_Add_ok:
  assumes "batcher_ok b"
  shows "batcher_ok (snd (Batcher_Add b ev now)) \<and> ba_maxBatchSize (snd (Batcher_Add b ev now)) = ba_maxBatchSize b
    \<and> (\<exists>groups. digests_of (AddEvent ev now) b = map (\<lambda>(k, es). buildDigest k es) groups
         \<and> list_all (group_ok (ba_maxBatchSize b)) groups
         \<and> events_of groups + held (snd (Batcher_Add b ev now)) = held b + {#ev#})"
proof -
  define k where k: "k = event_key ev"
  let ?al = "ba_batches b"
  let ?pb = "batch_of b now k"
  let ?es = "pb_events ?pb @ [ev]"
  note pb = batch_of_ok [OF assms, where now = now and key = k]
  have d: "distinct (map fst ?al)" using assms by (simp add: batcher_ok_def)
  have es: "\<forall>e \<in> set ?es. event_key e = k" "int (length ?es) \<le> ba_maxBatchSize b" using pb(1,2) k by auto
  have split: "held b + {#ev#} = mset ?es + alist_events (AList.delete k ?al)" unfolding pb(3) by simp
  note sub = batcher_ok_delete [OF assms, of k]
  show ?thesis
  proof (cases "int (length ?es) \<ge> ba_maxBatchSize b")
    case True
    have a: "Batcher_Add b ev now = (Some (buildDigest k ?es), b\<lparr>ba_batches := AList.delete k ?al\<rparr>)"
      using True by (simp add: Batcher_Add_def Let_def k)
    show ?thesis
      unfolding a digests_of.simps fst_conv snd_conv
    proof (intro conjI exI [of _ "[(k, ?es)]"])
      show "list_all (group_ok (ba_maxBatchSize b)) [(k, ?es)]" using es by (simp add: group_ok_def)
      show "events_of [(k, ?es)] + held (b\<lparr>ba_batches := AList.delete k ?al\<rparr>) = held b + {#ev#}"
        using split by (simp add: events_of_def held_alist)
    qed (use sub in simp_all)
  next
    case False
    let ?b = "b\<lparr>ba_batches := AList.update k (?pb\<lparr>pb_events := ?es\<rparr>) ?al\<rparr>"
    have a: "Batcher_Add b ev now = (None, ?b)" using False by (simp add: Batcher_Add_def Let_def k)
    show ?thesis
      unfolding a digests_of.simps fst_conv snd_conv
    proof (intro conjI exI [of _ "[]"])
      show "batcher_ok ?b" unfolding batcher_ok_def
      proof (intro conjI ballI)
        fix x assume "x \<in> set (ba_batches ?b)"
        then have "x = (k, ?pb\<lparr>pb_events := ?es\<rparr>) \<or> x \<in> set ?al" by (auto dest: set_update_subset)
        then show "case x of (key, pb) \<Rightarrow> pb_events pb \<noteq> [] \<and> int (length (pb_events pb)) < ba_maxBatchSize ?b
            \<and> (\<forall>ev \<in> set (pb_events pb). event_key ev = key)"
          using assms es False by (auto simp: batcher_ok_def)
      qed (use assms AList.distinct_update [OF d] in \<open>simp_all add: batcher_ok_def\<close>)
      show "events_of [] + held ?b = held b + {#ev#}"
        using split alist_events_update [OF d] by (simp add: events_of_def held_alist)
    qed simp_all
  qed
qed

lemma Batcher_Tick_ok:
  assumes "batcher_ok b"
  shows "batcher_ok (snd (Batcher_Tick b now)) \<and> ba_maxBatchSize (snd (Batcher_Tick b now)) = ba_maxBatchSize b
    \<and> (\<exists>groups. mset (fst (Batcher_Tick b now)) = mset (map (\<lambda>(k, es). buildDigest k es) groups)
         \<and> list_all (group_ok (ba_maxBatchSize b)) groups
         \<and> events_of groups + held (snd (Batcher_Tick b now)) = held b)"
proof -
  let ?due = "filter (\<lambda>(key, pb). \<not> now < pb_windowEnd pb) (ba_batches b)"
  let ?groups = "map (\<lambda>(key, pb). (key, pb_events pb)) ?due"
  have "held b = alist_events ?due + held (snd (Batcher_Tick b now))"
    using alist_events_filter [of "ba_batches b" "\<lambda>(key, pb). \<not> now < pb_windowEnd pb"]
    by (simp add: held_alist Batcher_Tick_def Let_def split_beta')
  moreover have "events_of ?groups = alist_events ?due"
    by (simp add: events_of_def alist_events_def image_mset.compositionality comp_def split_beta')
  moreover have "list_all (group_ok (ba_maxBatchSize b)) ?groups"
    using assms by (fastforce simp: batcher_ok_def group_ok_def list_all_iff)
  moreover have "batcher_ok (snd (Batcher_Tick b now))"
    using assms by (auto simp: batcher_ok_def Batcher_Tick_def Let_def distinct_map_filter)
  moreover have "mset (fst (Batcher_Tick b now)) = mset (map (\<lambda>(k, es). buildDigest k es) ?groups)"
    by (simp add: Batcher_Tick_def Let_def image_mset.compositionality comp_def split_beta')
  moreover have "ba_maxBatchSize (snd (Batcher_Tick b now)) = ba_maxBatchSize b" by (simp add: Batcher_Tick_def Let_def)
  ultimately show ?thesis by (intro conjI exI [of _ ?groups]) simp_all
qed

lemma batch_run_ok:
  "batcher_ok b \<Longrightarrow> \<exists>groups. mset (fst (batch_run ops b)) = mset (map (\<lambda>(k, es). buildDigest k es) groups)
     \<and> list_all (group_ok (ba_maxBatchSize b)) groups
     \<and> events_of groups + held (snd (batch_run ops b)) = held b + mset (added ops)"
proof (induction ops arbitrary: b)
  case Nil
  show ?case by (rule exI [of _ "[]"]) (simp add: events_of_def added_def)
next
  case (Cons op ops)
  obtain g1 where b1: "batcher_ok (batch_step op b)" "ba_maxBatchSize (batch_step op b) = ba_maxBatchSize b"
    and g1: "mset (digests_of op b) = mset (map (\<lambda>(k, es). buildDigest k es) g1)" "list_all (group_ok (ba_maxBatchSize b)) g1"
      "events_of g1 + held (batch_step op b) = held b + mset (added [op])"
  proof (cases op)
    case (AddEvent ev now)
    then show ?thesis using that Batcher_Add_ok [OF Cons.prems, of ev now] by (auto simp: added_def)
  next
    case (TickAt now)
    then show ?thesis using that Batcher_Tick_ok [OF Cons.prems, of now] by (auto simp: added_def)
  qed
  obtain g2 where g2: "mset (fst (batch_run ops (batch_step op b))) = mset (map (\<lambda>(k, es). buildDigest k es) g2)"
      "list_all (group_ok (ba_maxBatchSize b)) g2"
      "events_of g2 + held (snd (batch_run ops (batch_step op b))) = held (batch_step op b) + mset (added ops)"
    using Cons.IH [OF b1(1)] b1(2) by auto
  have run: "batch_run (op # ops) b = (digests_of op b @ fst (batch_run ops (batch_step op b)), snd (batch_run ops (batch_step op b)))"
    by (simp add: case_prod_beta)
  have "events_of (g1 @ g2) + held (snd (batch_run (op # ops) b)) = events_of g1 + (held (batch_step op b) + mset (added ops))"
    unfolding run g2(3) [symmetric] by (simp add: events_of_def add.assoc)
  also have "\<dots> = held b + mset (added (op # ops))"
    unfolding add.assoc [symmetric] g1(3) by (simp add: added_def add.assoc)
  finally have sum: "events_of (g1 @ g2) + held (snd (batch_run (op # ops) b)) = held b + mset (added (op # ops))" .
  show ?case
  proof (intro exI [of _ "g1 @ g2"] conjI)
    show "mset (fst (batch_run (op # ops) b)) = mset (map (\<lambda>(k, es). buildDigest k es) (g1 @ g2))"
      unfolding run fst_conv mset_append map_append g1(1) g2(1) ..
  qed (use g1(2) g2(2) sum in simp_all)
qed

text \<open>
  coalescing neither loses nor repeats an event. Whatever events are added and whenever the
  batcher ticks, the digests that come out are built from groups that together with the
  events still held are exactly the events added; each group is not empty, belongs to one chat
  and workflow and is no larger than the configured size.
\<close>

theorem batcher_conserves:
  "\<exists>groups. mset (fst (batch_run ops (NewBatcher window most))) = mset (map (\<lambda>(k, es). buildDigest k es) groups)
     \<and> events_of groups + held (snd (batch_run ops (NewBatcher window most))) = mset (added ops)
     \<and> list_all (group_ok (max 1 most)) groups"
proof -
  have ok: "batcher_ok (NewBatcher window most)" "held (NewBatcher window most) = {#}" "ba_maxBatchSize (NewBatcher window most) = max 1 most"
    by (simp_all add: batcher_ok_def NewBatcher_def held_def)
  from batch_run_ok [OF ok(1), of ops] show ?thesis using ok(2,3) by auto
qed

text \<open>
  The dedupe key of a digest is the list of the keys of its events joined by commas: two
  different digests can have the same key, and the outbox then drops the second.
\<close>

theorem buildDigest_ambiguous:
  "\<exists>key es es'. nd_DedupeKey (buildDigest key es) = nd_DedupeKey (buildDigest key es') \<and> nd_EventsCount (buildDigest key es) \<noteq> nd_EventsCount (buildDigest key es')"
proof -
  let ?ev = "\<lambda>k. \<lparr>ne_Class = P2State, ne_ChatID = ''1'', ne_ChatType = ChatPrivate, ne_Workflow = ''w'', ne_Text = [], ne_DedupeKey = k, ne_OccurredAt = 0\<rparr>"
  show ?thesis
    by (intro exI [of _ "event_key (?ev [])"] exI [of _ "[?ev ''a,b'']"] exI [of _ "[?ev ''a'', ?ev ''b'']"]) (simp add: buildDigest_def)
qed

section \<open>The outbox\<close>

datatype notify_state = StatePending | StateSent | StateFailed | StateAcked

record notification =
  nt_ID :: string
  nt_Channel :: string
  nt_Target :: string
  nt_Class :: string
  nt_Payload :: string
  nt_State :: notify_state
  nt_Attempts :: int
  nt_LastError :: string
  nt_NextAttemptAt :: "int option"
  nt_CreatedAt :: int

datatype notify_error = ErrNotificationNotFound | NotifyDB | NotifyMarshal

definition new_notification :: "int \<Rightarrow> string \<Rightarrow> string \<Rightarrow> string \<Rightarrow> string \<Rightarrow> string \<Rightarrow> notification" where
  "new_notification now nid channel target cls payload =
     \<lparr>nt_ID = nid, nt_Channel = channel, nt_Target = target, nt_Class = cls, nt_Payload = payload, nt_State = StatePending,
      nt_Attempts = 0, nt_LastError = [], nt_NextAttemptAt = None, nt_CreatedAt = now\<rparr>"

definition claimable :: "int \<Rightarrow> notification \<Rightarrow> bool" where
  "claimable now n = (nt_State n = StatePending \<and> (case nt_NextAttemptAt n of None \<Rightarrow> True | Some t \<Rightarrow> t \<le> now))"

definition set_sent :: "notification \<Rightarrow> notification" where
  "set_sent n = n\<lparr>nt_State := StateSent\<rparr>"

definition set_attempt_failed :: "string \<Rightarrow> notification \<Rightarrow> notification" where
  "set_attempt_failed msg n = n\<lparr>nt_Attempts := nt_Attempts n + 1, nt_LastError := msg\<rparr>"

definition set_dead_letter :: "string \<Rightarrow> notification \<Rightarrow> notification" where
  "set_dead_letter msg n = n\<lparr>nt_State := StateFailed, nt_LastError := ''dead-letter: '' @ msg\<rparr>"

definition set_retry :: "int \<Rightarrow> notification \<Rightarrow> notification" where
  "set_retry notBefore n = n\<lparr>nt_NextAttemptAt := Some notBefore\<rparr>"

definition touch :: "string \<Rightarrow> (notification \<Rightarrow> notification) \<Rightarrow> notification \<Rightarrow> notification" where
  "touch nid f n = (if nt_ID n = nid then f n else n)"

text \<open>
  The interface \<open>Store\<close>. The first argument of an operation says whether the database fails;
  an error of \<open>Enqueue\<close> and of the updates is part of the result, a failing \<open>ClaimPending\<close> is
  \<^const>\<open>None\<close>. Rows of the same instant are claimed in the order of their insertion.
\<close>

record 's outbox_ops =
  ob_Enqueue :: "bool \<Rightarrow> int \<Rightarrow> 's \<Rightarrow> string \<Rightarrow> string \<Rightarrow> string \<Rightarrow> string \<Rightarrow> string \<Rightarrow> notify_error option \<times> 's"
  ob_ClaimPending :: "bool \<Rightarrow> int \<Rightarrow> 's \<Rightarrow> int \<Rightarrow> notification list option"
  ob_MarkSent :: "bool \<Rightarrow> 's \<Rightarrow> string \<Rightarrow> notify_error option \<times> 's"
  ob_MarkAttemptFailed :: "string \<Rightarrow> bool \<Rightarrow> 's \<Rightarrow> string \<Rightarrow> notify_error option \<times> 's"
  ob_MarkDeadLetter :: "string \<Rightarrow> bool \<Rightarrow> 's \<Rightarrow> string \<Rightarrow> notify_error option \<times> 's"
  ob_ScheduleRetry :: "int \<Rightarrow> bool \<Rightarrow> 's \<Rightarrow> string \<Rightarrow> notify_error option \<times> 's"

text \<open>\<open>MemoryStore\<close>: a map from ids to rows. Its operations do not fail, and a limit of 0 is none.\<close>

type_synonym memory_store = "(string \<times> notification) list"

definition MemoryStore_Enqueue ::
  "bool \<Rightarrow> int \<Rightarrow> memory_store \<Rightarrow> string \<Rightarrow> string \<Rightarrow> string \<Rightarrow> string \<Rightarrow> string \<Rightarrow> notify_error option \<times> memory_store" where
  "MemoryStore_Enqueue fault now m nid channel target cls payload =
     (None, case map_of m nid of Some n \<Rightarrow> m | None \<Rightarrow> AList.update nid (new_notification now nid channel target cls payload) m)"

definition MemoryStore_ClaimPending :: "bool \<Rightarrow> int \<Rightarrow> memory_store \<Rightarrow> int \<Rightarrow> notification list option" where
  "MemoryStore_ClaimPending fault now m limit =
     (let out = sort_key nt_CreatedAt (filter (claimable now) (map snd m)) in
      Some (if limit > 0 then take (nat limit) out else out))"

definition MemoryStore_CountPending :: "memory_store \<Rightarrow> nat" where
  "MemoryStore_CountPending m = length (filter (\<lambda>n. nt_State n = StatePending) (map snd m))"

definition memory_mark :: "(notification \<Rightarrow> notification) \<Rightarrow> bool \<Rightarrow> memory_store \<Rightarrow> string \<Rightarrow> notify_error option \<times> memory_store" where
  "memory_mark f fault m nid =
     (case map_of m nid of None \<Rightarrow> (Some ErrNotificationNotFound, m) | Some n \<Rightarrow> (None, AList.update nid (f n) m))"

definition MemoryStore :: "memory_store outbox_ops" where
  "MemoryStore = \<lparr>ob_Enqueue = MemoryStore_Enqueue, ob_ClaimPending = MemoryStore_ClaimPending, ob_MarkSent = memory_mark set_sent,
     ob_MarkAttemptFailed = (\<lambda>msg. memory_mark (set_attempt_failed msg)), ob_MarkDeadLetter = (\<lambda>msg. memory_mark (set_dead_letter msg)),
     ob_ScheduleRetry = (\<lambda>t. memory_mark (set_retry t))\<rparr>"

text \<open>
  \<open>PostgresStore\<close>: the table \<open>notifications\<close>. \<open>jsonb\<close> is the normal form of a payload in a column
  of type \<open>JSONB\<close>, \<^const>\<open>None\<close> for a text it rejects; a negative limit is an error.
\<close>

definition PostgresStore_Enqueue ::
  "(string \<Rightarrow> string option) \<Rightarrow> bool \<Rightarrow> int \<Rightarrow> notification list \<Rightarrow> string \<Rightarrow> string \<Rightarrow> string \<Rightarrow> string \<Rightarrow> string
     \<Rightarrow> notify_error option \<times> notification list" where
  "PostgresStore_Enqueue jsonb fault now rows nid channel target cls payload =
     (case jsonb payload of
        None \<Rightarrow> (Some NotifyDB, rows)
      | Some doc \<Rightarrow>
          if fault then (Some NotifyDB, rows)
          else if nid \<in> nt_ID ` set rows then (None, rows)
          else (None, rows @ [new_notification now nid channel target cls doc]))"

definition PostgresStore_ClaimPending :: "bool \<Rightarrow> int \<Rightarrow> notification list \<Rightarrow> int \<Rightarrow> notification list option" where
  "PostgresStore_ClaimPending fault now rows limit =
     (if fault \<or> limit < 0 then None
      else Some (take (nat limit) (sort_key nt_CreatedAt (filter (claimable now) rows))))"

definition PostgresStore_CountPending :: "bool \<Rightarrow> notification list \<Rightarrow> nat option" where
  "PostgresStore_CountPending fault rows =
     (if fault then None else Some (length (filter (\<lambda>n. nt_State n = StatePending) rows)))"

definition postgres_mark :: "(notification \<Rightarrow> notification) \<Rightarrow> bool \<Rightarrow> notification list \<Rightarrow> string \<Rightarrow> notify_error option \<times> notification list" where
  "postgres_mark f fault rows nid =
     (if fault then (Some NotifyDB, rows)
      else if nid \<notin> nt_ID ` set rows then (Some ErrNotificationNotFound, rows)
      else (None, map (touch nid f) rows))"

definition PostgresStore :: "(string \<Rightarrow> string option) \<Rightarrow> notification list outbox_ops" where
  "PostgresStore jsonb = \<lparr>ob_Enqueue = PostgresStore_Enqueue jsonb, ob_ClaimPending = PostgresStore_ClaimPending,
     ob_MarkSent = postgres_mark set_sent,
     ob_MarkAttemptFailed = (\<lambda>msg. postgres_mark (set_attempt_failed msg)), ob_MarkDeadLetter = (\<lambda>msg. postgres_mark (set_dead_letter msg)),
     ob_ScheduleRetry = (\<lambda>t. postgres_mark (set_retry t))\<rparr>"

section \<open>Sending\<close>

record send_result =
  sd_OK :: bool
  sd_Retryable :: bool
  sd_RetryAfter :: int
  sd_Err :: string

datatype http_outcome = HttpBuildFailed | HttpNetworkError string | HttpResponse int string

definition isRetryableStatus :: "int \<Rightarrow> bool" where
  "isRetryableStatus code = (code \<in> {500, 502, 503, 504})"

text \<open>\<open>HTTPSender.Send\<close>; \<open>decode\<close> reads the retry time in seconds and the description of a response.\<close>

definition HTTPSender_Send :: "(string \<Rightarrow> int \<times> string) \<Rightarrow> http_outcome \<Rightarrow> send_result" where
  "HTTPSender_Send decode out =
     (case out of
        HttpBuildFailed \<Rightarrow> \<lparr>sd_OK = False, sd_Retryable = False, sd_RetryAfter = 0, sd_Err = ''notify: build sendMessage request''\<rparr>
      | HttpNetworkError e \<Rightarrow> \<lparr>sd_OK = False, sd_Retryable = True, sd_RetryAfter = 0, sd_Err = ''notify: sendMessage request: '' @ e\<rparr>
      | HttpResponse code body \<Rightarrow>
          if code = 200 then \<lparr>sd_OK = True, sd_Retryable = False, sd_RetryAfter = 0, sd_Err = []\<rparr>
          else
            (let (retryAfter, description) = decode body in
             if code = 429
             then \<lparr>sd_OK = False, sd_Retryable = True, sd_RetryAfter = retryAfter * 1000000000,
                    sd_Err = ''notify: telegram 429: '' @ description\<rparr>
             else if isRetryableStatus code
             then \<lparr>sd_OK = False, sd_Retryable = True, sd_RetryAfter = 0,
                    sd_Err = ''notify: telegram '' @ show_int code @ '': '' @ description\<rparr>
             else \<lparr>sd_OK = False, sd_Retryable = False, sd_RetryAfter = 0,
                    sd_Err = ''notify: telegram '' @ show_int code @ '' (non-retryable): '' @ description\<rparr>))"

section \<open>The engine\<close>

record notify_config =
  cf_MaxAttempts :: int
  cf_BackoffBase :: int
  cf_BackoffMax :: int
  cf_BatchWindow :: int
  cf_MaxBatchSize :: int

definition withDefaults :: "notify_config \<Rightarrow> notify_config" where
  "withDefaults c =
     \<lparr>cf_MaxAttempts = (if cf_MaxAttempts c \<le> 0 then 5 else cf_MaxAttempts c),
      cf_BackoffBase = (if cf_BackoffBase c \<le> 0 then 2 * 1000000000 else cf_BackoffBase c),
      cf_BackoffMax = (if cf_BackoffMax c \<le> 0 then 15 * 60 * 1000000000 else cf_BackoffMax c),
      cf_BatchWindow = (if cf_BatchWindow c \<le> 0 then 3 * 1000000000 else cf_BatchWindow c),
      cf_MaxBatchSize = (if cf_MaxBatchSize c \<le> 0 then 20 else cf_MaxBatchSize c)\<rparr>"

record engine =
  eg_cfg :: notify_config
  eg_batcher :: batcher
  eg_nextAttempt :: "(string \<times> int) list"

definition NewEngine :: "notify_config \<Rightarrow> engine" where
  "NewEngine cfg0 =
     (let cfg = withDefaults cfg0 in
      \<lparr>eg_cfg = cfg, eg_batcher = NewBatcher (cf_BatchWindow cfg) (cf_MaxBatchSize cfg), eg_nextAttempt = []\<rparr>)"

definition enqueue ::
  "'s outbox_ops \<Rightarrow> (string \<Rightarrow> string \<Rightarrow> string option) \<Rightarrow> bool \<Rightarrow> int \<Rightarrow> 's \<Rightarrow> string \<Rightarrow> string \<Rightarrow> string \<Rightarrow> string \<Rightarrow> string
     \<Rightarrow> notify_error option \<times> 's" where
  "enqueue ops encode fault now s nid chatID chatType cls text =
     (case encode text chatType of
        None \<Rightarrow> (Some NotifyMarshal, s)
      | Some payload \<Rightarrow> ob_Enqueue ops fault now s nid ''telegram'' chatID cls payload)"

definition enqueue_digest ::
  "'s outbox_ops \<Rightarrow> (string \<Rightarrow> string \<Rightarrow> string option) \<Rightarrow> bool \<Rightarrow> int \<Rightarrow> 's \<Rightarrow> notify_digest \<Rightarrow> notify_error option \<times> 's" where
  "enqueue_digest ops encode fault now s d =
     enqueue ops encode fault now s (nd_DedupeKey d) (nd_ChatID d) (nd_ChatType d) ''digest'' (nd_Text d)"

definition Ingest ::
  "'s outbox_ops \<Rightarrow> (string \<Rightarrow> string \<Rightarrow> string option) \<Rightarrow> bool \<Rightarrow> int \<Rightarrow> engine \<Rightarrow> 's \<Rightarrow> notify_event
     \<Rightarrow> notify_error option \<times> engine \<times> 's" where
  "Ingest ops encode fault now eg s ev =
     (if Immediate (ne_Class ev)
      then (let (err, s') = enqueue ops encode fault now s (ne_DedupeKey ev) (ne_ChatID ev) (ne_ChatType ev)
                  (Class_String (ne_Class ev)) (ne_Text ev) in (err, eg, s'))
      else
        (case Batcher_Add (eg_batcher eg) ev now of
           (Some d, b) \<Rightarrow> (let (err, s') = enqueue_digest ops encode fault now s d in (err, eg\<lparr>eg_batcher := b\<rparr>, s'))
         | (None, b) \<Rightarrow> (None, eg\<lparr>eg_batcher := b\<rparr>, s)))"

text \<open>The digests are enqueued one after the other; \<open>faults\<close> says which statements fail.\<close>

fun enqueue_digests ::
  "'s outbox_ops \<Rightarrow> (string \<Rightarrow> string \<Rightarrow> string option) \<Rightarrow> (notify_digest \<Rightarrow> bool) \<Rightarrow> int \<Rightarrow> 's \<Rightarrow> notify_digest list
     \<Rightarrow> notify_error option \<times> 's" where
  "enqueue_digests ops encode faults now s [] = (None, s)"
| "enqueue_digests ops encode faults now s (d # ds) =
     (case enqueue_digest ops encode (faults d) now s d of
        (Some err, s') \<Rightarrow> (Some err, s')
      | (None, s') \<Rightarrow> enqueue_digests ops encode faults now s' ds)"

definition TickBatches ::
  "'s outbox_ops \<Rightarrow> (string \<Rightarrow> string \<Rightarrow> string option) \<Rightarrow> (notify_digest \<Rightarrow> bool) \<Rightarrow> int \<Rightarrow> engine \<Rightarrow> 's
     \<Rightarrow> notify_error option \<times> engine \<times> 's" where
  "TickBatches ops encode faults now eg s =
     (let (ds, b) = Batcher_Tick (eg_batcher eg) now; (err, s') = enqueue_digests ops encode faults now s ds in
      (err, eg\<lparr>eg_batcher := b\<rparr>, s'))"

text \<open>\<open>EngineAlerter.Alert\<close>: a dead letter of another queue becomes a P1 event.\<close>

definition Alert_event :: "string \<Rightarrow> string \<Rightarrow> int \<Rightarrow> string \<Rightarrow> string \<Rightarrow> string \<Rightarrow> notify_event" where
  "Alert_event chatID chatType occurred queue itemID reason =
     \<lparr>ne_Class = P1Command, ne_ChatID = chatID, ne_ChatType = chatType, ne_Workflow = [],
      ne_Text = ''dead-letter alert: queue='' @ queue @ '' item='' @ itemID @ '' reason='' @ reason,
      ne_DedupeKey = ''dead-letter:'' @ queue @ '':'' @ itemID, ne_OccurredAt = occurred\<rparr>"

fun double_delay :: "int \<Rightarrow> nat \<Rightarrow> int \<Rightarrow> int" where
  "double_delay most 0 delay = delay"
| "double_delay most (Suc n) delay = (if 2 * delay > most then most else double_delay most n (2 * delay))"

definition backoff_delay :: "notify_config \<Rightarrow> int \<Rightarrow> int \<Rightarrow> int" where
  "backoff_delay cfg attempt retryAfter =
     (if retryAfter \<le> 0 then double_delay (cf_BackoffMax cfg) (nat (attempt - 1)) (cf_BackoffBase cfg) else retryAfter)"

text \<open>An error of \<open>ScheduleRetry\<close> is logged only.\<close>

definition scheduleBackoff ::
  "'s outbox_ops \<Rightarrow> bool \<Rightarrow> int \<Rightarrow> string \<Rightarrow> int \<Rightarrow> int \<Rightarrow> engine \<Rightarrow> 's \<Rightarrow> engine \<times> 's" where
  "scheduleBackoff ops fault now nid attempt retryAfter eg s =
     (let notBefore = now + backoff_delay (eg_cfg eg) attempt retryAfter in
      (eg\<lparr>eg_nextAttempt := AList.update nid notBefore (eg_nextAttempt eg)\<rparr>, snd (ob_ScheduleRetry ops notBefore fault s nid)))"

definition clearBackoff :: "string \<Rightarrow> engine \<Rightarrow> engine" where
  "clearBackoff nid eg = eg\<lparr>eg_nextAttempt := AList.delete nid (eg_nextAttempt eg)\<rparr>"

text \<open>What the limiter, the sender, the store and the clock answer for a row.\<close>

record row_answers =
  rw_allow :: bool
  rw_send :: send_result
  rw_mark_fault :: bool
  rw_schedule_fault :: bool
  rw_now :: int

text \<open>The loop of \<open>DeliverPending\<close> over the claimed rows, with the messages it sends.\<close>

fun deliver_rows ::
  "'s outbox_ops \<Rightarrow> (string \<Rightarrow> (string \<times> string) option) \<Rightarrow> int \<Rightarrow> (string \<Rightarrow> row_answers) \<Rightarrow> notification list \<Rightarrow> engine \<Rightarrow> 's
     \<Rightarrow> (int \<times> int \<times> notify_error option) \<times> engine \<times> 's \<times> (string \<times> bool) list" where
  "deliver_rows ops decode now ans [] eg s = ((0, 0, None), eg, s, [])"
| "deliver_rows ops decode now ans (row # rows) eg s =
     (let nid = nt_ID row; a = ans nid in
      if (case map_of (eg_nextAttempt eg) nid of None \<Rightarrow> False | Some notBefore \<Rightarrow> now < notBefore)
      then deliver_rows ops decode now ans rows eg s
      else
        (case decode (nt_Payload row) of
           None \<Rightarrow>
             (case ob_MarkDeadLetter ops ''malformed payload'' (rw_mark_fault a) s nid of
                (Some err, s') \<Rightarrow> ((0, 0, Some err), eg, s', [])
              | (None, s') \<Rightarrow>
                  (let ((sent, dead, err), rest) = deliver_rows ops decode now ans rows eg s' in ((sent, dead + 1, err), rest)))
         | Some (text, chatType) \<Rightarrow>
             if \<not> rw_allow a then deliver_rows ops decode now ans rows eg s
             else if sd_OK (rw_send a) then
               (case ob_MarkSent ops (rw_mark_fault a) s nid of
                  (Some err, s') \<Rightarrow> ((0, 0, Some err), eg, s', [(nid, True)])
                | (None, s') \<Rightarrow>
                    (let ((sent, dead, err), eg2, s2, out) = deliver_rows ops decode now ans rows (clearBackoff nid eg) s' in
                     ((sent + 1, dead, err), eg2, s2, (nid, True) # out)))
             else if \<not> sd_Retryable (rw_send a) \<or> nt_Attempts row + 1 \<ge> cf_MaxAttempts (eg_cfg eg) then
               (case ob_MarkDeadLetter ops (sd_Err (rw_send a)) (rw_mark_fault a) s nid of
                  (Some err, s') \<Rightarrow> ((0, 0, Some err), eg, s', [(nid, False)])
                | (None, s') \<Rightarrow>
                    (let ((sent, dead, err), eg2, s2, out) = deliver_rows ops decode now ans rows (clearBackoff nid eg) s' in
                     ((sent, dead + 1, err), eg2, s2, (nid, False) # out)))
             else
               (case ob_MarkAttemptFailed ops (sd_Err (rw_send a)) (rw_mark_fault a) s nid of
                  (Some err, s') \<Rightarrow> ((0, 0, Some err), eg, s', [(nid, False)])
                | (None, s') \<Rightarrow>
                    (let (eg1, s1) = scheduleBackoff ops (rw_schedule_fault a) (rw_now a) nid (nt_Attempts row + 1)
                           (sd_RetryAfter (rw_send a)) eg s';
                         ((sent, dead, err), eg2, s2, out) = deliver_rows ops decode now ans rows eg1 s1 in
                     ((sent, dead, err), eg2, s2, (nid, False) # out)))))"

definition DeliverPending ::
  "'s outbox_ops \<Rightarrow> (string \<Rightarrow> (string \<times> string) option) \<Rightarrow> bool \<Rightarrow> int \<Rightarrow> (string \<Rightarrow> row_answers) \<Rightarrow> int \<Rightarrow> engine \<Rightarrow> 's
     \<Rightarrow> (int \<times> int \<times> notify_error option) \<times> engine \<times> 's \<times> (string \<times> bool) list" where
  "DeliverPending ops decode fault now ans limit eg s =
     (case ob_ClaimPending ops fault now s limit of
        None \<Rightarrow> ((0, 0, Some NotifyDB), eg, s, [])
      | Some rows \<Rightarrow> deliver_rows ops decode now ans rows eg s)"

section \<open>What the engine needs of an outbox\<close>

text \<open>
  An update that does not fail changes the row with the id and no other; a failing one changes
  nothing.
\<close>

definition marks :: "('s \<Rightarrow> bool) \<Rightarrow> ('s \<Rightarrow> notification list) \<Rightarrow> (notification \<Rightarrow> notification)
    \<Rightarrow> (bool \<Rightarrow> 's \<Rightarrow> string \<Rightarrow> notify_error option \<times> 's) \<Rightarrow> bool" where
  "marks ok rows f op \<longleftrightarrow>
     (\<forall>fault s nid. ok s \<longrightarrow>
        ok (snd (op fault s nid))
        \<and> (fst (op fault s nid) = None \<longrightarrow> set (rows (snd (op fault s nid))) = touch nid f ` set (rows s))
        \<and> (fst (op fault s nid) \<noteq> None \<longrightarrow> set (rows (snd (op fault s nid))) = set (rows s))
        \<and> (\<not> fault \<and> nid \<in> nt_ID ` set (rows s) \<longrightarrow> fst (op fault s nid) = None))"

locale outbox =
  fixes ops :: "'s outbox_ops" and rows :: "'s \<Rightarrow> notification list" and ok :: "'s \<Rightarrow> bool"
  assumes ids_distinct: "ok s \<Longrightarrow> distinct (map nt_ID (rows s))"
    and enqueue_adds: "ok s \<Longrightarrow> ok (snd (ob_Enqueue ops fault now s nid channel target cls payload))
      \<and> (set (rows (snd (ob_Enqueue ops fault now s nid channel target cls payload))) = set (rows s)
         \<or> nid \<notin> nt_ID ` set (rows s)
           \<and> (\<exists>doc. set (rows (snd (ob_Enqueue ops fault now s nid channel target cls payload))) =
                insert (new_notification now nid channel target cls doc) (set (rows s))))"
    and claim_pending: "ok s \<Longrightarrow> ob_ClaimPending ops fault now s limit = Some ns \<Longrightarrow>
      set ns \<subseteq> {n \<in> set (rows s). nt_State n = StatePending} \<and> distinct (map nt_ID ns)"
    and mark_sent: "marks ok rows set_sent (ob_MarkSent ops)"
    and mark_attempt_failed: "marks ok rows (set_attempt_failed msg) (ob_MarkAttemptFailed ops msg)"
    and mark_dead_letter: "marks ok rows (set_dead_letter msg) (ob_MarkDeadLetter ops msg)"
    and schedule_retry: "marks ok rows (set_retry t) (ob_ScheduleRetry ops t)"

text \<open>
  The account of a row: how often it was sent, and how often with success, against its state.
\<close>

definition sends :: "string \<Rightarrow> (string \<times> bool) list \<Rightarrow> int" where
  "sends nid out = int (length (filter (\<lambda>(i, b). i = nid) out))"

definition successes :: "string \<Rightarrow> (string \<times> bool) list \<Rightarrow> int" where
  "successes nid out = int (length (filter (\<lambda>(i, b). i = nid \<and> b) out))"

definition row_account :: "int \<Rightarrow> (string \<times> bool) list \<Rightarrow> notification \<Rightarrow> bool" where
  "row_account most out n =
     (case nt_State n of
        StatePending \<Rightarrow> sends (nt_ID n) out = nt_Attempts n \<and> nt_Attempts n < most \<and> successes (nt_ID n) out = 0
      | StateSent \<Rightarrow> sends (nt_ID n) out \<le> most \<and> successes (nt_ID n) out = 1
      | StateFailed \<Rightarrow> sends (nt_ID n) out \<le> most \<and> successes (nt_ID n) out = 0
      | StateAcked \<Rightarrow> False)"

definition accounts :: "int \<Rightarrow> (string \<times> bool) list \<Rightarrow> notification set \<Rightarrow> bool" where
  "accounts most out ns \<longleftrightarrow> (\<forall>n \<in> ns. row_account most out n) \<and> fst ` set out \<subseteq> nt_ID ` ns"

text \<open>
  The histories of an engine over an outbox: events come in, batches are flushed and pending
  notifications delivered, with any answers; the outbox may fail, except when it records what
  happened to a message.
\<close>

inductive engine_run ::
  "'s outbox_ops \<Rightarrow> (string \<Rightarrow> string \<Rightarrow> string option) \<Rightarrow> (string \<Rightarrow> (string \<times> string) option) \<Rightarrow> notify_config \<Rightarrow> 's
     \<Rightarrow> engine \<Rightarrow> 's \<Rightarrow> (string \<times> bool) list \<Rightarrow> bool"
  for ops encode decode cfg s0 where
  start: "engine_run ops encode decode cfg s0 (NewEngine cfg) s0 []"
| ingest: "engine_run ops encode decode cfg s0 eg s out \<Longrightarrow> Ingest ops encode fault now eg s ev = (err, eg', s') \<Longrightarrow>
    engine_run ops encode decode cfg s0 eg' s' out"
| tick: "engine_run ops encode decode cfg s0 eg s out \<Longrightarrow> TickBatches ops encode faults now eg s = (err, eg', s') \<Longrightarrow>
    engine_run ops encode decode cfg s0 eg' s' out"
| deliver: "engine_run ops encode decode cfg s0 eg s out \<Longrightarrow> \<forall>nid. \<not> rw_mark_fault (ans nid) \<Longrightarrow>
    DeliverPending ops decode fault now ans limit eg s = (res, eg', s', new) \<Longrightarrow>
    engine_run ops encode decode cfg s0 eg' s' (out @ new)"

lemma sends_simps [simp]:
  "sends nid [] = 0" "successes nid [] = 0"
  "sends nid (out @ out') = sends nid out + sends nid out'" "successes nid (out @ out') = successes nid out + successes nid out'"
  "sends nid [(i, b)] = (if i = nid then 1 else 0)" "successes nid [(i, b)] = (if i = nid \<and> b then 1 else 0)"
  by (simp_all add: sends_def successes_def)

lemma row_account_other: "nt_ID n \<noteq> i \<Longrightarrow> row_account most (out @ [(i, b)]) n = row_account most out n"
  by (simp add: row_account_def split: notify_state.split)

lemma no_sends: "nid \<notin> fst ` set out \<Longrightarrow> sends nid out = 0 \<and> successes nid out = 0"
  by (force simp: sends_def successes_def filter_empty_conv)

lemma accounts_insert_new:
  assumes "accounts most out ns" and "nid \<notin> nt_ID ` ns" and "0 < most"
  shows "accounts most out (insert (new_notification now nid ch tg cls doc) ns)"
proof -
  have "nid \<notin> fst ` set out" using assms(1,2) by (auto simp: accounts_def)
  then show ?thesis using assms no_sends by (auto simp: accounts_def row_account_def new_notification_def)
qed

text \<open>A message for a pending row, and the row changed accordingly.\<close>

lemma accounts_mark:
  assumes "accounts most out ns" and "inj_on nt_ID ns" and "row \<in> ns"
    and keep: "\<And>n. nt_ID (f n) = nt_ID n" and good: "row_account most (out @ msg) (f row)"
    and msg: "msg = [] \<or> (\<exists>b. msg = [(nt_ID row, b)])"
  shows "accounts most (out @ msg) (touch (nt_ID row) f ` ns)"
proof -
  have "row_account most (out @ msg) (touch (nt_ID row) f n)" if "n \<in> ns" for n
  proof (cases "nt_ID n = nt_ID row")
    case True
    then have "n = row" using assms(2,3) that by (auto dest: inj_onD)
    then show ?thesis using good by (simp add: touch_def)
  next
    case False
    then show ?thesis using msg assms(1) that row_account_other [OF False] by (auto simp: accounts_def touch_def)
  qed
  moreover have "nt_ID ` (touch (nt_ID row) f ` ns) = nt_ID ` ns"
    unfolding image_image by (intro image_cong) (simp_all add: keep touch_def)
  ultimately show ?thesis using assms(1,3) msg by (fastforce simp: accounts_def)
qed

lemma set_ids [simp]:
  "nt_ID (set_sent n) = nt_ID n" "nt_ID (set_attempt_failed msg n) = nt_ID n" "nt_ID (set_dead_letter msg n) = nt_ID n"
  "nt_ID (set_retry t n) = nt_ID n"
  by (simp_all add: set_sent_def set_attempt_failed_def set_dead_letter_def set_retry_def)

context outbox
begin

lemma marksD:
  assumes "marks ok rows f op" and "ok s" and "row \<in> set (rows s)" and "\<not> fault"
  shows "fst (op fault s (nt_ID row)) = None" "ok (snd (op fault s (nt_ID row)))"
    and "set (rows (snd (op fault s (nt_ID row)))) = touch (nt_ID row) f ` set (rows s)"
  using assms unfolding marks_def by auto

lemma inj_ids: "ok s \<Longrightarrow> inj_on nt_ID (set (rows s))"
  using ids_distinct by (simp add: distinct_map)

text \<open>One row is treated, the others stay.\<close>

definition treated :: "int \<Rightarrow> (string \<times> bool) list \<Rightarrow> notification \<Rightarrow> 's \<Rightarrow> 's \<Rightarrow> bool" where
  "treated most out row s s' \<longleftrightarrow> ok s' \<and> accounts most out (set (rows s'))
     \<and> (\<forall>n \<in> set (rows s). nt_ID n \<noteq> nt_ID row \<longrightarrow> n \<in> set (rows s'))"

lemma mark_treated:
  assumes "marks ok rows f op" and "ok s" and "row \<in> set (rows s)" and "accounts most out (set (rows s))"
    and "\<And>n. nt_ID (f n) = nt_ID n" and "row_account most (out @ msg) (f row)" and "msg = [] \<or> (\<exists>b. msg = [(nt_ID row, b)])"
  shows "fst (op False s (nt_ID row)) = None \<and> treated most (out @ msg) row s (snd (op False s (nt_ID row)))
    \<and> f row \<in> set (rows (snd (op False s (nt_ID row))))"
proof -
  note m = marksD [OF assms(1,2,3), of False, simplified]
  have "accounts most (out @ msg) (set (rows (snd (op False s (nt_ID row)))))"
    unfolding m(3) by (rule accounts_mark [OF assms(4) inj_ids [OF assms(2)] assms(3)]) (use assms in auto)
  then show ?thesis using m assms(3) by (auto simp: treated_def image_iff touch_def)
qed

lemma schedule_treated:
  assumes "ok s" and "row \<in> set (rows s)" and "accounts most out (set (rows s))"
  shows "treated most out row s (snd (ob_ScheduleRetry ops t fault s (nt_ID row)))"
proof (cases "fst (ob_ScheduleRetry ops t fault s (nt_ID row))")
  case None
  have r: "set (rows (snd (ob_ScheduleRetry ops t fault s (nt_ID row)))) = touch (nt_ID row) (set_retry t) ` set (rows s)"
    using schedule_retry assms(1) None unfolding marks_def by blast
  have "row_account most out (set_retry t row)"
    using assms by (auto simp: accounts_def row_account_def set_retry_def split: notify_state.splits)
  then have "accounts most out (set (rows (snd (ob_ScheduleRetry ops t fault s (nt_ID row)))))"
    using accounts_mark [OF assms(3) inj_ids [OF assms(1)] assms(2), of "set_retry t" "[]"] r by simp
  then show ?thesis using schedule_retry assms(1) r unfolding marks_def treated_def by (auto simp: image_iff touch_def)
next
  case (Some err)
  then show ?thesis using schedule_retry assms unfolding marks_def treated_def by auto
qed

lemma treated_same: "ok s \<Longrightarrow> accounts most out (set (rows s)) \<Longrightarrow> treated most out row s s"
  by (simp add: treated_def)

text \<open>The accounts of a pending row after each of the three updates.\<close>

lemma account_sent:
  "row_account most out n \<Longrightarrow> nt_State n = StatePending \<Longrightarrow> row_account most (out @ [(nt_ID n, True)]) (set_sent n)"
  by (simp add: row_account_def set_sent_def)

lemma account_failed:
  "row_account most out n \<Longrightarrow> nt_State n = StatePending \<Longrightarrow> nt_Attempts n + 1 < most \<Longrightarrow>
     row_account most (out @ [(nt_ID n, False)]) (set_attempt_failed msg n)"
  by (simp add: row_account_def set_attempt_failed_def)

lemma account_dead:
  "row_account most out n \<Longrightarrow> nt_State n = StatePending \<Longrightarrow> row_account most (out @ [(nt_ID n, False)]) (set_dead_letter msg n)"
  "row_account most out n \<Longrightarrow> nt_State n = StatePending \<Longrightarrow> row_account most out (set_dead_letter msg n)"
  by (simp_all add: row_account_def set_dead_letter_def)

lemma one_msg: "[(i, b)] = [] \<or> (\<exists>b'. [(i, b)] = [(i, b')])"
  by simp

lemma deliver_row:
  assumes ok: "ok s" and row: "row \<in> set (rows s)" "nt_State row = StatePending" and acc: "accounts most out (set (rows s))"
    and most: "cf_MaxAttempts (eg_cfg eg) = most" and nf: "\<not> rw_mark_fault (ans (nt_ID row))"
    and d: "deliver_rows ops decode now ans (row # ns) eg s = (res, eg', s', new)"
  shows "\<exists>eg1 s1 msg res1 new1. treated most (out @ msg) row s s1 \<and> eg_cfg eg1 = eg_cfg eg
    \<and> deliver_rows ops decode now ans ns eg1 s1 = (res1, eg', s', new1) \<and> new = msg @ new1"
proof -
  let ?a = "ans (nt_ID row)"
  have ra: "row_account most out row" using acc row by (simp add: accounts_def)
  note sent = mark_treated [OF mark_sent ok row(1) acc set_ids(1) account_sent [OF ra row(2)] one_msg]
  note dead = mark_treated [OF mark_dead_letter ok row(1) acc set_ids(3)]
  have step: ?thesis if "treated most (out @ msg) row s s1" "eg_cfg eg1 = eg_cfg eg"
      "deliver_rows ops decode now ans ns eg1 s1 = (res1, eg', s', new1)" "new = msg @ new1" for eg1 s1 msg res1 new1
    using that by blast
  show ?thesis
  proof (cases "case map_of (eg_nextAttempt eg) (nt_ID row) of None \<Rightarrow> False | Some notBefore \<Rightarrow> now < notBefore")
    case True
    show ?thesis
      by (rule step [of "[]" s eg]) (use True d treated_same [OF ok acc, of row] in \<open>simp_all add: Let_def\<close>)
  next
    case wait: False
    show ?thesis
    proof (cases "decode (nt_Payload row)")
      case None
      let ?s = "snd (ob_MarkDeadLetter ops ''malformed payload'' False s (nt_ID row))"
      have m: "ob_MarkDeadLetter ops ''malformed payload'' False s (nt_ID row) = (None, ?s)" "treated most (out @ []) row s ?s"
        using dead [of "[]" "''malformed payload''"] account_dead(2) [OF ra row(2)] by (simp_all add: prod_eq_iff)
      obtain r1 rest where "deliver_rows ops decode now ans ns eg ?s = (r1, eg', s', new)"
        using d wait None nf m(1) by (auto simp: Let_def split: prod.splits)
      with m(2) show ?thesis by (intro step [of "[]" ?s eg r1 new]) simp_all
    next
      case (Some p)
      obtain body chatType where p: "p = (body, chatType)" by (cases p)
      consider (limited) "\<not> rw_allow ?a" | (accepted) "rw_allow ?a" "sd_OK (rw_send ?a)"
        | (gaveup) "rw_allow ?a" "\<not> sd_OK (rw_send ?a)" "\<not> sd_Retryable (rw_send ?a) \<or> nt_Attempts row + 1 \<ge> most"
        | (again) "rw_allow ?a" "\<not> sd_OK (rw_send ?a)" "sd_Retryable (rw_send ?a)" "nt_Attempts row + 1 < most" by fastforce
      then show ?thesis
      proof cases
        case limited
        show ?thesis
          by (rule step [of "[]" s eg]) (use limited wait Some p d treated_same [OF ok acc, of row] in \<open>simp_all add: Let_def\<close>)
      next
        case accepted
        let ?s = "snd (ob_MarkSent ops False s (nt_ID row))"
        have m: "ob_MarkSent ops False s (nt_ID row) = (None, ?s)" "treated most (out @ [(nt_ID row, True)]) row s ?s"
          using sent by (simp_all add: prod_eq_iff)
        obtain r1 new1 where "deliver_rows ops decode now ans ns (clearBackoff (nt_ID row) eg) ?s = (r1, eg', s', new1)" "new = (nt_ID row, True) # new1"
          using d wait Some p nf m(1) accepted by (auto simp: Let_def split: prod.splits)
        with m(2) show ?thesis by (intro step [of "[(nt_ID row, True)]" ?s "clearBackoff (nt_ID row) eg" r1 new1]) (simp_all add: clearBackoff_def)
      next
        case gaveup
        let ?s = "snd (ob_MarkDeadLetter ops (sd_Err (rw_send ?a)) False s (nt_ID row))"
        have m: "ob_MarkDeadLetter ops (sd_Err (rw_send ?a)) False s (nt_ID row) = (None, ?s)" "treated most (out @ [(nt_ID row, False)]) row s ?s"
          using dead [OF account_dead(1) [OF ra row(2)] one_msg, of "sd_Err (rw_send ?a)"] by (simp_all add: prod_eq_iff)
        obtain r1 new1 where "deliver_rows ops decode now ans ns (clearBackoff (nt_ID row) eg) ?s = (r1, eg', s', new1)" "new = (nt_ID row, False) # new1"
          using d wait Some p nf m(1) gaveup most by (auto simp: Let_def split: prod.splits)
        with m(2) show ?thesis by (intro step [of "[(nt_ID row, False)]" ?s "clearBackoff (nt_ID row) eg" r1 new1]) (simp_all add: clearBackoff_def)
      next
        case again
        let ?f = "set_attempt_failed (sd_Err (rw_send ?a))"
        let ?s = "snd (ob_MarkAttemptFailed ops (sd_Err (rw_send ?a)) False s (nt_ID row))"
        have m: "ob_MarkAttemptFailed ops (sd_Err (rw_send ?a)) False s (nt_ID row) = (None, ?s)"
            "treated most (out @ [(nt_ID row, False)]) row s ?s" "?f row \<in> set (rows ?s)"
          using mark_treated [OF mark_attempt_failed ok row(1) acc set_ids(2) account_failed [OF ra row(2) again(4)] one_msg]
          by (simp_all add: prod_eq_iff)
        let ?t = "rw_now ?a + backoff_delay (eg_cfg eg) (nt_Attempts row + 1) (sd_RetryAfter (rw_send ?a))"
        let ?eg = "eg\<lparr>eg_nextAttempt := AList.update (nt_ID row) ?t (eg_nextAttempt eg)\<rparr>"
        let ?s2 = "snd (ob_ScheduleRetry ops ?t (rw_schedule_fault ?a) ?s (nt_ID row))"
        have "treated most (out @ [(nt_ID row, False)]) (?f row) ?s ?s2"
          using schedule_treated [of ?s "?f row" most "out @ [(nt_ID row, False)]"] m(2,3) by (simp add: treated_def)
        with m(2) have m2: "treated most (out @ [(nt_ID row, False)]) row s ?s2" by (simp add: treated_def)
        obtain r1 new1 where "deliver_rows ops decode now ans ns ?eg ?s2 = (r1, eg', s', new1)" "new = (nt_ID row, False) # new1"
          using d wait Some p nf m(1) again most by (auto simp: Let_def scheduleBackoff_def split: prod.splits)
        with m2 show ?thesis by (intro step [of "[(nt_ID row, False)]" ?s2 ?eg r1 new1]) simp_all
      qed
    qed
  qed
qed

lemma deliver_rows_accounts:
  "ok s \<Longrightarrow> accounts most out (set (rows s)) \<Longrightarrow> set ns \<subseteq> {n \<in> set (rows s). nt_State n = StatePending} \<Longrightarrow>
     distinct (map nt_ID ns) \<Longrightarrow> cf_MaxAttempts (eg_cfg eg) = most \<Longrightarrow> \<forall>nid. \<not> rw_mark_fault (ans nid) \<Longrightarrow>
     deliver_rows ops decode now ans ns eg s = (res, eg', s', new) \<Longrightarrow>
     ok s' \<and> accounts most (out @ new) (set (rows s')) \<and> eg_cfg eg' = eg_cfg eg"
proof (induction ns arbitrary: eg s out res new)
  case (Cons row ns)
  obtain eg1 s1 msg res1 new1 where t: "treated most (out @ msg) row s s1" and c: "eg_cfg eg1 = eg_cfg eg"
    and d: "deliver_rows ops decode now ans ns eg1 s1 = (res1, eg', s', new1)" and new: "new = msg @ new1"
    using deliver_row [of s row most out eg ans decode now ns res eg' s' new] Cons.prems by auto
  have "set ns \<subseteq> {n \<in> set (rows s1). nt_State n = StatePending}"
  proof
    fix n assume n: "n \<in> set ns"
    then have "nt_ID n \<noteq> nt_ID row" using Cons.prems(4) by (simp add: rev_image_eqI) (metis image_eqI n)
    then show "n \<in> {n \<in> set (rows s1). nt_State n = StatePending}" using n Cons.prems(3) t by (auto simp: treated_def)
  qed
  from Cons.IH [OF _ _ this _ _ Cons.prems(6) d, of "out @ msg"] show ?case
    using t c new Cons.prems(4,5) by (simp add: treated_def)
qed simp

lemma enqueue_accounts:
  assumes "ok s" and "accounts most out (set (rows s))" and "0 < most" and "enqueue ops encode fault now s nid chatID chatType cls body = (err, s')"
  shows "ok s' \<and> accounts most out (set (rows s'))"
proof (cases "encode body chatType")
  case None
  then show ?thesis using assms by (auto simp: enqueue_def)
next
  case (Some payload)
  then have s': "s' = snd (ob_Enqueue ops fault now s nid ''telegram'' chatID cls payload)" using assms(4) by (simp add: enqueue_def)
  show ?thesis
    using enqueue_adds [OF assms(1), of fault now nid "''telegram''" chatID cls payload] assms(2) accounts_insert_new [OF assms(2) _ assms(3)]
    unfolding s' by (elim conjE disjE exE) (simp_all only: simp_thms)
qed

lemma enqueue_digests_accounts:
  "ok s \<Longrightarrow> accounts most out (set (rows s)) \<Longrightarrow> 0 < most \<Longrightarrow> enqueue_digests ops encode faults now s ds = (err, s') \<Longrightarrow>
     ok s' \<and> accounts most out (set (rows s'))"
proof (induction ds arbitrary: s)
  case (Cons d ds)
  obtain e1 s1 where e: "enqueue_digest ops encode (faults d) now s d = (e1, s1)" by fastforce
  have "ok s1 \<and> accounts most out (set (rows s1))"
    using enqueue_accounts [OF Cons.prems(1-3)] e by (simp add: enqueue_digest_def)
  then show ?case using Cons.IH [of s1] Cons.prems(3,4) e by (auto split: option.splits)
qed simp

lemma engine_accounts:
  assumes "engine_run ops encode decode cfg s0 eg s out" and "ok s0" and "rows s0 = []"
  shows "ok s \<and> accounts (cf_MaxAttempts (withDefaults cfg)) out (set (rows s)) \<and> eg_cfg eg = withDefaults cfg"
  using assms(1)
proof (induction rule: engine_run.induct)
  case start
  then show ?case using assms by (simp add: accounts_def NewEngine_def Let_def)
next
  case (ingest eg s out fault now ev err eg' s')
  have "0 < cf_MaxAttempts (withDefaults cfg)" by (simp add: withDefaults_def)
  then show ?case
    using ingest enqueue_accounts [of s _ out]
    by (fastforce simp: Ingest_def Let_def enqueue_digest_def split: if_splits prod.splits option.splits)
next
  case (tick eg s out faults now err eg' s')
  have "0 < cf_MaxAttempts (withDefaults cfg)" by (simp add: withDefaults_def)
  then show ?case
    using tick enqueue_digests_accounts [of s _ out] by (fastforce simp: TickBatches_def Let_def split: prod.splits)
next
  case (deliver eg s out ans fault now limit res eg' s' new)
  show ?case
  proof (cases "ob_ClaimPending ops fault now s limit")
    case None
    then show ?thesis using deliver by (simp add: DeliverPending_def)
  next
    case (Some ns)
    then show ?thesis
      using deliver claim_pending [of s fault now limit ns] deliver_rows_accounts [of s "cf_MaxAttempts (withDefaults cfg)" out ns eg ans decode now res eg' s' new]
      by (simp add: DeliverPending_def)
  qed
qed

lemma sent_once:
  assumes "engine_run ops encode decode cfg s0 eg s out" and "ok s0" and "rows s0 = []"
  shows "successes nid out \<le> 1 \<and> sends nid out \<le> cf_MaxAttempts (withDefaults cfg)
    \<and> (\<forall>n \<in> set (rows s). (nt_State n = StateSent \<longleftrightarrow> successes (nt_ID n) out = 1)
         \<and> (nt_State n = StatePending \<longrightarrow> sends (nt_ID n) out < cf_MaxAttempts (withDefaults cfg)))"
proof -
  have acc: "accounts (cf_MaxAttempts (withDefaults cfg)) out (set (rows s))" using engine_accounts [OF assms] by simp
  have row: "successes (nt_ID n) out \<le> 1 \<and> sends (nt_ID n) out \<le> cf_MaxAttempts (withDefaults cfg)
      \<and> (nt_State n = StateSent \<longleftrightarrow> successes (nt_ID n) out = 1)
      \<and> (nt_State n = StatePending \<longrightarrow> sends (nt_ID n) out < cf_MaxAttempts (withDefaults cfg))" if "n \<in> set (rows s)" for n
    using acc that by (cases "nt_State n") (auto simp: accounts_def row_account_def)
  have "successes nid out \<le> 1 \<and> sends nid out \<le> cf_MaxAttempts (withDefaults cfg)"
  proof (cases "nid \<in> fst ` set out")
    case True
    then obtain n where "n \<in> set (rows s)" "nt_ID n = nid" using acc by (auto simp: accounts_def)
    then show ?thesis using row by blast
  next
    case False
    then show ?thesis using no_sends [OF False] by (simp add: withDefaults_def)
  qed
  then show ?thesis using row by blast
qed

end

section \<open>The two outboxes\<close>

definition memory_ok :: "memory_store \<Rightarrow> bool" where
  "memory_ok m \<longleftrightarrow> distinct (map fst m) \<and> (\<forall>(nid, n) \<in> set m. nt_ID n = nid)"

lemma memory_lookup: "memory_ok m \<Longrightarrow> map_of m nid = Some n \<Longrightarrow> nt_ID n = nid"
  by (auto simp: memory_ok_def dest: map_of_SomeD)

lemma memory_ids: "memory_ok m \<Longrightarrow> nt_ID ` set (map snd m) = fst ` set m \<and> map nt_ID (map snd m) = map fst m"
proof -
  assume "memory_ok m"
  then have m: "map nt_ID (map snd m) = map fst m" by (auto simp: memory_ok_def)
  then have "nt_ID ` set (map snd m) = fst ` set m" by (metis list.set_map)
  with m show ?thesis by blast
qed

lemma set_update_distinct:
  "distinct (map fst al) \<Longrightarrow> set (AList.update k v al) = insert (k, v) {x \<in> set al. fst x \<noteq> k}"
  by (induction al) (auto simp: image_iff)

lemma claimed_rows:
  assumes "distinct (map nt_ID ns)"
  shows "set (sort_key nt_CreatedAt (filter (claimable now) ns)) \<subseteq> {n \<in> set ns. nt_State n = StatePending}
       \<and> distinct (map nt_ID (sort_key nt_CreatedAt (filter (claimable now) ns)))"
    and "set (take k (sort_key nt_CreatedAt (filter (claimable now) ns))) \<subseteq> {n \<in> set ns. nt_State n = StatePending}
       \<and> distinct (map nt_ID (take k (sort_key nt_CreatedAt (filter (claimable now) ns))))"
proof -
  show all: "set (sort_key nt_CreatedAt (filter (claimable now) ns)) \<subseteq> {n \<in> set ns. nt_State n = StatePending}
       \<and> distinct (map nt_ID (sort_key nt_CreatedAt (filter (claimable now) ns)))"
    using assms by (auto simp: claimable_def distinct_map inj_on_def)
  then show "set (take k (sort_key nt_CreatedAt (filter (claimable now) ns))) \<subseteq> {n \<in> set ns. nt_State n = StatePending}
       \<and> distinct (map nt_ID (take k (sort_key nt_CreatedAt (filter (claimable now) ns))))"
    using set_take_subset [of k "sort_key nt_CreatedAt (filter (claimable now) ns)"]
      distinct_take [of "map nt_ID (sort_key nt_CreatedAt (filter (claimable now) ns))" k]
    unfolding take_map by blast
qed

lemma memory_update:
  assumes "memory_ok m" and "nt_ID n = nid"
  shows "memory_ok (AList.update nid n m)" and "set (map snd (AList.update nid n m)) = insert n {q \<in> set (map snd m). nt_ID q \<noteq> nid}"
  using assms set_update_distinct [of m nid n] by (auto simp: memory_ok_def AList.distinct_update image_iff)

lemma memory_marks:
  assumes "\<And>n. nt_ID (f n) = nt_ID n"
  shows "marks memory_ok (map snd) f (memory_mark f)"
  unfolding marks_def
proof (intro allI impI)
  fix fault m nid assume ok: "memory_ok m"
  show "memory_ok (snd (memory_mark f fault m nid))
        \<and> (fst (memory_mark f fault m nid) = None \<longrightarrow> set (map snd (snd (memory_mark f fault m nid))) = touch nid f ` set (map snd m))
        \<and> (fst (memory_mark f fault m nid) \<noteq> None \<longrightarrow> set (map snd (snd (memory_mark f fault m nid))) = set (map snd m))
        \<and> (\<not> fault \<and> nid \<in> nt_ID ` set (map snd m) \<longrightarrow> fst (memory_mark f fault m nid) = None)"
  proof (cases "map_of m nid")
    case None
    then have "nid \<notin> nt_ID ` set (map snd m)" using memory_ids [OF ok] by (simp add: map_of_eq_None_iff)
    then show ?thesis using None ok by (auto simp: memory_mark_def)
  next
    case (Some n)
    have n: "nt_ID n = nid" "(nid, n) \<in> set m" using memory_lookup [OF ok Some] map_of_SomeD [OF Some] by simp_all
    have one: "q = n" if "(nid, q) \<in> set m" for q using that n ok by (auto simp: memory_ok_def dest: eq_key_imp_eq_value)
    have "insert (f n) {q \<in> set (map snd m). nt_ID q \<noteq> nid} = touch nid f ` set (map snd m)"
      using n one ok by (force simp: touch_def memory_ok_def image_iff)
    then show ?thesis using Some memory_update [OF ok, of "f n" nid] n assms by (simp add: memory_mark_def)
  qed
qed

lemma postgres_marks:
  assumes "\<And>n. nt_ID (f n) = nt_ID n"
  shows "marks (\<lambda>rows. distinct (map nt_ID rows)) (\<lambda>rows. rows) f (postgres_mark f)"
proof -
  have "map nt_ID (map (touch nid f) rows) = map nt_ID rows" for nid rows using assms by (simp add: touch_def)
  then show ?thesis unfolding marks_def by (auto simp: postgres_mark_def simp del: map_map)
qed

lemma memory_distinct: "memory_ok m \<Longrightarrow> distinct (map nt_ID (map snd m))"
  by (metis memory_ids memory_ok_def)

interpretation mem_outbox: outbox MemoryStore "map snd" memory_ok
proof
  fix m assume "memory_ok m"
  then show "distinct (map nt_ID (map snd m))" by (rule memory_distinct)
next
  fix m fault now nid channel target cls payload
  assume ok: "memory_ok m"
  let ?m = "snd (ob_Enqueue MemoryStore fault now m nid channel target cls payload)"
  show "memory_ok ?m \<and> (set (map snd ?m) = set (map snd m) \<or> nid \<notin> nt_ID ` set (map snd m)
      \<and> (\<exists>doc. set (map snd ?m) = insert (new_notification now nid channel target cls doc) (set (map snd m))))"
  proof (cases "map_of m nid")
    case None
    then have new: "nid \<notin> nt_ID ` set (map snd m)" using memory_ids [OF ok] by (simp add: map_of_eq_None_iff)
    then have "{q \<in> set (map snd m). nt_ID q \<noteq> nid} = set (map snd m)" by auto
    then show ?thesis
      using None new memory_update [OF ok, of "new_notification now nid channel target cls payload" nid]
      by (auto simp: MemoryStore_def MemoryStore_Enqueue_def new_notification_def)
  qed (use ok in \<open>simp add: MemoryStore_def MemoryStore_Enqueue_def\<close>)
next
  fix m fault now limit ns
  assume ok: "memory_ok m" and c: "ob_ClaimPending MemoryStore fault now m limit = Some ns"
  note d = memory_distinct [OF ok]
  have "ns = (if limit > 0 then take (nat limit) (sort_key nt_CreatedAt (filter (claimable now) (map snd m)))
      else sort_key nt_CreatedAt (filter (claimable now) (map snd m)))"
    using c by (simp add: MemoryStore_def MemoryStore_ClaimPending_def Let_def split: if_splits)
  then show "set ns \<subseteq> {n \<in> set (map snd m). nt_State n = StatePending} \<and> distinct (map nt_ID ns)"
    using claimed_rows [OF d] by (cases "limit > 0") (simp_all only: if_True if_False)
qed (simp_all add: MemoryStore_def memory_marks)

interpretation pg_outbox: outbox "PostgresStore jsonb" "\<lambda>rows. rows" "\<lambda>rows. distinct (map nt_ID rows)" for jsonb
proof
  fix rows fault now limit ns
  assume "distinct (map nt_ID rows)" "ob_ClaimPending (PostgresStore jsonb) fault now rows limit = Some ns"
  then show "set ns \<subseteq> {n \<in> set rows. nt_State n = StatePending} \<and> distinct (map nt_ID ns)"
    using claimed_rows(2) [of rows "nat limit" now]
    unfolding PostgresStore_def PostgresStore_ClaimPending_def by (simp only: outbox_ops.simps option.inject option.distinct split: if_splits)
qed (auto simp: PostgresStore_def postgres_marks PostgresStore_Enqueue_def new_notification_def split: option.splits)


section \<open>The theorem at work, and what it does not say\<close>

definition alert_event :: notify_event where
  "alert_event = \<lparr>ne_Class = P0Critical, ne_ChatID = ''7'', ne_ChatType = ChatPrivate, ne_Workflow = ''w'', ne_Text = ''key leaked'',
     ne_DedupeKey = ''k'', ne_OccurredAt = 0\<rparr>"

definition answers :: "bool \<Rightarrow> bool \<Rightarrow> string \<Rightarrow> row_answers" where
  "answers accepted retryable nid = \<lparr>rw_allow = True,
     rw_send = \<lparr>sd_OK = accepted, sd_Retryable = retryable, sd_RetryAfter = 0, sd_Err = ''e''\<rparr>,
     rw_mark_fault = False, rw_schedule_fault = False, rw_now = 0\<rparr>"

definition default_engine :: notify_config where
  "default_engine = \<lparr>cf_MaxAttempts = 0, cf_BackoffBase = 0, cf_BackoffMax = 0, cf_BatchWindow = 0, cf_MaxBatchSize = 0\<rparr>"

definition plain_encode :: "string \<Rightarrow> string \<Rightarrow> string option" where
  "plain_encode body chatType = Some body"

definition plain_decode :: "string \<Rightarrow> (string \<times> string) option" where
  "plain_decode payload = Some (payload, [])"

lemmas engine_defs = Ingest_def enqueue_def DeliverPending_def PostgresStore_def PostgresStore_Enqueue_def PostgresStore_ClaimPending_def
  postgres_mark_def claimable_def new_notification_def touch_def scheduleBackoff_def backoff_delay_def clearBackoff_def
  set_sent_def set_attempt_failed_def set_dead_letter_def set_retry_def plain_encode_def plain_decode_def answers_def alert_event_def
  default_engine_def NewEngine_def withDefaults_def Immediate_def Let_def

lemma alert_run:
  "\<exists>eg s. engine_run (PostgresStore Some) plain_encode plain_decode default_engine [] eg s [(''k'', False), (''k'', True)]"
proof -
  let ?P = "PostgresStore Some"
  obtain eg1 s1 where 1: "Ingest ?P plain_encode False 0 (NewEngine default_engine) [] alert_event = (None, eg1, s1)"
    and s1: "s1 = [new_notification 0 ''k'' ''telegram'' ''7'' ''P0'' ''key leaked'']" "eg1 = NewEngine default_engine"
    by (simp add: engine_defs)
  obtain r2 eg2 s2 where 2: "DeliverPending ?P plain_decode False 1 (answers False True) 10 eg1 s1 = (r2, eg2, s2, [(''k'', False)])"
    and s2: "s2 = [(new_notification 0 ''k'' ''telegram'' ''7'' ''P0'' ''key leaked'')\<lparr>nt_Attempts := 1, nt_LastError := ''e'', nt_NextAttemptAt := Some 2000000000\<rparr>]"
      "eg_nextAttempt eg2 = [(''k'', 2000000000)]" "eg_cfg eg2 = withDefaults default_engine"
    unfolding s1 by (simp add: engine_defs)
  obtain r3 eg3 s3 where 3: "DeliverPending ?P plain_decode False 2000000000 (answers True True) 10 eg2 s2 = (r3, eg3, s3, [(''k'', True)])"
    using s2 by (simp add: engine_defs)
  have "engine_run ?P plain_encode plain_decode default_engine [] eg1 s1 []" by (rule engine_run.ingest [OF engine_run.start 1])
  from engine_run.deliver [OF this _ 2] have "engine_run ?P plain_encode plain_decode default_engine [] eg2 s2 [(''k'', False)]"
    by (simp add: answers_def)
  from engine_run.deliver [OF this _ 3] show ?thesis by (auto simp: answers_def)
qed


text \<open>A critical event is given up like any other: one refusal that is not retryable ends it.\<close>

theorem critical_event_dropped:
  "\<exists>eg s. DeliverPending (PostgresStore Some) plain_decode False 1 (answers False False) 10 (NewEngine default_engine)
      (snd (snd (Ingest (PostgresStore Some) plain_encode False 0 (NewEngine default_engine) [] alert_event)))
    = ((0, 1, None), eg, s, [(''k'', False)]) \<and> map nt_State s = [StateFailed]"
  by (simp add: engine_defs)

text \<open>
  A flushed digest is taken out of the batcher before it is enqueued: if the outbox fails at
  that moment, the digest and those behind it are gone.
\<close>

theorem flush_failure_drops:
  assumes "fst (Batcher_Tick (eg_batcher eg) now) \<noteq> []"
  shows "\<exists>err. TickBatches (PostgresStore jsonb) encode (\<lambda>d. True) now eg s =
    (Some err, eg\<lparr>eg_batcher := snd (Batcher_Tick (eg_batcher eg) now)\<rparr>, s)"
proof -
  obtain d ds where d: "fst (Batcher_Tick (eg_batcher eg) now) = d # ds" using assms by (cases "fst (Batcher_Tick (eg_batcher eg) now)") auto
  have "\<exists>err. enqueue_digest (PostgresStore jsonb) encode True now s d = (Some err, s)"
    by (auto simp: enqueue_digest_def enqueue_def PostgresStore_def PostgresStore_Enqueue_def split: option.splits)
  then show ?thesis using d by (auto simp: TickBatches_def Let_def case_prod_beta)
qed

text \<open>The fallback backoff grows by doubling and stays within the cap, unless the base is above it.\<close>

lemma double_delay_bounds: "0 < d \<Longrightarrow> d \<le> most \<Longrightarrow> d \<le> double_delay most n d \<and> double_delay most n d \<le> most"
proof (induction n arbitrary: d)
  case (Suc n)
  show ?case
  proof (cases "most < 2 * d")
    case False
    then have "2 * d \<le> double_delay most n (2 * d) \<and> double_delay most n (2 * d) \<le> most" using Suc by simp
    then show ?thesis using False Suc.prems by simp
  qed (use Suc.prems in simp)
qed simp

theorem backoff_delay_bounds:
  assumes "0 < cf_BackoffBase cfg" and "cf_BackoffBase cfg \<le> cf_BackoffMax cfg" and "retryAfter \<le> 0"
  shows "cf_BackoffBase cfg \<le> backoff_delay cfg attempt retryAfter \<and> backoff_delay cfg attempt retryAfter \<le> cf_BackoffMax cfg"
  using double_delay_bounds [OF assms(1,2)] assms(3) by (simp add: backoff_delay_def)

end
