(* ===== verification/Opportunity.thy ===== *)
theory Opportunity
  imports Policy State_Model "HOL-Library.Product_Lexorder"
begin

text \<open>
  Opportunities, package \<open>internal/opportunity\<close>: the evidence model (\<open>model.go\<close>), fail-closed labels
  (\<open>labels.go\<close>), configuration (\<open>config.go\<close>), the deterministic score (\<open>score.go\<close>), the verdict
  (\<open>verdict.go\<close>), the Postgres store (\<open>store.go\<close>, migration \<open>00025\<close>), and the kernel's gate over them
  (\<open>internal/kernel/opportunity_gate.go\<close>).

  Nothing is built without a verdict of \<open>BUILD\<close> that the gate itself derives again from the stored
  evidence. Floating-point arithmetic is that of IEEE 754 with the rounding as a parameter,
  each operation rounded on its own; the sign of zero is not kept, and every division has a
  positive divisor. JSON, YAML and SHA-256 are parameters.
\<close>

section \<open>Floating-point arithmetic\<close>

type_synonym rounding = "rat \<Rightarrow> f64"

fun f64_add :: "rounding \<Rightarrow> f64 \<Rightarrow> f64 \<Rightarrow> f64" where
  "f64_add rnd (Fin a) (Fin b) = rnd (a + b)"
| "f64_add rnd NaN b = NaN"
| "f64_add rnd a NaN = NaN"
| "f64_add rnd PosInf NegInf = NaN"
| "f64_add rnd NegInf PosInf = NaN"
| "f64_add rnd PosInf b = PosInf"
| "f64_add rnd NegInf b = NegInf"
| "f64_add rnd a PosInf = PosInf"
| "f64_add rnd a NegInf = NegInf"

fun f64_neg :: "f64 \<Rightarrow> f64" where
  "f64_neg (Fin a) = Fin (- a)"
| "f64_neg PosInf = NegInf"
| "f64_neg NegInf = PosInf"
| "f64_neg NaN = NaN"

definition f64_sub :: "rounding \<Rightarrow> f64 \<Rightarrow> f64 \<Rightarrow> f64" where
  "f64_sub rnd a b = f64_add rnd a (f64_neg b)"

definition infinity_of :: "rat \<Rightarrow> f64" where
  "infinity_of s = (if 0 < s then PosInf else if s < 0 then NegInf else NaN)"

fun f64_sign :: "f64 \<Rightarrow> rat" where
  "f64_sign (Fin a) = sgn a"
| "f64_sign PosInf = 1"
| "f64_sign NegInf = - 1"
| "f64_sign NaN = 0"

fun f64_mul :: "rounding \<Rightarrow> f64 \<Rightarrow> f64 \<Rightarrow> f64" where
  "f64_mul rnd (Fin a) (Fin b) = rnd (a * b)"
| "f64_mul rnd a b = (if a = NaN \<or> b = NaN then NaN else infinity_of (f64_sign a * f64_sign b))"

text \<open>The division by a positive divisor.\<close>

fun f64_div :: "rounding \<Rightarrow> f64 \<Rightarrow> f64 \<Rightarrow> f64" where
  "f64_div rnd (Fin a) (Fin b) = rnd (a / b)"
| "f64_div rnd (Fin a) PosInf = Fin 0"
| "f64_div rnd PosInf (Fin b) = PosInf"
| "f64_div rnd NegInf (Fin b) = NegInf"
| "f64_div rnd a b = NaN"

text \<open>\<open>math.Round\<close>: the nearest integer, halves away from zero.\<close>

definition round_away :: "rat \<Rightarrow> int" where
  "round_away q = (if 0 \<le> q then \<lfloor>q + 1 / 2\<rfloor> else - \<lfloor>1 / 2 - q\<rfloor>)"

fun f64_round :: "f64 \<Rightarrow> f64" where
  "f64_round (Fin a) = Fin (of_int (round_away a))"
| "f64_round v = v"

definition round2 :: "rounding \<Rightarrow> f64 \<Rightarrow> f64" where
  "round2 rnd f = f64_div rnd (f64_round (f64_mul rnd f (Fin 100))) (Fin 100)"

definition clamp :: "f64 \<Rightarrow> f64 \<Rightarrow> f64 \<Rightarrow> f64" where
  "clamp v lo hi = (if f64_less v lo then lo else if f64_less hi v then hi else v)"

section \<open>The evidence\<close>

type_synonym evidence_label = string
type_synonym claim_kind = string

abbreviation LabelObserved :: evidence_label where "LabelObserved \<equiv> ''Observed''"
abbreviation LabelInferred :: evidence_label where "LabelInferred \<equiv> ''Inferred''"
abbreviation LabelAssumed :: evidence_label where "LabelAssumed \<equiv> ''Assumed''"
abbreviation LabelUnresolved :: evidence_label where "LabelUnresolved \<equiv> ''Unresolved''"

definition all_labels :: "evidence_label list" where
  "all_labels = [LabelObserved, LabelInferred, LabelAssumed, LabelUnresolved]"

definition Label_Valid :: "evidence_label \<Rightarrow> bool" where
  "Label_Valid l = (l = LabelObserved \<or> l = LabelInferred \<or> l = LabelAssumed \<or> l = LabelUnresolved)"

abbreviation KindProblem :: claim_kind where "KindProblem \<equiv> ''problem''"
abbreviation KindFrequency :: claim_kind where "KindFrequency \<equiv> ''frequency''"
abbreviation KindAlternative :: claim_kind where "KindAlternative \<equiv> ''alternative''"
abbreviation KindMarket :: claim_kind where "KindMarket \<equiv> ''market''"
abbreviation KindWTP :: claim_kind where "KindWTP \<equiv> ''wtp''"
abbreviation KindCompetitor :: claim_kind where "KindCompetitor \<equiv> ''competitor''"
abbreviation KindDistribution :: claim_kind where "KindDistribution \<equiv> ''distribution''"
abbreviation KindRisk :: claim_kind where "KindRisk \<equiv> ''risk''"

record channel =
  ch_Name :: string
  ch_Kind :: string
  ch_Reachable :: bool

record icp =
  ic_Segment :: string
  ic_Role :: string
  ic_EconomicBuyer :: string
  ic_ReachableChannels :: "channel list"

record idea =
  dd_ID :: string
  dd_Statement :: string
  dd_SubmittedBy :: string
  dd_SubmittedAt :: "int option"
  dd_Source :: string

record claim =
  cl_Kind :: claim_kind
  cl_Text :: string
  cl_Label :: evidence_label
  cl_Basis :: string
  cl_SourceRef :: string
  cl_ObservedAt :: "int option"
  cl_Untrusted :: bool

record opportunity =
  op_Idea :: idea
  op_ICP :: icp
  op_Claims :: "claim list"
  op_EstimatedValidationCostUSD :: f64
  op_MVPBudgetUSD :: f64
  op_MaxActiveBuilds :: int
  op_RealValidationSignal :: bool

datatype verdict = VerdictBuild | VerdictValidateMore | VerdictReject | VerdictOther string

fun show_verdict :: "verdict \<Rightarrow> string" where
  "show_verdict VerdictBuild = ''BUILD''"
| "show_verdict VerdictValidateMore = ''VALIDATE-MORE''"
| "show_verdict VerdictReject = ''REJECT''"
| "show_verdict (VerdictOther s) = s"

section \<open>The configuration\<close>

abbreviation dimDefensibility :: string where "dimDefensibility \<equiv> ''defensibility''"
abbreviation dimFounderFit :: string where "dimFounderFit \<equiv> ''founder_fit''"
abbreviation dimPainSeverity :: string where "dimPainSeverity \<equiv> ''pain_severity''"
abbreviation dimReachableDistribution :: string where "dimReachableDistribution \<equiv> ''reachable_distribution''"
abbreviation dimRecurringRevenue :: string where "dimRecurringRevenue \<equiv> ''recurring_revenue''"
abbreviation dimSpeedToMVP :: string where "dimSpeedToMVP \<equiv> ''speed_to_mvp''"
abbreviation dimWTPEvidence :: string where "dimWTPEvidence \<equiv> ''wtp_evidence''"

definition dimensionNames :: "string list" where
  "dimensionNames = [dimDefensibility, dimFounderFit, dimPainSeverity, dimReachableDistribution,
     dimRecurringRevenue, dimSpeedToMVP, dimWTPEvidence]"

record weights =
  wt_PainSeverity :: f64
  wt_WTPEvidence :: f64
  wt_ReachableDistribution :: f64
  wt_FounderFit :: f64
  wt_SpeedToMVP :: f64
  wt_RecurringRevenue :: f64
  wt_Defensibility :: f64
  wt_RiskPenalty :: f64
  wt_CostPenalty :: f64

record thresholds =
  th_MinimumTotalScore :: f64
  th_MinimumDistributionScore :: f64
  th_MinimumPaymentEvidenceScore :: f64
  th_MustHaveRealValidationSignal :: bool
  th_MaximumMVPBudgetUSD :: f64
  th_MaximumActiveBuilds :: int
  th_ValidateMoreMinScore :: f64
  th_WeakMarginFloor :: f64
  th_MaxVerdictAgeHours :: int
  th_ValidationCostCapUSD :: f64

record opp_config =
  gc_Version :: string
  gc_Weights :: weights
  gc_DimensionSources :: "string \<Rightarrow> string list option"
  gc_LabelStrength :: "string \<Rightarrow> f64 option"
  gc_Thresholds :: thresholds
  gc_AssumedBasis :: "string \<Rightarrow> string option"
  gc_ReferenceMVPBudgetUSD :: f64
  gc_PlatformPolicyMarkers :: "string list"
  gc_ValuePropAIMarkers :: "string list"

datatype config_error = VersionRequired | MissingDimension string | MissingLabel string | BadReferenceBudget | ReadConfig string | DecodeConfig string

definition Config_validate :: "opp_config \<Rightarrow> config_error option" where
  "Config_validate c =
     (if trim_space (gc_Version c) = [] then Some VersionRequired
      else case find (\<lambda>dn. gc_DimensionSources c dn = None) dimensionNames of
             Some dn \<Rightarrow> Some (MissingDimension dn)
           | None \<Rightarrow>
               (case find (\<lambda>l. gc_LabelStrength c l = None) all_labels of
                  Some l \<Rightarrow> Some (MissingLabel l)
                | None \<Rightarrow> if f64_le (gc_ReferenceMVPBudgetUSD c) (Fin 0) then Some BadReferenceBudget else None))"

definition ParseConfigYAML :: "(string \<Rightarrow> opp_config option) \<Rightarrow> string \<Rightarrow> string \<Rightarrow> config_error + opp_config" where
  "ParseConfigYAML yaml raw source =
     (let src = (if trim_space source = [] then ''<memory>'' else source) in
      case yaml raw of
        None \<Rightarrow> Inl (DecodeConfig src)
      | Some c \<Rightarrow> (case Config_validate c of Some e \<Rightarrow> Inl e | None \<Rightarrow> Inr c))"

abbreviation DefaultConfigPath :: string where "DefaultConfigPath \<equiv> ''config/opportunity-thresholds.yaml''"

definition LoadConfig ::
  "(string \<Rightarrow> opp_config option) \<Rightarrow> (string \<Rightarrow> string option) \<Rightarrow> string \<Rightarrow> config_error + opp_config" where
  "LoadConfig yaml files path =
     (let p = (if trim_space path = [] then DefaultConfigPath else path) in
      case files p of None \<Rightarrow> Inl (ReadConfig p) | Some raw \<Rightarrow> ParseConfigYAML yaml raw p)"

definition strength :: "opp_config \<Rightarrow> evidence_label \<Rightarrow> f64" where
  "strength c l = (case gc_LabelStrength c l of Some s \<Rightarrow> s | None \<Rightarrow> Fin 0)"

definition weightFor :: "weights \<Rightarrow> string \<Rightarrow> f64" where
  "weightFor w dn =
     (if dn = dimPainSeverity then wt_PainSeverity w
      else if dn = dimWTPEvidence then wt_WTPEvidence w
      else if dn = dimReachableDistribution then wt_ReachableDistribution w
      else if dn = dimFounderFit then wt_FounderFit w
      else if dn = dimSpeedToMVP then wt_SpeedToMVP w
      else if dn = dimRecurringRevenue then wt_RecurringRevenue w
      else if dn = dimDefensibility then wt_Defensibility w
      else Fin 0)"

section \<open>Labels\<close>

definition NormalizeClaim :: "opp_config \<Rightarrow> claim \<Rightarrow> claim" where
  "NormalizeClaim cfg c0 =
     (let text' = trim_space (cl_Text c0); basis = trim_space (cl_Basis c0); ref = trim_space (cl_SourceRef c0);
          l1 = (if Label_Valid (cl_Label c0) then cl_Label c0 else LabelUnresolved);
          l2 = (if l1 = LabelObserved \<and> ref = [] then LabelInferred else l1);
          (l3, b3) = (if l2 = LabelAssumed \<and> basis = [] then
                        (case gc_AssumedBasis cfg (cl_Kind c0) of
                           Some b \<Rightarrow> if trim_space b \<noteq> [] then (l2, b) else (LabelUnresolved, basis)
                         | None \<Rightarrow> (LabelUnresolved, basis))
                      else (l2, basis));
          b4 = (if l3 \<noteq> LabelAssumed \<and> b3 = [] then ''synthesized'' else b3) in
      c0\<lparr>cl_Text := text', cl_Basis := b4, cl_SourceRef := ref, cl_Label := l3\<rparr>)"

definition Opportunity_Normalize :: "opp_config \<Rightarrow> opportunity \<Rightarrow> opportunity" where
  "Opportunity_Normalize cfg o1 = o1\<lparr>op_Claims := map (NormalizeClaim cfg) (op_Claims o1)\<rparr>"

datatype impact = ImpactLow | ImpactMedium | ImpactHigh

definition impactForKind :: "claim_kind \<Rightarrow> impact" where
  "impactForKind k =
     (if k \<in> {KindWTP, KindProblem, KindDistribution, KindRisk} then ImpactHigh
      else if k \<in> {KindMarket, KindCompetitor, KindFrequency} then ImpactMedium
      else ImpactLow)"

definition UnresolvedByImpact :: "opp_config \<Rightarrow> opportunity \<Rightarrow> impact \<Rightarrow> nat" where
  "UnresolvedByImpact cfg o1 i =
     length (filter (\<lambda>c. cl_Label c = LabelUnresolved \<and> impactForKind (cl_Kind c) = i) (op_Claims (Opportunity_Normalize cfg o1)))"

section \<open>The score\<close>

record dimension_score =
  dm_Name :: string
  dm_Weight :: f64
  dm_Subscore :: f64
  dm_Reason :: string

record signals =
  sn_MaxLabelStrength :: f64
  sn_StrongEvidenceFloor :: f64
  sn_HasAnyEvidence :: bool
  sn_HasReachableChannel :: bool
  sn_ValuePropOnlyAI :: bool
  sn_WeakGrossMargin :: bool
  sn_PlatformPolicyRisk :: bool
  sn_RealValidationSignal :: bool
  sn_MVPBudgetUSD :: f64
  sn_ActiveBuildsCap :: int
  sn_PaymentEvidenceScore :: f64
  sn_DistributionScore :: f64

record scorecard =
  sk_ConfigVersion :: string
  sk_Dimensions :: "dimension_score list"
  sk_RiskPenalty :: f64
  sk_CostPenalty :: f64
  sk_Total :: f64
  sk_Signals :: signals

definition labelBreakdown :: "claim list \<Rightarrow> string" where
  "labelBreakdown cs =
     (let n = (\<lambda>l. length (filter (\<lambda>c. cl_Label c = l) cs)) in
      join_with '', '' (map (\<lambda>l. show_nat (n l) @ '' '' @ l) (filter (\<lambda>l. 0 < n l) all_labels)))"

definition mean_strength :: "rounding \<Rightarrow> opp_config \<Rightarrow> claim list \<Rightarrow> f64" where
  "mean_strength rnd cfg cs =
     f64_div rnd (foldl (\<lambda>s c. f64_add rnd s (strength cfg (cl_Label c))) (Fin 0) cs) (Fin (of_nat (length cs)))"

definition dimensionSubscore :: "rounding \<Rightarrow> claim list \<Rightarrow> string list \<Rightarrow> opp_config \<Rightarrow> f64 \<times> string" where
  "dimensionSubscore rnd claims sources cfg =
     (let srcs = sort sources; used = filter (\<lambda>c. cl_Kind c \<in> set srcs) claims in
      if used = [] then (Fin 0, ''no '' @ join_with ''/'' srcs @ '' evidence'')
      else (f64_mul rnd (mean_strength rnd cfg used) (Fin 100),
            show_nat (length used) @ '' '' @ join_with ''/'' srcs @ '' claim(s): '' @ labelBreakdown used))"

definition penaltyRisk :: "rounding \<Rightarrow> claim list \<Rightarrow> opp_config \<Rightarrow> f64" where
  "penaltyRisk rnd claims cfg =
     (let risks = filter (\<lambda>c. cl_Kind c = KindRisk) claims in
      if risks = [] then Fin 0
      else f64_mul rnd (f64_mul rnd (wt_RiskPenalty (gc_Weights cfg)) (mean_strength rnd cfg risks)) (Fin 100))"

definition penaltyCost :: "rounding \<Rightarrow> opportunity \<Rightarrow> opp_config \<Rightarrow> f64" where
  "penaltyCost rnd o1 cfg =
     (if f64_le (gc_ReferenceMVPBudgetUSD cfg) (Fin 0) then Fin 0
      else (let ratio = clamp (f64_div rnd (op_EstimatedValidationCostUSD o1) (gc_ReferenceMVPBudgetUSD cfg)) (Fin 0) (Fin 1) in
            f64_mul rnd (f64_mul rnd (wt_CostPenalty (gc_Weights cfg)) ratio) (Fin 100)))"

definition matchesAny :: "string \<Rightarrow> string list \<Rightarrow> bool" where
  "matchesAny s markers =
     list_ex (\<lambda>m. let m' = to_lower (trim_space m) in m' \<noteq> [] \<and> contains (to_lower s) m') markers"

definition valuePropOnlyAI :: "opportunity \<Rightarrow> opp_config \<Rightarrow> bool" where
  "valuePropOnlyAI o1 cfg =
     (matchesAny (dd_Statement (op_Idea o1)) (gc_ValuePropAIMarkers cfg)
      \<and> \<not> list_ex (\<lambda>c. cl_Label c \<noteq> LabelUnresolved \<and> (cl_Kind c = KindProblem \<or> cl_Kind c = KindWTP)) (op_Claims o1))"

definition dimensionByName :: "dimension_score list \<Rightarrow> string \<Rightarrow> dimension_score option" where
  "dimensionByName dims name = find (\<lambda>d. dm_Name d = name) dims"

definition subscore_of :: "dimension_score list \<Rightarrow> string \<Rightarrow> f64" where
  "subscore_of dims name = (case dimensionByName dims name of Some d \<Rightarrow> dm_Subscore d | None \<Rightarrow> Fin 0)"

definition max_strength :: "opp_config \<Rightarrow> claim list \<Rightarrow> f64" where
  "max_strength cfg cs =
     foldl (\<lambda>m c. let st = strength cfg (cl_Label c) in if f64_less m st then st else m) (Fin 0) cs"

definition signals_of :: "rounding \<Rightarrow> opportunity \<Rightarrow> dimension_score list \<Rightarrow> opp_config \<Rightarrow> signals" where
  "signals_of rnd o1 dims cfg =
     \<lparr>sn_MaxLabelStrength = round2 rnd (max_strength cfg (op_Claims o1)),
      sn_StrongEvidenceFloor = strength cfg LabelInferred,
      sn_HasAnyEvidence = list_ex (\<lambda>c. cl_Label c \<noteq> LabelUnresolved) (op_Claims o1),
      sn_HasReachableChannel = list_ex ch_Reachable (ic_ReachableChannels (op_ICP o1)),
      sn_ValuePropOnlyAI = valuePropOnlyAI o1 cfg,
      sn_WeakGrossMargin =
        (case dimensionByName dims dimRecurringRevenue of
           Some d \<Rightarrow> f64_less (dm_Subscore d) (th_WeakMarginFloor (gc_Thresholds cfg)) | None \<Rightarrow> False),
      sn_PlatformPolicyRisk =
        list_ex (\<lambda>c. cl_Kind c = KindRisk \<and> matchesAny (cl_Text c) (gc_PlatformPolicyMarkers cfg)) (op_Claims o1),
      sn_RealValidationSignal = op_RealValidationSignal o1,
      sn_MVPBudgetUSD = op_MVPBudgetUSD o1,
      sn_ActiveBuildsCap = op_MaxActiveBuilds o1,
      sn_PaymentEvidenceScore = subscore_of dims dimWTPEvidence,
      sn_DistributionScore = subscore_of dims dimReachableDistribution\<rparr>"

definition score_dimension :: "rounding \<Rightarrow> opportunity \<Rightarrow> opp_config \<Rightarrow> string \<Rightarrow> dimension_score" where
  "score_dimension rnd n cfg dn =
     (let sources = (case gc_DimensionSources cfg dn of Some s \<Rightarrow> s | None \<Rightarrow> []);
          (sub, reason) = dimensionSubscore rnd (op_Claims n) sources cfg in
      \<lparr>dm_Name = dn, dm_Weight = round2 rnd (weightFor (gc_Weights cfg) dn), dm_Subscore = round2 rnd sub, dm_Reason = reason\<rparr>)"

text \<open>The weighted sum uses the subscores before they are rounded to two decimals.\<close>

definition weightedPositive :: "rounding \<Rightarrow> opportunity \<Rightarrow> opp_config \<Rightarrow> f64" where
  "weightedPositive rnd n cfg =
     foldl (\<lambda>acc dn. f64_add rnd acc
         (f64_mul rnd (weightFor (gc_Weights cfg) dn)
           (fst (dimensionSubscore rnd (op_Claims n) (case gc_DimensionSources cfg dn of Some s \<Rightarrow> s | None \<Rightarrow> []) cfg))))
       (Fin 0) dimensionNames"

definition Score :: "rounding \<Rightarrow> opportunity \<Rightarrow> opp_config \<Rightarrow> scorecard" where
  "Score rnd o1 cfg =
     (let n = Opportunity_Normalize cfg o1;
          dims = map (score_dimension rnd n cfg) dimensionNames;
          riskPenalty = penaltyRisk rnd (op_Claims n) cfg;
          costPenalty = penaltyCost rnd n cfg;
          total = clamp (f64_sub rnd (f64_sub rnd (weightedPositive rnd n cfg) riskPenalty) costPenalty) (Fin 0) (Fin 100) in
      \<lparr>sk_ConfigVersion = gc_Version cfg, sk_Dimensions = dims, sk_RiskPenalty = round2 rnd riskPenalty,
       sk_CostPenalty = round2 rnd costPenalty, sk_Total = round2 rnd total, sk_Signals = signals_of rnd n dims cfg\<rparr>)"

section \<open>The verdict\<close>

definition hard_rejects :: "signals \<Rightarrow> string list" where
  "hard_rejects sig =
     (if \<not> sn_HasAnyEvidence sig then [''reject:no-evidence''] else [])
     @ (if \<not> sn_HasReachableChannel sig \<or> f64_le (sn_DistributionScore sig) (Fin 0) then [''reject:no-reachable-customer''] else [])
     @ (if sn_WeakGrossMargin sig then [''reject:weak-gross-margin''] else [])
     @ (if sn_PlatformPolicyRisk sig then [''reject:platform-policy-risk''] else [])
     @ (if sn_ValuePropOnlyAI sig then [''reject:value-prop-only-ai''] else [])"

definition unmet_thresholds :: "scorecard \<Rightarrow> thresholds \<Rightarrow> string list" where
  "unmet_thresholds sc t =
     (let sig = sk_Signals sc in
      (if f64_less (sk_Total sc) (th_MinimumTotalScore t) then [''unmet:minimum_total_score''] else [])
      @ (if f64_less (sn_DistributionScore sig) (th_MinimumDistributionScore t) then [''unmet:minimum_distribution_score''] else [])
      @ (if f64_less (sn_PaymentEvidenceScore sig) (th_MinimumPaymentEvidenceScore t) then [''unmet:minimum_payment_evidence_score''] else [])
      @ (if th_MustHaveRealValidationSignal t \<and> \<not> sn_RealValidationSignal sig then [''unmet:must_have_real_validation_signal''] else [])
      @ (if f64_less (Fin 0) (th_MaximumMVPBudgetUSD t) \<and> f64_less (th_MaximumMVPBudgetUSD t) (sn_MVPBudgetUSD sig)
         then [''unmet:maximum_mvp_budget_usd''] else []))"

definition evidenceTooWeak :: "signals \<Rightarrow> bool" where
  "evidenceTooWeak sig = f64_less (sn_MaxLabelStrength sig) (sn_StrongEvidenceFloor sig)"

definition Opportunity_Decide :: "scorecard \<Rightarrow> thresholds \<Rightarrow> verdict \<times> string list" where
  "Opportunity_Decide sc t =
     (let sig = sk_Signals sc; hard = hard_rejects sig; weak = evidenceTooWeak sig; unmet = unmet_thresholds sc t;
          blockers = hard @ (if weak then [''reject:all-assumed-or-unresolved''] else []) @ unmet in
      if hard = [] \<and> \<not> weak \<and> unmet = [] then (VerdictBuild, [])
      else if hard \<noteq> [] then (VerdictReject, blockers)
      else if f64_le (th_ValidateMoreMinScore t) (sk_Total sc) then (VerdictValidateMore, blockers)
      else (VerdictReject, blockers))"

section \<open>The store\<close>

text \<open>
  The JSON texts: what a \<open>JSONB\<close> column holds of a value, how it is read back, and the canonical
  encodings that the digests are taken of. \<^const>\<open>None\<close> is an error of the encoder (a float that is
  not finite) or of the decoder.
\<close>

record opp_codec =
  oj_icp :: "icp \<Rightarrow> string option"
  oj_icp_of :: "string \<Rightarrow> icp option"
  oj_strings :: "string list \<Rightarrow> string option"
  oj_strings_of :: "string \<Rightarrow> string list option"
  oj_card :: "scorecard \<Rightarrow> string option"
  oj_card_of :: "string \<Rightarrow> scorecard option"
  oj_limits :: "thresholds \<Rightarrow> string option"
  oj_limits_of :: "string \<Rightarrow> thresholds option"
  oj_canonical :: "scorecard \<Rightarrow> string option"
  oj_canonical_limits :: "thresholds \<Rightarrow> string option"

definition Scorecard_Digest :: "opp_codec \<Rightarrow> (string \<Rightarrow> string) \<Rightarrow> scorecard \<Rightarrow> string option" where
  "Scorecard_Digest cy sha sc = map_option sha (oj_canonical cy sc)"

definition ThresholdsDigest :: "opp_codec \<Rightarrow> (string \<Rightarrow> string) \<Rightarrow> thresholds \<Rightarrow> string option" where
  "ThresholdsDigest cy sha t = map_option sha (oj_canonical_limits cy t)"

text \<open>
  The tables. A statement that the database rejects for another reason than a missing or a
  duplicate key, such as a collision of random ids, is a fault of the call's environment; a
  load sees one state of the tables.
\<close>

record opp_row =
  xw_id :: string
  xw_idea :: idea
  xw_icp :: string
  xw_cost :: f64
  xw_budget :: f64
  xw_active :: int
  xw_signal :: bool
  xw_created :: int

record verdict_row =
  vd_id :: string
  vd_opportunity :: string
  vd_verdict :: string
  vd_unmet :: string
  vd_scorecard_digest :: string
  vd_thresholds_digest :: string
  vd_config_version :: string
  vd_scorecard :: string
  vd_thresholds :: string
  vd_created :: int

record opp_db =
  xd_opportunities :: "opp_row list"
  xd_evidence :: "(string \<times> claim) list"
  xd_scores :: "(string \<times> string \<times> string \<times> string) list"
  xd_verdicts :: "verdict_row list"

record opp_env =
  oe_rand :: "string option"
  oe_now :: int
  oe_fault :: bool

datatype opp_error = OppNotFound | OppRandom | OppEncode | OppDecode | OppDB

record verdict_record =
  vr_ID :: string
  vr_OpportunityID :: string
  vr_Verdict :: verdict
  vr_UnmetThresholds :: "string list"
  vr_ScorecardDigest :: string
  vr_ThresholdsDigest :: string
  vr_ConfigVersion :: string
  vr_Scorecard :: scorecard
  vr_Thresholds :: thresholds
  vr_CreatedAt :: int

definition verdict_of :: "string \<Rightarrow> verdict" where
  "verdict_of s =
     (if s = ''BUILD'' then VerdictBuild else if s = ''VALIDATE-MORE'' then VerdictValidateMore
      else if s = ''REJECT'' then VerdictReject else VerdictOther s)"

definition opp_newID :: "opp_env \<Rightarrow> string \<Rightarrow> string option" where
  "opp_newID e prefix = map_option (\<lambda>r. prefix @ ''-'' @ r) (oe_rand e)"

definition known_opportunity :: "opp_db \<Rightarrow> string \<Rightarrow> bool" where
  "known_opportunity db oppID = list_ex (\<lambda>r. xw_id r = oppID) (xd_opportunities db)"

definition CreateOpportunity :: "opp_codec \<Rightarrow> opp_env \<Rightarrow> opp_db \<Rightarrow> opportunity \<Rightarrow> (opp_error + string) \<times> opp_db" where
  "CreateOpportunity cy e db o1 =
     (case (if dd_ID (op_Idea o1) = [] then opp_newID e ''opp'' else Some (dd_ID (op_Idea o1))) of
        None \<Rightarrow> (Inl OppRandom, db)
      | Some oppID \<Rightarrow>
          (case oj_icp cy (op_ICP o1) of
             None \<Rightarrow> (Inl OppEncode, db)
           | Some icpJSON \<Rightarrow>
               if oe_fault e \<or> known_opportunity db oppID \<or> op_MaxActiveBuilds o1 < - (2 ^ 31) \<or> 2 ^ 31 \<le> op_MaxActiveBuilds o1
               then (Inl OppDB, db)
               else (Inr oppID,
                     db\<lparr>xd_opportunities := xd_opportunities db @
                       [\<lparr>xw_id = oppID, xw_idea = op_Idea o1, xw_icp = icpJSON, xw_cost = op_EstimatedValidationCostUSD o1,
                         xw_budget = op_MVPBudgetUSD o1, xw_active = op_MaxActiveBuilds o1,
                         xw_signal = op_RealValidationSignal o1, xw_created = oe_now e\<rparr>]\<rparr>)))"

definition AppendEvidence :: "opp_env \<Rightarrow> opp_db \<Rightarrow> string \<Rightarrow> claim \<Rightarrow> opp_error option \<times> opp_db" where
  "AppendEvidence e db oppID c =
     (case opp_newID e ''evi'' of
        None \<Rightarrow> (Some OppRandom, db)
      | Some _ \<Rightarrow>
          if oe_fault e \<or> \<not> known_opportunity db oppID then (Some OppDB, db)
          else (None, db\<lparr>xd_evidence := xd_evidence db @ [(oppID, c)]\<rparr>))"

definition LoadEvidence :: "opp_db \<Rightarrow> string \<Rightarrow> claim list" where
  "LoadEvidence db oppID = map snd (filter (\<lambda>(i, c). i = oppID) (xd_evidence db))"

definition newest :: "('a \<Rightarrow> int \<times> string) \<Rightarrow> 'a list \<Rightarrow> 'a list" where
  "newest key xs = rev (sort_key key xs)"

definition ListOpportunities :: "opp_env \<Rightarrow> opp_db \<Rightarrow> int \<Rightarrow> opp_error + (string \<times> string \<times> int) list" where
  "ListOpportunities e db limit =
     (if oe_fault e then Inl OppDB
      else Inr (take (nat (if limit \<le> 0 then 50 else limit))
        (map (\<lambda>r. (xw_id r, dd_Statement (xw_idea r), xw_created r)) (newest (\<lambda>r. (xw_created r, xw_id r)) (xd_opportunities db)))))"

definition LookupIDByStatement :: "opp_env \<Rightarrow> opp_db \<Rightarrow> string \<Rightarrow> opp_error + string" where
  "LookupIDByStatement e db statement =
     (if oe_fault e then Inl OppDB
      else case newest (\<lambda>r. (xw_created r, xw_id r)) (filter (\<lambda>r. dd_Statement (xw_idea r) = statement) (xd_opportunities db)) of
             [] \<Rightarrow> Inl OppNotFound
           | r # _ \<Rightarrow> Inr (xw_id r))"

definition LoadOpportunity :: "opp_codec \<Rightarrow> opp_env \<Rightarrow> opp_db \<Rightarrow> string \<Rightarrow> opp_error + opportunity" where
  "LoadOpportunity cy e db oppID =
     (if oe_fault e then Inl OppDB
      else case find (\<lambda>r. xw_id r = oppID) (xd_opportunities db) of
             None \<Rightarrow> Inl OppNotFound
           | Some r \<Rightarrow>
               (case oj_icp_of cy (xw_icp r) of
                  None \<Rightarrow> Inl OppDecode
                | Some i \<Rightarrow>
                    Inr \<lparr>op_Idea = (xw_idea r)\<lparr>dd_ID := xw_id r\<rparr>, op_ICP = i, op_Claims = LoadEvidence db oppID,
                         op_EstimatedValidationCostUSD = xw_cost r, op_MVPBudgetUSD = xw_budget r,
                         op_MaxActiveBuilds = xw_active r, op_RealValidationSignal = xw_signal r\<rparr>))"

definition RecordScore :: "opp_codec \<Rightarrow> (string \<Rightarrow> string) \<Rightarrow> opp_env \<Rightarrow> opp_db \<Rightarrow> string \<Rightarrow> scorecard \<Rightarrow> opp_error option \<times> opp_db" where
  "RecordScore cy sha e db oppID sc =
     (case (opp_newID e ''score'', Scorecard_Digest cy sha sc, oj_card cy sc) of
        (None, _) \<Rightarrow> (Some OppRandom, db)
      | (Some _, Some d, Some json) \<Rightarrow>
          if oe_fault e \<or> \<not> known_opportunity db oppID then (Some OppDB, db)
          else (None, db\<lparr>xd_scores := xd_scores db @ [(oppID, json, d, sk_ConfigVersion sc)]\<rparr>)
      | _ \<Rightarrow> (Some OppEncode, db))"

definition RecordVerdict ::
  "opp_codec \<Rightarrow> (string \<Rightarrow> string) \<Rightarrow> opp_env \<Rightarrow> opp_db \<Rightarrow> string \<Rightarrow> verdict \<Rightarrow> string list \<Rightarrow> scorecard \<Rightarrow> thresholds
     \<Rightarrow> (opp_error + verdict_record) \<times> opp_db" where
  "RecordVerdict cy sha e db oppID v unmet sc t =
     (case opp_newID e ''verdict'' of
        None \<Rightarrow> (Inl OppRandom, db)
      | Some vid \<Rightarrow>
          (case (Scorecard_Digest cy sha sc, ThresholdsDigest cy sha t, oj_strings cy unmet, oj_card cy sc, oj_limits cy t) of
             (Some sd, Some td, Some uj, Some sj, Some tj) \<Rightarrow>
               if oe_fault e \<or> \<not> known_opportunity db oppID \<or> list_ex (\<lambda>r. vd_id r = vid) (xd_verdicts db) then (Inl OppDB, db)
               else
                 (Inr \<lparr>vr_ID = vid, vr_OpportunityID = oppID, vr_Verdict = v, vr_UnmetThresholds = unmet,
                       vr_ScorecardDigest = sd, vr_ThresholdsDigest = td, vr_ConfigVersion = sk_ConfigVersion sc,
                       vr_Scorecard = sc, vr_Thresholds = t, vr_CreatedAt = oe_now e\<rparr>,
                  db\<lparr>xd_verdicts := xd_verdicts db @
                    [\<lparr>vd_id = vid, vd_opportunity = oppID, vd_verdict = show_verdict v, vd_unmet = uj, vd_scorecard_digest = sd,
                      vd_thresholds_digest = td, vd_config_version = sk_ConfigVersion sc, vd_scorecard = sj, vd_thresholds = tj,
                      vd_created = oe_now e\<rparr>]\<rparr>)
           | _ \<Rightarrow> (Inl OppEncode, db)))"

definition verdict_of_row :: "opp_codec \<Rightarrow> verdict_row \<Rightarrow> opp_error + verdict_record" where
  "verdict_of_row cy r =
     (case (oj_strings_of cy (vd_unmet r), oj_card_of cy (vd_scorecard r), oj_limits_of cy (vd_thresholds r)) of
        (Some u, Some sc, Some t) \<Rightarrow>
          Inr \<lparr>vr_ID = vd_id r, vr_OpportunityID = vd_opportunity r, vr_Verdict = verdict_of (vd_verdict r), vr_UnmetThresholds = u,
               vr_ScorecardDigest = vd_scorecard_digest r, vr_ThresholdsDigest = vd_thresholds_digest r,
               vr_ConfigVersion = vd_config_version r, vr_Scorecard = sc, vr_Thresholds = t, vr_CreatedAt = vd_created r\<rparr>
      | _ \<Rightarrow> Inl OppDecode)"

definition LatestVerdict :: "opp_codec \<Rightarrow> opp_env \<Rightarrow> opp_db \<Rightarrow> string \<Rightarrow> opp_error + verdict_record" where
  "LatestVerdict cy e db oppID =
     (if oe_fault e then Inl OppDB
      else case newest (\<lambda>r. (vd_created r, vd_id r)) (filter (\<lambda>r. vd_opportunity r = oppID) (xd_verdicts db)) of
             [] \<Rightarrow> Inl OppNotFound
           | r # _ \<Rightarrow> verdict_of_row cy r)"

section \<open>The gate\<close>

record gate_input =
  gq_OpportunityID :: string
  gq_MissionEnvelopeUSD :: f64

text \<open>The zero value of the status is \<^const>\<open>None\<close>.\<close>

record gate_output =
  gr_Allowed :: bool
  gr_Verdict :: string
  gr_ResultCode :: string
  gr_Reason :: string
  gr_WorkflowStatus :: "status option"
  gr_ReservedValidationUSD :: f64
  gr_ReservationID :: string

datatype gate_error = NoVerdictLoader | LoadVerdictFailed | LoadOpportunityFailed | RederiveFailed | ReserveFailed | RealSignalFailed

definition no_output :: gate_output where
  "no_output = \<lparr>gr_Allowed = False, gr_Verdict = [], gr_ResultCode = [], gr_Reason = [], gr_WorkflowStatus = None,
     gr_ReservedValidationUSD = Fin 0, gr_ReservationID = []\<rparr>"

definition refuse :: "string \<Rightarrow> string \<Rightarrow> gate_output" where
  "refuse code reason = no_output\<lparr>gr_ResultCode := code, gr_Reason := reason, gr_WorkflowStatus := KnownResultCode code\<rparr>"

text \<open>\<open>time.Time.Sub\<close> saturates, the product of a duration wraps around.\<close>

definition time_sub :: "int \<Rightarrow> int \<Rightarrow> int" where
  "time_sub a b = max (- (2 ^ 63)) (min (2 ^ 63 - 1) (a - b))"

definition wrap64 :: "int \<Rightarrow> int" where
  "wrap64 i = (i + 2 ^ 63) mod 2 ^ 64 - 2 ^ 63"

definition verdict_expired :: "thresholds \<Rightarrow> int \<Rightarrow> int \<Rightarrow> bool" where
  "verdict_expired t now created =
     (0 < th_MaxVerdictAgeHours t \<and> wrap64 (th_MaxVerdictAgeHours t * 3600000000000) < time_sub now created)"

text \<open>The branch of \<open>VALIDATE-MORE\<close>: the amount to be reserved, and the reservation when there is a reserver.\<close>

definition reserve_validation ::
  "(f64 \<Rightarrow> string option) option \<Rightarrow> opportunity \<Rightarrow> thresholds \<Rightarrow> gate_output \<Rightarrow> gate_error + gate_output" where
  "reserve_validation reserver opp t out =
     (let cost = op_EstimatedValidationCostUSD opp; limit = th_ValidationCostCapUSD t;
          capped = (if f64_less (Fin 0) limit \<and> f64_less limit cost then limit else cost);
          amt = (if f64_less capped (Fin 0) then Fin 0 else capped);
          done = (\<lambda>rid. out\<lparr>gr_ReservationID := rid, gr_ReservedValidationUSD := amt,
                     gr_ResultCode := ''OPPORTUNITY_VALIDATION_REQUIRED'', gr_Reason := ''validation-required'',
                     gr_WorkflowStatus := Some StatusSucceeded\<rparr>) in
      case reserver of
        Some res \<Rightarrow>
          if f64_less (Fin 0) amt then (case res amt of None \<Rightarrow> Inl ReserveFailed | Some rid \<Rightarrow> Inr (done rid))
          else Inr (done [])
      | None \<Rightarrow> Inr (done []))"

definition accept_build ::
  "(string \<Rightarrow> bool option) option \<Rightarrow> opp_config \<Rightarrow> int \<Rightarrow> gate_input \<Rightarrow> verdict_record \<Rightarrow> gate_output \<Rightarrow> gate_error + gate_output" where
  "accept_build realSignal cfg now i rec out =
     (let t = gc_Thresholds cfg; allowed = out\<lparr>gr_Allowed := True, gr_Reason := ''build-verdict-satisfied'', gr_WorkflowStatus := Some StatusRunning\<rparr> in
      if verdict_expired t now (vr_CreatedAt rec) then Inr (refuse ''OPPORTUNITY_VERDICT_MISSING'' ''verdict-expired'')
      else if f64_less (Fin 0) (gq_MissionEnvelopeUSD i) \<and> f64_less (gq_MissionEnvelopeUSD i) (th_MaximumMVPBudgetUSD (vr_Thresholds rec))
        then Inr (refuse ''OPPORTUNITY_VERDICT_MISSING'' ''mvp-budget-exceeds-mission-envelope'')
      else if th_MustHaveRealValidationSignal t then
        (case (case realSignal of None \<Rightarrow> Some False | Some f \<Rightarrow> f (gq_OpportunityID i)) of
           None \<Rightarrow> Inl RealSignalFailed
         | Some ok \<Rightarrow> if ok then Inr allowed
                       else Inr (refuse ''OPPORTUNITY_VERDICT_MISSING'' ''no-allowlisted-real-validation-signal''))
      else Inr allowed)"

definition RequireBuildVerdict ::
  "rounding \<Rightarrow> opp_codec \<Rightarrow> (string \<Rightarrow> string) \<Rightarrow> ((string \<Rightarrow> opp_error + verdict_record) \<times> (string \<Rightarrow> opp_error + opportunity)) option
     \<Rightarrow> opp_config \<Rightarrow> (f64 \<Rightarrow> string option) option \<Rightarrow> (string \<Rightarrow> bool option) option \<Rightarrow> int \<Rightarrow> gate_input \<Rightarrow> gate_error + gate_output" where
  "RequireBuildVerdict rnd cy sha loader cfg reserver realSignal now i =
     (case loader of
        None \<Rightarrow> Inl NoVerdictLoader
      | Some (latest, load) \<Rightarrow>
          (case latest (gq_OpportunityID i) of
             Inl OppNotFound \<Rightarrow> Inr (refuse ''OPPORTUNITY_VERDICT_MISSING'' ''verdict-missing'')
           | Inl _ \<Rightarrow> Inl LoadVerdictFailed
           | Inr rec \<Rightarrow>
               (case load (gq_OpportunityID i) of
                  Inl OppNotFound \<Rightarrow> Inr (refuse ''OPPORTUNITY_VERDICT_MISSING'' ''opportunity-evidence-missing'')
                | Inl _ \<Rightarrow> Inl LoadOpportunityFailed
                | Inr opp \<Rightarrow>
                    if gc_Version cfg \<noteq> vr_ConfigVersion rec
                    then Inr (refuse ''OPPORTUNITY_VERDICT_UNREPRODUCIBLE'' ''config-version-drift'')
                    else
                      (let reScored = Score rnd opp cfg in
                       case Scorecard_Digest cy sha reScored of
                         None \<Rightarrow> Inl RederiveFailed
                       | Some reDigest \<Rightarrow>
                           if reDigest \<noteq> vr_ScorecardDigest rec
                           then Inr (refuse ''OPPORTUNITY_VERDICT_UNREPRODUCIBLE'' ''scorecard-digest-mismatch'')
                           else if fst (Opportunity_Decide reScored (gc_Thresholds cfg)) \<noteq> vr_Verdict rec
                           then Inr (refuse ''OPPORTUNITY_VERDICT_UNREPRODUCIBLE'' ''verdict-disagrees-on-rederivation'')
                           else
                             (let out = no_output\<lparr>gr_Verdict := show_verdict (vr_Verdict rec)\<rparr> in
                              case vr_Verdict rec of
                                VerdictReject \<Rightarrow>
                                  Inr (out\<lparr>gr_ResultCode := ''OPPORTUNITY_REJECTED'', gr_Reason := ''opportunity-rejected'',
                                           gr_WorkflowStatus := Some StatusSucceeded\<rparr>)
                              | VerdictValidateMore \<Rightarrow> reserve_validation reserver opp (gc_Thresholds cfg) out
                              | VerdictBuild \<Rightarrow> accept_build realSignal cfg now i rec out
                              | VerdictOther _ \<Rightarrow>
                                  Inr (refuse ''OPPORTUNITY_VERDICT_UNREPRODUCIBLE'' ''unknown-verdict''))))))"

section \<open>What the gate lets through\<close>

lemma newest_first:
  assumes "newest key xs = r # rs"
  shows "r \<in> set xs" and "\<forall>x \<in> set xs. key x \<le> key r"
proof -
  have eq: "sort_key key xs = rev rs @ [r]" using assms by (simp add: newest_def rev_eq_Cons_iff)
  then have set: "set xs = set (rev rs @ [r])" using set_sort [of key xs] by simp
  then show "r \<in> set xs" by simp
  have "sorted (map key (rev rs @ [r]))" using sorted_sort_key [of key xs] unfolding eq .
  then show "\<forall>x \<in> set xs. key x \<le> key r" unfolding set by (auto simp: sorted_append)
qed

lemma verdict_of_BUILD: "verdict_of s = VerdictBuild \<longleftrightarrow> s = ''BUILD''"
  by (simp add: verdict_of_def)

lemma LatestVerdict_Inr:
  assumes "LatestVerdict cy e db oppID = Inr rec"
  shows "\<exists>row. row \<in> set (xd_verdicts db) \<and> vd_opportunity row = oppID
    \<and> (\<forall>r \<in> set (xd_verdicts db). vd_opportunity r = oppID \<longrightarrow> (vd_created r, vd_id r) \<le> (vd_created row, vd_id row))
    \<and> verdict_of_row cy row = Inr rec"
proof (cases "newest (\<lambda>r. (vd_created r, vd_id r)) (filter (\<lambda>r. vd_opportunity r = oppID) (xd_verdicts db))")
  case Nil
  then show ?thesis using assms by (simp add: LatestVerdict_def split: if_splits)
next
  case (Cons row rows)
  note first = newest_first [OF Cons]
  show ?thesis using assms Cons first by (intro exI [of _ row]) (auto simp: LatestVerdict_def split: if_splits)
qed

lemma verdict_of_row_Inr:
  assumes "verdict_of_row cy row = Inr rec"
  shows "vr_Verdict rec = verdict_of (vd_verdict row)" "vr_ConfigVersion rec = vd_config_version row"
    "vr_ScorecardDigest rec = vd_scorecard_digest row" "vr_CreatedAt rec = vd_created row"
    "oj_limits_of cy (vd_thresholds row) = Some (vr_Thresholds rec)"
  using assms by (auto simp: verdict_of_row_def split: option.splits)

lemma refuse_not_allowed [simp]: "\<not> gr_Allowed (refuse code reason)"
  by (simp add: refuse_def no_output_def)

lemma reserve_not_allowed: "reserve_validation reserver opp t out = Inr res \<Longrightarrow> gr_Allowed res = gr_Allowed out"
  by (auto simp: reserve_validation_def Let_def split: option.splits if_splits)

lemma accept_build_allowed:
  assumes "accept_build realSignal cfg now i rec out = Inr res" and "gr_Allowed res"
  shows "\<not> verdict_expired (gc_Thresholds cfg) now (vr_CreatedAt rec)"
    and "f64_less (Fin 0) (gq_MissionEnvelopeUSD i) \<Longrightarrow> \<not> f64_less (gq_MissionEnvelopeUSD i) (th_MaximumMVPBudgetUSD (vr_Thresholds rec))"
    and "th_MustHaveRealValidationSignal (gc_Thresholds cfg) \<Longrightarrow> \<exists>f. realSignal = Some f \<and> f (gq_OpportunityID i) = Some True"
  using assms by (auto simp: accept_build_def Let_def split: if_splits option.splits)

lemma RequireBuildVerdict_allowed:
  assumes "RequireBuildVerdict rnd cy sha (Some (latest, load)) cfg reserver realSignal now i = Inr out" and "gr_Allowed out"
  shows "\<exists>rec opp. latest (gq_OpportunityID i) = Inr rec \<and> load (gq_OpportunityID i) = Inr opp
    \<and> gc_Version cfg = vr_ConfigVersion rec \<and> Scorecard_Digest cy sha (Score rnd opp cfg) = Some (vr_ScorecardDigest rec)
    \<and> fst (Opportunity_Decide (Score rnd opp cfg) (gc_Thresholds cfg)) = VerdictBuild \<and> vr_Verdict rec = VerdictBuild
    \<and> accept_build realSignal cfg now i rec (no_output\<lparr>gr_Verdict := show_verdict (vr_Verdict rec)\<rparr>) = Inr out"
  using assms reserve_not_allowed
  by (fastforce simp: RequireBuildVerdict_def Let_def no_output_def split: sum.splits opp_error.splits if_splits option.splits verdict.splits)

lemma Decide_build:
  assumes "fst (Opportunity_Decide sc t) = VerdictBuild"
  shows "hard_rejects (sk_Signals sc) = []" "\<not> evidenceTooWeak (sk_Signals sc)" "unmet_thresholds sc t = []"
  using assms by (auto simp: Opportunity_Decide_def Let_def split: if_splits)

lemma Score_signals:
  "sk_Signals (Score rnd o1 cfg) =
     signals_of rnd (Opportunity_Normalize cfg o1) (map (score_dimension rnd (Opportunity_Normalize cfg o1) cfg) dimensionNames) cfg"
  by (simp add: Score_def Let_def)


section \<open>Weak evidence never builds\<close>

lemma max_strength_attained:
  "max_strength cfg cs = Fin 0 \<or> (\<exists>c \<in> set cs. max_strength cfg cs = strength cfg (cl_Label c))"
proof (induction cs rule: rev_induct)
  case Nil
  then show ?case by (simp add: max_strength_def)
next
  case (snoc c cs)
  then show ?case by (auto simp: max_strength_def Let_def)
qed

lemma NormalizeClaim_label:
  "cl_Label (NormalizeClaim cfg c) \<in> {LabelObserved, LabelInferred, LabelAssumed, LabelUnresolved}"
  "cl_Label c \<noteq> LabelObserved \<Longrightarrow> cl_Label (NormalizeClaim cfg c) \<noteq> LabelObserved"
  "cl_Label c \<notin> {LabelObserved, LabelInferred} \<Longrightarrow> cl_Label (NormalizeClaim cfg c) \<in> {LabelAssumed, LabelUnresolved}"
  by (auto simp: NormalizeClaim_def Let_def Label_Valid_def split: if_splits option.splits prod.splits)

text \<open>
  evidence that never exceeds an assumption never builds. When every claim is assumed,
  unresolved or labelled by an unknown word, and the configuration ranks these labels below an
  inference, the verdict is not \<open>BUILD\<close>, whatever the thresholds and the other figures are.
\<close>

theorem assumed_never_builds:
  assumes "list_all (\<lambda>v. f64_less (round2 rnd v) (strength cfg LabelInferred)) [Fin 0, strength cfg LabelAssumed, strength cfg LabelUnresolved]"
    and "list_all (\<lambda>c. cl_Label c \<noteq> LabelObserved \<and> cl_Label c \<noteq> LabelInferred) (op_Claims o1)"
  shows "fst (Opportunity_Decide (Score rnd o1 cfg) t) \<noteq> VerdictBuild"
proof
  assume "fst (Opportunity_Decide (Score rnd o1 cfg) t) = VerdictBuild"
  from Decide_build(2) [OF this]
  have "\<not> f64_less (round2 rnd (max_strength cfg (op_Claims (Opportunity_Normalize cfg o1)))) (strength cfg LabelInferred)"
    by (simp add: evidenceTooWeak_def Score_signals signals_of_def)
  moreover have "cl_Label c \<in> {LabelAssumed, LabelUnresolved}" if "c \<in> set (op_Claims (Opportunity_Normalize cfg o1))" for c
    using that assms(2) NormalizeClaim_label(3) by (auto simp: Opportunity_Normalize_def list_all_iff)
  ultimately have low: "\<not> f64_less (round2 rnd (max_strength cfg (op_Claims (Opportunity_Normalize cfg o1)))) (strength cfg LabelInferred)"
    and labels: "\<And>c. c \<in> set (op_Claims (Opportunity_Normalize cfg o1)) \<Longrightarrow> cl_Label c = LabelAssumed \<or> cl_Label c = LabelUnresolved"
    by blast+
  from max_strength_attained [of cfg "op_Claims (Opportunity_Normalize cfg o1)"] show False
  proof (elim disjE bexE)
    fix c
    assume c: "c \<in> set (op_Claims (Opportunity_Normalize cfg o1))"
      and m: "max_strength cfg (op_Claims (Opportunity_Normalize cfg o1)) = strength cfg (cl_Label c)"
    from labels [OF c] show False using low m assms(1) by (elim disjE) simp_all
  qed (use low assms(1) in simp)
qed

section \<open>The score stays in its range\<close>

text \<open>Rounding is monotone and exact on the integers that 53 bits hold.\<close>

definition ieee :: "rounding \<Rightarrow> bool" where
  "ieee rnd = ((\<forall>a b. a \<le> b \<longrightarrow> f64_le (rnd a) (rnd b)) \<and> (\<forall>k. \<bar>k\<bar> \<le> 2 ^ 53 \<longrightarrow> rnd (of_int k) = Fin (of_int k)))"

fun in_bounds :: "int \<Rightarrow> int \<Rightarrow> f64 \<Rightarrow> bool" where
  "in_bounds lo hi (Fin q) = (of_int lo \<le> q \<and> q \<le> of_int hi)"
| "in_bounds lo hi _ = False"

definition sane_config :: "opp_config \<Rightarrow> bool" where
  "sane_config cfg =
     (list_all (\<lambda>l. in_bounds 0 1 (strength cfg l)) all_labels
      \<and> list_all (\<lambda>dn. in_bounds 0 1 (weightFor (gc_Weights cfg) dn)) dimensionNames
      \<and> in_bounds 0 1 (wt_RiskPenalty (gc_Weights cfg)) \<and> in_bounds 0 1 (wt_CostPenalty (gc_Weights cfg))
      \<and> (case gc_ReferenceMVPBudgetUSD cfg of Fin r \<Rightarrow> 0 < r | _ \<Rightarrow> False))"

lemma in_boundsE: "in_bounds lo hi v \<Longrightarrow> (\<And>q. v = Fin q \<Longrightarrow> of_int lo \<le> q \<Longrightarrow> q \<le> of_int hi \<Longrightarrow> P) \<Longrightarrow> P"
  by (cases v) auto

lemma ieee_in_bounds:
  assumes "ieee rnd" and "of_int lo \<le> q" and "q \<le> of_int hi" and "\<bar>lo\<bar> \<le> 2 ^ 53" and "\<bar>hi\<bar> \<le> 2 ^ 53"
  shows "in_bounds lo hi (rnd q)"
proof -
  have "f64_le (Fin (of_int lo)) (rnd q)" "f64_le (rnd q) (Fin (of_int hi))"
    using assms unfolding ieee_def by metis+
  then show ?thesis by (cases "rnd q") (auto simp: f64_le_def f64_eq_def)
qed

lemma ieee_number: "ieee rnd \<Longrightarrow> rnd q \<noteq> NaN"
proof -
  assume "ieee rnd"
  then have "f64_le (rnd q) (rnd q)" by (simp add: ieee_def)
  then show ?thesis by (cases "rnd q") (simp_all add: f64_le_def f64_eq_def)
qed

lemma add_in_bounds:
  assumes "ieee rnd" and "in_bounds a b v" and "in_bounds c d w" and "\<bar>a + c\<bar> \<le> 2 ^ 53" and "\<bar>b + d\<bar> \<le> 2 ^ 53"
  shows "in_bounds (a + c) (b + d) (f64_add rnd v w)"
  using assms(2,3) by (elim in_boundsE) (auto intro!: ieee_in_bounds [OF assms(1)] assms(4,5) add_mono)

lemma mul_in_bounds:
  assumes "ieee rnd" and "in_bounds 0 b v" and "in_bounds 0 d w" and "0 \<le> b" and "b * d \<le> 2 ^ 53" and "0 \<le> d"
  shows "in_bounds 0 (b * d) (f64_mul rnd v w)"
  using assms(2,3) by (elim in_boundsE) (use assms in \<open>auto intro!: ieee_in_bounds [OF assms(1)] mult_mono mult_nonneg_nonneg\<close>)

lemma fold_in_bounds:
  assumes "ieee rnd" and "\<And>x. x \<in> set xs \<Longrightarrow> in_bounds 0 c (f x)" and "0 \<le> c" and "c * int (length xs) \<le> 2 ^ 53"
  shows "in_bounds 0 (c * int (length xs)) (foldl (\<lambda>s x. f64_add rnd s (f x)) (Fin 0) xs)"
  using assms(2,4)
proof (induction xs rule: rev_induct)
  case Nil
  then show ?case by simp
next
  case (snoc x xs)
  have "c * int (length xs) \<le> c * int (length (xs @ [x]))" using assms(3) by (simp add: algebra_simps)
  then have "in_bounds 0 (c * int (length xs)) (foldl (\<lambda>s x. f64_add rnd s (f x)) (Fin 0) xs)" using snoc by simp
  from add_in_bounds [OF assms(1) this snoc.prems(1) [of x]] show ?case using snoc.prems(2) assms(3) by (simp add: algebra_simps)
qed

lemma div_in_bounds:
  assumes "ieee rnd" and "in_bounds 0 (b * n) v" and "0 < n" and "0 \<le> b" and "b \<le> 2 ^ 53"
  shows "in_bounds 0 b (f64_div rnd v (Fin (of_int n)))"
  using assms(2)
proof (rule in_boundsE)
  fix q
  assume "v = Fin q" "of_int 0 \<le> q" "q \<le> of_int (b * n)"
  then show ?thesis using assms by (auto intro!: ieee_in_bounds [OF assms(1)] simp: divide_le_eq mult.commute)
qed

lemma round2_in_bounds:
  assumes "ieee rnd" and "in_bounds 0 100 v"
  shows "in_bounds 0 100 (round2 rnd v)"
proof -
  have "in_bounds 0 10000 (f64_mul rnd v (Fin 100))" using mul_in_bounds [OF assms, of 100 "Fin 100"] by simp
  then obtain q where q: "f64_mul rnd v (Fin 100) = Fin q" "0 \<le> q" "q \<le> 10000" by (auto elim: in_boundsE)
  have "0 \<le> round_away q" "round_away q \<le> 100 * 100" using q(2,3) by (simp_all add: round_away_def floor_le_iff)
  then have "in_bounds 0 (100 * 100) (f64_round (f64_mul rnd v (Fin 100)))" by (simp only: q(1) f64_round.simps in_bounds.simps of_int_le_iff)
  then show ?thesis unfolding round2_def using div_in_bounds [OF assms(1), of 100 100] by simp
qed

lemma sane_strength:
  assumes "sane_config cfg"
  shows "in_bounds 0 1 (strength cfg (cl_Label (NormalizeClaim cfg c)))"
  using assms NormalizeClaim_label(1) [of cfg c] by (auto simp: sane_config_def all_labels_def)

lemma mean_in_bounds:
  assumes "ieee rnd" and "\<And>c. c \<in> set cs \<Longrightarrow> in_bounds 0 1 (strength cfg (cl_Label c))" and "cs \<noteq> []" and "length cs \<le> 2 ^ 53"
  shows "in_bounds 0 1 (mean_strength rnd cfg cs)"
proof -
  have n: "int (length cs) \<le> 2 ^ 53" using assms(4) by (metis of_nat_le_iff of_nat_numeral of_nat_power)
  have "in_bounds 0 (1 * int (length cs)) (foldl (\<lambda>s c. f64_add rnd s (strength cfg (cl_Label c))) (Fin 0) cs)"
    by (rule fold_in_bounds [OF assms(1,2)]) (use n in simp_all)
  from div_in_bounds [OF assms(1) this] show ?thesis using assms(3) by (simp add: mean_strength_def)
qed

lemma subscore_in_bounds:
  assumes "ieee rnd" and "sane_config cfg" and "length (op_Claims o1) \<le> 2 ^ 53"
  shows "in_bounds 0 100 (fst (dimensionSubscore rnd (op_Claims (Opportunity_Normalize cfg o1)) sources cfg))"
proof -
  let ?used = "filter (\<lambda>c. cl_Kind c \<in> set (sort sources)) (op_Claims (Opportunity_Normalize cfg o1))"
  have len: "length ?used \<le> 2 ^ 53"
    using assms(3) length_filter_le [of _ "op_Claims (Opportunity_Normalize cfg o1)"]
    by (metis (no_types, lifting) Opportunity_Normalize_def length_map le_trans opportunity.select_convs(3) opportunity.surjective opportunity.update_convs(3))
  show ?thesis
  proof (cases "?used = []")
    case False
    have "in_bounds 0 1 (mean_strength rnd cfg ?used)"
      by (rule mean_in_bounds [OF assms(1) _ False len]) (auto simp: Opportunity_Normalize_def intro: sane_strength [OF assms(2)])
    from mul_in_bounds [OF assms(1) this, of 100 "Fin 100"] show ?thesis using False by (simp add: dimensionSubscore_def Let_def)
  qed (simp add: dimensionSubscore_def)
qed

lemma weighted_in_bounds:
  assumes "ieee rnd" and "sane_config cfg" and "length (op_Claims o1) \<le> 2 ^ 53"
  shows "in_bounds 0 700 (weightedPositive rnd (Opportunity_Normalize cfg o1) cfg)"
proof -
  have "in_bounds 0 (100 * int (length dimensionNames)) (weightedPositive rnd (Opportunity_Normalize cfg o1) cfg)"
    unfolding weightedPositive_def
  proof (rule fold_in_bounds [OF assms(1)])
    fix dn
    assume "dn \<in> set dimensionNames"
    then have w: "in_bounds 0 1 (weightFor (gc_Weights cfg) dn)" using assms(2) by (simp add: sane_config_def list_all_iff)
    show "in_bounds 0 100 (f64_mul rnd (weightFor (gc_Weights cfg) dn)
        (fst (dimensionSubscore rnd (op_Claims (Opportunity_Normalize cfg o1)) (case gc_DimensionSources cfg dn of Some s \<Rightarrow> s | None \<Rightarrow> []) cfg)))"
      using mul_in_bounds [OF assms(1) w subscore_in_bounds [OF assms]] by simp
  qed (simp_all add: dimensionNames_def)
  then show ?thesis by (simp add: dimensionNames_def)
qed

lemma risk_in_bounds:
  assumes "ieee rnd" and "sane_config cfg" and "length (op_Claims o1) \<le> 2 ^ 53"
  shows "in_bounds 0 100 (penaltyRisk rnd (op_Claims (Opportunity_Normalize cfg o1)) cfg)"
proof (cases "filter (\<lambda>c. cl_Kind c = KindRisk) (op_Claims (Opportunity_Normalize cfg o1)) = []")
  case False
  have len: "length (filter (\<lambda>c. cl_Kind c = KindRisk) (op_Claims (Opportunity_Normalize cfg o1))) \<le> 2 ^ 53"
    using assms(3) by (auto simp: Opportunity_Normalize_def intro: le_trans [OF length_filter_le])
  have m: "in_bounds 0 1 (mean_strength rnd cfg (filter (\<lambda>c. cl_Kind c = KindRisk) (op_Claims (Opportunity_Normalize cfg o1))))"
    by (rule mean_in_bounds [OF assms(1) _ False len]) (auto simp: Opportunity_Normalize_def intro: sane_strength [OF assms(2)])
  have w: "in_bounds 0 1 (wt_RiskPenalty (gc_Weights cfg))" using assms(2) by (simp add: sane_config_def)
  from mul_in_bounds [OF assms(1) mul_in_bounds [OF assms(1) w m], of 100 "Fin 100"] show ?thesis
    using False by (simp add: penaltyRisk_def Let_def)
qed (simp add: penaltyRisk_def)

lemma clamp_in_bounds: "v \<noteq> NaN \<Longrightarrow> lo \<le> hi \<Longrightarrow> in_bounds lo hi (clamp v (Fin (of_int lo)) (Fin (of_int hi)))"
  by (cases v) (auto simp: clamp_def)

lemma cost_in_bounds:
  assumes "ieee rnd" and "sane_config cfg" and "op_EstimatedValidationCostUSD o1 \<noteq> NaN"
  shows "in_bounds 0 100 (penaltyCost rnd o1 cfg)"
proof -
  obtain r where r: "gc_ReferenceMVPBudgetUSD cfg = Fin r" "0 < r"
    using assms(2) by (auto simp: sane_config_def split: f64.splits)
  have "f64_div rnd (op_EstimatedValidationCostUSD o1) (Fin r) \<noteq> NaN"
    using assms(3) ieee_number [OF assms(1)] by (cases "op_EstimatedValidationCostUSD o1") simp_all
  from clamp_in_bounds [OF this, of 0 1]
  have "in_bounds 0 1 (clamp (f64_div rnd (op_EstimatedValidationCostUSD o1) (Fin r)) (Fin 0) (Fin 1))" by simp
  from mul_in_bounds [OF assms(1) mul_in_bounds [OF assms(1) _ this], of 1 _ 100 "Fin 100"] show ?thesis
    using assms(2) r by (simp add: penaltyCost_def sane_config_def f64_le_def f64_eq_def Let_def)
qed

lemma sub_number:
  assumes "ieee rnd" and "in_bounds a b v" and "in_bounds c d w" and "\<bar>a - d\<bar> \<le> 2 ^ 53" and "\<bar>b - c\<bar> \<le> 2 ^ 53"
  shows "in_bounds (a - d) (b - c) (f64_sub rnd v w)"
proof -
  have "in_bounds (- d) (- c) (f64_neg w)" using assms(3) by (elim in_boundsE) simp
  from add_in_bounds [OF assms(1,2) this] show ?thesis using assms(4,5) by (simp add: f64_sub_def)
qed

text \<open>
  C26: under a configuration with strengths and weights between 0 and 1 and a positive reference budget,
  and for an estimated cost that is a number, every subscore and the total score are numbers between
  0 and 100, whatever the rounding of the processor does to the intermediate results.
\<close>

theorem Score_bounded:
  assumes "ieee rnd" and "sane_config cfg" and "op_EstimatedValidationCostUSD o1 \<noteq> NaN" and "length (op_Claims o1) \<le> 2 ^ 53"
  shows "in_bounds 0 100 (sk_Total (Score rnd o1 cfg)) \<and> list_all (\<lambda>d. in_bounds 0 100 (dm_Subscore d)) (sk_Dimensions (Score rnd o1 cfg))"
proof
  let ?n = "Opportunity_Normalize cfg o1"
  have cost: "in_bounds 0 100 (penaltyCost rnd ?n cfg)"
    using cost_in_bounds [OF assms(1,2), of ?n] assms(3) by (simp add: Opportunity_Normalize_def)
  have "in_bounds (- 100) 700 (f64_sub rnd (weightedPositive rnd ?n cfg) (penaltyRisk rnd (op_Claims ?n) cfg))"
    using sub_number [OF assms(1) weighted_in_bounds [OF assms(1,2,4)] risk_in_bounds [OF assms(1,2,4)]] by simp
  from sub_number [OF assms(1) this cost]
  have "f64_sub rnd (f64_sub rnd (weightedPositive rnd ?n cfg) (penaltyRisk rnd (op_Claims ?n) cfg)) (penaltyCost rnd ?n cfg) \<noteq> NaN"
    by (auto elim: in_boundsE)
  from round2_in_bounds [OF assms(1)] clamp_in_bounds [OF this, of 0 100]
  show "in_bounds 0 100 (sk_Total (Score rnd o1 cfg))" by (simp add: Score_def Let_def)
  show "list_all (\<lambda>d. in_bounds 0 100 (dm_Subscore d)) (sk_Dimensions (Score rnd o1 cfg))"
    using round2_in_bounds [OF assms(1)] subscore_in_bounds [OF assms(1,2,4)]
    by (auto simp: Score_def Let_def list_all_iff score_dimension_def split: prod.splits) (metis fst_conv)
qed

section \<open>Normal form of a claim\<close>

lemma find_left_after_trim: "find (\<lambda>w. has_prefix (trim_left_space s) w) space_seqs = None"
proof (induction s rule: trim_left_space.induct)
  case (1 s)
  then show ?case by (cases "find (\<lambda>w. has_prefix s w) space_seqs") (simp_all add: trim_left_space.simps [of s])
qed

lemma find_right_after_trim: "find (\<lambda>w. has_suffix (trim_right_space s) w) space_seqs = None"
proof (induction s rule: trim_right_space.induct)
  case (1 s)
  then show ?case by (cases "find (\<lambda>w. has_suffix s w) space_seqs") (simp_all add: trim_right_space.simps [of s])
qed

lemma trim_right_prefix: "\<exists>t. s = trim_right_space s @ t"
proof (induction s rule: trim_right_space.induct)
  case (1 s)
  show ?case
  proof (cases "find (\<lambda>w. has_suffix s w) space_seqs")
    case (Some w)
    then obtain t where "take (length s - length w) s = trim_right_space s @ t" using 1 by (auto simp: trim_right_space.simps [of s])
    then show ?thesis by (metis append.assoc append_take_drop_id)
  qed (simp add: trim_right_space.simps [of s])
qed

lemma trim_space_idem: "trim_space (trim_space s) = trim_space s"
proof -
  let ?l = "trim_left_space s" and ?t = "trim_right_space (trim_left_space s)"
  obtain u where u: "?l = ?t @ u" using trim_right_prefix by blast
  have "find (\<lambda>w. has_prefix ?t w) space_seqs = None"
    using find_left_after_trim [of s] u by (auto simp: find_None_iff has_prefix_iff)
  then have "trim_left_space ?t = ?t" by (simp add: trim_left_space.simps [of ?t])
  moreover have "trim_right_space ?t = ?t" using find_right_after_trim [of ?l] by (simp add: trim_right_space.simps [of ?t])
  ultimately show ?thesis by (simp add: trim_space_def)
qed

text \<open>
  Normalising twice is normalising once, as long as the configured bases carry no white space
  around them.
\<close>

lemma synthesized_trimmed: "trim_space ''synthesized'' = ''synthesized''"
  by code_simp

definition normal_claim :: "claim \<Rightarrow> bool" where
  "normal_claim c =
     (trim_space (cl_Text c) = cl_Text c \<and> trim_space (cl_Basis c) = cl_Basis c \<and> trim_space (cl_SourceRef c) = cl_SourceRef c
      \<and> Label_Valid (cl_Label c) \<and> cl_Basis c \<noteq> [] \<and> (cl_Label c \<noteq> LabelObserved \<or> cl_SourceRef c \<noteq> []))"

lemma normal_claim_fixed: "normal_claim c \<Longrightarrow> NormalizeClaim cfg c = c"
  by (auto simp: normal_claim_def NormalizeClaim_def Let_def)

lemma NormalizeClaim_normal:
  assumes "\<And>k b. gc_AssumedBasis cfg k = Some b \<Longrightarrow> trim_space b = b"
  shows "normal_claim (NormalizeClaim cfg c)"
proof -
  define l1 where "l1 = (if Label_Valid (cl_Label c) then cl_Label c else LabelUnresolved)"
  define l2 where "l2 = (if l1 = LabelObserved \<and> trim_space (cl_SourceRef c) = [] then LabelInferred else l1)"
  define p where "p = (if l2 = LabelAssumed \<and> trim_space (cl_Basis c) = [] then
      (case gc_AssumedBasis cfg (cl_Kind c) of
         Some b \<Rightarrow> if trim_space b \<noteq> [] then (l2, b) else (LabelUnresolved, trim_space (cl_Basis c))
       | None \<Rightarrow> (LabelUnresolved, trim_space (cl_Basis c)))
    else (l2, trim_space (cl_Basis c)))"
  have l2: "Label_Valid l2" "l2 = LabelObserved \<Longrightarrow> trim_space (cl_SourceRef c) \<noteq> []"
    by (simp add: l1_def l2_def Label_Valid_def) (auto simp: l2_def split: if_splits)
  have p: "Label_Valid (fst p)" "fst p = LabelObserved \<Longrightarrow> trim_space (cl_SourceRef c) \<noteq> []"
      "trim_space (snd p) = snd p" "fst p = LabelAssumed \<Longrightarrow> snd p \<noteq> []"
    using l2 assms [of "cl_Kind c"] trim_space_idem [of "cl_Basis c"]
    by (auto simp: p_def Label_Valid_def split: option.splits if_splits)
  have "NormalizeClaim cfg c = c\<lparr>cl_Text := trim_space (cl_Text c), cl_Basis := (if fst p \<noteq> LabelAssumed \<and> snd p = [] then ''synthesized'' else snd p),
      cl_SourceRef := trim_space (cl_SourceRef c), cl_Label := fst p\<rparr>"
    unfolding NormalizeClaim_def Let_def p_def l2_def l1_def by (simp only: case_prod_beta)
  then show ?thesis using p by (auto simp: normal_claim_def trim_space_idem synthesized_trimmed)
qed

theorem NormalizeClaim_idem:
  assumes "\<And>k b. gc_AssumedBasis cfg k = Some b \<Longrightarrow> trim_space b = b"
  shows "NormalizeClaim cfg (NormalizeClaim cfg c) = NormalizeClaim cfg c"
  using normal_claim_fixed [OF NormalizeClaim_normal [OF assms]] .

section \<open>The gate at work\<close>

definition sample_weights :: weights where
  "sample_weights = \<lparr>wt_PainSeverity = Fin (25 / 100), wt_WTPEvidence = Fin (20 / 100), wt_ReachableDistribution = Fin (15 / 100),
     wt_FounderFit = Fin (15 / 100), wt_SpeedToMVP = Fin (10 / 100), wt_RecurringRevenue = Fin (10 / 100),
     wt_Defensibility = Fin (5 / 100), wt_RiskPenalty = Fin (15 / 100), wt_CostPenalty = Fin (10 / 100)\<rparr>"

definition sample_thresholds :: "rat \<Rightarrow> thresholds" where
  "sample_thresholds limit = \<lparr>th_MinimumTotalScore = Fin 75, th_MinimumDistributionScore = Fin 65, th_MinimumPaymentEvidenceScore = Fin 60,
     th_MustHaveRealValidationSignal = True, th_MaximumMVPBudgetUSD = Fin limit, th_MaximumActiveBuilds = 1,
     th_ValidateMoreMinScore = Fin 50, th_WeakMarginFloor = Fin 20, th_MaxVerdictAgeHours = 168, th_ValidationCostCapUSD = Fin 150\<rparr>"

definition sample_opp_config :: "rat \<Rightarrow> opp_config" where
  "sample_opp_config limit = \<lparr>gc_Version = ''v1'', gc_Weights = sample_weights,
     gc_DimensionSources = map_of [(dimPainSeverity, [KindProblem]), (dimWTPEvidence, [KindWTP]), (dimReachableDistribution, [KindDistribution]),
       (dimFounderFit, [KindMarket]), (dimSpeedToMVP, [KindMarket]), (dimRecurringRevenue, [KindWTP]), (dimDefensibility, [KindCompetitor])],
     gc_LabelStrength = map_of [(LabelObserved, Fin 1), (LabelInferred, Fin (6 / 10)), (LabelAssumed, Fin (3 / 10)), (LabelUnresolved, Fin 0)],
     gc_Thresholds = sample_thresholds limit, gc_AssumedBasis = map_of [], gc_ReferenceMVPBudgetUSD = Fin 150,
     gc_PlatformPolicyMarkers = [], gc_ValuePropAIMarkers = []\<rparr>"

definition sample_claim :: "claim_kind \<Rightarrow> claim" where
  "sample_claim k = \<lparr>cl_Kind = k, cl_Text = [], cl_Label = LabelObserved, cl_Basis = ''b'', cl_SourceRef = ''r'', cl_ObservedAt = None, cl_Untrusted = False\<rparr>"

definition sample_icp :: icp where
  "sample_icp = \<lparr>ic_Segment = [], ic_Role = [], ic_EconomicBuyer = [], ic_ReachableChannels = [\<lparr>ch_Name = ''c'', ch_Kind = [], ch_Reachable = True\<rparr>]\<rparr>"

definition sample_codec :: "rat \<Rightarrow> opp_codec" where
  "sample_codec limit = \<lparr>oj_icp = (\<lambda>_. Some []), oj_icp_of = (\<lambda>_. Some sample_icp), oj_strings = (\<lambda>_. Some []), oj_strings_of = (\<lambda>_. Some []),
     oj_card = (\<lambda>_. Some []),
     oj_card_of = (\<lambda>_. Some (Score Fin \<lparr>op_Idea = \<lparr>dd_ID = [], dd_Statement = [], dd_SubmittedBy = [], dd_SubmittedAt = None, dd_Source = []\<rparr>,
        op_ICP = sample_icp, op_Claims = [], op_EstimatedValidationCostUSD = Fin 0, op_MVPBudgetUSD = Fin 0, op_MaxActiveBuilds = 1, op_RealValidationSignal = False\<rparr> (sample_opp_config limit))),
     oj_limits = (\<lambda>_. Some []), oj_limits_of = (\<lambda>_. Some (sample_thresholds limit)),
     oj_canonical = (\<lambda>_. Some []), oj_canonical_limits = (\<lambda>_. Some [])\<rparr>"

definition sample_opp_db :: "rat \<Rightarrow> opp_db" where
  "sample_opp_db budget =
     \<lparr>xd_opportunities = [\<lparr>xw_id = ''o'', xw_idea = \<lparr>dd_ID = ''o'', dd_Statement = [], dd_SubmittedBy = [], dd_SubmittedAt = None, dd_Source = []\<rparr>,
        xw_icp = [], xw_cost = Fin 15, xw_budget = Fin budget, xw_active = 1, xw_signal = True, xw_created = 0\<rparr>],
      xd_evidence = map (\<lambda>k. (''o'', sample_claim k)) [KindProblem, KindWTP, KindDistribution, KindMarket, KindCompetitor],
      xd_scores = [],
      xd_verdicts = [\<lparr>vd_id = ''verdict-1'', vd_opportunity = ''o'', vd_verdict = ''BUILD'', vd_unmet = [], vd_scorecard_digest = [],
        vd_thresholds_digest = [], vd_config_version = ''v1'', vd_scorecard = [], vd_thresholds = [], vd_created = 0\<rparr>]\<rparr>"

definition quiet_env :: opp_env where
  "quiet_env = \<lparr>oe_rand = Some ''1'', oe_now = 0, oe_fault = False\<rparr>"

definition sample_gate :: "rat \<Rightarrow> rat \<Rightarrow> rat \<Rightarrow> gate_error + gate_output" where
  "sample_gate limit budget envelope =
     RequireBuildVerdict Fin (sample_codec limit) (\<lambda>s. s)
       (Some (LatestVerdict (sample_codec limit) quiet_env (sample_opp_db budget), LoadOpportunity (sample_codec limit) quiet_env (sample_opp_db budget)))
       (sample_opp_config limit) None (Some (\<lambda>_. Some True)) 7 \<lparr>gq_OpportunityID = ''o'', gq_MissionEnvelopeUSD = Fin envelope\<rparr>"

definition allows :: "gate_error + gate_output \<Rightarrow> bool" where
  "allows res = (case res of Inr out \<Rightarrow> gr_Allowed out | Inl _ \<Rightarrow> False)"

lemma sample_gate_allows: "allows (sample_gate 150 120 200)"
  by code_simp


lemma exact_rounding: "ieee Fin"
  by (simp add: ieee_def f64_le_def f64_eq_def order_le_less)

lemma sample_config_sane: "sane_config (sample_opp_config 150)"
  by code_simp

definition guess :: opportunity where
  "guess = \<lparr>op_Idea = \<lparr>dd_ID = [], dd_Statement = [], dd_SubmittedBy = [], dd_SubmittedAt = None, dd_Source = []\<rparr>, op_ICP = sample_icp,
     op_Claims = [(sample_claim KindWTP)\<lparr>cl_Label := LabelAssumed\<rparr>, (sample_claim KindMarket)\<lparr>cl_Label := ''Certain''\<rparr>],
     op_EstimatedValidationCostUSD = Fin 15, op_MVPBudgetUSD = Fin 100, op_MaxActiveBuilds = 1, op_RealValidationSignal = True\<rparr>"

theorem assumed_never_builds_witness:
  "fst (Opportunity_Decide (Score Fin guess (sample_opp_config 150)) (sample_thresholds 150)) \<noteq> VerdictBuild"
proof (rule assumed_never_builds)
  show "list_all (\<lambda>v. f64_less (round2 Fin v) (strength (sample_opp_config 150) LabelInferred))
      [Fin 0, strength (sample_opp_config 150) LabelAssumed, strength (sample_opp_config 150) LabelUnresolved]"
    by code_simp
qed (simp add: guess_def sample_claim_def)

theorem Score_bounded_witness:
  "in_bounds 0 100 (sk_Total (Score Fin guess (sample_opp_config 150)))"
  using Score_bounded [OF exact_rounding sample_config_sane, of guess] by (simp add: guess_def)

theorem NormalizeClaim_idem_witness:
  "NormalizeClaim (sample_opp_config 150) (NormalizeClaim (sample_opp_config 150) (sample_claim KindWTP))
     = NormalizeClaim (sample_opp_config 150) (sample_claim KindWTP)"
  by (rule NormalizeClaim_idem) (simp add: sample_opp_config_def)

section \<open>Where the code and its comments part\<close>

text \<open>
  A configured basis is stored as it is, with the white space around it, which the next
  normalisation removes: normalisation as such is not idempotent.
\<close>

definition spaced_config :: opp_config where
  "spaced_config = (sample_opp_config 150)\<lparr>gc_AssumedBasis := map_of [(KindWTP, '' policy'')]\<rparr>"

theorem NormalizeClaim_not_idempotent:
  "NormalizeClaim spaced_config (NormalizeClaim spaced_config ((sample_claim KindWTP)\<lparr>cl_Label := LabelAssumed, cl_Basis := []\<rparr>))
     \<noteq> NormalizeClaim spaced_config ((sample_claim KindWTP)\<lparr>cl_Label := LabelAssumed, cl_Basis := []\<rparr>)"
  by code_simp

text \<open>
  A threshold that is not a number blocks nothing, and the validation of the configuration does not
  look at the thresholds: an unevaluable threshold lets a build through instead of rejecting it.
\<close>

theorem nan_threshold_blocks_nothing:
  "unmet_thresholds sc (t\<lparr>th_MinimumTotalScore := NaN, th_MinimumDistributionScore := NaN, th_MinimumPaymentEvidenceScore := NaN,
       th_MustHaveRealValidationSignal := False, th_MaximumMVPBudgetUSD := NaN\<rparr>) = []
   \<and> Config_validate (cfg\<lparr>gc_Thresholds := t'\<rparr>) = Config_validate cfg"
  by (simp add: unmet_thresholds_def Config_validate_def Let_def cong: option.case_cong)

text \<open>
  A maximal budget of 0 means no limit to the verdict and the smallest limit to the gate: a build
  of a million dollars fits an envelope of fifty.
\<close>

theorem unlimited_budget_fits_envelope: "allows (sample_gate 0 1000000 50)"
  by code_simp

end
