(* ===== verification/Intake.thy ===== *)
theory Intake
  imports Opportunity Admission
begin

text \<open>
  The intake of an idea, package \<open>internal/intake\<close>: a run goes through ordered stages, from the
  recorded idea over the opportunity verdict, the specification, the plan, its admission and
  approval to the start of a mission (\<open>pipeline.go\<close>, \<open>stages.go\<close>, \<open>types.go\<close>). Each completed stage is
  recorded once per run in a store (\<open>store.go\<close>, \<open>store_pg.go\<close>, migration \<open>00026\<close>), and a recorded
  stage is not run again. The adapters of \<open>adapters.go\<close>, \<open>production.go\<close> and \<open>local.go\<close> that decide
  something are modelled too.

  What the seams of the pipeline answer is an input of a call; the calls made to them are its
  output. A mission is started only on a plan that was generated, admitted without the need of
  a strong authentication and approved as it is, and a seam that has succeeded is called again
  only when the record of its success was lost. JSON and SHA-256 are parameters; clocks are left
  out, since no decision reads them.
\<close>

section \<open>Runs and stages\<close>

datatype stage =
    StageIdeaRecorded | StageOpportunityValidated | StageSpecSynthesized | StagePlanGenerated | StageAdmitted
  | StageApproved | StageMissionStarted | StageOpportunityRejected | StageOpportunityValidationRequired
  | StageAwaitingStrongAuth | StageAwaitingReadiness

definition forwardStages :: "stage list" where
  "forwardStages = [StageIdeaRecorded, StageOpportunityValidated, StageSpecSynthesized, StagePlanGenerated, StageAdmitted,
     StageApproved, StageMissionStarted]"

datatype run_status = StatusRunRunning | StatusRunDone | StatusRunPaused

record caps =
  kp_EnvelopeUSD :: f64
  kp_ResearchCapUSD :: f64
  kp_MVPCapUSD :: f64

text \<open>The constant 0.2, as the nearest \<open>float64\<close>.\<close>

definition DefaultResearchFraction :: "rounding \<Rightarrow> f64" where
  "DefaultResearchFraction rnd = rnd (1 / 5)"

definition CapsFromBudget :: "rounding \<Rightarrow> f64 \<Rightarrow> caps" where
  "CapsFromBudget rnd envelopeUSD =
     (if f64_le envelopeUSD (Fin 0) then \<lparr>kp_EnvelopeUSD = Fin 0, kp_ResearchCapUSD = Fin 0, kp_MVPCapUSD = Fin 0\<rparr>
      else (let research = f64_mul rnd envelopeUSD (DefaultResearchFraction rnd) in
            \<lparr>kp_EnvelopeUSD = envelopeUSD, kp_ResearchCapUSD = research, kp_MVPCapUSD = f64_sub rnd envelopeUSD research\<rparr>))"

record origin =
  rg_Channel :: string
  rg_PrincipalID :: string
  rg_ChatID :: int
  rg_MessageHash :: string

record intake_run =
  nr_ID :: string
  nr_Idea :: string
  nr_Caps :: caps
  nr_Origin :: origin
  nr_CurrentStage :: stage
  nr_Status :: run_status
  nr_SpentUSD :: f64
  nr_MissionID :: string

record stage_record =
  st_RunID :: string
  st_Stage :: stage
  st_InputDigest :: string
  st_Output :: string
  st_CostUSD :: f64

datatype intake_error =
    ErrIdeaRequired | ErrIntakeRandom | ErrRunNotFound | ErrRunExists | IntakeDB | NoEnvelope | BreachesEnvelope
  | SeamFailed stage string | UnknownVerdict string | OutputMissing stage | DecodeOutput stage | EncodeOrigin | PanicMarshal

section \<open>The store\<close>

text \<open>
  The interface \<open>Store\<close>. A write that reports a failure may have been done or not.
\<close>

datatype io_fault = IoOk | IoFailed | IoLost

record intake_store =
  is_runs :: "(string \<times> intake_run) list"
  is_stages :: "((string \<times> stage) \<times> stage_record) list"

record 's store_ops =
  sp_CreateRun :: "io_fault \<Rightarrow> 's \<Rightarrow> intake_run \<Rightarrow> intake_error option \<times> 's"
  sp_GetRun :: "io_fault \<Rightarrow> 's \<Rightarrow> string \<Rightarrow> intake_error + intake_run"
  sp_UpdateRun :: "io_fault \<Rightarrow> 's \<Rightarrow> intake_run \<Rightarrow> intake_error option \<times> 's"
  sp_RecordStage :: "io_fault \<Rightarrow> 's \<Rightarrow> stage_record \<Rightarrow> intake_error option \<times> 's"
  sp_GetStage :: "io_fault \<Rightarrow> 's \<Rightarrow> string \<Rightarrow> stage \<Rightarrow> intake_error + stage_record option"

text \<open>
  \<open>MemStore\<close>. Its calls do not fail by themselves; the map of stages of a run exists exactly when
  the run does.
\<close>

definition MemStore_CreateRun :: "io_fault \<Rightarrow> intake_store \<Rightarrow> intake_run \<Rightarrow> intake_error option \<times> intake_store" where
  "MemStore_CreateRun f s r =
     (if map_of (is_runs s) (nr_ID r) \<noteq> None then (Some ErrRunExists, s)
      else (None, s\<lparr>is_runs := (nr_ID r, r) # is_runs s, is_stages := filter (\<lambda>((i, _), _). i \<noteq> nr_ID r) (is_stages s)\<rparr>))"

definition MemStore_GetRun :: "io_fault \<Rightarrow> intake_store \<Rightarrow> string \<Rightarrow> intake_error + intake_run" where
  "MemStore_GetRun f s runID = (case map_of (is_runs s) runID of None \<Rightarrow> Inl ErrRunNotFound | Some r \<Rightarrow> Inr r)"

definition MemStore_UpdateRun :: "io_fault \<Rightarrow> intake_store \<Rightarrow> intake_run \<Rightarrow> intake_error option \<times> intake_store" where
  "MemStore_UpdateRun f s r =
     (case map_of (is_runs s) (nr_ID r) of None \<Rightarrow> (Some ErrRunNotFound, s)
      | Some _ \<Rightarrow> (None, s\<lparr>is_runs := (nr_ID r, r) # is_runs s\<rparr>))"

definition put_stage :: "intake_store \<Rightarrow> stage_record \<Rightarrow> intake_store" where
  "put_stage s rec =
     (case map_of (is_stages s) (st_RunID rec, st_Stage rec) of
        Some _ \<Rightarrow> s
      | None \<Rightarrow> s\<lparr>is_stages := ((st_RunID rec, st_Stage rec), rec) # is_stages s\<rparr>)"

definition MemStore_RecordStage :: "io_fault \<Rightarrow> intake_store \<Rightarrow> stage_record \<Rightarrow> intake_error option \<times> intake_store" where
  "MemStore_RecordStage f s rec =
     (case map_of (is_runs s) (st_RunID rec) of None \<Rightarrow> (Some ErrRunNotFound, s) | Some _ \<Rightarrow> (None, put_stage s rec))"

definition MemStore_GetStage :: "io_fault \<Rightarrow> intake_store \<Rightarrow> string \<Rightarrow> stage \<Rightarrow> intake_error + stage_record option" where
  "MemStore_GetStage f s runID stg =
     (case map_of (is_runs s) runID of None \<Rightarrow> Inl ErrRunNotFound | Some _ \<Rightarrow> Inr (map_of (is_stages s) (runID, stg)))"

definition MemStore :: "intake_store store_ops" where
  "MemStore = \<lparr>sp_CreateRun = MemStore_CreateRun, sp_GetRun = MemStore_GetRun, sp_UpdateRun = MemStore_UpdateRun,
     sp_RecordStage = MemStore_RecordStage, sp_GetStage = MemStore_GetStage\<rparr>"

text \<open>
  \<open>PGStore\<close>. The origin is written as \<open>JSONB\<close>: \<open>jsonb\<close> is what is read back of it, \<^const>\<open>None\<close> when
  it cannot be encoded. An update changes the mutable columns only. A stage row refers to a run.
\<close>

definition pg_write :: "io_fault \<Rightarrow> 's \<Rightarrow> 's \<Rightarrow> intake_error option \<times> 's" where
  "pg_write f s s' = (case f of IoOk \<Rightarrow> (None, s') | IoFailed \<Rightarrow> (Some IntakeDB, s) | IoLost \<Rightarrow> (Some IntakeDB, s'))"

definition PGStore_CreateRun ::
  "(origin \<Rightarrow> origin option) \<Rightarrow> io_fault \<Rightarrow> intake_store \<Rightarrow> intake_run \<Rightarrow> intake_error option \<times> intake_store" where
  "PGStore_CreateRun jsonb f s r =
     (case jsonb (nr_Origin r) of
        None \<Rightarrow> (Some EncodeOrigin, s)
      | Some og \<Rightarrow>
          if map_of (is_runs s) (nr_ID r) \<noteq> None then (Some IntakeDB, s)
          else pg_write f s (s\<lparr>is_runs := (nr_ID r, r\<lparr>nr_Origin := og\<rparr>) # is_runs s\<rparr>))"

definition PGStore_GetRun :: "io_fault \<Rightarrow> intake_store \<Rightarrow> string \<Rightarrow> intake_error + intake_run" where
  "PGStore_GetRun f s runID =
     (if f \<noteq> IoOk then Inl IntakeDB else case map_of (is_runs s) runID of None \<Rightarrow> Inl ErrRunNotFound | Some r \<Rightarrow> Inr r)"

definition PGStore_UpdateRun :: "io_fault \<Rightarrow> intake_store \<Rightarrow> intake_run \<Rightarrow> intake_error option \<times> intake_store" where
  "PGStore_UpdateRun f s r =
     (case map_of (is_runs s) (nr_ID r) of
        None \<Rightarrow> (Some (if f = IoOk then ErrRunNotFound else IntakeDB), s)
      | Some old \<Rightarrow>
          pg_write f s (s\<lparr>is_runs := (nr_ID r, old\<lparr>nr_CurrentStage := nr_CurrentStage r, nr_Status := nr_Status r,
            nr_SpentUSD := nr_SpentUSD r, nr_MissionID := nr_MissionID r\<rparr>) # is_runs s\<rparr>))"

definition PGStore_RecordStage :: "io_fault \<Rightarrow> intake_store \<Rightarrow> stage_record \<Rightarrow> intake_error option \<times> intake_store" where
  "PGStore_RecordStage f s rec =
     (case map_of (is_runs s) (st_RunID rec) of None \<Rightarrow> (Some IntakeDB, s) | Some _ \<Rightarrow> pg_write f s (put_stage s rec))"

definition PGStore_GetStage :: "io_fault \<Rightarrow> intake_store \<Rightarrow> string \<Rightarrow> stage \<Rightarrow> intake_error + stage_record option" where
  "PGStore_GetStage f s runID stg = (if f \<noteq> IoOk then Inl IntakeDB else Inr (map_of (is_stages s) (runID, stg)))"

definition PGStore :: "(origin \<Rightarrow> origin option) \<Rightarrow> intake_store store_ops" where
  "PGStore jsonb = \<lparr>sp_CreateRun = PGStore_CreateRun jsonb, sp_GetRun = PGStore_GetRun, sp_UpdateRun = PGStore_UpdateRun,
     sp_RecordStage = PGStore_RecordStage, sp_GetStage = PGStore_GetStage\<rparr>"

section \<open>The seams\<close>

record validate_output =
  vl_Verdict :: string
  vl_Blockers :: "string list"
  vl_NextActions :: "string list"
  vl_SpentUSD :: f64
  vl_Digest :: string

record synth_output =
  sy_SpecJSON :: string
  sy_Digest :: string

record plan_gen_input =
  gi2_RunID :: string
  gi2_PlanID :: string
  gi2_Title :: string
  gi2_SpecJSON :: string
  gi2_EnvelopeUSD :: f64

record plan_output =
  pz_PlanID :: string
  pz_PlanBytes :: string

record admit_output =
  aq_Tier :: string
  aq_PolicyDigest :: string
  aq_RequiresStrongAuth :: bool

datatype approve_answer = Approved string | StrongAuthRequired | ApproveFailed string

record readiness_output =
  ry_Ready :: bool
  ry_Missing :: "string list"
  ry_ArtifactRef :: string

text \<open>The answers of the seams during one call of the pipeline; an error is its text.\<close>

record seams =
  sm_Admit :: "string \<Rightarrow> caps \<Rightarrow> f64 \<Rightarrow> f64 \<Rightarrow> intake_error option"
  sm_Validate :: "string \<Rightarrow> string \<Rightarrow> f64 \<Rightarrow> string + validate_output"
  sm_Synthesize :: "string \<Rightarrow> string \<Rightarrow> string + synth_output"
  sm_Generate :: "plan_gen_input \<Rightarrow> string + plan_output"
  sm_Classify :: "string \<Rightarrow> string \<Rightarrow> string + admit_output"
  sm_Approve :: "string \<Rightarrow> string \<Rightarrow> string \<Rightarrow> approve_answer"
  sm_Check :: "string \<Rightarrow> string \<Rightarrow> string + readiness_output"
  sm_Start :: "string \<Rightarrow> string \<Rightarrow> f64 \<Rightarrow> string + string"

text \<open>The calls of the seams with their answers, and the records of a stage that were not confirmed.\<close>

datatype intake_call =
    CAdmit string caps f64 f64 "intake_error option"
  | CValidate string string f64 "string + validate_output"
  | CSynthesize string string "string + synth_output"
  | CGenerate plan_gen_input "string + plan_output"
  | CClassify string string "string + admit_output"
  | CApprove string string string approve_answer
  | CCheck string string "string + readiness_output"
  | CStart string string f64 "string + string"
  | CUnconfirmed string stage

definition DefaultBudgetGate_Admit :: "rounding \<Rightarrow> string \<Rightarrow> caps \<Rightarrow> f64 \<Rightarrow> f64 \<Rightarrow> intake_error option" where
  "DefaultBudgetGate_Admit rnd runID c alreadySpentUSD requestUSD =
     (if f64_le (kp_EnvelopeUSD c) (Fin 0) then Some NoEnvelope
      else if f64_less (kp_EnvelopeUSD c) (f64_add rnd alreadySpentUSD requestUSD) then Some BreachesEnvelope
      else None)"

text \<open>
  The artifacts of the stages have the fields of the outputs; their JSON, \<^const>\<open>None\<close> when a value
  cannot be encoded, and how it is read back.
\<close>

record artifact_codec =
  cd_idea :: "string \<Rightarrow> string"
  cd_validated :: "validate_output \<Rightarrow> string option"
  cd_validated_of :: "string \<Rightarrow> validate_output option"
  cd_spec :: "synth_output \<Rightarrow> string option"
  cd_spec_of :: "string \<Rightarrow> synth_output option"
  cd_plan :: "plan_output \<Rightarrow> string option"
  cd_plan_of :: "string \<Rightarrow> plan_output option"
  cd_admit :: "admit_output \<Rightarrow> string option"
  cd_admit_of :: "string \<Rightarrow> admit_output option"
  cd_approve :: "string \<Rightarrow> string option"
  cd_approve_of :: "string \<Rightarrow> string option"
  cd_mission :: "string \<Rightarrow> string option"
  cd_mission_of :: "string \<Rightarrow> string option"

section \<open>The pipeline\<close>

record 's pipe =
  pp_store :: 's
  pp_faults :: "io_fault list"
  pp_calls :: "intake_call list"

definition next_fault :: "'s pipe \<Rightarrow> io_fault" where
  "next_fault p = (case pp_faults p of [] \<Rightarrow> IoOk | f # _ \<Rightarrow> f)"

definition store_read :: "(io_fault \<Rightarrow> 's \<Rightarrow> 'a) \<Rightarrow> 's pipe \<Rightarrow> 'a \<times> 's pipe" where
  "store_read act p = (act (next_fault p) (pp_store p), p\<lparr>pp_faults := tl (pp_faults p)\<rparr>)"

definition store_write :: "(io_fault \<Rightarrow> 's \<Rightarrow> intake_error option \<times> 's) \<Rightarrow> 's pipe \<Rightarrow> intake_error option \<times> 's pipe" where
  "store_write act p =
     (let (e, s') = act (next_fault p) (pp_store p) in (e, p\<lparr>pp_store := s', pp_faults := tl (pp_faults p)\<rparr>))"

definition called :: "intake_call \<Rightarrow> 's pipe \<Rightarrow> 's pipe" where
  "called c p = p\<lparr>pp_calls := pp_calls p @ [c]\<rparr>"

definition intake_digest :: "(string \<Rightarrow> string) \<Rightarrow> string list \<Rightarrow> string" where
  "intake_digest sha parts = sha (join_with [CHR 0x00] parts)"

text \<open>A value that \<open>mustJSON\<close> cannot encode makes the process panic, with the store as it is then.\<close>

definition recordStage ::
  "'s store_ops \<Rightarrow> string \<Rightarrow> stage \<Rightarrow> string \<Rightarrow> string option \<Rightarrow> f64 \<Rightarrow> 's pipe \<Rightarrow> intake_error option \<times> 's pipe" where
  "recordStage ops runID stg inputDigest output cost p =
     (case output of
        None \<Rightarrow> (Some PanicMarshal, called (CUnconfirmed runID stg) p)
      | Some json \<Rightarrow>
          (let (e, p') = store_write (\<lambda>f s. sp_RecordStage ops f s \<lparr>st_RunID = runID, st_Stage = stg, st_InputDigest = inputDigest,
                  st_Output = json, st_CostUSD = cost\<rparr>) p in
           (e, if e = None then p' else called (CUnconfirmed runID stg) p')))"

definition saveRun :: "'s store_ops \<Rightarrow> intake_run \<Rightarrow> 's pipe \<Rightarrow> intake_error option \<times> 's pipe" where
  "saveRun ops run p = store_write (\<lambda>f s. sp_UpdateRun ops f s run) p"

datatype progress = Terminal | Paused | Onward

type_synonym 's staged = "(intake_error + progress) \<times> intake_run \<times> 's pipe"

definition save_as :: "'s store_ops \<Rightarrow> progress \<Rightarrow> intake_run \<Rightarrow> 's pipe \<Rightarrow> 's staged" where
  "save_as ops prog run p =
     (case saveRun ops run p of (Some e, p') \<Rightarrow> (Inl e, run, p') | (None, p') \<Rightarrow> (Inr prog, run, p'))"

text \<open>A stage after its seam has answered: record the artifact, then go on with the run.\<close>

definition recorded ::
  "'s store_ops \<Rightarrow> intake_run \<Rightarrow> stage \<Rightarrow> string \<Rightarrow> string option \<Rightarrow> f64 \<Rightarrow> ('s pipe \<Rightarrow> 's staged) \<Rightarrow> 's pipe \<Rightarrow> 's staged" where
  "recorded ops run stg inputDigest output cost k p =
     (case recordStage ops (nr_ID run) stg inputDigest output cost p of
        (Some e, p') \<Rightarrow> (Inl e, run, p')
      | (None, p') \<Rightarrow> k p')"

definition loadOutput ::
  "'s store_ops \<Rightarrow> (string \<Rightarrow> 'a option) \<Rightarrow> intake_run \<Rightarrow> stage \<Rightarrow> ('a \<Rightarrow> 's pipe \<Rightarrow> 's staged) \<Rightarrow> 's pipe \<Rightarrow> 's staged" where
  "loadOutput ops decode run stg k p =
     (case store_read (\<lambda>f s. sp_GetStage ops f s (nr_ID run) stg) p of
        (Inl e, p') \<Rightarrow> (Inl e, run, p')
      | (Inr None, p') \<Rightarrow> (Inl (OutputMissing stg), run, p')
      | (Inr (Some rec), p') \<Rightarrow>
          (case decode (st_Output rec) of None \<Rightarrow> (Inl (DecodeOutput stg), run, p') | Some v \<Rightarrow> k v p'))"

definition after_verdict :: "'s store_ops \<Rightarrow> intake_run \<Rightarrow> string \<Rightarrow> 's pipe \<Rightarrow> 's staged" where
  "after_verdict ops run v =
     (if v = ''REJECT'' then save_as ops Terminal (run\<lparr>nr_CurrentStage := StageOpportunityRejected, nr_Status := StatusRunDone\<rparr>)
      else if v = ''VALIDATE-MORE''
        then save_as ops Terminal (run\<lparr>nr_CurrentStage := StageOpportunityValidationRequired, nr_Status := StatusRunDone\<rparr>)
      else if v = ''BUILD'' then save_as ops Onward (run\<lparr>nr_CurrentStage := StageOpportunityValidated\<rparr>)
      else (\<lambda>p'. (Inl (UnknownVerdict v), run, p')))"

definition stageValidate ::
  "rounding \<Rightarrow> 's store_ops \<Rightarrow> artifact_codec \<Rightarrow> (string \<Rightarrow> string) \<Rightarrow> seams \<Rightarrow> intake_run \<Rightarrow> 's pipe \<Rightarrow> 's staged" where
  "stageValidate rnd ops cd sha sm run p =
     (let cap = kp_ResearchCapUSD (nr_Caps run);
          admitted = sm_Admit sm (nr_ID run) (nr_Caps run) (nr_SpentUSD run) cap;
          p1 = called (CAdmit (nr_ID run) (nr_Caps run) (nr_SpentUSD run) cap admitted) p in
      case admitted of
        Some e \<Rightarrow> (Inl e, run, p1)
      | None \<Rightarrow>
          (let answer = sm_Validate sm (nr_ID run) (nr_Idea run) cap;
               p2 = called (CValidate (nr_ID run) (nr_Idea run) cap answer) p1 in
           case answer of
             Inl e \<Rightarrow> (Inl (SeamFailed StageOpportunityValidated e), run, p2)
           | Inr out \<Rightarrow>
               (let run1 = run\<lparr>nr_SpentUSD := f64_add rnd (nr_SpentUSD run) (vl_SpentUSD out)\<rparr> in
                recorded ops run1 StageOpportunityValidated (intake_digest sha [nr_Idea run]) (cd_validated cd out) (vl_SpentUSD out)
                  (after_verdict ops run1 (vl_Verdict out)) p2)))"

definition stageSynthesize ::
  "'s store_ops \<Rightarrow> artifact_codec \<Rightarrow> (string \<Rightarrow> string) \<Rightarrow> seams \<Rightarrow> intake_run \<Rightarrow> 's pipe \<Rightarrow> 's staged" where
  "stageSynthesize ops cd sha sm run p =
     (let answer = sm_Synthesize sm (nr_ID run) (nr_Idea run);
          p1 = called (CSynthesize (nr_ID run) (nr_Idea run) answer) p in
      case answer of
        Inl e \<Rightarrow> (Inl (SeamFailed StageSpecSynthesized e), run, p1)
      | Inr out \<Rightarrow>
          recorded ops run StageSpecSynthesized (intake_digest sha [nr_Idea run]) (cd_spec cd out) (Fin 0)
            (save_as ops Onward (run\<lparr>nr_CurrentStage := StageSpecSynthesized\<rparr>)) p1)"

definition plan_input :: "intake_run \<Rightarrow> synth_output \<Rightarrow> plan_gen_input" where
  "plan_input run spec = \<lparr>gi2_RunID = nr_ID run, gi2_PlanID = nr_ID run @ ''-plan'', gi2_Title = ''Intake mission '' @ nr_ID run,
     gi2_SpecJSON = sy_SpecJSON spec, gi2_EnvelopeUSD = kp_EnvelopeUSD (nr_Caps run)\<rparr>"

definition stagePlan ::
  "'s store_ops \<Rightarrow> artifact_codec \<Rightarrow> (string \<Rightarrow> string) \<Rightarrow> seams \<Rightarrow> intake_run \<Rightarrow> 's pipe \<Rightarrow> 's staged" where
  "stagePlan ops cd sha sm run =
     loadOutput ops (cd_spec_of cd) run StageSpecSynthesized (\<lambda>spec p.
       let i = plan_input run spec;
           answer = sm_Generate sm i; p1 = called (CGenerate i answer) p in
       case answer of
         Inl e \<Rightarrow> (Inl (SeamFailed StagePlanGenerated e), run, p1)
       | Inr out \<Rightarrow>
           recorded ops run StagePlanGenerated (sy_Digest spec) (cd_plan cd out) (Fin 0)
             (save_as ops Onward (run\<lparr>nr_CurrentStage := StagePlanGenerated\<rparr>)) p1)"

definition stageAdmit ::
  "'s store_ops \<Rightarrow> artifact_codec \<Rightarrow> (string \<Rightarrow> string) \<Rightarrow> seams \<Rightarrow> intake_run \<Rightarrow> 's pipe \<Rightarrow> 's staged" where
  "stageAdmit ops cd sha sm run =
     loadOutput ops (cd_plan_of cd) run StagePlanGenerated (\<lambda>pl p.
       let answer = sm_Classify sm (nr_ID run) (pz_PlanBytes pl); p1 = called (CClassify (nr_ID run) (pz_PlanBytes pl) answer) p in
       case answer of
         Inl e \<Rightarrow> (Inl (SeamFailed StageAdmitted e), run, p1)
       | Inr out \<Rightarrow>
           recorded ops run StageAdmitted (intake_digest sha [pz_PlanBytes pl]) (cd_admit cd out) (Fin 0)
             (save_as ops Onward (run\<lparr>nr_CurrentStage := StageAdmitted\<rparr>)) p1)"

definition pause_strong_auth :: "'s store_ops \<Rightarrow> intake_run \<Rightarrow> 's pipe \<Rightarrow> 's staged" where
  "pause_strong_auth ops run = save_as ops Paused (run\<lparr>nr_CurrentStage := StageAwaitingStrongAuth, nr_Status := StatusRunPaused\<rparr>)"

definition stageApprove ::
  "'s store_ops \<Rightarrow> artifact_codec \<Rightarrow> (string \<Rightarrow> string) \<Rightarrow> seams \<Rightarrow> intake_run \<Rightarrow> 's pipe \<Rightarrow> 's staged" where
  "stageApprove ops cd sha sm run =
     loadOutput ops (cd_admit_of cd) run StageAdmitted (\<lambda>adm.
       loadOutput ops (cd_plan_of cd) run StagePlanGenerated (\<lambda>pl p.
         if aq_RequiresStrongAuth adm then pause_strong_auth ops run p
         else
           (let answer = sm_Approve sm (nr_ID run) (pz_PlanBytes pl) (aq_Tier adm);
                p1 = called (CApprove (nr_ID run) (pz_PlanBytes pl) (aq_Tier adm) answer) p in
            case answer of
              StrongAuthRequired \<Rightarrow> pause_strong_auth ops run p1
            | ApproveFailed e \<Rightarrow> (Inl (SeamFailed StageApproved e), run, p1)
            | Approved ref \<Rightarrow>
                recorded ops run StageApproved (intake_digest sha [pz_PlanBytes pl, aq_Tier adm]) (cd_approve cd ref) (Fin 0)
                  (save_as ops Onward (run\<lparr>nr_CurrentStage := StageApproved\<rparr>)) p1)))"

definition stageStart ::
  "'s store_ops \<Rightarrow> artifact_codec \<Rightarrow> (string \<Rightarrow> string) \<Rightarrow> seams \<Rightarrow> intake_run \<Rightarrow> 's pipe \<Rightarrow> 's staged" where
  "stageStart ops cd sha sm run =
     loadOutput ops (cd_approve_of cd) run StageApproved (\<lambda>ref p.
       let ready = sm_Check sm (nr_ID run) ref; p1 = called (CCheck (nr_ID run) ref ready) p in
       case ready of
         Inl e \<Rightarrow> (Inl (SeamFailed StageAwaitingReadiness e), run, p1)
       | Inr rd \<Rightarrow>
           if \<not> ry_Ready rd then save_as ops Paused (run\<lparr>nr_CurrentStage := StageAwaitingReadiness, nr_Status := StatusRunPaused\<rparr>) p1
           else
             (let answer = sm_Start sm (nr_ID run) ref (kp_EnvelopeUSD (nr_Caps run));
                  p2 = called (CStart (nr_ID run) ref (kp_EnvelopeUSD (nr_Caps run)) answer) p1 in
              case answer of
                Inl e \<Rightarrow> (Inl (SeamFailed StageMissionStarted e), run, p2)
              | Inr mission \<Rightarrow>
                  (let run1 = run\<lparr>nr_MissionID := mission\<rparr> in
                   recorded ops run1 StageMissionStarted (intake_digest sha [ref]) (cd_mission cd mission) (Fin 0)
                     (save_as ops Onward (run1\<lparr>nr_CurrentStage := StageMissionStarted, nr_Status := StatusRunDone\<rparr>)) p2)))"

definition replayStage :: "artifact_codec \<Rightarrow> intake_run \<Rightarrow> stage \<Rightarrow> stage_record \<Rightarrow> (intake_error + progress) \<times> intake_run" where
  "replayStage cd run stg rec =
     (if stg = StageOpportunityValidated then
        (case cd_validated_of cd (st_Output rec) of
           None \<Rightarrow> (Inl (DecodeOutput stg), run)
         | Some a \<Rightarrow> (Inr (if vl_Verdict a = ''REJECT'' \<or> vl_Verdict a = ''VALIDATE-MORE'' then Terminal else Onward), run))
      else if stg = StageMissionStarted then
        (case cd_mission_of cd (st_Output rec) of
           None \<Rightarrow> (Inl (DecodeOutput stg), run)
         | Some m \<Rightarrow> (Inr Onward, run\<lparr>nr_MissionID := m\<rparr>))
      else (Inr Onward, run))"

text \<open>The stages that \<open>runStage\<close> is called with are those of the forward sequence after the first.\<close>

definition runStage ::
  "rounding \<Rightarrow> 's store_ops \<Rightarrow> artifact_codec \<Rightarrow> (string \<Rightarrow> string) \<Rightarrow> seams \<Rightarrow> stage \<Rightarrow> intake_run \<Rightarrow> 's pipe \<Rightarrow> 's staged" where
  "runStage rnd ops cd sha sm stg run p =
     (case store_read (\<lambda>f s. sp_GetStage ops f s (nr_ID run) stg) p of
        (Inl e, p') \<Rightarrow> (Inl e, run, p')
      | (Inr (Some rec), p') \<Rightarrow> (let (res, run') = replayStage cd run stg rec in (res, run', p'))
      | (Inr None, p') \<Rightarrow>
          (case stg of
             StageOpportunityValidated \<Rightarrow> stageValidate rnd ops cd sha sm run p'
           | StageSpecSynthesized \<Rightarrow> stageSynthesize ops cd sha sm run p'
           | StagePlanGenerated \<Rightarrow> stagePlan ops cd sha sm run p'
           | StageAdmitted \<Rightarrow> stageAdmit ops cd sha sm run p'
           | StageApproved \<Rightarrow> stageApprove ops cd sha sm run p'
           | StageMissionStarted \<Rightarrow> stageStart ops cd sha sm run p'
           | _ \<Rightarrow> (Inl (SeamFailed stg ''unknown forward stage''), run, p')))"

fun run_stages ::
  "rounding \<Rightarrow> 's store_ops \<Rightarrow> artifact_codec \<Rightarrow> (string \<Rightarrow> string) \<Rightarrow> seams \<Rightarrow> stage list \<Rightarrow> intake_run \<Rightarrow> 's pipe \<Rightarrow> 's staged" where
  "run_stages rnd ops cd sha sm [] run p = (Inr Onward, run, p)"
| "run_stages rnd ops cd sha sm (stg # stgs) run p =
     (case runStage rnd ops cd sha sm stg run p of
        (Inr Onward, run', p') \<Rightarrow> run_stages rnd ops cd sha sm stgs run' p'
      | (res, run', p') \<Rightarrow> (res, run', p'))"

text \<open>Beside an error the code returns the run as far as it came; the callers look at the error only.\<close>

definition Resume ::
  "rounding \<Rightarrow> 's store_ops \<Rightarrow> artifact_codec \<Rightarrow> (string \<Rightarrow> string) \<Rightarrow> seams \<Rightarrow> string \<Rightarrow> 's pipe \<Rightarrow> (intake_error + intake_run) \<times> 's pipe" where
  "Resume rnd ops cd sha sm runID p =
     (case store_read (\<lambda>f s. sp_GetRun ops f s runID) p of
        (Inl e, p') \<Rightarrow> (Inl e, p')
      | (Inr run, p') \<Rightarrow>
          if nr_Status run = StatusRunDone then (Inr run, p')
          else
            (case run_stages rnd ops cd sha sm (tl forwardStages) run p' of
               (Inl e, run1, p1) \<Rightarrow> (Inl e, p1)
             | (Inr Onward, run1, p1) \<Rightarrow>
                 (let run2 = run1\<lparr>nr_CurrentStage := StageMissionStarted, nr_Status := StatusRunDone\<rparr> in
                  case saveRun ops run2 p1 of (Some e, p2) \<Rightarrow> (Inl e, p2) | (None, p2) \<Rightarrow> (Inr run2, p2))
             | (Inr _, run1, p1) \<Rightarrow> (Inr run1, p1)))"

record intake_input =
  xs_RunID :: string
  xs_Idea :: string
  xs_Budget :: f64
  xs_Origin :: origin

definition Start ::
  "rounding \<Rightarrow> 's store_ops \<Rightarrow> artifact_codec \<Rightarrow> (string \<Rightarrow> string) \<Rightarrow> seams \<Rightarrow> string option \<Rightarrow> intake_input \<Rightarrow> 's pipe
     \<Rightarrow> (intake_error + intake_run) \<times> 's pipe" where
  "Start rnd ops cd sha sm rand i p =
     (if xs_Idea i = [] then (Inl ErrIdeaRequired, p)
      else case (if xs_RunID i = [] then map_option (\<lambda>r. ''intake-'' @ r) rand else Some (xs_RunID i)) of
             None \<Rightarrow> (Inl ErrIntakeRandom, p)
           | Some runID \<Rightarrow>
               (let og = (if rg_Channel (xs_Origin i) = [] then (xs_Origin i)\<lparr>rg_Channel := ''cli''\<rparr> else xs_Origin i);
                    run = \<lparr>nr_ID = runID, nr_Idea = xs_Idea i, nr_Caps = CapsFromBudget rnd (xs_Budget i), nr_Origin = og,
                           nr_CurrentStage = StageIdeaRecorded, nr_Status = StatusRunRunning, nr_SpentUSD = Fin 0, nr_MissionID = []\<rparr> in
                case store_write (\<lambda>f s. sp_CreateRun ops f s run) p of
                  (Some e, p1) \<Rightarrow> (Inl e, p1)
                | (None, p1) \<Rightarrow>
                    (case recordStage ops runID StageIdeaRecorded (intake_digest sha [xs_Idea i]) (Some (cd_idea cd (intake_digest sha [xs_Idea i]))) (Fin 0) p1 of
                       (Some e, p2) \<Rightarrow> (Inl e, p2)
                     | (None, p2) \<Rightarrow> Resume rnd ops cd sha sm runID p2)))"

section \<open>The adapters\<close>

text \<open>
  The seams that decide by themselves (\<open>adapters.go\<close>, \<open>production.go\<close>, \<open>local.go\<close>). The resolver of an
  idea, the texts of errors of other packages and the wrapped functions are parameters.
\<close>

definition nextActionsFor :: "verdict \<Rightarrow> string list \<Rightarrow> string list" where
  "nextActionsFor v blockers =
     (if v = VerdictReject then
        [''This opportunity was rejected; no repository, plan or build budget was created.'']
        @ (if blockers \<noteq> [] then [''Reasons: '' @ join_with '', '' blockers] else [])
        @ [''Gather stronger evidence or reframe the idea, then submit a new run.'']
      else if v = VerdictValidateMore then
        [''This opportunity needs more validation before a build is justified.'']
        @ (if blockers \<noteq> [] then [''Unmet thresholds: '' @ join_with '', '' blockers] else [])
        @ [''Collect the missing evidence, then resume the run.'']
      else [])"

definition OpportunityValidatorAdapter_Validate ::
  "rounding \<Rightarrow> (string \<Rightarrow> string) \<Rightarrow> opp_config \<Rightarrow> (string \<Rightarrow> string + opportunity)
     \<Rightarrow> string \<Rightarrow> string \<Rightarrow> f64 \<Rightarrow> string + validate_output" where
  "OpportunityValidatorAdapter_Validate rnd sha cfg resolve runID idea researchCapUSD =
     (case resolve idea of
        Inl e \<Rightarrow> Inl (''intake: resolve opportunity: '' @ e)
      | Inr opp \<Rightarrow>
          (let sc = Score rnd opp cfg;
               (v, blockers) = Opportunity_Decide sc (gc_Thresholds cfg);
               cost = op_EstimatedValidationCostUSD opp;
               spent = (if f64_less (Fin 0) researchCapUSD \<and> f64_less researchCapUSD cost then researchCapUSD else cost) in
           Inr \<lparr>vl_Verdict = show_verdict v, vl_Blockers = blockers, vl_NextActions = nextActionsFor v blockers,
                vl_SpentUSD = spent, vl_Digest = intake_digest sha [idea]\<rparr>))"

record signal_backed =
  sb_Inner :: "(string \<Rightarrow> string \<Rightarrow> f64 \<Rightarrow> string + validate_output) option"
  sb_RealSignal :: "(string \<Rightarrow> string + bool) option"
  sb_OpportunityIDForIdea :: "(string \<Rightarrow> string) option"

definition validate_more :: "validate_output \<Rightarrow> string \<Rightarrow> string \<Rightarrow> validate_output" where
  "validate_more out blocker action =
     \<lparr>vl_Verdict = ''VALIDATE-MORE'', vl_Blockers = [blocker], vl_NextActions = [action], vl_SpentUSD = vl_SpentUSD out, vl_Digest = vl_Digest out\<rparr>"

definition SignalBackedValidator_Validate :: "signal_backed \<Rightarrow> string \<Rightarrow> string \<Rightarrow> f64 \<Rightarrow> string + validate_output" where
  "SignalBackedValidator_Validate v runID idea researchCapUSD =
     (case sb_Inner v of
        None \<Rightarrow> Inl ''intake: SignalBackedValidator requires Inner''
      | Some inner \<Rightarrow>
          (case inner runID idea researchCapUSD of
             Inl e \<Rightarrow> Inl e
           | Inr out \<Rightarrow>
               if vl_Verdict out \<noteq> ''BUILD'' then Inr out
               else
                 (case sb_RealSignal v of
                    None \<Rightarrow> Inr (validate_more out ''real-validation-signal-wiring-absent''
                      ''Configure StoreRealSignalVerifier before autonomous BUILD.'')
                  | Some check \<Rightarrow>
                      (let oppID = (case sb_OpportunityIDForIdea v of None \<Rightarrow> [] | Some f \<Rightarrow> f idea) in
                       if oppID = [] then Inr (validate_more out ''missing-opportunity-id-for-real-signal''
                         ''Bind the idea to an opportunity record before BUILD.'')
                       else
                         (case check oppID of
                            Inl e \<Rightarrow> Inl (''intake: real signal check: '' @ e)
                          | Inr ok \<Rightarrow>
                              if \<not> ok then Inr (validate_more out ''missing-allowlisted-real-validation-signal''
                                ''Acquire an allowlisted real validation signal, then resume.'')
                              else Inr out)))))"

definition AdmitterAdapter_Classify ::
  "(string \<Rightarrow> string + document) \<Rightarrow> (plan_error \<Rightarrow> string) \<Rightarrow> (admission_error \<Rightarrow> string) \<Rightarrow> policy_view option
     \<Rightarrow> string \<Rightarrow> string \<Rightarrow> string + admit_output" where
  "AdmitterAdapter_Classify yaml_decode plan_text admission_text policy runID planBytes =
     (case ParseBytes yaml_decode planBytes of
        Inl e \<Rightarrow> Inl (''intake: parse generated plan: '' @ plan_text e)
      | Inr doc \<Rightarrow>
          (case Admission_Classify (Some doc) policy of
             (_, Some e) \<Rightarrow> Inl (''intake: classify generated plan: '' @ admission_text e)
           | (dec, None) \<Rightarrow>
               Inr \<lparr>aq_Tier = Tier_String (de_Tier dec), aq_PolicyDigest = de_PolicyDigest dec, aq_RequiresStrongAuth = (de_Tier dec = TierH)\<rparr>))"

text \<open>Under simple case folding only the two letters are equal to H.\<close>

definition FuncApprover_Approve :: "(string \<Rightarrow> string \<Rightarrow> string \<Rightarrow> approve_answer) \<Rightarrow> string \<Rightarrow> string \<Rightarrow> string \<Rightarrow> approve_answer" where
  "FuncApprover_Approve f runID planBytes t = (if t = ''H'' \<or> t = ''h'' then StrongAuthRequired else f runID planBytes t)"

definition AlwaysReady :: "string \<Rightarrow> string \<Rightarrow> string + readiness_output" where
  "AlwaysReady runID approvalRef = Inr \<lparr>ry_Ready = True, ry_Missing = [], ry_ArtifactRef = ''ceremony:'' @ runID\<rparr>"

definition ProductionStarter_Start :: "(string \<Rightarrow> string \<Rightarrow> f64 \<Rightarrow> string + string) option \<Rightarrow> string \<Rightarrow> string \<Rightarrow> f64 \<Rightarrow> string + string" where
  "ProductionStarter_Start startFn runID approvalRef envelopeUSD =
     (case startFn of None \<Rightarrow> Inl ''intake: ProductionStarter.StartFn not configured'' | Some f \<Rightarrow> f runID approvalRef envelopeUSD)"

text \<open>A build leaves the wrapped validator only with an allowlisted real signal; the spend never exceeds a positive cap.\<close>

lemma SignalBackedValidator_build:
  assumes "SignalBackedValidator_Validate v runID idea cap = Inr out" and "vl_Verdict out = ''BUILD''"
  shows "\<exists>inner check f. sb_Inner v = Some inner \<and> sb_RealSignal v = Some check \<and> sb_OpportunityIDForIdea v = Some f
    \<and> f idea \<noteq> [] \<and> inner runID idea cap = Inr out \<and> check (f idea) = Inr True"
  using assms by (auto simp: SignalBackedValidator_Validate_def validate_more_def Let_def split: option.splits sum.splits if_splits)

lemma AdmitterAdapter_exact:
  assumes "AdmitterAdapter_Classify yaml pt adt policy runID b = Inr a"
  shows "\<exists>doc dec. ParseBytes yaml b = Inr doc \<and> Admission_Classify (Some doc) policy = (dec, None)
    \<and> aq_Tier a = Tier_String (de_Tier dec) \<and> (aq_RequiresStrongAuth a \<longleftrightarrow> de_Tier dec = TierH)"
  using assms by (auto simp: AdmitterAdapter_Classify_def split: sum.splits prod.splits option.splits)

section \<open>What the records and the calls say about each other\<close>

fun success :: "intake_call \<Rightarrow> (string \<times> stage) option" where
  "success (CValidate i _ _ (Inr _)) = Some (i, StageOpportunityValidated)"
| "success (CSynthesize i _ (Inr _)) = Some (i, StageSpecSynthesized)"
| "success (CGenerate g (Inr _)) = Some (gi2_RunID g, StagePlanGenerated)"
| "success (CClassify i _ (Inr _)) = Some (i, StageAdmitted)"
| "success (CApprove i _ _ (Approved _)) = Some (i, StageApproved)"
| "success (CStart i _ _ (Inr _)) = Some (i, StageMissionStarted)"
| "success _ = None"

definition succeeded :: "string \<Rightarrow> stage \<Rightarrow> intake_call list \<Rightarrow> nat" where
  "succeeded i stg cs = length (filter (\<lambda>c. success c = Some (i, stg)) cs)"

definition unconfirmed :: "string \<Rightarrow> stage \<Rightarrow> intake_call list \<Rightarrow> nat" where
  "unconfirmed i stg cs = length (filter (\<lambda>c. c = CUnconfirmed i stg) cs)"

type_synonym records = "string \<Rightarrow> stage \<Rightarrow> stage_record option"

definition decoded :: "(string \<Rightarrow> 'a option) \<Rightarrow> records \<Rightarrow> string \<Rightarrow> stage \<Rightarrow> 'a \<Rightarrow> bool" where
  "decoded dec R i stg v = (\<exists>rec. R i stg = Some rec \<and> dec (st_Output rec) = Some v)"

definition plan_bytes :: "artifact_codec \<Rightarrow> records \<Rightarrow> string \<Rightarrow> string \<Rightarrow> bool" where
  "plan_bytes cd R i b = (\<exists>pl. decoded (cd_plan_of cd) R i StagePlanGenerated pl \<and> pz_PlanBytes pl = b)"

definition gate_passed :: "artifact_codec \<Rightarrow> records \<Rightarrow> string \<Rightarrow> bool" where
  "gate_passed cd R i =
     (\<exists>a. decoded (cd_validated_of cd) R i StageOpportunityValidated a \<and> vl_Verdict a \<noteq> ''REJECT'' \<and> vl_Verdict a \<noteq> ''VALIDATE-MORE'')"

text \<open>Why the record of a stage exists.\<close>

fun justified :: "artifact_codec \<Rightarrow> records \<Rightarrow> intake_call list \<Rightarrow> string \<Rightarrow> stage \<Rightarrow> string \<Rightarrow> bool" where
  "justified cd R cs i StageOpportunityValidated out =
     (\<exists>idea cap o1. CValidate i idea cap (Inr o1) \<in> set cs \<and> cd_validated cd o1 = Some out)"
| "justified cd R cs i StageSpecSynthesized out = (\<exists>idea o1. CSynthesize i idea (Inr o1) \<in> set cs \<and> cd_spec cd o1 = Some out)"
| "justified cd R cs i StagePlanGenerated out =
     (\<exists>g o1. CGenerate g (Inr o1) \<in> set cs \<and> gi2_RunID g = i \<and> cd_plan cd o1 = Some out)"
| "justified cd R cs i StageAdmitted out =
     (\<exists>b a. CClassify i b (Inr a) \<in> set cs \<and> cd_admit cd a = Some out \<and> plan_bytes cd R i b)"
| "justified cd R cs i StageApproved out =
     (\<exists>b a ref. CApprove i b (aq_Tier a) (Approved ref) \<in> set cs \<and> cd_approve cd ref = Some out \<and> plan_bytes cd R i b
        \<and> decoded (cd_admit_of cd) R i StageAdmitted a \<and> \<not> aq_RequiresStrongAuth a)"
| "justified cd R cs i StageMissionStarted out = (\<exists>ref e m. CStart i ref e (Inr m) \<in> set cs \<and> cd_mission cd m = Some out)"
| "justified cd R cs i _ out = True"

text \<open>Why a call was made.\<close>

fun grounded :: "artifact_codec \<Rightarrow> records \<Rightarrow> intake_call list \<Rightarrow> intake_call \<Rightarrow> bool" where
  "grounded cd R cs (CStart i ref e ans) =
     (decoded (cd_approve_of cd) R i StageApproved ref \<and> gate_passed cd R i
      \<and> (\<exists>rd. CCheck i ref (Inr rd) \<in> set cs \<and> ry_Ready rd))"
| "grounded cd R cs (CValidate i idea cap ans) = (\<exists>c sp. CAdmit i c sp cap None \<in> set cs)"
| "grounded cd R cs _ = True"

definition trusted :: "artifact_codec \<Rightarrow> records \<Rightarrow> intake_call list \<Rightarrow> bool" where
  "trusted cd R cs =
     ((\<forall>i stg. succeeded i stg cs \<le> (if R i stg = None then 0 else 1) + unconfirmed i stg cs)
      \<and> (\<forall>i stg rec. R i stg = Some rec \<longrightarrow> justified cd R cs i stg (st_Output rec))
      \<and> (\<forall>c \<in> set cs. grounded cd R cs c))"

definition grown :: "records \<Rightarrow> records \<Rightarrow> bool" where
  "grown R R' = (\<forall>i stg rec. R i stg = Some rec \<longrightarrow> R' i stg = Some rec)"

lemma grown_simps [simp]: "grown R R" "grown R R' \<Longrightarrow> grown R' R'' \<Longrightarrow> grown R R''"
  by (simp_all add: grown_def)

lemma decoded_mono: "decoded dec R i stg v \<Longrightarrow> grown R R' \<Longrightarrow> decoded dec R' i stg v"
  by (auto simp: decoded_def grown_def)

lemma plan_bytes_mono: "plan_bytes cd R i b \<Longrightarrow> grown R R' \<Longrightarrow> plan_bytes cd R' i b"
  by (auto simp: plan_bytes_def intro: decoded_mono)

lemma gate_passed_mono: "gate_passed cd R i \<Longrightarrow> grown R R' \<Longrightarrow> gate_passed cd R' i"
  by (auto simp: gate_passed_def intro: decoded_mono)

lemma justified_mono:
  "justified cd R cs i stg out \<Longrightarrow> grown R R' \<Longrightarrow> set cs \<subseteq> set cs' \<Longrightarrow> justified cd R' cs' i stg out"
  by (cases stg) (auto 4 4 dest: plan_bytes_mono decoded_mono)

lemma grounded_mono: "grounded cd R cs c \<Longrightarrow> grown R R' \<Longrightarrow> set cs \<subseteq> set cs' \<Longrightarrow> grounded cd R' cs' c"
  by (cases c) (auto dest: decoded_mono gate_passed_mono)

lemma counts_simps [simp]:
  "succeeded i stg [] = 0" "unconfirmed i stg [] = 0"
  "succeeded i stg (cs @ ds) = succeeded i stg cs + succeeded i stg ds"
  "unconfirmed i stg (cs @ ds) = unconfirmed i stg cs + unconfirmed i stg ds"
  "succeeded i stg (c # cs) = (if success c = Some (i, stg) then 1 else 0) + succeeded i stg cs"
  "unconfirmed i stg (c # cs) = (if c = CUnconfirmed i stg then 1 else 0) + unconfirmed i stg cs"
  by (simp_all add: succeeded_def unconfirmed_def)

lemma trusted_call:
  assumes "trusted cd R cs" and "success c = None" and "grounded cd R cs c"
  shows "trusted cd R (cs @ [c])"
proof -
  have "justified cd R (cs @ [c]) i stg (st_Output rec)" if "R i stg = Some rec" for i stg rec
    using assms(1) that justified_mono [of cd R cs i stg "st_Output rec" R "cs @ [c]"] by (auto simp: trusted_def)
  moreover have "grounded cd R (cs @ [c]) x" if "x \<in> set (cs @ [c])" for x
    using assms(1,3) that grounded_mono [of cd R cs x R "cs @ [c]", OF _ _ subsetI] by (auto simp: trusted_def)
  moreover have "succeeded i stg (cs @ [c]) \<le> (if R i stg = None then 0 else 1) + unconfirmed i stg (cs @ [c])" for i stg
  proof -
    have "succeeded i stg cs \<le> (if R i stg = None then 0 else 1) + unconfirmed i stg cs" using assms(1) by (simp add: trusted_def)
    then show ?thesis using assms(2) by (simp split: if_splits)
  qed
  ultimately show ?thesis by (simp add: trusted_def)
qed

lemma trusted_success:
  assumes "trusted cd R cs" and "success c = Some (i, stg)" and "grounded cd R cs c" and "R i stg = None"
    and "R' = R \<or> R' = (\<lambda>j st. if j = i \<and> st = stg then Some rec else R j st) \<and> justified cd R (cs @ [c]) i stg (st_Output rec)"
    and "cs' = cs @ [c, CUnconfirmed i stg] \<or> cs' = cs @ [c] \<and> R' i stg \<noteq> None"
  shows "trusted cd R' cs'"
proof -
  have sub: "set (cs @ [c]) \<subseteq> set cs'" "set cs' \<subseteq> set (cs @ [c, CUnconfirmed i stg])" using assms(6) by auto
  have R: "grown R R'" using assms(4,5) by (auto simp: grown_def)
  have "justified cd R' cs' j st (st_Output r)" if r: "R' j st = Some r" for j st r
  proof (cases "R j st = Some r")
    case True
    then show ?thesis using assms(1) sub(1) justified_mono [OF _ R, of cd cs j st "st_Output r" cs'] by (auto simp: trusted_def)
  next
    case False
    then have "j = i" "st = stg" "r = rec" "justified cd R (cs @ [c]) i stg (st_Output rec)" using r assms(4,5) by (auto split: if_splits)
    then show ?thesis using justified_mono [OF _ R sub(1)] by blast
  qed
  moreover have "grounded cd R' cs' x" if "x \<in> set cs'" for x
    using assms(1,3) that sub grounded_mono [OF _ R, of cd cs x cs'] by (auto simp: trusted_def)
  moreover have "succeeded j st cs' \<le> (if R' j st = None then 0 else 1) + unconfirmed j st cs'" for j st
  proof -
    have "c \<noteq> CUnconfirmed j st" using assms(2) by auto
    moreover have "succeeded j st cs \<le> (if R j st = None then 0 else 1) + unconfirmed j st cs" using assms(1) by (simp add: trusted_def)
    moreover have "R j st \<noteq> None \<Longrightarrow> R' j st \<noteq> None" using R by (auto simp: grown_def)
    ultimately show ?thesis using assms(2,4,6) by (auto split: if_splits)
  qed
  ultimately show ?thesis by (simp add: trusted_def)
qed

text \<open>The record of the idea needs no seam.\<close>

lemma trusted_idea:
  assumes "trusted cd R cs"
    and "R' = R \<or> R i StageIdeaRecorded = None \<and> R' = (\<lambda>j st. if j = i \<and> st = StageIdeaRecorded then Some rec else R j st)"
  shows "trusted cd R' cs"
proof -
  have R: "grown R R'" using assms(2) by (auto simp: grown_def)
  have "justified cd R' cs j st (st_Output r)" if "R' j st = Some r" for j st r
  proof (cases "R j st = Some r")
    case True
    then show ?thesis using assms(1) justified_mono [OF _ R subset_refl] by (simp add: trusted_def)
  next
    case False
    then have "st = StageIdeaRecorded" using that assms(2) by (auto split: if_splits)
    then show ?thesis by simp
  qed
  moreover have "grounded cd R' cs c" if "c \<in> set cs" for c using assms(1) that grounded_mono [OF _ R subset_refl] by (simp add: trusted_def)
  moreover have "succeeded j st cs \<le> (if R' j st = None then 0 else 1) + unconfirmed j st cs" for j st
  proof -
    have "succeeded j st cs \<le> (if R j st = None then 0 else 1) + unconfirmed j st cs" using assms(1) by (simp add: trusted_def)
    moreover have "R j st \<noteq> None \<Longrightarrow> R' j st \<noteq> None" using R by (auto simp: grown_def)
    ultimately show ?thesis by (auto split: if_splits)
  qed
  ultimately show ?thesis by (simp add: trusted_def)
qed

section \<open>The interface of the store\<close>

text \<open>Any history of calls of the pipeline, each with its own answers and faults.\<close>

inductive intake_history ::
  "rounding \<Rightarrow> 's store_ops \<Rightarrow> artifact_codec \<Rightarrow> (string \<Rightarrow> string) \<Rightarrow> 's \<Rightarrow> 's pipe \<Rightarrow> bool"
  for rnd ops cd sha s0 where
  fresh: "intake_history rnd ops cd sha s0 \<lparr>pp_store = s0, pp_faults = [], pp_calls = []\<rparr>"
| start: "intake_history rnd ops cd sha s0 p
    \<Longrightarrow> intake_history rnd ops cd sha s0 (snd (Start rnd ops cd sha sm rand i (p\<lparr>pp_faults := fs\<rparr>)))"
| resume: "intake_history rnd ops cd sha s0 p
    \<Longrightarrow> intake_history rnd ops cd sha s0 (snd (Resume rnd ops cd sha sm runID (p\<lparr>pp_faults := fs\<rparr>)))"

text \<open>Reading an artifact back gives what was encoded.\<close>

definition faithful_json :: "artifact_codec \<Rightarrow> bool" where
  "faithful_json cd =
     ((\<forall>x s. cd_validated cd x = Some s \<longrightarrow> cd_validated_of cd s = Some x) \<and> (\<forall>x s. cd_plan cd x = Some s \<longrightarrow> cd_plan_of cd s = Some x)
      \<and> (\<forall>x s. cd_admit cd x = Some s \<longrightarrow> cd_admit_of cd s = Some x) \<and> (\<forall>x s. cd_approve cd x = Some s \<longrightarrow> cd_approve_of cd s = Some x))"

locale intake_records =
  fixes ops :: "'s store_ops" and recs :: "'s \<Rightarrow> records" and ok :: "'s \<Rightarrow> bool"
  assumes get_run: "ok s \<Longrightarrow> sp_GetRun ops f s i = Inr r \<Longrightarrow> nr_ID r = i"
    and get_stage: "sp_GetStage ops f s i stg = Inr x \<Longrightarrow> x = recs s i stg"
    and create_run: "ok s \<Longrightarrow> sp_CreateRun ops f s r = (e, s') \<Longrightarrow> ok s' \<and> recs s' = recs s"
    and update_run: "ok s \<Longrightarrow> sp_UpdateRun ops f s r = (e, s') \<Longrightarrow> ok s' \<and> recs s' = recs s"
    and record_stage: "ok s \<Longrightarrow> sp_RecordStage ops f s rec = (e, s') \<Longrightarrow> ok s'
      \<and> (recs s' = recs s \<and> (e = None \<longrightarrow> recs s (st_RunID rec) (st_Stage rec) \<noteq> None)
         \<or> recs s (st_RunID rec) (st_Stage rec) = None
           \<and> recs s' = (\<lambda>j st. if j = st_RunID rec \<and> st = st_Stage rec then Some rec else recs s j st))"
begin

definition good :: "artifact_codec \<Rightarrow> 's pipe \<Rightarrow> bool" where
  "good cd p = (ok (pp_store p) \<and> trusted cd (recs (pp_store p)) (pp_calls p))"

definition later :: "'s pipe \<Rightarrow> 's pipe \<Rightarrow> bool" where
  "later p p' = grown (recs (pp_store p)) (recs (pp_store p'))"

definition fine :: "artifact_codec \<Rightarrow> 's pipe \<Rightarrow> string \<Rightarrow> 's staged \<Rightarrow> bool" where
  "fine cd p i res = (good cd (snd (snd res)) \<and> later p (snd (snd res)) \<and> nr_ID (fst (snd res)) = i)"

lemma later_trans: "later p p' \<Longrightarrow> later p' p'' \<Longrightarrow> later p p''"
  by (auto simp: later_def)

lemma fine_trans: "later p p' \<Longrightarrow> fine cd p' i res \<Longrightarrow> fine cd p i res"
  by (auto simp: fine_def intro: later_trans)

lemma read_same:
  "store_read act p = (x, p') \<Longrightarrow> pp_store p' = pp_store p \<and> pp_calls p' = pp_calls p \<and> x = act (next_fault p) (pp_store p)"
  by (auto simp: store_read_def)

lemma read_good: "store_read act p = (x, p') \<Longrightarrow> good cd p \<Longrightarrow> good cd p' \<and> later p p'"
  by (auto simp: store_read_def good_def later_def)

lemma save_good: "saveRun ops run p = (e, p') \<Longrightarrow> good cd p \<Longrightarrow> good cd p' \<and> recs (pp_store p') = recs (pp_store p)"
  by (auto simp: saveRun_def store_write_def good_def split: prod.splits dest: update_run)

lemma save_as_fine:
  assumes "good cd p" and "nr_ID run = i"
  shows "fine cd p i (save_as ops prog run p)" "recs (pp_store (snd (snd (save_as ops prog run p)))) = recs (pp_store p)"
  using assms save_good [of run p _ _ cd] by (auto simp: save_as_def fine_def later_def split: prod.splits option.splits)

lemma called_good: "good cd p \<Longrightarrow> success c = None \<Longrightarrow> grounded cd (recs (pp_store p)) (pp_calls p) c \<Longrightarrow> good cd (called c p) \<and> later p (called c p)"
  by (simp add: good_def called_def later_def trusted_call)

text \<open>A seam has succeeded, and its artifact is recorded.\<close>

lemma recordStage_good:
  assumes "good cd p" and "success c = Some (i, stg)" and "grounded cd (recs (pp_store p)) (pp_calls p) c"
    and "recs (pp_store p) i stg = None"
    and "\<And>json. output = Some json \<Longrightarrow> justified cd (recs (pp_store p)) (pp_calls p @ [c]) i stg json"
    and "recordStage ops i stg d output cost (called c p) = (e, p')"
  shows "good cd p' \<and> later p p' \<and> (e = None \<longrightarrow> (\<exists>rec. recs (pp_store p') i stg = Some rec \<and> output = Some (st_Output rec)))"
proof (cases "output")
  case None
  then have "e = Some PanicMarshal" "p' = called (CUnconfirmed i stg) (called c p)" using assms(6) by (auto simp: recordStage_def)
  then show ?thesis
    using assms(1) trusted_success [OF _ assms(2,3,4), of "recs (pp_store p)" _ "pp_calls p @ [c, CUnconfirmed i stg]"]
    by (simp add: good_def called_def later_def)
next
  case (Some json)
  let ?rec = "\<lparr>st_RunID = i, st_Stage = stg, st_InputDigest = d, st_Output = json, st_CostUSD = cost\<rparr>"
  obtain s' where w: "sp_RecordStage ops (next_fault (called c p)) (pp_store p) ?rec = (e, s')" and s': "pp_store p' = s'"
    and calls: "pp_calls p' = pp_calls p @ (if e = None then [c] else [c, CUnconfirmed i stg])"
    using assms(6) Some by (auto simp: recordStage_def store_write_def called_def split: prod.splits if_splits)
  from record_stage [OF _ w] have ok: "ok s'"
    and R: "recs s' = recs (pp_store p) \<and> (e = None \<longrightarrow> recs (pp_store p) i stg \<noteq> None)
      \<or> recs s' = (\<lambda>j st. if j = i \<and> st = stg then Some ?rec else recs (pp_store p) j st)"
    using assms(1) by (auto simp: good_def)
  have "trusted cd (recs s') (pp_calls p')"
    by (rule trusted_success [OF _ assms(2,3,4), where rec = ?rec])
      (use assms(1,4,5) R Some calls in \<open>auto simp: good_def split: if_splits\<close>)
  then show ?thesis using ok R s' Some assms(4) by (auto simp: good_def later_def grown_def)
qed

lemma recorded_fine:
  assumes "good cd p" and "success c = Some (i, stg)" and "grounded cd (recs (pp_store p)) (pp_calls p) c"
    and "recs (pp_store p) i stg = None" and "nr_ID run = i"
    and "\<And>json. output = Some json \<Longrightarrow> justified cd (recs (pp_store p)) (pp_calls p @ [c]) i stg json"
    and "\<And>p' rec. good cd p' \<Longrightarrow> recs (pp_store p') i stg = Some rec \<Longrightarrow> output = Some (st_Output rec) \<Longrightarrow> fine cd p' i (k p')"
  shows "fine cd p i (recorded ops run stg d output cost k (called c p))"
proof -
  obtain e p' where r: "recordStage ops i stg d output cost (called c p) = (e, p')" by (cases "recordStage ops i stg d output cost (called c p)")
  note g = recordStage_good [OF assms(1-4,6) r]
  show ?thesis
  proof (cases e)
    case None
    then have "fine cd p' i (k p')" using g assms(7) by blast
    then show ?thesis using None g r assms(5) by (auto simp: recorded_def intro: fine_trans)
  next
    case (Some err)
    then show ?thesis using g r assms(5) by (simp add: recorded_def fine_def)
  qed
qed

lemma loadOutput_fine:
  assumes "good cd p" and "nr_ID run = i"
    and "\<And>v p'. good cd p' \<Longrightarrow> recs (pp_store p') = recs (pp_store p) \<Longrightarrow> decoded dec (recs (pp_store p')) i stg v \<Longrightarrow> fine cd p' i (k v p')"
  shows "fine cd p i (loadOutput ops dec run stg k p)"
proof -
  obtain x p' where r: "store_read (\<lambda>f s. sp_GetStage ops f s i stg) p = (x, p')" by (cases "store_read (\<lambda>f s. sp_GetStage ops f s i stg) p")
  note g = read_good [OF r assms(1)] and same = read_same [OF r]
  show ?thesis
  proof (cases x)
    case (Inl e)
    then show ?thesis using g r assms(2) by (simp add: loadOutput_def fine_def)
  next
    case (Inr y)
    then have y: "y = recs (pp_store p) i stg" using same get_stage by metis
    show ?thesis
    proof (cases y)
      case None
      then show ?thesis using g r Inr assms(2) by (simp add: loadOutput_def fine_def)
    next
      case (Some rec)
      show ?thesis
      proof (cases "dec (st_Output rec)")
        case None
        then show ?thesis using g r Inr Some assms(2) by (simp add: loadOutput_def fine_def)
      next
        case (Some v)
        have "decoded dec (recs (pp_store p')) i stg v"
          unfolding decoded_def using same y [symmetric] Some \<open>y = Some rec\<close> by simp
        then have "fine cd p' i (k v p')" using assms(3) [of p' v] g same by simp
        then show ?thesis using g r Inr Some \<open>y = Some rec\<close> assms(2) by (auto simp: loadOutput_def intro: fine_trans)
      qed
    qed
  qed
qed

end

section \<open>Every stage keeps the account\<close>

context intake_records
begin

lemma recorded_onward:
  assumes "fst (recorded ops run stg d output cost k (called c p)) = Inr Onward" and "good cd p"
    and "success c = Some (nr_ID run, stg)" and "grounded cd (recs (pp_store p)) (pp_calls p) c"
    and "recs (pp_store p) (nr_ID run) stg = None"
    and "\<And>json. output = Some json \<Longrightarrow> justified cd (recs (pp_store p)) (pp_calls p @ [c]) (nr_ID run) stg json"
  shows "\<exists>p' rec. recorded ops run stg d output cost k (called c p) = k p' \<and> good cd p'
    \<and> recs (pp_store p') (nr_ID run) stg = Some rec \<and> output = Some (st_Output rec)"
proof -
  obtain e p' where r: "recordStage ops (nr_ID run) stg d output cost (called c p) = (e, p')"
    by (cases "recordStage ops (nr_ID run) stg d output cost (called c p)")
  note g = recordStage_good [OF assms(2-6) r]
  have "e = None" using assms(1) r by (cases e) (auto simp: recorded_def)
  then show ?thesis using g r by (auto simp: recorded_def)
qed

lemma same_called: "recs (pp_store (called c p)) = recs (pp_store p)" "pp_calls (called c p) = pp_calls p @ [c]"
  by (simp_all add: called_def)

lemma failed_call_fine:
  "good cd p \<Longrightarrow> success c = None \<Longrightarrow> grounded cd (recs (pp_store p)) (pp_calls p) c \<Longrightarrow> nr_ID run = i \<Longrightarrow> fine cd p i (Inl e, run, called c p)"
  by (simp add: fine_def called_good)

lemma after_verdict_fine:
  assumes "good cd p"
  shows "fine cd p (nr_ID run) (after_verdict ops run v p)" "recs (pp_store (snd (snd (after_verdict ops run v p)))) = recs (pp_store p)"
    "fst (after_verdict ops run v p) = Inr Onward \<Longrightarrow> v = ''BUILD''"
proof -
  show "fine cd p (nr_ID run) (after_verdict ops run v p)" "recs (pp_store (snd (snd (after_verdict ops run v p)))) = recs (pp_store p)"
    using assms save_as_fine [OF assms] by (auto simp: after_verdict_def fine_def later_def)
  show "fst (after_verdict ops run v p) = Inr Onward \<Longrightarrow> v = ''BUILD''"
    by (auto simp: after_verdict_def save_as_def split: if_splits prod.splits option.splits)
qed

text \<open>The validation after the budget gate has admitted it.\<close>

lemma validation_admitted:
  fixes run run1 :: intake_run and out :: validate_output and cap cost :: f64 and d :: string and p :: "'s pipe"
  defines "c \<equiv> CValidate (nr_ID run) (nr_Idea run) cap (Inr out)"
  assumes "good cd p" and "recs (pp_store p) (nr_ID run) StageOpportunityValidated = None"
    and "CAdmit (nr_ID run) cp sp cap None \<in> set (pp_calls p)" and "nr_ID run1 = nr_ID run"
    and res: "res = recorded ops run1 StageOpportunityValidated d (cd_validated cd out) cost (after_verdict ops run1 (vl_Verdict out)) (called c p)"
  shows "fine cd p (nr_ID run) res"
    and "faithful_json cd \<Longrightarrow> fst res = Inr Onward \<Longrightarrow> gate_passed cd (recs (pp_store (snd (snd res)))) (nr_ID run)"
proof -
  have c: "success c = Some (nr_ID run1, StageOpportunityValidated)" "grounded cd (recs (pp_store p)) (pp_calls p) c"
      "recs (pp_store p) (nr_ID run1) StageOpportunityValidated = None"
      "\<And>json. cd_validated cd out = Some json \<Longrightarrow> justified cd (recs (pp_store p)) (pp_calls p @ [c]) (nr_ID run1) StageOpportunityValidated json"
    using assms(1-5) by auto
  have "fine cd p (nr_ID run1) res" unfolding res
    by (rule recorded_fine [OF assms(2) c(1-3) refl c(4)]) (use after_verdict_fine(1) in auto)
  then show "fine cd p (nr_ID run) res" using assms(5) by simp
  assume f: "faithful_json cd" and on: "fst res = Inr Onward"
  obtain p' rec where p': "res = after_verdict ops run1 (vl_Verdict out) p'" "good cd p'"
      "recs (pp_store p') (nr_ID run1) StageOpportunityValidated = Some rec" "cd_validated cd out = Some (st_Output rec)"
    using recorded_onward [OF on [unfolded res] assms(2) c] unfolding res by blast
  note a = after_verdict_fine [OF p'(2), of run1 "vl_Verdict out"]
  show "gate_passed cd (recs (pp_store (snd (snd res)))) (nr_ID run)"
    using a(2,3) on f p' assms(5) by (auto simp: gate_passed_def decoded_def faithful_json_def)
qed

lemma stageValidate_fine:
  assumes "good cd p" and "recs (pp_store p) (nr_ID run) StageOpportunityValidated = None"
  shows "fine cd p (nr_ID run) (stageValidate rnd ops cd sha sm run p)"
    and "faithful_json cd \<Longrightarrow> fst (stageValidate rnd ops cd sha sm run p) = Inr Onward \<Longrightarrow>
      gate_passed cd (recs (pp_store (snd (snd (stageValidate rnd ops cd sha sm run p))))) (nr_ID run)"
proof -
  let ?cap = "kp_ResearchCapUSD (nr_Caps run)"
  let ?adm = "sm_Admit sm (nr_ID run) (nr_Caps run) (nr_SpentUSD run) ?cap"
  let ?ca = "CAdmit (nr_ID run) (nr_Caps run) (nr_SpentUSD run) ?cap ?adm"
  let ?ans = "sm_Validate sm (nr_ID run) (nr_Idea run) ?cap"
  define p1 where "p1 = called ?ca p"
  have g: "good cd p1" "later p p1" "recs (pp_store p1) (nr_ID run) StageOpportunityValidated = None"
    using called_good [OF assms(1), of ?ca] assms(2) by (simp_all add: p1_def same_called)
  have a: "?adm = None \<Longrightarrow> CAdmit (nr_ID run) (nr_Caps run) (nr_SpentUSD run) ?cap None \<in> set (pp_calls p1)"
    by (simp add: p1_def same_called)
  have failed: "fine cd p1 (nr_ID run) (Inl x, run, called (CValidate (nr_ID run) (nr_Idea run) ?cap (Inl e)) p1)" if "?adm = None" for x e
    by (rule failed_call_fine [OF g(1)]) (use a [OF that] in auto)
  note ok = validation_admitted [OF g(1,3) a]
  consider (refused) e where "?adm = Some e" "stageValidate rnd ops cd sha sm run p = (Inl e, run, p1)"
    | (broken) e where "?adm = None" "stageValidate rnd ops cd sha sm run p =
        (Inl (SeamFailed StageOpportunityValidated e), run, called (CValidate (nr_ID run) (nr_Idea run) ?cap (Inl e)) p1)"
    | (answered) out run1 d cost where "?adm = None" "nr_ID run1 = nr_ID run" "stageValidate rnd ops cd sha sm run p =
        recorded ops run1 StageOpportunityValidated d (cd_validated cd out) cost (after_verdict ops run1 (vl_Verdict out))
          (called (CValidate (nr_ID run) (nr_Idea run) ?cap (Inr out)) p1)"
  proof (cases ?adm)
    case (Some e)
    then show ?thesis using refused by (simp add: stageValidate_def Let_def p1_def)
  next
    case None
    show ?thesis
    proof (cases ?ans)
      case (Inl e)
      then show ?thesis using broken None by (simp add: stageValidate_def Let_def p1_def)
    next
      case (Inr out)
      then show ?thesis
        using None by (intro answered [of "run\<lparr>nr_SpentUSD := f64_add rnd (nr_SpentUSD run) (vl_SpentUSD out)\<rparr>"])
          (simp_all add: stageValidate_def Let_def p1_def)
    qed
  qed
  note cases3 = this
  show "fine cd p (nr_ID run) (stageValidate rnd ops cd sha sm run p)"
  proof (cases rule: cases3)
    case refused
    then show ?thesis using g by (simp add: fine_def)
  next
    case broken
    then show ?thesis using failed fine_trans [OF g(2)] by simp
  next
    case answered
    then show ?thesis using ok(1) fine_trans [OF g(2)] by blast
  qed
  show "gate_passed cd (recs (pp_store (snd (snd (stageValidate rnd ops cd sha sm run p))))) (nr_ID run)"
    if "faithful_json cd" and "fst (stageValidate rnd ops cd sha sm run p) = Inr Onward"
    using that by (cases rule: cases3) (use ok(2) in auto)
qed

text \<open>The other stages: the seam fails, or it succeeds and the artifact is recorded and the run saved.\<close>

lemma recorded_save_fine:
  assumes "good cd p" and "success c = Some (i, stg)" and "grounded cd (recs (pp_store p)) (pp_calls p) c"
    and "recs (pp_store p) i stg = None" and "nr_ID run = i" and "nr_ID run1 = i"
    and "\<And>json. output = Some json \<Longrightarrow> justified cd (recs (pp_store p)) (pp_calls p @ [c]) i stg json"
  shows "fine cd p i (recorded ops run stg d output cost (save_as ops prog run1) (called c p))"
  by (rule recorded_fine [OF assms(1-5,7)]) (use assms(6) save_as_fine(1) in auto)

lemma stageSynthesize_fine:
  assumes "good cd p" and "recs (pp_store p) (nr_ID run) StageSpecSynthesized = None"
  shows "fine cd p (nr_ID run) (stageSynthesize ops cd sha sm run p)"
proof (cases "sm_Synthesize sm (nr_ID run) (nr_Idea run)")
  case (Inl e)
  then show ?thesis using failed_call_fine [OF assms(1)] by (simp add: stageSynthesize_def)
next
  case (Inr out)
  have "fine cd p (nr_ID run) (recorded ops run StageSpecSynthesized (intake_digest sha [nr_Idea run]) (cd_spec cd out) (Fin 0)
      (save_as ops Onward (run\<lparr>nr_CurrentStage := StageSpecSynthesized\<rparr>)) (called (CSynthesize (nr_ID run) (nr_Idea run) (Inr out)) p))"
    by (rule recorded_save_fine [OF assms(1) _ _ assms(2)]) auto
  then show ?thesis using Inr by (simp add: stageSynthesize_def)
qed

lemma stagePlan_fine:
  assumes "good cd p" and "recs (pp_store p) (nr_ID run) StagePlanGenerated = None"
  shows "fine cd p (nr_ID run) (stagePlan ops cd sha sm run p)"
  unfolding stagePlan_def
proof (rule loadOutput_fine [OF assms(1) refl])
  fix spec p'
  assume g: "good cd p'" and r: "recs (pp_store p') = recs (pp_store p)"
  let ?i = "plan_input run spec"
  have i: "gi2_RunID ?i = nr_ID run" by (simp add: plan_input_def)
  have n: "recs (pp_store p') (nr_ID run) StagePlanGenerated = None" using assms(2) r by simp
  have "fine cd p' (nr_ID run) (recorded ops run StagePlanGenerated (sy_Digest spec) (cd_plan cd out) (Fin 0)
      (save_as ops Onward (run\<lparr>nr_CurrentStage := StagePlanGenerated\<rparr>)) (called (CGenerate ?i (Inr out)) p'))" for out
    by (rule recorded_save_fine [OF g _ _ n]) (use i in auto)
  moreover have "fine cd p' (nr_ID run) (Inl x, run, called (CGenerate ?i (Inl e)) p')" for x e
    by (rule failed_call_fine [OF g]) simp_all
  ultimately show "fine cd p' (nr_ID run) (let i = ?i; answer = sm_Generate sm i; p1 = called (CGenerate i answer) p' in
       case answer of
         Inl e \<Rightarrow> (Inl (SeamFailed StagePlanGenerated e), run, p1)
       | Inr out \<Rightarrow> recorded ops run StagePlanGenerated (sy_Digest spec) (cd_plan cd out) (Fin 0)
             (save_as ops Onward (run\<lparr>nr_CurrentStage := StagePlanGenerated\<rparr>)) p1)"
    by (cases "sm_Generate sm ?i") (simp_all add: Let_def)
qed

lemma stageAdmit_fine:
  assumes "good cd p" and "recs (pp_store p) (nr_ID run) StageAdmitted = None"
  shows "fine cd p (nr_ID run) (stageAdmit ops cd sha sm run p)"
  unfolding stageAdmit_def
proof (rule loadOutput_fine [OF assms(1) refl])
  fix pl p'
  assume g: "good cd p'" and r: "recs (pp_store p') = recs (pp_store p)"
    and d: "decoded (cd_plan_of cd) (recs (pp_store p')) (nr_ID run) StagePlanGenerated pl"
  let ?b = "pz_PlanBytes pl"
  have n: "recs (pp_store p') (nr_ID run) StageAdmitted = None" using assms(2) r by simp
  have b: "plan_bytes cd (recs (pp_store p')) (nr_ID run) ?b" using d by (auto simp: plan_bytes_def)
  have "fine cd p' (nr_ID run) (recorded ops run StageAdmitted (intake_digest sha [?b]) (cd_admit cd out) (Fin 0)
      (save_as ops Onward (run\<lparr>nr_CurrentStage := StageAdmitted\<rparr>)) (called (CClassify (nr_ID run) ?b (Inr out)) p'))" for out
    by (rule recorded_save_fine [OF g _ _ n]) (use b in auto)
  moreover have "fine cd p' (nr_ID run) (Inl x, run, called (CClassify (nr_ID run) ?b (Inl e)) p')" for x e
    by (rule failed_call_fine [OF g]) simp_all
  ultimately show "fine cd p' (nr_ID run) (let answer = sm_Classify sm (nr_ID run) ?b; p1 = called (CClassify (nr_ID run) ?b answer) p' in
       case answer of
         Inl e \<Rightarrow> (Inl (SeamFailed StageAdmitted e), run, p1)
       | Inr out \<Rightarrow> recorded ops run StageAdmitted (intake_digest sha [?b]) (cd_admit cd out) (Fin 0)
             (save_as ops Onward (run\<lparr>nr_CurrentStage := StageAdmitted\<rparr>)) p1)"
    by (cases "sm_Classify sm (nr_ID run) ?b") (simp_all add: Let_def)
qed

lemma pause_fine: "good cd p \<Longrightarrow> nr_ID run = i \<Longrightarrow> fine cd p i (pause_strong_auth ops run p)"
  unfolding pause_strong_auth_def by (rule save_as_fine(1)) simp_all

lemma stageApprove_fine:
  assumes "good cd p" and "recs (pp_store p) (nr_ID run) StageApproved = None"
  shows "fine cd p (nr_ID run) (stageApprove ops cd sha sm run p)"
  unfolding stageApprove_def
proof (rule loadOutput_fine [OF assms(1) refl], rule loadOutput_fine [OF _ refl])
  fix adm pl p0 p'
  assume "good cd p0" and r0: "recs (pp_store p0) = recs (pp_store p)"
    and da: "decoded (cd_admit_of cd) (recs (pp_store p0)) (nr_ID run) StageAdmitted adm"
    and g: "good cd p'" and r: "recs (pp_store p') = recs (pp_store p0)"
    and d: "decoded (cd_plan_of cd) (recs (pp_store p')) (nr_ID run) StagePlanGenerated pl"
  let ?b = "pz_PlanBytes pl" and ?t = "aq_Tier adm"
  have n: "recs (pp_store p') (nr_ID run) StageApproved = None" using assms(2) r r0 by simp
  have b: "plan_bytes cd (recs (pp_store p')) (nr_ID run) ?b" using d by (auto simp: plan_bytes_def)
  have da': "decoded (cd_admit_of cd) (recs (pp_store p')) (nr_ID run) StageAdmitted adm" using da r by simp
  have "fine cd p' (nr_ID run) (recorded ops run StageApproved (intake_digest sha [?b, ?t]) (cd_approve cd ref) (Fin 0)
      (save_as ops Onward (run\<lparr>nr_CurrentStage := StageApproved\<rparr>)) (called (CApprove (nr_ID run) ?b ?t (Approved ref)) p'))"
    if "\<not> aq_RequiresStrongAuth adm" for ref
    by (rule recorded_save_fine [OF g _ _ n]) (use b da' that in auto)
  note approved = this
  have paused: "fine cd p' (nr_ID run) (pause_strong_auth ops run (called (CApprove (nr_ID run) ?b ?t StrongAuthRequired) p'))"
    using called_good [OF g, of "CApprove (nr_ID run) ?b ?t StrongAuthRequired"] by (auto intro: fine_trans pause_fine)
  have failed: "fine cd p' (nr_ID run) (Inl x, run, called (CApprove (nr_ID run) ?b ?t (ApproveFailed e)) p')" for x e
    by (rule failed_call_fine [OF g]) simp_all
  show "fine cd p' (nr_ID run)
      (if aq_RequiresStrongAuth adm then pause_strong_auth ops run p'
       else (let answer = sm_Approve sm (nr_ID run) ?b ?t; p1 = called (CApprove (nr_ID run) ?b ?t answer) p' in
            case answer of
              StrongAuthRequired \<Rightarrow> pause_strong_auth ops run p1
            | ApproveFailed e \<Rightarrow> (Inl (SeamFailed StageApproved e), run, p1)
            | Approved ref \<Rightarrow>
                recorded ops run StageApproved (intake_digest sha [?b, ?t]) (cd_approve cd ref) (Fin 0)
                  (save_as ops Onward (run\<lparr>nr_CurrentStage := StageApproved\<rparr>)) p1))"
    using approved paused failed pause_fine [OF g] by (simp add: Let_def split: approve_answer.splits)
qed

lemma stageStart_fine:
  assumes "good cd p" and "recs (pp_store p) (nr_ID run) StageMissionStarted = None" and "gate_passed cd (recs (pp_store p)) (nr_ID run)"
  shows "fine cd p (nr_ID run) (stageStart ops cd sha sm run p)"
  unfolding stageStart_def
proof (rule loadOutput_fine [OF assms(1) refl])
  fix ref p'
  assume g: "good cd p'" and r: "recs (pp_store p') = recs (pp_store p)"
    and d: "decoded (cd_approve_of cd) (recs (pp_store p')) (nr_ID run) StageApproved ref"
  let ?env = "kp_EnvelopeUSD (nr_Caps run)"
  define p1 where "p1 = (\<lambda>ready. called (CCheck (nr_ID run) ref ready) p')"
  have p1: "good cd (p1 ready)" "later p' (p1 ready)" "recs (pp_store (p1 ready)) = recs (pp_store p')"
      "CCheck (nr_ID run) ref ready \<in> set (pp_calls (p1 ready))" for ready
    using called_good [OF g, of "CCheck (nr_ID run) ref ready"] by (simp_all add: p1_def same_called)
  have n: "recs (pp_store (p1 ready)) (nr_ID run) StageMissionStarted = None" for ready using assms(2) r p1(3) by simp
  have gr: "grounded cd (recs (pp_store (p1 (Inr rd)))) (pp_calls (p1 (Inr rd))) (CStart (nr_ID run) ref ?env ans)" if "ry_Ready rd" for rd ans
    using d assms(3) r p1(3,4) [of "Inr rd"] that by auto
  have started: "fine cd p' (nr_ID run) (recorded ops (run\<lparr>nr_MissionID := m\<rparr>) StageMissionStarted (intake_digest sha [ref]) (cd_mission cd m) (Fin 0)
      (save_as ops Onward (run\<lparr>nr_MissionID := m, nr_CurrentStage := StageMissionStarted, nr_Status := StatusRunDone\<rparr>))
      (called (CStart (nr_ID run) ref ?env (Inr m)) (p1 (Inr rd))))" if "ry_Ready rd" for rd m
    by (rule fine_trans [OF p1(2)], rule recorded_save_fine [OF p1(1) _ gr [OF that] n]) auto
  have failed: "fine cd p' (nr_ID run) (Inl x, run, called (CStart (nr_ID run) ref ?env (Inl e)) (p1 (Inr rd)))" if "ry_Ready rd" for rd x e
    by (rule fine_trans [OF p1(2)], rule failed_call_fine [OF p1(1) _ gr [OF that]]) auto
  have waiting: "fine cd p' (nr_ID run) (save_as ops Paused (run\<lparr>nr_CurrentStage := StageAwaitingReadiness, nr_Status := StatusRunPaused\<rparr>) (p1 ready))" for ready
    by (rule fine_trans [OF p1(2)], rule save_as_fine(1) [OF p1(1)]) simp
  have broken: "fine cd p' (nr_ID run) (Inl x, run, p1 ready)" for x ready using p1(1,2) by (simp add: fine_def)
  show "fine cd p' (nr_ID run)
      (let ready = sm_Check sm (nr_ID run) ref; p1 = called (CCheck (nr_ID run) ref ready) p' in
       case ready of
         Inl e \<Rightarrow> (Inl (SeamFailed StageAwaitingReadiness e), run, p1)
       | Inr rd \<Rightarrow>
           if \<not> ry_Ready rd then save_as ops Paused (run\<lparr>nr_CurrentStage := StageAwaitingReadiness, nr_Status := StatusRunPaused\<rparr>) p1
           else
             (let answer = sm_Start sm (nr_ID run) ref ?env; p2 = called (CStart (nr_ID run) ref ?env answer) p1 in
              case answer of
                Inl e \<Rightarrow> (Inl (SeamFailed StageMissionStarted e), run, p2)
              | Inr mission \<Rightarrow>
                  (let run1 = run\<lparr>nr_MissionID := mission\<rparr> in
                   recorded ops run1 StageMissionStarted (intake_digest sha [ref]) (cd_mission cd mission) (Fin 0)
                     (save_as ops Onward (run1\<lparr>nr_CurrentStage := StageMissionStarted, nr_Status := StatusRunDone\<rparr>)) p2)))"
    using started failed waiting broken by (simp add: Let_def p1_def split: sum.splits)
qed

lemma replay_keeps:
  "nr_ID (snd (replayStage cd run stg rec)) = nr_ID run"
  "fst (replayStage cd run StageOpportunityValidated rec) = Inr Onward \<Longrightarrow> R i StageOpportunityValidated = Some rec \<Longrightarrow> gate_passed cd R i"
  by (auto simp: replayStage_def gate_passed_def decoded_def split: option.splits if_splits)

lemma runStage_fine:
  assumes "good cd p" and "stg = StageMissionStarted \<Longrightarrow> gate_passed cd (recs (pp_store p)) (nr_ID run)"
  shows "fine cd p (nr_ID run) (runStage rnd ops cd sha sm stg run p)"
    and "faithful_json cd \<Longrightarrow> stg = StageOpportunityValidated \<Longrightarrow> fst (runStage rnd ops cd sha sm stg run p) = Inr Onward \<Longrightarrow>
      gate_passed cd (recs (pp_store (snd (snd (runStage rnd ops cd sha sm stg run p))))) (nr_ID run)"
proof -
  obtain x p' where r: "store_read (\<lambda>f s. sp_GetStage ops f s (nr_ID run) stg) p = (x, p')"
    by (cases "store_read (\<lambda>f s. sp_GetStage ops f s (nr_ID run) stg) p")
  have g: "good cd p'" "later p p'" and same: "recs (pp_store p') = recs (pp_store p)"
    and x: "x = Inr y \<Longrightarrow> y = recs (pp_store p) (nr_ID run) stg" for y
    using read_good [OF r assms(1)] read_same [OF r] get_stage by auto
  have stages: "fine cd p' (nr_ID run) (case stg of
             StageOpportunityValidated \<Rightarrow> stageValidate rnd ops cd sha sm run p'
           | StageSpecSynthesized \<Rightarrow> stageSynthesize ops cd sha sm run p'
           | StagePlanGenerated \<Rightarrow> stagePlan ops cd sha sm run p'
           | StageAdmitted \<Rightarrow> stageAdmit ops cd sha sm run p'
           | StageApproved \<Rightarrow> stageApprove ops cd sha sm run p'
           | StageMissionStarted \<Rightarrow> stageStart ops cd sha sm run p'
           | _ \<Rightarrow> (Inl (SeamFailed stg ''unknown forward stage''), run, p'))" if "x = Inr None"
    using g(1) x [OF that] same assms(2) stageValidate_fine(1) [OF g(1)] stageSynthesize_fine [OF g(1)] stagePlan_fine [OF g(1)]
      stageAdmit_fine [OF g(1)] stageApprove_fine [OF g(1)] stageStart_fine [OF g(1)]
    by (cases stg) (simp_all add: fine_def later_def)
  have replayed: "fine cd p (nr_ID run) (fst (replayStage cd run stg rec), snd (replayStage cd run stg rec), p')" for rec
    using g by (simp add: fine_def replay_keeps)
  show "fine cd p (nr_ID run) (runStage rnd ops cd sha sm stg run p)"
  proof (cases x)
    case (Inl e)
    then show ?thesis using r g by (simp add: runStage_def fine_def)
  next
    case (Inr y)
    then show ?thesis using r fine_trans [OF g(2) stages] replayed by (cases y) (simp_all add: runStage_def case_prod_beta)
  qed
  assume f: "faithful_json cd" and v: "stg = StageOpportunityValidated" and on: "fst (runStage rnd ops cd sha sm stg run p) = Inr Onward"
  from on r obtain y where y: "x = Inr y" by (cases x) (auto simp: runStage_def)
  show "gate_passed cd (recs (pp_store (snd (snd (runStage rnd ops cd sha sm stg run p))))) (nr_ID run)"
  proof (cases y)
    case None
    then show ?thesis using stageValidate_fine(2) [OF g(1) _ f] x [OF y] y r v on same by (simp add: runStage_def)
  next
    case (Some rec)
    then show ?thesis using replay_keeps(2) [of cd run rec "recs (pp_store p)"] x [OF y] y r v on same by (simp add: runStage_def case_prod_beta)
  qed
qed

lemma run_stages_fine:
  assumes "good cd p" and "gate_passed cd (recs (pp_store p)) (nr_ID run)"
  shows "fine cd p (nr_ID run) (run_stages rnd ops cd sha sm stgs run p)"
  using assms
proof (induction stgs arbitrary: run p)
  case Nil
  then show ?case by (simp add: fine_def later_def)
next
  case (Cons stg stgs)
  obtain res run' p' where r: "runStage rnd ops cd sha sm stg run p = (res, run', p')" by (cases "runStage rnd ops cd sha sm stg run p")
  have f: "fine cd p (nr_ID run) (res, run', p')" using runStage_fine(1) [OF Cons.prems(1), where stg = stg and run = run and rnd = rnd and sha = sha and sm = sm] Cons.prems(2) r by simp
  then have "gate_passed cd (recs (pp_store p')) (nr_ID run')" "good cd p'" "later p p'" "nr_ID run' = nr_ID run"
    using Cons.prems(2) by (auto simp: fine_def later_def intro: gate_passed_mono)
  then show ?case using Cons.IH [of p' run'] f r by (cases "res = Inr Onward") (auto split: sum.splits progress.splits intro: fine_trans)
qed

lemma forward_fine:
  assumes "good cd p" and "faithful_json cd"
  shows "fine cd p (nr_ID run) (run_stages rnd ops cd sha sm (StageOpportunityValidated # stgs) run p)"
proof -
  obtain res run' p' where r: "runStage rnd ops cd sha sm StageOpportunityValidated run p = (res, run', p')"
    by (cases "runStage rnd ops cd sha sm StageOpportunityValidated run p")
  note f = runStage_fine [OF assms(1), of StageOpportunityValidated run rnd sha sm, unfolded r, simplified]
  show ?thesis
  proof (cases "res = Inr Onward")
    case True
    then have "gate_passed cd (recs (pp_store p')) (nr_ID run')" "good cd p'" "later p p'" "nr_ID run' = nr_ID run"
      using f assms(2) by (auto simp: fine_def)
    then show ?thesis using True r run_stages_fine [of cd p' run'] by (auto intro: fine_trans)
  next
    case False
    then show ?thesis using f(1) r by (auto split: sum.splits progress.splits)
  qed
qed

lemma Resume_good:
  assumes "good cd p" and "faithful_json cd"
  shows "good cd (snd (Resume rnd ops cd sha sm runID p))"
proof -
  obtain x p' where r: "store_read (\<lambda>f s. sp_GetRun ops f s runID) p = (x, p')" by (cases "store_read (\<lambda>f s. sp_GetRun ops f s runID) p")
  have g: "good cd p'" using read_good [OF r assms(1)] by simp
  have "good cd p1" if "run_stages rnd ops cd sha sm (tl forwardStages) run p' = (res, run1, p1)" for run res run1 p1
    using forward_fine [OF g assms(2), of run rnd sha sm "tl (tl forwardStages)"] that by (simp only: forwardStages_def list.sel fine_def) simp
  moreover have "good cd p2" if "saveRun ops run p1 = (e, p2)" "good cd p1" for run e p1 p2
    using save_good [OF that] by simp
  ultimately show ?thesis using r g by (auto simp: Resume_def Let_def split: sum.splits prod.splits progress.splits option.splits)
qed

lemma create_good: "store_write (\<lambda>f s. sp_CreateRun ops f s run) p = (e, p1) \<Longrightarrow> good cd p \<Longrightarrow> good cd p1"
proof -
  assume w: "store_write (\<lambda>f s. sp_CreateRun ops f s run) p = (e, p1)" and g: "good cd p"
  obtain e' s' where c: "sp_CreateRun ops (next_fault p) (pp_store p) run = (e', s')" by (cases "sp_CreateRun ops (next_fault p) (pp_store p) run")
  have "ok s' \<and> recs s' = recs (pp_store p)" using create_run [OF _ c] g by (simp add: good_def)
  then show ?thesis using w c g by (auto simp: store_write_def good_def)
qed

lemma idea_good:
  assumes "recordStage ops j StageIdeaRecorded d (Some json) (Fin 0) p1 = (e, p2)" and "good cd p1"
  shows "good cd p2"
proof -
  let ?rec = "\<lparr>st_RunID = j, st_Stage = StageIdeaRecorded, st_InputDigest = d, st_Output = json, st_CostUSD = Fin 0\<rparr>"
  obtain s' where w: "sp_RecordStage ops (next_fault p1) (pp_store p1) ?rec = (e, s')" and s': "pp_store p2 = s'"
    and calls: "pp_calls p2 = pp_calls p1 @ (if e = None then [] else [CUnconfirmed j StageIdeaRecorded])"
    using assms(1) by (auto simp: recordStage_def store_write_def called_def split: prod.splits if_splits)
  have "ok s'" and R: "recs s' = recs (pp_store p1) \<or> recs (pp_store p1) j StageIdeaRecorded = None
      \<and> recs s' = (\<lambda>k st. if k = j \<and> st = StageIdeaRecorded then Some ?rec else recs (pp_store p1) k st)"
    using record_stage [OF _ w] assms(2) by (auto simp: good_def)
  moreover have "trusted cd (recs s') (pp_calls p1)" by (rule trusted_idea [OF _ R]) (use assms(2) in \<open>simp add: good_def\<close>)
  then have "trusted cd (recs s') (pp_calls p2)" using calls trusted_call [of cd "recs s'" "pp_calls p1" "CUnconfirmed j StageIdeaRecorded"] by simp
  ultimately show ?thesis using s' by (simp add: good_def)
qed

lemma Start_good:
  assumes "good cd p" and "faithful_json cd"
  shows "good cd (snd (Start rnd ops cd sha sm rand i p))"
proof (cases "xs_Idea i = [] \<or> (if xs_RunID i = [] then map_option (\<lambda>r. ''intake-'' @ r) rand else Some (xs_RunID i)) = None")
  case True
  then show ?thesis using assms(1) by (auto simp: Start_def)
next
  case False
  then obtain j where j: "(if xs_RunID i = [] then map_option (\<lambda>r. ''intake-'' @ r) rand else Some (xs_RunID i)) = Some j" by auto
  have steps: "good cd (snd (case store_write (\<lambda>f s. sp_CreateRun ops f s run) p of
        (Some e, p1) \<Rightarrow> (Inl e, p1)
      | (None, p1) \<Rightarrow>
          (case recordStage ops j StageIdeaRecorded d (Some json) (Fin 0) p1 of
             (Some e, p2) \<Rightarrow> (Inl e, p2)
           | (None, p2) \<Rightarrow> Resume rnd ops cd sha sm j p2)))" for run d json
    using create_good [of run p _ _ cd] idea_good [of j d json _ _ _ cd] Resume_good [OF _ assms(2)] assms(1)
    by (simp split: prod.splits option.splits)
  show ?thesis unfolding Start_def Let_def using False j steps by simp
qed

lemma history_good:
  assumes "intake_history rnd ops cd sha s0 p" and "faithful_json cd" and "ok s0" and "\<And>i stg. recs s0 i stg = None"
  shows "good cd p"
  using assms(1)
proof induction
  case fresh
  then show ?case using assms(3,4) by (simp add: good_def trusted_def)
next
  case (start p sm rand i fs)
  then show ?case using Start_good [OF _ assms(2), of "p\<lparr>pp_faults := fs\<rparr>"] by (simp add: good_def)
next
  case (resume p sm runID fs)
  then show ?case using Resume_good [OF _ assms(2), of "p\<lparr>pp_faults := fs\<rparr>"] by (simp add: good_def)
qed

lemma trusted_justified: "trusted cd R cs \<Longrightarrow> R i stg = Some rec \<Longrightarrow> justified cd R cs i stg (st_Output rec)"
  unfolding trusted_def by blast

lemma trusted_grounded: "trusted cd R cs \<Longrightarrow> c \<in> set cs \<Longrightarrow> grounded cd R cs c"
  unfolding trusted_def by blast

lemma approval_of_record:
  assumes "trusted cd (recs s) cs" and "faithful_json cd" and "recs s i StageApproved = Some rec" and "cd_approve_of cd (st_Output rec) = Some ref"
  shows "\<exists>g pl b a. CGenerate g (Inr pl) \<in> set cs \<and> gi2_RunID g = i \<and> pz_PlanBytes pl = b \<and> CClassify i b (Inr a) \<in> set cs
    \<and> \<not> aq_RequiresStrongAuth a \<and> CApprove i b (aq_Tier a) (Approved ref) \<in> set cs"
proof -
  note just = trusted_justified [OF assms(1)]
  obtain b a ref' where ap: "CApprove i b (aq_Tier a) (Approved ref') \<in> set cs" "cd_approve cd ref' = Some (st_Output rec)"
    and b: "plan_bytes cd (recs s) i b" and a: "decoded (cd_admit_of cd) (recs s) i StageAdmitted a" "\<not> aq_RequiresStrongAuth a"
    using just [OF assms(3)] by auto
  have "ref' = ref" using ap(2) assms(2,4) by (force simp: faithful_json_def)
  obtain pr pl where pr: "recs s i StagePlanGenerated = Some pr" "cd_plan_of cd (st_Output pr) = Some pl" "pz_PlanBytes pl = b"
    using b by (auto simp: plan_bytes_def decoded_def)
  then obtain g pl' where "CGenerate g (Inr pl') \<in> set cs" "gi2_RunID g = i" "cd_plan cd pl' = Some (st_Output pr)" using just [OF pr(1)] by auto
  moreover from this have "pl' = pl" using pr(2) assms(2) by (force simp: faithful_json_def)
  moreover obtain ar where ar: "recs s i StageAdmitted = Some ar" "cd_admit_of cd (st_Output ar) = Some a" using a(1) by (auto simp: decoded_def)
  then obtain b' a' where c: "CClassify i b' (Inr a') \<in> set cs" "cd_admit cd a' = Some (st_Output ar)" "plan_bytes cd (recs s) i b'"
    using just [OF ar(1)] by auto
  moreover have "a' = a" using c(2) ar(2) assms(2) by (force simp: faithful_json_def)
  moreover have "b' = b" using c(3) pr by (auto simp: plan_bytes_def decoded_def)
  ultimately show ?thesis using ap(1) a(2) pr(3) \<open>ref' = ref\<close> by blast
qed

lemma verdict_of_record:
  assumes "trusted cd R cs" and "faithful_json cd" and "gate_passed cd R i"
  shows "\<exists>c sp idea cap out. CAdmit i c sp cap None \<in> set cs \<and> CValidate i idea cap (Inr out) \<in> set cs
    \<and> vl_Verdict out \<noteq> ''REJECT'' \<and> vl_Verdict out \<noteq> ''VALIDATE-MORE''"
proof -
  obtain rec a where r: "R i StageOpportunityValidated = Some rec" "cd_validated_of cd (st_Output rec) = Some a"
      "vl_Verdict a \<noteq> ''REJECT''" "vl_Verdict a \<noteq> ''VALIDATE-MORE''"
    using assms(3) by (auto simp: gate_passed_def decoded_def)
  then obtain idea cap out where v: "CValidate i idea cap (Inr out) \<in> set cs" "cd_validated cd out = Some (st_Output rec)"
    using trusted_justified [OF assms(1) r(1)] by auto
  moreover have "out = a" using v(2) r(2) assms(2) by (force simp: faithful_json_def)
  moreover obtain c sp where "CAdmit i c sp cap None \<in> set cs" using trusted_grounded [OF assms(1) v(1)] by auto
  ultimately show ?thesis using r(3,4) by blast
qed

lemma start_authorised:
  assumes "good cd p" and "faithful_json cd" and "CStart i ref e ans \<in> set (pp_calls p)"
  shows "(\<exists>c sp idea cap out. CAdmit i c sp cap None \<in> set (pp_calls p) \<and> CValidate i idea cap (Inr out) \<in> set (pp_calls p)
        \<and> vl_Verdict out \<noteq> ''REJECT'' \<and> vl_Verdict out \<noteq> ''VALIDATE-MORE'')
    \<and> (\<exists>g pl b a. CGenerate g (Inr pl) \<in> set (pp_calls p) \<and> gi2_RunID g = i \<and> pz_PlanBytes pl = b \<and> CClassify i b (Inr a) \<in> set (pp_calls p)
        \<and> \<not> aq_RequiresStrongAuth a \<and> CApprove i b (aq_Tier a) (Approved ref) \<in> set (pp_calls p))
    \<and> (\<exists>rd. CCheck i ref (Inr rd) \<in> set (pp_calls p) \<and> ry_Ready rd)"
proof -
  let ?R = "recs (pp_store p)"
  have t: "trusted cd ?R (pp_calls p)" using assms(1) by (simp add: good_def)
  note g = trusted_grounded [OF t assms(3)]
  from g obtain rec where "?R i StageApproved = Some rec" "cd_approve_of cd (st_Output rec) = Some ref" by (auto simp: decoded_def)
  then show ?thesis using approval_of_record [OF t assms(2)] verdict_of_record [OF t assms(2), of i] g by auto
qed

lemma seam_once: "good cd p \<Longrightarrow> succeeded i stg (pp_calls p) \<le> 1 + unconfirmed i stg (pp_calls p)"
proof -
  assume "good cd p"
  then have "succeeded i stg (pp_calls p) \<le> (if recs (pp_store p) i stg = None then 0 else 1) + unconfirmed i stg (pp_calls p)"
    by (simp add: good_def trusted_def)
  then show ?thesis by (simp split: if_splits)
qed

lemma strong_auth_final:
  assumes "good cd p" and "decoded (cd_admit_of cd) (recs (pp_store p)) i StageAdmitted a" and "aq_RequiresStrongAuth a"
  shows "recs (pp_store p) i StageApproved = None \<and> (\<forall>ref e ans. CStart i ref e ans \<notin> set (pp_calls p))"
proof -
  have t: "trusted cd (recs (pp_store p)) (pp_calls p)" using assms(1) by (simp add: good_def)
  have none: "recs (pp_store p) i StageApproved = None"
  proof (rule ccontr)
    assume "recs (pp_store p) i StageApproved \<noteq> None"
    then obtain rec where "recs (pp_store p) i StageApproved = Some rec" by auto
    from trusted_justified [OF t this] show False using assms(2,3) by (auto simp: decoded_def)
  qed
  then show ?thesis using trusted_grounded [OF t] by (fastforce simp: decoded_def)
qed

end

section \<open>Both stores keep the records\<close>

definition store_ok :: "intake_store \<Rightarrow> bool" where
  "store_ok s = list_all (\<lambda>(k, r). nr_ID r = k) (is_runs s)"

definition pg_records :: "intake_store \<Rightarrow> records" where
  "pg_records s i stg = map_of (is_stages s) (i, stg)"

definition mem_records :: "intake_store \<Rightarrow> records" where
  "mem_records s i stg = (if map_of (is_runs s) i = None then None else map_of (is_stages s) (i, stg))"

lemma store_ok_run: "store_ok s \<Longrightarrow> map_of (is_runs s) i = Some r \<Longrightarrow> nr_ID r = i"
  by (auto simp: store_ok_def list_all_iff dest: map_of_SomeD)

lemma store_ok_add [simp]: "store_ok (s\<lparr>is_runs := (i, r) # is_runs s\<rparr>) \<longleftrightarrow> nr_ID r = i \<and> store_ok s"
  by (simp add: store_ok_def)

lemma put_stage_simps [simp]:
  "is_runs (put_stage s rec) = is_runs s"
  "map_of (is_stages (put_stage s rec)) (i, stg) =
     (if i = st_RunID rec \<and> stg = st_Stage rec \<and> map_of (is_stages s) (i, stg) = None then Some rec else map_of (is_stages s) (i, stg))"
  by (auto simp: put_stage_def split: option.splits)

lemma map_of_other_runs: "map_of (filter (\<lambda>((i, _), _). i \<noteq> j) xs) (k, stg) = (if k = j then None else map_of xs (k, stg))"
  by (induction xs) auto

lemmas mem_store_defs = MemStore_def MemStore_CreateRun_def MemStore_GetRun_def MemStore_UpdateRun_def MemStore_RecordStage_def
  MemStore_GetStage_def mem_records_def

lemmas pg_store_defs = PGStore_def PGStore_CreateRun_def PGStore_GetRun_def PGStore_UpdateRun_def PGStore_RecordStage_def
  PGStore_GetStage_def pg_records_def pg_write_def

interpretation mem_intake: intake_records MemStore mem_records store_ok
proof
  fix s :: intake_store and f i r stg x e s' rec
  show "store_ok s \<Longrightarrow> sp_GetRun MemStore f s i = Inr r \<Longrightarrow> nr_ID r = i"
    by (auto simp: mem_store_defs store_ok_run split: option.splits)
  show "sp_GetStage MemStore f s i stg = Inr x \<Longrightarrow> x = mem_records s i stg"
    by (auto simp: mem_store_defs split: option.splits)
  show "store_ok s \<Longrightarrow> sp_CreateRun MemStore f s r = (e, s') \<Longrightarrow> store_ok s' \<and> mem_records s' = mem_records s"
    by (auto simp: mem_store_defs map_of_other_runs store_ok_def fun_eq_iff split: if_splits)
  show "store_ok s \<Longrightarrow> sp_UpdateRun MemStore f s r = (e, s') \<Longrightarrow> store_ok s' \<and> mem_records s' = mem_records s"
    by (auto simp: mem_store_defs fun_eq_iff split: option.splits if_splits)
  show "store_ok s \<Longrightarrow> sp_RecordStage MemStore f s rec = (e, s') \<Longrightarrow> store_ok s'
      \<and> (mem_records s' = mem_records s \<and> (e = None \<longrightarrow> mem_records s (st_RunID rec) (st_Stage rec) \<noteq> None)
         \<or> mem_records s (st_RunID rec) (st_Stage rec) = None
           \<and> mem_records s' = (\<lambda>j st. if j = st_RunID rec \<and> st = st_Stage rec then Some rec else mem_records s j st))"
    by (auto simp: mem_store_defs store_ok_def fun_eq_iff split: option.splits if_splits)
qed

interpretation pg_intake: intake_records "PGStore jsonb" pg_records store_ok for jsonb
proof
  fix s :: intake_store and f i r stg x e s' rec
  show "store_ok s \<Longrightarrow> sp_GetRun (PGStore jsonb) f s i = Inr r \<Longrightarrow> nr_ID r = i"
    by (auto simp: pg_store_defs store_ok_run split: option.splits if_splits)
  show "sp_GetStage (PGStore jsonb) f s i stg = Inr x \<Longrightarrow> x = pg_records s i stg"
    by (auto simp: pg_store_defs split: if_splits)
  show "store_ok s \<Longrightarrow> sp_CreateRun (PGStore jsonb) f s r = (e, s') \<Longrightarrow> store_ok s' \<and> pg_records s' = pg_records s"
    by (auto simp: pg_store_defs store_ok_def fun_eq_iff split: if_splits option.splits io_fault.splits)
  show "store_ok s \<Longrightarrow> sp_UpdateRun (PGStore jsonb) f s r = (e, s') \<Longrightarrow> store_ok s' \<and> pg_records s' = pg_records s"
    by (auto simp: pg_store_defs fun_eq_iff split: option.splits io_fault.splits dest: store_ok_run)
  show "store_ok s \<Longrightarrow> sp_RecordStage (PGStore jsonb) f s rec = (e, s') \<Longrightarrow> store_ok s'
      \<and> (pg_records s' = pg_records s \<and> (e = None \<longrightarrow> pg_records s (st_RunID rec) (st_Stage rec) \<noteq> None)
         \<or> pg_records s (st_RunID rec) (st_Stage rec) = None
           \<and> pg_records s' = (\<lambda>j st. if j = st_RunID rec \<and> st = st_Stage rec then Some rec else pg_records s j st))"
    by (auto simp: pg_store_defs store_ok_def fun_eq_iff split: option.splits io_fault.splits if_splits)
qed

section \<open>What any history of the pipeline shows\<close>

abbreviation empty_intake :: intake_store where
  "empty_intake \<equiv> \<lparr>is_runs = [], is_stages = []\<rparr>"

text \<open>The two implementations of the interface.\<close>

definition intake_backend :: "intake_store store_ops \<Rightarrow> bool" where
  "intake_backend ops = (ops = MemStore \<or> (\<exists>jsonb. ops = PGStore jsonb))"

lemma empty_intake_simps [simp]: "store_ok empty_intake" "mem_records empty_intake i stg = None" "pg_records empty_intake i stg = None"
  by (simp_all add: store_ok_def mem_records_def pg_records_def)

lemma start_authorised_on_backends:
  assumes "intake_backend ops" and "faithful_json cd" and "intake_history rnd ops cd sha empty_intake p"
    and "CStart i ref e ans \<in> set (pp_calls p)"
  shows "(\<exists>c sp idea cap out. CAdmit i c sp cap None \<in> set (pp_calls p) \<and> CValidate i idea cap (Inr out) \<in> set (pp_calls p)
        \<and> vl_Verdict out \<noteq> ''REJECT'' \<and> vl_Verdict out \<noteq> ''VALIDATE-MORE'')
    \<and> (\<exists>g pl b a. CGenerate g (Inr pl) \<in> set (pp_calls p) \<and> gi2_RunID g = i \<and> pz_PlanBytes pl = b \<and> CClassify i b (Inr a) \<in> set (pp_calls p)
        \<and> \<not> aq_RequiresStrongAuth a \<and> CApprove i b (aq_Tier a) (Approved ref) \<in> set (pp_calls p))
    \<and> (\<exists>rd. CCheck i ref (Inr rd) \<in> set (pp_calls p) \<and> ry_Ready rd)"
  using assms(1)
proof (unfold intake_backend_def, elim disjE exE)
  assume "ops = MemStore"
  then show ?thesis
    using mem_intake.start_authorised [OF mem_intake.history_good [OF _ assms(2)] assms(2,4)] assms(3) by (simp del: ex_simps)
next
  fix jsonb
  assume "ops = PGStore jsonb"
  then show ?thesis
    using pg_intake.start_authorised [OF pg_intake.history_good [OF _ assms(2)] assms(2,4)] assms(3) by (simp del: ex_simps)
qed

text \<open>
  C24: A mission is started for a run only when the budget admitted the research, the validator answered
  with a verdict that is neither REJECT nor VALIDATE-MORE, a plan was generated for the run, exactly
  its bytes were classified without the need of a strong authentication and approved with that tier
  and the reference the mission is started with, and the readiness check of this reference passed:
  after any history of starts and resumes over either store, with any faults.
\<close>
theorem intake_start_authorised:
  assumes "intake_backend ops" and "faithful_json cd" and "intake_history rnd ops cd sha empty_intake p"
    and "CStart i ref e ans \<in> set (pp_calls p)"
  shows "(\<exists>c sp idea cap out. CAdmit i c sp cap None \<in> set (pp_calls p) \<and> CValidate i idea cap (Inr out) \<in> set (pp_calls p)
        \<and> vl_Verdict out \<noteq> ''REJECT'' \<and> vl_Verdict out \<noteq> ''VALIDATE-MORE'')
    \<and> (\<exists>g pl b a. CGenerate g (Inr pl) \<in> set (pp_calls p) \<and> gi2_RunID g = i \<and> pz_PlanBytes pl = b \<and> CClassify i b (Inr a) \<in> set (pp_calls p)
        \<and> \<not> aq_RequiresStrongAuth a \<and> CApprove i b (aq_Tier a) (Approved ref) \<in> set (pp_calls p))
    \<and> (\<exists>rd. CCheck i ref (Inr rd) \<in> set (pp_calls p) \<and> ry_Ready rd)"
  using start_authorised_on_backends [OF assms] .


text \<open>
  With the admission classifier behind the seam, a mission is started only on a plan that parses
  and whose tier leaves the decision to the machine.
\<close>
lemma intake_never_starts_human_tier:
  assumes "intake_backend ops" and "faithful_json cd" and "intake_history rnd ops cd sha empty_intake p"
    and "CStart i ref e ans \<in> set (pp_calls p)"
    and "\<And>j b r. CClassify j b r \<in> set (pp_calls p) \<Longrightarrow> r = AdmitterAdapter_Classify yaml plan_text admission_text policy j b"
  shows "\<exists>b doc dec. CApprove i b (Tier_String (de_Tier dec)) (Approved ref) \<in> set (pp_calls p) \<and> ParseBytes yaml b = Inr doc
    \<and> Admission_Classify (Some doc) policy = (dec, None) \<and> de_Tier dec \<noteq> TierH"
proof -
  obtain b a where c: "CClassify i b (Inr a) \<in> set (pp_calls p)" "\<not> aq_RequiresStrongAuth a"
      "CApprove i b (aq_Tier a) (Approved ref) \<in> set (pp_calls p)"
    using start_authorised_on_backends [OF assms(1-4)] by blast
  obtain doc dec where "ParseBytes yaml b = Inr doc" "Admission_Classify (Some doc) policy = (dec, None)"
      "aq_Tier a = Tier_String (de_Tier dec)" "de_Tier dec \<noteq> TierH"
    using AdmitterAdapter_exact [OF assms(5) [OF c(1), symmetric]] c(2) by blast
  then show ?thesis using c(3) by metis
qed

text \<open>
  A run whose admission asks for a strong authentication never gets an approval recorded and never
  starts a mission, whatever happens after: the pause at the approval cannot be left.
\<close>
lemma strong_auth_pause_is_final:
  assumes "faithful_json cd" and "intake_history rnd (PGStore jsonb) cd sha empty_intake p"
    and "map_of (is_stages (pp_store p)) (i, StageAdmitted) = Some rec" and "cd_admit_of cd (st_Output rec) = Some a" and "aq_RequiresStrongAuth a"
  shows "map_of (is_stages (pp_store p)) (i, StageApproved) = None \<and> CStart i ref e ans \<notin> set (pp_calls p)"
  using pg_intake.strong_auth_final [OF pg_intake.history_good [OF assms(2,1)], of i a] assms(3-5)
  by (simp add: decoded_def pg_records_def)

section \<open>Examples and findings\<close>

definition sample_verdict :: "string \<Rightarrow> validate_output" where
  "sample_verdict v = \<lparr>vl_Verdict = v, vl_Blockers = [], vl_NextActions = [], vl_SpentUSD = Fin 2, vl_Digest = []\<rparr>"

definition sample_spec :: synth_output where
  "sample_spec = \<lparr>sy_SpecJSON = ''{}'', sy_Digest = ''d''\<rparr>"

definition sample_plan :: plan_output where
  "sample_plan = \<lparr>pz_PlanID = ''r1-plan'', pz_PlanBytes = ''plan''\<rparr>"

definition sample_admission :: admit_output where
  "sample_admission = \<lparr>aq_Tier = ''A0'', aq_PolicyDigest = [], aq_RequiresStrongAuth = False\<rparr>"

definition sample_seams :: "string \<Rightarrow> seams" where
  "sample_seams v = \<lparr>sm_Admit = DefaultBudgetGate_Admit Fin, sm_Validate = (\<lambda>_ _ _. Inr (sample_verdict v)), sm_Synthesize = (\<lambda>_ _. Inr sample_spec),
     sm_Generate = (\<lambda>_. Inr sample_plan), sm_Classify = (\<lambda>_ _. Inr sample_admission),
     sm_Approve = FuncApprover_Approve (\<lambda>_ _ _. Approved ''ok''), sm_Check = AlwaysReady, sm_Start = (\<lambda>_ _ _. Inr ''m1'')\<rparr>"

text \<open>A JSON that can write the artifacts of the examples.\<close>

definition writes :: "'a \<Rightarrow> 'a \<Rightarrow> string option" where
  "writes x y = (if y = x then Some ''x'' else None)"

definition reads :: "'a \<Rightarrow> string \<Rightarrow> 'a option" where
  "reads x s = (if s = ''x'' then Some x else None)"

definition sample_json :: "string \<Rightarrow> artifact_codec" where
  "sample_json v = \<lparr>cd_idea = id, cd_validated = writes (sample_verdict v), cd_validated_of = reads (sample_verdict v),
     cd_spec = writes sample_spec, cd_spec_of = reads sample_spec, cd_plan = writes sample_plan, cd_plan_of = reads sample_plan,
     cd_admit = writes sample_admission, cd_admit_of = reads sample_admission, cd_approve = Some, cd_approve_of = Some,
     cd_mission = Some, cd_mission_of = Some\<rparr>"

lemma sample_json_faithful: "faithful_json (sample_json v)"
  by (auto simp: faithful_json_def sample_json_def writes_def reads_def split: if_splits)

definition sample_input :: intake_input where
  "sample_input = \<lparr>xs_RunID = ''r1'', xs_Idea = ''idea'', xs_Budget = Fin 10,
     xs_Origin = \<lparr>rg_Channel = [], rg_PrincipalID = [], rg_ChatID = 0, rg_MessageHash = []\<rparr>\<rparr>"

definition first_call :: "string \<Rightarrow> io_fault list \<Rightarrow> (intake_error + intake_run) \<times> intake_store pipe" where
  "first_call v fs = Start Fin (PGStore Some) (sample_json v) id (sample_seams v) None sample_input
     \<lparr>pp_store = empty_intake, pp_faults = fs, pp_calls = []\<rparr>"

definition second_call :: "string \<Rightarrow> io_fault list \<Rightarrow> (intake_error + intake_run) \<times> intake_store pipe" where
  "second_call v fs = Resume Fin (PGStore Some) (sample_json v) id (sample_seams v) ''r1'' ((snd (first_call v fs))\<lparr>pp_faults := []\<rparr>)"

lemma sample_history:
  "intake_history Fin (PGStore Some) (sample_json v) id empty_intake (snd (first_call v fs))"
  "intake_history Fin (PGStore Some) (sample_json v) id empty_intake (snd (second_call v fs))"
proof -
  show f: "intake_history Fin (PGStore Some) (sample_json v) id empty_intake (snd (first_call v fs))" for fs
    using intake_history.start [OF intake_history.fresh, of Fin "PGStore Some" "sample_json v" id empty_intake _ None sample_input fs]
    by (simp add: first_call_def)
  show "intake_history Fin (PGStore Some) (sample_json v) id empty_intake (snd (second_call v fs))"
    unfolding second_call_def by (rule intake_history.resume [OF f])
qed

lemma sample_backend: "intake_backend (PGStore jsonb)"
  by (auto simp: intake_backend_def)

theorem intake_start_authorised_witness:
  "CStart ''r1'' ''ok'' (Fin 10) (Inr ''m1'') \<in> set (pp_calls (snd (first_call ''BUILD'' [])))
   \<and> (\<exists>g pl b a. CGenerate g (Inr pl) \<in> set (pp_calls (snd (first_call ''BUILD'' []))) \<and> gi2_RunID g = ''r1'' \<and> pz_PlanBytes pl = b
      \<and> CClassify ''r1'' b (Inr a) \<in> set (pp_calls (snd (first_call ''BUILD'' []))) \<and> \<not> aq_RequiresStrongAuth a
      \<and> CApprove ''r1'' b (aq_Tier a) (Approved ''ok'') \<in> set (pp_calls (snd (first_call ''BUILD'' []))))"
proof -
  have "CStart ''r1'' ''ok'' (Fin 10) (Inr ''m1'') \<in> set (pp_calls (snd (first_call ''BUILD'' [])))" by code_simp
  then show ?thesis using intake_start_authorised [OF sample_backend sample_json_faithful sample_history(1)] by blast
qed

text \<open>The bound is reached: the write of the verdict fails, and the validator is asked and paid again.\<close>

abbreviation unwritten_verdict :: "io_fault list" where
  "unwritten_verdict \<equiv> [IoOk, IoOk, IoOk, IoOk, IoFailed]"


text \<open>
  An unknown verdict is an error of the call that receives it, but it has been recorded by then, and
  the next resume takes the record for a passed gate: the mission starts.
\<close>
lemma unknown_verdict_passes_on_resume:
  "fst (first_call ''MAYBE'' []) = Inl (UnknownVerdict ''MAYBE'')"
  "map_sum id nr_MissionID (fst (second_call ''MAYBE'' [])) = Inr ''m1''"
  by code_simp+

text \<open>
  When the update of a rejected run fails after its verdict was recorded, the run is left running
  without its spend, and no resume repairs it.
\<close>
lemma rejected_run_left_running:
  "map_sum id (\<lambda>r. (nr_Status r, nr_SpentUSD r)) (fst (second_call ''REJECT'' [IoOk, IoOk, IoOk, IoOk, IoOk, IoFailed])) = Inr (StatusRunRunning, Fin 0)"
  by code_simp

text \<open>A run that needs more validation is done, and resuming it changes nothing.\<close>

lemma validate_more_not_resumable:
  "map_sum id nr_Status (fst (second_call ''VALIDATE-MORE'' [])) = Inr StatusRunDone"
  "pp_calls (snd (second_call ''VALIDATE-MORE'' [])) = pp_calls (snd (first_call ''VALIDATE-MORE'' []))"
  by code_simp+

text \<open>Without a rejection by a comparison the budget gate admits an envelope that is not a number.\<close>

lemma NaN_budget_admitted: "DefaultBudgetGate_Admit rnd runID (CapsFromBudget rnd NaN) spent request = None"
  by (simp add: DefaultBudgetGate_Admit_def CapsFromBudget_def Let_def f64_le_def f64_eq_def)

end
