(* ===== verification/Spec2Isabelle.thy ===== *)
theory Spec2Isabelle
  imports State_Model Plan_Topology Pec Lease_Store Receipts Cost_Ledger Ext_Ops Integrator Change_Set Admission Recovery Executors Provenance Audit_Log
    Deliver_Plan Policy Envelope Start_Delivery Mission_Loop Portfolio Improvement Projection Notify Opportunity Intake
begin

text \<open>
  Verification of The Foundry (\<open>okfriansyah-moh/the-foundry\<close>): a daemon that takes signed plans,
  executes their tasks with coding agents in isolated worktrees, validates and integrates the
  result, and runs missions that observe a product and deliver improvements to it.

  \<^bold>\<open>The program.\<close> A plan document is parsed, its task graph checked and its effects classified
  into an admission tier. A human signs an approval. The policy layers are compiled into one
  effective policy, from which an execution envelope is resolved; a delivery is then started as
  a durable workflow. The workflow loads the approved plan, orders its tasks in waves, and for
  each task rechecks the approval, reserves budget, takes a lease and a worktree, calls an
  executor through the policy allowlist and the sandbox, validates what was done, and releases
  the worktree. External effects go through receipts and a ledger of external operations, pushes
  through a branch integrator, changes of several repositories through a saga. A supervisor
  looks for stuck workflows. Transitions are appended to a stream, which a projector folds into
  a table of states; events of interest reach the operators through a notification engine. A
  mission is a long-lived workflow that observes revenue, pauses at human gates and starts
  deliveries; a portfolio bounds and schedules several missions; the improvement workflow
  proposes, admits, delivers and judges one change.

  \<^bold>\<open>The theories, and the code they model\<close> (paths below \<open>src/internal\<close>):

  \<^item> \<open>Prelude\<close>: Go's \<open>strings\<close>, \<open>sort\<close>, decimal formatting and \<open>float64\<close>; shared lemmas.
  \<^item> \<open>State_Model\<close>: \<open>state\<close>. Statuses, registries and \<open>Transition.Validate\<close>; an accepted stream
    follows the status machine and ends for good at a terminal status.
  \<^item> \<open>Plan_Doc\<close>, \<open>Plan_Topology\<close>: \<open>plan\<close>. Schema, parser, serializer, digest; the static check of
    the task graph. Parsing inverts serializing; the check is sound and complete.
  \<^item> \<open>Pec\<close>: \<open>pec\<close>. Waves by layers of the dependency graph, progress and remediation.
  \<^item> \<open>Verify\<close>: \<open>verify\<close>, \<open>executor/subprocess.go\<close>. Success means that every declared command was
    permitted, ran and exited with 0.
  \<^item> \<open>Admission\<close>: \<open>admission\<close>. Tiers, detector, rules; the tier is exactly the highest floor.
  \<^item> \<open>Provenance\<close>, \<open>Audit_Log\<close>: \<open>provenance\<close>. Signed approvals, revocation for good, the plan file
    that matches its approval; the hash chain of the audit log and what it detects.
  \<^item> \<open>Policy\<close>: \<open>policy/compiler\<close>, \<open>policy/pdp\<close>. Layers only tighten; a refusal names a real fault.
  \<^item> \<open>Envelope\<close>, \<open>Start_Delivery\<close>: \<open>kernel/execution_envelope.go\<close> and its stores, \<open>kernel/start.go\<close>,
    lanes and repository resolver. With which authority a delivery starts.
  \<^item> \<open>Lease_Store\<close>, \<open>Receipts\<close>, \<open>Cost_Ledger\<close>, \<open>Ext_Ops\<close>: \<open>kernel/lease.go\<close>, \<open>idempotency.go\<close>,
    \<open>transitions.go\<close>, \<open>budget.go\<close>, \<open>externalop.go\<close>, \<open>ledger\<close>. Fencing, effects at most once, budgets
    whose totals are true and whose ceilings hold.
  \<^item> \<open>Executors\<close>: \<open>executor/capability\<close>, the selector, the sandbox decision and \<open>ExecuteTask\<close>.
  \<^item> \<open>Integrator\<close>, \<open>Change_Set\<close>: \<open>kernel/integrator\<close>, \<open>changeset.go\<close>, \<open>atomicgroup.go\<close>.
  \<^item> \<open>Recovery\<close>: \<open>recovery\<close>. Retry policy on 64-bit words, evidence of impossibility, supervisor.
  \<^item> \<open>Deliver_Plan\<close>: \<open>kernel/workflow.go\<close>. The delivery workflow over the answers of its activities.
  \<^item> \<open>Mission\<close>, \<open>Mission_Store\<close>, \<open>Mission_Loop\<close>: \<open>mission\<close>. Contract and evaluator, ceremony, store
    and activities, and the workflow as a step relation that refines a small protocol.
  \<^item> \<open>Portfolio\<close>, \<open>Improvement\<close>: \<open>mission/portfolio*.go\<close>, \<open>mission/improve*.go\<close>, \<open>observe.go\<close>.
  \<^item> \<open>Opportunity\<close>: \<open>opportunity\<close>, \<open>kernel/opportunity_gate.go\<close>. Labels, score, verdict, store and the
    gate that derives a verdict again before anything is built; floats with rounding.
  \<^item> \<open>Intake\<close>: \<open>intake\<close>. The pipeline from an idea over verdict, plan, admission and approval to a mission,
    both stores of its stage records and the adapters that decide; a seam that succeeded is not called
    again, a mission starts only behind all gates.
  \<^item> \<open>Projection\<close>: \<open>projection\<close>. Projector, rebuild and roll-out; the table converges to the latest
    transition of every workflow.
  \<^item> \<open>Notify\<close>: \<open>notify\<close>, outbound half. Batcher, both outboxes, sender and delivery loop; nothing is
    sent twice, coalescing loses nothing.
  \<^item> \<open>Spec2Isabelle\<close>: the properties that span these components.

  \<^bold>\<open>How the code is modelled.\<close> A struct is a record with the fields of the source, an enumeration a
  datatype or the strings it is made of, a Go error a value of a sum or option type, so that
  every early return is a branch. A database is a record of its tables with the constraints of
  the migrations; an operation is one transaction. What the outside world answers (clocks, random
  numbers, faults of the database, remote services, operators) is an input of the operation,
  and what the code does to it is an output, as a state or a list of events. An interface of
  the source with several implementations is a locale, interpreted for each of them: leases,
  receipts, transition streams, budgets, external operations, branch queues, approvals,
  envelopes, portfolios, outboxes and the stage records of an intake. Concurrency is explicit: the tasks of a wave are
  interleaved by an arbitrary schedule, other sessions of the database act between two
  transactions, the signals of a mission arrive at any time.

  \<^bold>\<open>Parameters.\<close> JSON, YAML, SHA-256, MD5, Ed25519, Unicode normalisation, the rego evaluator, the
  rounding of floating-point operations, git and the hosting services, the operating system, the
  sandbox engine and the token buckets of \<open>golang.org/x/time/rate\<close> are arguments of the
  definitions that call them. A theorem that relies on such code says on what.

  \<^bold>\<open>Termination.\<close> No fuel is used: loops recurse on lists or carry a measure. The delivery workflow
  consumes a finite list of answers, and \<^const>\<open>None\<close> means that it still waits for one;
  \<open>DeliverPlan_completes\<close> shows when it does not. A mission is a step relation. Draining the
  projector ends because every tick moves the offset; a roll-out makes at most ten attempts.

  \<^bold>\<open>Beside the properties\<close> the theories state what the code does not guarantee, each as a theorem
  with a concrete run: a lost receipt that repeats an effect, overlapping waits that
  record an invalid stream, ceilings that NaN evades, a transition that commits behind the projector's offset, a
  digest that is lost when the outbox fails, and others.

  \<^bold>\<open>Not modelled\<close>: the clients of external services (payments, deployments, source control, blob
  storage, agent runtimes) and the sandbox engine, whose answers are inputs; the HTTP interface,
  authentication and the inbound Telegram commands; the research behind an opportunity, the
  synthesis of specifications and the evolution of skills, which feed plans that the modelled checks examine again; text
  templates, metrics, tracing, benchmarks, command-line wiring and loading of configuration.
\<close>

section \<open>From the checked plan to its delivery\<close>

lemma sound_topology_deps:
  assumes "ValidateTopology (TopologyFromDocument doc) = []"
  shows "distinct (map tk_ID (dc_Tasks doc))" "snd ` doc_deps doc \<subseteq> tk_ID ` set (dc_Tasks doc)" "acyclic (doc_deps doc)"
proof -
  have s: "sound_topology (TopologyFromDocument doc)" using assms ValidateTopology_Nil_iff by blast
  then show "distinct (map tk_ID (dc_Tasks doc))" by (simp add: sound_topology_def TopologyFromDocument_def comp_def)
  show "acyclic (doc_deps doc)" using s by (simp add: sound_topology_def)
  show "snd ` doc_deps doc \<subseteq> tk_ID ` set (dc_Tasks doc)"
    using s by (force simp: sound_topology_def TopologyFromDocument_def dep_relation_def)
qed

lemma sample_topology_checked: "ValidateTopology (TopologyFromDocument (zero_document\<lparr>dc_Tasks := sample_tasks\<rparr>)) = []"
  by code_simp

text \<open>
  C1: A plan is delivered in the order of its dependencies. When the topology check accepts the
  loaded tasks, then whenever the workflow calls the executor for a task, every task that
  task depends on has passed its validation and has released its worktree, however the
  calls of the tasks of one wave are interleaved.
\<close>

theorem DeliverPlan_respects_dependencies:
  assumes "DeliverPlan sha256hex w wid i = Some (res, err, pre @ DTask (TEExecute x) # post)" and "dw_Load w = Inr tasks"
    and "ValidateTopology (TopologyFromDocument (zero_document\<lparr>dc_Tasks := tasks\<rparr>)) = []"
    and "fair_schedule w" and "\<And>t. list_all (\<lambda>(a, _). reasoned a) (dw_Rounds w t)"
    and "t \<in> set tasks" "tk_ID t = xi_TaskID x" and "u \<in> set tasks" "tk_ID u \<in> set (tk_DependsOn t)"
  shows "DTask (TERelease wid (tk_ID u)) \<in> set pre \<and> list_ex (\<lambda>(a, _). passed a) (dw_Rounds w u)"
  using DeliverPlan_order [OF assms(1,2) _ _ _ assms(4-9)] sound_topology_deps [OF assms(3)] by simp

theorem DeliverPlan_respects_dependencies_witness:
  "\<exists>res err pre post. DeliverPlan (\<lambda>s. s) (plain_world sample_tasks [(passing_answers, True)] concat) ''w'' plain_input
       = Some (res, err, pre @ DTask (TEExecute (execute_input ''w'' plain_input (plain_task ''t2'' [''t1'']) ''fake'' ''/ws'')) # post)
     \<and> DTask (TERelease ''w'' ''t1'') \<in> set pre"
proof -
  let ?w = "plain_world sample_tasks [(passing_answers, True)] concat"
  let ?x = "execute_input ''w'' plain_input (plain_task ''t2'' [''t1'']) ''fake'' ''/ws''"
  obtain res err tr where run: "DeliverPlan (\<lambda>s. s) ?w ''w'' plain_input = Some (res, err, tr)" "DTask (TEExecute ?x) \<in> set tr"
    using sample_executes by auto
  then obtain pre post where tr: "tr = pre @ DTask (TEExecute ?x) # post" by (auto dest: split_list)
  have "DTask (TERelease ''w'' (tk_ID (plain_task ''t1'' []))) \<in> set pre \<and> list_ex (\<lambda>(a, _). passed a) (dw_Rounds ?w (plain_task ''t1'' []))"
    by (rule DeliverPlan_respects_dependencies [OF run(1) [unfolded tr], of sample_tasks "plain_task ''t2'' [''t1'']"])
      (use sample_topology_checked in \<open>simp_all add: plain_world_def fair_schedule_def passing_answers_ok sample_tasks_def plain_task_def execute_input_def\<close>)
  then show ?thesis using run(1) tr by (auto simp: plain_task_def)
qed

text \<open>
  Admission and scheduling agree: a plan that the topology check accepts is always given a
  wave proposal, and the kernel runs it in exactly those layers instead of falling back to
  one task at a time.
\<close>

theorem checked_plan_runs_in_layers:
  assumes "ValidateTopology (TopologyFromDocument doc) = []"
  shows "\<exists>p. ProposeWaves doc = Inr p \<and> map (map tk_ID) (pecWaves (dc_Tasks doc)) = wp_Waves p"
proof -
  let ?doc = "zero_document\<lparr>dc_Tasks := dc_Tasks doc\<rparr>"
  note sound = sound_topology_deps [OF assms]
  have same: "ProposeWaves ?doc = ProposeWaves doc" unfolding ProposeWaves_def Let_def by (simp cong: sum.case_cong)
  obtain p where p: "ProposeWaves doc = Inr p" using sound(2,3) ProposeWaves_exists_iff [of doc] by auto
  then have "map (map tk_ID) (pecWaves (dc_Tasks doc)) = wp_Waves p" using pecWaves_accepted [OF sound(1)] same by simp
  then show ?thesis using p by blast
qed

theorem checked_plan_runs_in_layers_witness:
  "\<exists>p. ProposeWaves (zero_document\<lparr>dc_Tasks := sample_tasks\<rparr>) = Inr p \<and> wp_Waves p = [[''t1''], [''t2'']]"
  using checked_plan_runs_in_layers [OF sample_topology_checked] by (auto simp: sample_waves plain_task_def)

section \<open>From the compiled policy to the executor\<close>

text \<open>
  C2: The platform's limits reach every started delivery. When the daemon compiled its policy from
  the platform defaults and the organisation and profile files, and starts deliveries under it
  with an envelope store, then the request it hands to the workflow service allows no executor
  outside the platform's two, and requires the sandbox whenever the delivery is unattended or
  the organisation or profile layer that was loaded asks for it.
\<close>

theorem started_delivery_within_platform:
  assumes "CompileFourLayer pmarshal psha yl files orgPath profilePath = Inr (pol, pack)"
    and "sd_Policy deps = Some pol" and "sd_HasEnvelopeStore deps"
    and "StartDelivery marshal sha insert_env execute put_tr deps i w = (Inr out, w')"
  shows "\<exists>request. execute (sw_Workflows w) (so_WorkflowID out) (so_TaskQueue out) request = (Inr (so_RunID out), sw_Workflows w')
    \<and> set (di_ExecutorAllowlist request) \<subseteq> {''fake'', ''claude-code''} \<and> di_ExecutorAllowlist request \<noteq> []
    \<and> (si_Unattended i \<longrightarrow> di_RequireSandbox request)
    \<and> (\<forall>org. orgPath \<noteq> [] \<and> LoadOrgLayer yl files orgPath = Inr (org, pack) \<and> lp_RequireSandbox org = Some True
          \<longrightarrow> di_RequireSandbox request)
    \<and> (\<forall>profile. profilePath \<noteq> [] \<and> LoadProfileLayer yl files profilePath = Inr profile \<and> lp_RequireSandbox profile = Some True
          \<longrightarrow> di_RequireSandbox request)"
proof -
  obtain org profile where c: "Compile pmarshal psha PlatformDefaults org profile WorkflowLayer = Inr pol"
    and o: "orgPath \<noteq> [] \<Longrightarrow> LoadOrgLayer yl files orgPath = Inr (org, pack)"
    and p: "profilePath \<noteq> [] \<Longrightarrow> LoadProfileLayer yl files profilePath = Inr profile"
    using CompileFourLayer_Inr [OF assms(1)] by metis
  obtain p0 where p0: "platformEffective PlatformDefaults = Inr p0" "set (po_ExecutorAllowlist p0) = {''fake'', ''claude-code''}"
    using PlatformDefaults_effective by blast
  obtain request where x: "execute (sw_Workflows w) (so_WorkflowID out) (so_TaskQueue out) request = (Inr (so_RunID out), sw_Workflows w')"
    and n: "di_ExecutorAllowlist request \<noteq> []" and g: "granted deps pol i request"
    using StartDelivery_grants [OF assms(4)] assms(2,3) by auto
  have m: "set (di_ExecutorAllowlist request) = set (po_ExecutorAllowlist (re_Effective pol))"
    using g mset_eq_setD by (auto simp: granted_def)
  have s: "di_RequireSandbox request" if "po_RequireSandbox (re_Effective pol)"
    using g that by (simp add: granted_def profileRequiresSandbox_def RequireSandbox_def)
  have lo: "di_RequireSandbox request"
    if "orgPath \<noteq> []" "LoadOrgLayer yl files orgPath = Inr (org', pack)" "lp_RequireSandbox org' = Some True" for org'
    using that o s Compile_narrows(2) [OF c p0(1)] by simp
  have lp: "di_RequireSandbox request"
    if "profilePath \<noteq> []" "LoadProfileLayer yl files profilePath = Inr profile'" "lp_RequireSandbox profile' = Some True" for profile'
    using that p s Compile_narrows(2) [OF c p0(1)] by simp
  have "set (di_ExecutorAllowlist request) \<subseteq> {''fake'', ''claude-code''}"
    unfolding m using Compile_narrows(1) [OF c p0(1)] unfolding p0(2) .
  moreover have "si_Unattended i \<longrightarrow> di_RequireSandbox request" using g by (simp add: granted_def)
  ultimately show ?thesis using x n lo lp by blast
qed

definition org_file :: string where "org_file = ''org.yaml''"

definition sample_yaml :: yaml_lib where
  "sample_yaml = \<lparr>yl_tree = (\<lambda>_. Inr (YamlNode DocumentNode [] [])), yl_layer = (\<lambda>_. Inr \<lparr>ly_Policy = sample_org, ly_OrgGovernance = None\<rparr>)\<rparr>"

lemma sample_four_layers:
  "\<exists>pol. CompileFourLayer (\<lambda>_. []) id sample_yaml (\<lambda>_. Some []) org_file [] = Inr (pol, empty_pack) \<and> re_Digest pol \<noteq> []
     \<and> po_ExecutorAllowlist (re_Effective pol) = [''claude-code''] \<and> po_ValidationAllowlistRef (re_Effective pol) \<noteq> []
     \<and> fmlookup (po_DeploymentModes (re_Effective pol)) ''production'' = Some ModeCommand"
  by (simp add: CompileFourLayer_def LoadOrgLayer_def ParseOrgLayerYAML_def decodeLayer_def sample_yaml_def org_file_def Let_def
      ValidateOrgGovernancePack_def empty_pack_def policy_eval sample_org_def WorkflowLayer_def)

theorem started_delivery_within_platform_witness:
  "\<exists>pol out w' request. CompileFourLayer (\<lambda>_. []) id sample_yaml (\<lambda>_. Some []) org_file [] = Inr (pol, empty_pack)
    \<and> start_at pol 7 empty_world = (Inr out, w')
    \<and> service_list [] (so_WorkflowID out) (so_TaskQueue out) request = (Inr (so_RunID out), sw_Workflows w')
    \<and> set (di_ExecutorAllowlist request) \<subseteq> {''fake'', ''claude-code''} \<and> di_RequireSandbox request"
proof -
  obtain pol where c: "CompileFourLayer (\<lambda>_. []) id sample_yaml (\<lambda>_. Some []) org_file [] = Inr (pol, empty_pack)" and u: "usable pol"
    using sample_four_layers by (auto simp: usable_def)
  obtain out w' where s: "start_at pol 7 empty_world = (Inr out, w')" using first_start [OF u] by blast
  have f: "sd_Policy (sample_start_deps pol 7) = Some pol" "sd_HasEnvelopeStore (sample_start_deps pol 7)" "si_Unattended sample_start"
    "sw_Workflows empty_world = []"
    by (simp_all add: sample_start_deps_def sample_start_def empty_world_def)
  obtain request where "service_list (sw_Workflows empty_world) (so_WorkflowID out) (so_TaskQueue out) request = (Inr (so_RunID out), sw_Workflows w')"
    "set (di_ExecutorAllowlist request) \<subseteq> {''fake'', ''claude-code''}" "si_Unattended sample_start \<longrightarrow> di_RequireSandbox request"
    using started_delivery_within_platform [OF c f(1,2) s] by blast
  with c s f(3,4) show ?thesis by auto
qed

end
